(* ===== verification/Prelude.thy ===== *)
theory Prelude
  imports Main "HOL-Library.Word"
begin

text \<open>
  The vocabulary the components share: the FIFO streams that connect the processes
  (\<open>hls::stream\<close>), the bounds check of the tables indexed by a session identifier, and the
  lemma collections the component proofs use.

  A process of the stack is one C++ function that the hardware runs once per clock cycle.  Each
  is translated into a step function on the record that holds its static variables and the
  streams it reads and writes.  A step that would index an array out of its bounds, which C++
  leaves undefined, is \<open>None\<close>.
\<close>

named_theorems stream_simps "rewriting of stream accesses"
named_theorems step_defs "definitions of the process steps"
named_theorems reset_defs "definitions of the states after reset"

section \<open>Streams\<close>

text \<open>
  A stream is the list of its elements, oldest first, and the depth of the FIFO that implements
  it.  \<open>swrite\<close> never loses an element: writing to a full FIFO makes the hardware process wait
  until there is room, and the C simulation lets the FIFO grow.  A process that has to avoid
  the wait asks \<open>sfull\<close> first.
\<close>

datatype 'a stream = Stream (depth: nat) (items: "'a list")

definition sempty :: "'a stream \<Rightarrow> bool" where
  "sempty st \<longleftrightarrow> items st = []"

definition sfull :: "'a stream \<Rightarrow> bool" where
  "sfull st \<longleftrightarrow> depth st \<le> length (items st)"

definition swrite :: "'a stream \<Rightarrow> 'a \<Rightarrow> 'a stream" where
  "swrite st x = Stream (depth st) (items st @ [x])"

definition sread :: "'a stream \<Rightarrow> ('a \<times> 'a stream) option" where
  "sread st = (case items st of [] \<Rightarrow> None | x # xs \<Rightarrow> Some (x, Stream (depth st) xs))"

lemma items_swrite [simp]: "items (swrite st x) = items st @ [x]"
  by (simp add: swrite_def)

lemma depth_swrite [simp]: "depth (swrite st x) = depth st"
  by (simp add: swrite_def)

lemma sread_Stream [stream_simps]:
  "sread (Stream d []) = None"
  "sread (Stream d (x # xs)) = Some (x, Stream d xs)"
  by (simp_all add: sread_def)

lemma sempty_Stream [stream_simps]: "sempty (Stream d xs) \<longleftrightarrow> xs = []"
  by (simp add: sempty_def)

lemma sfull_Stream [stream_simps]: "sfull (Stream d xs) \<longleftrightarrow> d \<le> length xs"
  by (simp add: sfull_def)

lemma swrite_Stream [stream_simps]: "swrite (Stream d xs) x = Stream d (xs @ [x])"
  by (simp add: swrite_def)

lemma sread_None_iff: "sread st = None \<longleftrightarrow> items st = []"
  by (simp add: sread_def split: list.splits)

lemma sread_Some_iff:
  "sread st = Some (x, st') \<longleftrightarrow> items st = x # items st' \<and> depth st' = depth st"
  by (cases st; cases st') (auto simp: sread_def split: list.splits)

lemma sread_empty [simp]: "items st = [] \<Longrightarrow> sread st = None"
  by (simp add: sread_None_iff)

lemma sread_cons: "items st = x # xs \<Longrightarrow> sread st = Some (x, Stream (depth st) xs)"
  by (simp add: sread_def)

lemma sempty_iff_sread: "sempty st \<longleftrightarrow> sread st = None"
  by (simp add: sempty_def sread_None_iff)

lemma sread_SomeE:
  assumes "sread st = Some (x, st')"
  obtains xs where "items st = x # xs" "items st' = xs" "depth st' = depth st"
  using assms by (simp add: sread_Some_iff)

section \<open>The interface of a FIFO\<close>

text \<open>
  What the processes rely on when they exchange messages over a stream: a read returns the
  oldest element that was written and removes it, a write goes to the end.  The lemmas state
  what a producer and a consumer that share a FIFO may conclude.
\<close>

primrec get_n :: "('q \<Rightarrow> ('a \<times> 'q) option) \<Rightarrow> nat \<Rightarrow> 'q \<Rightarrow> 'a list" where
  "get_n get 0 q = []"
| "get_n get (Suc n) q = (case get q of None \<Rightarrow> [] | Some (x, q') \<Rightarrow> x # get_n get n q')"

locale fifo =
  fixes contents :: "'q \<Rightarrow> 'a list"
    and put :: "'q \<Rightarrow> 'a \<Rightarrow> 'q"
    and get :: "'q \<Rightarrow> ('a \<times> 'q) option"
  assumes contents_put: "contents (put q x) = contents q @ [x]"
    and get_empty: "contents q = [] \<Longrightarrow> get q = None"
    and get_cons: "contents q = x # xs \<Longrightarrow> \<exists>q'. get q = Some (x, q') \<and> contents q' = xs"
begin

lemma contents_put_all: "contents (foldl put q xs) = contents q @ xs"
  by (induction xs arbitrary: q) (simp_all add: contents_put)

lemma get_n_take: "get_n get n q = take n (contents q)"
proof (induction n arbitrary: q)
  case 0
  show ?case by simp
next
  case (Suc n)
  show ?case
  proof (cases "contents q")
    case Nil
    then show ?thesis by (simp add: get_empty)
  next
    case (Cons x xs)
    then obtain q' where "get q = Some (x, q')" "contents q' = xs"
      using get_cons by blast
    with Suc Cons show ?thesis by simp
  qed
qed

lemma fifo_order: "contents q = [] \<Longrightarrow> get_n get (length xs) (foldl put q xs) = xs"
  by (simp add: get_n_take contents_put_all)

lemma get_after_put:
  assumes "contents q = x # xs"
  obtains q' where "get (put q y) = Some (x, q')" "contents q' = xs @ [y]"
  using get_cons [of "put q y" x "xs @ [y]"] assms by (auto simp: contents_put)

end

interpretation hls_stream: fifo items swrite sread
  by unfold_locales (auto simp: sread_def split: list.splits)

section \<open>Tables indexed by a session\<close>

text \<open>
  \<open>TOE_MAX_SESSIONS\<close> of \<open>nts_config.hpp\<close>.  The session tables have that many entries, and their
  index is a 16-bit \<open>SessionId\<close>, so an access is in bounds only below it.
\<close>

definition TOE_MAX_SESSIONS :: nat where
  "TOE_MAX_SESSIONS = 8"

definition sess_ok :: "'a::len word \<Rightarrow> bool" where
  "sess_ok i \<longleftrightarrow> unat i < TOE_MAX_SESSIONS"

text \<open>\<open>in_bounds i k\<close> continues with \<open>k\<close> after an access at index \<open>i\<close>; \<open>None\<close> is undefined
  behaviour.\<close>

definition in_bounds :: "'a::len word \<Rightarrow> 'b option \<Rightarrow> 'b option" where
  "in_bounds i k = (if sess_ok i then k else None)"

lemma in_bounds_ok [simp]: "sess_ok i \<Longrightarrow> in_bounds i k = k"
  by (simp add: in_bounds_def)

lemma in_bounds_Some [simp]: "in_bounds i k = Some r \<longleftrightarrow> sess_ok i \<and> k = Some r"
  by (simp add: in_bounds_def)

lemma in_bounds_None: "in_bounds i k = None \<longleftrightarrow> \<not> sess_ok i \<or> k = None"
  by (simp add: in_bounds_def)

lemma sess_ok_iff: "sess_ok i \<longleftrightarrow> unat i < 8"
  by (simp add: sess_ok_def TOE_MAX_SESSIONS_def)

section \<open>Runs of a step function\<close>

text \<open>\<open>steps f n s\<close> runs the process \<open>n\<close> times; it is \<open>None\<close> when some step is undefined.\<close>

primrec steps :: "('s \<Rightarrow> 's option) \<Rightarrow> nat \<Rightarrow> 's \<Rightarrow> 's option" where
  "steps f 0 s = Some s"
| "steps f (Suc n) s = (case f s of None \<Rightarrow> None | Some s' \<Rightarrow> steps f n s')"

lemma steps_add: "steps f (m + n) s = (case steps f m s of None \<Rightarrow> None | Some s' \<Rightarrow> steps f n s')"
  by (induction m arbitrary: s) (auto split: option.splits)

lemma steps_invariant:
  assumes "\<And>s s'. I s \<Longrightarrow> f s = Some s' \<Longrightarrow> I s'" "I s" "steps f n s = Some s'"
  shows "I s'"
  using assms(2,3)
proof (induction n arbitrary: s)
  case (Suc n)
  then show ?case by (auto split: option.splits intro: assms(1))
qed simp

lemma steps_defined:
  assumes "\<And>s. I s \<Longrightarrow> \<exists>s'. f s = Some s' \<and> I s'" "I s"
  shows "\<exists>s'. steps f n s = Some s' \<and> I s'"
  using assms(2)
proof (induction n arbitrary: s)
  case (Suc n)
  then obtain s' where "f s = Some s'" "I s'"
    using assms(1) by blast
  with Suc.IH show ?case by simp
qed simp

section \<open>Tables scanned one entry per cycle\<close>

text \<open>
  The ACK delayer and the timers keep a table with an entry per session and visit one entry per
  cycle while no command arrives.  \<open>M\<close> is the size of the table, \<open>ptr\<close> the entry that the next
  cycle visits, \<open>upd\<close> what a visit does to the entry, \<open>fires\<close> the entries whose visit emits a
  message, \<open>msg\<close> the message and \<open>out\<close> the messages emitted so far.  \<open>ok\<close> is the condition under
  which the table is scanned.
\<close>

locale scan =
  fixes M :: nat
    and ok :: "'s \<Rightarrow> bool"
    and ptr :: "'s \<Rightarrow> nat"
    and entry :: "'s \<Rightarrow> nat \<Rightarrow> 'e"
    and upd :: "'e \<Rightarrow> 'e"
    and fires :: "'e \<Rightarrow> bool"
    and msg :: "nat \<Rightarrow> 'e \<Rightarrow> 'o"
    and out :: "'s \<Rightarrow> 'o list"
    and tick :: "'s \<Rightarrow> 's option"
  assumes ptr_less: "ok s \<Longrightarrow> ptr s < M"
    and tick_ok: "ok s \<Longrightarrow> \<exists>s'. tick s = Some s' \<and> ok s'"
    and tick_ptr: "ok s \<Longrightarrow> tick s = Some s' \<Longrightarrow> ptr s' = (if Suc (ptr s) = M then 0 else Suc (ptr s))"
    and tick_entry: "ok s \<Longrightarrow> tick s = Some s' \<Longrightarrow> i < M \<Longrightarrow>
      entry s' i = (if i = ptr s then upd (entry s i) else entry s i)"
    and tick_out: "ok s \<Longrightarrow> tick s = Some s' \<Longrightarrow>
      out s' = out s @ (if fires (entry s (ptr s)) then [msg (ptr s) (entry s (ptr s))] else [])"
begin

lemma steps_ok: "ok s \<Longrightarrow> \<exists>s'. steps tick n s = Some s' \<and> ok s'"
  by (rule steps_defined) (auto dest: tick_ok)

lemma out_grows: "ok s \<Longrightarrow> steps tick n s = Some s' \<Longrightarrow> \<exists>xs. out s' = out s @ xs"
proof (induction n arbitrary: s)
  case (Suc n)
  obtain t where t: "tick s = Some t" "ok t"
    using tick_ok [OF Suc.prems(1)] by blast
  obtain xs where "out s' = out t @ xs"
    using Suc.IH [OF t(2)] Suc.prems(2) t(1) by auto
  then show ?case by (simp add: tick_out [OF Suc.prems(1) t(1)])
qed simp

text \<open>The part of a round from entry \<open>p\<close> to entry \<open>p + n\<close>.\<close>

lemma steps_forward:
  assumes "ok s" "ptr s + n < M" "steps tick n s = Some s'"
  shows "ptr s' = ptr s + n \<and>
    (\<forall>i < M. entry s' i =
       (if ptr s \<le> i \<and> i < ptr s + n then upd (entry s i) else entry s i))"
  using assms
proof (induction n arbitrary: s)
  case (Suc n)
  obtain t where t: "tick s = Some t" "ok t"
    using tick_ok [OF Suc.prems(1)] by blast
  have p: "ptr t = Suc (ptr s)"
    using tick_ptr [OF Suc.prems(1) t(1)] Suc.prems(2) by simp
  show ?case
    using Suc.IH [OF t(2)] Suc.prems t p tick_entry [OF Suc.prems(1) t(1)] by auto
qed auto

lemma steps_round:
  assumes "ok s" "steps tick M s = Some s'"
  shows "ok s' \<and> ptr s' = ptr s \<and> (\<forall>i < M. entry s' i = upd (entry s i))"
proof -
  define n where "n = M - Suc (ptr s)"
  have M: "M = n + Suc (ptr s)" using ptr_less [OF assms(1)] by (simp add: n_def)
  obtain t where t: "steps tick n s = Some t" "ok t"
    using steps_ok [OF assms(1)] by blast
  note f1 = steps_forward [OF assms(1) _ t(1)]
  obtain u where u: "tick t = Some u" "ok u"
    using tick_ok [OF t(2)] by blast
  have pt: "ptr t = ptr s + n" using f1 M by simp
  have pu: "ptr u = 0" using tick_ptr [OF t(2) u(1)] pt M by simp
  have "steps tick (n + Suc (ptr s)) s = Some s'" using assms(2) M by simp
  then have v: "steps tick (ptr s) u = Some s'"
    by (simp only: steps_add t option.case steps.simps u)
  note f2 = steps_forward [OF u(2) _ v]
  have "ok s'" using steps_ok [OF assms(1), of M] assms(2) by simp
  moreover have "ptr s' = ptr s" using f2 pu M by simp
  moreover have "entry s' i = upd (entry s i)" if "i < M" for i
  proof (cases "i < ptr s")
    case True
    then show ?thesis using f1 f2 pu pt M that tick_entry [OF t(2) u(1) that] by simp
  next
    case False
    then show ?thesis using f1 f2 pu pt M that tick_entry [OF t(2) u(1) that] by auto
  qed
  ultimately show ?thesis by blast
qed

lemma steps_rounds:
  assumes "ok s" "steps tick (M * n) s = Some s'"
  shows "ok s' \<and> ptr s' = ptr s \<and> (\<forall>i < M. entry s' i = (upd ^^ n) (entry s i))"
  using assms
proof (induction n arbitrary: s)
  case (Suc n)
  obtain t where t: "steps tick M s = Some t"
    using steps_ok [OF Suc.prems(1)] by blast
  have "steps tick (M * n) t = Some s'"
    using Suc.prems(2) t by (simp add: steps_add)
  with Suc.IH [of t] steps_round [OF Suc.prems(1) t] show ?case
    by (simp add: funpow_swap1)
qed simp

text \<open>In a round every entry is visited once, so one that fires emits its message.\<close>

lemma fires_in_round:
  assumes "ok s" "i < M" "fires (entry s i)"
  shows "\<exists>s' xs. steps tick M s = Some s' \<and> out s' = out s @ xs \<and> msg i (entry s i) \<in> set xs"
proof -
  define d where "d = (if ptr s \<le> i then i - ptr s else M - ptr s + i)"
  have less: "ptr s < M" using ptr_less [OF assms(1)] .
  have visit: "\<exists>t. steps tick d s = Some t \<and> ok t \<and> ptr t = i \<and> entry t i = entry s i"
  proof (cases "ptr s \<le> i")
    case True
    obtain t where t: "steps tick d s = Some t" "ok t"
      using steps_ok [OF assms(1)] by blast
    then show ?thesis
      using steps_forward [OF assms(1) _ t(1)] True assms(2) by (auto simp: d_def)
  next
    case False
    define n where "n = M - Suc (ptr s)"
    have M: "M = Suc (ptr s + n)" using less by (simp add: n_def)
    have d: "d = n + Suc i" using False M by (simp add: d_def)
    obtain t where t: "steps tick n s = Some t" "ok t"
      using steps_ok [OF assms(1)] by blast
    obtain u where u: "tick t = Some u" "ok u"
      using tick_ok [OF t(2)] by blast
    obtain v where v: "steps tick i u = Some v" "ok v"
      using steps_ok [OF u(2)] by blast
    have pt: "ptr t = ptr s + n" "entry t i = entry s i"
      using steps_forward [OF assms(1) _ t(1)] M False assms(2) by auto
    have pu: "ptr u = 0" "entry u i = entry s i"
      using tick_ptr [OF t(2) u(1)] tick_entry [OF t(2) u(1) assms(2)] pt M assms(2) False by auto
    have "steps tick d s = Some v"
      using t u v by (simp only: d steps_add option.case steps.simps)
    then show ?thesis
      using v steps_forward [OF u(2) _ v(1)] pu assms(2) by auto
  qed
  then obtain t where t: "steps tick d s = Some t" "ok t" "ptr t = i" "entry t i = entry s i"
    by blast
  obtain u where u: "tick t = Some u" "ok u"
    using tick_ok [OF t(2)] by blast
  have "d < M" using less assms(2) by (auto simp: d_def)
  then obtain k where M: "M = d + Suc k" using less_iff_Suc_add by auto
  obtain v where v: "steps tick k u = Some v"
    using steps_ok [OF u(2)] by blast
  have "steps tick M s = Some v"
    using t u v by (simp only: M steps_add option.case steps.simps)
  moreover obtain xs where "out t = out s @ xs"
    using out_grows [OF assms(1) t(1)] by blast
  moreover obtain ys where "out v = out u @ ys"
    using out_grows [OF u(2) v] by blast
  moreover have "out u = out t @ [msg i (entry s i)]"
    using tick_out [OF t(2) u(1)] t assms(3) by simp
  ultimately show ?thesis by simp
qed

lemma fires_within:
  assumes "ok s" "i < M" "fires ((upd ^^ n) (entry s i))"
  shows "\<exists>s' xs. steps tick (M * Suc n) s = Some s' \<and> out s' = out s @ xs \<and>
    msg i ((upd ^^ n) (entry s i)) \<in> set xs"
proof -
  obtain t where t: "steps tick (M * n) s = Some t"
    using steps_ok [OF assms(1)] by blast
  note r = steps_rounds [OF assms(1) t]
  obtain v xs where v: "steps tick M t = Some v" "out v = out t @ xs"
      "msg i ((upd ^^ n) (entry s i)) \<in> set xs"
    using fires_in_round [of t i] r assms by auto
  moreover obtain ys where "out t = out s @ ys"
    using out_grows [OF assms(1) t] by blast
  moreover have "steps tick (M * n + M) s = Some v"
    by (simp only: steps_add t option.case v)
  ultimately show ?thesis by (auto simp: add.commute)
qed

end

section \<open>Words\<close>

lemma unat_add_1: "w \<noteq> - 1 \<Longrightarrow> unat (w + 1 :: 'a::len word) = Suc (unat w)"
  using unatSuc [of w] by (simp add: add.commute add_eq_0_iff)

text \<open>A function that counts \<open>t\<close> down and keeps \<open>r\<close>.\<close>

lemma funpow_countdown:
  fixes t :: "'e \<Rightarrow> 'a::len word" and r :: "'e \<Rightarrow> 'r"
  assumes "\<And>x. 0 < t x \<Longrightarrow> r x = r e \<Longrightarrow> t (f x) = t x - 1 \<and> r (f x) = r x"
    and "n \<le> unat (t e)"
  shows "unat (t ((f ^^ n) e)) = unat (t e) - n \<and> r ((f ^^ n) e) = r e"
  using assms(2)
proof (induction n)
  case (Suc n)
  then have IH: "unat (t ((f ^^ n) e)) = unat (t e) - n" "r ((f ^^ n) e) = r e" by simp_all
  then have nz: "t ((f ^^ n) e) \<noteq> 0" using Suc.prems by auto
  then have "0 < t ((f ^^ n) e)" by (simp add: word_gt_0)
  from assms(1) [OF this IH(2)] show ?case
    using IH nz by (simp add: unat_minus_one)
qed simp

end
