(* ===== verification/Toe_Types.thy ===== *)
theory Toe_Types
  imports Prelude
begin

text \<open>
  The data types the processes of the TCP offload engine exchange, from
  \<open>NTS/nts_types.hpp\<close>, \<open>NTS/nts.hpp\<close> and \<open>NTS/toe/src/toe.hpp\<close>.  An \<open>ap_uint<w>\<close> is a
  \<open>w word\<close>, a one-bit flag is \<open>bool\<close>, a class is a record with the fields of the class, and a
  constructor that the processes use with fixed fields is a definition.
\<close>

section \<open>Scalar types\<close>

type_synonym SessionId = "16 word"
type_synonym RtlSessId = "14 word"
type_synonym TcpPort = "16 word"
type_synonym TcpStaPort = "15 word"
type_synonym TcpDynPort = "15 word"
type_synonym TcpSeqNum = "32 word"
type_synonym TcpAckNum = "32 word"
type_synonym TcpWindow = "16 word"
type_synonym TcpBufAdr = "16 word"
type_synonym TcpSegLen = "16 word"
type_synonym TcpDatLen = "16 word"
type_synonym Ip4Addr = "32 word"
type_synonym RxBufPtr = "16 word"
type_synonym TxBufPtr = "16 word"
type_synonym RxSeqNum = "32 word"
type_synonym TxAckNum = "32 word"

section \<open>Byte order\<close>

text \<open>\<open>byteSwap16\<close> and \<open>byteSwap32\<close> of \<open>nts_utils.cpp\<close>: the bytes, concatenated in the reverse
  order.\<close>

definition byteSwap16 :: "16 word \<Rightarrow> 16 word" where
  "byteSwap16 v = word_cat (ucast v :: 8 word) (ucast (drop_bit 8 v) :: 8 word)"

definition byteSwap32 :: "32 word \<Rightarrow> 32 word" where
  "byteSwap32 v =
     word_cat (word_cat (ucast v :: 8 word) (ucast (drop_bit 8 v) :: 8 word) :: 16 word)
              (word_cat (ucast (drop_bit 16 v) :: 8 word) (ucast (drop_bit 24 v) :: 8 word) :: 16 word)"

section \<open>Connections\<close>

datatype TcpState = CLOSED | SYN_SENT | SYN_RECEIVED | ESTABLISHED | FIN_WAIT_1 | FIN_WAIT_2
  | CLOSING | TIME_WAIT | LAST_ACK

datatype EventType = TX_EVENT | RT_EVENT | ACK_EVENT | SYN_EVENT | SYN_ACK_EVENT | FIN_EVENT
  | RST_EVENT | ACK_NODELAY_EVENT

record SockAddr =
  sa_addr :: "32 word"
  sa_port :: "16 word"

record SocketPair =
  sp_src :: SockAddr
  sp_dst :: SockAddr

record FourTuple =
  myIp :: "32 word"
  theirIp :: "32 word"
  myPort :: "16 word"
  theirPort :: "16 word"

record fourTuple =
  ft_srcIp :: "32 word"
  ft_dstIp :: "32 word"
  ft_srcPort :: "16 word"
  ft_dstPort :: "16 word"

section \<open>State table\<close>

record StateQuery =
  sq_sessionID :: SessionId
  sq_state :: TcpState
  sq_write :: bool

definition StateQuery_rd :: "SessionId \<Rightarrow> StateQuery" where
  "StateQuery_rd sid = \<lparr>sq_sessionID = sid, sq_state = CLOSED, sq_write = False\<rparr>"

definition StateQuery_wr :: "SessionId \<Rightarrow> TcpState \<Rightarrow> StateQuery" where
  "StateQuery_wr sid st = \<lparr>sq_sessionID = sid, sq_state = st, sq_write = True\<rparr>"

section \<open>Rx SAR table\<close>

record RxSarReply =
  rsr_appd :: RxBufPtr
  rsr_rcvd :: RxSeqNum
  rsr_oooHead :: RxSeqNum
  rsr_oooTail :: RxSeqNum
  rsr_ooo :: bool

record RXeRxSarQuery =
  xq_sessionID :: SessionId
  xq_rcvd :: RxSeqNum
  xq_oooHead :: RxSeqNum
  xq_oooTail :: RxSeqNum
  xq_ooo :: bool
  xq_write :: bool
  xq_init :: bool

definition RXeRxSarQuery_rd :: "SessionId \<Rightarrow> RXeRxSarQuery" where
  "RXeRxSarQuery_rd sid = \<lparr>xq_sessionID = sid, xq_rcvd = 0, xq_oooHead = 0, xq_oooTail = 0,
     xq_ooo = False, xq_write = False, xq_init = False\<rparr>"

definition RXeRxSarQuery_wr :: "SessionId \<Rightarrow> RxSeqNum \<Rightarrow> RXeRxSarQuery" where
  "RXeRxSarQuery_wr sid rcvd = \<lparr>xq_sessionID = sid, xq_rcvd = rcvd, xq_oooHead = 0, xq_oooTail = 0,
     xq_ooo = False, xq_write = True, xq_init = False\<rparr>"

definition RXeRxSarQuery_init :: "SessionId \<Rightarrow> RxSeqNum \<Rightarrow> RXeRxSarQuery" where
  "RXeRxSarQuery_init sid rcvd = \<lparr>xq_sessionID = sid, xq_rcvd = rcvd, xq_oooHead = 0,
     xq_oooTail = 0, xq_ooo = False, xq_write = True, xq_init = True\<rparr>"

definition RXeRxSarQuery_ooo ::
  "SessionId \<Rightarrow> RxSeqNum \<Rightarrow> bool \<Rightarrow> RxSeqNum \<Rightarrow> RxSeqNum \<Rightarrow> RXeRxSarQuery" where
  "RXeRxSarQuery_ooo sid rcvd ooo h t = \<lparr>xq_sessionID = sid, xq_rcvd = rcvd, xq_oooHead = h,
     xq_oooTail = t, xq_ooo = ooo, xq_write = True, xq_init = False\<rparr>"

record RAiRxSarQuery =
  aq_sessionID :: SessionId
  aq_appd :: RxBufPtr
  aq_write :: bool

record RAiRxSarReply =
  ar_sessionID :: SessionId
  ar_appd :: RxBufPtr

section \<open>Tx SAR table\<close>

record RXeTxSarQuery =
  rtq_sessionID :: SessionId
  rtq_ackd :: TxAckNum
  rtq_recv_window :: TcpWindow
  rtq_cong_window :: TcpWindow
  rtq_count :: "2 word"
  rtq_fastRetransmitted :: bool
  rtq_write :: bool

record RXeTxSarReply =
  rtr_prevAckd :: TxAckNum
  rtr_prevUnak :: TxAckNum
  rtr_cong_window :: TcpWindow
  rtr_slowstart_threshold :: TcpWindow
  rtr_count :: "2 word"
  rtr_fastRetransmitted :: bool

record TXeTxSarQuery =
  ttq_sessionID :: SessionId
  ttq_not_ackd :: TxAckNum
  ttq_write :: bool
  ttq_init :: bool
  ttq_finReady :: bool
  ttq_finSent :: bool
  ttq_isRtQuery :: bool

text \<open>\<open>TXeTxSarRtQuery::getThreshold\<close>: the low \<open>TOE_WINDOW_BITS\<close> bits of \<open>not_ackd\<close>.\<close>

definition getThreshold :: "TXeTxSarQuery \<Rightarrow> TcpWindow" where
  "getThreshold q = ucast (ttq_not_ackd q)"

definition TXeTxSarRtQuery :: "SessionId \<Rightarrow> TcpWindow \<Rightarrow> TXeTxSarQuery" where
  "TXeTxSarRtQuery sid ssthresh = \<lparr>ttq_sessionID = sid, ttq_not_ackd = ucast ssthresh,
     ttq_write = True, ttq_init = False, ttq_finReady = False, ttq_finSent = False,
     ttq_isRtQuery = True\<rparr>"

record TXeTxSarReply =
  ttr_ackd :: TxAckNum
  ttr_not_ackd :: TxAckNum
  ttr_min_window :: TcpWindow
  ttr_app :: TxBufPtr
  ttr_finReady :: bool
  ttr_finSent :: bool

record TAiTxSarPush =
  tap_sessionID :: SessionId
  tap_app :: TxBufPtr

record TStTxSarPush =
  tsp_sessionID :: SessionId
  tsp_ackd :: "16 word"
  tsp_init :: bool

section \<open>Session lookup\<close>

record SessionLookupQuery =
  slq_tuple :: SocketPair
  slq_allowCreation :: bool

record SessionLookupReply =
  slr_sessionID :: SessionId
  slr_hit :: bool

text \<open>The initiator of a lookup (\<open>FROM_RXe\<close> is 0, \<open>FROM_TAi\<close> is 1) and the update operation.\<close>

datatype LkpSrcBit = FROM_RXe | FROM_TAi

datatype LkpOpBit = INSERT | DELETE

record CamSessionLookupRequest =
  clq_key :: FourTuple
  clq_source :: LkpSrcBit

record CamSessionLookupReply =
  clr_sessionID :: RtlSessId
  clr_source :: LkpSrcBit
  clr_hit :: bool

record CamSessionUpdateRequest =
  cuq_key :: FourTuple
  cuq_value :: RtlSessId
  cuq_source :: LkpSrcBit
  cuq_op :: LkpOpBit

record CamSessionUpdateReply =
  cur_sessionID :: RtlSessId
  cur_source :: LkpSrcBit
  cur_op :: LkpOpBit

section \<open>Timers and events\<close>

datatype TimerCmd = LOAD_TIMER | STOP_TIMER

record RXeReTransTimerCmd =
  rrt_sessionID :: SessionId
  rrt_command :: TimerCmd

record TXeReTransTimerCmd =
  trt_sessionID :: SessionId
  trt_type :: EventType

record Event =
  ev_type :: EventType
  ev_sessionID :: SessionId
  ev_address :: TcpBufAdr
  ev_length :: TcpSegLen
  ev_rt_count :: "3 word"

definition Event_sess :: "EventType \<Rightarrow> SessionId \<Rightarrow> Event" where
  "Event_sess ty sid = \<lparr>ev_type = ty, ev_sessionID = sid, ev_address = 0, ev_length = 0,
     ev_rt_count = 0\<rparr>"

definition Event_rt :: "EventType \<Rightarrow> SessionId \<Rightarrow> 3 word \<Rightarrow> Event" where
  "Event_rt ty sid n = \<lparr>ev_type = ty, ev_sessionID = sid, ev_address = 0, ev_length = 0,
     ev_rt_count = n\<rparr>"

definition Event_adr :: "EventType \<Rightarrow> SessionId \<Rightarrow> 16 word \<Rightarrow> 16 word \<Rightarrow> Event" where
  "Event_adr ty sid addr len = \<lparr>ev_type = ty, ev_sessionID = sid, ev_address = addr,
     ev_length = len, ev_rt_count = 0\<rparr>"

text \<open>
  The extended event carries a socket pair.  The constructor from a plain event leaves the pair
  uninitialised, which is \<open>None\<close>.
\<close>

record ExtendedEvent =
  ex_event :: Event
  ex_tuple :: "SocketPair option"

definition ExtendedEvent_of :: "Event \<Rightarrow> ExtendedEvent" where
  "ExtendedEvent_of ev = \<lparr>ex_event = ev, ex_tuple = None\<rparr>"

text \<open>\<open>rstEvent\<close>: a reset event keeps the sequence number of the segment in its \<open>address\<close> and
  \<open>length\<close> fields and uses \<open>rt_count\<close> to say whether it has a session.\<close>

definition rstEvent :: "SessionId \<Rightarrow> RxSeqNum \<Rightarrow> bool \<Rightarrow> Event" where
  "rstEvent sid seq hasSessionID = \<lparr>ev_type = RST_EVENT, ev_sessionID = sid,
     ev_address = ucast (drop_bit 16 seq), ev_length = ucast seq,
     ev_rt_count = (if hasSessionID then 1 else 0)\<rparr>"

definition getAckNumb :: "Event \<Rightarrow> TxAckNum" where
  "getAckNumb ev = word_cat (ev_address ev) (ev_length ev)"

definition hasSessionID :: "Event \<Rightarrow> bool" where
  "hasSessionID ev \<longleftrightarrow> ev_rt_count ev \<noteq> 0"

section \<open>Application notifications\<close>

record SessState =
  ss_sessId :: SessionId
  ss_tcpState :: TcpState

record TcpAppNotif =
  an_sessionID :: SessionId
  an_tcpDatLen :: TcpDatLen
  an_ip4SrcAddr :: Ip4Addr
  an_tcpSrcPort :: TcpPort
  an_tcpDstPort :: TcpPort
  an_tcpState :: TcpState

definition TcpAppNotif_state :: "SessionId \<Rightarrow> TcpState \<Rightarrow> TcpAppNotif" where
  "TcpAppNotif_state sid st = \<lparr>an_sessionID = sid, an_tcpDatLen = 0, an_ip4SrcAddr = 0,
     an_tcpSrcPort = 0, an_tcpDstPort = 0, an_tcpState = st\<rparr>"

section \<open>Facts on the encodings\<close>

lemma byteSwap16_byteSwap16 [simp]: "byteSwap16 (byteSwap16 v) = v"
  by (rule bit_word_eqI)
    (auto simp: byteSwap16_def bit_word_cat_iff bit_ucast_iff bit_drop_bit_eq)

lemma byteSwap32_byteSwap32 [simp]: "byteSwap32 (byteSwap32 v) = v"
  by (rule bit_word_eqI)
    (auto simp: byteSwap32_def bit_word_cat_iff bit_ucast_iff bit_drop_bit_eq)

lemma byteSwap16_inject [simp]: "byteSwap16 a = byteSwap16 b \<longleftrightarrow> a = b"
  by (metis byteSwap16_byteSwap16)

lemma byteSwap32_inject [simp]: "byteSwap32 a = byteSwap32 b \<longleftrightarrow> a = b"
  by (metis byteSwap32_byteSwap32)

lemma getAckNumb_rstEvent: "getAckNumb (rstEvent sid seq h) = seq"
  by (rule bit_word_eqI)
    (auto simp: getAckNumb_def rstEvent_def bit_word_cat_iff bit_ucast_iff bit_drop_bit_eq)

lemma hasSessionID_rstEvent: "hasSessionID (rstEvent sid seq h) = h"
  by (simp add: hasSessionID_def rstEvent_def)

lemma getThreshold_TXeTxSarRtQuery: "getThreshold (TXeTxSarRtQuery sid s) = s"
  by (rule bit_word_eqI) (auto simp: getThreshold_def TXeTxSarRtQuery_def bit_ucast_iff)

section \<open>The next session\<close>

lemma unat_next_session: "sess_ok (i::SessionId) \<Longrightarrow>
    unat (if i + 1 = of_nat TOE_MAX_SESSIONS then 0 else i + 1) =
    (if Suc (unat i) = TOE_MAX_SESSIONS then 0 else Suc (unat i))"
proof -
  assume ok: "sess_ok i"
  then have "unat (i + 1) = Suc (unat i)"
    by (intro unat_add_1) (auto simp: sess_ok_iff unsigned_minus_1_eq_mask mask_eq_exp_minus_1)
  moreover have "i + 1 = of_nat TOE_MAX_SESSIONS \<longleftrightarrow> unat (i + 1) = TOE_MAX_SESSIONS"
    by (simp add: word_unat_eq_iff TOE_MAX_SESSIONS_def)
  ultimately show ?thesis by simp
qed

lemma of_nat_unat_eq: "n < TOE_MAX_SESSIONS \<Longrightarrow> of_nat n = (i::SessionId) \<longleftrightarrow> n = unat i"
  by (auto simp: TOE_MAX_SESSIONS_def word_unat_eq_iff unsigned_of_nat take_bit_nat_eq_self)

end
