(* ===== verification/State_Table.thy ===== *)
theory State_Table
  imports Toe_Types
begin

text \<open>
  The State Table (STt), \<open>NTS/toe/src/state_table/state_table.cpp\<close>: the connection state of every
  session, shared by the Rx engine, the Tx application interface and the timers.  A read query
  of the Rx engine or of the connect process of the Tx application interface locks the session
  for its initiator until that initiator writes a state back; queries of the other side and
  close commands wait meanwhile.  The theory shows that the locks exclude each other, that a
  locked session is stable, which steps release a session, and that a run of the process is the run
  with the same events of an abstract table whose steps are labelled with the request they serve.
\<close>

section \<open>State and step\<close>

record STt =
  stt_siRXe_SessStateQry :: "StateQuery stream"
  stt_soRXe_SessStateRep :: "TcpState stream"
  stt_siTAi_ConnectStateQry :: "StateQuery stream"
  stt_soTAi_ConnectStateRep :: "TcpState stream"
  stt_siTAi_StreamStateReq :: "SessionId stream"
  stt_soTAi_StreamStateRep :: "TcpState stream"
  stt_siTIm_SessCloseCmd :: "SessionId stream"
  stt_soSLc_SessReleaseCmd :: "SessionId stream"
  SESS_STATE_TABLE :: "SessionId \<Rightarrow> TcpState"
  stt_rxWait :: bool
  stt_txWait :: bool
  stt_rxSessionLocked :: bool
  stt_txSessionLocked :: bool
  stt_closeWait :: bool
  stt_txAccess :: StateQuery
  stt_rxAccess :: StateQuery
  stt_txSessionID :: SessionId
  stt_rxSessionID :: SessionId
  stt_closeSessionID :: SessionId

definition stt_reset :: STt where
  "stt_reset = \<lparr>
     stt_siRXe_SessStateQry = Stream 2 [], stt_soRXe_SessStateRep = Stream 2 [],
     stt_siTAi_ConnectStateQry = Stream 2 [], stt_soTAi_ConnectStateRep = Stream 2 [],
     stt_siTAi_StreamStateReq = Stream 2 [], stt_soTAi_StreamStateRep = Stream 2 [],
     stt_siTIm_SessCloseCmd = Stream 2 [], stt_soSLc_SessReleaseCmd = Stream 2 [],
     SESS_STATE_TABLE = (\<lambda>_. CLOSED),
     stt_rxWait = False, stt_txWait = False, stt_rxSessionLocked = False,
     stt_txSessionLocked = False, stt_closeWait = False,
     stt_txAccess = StateQuery_rd 0, stt_rxAccess = StateQuery_rd 0,
     stt_txSessionID = 0, stt_rxSessionID = 0, stt_closeSessionID = 0\<rparr>"

text \<open>The session is locked by the Rx engine, by the Tx application interface.\<close>

definition rx_locked :: "STt \<Rightarrow> SessionId \<Rightarrow> bool" where
  "rx_locked s i \<longleftrightarrow> i = stt_rxSessionID s \<and> stt_rxSessionLocked s"

definition tx_locked :: "STt \<Rightarrow> SessionId \<Rightarrow> bool" where
  "tx_locked s i \<longleftrightarrow> i = stt_txSessionID s \<and> stt_txSessionLocked s"

text \<open>
  The access of the pending query of the Tx application interface, once the session is not
  locked by the Rx engine.  The same statements serve a fresh query and one that waited.
\<close>

definition stt_tx_access :: "STt \<Rightarrow> STt option" where
  "stt_tx_access s =
     (let q = stt_txAccess s; i = sq_sessionID q in
      in_bounds i
        (if sq_write q then
           Some (s\<lparr>SESS_STATE_TABLE := (SESS_STATE_TABLE s)(i := sq_state q),
                   stt_txSessionLocked := False\<rparr>)
         else
           Some (s\<lparr>stt_soTAi_ConnectStateRep :=
                     swrite (stt_soTAi_ConnectStateRep s) (SESS_STATE_TABLE s i),
                   stt_txSessionID := i, stt_txSessionLocked := True\<rparr>)))"

text \<open>The access of the pending query of the Rx engine; writing CLOSED releases the session.\<close>

definition stt_rx_access :: "STt \<Rightarrow> STt option" where
  "stt_rx_access s =
     (let q = stt_rxAccess s; i = sq_sessionID q in
      in_bounds i
        (if sq_write q then
           (let s = (if sq_state q = CLOSED
                     then s\<lparr>stt_soSLc_SessReleaseCmd := swrite (stt_soSLc_SessReleaseCmd s) i\<rparr>
                     else s)
            in Some (s\<lparr>SESS_STATE_TABLE := (SESS_STATE_TABLE s)(i := sq_state q),
                       stt_rxSessionLocked := False\<rparr>))
         else
           Some (s\<lparr>stt_soRXe_SessStateRep :=
                     swrite (stt_soRXe_SessStateRep s) (SESS_STATE_TABLE s i),
                   stt_rxSessionID := i, stt_rxSessionLocked := True\<rparr>)))"

text \<open>The close command of the timers.\<close>

definition stt_close_access :: "STt \<Rightarrow> STt option" where
  "stt_close_access s =
     (let i = stt_closeSessionID s in
      in_bounds i
        (Some (s\<lparr>SESS_STATE_TABLE := (SESS_STATE_TABLE s)(i := CLOSED),
                 stt_soSLc_SessReleaseCmd := swrite (stt_soSLc_SessReleaseCmd s) i\<rparr>)))"

definition state_table :: "STt \<Rightarrow> STt option" where
  "state_table s =
     (if \<not> sempty (stt_siTAi_ConnectStateQry s) \<and> \<not> stt_txWait s then
        (case sread (stt_siTAi_ConnectStateQry s) of
           None \<Rightarrow> Some s
         | Some (q, si) \<Rightarrow>
             (let s = s\<lparr>stt_siTAi_ConnectStateQry := si, stt_txAccess := q\<rparr> in
              if rx_locked s (sq_sessionID q) then Some (s\<lparr>stt_txWait := True\<rparr>)
              else stt_tx_access s))
      else if \<not> sempty (stt_siTAi_StreamStateReq s) then
        (case sread (stt_siTAi_StreamStateReq s) of
           None \<Rightarrow> Some s
         | Some (i, si) \<Rightarrow>
             in_bounds i
               (Some (s\<lparr>stt_siTAi_StreamStateReq := si,
                        stt_soTAi_StreamStateRep :=
                          swrite (stt_soTAi_StreamStateRep s) (SESS_STATE_TABLE s i)\<rparr>)))
      else if \<not> sempty (stt_siRXe_SessStateQry s) \<and> \<not> stt_rxWait s then
        (case sread (stt_siRXe_SessStateQry s) of
           None \<Rightarrow> Some s
         | Some (q, si) \<Rightarrow>
             (let s = s\<lparr>stt_siRXe_SessStateQry := si, stt_rxAccess := q\<rparr> in
              if tx_locked s (sq_sessionID q) then Some (s\<lparr>stt_rxWait := True\<rparr>)
              else stt_rx_access s))
      else if \<not> sempty (stt_siTIm_SessCloseCmd s) \<and> \<not> stt_closeWait s then
        (case sread (stt_siTIm_SessCloseCmd s) of
           None \<Rightarrow> Some s
         | Some (i, si) \<Rightarrow>
             (let s = s\<lparr>stt_siTIm_SessCloseCmd := si, stt_closeSessionID := i\<rparr> in
              if rx_locked s i \<or> tx_locked s i then Some (s\<lparr>stt_closeWait := True\<rparr>)
              else stt_close_access s))
      else if stt_txWait s then
        (if \<not> rx_locked s (sq_sessionID (stt_txAccess s))
         then map_option (\<lambda>s. s\<lparr>stt_txWait := False\<rparr>) (stt_tx_access s)
         else Some s)
      else if stt_rxWait s then
        (if \<not> tx_locked s (sq_sessionID (stt_rxAccess s))
         then map_option (\<lambda>s. s\<lparr>stt_rxWait := False\<rparr>) (stt_rx_access s)
         else Some s)
      else if stt_closeWait s then
        (if \<not> rx_locked s (stt_closeSessionID s) \<and> \<not> tx_locked s (stt_closeSessionID s)
         then map_option (\<lambda>s. s\<lparr>stt_closeWait := False\<rparr>) (stt_close_access s)
         else Some s)
      else Some s)"

section \<open>The table in its environment\<close>

text \<open>
  The other processes of the engine post queries at any time; the clock runs the process.
\<close>

datatype stt_event = RXeQry StateQuery | TAiConnect StateQuery | TAiStream SessionId
  | TImClose SessionId | STtTick

fun stt_step :: "stt_event \<Rightarrow> STt \<Rightarrow> STt option" where
  "stt_step (RXeQry q) s =
     Some (s\<lparr>stt_siRXe_SessStateQry := swrite (stt_siRXe_SessStateQry s) q\<rparr>)"
| "stt_step (TAiConnect q) s =
     Some (s\<lparr>stt_siTAi_ConnectStateQry := swrite (stt_siTAi_ConnectStateQry s) q\<rparr>)"
| "stt_step (TAiStream i) s =
     Some (s\<lparr>stt_siTAi_StreamStateReq := swrite (stt_siTAi_StreamStateReq s) i\<rparr>)"
| "stt_step (TImClose i) s =
     Some (s\<lparr>stt_siTIm_SessCloseCmd := swrite (stt_siTIm_SessCloseCmd s) i\<rparr>)"
| "stt_step STtTick s = state_table s"

fun stt_run :: "stt_event list \<Rightarrow> STt \<Rightarrow> STt option" where
  "stt_run [] s = Some s"
| "stt_run (e # es) s = (case stt_step e s of None \<Rightarrow> None | Some s' \<Rightarrow> stt_run es s')"

lemma stt_run_invariant:
  assumes "\<And>e s s'. e \<in> E \<Longrightarrow> I s \<Longrightarrow> stt_step e s = Some s' \<Longrightarrow> I s'"
  shows "set es \<subseteq> E \<Longrightarrow> I s \<Longrightarrow> stt_run es s = Some s' \<Longrightarrow> I s'"
  by (induction es arbitrary: s) (auto split: option.splits intro: assms)

lemma stt_run_defined:
  assumes "\<And>e s. e \<in> E \<Longrightarrow> I s \<Longrightarrow> \<exists>s'. stt_step e s = Some s' \<and> I s'"
  shows "set es \<subseteq> E \<Longrightarrow> I s \<Longrightarrow> \<exists>s'. stt_run es s = Some s' \<and> I s'"
proof (induction es arbitrary: s)
  case (Cons e es)
  then obtain s' where "stt_step e s = Some s'" "I s'"
    using assms [of e s] by auto
  with Cons.IH [of s'] Cons.prems show ?case by simp
qed simp

lemmas stt_access_defs = stt_tx_access_def stt_rx_access_def stt_close_access_def Let_def
lemmas stt_lock_defs = rx_locked_def tx_locked_def


text \<open>The outcomes of one run of the process, as a transition relation.\<close>

inductive stt_trans :: "STt \<Rightarrow> STt \<Rightarrow> bool" where
  tx_wait: "\<not> stt_txWait s \<Longrightarrow> sread (stt_siTAi_ConnectStateQry s) = Some (q, si) \<Longrightarrow> rx_locked s (sq_sessionID q) \<Longrightarrow> s' = s\<lparr>stt_siTAi_ConnectStateQry := si, stt_txAccess := q, stt_txWait := True\<rparr> \<Longrightarrow>
     stt_trans s s'"
| tx_now: "\<not> stt_txWait s \<Longrightarrow> sread (stt_siTAi_ConnectStateQry s) = Some (q, si) \<Longrightarrow> \<not> rx_locked s (sq_sessionID q) \<Longrightarrow> stt_tx_access (s\<lparr>stt_siTAi_ConnectStateQry := si, stt_txAccess := q\<rparr>) = Some s' \<Longrightarrow>
     stt_trans s s'"
| stream: "sread (stt_siTAi_StreamStateReq s) = Some (i, si) \<Longrightarrow> sess_ok i \<Longrightarrow> s' = s\<lparr>stt_siTAi_StreamStateReq := si, stt_soTAi_StreamStateRep :=
         swrite (stt_soTAi_StreamStateRep s) (SESS_STATE_TABLE s i)\<rparr> \<Longrightarrow>
     stt_trans s s'"
| rx_wait: "\<not> stt_rxWait s \<Longrightarrow> sread (stt_siRXe_SessStateQry s) = Some (q, si) \<Longrightarrow> tx_locked s (sq_sessionID q) \<Longrightarrow> s' = s\<lparr>stt_siRXe_SessStateQry := si, stt_rxAccess := q, stt_rxWait := True\<rparr> \<Longrightarrow>
     stt_trans s s'"
| rx_now: "\<not> stt_rxWait s \<Longrightarrow> sread (stt_siRXe_SessStateQry s) = Some (q, si) \<Longrightarrow> \<not> tx_locked s (sq_sessionID q) \<Longrightarrow> stt_rx_access (s\<lparr>stt_siRXe_SessStateQry := si, stt_rxAccess := q\<rparr>) = Some s' \<Longrightarrow>
     stt_trans s s'"
| close_wait: "\<not> stt_closeWait s \<Longrightarrow> sread (stt_siTIm_SessCloseCmd s) = Some (i, si) \<Longrightarrow> rx_locked s i \<or> tx_locked s i \<Longrightarrow> s' = s\<lparr>stt_siTIm_SessCloseCmd := si, stt_closeSessionID := i, stt_closeWait := True\<rparr> \<Longrightarrow>
     stt_trans s s'"
| close_now: "\<not> stt_closeWait s \<Longrightarrow> sread (stt_siTIm_SessCloseCmd s) = Some (i, si) \<Longrightarrow> \<not> rx_locked s i \<Longrightarrow> \<not> tx_locked s i \<Longrightarrow> stt_close_access (s\<lparr>stt_siTIm_SessCloseCmd := si, stt_closeSessionID := i\<rparr>) = Some s' \<Longrightarrow>
     stt_trans s s'"
| tx_retry: "stt_txWait s \<Longrightarrow> \<not> rx_locked s (sq_sessionID (stt_txAccess s)) \<Longrightarrow> stt_tx_access s = Some t \<Longrightarrow> s' = t\<lparr>stt_txWait := False\<rparr> \<Longrightarrow>
     stt_trans s s'"
| rx_retry: "stt_rxWait s \<Longrightarrow> \<not> tx_locked s (sq_sessionID (stt_rxAccess s)) \<Longrightarrow> stt_rx_access s = Some t \<Longrightarrow> s' = t\<lparr>stt_rxWait := False\<rparr> \<Longrightarrow>
     stt_trans s s'"
| close_retry: "stt_closeWait s \<Longrightarrow> \<not> rx_locked s (stt_closeSessionID s) \<Longrightarrow> \<not> tx_locked s (stt_closeSessionID s) \<Longrightarrow> stt_close_access s = Some t \<Longrightarrow> s' = t\<lparr>stt_closeWait := False\<rparr> \<Longrightarrow>
     stt_trans s s'"
| tx_blocked: "stt_txWait s \<Longrightarrow> rx_locked s (sq_sessionID (stt_txAccess s)) \<Longrightarrow> stt_trans s s"
| rx_blocked: "stt_rxWait s \<Longrightarrow> tx_locked s (sq_sessionID (stt_rxAccess s)) \<Longrightarrow> stt_trans s s"
| close_blocked: "stt_closeWait s \<Longrightarrow> rx_locked s (stt_closeSessionID s) \<or> tx_locked s (stt_closeSessionID s) \<Longrightarrow>
     stt_trans s s"
| quiet: "\<not> stt_txWait s \<Longrightarrow> \<not> stt_rxWait s \<Longrightarrow> \<not> stt_closeWait s \<Longrightarrow>
     items (stt_siTAi_ConnectStateQry s) = [] \<Longrightarrow> items (stt_siTAi_StreamStateReq s) = [] \<Longrightarrow>
     items (stt_siRXe_SessStateQry s) = [] \<Longrightarrow> items (stt_siTIm_SessCloseCmd s) = [] \<Longrightarrow>
     stt_trans s s"

lemma locked_frame [simp]:
  "rx_locked (s\<lparr>stt_siTAi_ConnectStateQry := si, stt_txAccess := q\<rparr>) = rx_locked s"
  "tx_locked (s\<lparr>stt_siRXe_SessStateQry := si, stt_rxAccess := q\<rparr>) = tx_locked s"
  "rx_locked (s\<lparr>stt_siTIm_SessCloseCmd := sc, stt_closeSessionID := i\<rparr>) = rx_locked s"
  "tx_locked (s\<lparr>stt_siTIm_SessCloseCmd := sc, stt_closeSessionID := i\<rparr>) = tx_locked s"
  by (simp_all add: fun_eq_iff stt_lock_defs)

lemma state_table_trans:
  assumes "state_table s = Some s'"
  shows "stt_trans s s'"
proof (cases "stt_txWait s \<or> items (stt_siTAi_ConnectStateQry s) = []")
  case tx: True
  show ?thesis
  proof (cases "items (stt_siTAi_StreamStateReq s) = []")
    case st: True
    show ?thesis
    proof (cases "stt_rxWait s \<or> items (stt_siRXe_SessStateQry s) = []")
      case rx: True
      show ?thesis
      proof (cases "stt_closeWait s \<or> items (stt_siTIm_SessCloseCmd s) = []")
        case True
        with tx st rx assms show ?thesis
          by (auto simp: state_table_def sempty_def split: if_splits
              intro: tx_retry rx_retry close_retry tx_blocked rx_blocked close_blocked quiet)
      next
        case False
        with tx st rx assms show ?thesis
          by (auto simp: state_table_def sempty_def sread_None_iff Let_def
              split: if_splits option.splits prod.splits intro: close_wait close_now)
      qed
    next
      case False
      with tx st assms show ?thesis
        by (auto simp: state_table_def sempty_def sread_None_iff Let_def
            split: if_splits option.splits prod.splits intro: rx_wait rx_now)
    qed
  next
    case False
    with tx assms show ?thesis
      by (auto simp: state_table_def sempty_def sread_None_iff Let_def
          split: if_splits option.splits prod.splits intro: stream)
  qed
next
  case False
  with assms show ?thesis
    by (auto simp: state_table_def sempty_def sread_None_iff Let_def
        split: if_splits option.splits prod.splits intro: tx_wait tx_now)
qed

section \<open>The lock protocol it implements\<close>

text \<open>
  The abstract table: the states, the session each of the two sides holds locked, the requests
  of the four clients that have not been served, and the replies and releases sent so far.  A
  request that waits for a lock is still the first one of its client.
\<close>

record lock_table =
  lt_states :: "SessionId \<Rightarrow> TcpState"
  lt_rx :: "SessionId option"
  lt_tx :: "SessionId option"
  lt_rxQrys :: "StateQuery list"
  lt_txQrys :: "StateQuery list"
  lt_streamReqs :: "SessionId list"
  lt_closeCmds :: "SessionId list"
  lt_rxReps :: "TcpState list"
  lt_txReps :: "TcpState list"
  lt_streamReps :: "TcpState list"
  lt_released :: "SessionId list"

text \<open>The Rx engine, the connect and the stream process of the Tx application interface, the timers.\<close>

datatype lt_client = Lt_RXe | Lt_Connect | Lt_Stream | Lt_Timers

fun lt_pending :: "lt_client \<Rightarrow> lock_table \<Rightarrow> bool" where
  "lt_pending Lt_RXe a \<longleftrightarrow> lt_rxQrys a \<noteq> []"
| "lt_pending Lt_Connect a \<longleftrightarrow> lt_txQrys a \<noteq> []"
| "lt_pending Lt_Stream a \<longleftrightarrow> lt_streamReqs a \<noteq> []"
| "lt_pending Lt_Timers a \<longleftrightarrow> lt_closeCmds a \<noteq> []"

text \<open>The first request of the client is for a session that another client has locked.\<close>

fun lt_blocked :: "lt_client \<Rightarrow> lock_table \<Rightarrow> bool" where
  "lt_blocked Lt_RXe a \<longleftrightarrow> lt_tx a = Some (sq_sessionID (hd (lt_rxQrys a)))"
| "lt_blocked Lt_Connect a \<longleftrightarrow> lt_rx a = Some (sq_sessionID (hd (lt_txQrys a)))"
| "lt_blocked Lt_Stream a \<longleftrightarrow> False"
| "lt_blocked Lt_Timers a \<longleftrightarrow> hd (lt_closeCmds a) \<in> set_option (lt_rx a) \<union> set_option (lt_tx a)"

text \<open>
  Serving the first request of a client.  A read of the Rx engine or of the connect process
  answers with the state of the session and locks it; a write stores the state and unlocks; a
  stream request only reads; a close command, like a write of \<open>CLOSED\<close> by the Rx engine,
  releases the session.
\<close>

fun lt_serve :: "lt_client \<Rightarrow> lock_table \<Rightarrow> lock_table" where
  "lt_serve Lt_RXe a =
     (let q = hd (lt_rxQrys a); i = sq_sessionID q; a = a\<lparr>lt_rxQrys := tl (lt_rxQrys a)\<rparr> in
      if sq_write q
      then a\<lparr>lt_states := (lt_states a)(i := sq_state q), lt_rx := None,
             lt_released := lt_released a @ (if sq_state q = CLOSED then [i] else [])\<rparr>
      else a\<lparr>lt_rx := Some i, lt_rxReps := lt_rxReps a @ [lt_states a i]\<rparr>)"
| "lt_serve Lt_Connect a =
     (let q = hd (lt_txQrys a); i = sq_sessionID q; a = a\<lparr>lt_txQrys := tl (lt_txQrys a)\<rparr> in
      if sq_write q
      then a\<lparr>lt_states := (lt_states a)(i := sq_state q), lt_tx := None\<rparr>
      else a\<lparr>lt_tx := Some i, lt_txReps := lt_txReps a @ [lt_states a i]\<rparr>)"
| "lt_serve Lt_Stream a =
     a\<lparr>lt_streamReqs := tl (lt_streamReqs a),
       lt_streamReps := lt_streamReps a @ [lt_states a (hd (lt_streamReqs a))]\<rparr>"
| "lt_serve Lt_Timers a =
     (let i = hd (lt_closeCmds a) in
      a\<lparr>lt_closeCmds := tl (lt_closeCmds a), lt_states := (lt_states a)(i := CLOSED),
        lt_released := lt_released a @ [i]\<rparr>)"

fun lt_post :: "stt_event \<Rightarrow> lock_table \<Rightarrow> lock_table" where
  "lt_post (RXeQry q) a = a\<lparr>lt_rxQrys := lt_rxQrys a @ [q]\<rparr>"
| "lt_post (TAiConnect q) a = a\<lparr>lt_txQrys := lt_txQrys a @ [q]\<rparr>"
| "lt_post (TAiStream i) a = a\<lparr>lt_streamReqs := lt_streamReqs a @ [i]\<rparr>"
| "lt_post (TImClose i) a = a\<lparr>lt_closeCmds := lt_closeCmds a @ [i]\<rparr>"
| "lt_post STtTick a = a"

text \<open>
  The steps, labelled with the event: a request is appended to those of its client; a clock
  cycle serves exactly one client that is not blocked, or nothing, and this only when the request
  of some client is blocked or there is none at all.
\<close>

inductive lt_step :: "stt_event \<Rightarrow> lock_table \<Rightarrow> lock_table \<Rightarrow> bool" where
  post: "e \<noteq> STtTick \<Longrightarrow> lt_step e a (lt_post e a)"
| serve: "lt_pending c a \<Longrightarrow> \<not> lt_blocked c a \<Longrightarrow> lt_step STtTick a (lt_serve c a)"
| wait: "lt_pending c a \<Longrightarrow> lt_blocked c a \<Longrightarrow> lt_step STtTick a a"
| idle: "(\<And>c. \<not> lt_pending c a) \<Longrightarrow> lt_step STtTick a a"

inductive_cases lt_step_tickE: "lt_step STtTick a b"

inductive lt_run :: "stt_event list \<Rightarrow> lock_table \<Rightarrow> lock_table \<Rightarrow> bool" where
  stop: "lt_run [] a a"
| next_step: "lt_step e a b \<Longrightarrow> lt_run es b c \<Longrightarrow> lt_run (e # es) a c"

definition lt_exclusive :: "lock_table \<Rightarrow> bool" where
  "lt_exclusive a \<longleftrightarrow> (\<forall>i. lt_rx a = Some i \<longrightarrow> lt_tx a \<noteq> Some i)"

definition stt_abs :: "STt \<Rightarrow> lock_table" where
  "stt_abs s = \<lparr>lt_states = SESS_STATE_TABLE s,
     lt_rx = (if stt_rxSessionLocked s then Some (stt_rxSessionID s) else None),
     lt_tx = (if stt_txSessionLocked s then Some (stt_txSessionID s) else None),
     lt_rxQrys = (if stt_rxWait s then [stt_rxAccess s] else []) @ items (stt_siRXe_SessStateQry s),
     lt_txQrys = (if stt_txWait s then [stt_txAccess s] else []) @ items (stt_siTAi_ConnectStateQry s),
     lt_streamReqs = items (stt_siTAi_StreamStateReq s),
     lt_closeCmds =
       (if stt_closeWait s then [stt_closeSessionID s] else []) @ items (stt_siTIm_SessCloseCmd s),
     lt_rxReps = items (stt_soRXe_SessStateRep s), lt_txReps = items (stt_soTAi_ConnectStateRep s),
     lt_streamReps = items (stt_soTAi_StreamStateRep s),
     lt_released = items (stt_soSLc_SessReleaseCmd s)\<rparr>"

lemma lt_step_exclusive: "lt_step e a b \<Longrightarrow> lt_exclusive a \<Longrightarrow> lt_exclusive b"
proof (induction rule: lt_step.induct)
  case (post e a)
  then show ?case by (cases e) (simp_all add: lt_exclusive_def)
next
  case (serve c a)
  then show ?case by (cases c) (auto simp: lt_exclusive_def Let_def)
qed

lemma rx_locked_abs: "rx_locked s i \<longleftrightarrow> lt_rx (stt_abs s) = Some i"
  by (auto simp: rx_locked_def stt_abs_def)

lemma tx_locked_abs: "tx_locked s i \<longleftrightarrow> lt_tx (stt_abs s) = Some i"
  by (auto simp: tx_locked_def stt_abs_def)

text \<open>Taking a request, and the three accesses, on the abstract table.\<close>

lemma stt_abs_done:
  "stt_abs (t\<lparr>stt_txWait := False\<rparr>) = (stt_abs t)\<lparr>lt_txQrys := items (stt_siTAi_ConnectStateQry t)\<rparr>"
  "stt_abs (t\<lparr>stt_rxWait := False\<rparr>) = (stt_abs t)\<lparr>lt_rxQrys := items (stt_siRXe_SessStateQry t)\<rparr>"
  "stt_abs (t\<lparr>stt_closeWait := False\<rparr>) = (stt_abs t)\<lparr>lt_closeCmds := items (stt_siTIm_SessCloseCmd t)\<rparr>"
  by (simp_all add: stt_abs_def)

lemma stt_abs_pop:
  "\<not> stt_txWait s \<Longrightarrow> stt_abs (s\<lparr>stt_siTAi_ConnectStateQry := si, stt_txAccess := q\<rparr>) =
     (stt_abs s)\<lparr>lt_txQrys := items si\<rparr>"
  "\<not> stt_rxWait s \<Longrightarrow> stt_abs (s\<lparr>stt_siRXe_SessStateQry := si, stt_rxAccess := q\<rparr>) =
     (stt_abs s)\<lparr>lt_rxQrys := items si\<rparr>"
  "\<not> stt_closeWait s \<Longrightarrow> stt_abs (s\<lparr>stt_siTIm_SessCloseCmd := sc, stt_closeSessionID := i\<rparr>) =
     (stt_abs s)\<lparr>lt_closeCmds := items sc\<rparr>"
  by (simp_all add: stt_abs_def)

lemma stt_tx_access_abs:
  assumes "stt_tx_access s = Some s'"
  shows "stt_abs s' = lt_serve Lt_Connect
      ((stt_abs s)\<lparr>lt_txQrys := stt_txAccess s # lt_txQrys (stt_abs s)\<rparr>)"
    "stt_siTAi_ConnectStateQry s' = stt_siTAi_ConnectStateQry s"
  using assms
  by (auto simp: stt_access_defs simp del: lt_serve.simps split: if_splits) (simp_all add: stt_abs_def Let_def)

lemma stt_rx_access_abs:
  assumes "stt_rx_access s = Some s'"
  shows "stt_abs s' = lt_serve Lt_RXe
      ((stt_abs s)\<lparr>lt_rxQrys := stt_rxAccess s # lt_rxQrys (stt_abs s)\<rparr>)"
    "stt_siRXe_SessStateQry s' = stt_siRXe_SessStateQry s"
  using assms
  by (auto simp: stt_access_defs simp del: lt_serve.simps split: if_splits) (simp_all add: stt_abs_def Let_def)

lemma stt_close_access_abs:
  assumes "stt_close_access s = Some s'"
  shows "stt_abs s' = lt_serve Lt_Timers
      ((stt_abs s)\<lparr>lt_closeCmds := stt_closeSessionID s # lt_closeCmds (stt_abs s)\<rparr>)"
    "stt_siTIm_SessCloseCmd s' = stt_siTIm_SessCloseCmd s"
  using assms
  by (auto simp: stt_access_defs simp del: lt_serve.simps) (simp add: stt_abs_def Let_def)

lemma stt_abs_head:
  "\<not> stt_txWait s \<Longrightarrow> lt_txQrys (stt_abs s) = items (stt_siTAi_ConnectStateQry s)"
  "\<not> stt_rxWait s \<Longrightarrow> lt_rxQrys (stt_abs s) = items (stt_siRXe_SessStateQry s)"
  "\<not> stt_closeWait s \<Longrightarrow> lt_closeCmds (stt_abs s) = items (stt_siTIm_SessCloseCmd s)"
  "stt_txWait s \<Longrightarrow> lt_txQrys (stt_abs s) = stt_txAccess s # items (stt_siTAi_ConnectStateQry s)"
  "stt_rxWait s \<Longrightarrow> lt_rxQrys (stt_abs s) = stt_rxAccess s # items (stt_siRXe_SessStateQry s)"
  "stt_closeWait s \<Longrightarrow> lt_closeCmds (stt_abs s) = stt_closeSessionID s # items (stt_siTIm_SessCloseCmd s)"
  by (simp_all add: stt_abs_def)

lemma stt_abs_wait:
  "\<not> stt_txWait s \<Longrightarrow> items (stt_siTAi_ConnectStateQry s) = q # items si \<Longrightarrow>
     stt_abs (s\<lparr>stt_siTAi_ConnectStateQry := si, stt_txAccess := q, stt_txWait := True\<rparr>) = stt_abs s"
  "\<not> stt_rxWait s \<Longrightarrow> items (stt_siRXe_SessStateQry s) = q # items si \<Longrightarrow>
     stt_abs (s\<lparr>stt_siRXe_SessStateQry := si, stt_rxAccess := q, stt_rxWait := True\<rparr>) = stt_abs s"
  "\<not> stt_closeWait s \<Longrightarrow> items (stt_siTIm_SessCloseCmd s) = i # items sc \<Longrightarrow>
     stt_abs (s\<lparr>stt_siTIm_SessCloseCmd := sc, stt_closeSessionID := i, stt_closeWait := True\<rparr>) = stt_abs s"
  by (simp_all add: stt_abs_def)

text \<open>A clock cycle is a step of the abstract table.\<close>

lemma lt_serves:
  "lt_pending c (stt_abs s) \<Longrightarrow> \<not> lt_blocked c (stt_abs s) \<Longrightarrow> stt_abs s' = lt_serve c (stt_abs s) \<Longrightarrow>
     lt_step STtTick (stt_abs s) (stt_abs s')"
  using serve [of c "stt_abs s"] by simp

lemma lt_waits:
  "lt_pending c (stt_abs s) \<Longrightarrow> lt_blocked c (stt_abs s) \<Longrightarrow> stt_abs s' = stt_abs s \<Longrightarrow>
     lt_step STtTick (stt_abs s) (stt_abs s')"
  using wait [of c "stt_abs s"] by simp

lemmas lt_abs_simps = stt_abs_head stt_abs_pop stt_abs_wait sread_Some_iff rx_locked_abs tx_locked_abs

lemma state_table_lt_step:
  assumes "state_table s = Some s'"
  shows "lt_step STtTick (stt_abs s) (stt_abs s')"
  using state_table_trans [OF assms]
proof cases
  case (tx_wait q si)
  then show ?thesis by (intro lt_waits [of Lt_Connect]) (simp_all add: lt_abs_simps)
next
  case (tx_now q si)
  then show ?thesis using stt_tx_access_abs [OF tx_now(4)]
    by (intro lt_serves [of Lt_Connect]) (simp_all add: lt_abs_simps)
next
  case (stream i si)
  then show ?thesis by (intro lt_serves [of Lt_Stream]) (simp_all add: stt_abs_def sread_Some_iff)
next
  case (rx_wait q si)
  then show ?thesis by (intro lt_waits [of Lt_RXe]) (simp_all add: lt_abs_simps)
next
  case (rx_now q si)
  then show ?thesis using stt_rx_access_abs [OF rx_now(4)]
    by (intro lt_serves [of Lt_RXe]) (simp_all add: lt_abs_simps)
next
  case (close_wait i si)
  then show ?thesis by (intro lt_waits [of Lt_Timers]) (auto simp: lt_abs_simps)
next
  case (close_now i si)
  then show ?thesis using stt_close_access_abs [OF close_now(5)]
    by (intro lt_serves [of Lt_Timers]) (simp_all add: lt_abs_simps)
next
  case (tx_retry t)
  then show ?thesis using stt_tx_access_abs [OF tx_retry(3)]
    by (intro lt_serves [of Lt_Connect]) (simp_all add: lt_abs_simps stt_abs_done Let_def)
next
  case (rx_retry t)
  then show ?thesis using stt_rx_access_abs [OF rx_retry(3)]
    by (intro lt_serves [of Lt_RXe]) (simp_all add: lt_abs_simps stt_abs_done Let_def)
next
  case (close_retry t)
  then show ?thesis using stt_close_access_abs [OF close_retry(4)]
    by (intro lt_serves [of Lt_Timers]) (simp_all add: lt_abs_simps stt_abs_done Let_def)
next
  case tx_blocked
  then show ?thesis by (intro lt_waits [of Lt_Connect]) (simp_all add: lt_abs_simps)
next
  case rx_blocked
  then show ?thesis by (intro lt_waits [of Lt_RXe]) (simp_all add: lt_abs_simps)
next
  case close_blocked
  then show ?thesis by (intro lt_waits [of Lt_Timers]) (auto simp: lt_abs_simps)
next
  case quiet
  have "\<not> lt_pending c (stt_abs s)" for c
    using quiet by (cases c) (simp_all add: stt_abs_def)
  then show ?thesis using quiet(1) idle by simp
qed

section \<open>Invariants over runs\<close>

lemma stt_step_lt_step: "stt_step e s = Some s' \<Longrightarrow> lt_step e (stt_abs s) (stt_abs s')"
proof (cases "e = STtTick")
  case True
  then show "stt_step e s = Some s' \<Longrightarrow> ?thesis" by (simp add: state_table_lt_step)
next
  case False
  moreover assume "stt_step e s = Some s'"
  ultimately have "stt_abs s' = lt_post e (stt_abs s)" by (cases e; auto simp del: lt_post.simps; simp add: stt_abs_def)
  with False show ?thesis using post [of e "stt_abs s"] by simp
qed

lemma stt_run_lt_run: "stt_run es s = Some s' \<Longrightarrow> lt_run es (stt_abs s) (stt_abs s')"
  by (induction es arbitrary: s)
    (auto split: option.splits intro: lt_run.intros stt_step_lt_step)

lemma stt_run_exclusive:
  "lt_exclusive (stt_abs s) \<Longrightarrow> stt_run es s = Some s' \<Longrightarrow> lt_exclusive (stt_abs s')"
  using stt_run_invariant [of UNIV "\<lambda>s. lt_exclusive (stt_abs s)" es s s']
  by (blast intro: lt_step_exclusive stt_step_lt_step)

lemma stt_reset_exclusive: "lt_exclusive (stt_abs stt_reset)"
  by (simp add: lt_exclusive_def stt_abs_def stt_reset_def)

text \<open>The Rx engine holds session \<open>i\<close> with state \<open>st\<close> and has posted nothing else.\<close>

definition rx_holds :: "SessionId \<Rightarrow> TcpState \<Rightarrow> STt \<Rightarrow> bool" where
  "rx_holds i st s \<longleftrightarrow> rx_locked s i \<and> SESS_STATE_TABLE s i = st \<and>
     sread (stt_siRXe_SessStateQry s) = None \<and> \<not> stt_rxWait s"

lemma stt_tx_access_rx_holds:
  assumes "rx_holds i st s" "\<not> rx_locked s (sq_sessionID (stt_txAccess s))" "stt_tx_access s = Some s'"
  shows "rx_holds i st s'"
  using assms by (auto simp: rx_holds_def stt_access_defs stt_lock_defs split: if_splits)

lemma stt_close_access_rx_holds:
  assumes "rx_holds i st s" "\<not> rx_locked s (stt_closeSessionID s)" "stt_close_access s = Some s'"
  shows "rx_holds i st s'"
  using assms by (auto simp: rx_holds_def stt_access_defs stt_lock_defs)

lemma rx_holds_frame [simp]:
  "rx_holds i st (s\<lparr>stt_siTAi_ConnectStateQry := si, stt_txAccess := q\<rparr>) = rx_holds i st s"
  "rx_holds i st (s\<lparr>stt_siTAi_ConnectStateQry := si\<rparr>) = rx_holds i st s"
  "rx_holds i st (s\<lparr>stt_siTIm_SessCloseCmd := sc, stt_closeSessionID := j\<rparr>) = rx_holds i st s"
  "rx_holds i st (s\<lparr>stt_siTIm_SessCloseCmd := sc\<rparr>) = rx_holds i st s"
  "rx_holds i st (s\<lparr>stt_siTAi_StreamStateReq := sc\<rparr>) = rx_holds i st s"
  "rx_holds i st (s\<lparr>stt_siTAi_StreamStateReq := sr, stt_soTAi_StreamStateRep := so\<rparr>) = rx_holds i st s"
  "rx_holds i st (s\<lparr>stt_txWait := b\<rparr>) = rx_holds i st s"
  "rx_holds i st (s\<lparr>stt_closeWait := b\<rparr>) = rx_holds i st s"
  by (simp_all add: rx_holds_def rx_locked_def)

lemma state_table_rx_holds:
  assumes "rx_holds i st s" "state_table s = Some s'"
  shows "rx_holds i st s'"
  using state_table_trans [OF assms(2)] assms(1)
proof cases
  case (tx_now q si)
  then show ?thesis
    using assms(1) by (intro stt_tx_access_rx_holds [OF _ _ tx_now(4)]) (simp_all add: rx_locked_def)
next
  case (close_now j si)
  then show ?thesis
    using assms(1) by (intro stt_close_access_rx_holds [OF _ _ close_now(5)]) (simp_all add: rx_locked_def)
next
  case (tx_retry t)
  then show ?thesis
    using assms(1) by (simp add: stt_tx_access_rx_holds)
next
  case (close_retry t)
  then show ?thesis
    using assms(1) by (simp add: stt_close_access_rx_holds)
qed (use assms(1) in \<open>auto simp: rx_holds_def rx_locked_def\<close>)

lemma stt_step_rx_holds:
  assumes "rx_holds i st s" "stt_step e s = Some s'" "e \<in> - range RXeQry"
  shows "rx_holds i st s'"
  using assms by (cases e) (auto intro: state_table_rx_holds)

text \<open>Every session identifier that is pending anywhere is in range.\<close>

definition stt_ids_ok :: "STt \<Rightarrow> bool" where
  "stt_ids_ok s \<longleftrightarrow>
     (\<forall>q \<in> set (items (stt_siRXe_SessStateQry s)). sess_ok (sq_sessionID q)) \<and>
     (\<forall>q \<in> set (items (stt_siTAi_ConnectStateQry s)). sess_ok (sq_sessionID q)) \<and>
     (\<forall>i \<in> set (items (stt_siTAi_StreamStateReq s)). sess_ok i) \<and>
     (\<forall>i \<in> set (items (stt_siTIm_SessCloseCmd s)). sess_ok i) \<and>
     sess_ok (sq_sessionID (stt_txAccess s)) \<and> sess_ok (sq_sessionID (stt_rxAccess s)) \<and>
     sess_ok (stt_closeSessionID s)"

fun stt_event_ok :: "stt_event \<Rightarrow> bool" where
  "stt_event_ok (RXeQry q) = sess_ok (sq_sessionID q)"
| "stt_event_ok (TAiConnect q) = sess_ok (sq_sessionID q)"
| "stt_event_ok (TAiStream i) = sess_ok i"
| "stt_event_ok (TImClose i) = sess_ok i"
| "stt_event_ok STtTick = True"

lemma stt_ids_ok_frame [simp]:
  "stt_ids_ok (s\<lparr>stt_txWait := b\<rparr>) = stt_ids_ok s"
  "stt_ids_ok (s\<lparr>stt_rxWait := b\<rparr>) = stt_ids_ok s"
  "stt_ids_ok (s\<lparr>stt_closeWait := b\<rparr>) = stt_ids_ok s"
  by (simp_all add: stt_ids_ok_def)

lemma stt_access_ids_ok:
  assumes "stt_ids_ok s"
  shows "\<exists>s'. stt_tx_access s = Some s' \<and> stt_ids_ok s'"
    and "\<exists>s'. stt_rx_access s = Some s' \<and> stt_ids_ok s'"
    and "\<exists>s'. stt_close_access s = Some s' \<and> stt_ids_ok s'"
  using assms by (auto simp: stt_ids_ok_def stt_access_defs)

lemma stt_pop_ids_ok:
  assumes "stt_ids_ok s"
  shows "sread (stt_siTAi_ConnectStateQry s) = Some (q, si) \<Longrightarrow>
      stt_ids_ok (s\<lparr>stt_siTAi_ConnectStateQry := si, stt_txAccess := q\<rparr>)"
    and "sread (stt_siRXe_SessStateQry s) = Some (q, si) \<Longrightarrow>
      stt_ids_ok (s\<lparr>stt_siRXe_SessStateQry := si, stt_rxAccess := q\<rparr>)"
    and "sread (stt_siTIm_SessCloseCmd s) = Some (i, sc) \<Longrightarrow>
      stt_ids_ok (s\<lparr>stt_siTIm_SessCloseCmd := sc, stt_closeSessionID := i\<rparr>)"
    and "sread (stt_siTAi_StreamStateReq s) = Some (i, sc) \<Longrightarrow>
      stt_ids_ok (s\<lparr>stt_siTAi_StreamStateReq := sc, stt_soTAi_StreamStateRep := so\<rparr>) \<and> sess_ok i"
  using assms by (auto simp: stt_ids_ok_def sread_Some_iff)

lemma stt_access_None [simp]:
  "stt_tx_access s = None \<longleftrightarrow> \<not> sess_ok (sq_sessionID (stt_txAccess s))"
  "stt_rx_access s = None \<longleftrightarrow> \<not> sess_ok (sq_sessionID (stt_rxAccess s))"
  "stt_close_access s = None \<longleftrightarrow> \<not> sess_ok (stt_closeSessionID s)"
  by (simp_all add: stt_access_defs in_bounds_None)

lemma state_table_undefined:
  assumes "state_table s = None"
  shows "\<not> stt_ids_ok s"
  using assms unfolding state_table_def Let_def
  by (simp split: if_splits option.splits prod.splits add: sread_Some_iff in_bounds_None)
    (auto simp: stt_ids_ok_def)

lemma state_table_defined:
  assumes "stt_ids_ok s"
  shows "\<exists>s'. state_table s = Some s'"
  using state_table_undefined [of s] assms by (cases "state_table s") auto

lemma state_table_ids_ok:
  assumes "stt_ids_ok s"
  shows "\<exists>s'. state_table s = Some s' \<and> stt_ids_ok s'"
proof -
  obtain s' where s': "state_table s = Some s'"
    using state_table_defined [OF assms] by blast
  note ok = stt_access_ids_ok stt_pop_ids_ok [OF assms]
  have "stt_ids_ok s'"
    using state_table_trans [OF s'] assms
  proof cases
    case (tx_wait q si)
    with ok(4) show ?thesis
      by (metis stt_ids_ok_frame(1))
  next
    case (rx_wait q si)
    with ok(5) show ?thesis
      by (metis stt_ids_ok_frame(2))
  next
    case (close_wait i si)
    with ok(6) show ?thesis
      by (metis stt_ids_ok_frame(3))
  next
    case (tx_now q si)
    with ok(1,4) show ?thesis by fastforce
  next
    case (rx_now q si)
    with ok(2,5) show ?thesis by fastforce
  next
    case (close_now i si)
    with ok(3,6) show ?thesis by fastforce
  next
    case (stream i si)
    with ok(7) show ?thesis by blast
  next
    case (tx_retry t)
    with ok(1) [OF assms] show ?thesis by simp
  next
    case (rx_retry t)
    with ok(2) [OF assms] show ?thesis by simp
  next
    case (close_retry t)
    with ok(3) [OF assms] show ?thesis by simp
  qed simp_all
  with s' show ?thesis by blast
qed

lemma stt_step_ids_ok:
  assumes "stt_ids_ok s" "stt_event_ok e"
  shows "\<exists>s'. stt_step e s = Some s' \<and> stt_ids_ok s'"
  using assms by (cases e) (auto simp: state_table_ids_ok, auto simp: stt_ids_ok_def)

lemma stt_reset_ids_ok: "stt_ids_ok stt_reset"
  by (simp add: stt_ids_ok_def stt_reset_def StateQuery_rd_def sess_ok_iff)


section \<open>Properties\<close>

lemmas stt_eval = stt_reset_def state_table_def stt_access_defs stt_lock_defs StateQuery_rd_def
  StateQuery_wr_def sempty_def sread_def swrite_def sess_ok_iff

text \<open>C1. The state table implements the lock protocol.  Every run of the process in its environment is a
  run of the abstract table with the same events: a clock cycle takes the first request of
  exactly one client and serves it, or takes none, and none only if no request is there or the
  first request of some client is for a session another client has locked.  A read is answered
  with the state of the session and takes its lock, a write stores the state and gives the lock
  back, a stream request only reads, and a close command acts only on a session nobody has
  locked; nothing else changes, and the releases are announced in the order they happen.\<close>

theorem state_table_refines_locks:
  assumes "stt_run es s = Some s'"
  shows "lt_run es (stt_abs s) (stt_abs s')"
  using assms by (rule stt_run_lt_run)

theorem state_table_refines_locks_witness:
  "\<exists>s'. stt_run [RXeQry (StateQuery_rd 3), STtTick] stt_reset = Some s' \<and> rx_locked s' 3 \<and>
     lt_run [RXeQry (StateQuery_rd 3), STtTick] (stt_abs stt_reset) (stt_abs s')"
proof -
  let ?es = "[RXeQry (StateQuery_rd 3), STtTick]"
  obtain s' where "stt_run ?es stt_reset = Some s'" "rx_locked s' 3"
    by (simp add: stt_eval)
  with state_table_refines_locks [of ?es stt_reset s'] show ?thesis by blast
qed

text \<open>Mutual exclusion: after reset and under any sequence of queries and clock cycles, no
  session is locked by the Rx engine and by the Tx application interface at the same time.\<close>

theorem stt_locks_exclude:
  assumes "stt_run es stt_reset = Some s"
  shows "\<not> (rx_locked s i \<and> tx_locked s i)"
  using stt_run_exclusive [OF stt_reset_exclusive assms]
  by (simp add: rx_locked_abs tx_locked_abs lt_exclusive_def)

theorem stt_locks_exclude_witness:
  "\<exists>s. stt_run [RXeQry (StateQuery_rd 1), TAiConnect (StateQuery_rd 1), STtTick, STtTick] stt_reset
       = Some s \<and> tx_locked s 1 \<and> stt_rxWait s \<and> \<not> (rx_locked s 1 \<and> tx_locked s 1)"
proof -
  obtain s where "stt_run [RXeQry (StateQuery_rd 1), TAiConnect (StateQuery_rd 1), STtTick, STtTick]
      stt_reset = Some s" "tx_locked s 1" "stt_rxWait s"
    by (simp add: stt_eval)
  with stt_locks_exclude [of _ s 1] show ?thesis by blast
qed

text \<open>Atomic read-modify-write: once the Rx engine has read (and so locked) a session, nothing
  that the Tx application interface and the timers request changes the state of that session or
  takes the lock, however long the Rx engine takes to write the new state back.\<close>

theorem stt_rx_exclusive_access:
  assumes "rx_locked s i" "sread (stt_siRXe_SessStateQry s) = None" "\<not> stt_rxWait s"
    and "set es \<inter> range RXeQry = {}" "stt_run es s = Some s'"
  shows "SESS_STATE_TABLE s' i = SESS_STATE_TABLE s i \<and> rx_locked s' i"
proof -
  have "rx_holds i (SESS_STATE_TABLE s i) s"
    using assms(1-3) by (simp add: rx_holds_def)
  then have "rx_holds i (SESS_STATE_TABLE s i) s'"
    using stt_run_invariant [of "- range RXeQry" "rx_holds i (SESS_STATE_TABLE s i)" es s s']
      assms(4,5) stt_step_rx_holds by blast
  then show ?thesis by (simp add: rx_holds_def)
qed

theorem stt_rx_exclusive_access_witness:
  "let s = stt_reset\<lparr>stt_rxSessionID := 5, stt_rxSessionLocked := True,
             SESS_STATE_TABLE := (\<lambda>_. ESTABLISHED)\<rparr>;
       es = [TAiConnect (StateQuery_wr 5 SYN_SENT), TImClose 5, STtTick, STtTick, STtTick]
   in \<exists>s'. stt_run es s = Some s' \<and> SESS_STATE_TABLE s' 5 = ESTABLISHED \<and> rx_locked s' 5"
proof -
  let ?s = "stt_reset\<lparr>stt_rxSessionID := 5, stt_rxSessionLocked := True,
             SESS_STATE_TABLE := (\<lambda>_. ESTABLISHED)\<rparr>"
  let ?es = "[TAiConnect (StateQuery_wr 5 SYN_SENT), TImClose 5, STtTick, STtTick, STtTick]"
  obtain s' where s': "stt_run ?es ?s = Some s'"
    by (simp add: stt_eval)
  have "SESS_STATE_TABLE s' 5 = SESS_STATE_TABLE ?s 5 \<and> rx_locked s' 5"
    by (rule stt_rx_exclusive_access [OF _ _ _ _ s'])
      (auto simp: stt_reset_def rx_locked_def sread_def)
  with s' show ?thesis by (simp add: Let_def)
qed

text \<open>A query that waits for a lock sees what the other side wrote: when the Rx engine writes
  a session back while a read of the Tx application interface waits for it, the next two runs
  store the state, answer the waiting read with that state and pass the lock on.\<close>

theorem stt_waiting_read_served:
  assumes "stt_txWait s" "stt_txAccess s = StateQuery_rd i" "rx_locked s i" "\<not> tx_locked s i"
    and "stt_siRXe_SessStateQry s = Stream d [StateQuery_wr i st]" "\<not> stt_rxWait s"
    and "sread (stt_siTAi_StreamStateReq s) = None" "sread (stt_siTIm_SessCloseCmd s) = None"
    and "sess_ok i"
  shows "\<exists>s'. steps state_table 2 s = Some s' \<and> SESS_STATE_TABLE s' i = st \<and>
     items (stt_soTAi_ConnectStateRep s') = items (stt_soTAi_ConnectStateRep s) @ [st] \<and>
     tx_locked s' i \<and> \<not> rx_locked s' i \<and> \<not> stt_txWait s'"
  using assms
  by (simp add: numeral_2_eq_2 state_table_def stt_access_defs stt_lock_defs sempty_iff_sread
      StateQuery_rd_def StateQuery_wr_def stream_simps)

theorem stt_waiting_read_served_witness:
  "\<exists>s'. steps state_table 2 (stt_reset\<lparr>stt_txWait := True, stt_txAccess := StateQuery_rd 2,
        stt_rxSessionID := 2, stt_rxSessionLocked := True,
        stt_siRXe_SessStateQry := Stream 2 [StateQuery_wr 2 ESTABLISHED]\<rparr>) = Some s' \<and>
     items (stt_soTAi_ConnectStateRep s') = [ESTABLISHED]"
proof -
  let ?s = "stt_reset\<lparr>stt_txWait := True, stt_txAccess := StateQuery_rd 2,
        stt_rxSessionID := 2, stt_rxSessionLocked := True,
        stt_siRXe_SessStateQry := Stream 2 [StateQuery_wr 2 ESTABLISHED]\<rparr>"
  have "items (stt_soTAi_ConnectStateRep ?s) = []" by (simp add: stt_reset_def)
  with stt_waiting_read_served [of ?s 2 2 ESTABLISHED] show ?thesis
    by (auto simp: stt_reset_def stt_lock_defs sread_def sess_ok_iff)
qed

text \<open>Releases: a run of the state table announces at most one session to the session lookup
  controller, that session is then CLOSED and was locked by nobody else; and a session that
  becomes CLOSED without an announcement was written by the Tx application interface.\<close>

theorem stt_release_is_close:
  assumes "state_table s = Some s'"
  shows "(stt_soSLc_SessReleaseCmd s' = stt_soSLc_SessReleaseCmd s \<and>
          (\<forall>i. SESS_STATE_TABLE s' i = CLOSED \<and> SESS_STATE_TABLE s i \<noteq> CLOSED \<longrightarrow>
               sq_write (stt_txAccess s') \<and> sq_sessionID (stt_txAccess s') = i)) \<or>
         (\<exists>i. stt_soSLc_SessReleaseCmd s' = swrite (stt_soSLc_SessReleaseCmd s) i \<and>
              SESS_STATE_TABLE s' i = CLOSED \<and> \<not> tx_locked s i)"
  using state_table_trans [OF assms]
  by cases (auto simp: stt_access_defs tx_locked_def split: if_splits)

theorem stt_release_is_close_witness:
  "\<exists>s'. state_table (stt_reset\<lparr>stt_siTIm_SessCloseCmd := Stream 2 [4],
        SESS_STATE_TABLE := (\<lambda>_. TIME_WAIT)\<rparr>) = Some s' \<and>
     (\<exists>i. items (stt_soSLc_SessReleaseCmd s') = [i] \<and> SESS_STATE_TABLE s' i = CLOSED)"
proof -
  let ?s = "stt_reset\<lparr>stt_siTIm_SessCloseCmd := Stream 2 [4],
        SESS_STATE_TABLE := (\<lambda>_. TIME_WAIT)\<rparr>"
  obtain s' where s': "state_table ?s = Some s'" "stt_soSLc_SessReleaseCmd s' \<noteq> stt_soSLc_SessReleaseCmd ?s"
    by (simp add: stt_eval)
  from stt_release_is_close [OF s'(1)] s' show ?thesis
    by (auto simp: stt_reset_def swrite_def)
qed

text \<open>No access leaves the table: as long as the queries name sessions below
  \<open>TOE_MAX_SESSIONS\<close>, no run from reset meets undefined behaviour.\<close>

theorem stt_in_bounds:
  assumes "\<forall>e \<in> set es. stt_event_ok e"
  shows "\<exists>s. stt_run es stt_reset = Some s"
  using stt_run_defined [of "Collect stt_event_ok" stt_ids_ok es stt_reset] stt_reset_ids_ok assms
    stt_step_ids_ok by blast

theorem stt_in_bounds_witness:
  "\<exists>s. stt_run [RXeQry (StateQuery_wr 7 CLOSED), TImClose 0, STtTick, STtTick] stt_reset = Some s"
  by (rule stt_in_bounds) (simp add: StateQuery_wr_def sess_ok_iff)

end
