(* ===== verification/Rx_Sar_Table.thy ===== *)
theory Rx_Sar_Table
  imports Toe_Types
begin

text \<open>
  The Rx segmentation-and-reassembly table (RSt),
  \<open>NTS/toe/src/rx_sar_table/rx_sar_table.cpp\<close>: for every session the pointers into its 64 KB
  receive buffer.  One run of the process serves one query; the Tx engine comes first, then the
  Rx application interface, then the Rx engine.  The theory relates the process to a register
  file with that priority and proves the invariant of the out-of-order pointers.
\<close>

section \<open>State and step\<close>

record RxSarEntry =
  rs_appd :: RxBufPtr
  rs_rcvd :: RxSeqNum
  rs_ooo :: bool
  rs_oooHead :: RxSeqNum
  rs_oooTail :: RxSeqNum

record RSt =
  rst_siRXe_RxSarQry :: "RXeRxSarQuery stream"
  rst_soRXe_RxSarRep :: "RxSarReply stream"
  rst_siRAi_RxSarQry :: "RAiRxSarQuery stream"
  rst_soRAi_RxSarRep :: "RAiRxSarReply stream"
  rst_siTXe_RxSarReq :: "SessionId stream"
  rst_soTxe_RxSarRep :: "RxSarReply stream"
  RX_SAR_TABLE :: "SessionId \<Rightarrow> RxSarEntry"

definition rst_reset :: RSt where
  "rst_reset = \<lparr>
     rst_siRXe_RxSarQry = Stream 4 [], rst_soRXe_RxSarRep = Stream 2 [],
     rst_siRAi_RxSarQry = Stream 4 [], rst_soRAi_RxSarRep = Stream 2 [],
     rst_siTXe_RxSarReq = Stream 4 [], rst_soTxe_RxSarRep = Stream 2 [],
     RX_SAR_TABLE = (\<lambda>_. \<lparr>rs_appd = 0, rs_rcvd = 0, rs_ooo = False, rs_oooHead = 0,
                         rs_oooTail = 0\<rparr>)\<rparr>"

text \<open>\<open>RxSarReply\<close> built from the entry of a session.\<close>

definition RxSarReply_of :: "RxSarEntry \<Rightarrow> RxSarReply" where
  "RxSarReply_of e = \<lparr>rsr_appd = rs_appd e, rsr_rcvd = rs_rcvd e, rsr_oooHead = rs_oooHead e,
     rsr_oooTail = rs_oooTail e, rsr_ooo = rs_ooo e\<rparr>"

text \<open>The write access of the Rx engine.  An initialisation copies the low 16 bits of the sequence
  number into the application pointer.\<close>

definition rst_rxe_write :: "RXeRxSarQuery \<Rightarrow> RxSarEntry \<Rightarrow> RxSarEntry" where
  "rst_rxe_write q e =
     (let e = e\<lparr>rs_rcvd := xq_rcvd q\<rparr>;
          e = (if xq_init q then e\<lparr>rs_appd := ucast (xq_rcvd q)\<rparr> else e)
      in if xq_ooo q
         then e\<lparr>rs_ooo := True, rs_oooHead := xq_oooHead q, rs_oooTail := xq_oooTail q\<rparr>
         else e\<lparr>rs_ooo := False, rs_oooHead := xq_rcvd q, rs_oooTail := xq_rcvd q\<rparr>)"

definition rx_sar_table :: "RSt \<Rightarrow> RSt option" where
  "rx_sar_table s =
     (if \<not> sempty (rst_siTXe_RxSarReq s) then
        (case sread (rst_siTXe_RxSarReq s) of
           None \<Rightarrow> Some s
         | Some (i, si) \<Rightarrow>
             in_bounds i
               (Some (s\<lparr>rst_siTXe_RxSarReq := si,
                        rst_soTxe_RxSarRep :=
                          swrite (rst_soTxe_RxSarRep s) (RxSarReply_of (RX_SAR_TABLE s i))\<rparr>)))
      else if \<not> sempty (rst_siRAi_RxSarQry s) then
        (case sread (rst_siRAi_RxSarQry s) of
           None \<Rightarrow> Some s
         | Some (q, si) \<Rightarrow>
             (let i = aq_sessionID q; s = s\<lparr>rst_siRAi_RxSarQry := si\<rparr> in
              in_bounds i
                (if aq_write q then
                   Some (s\<lparr>RX_SAR_TABLE :=
                            (RX_SAR_TABLE s)(i := (RX_SAR_TABLE s i)\<lparr>rs_appd := aq_appd q\<rparr>)\<rparr>)
                 else
                   Some (s\<lparr>rst_soRAi_RxSarRep := swrite (rst_soRAi_RxSarRep s)
                             \<lparr>ar_sessionID = i, ar_appd = rs_appd (RX_SAR_TABLE s i)\<rparr>\<rparr>))))
      else if \<not> sempty (rst_siRXe_RxSarQry s) then
        (case sread (rst_siRXe_RxSarQry s) of
           None \<Rightarrow> Some s
         | Some (q, si) \<Rightarrow>
             (let i = xq_sessionID q; s = s\<lparr>rst_siRXe_RxSarQry := si\<rparr> in
              in_bounds i
                (if xq_write q then
                   Some (s\<lparr>RX_SAR_TABLE :=
                            (RX_SAR_TABLE s)(i := rst_rxe_write q (RX_SAR_TABLE s i))\<rparr>)
                 else
                   Some (s\<lparr>rst_soRXe_RxSarRep := swrite (rst_soRXe_RxSarRep s)
                             (RxSarReply_of (RX_SAR_TABLE s i))\<rparr>))))
      else Some s)"

section \<open>The register file it implements\<close>

text \<open>
  The operations of the table on one session at a time, and the operation that the queued
  queries select: the oldest query of the first client that has one.
\<close>

datatype rst_op = TXeRead SessionId | RAiOp RAiRxSarQuery | RXeOp RXeRxSarQuery | NoOp

definition rst_select :: "RSt \<Rightarrow> rst_op" where
  "rst_select s =
     (case items (rst_siTXe_RxSarReq s) of i # _ \<Rightarrow> TXeRead i | [] \<Rightarrow>
       (case items (rst_siRAi_RxSarQry s) of q # _ \<Rightarrow> RAiOp q | [] \<Rightarrow>
         (case items (rst_siRXe_RxSarQry s) of q # _ \<Rightarrow> RXeOp q | [] \<Rightarrow> NoOp)))"

fun rst_op_session :: "rst_op \<Rightarrow> SessionId option" where
  "rst_op_session (TXeRead i) = Some i"
| "rst_op_session (RAiOp q) = Some (aq_sessionID q)"
| "rst_op_session (RXeOp q) = Some (xq_sessionID q)"
| "rst_op_session NoOp = None"

fun rst_op_entry :: "rst_op \<Rightarrow> RxSarEntry \<Rightarrow> RxSarEntry" where
  "rst_op_entry (RAiOp q) e = (if aq_write q then e\<lparr>rs_appd := aq_appd q\<rparr> else e)"
| "rst_op_entry (RXeOp q) e = (if xq_write q then rst_rxe_write q e else e)"
| "rst_op_entry _ e = e"

fun rst_op_replies :: "rst_op \<Rightarrow> RxSarEntry \<Rightarrow> RxSarReply list \<times> RAiRxSarReply list \<times> RxSarReply list" where
  "rst_op_replies (TXeRead i) e = ([RxSarReply_of e], [], [])"
| "rst_op_replies (RAiOp q) e = ([], if aq_write q then []
     else [\<lparr>ar_sessionID = aq_sessionID q, ar_appd = rs_appd e\<rparr>], [])"
| "rst_op_replies (RXeOp q) e = ([], [], if xq_write q then [] else [RxSarReply_of e])"
| "rst_op_replies NoOp e = ([], [], [])"

definition rst_replies :: "RSt \<Rightarrow> RxSarReply list \<times> RAiRxSarReply list \<times> RxSarReply list" where
  "rst_replies s = (items (rst_soTxe_RxSarRep s), items (rst_soRAi_RxSarRep s),
     items (rst_soRXe_RxSarRep s))"

fun append3 :: "'a list \<times> 'b list \<times> 'c list \<Rightarrow> 'a list \<times> 'b list \<times> 'c list \<Rightarrow> 'a list \<times> 'b list \<times> 'c list"
where
  "append3 (a, b, c) (x, y, z) = (a @ x, b @ y, c @ z)"

lemma rx_sar_table_serves:
  assumes "rx_sar_table s = Some s'" "rst_op_session (rst_select s) = Some i"
  shows "sess_ok i"
    "RX_SAR_TABLE s' = (RX_SAR_TABLE s)(i := rst_op_entry (rst_select s) (RX_SAR_TABLE s i))"
    "rst_replies s' = append3 (rst_replies s) (rst_op_replies (rst_select s) (RX_SAR_TABLE s i))"
  using assms
  by (auto simp: rx_sar_table_def rst_select_def rst_replies_def Let_def sempty_def sread_def
      split: list.splits if_splits)

lemma rx_sar_table_idle: "rst_select s = NoOp \<Longrightarrow> rx_sar_table s = Some s"
  by (auto simp: rx_sar_table_def rst_select_def sempty_def split: list.splits)

section \<open>The out-of-order pointers\<close>

text \<open>Without an out-of-order region its two pointers stand on the next expected byte.\<close>

definition rs_wf :: "RxSarEntry \<Rightarrow> bool" where
  "rs_wf e \<longleftrightarrow> (\<not> rs_ooo e \<longrightarrow> rs_oooHead e = rs_rcvd e \<and> rs_oooTail e = rs_rcvd e)"

definition rst_wf :: "RSt \<Rightarrow> bool" where
  "rst_wf s \<longleftrightarrow> (\<forall>i. rs_wf (RX_SAR_TABLE s i))"

lemma rs_wf_write: "rs_wf (rst_rxe_write q e)"
  by (simp add: rs_wf_def rst_rxe_write_def Let_def)

lemma rs_wf_op: "rs_wf e \<Longrightarrow> rs_wf (rst_op_entry op e)"
  by (cases op) (auto simp: rs_wf_write, simp add: rs_wf_def)

lemma rx_sar_table_wf:
  assumes "rst_wf s" "rx_sar_table s = Some s'"
  shows "rst_wf s'"
proof (cases "rst_op_session (rst_select s)")
  case None
  then have "rst_select s = NoOp" by (cases "rst_select s") auto
  with assms show ?thesis by (simp add: rx_sar_table_idle)
next
  case (Some i)
  with rx_sar_table_serves(2) [OF assms(2)] assms(1) show ?thesis
    by (auto simp: rst_wf_def rs_wf_op)
qed

section \<open>Properties\<close>

text \<open>The process is a register file with priorities: a run serves the oldest query of the
  first of Tx engine, Rx application interface and Rx engine that has one, applies exactly that
  operation to the entry of its session, leaves every other session alone and sends exactly the
  replies of the operation.\<close>

theorem rst_refines_register_file:
  assumes "rx_sar_table s = Some s'" "rst_op_session (rst_select s) = Some i"
  shows "RX_SAR_TABLE s' = (RX_SAR_TABLE s)(i := rst_op_entry (rst_select s) (RX_SAR_TABLE s i)) \<and>
    rst_replies s' = append3 (rst_replies s) (rst_op_replies (rst_select s) (RX_SAR_TABLE s i))"
  using rx_sar_table_serves [OF assms] by simp

theorem rst_refines_register_file_witness:
  "\<exists>s'. rx_sar_table (rst_reset\<lparr>rst_siRXe_RxSarQry := Stream 4 [RXeRxSarQuery_init 2 70000]\<rparr>) = Some s' \<and>
     rs_appd (RX_SAR_TABLE s' 2) = 4464 \<and> rs_rcvd (RX_SAR_TABLE s' 2) = 70000"
proof -
  let ?s = "rst_reset\<lparr>rst_siRXe_RxSarQry := Stream 4 [RXeRxSarQuery_init 2 70000]\<rparr>"
  have sel: "rst_select ?s = RXeOp (RXeRxSarQuery_init 2 70000)"
    by (simp add: rst_select_def rst_reset_def)
  obtain s' where s': "rx_sar_table ?s = Some s'"
    by (simp add: rx_sar_table_def rst_reset_def RXeRxSarQuery_init_def stream_simps sess_ok_iff)
  from rst_refines_register_file [OF s', of 2] sel s' show ?thesis
    by (simp add: RXeRxSarQuery_init_def rst_rxe_write_def Let_def)
qed

text \<open>The out-of-order pointers stay consistent: in every state the table reaches, a session
  without out-of-order data has both of its out-of-order pointers on the next byte it expects.\<close>

theorem rst_ooo_pointers:
  assumes "steps rx_sar_table n s = Some s'" "rst_wf s" "\<not> rs_ooo (RX_SAR_TABLE s' i)"
  shows "rs_oooHead (RX_SAR_TABLE s' i) = rs_rcvd (RX_SAR_TABLE s' i) \<and>
         rs_oooTail (RX_SAR_TABLE s' i) = rs_rcvd (RX_SAR_TABLE s' i)"
proof -
  have "rst_wf s'"
    using steps_invariant [of rst_wf rx_sar_table s n s'] assms rx_sar_table_wf by blast
  with assms(3) show ?thesis by (auto simp: rst_wf_def rs_wf_def)
qed

theorem rst_ooo_pointers_witness:
  "\<exists>s'. steps rx_sar_table 1 (rst_reset\<lparr>rst_siRXe_RxSarQry := Stream 4 [RXeRxSarQuery_wr 1 9]\<rparr>)
       = Some s' \<and> rs_oooHead (RX_SAR_TABLE s' 1) = 9"
proof -
  let ?s = "rst_reset\<lparr>rst_siRXe_RxSarQry := Stream 4 [RXeRxSarQuery_wr 1 9]\<rparr>"
  obtain s' where s': "steps rx_sar_table 1 ?s = Some s'" "\<not> rs_ooo (RX_SAR_TABLE s' 1)"
    "rs_rcvd (RX_SAR_TABLE s' 1) = 9"
    by (simp add: rx_sar_table_def rst_reset_def RXeRxSarQuery_wr_def stream_simps sess_ok_iff
        rst_rxe_write_def Let_def)
  moreover have "rst_wf ?s" by (simp add: rst_wf_def rs_wf_def rst_reset_def)
  ultimately show ?thesis using rst_ooo_pointers [of 1 ?s s' 1] by auto
qed

section \<open>The abstract table\<close>

text \<open>
  What the table means for a session: the read pointer of the application, the next expected
  byte, and the out-of-order block, from its first byte to the byte behind it, if there is one.
\<close>

datatype rx_pointers = RxPointers (p_appd: RxBufPtr) (p_rcvd: RxSeqNum)
  (p_block: "(RxSeqNum \<times> RxSeqNum) option")

definition rst_abs :: "RSt \<Rightarrow> SessionId \<Rightarrow> rx_pointers" where
  "rst_abs s i = (let e = RX_SAR_TABLE s i in RxPointers (rs_appd e) (rs_rcvd e)
     (if rs_ooo e then Some (rs_oooTail e, rs_oooHead e) else None))"

fun spec_entry :: "rst_op \<Rightarrow> rx_pointers \<Rightarrow> rx_pointers" where
  "spec_entry (TXeRead i) p = p"
| "spec_entry (RAiOp q) p = (if aq_write q then RxPointers (aq_appd q) (p_rcvd p) (p_block p) else p)"
| "spec_entry (RXeOp q) p = (if xq_write q
     then RxPointers (if xq_init q then ucast (xq_rcvd q) else p_appd p) (xq_rcvd q)
            (if xq_ooo q then Some (xq_oooTail q, xq_oooHead q) else None)
     else p)"
| "spec_entry NoOp p = p"

text \<open>An engine that reads an entry without a block sees both of its ends at the next byte.\<close>

definition spec_reply :: "rx_pointers \<Rightarrow> RxSarReply" where
  "spec_reply p = (case p_block p of
     None \<Rightarrow> \<lparr>rsr_appd = p_appd p, rsr_rcvd = p_rcvd p, rsr_oooHead = p_rcvd p,
              rsr_oooTail = p_rcvd p, rsr_ooo = False\<rparr>
   | Some (l, h) \<Rightarrow> \<lparr>rsr_appd = p_appd p, rsr_rcvd = p_rcvd p, rsr_oooHead = h,
                    rsr_oooTail = l, rsr_ooo = True\<rparr>)"

fun spec_replies :: "rst_op \<Rightarrow> rx_pointers \<Rightarrow> RxSarReply list \<times> RAiRxSarReply list \<times> RxSarReply list"
where
  "spec_replies (TXeRead i) p = ([spec_reply p], [], [])"
| "spec_replies (RAiOp q) p = ([], if aq_write q then []
     else [\<lparr>ar_sessionID = aq_sessionID q, ar_appd = p_appd p\<rparr>], [])"
| "spec_replies (RXeOp q) p = ([], [], if xq_write q then [] else [spec_reply p])"
| "spec_replies NoOp p = ([], [], [])"

lemma rst_abs_reply: "rst_wf s \<Longrightarrow> RxSarReply_of (RX_SAR_TABLE s i) = spec_reply (rst_abs s i)"
  by (auto simp: rst_wf_def rs_wf_def rst_abs_def spec_reply_def RxSarReply_of_def Let_def)

lemma rst_abs_replies:
  "rst_wf s \<Longrightarrow> rst_op_replies op (RX_SAR_TABLE s i) = spec_replies op (rst_abs s i)"
  by (cases op) (auto simp: rst_abs_reply, simp_all add: rst_abs_def Let_def)

lemma rst_abs_entry:
  assumes "RX_SAR_TABLE s' = (RX_SAR_TABLE s)(i := rst_op_entry op (RX_SAR_TABLE s i))"
  shows "rst_abs s' = (rst_abs s)(i := spec_entry op (rst_abs s i))"
  by (cases op; rule ext)
    (use assms in \<open>simp_all add: rst_abs_def rst_rxe_write_def Let_def fun_upd_def\<close>)

text \<open>C28. The process implements a table of receive windows.  A run serves the oldest query of the first of
  Tx engine, Rx application interface and Rx engine that has one: the window of its session, and
  of no other, changes as the query says (a read pointer moves, or the next byte and the
  out-of-order block are replaced, and an initialisation puts the read pointer on the next
  byte), the replies are those of the window, and the entries stay consistent.\<close>

theorem rst_refines_windows:
  assumes "rx_sar_table s = Some s'" "rst_op_session (rst_select s) = Some i" "rst_wf s"
  shows "rst_abs s' = (rst_abs s)(i := spec_entry (rst_select s) (rst_abs s i)) \<and>
    rst_replies s' = append3 (rst_replies s) (spec_replies (rst_select s) (rst_abs s i)) \<and> rst_wf s'"
  using rx_sar_table_serves [OF assms(1,2)] rst_abs_entry rst_abs_replies [OF assms(3)]
    rx_sar_table_wf [OF assms(3,1)]
  by auto

theorem rst_refines_windows_witness:
  "\<exists>s'. rx_sar_table (rst_reset\<lparr>rst_siRXe_RxSarQry := Stream 4 [RXeRxSarQuery_init 2 70000]\<rparr>) = Some s' \<and>
     rst_abs s' 2 = RxPointers 4464 70000 None"
proof -
  let ?s = "rst_reset\<lparr>rst_siRXe_RxSarQry := Stream 4 [RXeRxSarQuery_init 2 70000]\<rparr>"
  have sel: "rst_select ?s = RXeOp (RXeRxSarQuery_init 2 70000)" "rst_wf ?s"
    by (simp_all add: rst_select_def rst_reset_def rst_wf_def rs_wf_def)
  obtain s' where s': "rx_sar_table ?s = Some s'"
    by (simp add: rx_sar_table_def rst_reset_def RXeRxSarQuery_init_def stream_simps sess_ok_iff)
  from rst_refines_windows [OF s', of 2] sel s' show ?thesis
    by (simp add: RXeRxSarQuery_init_def)
qed

end
