(* ===== verification/Tx_Sar_Table.thy ===== *)
theory Tx_Sar_Table
  imports Toe_Types
begin

text \<open>
  The Tx segmentation-and-reassembly table (TSt),
  \<open>NTS/toe/src/tx_sar_table/tx_sar_table.cpp\<close>: for every session the pointers into its 64 KB
  transmit buffer, the windows and the FIN flags.  One run serves one query: the Tx engine first,
  then the Tx application interface, then the Rx engine.
\<close>

section \<open>State and step\<close>

record TxSarEntry =
  te_appw :: TxBufPtr
  te_unak :: TxAckNum
  te_ackd :: TxAckNum
  te_recv_window :: TcpWindow
  te_cong_window :: TcpWindow
  te_slowstart_threshold :: TcpWindow
  te_count :: "2 word"
  te_fastRetransmitted :: bool
  te_finReady :: bool
  te_finSent :: bool

record TSt =
  tst_siRXe_TxSarQry :: "RXeTxSarQuery stream"
  tst_soRXe_TxSarRep :: "RXeTxSarReply stream"
  tst_siTXe_TxSarQry :: "TXeTxSarQuery stream"
  tst_soTXe_TxSarRep :: "TXeTxSarReply stream"
  tst_siTAi_PushCmd :: "TAiTxSarPush stream"
  tst_soTAi_PushCmd :: "TStTxSarPush stream"
  TX_SAR_TABLE :: "SessionId \<Rightarrow> TxSarEntry"

definition te_zero :: TxSarEntry where
  "te_zero = \<lparr>te_appw = 0, te_unak = 0, te_ackd = 0, te_recv_window = 0, te_cong_window = 0,
     te_slowstart_threshold = 0, te_count = 0, te_fastRetransmitted = False, te_finReady = False,
     te_finSent = False\<rparr>"

definition tst_reset :: TSt where
  "tst_reset = \<lparr>
     tst_siRXe_TxSarQry = Stream 4 [], tst_soRXe_TxSarRep = Stream 2 [],
     tst_siTXe_TxSarQry = Stream 4 [], tst_soTXe_TxSarRep = Stream 2 [],
     tst_siTAi_PushCmd = Stream 4 [], tst_soTAi_PushCmd = Stream 4 [],
     TX_SAR_TABLE = (\<lambda>_. te_zero)\<rparr>"

text \<open>The write query of the Tx engine: a retransmission query sets the slow-start threshold and
  restarts the congestion window; any other one sets the unacknowledged pointer, and an
  initialisation the whole transmit state.\<close>

definition tst_txe_write :: "TXeTxSarQuery \<Rightarrow> TxSarEntry \<Rightarrow> TxSarEntry" where
  "tst_txe_write q e =
     (if \<not> ttq_isRtQuery q then
        (let e = e\<lparr>te_unak := ttq_not_ackd q\<rparr>;
             e = (if ttq_init q
                  then e\<lparr>te_appw := ucast (ttq_not_ackd q), te_ackd := ttq_not_ackd q - 1,
                         te_cong_window := 0x3908, te_slowstart_threshold := 0xFFFF\<rparr>
                  else e);
             e = (if ttq_finReady q \<or> ttq_init q then e\<lparr>te_finReady := ttq_finReady q\<rparr> else e)
         in if ttq_finSent q \<or> ttq_init q then e\<lparr>te_finSent := ttq_finSent q\<rparr> else e)
      else e\<lparr>te_slowstart_threshold := getThreshold q, te_cong_window := 0x3908\<rparr>)"

definition tst_txe_reply :: "TxSarEntry \<Rightarrow> TXeTxSarReply" where
  "tst_txe_reply e =
     \<lparr>ttr_ackd = te_ackd e, ttr_not_ackd = te_unak e,
      ttr_min_window = (if te_cong_window e < te_recv_window e then te_cong_window e
                        else te_recv_window e),
      ttr_app = te_appw e, ttr_finReady = te_finReady e, ttr_finSent = te_finSent e\<rparr>"

definition tst_rxe_write :: "RXeTxSarQuery \<Rightarrow> TxSarEntry \<Rightarrow> TxSarEntry" where
  "tst_rxe_write q e =
     e\<lparr>te_ackd := rtq_ackd q, te_recv_window := rtq_recv_window q,
       te_cong_window := rtq_cong_window q, te_count := rtq_count q,
       te_fastRetransmitted := rtq_fastRetransmitted q\<rparr>"

definition tst_rxe_reply :: "TxSarEntry \<Rightarrow> RXeTxSarReply" where
  "tst_rxe_reply e =
     \<lparr>rtr_prevAckd = te_ackd e, rtr_prevUnak = te_unak e, rtr_cong_window = te_cong_window e,
      rtr_slowstart_threshold = te_slowstart_threshold e, rtr_count = te_count e,
      rtr_fastRetransmitted = te_fastRetransmitted e\<rparr>"

definition tx_sar_table :: "TSt \<Rightarrow> TSt option" where
  "tx_sar_table s =
     (if \<not> sempty (tst_siTXe_TxSarQry s) then
        (case sread (tst_siTXe_TxSarQry s) of
           None \<Rightarrow> Some s
         | Some (q, si) \<Rightarrow>
             (let i = ttq_sessionID q; s = s\<lparr>tst_siTXe_TxSarQry := si\<rparr> in
              in_bounds i
                (if ttq_write q then
                   (let s = (if \<not> ttq_isRtQuery q \<and> ttq_init q
                             then s\<lparr>tst_soTAi_PushCmd := swrite (tst_soTAi_PushCmd s)
                                      \<lparr>tsp_sessionID = i, tsp_ackd = ucast (ttq_not_ackd q),
                                       tsp_init = True\<rparr>\<rparr>
                             else s)
                    in Some (s\<lparr>TX_SAR_TABLE :=
                               (TX_SAR_TABLE s)(i := tst_txe_write q (TX_SAR_TABLE s i))\<rparr>))
                 else
                   Some (s\<lparr>tst_soTXe_TxSarRep := swrite (tst_soTXe_TxSarRep s)
                             (tst_txe_reply (TX_SAR_TABLE s i))\<rparr>))))
      else if \<not> sempty (tst_siTAi_PushCmd s) then
        (case sread (tst_siTAi_PushCmd s) of
           None \<Rightarrow> Some s
         | Some (c, si) \<Rightarrow>
             (let i = tap_sessionID c in
              in_bounds i
                (Some (s\<lparr>tst_siTAi_PushCmd := si,
                         TX_SAR_TABLE :=
                           (TX_SAR_TABLE s)(i := (TX_SAR_TABLE s i)\<lparr>te_appw := tap_app c\<rparr>)\<rparr>))))
      else if \<not> sempty (tst_siRXe_TxSarQry s) then
        (case sread (tst_siRXe_TxSarQry s) of
           None \<Rightarrow> Some s
         | Some (q, si) \<Rightarrow>
             (let i = rtq_sessionID q; s = s\<lparr>tst_siRXe_TxSarQry := si\<rparr> in
              in_bounds i
                (if rtq_write q then
                   Some (s\<lparr>TX_SAR_TABLE :=
                             (TX_SAR_TABLE s)(i := tst_rxe_write q (TX_SAR_TABLE s i)),
                           tst_soTAi_PushCmd := swrite (tst_soTAi_PushCmd s)
                             \<lparr>tsp_sessionID = i, tsp_ackd = ucast (rtq_ackd q),
                              tsp_init = False\<rparr>\<rparr>)
                 else
                   Some (s\<lparr>tst_soRXe_TxSarRep := swrite (tst_soRXe_TxSarRep s)
                             (tst_rxe_reply (TX_SAR_TABLE s i))\<rparr>))))
      else Some s)"

section \<open>The operation that a run serves\<close>

datatype tst_op = TXeOp TXeTxSarQuery | TAiOp TAiTxSarPush | RXeTxOp RXeTxSarQuery | TStNoOp

definition tst_select :: "TSt \<Rightarrow> tst_op" where
  "tst_select s =
     (case items (tst_siTXe_TxSarQry s) of q # _ \<Rightarrow> TXeOp q | [] \<Rightarrow>
       (case items (tst_siTAi_PushCmd s) of c # _ \<Rightarrow> TAiOp c | [] \<Rightarrow>
         (case items (tst_siRXe_TxSarQry s) of q # _ \<Rightarrow> RXeTxOp q | [] \<Rightarrow> TStNoOp)))"

fun tst_op_entry :: "tst_op \<Rightarrow> SessionId \<Rightarrow> TxSarEntry \<Rightarrow> TxSarEntry" where
  "tst_op_entry (TXeOp q) i e =
     (if ttq_write q \<and> ttq_sessionID q = i then tst_txe_write q e else e)"
| "tst_op_entry (TAiOp c) i e = (if tap_sessionID c = i then e\<lparr>te_appw := tap_app c\<rparr> else e)"
| "tst_op_entry (RXeTxOp q) i e =
     (if rtq_write q \<and> rtq_sessionID q = i then tst_rxe_write q e else e)"
| "tst_op_entry TStNoOp i e = e"

lemma tx_sar_table_entry:
  assumes "tx_sar_table s = Some s'"
  shows "TX_SAR_TABLE s' i = tst_op_entry (tst_select s) i (TX_SAR_TABLE s i)"
  using assms
  by (auto simp: tx_sar_table_def tst_select_def Let_def sempty_def sread_def
      split: list.splits if_splits)

text \<open>What a session keeps while the Tx engine does not initialise it.\<close>

definition te_fin_le :: "TxSarEntry \<Rightarrow> TxSarEntry \<Rightarrow> bool" where
  "te_fin_le e e' \<longleftrightarrow> (te_finReady e \<longrightarrow> te_finReady e') \<and> (te_finSent e \<longrightarrow> te_finSent e')"

definition tst_no_init :: "SessionId \<Rightarrow> TSt \<Rightarrow> bool" where
  "tst_no_init i s \<longleftrightarrow>
     (\<forall>q \<in> set (items (tst_siTXe_TxSarQry s)).
        ttq_sessionID q = i \<longrightarrow> ttq_isRtQuery q \<or> \<not> ttq_init q)"

lemma te_fin_le_op:
  assumes "\<And>q. op = TXeOp q \<Longrightarrow> ttq_sessionID q = i \<Longrightarrow> ttq_isRtQuery q \<or> \<not> ttq_init q"
  shows "te_fin_le e (tst_op_entry op i e)"
  using assms
  by (cases op) (auto simp: te_fin_le_def tst_txe_write_def tst_rxe_write_def Let_def)

lemma tx_sar_table_no_init:
  assumes "tx_sar_table s = Some s'" "tst_no_init i s"
  shows "tst_no_init i s'" "te_fin_le (TX_SAR_TABLE s i) (TX_SAR_TABLE s' i)"
proof -
  show "tst_no_init i s'"
    using assms
    by (auto simp: tx_sar_table_def tst_no_init_def Let_def sempty_def sread_def
        split: list.splits if_splits)
  have "ttq_isRtQuery q \<or> \<not> ttq_init q" if "tst_select s = TXeOp q" "ttq_sessionID q = i" for q
    using that assms(2) by (auto simp: tst_select_def tst_no_init_def split: list.splits)
  then show "te_fin_le (TX_SAR_TABLE s i) (TX_SAR_TABLE s' i)"
    by (simp add: tx_sar_table_entry [OF assms(1)] te_fin_le_op)
qed

section \<open>Properties\<close>

text \<open>The send window is the smaller one: a read of the Tx engine is answered with the
  session's pointers and flags and with the minimum of its congestion window and of the window
  the remote host advertised, and changes nothing in the table.\<close>

theorem tst_min_window:
  assumes "tst_siTXe_TxSarQry s = Stream d (q # qs)" "\<not> ttq_write q" "ttq_sessionID q = i"
    and "tx_sar_table s = Some s'"
  shows "TX_SAR_TABLE s' = TX_SAR_TABLE s \<and>
    (\<exists>r. items (tst_soTXe_TxSarRep s') = items (tst_soTXe_TxSarRep s) @ [r] \<and>
       ttr_min_window r = min (te_cong_window (TX_SAR_TABLE s i)) (te_recv_window (TX_SAR_TABLE s i)) \<and>
       ttr_ackd r = te_ackd (TX_SAR_TABLE s i) \<and> ttr_not_ackd r = te_unak (TX_SAR_TABLE s i) \<and>
       ttr_app r = te_appw (TX_SAR_TABLE s i))"
  using assms by (auto simp: tx_sar_table_def stream_simps tst_txe_reply_def min_def Let_def)

theorem tst_min_window_witness:
  "\<exists>s'. tx_sar_table (tst_reset\<lparr>tst_siTXe_TxSarQry := Stream 4 [(TXeTxSarRtQuery 1 0)\<lparr>ttq_write := False\<rparr>],
        TX_SAR_TABLE := (\<lambda>_. te_zero\<lparr>te_cong_window := 14600, te_recv_window := 8000\<rparr>)\<rparr>) = Some s' \<and>
     (\<exists>r. items (tst_soTXe_TxSarRep s') = [r] \<and> ttr_min_window r = 8000)"
proof -
  let ?q = "(TXeTxSarRtQuery 1 0)\<lparr>ttq_write := False\<rparr>"
  let ?s = "tst_reset\<lparr>tst_siTXe_TxSarQry := Stream 4 [?q],
        TX_SAR_TABLE := (\<lambda>_. te_zero\<lparr>te_cong_window := 14600, te_recv_window := 8000\<rparr>)\<rparr>"
  obtain s' where s': "tx_sar_table ?s = Some s'"
    by (simp add: tx_sar_table_def tst_reset_def TXeTxSarRtQuery_def stream_simps sess_ok_iff)
  from tst_min_window [of ?s 4 ?q "[]" 1, OF _ _ _ s'] s' show ?thesis
    by (auto simp: TXeTxSarRtQuery_def tst_reset_def)
qed

text \<open>Opening the send side: an initialisation query with first sequence number \<open>n\<close> leaves
  the session with nothing in flight (the acknowledged pointer just below the unacknowledged one
  and the application pointer at the same buffer address), a congestion window of ten segments,
  cleared FIN flags unless the query sets them, and tells the Tx application interface.\<close>

theorem tst_init_session:
  assumes "tst_siTXe_TxSarQry s = Stream d (q # qs)" "ttq_write q" "ttq_init q"
    and "\<not> ttq_isRtQuery q" "ttq_sessionID q = i" "tx_sar_table s = Some s'"
  shows "te_unak (TX_SAR_TABLE s' i) = ttq_not_ackd q \<and>
     te_ackd (TX_SAR_TABLE s' i) + 1 = te_unak (TX_SAR_TABLE s' i) \<and>
     te_appw (TX_SAR_TABLE s' i) = ucast (te_unak (TX_SAR_TABLE s' i)) \<and>
     te_cong_window (TX_SAR_TABLE s' i) = 10 * 1460 \<and>
     te_finReady (TX_SAR_TABLE s' i) = ttq_finReady q \<and>
     te_finSent (TX_SAR_TABLE s' i) = ttq_finSent q \<and>
     items (tst_soTAi_PushCmd s') = items (tst_soTAi_PushCmd s) @
       [\<lparr>tsp_sessionID = i, tsp_ackd = te_appw (TX_SAR_TABLE s' i), tsp_init = True\<rparr>] \<and>
     (\<forall>j. j \<noteq> i \<longrightarrow> TX_SAR_TABLE s' j = TX_SAR_TABLE s j)"
  using assms by (auto simp: tx_sar_table_def stream_simps tst_txe_write_def Let_def)

theorem tst_init_session_witness:
  "let q = (TXeTxSarRtQuery 3 0)\<lparr>ttq_isRtQuery := False, ttq_init := True, ttq_not_ackd := 0x10000\<rparr>
   in \<exists>s'. tx_sar_table (tst_reset\<lparr>tst_siTXe_TxSarQry := Stream 4 [q]\<rparr>) = Some s' \<and>
        te_unak (TX_SAR_TABLE s' 3) = 0x10000 \<and> te_appw (TX_SAR_TABLE s' 3) = 0"
proof -
  let ?q = "(TXeTxSarRtQuery 3 0)\<lparr>ttq_isRtQuery := False, ttq_init := True, ttq_not_ackd := 0x10000\<rparr>"
  let ?s = "tst_reset\<lparr>tst_siTXe_TxSarQry := Stream 4 [?q]\<rparr>"
  obtain s' where s': "tx_sar_table ?s = Some s'"
    by (simp add: tx_sar_table_def tst_reset_def TXeTxSarRtQuery_def stream_simps sess_ok_iff)
  from tst_init_session [of ?s 4 ?q "[]" 3, OF _ _ _ _ _ s'] s' show ?thesis
    by (simp add: TXeTxSarRtQuery_def)
qed

text \<open>The FIN flags are sticky: however many queries of the three clients are served, a
  session that is ready to send its FIN, or has sent it, stays so until the Tx engine
  initialises the session again; in particular a retransmission query does not lose them.\<close>

theorem tst_fin_sticky:
  assumes "steps tx_sar_table n s = Some s'" "tst_no_init i s"
  shows "(te_finReady (TX_SAR_TABLE s i) \<longrightarrow> te_finReady (TX_SAR_TABLE s' i)) \<and>
         (te_finSent (TX_SAR_TABLE s i) \<longrightarrow> te_finSent (TX_SAR_TABLE s' i))"
proof -
  let ?I = "\<lambda>t. tst_no_init i t \<and> te_fin_le (TX_SAR_TABLE s i) (TX_SAR_TABLE t i)"
  have "?I s'"
  proof (rule steps_invariant [of ?I tx_sar_table s n s'])
    fix t t' assume "?I t" "tx_sar_table t = Some t'"
    then show "?I t'"
      using tx_sar_table_no_init [of t t' i] by (auto simp: te_fin_le_def)
  qed (use assms in \<open>auto simp: te_fin_le_def\<close>)
  then show ?thesis by (simp add: te_fin_le_def)
qed

theorem tst_fin_sticky_witness:
  "\<exists>s'. steps tx_sar_table 1 (tst_reset\<lparr>tst_siTXe_TxSarQry := Stream 4 [TXeTxSarRtQuery 6 500],
        TX_SAR_TABLE := (\<lambda>_. te_zero\<lparr>te_finReady := True, te_finSent := True\<rparr>)\<rparr>) = Some s' \<and>
     te_slowstart_threshold (TX_SAR_TABLE s' 6) = 500 \<and> te_finSent (TX_SAR_TABLE s' 6)"
proof -
  let ?s = "tst_reset\<lparr>tst_siTXe_TxSarQry := Stream 4 [TXeTxSarRtQuery 6 500],
        TX_SAR_TABLE := (\<lambda>_. te_zero\<lparr>te_finReady := True, te_finSent := True\<rparr>)\<rparr>"
  obtain s' where s': "steps tx_sar_table 1 ?s = Some s'"
    "te_slowstart_threshold (TX_SAR_TABLE s' 6) = 500"
    by (simp add: tx_sar_table_def tst_reset_def TXeTxSarRtQuery_def stream_simps
        sess_ok_iff tst_txe_write_def getThreshold_def)
  from tst_fin_sticky [OF s'(1), of 6] s' show ?thesis
    by (simp add: tst_no_init_def TXeTxSarRtQuery_def)
qed

end
