(* ===== verification/Port_Table.thy ===== *)
theory Port_Table
  imports Toe_Types
begin

text \<open>
  The Port Table (PRt), \<open>NTS/toe/src/port_table/port_table.cpp\<close>: the listening ports (static,
  below 0x8000) and the ports of active connections (ephemeral, from 0x8000), each a table of
  0x8000 one-bit entries with its own process, and the router and the multiplexer that send a
  port query to the right table and bring the replies back in order.  The record holds the ports
  of the entity, its internal streams and the static variables of the processes.  The code of
  the simulation that aborts when a static port is released (\<open>#ifndef __SYNTHESIS__\<close>) is not
  part of the hardware and not of the model.
\<close>

section \<open>State\<close>

text \<open>\<open>ACT_FREE_PORT\<close> is false and \<open>ACT_USED_PORT\<close> true; a range is \<open>LISTEN_PORT\<close> (true) or
  \<open>ACTIVE_PORT\<close> (false); a listening port is open (true) or closed.\<close>

datatype orm_state = ORM_WAIT_FOR_QUERY_FROM_Irr | ORM_FORWARD_LSN_PORT_STATE_RSP
  | ORM_FORWARD_ACT_PORT_STATE_RSP

record PRt =
  prt_siRXe_GetPortStateReq :: "TcpPort stream"
  prt_soRXe_GetPortStateRep :: "bool stream"
  prt_siRAi_OpenLsnPortReq :: "TcpPort stream"
  prt_soRAi_OpenLsnPortAck :: "bool stream"
  prt_siTAi_GetFreePortReq :: "unit stream"
  prt_soTAi_GetFreePortRep :: "TcpPort stream"
  prt_siSLc_CloseActPortCmd :: "TcpPort stream"
  ssIrrToLpt_GetLsnPortStateCmd :: "TcpStaPort stream"
  ssIrrToFpt_GetActPortStateCmd :: "TcpDynPort stream"
  ssIrrToOrm_QueryRange :: "bool stream"
  ssLptToOrm_GetLsnPortStateRsp :: "bool stream"
  ssFptToOrm_GetActPortStateRsp :: "bool stream"
  LISTEN_PORT_TABLE :: "15 word \<Rightarrow> bool"
  lpt_isLPtInit :: bool
  lpt_lsnPortNum :: TcpPort
  ACTIVE_PORT_TABLE :: "15 word \<Rightarrow> bool"
  fpt_isFPtInit :: bool
  fpt_searching :: bool
  fpt_eval :: bool
  fpt_dynPortNum :: TcpDynPort
  fpt_portState :: bool
  orm_fsmState :: orm_state
  sLptToAnd2_Ready :: bool
  sFptToAnd2_Ready :: bool
  poTOE_Ready :: bool

text \<open>After reset the control variables have their initial values; the tables are memories that
  reset does not clear, so they are a parameter.\<close>

definition prt_reset :: "(15 word \<Rightarrow> bool) \<Rightarrow> (15 word \<Rightarrow> bool) \<Rightarrow> PRt" where
  "prt_reset lsn act = \<lparr>
     prt_siRXe_GetPortStateReq = Stream 2 [], prt_soRXe_GetPortStateRep = Stream 4 [],
     prt_siRAi_OpenLsnPortReq = Stream 4 [], prt_soRAi_OpenLsnPortAck = Stream 4 [],
     prt_siTAi_GetFreePortReq = Stream 4 [], prt_soTAi_GetFreePortRep = Stream 4 [],
     prt_siSLc_CloseActPortCmd = Stream 4 [],
     ssIrrToLpt_GetLsnPortStateCmd = Stream 2 [], ssIrrToFpt_GetActPortStateCmd = Stream 2 [],
     ssIrrToOrm_QueryRange = Stream 4 [], ssLptToOrm_GetLsnPortStateRsp = Stream 2 [],
     ssFptToOrm_GetActPortStateRsp = Stream 2 [],
     LISTEN_PORT_TABLE = lsn, lpt_isLPtInit = False, lpt_lsnPortNum = 0,
     ACTIVE_PORT_TABLE = act, fpt_isFPtInit = False, fpt_searching = False, fpt_eval = False,
     fpt_dynPortNum = 0x7FFF, fpt_portState = True,
     orm_fsmState = ORM_WAIT_FOR_QUERY_FROM_Irr,
     sLptToAnd2_Ready = False, sFptToAnd2_Ready = False, poTOE_Ready = False\<rparr>"

section \<open>The processes\<close>

definition pListeningPortTable :: "PRt \<Rightarrow> PRt" where
  "pListeningPortTable s =
     (let s =
        (if \<not> lpt_isLPtInit s then
           (let s = s\<lparr>LISTEN_PORT_TABLE := (LISTEN_PORT_TABLE s)(ucast (lpt_lsnPortNum s) := False),
                      lpt_lsnPortNum := lpt_lsnPortNum s + 1\<rparr>
            in if lpt_lsnPortNum s = 0x8000 then s\<lparr>lpt_isLPtInit := True\<rparr> else s)
         else if \<not> sempty (prt_siRAi_OpenLsnPortReq s) \<and> \<not> sfull (prt_soRAi_OpenLsnPortAck s) then
           (case sread (prt_siRAi_OpenLsnPortReq s) of
              None \<Rightarrow> s
            | Some (p, si) \<Rightarrow>
                (let s = s\<lparr>prt_siRAi_OpenLsnPortReq := si, lpt_lsnPortNum := p\<rparr> in
                 if p < 0x8000 then
                   s\<lparr>LISTEN_PORT_TABLE := (LISTEN_PORT_TABLE s)(ucast p := True),
                     prt_soRAi_OpenLsnPortAck := swrite (prt_soRAi_OpenLsnPortAck s) True\<rparr>
                 else
                   s\<lparr>prt_soRAi_OpenLsnPortAck := swrite (prt_soRAi_OpenLsnPortAck s) False\<rparr>))
         else
           (case sread (ssIrrToLpt_GetLsnPortStateCmd s) of
              None \<Rightarrow> s
            | Some (n, si) \<Rightarrow>
                s\<lparr>ssIrrToLpt_GetLsnPortStateCmd := si,
                  ssLptToOrm_GetLsnPortStateRsp :=
                    swrite (ssLptToOrm_GetLsnPortStateRsp s) (LISTEN_PORT_TABLE s n)\<rparr>))
      in s\<lparr>sLptToAnd2_Ready := lpt_isLPtInit s\<rparr>)"

definition pFreePortTable :: "PRt \<Rightarrow> PRt" where
  "pFreePortTable s =
     (let s =
        (if \<not> fpt_isFPtInit s then
           (let s = s\<lparr>ACTIVE_PORT_TABLE := (ACTIVE_PORT_TABLE s)(fpt_dynPortNum s := False),
                      fpt_dynPortNum := fpt_dynPortNum s - 1\<rparr>
            in if fpt_dynPortNum s = 0 then s\<lparr>fpt_isFPtInit := True\<rparr> else s)
         else if fpt_searching s then
           s\<lparr>fpt_portState := ACTIVE_PORT_TABLE s (fpt_dynPortNum s),
             fpt_searching := False, fpt_eval := True\<rparr>
         else if fpt_eval s then
           (let s =
              (if fpt_portState s = False then
                 (if \<not> sfull (prt_soTAi_GetFreePortRep s) then
                    s\<lparr>fpt_eval := False,
                      ACTIVE_PORT_TABLE := (ACTIVE_PORT_TABLE s)(fpt_dynPortNum s := True),
                      prt_soTAi_GetFreePortRep :=
                        swrite (prt_soTAi_GetFreePortRep s) (0x8000 + ucast (fpt_dynPortNum s))\<rparr>
                  else s)
               else s\<lparr>fpt_searching := True\<rparr>)
            in s\<lparr>fpt_dynPortNum := fpt_dynPortNum s + 1\<rparr>)
         else if \<not> sempty (ssIrrToFpt_GetActPortStateCmd s) then
           (case sread (ssIrrToFpt_GetActPortStateCmd s) of
              None \<Rightarrow> s
            | Some (n, si) \<Rightarrow>
                s\<lparr>ssIrrToFpt_GetActPortStateCmd := si,
                  ssFptToOrm_GetActPortStateRsp :=
                    swrite (ssFptToOrm_GetActPortStateRsp s) (ACTIVE_PORT_TABLE s n)\<rparr>)
         else if \<not> sempty (prt_siTAi_GetFreePortReq s) then
           (case sread (prt_siTAi_GetFreePortReq s) of
              None \<Rightarrow> s
            | Some (_, si) \<Rightarrow> s\<lparr>prt_siTAi_GetFreePortReq := si, fpt_searching := True\<rparr>)
         else
           (case sread (prt_siSLc_CloseActPortCmd s) of
              None \<Rightarrow> s
            | Some (p, si) \<Rightarrow>
                (let s = s\<lparr>prt_siSLc_CloseActPortCmd := si\<rparr> in
                 if bit p 15
                 then s\<lparr>ACTIVE_PORT_TABLE := (ACTIVE_PORT_TABLE s)(ucast p := False)\<rparr>
                 else s)))
      in s\<lparr>sFptToAnd2_Ready := fpt_isFPtInit s\<rparr>)"

definition pInputRequestRouter :: "PRt \<Rightarrow> PRt" where
  "pInputRequestRouter s =
     (case sread (prt_siRXe_GetPortStateReq s) of
        None \<Rightarrow> s
      | Some (p, si) \<Rightarrow>
          (let s = s\<lparr>prt_siRXe_GetPortStateReq := si\<rparr> in
           if p < 0x8000 then
             s\<lparr>ssIrrToLpt_GetLsnPortStateCmd := swrite (ssIrrToLpt_GetLsnPortStateCmd s) (ucast p),
               ssIrrToOrm_QueryRange := swrite (ssIrrToOrm_QueryRange s) True\<rparr>
           else
             s\<lparr>ssIrrToFpt_GetActPortStateCmd := swrite (ssIrrToFpt_GetActPortStateCmd s) (ucast p),
               ssIrrToOrm_QueryRange := swrite (ssIrrToOrm_QueryRange s) False\<rparr>))"

definition pOutputReplyMultiplexer :: "PRt \<Rightarrow> PRt" where
  "pOutputReplyMultiplexer s =
     (case orm_fsmState s of
        ORM_WAIT_FOR_QUERY_FROM_Irr \<Rightarrow>
          (case sread (ssIrrToOrm_QueryRange s) of
             None \<Rightarrow> s
           | Some (qryType, si) \<Rightarrow>
               s\<lparr>ssIrrToOrm_QueryRange := si,
                 orm_fsmState := (if qryType then ORM_FORWARD_LSN_PORT_STATE_RSP
                                  else ORM_FORWARD_ACT_PORT_STATE_RSP)\<rparr>)
      | ORM_FORWARD_LSN_PORT_STATE_RSP \<Rightarrow>
          (if sfull (prt_soRXe_GetPortStateRep s) then s
           else case sread (ssLptToOrm_GetLsnPortStateRsp s) of
             None \<Rightarrow> s
           | Some (r, si) \<Rightarrow>
               s\<lparr>ssLptToOrm_GetLsnPortStateRsp := si,
                 prt_soRXe_GetPortStateRep := swrite (prt_soRXe_GetPortStateRep s) r,
                 orm_fsmState := ORM_WAIT_FOR_QUERY_FROM_Irr\<rparr>)
      | ORM_FORWARD_ACT_PORT_STATE_RSP \<Rightarrow>
          (if sfull (prt_soRXe_GetPortStateRep s) then s
           else case sread (ssFptToOrm_GetActPortStateRsp s) of
             None \<Rightarrow> s
           | Some (r, si) \<Rightarrow>
               s\<lparr>ssFptToOrm_GetActPortStateRsp := si,
                 prt_soRXe_GetPortStateRep := swrite (prt_soRXe_GetPortStateRep s) r,
                 orm_fsmState := ORM_WAIT_FOR_QUERY_FROM_Irr\<rparr>))"

definition pReady :: "PRt \<Rightarrow> PRt" where
  "pReady s = s\<lparr>poTOE_Ready := (sLptToAnd2_Ready s \<and> sFptToAnd2_Ready s)\<rparr>"

text \<open>One cycle of the entity, its processes in the order of the code.\<close>

definition port_table :: "PRt \<Rightarrow> PRt" where
  "port_table s =
     pReady (pOutputReplyMultiplexer (pInputRequestRouter (pFreePortTable (pListeningPortTable s))))"

lemmas prt_defs = pListeningPortTable_def pFreePortTable_def pInputRequestRouter_def
  pOutputReplyMultiplexer_def pReady_def


section \<open>Ephemeral port numbers\<close>

lemma unat_dyn: "unat (w::15 word) < 0x8000"
  using unsigned_less [of w] by simp

lemma ucast_dyn [simp]: "ucast (0x8000 + ucast (w::15 word) :: 16 word) = w"
  using unat_dyn [of w]
  by (simp add: word_unat_eq_iff unat_word_ariths unsigned_ucast_eq take_bit_eq_mod unsigned_take_bit_eq)

lemma dyn_ge [simp]: "(0x8000 :: 16 word) \<le> 0x8000 + ucast (w::15 word)"
  using unat_dyn [of w]
  by (simp add: word_le_nat_alt unat_word_ariths unsigned_ucast_eq take_bit_eq_mod)

lemma unat_dyn_gt_1: "w \<noteq> 0 \<Longrightarrow> w \<noteq> 1 \<Longrightarrow> 1 < unat (w::15 word)"
  using word_unat_eq_iff [of w 0] word_unat_eq_iff [of w 1] by simp

lemma unat_dyn_ne: "w \<noteq> 0x7FFF \<Longrightarrow> unat (w::15 word) \<noteq> 0x7FFF"
  by (simp add: word_unat_eq_iff)

section \<open>Initialisation\<close>

lemma word_of_nat_lt_ne:
  assumes "a < 2 ^ LENGTH('a)" "b < 2 ^ LENGTH('a)" "a \<noteq> b"
  shows "(of_nat a :: 'a::len word) \<noteq> of_nat b"
  using assms by (simp add: word_of_nat_eq_iff take_bit_nat_eq_self)

lemma lpt_init_step:
  assumes "\<not> lpt_isLPtInit s" "lpt_lsnPortNum s + 1 \<noteq> 0x8000"
  shows "pListeningPortTable s = s\<lparr>
     LISTEN_PORT_TABLE := (LISTEN_PORT_TABLE s)(ucast (lpt_lsnPortNum s) := False),
     lpt_lsnPortNum := lpt_lsnPortNum s + 1, sLptToAnd2_Ready := False\<rparr>"
  using assms by (simp add: pListeningPortTable_def Let_def)

lemma lpt_init_last:
  assumes "\<not> lpt_isLPtInit s" "lpt_lsnPortNum s = 0x7FFF"
  shows "pListeningPortTable s = s\<lparr>
     LISTEN_PORT_TABLE := (LISTEN_PORT_TABLE s)(0x7FFF := False),
     lpt_lsnPortNum := 0x8000, lpt_isLPtInit := True, sLptToAnd2_Ready := True\<rparr>"
  using assms by (simp add: pListeningPortTable_def Let_def)

lemma lpt_init_run:
  assumes "n \<le> 0x7FFF" "\<not> lpt_isLPtInit s" "lpt_lsnPortNum s = 0"
  shows "lpt_lsnPortNum ((pListeningPortTable ^^ n) s) = of_nat n \<and>
    \<not> lpt_isLPtInit ((pListeningPortTable ^^ n) s) \<and>
    (\<forall>k < n. \<not> LISTEN_PORT_TABLE ((pListeningPortTable ^^ n) s) (of_nat k))"
  using assms(1)
proof (induction n)
  case 0
  show ?case using assms by simp
next
  case (Suc n)
  define t where "t = (pListeningPortTable ^^ n) s"
  have IH: "lpt_lsnPortNum t = of_nat n" "\<not> lpt_isLPtInit t"
    "\<And>k. k < n \<Longrightarrow> \<not> LISTEN_PORT_TABLE t (of_nat k)"
    using Suc by (auto simp: t_def)
  have "(of_nat (Suc n) :: 16 word) \<noteq> of_nat 0x8000"
    using Suc.prems by (intro word_of_nat_lt_ne) auto
  then have ne: "lpt_lsnPortNum t + 1 \<noteq> 0x8000" by (simp add: IH add.commute)
  have "ucast (of_nat n :: 16 word) = (of_nat n :: 15 word)"
    using Suc.prems by (simp add: unsigned_of_nat take_bit_nat_eq_self)
  moreover have "(pListeningPortTable ^^ Suc n) s = pListeningPortTable t"
    by (simp add: t_def)
  ultimately show ?case
    using IH lpt_init_step [OF IH(2) ne] by (auto simp: less_Suc_eq)
qed

lemma fpt_init_step:
  assumes "\<not> fpt_isFPtInit s" "fpt_dynPortNum s - 1 \<noteq> 0"
  shows "pFreePortTable s = s\<lparr>
     ACTIVE_PORT_TABLE := (ACTIVE_PORT_TABLE s)(fpt_dynPortNum s := False),
     fpt_dynPortNum := fpt_dynPortNum s - 1, sFptToAnd2_Ready := False\<rparr>"
  using assms by (simp add: pFreePortTable_def Let_def)

lemma fpt_init_last:
  assumes "\<not> fpt_isFPtInit s" "fpt_dynPortNum s = 1"
  shows "pFreePortTable s = s\<lparr>
     ACTIVE_PORT_TABLE := (ACTIVE_PORT_TABLE s)(1 := False),
     fpt_dynPortNum := 0, fpt_isFPtInit := True, sFptToAnd2_Ready := True\<rparr>"
  using assms by (simp add: pFreePortTable_def Let_def)

lemma fpt_init_run:
  assumes "n < 0x7FFF" "\<not> fpt_isFPtInit s" "fpt_dynPortNum s = 0x7FFF"
  shows "fpt_dynPortNum ((pFreePortTable ^^ n) s) = of_nat (0x7FFF - n) \<and>
    \<not> fpt_isFPtInit ((pFreePortTable ^^ n) s) \<and>
    ACTIVE_PORT_TABLE ((pFreePortTable ^^ n) s) 0 = ACTIVE_PORT_TABLE s 0 \<and>
    (\<forall>k. 0x7FFF - n < k \<and> k \<le> 0x7FFF \<longrightarrow>
       \<not> ACTIVE_PORT_TABLE ((pFreePortTable ^^ n) s) (of_nat k))"
  using assms(1)
proof (induction n)
  case 0
  show ?case using assms by auto
next
  case (Suc n)
  define t where "t = (pFreePortTable ^^ n) s"
  define m where "m = 0x7FFF - Suc n"
  have m: "0x7FFF - n = Suc m" "0 < m" "m < 0x7FFF" using Suc.prems by (auto simp: m_def)
  have IH: "fpt_dynPortNum t = of_nat (Suc m)" "\<not> fpt_isFPtInit t"
    "ACTIVE_PORT_TABLE t 0 = ACTIVE_PORT_TABLE s 0"
    "\<And>k. Suc m < k \<Longrightarrow> k \<le> 0x7FFF \<Longrightarrow> \<not> ACTIVE_PORT_TABLE t (of_nat k)"
    using Suc m(1) by (auto simp: t_def)
  have ne: "(of_nat m :: 15 word) \<noteq> 0" "(of_nat (Suc m) :: 15 word) \<noteq> 0"
    using word_of_nat_lt_ne [of m 0, where 'a = 15] word_of_nat_lt_ne [of "Suc m" 0, where 'a = 15] m
    by simp_all
  then have "pFreePortTable t = t\<lparr>
     ACTIVE_PORT_TABLE := (ACTIVE_PORT_TABLE t)(of_nat (Suc m) := False),
     fpt_dynPortNum := of_nat m, sFptToAnd2_Ready := False\<rparr>"
    using fpt_init_step [OF IH(2)] IH(1) by simp
  moreover have "(pFreePortTable ^^ Suc n) s = pFreePortTable t"
    by (simp add: t_def)
  ultimately have s': "(pFreePortTable ^^ Suc n) s = t\<lparr>
     ACTIVE_PORT_TABLE := (ACTIVE_PORT_TABLE t)(of_nat (Suc m) := False),
     fpt_dynPortNum := of_nat m, sFptToAnd2_Ready := False\<rparr>"
    by simp
  have "\<not> ((ACTIVE_PORT_TABLE t)(of_nat (Suc m) := False)) (of_nat k)"
    if "m < k" "k \<le> 0x7FFF" for k
    using that IH(4) [of k] by (cases "k = Suc m") auto
  moreover have "((ACTIVE_PORT_TABLE t)(of_nat (Suc m) := False)) 0 = ACTIVE_PORT_TABLE s 0"
    using ne(2) IH(3) by simp
  ultimately show ?case
    unfolding s' m_def [symmetric] using IH(2) by simp
qed

section \<open>The search for a free port\<close>

text \<open>The port under evaluation is the one whose state was read.\<close>

definition fpt_inv :: "PRt \<Rightarrow> bool" where
  "fpt_inv s \<longleftrightarrow> fpt_isFPtInit s \<and>
     (fpt_eval s \<and> \<not> fpt_searching s \<longrightarrow> fpt_portState s = ACTIVE_PORT_TABLE s (fpt_dynPortNum s))"

text \<open>The state in which the reply FIFO is full when a free port has been found.\<close>

definition fpt_blocked :: "PRt \<Rightarrow> bool" where
  "fpt_blocked s \<longleftrightarrow> fpt_eval s \<and> \<not> fpt_searching s \<and> \<not> fpt_portState s \<and>
     sfull (prt_soTAi_GetFreePortRep s)"

lemma pFreePortTable_inv:
  assumes "fpt_inv s" "\<not> fpt_blocked s"
  shows "fpt_inv (pFreePortTable s)"
  using assms
  by (auto simp: pFreePortTable_def fpt_inv_def fpt_blocked_def Let_def split: option.splits)

lemma fpt_search_two_steps:
  assumes "fpt_isFPtInit s" "fpt_searching s" "\<not> sfull (prt_soTAi_GetFreePortRep s)"
  shows "ACTIVE_PORT_TABLE s (fpt_dynPortNum s) \<Longrightarrow>
      (pFreePortTable ^^ 2) s = s\<lparr>fpt_portState := True, fpt_eval := True, fpt_searching := True,
         fpt_dynPortNum := fpt_dynPortNum s + 1, sFptToAnd2_Ready := True\<rparr>"
    and "\<not> ACTIVE_PORT_TABLE s (fpt_dynPortNum s) \<Longrightarrow>
      items (prt_soTAi_GetFreePortRep ((pFreePortTable ^^ 2) s)) =
         items (prt_soTAi_GetFreePortRep s) @ [0x8000 + ucast (fpt_dynPortNum s)] \<and>
      \<not> fpt_eval ((pFreePortTable ^^ 2) s) \<and> \<not> fpt_searching ((pFreePortTable ^^ 2) s) \<and>
      ACTIVE_PORT_TABLE ((pFreePortTable ^^ 2) s) =
         (ACTIVE_PORT_TABLE s)(fpt_dynPortNum s := True)"
  using assms by (simp_all add: numeral_2_eq_2 pFreePortTable_def Let_def)

lemma fpt_search_finds:
  assumes "fpt_isFPtInit s" "fpt_searching s" "\<not> sfull (prt_soTAi_GetFreePortRep s)"
    and "\<not> ACTIVE_PORT_TABLE s (fpt_dynPortNum s + of_nat k)"
    and "\<forall>j < k. ACTIVE_PORT_TABLE s (fpt_dynPortNum s + of_nat j)"
  shows "items (prt_soTAi_GetFreePortRep ((pFreePortTable ^^ (2 * k + 2)) s)) =
      items (prt_soTAi_GetFreePortRep s) @ [0x8000 + ucast (fpt_dynPortNum s + of_nat k)] \<and>
    \<not> fpt_eval ((pFreePortTable ^^ (2 * k + 2)) s) \<and>
    \<not> fpt_searching ((pFreePortTable ^^ (2 * k + 2)) s) \<and>
    ACTIVE_PORT_TABLE ((pFreePortTable ^^ (2 * k + 2)) s) =
      (ACTIVE_PORT_TABLE s)(fpt_dynPortNum s + of_nat k := True)"
  using assms
proof (induction k arbitrary: s)
  case 0
  then show ?case using fpt_search_two_steps(2) [of s] by (simp add: numeral_2_eq_2)
next
  case (Suc k)
  let ?t = "s\<lparr>fpt_portState := True, fpt_eval := True, fpt_searching := True,
         fpt_dynPortNum := fpt_dynPortNum s + 1, sFptToAnd2_Ready := True\<rparr>"
  have used: "ACTIVE_PORT_TABLE s (fpt_dynPortNum s)"
    using Suc.prems(5) [rule_format, of 0] by simp
  then have t: "(pFreePortTable ^^ 2) s = ?t"
    using fpt_search_two_steps(1) Suc.prems by blast
  have run: "(pFreePortTable ^^ (2 * Suc k + 2)) s = (pFreePortTable ^^ (2 * k + 2)) ?t"
  proof -
    have "2 * Suc k + 2 = (2 * k + 2) + 2" by simp
    then show ?thesis by (simp only: funpow_add comp_apply t)
  qed
  have at: "fpt_dynPortNum ?t + of_nat j = fpt_dynPortNum s + of_nat (Suc j)" for j
    by (simp add: add.assoc)
  have "\<forall>j < k. ACTIVE_PORT_TABLE ?t (fpt_dynPortNum ?t + of_nat j)"
  proof (intro allI impI)
    fix j assume "j < k"
    then show "ACTIVE_PORT_TABLE ?t (fpt_dynPortNum ?t + of_nat j)"
      unfolding at using Suc.prems(5) [rule_format, of "Suc j"] by simp
  qed
  moreover have "\<not> ACTIVE_PORT_TABLE ?t (fpt_dynPortNum ?t + of_nat k)"
    unfolding at using Suc.prems(4) by simp
  moreover have "fpt_isFPtInit ?t" "fpt_searching ?t" "\<not> sfull (prt_soTAi_GetFreePortRep ?t)"
    using Suc.prems(1-3) by simp_all
  moreover have "prt_soTAi_GetFreePortRep ?t = prt_soTAi_GetFreePortRep s"
    "ACTIVE_PORT_TABLE ?t = ACTIVE_PORT_TABLE s"
    by simp_all
  ultimately show ?case
    using Suc.IH [of ?t] unfolding run at by metis
qed


section \<open>Queries and replies in any order of the processes\<close>

text \<open>
  The hardware runs the processes concurrently.  A step of the entity is a run of any one of
  them, a request that arrives at an input or a reply that is taken from an output.
\<close>

inductive prt_step :: "PRt \<Rightarrow> PRt \<Rightarrow> bool" where
  lpt: "prt_step s (pListeningPortTable s)"
| fpt: "prt_step s (pFreePortTable s)"
| irr: "prt_step s (pInputRequestRouter s)"
| orm: "prt_step s (pOutputReplyMultiplexer s)"
| rdy: "prt_step s (pReady s)"
| query: "prt_step s (s\<lparr>prt_siRXe_GetPortStateReq := swrite (prt_siRXe_GetPortStateReq s) p\<rparr>)"
| listen: "prt_step s (s\<lparr>prt_siRAi_OpenLsnPortReq := swrite (prt_siRAi_OpenLsnPortReq s) p\<rparr>)"
| get: "prt_step s (s\<lparr>prt_siTAi_GetFreePortReq := swrite (prt_siTAi_GetFreePortReq s) ()\<rparr>)"
| release: "prt_step s (s\<lparr>prt_siSLc_CloseActPortCmd := swrite (prt_siSLc_CloseActPortCmd s) p\<rparr>)"
| take_state: "prt_step s (s\<lparr>prt_soRXe_GetPortStateRep := so\<rparr>)"
| take_ack: "prt_step s (s\<lparr>prt_soRAi_OpenLsnPortAck := so\<rparr>)"
| take_port: "prt_step s (s\<lparr>prt_soTAi_GetFreePortRep := st\<rparr>)"

inductive prt_reaches :: "PRt \<Rightarrow> PRt \<Rightarrow> bool" where
  refl: "prt_reaches s s"
| step: "prt_reaches s t \<Longrightarrow> prt_step t u \<Longrightarrow> prt_reaches s u"

text \<open>The ranges of the queries that are still to be answered, oldest first.\<close>

definition orm_ranges :: "PRt \<Rightarrow> bool list" where
  "orm_ranges s =
     (case orm_fsmState s of
        ORM_WAIT_FOR_QUERY_FROM_Irr \<Rightarrow> []
      | ORM_FORWARD_LSN_PORT_STATE_RSP \<Rightarrow> [True]
      | ORM_FORWARD_ACT_PORT_STATE_RSP \<Rightarrow> [False]) @ items (ssIrrToOrm_QueryRange s)"

definition prt_flow :: "PRt \<Rightarrow> bool" where
  "prt_flow s \<longleftrightarrow>
     count_list (orm_ranges s) True =
       length (items (ssIrrToLpt_GetLsnPortStateCmd s)) + length (items (ssLptToOrm_GetLsnPortStateRsp s)) \<and>
     count_list (orm_ranges s) False =
       length (items (ssIrrToFpt_GetActPortStateCmd s)) + length (items (ssFptToOrm_GetActPortStateRsp s))"

lemmas prt_flow_defs = prt_flow_def orm_ranges_def

lemma prt_flow_lpt: "prt_flow s \<Longrightarrow> prt_flow (pListeningPortTable s)"
  by (auto simp: prt_flow_defs pListeningPortTable_def Let_def sread_Some_iff split: option.splits)

lemma prt_flow_fpt: "prt_flow s \<Longrightarrow> prt_flow (pFreePortTable s)"
  by (auto simp: prt_flow_defs pFreePortTable_def Let_def sread_Some_iff split: option.splits)

lemma prt_flow_irr: "prt_flow s \<Longrightarrow> prt_flow (pInputRequestRouter s)"
  by (auto simp: prt_flow_defs pInputRequestRouter_def Let_def split: option.splits orm_state.splits)

lemma prt_flow_orm: "prt_flow s \<Longrightarrow> prt_flow (pOutputReplyMultiplexer s)"
  by (auto simp: prt_flow_defs pOutputReplyMultiplexer_def Let_def sread_Some_iff
      split: option.splits orm_state.splits)

lemma prt_step_flow: "prt_step s t \<Longrightarrow> prt_flow s \<Longrightarrow> prt_flow t"
  by (induction rule: prt_step.induct)
    (simp_all add: prt_flow_lpt prt_flow_fpt prt_flow_irr prt_flow_orm,
     simp_all add: prt_flow_defs pReady_def)

lemma prt_reaches_flow: "prt_reaches s t \<Longrightarrow> prt_flow s \<Longrightarrow> prt_flow t"
  by (induction rule: prt_reaches.induct) (auto intro: prt_step_flow)


section \<open>The processes on a single query\<close>

lemma lpt_idle:
  assumes "lpt_isLPtInit s" "items (prt_siRAi_OpenLsnPortReq s) = []"
    "items (ssIrrToLpt_GetLsnPortStateCmd s) = []"
  shows "pListeningPortTable s = s\<lparr>sLptToAnd2_Ready := True\<rparr>"
  using assms by (simp add: pListeningPortTable_def sempty_def)

lemma lpt_answers:
  assumes "lpt_isLPtInit s" "items (prt_siRAi_OpenLsnPortReq s) = []"
    "items (ssIrrToLpt_GetLsnPortStateCmd s) = [n]"
  shows "pListeningPortTable s = s\<lparr>
     ssIrrToLpt_GetLsnPortStateCmd := Stream (depth (ssIrrToLpt_GetLsnPortStateCmd s)) [],
     ssLptToOrm_GetLsnPortStateRsp :=
       swrite (ssLptToOrm_GetLsnPortStateRsp s) (LISTEN_PORT_TABLE s n),
     sLptToAnd2_Ready := True\<rparr>"
  using assms by (simp add: pListeningPortTable_def sempty_def sread_cons)

lemma fpt_idle:
  assumes "fpt_isFPtInit s" "\<not> fpt_searching s" "\<not> fpt_eval s"
    "items (ssIrrToFpt_GetActPortStateCmd s) = []" "items (prt_siTAi_GetFreePortReq s) = []"
    "items (prt_siSLc_CloseActPortCmd s) = []"
  shows "pFreePortTable s = s\<lparr>sFptToAnd2_Ready := True\<rparr>"
  using assms by (simp add: pFreePortTable_def sempty_def)

lemma fpt_answers:
  assumes "fpt_isFPtInit s" "\<not> fpt_searching s" "\<not> fpt_eval s"
    "items (ssIrrToFpt_GetActPortStateCmd s) = [n]"
  shows "pFreePortTable s = s\<lparr>
     ssIrrToFpt_GetActPortStateCmd := Stream (depth (ssIrrToFpt_GetActPortStateCmd s)) [],
     ssFptToOrm_GetActPortStateRsp :=
       swrite (ssFptToOrm_GetActPortStateRsp s) (ACTIVE_PORT_TABLE s n),
     sFptToAnd2_Ready := True\<rparr>"
  using assms by (simp add: pFreePortTable_def sempty_def sread_cons)

lemma irr_idle: "items (prt_siRXe_GetPortStateReq s) = [] \<Longrightarrow> pInputRequestRouter s = s"
  by (simp add: pInputRequestRouter_def)

lemma irr_routes:
  assumes "items (prt_siRXe_GetPortStateReq s) = [p]"
  shows "p < 0x8000 \<Longrightarrow> pInputRequestRouter s = s\<lparr>
      prt_siRXe_GetPortStateReq := Stream (depth (prt_siRXe_GetPortStateReq s)) [],
      ssIrrToLpt_GetLsnPortStateCmd := swrite (ssIrrToLpt_GetLsnPortStateCmd s) (ucast p),
      ssIrrToOrm_QueryRange := swrite (ssIrrToOrm_QueryRange s) True\<rparr>"
    and "\<not> p < 0x8000 \<Longrightarrow> pInputRequestRouter s = s\<lparr>
      prt_siRXe_GetPortStateReq := Stream (depth (prt_siRXe_GetPortStateReq s)) [],
      ssIrrToFpt_GetActPortStateCmd := swrite (ssIrrToFpt_GetActPortStateCmd s) (ucast p),
      ssIrrToOrm_QueryRange := swrite (ssIrrToOrm_QueryRange s) False\<rparr>"
  using assms by (simp_all add: pInputRequestRouter_def sread_cons)

lemma orm_takes_range:
  assumes "orm_fsmState s = ORM_WAIT_FOR_QUERY_FROM_Irr" "items (ssIrrToOrm_QueryRange s) = [r]"
  shows "pOutputReplyMultiplexer s = s\<lparr>
     ssIrrToOrm_QueryRange := Stream (depth (ssIrrToOrm_QueryRange s)) [],
     orm_fsmState := (if r then ORM_FORWARD_LSN_PORT_STATE_RSP else ORM_FORWARD_ACT_PORT_STATE_RSP)\<rparr>"
  using assms by (simp add: pOutputReplyMultiplexer_def sread_cons)

lemma orm_forwards:
  assumes "\<not> sfull (prt_soRXe_GetPortStateRep s)"
  shows "orm_fsmState s = ORM_FORWARD_LSN_PORT_STATE_RSP \<Longrightarrow>
      items (ssLptToOrm_GetLsnPortStateRsp s) = [r] \<Longrightarrow>
      pOutputReplyMultiplexer s = s\<lparr>
        ssLptToOrm_GetLsnPortStateRsp := Stream (depth (ssLptToOrm_GetLsnPortStateRsp s)) [],
        prt_soRXe_GetPortStateRep := swrite (prt_soRXe_GetPortStateRep s) r,
        orm_fsmState := ORM_WAIT_FOR_QUERY_FROM_Irr\<rparr>"
    and "orm_fsmState s = ORM_FORWARD_ACT_PORT_STATE_RSP \<Longrightarrow>
      items (ssFptToOrm_GetActPortStateRsp s) = [r] \<Longrightarrow>
      pOutputReplyMultiplexer s = s\<lparr>
        ssFptToOrm_GetActPortStateRsp := Stream (depth (ssFptToOrm_GetActPortStateRsp s)) [],
        prt_soRXe_GetPortStateRep := swrite (prt_soRXe_GetPortStateRep s) r,
        orm_fsmState := ORM_WAIT_FOR_QUERY_FROM_Irr\<rparr>"
  using assms by (simp_all add: pOutputReplyMultiplexer_def sread_cons)

lemmas prt_query_simps = port_table_def pReady_def lpt_idle lpt_answers fpt_idle fpt_answers
  irr_idle irr_routes orm_takes_range orm_forwards

section \<open>Properties\<close>

text \<open>The state of an idle, initialised port table with empty tables.\<close>

definition prt_idle :: PRt where
  "prt_idle = (prt_reset (\<lambda>_. False) (\<lambda>_. False))\<lparr>lpt_isLPtInit := True, lpt_lsnPortNum := 0x8000,
     fpt_isFPtInit := True, fpt_dynPortNum := 0\<rparr>"

text \<open>Listening table after reset: 0x8000 runs close every listening port, whatever the memory
  held, and the process then reports ready.\<close>

theorem lpt_init_clears_table:
  "let s = (pListeningPortTable ^^ 0x8000) (prt_reset lsn act)
   in lpt_isLPtInit s \<and> sLptToAnd2_Ready s \<and> (\<forall>p. \<not> LISTEN_PORT_TABLE s p)"
proof -
  define t where "t = (pListeningPortTable ^^ 0x7FFF) (prt_reset lsn act)"
  have t: "lpt_lsnPortNum t = 0x7FFF" "\<not> lpt_isLPtInit t"
    "\<And>k. k < 0x7FFF \<Longrightarrow> \<not> LISTEN_PORT_TABLE t (of_nat k)"
    using lpt_init_run [of "0x7FFF" "prt_reset lsn act"] unfolding t_def
    by (simp_all add: prt_reset_def del: funpow.simps)
  have "(pListeningPortTable ^^ 0x8000) (prt_reset lsn act) = pListeningPortTable t"
  proof -
    have "(0x8000::nat) = Suc 0x7FFF" by simp
    then show ?thesis unfolding t_def by (simp only: funpow.simps comp_apply)
  qed
  moreover have "\<not> LISTEN_PORT_TABLE (pListeningPortTable t) p" for p
  proof (cases "p = 0x7FFF")
    case True
    then show ?thesis by (simp add: lpt_init_last t)
  next
    case False
    have "\<not> LISTEN_PORT_TABLE t (of_nat (unat p))"
      using unat_dyn [of p] unat_dyn_ne [OF False] by (intro t(3)) simp
    then show ?thesis using False by (simp add: lpt_init_last t)
  qed
  ultimately show ?thesis by (simp add: Let_def lpt_init_last t)
qed

text \<open>Free list after reset: 0x7FFF runs mark every ephemeral port free except the first one,
  0x8000, whose entry keeps whatever the memory held before the reset.\<close>

theorem fpt_init_skips_entry_0:
  "let s = (pFreePortTable ^^ 0x7FFF) (prt_reset lsn act)
   in fpt_isFPtInit s \<and> sFptToAnd2_Ready s \<and> fpt_dynPortNum s = 0 \<and>
      (\<forall>p. ACTIVE_PORT_TABLE s p = (p = 0 \<and> act 0))"
proof -
  define t where "t = (pFreePortTable ^^ 0x7FFE) (prt_reset lsn act)"
  have t: "fpt_dynPortNum t = 1" "\<not> fpt_isFPtInit t" "ACTIVE_PORT_TABLE t 0 = act 0"
    "\<And>k. 1 < k \<Longrightarrow> k \<le> 0x7FFF \<Longrightarrow> \<not> ACTIVE_PORT_TABLE t (of_nat k)"
    using fpt_init_run [of "0x7FFE" "prt_reset lsn act"] unfolding t_def
    by (simp_all add: prt_reset_def del: funpow.simps)
  have "(pFreePortTable ^^ 0x7FFF) (prt_reset lsn act) = pFreePortTable t"
  proof -
    have "(0x7FFF::nat) = Suc 0x7FFE" by simp
    then show ?thesis unfolding t_def by (simp only: funpow.simps comp_apply)
  qed
  moreover have "ACTIVE_PORT_TABLE (pFreePortTable t) p = (p = 0 \<and> act 0)" for p
  proof (cases "p = 0 \<or> p = 1")
    case True
    then show ?thesis by (auto simp: fpt_init_last t)
  next
    case False
    then have "\<not> ACTIVE_PORT_TABLE t (of_nat (unat p))"
      using unat_dyn [of p] unat_dyn_gt_1 [of p] by (intro t(4)) auto
    then show ?thesis using False by (simp add: fpt_init_last t)
  qed
  ultimately show ?thesis by (simp add: Let_def fpt_init_last t)
qed

text \<open>
  The runs of the free port table from reset, with the ports that are in use by connections: those
  granted by a reply and not released since by a close command.  Between two cycles the rest
  of the entity and its environment may do anything that leaves the static variables of the process
  alone.  The runs do not include a cycle in which a free entry has been found and
  the reply FIFO is full.
\<close>

definition fpt_statics :: "PRt \<Rightarrow> bool \<times> bool \<times> bool \<times> TcpDynPort \<times> bool \<times> (15 word \<Rightarrow> bool)" where
  "fpt_statics s = (fpt_isFPtInit s, fpt_searching s, fpt_eval s, fpt_dynPortNum s, fpt_portState s,
     ACTIVE_PORT_TABLE s)"

inductive fpt_run :: "PRt \<Rightarrow> TcpDynPort set \<Rightarrow> bool" where
  boot: "fpt_run (prt_reset lsn act) {}"
| environment: "fpt_run s U \<Longrightarrow> fpt_statics s' = fpt_statics s \<Longrightarrow> fpt_run s' U"
| grant: "fpt_run s U \<Longrightarrow> \<not> fpt_blocked s \<Longrightarrow>
     items (prt_soTAi_GetFreePortRep (pFreePortTable s)) = items (prt_soTAi_GetFreePortRep s) @ [p] \<Longrightarrow>
     fpt_run (pFreePortTable s) (insert (ucast p) U)"
| free: "fpt_run s U \<Longrightarrow> \<not> fpt_blocked s \<Longrightarrow>
     items (prt_siSLc_CloseActPortCmd s) = p # items (prt_siSLc_CloseActPortCmd (pFreePortTable s)) \<Longrightarrow>
     fpt_run (pFreePortTable s) (if bit p 15 then U - {ucast p} else U)"
| other: "fpt_run s U \<Longrightarrow> \<not> fpt_blocked s \<Longrightarrow>
     prt_soTAi_GetFreePortRep (pFreePortTable s) = prt_soTAi_GetFreePortRep s \<Longrightarrow>
     prt_siSLc_CloseActPortCmd (pFreePortTable s) = prt_siSLc_CloseActPortCmd s \<Longrightarrow>
     fpt_run (pFreePortTable s) U"

text \<open>The table knows the ports in use, and the entry under evaluation is the one that was read.\<close>

definition fpt_knows :: "PRt \<Rightarrow> TcpDynPort set \<Rightarrow> bool" where
  "fpt_knows s U \<longleftrightarrow> (\<forall>q \<in> U. ACTIVE_PORT_TABLE s q) \<and>
     (if fpt_isFPtInit s then fpt_inv s else U = {} \<and> \<not> fpt_eval s \<and> \<not> fpt_searching s)"

lemma swrite_ne [simp]: "swrite st x \<noteq> st"
  by (cases st) (simp add: swrite_def)

lemma pFreePortTable_grants:
  assumes "items (prt_soTAi_GetFreePortRep (pFreePortTable s)) = items (prt_soTAi_GetFreePortRep s) @ [p]"
  shows "fpt_isFPtInit s" "fpt_eval s" "\<not> fpt_searching s" "\<not> fpt_portState s"
    "p = 0x8000 + ucast (fpt_dynPortNum s)"
    "ACTIVE_PORT_TABLE (pFreePortTable s) = (ACTIVE_PORT_TABLE s)(fpt_dynPortNum s := True)"
  using assms by (auto simp: pFreePortTable_def Let_def split: if_splits option.splits)

text \<open>The cycles that read a close command, and all others.\<close>

definition fpt_idle :: "PRt \<Rightarrow> bool" where
  "fpt_idle s \<longleftrightarrow> fpt_isFPtInit s \<and> \<not> fpt_searching s \<and> \<not> fpt_eval s \<and>
     items (ssIrrToFpt_GetActPortStateCmd s) = [] \<and> items (prt_siTAi_GetFreePortReq s) = []"

lemma pFreePortTable_idle:
  assumes "fpt_idle s"
  shows "items (prt_siSLc_CloseActPortCmd s) = [] \<Longrightarrow>
      pFreePortTable s = s\<lparr>sFptToAnd2_Ready := True\<rparr>"
    and "items (prt_siSLc_CloseActPortCmd s) = p # ps \<Longrightarrow> ACTIVE_PORT_TABLE (pFreePortTable s) =
      (if bit p 15 then (ACTIVE_PORT_TABLE s)(ucast p := False) else ACTIVE_PORT_TABLE s)"
    and "items (prt_siSLc_CloseActPortCmd s) = p # ps \<Longrightarrow>
      items (prt_siSLc_CloseActPortCmd (pFreePortTable s)) = ps"
  using assms by (simp_all add: fpt_idle_def pFreePortTable_def sempty_def sread_cons Let_def)

lemma pFreePortTable_busy:
  assumes "\<not> fpt_idle s"
  shows "prt_siSLc_CloseActPortCmd (pFreePortTable s) = prt_siSLc_CloseActPortCmd s"
    and "prt_soTAi_GetFreePortRep (pFreePortTable s) = prt_soTAi_GetFreePortRep s \<Longrightarrow> fpt_isFPtInit s \<Longrightarrow>
      ACTIVE_PORT_TABLE (pFreePortTable s) = ACTIVE_PORT_TABLE s"
  using assms
  by (simp_all add: fpt_idle_def pFreePortTable_def sempty_def Let_def split: option.split if_split)
    auto

lemma pFreePortTable_frees:
  assumes "items (prt_siSLc_CloseActPortCmd s) = p # items (prt_siSLc_CloseActPortCmd (pFreePortTable s))"
  shows "fpt_isFPtInit s"
    "ACTIVE_PORT_TABLE (pFreePortTable s) =
       (if bit p 15 then (ACTIVE_PORT_TABLE s)(ucast p := False) else ACTIVE_PORT_TABLE s)"
proof -
  have "fpt_idle s"
  proof (rule ccontr)
    assume "\<not> fpt_idle s"
    with pFreePortTable_busy(1) [of s] assms show False by simp
  qed
  with assms pFreePortTable_idle(2) [of s p] show "fpt_isFPtInit s"
    "ACTIVE_PORT_TABLE (pFreePortTable s) =
       (if bit p 15 then (ACTIVE_PORT_TABLE s)(ucast p := False) else ACTIVE_PORT_TABLE s)"
    by (simp_all add: fpt_idle_def)
qed

lemma pFreePortTable_keeps:
  assumes "prt_soTAi_GetFreePortRep (pFreePortTable s) = prt_soTAi_GetFreePortRep s"
    and "prt_siSLc_CloseActPortCmd (pFreePortTable s) = prt_siSLc_CloseActPortCmd s" "fpt_isFPtInit s"
  shows "ACTIVE_PORT_TABLE (pFreePortTable s) = ACTIVE_PORT_TABLE s"
proof (cases "fpt_idle s")
  case True
  show ?thesis
  proof (cases "items (prt_siSLc_CloseActPortCmd s)")
    case Nil
    with pFreePortTable_idle(1) [OF True] show ?thesis by simp
  next
    case (Cons p ps)
    with pFreePortTable_idle(3) [OF True Cons] assms(2) show ?thesis by simp
  qed
next
  case False
  with pFreePortTable_busy(2) [of s] assms show ?thesis by simp
qed

lemma pFreePortTable_init:
  "\<not> fpt_isFPtInit s \<Longrightarrow> fpt_eval (pFreePortTable s) = fpt_eval s \<and>
     fpt_searching (pFreePortTable s) = fpt_searching s"
  by (simp add: pFreePortTable_def Let_def)

lemma pFreePortTable_isInit: "fpt_isFPtInit s \<Longrightarrow> fpt_isFPtInit (pFreePortTable s)"
  by (auto simp: pFreePortTable_def Let_def split: option.splits)

lemma fpt_run_knows: "fpt_run s U \<Longrightarrow> fpt_knows s U"
proof (induction rule: fpt_run.induct)
  case (boot lsn act)
  show ?case by (simp add: fpt_knows_def prt_reset_def)
next
  case (environment s U s')
  then show ?case by (auto simp: fpt_knows_def fpt_inv_def fpt_statics_def split: if_splits)
next
  case (grant s U p)
  note g = pFreePortTable_grants [OF grant.hyps(3)]
  have "fpt_inv s" using grant.IH g(1) by (simp add: fpt_knows_def)
  with grant g pFreePortTable_inv [of s] pFreePortTable_isInit [of s] show ?case
    by (simp add: fpt_knows_def)
next
  case (free s U p)
  note f = pFreePortTable_frees [OF free.hyps(3)]
  have "fpt_inv s" using free.IH f(1) by (simp add: fpt_knows_def)
  with free f pFreePortTable_inv [of s] pFreePortTable_isInit [of s] show ?case
    by (simp add: fpt_knows_def)
next
  case (other s U)
  show ?case
  proof (cases "fpt_isFPtInit s")
    case True
    with other pFreePortTable_keeps [of s] pFreePortTable_inv [of s] pFreePortTable_isInit [of s]
    show ?thesis by (simp add: fpt_knows_def)
  next
    case False
    with other pFreePortTable_init [of s] show ?thesis by (simp add: fpt_knows_def fpt_inv_def)
  qed
qed

text \<open>C29. No port is given to two connections.  In every run from reset in which the reply FIFO is never full
  when a free entry has been found, a port that the free port table grants is an ephemeral one that
  no connection uses: it has not been granted before, or released since.  Its entry was
  free and is marked used, and no other entry changes.  (A cycle with a full FIFO breaks this, see
  \<open>fpt_full_fifo_grants_used_port\<close>.)\<close>

theorem fpt_grants_free_port:
  assumes "fpt_run s U" "\<not> fpt_blocked s"
    and "items (prt_soTAi_GetFreePortRep (pFreePortTable s)) = items (prt_soTAi_GetFreePortRep s) @ [p]"
  shows "0x8000 \<le> p \<and> ucast p \<notin> U \<and> \<not> ACTIVE_PORT_TABLE s (ucast p) \<and>
     ACTIVE_PORT_TABLE (pFreePortTable s) = (ACTIVE_PORT_TABLE s)(ucast p := True)"
  using fpt_run_knows [OF assms(1)] pFreePortTable_grants [OF assms(3)]
  by (auto simp: fpt_knows_def fpt_inv_def)

text \<open>After the initialisation, a request for a port: two cycles later the first port is granted.\<close>

lemma fpt_run_init:
  assumes "n \<le> 0x7FFF"
  shows "fpt_run ((pFreePortTable ^^ n) (prt_reset lsn act)) {} \<and>
     \<not> fpt_eval ((pFreePortTable ^^ n) (prt_reset lsn act)) \<and>
     \<not> fpt_searching ((pFreePortTable ^^ n) (prt_reset lsn act))"
  using assms
proof (induction n)
  case 0
  show ?case using fpt_run.boot [of lsn act] by (simp add: prt_reset_def)
next
  case (Suc n)
  let ?t = "(pFreePortTable ^^ n) (prt_reset lsn act)"
  have IH: "fpt_run ?t {}" "\<not> fpt_eval ?t" "\<not> fpt_searching ?t" using Suc by auto
  have "\<not> fpt_isFPtInit ?t"
    using fpt_init_run [of n "prt_reset lsn act"] Suc.prems by (simp add: prt_reset_def)
  then have "prt_soTAi_GetFreePortRep (pFreePortTable ?t) = prt_soTAi_GetFreePortRep ?t"
    "prt_siSLc_CloseActPortCmd (pFreePortTable ?t) = prt_siSLc_CloseActPortCmd ?t"
    "\<not> fpt_eval (pFreePortTable ?t)" "\<not> fpt_searching (pFreePortTable ?t)"
    using IH by (simp_all add: pFreePortTable_def Let_def)
  moreover have "\<not> fpt_blocked ?t" using IH by (simp add: fpt_blocked_def)
  ultimately show ?case using fpt_run.other [OF IH(1)] by simp
qed

lemma fpt_run_first_port:
  assumes "fpt_run t {}" "fpt_isFPtInit t" "fpt_dynPortNum t = 0" "\<not> ACTIVE_PORT_TABLE t 0"
    and "\<not> fpt_eval t" "\<not> fpt_searching t" "ssIrrToFpt_GetActPortStateCmd t = Stream 2 []"
    and "prt_siTAi_GetFreePortReq t = Stream 4 [()]" "prt_soTAi_GetFreePortRep t = Stream 4 []"
  shows "\<exists>s. fpt_run s {} \<and> \<not> fpt_blocked s \<and> items (prt_soTAi_GetFreePortRep s) = [] \<and>
     items (prt_soTAi_GetFreePortRep (pFreePortTable s)) = [0x8000]"
proof -
  let ?u = "pFreePortTable t" and ?s = "pFreePortTable (pFreePortTable t)"
  have u: "?u = t\<lparr>prt_siTAi_GetFreePortReq := Stream 4 [], fpt_searching := True,
      sFptToAnd2_Ready := True\<rparr>"
    using assms(2-) by (simp add: pFreePortTable_def stream_simps sempty_def)
  then have run1: "fpt_run ?u {}"
    using assms(5) by (intro other [OF assms(1)]) (simp_all add: fpt_blocked_def)
  have s: "?s = ?u\<lparr>fpt_portState := False, fpt_searching := False, fpt_eval := True\<rparr>"
    unfolding u using assms(2-) by (simp add: pFreePortTable_def)
  then have run2: "fpt_run ?s {}"
    using u by (intro other [OF run1]) (simp_all add: fpt_blocked_def)
  have "\<not> fpt_blocked ?s" "items (prt_soTAi_GetFreePortRep ?s) = []"
    "items (prt_soTAi_GetFreePortRep (pFreePortTable ?s)) = [0x8000]"
    unfolding s u using assms(2-) by (simp_all add: fpt_blocked_def stream_simps pFreePortTable_def)
  with run2 show ?thesis by blast
qed

theorem fpt_grants_free_port_witness:
  "\<exists>s. fpt_run s {} \<and> items (prt_soTAi_GetFreePortRep (pFreePortTable s)) = [0x8000] \<and>
     ACTIVE_PORT_TABLE (pFreePortTable s) 0"
proof -
  let ?r = "prt_reset (\<lambda>_. False) (\<lambda>_. False)"
  define i where "i = (pFreePortTable ^^ 0x7FFE) ?r"
  define t where "t = (pFreePortTable i)\<lparr>ssIrrToFpt_GetActPortStateCmd := Stream 2 [],
      prt_siTAi_GetFreePortReq := Stream 4 [()], prt_soTAi_GetFreePortRep := Stream 4 []\<rparr>"
  have i: "\<not> fpt_isFPtInit i" "fpt_dynPortNum i = 1" "\<not> ACTIVE_PORT_TABLE i 0"
    using fpt_init_run [of "0x7FFE" ?r] by (simp_all add: i_def prt_reset_def)
  have e: "\<not> fpt_eval i" "\<not> fpt_searching i"
    using fpt_run_init [of "0x7FFE"] by (simp_all add: i_def)
  have "fpt_run ((pFreePortTable ^^ Suc 0x7FFE) ?r) {}"
    by (rule fpt_run_init [THEN conjunct1]) simp
  then have "fpt_run (pFreePortTable i) {}" unfolding funpow.simps comp_apply i_def .
  then have "fpt_run t {}" by (rule environment) (simp add: t_def fpt_statics_def)
  then obtain s where s: "fpt_run s {}" "\<not> fpt_blocked s" "items (prt_soTAi_GetFreePortRep s) = []"
    "items (prt_soTAi_GetFreePortRep (pFreePortTable s)) = [0x8000]"
    using fpt_run_first_port [of t] fpt_init_last [OF i(1,2)] i(3) e by (auto simp: t_def)
  from fpt_grants_free_port [OF s(1,2), of "0x8000"] s show ?thesis by auto
qed

text \<open>C30. The search ends, and finds the first free port: if some ephemeral port is free and the reply FIFO
  has room, the port that is granted is the first free one from the current position, after
  exactly two runs per inspected entry, that is \<open>2 k + 2\<close> for the entry at distance \<open>k\<close>, at most
  \<open>0x10000\<close>; before that nothing is granted.\<close>

theorem fpt_search_terminates:
  assumes "fpt_isFPtInit s" "fpt_searching s" "\<not> sfull (prt_soTAi_GetFreePortRep s)"
    and "\<not> ACTIVE_PORT_TABLE s q"
  shows "\<exists>k. \<not> ACTIVE_PORT_TABLE s (fpt_dynPortNum s + of_nat k) \<and>
     (\<forall>j < k. ACTIVE_PORT_TABLE s (fpt_dynPortNum s + of_nat j)) \<and> 2 * k + 2 \<le> 0x10000 \<and>
     items (prt_soTAi_GetFreePortRep ((pFreePortTable ^^ (2 * k + 2)) s)) =
       items (prt_soTAi_GetFreePortRep s) @ [0x8000 + ucast (fpt_dynPortNum s + of_nat k)]"
proof -
  let ?free = "\<lambda>k. \<not> ACTIVE_PORT_TABLE s (fpt_dynPortNum s + of_nat k)"
  define k where "k = (LEAST k. ?free k)"
  have free: "?free (unat (q - fpt_dynPortNum s))" using assms(4) by simp
  have k: "?free k" "k \<le> unat (q - fpt_dynPortNum s)"
    unfolding k_def using LeastI [of ?free, OF free] Least_le [of ?free, OF free] by simp_all
  have below: "\<forall>j < k. \<not> ?free j"
    unfolding k_def using not_less_Least [of _ ?free] by blast
  have "2 * k + 2 \<le> 0x10000"
    using k(2) unat_dyn [of "q - fpt_dynPortNum s"] by arith
  with fpt_search_finds [OF assms(1-3) k(1)] below k(1) show ?thesis by blast
qed

theorem fpt_search_terminates_witness:
  "let s = prt_idle\<lparr>fpt_searching := True, ACTIVE_PORT_TABLE := (\<lambda>p. p < 3)\<rparr>
   in \<exists>k. \<not> ACTIVE_PORT_TABLE s (of_nat k) \<and>
        items (prt_soTAi_GetFreePortRep ((pFreePortTable ^^ (2 * k + 2)) s)) = [0x8000 + ucast (of_nat k :: 15 word)]"
proof -
  let ?s = "prt_idle\<lparr>fpt_searching := True, ACTIVE_PORT_TABLE := (\<lambda>p. p < 3)\<rparr>"
  have s: "fpt_isFPtInit ?s" "fpt_searching ?s" "\<not> sfull (prt_soTAi_GetFreePortRep ?s)"
    "\<not> ACTIVE_PORT_TABLE ?s 7" and rep: "items (prt_soTAi_GetFreePortRep ?s) = []"
      "fpt_dynPortNum ?s = 0"
    by (simp_all add: prt_idle_def prt_reset_def stream_simps)
  from fpt_search_terminates [OF s] show ?thesis
    unfolding rep Let_def by auto
qed

text \<open>A full reply FIFO breaks the search: when a free entry has been found while the reply
  FIFO is full, the position advances but the old verdict is kept, so once the FIFO has room the
  next entry is granted without having been read, even when it is in use by a connection.\<close>

theorem fpt_full_fifo_grants_used_port:
  assumes "fpt_isFPtInit s" "fpt_blocked s" "ACTIVE_PORT_TABLE s (fpt_dynPortNum s + 1)"
    and "0 < depth (prt_soTAi_GetFreePortRep s)"
  defines "t \<equiv> (pFreePortTable s)\<lparr>prt_soTAi_GetFreePortRep :=
                 Stream (depth (prt_soTAi_GetFreePortRep s)) []\<rparr>"
  shows "\<exists>p. items (prt_soTAi_GetFreePortRep (pFreePortTable t)) = [p] \<and>
     ACTIVE_PORT_TABLE t (ucast p) \<and> ACTIVE_PORT_TABLE s (ucast p)"
proof
  have "pFreePortTable s = s\<lparr>fpt_dynPortNum := fpt_dynPortNum s + 1, sFptToAnd2_Ready := True\<rparr>"
    using assms by (simp add: pFreePortTable_def fpt_blocked_def)
  then show "items (prt_soTAi_GetFreePortRep (pFreePortTable t)) =
      [0x8000 + ucast (fpt_dynPortNum s + 1)] \<and>
     ACTIVE_PORT_TABLE t (ucast (0x8000 + ucast (fpt_dynPortNum s + 1) :: TcpPort)) \<and>
     ACTIVE_PORT_TABLE s (ucast (0x8000 + ucast (fpt_dynPortNum s + 1) :: TcpPort))"
    using assms by (simp add: fpt_blocked_def pFreePortTable_def Let_def stream_simps)
qed

theorem fpt_full_fifo_grants_used_port_witness:
  "let s = prt_idle\<lparr>fpt_eval := True, fpt_portState := False, fpt_dynPortNum := 5,
             ACTIVE_PORT_TABLE := (\<lambda>p. p = 6),
             prt_soTAi_GetFreePortRep := Stream 2 [0x8001, 0x8002]\<rparr>;
       t = (pFreePortTable s)\<lparr>prt_soTAi_GetFreePortRep := Stream 2 []\<rparr>
   in fpt_inv s \<and> (\<exists>p. items (prt_soTAi_GetFreePortRep (pFreePortTable t)) = [p] \<and>
        ACTIVE_PORT_TABLE s (ucast p))"
proof -
  let ?s = "prt_idle\<lparr>fpt_eval := True, fpt_portState := False, fpt_dynPortNum := 5,
             ACTIVE_PORT_TABLE := (\<lambda>p. p = 6),
             prt_soTAi_GetFreePortRep := Stream 2 [0x8001, 0x8002]\<rparr>"
  have s: "fpt_isFPtInit ?s" "fpt_blocked ?s" "ACTIVE_PORT_TABLE ?s (fpt_dynPortNum ?s + 1)"
    "0 < depth (prt_soTAi_GetFreePortRep ?s)" and inv: "fpt_inv ?s"
    by (simp_all add: prt_idle_def prt_reset_def fpt_blocked_def fpt_inv_def stream_simps)
  from fpt_full_fifo_grants_used_port [OF s] inv show ?thesis
    by (simp add: Let_def) blast
qed

text \<open>Port queries are answered from the right table: when the entity is initialised and idle,
  a query of the Rx engine is answered two cycles later with the listening state of a static port
  or the allocation state of an ephemeral port, and no other entity output changes.\<close>

theorem port_table_answers_query:
  assumes "lpt_isLPtInit s" "fpt_isFPtInit s" "\<not> fpt_searching s" "\<not> fpt_eval s"
    and "orm_fsmState s = ORM_WAIT_FOR_QUERY_FROM_Irr"
    and "items (ssIrrToLpt_GetLsnPortStateCmd s) = []" "items (ssIrrToFpt_GetActPortStateCmd s) = []"
    and "items (ssIrrToOrm_QueryRange s) = []" "items (ssLptToOrm_GetLsnPortStateRsp s) = []"
    and "items (ssFptToOrm_GetActPortStateRsp s) = []"
    and "items (prt_siRAi_OpenLsnPortReq s) = []" "items (prt_siTAi_GetFreePortReq s) = []"
    and "items (prt_siSLc_CloseActPortCmd s) = []"
    and "items (prt_siRXe_GetPortStateReq s) = [p]" "\<not> sfull (prt_soRXe_GetPortStateRep s)"
  shows "prt_soRXe_GetPortStateRep (port_table (port_table s)) =
      swrite (prt_soRXe_GetPortStateRep s)
        (if p < 0x8000 then LISTEN_PORT_TABLE s (ucast p) else ACTIVE_PORT_TABLE s (ucast p)) \<and>
     poTOE_Ready (port_table (port_table s)) \<and>
     prt_soTAi_GetFreePortRep (port_table (port_table s)) = prt_soTAi_GetFreePortRep s \<and>
     prt_soRAi_OpenLsnPortAck (port_table (port_table s)) = prt_soRAi_OpenLsnPortAck s"
proof -
  have one: "port_table s = (if p < 0x8000
     then s\<lparr>prt_siRXe_GetPortStateReq := Stream (depth (prt_siRXe_GetPortStateReq s)) [],
            ssIrrToLpt_GetLsnPortStateCmd := Stream (depth (ssIrrToLpt_GetLsnPortStateCmd s)) [ucast p],
            ssIrrToOrm_QueryRange := Stream (depth (ssIrrToOrm_QueryRange s)) [],
            orm_fsmState := ORM_FORWARD_LSN_PORT_STATE_RSP,
            sLptToAnd2_Ready := True, sFptToAnd2_Ready := True, poTOE_Ready := True\<rparr>
     else s\<lparr>prt_siRXe_GetPortStateReq := Stream (depth (prt_siRXe_GetPortStateReq s)) [],
            ssIrrToFpt_GetActPortStateCmd := Stream (depth (ssIrrToFpt_GetActPortStateCmd s)) [ucast p],
            ssIrrToOrm_QueryRange := Stream (depth (ssIrrToOrm_QueryRange s)) [],
            orm_fsmState := ORM_FORWARD_ACT_PORT_STATE_RSP,
            sLptToAnd2_Ready := True, sFptToAnd2_Ready := True, poTOE_Ready := True\<rparr>)"
    using assms by (cases "p < 0x8000") (simp_all add: prt_query_simps swrite_def)
  show ?thesis
    unfolding one using assms by (cases "p < 0x8000") (simp_all add: prt_query_simps)
qed

theorem port_table_answers_query_witness:
  "let s = prt_idle\<lparr>prt_siRXe_GetPortStateReq := Stream 2 [80], LISTEN_PORT_TABLE := (\<lambda>p. p = 80)\<rparr>
   in items (prt_soRXe_GetPortStateRep (port_table (port_table s))) = [True]"
proof -
  let ?s = "prt_idle\<lparr>prt_siRXe_GetPortStateReq := Stream 2 [80], LISTEN_PORT_TABLE := (\<lambda>p. p = 80)\<rparr>"
  have "prt_soRXe_GetPortStateRep (port_table (port_table ?s)) =
      swrite (prt_soRXe_GetPortStateRep ?s)
        (if (80::TcpPort) < 0x8000 then LISTEN_PORT_TABLE ?s (ucast (80::TcpPort))
         else ACTIVE_PORT_TABLE ?s (ucast (80::TcpPort)))"
    by (rule port_table_answers_query [THEN conjunct1])
      (simp_all add: prt_idle_def prt_reset_def stream_simps)
  then show ?thesis by (simp add: prt_idle_def prt_reset_def stream_simps Let_def)
qed

text \<open>No reply is lost or mixed up: in whatever order the processes run and requests arrive,
  the queries that the multiplexer still has to answer match, per range, the queries and replies
  that are still on their way, so a reply is waiting or will come for every pending query.\<close>

theorem prt_replies_match_queries:
  assumes "prt_reaches (prt_reset lsn act) s"
  shows "count_list (orm_ranges s) True =
       length (items (ssIrrToLpt_GetLsnPortStateCmd s)) + length (items (ssLptToOrm_GetLsnPortStateRsp s)) \<and>
     count_list (orm_ranges s) False =
       length (items (ssIrrToFpt_GetActPortStateCmd s)) + length (items (ssFptToOrm_GetActPortStateRsp s))"
proof -
  have "prt_flow (prt_reset lsn act)" by (simp add: prt_flow_defs prt_reset_def)
  with prt_reaches_flow [OF assms] show ?thesis by (simp add: prt_flow_def)
qed

theorem prt_replies_match_queries_witness:
  "\<exists>s. prt_reaches (prt_reset (\<lambda>_. False) (\<lambda>_. False)) s \<and> orm_ranges s = [True] \<and>
     items (ssIrrToLpt_GetLsnPortStateCmd s) = [80] \<and>
     length (items (ssLptToOrm_GetLsnPortStateRsp s)) = 0"
proof -
  let ?s0 = "prt_reset (\<lambda>_. False) (\<lambda>_. False)"
  let ?s1 = "?s0\<lparr>prt_siRXe_GetPortStateReq := swrite (prt_siRXe_GetPortStateReq ?s0) 80\<rparr>"
  let ?s2 = "pInputRequestRouter ?s1"
  have r: "prt_reaches ?s0 ?s2"
    by (rule prt_reaches.step [OF prt_reaches.step [OF prt_reaches.refl prt_step.query]
        prt_step.irr])
  have s2: "orm_ranges ?s2 = [True]" "items (ssIrrToLpt_GetLsnPortStateCmd ?s2) = [80]"
    by (simp_all add: prt_flow_defs pInputRequestRouter_def Let_def prt_reset_def stream_simps)
  have "length (items (ssLptToOrm_GetLsnPortStateRsp ?s2)) = 0"
    using prt_replies_match_queries [OF r, THEN conjunct1] unfolding s2 by simp
  with r s2 show ?thesis by blast
qed

end
