(* ===== verification/Event_Engine.thy ===== *)
theory Event_Engine
  imports Toe_Types
begin

text \<open>
  The Event Engine (EVe), \<open>NTS/toe/src/event_engine/event_engine.cpp\<close>: it forwards the events of
  the Rx engine, of the timers and of the Tx application interface to the ACK delayer.  Events
  of the last two are accepted only while two pairs of counters agree: the events sent to and
  read by the ACK delayer, and the events sent to and read by the Tx engine.  The counters learn
  about the other processes from three streams of signals.
\<close>

section \<open>State and step\<close>

text \<open>The streams carry the names of \<open>toe.cpp\<close>, which connects the processes.\<close>

record EVe =
  ssTAiToEVe_Event :: "Event stream"
  ssRXeToEVe_Event :: "ExtendedEvent stream"
  ssTImToEVe_Event :: "Event stream"
  ssEVeToAKd_Event :: "ExtendedEvent stream"
  ssAKdToEVe_RxEventSig :: "bool stream"
  ssAKdToEVe_TxEventSig :: "bool stream"
  ssTXeToEVe_RxEventSig :: "bool stream"
  eve_eve2akd_WrCnt :: "8 word"
  eve_eve2akd_RdCnt :: "8 word"
  eve_akd2txe_WrCnt :: "8 word"
  eve_akd2txe_RdCnt :: "8 word"

definition eve_reset :: EVe where
  "eve_reset = \<lparr>
     ssTAiToEVe_Event = Stream 8 [], ssRXeToEVe_Event = Stream 64 [],
     ssTImToEVe_Event = Stream 4 [], ssEVeToAKd_Event = Stream 8 [],
     ssAKdToEVe_RxEventSig = Stream 8 [], ssAKdToEVe_TxEventSig = Stream 8 [],
     ssTXeToEVe_RxEventSig = Stream 8 [],
     eve_eve2akd_WrCnt = 0, eve_eve2akd_RdCnt = 0, eve_akd2txe_WrCnt = 0, eve_akd2txe_RdCnt = 0\<rparr>"

text \<open>The arbitration of the three event sources.\<close>

definition eve_arbiter :: "'a EVe_scheme \<Rightarrow> 'a EVe_scheme" where
  "eve_arbiter s =
     (if \<not> sempty (ssRXeToEVe_Event s) \<and> \<not> sfull (ssEVeToAKd_Event s) then
        (case sread (ssRXeToEVe_Event s) of
           None \<Rightarrow> s
         | Some (ev, si) \<Rightarrow>
             s\<lparr>ssRXeToEVe_Event := si,
               ssEVeToAKd_Event := swrite (ssEVeToAKd_Event s) ev,
               eve_eve2akd_WrCnt := eve_eve2akd_WrCnt s + 1\<rparr>)
      else if eve_eve2akd_WrCnt s = eve_eve2akd_RdCnt s \<and>
              eve_akd2txe_WrCnt s = eve_akd2txe_RdCnt s then
        (case sread (ssTImToEVe_Event s) of
           Some (ev, si) \<Rightarrow>
             s\<lparr>ssTImToEVe_Event := si,
               ssEVeToAKd_Event := swrite (ssEVeToAKd_Event s) (ExtendedEvent_of ev),
               eve_eve2akd_WrCnt := eve_eve2akd_WrCnt s + 1\<rparr>
         | None \<Rightarrow>
             (case sread (ssTAiToEVe_Event s) of
                None \<Rightarrow> s
              | Some (ev, si) \<Rightarrow>
                  s\<lparr>ssTAiToEVe_Event := si,
                    ssEVeToAKd_Event := swrite (ssEVeToAKd_Event s) (ExtendedEvent_of ev),
                    eve_eve2akd_WrCnt := eve_eve2akd_WrCnt s + 1\<rparr>))
      else s)"

text \<open>The signals of the ACK delayer and of the Tx engine.\<close>

definition eve_akd_rx_sig :: "'a EVe_scheme \<Rightarrow> 'a EVe_scheme" where
  "eve_akd_rx_sig s =
     (case sread (ssAKdToEVe_RxEventSig s) of
        None \<Rightarrow> s
      | Some (_, si) \<Rightarrow>
          s\<lparr>ssAKdToEVe_RxEventSig := si, eve_eve2akd_RdCnt := eve_eve2akd_RdCnt s + 1\<rparr>)"

definition eve_akd_tx_sig :: "'a EVe_scheme \<Rightarrow> 'a EVe_scheme" where
  "eve_akd_tx_sig s =
     (case sread (ssAKdToEVe_TxEventSig s) of
        None \<Rightarrow> s
      | Some (_, si) \<Rightarrow>
          s\<lparr>ssAKdToEVe_TxEventSig := si, eve_akd2txe_WrCnt := eve_akd2txe_WrCnt s + 1\<rparr>)"

definition eve_txe_rx_sig :: "'a EVe_scheme \<Rightarrow> 'a EVe_scheme" where
  "eve_txe_rx_sig s =
     (case sread (ssTXeToEVe_RxEventSig s) of
        None \<Rightarrow> s
      | Some (_, si) \<Rightarrow>
          s\<lparr>ssTXeToEVe_RxEventSig := si, eve_akd2txe_RdCnt := eve_akd2txe_RdCnt s + 1\<rparr>)"

definition event_engine :: "'a EVe_scheme \<Rightarrow> 'a EVe_scheme" where
  "event_engine s = eve_txe_rx_sig (eve_akd_tx_sig (eve_akd_rx_sig (eve_arbiter s)))"

lemmas eve_defs = eve_arbiter_def eve_akd_rx_sig_def eve_akd_tx_sig_def eve_txe_rx_sig_def

section \<open>The source that is served\<close>

text \<open>\<open>eve_idle s\<close>: both pairs of counters agree, the guard of the low-priority sources.\<close>

definition eve_idle :: "'a EVe_scheme \<Rightarrow> bool" where
  "eve_idle s \<longleftrightarrow> eve_eve2akd_WrCnt s = eve_eve2akd_RdCnt s \<and>
     eve_akd2txe_WrCnt s = eve_akd2txe_RdCnt s"

datatype eve_source = RXeSource | TImSource | TAiSource | NoSource

definition eve_select :: "'a EVe_scheme \<Rightarrow> eve_source" where
  "eve_select s =
     (if items (ssRXeToEVe_Event s) \<noteq> [] \<and> \<not> sfull (ssEVeToAKd_Event s) then RXeSource
      else if eve_idle s \<and> items (ssTImToEVe_Event s) \<noteq> [] then TImSource
      else if eve_idle s \<and> items (ssTAiToEVe_Event s) \<noteq> [] then TAiSource
      else NoSource)"

text \<open>The events that wait at the three sources, as the ACK delayer will see them.\<close>

definition eve_waiting :: "'a EVe_scheme \<Rightarrow> eve_source \<Rightarrow> ExtendedEvent list" where
  "eve_waiting s src =
     (case src of
        RXeSource \<Rightarrow> items (ssRXeToEVe_Event s)
      | TImSource \<Rightarrow> map ExtendedEvent_of (items (ssTImToEVe_Event s))
      | TAiSource \<Rightarrow> map ExtendedEvent_of (items (ssTAiToEVe_Event s))
      | NoSource \<Rightarrow> [])"

lemma event_engine_queues:
  "ssRXeToEVe_Event (event_engine s) = ssRXeToEVe_Event (eve_arbiter s)"
  "ssTImToEVe_Event (event_engine s) = ssTImToEVe_Event (eve_arbiter s)"
  "ssTAiToEVe_Event (event_engine s) = ssTAiToEVe_Event (eve_arbiter s)"
  "ssEVeToAKd_Event (event_engine s) = ssEVeToAKd_Event (eve_arbiter s)"
  by (simp_all add: event_engine_def eve_akd_rx_sig_def eve_akd_tx_sig_def eve_txe_rx_sig_def
      split: option.splits)

lemma eve_waiting_event_engine:
  "eve_waiting (event_engine s) src =
     (if eve_select s = src then tl (eve_waiting s src) else eve_waiting s src)"
  by (cases src)
    (auto simp: event_engine_queues eve_waiting_def eve_select_def eve_arbiter_def eve_idle_def
      sempty_def sread_def map_tl split: list.splits)

lemma event_engine_output:
  "items (ssEVeToAKd_Event (event_engine s)) =
     items (ssEVeToAKd_Event s) @ take 1 (eve_waiting s (eve_select s))"
  by (auto simp: event_engine_queues eve_waiting_def eve_select_def eve_arbiter_def eve_idle_def
      sempty_def sread_def split: list.splits)

section \<open>Properties\<close>

text \<open>Arbitration: one run of the event engine forwards the oldest event of the selected
  source to the ACK delayer and leaves the other two sources as they are; the Rx engine is
  selected whenever it has an event and there is room, the timers before the application
  interface, and these two only while nothing is accounted as in flight.\<close>

theorem event_engine_arbitration:
  "items (ssEVeToAKd_Event (event_engine s)) =
     items (ssEVeToAKd_Event s) @ take 1 (eve_waiting s (eve_select s)) \<and>
   (\<forall>src. eve_waiting (event_engine s) src =
      (if eve_select s = src then tl (eve_waiting s src) else eve_waiting s src)) \<and>
   (eve_select s = RXeSource \<longleftrightarrow>
      items (ssRXeToEVe_Event s) \<noteq> [] \<and> length (items (ssEVeToAKd_Event s)) < depth (ssEVeToAKd_Event s)) \<and>
   (eve_select s = TAiSource \<longrightarrow> items (ssTImToEVe_Event s) = []) \<and>
   (eve_select s \<in> {TImSource, TAiSource} \<longrightarrow> eve_idle s)"
  by (auto simp: event_engine_output eve_waiting_event_engine eve_select_def sfull_def)

theorem event_engine_arbitration_witness:
  "items (ssEVeToAKd_Event (event_engine (eve_reset\<lparr>
       ssTImToEVe_Event := Stream 4 [Event_rt RT_EVENT 3 1],
       ssTAiToEVe_Event := Stream 8 [Event_sess TX_EVENT 1]\<rparr>))) =
     [ExtendedEvent_of (Event_rt RT_EVENT 3 1)]"
  using event_engine_arbitration [of "eve_reset\<lparr>
       ssTImToEVe_Event := Stream 4 [Event_rt RT_EVENT 3 1],
       ssTAiToEVe_Event := Stream 8 [Event_sess TX_EVENT 1]\<rparr>"]
  by (simp add: eve_select_def eve_waiting_def eve_idle_def eve_reset_def)

end
