(* ===== verification/Ack_Delay.thy ===== *)
theory Ack_Delay
  imports Event_Engine
begin

text \<open>
  The ACK Delayer (AKd), \<open>NTS/toe/src/ack_delay/src/ack_delay.cpp\<close>: it merges the acknowledgement
  events of a session.  The first one starts a delay of 64 microseconds, which each further one
  shortens; an entry of the table is visited every \<open>TOE_MAX_SESSIONS\<close> cycles, and the one that
  reaches the end of its delay sends a single acknowledgement event to the Tx engine.  Any other
  event carries the acknowledgement number anyhow, so it clears the entry and is forwarded.
  The theory also composes the ACK delayer with the event engine.
\<close>

section \<open>State and step\<close>

record AckEntry =
  ae_delay :: "12 word"
  ae_count :: "4 word"

record AKd = EVe +
  ssAKdToTXe_Event :: "ExtendedEvent stream"
  ACK_TABLE :: "SessionId \<Rightarrow> AckEntry"
  akd_Ptr :: SessionId

text \<open>The delays of \<open>toe.hpp\<close>, in visits of an entry, for a clock of 156.25 MHz.\<close>

definition ACKD_1us :: "12 word" where "ACKD_1us = 20"
definition ACKD_2us :: "12 word" where "ACKD_2us = 40"
definition ACKD_4us :: "12 word" where "ACKD_4us = 79"
definition ACKD_8us :: "12 word" where "ACKD_8us = 157"
definition ACKD_16us :: "12 word" where "ACKD_16us = 313"
definition ACKD_32us :: "12 word" where "ACKD_32us = 626"
definition ACKD_64us :: "12 word" where "ACKD_64us = 1251"

lemmas ackd_defs = ACKD_1us_def ACKD_2us_def ACKD_4us_def ACKD_8us_def ACKD_16us_def
  ACKD_32us_def ACKD_64us_def

text \<open>Reset, with the depths of the FIFOs of \<open>toe.cpp\<close>.\<close>

definition akd_reset :: AKd where
  "akd_reset = \<lparr>
     ssTAiToEVe_Event = Stream 8 [], ssRXeToEVe_Event = Stream 64 [],
     ssTImToEVe_Event = Stream 4 [], ssEVeToAKd_Event = Stream 8 [],
     ssAKdToEVe_RxEventSig = Stream 8 [], ssAKdToEVe_TxEventSig = Stream 8 [],
     ssTXeToEVe_RxEventSig = Stream 8 [],
     eve_eve2akd_WrCnt = 0, eve_eve2akd_RdCnt = 0, eve_akd2txe_WrCnt = 0, eve_akd2txe_RdCnt = 0,
     ssAKdToTXe_Event = Stream 16 [],
     ACK_TABLE = (\<lambda>_. \<lparr>ae_delay = 0, ae_count = 0\<rparr>), akd_Ptr = 0\<rparr>"

text \<open>The entry after an acknowledgement event.\<close>

definition akd_shorten :: "12 word \<Rightarrow> AckEntry \<Rightarrow> AckEntry" where
  "akd_shorten d e =
     (let e = (if d < ae_delay e then e\<lparr>ae_delay := d\<rparr> else e)
      in e\<lparr>ae_count := ae_count e + 1\<rparr>)"

definition akd_ack :: "AckEntry \<Rightarrow> AckEntry" where
  "akd_ack e =
     (if ae_delay e = 0 then \<lparr>ae_delay = ACKD_64us, ae_count = 1\<rparr>
      else if ae_count e = 1 then akd_shorten ACKD_32us e
      else if ae_count e = 2 then akd_shorten ACKD_16us e
      else if ae_count e = 3 then akd_shorten ACKD_8us e
      else if ae_count e = 4 then akd_shorten ACKD_4us e
      else if ae_count e = 5 then akd_shorten ACKD_2us e
      else if ae_count e = 6 then akd_shorten ACKD_1us e
      else if ae_count e = 7 then e\<lparr>ae_delay := 1, ae_count := 8\<rparr>
      else e)"

text \<open>An event of the event engine, and the visit of the entry at the pointer.\<close>

definition akd_event :: "ExtendedEvent \<Rightarrow> 'a AKd_scheme \<Rightarrow> 'a AKd_scheme option" where
  "akd_event ev s =
     (let i = ev_sessionID (ex_event ev) in
      in_bounds i
        (if ev_type (ex_event ev) = ACK_EVENT then
           Some (s\<lparr>ACK_TABLE := (ACK_TABLE s)(i := akd_ack (ACK_TABLE s i))\<rparr>)
         else
           Some (s\<lparr>ACK_TABLE := (ACK_TABLE s)(i := \<lparr>ae_delay = 0, ae_count = 0\<rparr>),
                   ssAKdToTXe_Event := swrite (ssAKdToTXe_Event s) ev,
                   ssAKdToEVe_TxEventSig := swrite (ssAKdToEVe_TxEventSig s) True\<rparr>)))"

definition akd_visit :: "'a AKd_scheme \<Rightarrow> 'a AKd_scheme option" where
  "akd_visit s =
     (let i = akd_Ptr s; e = ACK_TABLE s i in
      in_bounds i
        (let s =
           (if 0 < ae_delay e \<and> \<not> sfull (ssAKdToTXe_Event s) then
              (let s = (if ae_delay e = 1
                        then s\<lparr>ssAKdToTXe_Event := swrite (ssAKdToTXe_Event s)
                                 (ExtendedEvent_of (Event_sess ACK_EVENT i)),
                               ssAKdToEVe_TxEventSig := swrite (ssAKdToEVe_TxEventSig s) True\<rparr>
                        else s)
               in s\<lparr>ACK_TABLE := (ACK_TABLE s)(i := e\<lparr>ae_delay := ae_delay e - 1\<rparr>)\<rparr>)
            else s)
         in Some (s\<lparr>akd_Ptr := (if i + 1 = of_nat TOE_MAX_SESSIONS then 0 else i + 1)\<rparr>)))"

definition ack_delay :: "'a AKd_scheme \<Rightarrow> 'a AKd_scheme option" where
  "ack_delay s =
     (if \<not> sempty (ssEVeToAKd_Event s) then
        (case sread (ssEVeToAKd_Event s) of
           None \<Rightarrow> Some s
         | Some (ev, si) \<Rightarrow>
             akd_event ev (s\<lparr>ssEVeToAKd_Event := si,
               ssAKdToEVe_RxEventSig := swrite (ssAKdToEVe_RxEventSig s) True\<rparr>))
      else akd_visit s)"

section \<open>The entries stay well formed\<close>

definition ae_wf :: "AckEntry \<Rightarrow> bool" where
  "ae_wf e \<longleftrightarrow> ae_delay e \<le> ACKD_64us \<and> ae_count e \<le> 8 \<and> (0 < ae_delay e \<longrightarrow> 1 \<le> ae_count e)"

definition akd_wf :: "'a AKd_scheme \<Rightarrow> bool" where
  "akd_wf s \<longleftrightarrow> (\<forall>i. ae_wf (ACK_TABLE s i)) \<and> sess_ok (akd_Ptr s)"

lemma count_le: "(c::4 word) \<le> 8 \<Longrightarrow> c \<noteq> 0 \<Longrightarrow>
    c = 1 \<or> c = 2 \<or> c = 3 \<or> c = 4 \<or> c = 5 \<or> c = 6 \<or> c = 7 \<or> c = 8"
proof -
  assume "c \<le> 8" "c \<noteq> 0"
  then have "unat c \<le> 8" "unat c \<noteq> 0" by (simp_all add: word_le_nat_alt unat_eq_0)
  then have "unat c \<in> {1, 2, 3, 4, 5, 6, 7, 8}" by auto
  then show ?thesis by (auto simp: word_unat_eq_iff)
qed

lemma ae_wf_shorten:
  assumes "ae_wf e" "0 < ae_delay e" "ae_count e \<in> {1, 2, 3, 4, 5, 6}" "d \<le> ACKD_64us"
  shows "ae_wf (akd_shorten d e)"
  using assms by (auto simp: ae_wf_def akd_shorten_def Let_def)

lemma ae_wf_ack: "ae_wf e \<Longrightarrow> ae_wf (akd_ack e)"
  using ae_wf_shorten [of e]
  by (auto simp: akd_ack_def ackd_defs word_gt_0) (simp_all add: ae_wf_def ackd_defs)

lemma delay_visit: "0 < d \<Longrightarrow> d \<le> ACKD_64us \<Longrightarrow> d - 1 \<le> ACKD_64us"
  for d :: "12 word"
  by (simp add: word_le_nat_alt unat_minus_one word_gt_0)

lemma ae_wf_zero [simp]: "ae_wf \<lparr>ae_delay = 0, ae_count = 0\<rparr>"
  by (simp add: ae_wf_def)

lemma ae_wf_expired: "ae_wf e \<Longrightarrow> ae_wf (e\<lparr>ae_delay := 0\<rparr>)"
  by (simp add: ae_wf_def)

lemma akd_event_wf:
  assumes "akd_wf s" "akd_event ev s = Some s'"
  shows "akd_wf s'"
  using assms
  by (auto simp: akd_wf_def akd_event_def Let_def ae_wf_ack split: if_splits)

lemma ae_wf_visit: "ae_wf e \<Longrightarrow> 0 < ae_delay e \<Longrightarrow> ae_wf (e\<lparr>ae_delay := ae_delay e - 1\<rparr>)"
  by (simp add: ae_wf_def delay_visit)

lemma sess_ok_next:
  "sess_ok (i::SessionId) \<Longrightarrow> sess_ok (if i + 1 = of_nat TOE_MAX_SESSIONS then 0 else i + 1)"
  using unat_next_session [of i] by (auto simp: sess_ok_def TOE_MAX_SESSIONS_def split: if_splits)

lemma akd_visit_wf:
  assumes "akd_wf s" "akd_visit s = Some s'"
  shows "akd_wf s'"
  using assms sess_ok_next [of "akd_Ptr s"]
  by (auto simp: akd_wf_def akd_visit_def Let_def ae_wf_visit ae_wf_expired split: if_splits)

lemma ack_delay_wf: "akd_wf s \<Longrightarrow> ack_delay s = Some s' \<Longrightarrow> akd_wf s'"
  by (auto simp: ack_delay_def akd_wf_def split: option.splits if_splits
      dest!: akd_event_wf [rotated] akd_visit_wf [rotated])

lemma ack_delay_defined:
  assumes "akd_wf s" "\<forall>ev \<in> set (items (ssEVeToAKd_Event s)). sess_ok (ev_sessionID (ex_event ev))"
  shows "\<exists>s'. ack_delay s = Some s'"
  using assms
  by (auto simp: ack_delay_def akd_event_def akd_visit_def akd_wf_def sread_def Let_def
      sempty_def split: list.splits)

section \<open>What happens to the events\<close>

definition is_ack :: "ExtendedEvent \<Rightarrow> bool" where
  "is_ack ev \<longleftrightarrow> ev_type (ex_event ev) = ACK_EVENT"

definition others :: "ExtendedEvent list \<Rightarrow> ExtendedEvent list" where
  "others evs = filter (\<lambda>ev. \<not> is_ack ev) evs"

definition acks_of :: "SessionId \<Rightarrow> ExtendedEvent list \<Rightarrow> nat" where
  "acks_of i evs = length (filter (\<lambda>ev. is_ack ev \<and> ev_sessionID (ex_event ev) = i) evs)"

text \<open>The acknowledgements of a session that are due: queued for the delayer, delayed, sent.\<close>

definition akd_due :: "SessionId \<Rightarrow> 'a AKd_scheme \<Rightarrow> nat" where
  "akd_due i s = acks_of i (items (ssEVeToAKd_Event s)) +
     (if 0 < ae_delay (ACK_TABLE s i) then 1 else 0) + acks_of i (items (ssAKdToTXe_Event s))"

definition akd_others :: "'a AKd_scheme \<Rightarrow> ExtendedEvent list" where
  "akd_others s = others (items (ssAKdToTXe_Event s)) @ others (items (ssEVeToAKd_Event s))"

lemma others_simps [simp]:
  "others [] = []" "others (ev # evs) = (if is_ack ev then others evs else ev # others evs)"
  "others (evs @ evs') = others evs @ others evs'"
  by (simp_all add: others_def)

lemma acks_of_simps [simp]:
  "acks_of i [] = 0"
  "acks_of i (ev # evs) =
     (if is_ack ev \<and> ev_sessionID (ex_event ev) = i then Suc (acks_of i evs) else acks_of i evs)"
  "acks_of i (evs @ evs') = acks_of i evs + acks_of i evs'"
  by (simp_all add: acks_of_def)

lemma is_ack_delayed [simp]:
  "is_ack (ExtendedEvent_of (Event_sess ACK_EVENT i))"
  "ev_sessionID (ex_event (ExtendedEvent_of (Event_sess ACK_EVENT i))) = i"
  by (simp_all add: is_ack_def ExtendedEvent_of_def Event_sess_def)

lemma akd_event_due:
  assumes "items (ssEVeToAKd_Event s) = ev # items si"
    and "akd_event ev (s\<lparr>ssEVeToAKd_Event := si, ssAKdToEVe_RxEventSig := sg\<rparr>) = Some s'"
  shows "akd_due i s' \<le> akd_due i s \<and> akd_others s' = akd_others s"
  using assms
  by (auto simp: akd_event_def akd_due_def akd_others_def is_ack_def Let_def split: if_splits)

lemma akd_visit_due:
  assumes "akd_visit s = Some s'"
  shows "akd_due i s' \<le> akd_due i s \<and> akd_others s' = akd_others s"
  using assms
  by (auto simp: akd_visit_def akd_due_def akd_others_def Let_def split: if_splits)

lemma ack_delay_due:
  assumes "ack_delay s = Some s'"
  shows "akd_due i s' \<le> akd_due i s \<and> akd_others s' = akd_others s"
proof (cases "sread (ssEVeToAKd_Event s)")
  case None
  then show ?thesis
    using assms akd_visit_due [of s s'] by (simp add: ack_delay_def sempty_iff_sread)
next
  case (Some p)
  obtain ev si where p: "sread (ssEVeToAKd_Event s) = Some (ev, si)"
    using Some by (cases p) simp
  then have "items (ssEVeToAKd_Event s) = ev # items si"
    by (simp add: sread_Some_iff)
  with p show ?thesis
    using assms akd_event_due [of s ev si] by (simp add: ack_delay_def sempty_iff_sread)
qed

section \<open>The scan of the table\<close>

text \<open>The table is scanned while no event arrives; the Tx engine's FIFO has room for the
  acknowledgements that are pending.\<close>

definition akd_pending :: "'a AKd_scheme \<Rightarrow> nat set" where
  "akd_pending s = {i. i < TOE_MAX_SESSIONS \<and> 0 < ae_delay (ACK_TABLE s (of_nat i))}"

definition akd_quiet :: "'a AKd_scheme \<Rightarrow> bool" where
  "akd_quiet s \<longleftrightarrow> items (ssEVeToAKd_Event s) = [] \<and> akd_wf s \<and>
     length (items (ssAKdToTXe_Event s)) + card (akd_pending s) \<le> depth (ssAKdToTXe_Event s)"

definition ae_visit :: "AckEntry \<Rightarrow> AckEntry" where
  "ae_visit e = (if 0 < ae_delay e then e\<lparr>ae_delay := ae_delay e - 1\<rparr> else e)"

lemma finite_akd_pending [simp]: "finite (akd_pending s)"
  by (simp add: akd_pending_def)

lemma akd_pending_Ptr:
  "akd_wf s \<Longrightarrow> 0 < ae_delay (ACK_TABLE s (akd_Ptr s)) \<Longrightarrow> unat (akd_Ptr s) \<in> akd_pending s"
  by (simp add: akd_pending_def akd_wf_def sess_ok_def)

lemma akd_quiet_room:
  assumes "akd_quiet s" "0 < ae_delay (ACK_TABLE s (akd_Ptr s))"
  shows "\<not> sfull (ssAKdToTXe_Event s)"
proof -
  have "0 < card (akd_pending s)"
    using akd_pending_Ptr [of s] assms by (auto simp: card_gt_0_iff akd_quiet_def)
  then show ?thesis using assms(1) by (simp add: akd_quiet_def sfull_def)
qed

lemma akd_quiet_step:
  assumes "akd_quiet s"
  shows "ack_delay s = Some (s\<lparr>
     ACK_TABLE := (ACK_TABLE s)(akd_Ptr s := ae_visit (ACK_TABLE s (akd_Ptr s))),
     ssAKdToTXe_Event := (if ae_delay (ACK_TABLE s (akd_Ptr s)) = 1
       then swrite (ssAKdToTXe_Event s) (ExtendedEvent_of (Event_sess ACK_EVENT (akd_Ptr s)))
       else ssAKdToTXe_Event s),
     ssAKdToEVe_TxEventSig := (if ae_delay (ACK_TABLE s (akd_Ptr s)) = 1
       then swrite (ssAKdToEVe_TxEventSig s) True else ssAKdToEVe_TxEventSig s),
     akd_Ptr := (if akd_Ptr s + 1 = of_nat TOE_MAX_SESSIONS then 0 else akd_Ptr s + 1)\<rparr>)"
proof -
  have ok: "sess_ok (akd_Ptr s)" "sempty (ssEVeToAKd_Event s)"
    using assms by (simp_all add: akd_quiet_def akd_wf_def sempty_def)
  show ?thesis
  proof (cases "0 < ae_delay (ACK_TABLE s (akd_Ptr s))")
    case True
    then show ?thesis
      using ok akd_quiet_room [OF assms True]
      by (simp add: ack_delay_def akd_visit_def ae_visit_def Let_def)
  next
    case False
    then show ?thesis
      using ok by (auto simp: ack_delay_def akd_visit_def ae_visit_def Let_def word_gt_0)
  qed
qed

lemma akd_quiet_tick:
  assumes "akd_quiet s" "ack_delay s = Some s'"
  shows "akd_quiet s'"
proof -
  let ?p = "akd_Ptr s"
  have wf: "akd_wf s'" using ack_delay_wf assms by (auto simp: akd_quiet_def)
  have sub: "akd_pending s' \<subseteq> akd_pending s"
    using assms(2) by (auto simp: akd_quiet_step [OF assms(1)] akd_pending_def ae_visit_def
        split: if_splits)
  have "length (items (ssAKdToTXe_Event s')) + card (akd_pending s') \<le>
        length (items (ssAKdToTXe_Event s)) + card (akd_pending s)"
  proof (cases "ae_delay (ACK_TABLE s ?p) = 1")
    case True
    then have "unat ?p \<in> akd_pending s"
      using akd_pending_Ptr [of s] assms(1) by (simp add: akd_quiet_def)
    moreover have "unat ?p \<notin> akd_pending s'"
      using True assms(2) by (auto simp: akd_quiet_step [OF assms(1)] akd_pending_def ae_visit_def)
    ultimately have "card (akd_pending s') < card (akd_pending s)"
      using sub by (metis finite_akd_pending psubsetI psubset_card_mono)
    then show ?thesis
      using True assms(2) by (auto simp: akd_quiet_step [OF assms(1)])
  next
    case False
    then show ?thesis
      using card_mono [OF finite_akd_pending sub] assms(2)
      by (auto simp: akd_quiet_step [OF assms(1)])
  qed
  then show ?thesis
    using wf assms by (auto simp: akd_quiet_def akd_quiet_step [OF assms(1)])
qed

interpretation akd: scan TOE_MAX_SESSIONS akd_quiet "\<lambda>s. unat (akd_Ptr s)"
    "\<lambda>s i. ACK_TABLE s (of_nat i)" ae_visit "\<lambda>e. ae_delay e = 1"
    "\<lambda>i e. ExtendedEvent_of (Event_sess ACK_EVENT (of_nat i))"
    "\<lambda>s. items (ssAKdToTXe_Event s)" ack_delay
proof unfold_locales
  fix s :: "'a AKd_scheme" assume q: "akd_quiet s"
  show "unat (akd_Ptr s) < TOE_MAX_SESSIONS"
    using q by (simp add: akd_quiet_def akd_wf_def sess_ok_def)
  show "\<exists>s'. ack_delay s = Some s' \<and> akd_quiet s'"
    using q akd_quiet_tick [OF q] by (simp add: akd_quiet_step)
  fix s' i assume s': "ack_delay s = Some s'"
  show "unat (akd_Ptr s') = (if Suc (unat (akd_Ptr s)) = TOE_MAX_SESSIONS then 0
      else Suc (unat (akd_Ptr s)))"
    using q s' unat_next_session [of "akd_Ptr s"]
    by (auto simp: akd_quiet_step akd_quiet_def akd_wf_def)
  show "items (ssAKdToTXe_Event s') = items (ssAKdToTXe_Event s) @
      (if ae_delay (ACK_TABLE s (of_nat (unat (akd_Ptr s)))) = 1
       then [ExtendedEvent_of (Event_sess ACK_EVENT (of_nat (unat (akd_Ptr s))))] else [])"
    using q s' by (auto simp: akd_quiet_step)
  show "ACK_TABLE s' (of_nat i) = (if i = unat (akd_Ptr s) then ae_visit (ACK_TABLE s (of_nat i))
      else ACK_TABLE s (of_nat i))" if "i < TOE_MAX_SESSIONS"
    using q s' by (auto simp: akd_quiet_step of_nat_unat_eq [OF that])
qed

lemma ae_visit_funpow: "n \<le> unat (ae_delay e) \<Longrightarrow>
    unat (ae_delay ((ae_visit ^^ n) e)) = unat (ae_delay e) - n"
  using funpow_countdown [of ae_delay "\<lambda>_. ()" e ae_visit n] by (simp add: ae_visit_def)

section \<open>The event path\<close>

text \<open>
  The event engine, the ACK delayer and the Tx engine run concurrently, and the Rx engine, the
  timers and the application interface add events at any time.  Of the Tx engine only the
  reading of an event matters, which it announces to the event engine.
\<close>

definition txe_take :: "AKd \<Rightarrow> AKd" where
  "txe_take s =
     (case sread (ssAKdToTXe_Event s) of
        None \<Rightarrow> s
      | Some (_, si) \<Rightarrow>
          s\<lparr>ssAKdToTXe_Event := si,
            ssTXeToEVe_RxEventSig := swrite (ssTXeToEVe_RxEventSig s) True\<rparr>)"

inductive evp_step :: "AKd \<Rightarrow> AKd \<Rightarrow> bool" where
  EVe_run: "evp_step s (event_engine s)"
| AKd_run: "ack_delay s = Some s' \<Longrightarrow> evp_step s s'"
| TXe_run: "evp_step s (txe_take s)"
| RXe_event: "sess_ok (ev_sessionID (ex_event ev)) \<Longrightarrow>
    evp_step s (s\<lparr>ssRXeToEVe_Event := swrite (ssRXeToEVe_Event s) ev\<rparr>)"
| TIm_event: "sess_ok (ev_sessionID ev) \<Longrightarrow>
    evp_step s (s\<lparr>ssTImToEVe_Event := swrite (ssTImToEVe_Event s) ev\<rparr>)"
| TAi_event: "sess_ok (ev_sessionID ev) \<Longrightarrow>
    evp_step s (s\<lparr>ssTAiToEVe_Event := swrite (ssTAiToEVe_Event s) ev\<rparr>)"

inductive evp_reaches :: "AKd \<Rightarrow> AKd \<Rightarrow> bool" for s where
  evp_start: "evp_reaches s s"
| evp_next: "evp_reaches s t \<Longrightarrow> evp_step t u \<Longrightarrow> evp_reaches s u"

text \<open>The counters account for what is in the FIFOs between the processes, up to 256.\<close>

definition flen :: "'a stream \<Rightarrow> nat" where
  "flen st = length (items st)"

definition evp_balance :: "AKd \<Rightarrow> bool" where
  "evp_balance s \<longleftrightarrow>
     eve_eve2akd_WrCnt s = eve_eve2akd_RdCnt s +
       of_nat (flen (ssEVeToAKd_Event s) + flen (ssAKdToEVe_RxEventSig s)) \<and>
     eve_akd2txe_WrCnt s + of_nat (flen (ssAKdToEVe_TxEventSig s)) = eve_akd2txe_RdCnt s +
       of_nat (flen (ssAKdToTXe_Event s) + flen (ssTXeToEVe_RxEventSig s))"

definition evp_sessions :: "AKd \<Rightarrow> bool" where
  "evp_sessions s \<longleftrightarrow>
     (\<forall>src. \<forall>ev \<in> set (eve_waiting s src). sess_ok (ev_sessionID (ex_event ev))) \<and>
     (\<forall>ev \<in> set (items (ssEVeToAKd_Event s)). sess_ok (ev_sessionID (ex_event ev)))"

lemma flen_swrite [simp]: "flen (swrite st x) = Suc (flen st)"
  by (simp add: flen_def)

lemma flen_sread: "sread st = Some (x, st') \<Longrightarrow> flen st = Suc (flen st')"
  by (simp add: flen_def sread_Some_iff)

lemma ex_event_of [simp]: "ex_event (ExtendedEvent_of ev) = ev"
  by (simp add: ExtendedEvent_of_def)

lemma balance_arbiter: "evp_balance s \<Longrightarrow> evp_balance (eve_arbiter s)"
  by (auto simp: evp_balance_def eve_arbiter_def add_ac split: option.splits)

lemma balance_akd_rx_sig: "evp_balance s \<Longrightarrow> evp_balance (eve_akd_rx_sig s)"
  by (auto simp: evp_balance_def eve_akd_rx_sig_def add_ac dest!: flen_sread split: option.splits)

lemma balance_akd_tx_sig: "evp_balance s \<Longrightarrow> evp_balance (eve_akd_tx_sig s)"
  by (auto simp: evp_balance_def eve_akd_tx_sig_def add_ac dest!: flen_sread split: option.splits)

lemma balance_txe_rx_sig: "evp_balance s \<Longrightarrow> evp_balance (eve_txe_rx_sig s)"
  by (auto simp: evp_balance_def eve_txe_rx_sig_def add_ac dest!: flen_sread split: option.splits)

lemma balance_event_engine: "evp_balance s \<Longrightarrow> evp_balance (event_engine s)"
  by (simp add: event_engine_def balance_arbiter balance_akd_rx_sig balance_akd_tx_sig
      balance_txe_rx_sig)

lemma balance_txe_take: "evp_balance s \<Longrightarrow> evp_balance (txe_take s)"
  by (auto simp: evp_balance_def txe_take_def add_ac dest!: flen_sread split: option.splits)

lemma akd_event_flow:
  assumes "akd_event ev s = Some s'"
  obtains tb where "s' = s\<lparr>ACK_TABLE := tb\<rparr>"
  | tb x y where "s' = s\<lparr>ACK_TABLE := tb, ssAKdToTXe_Event := swrite (ssAKdToTXe_Event s) x,
      ssAKdToEVe_TxEventSig := swrite (ssAKdToEVe_TxEventSig s) y\<rparr>"
  using assms by (auto simp: akd_event_def Let_def split: if_splits)

lemma akd_visit_flow:
  assumes "akd_visit s = Some s'"
  obtains p where "s' = s\<lparr>akd_Ptr := p\<rparr>"
  | tb p where "s' = s\<lparr>ACK_TABLE := tb, akd_Ptr := p\<rparr>"
  | tb p x y where "s' = s\<lparr>ssAKdToTXe_Event := swrite (ssAKdToTXe_Event s) x,
      ssAKdToEVe_TxEventSig := swrite (ssAKdToEVe_TxEventSig s) y,
      ACK_TABLE := tb, akd_Ptr := p\<rparr>"
  using assms by (auto simp: akd_visit_def Let_def split: if_splits)

lemma balance_ack_delay:
  assumes "evp_balance s" "ack_delay s = Some s'"
  shows "evp_balance s'"
proof (cases "sread (ssEVeToAKd_Event s)")
  case None
  then have "akd_visit s = Some s'" using assms(2) by (simp add: ack_delay_def sempty_iff_sread)
  then show ?thesis
    by (rule akd_visit_flow) (use assms(1) in \<open>auto simp: evp_balance_def add_ac\<close>)
next
  case (Some p)
  obtain ev si where p: "sread (ssEVeToAKd_Event s) = Some (ev, si)"
    using Some by (cases p) simp
  let ?t = "s\<lparr>ssEVeToAKd_Event := si,
    ssAKdToEVe_RxEventSig := swrite (ssAKdToEVe_RxEventSig s) True\<rparr>"
  have t: "evp_balance ?t"
    using assms(1) flen_sread [OF p] by (auto simp: evp_balance_def add_ac)
  have "akd_event ev ?t = Some s'"
    using assms(2) p by (simp add: ack_delay_def sempty_iff_sread)
  then show ?thesis
    by (rule akd_event_flow) (use t in \<open>auto simp: evp_balance_def add_ac\<close>)
qed

lemma ack_delay_sources:
  assumes "ack_delay s = Some s'"
  shows "ssRXeToEVe_Event s' = ssRXeToEVe_Event s \<and> ssTImToEVe_Event s' = ssTImToEVe_Event s \<and>
     ssTAiToEVe_Event s' = ssTAiToEVe_Event s \<and>
     set (items (ssEVeToAKd_Event s')) \<subseteq> set (items (ssEVeToAKd_Event s))"
  using assms
  by (auto simp: ack_delay_def akd_event_def akd_visit_def Let_def sread_Some_iff
      split: option.splits if_splits)

lemma sessions_ack_delay: "evp_sessions s \<Longrightarrow> ack_delay s = Some s' \<Longrightarrow> evp_sessions s'"
  using ack_delay_sources [of s s']
  by (auto simp: evp_sessions_def eve_waiting_def split: eve_source.splits)

lemma in_set_tlD: "x \<in> set (tl xs) \<Longrightarrow> x \<in> set xs"
  by (cases xs) auto

lemma sessions_event_engine: "evp_sessions s \<Longrightarrow> evp_sessions (event_engine s)"
  by (auto simp: evp_sessions_def event_engine_output eve_waiting_event_engine
      dest: in_set_takeD in_set_tlD split: if_splits)

lemma eve_sig_akd [simp]:
  "ACK_TABLE (eve_akd_rx_sig s) = ACK_TABLE s" "akd_Ptr (eve_akd_rx_sig s) = akd_Ptr s"
  "ACK_TABLE (eve_akd_tx_sig s) = ACK_TABLE s" "akd_Ptr (eve_akd_tx_sig s) = akd_Ptr s"
  "ACK_TABLE (eve_txe_rx_sig s) = ACK_TABLE s" "akd_Ptr (eve_txe_rx_sig s) = akd_Ptr s"
  by (simp_all add: eve_akd_rx_sig_def eve_akd_tx_sig_def eve_txe_rx_sig_def split: option.splits)

lemma event_engine_akd [simp]:
  "ACK_TABLE (event_engine s) = ACK_TABLE s" "akd_Ptr (event_engine s) = akd_Ptr s"
  by (simp_all add: event_engine_def eve_arbiter_def split: option.splits)

lemma txe_take_akd [simp]: "ACK_TABLE (txe_take s) = ACK_TABLE s" "akd_Ptr (txe_take s) = akd_Ptr s"
  by (simp_all add: txe_take_def split: option.splits)

lemma txe_take_sources [simp]:
  "eve_waiting (txe_take s) src = eve_waiting s src" "ssEVeToAKd_Event (txe_take s) = ssEVeToAKd_Event s"
  by (cases src; simp add: eve_waiting_def txe_take_def split: option.splits)+

lemma sessions_txe_take: "evp_sessions s \<Longrightarrow> evp_sessions (txe_take s)"
  by (simp add: evp_sessions_def)

lemma evp_step_inv:
  assumes "evp_step s s'" "evp_balance s \<and> evp_sessions s \<and> akd_wf s"
  shows "evp_balance s' \<and> evp_sessions s' \<and> akd_wf s'"
  using assms
proof cases
  case EVe_run
  then show ?thesis
    using assms(2) by (simp add: sessions_event_engine balance_event_engine akd_wf_def)
next
  case AKd_run
  then show ?thesis
    using assms(2) balance_ack_delay sessions_ack_delay ack_delay_wf by blast
next
  case TXe_run
  then show ?thesis
    using assms(2) by (simp add: balance_txe_take sessions_txe_take akd_wf_def)
qed (use assms(2) in \<open>auto simp: evp_balance_def evp_sessions_def eve_waiting_def akd_wf_def
    split: eve_source.splits\<close>)

lemma evp_reset_inv: "evp_balance akd_reset \<and> evp_sessions akd_reset \<and> akd_wf akd_reset"
  by (simp add: evp_balance_def evp_sessions_def eve_waiting_def akd_wf_def akd_reset_def flen_def
      sess_ok_iff split: eve_source.splits)

lemma evp_reaches_inv:
  assumes "evp_reaches akd_reset s"
  shows "evp_balance s \<and> evp_sessions s \<and> akd_wf s"
  using assms by induction (use evp_reset_inv evp_step_inv in blast)+

section \<open>Properties\<close>

text \<open>C32. Nothing but acknowledgements is delayed: over any number of runs of the ACK delayer the
  other events keep their order and none is lost or duplicated, and no session gets more
  acknowledgements than were requested for it.\<close>

theorem ack_delay_events:
  assumes "steps ack_delay n s = Some s'"
  shows "akd_others s' = akd_others s \<and> akd_due i s' \<le> akd_due i s"
proof (rule steps_invariant [of "\<lambda>t. akd_others t = akd_others s \<and> akd_due i t \<le> akd_due i s"
      ack_delay s n s'])
  fix t t' assume "akd_others t = akd_others s \<and> akd_due i t \<le> akd_due i s" "ack_delay t = Some t'"
  then show "akd_others t' = akd_others s \<and> akd_due i t' \<le> akd_due i s"
    using ack_delay_due [of t t' i] by simp
qed (use assms in auto)

theorem ack_delay_events_witness:
  "\<exists>s'. steps ack_delay 3 (akd_reset\<lparr>ssEVeToAKd_Event := Stream 8 (map ExtendedEvent_of
       [Event_sess ACK_EVENT 2, Event_sess TX_EVENT 5, Event_sess ACK_EVENT 2])\<rparr>) = Some s' \<and>
     akd_others s' = [ExtendedEvent_of (Event_sess TX_EVENT 5)] \<and> akd_due 2 s' \<le> 2"
proof -
  let ?s = "akd_reset\<lparr>ssEVeToAKd_Event := Stream 8 (map ExtendedEvent_of
       [Event_sess ACK_EVENT 2, Event_sess TX_EVENT 5, Event_sess ACK_EVENT 2])\<rparr>"
  obtain s' where s': "steps ack_delay 3 ?s = Some s'"
    by (simp add: numeral_3_eq_3 ack_delay_def akd_event_def akd_reset_def stream_simps
        ExtendedEvent_of_def Event_sess_def sess_ok_iff)
  have "akd_others ?s = [ExtendedEvent_of (Event_sess TX_EVENT 5)]" "akd_due 2 ?s = 2"
    by (simp_all add: akd_others_def akd_due_def akd_reset_def is_ack_def ExtendedEvent_of_def
        Event_sess_def)
  with ack_delay_events [OF s', of 2] s' show ?thesis by simp
qed

text \<open>C33. A delayed acknowledgement is sent in time if the scan is not held up.  As long as no event
  arrives at the process (each one takes a cycle from the scan of the table) and the FIFO of the
  Tx engine has room for the pending acknowledgements, an entry with delay \<open>d\<close> is sent within
  \<open>8 * d\<close> cycles, which is at most 10008 cycles: 64.05 microseconds at 156.25 MHz, the \<open>ACKD_64us\<close>
  of the code.  (The documentation of the process, \<open>DOC/NTS/AKd.md\<close>, says 100 ms.)\<close>

theorem ack_delay_deadline:
  assumes "akd_quiet s" "sess_ok i" "0 < ae_delay (ACK_TABLE s i)"
  shows "\<exists>s' xs. steps ack_delay (TOE_MAX_SESSIONS * unat (ae_delay (ACK_TABLE s i))) s = Some s' \<and>
     items (ssAKdToTXe_Event s') = items (ssAKdToTXe_Event s) @ xs \<and>
     ExtendedEvent_of (Event_sess ACK_EVENT i) \<in> set xs \<and>
     TOE_MAX_SESSIONS * unat (ae_delay (ACK_TABLE s i)) \<le> 10008"
proof -
  let ?e = "ACK_TABLE s i"
  obtain n where n: "unat (ae_delay ?e) = Suc n"
    using assms(3) by (metis gr0_implies_Suc unat_gt_0 word_gt_0)
  have "unat (ae_delay ((ae_visit ^^ n) ?e)) = 1"
    using ae_visit_funpow [of n ?e] n by simp
  then have "ae_delay ((ae_visit ^^ n) ?e) = 1"
    by (simp add: word_unat_eq_iff)
  moreover have "ACK_TABLE s (of_nat (unat i)) = ?e" "unat i < TOE_MAX_SESSIONS"
    using assms(2) by (simp_all add: sess_ok_def)
  moreover have "unat (ae_delay ?e) \<le> 1251"
    using assms(1) by (auto simp: akd_quiet_def akd_wf_def ae_wf_def ackd_defs word_le_nat_alt)
  ultimately show ?thesis
    using akd.fires_within [OF assms(1), of "unat i" n] n
    by (auto simp: TOE_MAX_SESSIONS_def)
qed

theorem ack_delay_deadline_witness:
  "let s = akd_reset\<lparr>ACK_TABLE := (\<lambda>_. \<lparr>ae_delay = 0, ae_count = 0\<rparr>)(3 := \<lparr>ae_delay = 20, ae_count = 7\<rparr>)\<rparr>
   in \<exists>s' xs. steps ack_delay 160 s = Some s' \<and> items (ssAKdToTXe_Event s') = xs \<and>
     ExtendedEvent_of (Event_sess ACK_EVENT 3) \<in> set xs"
proof -
  let ?s = "akd_reset\<lparr>ACK_TABLE := (\<lambda>_. \<lparr>ae_delay = 0, ae_count = 0\<rparr>)(3 := \<lparr>ae_delay = 20, ae_count = 7\<rparr>)\<rparr>"
  have "card (akd_pending ?s) \<le> card {..<8::nat}"
    by (rule card_mono) (auto simp: akd_pending_def TOE_MAX_SESSIONS_def)
  then have "akd_quiet ?s"
    by (simp add: akd_quiet_def akd_wf_def ae_wf_def akd_reset_def sess_ok_iff ackd_defs)
  from ack_delay_deadline [OF this, of 3] show ?thesis
    by (simp add: sess_ok_iff TOE_MAX_SESSIONS_def akd_reset_def)
qed

text \<open>The counters of the event engine are exact: in every state the processes reach, as long
  as each FIFO holds fewer than 128 elements, agreeing counters mean that no event is between
  the event engine and the ACK delayer, and that the events on their way to the Tx engine are
  exactly as many as the ACK delayer has announced and the event engine has not yet counted.\<close>

theorem eve_idle_exact:
  assumes "evp_reaches akd_reset s" "eve_idle s"
    and "\<forall>n \<in> {flen (ssEVeToAKd_Event s), flen (ssAKdToEVe_RxEventSig s),
          flen (ssAKdToEVe_TxEventSig s), flen (ssAKdToTXe_Event s),
          flen (ssTXeToEVe_RxEventSig s)}. n < 128"
  shows "items (ssEVeToAKd_Event s) = [] \<and> items (ssAKdToEVe_RxEventSig s) = [] \<and>
     length (items (ssAKdToTXe_Event s)) + length (items (ssTXeToEVe_RxEventSig s)) =
       length (items (ssAKdToEVe_TxEventSig s))"
proof -
  have b: "evp_balance s" using evp_reaches_inv assms(1) by blast
  have eq: "m = n" if "(of_nat m :: 8 word) = of_nat n" "m < 256" "n < 256" for m n
    using that by (simp add: word_unat_eq_iff unsigned_of_nat take_bit_nat_eq_self)
  have "flen (ssEVeToAKd_Event s) + flen (ssAKdToEVe_RxEventSig s) = 0"
    by (rule eq) (use b assms(2,3) in \<open>auto simp: evp_balance_def eve_idle_def\<close>)
  moreover have "flen (ssAKdToEVe_TxEventSig s) =
      flen (ssAKdToTXe_Event s) + flen (ssTXeToEVe_RxEventSig s)"
    by (rule eq) (use b assms(2,3) in \<open>auto simp: evp_balance_def eve_idle_def\<close>)
  ultimately show ?thesis by (simp add: flen_def)
qed

theorem eve_idle_exact_witness:
  "let s = event_engine akd_reset in items (ssEVeToAKd_Event s) = [] \<and>
     length (items (ssAKdToTXe_Event s)) \<le> length (items (ssAKdToEVe_TxEventSig s))"
proof -
  have "evp_reaches akd_reset (event_engine akd_reset)"
    by (rule evp_next [OF evp_start EVe_run])
  moreover have "event_engine akd_reset = akd_reset"
    by (simp add: event_engine_def eve_defs akd_reset_def stream_simps)
  ultimately show ?thesis
    using eve_idle_exact [of akd_reset] by (simp add: eve_idle_def akd_reset_def flen_def)
qed

text \<open>C34. No run of the event path leaves a table: events name existing sessions, so the ACK
  delayer is always defined, its entries hold at most eight acknowledgements and at most the
  longest delay, and a pending entry has counted at least one.\<close>

theorem evp_in_bounds:
  assumes "evp_reaches akd_reset s"
  shows "(\<exists>s'. ack_delay s = Some s') \<and>
     (\<forall>i. ae_delay (ACK_TABLE s i) \<le> 1251 \<and> ae_count (ACK_TABLE s i) \<le> 8 \<and>
          (ae_delay (ACK_TABLE s i) = 0 \<or> 1 \<le> ae_count (ACK_TABLE s i)))"
  using evp_reaches_inv [OF assms] ack_delay_defined [of s]
  by (auto simp: evp_sessions_def akd_wf_def ae_wf_def ackd_defs word_gt_0)

theorem evp_in_bounds_witness:
  "\<exists>s'. ack_delay (event_engine (akd_reset\<lparr>ssTAiToEVe_Event :=
      swrite (ssTAiToEVe_Event akd_reset) (Event_sess TX_EVENT 7)\<rparr>)) = Some s'"
proof -
  have "sess_ok (ev_sessionID (Event_sess TX_EVENT 7))" by (simp add: Event_sess_def sess_ok_iff)
  from evp_next [OF evp_next [OF evp_start TAi_event [OF this]] EVe_run]
  show ?thesis using evp_in_bounds by blast
qed

end
