(* ===== verification/Timers.thy ===== *)
theory Timers
  imports Toe_Types
begin

text \<open>
  The Timers (TIm), \<open>NTS/toe/src/timers/timers.cpp\<close>: the retransmission timer, the probe timer and
  the close timer of every session, each a table that its process scans one entry per cycle, and
  the two multiplexers that merge their events and close commands.  A time is a number of visits
  of an entry, that is, of \<open>TOE_MAX_SESSIONS\<close> cycles.
\<close>

section \<open>State\<close>

record CloseTimerEntry =
  cte_time :: "32 word"
  cte_active :: bool

record ProbeTimerEntry =
  pte_time :: "32 word"
  pte_active :: bool

record ReTxTimerEntry =
  rte_time :: "32 word"
  rte_retries :: "3 word"
  rte_active :: bool
  rte_type :: EventType

text \<open>The timer intervals of \<open>toe.hpp\<close> for a clock of 156.25 MHz and eight sessions.\<close>

definition TIME_1s :: "32 word" where "TIME_1s = 19531251"
definition TIME_3s :: "32 word" where "TIME_3s = 58593751"
definition TIME_6s :: "32 word" where "TIME_6s = 117187501"
definition TIME_10s :: "32 word" where "TIME_10s = 195312501"
definition TIME_12s :: "32 word" where "TIME_12s = 234375001"
definition TIME_30s :: "32 word" where "TIME_30s = 585937501"
definition TIME_60s :: "32 word" where "TIME_60s = 1171875001"

lemmas time_defs = TIME_1s_def TIME_3s_def TIME_6s_def TIME_10s_def TIME_12s_def TIME_30s_def
  TIME_60s_def

record TIm =
  tim_siRXe_ReTxTimerCmd :: "RXeReTransTimerCmd stream"
  tim_siRXe_ClrProbeTimer :: "SessionId stream"
  tim_siRXe_CloseTimer :: "SessionId stream"
  tim_siTXe_ReTxTimerCmd :: "TXeReTransTimerCmd stream"
  tim_siTXe_SetProbeTimer :: "SessionId stream"
  tim_soSTt_SessCloseCmd :: "SessionId stream"
  tim_soEVe_Event :: "Event stream"
  tim_soTAi_Notif :: "SessState stream"
  tim_soRAi_Notif :: "TcpAppNotif stream"
  ssClsToSmx_SessCloseCmd :: "SessionId stream"
  ssRttToSmx_SessCloseCmd :: "SessionId stream"
  ssRttToEmx_Event :: "Event stream"
  ssPbtToEmx_Event :: "Event stream"
  RETRANSMIT_TIMER_TABLE :: "SessionId \<Rightarrow> ReTxTimerEntry"
  rtt_waitForWrite :: bool
  rtt_prevPosition :: SessionId
  rtt_position :: SessionId
  rtt_rxeCmd :: RXeReTransTimerCmd
  PROBE_TIMER_TABLE :: "SessionId \<Rightarrow> ProbeTimerEntry"
  pbt_WaitForWrite :: bool
  pbt_currSessId :: SessionId
  pbt_updtSessId :: SessionId
  pbt_prevSessId :: SessionId
  CLOSE_TIMER_TABLE :: "SessionId \<Rightarrow> CloseTimerEntry"
  clt_waitForWrite :: bool
  clt_currSessId :: SessionId
  clt_prevSessId :: SessionId
  clt_sessIdToSet :: SessionId

definition rte_zero :: ReTxTimerEntry where
  "rte_zero = \<lparr>rte_time = 0, rte_retries = 0, rte_active = False, rte_type = TX_EVENT\<rparr>"

definition tim_reset :: TIm where
  "tim_reset = \<lparr>
     tim_siRXe_ReTxTimerCmd = Stream 2 [], tim_siRXe_ClrProbeTimer = Stream 2 [],
     tim_siRXe_CloseTimer = Stream 2 [], tim_siTXe_ReTxTimerCmd = Stream 2 [],
     tim_siTXe_SetProbeTimer = Stream 2 [], tim_soSTt_SessCloseCmd = Stream 2 [],
     tim_soEVe_Event = Stream 4 [], tim_soTAi_Notif = Stream 4 [], tim_soRAi_Notif = Stream 4 [],
     ssClsToSmx_SessCloseCmd = Stream 2 [], ssRttToSmx_SessCloseCmd = Stream 2 [],
     ssRttToEmx_Event = Stream 2 [], ssPbtToEmx_Event = Stream 2 [],
     RETRANSMIT_TIMER_TABLE = (\<lambda>_. rte_zero), rtt_waitForWrite = False, rtt_prevPosition = 0,
     rtt_position = 0, rtt_rxeCmd = \<lparr>rrt_sessionID = 0, rrt_command = LOAD_TIMER\<rparr>,
     PROBE_TIMER_TABLE = (\<lambda>_. \<lparr>pte_time = 0, pte_active = False\<rparr>), pbt_WaitForWrite = False,
     pbt_currSessId = 0, pbt_updtSessId = 0, pbt_prevSessId = 0,
     CLOSE_TIMER_TABLE = (\<lambda>_. \<lparr>cte_time = 0, cte_active = False\<rparr>), clt_waitForWrite = False,
     clt_currSessId = 0, clt_prevSessId = 0, clt_sessIdToSet = 0\<rparr>"

section \<open>The processes\<close>

text \<open>The multiplexer reads its first input, when that is empty the second one.\<close>

definition pStreamMux :: "'a stream \<Rightarrow> 'a stream \<Rightarrow> 'a stream \<Rightarrow> 'a stream \<times> 'a stream \<times> 'a stream" where
  "pStreamMux si1 si2 so =
     (case sread si1 of
        Some (x, si1') \<Rightarrow> (si1', si2, swrite so x)
      | None \<Rightarrow>
          (case sread si2 of
             Some (x, si2') \<Rightarrow> (si1, si2', swrite so x)
           | None \<Rightarrow> (si1, si2, so)))"

text \<open>The retransmission timer: the command of the Rx engine, that of the Tx engine, and the visit
  of an entry while there is none.\<close>

definition rtt_rxe_write :: "RXeReTransTimerCmd \<Rightarrow> ReTxTimerEntry \<Rightarrow> ReTxTimerEntry" where
  "rtt_rxe_write cmd e =
     (let e = (if rrt_command cmd = LOAD_TIMER then e\<lparr>rte_time := TIME_1s\<rparr>
               else e\<lparr>rte_time := 0, rte_active := False\<rparr>)
      in e\<lparr>rte_retries := 0\<rparr>)"

definition rtt_txe_set :: "EventType \<Rightarrow> ReTxTimerEntry \<Rightarrow> ReTxTimerEntry" where
  "rtt_txe_set ty e =
     (let e = e\<lparr>rte_type := ty\<rparr> in
      if \<not> rte_active e then
        e\<lparr>rte_time := (if rte_retries e = 0 then TIME_3s
                       else if rte_retries e = 1 then TIME_6s
                       else if rte_retries e = 2 then TIME_12s
                       else TIME_30s),
          rte_active := True\<rparr>
      else e)"

text \<open>The visit of entry \<open>e\<close> of session \<open>i\<close>: it returns the state with the messages it sends.\<close>

definition rtt_visit :: "SessionId \<Rightarrow> ReTxTimerEntry \<Rightarrow> TIm \<Rightarrow> ReTxTimerEntry \<times> TIm" where
  "rtt_visit i e s =
     (if rte_active e then
        if 0 < rte_time e then (e\<lparr>rte_time := rte_time e - 1\<rparr>, s)
        else if \<not> sfull (ssRttToEmx_Event s) then
          (let e = e\<lparr>rte_time := 0, rte_active := False\<rparr> in
           if rte_retries e < 4 then
             (let e = e\<lparr>rte_retries := rte_retries e + 1\<rparr> in
              (e, s\<lparr>ssRttToEmx_Event :=
                      swrite (ssRttToEmx_Event s) (Event_rt (rte_type e) i (rte_retries e))\<rparr>))
           else
             (let e = e\<lparr>rte_retries := 0\<rparr>;
                  s = s\<lparr>ssRttToSmx_SessCloseCmd := swrite (ssRttToSmx_SessCloseCmd s) i\<rparr> in
              (e, if rte_type e = SYN_EVENT
                  then s\<lparr>tim_soTAi_Notif :=
                           swrite (tim_soTAi_Notif s) \<lparr>ss_sessId = i, ss_tcpState = CLOSED\<rparr>\<rparr>
                  else s\<lparr>tim_soRAi_Notif :=
                           swrite (tim_soRAi_Notif s) (TcpAppNotif_state i CLOSED)\<rparr>)))
        else (e, s)
      else (e, s))"

text \<open>\<open>rtt_position += 5\<close> skips entries ahead of a session that is being set.  The subtraction
  \<open>sessionID - 3\<close> is one of signed integers.\<close>

definition rtt_skip :: "SessionId \<Rightarrow> SessionId \<Rightarrow> SessionId" where
  "rtt_skip sid pos =
     (if uint sid - 3 < uint pos \<and> pos \<le> sid then pos + 5 else pos)"

definition pRetransmitTimer :: "TIm \<Rightarrow> TIm option" where
  "pRetransmitTimer s =
     (if rtt_waitForWrite s \<and> rrt_sessionID (rtt_rxeCmd s) \<noteq> rtt_prevPosition s then
        (let i = rrt_sessionID (rtt_rxeCmd s) in
         in_bounds i
           (Some (s\<lparr>RETRANSMIT_TIMER_TABLE := (RETRANSMIT_TIMER_TABLE s)
                      (i := rtt_rxe_write (rtt_rxeCmd s) (RETRANSMIT_TIMER_TABLE s i)),
                    rtt_waitForWrite := False\<rparr>)))
      else if \<not> sempty (tim_siRXe_ReTxTimerCmd s) \<and> \<not> rtt_waitForWrite s then
        (case sread (tim_siRXe_ReTxTimerCmd s) of
           None \<Rightarrow> Some s
         | Some (cmd, si) \<Rightarrow>
             Some (s\<lparr>tim_siRXe_ReTxTimerCmd := si, rtt_rxeCmd := cmd, rtt_waitForWrite := True\<rparr>))
      else
        (case sread (tim_siTXe_ReTxTimerCmd s) of
           Some (cmd, si) \<Rightarrow>
             (let i = trt_sessionID cmd in
              in_bounds i
                (Some (s\<lparr>tim_siTXe_ReTxTimerCmd := si,
                         rtt_position := rtt_skip i (rtt_position s),
                         RETRANSMIT_TIMER_TABLE := (RETRANSMIT_TIMER_TABLE s)
                           (i := rtt_txe_set (trt_type cmd) (RETRANSMIT_TIMER_TABLE s i)),
                         rtt_prevPosition := i\<rparr>)))
         | None \<Rightarrow>
             (let i = rtt_position s;
                  s = s\<lparr>rtt_position := (if of_nat TOE_MAX_SESSIONS \<le> i + 1 then 0 else i + 1)\<rparr> in
              in_bounds i
                (let (e, s) = rtt_visit i (RETRANSMIT_TIMER_TABLE s i) s
                 in Some (s\<lparr>RETRANSMIT_TIMER_TABLE := (RETRANSMIT_TIMER_TABLE s)(i := e),
                            rtt_prevPosition := i\<rparr>)))))"

text \<open>The probe timer.  Its keep-alive function is disabled: a set command leaves the entry
  inactive.\<close>

definition pbt_visit :: "bool \<Rightarrow> SessionId \<Rightarrow> TIm \<Rightarrow> TIm" where
  "pbt_visit fastResume i s =
     (let e = PROBE_TIMER_TABLE s i in
      if pte_active e then
        if fastResume then
          s\<lparr>PROBE_TIMER_TABLE := (PROBE_TIMER_TABLE s)(i := \<lparr>pte_time = 0, pte_active = False\<rparr>)\<rparr>
        else if pte_time e = 0 \<and> \<not> sfull (ssPbtToEmx_Event s) then
          s\<lparr>PROBE_TIMER_TABLE := (PROBE_TIMER_TABLE s)(i := \<lparr>pte_time = 0, pte_active = False\<rparr>),
            ssPbtToEmx_Event := swrite (ssPbtToEmx_Event s) (Event_sess TX_EVENT i)\<rparr>
        else
          s\<lparr>PROBE_TIMER_TABLE :=
              (PROBE_TIMER_TABLE s)(i := e\<lparr>pte_time := pte_time e - 1\<rparr>)\<rparr>
      else s)"

definition pProbeTimer :: "TIm \<Rightarrow> TIm option" where
  "pProbeTimer s =
     (if pbt_WaitForWrite s then
        (let i = pbt_updtSessId s in
         if i \<noteq> pbt_prevSessId s then
           in_bounds i
             (Some (s\<lparr>PROBE_TIMER_TABLE := (PROBE_TIMER_TABLE s)
                        (i := \<lparr>pte_time = TIME_10s, pte_active = False\<rparr>),
                      pbt_WaitForWrite := False, pbt_prevSessId := pbt_prevSessId s - 1\<rparr>))
         else Some (s\<lparr>pbt_prevSessId := pbt_prevSessId s - 1\<rparr>))
      else
        (case sread (tim_siTXe_SetProbeTimer s) of
           Some (i, si) \<Rightarrow>
             Some (s\<lparr>tim_siTXe_SetProbeTimer := si, pbt_updtSessId := i, pbt_WaitForWrite := True\<rparr>)
         | None \<Rightarrow>
             (case sread (tim_siRXe_ClrProbeTimer s) of
                Some (i, si) \<Rightarrow>
                  in_bounds i
                    (Some ((pbt_visit True i (s\<lparr>tim_siRXe_ClrProbeTimer := si\<rparr>))
                             \<lparr>pbt_prevSessId := i\<rparr>))
              | None \<Rightarrow>
                  (let i = pbt_currSessId s in
                   in_bounds i
                     (Some ((pbt_visit False i
                              (s\<lparr>pbt_currSessId :=
                                   (if i + 1 = of_nat TOE_MAX_SESSIONS then 0 else i + 1)\<rparr>))
                              \<lparr>pbt_prevSessId := i\<rparr>))))))"

definition pCloseTimer :: "TIm \<Rightarrow> TIm option" where
  "pCloseTimer s =
     (if clt_waitForWrite s then
        (let i = clt_sessIdToSet s in
         if i \<noteq> clt_prevSessId s then
           in_bounds i
             (Some (s\<lparr>CLOSE_TIMER_TABLE := (CLOSE_TIMER_TABLE s)
                        (i := \<lparr>cte_time = TIME_60s, cte_active = True\<rparr>),
                      clt_waitForWrite := False, clt_prevSessId := clt_prevSessId s - 1\<rparr>))
         else Some (s\<lparr>clt_prevSessId := clt_prevSessId s - 1\<rparr>))
      else
        (case sread (tim_siRXe_CloseTimer s) of
           Some (i, si) \<Rightarrow>
             Some (s\<lparr>tim_siRXe_CloseTimer := si, clt_sessIdToSet := i, clt_waitForWrite := True\<rparr>)
         | None \<Rightarrow>
             (let i = clt_currSessId s; s = s\<lparr>clt_prevSessId := i\<rparr>; e = CLOSE_TIMER_TABLE s i in
              in_bounds i
                (let s =
                   (if cte_active e then
                      if 0 < cte_time e then
                        s\<lparr>CLOSE_TIMER_TABLE :=
                            (CLOSE_TIMER_TABLE s)(i := e\<lparr>cte_time := cte_time e - 1\<rparr>)\<rparr>
                      else
                        s\<lparr>CLOSE_TIMER_TABLE :=
                            (CLOSE_TIMER_TABLE s)(i := \<lparr>cte_time = 0, cte_active = False\<rparr>),
                          ssClsToSmx_SessCloseCmd := swrite (ssClsToSmx_SessCloseCmd s) i\<rparr>
                    else s)
                 in Some (s\<lparr>clt_currSessId :=
                              (if i = of_nat TOE_MAX_SESSIONS then 0 else i + 1)\<rparr>)))))"

text \<open>One cycle of the entity, in the order of the code.\<close>

definition tim_emx :: "TIm \<Rightarrow> TIm" where
  "tim_emx s =
     (let (si1, si2, so) = pStreamMux (ssRttToEmx_Event s) (ssPbtToEmx_Event s) (tim_soEVe_Event s)
      in s\<lparr>ssRttToEmx_Event := si1, ssPbtToEmx_Event := si2, tim_soEVe_Event := so\<rparr>)"

definition tim_smx :: "TIm \<Rightarrow> TIm" where
  "tim_smx s =
     (let (si1, si2, so) = pStreamMux (ssClsToSmx_SessCloseCmd s) (ssRttToSmx_SessCloseCmd s)
            (tim_soSTt_SessCloseCmd s)
      in s\<lparr>ssClsToSmx_SessCloseCmd := si1, ssRttToSmx_SessCloseCmd := si2,
           tim_soSTt_SessCloseCmd := so\<rparr>)"

definition timers :: "TIm \<Rightarrow> TIm option" where
  "timers s =
     Option.bind (pRetransmitTimer (tim_emx s)) (\<lambda>s.
     Option.bind (pProbeTimer s) (\<lambda>s.
     map_option tim_smx (pCloseTimer s)))"

section \<open>The scan of the retransmission table\<close>

text \<open>The table is scanned while no command waits.  One cycle is the multiplexer followed by the
  process, as in the entity, so the FIFO between them holds at most one event.\<close>

definition rtt_quiet :: "TIm \<Rightarrow> bool" where
  "rtt_quiet s \<longleftrightarrow> \<not> rtt_waitForWrite s \<and> items (tim_siRXe_ReTxTimerCmd s) = [] \<and>
     items (tim_siTXe_ReTxTimerCmd s) = [] \<and> sess_ok (rtt_position s) \<and>
     length (items (ssRttToEmx_Event s)) \<le> 1 \<and> 1 \<le> depth (ssRttToEmx_Event s) \<and>
     items (ssPbtToEmx_Event s) = []"

definition rtt_cycle :: "TIm \<Rightarrow> TIm option" where
  "rtt_cycle s = pRetransmitTimer (tim_emx s)"

definition rte_expired :: "ReTxTimerEntry \<Rightarrow> bool" where
  "rte_expired e \<longleftrightarrow> rte_active e \<and> rte_time e = 0"

definition rte_visit :: "ReTxTimerEntry \<Rightarrow> ReTxTimerEntry" where
  "rte_visit e =
     (if rte_active e then
        if 0 < rte_time e then e\<lparr>rte_time := rte_time e - 1\<rparr>
        else e\<lparr>rte_time := 0, rte_active := False,
               rte_retries := (if rte_retries e < 4 then rte_retries e + 1 else 0)\<rparr>
      else e)"

definition rtt_next :: "SessionId \<Rightarrow> SessionId" where
  "rtt_next i = (if of_nat TOE_MAX_SESSIONS \<le> i + 1 then 0 else i + 1)"

lemma unat_rtt_next: "sess_ok i \<Longrightarrow>
    unat (rtt_next i) = (if Suc (unat i) = TOE_MAX_SESSIONS then 0 else Suc (unat i))"
proof -
  assume ok: "sess_ok i"
  then have "unat (i + 1) = Suc (unat i)"
    by (intro unat_add_1) (auto simp: sess_ok_iff unsigned_minus_1_eq_mask mask_eq_exp_minus_1)
  with ok show ?thesis
    by (auto simp: rtt_next_def word_le_nat_alt sess_ok_iff TOE_MAX_SESSIONS_def)
qed

lemma sess_ok_rtt_next: "sess_ok i \<Longrightarrow> sess_ok (rtt_next i)"
  using unat_rtt_next [of i] by (auto simp: sess_ok_def TOE_MAX_SESSIONS_def split: if_splits)

lemma rtt_visit_entry:
  "\<not> sfull (ssRttToEmx_Event s) \<Longrightarrow> fst (rtt_visit i e s) = rte_visit e"
  by (auto simp: rtt_visit_def rte_visit_def Let_def word_gt_0)

lemma rtt_visit_events:
  "\<not> sfull (ssRttToEmx_Event s) \<Longrightarrow> items (ssRttToEmx_Event (snd (rtt_visit i e s))) =
     items (ssRttToEmx_Event s) @
     (if rte_expired e \<and> rte_retries e < 4 then [Event_rt (rte_type e) i (rte_retries e + 1)] else [])"
  by (auto simp: rtt_visit_def rte_expired_def Let_def word_gt_0)

lemma rtt_visit_closes:
  "\<not> sfull (ssRttToEmx_Event s) \<Longrightarrow> items (ssRttToSmx_SessCloseCmd (snd (rtt_visit i e s))) =
     items (ssRttToSmx_SessCloseCmd s) @
     (if rte_expired e \<and> \<not> rte_retries e < 4 then [i] else [])"
  by (auto simp: rtt_visit_def rte_expired_def Let_def word_gt_0)

text \<open>What a visit leaves alone.\<close>

lemma rtt_visit_frame:
  "rtt_waitForWrite (snd (rtt_visit i e s)) = rtt_waitForWrite s"
  "rtt_rxeCmd (snd (rtt_visit i e s)) = rtt_rxeCmd s"
  "rtt_position (snd (rtt_visit i e s)) = rtt_position s"
  "rtt_prevPosition (snd (rtt_visit i e s)) = rtt_prevPosition s"
  "tim_siRXe_ReTxTimerCmd (snd (rtt_visit i e s)) = tim_siRXe_ReTxTimerCmd s"
  "tim_siTXe_ReTxTimerCmd (snd (rtt_visit i e s)) = tim_siTXe_ReTxTimerCmd s"
  "RETRANSMIT_TIMER_TABLE (snd (rtt_visit i e s)) = RETRANSMIT_TIMER_TABLE s"
  "depth (ssRttToEmx_Event (snd (rtt_visit i e s))) = depth (ssRttToEmx_Event s)"
  "ssPbtToEmx_Event (snd (rtt_visit i e s)) = ssPbtToEmx_Event s"
  "tim_soEVe_Event (snd (rtt_visit i e s)) = tim_soEVe_Event s"
  by (simp_all add: rtt_visit_def Let_def)

lemma rtt_idle_step:
  assumes "\<not> (rtt_waitForWrite s \<and> rrt_sessionID (rtt_rxeCmd s) \<noteq> rtt_prevPosition s)"
    and "items (tim_siRXe_ReTxTimerCmd s) = [] \<or> rtt_waitForWrite s"
    and "items (tim_siTXe_ReTxTimerCmd s) = []" "sess_ok (rtt_position s)"
  shows "\<exists>e t. rtt_visit (rtt_position s) (RETRANSMIT_TIMER_TABLE s (rtt_position s))
        (s\<lparr>rtt_position := rtt_next (rtt_position s)\<rparr>) = (e, t) \<and>
     pRetransmitTimer s = Some (t\<lparr>
       RETRANSMIT_TIMER_TABLE := (RETRANSMIT_TIMER_TABLE s)(rtt_position s := e),
       rtt_prevPosition := rtt_position s\<rparr>)"
proof -
  obtain e t where v: "rtt_visit (rtt_position s) (RETRANSMIT_TIMER_TABLE s (rtt_position s))
        (s\<lparr>rtt_position := rtt_next (rtt_position s)\<rparr>) = (e, t)"
    by fastforce
  moreover have "RETRANSMIT_TIMER_TABLE t = RETRANSMIT_TIMER_TABLE s"
    using rtt_visit_frame(7) [of "rtt_position s" "RETRANSMIT_TIMER_TABLE s (rtt_position s)"
        "s\<lparr>rtt_position := rtt_next (rtt_position s)\<rparr>"] v by simp
  ultimately show ?thesis
    using assms by (auto simp: pRetransmitTimer_def sempty_def Let_def rtt_next_def)
qed

text \<open>The same step with the observations that matter.\<close>

lemma rtt_idle_step':
  assumes "\<not> (rtt_waitForWrite s \<and> rrt_sessionID (rtt_rxeCmd s) \<noteq> rtt_prevPosition s)"
    and "items (tim_siRXe_ReTxTimerCmd s) = [] \<or> rtt_waitForWrite s"
    and "items (tim_siTXe_ReTxTimerCmd s) = []" "sess_ok (rtt_position s)"
  obtains s' where "pRetransmitTimer s = Some s'" "rtt_position s' = rtt_next (rtt_position s)"
    "rtt_prevPosition s' = rtt_position s" "rtt_waitForWrite s' = rtt_waitForWrite s"
    "rtt_rxeCmd s' = rtt_rxeCmd s" "tim_siRXe_ReTxTimerCmd s' = tim_siRXe_ReTxTimerCmd s"
    "tim_siTXe_ReTxTimerCmd s' = tim_siTXe_ReTxTimerCmd s"
    "depth (ssRttToEmx_Event s') = depth (ssRttToEmx_Event s)"
    "ssPbtToEmx_Event s' = ssPbtToEmx_Event s" "tim_soEVe_Event s' = tim_soEVe_Event s"
    "\<not> sfull (ssRttToEmx_Event s) \<Longrightarrow>
       (let e = RETRANSMIT_TIMER_TABLE s (rtt_position s) in
        RETRANSMIT_TIMER_TABLE s' = (RETRANSMIT_TIMER_TABLE s)(rtt_position s := rte_visit e) \<and>
        items (ssRttToEmx_Event s') = items (ssRttToEmx_Event s) @
          (if rte_expired e \<and> rte_retries e < 4
           then [Event_rt (rte_type e) (rtt_position s) (rte_retries e + 1)] else []) \<and>
        items (ssRttToSmx_SessCloseCmd s') = items (ssRttToSmx_SessCloseCmd s) @
          (if rte_expired e \<and> \<not> rte_retries e < 4 then [rtt_position s] else []))"
proof -
  let ?i = "rtt_position s" and ?u = "s\<lparr>rtt_position := rtt_next (rtt_position s)\<rparr>"
  let ?e = "RETRANSMIT_TIMER_TABLE s ?i"
  obtain e t where v: "rtt_visit ?i ?e ?u = (e, t)" and
    p: "pRetransmitTimer s = Some (t\<lparr>RETRANSMIT_TIMER_TABLE := (RETRANSMIT_TIMER_TABLE s)(?i := e),
       rtt_prevPosition := ?i\<rparr>)"
    using rtt_idle_step [OF assms] by blast
  note frame = rtt_visit_frame [of ?i ?e ?u, unfolded v snd_conv]
  show thesis
    by (rule that [OF p])
      (use frame rtt_visit_entry [of ?u ?i ?e] rtt_visit_events [of ?u ?i ?e]
         rtt_visit_closes [of ?u ?i ?e] v in \<open>simp_all add: Let_def\<close>)
qed

text \<open>The multiplexer empties the FIFO of the retransmission timer.\<close>

lemma tim_emx_quiet:
  assumes "rtt_quiet s"
  shows "items (ssRttToEmx_Event (tim_emx s)) = [] \<and>
    items (tim_soEVe_Event (tim_emx s)) = items (tim_soEVe_Event s) @ items (ssRttToEmx_Event s) \<and>
    ssRttToSmx_SessCloseCmd (tim_emx s) = ssRttToSmx_SessCloseCmd s \<and>
    RETRANSMIT_TIMER_TABLE (tim_emx s) = RETRANSMIT_TIMER_TABLE s \<and>
    rtt_position (tim_emx s) = rtt_position s \<and> rtt_quiet (tim_emx s)"
proof (cases "items (ssRttToEmx_Event s)")
  case Nil
  then show ?thesis
    using assms by (simp add: tim_emx_def pStreamMux_def rtt_quiet_def)
next
  case (Cons ev evs)
  then show ?thesis
    using assms by (simp add: tim_emx_def pStreamMux_def rtt_quiet_def sread_cons)
qed

lemma rtt_cycle_quiet:
  assumes "rtt_quiet s"
  obtains s' where "rtt_cycle s = Some s'" "rtt_quiet s'" "rtt_position s' = rtt_next (rtt_position s)"
    "let e = RETRANSMIT_TIMER_TABLE s (rtt_position s) in
       RETRANSMIT_TIMER_TABLE s' = (RETRANSMIT_TIMER_TABLE s)(rtt_position s := rte_visit e) \<and>
       items (tim_soEVe_Event s') @ items (ssRttToEmx_Event s') =
         items (tim_soEVe_Event s) @ items (ssRttToEmx_Event s) @
          (if rte_expired e \<and> rte_retries e < 4
           then [Event_rt (rte_type e) (rtt_position s) (rte_retries e + 1)] else []) \<and>
       items (ssRttToSmx_SessCloseCmd s') = items (ssRttToSmx_SessCloseCmd s) @
          (if rte_expired e \<and> \<not> rte_retries e < 4 then [rtt_position s] else [])"
proof -
  define t where "t = tim_emx s"
  have t: "items (ssRttToEmx_Event t) = []"
    "items (tim_soEVe_Event t) = items (tim_soEVe_Event s) @ items (ssRttToEmx_Event s)"
    "ssRttToSmx_SessCloseCmd t = ssRttToSmx_SessCloseCmd s"
    "RETRANSMIT_TIMER_TABLE t = RETRANSMIT_TIMER_TABLE s" "rtt_position t = rtt_position s"
    "rtt_quiet t"
    using tim_emx_quiet [OF assms] by (simp_all add: t_def)
  then have "\<not> sfull (ssRttToEmx_Event t)" by (simp add: rtt_quiet_def sfull_def)
  moreover obtain s' where "pRetransmitTimer t = Some s'" "rtt_position s' = rtt_next (rtt_position t)"
    "rtt_waitForWrite s' = rtt_waitForWrite t"
    "tim_siRXe_ReTxTimerCmd s' = tim_siRXe_ReTxTimerCmd t"
    "tim_siTXe_ReTxTimerCmd s' = tim_siTXe_ReTxTimerCmd t"
    "depth (ssRttToEmx_Event s') = depth (ssRttToEmx_Event t)"
    "ssPbtToEmx_Event s' = ssPbtToEmx_Event t" "tim_soEVe_Event s' = tim_soEVe_Event t"
    "\<not> sfull (ssRttToEmx_Event t) \<Longrightarrow>
       (let e = RETRANSMIT_TIMER_TABLE t (rtt_position t) in
        RETRANSMIT_TIMER_TABLE s' = (RETRANSMIT_TIMER_TABLE t)(rtt_position t := rte_visit e) \<and>
        items (ssRttToEmx_Event s') = items (ssRttToEmx_Event t) @
          (if rte_expired e \<and> rte_retries e < 4
           then [Event_rt (rte_type e) (rtt_position t) (rte_retries e + 1)] else []) \<and>
        items (ssRttToSmx_SessCloseCmd s') = items (ssRttToSmx_SessCloseCmd t) @
          (if rte_expired e \<and> \<not> rte_retries e < 4 then [rtt_position t] else []))"
    by (rule rtt_idle_step' [of t]) (use t(6) in \<open>auto simp: rtt_quiet_def\<close>)
  ultimately show thesis
    using t sess_ok_rtt_next
    by (intro that [of s']) (auto simp: rtt_cycle_def rtt_quiet_def Let_def simp flip: t_def)
qed

lemma rtt_cycle_scan:
  assumes "rtt_quiet s"
  shows "unat (rtt_position s) < TOE_MAX_SESSIONS"
    "\<exists>s'. rtt_cycle s = Some s' \<and> rtt_quiet s'"
    "rtt_cycle s = Some s' \<Longrightarrow> unat (rtt_position s') =
       (if Suc (unat (rtt_position s)) = TOE_MAX_SESSIONS then 0 else Suc (unat (rtt_position s)))"
    "rtt_cycle s = Some s' \<Longrightarrow> i < TOE_MAX_SESSIONS \<Longrightarrow>
       RETRANSMIT_TIMER_TABLE s' (of_nat i) =
         (if i = unat (rtt_position s) then rte_visit (RETRANSMIT_TIMER_TABLE s (of_nat i))
          else RETRANSMIT_TIMER_TABLE s (of_nat i))"
proof -
  show "unat (rtt_position s) < TOE_MAX_SESSIONS"
    using assms by (simp add: rtt_quiet_def sess_ok_def)
  show "\<exists>s'. rtt_cycle s = Some s' \<and> rtt_quiet s'"
    by (rule rtt_cycle_quiet [OF assms]) blast
  show "unat (rtt_position s') =
       (if Suc (unat (rtt_position s)) = TOE_MAX_SESSIONS then 0 else Suc (unat (rtt_position s)))"
    if "rtt_cycle s = Some s'"
    by (rule rtt_cycle_quiet [OF assms])
      (use that assms in \<open>simp add: unat_rtt_next rtt_quiet_def\<close>)
  show "RETRANSMIT_TIMER_TABLE s' (of_nat i) =
         (if i = unat (rtt_position s) then rte_visit (RETRANSMIT_TIMER_TABLE s (of_nat i))
          else RETRANSMIT_TIMER_TABLE s (of_nat i))"
    if "rtt_cycle s = Some s'" "i < TOE_MAX_SESSIONS"
    by (rule rtt_cycle_quiet [OF assms]) (use that in \<open>auto simp: Let_def of_nat_unat_eq\<close>)
qed

interpretation rtt_events: scan TOE_MAX_SESSIONS rtt_quiet "\<lambda>s. unat (rtt_position s)"
    "\<lambda>s i. RETRANSMIT_TIMER_TABLE s (of_nat i)" rte_visit
    "\<lambda>e. rte_expired e \<and> rte_retries e < 4"
    "\<lambda>i e. Event_rt (rte_type e) (of_nat i) (rte_retries e + 1)"
    "\<lambda>s. items (tim_soEVe_Event s) @ items (ssRttToEmx_Event s)" rtt_cycle
proof (unfold_locales, goal_cases)
  case (5 s s')
  show ?case by (rule rtt_cycle_quiet [OF 5(1)]) (use 5(2) in \<open>simp add: Let_def\<close>)
qed (rule rtt_cycle_scan; assumption)+

interpretation rtt_closes: scan TOE_MAX_SESSIONS rtt_quiet "\<lambda>s. unat (rtt_position s)"
    "\<lambda>s i. RETRANSMIT_TIMER_TABLE s (of_nat i)" rte_visit
    "\<lambda>e. rte_expired e \<and> \<not> rte_retries e < 4" "\<lambda>i e. of_nat i"
    "\<lambda>s. items (ssRttToSmx_SessCloseCmd s)" rtt_cycle
proof (unfold_locales, goal_cases)
  case (5 s s')
  show ?case by (rule rtt_cycle_quiet [OF 5(1)]) (use 5(2) in \<open>simp add: Let_def\<close>)
qed (rule rtt_cycle_scan; assumption)+

lemma rte_visit_funpow:
  assumes "rte_active e"
  shows "rte_expired ((rte_visit ^^ unat (rte_time e)) e) \<and>
    rte_retries ((rte_visit ^^ unat (rte_time e)) e) = rte_retries e \<and>
    rte_type ((rte_visit ^^ unat (rte_time e)) e) = rte_type e"
proof -
  let ?r = "\<lambda>e. (rte_active e, rte_retries e, rte_type e)"
  let ?f = "(rte_visit ^^ unat (rte_time e)) e"
  have "unat (rte_time ?f) = unat (rte_time e) - unat (rte_time e) \<and> ?r ?f = ?r e"
    by (rule funpow_countdown) (use assms in \<open>auto simp: rte_visit_def\<close>)
  with assms show ?thesis by (simp add: rte_expired_def unat_eq_0)
qed

text \<open>The command of the Rx engine waits at most for two visits.\<close>

lemma rtt_write_step:
  assumes "rtt_waitForWrite s" "rrt_sessionID (rtt_rxeCmd s) \<noteq> rtt_prevPosition s"
    and "sess_ok (rrt_sessionID (rtt_rxeCmd s))"
  shows "let i = rrt_sessionID (rtt_rxeCmd s) in
    pRetransmitTimer s = Some (s\<lparr>RETRANSMIT_TIMER_TABLE := (RETRANSMIT_TIMER_TABLE s)
       (i := rtt_rxe_write (rtt_rxeCmd s) (RETRANSMIT_TIMER_TABLE s i)), rtt_waitForWrite := False\<rparr>)"
  using assms by (simp add: pRetransmitTimer_def Let_def)

definition rtt_done :: "RXeReTransTimerCmd \<Rightarrow> TIm \<Rightarrow> bool" where
  "rtt_done cmd s \<longleftrightarrow> \<not> rtt_waitForWrite s \<and>
     (let e = RETRANSMIT_TIMER_TABLE s (rrt_sessionID cmd) in
      rte_retries e = 0 \<and>
      (if rrt_command cmd = LOAD_TIMER then rte_time e = TIME_1s
       else rte_time e = 0 \<and> \<not> rte_active e))"

lemma rtt_done_write:
  assumes "rtt_waitForWrite s" "rtt_rxeCmd s = cmd" "rrt_sessionID cmd \<noteq> rtt_prevPosition s"
    and "sess_ok (rrt_sessionID cmd)"
  shows "\<exists>s'. pRetransmitTimer s = Some s' \<and> rtt_done cmd s'"
  using rtt_write_step [of s] assms
  by (auto simp: rtt_done_def rtt_rxe_write_def Let_def)

lemma rtt_done_wait:
  assumes "rtt_waitForWrite s" "rtt_rxeCmd s = cmd" "sess_ok (rrt_sessionID cmd)"
    and "items (tim_siTXe_ReTxTimerCmd s) = []" "sess_ok (rtt_position s)"
  shows "\<exists>n \<le> 3. \<exists>s'. steps pRetransmitTimer n s = Some s' \<and> rtt_done cmd s'"
proof (cases "rrt_sessionID cmd = rtt_prevPosition s")
  case False
  then obtain s' where "steps pRetransmitTimer 1 s = Some s'" "rtt_done cmd s'"
    using rtt_done_write [of s cmd] assms by auto
  then show ?thesis by (intro exI [of _ 1]) auto
next
  case True
  obtain t where t: "pRetransmitTimer s = Some t" "rtt_position t = rtt_next (rtt_position s)"
    "rtt_prevPosition t = rtt_position s" "rtt_waitForWrite t" "rtt_rxeCmd t = cmd"
    "items (tim_siTXe_ReTxTimerCmd t) = []"
    by (rule rtt_idle_step' [of s]) (use True assms in auto)
  show ?thesis
  proof (cases "rrt_sessionID cmd = rtt_position s")
    case False
    then obtain s' where "pRetransmitTimer t = Some s'" "rtt_done cmd s'"
      using rtt_done_write [of t cmd] assms t by auto
    then show ?thesis using t by (intro exI [of _ 2]) (auto simp: numeral_2_eq_2)
  next
    case eq: True
    obtain u where u: "pRetransmitTimer t = Some u" "rtt_prevPosition u = rtt_next (rtt_position s)"
      "rtt_waitForWrite u" "rtt_rxeCmd u = cmd"
      by (rule rtt_idle_step' [of t]) (use eq t assms sess_ok_rtt_next in auto)
    have "unat (rtt_next (rtt_position s)) \<noteq> unat (rtt_position s)"
      using unat_rtt_next [of "rtt_position s"] assms(5)
      by (auto simp: TOE_MAX_SESSIONS_def split: if_splits)
    then obtain s' where "pRetransmitTimer u = Some s'" "rtt_done cmd s'"
      using rtt_done_write [of u cmd] assms eq u by (metis (no_types))
    then show ?thesis using t u by (intro exI [of _ 3]) (auto simp: numeral_3_eq_3)
  qed
qed

section \<open>Properties\<close>

text \<open>C35. Retransmission timeouts: while no command arrives, an active timer with \<open>t\<close> ticks left
  expires within \<open>8 * (t + 1)\<close> cycles; a session that timed out fewer than four times sends
  the event of its last segment with the number of the retry to the event engine, and the fifth
  timeout in a row closes the session.\<close>

theorem rtt_timeout:
  assumes "rtt_quiet s" "sess_ok i" "e = RETRANSMIT_TIMER_TABLE s i" "rte_active e"
  shows "\<exists>s'. steps rtt_cycle (TOE_MAX_SESSIONS * Suc (unat (rte_time e))) s = Some s' \<and>
    (\<exists>evs cls. items (tim_soEVe_Event s') @ items (ssRttToEmx_Event s') =
        items (tim_soEVe_Event s) @ items (ssRttToEmx_Event s) @ evs \<and>
      items (ssRttToSmx_SessCloseCmd s') = items (ssRttToSmx_SessCloseCmd s) @ cls \<and>
      (if rte_retries e < 4 then Event_rt (rte_type e) i (rte_retries e + 1) \<in> set evs
       else i \<in> set cls))"
proof -
  let ?n = "unat (rte_time e)"
  have e: "RETRANSMIT_TIMER_TABLE s (of_nat (unat i)) = e" "unat i < TOE_MAX_SESSIONS"
    using assms(2,3) by (simp_all add: sess_ok_def)
  note f = rte_visit_funpow [OF assms(4)]
  obtain s' where s': "steps rtt_cycle (TOE_MAX_SESSIONS * Suc ?n) s = Some s'"
    using rtt_events.steps_ok [OF assms(1)] by blast
  obtain evs cls where
    "items (tim_soEVe_Event s') @ items (ssRttToEmx_Event s') =
       items (tim_soEVe_Event s) @ items (ssRttToEmx_Event s) @ evs"
    "items (ssRttToSmx_SessCloseCmd s') = items (ssRttToSmx_SessCloseCmd s) @ cls"
    using rtt_events.out_grows [OF assms(1) s'] rtt_closes.out_grows [OF assms(1) s'] by auto
  then show ?thesis
    using s' rtt_events.fires_within [OF assms(1) e(2), of ?n]
      rtt_closes.fires_within [OF assms(1) e(2), of ?n] f e
    by (cases "rte_retries e < 4") auto
qed

theorem rtt_timeout_witness:
  "let s = tim_reset\<lparr>RETRANSMIT_TIMER_TABLE := (\<lambda>_. rte_zero)
       (2 := \<lparr>rte_time = 1, rte_retries = 4, rte_active = True, rte_type = TX_EVENT\<rparr>)\<rparr>
   in \<exists>s'. steps rtt_cycle 16 s = Some s' \<and> 2 \<in> set (items (ssRttToSmx_SessCloseCmd s'))"
proof -
  let ?s = "tim_reset\<lparr>RETRANSMIT_TIMER_TABLE := (\<lambda>_. rte_zero)
       (2 := \<lparr>rte_time = 1, rte_retries = 4, rte_active = True, rte_type = TX_EVENT\<rparr>)\<rparr>"
  have "rtt_quiet ?s" by (simp add: rtt_quiet_def tim_reset_def sess_ok_iff)
  from rtt_timeout [OF this, of 2] show ?thesis
    by (auto simp: TOE_MAX_SESSIONS_def sess_ok_iff tim_reset_def)
qed

text \<open>Commands of the Rx engine are not lost in the race with the scan: a load or stop command
  is applied within four cycles when the Tx engine sends none; then the session has no retries,
  and its timer runs for one second or is stopped.\<close>

theorem rtt_command_applied:
  assumes "\<not> rtt_waitForWrite s" "tim_siRXe_ReTxTimerCmd s = Stream d (cmd # cmds)"
    and "items (tim_siTXe_ReTxTimerCmd s) = []" "sess_ok (rtt_position s)"
    and "sess_ok (rrt_sessionID cmd)"
  shows "\<exists>n \<le> 4. \<exists>s'. steps pRetransmitTimer n s = Some s' \<and> \<not> rtt_waitForWrite s' \<and>
     (let e = RETRANSMIT_TIMER_TABLE s' (rrt_sessionID cmd) in
      rte_retries e = 0 \<and>
      (if rrt_command cmd = LOAD_TIMER then rte_time e = TIME_1s
       else rte_time e = 0 \<and> \<not> rte_active e))"
proof -
  define t where "t = s\<lparr>tim_siRXe_ReTxTimerCmd := Stream d cmds, rtt_rxeCmd := cmd,
    rtt_waitForWrite := True\<rparr>"
  have "pRetransmitTimer s = Some t"
    using assms(1,2) by (simp add: pRetransmitTimer_def t_def stream_simps)
  moreover obtain n s' where "n \<le> 3" "steps pRetransmitTimer n t = Some s'" "rtt_done cmd s'"
    using rtt_done_wait [of t cmd] assms by (auto simp: t_def)
  ultimately show ?thesis
    by (intro exI [of _ "Suc n"]) (auto simp: rtt_done_def)
qed

theorem rtt_command_applied_witness:
  "let cmd = \<lparr>rrt_sessionID = 0, rrt_command = STOP_TIMER\<rparr>;
       s = tim_reset\<lparr>tim_siRXe_ReTxTimerCmd := Stream 2 [cmd],
             RETRANSMIT_TIMER_TABLE := (\<lambda>_. rte_zero\<lparr>rte_time := 5, rte_active := True\<rparr>)\<rparr>
   in \<exists>n \<le> 4. \<exists>s'. steps pRetransmitTimer n s = Some s' \<and>
        \<not> rte_active (RETRANSMIT_TIMER_TABLE s' 0)"
proof -
  let ?cmd = "\<lparr>rrt_sessionID = 0, rrt_command = STOP_TIMER\<rparr>"
  let ?s = "tim_reset\<lparr>tim_siRXe_ReTxTimerCmd := Stream 2 [?cmd],
             RETRANSMIT_TIMER_TABLE := (\<lambda>_. rte_zero\<lparr>rte_time := 5, rte_active := True\<rparr>)\<rparr>"
  from rtt_command_applied [of ?s 2 ?cmd "[]"] show ?thesis
    by (auto simp: tim_reset_def sess_ok_iff Let_def)
qed

lemma rtt_idle_reset: "sess_ok i \<Longrightarrow>
    pRetransmitTimer (tim_reset\<lparr>rtt_position := i, rtt_prevPosition := j\<rparr>) =
      Some (tim_reset\<lparr>rtt_position := rtt_next i, rtt_prevPosition := i\<rparr>)"
proof -
  have "(\<lambda>_. rte_zero)(i := rte_zero) = (\<lambda>_. rte_zero)" by auto
  moreover assume "sess_ok i"
  ultimately show ?thesis
    by (simp add: pRetransmitTimer_def rtt_visit_def tim_reset_def rtt_next_def sempty_def
        stream_simps) (simp add: rte_zero_def)
qed

text \<open>The skip of five entries can leave the table: when the Tx engine sets the timer of a
  session that the scan is about to reach (at most two entries ahead) and the position is at
  least three, the position moves past the last entry and the next cycle without a command
  accesses the table out of its bounds.\<close>

theorem rtt_skip_out_of_bounds:
  assumes "\<not> rtt_waitForWrite s" "items (tim_siRXe_ReTxTimerCmd s) = []"
    and "tim_siTXe_ReTxTimerCmd s = Stream d [cmd]" "sess_ok (trt_sessionID cmd)"
    and "3 \<le> uint (rtt_position s)" "uint (rtt_position s) \<le> uint (trt_sessionID cmd)"
    and "uint (trt_sessionID cmd) < uint (rtt_position s) + 3"
  shows "(\<exists>s'. pRetransmitTimer s = Some s' \<and> \<not> sess_ok (rtt_position s')) \<and>
     steps pRetransmitTimer 2 s = None"
proof -
  let ?p = "rtt_position s" and ?i = "trt_sessionID cmd"
  have i: "unat ?i < 8" using assms(4) by (simp add: sess_ok_iff)
  then have p: "unat ?p \<le> unat ?i" "3 \<le> unat ?p"
    using assms(5,6) by (simp_all add: uint_nat del: of_nat_unat)
  then have "unat (?p + 5) = unat ?p + 5"
    using i by (simp add: unat_word_ariths)
  then have n: "\<not> sess_ok (?p + 5)" using p by (simp add: sess_ok_iff)
  have "rtt_skip ?i ?p = ?p + 5"
    using assms(6,7) by (simp add: rtt_skip_def word_le_def)
  then have step: "pRetransmitTimer s = Some (s\<lparr>tim_siTXe_ReTxTimerCmd := Stream d [],
      rtt_position := ?p + 5,
      RETRANSMIT_TIMER_TABLE := (RETRANSMIT_TIMER_TABLE s)
        (?i := rtt_txe_set (trt_type cmd) (RETRANSMIT_TIMER_TABLE s ?i)), rtt_prevPosition := ?i\<rparr>)"
    using assms(1-4) by (simp add: pRetransmitTimer_def sempty_def stream_simps Let_def)
  then show ?thesis
    using n assms(1,2)
    by (simp add: numeral_2_eq_2 pRetransmitTimer_def sempty_def stream_simps Let_def
        in_bounds_def)
qed

theorem rtt_skip_out_of_bounds_witness:
  "\<exists>t. steps pRetransmitTimer 3 tim_reset = Some t \<and>
     steps pRetransmitTimer 2 (t\<lparr>tim_siTXe_ReTxTimerCmd :=
       Stream 2 [\<lparr>trt_sessionID = 3, trt_type = TX_EVENT\<rparr>]\<rparr>) = None"
proof -
  let ?t = "tim_reset\<lparr>rtt_position := 3, rtt_prevPosition := 2\<rparr>"
  have nexts: "rtt_next 0 = 1" "rtt_next 1 = 2" "rtt_next 2 = 3"
    by (simp_all add: rtt_next_def TOE_MAX_SESSIONS_def word_le_nat_alt)
  have oks: "sess_ok (0 :: SessionId)" "sess_ok (1 :: SessionId)" "sess_ok (2 :: SessionId)"
    by (simp_all add: sess_ok_iff)
  have "tim_reset = tim_reset\<lparr>rtt_position := 0, rtt_prevPosition := 0\<rparr>"
    by (simp add: tim_reset_def)
  then have "steps pRetransmitTimer 3 tim_reset =
      steps pRetransmitTimer 3 (tim_reset\<lparr>rtt_position := 0, rtt_prevPosition := 0\<rparr>)"
    by (rule arg_cong)
  also have "\<dots> = Some ?t"
    by (simp add: numeral_3_eq_3 rtt_idle_reset nexts oks)
  finally have "steps pRetransmitTimer 3 tim_reset = Some ?t" .
  moreover have "steps pRetransmitTimer 2 (?t\<lparr>tim_siTXe_ReTxTimerCmd :=
       Stream 2 [\<lparr>trt_sessionID = 3, trt_type = TX_EVENT\<rparr>]\<rparr>) = None"
    using rtt_skip_out_of_bounds [of "?t\<lparr>tim_siTXe_ReTxTimerCmd :=
       Stream 2 [\<lparr>trt_sessionID = 3, trt_type = TX_EVENT\<rparr>]\<rparr>" 2
       "\<lparr>trt_sessionID = 3, trt_type = TX_EVENT\<rparr>"]
    by (simp add: tim_reset_def sess_ok_iff)
  ultimately show ?thesis by blast
qed

text \<open>The scan of the close timer leaves its table: without a command it reaches the index
  \<open>TOE_MAX_SESSIONS\<close>, one past the last entry, and reads there, within nine cycles.\<close>

theorem clt_scan_out_of_bounds:
  assumes "\<not> clt_waitForWrite s" "items (tim_siRXe_CloseTimer s) = []"
    and "clt_currSessId s = of_nat (TOE_MAX_SESSIONS - n)" "n \<le> TOE_MAX_SESSIONS"
  shows "(\<exists>s'. steps pCloseTimer n s = Some s' \<and> clt_currSessId s' = of_nat TOE_MAX_SESSIONS) \<and>
     steps pCloseTimer (Suc n) s = None"
proof -
  have *: "\<exists>s'. steps pCloseTimer n s = Some s' \<and> clt_currSessId s' = of_nat TOE_MAX_SESSIONS \<and>
      pCloseTimer s' = None"
    using assms
  proof (induction n arbitrary: s)
    case 0
    have "\<not> sess_ok (of_nat TOE_MAX_SESSIONS :: SessionId)"
      by (simp add: sess_ok_iff TOE_MAX_SESSIONS_def)
    with 0 show ?case by (simp add: pCloseTimer_def Let_def in_bounds_def)
  next
    case (Suc n)
    let ?i = "clt_currSessId s"
    have u: "unat ?i = TOE_MAX_SESSIONS - Suc n"
      using Suc.prems(3) by (simp add: TOE_MAX_SESSIONS_def unsigned_of_nat take_bit_nat_eq_self)
    then have ok: "sess_ok ?i" "?i \<noteq> of_nat TOE_MAX_SESSIONS"
      using Suc.prems(4) by (auto simp: sess_ok_iff TOE_MAX_SESSIONS_def)
    have "TOE_MAX_SESSIONS - n = Suc (TOE_MAX_SESSIONS - Suc n)"
      using Suc.prems(4) by simp
    then have next_id: "?i + 1 = of_nat (TOE_MAX_SESSIONS - n)"
      by (simp add: Suc.prems(3) add.commute)
    obtain t where t: "pCloseTimer s = Some t" "\<not> clt_waitForWrite t"
      "items (tim_siRXe_CloseTimer t) = []" "clt_currSessId t = ?i + 1"
      using Suc.prems ok by (auto simp: pCloseTimer_def Let_def)
    show ?case
      using Suc.IH [OF t(2,3)] t Suc.prems(4) next_id by simp
  qed
  then obtain s' where s': "steps pCloseTimer n s = Some s'"
    "clt_currSessId s' = of_nat TOE_MAX_SESSIONS" "pCloseTimer s' = None" by blast
  have "steps pCloseTimer (n + 1) s = None" by (simp only: steps_add s' option.case) (simp add: s')
  with s' show ?thesis by simp
qed

theorem clt_scan_out_of_bounds_witness: "steps pCloseTimer 9 tim_reset = None"
  using clt_scan_out_of_bounds [of tim_reset 8]
  by (simp add: tim_reset_def TOE_MAX_SESSIONS_def numeral_eq_Suc)

text \<open>The probe timer is disabled: from a table without an active entry, whatever set and clear
  commands wait, its process never sends an event and no entry becomes active.\<close>

theorem pbt_never_fires:
  assumes "steps pProbeTimer n s = Some s'" "\<forall>i. \<not> pte_active (PROBE_TIMER_TABLE s i)"
  shows "ssPbtToEmx_Event s' = ssPbtToEmx_Event s \<and>
     (\<forall>i. \<not> pte_active (PROBE_TIMER_TABLE s' i))"
proof (rule steps_invariant [of "\<lambda>t. ssPbtToEmx_Event t = ssPbtToEmx_Event s \<and>
      (\<forall>i. \<not> pte_active (PROBE_TIMER_TABLE t i))" pProbeTimer s n s'])
  fix t t' assume "ssPbtToEmx_Event t = ssPbtToEmx_Event s \<and>
      (\<forall>i. \<not> pte_active (PROBE_TIMER_TABLE t i))" "pProbeTimer t = Some t'"
  then show "ssPbtToEmx_Event t' = ssPbtToEmx_Event s \<and>
      (\<forall>i. \<not> pte_active (PROBE_TIMER_TABLE t' i))"
    by (auto simp: pProbeTimer_def pbt_visit_def Let_def split: option.splits if_splits)
qed (use assms in auto)

theorem pbt_never_fires_witness:
  "\<exists>s'. steps pProbeTimer (Suc (Suc 0)) (tim_reset\<lparr>tim_siTXe_SetProbeTimer := Stream 2 [5]\<rparr>) = Some s' \<and>
     \<not> pte_active (PROBE_TIMER_TABLE s' 5) \<and> items (ssPbtToEmx_Event s') = []"
proof -
  let ?s = "tim_reset\<lparr>tim_siTXe_SetProbeTimer := Stream 2 [5]\<rparr>"
  obtain s' where s': "steps pProbeTimer (Suc (Suc 0)) ?s = Some s'"
    by (simp add: pProbeTimer_def tim_reset_def stream_simps sess_ok_iff Let_def)
  have "\<not> pte_active (PROBE_TIMER_TABLE s' 5) \<and> items (ssPbtToEmx_Event s') = []"
    using pbt_never_fires [OF s'] by (simp add: tim_reset_def)
  with s' show ?thesis by blast
qed

end
