(* ===== verification/Toe_Cam.thy ===== *)
theory Toe_Cam
  imports Toe_Types "HOL-Library.Multiset"
begin

text \<open>
  The content-addressable memory of the sessions (CAM), \<open>NTS/toecam/src/toecam.cpp\<close>: eight
  key-value pairs \<open>CamArray0\<close> to \<open>CamArray7\<close>, searched in that order, behind a process that
  serves one lookup or update at a time.  The theory states the contract of a session memory as
  a locale over a finite map and interprets it on the functions of the code; it also shows what
  they do outside that contract, when a key is inserted twice or the memory is full.
\<close>

section \<open>The array\<close>

record KeyValuePair =
  kvp_key :: FourTuple
  kvp_value :: RtlSessId
  kvp_valid :: bool

text \<open>The variables \<open>CamArray0\<close>, ..., \<open>CamArray7\<close> are a list of eight pairs; each chain of \<open>else if\<close>
  is a recursion along it.  \<open>camLookup\<close> returns the value it stores in its reference parameter.\<close>

fun camLookup :: "FourTuple \<Rightarrow> KeyValuePair list \<Rightarrow> RtlSessId option" where
  "camLookup key [] = None"
| "camLookup key (c # cs) =
     (if kvp_key c = key \<and> kvp_valid c then Some (kvp_value c) else camLookup key cs)"

text \<open>\<open>camInsert\<close> and \<open>camDelete\<close> return the array and whether they found an entry.\<close>

fun camInsert :: "KeyValuePair \<Rightarrow> KeyValuePair list \<Rightarrow> KeyValuePair list \<times> bool" where
  "camInsert kVP [] = ([], False)"
| "camInsert kVP (c # cs) =
     (if \<not> kvp_valid c then (kVP # cs, True)
      else (let (cs', ok) = camInsert kVP cs in (c # cs', ok)))"

fun camDelete :: "FourTuple \<Rightarrow> KeyValuePair list \<Rightarrow> KeyValuePair list \<times> bool" where
  "camDelete key [] = ([], False)"
| "camDelete key (c # cs) =
     (if kvp_key c = key \<and> kvp_valid c then (c\<lparr>kvp_valid := False\<rparr> # cs, True)
      else (let (cs', ok) = camDelete key cs in (c # cs', ok)))"

definition CAM_SIZE :: nat where
  "CAM_SIZE = 8"

definition cam_keys :: "KeyValuePair list \<Rightarrow> FourTuple list" where
  "cam_keys cs = map kvp_key (filter kvp_valid cs)"

definition cam_wf :: "KeyValuePair list \<Rightarrow> bool" where
  "cam_wf cs \<longleftrightarrow> length cs = CAM_SIZE \<and> distinct (cam_keys cs)"

lemma cam_keys_simps [simp]:
  "cam_keys [] = []"
  "cam_keys (c # cs) = (if kvp_valid c then kvp_key c # cam_keys cs else cam_keys cs)"
  by (simp_all add: cam_keys_def)

lemma camLookup_None: "camLookup k cs = None \<longleftrightarrow> k \<notin> set (cam_keys cs)"
  by (induction cs) auto

lemma dom_camLookup: "dom (\<lambda>k. camLookup k cs) = set (cam_keys cs)"
  using camLookup_None by (auto simp: dom_def)

lemma card_dom_camLookup: "cam_wf cs \<Longrightarrow> card (dom (\<lambda>k. camLookup k cs)) = length (cam_keys cs)"
  by (simp add: dom_camLookup cam_wf_def distinct_card)

lemma camInsert_found: "snd (camInsert p cs) \<longleftrightarrow> length (cam_keys cs) < length cs"
proof (induction cs)
  case (Cons c cs)
  have "length (cam_keys cs) \<le> length cs" by (simp add: cam_keys_def)
  with Cons show ?case by (auto simp: Let_def split: prod.splits)
qed simp

lemma camInsert_full: "\<not> snd (camInsert p cs) \<Longrightarrow> fst (camInsert p cs) = cs"
  by (induction cs) (auto simp: Let_def split: prod.splits if_splits)

lemma camInsert_length [simp]: "length (fst (camInsert p cs)) = length cs"
  by (induction cs) (auto simp: Let_def split: prod.splits)

lemma camInsert_keys: "kvp_valid p \<Longrightarrow> snd (camInsert p cs) \<Longrightarrow>
    mset (cam_keys (fst (camInsert p cs))) = add_mset (kvp_key p) (mset (cam_keys cs))"
  by (induction cs) (auto simp: Let_def split: prod.splits if_splits)

lemma camInsert_lookup: "kvp_valid p \<Longrightarrow> snd (camInsert p cs) \<Longrightarrow> camLookup (kvp_key p) cs = None \<Longrightarrow>
    camLookup k (fst (camInsert p cs)) = (if k = kvp_key p then Some (kvp_value p) else camLookup k cs)"
  by (induction cs) (auto simp: Let_def split: prod.splits if_splits)

lemma camDelete_length [simp]: "length (fst (camDelete k cs)) = length cs"
  by (induction cs) (auto simp: Let_def split: prod.splits)

lemma camDelete_found: "snd (camDelete k cs) \<longleftrightarrow> camLookup k cs \<noteq> None"
  by (induction cs) (auto simp: Let_def split: prod.splits)

lemma camDelete_keys: "cam_keys (fst (camDelete k cs)) = remove1 k (cam_keys cs)"
  by (induction cs) (auto simp: Let_def split: prod.splits)

lemma camDelete_lookup: "distinct (cam_keys cs) \<Longrightarrow>
    camLookup k' (fst (camDelete k cs)) = (if k' = k then None else camLookup k' cs)"
proof (induction cs)
  case (Cons c cs)
  then show ?case
    using camLookup_None [of k cs] by (auto simp: Let_def split: prod.splits if_splits)
qed simp

section \<open>The contract of a session memory\<close>

text \<open>
  A client that inserts only keys the memory does not hold, and only while there is room, sees a
  finite map.  \<open>mem\<close> is that map.
\<close>

datatype ('k, 'v) mem_op = MemInsert 'k 'v | MemDelete 'k

fun map_op :: "('k, 'v) mem_op \<Rightarrow> ('k \<rightharpoonup> 'v) \<Rightarrow> ('k \<rightharpoonup> 'v)" where
  "map_op (MemInsert k v) m = m(k \<mapsto> v)"
| "map_op (MemDelete k) m = m(k := None)"

fun ops_ok :: "nat \<Rightarrow> ('k, 'v) mem_op list \<Rightarrow> ('k \<rightharpoonup> 'v) \<Rightarrow> bool" where
  "ops_ok n [] m \<longleftrightarrow> True"
| "ops_ok n (MemInsert k v # ops) m \<longleftrightarrow>
     k \<notin> dom m \<and> card (dom m) < n \<and> ops_ok n ops (m(k \<mapsto> v))"
| "ops_ok n (MemDelete k # ops) m \<longleftrightarrow> ops_ok n ops (m(k := None))"

locale session_memory =
  fixes cap :: nat
    and inv :: "'c \<Rightarrow> bool"
    and lookup :: "'k \<Rightarrow> 'c \<Rightarrow> 'v option"
    and insert :: "'k \<Rightarrow> 'v \<Rightarrow> 'c \<Rightarrow> 'c \<times> bool"
    and delete :: "'k \<Rightarrow> 'c \<Rightarrow> 'c \<times> bool"
  assumes insert_room: "inv c \<Longrightarrow> lookup k c = None \<Longrightarrow> card (dom (\<lambda>k. lookup k c)) < cap \<Longrightarrow>
      inv (fst (insert k v c)) \<and> snd (insert k v c) \<and>
      (\<forall>k'. lookup k' (fst (insert k v c)) = (if k' = k then Some v else lookup k' c))"
    and insert_full: "inv c \<Longrightarrow> cap \<le> card (dom (\<lambda>k. lookup k c)) \<Longrightarrow> insert k v c = (c, False)"
    and delete_law: "inv c \<Longrightarrow>
      inv (fst (delete k c)) \<and> (snd (delete k c) \<longleftrightarrow> lookup k c \<noteq> None) \<and>
      (\<forall>k'. lookup k' (fst (delete k c)) = (if k' = k then None else lookup k' c))"
begin

definition mem :: "'c \<Rightarrow> 'k \<rightharpoonup> 'v" where
  "mem c = (\<lambda>k. lookup k c)"

definition run_op :: "('k, 'v) mem_op \<Rightarrow> 'c \<Rightarrow> 'c" where
  "run_op op c = (case op of MemInsert k v \<Rightarrow> fst (insert k v c) | MemDelete k \<Rightarrow> fst (delete k c))"

lemma mem_insert:
  "inv c \<Longrightarrow> k \<notin> dom (mem c) \<Longrightarrow> card (dom (mem c)) < cap \<Longrightarrow>
    mem (fst (insert k v c)) = (mem c)(k \<mapsto> v) \<and> inv (fst (insert k v c))"
  using insert_room [of c k v] by (auto simp: mem_def domIff)

lemma mem_delete: "inv c \<Longrightarrow> mem (fst (delete k c)) = (mem c)(k := None) \<and> inv (fst (delete k c))"
  using delete_law [of c k] by (auto simp: mem_def)

lemma runs_refine: "inv c \<Longrightarrow> ops_ok cap ops (mem c) \<Longrightarrow>
    mem (fold run_op ops c) = fold map_op ops (mem c) \<and> inv (fold run_op ops c)"
proof (induction ops arbitrary: c)
  case (Cons op ops)
  have "mem (run_op op c) = map_op op (mem c)" "inv (run_op op c)"
    using Cons.prems mem_insert [of c] mem_delete [of c]
    by (cases op; simp add: run_op_def)+
  moreover have "ops_ok cap ops (map_op op (mem c))"
    using Cons.prems(2) by (cases op) auto
  ultimately show ?case using Cons.IH by simp
qed simp

lemma insert_delete: "inv c \<Longrightarrow> k \<notin> dom (mem c) \<Longrightarrow> card (dom (mem c)) < cap \<Longrightarrow>
    mem (fst (delete k (fst (insert k v c)))) = mem c"
  using mem_insert [of c k v] mem_delete [of "fst (insert k v c)" k]
  by (auto simp: domIff fun_upd_idem)

end

definition cam_insert :: "FourTuple \<Rightarrow> RtlSessId \<Rightarrow> KeyValuePair list \<Rightarrow> KeyValuePair list \<times> bool" where
  "cam_insert k v cs = camInsert \<lparr>kvp_key = k, kvp_value = v, kvp_valid = True\<rparr> cs"

interpretation cam: session_memory CAM_SIZE cam_wf camLookup cam_insert camDelete
proof
  fix c :: "KeyValuePair list" and k :: FourTuple and v :: RtlSessId
  assume wf: "cam_wf c"
  let ?p = "\<lparr>kvp_key = k, kvp_value = v, kvp_valid = True\<rparr>"
  show "cam_wf (fst (cam_insert k v c)) \<and> snd (cam_insert k v c) \<and>
      (\<forall>k'. camLookup k' (fst (cam_insert k v c)) = (if k' = k then Some v else camLookup k' c))"
    if "camLookup k c = None" "card (dom (\<lambda>k. camLookup k c)) < CAM_SIZE"
  proof -
    have found: "snd (camInsert ?p c)"
      using that(2) wf camInsert_found [of ?p c] card_dom_camLookup [OF wf] by (simp add: cam_wf_def)
    have "mset (cam_keys (fst (camInsert ?p c))) = mset (k # cam_keys c)"
      using camInsert_keys [OF _ found] by simp
    then have "distinct (cam_keys (fst (camInsert ?p c)))"
      using wf that(1) camLookup_None [of k c] mset_eq_imp_distinct_iff [of _ "k # cam_keys c"]
      by (auto simp: cam_wf_def)
    then show ?thesis
      using found camInsert_lookup [OF _ found] that(1) wf by (simp add: cam_insert_def cam_wf_def)
  qed
  show "cam_insert k v c = (c, False)" if "CAM_SIZE \<le> card (dom (\<lambda>k. camLookup k c))"
    using that wf camInsert_found [of ?p c] camInsert_full [of ?p c] card_dom_camLookup [OF wf]
    by (cases "camInsert ?p c") (auto simp: cam_insert_def cam_wf_def)
  show "cam_wf (fst (camDelete k c)) \<and> (snd (camDelete k c) \<longleftrightarrow> camLookup k c \<noteq> None) \<and>
      (\<forall>k'. camLookup k' (fst (camDelete k c)) = (if k' = k then None else camLookup k' c))"
    using wf camDelete_found [of k c] camDelete_lookup [of c _ k]
    by (auto simp: cam_wf_def camDelete_keys)
qed

section \<open>The process\<close>

definition MAX_CAM_LATENCY :: nat where
  "MAX_CAM_LATENCY = 0"

datatype cam_state = CAM_WAIT_4_REQ | CAM_LOOKUP_REP | CAM_UPDATE_REP

record CAM =
  siTOE_SssLkpReq :: "CamSessionLookupRequest stream"
  soTOE_SssLkpRep :: "CamSessionLookupReply stream"
  siTOE_SssUpdReq :: "CamSessionUpdateRequest stream"
  soTOE_SssUpdRep :: "CamSessionUpdateReply stream"
  poMMIO_CamReady :: bool
  CamArray :: "KeyValuePair list"
  cam_fsmState :: cam_state
  cam_startupDelay :: nat
  cam_request :: CamSessionLookupRequest
  cam_update :: CamSessionUpdateRequest
  cam_idleCnt :: nat

definition toecam :: "'a CAM_scheme \<Rightarrow> 'a CAM_scheme" where
  "toecam s =
     (if cam_startupDelay s \<noteq> 0 then
        s\<lparr>poMMIO_CamReady := False, cam_startupDelay := cam_startupDelay s - 1\<rparr>
      else
        (let s = s\<lparr>poMMIO_CamReady := True\<rparr> in
         case cam_fsmState s of
           CAM_WAIT_4_REQ \<Rightarrow>
             (case sread (siTOE_SssLkpReq s) of
                Some (rq, si) \<Rightarrow>
                  s\<lparr>siTOE_SssLkpReq := si, cam_request := rq, cam_idleCnt := MAX_CAM_LATENCY,
                    cam_fsmState := CAM_LOOKUP_REP\<rparr>
              | None \<Rightarrow>
                  (case sread (siTOE_SssUpdReq s) of
                     Some (up, si) \<Rightarrow>
                       s\<lparr>siTOE_SssUpdReq := si, cam_update := up, cam_idleCnt := MAX_CAM_LATENCY,
                         cam_fsmState := CAM_UPDATE_REP\<rparr>
                   | None \<Rightarrow> s))
         | CAM_LOOKUP_REP \<Rightarrow>
             (if 0 < cam_idleCnt s then s\<lparr>cam_idleCnt := cam_idleCnt s - 1\<rparr>
              else
                (let rep = (case camLookup (clq_key (cam_request s)) (CamArray s) of
                       Some v \<Rightarrow> \<lparr>clr_sessionID = v, clr_source = clq_source (cam_request s),
                                   clr_hit = True\<rparr>
                     | None \<Rightarrow> \<lparr>clr_sessionID = 0, clr_source = clq_source (cam_request s),
                                 clr_hit = False\<rparr>)
                 in s\<lparr>soTOE_SssLkpRep := swrite (soTOE_SssLkpRep s) rep,
                      cam_fsmState := CAM_WAIT_4_REQ\<rparr>))
         | CAM_UPDATE_REP \<Rightarrow>
             (if 0 < cam_idleCnt s then s\<lparr>cam_idleCnt := cam_idleCnt s - 1\<rparr>
              else
                (let up = cam_update s;
                     s = (if cuq_op up = INSERT
                          then s\<lparr>CamArray := fst (camInsert \<lparr>kvp_key = cuq_key up,
                                   kvp_value = cuq_value up, kvp_valid = True\<rparr> (CamArray s))\<rparr>
                          else s\<lparr>CamArray := fst (camDelete (cuq_key up) (CamArray s))\<rparr>)
                 in s\<lparr>soTOE_SssUpdRep := swrite (soTOE_SssUpdRep s)
                        \<lparr>cur_sessionID = cuq_value up, cur_source = cuq_source up,
                         cur_op = cuq_op up\<rparr>,
                      cam_fsmState := CAM_WAIT_4_REQ\<rparr>))))"

definition cam_reset :: "KeyValuePair list \<Rightarrow> CAM" where
  "cam_reset cs = \<lparr>
     siTOE_SssLkpReq = Stream 2 [], soTOE_SssLkpRep = Stream 2 [], siTOE_SssUpdReq = Stream 2 [],
     soTOE_SssUpdRep = Stream 2 [], poMMIO_CamReady = False, CamArray = cs,
     cam_fsmState = CAM_WAIT_4_REQ, cam_startupDelay = 100,
     cam_request = \<lparr>clq_key = \<lparr>myIp = 0, theirIp = 0, myPort = 0, theirPort = 0\<rparr>,
       clq_source = FROM_RXe\<rparr>,
     cam_update = \<lparr>cuq_key = \<lparr>myIp = 0, theirIp = 0, myPort = 0, theirPort = 0\<rparr>, cuq_value = 0,
       cuq_source = FROM_RXe, cuq_op = INSERT\<rparr>,
     cam_idleCnt = 0\<rparr>"

text \<open>The empty memory.\<close>

definition cam_empty :: "KeyValuePair list" where
  "cam_empty = replicate CAM_SIZE \<lparr>kvp_key = \<lparr>myIp = 0, theirIp = 0, myPort = 0, theirPort = 0\<rparr>,
     kvp_value = 0, kvp_valid = False\<rparr>"

definition cam_op :: "(FourTuple, RtlSessId) mem_op \<Rightarrow> KeyValuePair list \<Rightarrow> KeyValuePair list" where
  "cam_op op cs = (case op of
      MemInsert k v \<Rightarrow> fst (camInsert \<lparr>kvp_key = k, kvp_value = v, kvp_valid = True\<rparr> cs)
    | MemDelete k \<Rightarrow> fst (camDelete k cs))"

lemma cam_run_op: "cam.run_op = cam_op"
  by (intro ext) (simp add: cam.run_op_def cam_op_def cam_insert_def split: mem_op.splits)

lemma cam_empty [simp]: "cam_wf cam_empty" "camLookup k cam_empty = None"
  by (simp_all add: cam_wf_def cam_empty_def cam_keys_def camLookup_None)

lemma toecam_lookup:
  assumes "cam_startupDelay s = 0" "cam_fsmState s = CAM_WAIT_4_REQ"
    and "siTOE_SssLkpReq s = Stream d [\<lparr>clq_key = k, clq_source = src\<rparr>]"
  shows "items (soTOE_SssLkpRep ((toecam ^^ Suc (Suc MAX_CAM_LATENCY)) s)) =
     items (soTOE_SssLkpRep s) @
     [\<lparr>clr_sessionID = (case camLookup k (CamArray s) of Some v \<Rightarrow> v | None \<Rightarrow> 0), clr_source = src,
       clr_hit = (camLookup k (CamArray s) \<noteq> None)\<rparr>]"
  using assms
  by (simp add: toecam_def MAX_CAM_LATENCY_def stream_simps Let_def split: option.splits)

lemma toecam_insert:
  assumes "cam_startupDelay s = 0" "cam_fsmState s = CAM_WAIT_4_REQ"
    and "items (siTOE_SssLkpReq s) = []" "siTOE_SssUpdReq s = Stream d (up # ups)"
    and "cuq_op up = INSERT"
  shows "(toecam ^^ Suc (Suc MAX_CAM_LATENCY)) s = s\<lparr>
     poMMIO_CamReady := True, siTOE_SssUpdReq := Stream d ups, cam_update := up, cam_idleCnt := 0,
     CamArray := fst (camInsert \<lparr>kvp_key = cuq_key up, kvp_value = cuq_value up, kvp_valid = True\<rparr>
       (CamArray s)),
     soTOE_SssUpdRep := swrite (soTOE_SssUpdRep s)
       \<lparr>cur_sessionID = cuq_value up, cur_source = cuq_source up, cur_op = INSERT\<rparr>,
     cam_fsmState := CAM_WAIT_4_REQ\<rparr>"
  using assms
  by (simp add: toecam_def MAX_CAM_LATENCY_def stream_simps Let_def)

section \<open>Properties\<close>

text \<open>C36. The session memory is a finite map: any sequence of insertions and deletions that
  inserts only tuples the memory does not hold, and at most eight of them at a time, leaves the
  lookups of the map that the sequence describes.\<close>

theorem cam_refines_map:
  assumes "cam_wf cs" "ops_ok CAM_SIZE ops (\<lambda>k. camLookup k cs)"
  shows "(\<lambda>k. camLookup k (fold cam_op ops cs)) = fold map_op ops (\<lambda>k. camLookup k cs)"
  using cam.runs_refine [OF assms(1), of ops] assms(2) by (simp add: cam.mem_def cam_run_op)

theorem cam_refines_map_witness:
  "let a = \<lparr>myIp = 1, theirIp = 2, myPort = 80, theirPort = 5000\<rparr>;
       b = \<lparr>myIp = 1, theirIp = 3, myPort = 80, theirPort = 5000\<rparr>;
       cs = fold cam_op [MemInsert a 4, MemInsert b 5, MemDelete a] cam_empty
   in camLookup a cs = None \<and> camLookup b cs = Some 5"
proof -
  let ?a = "\<lparr>myIp = 1, theirIp = 2, myPort = 80, theirPort = 5000\<rparr> :: FourTuple"
  let ?b = "\<lparr>myIp = 1, theirIp = 3, myPort = 80, theirPort = 5000\<rparr> :: FourTuple"
  have "ops_ok CAM_SIZE [MemInsert ?a 4, MemInsert ?b (5 :: RtlSessId), MemDelete ?a]
      (\<lambda>k. camLookup k cam_empty)"
    by (simp add: CAM_SIZE_def dom_def)
  from fun_cong [OF cam_refines_map [OF cam_empty(1) this]] show ?thesis
    by (simp add: Let_def)
qed

text \<open>C37. Insert, then look up: every insertion of a tuple that the memory does not hold is acknowledged, and a
  lookup of the tuple after it hits, with the inserted session identifier, exactly if the
  memory had room; into a full memory the insertion is acknowledged and lost, because \<open>toecam\<close>
  ignores the result of \<open>camInsert\<close>.  The lookup of any other tuple is answered as before.\<close>

theorem toecam_insert_lookup:
  assumes "cam_startupDelay s = 0" "cam_fsmState s = CAM_WAIT_4_REQ" "cam_wf (CamArray s)"
    and "siTOE_SssLkpReq s = Stream d []" "siTOE_SssUpdReq s = Stream e [up]" "cuq_op up = INSERT"
    and "camLookup (cuq_key up) (CamArray s) = None"
    and "room \<longleftrightarrow> card (dom (\<lambda>k. camLookup k (CamArray s))) < CAM_SIZE"
    and "t = (toecam ^^ Suc (Suc MAX_CAM_LATENCY)) s"
    and "u = (toecam ^^ Suc (Suc MAX_CAM_LATENCY))
       (t\<lparr>siTOE_SssLkpReq := Stream d [\<lparr>clq_key = k, clq_source = src\<rparr>]\<rparr>)"
    and "found = (if k = cuq_key up then (if room then Some (cuq_value up) else None)
                  else camLookup k (CamArray s))"
  shows "items (soTOE_SssUpdRep t) = items (soTOE_SssUpdRep s) @
       [\<lparr>cur_sessionID = cuq_value up, cur_source = cuq_source up, cur_op = INSERT\<rparr>] \<and>
     items (soTOE_SssLkpRep u) = items (soTOE_SssLkpRep s) @
       [\<lparr>clr_sessionID = (case found of Some v \<Rightarrow> v | None \<Rightarrow> 0), clr_source = src,
         clr_hit = (found \<noteq> None)\<rparr>]"
proof -
  let ?req = "Stream d [\<lparr>clq_key = k, clq_source = src\<rparr>]"
  have empty: "items (siTOE_SssLkpReq s) = []" using assms(4) by simp
  have t: "t = s\<lparr>
     poMMIO_CamReady := True, siTOE_SssUpdReq := Stream e [], cam_update := up, cam_idleCnt := 0,
     CamArray := fst (camInsert \<lparr>kvp_key = cuq_key up, kvp_value = cuq_value up, kvp_valid = True\<rparr>
       (CamArray s)),
     soTOE_SssUpdRep := swrite (soTOE_SssUpdRep s)
       \<lparr>cur_sessionID = cuq_value up, cur_source = cuq_source up, cur_op = INSERT\<rparr>,
     cam_fsmState := CAM_WAIT_4_REQ\<rparr>"
    using toecam_insert [OF assms(1,2) empty assms(5,6)] assms(9) by simp
  have found: "camLookup k (CamArray (t\<lparr>siTOE_SssLkpReq := ?req\<rparr>)) = found"
  proof (cases room)
    case True
    with cam.insert_room [OF assms(3,7), of "cuq_value up"] assms(8,11) show ?thesis
      by (auto simp: t cam_insert_def)
  next
    case False
    then have "CAM_SIZE \<le> card (dom (\<lambda>k. camLookup k (CamArray s)))" using assms(8) by simp
    from cam.insert_full [OF assms(3) this, of "cuq_key up" "cuq_value up"] False assms(7,11)
    show ?thesis by (auto simp: t cam_insert_def)
  qed
  have "items (soTOE_SssLkpRep u) = items (soTOE_SssLkpRep (t\<lparr>siTOE_SssLkpReq := ?req\<rparr>)) @
     [\<lparr>clr_sessionID = (case found of Some v \<Rightarrow> v | None \<Rightarrow> 0), clr_source = src,
       clr_hit = (found \<noteq> None)\<rparr>]"
    using toecam_lookup [of "t\<lparr>siTOE_SssLkpReq := ?req\<rparr>" d k src] assms(1,10) found
    by (simp only: CAM.simps t) simp
  then show ?thesis by (simp add: t)
qed

theorem toecam_insert_lookup_witness:
  "let k = \<lparr>myIp = 1, theirIp = 2, myPort = 80, theirPort = 5000\<rparr>;
       s = (cam_reset cam_empty)\<lparr>cam_startupDelay := 0, siTOE_SssUpdReq := Stream 2
             [\<lparr>cuq_key = k, cuq_value = 6, cuq_source = FROM_TAi, cuq_op = INSERT\<rparr>]\<rparr>
   in items (soTOE_SssLkpRep ((toecam ^^ Suc (Suc MAX_CAM_LATENCY))
        (((toecam ^^ Suc (Suc MAX_CAM_LATENCY)) s)\<lparr>siTOE_SssLkpReq := Stream 2
           [\<lparr>clq_key = k, clq_source = FROM_RXe\<rparr>]\<rparr>))) =
      [\<lparr>clr_sessionID = 6, clr_source = FROM_RXe, clr_hit = True\<rparr>]"
proof -
  let ?k = "\<lparr>myIp = 1, theirIp = 2, myPort = 80, theirPort = 5000\<rparr> :: FourTuple"
  let ?up = "\<lparr>cuq_key = ?k, cuq_value = 6, cuq_source = FROM_TAi, cuq_op = INSERT\<rparr>"
  let ?s = "(cam_reset cam_empty)\<lparr>cam_startupDelay := 0, siTOE_SssUpdReq := Stream 2 [?up]\<rparr>"
  have "True \<longleftrightarrow> card (dom (\<lambda>k. camLookup k (CamArray ?s))) < CAM_SIZE"
    by (simp add: cam_reset_def CAM_SIZE_def dom_def)
  from toecam_insert_lookup [OF _ _ _ _ _ _ _ this refl refl refl, of 2 2 ?up ?k FROM_RXe]
  show ?thesis by (simp add: cam_reset_def Let_def)
qed

text \<open>A full memory acknowledges an insertion that it drops: \<open>toecam\<close> ignores the result of
  \<open>camInsert\<close>, so the reply is that of a success while the lookups stay as they were.\<close>

theorem cam_full_insert_acknowledged:
  assumes "cam_startupDelay s = 0" "cam_fsmState s = CAM_WAIT_4_REQ" "cam_wf (CamArray s)"
    and "items (siTOE_SssLkpReq s) = []" "siTOE_SssUpdReq s = Stream d [up]" "cuq_op up = INSERT"
    and "length (cam_keys (CamArray s)) = CAM_SIZE"
  shows "CamArray ((toecam ^^ Suc (Suc MAX_CAM_LATENCY)) s) = CamArray s \<and>
     items (soTOE_SssUpdRep ((toecam ^^ Suc (Suc MAX_CAM_LATENCY)) s)) = items (soTOE_SssUpdRep s) @
       [\<lparr>cur_sessionID = cuq_value up, cur_source = cuq_source up, cur_op = INSERT\<rparr>]"
proof -
  have "CAM_SIZE \<le> card (dom (\<lambda>k. camLookup k (CamArray s)))"
    using assms(7) card_dom_camLookup [OF assms(3)] by simp
  from cam.insert_full [OF assms(3) this, of "cuq_key up" "cuq_value up"] show ?thesis
    using toecam_insert [OF assms(1,2,4,5,6)] by (simp add: cam_insert_def)
qed

definition cam_sample :: "KeyValuePair list" where
  "cam_sample = map (\<lambda>n. \<lparr>kvp_key = \<lparr>myIp = 1, theirIp = n, myPort = 80, theirPort = 5000\<rparr>,
     kvp_value = ucast n, kvp_valid = True\<rparr>) [0, 1, 2, 3, 4, 5, 6, 7]"

theorem cam_full_insert_acknowledged_witness:
  "let k = \<lparr>myIp = 1, theirIp = 9, myPort = 80, theirPort = 5000\<rparr>;
       s = (cam_reset cam_sample)\<lparr>cam_startupDelay := 0, siTOE_SssUpdReq := Stream 2
             [\<lparr>cuq_key = k, cuq_value = 9, cuq_source = FROM_TAi, cuq_op = INSERT\<rparr>]\<rparr>;
       t = (toecam ^^ Suc (Suc MAX_CAM_LATENCY)) s
   in camLookup k (CamArray t) = None \<and>
      map cur_sessionID (items (soTOE_SssUpdRep t)) = [9]"
proof -
  let ?k = "\<lparr>myIp = 1, theirIp = 9, myPort = 80, theirPort = 5000\<rparr> :: FourTuple"
  let ?up = "\<lparr>cuq_key = ?k, cuq_value = 9, cuq_source = FROM_TAi, cuq_op = INSERT\<rparr>"
  let ?s = "(cam_reset cam_sample)\<lparr>cam_startupDelay := 0, siTOE_SssUpdReq := Stream 2 [?up]\<rparr>"
  have "cam_wf (CamArray ?s)" "length (cam_keys (CamArray ?s)) = CAM_SIZE"
    "camLookup ?k (CamArray ?s) = None"
    by (simp_all add: cam_wf_def cam_sample_def cam_reset_def CAM_SIZE_def)
  with cam_full_insert_acknowledged [of ?s 2 ?up] show ?thesis
    by (simp add: Let_def cam_reset_def)
qed

end
