(* ===== verification/Session_Lookup.thy ===== *)
theory Session_Lookup
  imports Toe_Cam
begin

text \<open>
  The Session Lookup Controller (SLc),
  \<open>NTS/toe/src/session_lookup_controller/session_lookup_controller.cpp\<close>: it maps the four-tuple
  of a connection to its session identifier through the content-addressable memory, keeps the
  list of free identifiers and the reverse table from identifiers to tuples.  The record extends
  that of the memory, because the streams between the two are shared: \<open>siTOE_SssLkpReq\<close> is the
  controller's \<open>soCAM_SessLookupReq\<close>, and so on.
\<close>

section \<open>State\<close>

record SLcQuery =
  slcq_tuple :: FourTuple
  slcq_allowCreation :: bool
  slcq_source :: LkpSrcBit

record SLcReverseLkp =
  rlk_key :: SessionId
  rlk_value :: FourTuple

datatype lrh_state = WAIT_FOR_SESS_LKP_REQ | WAIT_FOR_CAM_LKP_REP | WAIT_FOR_CAM_UPD_REP

record SLc = CAM +
  slc_siRXe_SessLookupReq :: "SessionLookupQuery stream"
  slc_soRXe_SessLookupRep :: "SessionLookupReply stream"
  slc_siSTt_SessReleaseCmd :: "SessionId stream"
  slc_soPRt_ClosePortCmd :: "TcpPort stream"
  slc_siTAi_SessLookupReq :: "SocketPair stream"
  slc_soTAi_SessLookupRep :: "SessionLookupReply stream"
  slc_siTXe_ReverseLkpReq :: "SessionId stream"
  slc_soTXe_ReverseLkpRep :: "fourTuple stream"
  slc_soSssRelCnt :: "16 word stream"
  slc_soSssRegCnt :: "16 word stream"
  ssSimToLrh_FreeList :: "RtlSessId stream"
  ssUrsToSim_FreeId :: "RtlSessId stream"
  ssLrhToUrs_InsertSessReq :: "CamSessionUpdateRequest stream"
  ssLrhToRlt_ReverseLkpRsp :: "SLcReverseLkp stream"
  ssUrhToLrh_SessUpdateRsp :: "CamSessionUpdateReply stream"
  ssRltToUrs_SessDeleteReq :: "CamSessionUpdateRequest stream"
  ssInsertPipe :: "FourTuple stream"
  ssLookupPipe :: "SLcQuery stream"
  sim_counter :: RtlSessId
  lrh_fsmState :: lrh_state
  urs_insertedSessions :: "16 word"
  urs_releasedSessions :: "16 word"
  REVERSE_LOOKUP_TABLE :: "SessionId \<Rightarrow> FourTuple"
  TUPLE_VALID_TABLE :: "SessionId \<Rightarrow> bool"
  rlt_isInit :: bool
  rlt_counter :: RtlSessId

section \<open>The processes\<close>

definition pSessionIdManager :: "SLc \<Rightarrow> SLc" where
  "pSessionIdManager s =
     (if sim_counter s < of_nat TOE_MAX_SESSIONS then
        s\<lparr>ssSimToLrh_FreeList := swrite (ssSimToLrh_FreeList s) (sim_counter s),
          sim_counter := sim_counter s + 1\<rparr>
      else
        (case sread (ssUrsToSim_FreeId s) of
           None \<Rightarrow> s
         | Some (i, si) \<Rightarrow>
             s\<lparr>ssUrsToSim_FreeId := si,
               ssSimToLrh_FreeList := swrite (ssSimToLrh_FreeList s) i\<rparr>))"

text \<open>The internal query of a request of the Tx application interface, whose socket pair is in
  network byte order, and of the Rx engine, whose socket pair is used as it is.\<close>

definition slc_tai_query :: "SocketPair \<Rightarrow> SLcQuery" where
  "slc_tai_query sp = \<lparr>
     slcq_tuple = \<lparr>myIp = byteSwap32 (sa_addr (sp_src sp)), theirIp = byteSwap32 (sa_addr (sp_dst sp)),
                   myPort = byteSwap16 (sa_port (sp_src sp)),
                   theirPort = byteSwap16 (sa_port (sp_dst sp))\<rparr>,
     slcq_allowCreation = True, slcq_source = FROM_TAi\<rparr>"

definition slc_rxe_query :: "SessionLookupQuery \<Rightarrow> SLcQuery" where
  "slc_rxe_query q = (let sp = slq_tuple q in \<lparr>
     slcq_tuple = \<lparr>myIp = sa_addr (sp_dst sp), theirIp = sa_addr (sp_src sp),
                   myPort = sa_port (sp_dst sp), theirPort = sa_port (sp_src sp)\<rparr>,
     slcq_allowCreation = slq_allowCreation q, slcq_source = FROM_RXe\<rparr>)"

definition lrh_send :: "SLcQuery \<Rightarrow> SLc \<Rightarrow> SLc" where
  "lrh_send q s =
     s\<lparr>siTOE_SssLkpReq :=
         swrite (siTOE_SssLkpReq s) \<lparr>clq_key = slcq_tuple q, clq_source = slcq_source q\<rparr>,
       ssLookupPipe := swrite (ssLookupPipe s) q, lrh_fsmState := WAIT_FOR_CAM_LKP_REP\<rparr>"

definition lrh_reply :: "LkpSrcBit \<Rightarrow> RtlSessId \<Rightarrow> bool \<Rightarrow> SLc \<Rightarrow> SLc" where
  "lrh_reply src i hit s =
     (let r = \<lparr>slr_sessionID = ucast i, slr_hit = hit\<rparr> in
      if src = FROM_RXe
      then s\<lparr>slc_soRXe_SessLookupRep := swrite (slc_soRXe_SessLookupRep s) r\<rparr>
      else s\<lparr>slc_soTAi_SessLookupRep := swrite (slc_soTAi_SessLookupRep s) r\<rparr>)"

definition pLookupReplyHandler :: "SLc \<Rightarrow> SLc" where
  "pLookupReplyHandler s =
     (case lrh_fsmState s of
        WAIT_FOR_SESS_LKP_REQ \<Rightarrow>
          (case sread (slc_siTAi_SessLookupReq s) of
             Some (sp, si) \<Rightarrow> lrh_send (slc_tai_query sp) (s\<lparr>slc_siTAi_SessLookupReq := si\<rparr>)
           | None \<Rightarrow>
               (case sread (slc_siRXe_SessLookupReq s) of
                  Some (q, si) \<Rightarrow> lrh_send (slc_rxe_query q) (s\<lparr>slc_siRXe_SessLookupReq := si\<rparr>)
                | None \<Rightarrow> s))
      | WAIT_FOR_CAM_LKP_REP \<Rightarrow>
          (case (sread (soTOE_SssLkpRep s), sread (ssLookupPipe s)) of
             (Some (r, si), Some (q, sp)) \<Rightarrow>
               (let s = s\<lparr>soTOE_SssLkpRep := si, ssLookupPipe := sp\<rparr> in
                if \<not> clr_hit r \<and> slcq_allowCreation q \<and> \<not> sempty (ssSimToLrh_FreeList s) then
                  (case sread (ssSimToLrh_FreeList s) of
                     None \<Rightarrow> s
                   | Some (freeID, fl) \<Rightarrow>
                       s\<lparr>ssSimToLrh_FreeList := fl,
                         ssLrhToUrs_InsertSessReq := swrite (ssLrhToUrs_InsertSessReq s)
                           \<lparr>cuq_key = slcq_tuple q, cuq_value = freeID, cuq_source = clr_source r,
                            cuq_op = INSERT\<rparr>,
                         ssInsertPipe := swrite (ssInsertPipe s) (slcq_tuple q),
                         lrh_fsmState := WAIT_FOR_CAM_UPD_REP\<rparr>)
                else
                  (lrh_reply (clr_source r) (clr_sessionID r) (clr_hit r) s)
                    \<lparr>lrh_fsmState := WAIT_FOR_SESS_LKP_REQ\<rparr>)
           | _ \<Rightarrow> s)
      | WAIT_FOR_CAM_UPD_REP \<Rightarrow>
          (case (sread (ssUrhToLrh_SessUpdateRsp s), sread (ssInsertPipe s)) of
             (Some (r, si), Some (tuple, sp)) \<Rightarrow>
               (let s = lrh_reply (cur_source r) (cur_sessionID r) True
                          (s\<lparr>ssUrhToLrh_SessUpdateRsp := si, ssInsertPipe := sp\<rparr>)
                in s\<lparr>ssLrhToRlt_ReverseLkpRsp := swrite (ssLrhToRlt_ReverseLkpRsp s)
                       \<lparr>rlk_key = ucast (cur_sessionID r), rlk_value = tuple\<rparr>,
                     lrh_fsmState := WAIT_FOR_SESS_LKP_REQ\<rparr>)
           | _ \<Rightarrow> s))"

definition pUpdateRequestSender :: "SLc \<Rightarrow> SLc" where
  "pUpdateRequestSender s =
     (let s =
        (case sread (ssLrhToUrs_InsertSessReq s) of
           Some (rq, si) \<Rightarrow>
             s\<lparr>ssLrhToUrs_InsertSessReq := si,
               siTOE_SssUpdReq := swrite (siTOE_SssUpdReq s) rq,
               urs_insertedSessions := urs_insertedSessions s + 1\<rparr>
         | None \<Rightarrow>
             (case sread (ssRltToUrs_SessDeleteReq s) of
                Some (rq, si) \<Rightarrow>
                  s\<lparr>ssRltToUrs_SessDeleteReq := si,
                    siTOE_SssUpdReq := swrite (siTOE_SssUpdReq s) rq,
                    ssUrsToSim_FreeId := swrite (ssUrsToSim_FreeId s) (cuq_value rq),
                    urs_releasedSessions := urs_releasedSessions s + 1\<rparr>
              | None \<Rightarrow> s));
          s = (if \<not> sfull (slc_soSssRegCnt s)
               then s\<lparr>slc_soSssRegCnt := swrite (slc_soSssRegCnt s) (urs_insertedSessions s)\<rparr>
               else s)
      in if \<not> sfull (slc_soSssRelCnt s)
         then s\<lparr>slc_soSssRelCnt := swrite (slc_soSssRelCnt s) (urs_releasedSessions s)\<rparr>
         else s)"

definition pUpdateReplyHandler :: "SLc \<Rightarrow> SLc" where
  "pUpdateReplyHandler s =
     (case sread (soTOE_SssUpdRep s) of
        None \<Rightarrow> s
      | Some (r, si) \<Rightarrow>
          (let s = s\<lparr>soTOE_SssUpdRep := si\<rparr> in
           if cur_op r = INSERT
           then s\<lparr>ssUrhToLrh_SessUpdateRsp := swrite (ssUrhToLrh_SessUpdateRsp s) r\<rparr>
           else s))"

text \<open>The release of session \<open>i\<close>, and the tuple that a reverse lookup returns.\<close>

definition rlt_release :: "SessionId \<Rightarrow> SLc \<Rightarrow> SLc" where
  "rlt_release i s =
     (let tuple = REVERSE_LOOKUP_TABLE s i;
          s = (if TUPLE_VALID_TABLE s i
               then s\<lparr>slc_soPRt_ClosePortCmd := swrite (slc_soPRt_ClosePortCmd s) (myPort tuple),
                      ssRltToUrs_SessDeleteReq := swrite (ssRltToUrs_SessDeleteReq s)
                        \<lparr>cuq_key = tuple, cuq_value = ucast i, cuq_source = FROM_RXe,
                         cuq_op = DELETE\<rparr>\<rparr>
               else s)
      in s\<lparr>TUPLE_VALID_TABLE := (TUPLE_VALID_TABLE s)(i := False)\<rparr>)"

definition rlt_tuple :: "FourTuple \<Rightarrow> fourTuple" where
  "rlt_tuple t = \<lparr>ft_srcIp = myIp t, ft_dstIp = theirIp t, ft_srcPort = myPort t,
     ft_dstPort = theirPort t\<rparr>"

definition pReverseLookupTable :: "SLc \<Rightarrow> SLc option" where
  "pReverseLookupTable s =
     (if \<not> rlt_isInit s then
        in_bounds (rlt_counter s)
          (let s = s\<lparr>TUPLE_VALID_TABLE :=
                       (TUPLE_VALID_TABLE s)(ucast (rlt_counter s) := False)\<rparr>
           in if rlt_counter s < of_nat TOE_MAX_SESSIONS
              then Some (s\<lparr>rlt_counter := rlt_counter s + 1\<rparr>)
              else Some (s\<lparr>rlt_isInit := True\<rparr>))
      else
        (case sread (ssLrhToRlt_ReverseLkpRsp s) of
           Some (ins, si) \<Rightarrow>
             in_bounds (rlk_key ins)
               (Some (s\<lparr>ssLrhToRlt_ReverseLkpRsp := si,
                        REVERSE_LOOKUP_TABLE :=
                          (REVERSE_LOOKUP_TABLE s)(rlk_key ins := rlk_value ins),
                        TUPLE_VALID_TABLE := (TUPLE_VALID_TABLE s)(rlk_key ins := True)\<rparr>))
         | None \<Rightarrow>
             (case sread (slc_siSTt_SessReleaseCmd s) of
                Some (i, si) \<Rightarrow>
                  in_bounds i (Some (rlt_release i (s\<lparr>slc_siSTt_SessReleaseCmd := si\<rparr>)))
              | None \<Rightarrow>
                  (case sread (slc_siTXe_ReverseLkpReq s) of
                     Some (i, si) \<Rightarrow>
                       in_bounds i
                         (Some (s\<lparr>slc_siTXe_ReverseLkpReq := si,
                                  slc_soTXe_ReverseLkpRep := swrite (slc_soTXe_ReverseLkpRep s)
                                    (rlt_tuple (REVERSE_LOOKUP_TABLE s i))\<rparr>))
                   | None \<Rightarrow> Some s))))"

text \<open>One cycle of the entity, its processes in the order of the code.\<close>

definition session_lookup_controller :: "SLc \<Rightarrow> SLc option" where
  "session_lookup_controller s =
     pReverseLookupTable (pUpdateReplyHandler (pUpdateRequestSender
       (pLookupReplyHandler (pSessionIdManager s))))"

section \<open>Reset and initialisation\<close>

definition slc_reset :: "(SessionId \<Rightarrow> FourTuple) \<Rightarrow> (SessionId \<Rightarrow> bool) \<Rightarrow> SLc" where
  "slc_reset rv valid = \<lparr>
     siTOE_SssLkpReq = Stream 2 [], soTOE_SssLkpRep = Stream 2 [], siTOE_SssUpdReq = Stream 2 [],
     soTOE_SssUpdRep = Stream 2 [], poMMIO_CamReady = False, CamArray = cam_empty,
     cam_fsmState = CAM_WAIT_4_REQ, cam_startupDelay = 100,
     cam_request = cam_request (cam_reset cam_empty), cam_update = cam_update (cam_reset cam_empty),
     cam_idleCnt = 0,
     slc_siRXe_SessLookupReq = Stream 4 [], slc_soRXe_SessLookupRep = Stream 4 [],
     slc_siSTt_SessReleaseCmd = Stream 2 [], slc_soPRt_ClosePortCmd = Stream 4 [],
     slc_siTAi_SessLookupReq = Stream 4 [], slc_soTAi_SessLookupRep = Stream 4 [],
     slc_siTXe_ReverseLkpReq = Stream 4 [], slc_soTXe_ReverseLkpRep = Stream 4 [],
     slc_soSssRelCnt = Stream 1 [], slc_soSssRegCnt = Stream 1 [],
     ssSimToLrh_FreeList = Stream 16384 [], ssUrsToSim_FreeId = Stream 2 [],
     ssLrhToUrs_InsertSessReq = Stream 4 [], ssLrhToRlt_ReverseLkpRsp = Stream 4 [],
     ssUrhToLrh_SessUpdateRsp = Stream 4 [], ssRltToUrs_SessDeleteReq = Stream 4 [],
     ssInsertPipe = Stream 4 [], ssLookupPipe = Stream 8 [],
     sim_counter = 0, lrh_fsmState = WAIT_FOR_SESS_LKP_REQ, urs_insertedSessions = 0,
     urs_releasedSessions = 0, REVERSE_LOOKUP_TABLE = rv, TUPLE_VALID_TABLE = valid,
     rlt_isInit = False, rlt_counter = 0\<rparr>"

text \<open>After its initialisation the controller has eight free identifiers and no valid tuple.\<close>

definition slc_ready :: "(SessionId \<Rightarrow> FourTuple) \<Rightarrow> SLc" where
  "slc_ready rv = (slc_reset rv (\<lambda>_. False))\<lparr>
     ssSimToLrh_FreeList := Stream 16384 [0, 1, 2, 3, 4, 5, 6, 7], sim_counter := 8,
     rlt_isInit := True, rlt_counter := 8\<rparr>"

section \<open>The controller and the memory at work\<close>

text \<open>The processes of the controller and the memory run concurrently; the clients add requests,
  for existing sessions where they name one, and take the replies.\<close>

inductive slc_step :: "SLc \<Rightarrow> SLc \<Rightarrow> bool" where
  Sim: "slc_step s (pSessionIdManager s)"
| Lrh: "slc_step s (pLookupReplyHandler s)"
| Urs: "slc_step s (pUpdateRequestSender s)"
| Urh: "slc_step s (pUpdateReplyHandler s)"
| Rlt: "pReverseLookupTable s = Some s' \<Longrightarrow> slc_step s s'"
| Cam: "slc_step s (toecam s)"
| RXe: "slc_step s (s\<lparr>slc_siRXe_SessLookupReq := swrite (slc_siRXe_SessLookupReq s) q\<rparr>)"
| TAi: "slc_step s (s\<lparr>slc_siTAi_SessLookupReq := swrite (slc_siTAi_SessLookupReq s) sp\<rparr>)"
| STt: "sess_ok i \<Longrightarrow>
    slc_step s (s\<lparr>slc_siSTt_SessReleaseCmd := swrite (slc_siSTt_SessReleaseCmd s) i\<rparr>)"
| TXe: "sess_ok i \<Longrightarrow>
    slc_step s (s\<lparr>slc_siTXe_ReverseLkpReq := swrite (slc_siTXe_ReverseLkpReq s) i\<rparr>)"
| Clients: "slc_step s (s\<lparr>slc_soRXe_SessLookupRep := a, slc_soTAi_SessLookupRep := b,
    slc_soPRt_ClosePortCmd := c, slc_soTXe_ReverseLkpRep := d, slc_soSssRelCnt := e,
    slc_soSssRegCnt := f\<rparr>)"

inductive slc_reaches :: "SLc \<Rightarrow> SLc \<Rightarrow> bool" for s where
  slc_start: "slc_reaches s s"
| slc_next: "slc_reaches s t \<Longrightarrow> slc_step t u \<Longrightarrow> slc_reaches s u"

section \<open>Where the session identifiers are\<close>

definition insert_ids :: "CamSessionUpdateRequest list \<Rightarrow> nat list" where
  "insert_ids us = map (\<lambda>u. unat (cuq_value u)) (filter (\<lambda>u. cuq_op u = INSERT) us)"

definition inserted_ids :: "CamSessionUpdateReply list \<Rightarrow> nat list" where
  "inserted_ids rs = map (\<lambda>r. unat (cur_sessionID r)) (filter (\<lambda>r. cur_op r = INSERT) rs)"

definition cam_insert_ids :: "SLc \<Rightarrow> nat list" where
  "cam_insert_ids s = (if cam_fsmState s = CAM_UPDATE_REP then insert_ids [cam_update s] else [])"

text \<open>The identifiers of insertions on their way through the memory, those in the free lists, those
  of registered sessions and those of sessions being released.\<close>

definition pending_ids :: "SLc \<Rightarrow> nat list" where
  "pending_ids s = insert_ids (items (ssLrhToUrs_InsertSessReq s)) @
     insert_ids (items (siTOE_SssUpdReq s)) @ cam_insert_ids s @
     inserted_ids (items (soTOE_SssUpdRep s)) @
     map (\<lambda>r. unat (cur_sessionID r)) (items (ssUrhToLrh_SessUpdateRsp s)) @
     map (\<lambda>r. unat (rlk_key r)) (items (ssLrhToRlt_ReverseLkpRsp s))"

definition free_ids :: "SLc \<Rightarrow> nat list" where
  "free_ids s = map unat (items (ssSimToLrh_FreeList s)) @ map unat (items (ssUrsToSim_FreeId s))"

definition released_ids :: "SLc \<Rightarrow> nat list" where
  "released_ids s = map (\<lambda>u. unat (cuq_value u)) (items (ssRltToUrs_SessDeleteReq s))"

definition registered_ids :: "SLc \<Rightarrow> nat set" where
  "registered_ids s = {i. i < TOE_MAX_SESSIONS \<and> TUPLE_VALID_TABLE s (of_nat i)}"

definition all_ids :: "SLc \<Rightarrow> nat multiset" where
  "all_ids s = mset (free_ids s) + mset (pending_ids s) + mset_set (registered_ids s) +
     mset (released_ids s)"

definition slc_wf :: "SLc \<Rightarrow> bool" where
  "slc_wf s \<longleftrightarrow> all_ids s = mset [0..<TOE_MAX_SESSIONS] \<and> sim_counter s = 8 \<and> rlt_isInit s \<and>
     (\<forall>u \<in> set (items (ssRltToUrs_SessDeleteReq s)). cuq_op u = DELETE) \<and>
     (\<forall>i \<in> set (items (slc_siSTt_SessReleaseCmd s)). sess_ok i) \<and>
     (\<forall>i \<in> set (items (slc_siTXe_ReverseLkpReq s)). sess_ok i)"

lemmas ids_defs = all_ids_def free_ids_def pending_ids_def released_ids_def registered_ids_def
  insert_ids_def inserted_ids_def cam_insert_ids_def

lemma ids_simps [simp]:
  "insert_ids [] = []"
  "insert_ids (u # us) = (if cuq_op u = INSERT then unat (cuq_value u) # insert_ids us else insert_ids us)"
  "insert_ids (us @ us') = insert_ids us @ insert_ids us'"
  "inserted_ids [] = []"
  "inserted_ids (r # rs) =
     (if cur_op r = INSERT then unat (cur_sessionID r) # inserted_ids rs else inserted_ids rs)"
  "inserted_ids (rs @ rs') = inserted_ids rs @ inserted_ids rs'"
  by (simp_all add: insert_ids_def inserted_ids_def)

lemma unat_ucast_id [simp]: "unat (ucast (i :: RtlSessId) :: SessionId) = unat i"
proof -
  have "unat i < 2 ^ LENGTH(14)" by (rule unsigned_less)
  then show ?thesis by (simp add: unsigned_ucast_eq take_bit_nat_eq_self)
qed

lemma unat_ucast_sess: "sess_ok i \<Longrightarrow> unat (ucast (i :: SessionId) :: RtlSessId) = unat i"
  by (simp add: sess_ok_iff unsigned_ucast_eq take_bit_nat_eq_self)

lemma finite_registered [simp]: "finite (registered_ids s)"
  by (simp add: registered_ids_def)

text \<open>The processes move identifiers, they neither create nor destroy one.\<close>

lemmas where_defs = all_ids_def free_ids_def pending_ids_def cam_insert_ids_def registered_ids_def
  released_ids_def

lemma ids_Sim: "sim_counter s = 8 \<Longrightarrow> all_ids (pSessionIdManager s) = all_ids s"
  by (auto simp: pSessionIdManager_def where_defs TOE_MAX_SESSIONS_def sread_Some_iff
      split: option.splits)

lemma ids_Urs:
  assumes "\<forall>u \<in> set (items (ssRltToUrs_SessDeleteReq s)). cuq_op u = DELETE"
  shows "all_ids (pUpdateRequestSender s) = all_ids s"
  using assms
  by (auto simp: pUpdateRequestSender_def where_defs sread_Some_iff Let_def split: option.splits)

lemma ids_Urh: "all_ids (pUpdateReplyHandler s) = all_ids s"
  by (auto simp: pUpdateReplyHandler_def where_defs sread_Some_iff Let_def split: option.splits)

lemma ids_lrh_reply [simp]: "all_ids (lrh_reply src i hit s) = all_ids s"
  by (simp add: lrh_reply_def where_defs Let_def)

lemma ids_lrh_send [simp]: "all_ids (lrh_send q s) = all_ids s"
  by (simp add: lrh_send_def where_defs)

lemma ids_toecam: "all_ids (toecam s) = all_ids s"
  by (auto simp: toecam_def where_defs sread_Some_iff Let_def split: option.splits cam_state.splits)

lemma ids_Lrh: "all_ids (pLookupReplyHandler s) = all_ids s"
proof (cases "lrh_fsmState s")
  case WAIT_FOR_SESS_LKP_REQ
  then show ?thesis
    by (auto simp: pLookupReplyHandler_def where_defs lrh_send_def split: option.splits)
next
  case WAIT_FOR_CAM_LKP_REP
  then show ?thesis
    by (auto simp: pLookupReplyHandler_def where_defs lrh_reply_def sread_Some_iff Let_def
        sempty_def split: option.splits)
next
  case WAIT_FOR_CAM_UPD_REP
  then show ?thesis
    by (auto simp: pLookupReplyHandler_def where_defs lrh_reply_def sread_Some_iff Let_def
        split: option.splits)
qed

lemma registered_upd:
  assumes "sess_ok i"
  shows "registered_ids (s\<lparr>TUPLE_VALID_TABLE := (TUPLE_VALID_TABLE s)(i := b)\<rparr>) =
    (if b then insert (unat i) (registered_ids s) else registered_ids s - {unat i})"
  using assms
  by (simp add: registered_ids_def set_eq_iff of_nat_unat_eq sess_ok_def conj_commute cong: conj_cong)

lemma registered_iff: "sess_ok i \<Longrightarrow> unat i \<in> registered_ids s \<longleftrightarrow> TUPLE_VALID_TABLE s i"
  by (simp add: registered_ids_def sess_ok_def)

lemma all_ids_member:
  assumes "all_ids s = mset [0..<TOE_MAX_SESSIONS]" "i \<in> set (pending_ids s)"
  shows "i < TOE_MAX_SESSIONS" "i \<notin> registered_ids s"
proof -
  have "i \<in># all_ids s" using assms(2) by (simp add: all_ids_def)
  then show "i < TOE_MAX_SESSIONS" by (simp add: assms(1))
  have "count (all_ids s) i \<le> 1"
    by (simp add: assms(1) count_mset_set')
  moreover have "0 < count (mset (pending_ids s)) i"
    using assms(2) by (simp only: count_greater_zero_iff set_mset_mset)
  ultimately have "count (mset_set (registered_ids s)) i = 0"
    unfolding all_ids_def count_union by linarith
  then show "i \<notin> registered_ids s" by (simp add: count_mset_set' split: if_splits)
qed

lemma ids_rlt_insert:
  assumes "all_ids s = mset [0..<TOE_MAX_SESSIONS]"
    and "items (ssLrhToRlt_ReverseLkpRsp s) = ins # items si"
  shows "sess_ok (rlk_key ins)"
    "all_ids (s\<lparr>ssLrhToRlt_ReverseLkpRsp := si, REVERSE_LOOKUP_TABLE := rv,
       TUPLE_VALID_TABLE := (TUPLE_VALID_TABLE s)(rlk_key ins := True)\<rparr>) = all_ids s"
proof -
  let ?i = "unat (rlk_key ins)"
  let ?t = "s\<lparr>TUPLE_VALID_TABLE := (TUPLE_VALID_TABLE s)(rlk_key ins := True)\<rparr>"
  have pend: "?i \<in> set (pending_ids s)" using assms(2) by (simp add: pending_ids_def)
  from all_ids_member [OF assms(1) pend] show ok: "sess_ok (rlk_key ins)"
    by (simp add: sess_ok_def)
  have reg: "registered_ids ?t = insert ?i (registered_ids s)" by (simp add: registered_upd [OF ok])
  then have "mset_set (registered_ids ?t) = add_mset ?i (mset_set (registered_ids s))"
    using all_ids_member(2) [OF assms(1) pend] by simp
  moreover have "registered_ids (s\<lparr>ssLrhToRlt_ReverseLkpRsp := si, REVERSE_LOOKUP_TABLE := rv,
       TUPLE_VALID_TABLE := (TUPLE_VALID_TABLE s)(rlk_key ins := True)\<rparr>) = registered_ids ?t"
    by (simp add: registered_ids_def)
  ultimately show "all_ids (s\<lparr>ssLrhToRlt_ReverseLkpRsp := si, REVERSE_LOOKUP_TABLE := rv,
       TUPLE_VALID_TABLE := (TUPLE_VALID_TABLE s)(rlk_key ins := True)\<rparr>) = all_ids s"
    using assms(2)
    by (simp add: all_ids_def free_ids_def pending_ids_def released_ids_def cam_insert_ids_def)
qed

lemma ids_rlt_release:
  assumes "sess_ok i"
  shows "all_ids (rlt_release i s) = all_ids s"
proof (cases "TUPLE_VALID_TABLE s i")
  case True
  let ?t = "s\<lparr>TUPLE_VALID_TABLE := (TUPLE_VALID_TABLE s)(i := False)\<rparr>"
  have "unat i \<in> registered_ids s" using True assms by (simp add: registered_iff)
  then have "mset_set (registered_ids s) = add_mset (unat i) (mset_set (registered_ids ?t))"
    using registered_upd [OF assms, of s False] mset_set.remove [of "registered_ids s" "unat i"]
    by simp
  moreover have "registered_ids (rlt_release i s) = registered_ids ?t"
    by (simp add: registered_ids_def rlt_release_def Let_def)
  ultimately show ?thesis
    using True unat_ucast_sess [OF assms]
    by (simp add: all_ids_def free_ids_def pending_ids_def released_ids_def cam_insert_ids_def
        rlt_release_def Let_def)
next
  case False
  then have "(TUPLE_VALID_TABLE s)(i := False) = TUPLE_VALID_TABLE s" by (simp add: fun_upd_idem)
  with False show ?thesis by (simp add: rlt_release_def where_defs)
qed

lemma wf_Rlt:
  assumes "slc_wf s" "pReverseLookupTable s = Some s'"
  shows "slc_wf s'"
proof (cases "sread (ssLrhToRlt_ReverseLkpRsp s)")
  case (Some p)
  then obtain ins si where r: "sread (ssLrhToRlt_ReverseLkpRsp s) = Some (ins, si)" by (cases p) auto
  then have "items (ssLrhToRlt_ReverseLkpRsp s) = ins # items si" by (simp add: sread_Some_iff)
  moreover have "all_ids s = mset [0..<TOE_MAX_SESSIONS]" using assms(1) by (simp add: slc_wf_def)
  ultimately show ?thesis
    using assms r ids_rlt_insert(2) [of s ins si] by (auto simp: pReverseLookupTable_def slc_wf_def)
next
  case None
  show ?thesis
  proof (cases "sread (slc_siSTt_SessReleaseCmd s)")
    case (Some p)
    then obtain i si where r: "sread (slc_siSTt_SessReleaseCmd s) = Some (i, si)" by (cases p) auto
    have "all_ids (s\<lparr>slc_siSTt_SessReleaseCmd := si\<rparr>) = all_ids s" by (simp add: where_defs)
    then show ?thesis
      using assms None r ids_rlt_release [of i "s\<lparr>slc_siSTt_SessReleaseCmd := si\<rparr>"]
      by (auto simp: pReverseLookupTable_def slc_wf_def sread_Some_iff) 
        (auto simp: rlt_release_def Let_def split: if_splits)
  next
    case N: None
    have "all_ids (s\<lparr>slc_siTXe_ReverseLkpReq := x, slc_soTXe_ReverseLkpRep := y\<rparr>) = all_ids s" for x y
      by (simp add: where_defs)
    then show ?thesis
      using assms None N
      by (auto simp: pReverseLookupTable_def slc_wf_def sread_Some_iff split: option.splits)
  qed
qed

lemma wf_frame:
  assumes "slc_wf s" "all_ids s' = all_ids s" "sim_counter s' = sim_counter s"
    "rlt_isInit s' = rlt_isInit s"
    "set (items (ssRltToUrs_SessDeleteReq s')) \<subseteq> set (items (ssRltToUrs_SessDeleteReq s))"
    "slc_siSTt_SessReleaseCmd s' = slc_siSTt_SessReleaseCmd s"
    "slc_siTXe_ReverseLkpReq s' = slc_siTXe_ReverseLkpReq s"
  shows "slc_wf s'"
  using assms by (auto simp: slc_wf_def)

lemma wf_Sim: "slc_wf s \<Longrightarrow> slc_wf (pSessionIdManager s)"
  by (rule wf_frame [OF _ ids_Sim])
    (auto simp: slc_wf_def pSessionIdManager_def TOE_MAX_SESSIONS_def split: option.splits)

lemma lrh_frame:
  "sim_counter (pLookupReplyHandler s) = sim_counter s"
  "rlt_isInit (pLookupReplyHandler s) = rlt_isInit s"
  "ssRltToUrs_SessDeleteReq (pLookupReplyHandler s) = ssRltToUrs_SessDeleteReq s"
  "slc_siSTt_SessReleaseCmd (pLookupReplyHandler s) = slc_siSTt_SessReleaseCmd s"
  "slc_siTXe_ReverseLkpReq (pLookupReplyHandler s) = slc_siTXe_ReverseLkpReq s"
  by (cases "lrh_fsmState s";
      auto simp: pLookupReplyHandler_def lrh_send_def lrh_reply_def Let_def split: option.splits)+

lemma wf_Lrh: "slc_wf s \<Longrightarrow> slc_wf (pLookupReplyHandler s)"
  by (rule wf_frame [OF _ ids_Lrh]) (simp_all add: lrh_frame)

lemma wf_Urs: "slc_wf s \<Longrightarrow> slc_wf (pUpdateRequestSender s)"
  by (rule wf_frame [OF _ ids_Urs])
    (auto simp: slc_wf_def pUpdateRequestSender_def Let_def sread_Some_iff split: option.splits)

lemma wf_Urh: "slc_wf s \<Longrightarrow> slc_wf (pUpdateReplyHandler s)"
  by (rule wf_frame [OF _ ids_Urh]) (auto simp: pUpdateReplyHandler_def Let_def split: option.splits)

lemma toecam_frame:
  "sim_counter (toecam s) = sim_counter s" "rlt_isInit (toecam s) = rlt_isInit s"
  "ssRltToUrs_SessDeleteReq (toecam s) = ssRltToUrs_SessDeleteReq s"
  "slc_siSTt_SessReleaseCmd (toecam s) = slc_siSTt_SessReleaseCmd s"
  "slc_siTXe_ReverseLkpReq (toecam s) = slc_siTXe_ReverseLkpReq s"
  by (auto simp: toecam_def Let_def split: option.splits cam_state.splits)

lemma wf_toecam: "slc_wf s \<Longrightarrow> slc_wf (toecam s)"
  by (rule wf_frame [OF _ ids_toecam]) (simp_all add: toecam_frame)

lemma wf_clients:
  assumes "slc_wf s"
  shows "sess_ok i \<Longrightarrow>
      slc_wf (s\<lparr>slc_siSTt_SessReleaseCmd := swrite (slc_siSTt_SessReleaseCmd s) i\<rparr>)"
    "sess_ok i \<Longrightarrow>
      slc_wf (s\<lparr>slc_siTXe_ReverseLkpReq := swrite (slc_siTXe_ReverseLkpReq s) i\<rparr>)"
    "slc_wf (s\<lparr>slc_siRXe_SessLookupReq := q\<rparr>)"
    "slc_wf (s\<lparr>slc_siTAi_SessLookupReq := p\<rparr>)"
    "slc_wf (s\<lparr>slc_soRXe_SessLookupRep := a, slc_soTAi_SessLookupRep := b,
      slc_soPRt_ClosePortCmd := c, slc_soTXe_ReverseLkpRep := d, slc_soSssRelCnt := e,
      slc_soSssRegCnt := f\<rparr>)"
proof -
  have ids: "all_ids (s\<lparr>slc_siSTt_SessReleaseCmd := x\<rparr>) = all_ids s"
    "all_ids (s\<lparr>slc_siTXe_ReverseLkpReq := x\<rparr>) = all_ids s" for x
    by (simp_all add: where_defs)
  show "sess_ok i \<Longrightarrow>
      slc_wf (s\<lparr>slc_siSTt_SessReleaseCmd := swrite (slc_siSTt_SessReleaseCmd s) i\<rparr>)"
    "sess_ok i \<Longrightarrow>
      slc_wf (s\<lparr>slc_siTXe_ReverseLkpReq := swrite (slc_siTXe_ReverseLkpReq s) i\<rparr>)"
    using assms by (auto simp: slc_wf_def ids)
  show "slc_wf (s\<lparr>slc_siRXe_SessLookupReq := q\<rparr>)" "slc_wf (s\<lparr>slc_siTAi_SessLookupReq := p\<rparr>)"
    "slc_wf (s\<lparr>slc_soRXe_SessLookupRep := a, slc_soTAi_SessLookupRep := b,
      slc_soPRt_ClosePortCmd := c, slc_soTXe_ReverseLkpRep := d, slc_soSssRelCnt := e,
      slc_soSssRegCnt := f\<rparr>)"
    by (rule wf_frame [OF assms]; simp add: where_defs)+
qed

lemma slc_step_wf:
  assumes "slc_step s s'" "slc_wf s"
  shows "slc_wf s'"
  using assms
proof cases
  case Rlt
  then show ?thesis using wf_Rlt assms(2) by blast
next
  case (STt i)
  then show ?thesis using wf_clients(1) assms(2) by blast
next
  case (TXe i)
  then show ?thesis using wf_clients(2) assms(2) by blast
qed (use assms(2) in \<open>simp_all add: wf_Sim wf_Lrh wf_Urs wf_Urh wf_toecam wf_clients\<close>)

lemma slc_ready_wf: "slc_wf (slc_ready rv)"
proof -
  have "mset [0..<TOE_MAX_SESSIONS] = mset [0, 1, 2, 3, 4, 5, 6, 7]"
    by code_simp
  then show ?thesis
    by (simp add: slc_wf_def where_defs slc_ready_def slc_reset_def del: mset_upt)
qed

lemma slc_reaches_wf:
  assumes "slc_reaches (slc_ready rv) s"
  shows "slc_wf s"
  using assms by induction (use slc_ready_wf slc_step_wf in blast)+

lemma rlt_defined:
  assumes "slc_wf s"
  shows "\<exists>s'. pReverseLookupTable s = Some s'"
proof -
  have "sess_ok (rlk_key ins)" if "sread (ssLrhToRlt_ReverseLkpRsp s) = Some (ins, si)" for ins si
    using ids_rlt_insert(1) [of s ins si] assms that by (simp add: slc_wf_def sread_Some_iff)
  with assms show ?thesis
    by (auto simp: pReverseLookupTable_def slc_wf_def sread_Some_iff split: option.splits)
qed

section \<open>One request at a time\<close>

text \<open>The lookups that the memory has not answered, the insertions that it has not made, and the
  number of insertions that are made but not yet reported to the lookup reply handler.\<close>

definition open_lookups :: "SLc \<Rightarrow> CamSessionLookupRequest multiset" where
  "open_lookups s = mset (items (siTOE_SssLkpReq s)) +
     (if cam_fsmState s = CAM_LOOKUP_REP then {#cam_request s#} else {#})"

definition open_inserts :: "SLc \<Rightarrow> CamSessionUpdateRequest multiset" where
  "open_inserts s = filter_mset (\<lambda>u. cuq_op u = INSERT)
     (mset (items (ssLrhToUrs_InsertSessReq s)) + mset (items (siTOE_SssUpdReq s)) +
      (if cam_fsmState s = CAM_UPDATE_REP then {#cam_update s#} else {#}))"

definition made_inserts :: "SLc \<Rightarrow> nat" where
  "made_inserts s = size (filter_mset (\<lambda>r. cur_op r = INSERT) (mset (items (soTOE_SssUpdRep s)))) +
     length (items (ssUrhToLrh_SessUpdateRsp s))"

definition lookup_idle :: "SLc \<Rightarrow> bool" where
  "lookup_idle s \<longleftrightarrow> open_lookups s = {#} \<and> items (soTOE_SssLkpRep s) = [] \<and>
     items (ssLookupPipe s) = []"

definition lookup_busy :: "SLc \<Rightarrow> bool" where
  "lookup_busy s \<longleftrightarrow> (\<exists>q. items (ssLookupPipe s) = [q] \<and>
     (open_lookups s = {#\<lparr>clq_key = slcq_tuple q, clq_source = slcq_source q\<rparr>#} \<and>
        items (soTOE_SssLkpRep s) = [] \<or>
      open_lookups s = {#} \<and>
        (\<exists>r. items (soTOE_SssLkpRep s) = [r] \<and>
           (clr_hit r \<or> camLookup (slcq_tuple q) (CamArray s) = None))))"

definition insert_idle :: "SLc \<Rightarrow> bool" where
  "insert_idle s \<longleftrightarrow> open_inserts s = {#} \<and> made_inserts s = 0 \<and> items (ssInsertPipe s) = []"

definition insert_busy :: "SLc \<Rightarrow> bool" where
  "insert_busy s \<longleftrightarrow> (\<exists>k. items (ssInsertPipe s) = [k]) \<and>
     ((\<exists>u. open_inserts s = {#u#} \<and> made_inserts s = 0 \<and>
         camLookup (cuq_key u) (CamArray s) = None) \<or>
      open_inserts s = {#} \<and> made_inserts s = 1)"

definition slc_lock :: "SLc \<Rightarrow> bool" where
  "slc_lock s \<longleftrightarrow> cam_wf (CamArray s) \<and>
     (case lrh_fsmState s of
        WAIT_FOR_SESS_LKP_REQ \<Rightarrow> lookup_idle s \<and> insert_idle s
      | WAIT_FOR_CAM_LKP_REP \<Rightarrow> lookup_busy s \<and> insert_idle s
      | WAIT_FOR_CAM_UPD_REP \<Rightarrow> lookup_idle s \<and> insert_busy s)"

lemmas open_defs = open_lookups_def open_inserts_def made_inserts_def
lemmas lock_defs = lookup_idle_def lookup_busy_def insert_idle_def insert_busy_def

text \<open>What the locks depend on.\<close>

lemma lock_cong:
  assumes "slc_lock s" "CamArray s' = CamArray s" "lrh_fsmState s' = lrh_fsmState s"
    "open_lookups s' = open_lookups s" "open_inserts s' = open_inserts s"
    "made_inserts s' = made_inserts s" "soTOE_SssLkpRep s' = soTOE_SssLkpRep s"
    "ssLookupPipe s' = ssLookupPipe s" "ssInsertPipe s' = ssInsertPipe s"
  shows "slc_lock s'"
  using assms by (simp add: slc_lock_def lock_defs cong: lrh_state.case_cong)

lemma lock_Sim: "slc_lock s \<Longrightarrow> slc_lock (pSessionIdManager s)"
  by (erule lock_cong) (auto simp: pSessionIdManager_def open_defs split: option.splits)

lemma lock_Urs:
  assumes "slc_lock s" "\<forall>u \<in> set (items (ssRltToUrs_SessDeleteReq s)). cuq_op u = DELETE"
  shows "slc_lock (pUpdateRequestSender s)"
  by (rule lock_cong [OF assms(1)])
    (use assms(2) in \<open>auto simp: pUpdateRequestSender_def open_defs Let_def sread_Some_iff
       split: option.splits\<close>)

lemma lock_Urh: "slc_lock s \<Longrightarrow> slc_lock (pUpdateReplyHandler s)"
  by (erule lock_cong)
    (auto simp: pUpdateReplyHandler_def open_defs Let_def sread_Some_iff split: option.splits)

lemma lock_Rlt: "slc_lock s \<Longrightarrow> pReverseLookupTable s = Some s' \<Longrightarrow> slc_lock s'"
  by (erule lock_cong)
    (auto simp: pReverseLookupTable_def rlt_release_def open_defs Let_def
      split: option.splits if_splits)

lemma cam_wf_insert:
  "cam_wf cs \<Longrightarrow> camLookup k cs = None \<Longrightarrow>
     cam_wf (fst (camInsert \<lparr>kvp_key = k, kvp_value = v, kvp_valid = True\<rparr> cs))"
  using cam.insert_room [of cs k v] cam.insert_full [of cs k v] by (fastforce simp: cam_insert_def)

lemma cam_wf_delete: "cam_wf cs \<Longrightarrow> cam_wf (fst (camDelete k cs))"
  using cam.delete_law by blast

lemma camLookup_delete: "cam_wf cs \<Longrightarrow> camLookup k cs = None \<Longrightarrow>
    camLookup k (fst (camDelete k' cs)) = None"
  using cam.delete_law [of cs k'] by simp

lemma lock_toecam:
  assumes "slc_lock s"
  shows "slc_lock (toecam s)"
proof (cases "cam_startupDelay s")
  case (Suc n)
  then show ?thesis
    by (intro lock_cong [OF assms]) (simp_all add: toecam_def open_defs)
next
  case 0
  have wf: "cam_wf (CamArray s)" using assms by (simp add: slc_lock_def)
  show ?thesis
  proof (cases "cam_fsmState s")
    case CAM_WAIT_4_REQ
    then show ?thesis
      by (intro lock_cong [OF assms])
        (use 0 in \<open>auto simp: toecam_def open_defs sread_Some_iff Let_def split: option.splits\<close>)
  next
    case CAM_LOOKUP_REP
    then show ?thesis
      using assms 0
      by (auto simp: toecam_def slc_lock_def lock_defs open_defs Let_def
          split: option.splits lrh_state.splits if_splits)
  next
    case CAM_UPDATE_REP
    show ?thesis
    proof (cases "0 < cam_idleCnt s")
      case True
      then show ?thesis
        by (intro lock_cong [OF assms])
          (use 0 CAM_UPDATE_REP in \<open>simp_all add: toecam_def open_defs Let_def\<close>)
    next
      case idle: False
      show ?thesis
      proof (cases "cuq_op (cam_update s)")
        case INSERT
        then show ?thesis
          using assms 0 CAM_UPDATE_REP idle cam_wf_insert [OF wf]
          by (auto simp: toecam_def slc_lock_def lock_defs open_defs Let_def
              split: lrh_state.splits)
      next
        case DELETE
        then show ?thesis
          using assms 0 CAM_UPDATE_REP idle cam_wf_delete [OF wf] camLookup_delete [OF wf]
          by (auto simp: toecam_def slc_lock_def lock_defs open_defs Let_def
              split: lrh_state.splits)
      qed
    qed
  qed
qed

lemma lock_Lrh:
  assumes "slc_lock s"
  shows "slc_lock (pLookupReplyHandler s)"
proof (cases "lrh_fsmState s")
  case WAIT_FOR_SESS_LKP_REQ
  then show ?thesis
    using assms
    by (auto simp: pLookupReplyHandler_def lrh_send_def slc_lock_def lock_defs open_defs
        split: option.splits)
next
  case WAIT_FOR_CAM_LKP_REP
  then have st: "cam_wf (CamArray s)" "lookup_busy s" "insert_idle s"
    using assms by (simp_all add: slc_lock_def)
  obtain q where q: "items (ssLookupPipe s) = [q]" using st(2) by (auto simp: lookup_busy_def)
  show ?thesis
  proof (cases "items (soTOE_SssLkpRep s)")
    case Nil
    then show ?thesis using assms WAIT_FOR_CAM_LKP_REP by (simp add: pLookupReplyHandler_def)
  next
    case (Cons r rs)
    then have r: "rs = []" "open_lookups s = {#}"
      "clr_hit r \<or> camLookup (slcq_tuple q) (CamArray s) = None"
      using st(2) q by (auto simp: lookup_busy_def)
    show ?thesis
    proof (cases "\<not> clr_hit r \<and> slcq_allowCreation q \<and> items (ssSimToLrh_FreeList s) \<noteq> []")
      case True
      then obtain i ids where "items (ssSimToLrh_FreeList s) = i # ids"
        by (cases "items (ssSimToLrh_FreeList s)") auto
      then show ?thesis
        using True Cons q r st WAIT_FOR_CAM_LKP_REP
        by (auto simp: pLookupReplyHandler_def sread_cons sempty_def slc_lock_def insert_idle_def
            insert_busy_def lookup_idle_def open_defs split: if_splits)
    next
      case False
      then show ?thesis
        using Cons q r st WAIT_FOR_CAM_LKP_REP
        by (auto simp: pLookupReplyHandler_def sread_cons sempty_def slc_lock_def insert_idle_def
            lookup_idle_def open_defs lrh_reply_def Let_def)
    qed
  qed
next
  case WAIT_FOR_CAM_UPD_REP
  then have st: "cam_wf (CamArray s)" "lookup_idle s" "insert_busy s"
    using assms by (simp_all add: slc_lock_def)
  obtain k where k: "items (ssInsertPipe s) = [k]" using st(3) by (auto simp: insert_busy_def)
  show ?thesis
  proof (cases "items (ssUrhToLrh_SessUpdateRsp s)")
    case Nil
    then show ?thesis using assms WAIT_FOR_CAM_UPD_REP by (simp add: pLookupReplyHandler_def)
  next
    case (Cons r rs)
    then have "made_inserts s = 1" "open_inserts s = {#}" "rs = []"
      "filter_mset (\<lambda>r. cur_op r = INSERT) (mset (items (soTOE_SssUpdRep s))) = {#}"
      using st(3) by (auto simp: insert_busy_def made_inserts_def)
    then show ?thesis
      using Cons k st WAIT_FOR_CAM_UPD_REP
      by (auto simp: pLookupReplyHandler_def sread_cons slc_lock_def insert_idle_def
          lookup_idle_def open_defs lrh_reply_def Let_def)
  qed
qed

lemma slc_step_lock:
  assumes "slc_step s s'" "slc_lock s" "slc_wf s"
  shows "slc_lock s'"
  using assms
proof cases
  case Rlt
  then show ?thesis using lock_Rlt assms(2) by blast
next
  case Urs
  then show ?thesis using lock_Urs assms(2,3) by (simp add: slc_wf_def)
qed (use assms(2) lock_Sim lock_Lrh lock_Urh lock_toecam in
    \<open>auto intro: lock_cong [OF assms(2)] simp: open_defs\<close>)

lemma slc_ready_lock: "slc_lock (slc_ready rv)"
  by (simp add: slc_lock_def lock_defs open_defs slc_ready_def slc_reset_def)

lemma slc_reaches_lock:
  assumes "slc_reaches (slc_ready rv) s"
  shows "slc_lock s"
  using assms
proof induction
  case slc_start
  show ?case by (rule slc_ready_lock)
next
  case (slc_next t u)
  then show ?case using slc_step_lock slc_reaches_wf by blast
qed

section \<open>The first cycles after reset\<close>

definition slc_boot :: "(SessionId \<Rightarrow> FourTuple) \<Rightarrow> (SessionId \<Rightarrow> bool) \<Rightarrow> nat \<Rightarrow> SLc" where
  "slc_boot rv valid n = (slc_reset rv (\<lambda>i. n \<le> unat i \<and> valid i))\<lparr>
     ssSimToLrh_FreeList := Stream 16384 (map of_nat [0..<n]), sim_counter := of_nat n,
     rlt_counter := of_nat n,
     slc_soSssRegCnt := Stream 1 (if n = 0 then [] else [0]),
     slc_soSssRelCnt := Stream 1 (if n = 0 then [] else [0])\<rparr>"

lemma slc_boot_0: "slc_boot rv valid 0 = slc_reset rv valid"
  by (simp add: slc_boot_def slc_reset_def)

lemma unat_of_nat_14: "n \<le> 8 \<Longrightarrow> unat (of_nat n :: RtlSessId) = n"
  by (simp add: unsigned_of_nat take_bit_nat_eq_self)

lemma valid_upd:
  assumes "n < 8"
  shows "(\<lambda>i. n \<le> unat i \<and> valid i)(ucast (of_nat n :: RtlSessId) := False) =
    (\<lambda>i. Suc n \<le> unat (i :: SessionId) \<and> valid i)"
proof
  fix i :: SessionId
  have "unat (ucast (of_nat n :: RtlSessId) :: SessionId) = n"
    using assms by (simp add: unat_of_nat_14)
  then show "((\<lambda>i. n \<le> unat i \<and> valid i)(ucast (of_nat n :: RtlSessId) := False)) i =
    (Suc n \<le> unat i \<and> valid i)"
    by (auto simp: word_unat_eq_iff)
qed

lemma lrh_no_request:
  "lrh_fsmState s = WAIT_FOR_SESS_LKP_REQ \<Longrightarrow> items (slc_siTAi_SessLookupReq s) = [] \<Longrightarrow>
     items (slc_siRXe_SessLookupReq s) = [] \<Longrightarrow> pLookupReplyHandler s = s"
  by (simp add: pLookupReplyHandler_def)

lemma urh_no_reply: "items (soTOE_SssUpdRep s) = [] \<Longrightarrow> pUpdateReplyHandler s = s"
  by (simp add: pUpdateReplyHandler_def)

lemma urs_no_request:
  assumes "items (ssLrhToUrs_InsertSessReq s) = []" "items (ssRltToUrs_SessDeleteReq s) = []"
    "urs_insertedSessions s = 0" "urs_releasedSessions s = 0"
    "slc_soSssRegCnt s = Stream 1 (if n = 0 then [] else [0])"
    "slc_soSssRelCnt s = Stream 1 (if n = (0::nat) then [] else [0])"
  shows "pUpdateRequestSender s = s\<lparr>slc_soSssRegCnt := Stream 1 [0], slc_soSssRelCnt := Stream 1 [0]\<rparr>"
proof (cases n)
  case 0
  then show ?thesis using assms by (simp add: pUpdateRequestSender_def stream_simps)
next
  case (Suc m)
  then have "s = s\<lparr>slc_soSssRegCnt := Stream 1 [0], slc_soSssRelCnt := Stream 1 [0]\<rparr>"
    using assms(5,6) by simp
  then show ?thesis using Suc assms by (simp add: pUpdateRequestSender_def stream_simps)
qed

lemma slc_boot_run:
  assumes "n \<le> 8"
  shows "session_lookup_controller (slc_boot rv valid n) =
     pReverseLookupTable ((slc_boot rv valid n)\<lparr>
       ssSimToLrh_FreeList := Stream 16384 (map of_nat [0..<min 8 (Suc n)]),
       sim_counter := of_nat (min 8 (Suc n)),
       slc_soSssRegCnt := Stream 1 [0], slc_soSssRelCnt := Stream 1 [0]\<rparr>)"
proof -
  let ?b = "slc_boot rv valid n"
  have sim: "pSessionIdManager ?b = ?b\<lparr>
       ssSimToLrh_FreeList := Stream 16384 (map of_nat [0..<min 8 (Suc n)]),
       sim_counter := of_nat (min 8 (Suc n))\<rparr>"
  proof (cases "n = 8")
    case True
    then have "(of_nat n :: RtlSessId) = 8" "min 8 (Suc n) = 8" by simp_all
    with True show ?thesis
      by (simp add: pSessionIdManager_def slc_boot_def slc_reset_def TOE_MAX_SESSIONS_def stream_simps)
  next
    case False
    then have "(of_nat n :: RtlSessId) < 8" "min 8 (Suc n) = Suc n"
      using assms by (simp_all add: word_less_nat_alt unat_of_nat_14)
    then show ?thesis
      by (simp add: pSessionIdManager_def slc_boot_def TOE_MAX_SESSIONS_def stream_simps add.commute)
  qed
  define t where "t = ?b\<lparr>
       ssSimToLrh_FreeList := Stream 16384 (map of_nat [0..<min 8 (Suc n)]),
       sim_counter := of_nat (min 8 (Suc n))\<rparr>"
  have t: "lrh_fsmState t = WAIT_FOR_SESS_LKP_REQ" "items (slc_siTAi_SessLookupReq t) = []"
    "items (slc_siRXe_SessLookupReq t) = []" "items (soTOE_SssUpdRep t) = []"
    "items (ssLrhToUrs_InsertSessReq t) = []" "items (ssRltToUrs_SessDeleteReq t) = []"
    "urs_insertedSessions t = 0" "urs_releasedSessions t = 0"
    "slc_soSssRegCnt t = Stream 1 (if n = 0 then [] else [0])"
    "slc_soSssRelCnt t = Stream 1 (if n = 0 then [] else [0])"
    by (simp_all add: t_def slc_boot_def slc_reset_def)
  have "session_lookup_controller ?b = pReverseLookupTable (t\<lparr>slc_soSssRegCnt := Stream 1 [0],
      slc_soSssRelCnt := Stream 1 [0]\<rparr>)"
    unfolding session_lookup_controller_def sim t_def [symmetric] lrh_no_request [OF t(1-3)]
      urs_no_request [OF t(5-10)]
    by (subst urh_no_reply) (simp_all add: t(4))
  then show ?thesis by (simp add: t_def)
qed

lemma slc_boot_step:
  assumes "n < 8"
  shows "session_lookup_controller (slc_boot rv valid n) = Some (slc_boot rv valid (Suc n))"
proof -
  have less: "(of_nat n :: RtlSessId) < 8"
    using assms by (simp add: word_less_nat_alt unat_of_nat_14)
  have ok: "sess_ok (of_nat n :: RtlSessId)" using assms by (simp add: sess_ok_iff unat_of_nat_14)
  have "min 8 (Suc n) = Suc n" using assms by simp
  then have "session_lookup_controller (slc_boot rv valid n) =
     pReverseLookupTable ((slc_boot rv valid n)\<lparr>
       ssSimToLrh_FreeList := Stream 16384 (map of_nat [0..<Suc n]), sim_counter := of_nat (Suc n),
       slc_soSssRegCnt := Stream 1 [0], slc_soSssRelCnt := Stream 1 [0]\<rparr>)"
    using slc_boot_run [of n rv valid] assms by (simp del: upt_Suc of_nat_Suc)
  also have "\<dots> = Some (slc_boot rv valid (Suc n))"
    using less ok valid_upd [OF assms, of valid]
    by (simp add: pReverseLookupTable_def slc_boot_def slc_reset_def TOE_MAX_SESSIONS_def add.commute
        del: upt_Suc)
  finally show ?thesis .
qed

lemma slc_boot_steps: "n \<le> 8 \<Longrightarrow>
    steps session_lookup_controller n (slc_reset rv valid) = Some (slc_boot rv valid n)"
proof (induction n)
  case (Suc n)
  then show ?case
    using steps_add [of session_lookup_controller n 1] by (simp add: slc_boot_step)
qed (simp add: slc_boot_0)

section \<open>Properties\<close>

text \<open>C38. Session identifiers are conserved: in every state that the controller and the memory
  reach, each of the eight identifiers is in exactly one place; it is free, or belongs to an
  insertion under way, or is registered, or is being released.  So no identifier is given to two
  connections, and the reverse table is never accessed out of its bounds.\<close>

theorem slc_ids_conserved:
  assumes "slc_reaches (slc_ready rv) s"
  shows "mset (free_ids s) + mset (pending_ids s) + mset_set (registered_ids s) +
       mset (released_ids s) = mset [0..<TOE_MAX_SESSIONS] \<and>
     distinct (free_ids s @ pending_ids s @ released_ids s) \<and>
     (\<exists>s'. pReverseLookupTable s = Some s')"
proof -
  have wf: "slc_wf s" by (rule slc_reaches_wf [OF assms])
  then have eq: "all_ids s = mset [0..<TOE_MAX_SESSIONS]" by (simp add: slc_wf_def)
  define xs where "xs = free_ids s @ pending_ids s @ released_ids s"
  have "count (mset xs) i = (if i \<in> set xs then 1 else 0)" for i
  proof -
    have "count (mset xs) i \<le> count (all_ids s) i" by (simp add: xs_def all_ids_def)
    also have "\<dots> \<le> 1" by (simp add: eq count_mset_set')
    finally have "count (mset xs) i \<le> 1" .
    moreover have "count (mset xs) i = 0 \<longleftrightarrow> i \<notin> set xs"
      by (simp add: count_eq_zero_iff)
    ultimately show ?thesis
      by (cases "count (mset xs) i") (simp_all del: count_eq_zero_iff)
  qed
  then have "distinct (free_ids s @ pending_ids s @ released_ids s)"
    by (simp add: distinct_count_atmost_1 flip: xs_def)
  then show ?thesis using eq rlt_defined [OF wf] by (simp add: all_ids_def)
qed

theorem slc_ids_conserved_witness:
  "let s = pLookupReplyHandler (slc_ready (\<lambda>_. undefined))
   in mset (free_ids s) + mset (pending_ids s) + mset_set (registered_ids s) +
       mset (released_ids s) = mset [0..<8]"
  using slc_ids_conserved [OF slc_next [OF slc_start Lrh]]
  by (simp add: Let_def TOE_MAX_SESSIONS_def)

text \<open>No connection has two entries: in every state that the controller and the memory reach,
  the valid entries of the memory have distinct tuples, although \<open>camInsert\<close> does not look for
  the key, because the lookup reply handler keeps every further request waiting until an
  insertion that follows a miss is complete.\<close>

theorem slc_cam_keys_distinct:
  assumes "slc_reaches (slc_ready rv) s"
  shows "distinct (cam_keys (CamArray s)) \<and> length (CamArray s) = CAM_SIZE \<and>
     (lrh_fsmState s = WAIT_FOR_SESS_LKP_REQ \<or> items (ssLookupPipe s) \<noteq> [] \<or>
      items (ssInsertPipe s) \<noteq> []) \<and>
     size (open_lookups s) + length (items (soTOE_SssLkpRep s)) + size (open_inserts s) +
       made_inserts s \<le> 1"
  using slc_reaches_lock [OF assms]
  by (auto simp: slc_lock_def cam_wf_def lock_defs split: lrh_state.splits)

theorem slc_cam_keys_distinct_witness:
  "distinct (cam_keys (CamArray (toecam (slc_ready (\<lambda>_. undefined)))))"
  using slc_cam_keys_distinct [OF slc_next [OF slc_start Cam]] by blast

text \<open>Initialisation: eight cycles after reset the list of free identifiers is complete and
  every tuple is invalid, whatever the memories held; the ninth cycle clears one entry more,
  beyond the table.\<close>

theorem slc_init_out_of_bounds:
  "\<exists>s. steps session_lookup_controller 8 (slc_reset rv valid) = Some s \<and>
     items (ssSimToLrh_FreeList s) = [0, 1, 2, 3, 4, 5, 6, 7] \<and>
     registered_ids s = {} \<and> session_lookup_controller s = None"
proof -
  have "items (ssSimToLrh_FreeList (slc_boot rv valid 8)) = [0, 1, 2, 3, 4, 5, 6, 7]"
    by (simp add: slc_boot_def upt_rec)
  moreover have "registered_ids (slc_boot rv valid 8) = {}"
    by (auto simp: registered_ids_def slc_boot_def slc_reset_def TOE_MAX_SESSIONS_def
        unsigned_of_nat take_bit_nat_eq_self)
  moreover have "session_lookup_controller (slc_boot rv valid 8) = None"
    by (subst slc_boot_run) (simp_all add: pReverseLookupTable_def slc_boot_def slc_reset_def
        in_bounds_def sess_ok_iff)
  ultimately show ?thesis using slc_boot_steps [of 8 rv valid] by blast
qed

end
