(* ===== verification/Rx_Path.thy ===== *)
theory Rx_Path
  imports Toe_Types
begin

unbundle bit_operations_syntax

text \<open>
  The data path of the Rx engine, \<open>NTS/toe/src/rx_engine/src/rx_engine.cpp\<close>: the payload of a
  segment passes the dropper of segments with an invalid checksum (Tid), the dropper that obeys
  the metadata handler and the state machine (Tsd) and the memory writer (Mwr), which splits a
  segment at the end of the ring buffer; the notifier (Ran) tells the application once the
  memory has confirmed.  The theory shows which segments pass, in which order, and how the
  writer splits.
\<close>

section \<open>Data\<close>

text \<open>A chunk of 8 bytes, the first one in the low bits of \<open>tdata\<close>.\<close>

record AxisApp =
  ax_tdata :: "64 word"
  ax_tkeep :: "8 word"
  ax_tlast :: bool

definition AxisApp_zero :: AxisApp where
  "AxisApp_zero = \<lparr>ax_tdata = 0, ax_tkeep = 0, ax_tlast = False\<rparr>"

definition keepToLen :: "8 word \<Rightarrow> nat" where
  "keepToLen k =
     (if k = 0x01 then 1 else if k = 0x03 then 2 else if k = 0x07 then 3
      else if k = 0x0F then 4 else if k = 0x1F then 5 else if k = 0x3F then 6
      else if k = 0x7F then 7 else if k = 0xFF then 8 else 0)"

definition getLen :: "AxisApp \<Rightarrow> nat" where
  "getLen c = keepToLen (ax_tkeep c)"

definition lenToLE_tKeep :: "4 word \<Rightarrow> 8 word" where
  "lenToLE_tKeep n =
     (if n = 1 then 0x01 else if n = 2 then 0x03 else if n = 3 then 0x07
      else if n = 4 then 0x0F else if n = 5 then 0x1F else if n = 6 then 0x3F
      else if n = 7 then 0x7F else if n = 8 then 0xFF else 0)"

record DmCmd =
  dm_btt :: "23 word"
  dm_type :: bool
  dm_dsa :: "6 word"
  dm_eof :: bool
  dm_drr :: bool
  dm_saddr :: "40 word"
  dm_tag :: "4 word"
  dm_rsvd :: "4 word"

definition DmCmd_of :: "40 word \<Rightarrow> 23 word \<Rightarrow> DmCmd" where
  "DmCmd_of addr len = \<lparr>dm_btt = len, dm_type = True, dm_dsa = 0, dm_eof = True, dm_drr = True,
     dm_saddr = addr, dm_tag = 0, dm_rsvd = 0\<rparr>"

record DmSts =
  ds_tag :: "4 word"
  ds_interr :: bool
  ds_decerr :: bool
  ds_slverr :: bool
  ds_okay :: bool

definition DmSts_zero :: DmSts where
  "DmSts_zero = \<lparr>ds_tag = 0, ds_interr = False, ds_decerr = False, ds_slverr = False,
     ds_okay = False\<rparr>"

text \<open>Commands of one bit (\<open>CMD_DROP\<close> is 1).\<close>

definition CMD_DROP :: bool where [simp]: "CMD_DROP = True"
definition CMD_KEEP :: bool where [simp]: "CMD_KEEP = False"

definition TOE_RX_BUFFER_SIZE :: nat where
  "TOE_RX_BUFFER_SIZE = 65536"

section \<open>State\<close>

datatype TidStates = TID_IDLE | TID_FWD | TID_DROP

datatype TsdStates = TSD_RD_DROP_CMD1 | TSD_RD_DROP_CMD2 | TSD_FWD | TSD_DROP

datatype MwrStates = MWR_IDLE | MWR_FWD_ALIGNED | MWR_SPLIT_1ST_CMD | MWR_FWD_1ST_BUF
  | MWR_FWD_2ND_BUF | MWR_RESIDUE

text \<open>The streams carry the names of the local streams of \<open>rx_engine\<close> where both ends are in it.\<close>

record RXp =
  ssCsaToTid_Data :: "AxisApp stream"
  ssCsaToTid_DataValid :: "bool stream"
  ssTidToTsd_Data :: "AxisApp stream"
  tid_soMMIO_CrcDropCnt :: "8 word stream"
  tid_fsmState :: TidStates
  tid_crcDropCounter :: "8 word"
  ssMdhToTsd_DropCmd :: "bool stream"
  ssFsmToTsd_DropCmd :: "bool stream"
  ssTsdToMwr_Data :: "AxisApp stream"
  tsd_fsmState :: TsdStates
  ssFsmToMwr_WrCmd :: "DmCmd stream"
  mwr_soMEM_WrCmd :: "DmCmd stream"
  mwr_soMEM_WrData :: "AxisApp stream"
  ssMwrToRan_SplitSeg :: "bool stream"
  mwr_fsmState :: MwrStates
  mwr_memWrCmd :: DmCmd
  mwr_currChunk :: AxisApp
  mwr_firstAccLen :: RxBufPtr
  mwr_nrBytesToWr :: TcpSegLen
  mwr_splitOffset :: "4 word"
  ran_siMEM_WrSts :: "DmSts stream"
  ssFsmToRan_Notif :: "TcpAppNotif stream"
  ran_soRAi_RxNotif :: "TcpAppNotif stream"
  ran_soMMIO_MemWrErr :: "bool stream"
  ssRxNotifFifo :: "TcpAppNotif stream"
  ran_doubleAccessFlag :: bool
  ran_dataMoverError :: bool
  ran_dmStatus1 :: DmSts
  ran_dmStatus2 :: DmSts
  ran_appNotification :: TcpAppNotif

section \<open>The dropper of segments with an invalid checksum\<close>

definition tid_always :: "'a RXp_scheme \<Rightarrow> 'a RXp_scheme" where
  "tid_always s =
     (if \<not> sfull (tid_soMMIO_CrcDropCnt s)
      then s\<lparr>tid_soMMIO_CrcDropCnt := swrite (tid_soMMIO_CrcDropCnt s) (tid_crcDropCounter s)\<rparr>
      else s)"

definition pTcpInvalidDropper :: "'a RXp_scheme \<Rightarrow> 'a RXp_scheme" where
  "pTcpInvalidDropper s = tid_always
     (case tid_fsmState s of
        TID_IDLE \<Rightarrow>
          (case sread (ssCsaToTid_DataValid s) of
             None \<Rightarrow> s
           | Some (validBit, si) \<Rightarrow>
               (let s = s\<lparr>ssCsaToTid_DataValid := si\<rparr> in
                if validBit then s\<lparr>tid_fsmState := TID_FWD\<rparr>
                else s\<lparr>tid_fsmState := TID_DROP, tid_crcDropCounter := tid_crcDropCounter s + 1\<rparr>))
      | TID_FWD \<Rightarrow>
          (if \<not> sempty (ssCsaToTid_Data s) \<and> \<not> sfull (ssTidToTsd_Data s) then
             (case sread (ssCsaToTid_Data s) of
                None \<Rightarrow> s
              | Some (currChunk, si) \<Rightarrow>
                  (let s = s\<lparr>ssCsaToTid_Data := si,
                             ssTidToTsd_Data := swrite (ssTidToTsd_Data s) currChunk\<rparr>
                   in if ax_tlast currChunk then s\<lparr>tid_fsmState := TID_IDLE\<rparr> else s))
           else s)
      | TID_DROP \<Rightarrow>
          (case sread (ssCsaToTid_Data s) of
             None \<Rightarrow> s
           | Some (currChunk, si) \<Rightarrow>
               (let s = s\<lparr>ssCsaToTid_Data := si\<rparr>
                in if ax_tlast currChunk then s\<lparr>tid_fsmState := TID_IDLE\<rparr> else s)))"

section \<open>The segment dropper\<close>

definition pTcpSegmentDropper :: "'a RXp_scheme \<Rightarrow> 'a RXp_scheme" where
  "pTcpSegmentDropper s =
     (case tsd_fsmState s of
        TSD_RD_DROP_CMD1 \<Rightarrow>
          (case sread (ssMdhToTsd_DropCmd s) of
             None \<Rightarrow> s
           | Some (dropCmd, si) \<Rightarrow>
               s\<lparr>ssMdhToTsd_DropCmd := si,
                 tsd_fsmState := (if dropCmd then TSD_DROP else TSD_RD_DROP_CMD2)\<rparr>)
      | TSD_RD_DROP_CMD2 \<Rightarrow>
          (case sread (ssFsmToTsd_DropCmd s) of
             None \<Rightarrow> s
           | Some (dropCmd, si) \<Rightarrow>
               s\<lparr>ssFsmToTsd_DropCmd := si,
                 tsd_fsmState := (if dropCmd then TSD_DROP else TSD_FWD)\<rparr>)
      | TSD_FWD \<Rightarrow>
          (if \<not> sempty (ssTidToTsd_Data s) \<and> \<not> sfull (ssTsdToMwr_Data s) then
             (case sread (ssTidToTsd_Data s) of
                None \<Rightarrow> s
              | Some (currChunk, si) \<Rightarrow>
                  (let s = s\<lparr>ssTidToTsd_Data := si,
                             ssTsdToMwr_Data := swrite (ssTsdToMwr_Data s) currChunk\<rparr>
                   in if ax_tlast currChunk then s\<lparr>tsd_fsmState := TSD_RD_DROP_CMD1\<rparr> else s))
           else s)
      | TSD_DROP \<Rightarrow>
          (case sread (ssTidToTsd_Data s) of
             None \<Rightarrow> s
           | Some (currChunk, si) \<Rightarrow>
               (let s = s\<lparr>ssTidToTsd_Data := si\<rparr>
                in if ax_tlast currChunk then s\<lparr>tsd_fsmState := TSD_RD_DROP_CMD1\<rparr> else s)))"

section \<open>The memory writer\<close>

text \<open>A bit range \<open>(hi, lo)\<close> of a word, read and assigned.\<close>

definition get_range :: "nat \<Rightarrow> nat \<Rightarrow> 'a::len word \<Rightarrow> 'a word" where
  "get_range hi lo w = take_bit (hi + 1 - lo) (drop_bit lo w)"

definition set_range :: "nat \<Rightarrow> nat \<Rightarrow> 'a::len word \<Rightarrow> 'a word \<Rightarrow> 'a word" where
  "set_range hi lo v w =
     (w AND NOT (push_bit lo (mask (hi + 1 - lo)))) OR push_bit lo (take_bit (hi + 1 - lo) v)"

text \<open>The second command of a split segment, at the start of the ring.\<close>

definition mwr_second_cmd :: "'a RXp_scheme \<Rightarrow> 'a RXp_scheme" where
  "mwr_second_cmd s =
     (let c = mwr_memWrCmd s;
          c = c\<lparr>dm_saddr := set_range 15 0 0 (dm_saddr c),
                dm_btt := dm_btt c - ucast (mwr_firstAccLen s)\<rparr>
      in s\<lparr>mwr_memWrCmd := c, mwr_soMEM_WrCmd := swrite (mwr_soMEM_WrCmd s) c\<rparr>)"

definition mwr_idle :: "'a RXp_scheme \<Rightarrow> 'a RXp_scheme" where
  "mwr_idle s =
     (if \<not> sempty (ssFsmToMwr_WrCmd s) \<and> \<not> sfull (ssMwrToRan_SplitSeg s) \<and>
         \<not> sfull (mwr_soMEM_WrCmd s) then
        (case sread (ssFsmToMwr_WrCmd s) of
           None \<Rightarrow> s
         | Some (c, si) \<Rightarrow>
             (let s = s\<lparr>ssFsmToMwr_WrCmd := si, mwr_memWrCmd := c\<rparr> in
              if TOE_RX_BUFFER_SIZE < unat (get_range 15 0 (dm_saddr c)) + unat (dm_btt c)
              then s\<lparr>ssMwrToRan_SplitSeg := swrite (ssMwrToRan_SplitSeg s) True,
                     mwr_fsmState := MWR_SPLIT_1ST_CMD\<rparr>
              else s\<lparr>ssMwrToRan_SplitSeg := swrite (ssMwrToRan_SplitSeg s) False,
                     mwr_soMEM_WrCmd := swrite (mwr_soMEM_WrCmd s) c,
                     mwr_fsmState := MWR_FWD_ALIGNED\<rparr>))
      else s)"

definition mwr_split_1st_cmd :: "'a RXp_scheme \<Rightarrow> 'a RXp_scheme" where
  "mwr_split_1st_cmd s =
     (if \<not> sfull (mwr_soMEM_WrCmd s) then
        (let a = dm_saddr (mwr_memWrCmd s);
             len = ucast (of_nat TOE_RX_BUFFER_SIZE - a)
         in s\<lparr>mwr_firstAccLen := len, mwr_nrBytesToWr := len,
              mwr_soMEM_WrCmd := swrite (mwr_soMEM_WrCmd s) (DmCmd_of a (ucast len)),
              mwr_fsmState := MWR_FWD_1ST_BUF\<rparr>)
      else s)"

definition mwr_fwd_aligned :: "'a RXp_scheme \<Rightarrow> 'a RXp_scheme" where
  "mwr_fwd_aligned s =
     (if \<not> sempty (ssTsdToMwr_Data s) \<and> \<not> sfull (mwr_soMEM_WrData s) then
        (case sread (ssTsdToMwr_Data s) of
           None \<Rightarrow> s
         | Some (memChunk, si) \<Rightarrow>
             (let s = s\<lparr>ssTsdToMwr_Data := si,
                        mwr_soMEM_WrData := swrite (mwr_soMEM_WrData s) memChunk\<rparr>
              in if ax_tlast memChunk then s\<lparr>mwr_fsmState := MWR_IDLE\<rparr> else s))
      else s)"

definition mwr_fwd_1st_buf :: "'a RXp_scheme \<Rightarrow> 'a RXp_scheme" where
  "mwr_fwd_1st_buf s =
     (if \<not> sempty (ssTsdToMwr_Data s) \<and> \<not> sfull (mwr_soMEM_WrData s) then
        (case sread (ssTsdToMwr_Data s) of
           None \<Rightarrow> s
         | Some (c, si) \<Rightarrow>
             (let s = s\<lparr>ssTsdToMwr_Data := si, mwr_currChunk := c\<rparr>; n = mwr_nrBytesToWr s in
              if 8 < n then
                s\<lparr>mwr_nrBytesToWr := n - 8, mwr_soMEM_WrData := swrite (mwr_soMEM_WrData s) c\<rparr>
              else if \<not> sfull (mwr_soMEM_WrCmd s) then
                (if n = 8 then
                   (mwr_second_cmd s)\<lparr>mwr_fsmState := MWR_FWD_ALIGNED,
                      mwr_soMEM_WrData := swrite (mwr_soMEM_WrData s) (c\<lparr>ax_tlast := True\<rparr>)\<rparr>
                 else
                   (mwr_second_cmd s)\<lparr>mwr_splitOffset := 8 - ucast n,
                      mwr_fsmState := (if ax_tlast c then MWR_RESIDUE else MWR_FWD_2ND_BUF),
                      mwr_soMEM_WrData := swrite (mwr_soMEM_WrData s)
                        (c\<lparr>ax_tlast := True, ax_tkeep := lenToLE_tKeep (ucast n)\<rparr>)\<rparr>)
              else s\<lparr>mwr_soMEM_WrData := swrite (mwr_soMEM_WrData s) c\<rparr>))
      else s)"

text \<open>The last \<open>k\<close> bytes of a chunk as the first bytes of a new one.\<close>

definition mwr_tail :: "nat \<Rightarrow> AxisApp \<Rightarrow> AxisApp" where
  "mwr_tail k prev =
     \<lparr>ax_tdata = set_range (8 * k - 1) 0 (get_range 63 (64 - 8 * k) (ax_tdata prev)) 0,
      ax_tkeep = set_range (k - 1) 0 (get_range 7 (8 - k) (ax_tkeep prev)) 0,
      ax_tlast = False\<rparr>"

text \<open>The last \<open>k\<close> bytes of a chunk followed by the first ones of the next.\<close>

definition mwr_join :: "nat \<Rightarrow> AxisApp \<Rightarrow> AxisApp \<Rightarrow> AxisApp" where
  "mwr_join k prev nxt =
     (let t = mwr_tail k prev in
      t\<lparr>ax_tdata := set_range 63 (8 * k) (get_range (63 - 8 * k) 0 (ax_tdata nxt)) (ax_tdata t),
        ax_tkeep := set_range 7 k (get_range (7 - k) 0 (ax_tkeep nxt)) (ax_tkeep t)\<rparr>)"

definition mwr_fwd_2nd_buf :: "'a RXp_scheme \<Rightarrow> 'a RXp_scheme" where
  "mwr_fwd_2nd_buf s =
     (if \<not> sempty (ssTsdToMwr_Data s) \<and> \<not> sfull (mwr_soMEM_WrData s) then
        (case sread (ssTsdToMwr_Data s) of
           None \<Rightarrow> s
         | Some (c, si) \<Rightarrow>
             (let joined = mwr_join (unat (mwr_splitOffset s)) (mwr_currChunk s) c;
                  s = s\<lparr>ssTsdToMwr_Data := si, mwr_currChunk := c\<rparr>
              in if ax_tlast c then
                   (if unat (mwr_nrBytesToWr s) < getLen c
                    then s\<lparr>mwr_fsmState := MWR_RESIDUE,
                           mwr_soMEM_WrData := swrite (mwr_soMEM_WrData s) joined\<rparr>
                    else s\<lparr>mwr_fsmState := MWR_IDLE,
                           mwr_soMEM_WrData := swrite (mwr_soMEM_WrData s) (joined\<lparr>ax_tlast := True\<rparr>)\<rparr>)
                 else s\<lparr>mwr_soMEM_WrData := swrite (mwr_soMEM_WrData s) joined\<rparr>))
      else s)"

definition mwr_residue :: "'a RXp_scheme \<Rightarrow> 'a RXp_scheme" where
  "mwr_residue s =
     (if \<not> sfull (mwr_soMEM_WrData s) then
        s\<lparr>mwr_soMEM_WrData := swrite (mwr_soMEM_WrData s)
            ((mwr_tail (unat (mwr_splitOffset s)) (mwr_currChunk s))\<lparr>ax_tlast := True\<rparr>),
          mwr_fsmState := MWR_IDLE\<rparr>
      else s)"

definition pRxMemoryWriter :: "'a RXp_scheme \<Rightarrow> 'a RXp_scheme" where
  "pRxMemoryWriter s =
     (case mwr_fsmState s of
        MWR_IDLE \<Rightarrow> mwr_idle s
      | MWR_SPLIT_1ST_CMD \<Rightarrow> mwr_split_1st_cmd s
      | MWR_FWD_ALIGNED \<Rightarrow> mwr_fwd_aligned s
      | MWR_FWD_1ST_BUF \<Rightarrow> mwr_fwd_1st_buf s
      | MWR_FWD_2ND_BUF \<Rightarrow> mwr_fwd_2nd_buf s
      | MWR_RESIDUE \<Rightarrow> mwr_residue s)"

section \<open>The notifier\<close>

definition ds_error :: "DmSts \<Rightarrow> bool" where
  "ds_error d \<longleftrightarrow> ds_slverr d \<or> ds_decerr d \<or> ds_interr d"

definition ran_second_status :: "'a RXp_scheme \<Rightarrow> 'a RXp_scheme" where
  "ran_second_status s =
     (case sread (ran_siMEM_WrSts s) of
        None \<Rightarrow> s
      | Some (sts, si) \<Rightarrow>
          (let s = s\<lparr>ran_siMEM_WrSts := si, ran_dmStatus2 := sts\<rparr>;
               s = (if ds_okay (ran_dmStatus1 s) \<and> ds_okay sts
                    then s\<lparr>ran_soRAi_RxNotif :=
                             swrite (ran_soRAi_RxNotif s) (ran_appNotification s)\<rparr>
                    else s\<lparr>ran_dataMoverError := ds_error (ran_dmStatus1 s) \<or> ds_error sts\<rparr>)
           in s\<lparr>ran_doubleAccessFlag := False\<rparr>))"

definition ran_first_status :: "DmSts \<Rightarrow> bool \<Rightarrow> TcpAppNotif \<Rightarrow> 'a RXp_scheme \<Rightarrow> 'a RXp_scheme" where
  "ran_first_status sts split n s =
     (let s = s\<lparr>ran_dmStatus1 := sts, ran_doubleAccessFlag := split, ran_appNotification := n\<rparr> in
      if \<not> split then
        (if ds_okay sts
         then s\<lparr>ran_soRAi_RxNotif := swrite (ran_soRAi_RxNotif s) n\<rparr>
         else s\<lparr>ran_dataMoverError := ds_error sts\<rparr>)
      else s)"

definition ran_take_notif :: "'a RXp_scheme \<Rightarrow> 'a RXp_scheme" where
  "ran_take_notif s =
     (if \<not> sempty (ssFsmToRan_Notif s) \<and> \<not> sfull (ssRxNotifFifo s) then
        (case sread (ssFsmToRan_Notif s) of
           None \<Rightarrow> s
         | Some (n, si) \<Rightarrow>
             (let s = s\<lparr>ssFsmToRan_Notif := si, ran_appNotification := n\<rparr> in
              if an_tcpDatLen n \<noteq> 0 then s\<lparr>ssRxNotifFifo := swrite (ssRxNotifFifo s) n\<rparr>
              else s))
      else s)"

definition ran_always :: "'a RXp_scheme \<Rightarrow> 'a RXp_scheme" where
  "ran_always s =
     (if \<not> sfull (ran_soMMIO_MemWrErr s)
      then s\<lparr>ran_soMMIO_MemWrErr := swrite (ran_soMMIO_MemWrErr s) (ran_dataMoverError s)\<rparr>
      else s)"

definition pRxAppNotifier :: "'a RXp_scheme \<Rightarrow> 'a RXp_scheme" where
  "pRxAppNotifier s = ran_always
     (if ran_doubleAccessFlag s then ran_second_status s
      else
        (case (sread (ran_siMEM_WrSts s), sread (ssMwrToRan_SplitSeg s), sread (ssRxNotifFifo s)) of
           (Some (sts, si1), Some (split, si2), Some (n, si3)) \<Rightarrow>
             ran_first_status sts split n
               (s\<lparr>ran_siMEM_WrSts := si1, ssMwrToRan_SplitSeg := si2, ssRxNotifFifo := si3\<rparr>)
         | _ \<Rightarrow> ran_take_notif s))"

section \<open>Filters of segments\<close>

text \<open>
  Both droppers let a segment pass or discard it, chunk by chunk up to the one that is flagged
  as the last.  \<open>ctl\<close> is what such a transfer does not touch.
\<close>

definition is_segment :: "('c \<Rightarrow> bool) \<Rightarrow> 'c list \<Rightarrow> bool" where
  "is_segment lst xs \<longleftrightarrow> xs \<noteq> [] \<and> lst (last xs) \<and> (\<forall>x \<in> set (butlast xs). \<not> lst x)"

lemma is_segment_single: "is_segment lst [x] \<longleftrightarrow> lst x"
  by (simp add: is_segment_def)

lemma is_segment_Cons: "xs \<noteq> [] \<Longrightarrow> is_segment lst (x # xs) \<longleftrightarrow> \<not> lst x \<and> is_segment lst xs"
  by (auto simp: is_segment_def)

locale segment_filter =
  fixes tick :: "'s \<Rightarrow> 's"
    and inp :: "'s \<Rightarrow> 'c list"
    and outp :: "'s \<Rightarrow> 'c list"
    and room :: "'s \<Rightarrow> nat"
    and lst :: "'c \<Rightarrow> bool"
    and ctl :: "'s \<Rightarrow> 'k"
    and idle :: "'s \<Rightarrow> bool"
    and passing :: "'s \<Rightarrow> bool"
    and dropping :: "'s \<Rightarrow> bool"
  assumes pass_tick: "passing s \<Longrightarrow> inp s = c # cs \<Longrightarrow> length (outp s) < room s \<Longrightarrow>
      inp (tick s) = cs \<and> outp (tick s) = outp s @ [c] \<and> room (tick s) = room s \<and>
      ctl (tick s) = ctl s \<and> (if lst c then idle (tick s) else passing (tick s))"
    and drop_tick: "dropping s \<Longrightarrow> inp s = c # cs \<Longrightarrow>
      inp (tick s) = cs \<and> outp (tick s) = outp s \<and> room (tick s) = room s \<and>
      ctl (tick s) = ctl s \<and> (if lst c then idle (tick s) else dropping (tick s))"
begin

lemma passes_segment:
  assumes "passing s" "inp s = seg @ rest" "is_segment lst seg"
    and "length (outp s) + length seg \<le> room s"
  shows "inp ((tick ^^ length seg) s) = rest \<and> outp ((tick ^^ length seg) s) = outp s @ seg \<and>
    room ((tick ^^ length seg) s) = room s \<and> ctl ((tick ^^ length seg) s) = ctl s \<and>
    idle ((tick ^^ length seg) s)"
  using assms
proof (induction seg arbitrary: s)
  case Nil
  then show ?case by (simp add: is_segment_def)
next
  case (Cons c seg)
  note t = pass_tick [OF Cons.prems(1), of c "seg @ rest"]
  show ?case
  proof (cases "seg = []")
    case True
    with t Cons.prems show ?thesis by (simp add: is_segment_single)
  next
    case False
    then have "\<not> lst c" "is_segment lst seg" using Cons.prems(3) by (simp_all add: is_segment_Cons)
    with t Cons.prems Cons.IH [of "tick s"] show ?thesis by (simp add: funpow_swap1)
  qed
qed

lemma drops_segment:
  assumes "dropping s" "inp s = seg @ rest" "is_segment lst seg"
  shows "inp ((tick ^^ length seg) s) = rest \<and> outp ((tick ^^ length seg) s) = outp s \<and>
    room ((tick ^^ length seg) s) = room s \<and> ctl ((tick ^^ length seg) s) = ctl s \<and>
    idle ((tick ^^ length seg) s)"
  using assms
proof (induction seg arbitrary: s)
  case Nil
  then show ?case by (simp add: is_segment_def)
next
  case (Cons c seg)
  note t = drop_tick [OF Cons.prems(1), of c "seg @ rest"]
  show ?case
  proof (cases "seg = []")
    case True
    with t Cons.prems show ?thesis by (simp add: is_segment_single)
  next
    case False
    then have "\<not> lst c" "is_segment lst seg" using Cons.prems(3) by (simp_all add: is_segment_Cons)
    with t Cons.prems Cons.IH [of "tick s"] show ?thesis by (simp add: funpow_swap1)
  qed
qed

end

lemma tid_always_frame [simp]:
  "ssCsaToTid_Data (tid_always s) = ssCsaToTid_Data s"
  "ssCsaToTid_DataValid (tid_always s) = ssCsaToTid_DataValid s"
  "ssTidToTsd_Data (tid_always s) = ssTidToTsd_Data s"
  "tid_fsmState (tid_always s) = tid_fsmState s"
  "tid_crcDropCounter (tid_always s) = tid_crcDropCounter s"
  by (simp_all add: tid_always_def)

text \<open>The control of Tid: the flags still to come and the number of dropped segments.\<close>

interpretation tid: segment_filter pTcpInvalidDropper "\<lambda>s. items (ssCsaToTid_Data s)"
    "\<lambda>s. items (ssTidToTsd_Data s)" "\<lambda>s. depth (ssTidToTsd_Data s)" ax_tlast
    "\<lambda>s. (ssCsaToTid_DataValid s, tid_crcDropCounter s)"
    "\<lambda>s. tid_fsmState s = TID_IDLE" "\<lambda>s. tid_fsmState s = TID_FWD" "\<lambda>s. tid_fsmState s = TID_DROP"
  by unfold_locales
    (simp_all add: pTcpInvalidDropper_def sempty_def sfull_def sread_cons Let_def)

text \<open>The control of Tsd: the commands still to come.\<close>

interpretation tsd: segment_filter pTcpSegmentDropper "\<lambda>s. items (ssTidToTsd_Data s)"
    "\<lambda>s. items (ssTsdToMwr_Data s)" "\<lambda>s. depth (ssTsdToMwr_Data s)" ax_tlast
    "\<lambda>s. (ssMdhToTsd_DropCmd s, ssFsmToTsd_DropCmd s)"
    "\<lambda>s. tsd_fsmState s = TSD_RD_DROP_CMD1" "\<lambda>s. tsd_fsmState s = TSD_FWD"
    "\<lambda>s. tsd_fsmState s = TSD_DROP"
  by unfold_locales
    (simp_all add: pTcpSegmentDropper_def sempty_def sfull_def sread_cons Let_def)

section \<open>The segment dropper on a sequence of segments\<close>

text \<open>What passes: a segment needs the consent of the metadata handler and then that of the state
  machine, which is asked for no other segment.\<close>

fun tsd_passed :: "'c list list \<Rightarrow> bool list \<Rightarrow> bool list \<Rightarrow> 'c list" where
  "tsd_passed (x # xs) (m # ms) fs =
     (if m = CMD_DROP then tsd_passed xs ms fs
      else (case fs of [] \<Rightarrow> []
            | f # fs \<Rightarrow> (if f = CMD_DROP then [] else x) @ tsd_passed xs ms fs))"
| "tsd_passed _ _ _ = []"

definition tsd_next :: "bool \<Rightarrow> bool list \<Rightarrow> bool list" where
  "tsd_next m fs = (if m = CMD_DROP then fs else tl fs)"

text \<open>One segment: at most two cycles for the commands and one per chunk.\<close>

lemma tsd_one_segment:
  assumes "tsd_fsmState s = TSD_RD_DROP_CMD1" "items (ssTidToTsd_Data s) = x @ rest"
    and "is_segment ax_tlast x" "items (ssMdhToTsd_DropCmd s) = m # ms"
    and "items (ssFsmToTsd_DropCmd s) = fs" "m = CMD_KEEP \<Longrightarrow> fs \<noteq> []"
    and "length (items (ssTsdToMwr_Data s)) + length x \<le> depth (ssTsdToMwr_Data s)"
  obtains n where "n \<le> 2 + length x"
    and "tsd_fsmState ((pTcpSegmentDropper ^^ n) s) = TSD_RD_DROP_CMD1"
    and "items (ssTidToTsd_Data ((pTcpSegmentDropper ^^ n) s)) = rest"
    and "items (ssMdhToTsd_DropCmd ((pTcpSegmentDropper ^^ n) s)) = ms"
    and "items (ssFsmToTsd_DropCmd ((pTcpSegmentDropper ^^ n) s)) = tsd_next m fs"
    and "items (ssTsdToMwr_Data ((pTcpSegmentDropper ^^ n) s)) =
      items (ssTsdToMwr_Data s) @ (if m = CMD_KEEP \<and> hd fs = CMD_KEEP then x else [])"
    and "depth (ssTsdToMwr_Data ((pTcpSegmentDropper ^^ n) s)) = depth (ssTsdToMwr_Data s)"
proof (cases m)
  case True
  let ?t = "pTcpSegmentDropper s"
  have t: "tsd_fsmState ?t = TSD_DROP" "items (ssTidToTsd_Data ?t) = x @ rest"
    "items (ssMdhToTsd_DropCmd ?t) = ms" "items (ssFsmToTsd_DropCmd ?t) = fs"
    "ssTsdToMwr_Data ?t = ssTsdToMwr_Data s"
    using assms True by (simp_all add: pTcpSegmentDropper_def sread_cons)
  note d = tsd.drops_segment [OF t(1,2) assms(3)]
  show ?thesis
    by (rule that [of "length x + 1"]) (use d t True in \<open>simp_all add: funpow_swap1 tsd_next_def\<close>)
next
  case False
  then obtain f fs' where fs: "fs = f # fs'" using assms(6) by (auto simp: neq_Nil_conv)
  let ?t = "pTcpSegmentDropper (pTcpSegmentDropper s)"
  have t: "tsd_fsmState ?t = (if f then TSD_DROP else TSD_FWD)"
    "items (ssTidToTsd_Data ?t) = x @ rest" "items (ssMdhToTsd_DropCmd ?t) = ms"
    "items (ssFsmToTsd_DropCmd ?t) = fs'" "ssTsdToMwr_Data ?t = ssTsdToMwr_Data s"
    using assms False fs by (simp_all add: pTcpSegmentDropper_def sread_cons)
  note p = tsd.passes_segment [OF _ t(2) assms(3)] and d = tsd.drops_segment [OF _ t(2) assms(3)]
  show ?thesis
    by (rule that [of "length x + 2"])
      (use p d t False fs assms(7) in \<open>cases f; simp add: funpow_swap1 tsd_next_def\<close>)+
qed

lemma tsd_segments:
  assumes "tsd_fsmState s = TSD_RD_DROP_CMD1" "items (ssTidToTsd_Data s) = concat xs @ rest"
    and "\<forall>x \<in> set xs. is_segment ax_tlast x" "items (ssMdhToTsd_DropCmd s) = ms @ ms'"
    and "length ms = length xs" "items (ssFsmToTsd_DropCmd s) = fs @ fs'"
    and "length fs = length (filter (\<lambda>m. m = CMD_KEEP) ms)"
    and "length (items (ssTsdToMwr_Data s)) + length (concat xs) \<le> depth (ssTsdToMwr_Data s)"
  shows "\<exists>n \<le> 2 * length xs + length (concat xs).
     tsd_fsmState ((pTcpSegmentDropper ^^ n) s) = TSD_RD_DROP_CMD1 \<and>
     items (ssTidToTsd_Data ((pTcpSegmentDropper ^^ n) s)) = rest \<and>
     items (ssMdhToTsd_DropCmd ((pTcpSegmentDropper ^^ n) s)) = ms' \<and>
     items (ssFsmToTsd_DropCmd ((pTcpSegmentDropper ^^ n) s)) = fs' \<and>
     items (ssTsdToMwr_Data ((pTcpSegmentDropper ^^ n) s)) =
       items (ssTsdToMwr_Data s) @ tsd_passed xs ms fs"
  using assms
proof (induction xs arbitrary: s ms fs)
  case Nil
  then show ?case by (intro exI [of _ 0]) simp
next
  case (Cons x xs)
  obtain m ms2 where ms: "ms = m # ms2" using Cons.prems(5) by (cases ms) auto
  have fs: "m = CMD_KEEP \<Longrightarrow> fs \<noteq> []" using Cons.prems(7) by (auto simp: ms)
  obtain n where n: "n \<le> 2 + length x"
    "tsd_fsmState ((pTcpSegmentDropper ^^ n) s) = TSD_RD_DROP_CMD1"
    "items (ssTidToTsd_Data ((pTcpSegmentDropper ^^ n) s)) = concat xs @ rest"
    "items (ssMdhToTsd_DropCmd ((pTcpSegmentDropper ^^ n) s)) = ms2 @ ms'"
    "items (ssFsmToTsd_DropCmd ((pTcpSegmentDropper ^^ n) s)) = tsd_next m (fs @ fs')"
    "items (ssTsdToMwr_Data ((pTcpSegmentDropper ^^ n) s)) =
       items (ssTsdToMwr_Data s) @ (if m = CMD_KEEP \<and> hd (fs @ fs') = CMD_KEEP then x else [])"
    "depth (ssTsdToMwr_Data ((pTcpSegmentDropper ^^ n) s)) = depth (ssTsdToMwr_Data s)"
    by (rule tsd_one_segment [OF Cons.prems(1), of x "concat xs @ rest" m "ms2 @ ms'" "fs @ fs'"])
      (use Cons.prems fs ms in auto)
  let ?t = "(pTcpSegmentDropper ^^ n) s"
  have next_cmds: "tsd_next m (fs @ fs') = tsd_next m fs @ fs'"
    using fs by (auto simp: tsd_next_def)
  have len: "length (tsd_next m fs) = length (filter (\<lambda>m. m = CMD_KEEP) ms2)"
    using Cons.prems(7) by (simp add: ms tsd_next_def)
  have passed: "tsd_passed (x # xs) ms fs =
      (if m = CMD_KEEP \<and> hd (fs @ fs') = CMD_KEEP then x else []) @ tsd_passed xs ms2 (tsd_next m fs)"
    using fs by (cases fs) (auto simp: ms tsd_next_def)
  have "\<exists>k \<le> 2 * length xs + length (concat xs).
     tsd_fsmState ((pTcpSegmentDropper ^^ k) ?t) = TSD_RD_DROP_CMD1 \<and>
     items (ssTidToTsd_Data ((pTcpSegmentDropper ^^ k) ?t)) = rest \<and>
     items (ssMdhToTsd_DropCmd ((pTcpSegmentDropper ^^ k) ?t)) = ms' \<and>
     items (ssFsmToTsd_DropCmd ((pTcpSegmentDropper ^^ k) ?t)) = fs' \<and>
     items (ssTsdToMwr_Data ((pTcpSegmentDropper ^^ k) ?t)) =
       items (ssTsdToMwr_Data ?t) @ tsd_passed xs ms2 (tsd_next m fs)"
    by (rule Cons.IH) (use n(2-7) Cons.prems ms len next_cmds in auto)
  then obtain k where "k \<le> 2 * length xs + length (concat xs)" and
    k: "tsd_fsmState ((pTcpSegmentDropper ^^ k) ?t) = TSD_RD_DROP_CMD1 \<and>
     items (ssTidToTsd_Data ((pTcpSegmentDropper ^^ k) ?t)) = rest \<and>
     items (ssMdhToTsd_DropCmd ((pTcpSegmentDropper ^^ k) ?t)) = ms' \<and>
     items (ssFsmToTsd_DropCmd ((pTcpSegmentDropper ^^ k) ?t)) = fs' \<and>
     items (ssTsdToMwr_Data ((pTcpSegmentDropper ^^ k) ?t)) =
       items (ssTsdToMwr_Data ?t) @ tsd_passed xs ms2 (tsd_next m fs)"
    by blast
  moreover have "(pTcpSegmentDropper ^^ k) ?t = (pTcpSegmentDropper ^^ (k + n)) s"
    by (simp add: funpow_add)
  ultimately show ?case
    using n(1,6) passed by (intro exI [of _ "k + n"]) simp
qed

text \<open>C26. The segment dropper passes exactly the segments that both of its masters keep, complete and in
  order, and takes the commands and the data of each one from the streams: on a queue of
  segments with their commands it is done after at most two cycles per segment and one per
  chunk, if the memory writer makes room.\<close>

theorem tsd_passes_kept_segments:
  assumes "tsd_fsmState s = TSD_RD_DROP_CMD1" "items (ssTidToTsd_Data s) = concat xs"
    and "\<forall>x \<in> set xs. is_segment ax_tlast x" "items (ssMdhToTsd_DropCmd s) = ms"
    and "length ms = length xs" "items (ssFsmToTsd_DropCmd s) = fs"
    and "length fs = length (filter (\<lambda>m. m = CMD_KEEP) ms)"
    and "length (items (ssTsdToMwr_Data s)) + length (concat xs) \<le> depth (ssTsdToMwr_Data s)"
  shows "\<exists>n \<le> 2 * length xs + length (concat xs).
     items (ssTsdToMwr_Data ((pTcpSegmentDropper ^^ n) s)) =
       items (ssTsdToMwr_Data s) @ tsd_passed xs ms fs \<and>
     items (ssTidToTsd_Data ((pTcpSegmentDropper ^^ n) s)) = [] \<and>
     items (ssMdhToTsd_DropCmd ((pTcpSegmentDropper ^^ n) s)) = [] \<and>
     items (ssFsmToTsd_DropCmd ((pTcpSegmentDropper ^^ n) s)) = [] \<and>
     tsd_fsmState ((pTcpSegmentDropper ^^ n) s) = TSD_RD_DROP_CMD1"
  using tsd_segments [OF assms(1) _ assms(3), of "[]" ms "[]" fs "[]"] assms(2,4-8) by auto

text \<open>The path after reset, with the depths of \<open>rx_engine.cpp\<close>, and 4 places on the ports of the memory.\<close>

definition rxp_reset :: RXp where
  "rxp_reset = \<lparr>ssCsaToTid_Data = Stream 256 [], ssCsaToTid_DataValid = Stream 2 [],
     ssTidToTsd_Data = Stream 8 [], tid_soMMIO_CrcDropCnt = Stream 1 [],
     tid_fsmState = TID_IDLE, tid_crcDropCounter = 0, ssMdhToTsd_DropCmd = Stream 16 [],
     ssFsmToTsd_DropCmd = Stream 16 [], ssTsdToMwr_Data = Stream 16 [],
     tsd_fsmState = TSD_RD_DROP_CMD1, ssFsmToMwr_WrCmd = Stream 16 [],
     mwr_soMEM_WrCmd = Stream 4 [], mwr_soMEM_WrData = Stream 4 [],
     ssMwrToRan_SplitSeg = Stream 16 [], mwr_fsmState = MWR_IDLE,
     mwr_memWrCmd = DmCmd_of 0 0, mwr_currChunk = AxisApp_zero, mwr_firstAccLen = 0,
     mwr_nrBytesToWr = 0, mwr_splitOffset = 0,
     ran_siMEM_WrSts = Stream 4 [], ssFsmToRan_Notif = Stream 16 [],
     ran_soRAi_RxNotif = Stream 4 [], ran_soMMIO_MemWrErr = Stream 1 [],
     ssRxNotifFifo = Stream 32 [], ran_doubleAccessFlag = False, ran_dataMoverError = False,
     ran_dmStatus1 = DmSts_zero, ran_dmStatus2 = DmSts_zero,
     ran_appNotification = TcpAppNotif_state 0 CLOSED\<rparr>"

definition chunk :: "64 word \<Rightarrow> 8 word \<Rightarrow> bool \<Rightarrow> AxisApp" where
  "chunk d k l = \<lparr>ax_tdata = d, ax_tkeep = k, ax_tlast = l\<rparr>"

theorem tsd_passes_kept_segments_witness:
  "\<exists>n. items (ssTsdToMwr_Data ((pTcpSegmentDropper ^^ n) (rxp_reset\<lparr>
       ssTidToTsd_Data := Stream 8 [chunk 1 0xFF False, chunk 2 1 True, chunk 3 1 True],
       ssMdhToTsd_DropCmd := Stream 16 [CMD_KEEP, CMD_DROP],
       ssFsmToTsd_DropCmd := Stream 16 [CMD_KEEP]\<rparr>))) = [chunk 1 0xFF False, chunk 2 1 True]"
proof -
  let ?xs = "[[chunk 1 0xFF False, chunk 2 1 True], [chunk 3 1 True]]"
  let ?s = "rxp_reset\<lparr>
       ssTidToTsd_Data := Stream 8 [chunk 1 0xFF False, chunk 2 1 True, chunk 3 1 True],
       ssMdhToTsd_DropCmd := Stream 16 [CMD_KEEP, CMD_DROP],
       ssFsmToTsd_DropCmd := Stream 16 [CMD_KEEP]\<rparr>"
  have s: "tsd_fsmState ?s = TSD_RD_DROP_CMD1" "items (ssTidToTsd_Data ?s) = concat ?xs"
    "items (ssMdhToTsd_DropCmd ?s) = [CMD_KEEP, CMD_DROP]"
    "items (ssFsmToTsd_DropCmd ?s) = [CMD_KEEP]" "items (ssTsdToMwr_Data ?s) = []"
    "depth (ssTsdToMwr_Data ?s) = 16"
    by (simp_all add: rxp_reset_def)
  have seg: "\<forall>x \<in> set ?xs. is_segment ax_tlast x" by (simp add: is_segment_def chunk_def)
  have "length [CMD_KEEP, CMD_DROP] = length ?xs"
    "length [CMD_KEEP] = length (filter (\<lambda>m. m = CMD_KEEP) [CMD_KEEP, CMD_DROP])"
    "length (items (ssTsdToMwr_Data ?s)) + length (concat ?xs) \<le> depth (ssTsdToMwr_Data ?s)"
    by (simp_all only: s(5,6)) simp_all
  from tsd_passes_kept_segments [OF s(1,2) seg s(3) this(1) s(4) this(2,3)]
  obtain n where "items (ssTsdToMwr_Data ((pTcpSegmentDropper ^^ n) ?s)) =
      items (ssTsdToMwr_Data ?s) @ tsd_passed ?xs [CMD_KEEP, CMD_DROP] [CMD_KEEP]"
    by blast
  then show ?thesis by (intro exI [of _ n]) (simp only: s(5) append_Nil, simp)
qed

end
