(* ===== verification/Rx_Fsm.thy ===== *)
theory Rx_Fsm
  imports Rx_Path
begin

text \<open>
  The finite state machine of the Rx engine (RXe/Fsm), \<open>pFiniteStateMachine\<close> of
  \<open>NTS/toe/src/rx_engine/src/rx_engine.cpp\<close>.  It takes the metadata of a received segment, reads
  the state and the SAR entries of its session, and posts what follows from them: the new
  state, the SAR updates, timer commands, an event for the Tx engine, the keep-or-drop command
  and the memory write command of the payload, and the notification of the application.  The
  theory shows the messages of every kind of segment, the transitions of the connection state and
  where they are those of RFC 793 and where not,
  the lock discipline towards the state table and the bookkeeping of out-of-order segments.
\<close>

section \<open>Data\<close>

record RXeMeta =
  rm_seqNumb :: TcpSeqNum
  rm_ackNumb :: TcpAckNum
  rm_winSize :: TcpWindow
  rm_length :: TcpSegLen
  rm_ack :: bool
  rm_rst :: bool
  rm_syn :: bool
  rm_fin :: bool

record RXeFsmMeta =
  fm_sessionId :: SessionId
  fm_ip4SrcAddr :: Ip4Addr
  fm_tcpSrcPort :: TcpPort
  fm_tcpDstPort :: TcpPort
  fm_meta :: RXeMeta

text \<open>The constructors of the notification; the one without a state says \<open>CLOSED\<close>.\<close>

definition TcpAppNotif_st ::
  "SessionId \<Rightarrow> TcpDatLen \<Rightarrow> Ip4Addr \<Rightarrow> TcpPort \<Rightarrow> TcpPort \<Rightarrow> TcpState \<Rightarrow> TcpAppNotif" where
  "TcpAppNotif_st sid len sa sp dp st = \<lparr>an_sessionID = sid, an_tcpDatLen = len,
     an_ip4SrcAddr = sa, an_tcpSrcPort = sp, an_tcpDstPort = dp, an_tcpState = st\<rparr>"

definition TcpAppNotif_data ::
  "SessionId \<Rightarrow> TcpDatLen \<Rightarrow> Ip4Addr \<Rightarrow> TcpPort \<Rightarrow> TcpPort \<Rightarrow> TcpAppNotif" where
  "TcpAppNotif_data sid len sa sp dp = TcpAppNotif_st sid len sa sp dp CLOSED"

text \<open>A read query; the table does not look at the fields that its constructor leaves out.\<close>

definition RXeTxSarQuery_rd :: "SessionId \<Rightarrow> RXeTxSarQuery" where
  "RXeTxSarQuery_rd sid = \<lparr>rtq_sessionID = sid, rtq_ackd = 0, rtq_recv_window = 0,
     rtq_cong_window = 0, rtq_count = 0, rtq_fastRetransmitted = False, rtq_write = False\<rparr>"

definition RXeTxSarQuery_wr ::
  "SessionId \<Rightarrow> TxAckNum \<Rightarrow> TcpWindow \<Rightarrow> TcpWindow \<Rightarrow> 2 word \<Rightarrow> bool \<Rightarrow> RXeTxSarQuery" where
  "RXeTxSarQuery_wr sid ackd recv cong cnt fast = \<lparr>rtq_sessionID = sid, rtq_ackd = ackd,
     rtq_recv_window = recv, rtq_cong_window = cong, rtq_count = cnt,
     rtq_fastRetransmitted = fast, rtq_write = True\<rparr>"

text \<open>Constants of \<open>nts_config.hpp\<close>.\<close>

definition ZYC2_MSS :: "16 word" where
  "ZYC2_MSS = 1352"

definition TOE_MAX_CONGESTION_WINDOW :: nat where
  "TOE_MAX_CONGESTION_WINDOW = 65536 - 2048"

section \<open>State\<close>

datatype FsmStates = FSM_LOAD | FSM_TRANSITION

text \<open>The ports and static variables of the process; the streams to the data path are fields of
  the record of the data path, which it extends.\<close>

record FSm = RXp +
  ssMdhToFsm_Meta :: "RXeFsmMeta stream"
  fsm_soSTt_StateQry :: "StateQuery stream"
  fsm_siSTt_StateRep :: "TcpState stream"
  fsm_soRSt_RxSarQry :: "RXeRxSarQuery stream"
  fsm_siRSt_RxSarRep :: "RxSarReply stream"
  fsm_soTSt_TxSarQry :: "RXeTxSarQuery stream"
  fsm_siTSt_TxSarRep :: "RXeTxSarReply stream"
  fsm_soTIm_ReTxTimerCmd :: "RXeReTransTimerCmd stream"
  fsm_soTIm_ClearProbeTimer :: "SessionId stream"
  fsm_soTIm_CloseTimer :: "SessionId stream"
  fsm_soTAi_SessOpnSts :: "SessState stream"
  ssFsmToEvm_Event :: "Event stream"
  fsm_soMMIO_OooDropCnt :: "8 word stream"
  fsm_soDBG_RxFreeSpace :: "RxBufPtr stream"
  fsm_soDBG_TcpIpRxByteCnt :: "32 word stream"
  fsm_soDBG_OooDebug :: "8 word stream"
  fsm_fsmState :: FsmStates
  fsm_txSarRequest :: bool
  fsm_oooDropCounter :: "8 word"
  fsm_freeSpace :: RxBufPtr
  fsm_rxByteCounter :: "32 word"
  fsm_oooDebugState :: "8 word"
  fsm_Meta :: RXeFsmMeta

text \<open>The session and the metadata of the segment in process.\<close>

abbreviation fsm_sid :: "'a FSm_scheme \<Rightarrow> SessionId" where
  "fsm_sid s \<equiv> fm_sessionId (fsm_Meta s)"

abbreviation fsm_meta :: "'a FSm_scheme \<Rightarrow> RXeMeta" where
  "fsm_meta s \<equiv> fm_meta (fsm_Meta s)"

section \<open>Output\<close>

definition put_state :: "TcpState \<Rightarrow> 'a FSm_scheme \<Rightarrow> 'a FSm_scheme" where
  "put_state st s =
     s\<lparr>fsm_soSTt_StateQry := swrite (fsm_soSTt_StateQry s) (StateQuery_wr (fsm_sid s) st)\<rparr>"

definition put_rxSar :: "RXeRxSarQuery \<Rightarrow> 'a FSm_scheme \<Rightarrow> 'a FSm_scheme" where
  "put_rxSar q s = s\<lparr>fsm_soRSt_RxSarQry := swrite (fsm_soRSt_RxSarQry s) q\<rparr>"

definition put_txSar :: "RXeTxSarQuery \<Rightarrow> 'a FSm_scheme \<Rightarrow> 'a FSm_scheme" where
  "put_txSar q s = s\<lparr>fsm_soTSt_TxSarQry := swrite (fsm_soTSt_TxSarQry s) q\<rparr>"

definition put_timer :: "TimerCmd \<Rightarrow> 'a FSm_scheme \<Rightarrow> 'a FSm_scheme" where
  "put_timer c s =
     s\<lparr>fsm_soTIm_ReTxTimerCmd := swrite (fsm_soTIm_ReTxTimerCmd s)
         \<lparr>rrt_sessionID = fsm_sid s, rrt_command = c\<rparr>\<rparr>"

definition put_clearProbe :: "'a FSm_scheme \<Rightarrow> 'a FSm_scheme" where
  "put_clearProbe s =
     s\<lparr>fsm_soTIm_ClearProbeTimer := swrite (fsm_soTIm_ClearProbeTimer s) (fsm_sid s)\<rparr>"

definition put_closeTimer :: "'a FSm_scheme \<Rightarrow> 'a FSm_scheme" where
  "put_closeTimer s = s\<lparr>fsm_soTIm_CloseTimer := swrite (fsm_soTIm_CloseTimer s) (fsm_sid s)\<rparr>"

definition put_opnSts :: "TcpState \<Rightarrow> 'a FSm_scheme \<Rightarrow> 'a FSm_scheme" where
  "put_opnSts st s =
     s\<lparr>fsm_soTAi_SessOpnSts := swrite (fsm_soTAi_SessOpnSts s)
         \<lparr>ss_sessId = fsm_sid s, ss_tcpState = st\<rparr>\<rparr>"

definition put_event :: "Event \<Rightarrow> 'a FSm_scheme \<Rightarrow> 'a FSm_scheme" where
  "put_event ev s = s\<lparr>ssFsmToEvm_Event := swrite (ssFsmToEvm_Event s) ev\<rparr>"

definition put_drop :: "bool \<Rightarrow> 'a FSm_scheme \<Rightarrow> 'a FSm_scheme" where
  "put_drop c s = s\<lparr>ssFsmToTsd_DropCmd := swrite (ssFsmToTsd_DropCmd s) c\<rparr>"

text \<open>
  The address of a segment in the memory of the Rx buffers: the session selects a buffer of
  64 KB and the sequence number the place in it.
\<close>

definition memSegAddr :: "SessionId \<Rightarrow> RxSeqNum \<Rightarrow> 32 word" where
  "memSegAddr sid seq = word_cat (ucast sid :: 14 word) (ucast seq :: 16 word)"

definition put_wrCmd :: "'a FSm_scheme \<Rightarrow> 'a FSm_scheme" where
  "put_wrCmd s =
     s\<lparr>ssFsmToMwr_WrCmd := swrite (ssFsmToMwr_WrCmd s)
         (DmCmd_of (ucast (memSegAddr (fsm_sid s) (rm_seqNumb (fsm_meta s))))
                   (ucast (rm_length (fsm_meta s))))\<rparr>"

definition put_notif :: "TcpDatLen \<Rightarrow> 'a FSm_scheme \<Rightarrow> 'a FSm_scheme" where
  "put_notif len s =
     s\<lparr>ssFsmToRan_Notif := swrite (ssFsmToRan_Notif s)
         (TcpAppNotif_data (fsm_sid s) len (fm_ip4SrcAddr (fsm_Meta s))
            (fm_tcpSrcPort (fsm_Meta s)) (fm_tcpDstPort (fsm_Meta s)))\<rparr>"

definition put_notif_closed :: "TcpDatLen \<Rightarrow> 'a FSm_scheme \<Rightarrow> 'a FSm_scheme" where
  "put_notif_closed len s =
     s\<lparr>ssFsmToRan_Notif := swrite (ssFsmToRan_Notif s)
         (TcpAppNotif_st (fsm_sid s) len (fm_ip4SrcAddr (fsm_Meta s))
            (fm_tcpSrcPort (fsm_Meta s)) (fm_tcpDstPort (fsm_Meta s)) CLOSED)\<rparr>"

lemmas put_defs = put_state_def put_rxSar_def put_txSar_def put_timer_def put_clearProbe_def
  put_closeTimer_def put_opnSts_def put_event_def put_drop_def put_wrCmd_def put_notif_def
  put_notif_closed_def

section \<open>Loading a segment\<close>

definition fsm_load :: "'a FSm_scheme \<Rightarrow> 'a FSm_scheme" where
  "fsm_load s =
     (case sread (ssMdhToFsm_Meta s) of
        None \<Rightarrow> s
      | Some (meta, si) \<Rightarrow>
          (let sid = fm_sessionId meta;
               s = s\<lparr>ssMdhToFsm_Meta := si, fsm_Meta := meta,
                     fsm_soSTt_StateQry := swrite (fsm_soSTt_StateQry s) (StateQuery_rd sid),
                     fsm_soRSt_RxSarQry := swrite (fsm_soRSt_RxSarQry s) (RXeRxSarQuery_rd sid)\<rparr>;
               s = (if rm_ack (fm_meta meta)
                    then s\<lparr>fsm_soTSt_TxSarQry :=
                             swrite (fsm_soTSt_TxSarQry s) (RXeTxSarQuery_rd sid),
                           fsm_txSarRequest := True\<rparr>
                    else s)
           in s\<lparr>fsm_fsmState := FSM_TRANSITION, fsm_oooDebugState := 1\<rparr>))"

section \<open>ACK segments\<close>

text \<open>The 33-bit end of a segment, which the comparisons with the 32-bit pointers use.\<close>

definition seg_end :: "RXeMeta \<Rightarrow> nat" where
  "seg_end m = unat (rm_seqNumb m) + unat (rm_length m)"

text \<open>The end as a 32-bit pointer, which is what an assignment to a pointer keeps.\<close>

definition seg_next :: "RXeMeta \<Rightarrow> RxSeqNum" where
  "seg_next m = rm_seqNumb m + ucast (rm_length m)"

definition fsm_timer :: "RXeMeta \<Rightarrow> RXeTxSarReply \<Rightarrow> TimerCmd" where
  "fsm_timer m t = (if rm_ackNumb m = rtr_prevUnak t then STOP_TIMER else LOAD_TIMER)"

text \<open>The space between the end of the received data and the read pointer of the application.\<close>

definition free_space :: "RxSarReply \<Rightarrow> RxBufPtr" where
  "free_space r = rsr_appd r - ucast (rsr_oooHead r) - 1"

definition fsm_dupAck :: "RXeMeta \<Rightarrow> RXeTxSarReply \<Rightarrow> bool" where
  "fsm_dupAck m t \<longleftrightarrow> rm_ackNumb m = rtr_prevAckd t \<and> rtr_prevAckd t \<noteq> rtr_prevUnak t"

definition fsm_congestion :: "RXeMeta \<Rightarrow> RXeTxSarReply \<Rightarrow> RXeTxSarReply" where
  "fsm_congestion m t =
     (if fsm_dupAck m t
      then (if rm_length m = 0 then t\<lparr>rtr_count := rtr_count t + 1\<rparr> else t)
      else (let t = (if uint (rtr_cong_window t) \<le> uint (rtr_slowstart_threshold t) - uint ZYC2_MSS
                     then t\<lparr>rtr_cong_window := rtr_cong_window t + ZYC2_MSS\<rparr>
                     else if unat (rtr_cong_window t) \<le> TOE_MAX_CONGESTION_WINDOW
                     then t\<lparr>rtr_cong_window := rtr_cong_window t + 365\<rparr>
                     else t)
            in t\<lparr>rtr_count := 0, rtr_fastRetransmitted := False\<rparr>))"

definition fsm_ackValid :: "RXeMeta \<Rightarrow> RXeTxSarReply \<Rightarrow> bool" where
  "fsm_ackValid m t \<longleftrightarrow>
     (let a = rm_ackNumb m; lo = rtr_prevAckd t; hi = rtr_prevUnak t in
      (lo \<le> a \<and> a \<le> hi) \<or> ((lo \<le> a \<or> a \<le> hi) \<and> hi < lo))"

definition fsm_ack_window :: "RXeTxSarReply \<Rightarrow> 'a FSm_scheme \<Rightarrow> 'a FSm_scheme" where
  "fsm_ack_window t s =
     (let m = fsm_meta s;
          s = (if fsm_dupAck m t then s else put_clearProbe s);
          t = fsm_congestion m t
      in if fsm_ackValid m t
         then put_txSar (RXeTxSarQuery_wr (fsm_sid s) (rm_ackNumb m) (rm_winSize m)
                (rtr_cong_window t) (rtr_count t)
                (rtr_count t = 3 \<or> rtr_fastRetransmitted t)) s
         else s)"

text \<open>A segment that is kept, with the SAR query, the length of the notification and the value
  of the debug port.\<close>

definition fsm_keep ::
  "RXeRxSarQuery \<Rightarrow> TcpDatLen \<Rightarrow> 8 word \<Rightarrow> 'a FSm_scheme \<Rightarrow> 'a FSm_scheme" where
  "fsm_keep q len dbg s =
     (put_drop CMD_KEEP (put_notif len (put_wrCmd (put_rxSar q s))))\<lparr>fsm_oooDebugState := dbg\<rparr>"

text \<open>The bookkeeping of in-order and out-of-order segments.\<close>

definition ooo_default :: "RxSarReply \<Rightarrow> RXeMeta \<Rightarrow> bool" where
  "ooo_default r m \<longleftrightarrow> \<not> rsr_ooo r \<and> rm_seqNumb m = rsr_rcvd r \<and> rm_length m < free_space r"

definition ooo_start :: "RxSarReply \<Rightarrow> RXeMeta \<Rightarrow> bool" where
  "ooo_start r m \<longleftrightarrow> \<not> rsr_ooo r \<and> rsr_rcvd r < rm_seqNumb m \<and>
     ucast (seg_next m - rsr_oooHead r) < free_space r"

definition ooo_continue :: "RxSarReply \<Rightarrow> RXeMeta \<Rightarrow> bool" where
  "ooo_continue r m \<longleftrightarrow> rsr_ooo r \<and> rm_seqNumb m = rsr_oooHead r \<and> rm_length m < free_space r"

definition ooo_partial :: "RxSarReply \<Rightarrow> RXeMeta \<Rightarrow> bool" where
  "ooo_partial r m \<longleftrightarrow> rsr_ooo r \<and> rm_seqNumb m = rsr_rcvd r \<and> seg_end m < unat (rsr_oooTail r)"

definition ooo_end :: "RxSarReply \<Rightarrow> RXeMeta \<Rightarrow> bool" where
  "ooo_end r m \<longleftrightarrow> rsr_ooo r \<and> rm_seqNumb m = rsr_rcvd r \<and> seg_end m = unat (rsr_oooTail r)"

definition fsm_drop_reason :: "RxSarReply \<Rightarrow> RXeMeta \<Rightarrow> 8 word" where
  "fsm_drop_reason r m =
     (if rm_seqNumb m < rsr_rcvd r then 11
      else if (\<not> rsr_ooo r \<and> rm_seqNumb m = rsr_rcvd r \<and> free_space r < rm_length m) \<or>
              (\<not> rsr_ooo r \<and> rsr_rcvd r < rm_seqNumb m \<and>
               ucast (seg_next m - rsr_rcvd r) < free_space r) then 12
      else if seg_end m = unat (rsr_rcvd r) then 13
      else 14)"

definition fsm_ack_payload :: "RxSarReply \<Rightarrow> 'a FSm_scheme \<Rightarrow> 'a FSm_scheme" where
  "fsm_ack_payload r s =
     (let m = fsm_meta s; sid = fsm_sid s;
          s = s\<lparr>fsm_rxByteCounter := fsm_rxByteCounter s + ucast (rm_length m)\<rparr> in
      if ooo_default r m then
        fsm_keep (RXeRxSarQuery_wr sid (seg_next m)) (rm_length m) 2 s
      else if ooo_start r m then
        fsm_keep (RXeRxSarQuery_ooo sid (rsr_rcvd r) True (seg_next m) (rm_seqNumb m)) 0 3 s
      else if ooo_continue r m then
        fsm_keep (RXeRxSarQuery_ooo sid (rsr_rcvd r) True (seg_next m) (rsr_oooTail r)) 0 4 s
      else if ooo_partial r m then
        fsm_keep (RXeRxSarQuery_ooo sid (seg_next m) True (rsr_oooHead r) (rsr_oooTail r))
          (rm_length m) 5 s
      else if ooo_end r m then
        fsm_keep (RXeRxSarQuery_ooo sid (rsr_oooHead r) False (rsr_oooHead r) (rsr_oooTail r))
          (ucast (rsr_oooHead r - rsr_rcvd r)) 6 s
      else
        (put_drop CMD_DROP s)\<lparr>fsm_oooDropCounter := fsm_oooDropCounter s + 1,
          fsm_oooDebugState := fsm_drop_reason r m\<rparr>)"

definition fsm_ack_event :: "RxSarReply \<Rightarrow> 'a FSm_scheme \<Rightarrow> 'a FSm_scheme" where
  "fsm_ack_event r s =
     (if ooo_default r (fsm_meta s) then put_event (Event_sess ACK_EVENT (fsm_sid s)) s
      else (put_event (Event_sess ACK_NODELAY_EVENT (fsm_sid s)) s)
             \<lparr>fsm_oooDebugState := fsm_oooDebugState s + 100\<rparr>)"

definition fsm_ack_state ::
  "TcpState \<Rightarrow> RXeTxSarReply \<Rightarrow> 'a FSm_scheme \<Rightarrow> 'a FSm_scheme" where
  "fsm_ack_state tcpState t s =
     (if rm_ackNumb (fsm_meta s) = rtr_prevUnak t then
        (case tcpState of
           SYN_RECEIVED \<Rightarrow> put_state ESTABLISHED s
         | CLOSING \<Rightarrow> put_closeTimer (put_state TIME_WAIT s)
         | LAST_ACK \<Rightarrow> put_state CLOSED s
         | _ \<Rightarrow> put_state tcpState s)
      else put_state tcpState s)"

definition fsm_ack_reset :: "TcpState \<Rightarrow> 'a FSm_scheme \<Rightarrow> 'a FSm_scheme" where
  "fsm_ack_reset tcpState s =
     (let m = fsm_meta s;
          s = put_event (rstEvent (fsm_sid s) (seg_next m) True) s;
          s = (if rm_length m \<noteq> 0 then put_drop CMD_DROP s else s)
      in put_state tcpState s)"

definition fsm_ack ::
  "TcpState \<Rightarrow> RxSarReply \<Rightarrow> RXeTxSarReply \<Rightarrow> 'a FSm_scheme \<Rightarrow> 'a FSm_scheme" where
  "fsm_ack tcpState r t s =
     (let m = fsm_meta s;
          s = s\<lparr>fsm_freeSpace := free_space r,
                fsm_soDBG_RxFreeSpace := swrite (fsm_soDBG_RxFreeSpace s) (free_space r)\<rparr>;
          s = put_timer (fsm_timer m t) s
      in if tcpState = ESTABLISHED \<or> tcpState = SYN_RECEIVED \<or> tcpState = FIN_WAIT_1 \<or>
            tcpState = CLOSING \<or> tcpState = LAST_ACK
         then (let s = fsm_ack_window t s;
                   s = (if rm_length m \<noteq> 0 then fsm_ack_payload r s else s);
                   s = (if rm_length m \<noteq> 0 then fsm_ack_event r s else s)
               in fsm_ack_state tcpState t s)
         else fsm_ack_reset tcpState s)"

section \<open>SYN, SYN-ACK and FIN segments\<close>

definition fsm_syn :: "TcpState \<Rightarrow> RxSarReply \<Rightarrow> 'a FSm_scheme \<Rightarrow> 'a FSm_scheme" where
  "fsm_syn tcpState r s =
     (let m = fsm_meta s; sid = fsm_sid s in
      if tcpState = CLOSED \<or> tcpState = SYN_SENT then
        (let s = put_rxSar (RXeRxSarQuery_init sid (rm_seqNumb m + 1)) s;
             s = put_txSar (RXeTxSarQuery_wr sid 0 (rm_winSize m) 0 0 False) s;
             s = put_event (Event_sess SYN_ACK_EVENT sid) s
         in put_state SYN_RECEIVED s)
      else if tcpState = SYN_RECEIVED then
        (if unat (rm_seqNumb m) + 1 = unat (rsr_rcvd r) then
           put_state tcpState (put_event (Event_rt SYN_ACK_EVENT sid 1) s)
         else
           put_state CLOSED (put_event (rstEvent sid (rm_seqNumb m + 1) True) s))
      else
        put_state tcpState (put_event (Event_sess ACK_NODELAY_EVENT sid) s))"

definition fsm_syn_ack ::
  "TcpState \<Rightarrow> RXeTxSarReply \<Rightarrow> 'a FSm_scheme \<Rightarrow> 'a FSm_scheme" where
  "fsm_syn_ack tcpState t s =
     (let m = fsm_meta s; sid = fsm_sid s;
          s = put_timer (fsm_timer m t) s in
      if tcpState = SYN_SENT \<and> rm_ackNumb m = rtr_prevUnak t then
        (let s = put_rxSar (RXeRxSarQuery_init sid (rm_seqNumb m + 1)) s;
             s = put_txSar (RXeTxSarQuery_wr sid (rm_ackNumb m) (rm_winSize m)
                   (rtr_cong_window t) 0 False) s;
             s = put_event (Event_sess ACK_NODELAY_EVENT sid) s;
             s = put_state ESTABLISHED s
         in put_opnSts ESTABLISHED s)
      else if tcpState = SYN_SENT then
        put_state CLOSED (put_event (rstEvent sid (seg_next m + 1) True) s)
      else
        put_state tcpState (put_event (Event_sess ACK_NODELAY_EVENT sid) s))"

text \<open>
  A FIN with ACK.  The argument \<open>~QUERY_FAST_RETRANSMIT\<close> of the SAR query is the complement of
  the integer 1, which is not 0, so the flag it sets is true.
\<close>

definition fsm_fin_state :: "TcpState \<Rightarrow> RXeTxSarReply \<Rightarrow> 'a FSm_scheme \<Rightarrow> 'a FSm_scheme" where
  "fsm_fin_state tcpState t s =
     (let m = fsm_meta s; sid = fsm_sid s in
      if tcpState = ESTABLISHED then
        put_state LAST_ACK (put_event (Event_sess FIN_EVENT sid) s)
      else
        (let s = (if rm_ackNumb m = rtr_prevUnak t
                  then put_closeTimer (put_state TIME_WAIT s)
                  else put_state CLOSING s)
         in put_event (Event_sess ACK_EVENT sid) s))"

definition fsm_fin_ack ::
  "TcpState \<Rightarrow> RxSarReply \<Rightarrow> RXeTxSarReply \<Rightarrow> 'a FSm_scheme \<Rightarrow> 'a FSm_scheme" where
  "fsm_fin_ack tcpState r t s =
     (let m = fsm_meta s; sid = fsm_sid s;
          s = put_timer (fsm_timer m t) s in
      if (tcpState = ESTABLISHED \<or> tcpState = FIN_WAIT_1 \<or> tcpState = FIN_WAIT_2) \<and>
         rsr_rcvd r = rm_seqNumb m then
        (let s = put_txSar (RXeTxSarQuery_wr sid (rm_ackNumb m) (rm_winSize m)
                   (rtr_cong_window t) (rtr_count t) True) s;
             s = put_rxSar (RXeRxSarQuery_wr sid (seg_next m + 1)) s;
             s = put_clearProbe s;
             s = (if rm_length m \<noteq> 0 then
                    put_drop CMD_KEEP (put_notif_closed (rm_length m) (put_wrCmd s))
                  else if tcpState = ESTABLISHED then put_notif_closed 0 s
                  else s)
         in fsm_fin_state tcpState t s)
      else
        (let s = put_event (Event_sess ACK_EVENT sid) s;
             s = put_state tcpState s
         in if rm_length m \<noteq> 0 then put_drop CMD_DROP s else s))"

section \<open>RST and other segments\<close>

definition fsm_rst ::
  "TcpState \<Rightarrow> RxSarReply \<Rightarrow> RXeTxSarReply \<Rightarrow> 'a FSm_scheme \<Rightarrow> 'a FSm_scheme" where
  "fsm_rst tcpState r t s =
     (let m = fsm_meta s in
      if rm_rst m then
        (if tcpState = SYN_SENT then
           (if rm_ackNumb m = rtr_prevUnak t
            then put_timer STOP_TIMER (put_state CLOSED (put_opnSts CLOSED s))
            else put_state tcpState s)
         else
           (if rm_seqNumb m = rsr_rcvd r
            then put_timer STOP_TIMER (put_state CLOSED (put_notif_closed 0 s))
            else put_state tcpState s))
      else put_state tcpState s)"

section \<open>The process\<close>

text \<open>Bits 0 to 3: ACK, SYN, FIN, RST.\<close>

definition control_bits :: "RXeMeta \<Rightarrow> 4 word" where
  "control_bits m = of_bool (rm_ack m) + 2 * of_bool (rm_syn m) + 4 * of_bool (rm_fin m) +
     8 * of_bool (rm_rst m)"

text \<open>The replies of the tables have arrived.\<close>

definition fsm_ready :: "'a FSm_scheme \<Rightarrow> bool" where
  "fsm_ready s \<longleftrightarrow> \<not> sempty (fsm_siSTt_StateRep s) \<and> \<not> sempty (fsm_siRSt_RxSarRep s) \<and>
     \<not> (fsm_txSarRequest s \<and> sempty (fsm_siTSt_TxSarRep s))"

text \<open>
  The branch of the segment, with the reply of the Tx SAR table where the branch reads it.  The
  last branch reads it without waiting; \<open>junk\<close> is the content of the uninitialised variable when
  there is no reply.  In the other branches the reply is there, since \<open>fsm_ready\<close> waits for it; a
  read of an empty stream would stop the process.
\<close>

definition fsm_branch ::
  "RXeTxSarReply \<Rightarrow> TcpState \<Rightarrow> RxSarReply \<Rightarrow> 'a FSm_scheme \<Rightarrow> 'a FSm_scheme" where
  "fsm_branch junk tcpState r s =
     (let cb = control_bits (fsm_meta s) in
      if cb = 2 then fsm_syn tcpState r s
      else
        (case sread (fsm_siTSt_TxSarRep s) of
           Some (t, si) \<Rightarrow>
             (let s = s\<lparr>fsm_siTSt_TxSarRep := si\<rparr> in
              if cb = 1 then fsm_ack tcpState r t s
              else if cb = 3 then fsm_syn_ack tcpState t s
              else if cb = 5 then fsm_fin_ack tcpState r t s
              else fsm_rst tcpState r t s)
         | None \<Rightarrow>
             (if cb = 1 \<or> cb = 3 \<or> cb = 5 then s else fsm_rst tcpState r junk s)))"

definition fsm_transition :: "RXeTxSarReply \<Rightarrow> 'a FSm_scheme \<Rightarrow> 'a FSm_scheme" where
  "fsm_transition junk s =
     (if fsm_ready s then
        (case (sread (fsm_siSTt_StateRep s), sread (fsm_siRSt_RxSarRep s)) of
           (Some (tcpState, si1), Some (r, si2)) \<Rightarrow>
             fsm_branch junk tcpState r
               (s\<lparr>fsm_fsmState := FSM_LOAD, fsm_txSarRequest := False,
                  fsm_siSTt_StateRep := si1, fsm_siRSt_RxSarRep := si2\<rparr>)
         | _ \<Rightarrow> s)
      else s)"

text \<open>The counters that every cycle writes to the MMIO and debug ports, if they have room.\<close>

definition fsm_always :: "'a FSm_scheme \<Rightarrow> 'a FSm_scheme" where
  "fsm_always s =
     (let s = (if \<not> sfull (fsm_soMMIO_OooDropCnt s)
               then s\<lparr>fsm_soMMIO_OooDropCnt :=
                        swrite (fsm_soMMIO_OooDropCnt s) (fsm_oooDropCounter s)\<rparr>
               else s);
          s = (if \<not> sfull (fsm_soDBG_TcpIpRxByteCnt s)
               then s\<lparr>fsm_soDBG_TcpIpRxByteCnt :=
                        swrite (fsm_soDBG_TcpIpRxByteCnt s) (fsm_rxByteCounter s)\<rparr>
               else s)
      in if \<not> sfull (fsm_soDBG_OooDebug s)
         then s\<lparr>fsm_soDBG_OooDebug := swrite (fsm_soDBG_OooDebug s) (fsm_oooDebugState s)\<rparr>
         else s)"

definition pFiniteStateMachine :: "RXeTxSarReply \<Rightarrow> 'a FSm_scheme \<Rightarrow> 'a FSm_scheme" where
  "pFiniteStateMachine junk s =
     (let s = s\<lparr>fsm_oooDebugState := 0\<rparr> in
      fsm_always
        (case fsm_fsmState s of
           FSM_LOAD \<Rightarrow> fsm_load s
         | FSM_TRANSITION \<Rightarrow> fsm_transition junk s))"

definition RXeMeta_zero :: RXeMeta where
  "RXeMeta_zero = \<lparr>rm_seqNumb = 0, rm_ackNumb = 0, rm_winSize = 0, rm_length = 0,
     rm_ack = False, rm_rst = False, rm_syn = False, rm_fin = False\<rparr>"

definition RXeFsmMeta_zero :: RXeFsmMeta where
  "RXeFsmMeta_zero = \<lparr>fm_sessionId = 0, fm_ip4SrcAddr = 0, fm_tcpSrcPort = 0, fm_tcpDstPort = 0,
     fm_meta = RXeMeta_zero\<rparr>"

text \<open>Reset, with the depths of \<open>toe.cpp\<close> and \<open>rx_engine.cpp\<close>; one place on the counter ports.\<close>

definition fsm_reset :: FSm where
  "fsm_reset = \<lparr>ssCsaToTid_Data = Stream 256 [], ssCsaToTid_DataValid = Stream 2 [],
     ssTidToTsd_Data = Stream 8 [], tid_soMMIO_CrcDropCnt = Stream 1 [],
     tid_fsmState = TID_IDLE, tid_crcDropCounter = 0, ssMdhToTsd_DropCmd = Stream 16 [],
     ssFsmToTsd_DropCmd = Stream 16 [], ssTsdToMwr_Data = Stream 16 [],
     tsd_fsmState = TSD_RD_DROP_CMD1, ssFsmToMwr_WrCmd = Stream 16 [],
     mwr_soMEM_WrCmd = Stream 4 [], mwr_soMEM_WrData = Stream 4 [],
     ssMwrToRan_SplitSeg = Stream 16 [], mwr_fsmState = MWR_IDLE,
     mwr_memWrCmd = DmCmd_of 0 0, mwr_currChunk = AxisApp_zero, mwr_firstAccLen = 0,
     mwr_nrBytesToWr = 0, mwr_splitOffset = 0,
     ran_siMEM_WrSts = Stream 4 [], ssFsmToRan_Notif = Stream 16 [],
     ran_soRAi_RxNotif = Stream 4 [], ran_soMMIO_MemWrErr = Stream 1 [],
     ssRxNotifFifo = Stream 32 [], ran_doubleAccessFlag = False, ran_dataMoverError = False,
     ran_dmStatus1 = DmSts_zero, ran_dmStatus2 = DmSts_zero,
     ran_appNotification = TcpAppNotif_state 0 CLOSED,
     ssMdhToFsm_Meta = Stream 2 [],
     fsm_soSTt_StateQry = Stream 2 [], fsm_siSTt_StateRep = Stream 2 [],
     fsm_soRSt_RxSarQry = Stream 4 [], fsm_siRSt_RxSarRep = Stream 2 [],
     fsm_soTSt_TxSarQry = Stream 4 [], fsm_siTSt_TxSarRep = Stream 2 [],
     fsm_soTIm_ReTxTimerCmd = Stream 2 [], fsm_soTIm_ClearProbeTimer = Stream 2 [],
     fsm_soTIm_CloseTimer = Stream 2 [], fsm_soTAi_SessOpnSts = Stream 4 [],
     ssFsmToEvm_Event = Stream 4 [],
     fsm_soMMIO_OooDropCnt = Stream 1 [], fsm_soDBG_RxFreeSpace = Stream 1 [],
     fsm_soDBG_TcpIpRxByteCnt = Stream 1 [], fsm_soDBG_OooDebug = Stream 1 [],
     fsm_fsmState = FSM_LOAD, fsm_txSarRequest = False, fsm_oooDropCounter = 0,
     fsm_freeSpace = 0, fsm_rxByteCounter = 0, fsm_oooDebugState = 0,
     fsm_Meta = RXeFsmMeta_zero\<rparr>"

section \<open>Segments by their control bits\<close>

lemma control_bits_simps [simp]:
  "control_bits m = 1 \<longleftrightarrow> rm_ack m \<and> \<not> rm_syn m \<and> \<not> rm_fin m \<and> \<not> rm_rst m"
  "control_bits m = 2 \<longleftrightarrow> \<not> rm_ack m \<and> rm_syn m \<and> \<not> rm_fin m \<and> \<not> rm_rst m"
  "control_bits m = 3 \<longleftrightarrow> rm_ack m \<and> rm_syn m \<and> \<not> rm_fin m \<and> \<not> rm_rst m"
  "control_bits m = 5 \<longleftrightarrow> rm_ack m \<and> \<not> rm_syn m \<and> rm_fin m \<and> \<not> rm_rst m"
  by (cases "rm_ack m"; cases "rm_syn m"; cases "rm_fin m"; cases "rm_rst m";
      simp add: control_bits_def)+

definition is_ack :: "RXeMeta \<Rightarrow> bool" where
  "is_ack m \<longleftrightarrow> rm_ack m \<and> \<not> rm_syn m \<and> \<not> rm_fin m \<and> \<not> rm_rst m"

definition is_syn :: "RXeMeta \<Rightarrow> bool" where
  "is_syn m \<longleftrightarrow> \<not> rm_ack m \<and> rm_syn m \<and> \<not> rm_fin m \<and> \<not> rm_rst m"

definition is_syn_ack :: "RXeMeta \<Rightarrow> bool" where
  "is_syn_ack m \<longleftrightarrow> rm_ack m \<and> rm_syn m \<and> \<not> rm_fin m \<and> \<not> rm_rst m"

definition is_fin_ack :: "RXeMeta \<Rightarrow> bool" where
  "is_fin_ack m \<longleftrightarrow> rm_ack m \<and> \<not> rm_syn m \<and> rm_fin m \<and> \<not> rm_rst m"

lemmas is_defs = is_ack_def is_syn_def is_syn_ack_def is_fin_ack_def

text \<open>
  Between two runs the request flag says whether the Tx SAR table was asked, which is when the
  segment carries an ACK.
\<close>

definition fsm_wf :: "'a FSm_scheme \<Rightarrow> bool" where
  "fsm_wf s \<longleftrightarrow> (fsm_txSarRequest s \<longleftrightarrow> fsm_fsmState s = FSM_TRANSITION \<and> rm_ack (fsm_meta s))"

text \<open>The replies of the tables to the queries of the segment, when they are there.\<close>

definition fsm_replies ::
  "RXeTxSarReply \<Rightarrow> 'a FSm_scheme \<Rightarrow> (TcpState \<times> RxSarReply \<times> RXeTxSarReply)" where
  "fsm_replies junk s =
     (hd (items (fsm_siSTt_StateRep s)), hd (items (fsm_siRSt_RxSarRep s)),
      (case items (fsm_siTSt_TxSarRep s) of [] \<Rightarrow> junk | t # _ \<Rightarrow> t))"

text \<open>What a run does with a segment whose replies are there: the branch of its control bits, on
  the state without these replies.\<close>

definition fsm_serve ::
  "TcpState \<Rightarrow> RxSarReply \<Rightarrow> RXeTxSarReply \<Rightarrow> 'a FSm_scheme \<Rightarrow> 'a FSm_scheme" where
  "fsm_serve tcpState r t s =
     (if is_syn (fsm_meta s) then fsm_syn tcpState r s
      else if is_ack (fsm_meta s) then fsm_ack tcpState r t s
      else if is_syn_ack (fsm_meta s) then fsm_syn_ack tcpState t s
      else if is_fin_ack (fsm_meta s) then fsm_fin_ack tcpState r t s
      else fsm_rst tcpState r t s)"

definition fsm_taken :: "'a FSm_scheme \<Rightarrow> 'a FSm_scheme" where
  "fsm_taken s = s\<lparr>fsm_oooDebugState := 0, fsm_fsmState := FSM_LOAD, fsm_txSarRequest := False,
     fsm_siSTt_StateRep := (Stream (depth (fsm_siSTt_StateRep s)) (tl (items (fsm_siSTt_StateRep s)))),
     fsm_siRSt_RxSarRep := (Stream (depth (fsm_siRSt_RxSarRep s)) (tl (items (fsm_siRSt_RxSarRep s)))),
     fsm_siTSt_TxSarRep :=
       (if is_syn (fsm_meta s) then fsm_siTSt_TxSarRep s
        else Stream (depth (fsm_siTSt_TxSarRep s)) (tl (items (fsm_siTSt_TxSarRep s))))\<rparr>"

definition fsm_serving :: "'a FSm_scheme \<Rightarrow> bool" where
  "fsm_serving s \<longleftrightarrow> fsm_wf s \<and> fsm_fsmState s = FSM_TRANSITION \<and> fsm_ready s"

lemma Stream_tl_nil [simp]: "items st = [] \<Longrightarrow> Stream (depth st) [] = st"
  by (cases st) simp

lemma pFiniteStateMachine_serves:
  assumes "fsm_serving s" "fsm_replies junk s = (tcpState, r, t)"
  shows "pFiniteStateMachine junk s = fsm_always (fsm_serve tcpState r t (fsm_taken s))"
proof -
  obtain xs ys where xs: "items (fsm_siSTt_StateRep s) = tcpState # xs"
      and ys: "items (fsm_siRSt_RxSarRep s) = r # ys"
    using assms by (auto simp: fsm_serving_def fsm_ready_def fsm_replies_def sempty_def neq_Nil_conv)
  have st: "fsm_fsmState s = FSM_TRANSITION" and rd: "fsm_ready (s\<lparr>fsm_oooDebugState := 0\<rparr>)"
    using assms by (simp_all add: fsm_serving_def fsm_ready_def)
  show ?thesis
  proof (cases "items (fsm_siTSt_TxSarRep s)")
    case Nil
    then have "\<not> rm_ack (fsm_meta s)" "t = junk"
      using assms by (auto simp: fsm_serving_def fsm_wf_def fsm_ready_def sempty_def fsm_replies_def)
    with Nil xs ys st rd show ?thesis
      by (simp add: pFiniteStateMachine_def fsm_transition_def fsm_branch_def fsm_serve_def
          fsm_taken_def sread_cons is_defs Let_def)
  next
    case (Cons u us)
    then have "t = u" using assms by (simp add: fsm_replies_def)
    with Cons xs ys st rd show ?thesis
      by (simp add: pFiniteStateMachine_def fsm_transition_def fsm_branch_def fsm_serve_def
          fsm_taken_def sread_cons is_defs Let_def)
  qed
qed

lemma fsm_always_frame [simp]:
  "fsm_soSTt_StateQry (fsm_always s) = fsm_soSTt_StateQry s"
  "fsm_soRSt_RxSarQry (fsm_always s) = fsm_soRSt_RxSarQry s"
  "fsm_soTSt_TxSarQry (fsm_always s) = fsm_soTSt_TxSarQry s"
  "fsm_soTIm_CloseTimer (fsm_always s) = fsm_soTIm_CloseTimer s"
  "fsm_soTAi_SessOpnSts (fsm_always s) = fsm_soTAi_SessOpnSts s"
  "ssFsmToEvm_Event (fsm_always s) = ssFsmToEvm_Event s"
  "ssFsmToTsd_DropCmd (fsm_always s) = ssFsmToTsd_DropCmd s"
  "ssFsmToMwr_WrCmd (fsm_always s) = ssFsmToMwr_WrCmd s"
  "ssFsmToRan_Notif (fsm_always s) = ssFsmToRan_Notif s"
  "fsm_fsmState (fsm_always s) = fsm_fsmState s"
  "fsm_txSarRequest (fsm_always s) = fsm_txSarRequest s"
  "fsm_Meta (fsm_always s) = fsm_Meta s"
  by (simp_all add: fsm_always_def Let_def)

lemma fsm_taken_frame [simp]:
  "fsm_soSTt_StateQry (fsm_taken s) = fsm_soSTt_StateQry s"
  "fsm_soRSt_RxSarQry (fsm_taken s) = fsm_soRSt_RxSarQry s"
  "fsm_soTSt_TxSarQry (fsm_taken s) = fsm_soTSt_TxSarQry s"
  "fsm_soTIm_CloseTimer (fsm_taken s) = fsm_soTIm_CloseTimer s"
  "fsm_soTAi_SessOpnSts (fsm_taken s) = fsm_soTAi_SessOpnSts s"
  "ssFsmToEvm_Event (fsm_taken s) = ssFsmToEvm_Event s"
  "ssFsmToTsd_DropCmd (fsm_taken s) = ssFsmToTsd_DropCmd s"
  "ssFsmToMwr_WrCmd (fsm_taken s) = ssFsmToMwr_WrCmd s"
  "ssFsmToRan_Notif (fsm_taken s) = ssFsmToRan_Notif s"
  "fsm_fsmState (fsm_taken s) = FSM_LOAD"
  "fsm_txSarRequest (fsm_taken s) = False"
  "fsm_Meta (fsm_taken s) = fsm_Meta s"
  by (simp_all add: fsm_taken_def)

text \<open>What the steps of the ACK branch leave alone.\<close>

lemma fsm_ack_window_frame [simp]:
  "fsm_soSTt_StateQry (fsm_ack_window t s) = fsm_soSTt_StateQry s"
  "fsm_soRSt_RxSarQry (fsm_ack_window t s) = fsm_soRSt_RxSarQry s"
  "ssFsmToEvm_Event (fsm_ack_window t s) = ssFsmToEvm_Event s"
  "ssFsmToTsd_DropCmd (fsm_ack_window t s) = ssFsmToTsd_DropCmd s"
  "ssFsmToMwr_WrCmd (fsm_ack_window t s) = ssFsmToMwr_WrCmd s"
  "ssFsmToRan_Notif (fsm_ack_window t s) = ssFsmToRan_Notif s"
  "fsm_fsmState (fsm_ack_window t s) = fsm_fsmState s"
  "fsm_txSarRequest (fsm_ack_window t s) = fsm_txSarRequest s"
  "fsm_Meta (fsm_ack_window t s) = fsm_Meta s"
  by (simp_all add: fsm_ack_window_def put_txSar_def put_clearProbe_def Let_def)

lemma fsm_keep_frame [simp]:
  "fsm_soSTt_StateQry (fsm_keep q len dbg s) = fsm_soSTt_StateQry s"
  "ssFsmToEvm_Event (fsm_keep q len dbg s) = ssFsmToEvm_Event s"
  "fsm_fsmState (fsm_keep q len dbg s) = fsm_fsmState s"
  "fsm_txSarRequest (fsm_keep q len dbg s) = fsm_txSarRequest s"
  "fsm_Meta (fsm_keep q len dbg s) = fsm_Meta s"
  by (simp_all add: fsm_keep_def put_defs)

lemma fsm_ack_payload_frame [simp]:
  "fsm_soSTt_StateQry (fsm_ack_payload r s) = fsm_soSTt_StateQry s"
  "ssFsmToEvm_Event (fsm_ack_payload r s) = ssFsmToEvm_Event s"
  "fsm_fsmState (fsm_ack_payload r s) = fsm_fsmState s"
  "fsm_txSarRequest (fsm_ack_payload r s) = fsm_txSarRequest s"
  "fsm_Meta (fsm_ack_payload r s) = fsm_Meta s"
  by (simp_all add: fsm_ack_payload_def put_drop_def Let_def)

lemma fsm_ack_event_frame [simp]:
  "fsm_soSTt_StateQry (fsm_ack_event r s) = fsm_soSTt_StateQry s"
  "fsm_soRSt_RxSarQry (fsm_ack_event r s) = fsm_soRSt_RxSarQry s"
  "ssFsmToTsd_DropCmd (fsm_ack_event r s) = ssFsmToTsd_DropCmd s"
  "ssFsmToMwr_WrCmd (fsm_ack_event r s) = ssFsmToMwr_WrCmd s"
  "ssFsmToRan_Notif (fsm_ack_event r s) = ssFsmToRan_Notif s"
  "fsm_fsmState (fsm_ack_event r s) = fsm_fsmState s"
  "fsm_txSarRequest (fsm_ack_event r s) = fsm_txSarRequest s"
  "fsm_Meta (fsm_ack_event r s) = fsm_Meta s"
  by (simp_all add: fsm_ack_event_def put_event_def)

lemma fsm_ack_state_frame [simp]:
  "fsm_soRSt_RxSarQry (fsm_ack_state st t s) = fsm_soRSt_RxSarQry s"
  "ssFsmToEvm_Event (fsm_ack_state st t s) = ssFsmToEvm_Event s"
  "ssFsmToTsd_DropCmd (fsm_ack_state st t s) = ssFsmToTsd_DropCmd s"
  "ssFsmToMwr_WrCmd (fsm_ack_state st t s) = ssFsmToMwr_WrCmd s"
  "ssFsmToRan_Notif (fsm_ack_state st t s) = ssFsmToRan_Notif s"
  "fsm_fsmState (fsm_ack_state st t s) = fsm_fsmState s"
  "fsm_txSarRequest (fsm_ack_state st t s) = fsm_txSarRequest s"
  "fsm_Meta (fsm_ack_state st t s) = fsm_Meta s"
  by (cases st; simp add: fsm_ack_state_def put_state_def put_closeTimer_def)+

lemma fsm_ack_reset_frame [simp]:
  "fsm_soRSt_RxSarQry (fsm_ack_reset st s) = fsm_soRSt_RxSarQry s"
  "ssFsmToMwr_WrCmd (fsm_ack_reset st s) = ssFsmToMwr_WrCmd s"
  "ssFsmToRan_Notif (fsm_ack_reset st s) = ssFsmToRan_Notif s"
  "fsm_fsmState (fsm_ack_reset st s) = fsm_fsmState s"
  "fsm_txSarRequest (fsm_ack_reset st s) = fsm_txSarRequest s"
  "fsm_Meta (fsm_ack_reset st s) = fsm_Meta s"
  by (simp_all add: fsm_ack_reset_def put_defs Let_def)

lemma put_timer_frame [simp]:
  "fsm_soSTt_StateQry (put_timer c s) = fsm_soSTt_StateQry s"
  "fsm_soRSt_RxSarQry (put_timer c s) = fsm_soRSt_RxSarQry s"
  "ssFsmToEvm_Event (put_timer c s) = ssFsmToEvm_Event s"
  "ssFsmToTsd_DropCmd (put_timer c s) = ssFsmToTsd_DropCmd s"
  "ssFsmToMwr_WrCmd (put_timer c s) = ssFsmToMwr_WrCmd s"
  "ssFsmToRan_Notif (put_timer c s) = ssFsmToRan_Notif s"
  "fsm_fsmState (put_timer c s) = fsm_fsmState s"
  "fsm_txSarRequest (put_timer c s) = fsm_txSarRequest s"
  "fsm_Meta (put_timer c s) = fsm_Meta s"
  by (simp_all add: put_timer_def)

text \<open>The states in which the ACK branch processes the segment.\<close>

definition ack_states :: "TcpState set" where
  "ack_states = {ESTABLISHED, SYN_RECEIVED, FIN_WAIT_1, CLOSING, LAST_ACK}"

lemma fsm_ack_eq:
  "fsm_ack tcpState r t s =
     (let m = fsm_meta s;
          u = put_timer (fsm_timer m t) (s\<lparr>fsm_freeSpace := free_space r,
                fsm_soDBG_RxFreeSpace := swrite (fsm_soDBG_RxFreeSpace s) (free_space r)\<rparr>)
      in if tcpState \<in> ack_states
         then fsm_ack_state tcpState t
           (if rm_length m \<noteq> 0 then fsm_ack_event r (fsm_ack_payload r (fsm_ack_window t u))
            else fsm_ack_window t u)
         else fsm_ack_reset tcpState u)"
  by (simp add: fsm_ack_def ack_states_def Let_def)

lemma fsm_ack_frame [simp]:
  "fsm_fsmState (fsm_ack tcpState r t s) = fsm_fsmState s"
  "fsm_txSarRequest (fsm_ack tcpState r t s) = fsm_txSarRequest s"
  "fsm_Meta (fsm_ack tcpState r t s) = fsm_Meta s"
  by (simp_all add: fsm_ack_eq Let_def)

section \<open>The transitions of the connection\<close>

text \<open>
  The reference: the processing of an arriving segment by RFC 793, section 3.9 (pages 65 to 76), as far
  as it concerns the state of the connection.  The variables of the connection are those that the
  tables report: \<open>SND.UNA\<close> is \<open>prevAckd\<close>, \<open>SND.NXT\<close> is \<open>prevUnak\<close> and \<open>RCV.NXT\<close> is \<open>rcvd\<close>.
  Sequence numbers are compared modulo \<open>2 ^ 32\<close>.  Two states are named otherwise than in the RFC: a
  session in \<open>CLOSED\<close> belongs to a port that listens, so it does what LISTEN does; and CLOSE-WAIT,
  which the engine does not have, is left at once by a CLOSE, which leads to \<open>LAST_ACK\<close>.
\<close>












text \<open>The state each branch writes.\<close>

definition ack_next :: "RXeMeta \<Rightarrow> RXeTxSarReply \<Rightarrow> TcpState \<Rightarrow> TcpState" where
  "ack_next m t st =
     (if rm_ackNumb m = rtr_prevUnak t
      then (case st of SYN_RECEIVED \<Rightarrow> ESTABLISHED | CLOSING \<Rightarrow> TIME_WAIT | LAST_ACK \<Rightarrow> CLOSED
            | _ \<Rightarrow> st)
      else st)"

definition fin_next :: "RXeMeta \<Rightarrow> RxSarReply \<Rightarrow> RXeTxSarReply \<Rightarrow> TcpState \<Rightarrow> TcpState" where
  "fin_next m r t st =
     (if st \<in> {ESTABLISHED, FIN_WAIT_1, FIN_WAIT_2} \<and> rsr_rcvd r = rm_seqNumb m then
        (if st = ESTABLISHED then LAST_ACK
         else if rm_ackNumb m = rtr_prevUnak t then TIME_WAIT else CLOSING)
      else st)"

definition syn_next :: "RXeMeta \<Rightarrow> RxSarReply \<Rightarrow> TcpState \<Rightarrow> TcpState" where
  "syn_next m r st =
     (if st \<in> {CLOSED, SYN_SENT} then SYN_RECEIVED
      else if st = SYN_RECEIVED \<and> unat (rm_seqNumb m) + 1 \<noteq> unat (rsr_rcvd r) then CLOSED
      else st)"

definition syn_ack_next :: "RXeMeta \<Rightarrow> RXeTxSarReply \<Rightarrow> TcpState \<Rightarrow> TcpState" where
  "syn_ack_next m t st =
     (if st = SYN_SENT then (if rm_ackNumb m = rtr_prevUnak t then ESTABLISHED else CLOSED)
      else st)"

definition rst_next :: "RXeMeta \<Rightarrow> RxSarReply \<Rightarrow> RXeTxSarReply \<Rightarrow> TcpState \<Rightarrow> TcpState" where
  "rst_next m r t st =
     (if rm_rst m \<and> (if st = SYN_SENT then rm_ackNumb m = rtr_prevUnak t
                     else rm_seqNumb m = rsr_rcvd r)
      then CLOSED else st)"

definition rx_next :: "RXeMeta \<Rightarrow> RxSarReply \<Rightarrow> RXeTxSarReply \<Rightarrow> TcpState \<Rightarrow> TcpState" where
  "rx_next m r t st =
     (if is_syn m then syn_next m r st
      else if is_ack m then ack_next m t st
      else if is_syn_ack m then syn_ack_next m t st
      else if is_fin_ack m then fin_next m r t st
      else rst_next m r t st)"







lemma fsm_ack_writes_state:
  "items (fsm_soSTt_StateQry (fsm_ack tcpState r t s)) =
     items (fsm_soSTt_StateQry s) @ [StateQuery_wr (fsm_sid s) (ack_next (fsm_meta s) t tcpState)]"
proof -
  have state: "items (fsm_soSTt_StateQry (fsm_ack_state tcpState t u)) =
      items (fsm_soSTt_StateQry u) @ [StateQuery_wr (fsm_sid u) (ack_next (fsm_meta u) t tcpState)]"
    for u :: "'a FSm_scheme"
    by (cases tcpState; simp add: fsm_ack_state_def ack_next_def put_state_def put_closeTimer_def)
  have reset: "items (fsm_soSTt_StateQry (fsm_ack_reset tcpState u)) =
      items (fsm_soSTt_StateQry u) @ [StateQuery_wr (fsm_sid u) tcpState]"
    for u :: "'a FSm_scheme"
    by (simp add: fsm_ack_reset_def put_state_def put_event_def put_drop_def Let_def)
  have "ack_next m t tcpState = tcpState" if "tcpState \<notin> ack_states" for m
    using that by (cases tcpState) (simp_all add: ack_next_def ack_states_def)
  then show ?thesis by (simp add: fsm_ack_eq state reset Let_def)
qed

lemma fsm_syn_writes_state:
  "items (fsm_soSTt_StateQry (fsm_syn tcpState r s)) =
     items (fsm_soSTt_StateQry s) @ [StateQuery_wr (fsm_sid s) (syn_next (fsm_meta s) r tcpState)]"
  by (simp add: fsm_syn_def syn_next_def put_rxSar_def put_txSar_def put_event_def put_state_def
      Let_def)

lemma fsm_syn_ack_writes_state:
  "items (fsm_soSTt_StateQry (fsm_syn_ack tcpState t s)) =
     items (fsm_soSTt_StateQry s) @ [StateQuery_wr (fsm_sid s) (syn_ack_next (fsm_meta s) t tcpState)]"
  by (simp add: fsm_syn_ack_def syn_ack_next_def put_rxSar_def put_txSar_def put_event_def
      put_state_def put_opnSts_def Let_def)

lemma fsm_rst_writes_state:
  "items (fsm_soSTt_StateQry (fsm_rst tcpState r t s)) =
     items (fsm_soSTt_StateQry s) @ [StateQuery_wr (fsm_sid s) (rst_next (fsm_meta s) r t tcpState)]"
  by (simp add: fsm_rst_def rst_next_def put_notif_closed_def put_state_def put_opnSts_def Let_def)

lemma fsm_fin_state_frame [simp]:
  "fsm_soRSt_RxSarQry (fsm_fin_state st t s) = fsm_soRSt_RxSarQry s"
  "ssFsmToTsd_DropCmd (fsm_fin_state st t s) = ssFsmToTsd_DropCmd s"
  "ssFsmToMwr_WrCmd (fsm_fin_state st t s) = ssFsmToMwr_WrCmd s"
  "ssFsmToRan_Notif (fsm_fin_state st t s) = ssFsmToRan_Notif s"
  "fsm_fsmState (fsm_fin_state st t s) = fsm_fsmState s"
  "fsm_txSarRequest (fsm_fin_state st t s) = fsm_txSarRequest s"
  "fsm_Meta (fsm_fin_state st t s) = fsm_Meta s"
  by (simp_all add: fsm_fin_state_def put_state_def put_event_def put_closeTimer_def Let_def)

lemma fsm_fin_state_writes_state:
  "items (fsm_soSTt_StateQry (fsm_fin_state st t s)) =
     items (fsm_soSTt_StateQry s) @ [StateQuery_wr (fsm_sid s)
       (if st = ESTABLISHED then LAST_ACK
        else if rm_ackNumb (fsm_meta s) = rtr_prevUnak t then TIME_WAIT else CLOSING)]"
  by (simp add: fsm_fin_state_def put_state_def put_event_def put_closeTimer_def Let_def)

lemma fsm_fin_ack_writes_state:
  "items (fsm_soSTt_StateQry (fsm_fin_ack tcpState r t s)) =
     items (fsm_soSTt_StateQry s) @ [StateQuery_wr (fsm_sid s) (fin_next (fsm_meta s) r t tcpState)]"
  by (simp add: fsm_fin_ack_def fin_next_def fsm_fin_state_writes_state Let_def put_txSar_def
      put_rxSar_def put_clearProbe_def put_drop_def put_notif_closed_def put_wrCmd_def
      put_event_def put_state_def)

lemma fsm_serve_state:
  "items (fsm_soSTt_StateQry (fsm_serve tcpState r t s)) =
     items (fsm_soSTt_StateQry s) @ [StateQuery_wr (fsm_sid s) (rx_next (fsm_meta s) r t tcpState)]"
  by (simp add: fsm_serve_def rx_next_def fsm_ack_writes_state fsm_syn_writes_state
      fsm_syn_ack_writes_state fsm_rst_writes_state fsm_fin_ack_writes_state)

lemma fsm_syn_frame [simp]:
  "ssFsmToTsd_DropCmd (fsm_syn st r s) = ssFsmToTsd_DropCmd s"
  "ssFsmToMwr_WrCmd (fsm_syn st r s) = ssFsmToMwr_WrCmd s"
  "ssFsmToRan_Notif (fsm_syn st r s) = ssFsmToRan_Notif s"
  "fsm_fsmState (fsm_syn st r s) = fsm_fsmState s"
  "fsm_txSarRequest (fsm_syn st r s) = fsm_txSarRequest s"
  "fsm_Meta (fsm_syn st r s) = fsm_Meta s"
  by (simp_all add: fsm_syn_def put_rxSar_def put_txSar_def put_event_def put_state_def Let_def)

lemma fsm_syn_ack_frame [simp]:
  "ssFsmToTsd_DropCmd (fsm_syn_ack st t s) = ssFsmToTsd_DropCmd s"
  "ssFsmToMwr_WrCmd (fsm_syn_ack st t s) = ssFsmToMwr_WrCmd s"
  "ssFsmToRan_Notif (fsm_syn_ack st t s) = ssFsmToRan_Notif s"
  "fsm_fsmState (fsm_syn_ack st t s) = fsm_fsmState s"
  "fsm_txSarRequest (fsm_syn_ack st t s) = fsm_txSarRequest s"
  "fsm_Meta (fsm_syn_ack st t s) = fsm_Meta s"
  by (simp_all add: fsm_syn_ack_def put_rxSar_def put_txSar_def put_event_def put_state_def
      put_opnSts_def Let_def)

lemma fsm_rst_frame [simp]:
  "ssFsmToTsd_DropCmd (fsm_rst st r t s) = ssFsmToTsd_DropCmd s"
  "ssFsmToMwr_WrCmd (fsm_rst st r t s) = ssFsmToMwr_WrCmd s"
  "fsm_soRSt_RxSarQry (fsm_rst st r t s) = fsm_soRSt_RxSarQry s"
  "fsm_fsmState (fsm_rst st r t s) = fsm_fsmState s"
  "fsm_txSarRequest (fsm_rst st r t s) = fsm_txSarRequest s"
  "fsm_Meta (fsm_rst st r t s) = fsm_Meta s"
  by (simp_all add: fsm_rst_def put_notif_closed_def put_state_def put_opnSts_def put_timer_def
      Let_def)

lemma fsm_fin_ack_frame [simp]:
  "fsm_fsmState (fsm_fin_ack st r t s) = fsm_fsmState s"
  "fsm_txSarRequest (fsm_fin_ack st r t s) = fsm_txSarRequest s"
  "fsm_Meta (fsm_fin_ack st r t s) = fsm_Meta s"
  by (simp_all add: fsm_fin_ack_def Let_def put_txSar_def
      put_rxSar_def put_clearProbe_def put_drop_def put_notif_closed_def put_wrCmd_def
      put_event_def put_state_def)

lemma fsm_serve_static [simp]:
  "fsm_fsmState (fsm_serve tcpState r t s) = fsm_fsmState s"
  "fsm_txSarRequest (fsm_serve tcpState r t s) = fsm_txSarRequest s"
  "fsm_Meta (fsm_serve tcpState r t s) = fsm_Meta s"
  by (simp_all add: fsm_serve_def)

section \<open>The other runs\<close>

lemma pFiniteStateMachine_waits:
  assumes "fsm_fsmState s = FSM_TRANSITION" "\<not> fsm_ready s"
  shows "pFiniteStateMachine junk s = fsm_always (s\<lparr>fsm_oooDebugState := 0\<rparr>)"
proof -
  have "\<not> fsm_ready (s\<lparr>fsm_oooDebugState := 0\<rparr>)" using assms(2) by (simp add: fsm_ready_def)
  then show ?thesis by (simp add: pFiniteStateMachine_def fsm_transition_def assms(1))
qed

lemma pFiniteStateMachine_idle:
  assumes "fsm_fsmState s = FSM_LOAD" "items (ssMdhToFsm_Meta s) = []"
  shows "pFiniteStateMachine junk s = fsm_always (s\<lparr>fsm_oooDebugState := 0\<rparr>)"
  by (simp add: pFiniteStateMachine_def fsm_load_def assms)

lemma pFiniteStateMachine_loads:
  assumes "fsm_fsmState s = FSM_LOAD" "items (ssMdhToFsm_Meta s) = meta # ms"
  shows "items (fsm_soSTt_StateQry (pFiniteStateMachine junk s)) =
      items (fsm_soSTt_StateQry s) @ [StateQuery_rd (fm_sessionId meta)]"
    "fsm_fsmState (pFiniteStateMachine junk s) = FSM_TRANSITION"
    "fsm_Meta (pFiniteStateMachine junk s) = meta"
    "fsm_txSarRequest (pFiniteStateMachine junk s) = (fsm_txSarRequest s \<or> rm_ack (fm_meta meta))"
  by (simp_all add: pFiniteStateMachine_def fsm_load_def assms sread_cons Let_def)

lemma fsm_wf_step: "fsm_wf s \<Longrightarrow> fsm_wf (pFiniteStateMachine junk s)"
proof (cases "fsm_fsmState s")
  case FSM_LOAD
  assume wf: "fsm_wf s"
  show ?thesis
  proof (cases "items (ssMdhToFsm_Meta s)")
    case Nil
    with wf FSM_LOAD show ?thesis by (simp add: pFiniteStateMachine_idle fsm_wf_def)
  next
    case (Cons meta ms)
    with wf FSM_LOAD show ?thesis by (simp add: pFiniteStateMachine_loads fsm_wf_def)
  qed
next
  case FSM_TRANSITION
  assume wf: "fsm_wf s"
  show ?thesis
  proof (cases "fsm_ready s")
    case True
    then have serving: "fsm_serving s" using wf FSM_TRANSITION by (simp add: fsm_serving_def)
    obtain st r t where "fsm_replies junk s = (st, r, t)" by (cases "fsm_replies junk s") auto
    then show ?thesis by (simp add: pFiniteStateMachine_serves [OF serving] fsm_wf_def)
  next
    case False
    with wf FSM_TRANSITION show ?thesis by (simp add: pFiniteStateMachine_waits fsm_wf_def)
  qed
qed

text \<open>A run that serves a segment takes these messages.\<close>

lemma fsm_serves_state:
  assumes "fsm_serving s" "fsm_replies junk s = (tcpState, r, t)"
  shows "items (fsm_soSTt_StateQry (pFiniteStateMachine junk s)) =
      items (fsm_soSTt_StateQry s) @ [StateQuery_wr (fsm_sid s) (rx_next (fsm_meta s) r t tcpState)]"
    "fsm_fsmState (pFiniteStateMachine junk s) = FSM_LOAD"
    "fsm_Meta (pFiniteStateMachine junk s) = fsm_Meta s"
  by (simp_all add: pFiniteStateMachine_serves [OF assms] fsm_serve_state)

section \<open>The commands for the payload\<close>

text \<open>Whether the branch of the segment keeps its payload.\<close>

definition rx_keeps :: "TcpState \<Rightarrow> RxSarReply \<Rightarrow> RXeMeta \<Rightarrow> bool" where
  "rx_keeps st r m \<longleftrightarrow>
     (if is_ack m then st \<in> ack_states \<and> (ooo_default r m \<or> ooo_start r m \<or> ooo_continue r m \<or>
        ooo_partial r m \<or> ooo_end r m)
      else st \<in> {ESTABLISHED, FIN_WAIT_1, FIN_WAIT_2} \<and> rsr_rcvd r = rm_seqNumb m)"

definition seg_wrCmd :: "RXeFsmMeta \<Rightarrow> DmCmd" where
  "seg_wrCmd f = DmCmd_of (ucast (memSegAddr (fm_sessionId f) (rm_seqNumb (fm_meta f))))
     (ucast (rm_length (fm_meta f)))"

text \<open>The query and the notification of a kept ACK segment.\<close>

definition ooo_query :: "SessionId \<Rightarrow> RxSarReply \<Rightarrow> RXeMeta \<Rightarrow> RXeRxSarQuery" where
  "ooo_query sid r m =
     (if ooo_default r m then RXeRxSarQuery_wr sid (seg_next m)
      else if ooo_start r m then
        RXeRxSarQuery_ooo sid (rsr_rcvd r) True (seg_next m) (rm_seqNumb m)
      else if ooo_continue r m then
        RXeRxSarQuery_ooo sid (rsr_rcvd r) True (seg_next m) (rsr_oooTail r)
      else if ooo_partial r m then
        RXeRxSarQuery_ooo sid (seg_next m) True (rsr_oooHead r) (rsr_oooTail r)
      else RXeRxSarQuery_ooo sid (rsr_oooHead r) False (rsr_oooHead r) (rsr_oooTail r))"

definition ooo_notified :: "RxSarReply \<Rightarrow> RXeMeta \<Rightarrow> TcpDatLen" where
  "ooo_notified r m =
     (if ooo_default r m then rm_length m
      else if ooo_start r m \<or> ooo_continue r m then 0
      else if ooo_partial r m then rm_length m
      else ucast (rsr_oooHead r - rsr_rcvd r))"

definition seg_notif :: "RXeFsmMeta \<Rightarrow> TcpDatLen \<Rightarrow> TcpAppNotif" where
  "seg_notif f len = TcpAppNotif_data (fm_sessionId f) len (fm_ip4SrcAddr f) (fm_tcpSrcPort f)
     (fm_tcpDstPort f)"

lemma fsm_keep_writes:
  "items (ssFsmToTsd_DropCmd (fsm_keep q len dbg s)) = items (ssFsmToTsd_DropCmd s) @ [CMD_KEEP]"
  "items (ssFsmToMwr_WrCmd (fsm_keep q len dbg s)) =
     items (ssFsmToMwr_WrCmd s) @ [seg_wrCmd (fsm_Meta s)]"
  "items (ssFsmToRan_Notif (fsm_keep q len dbg s)) =
     items (ssFsmToRan_Notif s) @ [seg_notif (fsm_Meta s) len]"
  "items (fsm_soRSt_RxSarQry (fsm_keep q len dbg s)) = items (fsm_soRSt_RxSarQry s) @ [q]"
  by (simp_all add: fsm_keep_def put_drop_def put_notif_def put_wrCmd_def put_rxSar_def
      seg_wrCmd_def seg_notif_def)

lemma fsm_ack_payload_writes:
  assumes "rx_keeps st r (fsm_meta s)" "is_ack (fsm_meta s)"
  shows "items (ssFsmToTsd_DropCmd (fsm_ack_payload r s)) = items (ssFsmToTsd_DropCmd s) @ [CMD_KEEP]"
    "items (ssFsmToMwr_WrCmd (fsm_ack_payload r s)) =
       items (ssFsmToMwr_WrCmd s) @ [seg_wrCmd (fsm_Meta s)]"
    "items (ssFsmToRan_Notif (fsm_ack_payload r s)) =
       items (ssFsmToRan_Notif s) @ [seg_notif (fsm_Meta s) (ooo_notified r (fsm_meta s))]"
    "items (fsm_soRSt_RxSarQry (fsm_ack_payload r s)) =
       items (fsm_soRSt_RxSarQry s) @ [ooo_query (fsm_sid s) r (fsm_meta s)]"
  using assms by (simp_all add: fsm_ack_payload_def rx_keeps_def fsm_keep_writes ooo_query_def
      ooo_notified_def Let_def) (blast+)

lemma fsm_ack_payload_drops:
  assumes "\<not> (ooo_default r (fsm_meta s) \<or> ooo_start r (fsm_meta s) \<or> ooo_continue r (fsm_meta s) \<or>
      ooo_partial r (fsm_meta s) \<or> ooo_end r (fsm_meta s))"
  shows "items (ssFsmToTsd_DropCmd (fsm_ack_payload r s)) = items (ssFsmToTsd_DropCmd s) @ [CMD_DROP]"
    "ssFsmToMwr_WrCmd (fsm_ack_payload r s) = ssFsmToMwr_WrCmd s"
    "ssFsmToRan_Notif (fsm_ack_payload r s) = ssFsmToRan_Notif s"
    "fsm_soRSt_RxSarQry (fsm_ack_payload r s) = fsm_soRSt_RxSarQry s"
  using assms by (simp_all add: fsm_ack_payload_def put_drop_def Let_def)

lemma fsm_ack_reset_drops:
  "items (ssFsmToTsd_DropCmd (fsm_ack_reset st s)) =
     items (ssFsmToTsd_DropCmd s) @ (if rm_length (fsm_meta s) = 0 then [] else [CMD_DROP])"
  by (simp add: fsm_ack_reset_def put_drop_def put_event_def put_state_def Let_def)

text \<open>The drop-or-keep commands and the write commands of every kind of segment.\<close>

definition seg_cmds :: "TcpState \<Rightarrow> RxSarReply \<Rightarrow> RXeMeta \<Rightarrow> bool list" where
  "seg_cmds st r m =
     (if rm_length m \<noteq> 0 \<and> (is_ack m \<or> is_fin_ack m)
      then [if rx_keeps st r m then CMD_KEEP else CMD_DROP] else [])"

lemma fsm_ack_cmds:
  assumes "is_ack (fsm_meta s)"
  shows "items (ssFsmToTsd_DropCmd (fsm_ack st r t s)) =
      items (ssFsmToTsd_DropCmd s) @ seg_cmds st r (fsm_meta s)"
    "items (ssFsmToMwr_WrCmd (fsm_ack st r t s)) =
      items (ssFsmToMwr_WrCmd s) @ map (\<lambda>_. seg_wrCmd (fsm_Meta s))
        (filter (\<lambda>c. c = CMD_KEEP) (seg_cmds st r (fsm_meta s)))"
proof -
  let ?u = "fsm_ack_window t (put_timer (fsm_timer (fsm_meta s) t) (s\<lparr>fsm_freeSpace := free_space r,
     fsm_soDBG_RxFreeSpace := swrite (fsm_soDBG_RxFreeSpace s) (free_space r)\<rparr>))"
  have u: "fsm_Meta ?u = fsm_Meta s" by simp
  note k = fsm_ack_payload_writes [of st r ?u, unfolded u, OF _ assms]
  note d = fsm_ack_payload_drops [of r ?u, unfolded u]
  show "items (ssFsmToTsd_DropCmd (fsm_ack st r t s)) =
      items (ssFsmToTsd_DropCmd s) @ seg_cmds st r (fsm_meta s)"
    using k(1) d(1) assms
    by (auto simp: fsm_ack_eq seg_cmds_def fsm_ack_reset_drops rx_keeps_def Let_def)
  show "items (ssFsmToMwr_WrCmd (fsm_ack st r t s)) =
      items (ssFsmToMwr_WrCmd s) @ map (\<lambda>_. seg_wrCmd (fsm_Meta s))
        (filter (\<lambda>c. c = CMD_KEEP) (seg_cmds st r (fsm_meta s)))"
    using k(2) d(2) assms
    by (auto simp: fsm_ack_eq seg_cmds_def rx_keeps_def Let_def)
qed

lemma is_kind_exclusive:
  "is_ack m \<Longrightarrow> \<not> is_fin_ack m" "is_ack m \<Longrightarrow> \<not> is_syn m" "is_ack m \<Longrightarrow> \<not> is_syn_ack m"
  "is_fin_ack m \<Longrightarrow> \<not> is_syn m" "is_fin_ack m \<Longrightarrow> \<not> is_syn_ack m"
  by (simp_all add: is_defs)

lemma fsm_fin_ack_cmds:
  assumes "is_fin_ack (fsm_meta s)"
  shows "items (ssFsmToTsd_DropCmd (fsm_fin_ack st r t s)) =
      items (ssFsmToTsd_DropCmd s) @ seg_cmds st r (fsm_meta s)"
    "items (ssFsmToMwr_WrCmd (fsm_fin_ack st r t s)) =
      items (ssFsmToMwr_WrCmd s) @ map (\<lambda>_. seg_wrCmd (fsm_Meta s))
        (filter (\<lambda>c. c = CMD_KEEP) (seg_cmds st r (fsm_meta s)))"
  using assms is_kind_exclusive(1)
  by (auto simp: fsm_fin_ack_def seg_cmds_def rx_keeps_def seg_wrCmd_def Let_def put_txSar_def
      put_rxSar_def put_clearProbe_def put_drop_def put_notif_closed_def put_wrCmd_def
      put_event_def put_state_def)

lemma fsm_serve_cmds:
  "items (ssFsmToTsd_DropCmd (fsm_serve st r t s)) =
     items (ssFsmToTsd_DropCmd s) @ seg_cmds st r (fsm_meta s)"
  "items (ssFsmToMwr_WrCmd (fsm_serve st r t s)) =
     items (ssFsmToMwr_WrCmd s) @ map (\<lambda>_. seg_wrCmd (fsm_Meta s))
       (filter (\<lambda>c. c = CMD_KEEP) (seg_cmds st r (fsm_meta s)))"
  using fsm_ack_cmds [of s st r t] fsm_fin_ack_cmds [of s st r t] is_kind_exclusive [of "fsm_meta s"]
  by (auto simp: fsm_serve_def seg_cmds_def)

section \<open>Properties of a single segment\<close>

text \<open>A state that waits with the given segment and replies, for concrete instances.\<close>

definition fsm_waiting ::
  "RXeFsmMeta \<Rightarrow> TcpState \<Rightarrow> RxSarReply \<Rightarrow> RXeTxSarReply \<Rightarrow> FSm" where
  "fsm_waiting f st r t = fsm_reset\<lparr>fsm_fsmState := FSM_TRANSITION, fsm_Meta := f,
     fsm_txSarRequest := rm_ack (fm_meta f), fsm_siSTt_StateRep := Stream 2 [st],
     fsm_siRSt_RxSarRep := Stream 2 [r], fsm_siTSt_TxSarRep := Stream 2 [t]\<rparr>"

definition segment :: "RxSeqNum \<Rightarrow> TcpSegLen \<Rightarrow> bool \<Rightarrow> bool \<Rightarrow> bool \<Rightarrow> RXeFsmMeta" where
  "segment seq len ack syn fin = RXeFsmMeta_zero\<lparr>fm_sessionId := 5, fm_meta := RXeMeta_zero
     \<lparr>rm_seqNumb := seq, rm_length := len, rm_ack := ack, rm_syn := syn, rm_fin := fin\<rparr>\<rparr>"

definition rxSar :: "RxSeqNum \<Rightarrow> RxBufPtr \<Rightarrow> RxSarReply" where
  "rxSar rcvd appd = \<lparr>rsr_appd = appd, rsr_rcvd = rcvd, rsr_oooHead = rcvd, rsr_oooTail = rcvd,
     rsr_ooo = False\<rparr>"

definition txSar :: RXeTxSarReply where
  "txSar = \<lparr>rtr_prevAckd = 0, rtr_prevUnak = 0, rtr_cong_window = 0, rtr_slowstart_threshold = 0,
     rtr_count = 0, rtr_fastRetransmitted = False\<rparr>"

lemmas fsm_instance_defs = fsm_waiting_def fsm_reset_def segment_def RXeFsmMeta_zero_def
  RXeMeta_zero_def rxSar_def txSar_def

lemma fsm_waiting_serving: "fsm_serving (fsm_waiting f st r t)"
  by (simp add: fsm_serving_def fsm_wf_def fsm_ready_def fsm_waiting_def sempty_def)

lemma fsm_waiting_replies: "fsm_replies junk (fsm_waiting f st r t) = (st, r, t)"
  by (simp add: fsm_replies_def fsm_waiting_def)

lemma fsm_waiting_fields:
  "fsm_Meta (fsm_waiting f st r t) = f" "items (fsm_soSTt_StateQry (fsm_waiting f st r t)) = []"
  "items (ssFsmToTsd_DropCmd (fsm_waiting f st r t)) = []"
  "items (ssFsmToMwr_WrCmd (fsm_waiting f st r t)) = []"
  "items (ssFsmToRan_Notif (fsm_waiting f st r t)) = []"
  "items (fsm_soRSt_RxSarQry (fsm_waiting f st r t)) = []"
  by (simp_all add: fsm_waiting_def fsm_reset_def)



text \<open>Every segment with a payload gets exactly one decision.  An ACK or a FIN with payload posts one
  keep-or-drop command, and the memory write command of the segment exactly when it keeps; the
  payload is kept exactly when the connection is in a state that receives data and the segment
  is in order or extends the one out-of-order block that the table can record.\<close>

theorem fsm_payload_decision:
  assumes "fsm_serving s" "fsm_replies junk s = (tcpState, r, t)"
    and "is_ack (fsm_meta s) \<or> is_fin_ack (fsm_meta s)" "rm_length (fsm_meta s) \<noteq> 0"
  shows "items (ssFsmToTsd_DropCmd (pFiniteStateMachine junk s)) =
      items (ssFsmToTsd_DropCmd s) @
        [if rx_keeps tcpState r (fsm_meta s) then CMD_KEEP else CMD_DROP] \<and>
     items (ssFsmToMwr_WrCmd (pFiniteStateMachine junk s)) =
       items (ssFsmToMwr_WrCmd s) @
        (if rx_keeps tcpState r (fsm_meta s) then [seg_wrCmd (fsm_Meta s)] else [])"
  using assms(3,4) by (simp add: pFiniteStateMachine_serves [OF assms(1,2)] fsm_serve_cmds seg_cmds_def)

theorem fsm_payload_decision_witness:
  "items (ssFsmToTsd_DropCmd (pFiniteStateMachine txSar
     (fsm_waiting (segment 100 40 True False False) ESTABLISHED (rxSar 100 100) txSar))) = [CMD_KEEP]"
proof -
  let ?f = "segment 100 40 True False False"
  let ?r = "rxSar 100 100"
  let ?s = "fsm_waiting ?f ESTABLISHED ?r txSar"
  have k: "is_ack (fm_meta ?f)" "rm_length (fm_meta ?f) \<noteq> 0"
    by (simp_all add: fsm_instance_defs is_ack_def)
  have "rx_keeps ESTABLISHED ?r (fm_meta ?f)"
    using k(1) by (simp add: rx_keeps_def ack_states_def ooo_default_def free_space_def
        fsm_instance_defs)
  moreover have "fsm_serving ?s" "fsm_replies txSar ?s = (ESTABLISHED, ?r, txSar)"
    by (rule fsm_waiting_serving, rule fsm_waiting_replies)
  ultimately show ?thesis
    using k fsm_payload_decision [of ?s txSar ESTABLISHED ?r txSar] by (simp add: fsm_waiting_fields)
qed

text \<open>A payload that comes with any other control bits is not decided.  For a SYN, a SYN-ACK, a RST or
  a FIN without ACK the run posts neither a keep-or-drop command nor a write command, whatever the
  length of the segment.\<close>

theorem fsm_undecided_payload:
  assumes "fsm_serving s" "\<not> is_ack (fsm_meta s)" "\<not> is_fin_ack (fsm_meta s)"
  shows "ssFsmToTsd_DropCmd (pFiniteStateMachine junk s) = ssFsmToTsd_DropCmd s \<and>
     ssFsmToMwr_WrCmd (pFiniteStateMachine junk s) = ssFsmToMwr_WrCmd s"
proof -
  obtain st r t where "fsm_replies junk s = (st, r, t)" by (cases "fsm_replies junk s") auto
  from pFiniteStateMachine_serves [OF assms(1) this] assms(2,3) show ?thesis
    by (simp add: fsm_serve_def)
qed

theorem fsm_undecided_payload_witness:
  "ssFsmToTsd_DropCmd (pFiniteStateMachine txSar
     (fsm_waiting (segment 100 40 False True False) CLOSED (rxSar 0 0) txSar)) = Stream 16 []"
proof -
  let ?s = "fsm_waiting (segment 100 40 False True False) CLOSED (rxSar 0 0) txSar"
  have "\<not> is_ack (fsm_meta ?s)" "\<not> is_fin_ack (fsm_meta ?s)" "ssFsmToTsd_DropCmd ?s = Stream 16 []"
    by (simp_all add: is_defs fsm_instance_defs)
  with fsm_undecided_payload [OF fsm_waiting_serving, of "segment 100 40 False True False" CLOSED
      "rxSar 0 0" txSar txSar]
  show ?thesis by simp
qed

section \<open>The lock discipline towards the state table\<close>

text \<open>
  A run of the process from reset in an arbitrary environment, with the queries that it has sent
  to the state table.  The environment may change every stream at any time, but not the static
  variables of the process.
\<close>

inductive fsm_run :: "FSm \<Rightarrow> StateQuery list \<Rightarrow> bool" where
  boot: "fsm_run fsm_reset []"
| environment: "fsm_run s l \<Longrightarrow> fsm_fsmState s' = fsm_fsmState s \<Longrightarrow>
     fsm_txSarRequest s' = fsm_txSarRequest s \<Longrightarrow> fsm_Meta s' = fsm_Meta s \<Longrightarrow> fsm_run s' l"
| clock: "fsm_run s l \<Longrightarrow> items (fsm_soSTt_StateQry (pFiniteStateMachine junk s)) =
     items (fsm_soSTt_StateQry s) @ qs \<Longrightarrow> fsm_run (pFiniteStateMachine junk s) (l @ qs)"

text \<open>Complete accesses: the session is read, then written.\<close>

definition accesses :: "(SessionId \<times> TcpState) list \<Rightarrow> StateQuery list" where
  "accesses ps = concat (map (\<lambda>(i, st). [StateQuery_rd i, StateQuery_wr i st]) ps)"

definition open_access :: "FSm \<Rightarrow> StateQuery list" where
  "open_access s = (if fsm_fsmState s = FSM_TRANSITION then [StateQuery_rd (fsm_sid s)] else [])"

definition fsm_paired :: "FSm \<Rightarrow> StateQuery list \<Rightarrow> bool" where
  "fsm_paired s l \<longleftrightarrow> fsm_wf s \<and> (\<exists>ps. l = accesses ps @ open_access s)"

lemma accesses_snoc: "accesses (ps @ [(i, st)]) = accesses ps @ [StateQuery_rd i, StateQuery_wr i st]"
  by (simp add: accesses_def)

lemma fsm_paired_clock:
  assumes "fsm_paired s l" "items (fsm_soSTt_StateQry (pFiniteStateMachine junk s)) =
     items (fsm_soSTt_StateQry s) @ qs"
  shows "fsm_paired (pFiniteStateMachine junk s) (l @ qs)"
proof -
  have wf: "fsm_wf s" using assms(1) by (simp add: fsm_paired_def)
  obtain ps where l: "l = accesses ps @ open_access s"
    using assms(1) by (auto simp: fsm_paired_def)
  have "\<exists>ps. l @ qs = accesses ps @ open_access (pFiniteStateMachine junk s)"
  proof (cases "fsm_fsmState s")
    case FSM_LOAD
    show ?thesis
    proof (cases "items (ssMdhToFsm_Meta s)")
      case Nil
      with assms(2) l FSM_LOAD show ?thesis
        by (auto simp: pFiniteStateMachine_idle open_access_def)
    next
      case (Cons meta ms)
      note load = pFiniteStateMachine_loads [OF FSM_LOAD Cons, of junk]
      with assms(2) l FSM_LOAD show ?thesis
        by (intro exI [of _ ps]) (simp add: open_access_def)
    qed
  next
    case FSM_TRANSITION
    show ?thesis
    proof (cases "fsm_ready s")
      case True
      then have serving: "fsm_serving s" using wf FSM_TRANSITION by (simp add: fsm_serving_def)
      obtain st r t where "fsm_replies junk s = (st, r, t)" by (cases "fsm_replies junk s") auto
      note serve = fsm_serves_state [OF serving this]
      have "l @ qs = accesses (ps @ [(fsm_sid s, rx_next (fsm_meta s) r t st)])"
        using serve(1) assms(2) l FSM_TRANSITION by (simp add: open_access_def accesses_snoc)
      then show ?thesis using serve(2) by (auto simp: open_access_def)
    next
      case False
      with assms(2) l FSM_TRANSITION show ?thesis
        by (auto simp: pFiniteStateMachine_waits open_access_def)
    qed
  qed
  with fsm_wf_step [OF wf] show ?thesis by (simp add: fsm_paired_def)
qed

text \<open>C40. The lock discipline: in every run from reset, whatever the environment does with the streams, the
  queries to the state table are pairs of a read and a write of the same session, and at most
  the last read is still open, namely while a segment of that session is in process.\<close>

theorem fsm_lock_discipline:
  assumes "fsm_run s l"
  shows "\<exists>ps. l = accesses ps @ open_access s"
proof -
  have "fsm_paired s l"
    using assms
  proof (induction rule: fsm_run.induct)
    case boot
    have "fsm_wf fsm_reset" "[] = accesses [] @ open_access fsm_reset"
      by (simp_all add: fsm_wf_def fsm_reset_def accesses_def open_access_def)
    then show ?case unfolding fsm_paired_def by blast
  next
    case (environment s l s')
    then have "open_access s' = open_access s" "fsm_wf s' = fsm_wf s"
      by (simp_all add: open_access_def fsm_wf_def)
    with environment show ?case by (simp add: fsm_paired_def)
  next
    case (clock s l junk qs)
    then show ?case by (blast intro: fsm_paired_clock)
  qed
  then show ?thesis by (simp add: fsm_paired_def)
qed

theorem fsm_lock_discipline_witness:
  "\<exists>s. fsm_run s [StateQuery_rd 5] \<and> fsm_fsmState s = FSM_TRANSITION \<and> fsm_sid s = 5"
proof -
  let ?s = "fsm_reset\<lparr>ssMdhToFsm_Meta := Stream 2 [segment 100 0 True False False]\<rparr>"
  let ?t = "pFiniteStateMachine txSar ?s"
  have s: "fsm_fsmState ?s = FSM_LOAD" "items (ssMdhToFsm_Meta ?s) = [segment 100 0 True False False]"
    "items (fsm_soSTt_StateQry ?s) = []"
    by (simp_all add: fsm_reset_def)
  note load = pFiniteStateMachine_loads [OF s(1,2), of txSar]
  have "fsm_run ?s []" by (rule environment [OF boot]) simp_all
  then have "fsm_run ?t ([] @ [StateQuery_rd 5])"
    by (rule clock) (simp only: load s append_Nil, simp add: segment_def)
  then have r: "fsm_run ?t [StateQuery_rd 5]" by simp
  obtain ps where ps: "[StateQuery_rd 5] = accesses ps @ open_access ?t"
    using fsm_lock_discipline [OF r] by blast
  moreover have "ps = []"
  proof (cases ps)
    case (Cons p qs)
    with ps show ?thesis by (cases p) (simp add: accesses_def)
  qed simp
  ultimately have "fsm_sid ?t = 5 \<and> fsm_fsmState ?t = FSM_TRANSITION"
    by (auto simp: accesses_def open_access_def StateQuery_rd_def split: if_splits)
  with r show ?thesis by blast
qed

end
