(* ===== verification/Rx_Buffer.thy ===== *)
theory Rx_Buffer
  imports Rx_Fsm Rx_Sar_Table
begin

text \<open>
  The receive buffer: what the state machine of the Rx engine (\<open>Rx_Fsm\<close>) decides on a segment,
  applied to the entry of the Rx SAR table (\<open>Rx_Sar_Table\<close>).  The buffer of a session is a ring of
  64 KB.  The theory shows that a segment that is kept never overwrites data that the
  application has not read, that the notifications account for every byte that becomes
  available, and two ways in which the code leaves the window of the buffer.
\<close>

section \<open>The ring\<close>

text \<open>The bytes that are received in order but not yet read, the distance from the next expected
  byte to the end of the out-of-order block, and the place of a segment after the read pointer.\<close>

definition rx_unread :: "RxSarEntry \<Rightarrow> nat" where
  "rx_unread e = unat (ucast (rs_rcvd e) - rs_appd e)"

definition rx_ahead :: "RxSarEntry \<Rightarrow> nat" where
  "rx_ahead e = unat (rs_oooHead e - rs_rcvd e)"

definition rx_offset :: "RxSarEntry \<Rightarrow> RxSeqNum \<Rightarrow> nat" where
  "rx_offset e seq = unat (ucast seq - rs_appd e)"

definition rx_inv :: "RxSarEntry \<Rightarrow> bool" where
  "rx_inv e \<longleftrightarrow> rs_wf e \<and> rx_unread e + rx_ahead e < 65536 \<and>
     (rs_ooo e \<longrightarrow> rs_rcvd e < rs_oooTail e \<and> unat (rs_oooTail e - rs_rcvd e) < rx_ahead e)"

lemma ucast_16_add: "(ucast (x + d :: 32 word) :: 16 word) = ucast x + ucast d"
  by (simp add: word_uint_eq_iff uint_word_ariths unsigned_ucast_eq take_bit_eq_mod mod_add_eq
      mod_mod_cancel)

lemma unat_ucast_16: "unat (ucast (x::32 word) :: 16 word) = unat x mod 65536"
  by (simp add: unsigned_ucast_eq take_bit_eq_mod)

lemma offset_add:
  "unat (ucast (x + d :: 32 word) - p :: 16 word) = (unat (ucast x - p :: 16 word) + unat d) mod 65536"
proof -
  have "ucast (x + d) - p = (ucast x - p) + (ucast d :: 16 word)" by (simp add: ucast_16_add)
  moreover have "unat (a + b) = (unat a + unat b) mod 65536" for a b :: "16 word"
    by (simp add: unat_word_ariths)
  ultimately show ?thesis by (simp only: unat_ucast_16 mod_add_right_eq)
qed

lemma unat_add_small:
  "unat a + unat b < 65536 \<Longrightarrow> unat (a + b :: 32 word) = unat a + unat b"
  by (simp add: unat_word_ariths)

lemma unat_compl_16: "unat (- x - 1 :: 16 word) = 65535 - unat x"
proof -
  have "unat (- 1 - x) = unat (- 1 :: 16 word) - unat x" by (rule unat_sub) simp
  moreover have "- x - 1 = - 1 - x" by simp
  ultimately show ?thesis by (simp only: unsigned_minus_1_eq_mask mask_eq_exp_minus_1) simp
qed

lemma rx_free_space:
  assumes "rx_inv e"
  shows "unat (free_space (RxSarReply_of e)) = 65535 - (rx_unread e + rx_ahead e)"
proof -
  have "unat (ucast (rs_rcvd e + (rs_oooHead e - rs_rcvd e)) - rs_appd e) = rx_unread e + rx_ahead e"
    using assms offset_add [of "rs_rcvd e" "rs_oooHead e - rs_rcvd e" "rs_appd e"]
    by (simp add: rx_inv_def rx_unread_def rx_ahead_def)
  then have "unat (ucast (rs_oooHead e) - rs_appd e) = rx_unread e + rx_ahead e" by simp
  moreover have "free_space (RxSarReply_of e) = - (ucast (rs_oooHead e) - rs_appd e) - 1"
    by (simp add: free_space_def RxSarReply_of_def)
  ultimately show ?thesis by (simp only: unat_compl_16)
qed

section \<open>Keeping a segment\<close>

definition rx_accept :: "SessionId \<Rightarrow> RXeMeta \<Rightarrow> RxSarEntry \<Rightarrow> RxSarEntry" where
  "rx_accept sid m e = rst_rxe_write (ooo_query sid (RxSarReply_of e) m) e"

definition rx_kept :: "RXeMeta \<Rightarrow> RxSarEntry \<Rightarrow> bool" where
  "rx_kept m e \<longleftrightarrow> (let r = RxSarReply_of e in
     ooo_default r m \<or> ooo_start r m \<or> ooo_continue r m \<or> ooo_partial r m \<or> ooo_end r m)"

text \<open>The segment lies less than 64 KB after the next expected byte.\<close>

definition in_window :: "RXeMeta \<Rightarrow> RxSarEntry \<Rightarrow> bool" where
  "in_window m e \<longleftrightarrow> unat (rm_seqNumb m - rs_rcvd e) + unat (rm_length m) < 65536"

text \<open>What a kept segment may assume and has to establish.\<close>

definition rx_fits :: "RXeMeta \<Rightarrow> SessionId \<Rightarrow> RxSarEntry \<Rightarrow> bool" where
  "rx_fits m sid e \<longleftrightarrow>
     rx_unread e \<le> rx_offset e (rm_seqNumb m) \<and>
     rx_offset e (rm_seqNumb m) + unat (rm_length m) \<le> 65535 \<and>
     rs_rcvd (rx_accept sid m e) = rs_rcvd e + ucast (ooo_notified (RxSarReply_of e) m) \<and>
     rx_inv (rx_accept sid m e)"

lemmas rx_accept_defs = rx_accept_def ooo_query_def rst_rxe_write_def RXeRxSarQuery_wr_def
  RXeRxSarQuery_ooo_def Let_def

lemma unat_seg_len: "unat (ucast (len :: TcpSegLen) :: 32 word) = unat len"
proof -
  have "unat len < 2 ^ LENGTH(16)" by (rule unsigned_less)
  then show ?thesis by (simp add: unsigned_ucast_eq take_bit_nat_eq_self)
qed

lemma RxSarReply_of_sel [simp]:
  "rsr_appd (RxSarReply_of e) = rs_appd e" "rsr_rcvd (RxSarReply_of e) = rs_rcvd e"
  "rsr_oooHead (RxSarReply_of e) = rs_oooHead e" "rsr_oooTail (RxSarReply_of e) = rs_oooTail e"
  "rsr_ooo (RxSarReply_of e) = rs_ooo e"
  by (simp_all add: RxSarReply_of_def)

lemma rx_fits_default:
  assumes "rx_inv e" "ooo_default (RxSarReply_of e) m"
  shows "rx_fits m sid e"
proof -
  let ?l = "unat (rm_length m)"
  have seq: "rm_seqNumb m = rs_rcvd e" and ooo: "\<not> rs_ooo e"
    and len: "?l < unat (free_space (RxSarReply_of e))"
    using assms(2) by (simp_all add: ooo_default_def word_less_nat_alt)
  have head: "rs_oooHead e = rs_rcvd e" using assms(1) ooo by (simp add: rx_inv_def rs_wf_def)
  then have fits: "rx_unread e + ?l < 65535"
    using len rx_free_space [OF assms(1)] by (simp add: rx_ahead_def)
  have acc: "rx_accept sid m e = e\<lparr>rs_rcvd := seg_next m, rs_ooo := False,
      rs_oooHead := seg_next m, rs_oooTail := seg_next m\<rparr>"
    using assms(2) by (simp add: rx_accept_defs)
  have "rx_unread (rx_accept sid m e) = rx_unread e + ?l"
    using fits offset_add [of "rs_rcvd e" "ucast (rm_length m)" "rs_appd e"]
    by (simp add: acc rx_unread_def seg_next_def seq unat_seg_len)
  then have "rx_inv (rx_accept sid m e)"
    using fits by (simp add: rx_inv_def acc rs_wf_def rx_ahead_def)
  then show ?thesis
    using fits assms(2) by (simp add: rx_fits_def acc ooo_notified_def seg_next_def seq
        rx_offset_def rx_unread_def)
qed

lemma rx_fits_start:
  assumes "rx_inv e" "ooo_start (RxSarReply_of e) m" "in_window m e" "rm_length m \<noteq> 0"
  shows "rx_fits m sid e"
proof -
  let ?l = "unat (rm_length m)"
  let ?d = "unat (rm_seqNumb m - rs_rcvd e)"
  have ooo: "\<not> rs_ooo e" and less: "rs_rcvd e < rm_seqNumb m"
    and space: "unat (ucast (seg_next m - rs_oooHead e) :: 16 word) < unat (free_space (RxSarReply_of e))"
    using assms(2) by (simp_all add: ooo_start_def word_less_nat_alt)
  have head: "rs_oooHead e = rs_rcvd e" using assms(1) ooo by (simp add: rx_inv_def rs_wf_def)
  have win: "?d + ?l < 65536" using assms(3) by (simp add: in_window_def)
  have "seg_next m - rs_rcvd e = (rm_seqNumb m - rs_rcvd e) + ucast (rm_length m)"
    by (simp add: seg_next_def)
  then have dist: "unat (seg_next m - rs_rcvd e) = ?d + ?l"
    using win by (simp only: unat_add_small unat_seg_len)
  have fits: "rx_unread e + ?d + ?l < 65535"
    using space rx_free_space [OF assms(1)] win
    by (simp add: head dist unat_ucast_16 rx_ahead_def)
  have acc: "rx_accept sid m e = e\<lparr>rs_ooo := True, rs_oooHead := seg_next m,
      rs_oooTail := rm_seqNumb m\<rparr>"
    using assms(2) by (auto simp: rx_accept_defs ooo_default_def ooo_start_def)
  have "0 < ?l" using assms(4) by (simp add: unat_gt_0)
  then have "rx_inv (rx_accept sid m e)"
    using fits less by (simp add: rx_inv_def acc rs_wf_def rx_ahead_def dist rx_unread_def)
  moreover have "rx_offset e (rm_seqNumb m) = rx_unread e + ?d"
    using fits offset_add [of "rs_rcvd e" "rm_seqNumb m - rs_rcvd e" "rs_appd e"]
    by (simp add: rx_offset_def rx_unread_def)
  moreover have "ooo_notified (RxSarReply_of e) m = 0"
    using assms(2) by (auto simp: ooo_notified_def ooo_default_def ooo_start_def)
  ultimately show ?thesis using fits by (simp add: rx_fits_def acc)
qed

lemma rx_fits_continue:
  assumes "rx_inv e" "ooo_continue (RxSarReply_of e) m"
  shows "rx_fits m sid e"
proof -
  let ?l = "unat (rm_length m)"
  have ooo: "rs_ooo e" and seq: "rm_seqNumb m = rs_oooHead e"
    and len: "?l < unat (free_space (RxSarReply_of e))"
    using assms(2) by (simp_all add: ooo_continue_def word_less_nat_alt)
  have fits: "rx_unread e + rx_ahead e + ?l < 65535"
    using len rx_free_space [OF assms(1)] by simp
  have acc: "rx_accept sid m e = e\<lparr>rs_ooo := True, rs_oooHead := seg_next m\<rparr>"
    using assms(2) by (auto simp: rx_accept_defs ooo_default_def ooo_start_def ooo_continue_def)
  have "seg_next m - rs_rcvd e = (rs_oooHead e - rs_rcvd e) + ucast (rm_length m)"
    by (simp add: seg_next_def seq)
  then have "unat (seg_next m - rs_rcvd e) = unat (rs_oooHead e - rs_rcvd e) + ?l"
    using fits unat_add_small [of "rs_oooHead e - rs_rcvd e" "ucast (rm_length m)"]
    by (simp only: unat_seg_len rx_ahead_def)
  then have "rx_ahead (rx_accept sid m e) = rx_ahead e + ?l"
    by (simp add: acc rx_ahead_def)
  then have "rx_inv (rx_accept sid m e)"
    using fits assms(1) ooo by (simp add: rx_inv_def acc rs_wf_def rx_unread_def)
  moreover have "rx_offset e (rm_seqNumb m) = rx_unread e + rx_ahead e"
    using fits offset_add [of "rs_rcvd e" "rs_oooHead e - rs_rcvd e" "rs_appd e"]
    by (simp add: rx_offset_def rx_unread_def rx_ahead_def seq)
  moreover have "ooo_notified (RxSarReply_of e) m = 0"
    using assms(2) by (auto simp: ooo_notified_def ooo_default_def ooo_continue_def)
  ultimately show ?thesis using fits by (simp add: rx_fits_def acc)
qed

lemma tail_distance:
  assumes "rs_rcvd e < rs_oooTail e"
  shows "unat (rs_oooTail e - rs_rcvd e) = unat (rs_oooTail e) - unat (rs_rcvd e)"
  using assms by (intro unat_sub) simp

lemma rx_fits_partial:
  assumes "rx_inv e" "ooo_partial (RxSarReply_of e) m"
  shows "rx_fits m sid e"
proof -
  let ?l = "unat (rm_length m)"
  have ooo: "rs_ooo e" and seq: "rm_seqNumb m = rs_rcvd e"
    and gap: "unat (rs_rcvd e) + ?l < unat (rs_oooTail e)"
    using assms(2) by (auto simp: ooo_partial_def seg_end_def)
  have tail: "rs_rcvd e < rs_oooTail e" "unat (rs_oooTail e - rs_rcvd e) < rx_ahead e"
    and sum: "rx_unread e + rx_ahead e < 65536"
    using assms(1) ooo by (simp_all add: rx_inv_def)
  have l: "?l < rx_ahead e" using gap tail tail_distance [OF tail(1)] by simp
  then have ncont: "rm_seqNumb m \<noteq> rs_oooHead e" using seq by (auto simp: rx_ahead_def)
  have acc: "rx_accept sid m e = e\<lparr>rs_rcvd := seg_next m, rs_ooo := True\<rparr>"
    using assms(2) ncont
    by (auto simp: rx_accept_defs ooo_default_def ooo_start_def ooo_continue_def ooo_partial_def)
  have "unat (rs_oooTail e) < 2 ^ LENGTH(32)" by (rule unsigned_less)
  then have next_nat: "unat (seg_next m) = unat (rs_rcvd e) + ?l"
    using gap by (simp add: seg_next_def seq unat_word_ariths unat_seg_len)
  have ahead: "rx_ahead (rx_accept sid m e) = rx_ahead e - ?l"
  proof -
    have "rs_oooHead e - seg_next m = (rs_oooHead e - rs_rcvd e) - ucast (rm_length m)"
      by (simp add: seg_next_def seq)
    moreover have "ucast (rm_length m) \<le> rs_oooHead e - rs_rcvd e"
      using l by (simp add: word_le_nat_alt unat_seg_len rx_ahead_def)
    ultimately have "unat (rs_oooHead e - seg_next m) = unat (rs_oooHead e - rs_rcvd e) - ?l"
      by (simp only: unat_sub unat_seg_len)
    then show ?thesis by (simp add: acc rx_ahead_def)
  qed
  have unread: "rx_unread (rx_accept sid m e) = rx_unread e + ?l"
    using l sum offset_add [of "rs_rcvd e" "ucast (rm_length m)" "rs_appd e"]
    by (simp add: acc rx_unread_def seg_next_def seq unat_seg_len)
  have less: "seg_next m < rs_oooTail e" using next_nat gap by (simp add: word_less_nat_alt)
  then have "unat (rs_oooTail e - seg_next m) = unat (rs_oooTail e) - (unat (rs_rcvd e) + ?l)"
    using next_nat by (simp add: unat_sub)
  then have "rx_inv (rx_accept sid m e)"
    using ahead unread sum l less tail(2) tail_distance [OF tail(1)] gap
    by (simp add: rx_inv_def rs_wf_def acc)
  moreover have "ooo_notified (RxSarReply_of e) m = rm_length m"
    using assms(2) ncont
    by (auto simp: ooo_notified_def ooo_default_def ooo_start_def ooo_continue_def ooo_partial_def)
  ultimately show ?thesis
    using l sum by (simp add: rx_fits_def acc seg_next_def seq rx_offset_def rx_unread_def)
qed

lemma rx_fits_end:
  assumes "rx_inv e" "ooo_end (RxSarReply_of e) m"
  shows "rx_fits m sid e"
proof -
  let ?l = "unat (rm_length m)"
  have ooo: "rs_ooo e" and seq: "rm_seqNumb m = rs_rcvd e"
    and gap: "unat (rs_rcvd e) + ?l = unat (rs_oooTail e)"
    using assms(2) by (auto simp: ooo_end_def seg_end_def)
  have tail: "rs_rcvd e < rs_oooTail e" "unat (rs_oooTail e - rs_rcvd e) < rx_ahead e"
    and sum: "rx_unread e + rx_ahead e < 65536"
    using assms(1) ooo by (simp_all add: rx_inv_def)
  have l: "?l < rx_ahead e" using gap tail tail_distance [OF tail(1)] by simp
  then have ncont: "rm_seqNumb m \<noteq> rs_oooHead e" using seq by (auto simp: rx_ahead_def)
  have other: "\<not> ooo_default (RxSarReply_of e) m" "\<not> ooo_start (RxSarReply_of e) m"
    "\<not> ooo_continue (RxSarReply_of e) m" "\<not> ooo_partial (RxSarReply_of e) m"
    using assms(2) ncont
    by (auto simp: ooo_default_def ooo_start_def ooo_continue_def ooo_partial_def ooo_end_def)
  have acc: "rx_accept sid m e = e\<lparr>rs_rcvd := rs_oooHead e, rs_ooo := False,
      rs_oooTail := rs_oooHead e\<rparr>"
    using other by (simp add: rx_accept_defs)
  have "rx_unread (rx_accept sid m e) = rx_unread e + rx_ahead e"
    using sum offset_add [of "rs_rcvd e" "rs_oooHead e - rs_rcvd e" "rs_appd e"]
    by (simp add: acc rx_unread_def rx_ahead_def)
  then have "rx_inv (rx_accept sid m e)"
    using sum by (simp add: rx_inv_def acc rs_wf_def rx_ahead_def)
  moreover have "ucast (ooo_notified (RxSarReply_of e) m) = rs_oooHead e - rs_rcvd e"
  proof -
    have "ooo_notified (RxSarReply_of e) m = ucast (rs_oooHead e - rs_rcvd e)"
      using other by (simp add: ooo_notified_def)
    then show ?thesis
      using sum by (simp add: word_unat_eq_iff unat_seg_len unat_ucast_16 rx_ahead_def)
  qed
  ultimately show ?thesis
    using l sum by (simp add: rx_fits_def acc seq rx_offset_def rx_unread_def)
qed

text \<open>
  The one case that the code does not check: a segment that starts an out-of-order block and ends
  64 KB or more after the next expected byte.
\<close>

definition rx_beyond :: "RXeMeta \<Rightarrow> RxSarEntry \<Rightarrow> bool" where
  "rx_beyond m e \<longleftrightarrow> ooo_start (RxSarReply_of e) m \<and> \<not> in_window m e"

lemma rx_kept_fits:
  assumes "rx_inv e" "rx_kept m e" "\<not> rx_beyond m e" "rm_length m \<noteq> 0"
  shows "rx_fits m sid e"
  using assms rx_fits_default rx_fits_start rx_fits_continue rx_fits_partial rx_fits_end
  unfolding rx_kept_def rx_beyond_def Let_def by blast

lemma rx_beyond_breaks:
  assumes "rx_inv e" "rx_beyond m e" "rm_length m \<noteq> 0"
  shows "\<not> rx_inv (rx_accept sid m e)"
proof
  let ?l = "unat (rm_length m)"
  let ?d = "unat (rm_seqNumb m - rs_rcvd e)"
  assume inv: "rx_inv (rx_accept sid m e)"
  have start: "ooo_start (RxSarReply_of e) m" and far: "65536 \<le> ?d + ?l"
    using assms(2) by (simp_all add: rx_beyond_def in_window_def)
  have acc: "rx_accept sid m e = e\<lparr>rs_ooo := True, rs_oooHead := seg_next m,
      rs_oooTail := rm_seqNumb m\<rparr>"
    using start by (auto simp: rx_accept_defs ooo_default_def ooo_start_def)
  have ahead: "?d < rx_ahead (rx_accept sid m e)" "rx_ahead (rx_accept sid m e) < 65536"
    using inv by (simp_all add: rx_inv_def acc)
  have l: "?l < 65536" using unsigned_less [of "rm_length m"] by simp
  have "seg_next m - rs_rcvd e = (rm_seqNumb m - rs_rcvd e) + ucast (rm_length m)"
    by (simp add: seg_next_def)
  then have "unat (seg_next m - rs_rcvd e) = (?d + ?l) mod 2 ^ 32"
    by (simp only: unat_word_ariths(1) unat_seg_len) simp
  then have "rx_ahead (rx_accept sid m e) = (?d + ?l) mod 2 ^ 32"
    by (simp add: rx_ahead_def acc)
  moreover have "?d < 65536" using ahead by simp
  ultimately have "rx_ahead (rx_accept sid m e) = ?d + ?l" using l by simp
  then show False using far ahead by simp
qed

section \<open>The life of a buffer\<close>

text \<open>
  The entry of a session under the operations that the Rx engine and the application perform:
  the initialisation by a SYN, ACK segments that are kept, but not beyond the window, and reads of
  at most the data that is there.
\<close>

inductive rx_buffer :: "RxSarEntry \<Rightarrow> bool" where
  open_session: "rx_buffer (rst_rxe_write (RXeRxSarQuery_init sid seq) e)"
| segment_kept: "rx_buffer e \<Longrightarrow> rx_kept m e \<Longrightarrow> \<not> rx_beyond m e \<Longrightarrow> rm_length m \<noteq> 0 \<Longrightarrow>
     rx_buffer (rx_accept sid m e)"
| application_read: "rx_buffer e \<Longrightarrow> n \<le> rx_unread e \<Longrightarrow>
     rx_buffer (e\<lparr>rs_appd := rs_appd e + of_nat n\<rparr>)"

lemma rx_inv_init: "rx_inv (rst_rxe_write (RXeRxSarQuery_init sid seq) e)"
  by (simp add: rx_inv_def rst_rxe_write_def RXeRxSarQuery_init_def rs_wf_def rx_unread_def
      rx_ahead_def)

lemma rx_inv_read:
  assumes "rx_inv e" "n \<le> rx_unread e"
  shows "rx_inv (e\<lparr>rs_appd := rs_appd e + of_nat n\<rparr>)"
proof -
  have "n < 65536" using assms by (simp add: rx_inv_def)
  then have n: "unat (of_nat n :: 16 word) = n"
    by (simp add: unsigned_of_nat take_bit_nat_eq_self)
  then have "(of_nat n :: 16 word) \<le> ucast (rs_rcvd e) - rs_appd e"
    using assms(2) by (simp only: word_le_nat_alt rx_unread_def)
  then have "rx_unread (e\<lparr>rs_appd := rs_appd e + of_nat n\<rparr>) = rx_unread e - n"
    using n unat_sub [of "of_nat n" "ucast (rs_rcvd e) - rs_appd e"]
    by (simp add: rx_unread_def diff_diff_eq)
  then show ?thesis using assms(1) by (auto simp: rx_inv_def rs_wf_def rx_ahead_def)
qed

lemma rx_buffer_inv: "rx_buffer e \<Longrightarrow> rx_inv e"
  by (induction rule: rx_buffer.induct)
    (use rx_inv_init rx_kept_fits rx_inv_read in \<open>auto simp: rx_fits_def\<close>)

section \<open>Properties\<close>

text \<open>C3. A kept ACK segment never overwrites unread data, as long as the peer sends none that starts an
  out-of-order block and ends 64 KB or more after the next expected byte.  In the life of a
  session's buffer up to the first such segment, every ACK segment that the state machine keeps
  falls into the free part of the ring: behind the bytes that the application has not read and
  before its read pointer; and the notification announces exactly the bytes by which the next
  expected sequence number advances, also when a filled gap makes an out-of-order block available.
  The entry stays consistent.  A segment beyond the window, which the code keeps too, breaks
  the entry in every case.  (The payload of a FIN is another matter, see
  \<open>fsm_fin_overruns_buffer\<close>.)\<close>

theorem rx_buffer_never_overwritten:
  assumes "rx_buffer e" "rx_kept m e" "rm_length m \<noteq> 0"
  shows "(\<not> rx_beyond m e \<longrightarrow>
       rx_unread e \<le> rx_offset e (rm_seqNumb m) \<and>
       rx_offset e (rm_seqNumb m) + unat (rm_length m) \<le> 65535 \<and>
       rs_rcvd (rx_accept sid m e) = rs_rcvd e + ucast (ooo_notified (RxSarReply_of e) m)) \<and>
     (rx_inv (rx_accept sid m e) \<longleftrightarrow> \<not> rx_beyond m e)"
  using rx_kept_fits [OF rx_buffer_inv [OF assms(1)] assms(2) _ assms(3)]
    rx_beyond_breaks [OF rx_buffer_inv [OF assms(1)] _ assms(3)]
  unfolding rx_fits_def by blast

text \<open>The buffer of a session that was opened with the sequence number 99, and a segment.\<close>

definition opened :: RxSarEntry where
  "opened = rst_rxe_write (RXeRxSarQuery_init 0 100)
     \<lparr>rs_appd = 0, rs_rcvd = 0, rs_ooo = False, rs_oooHead = 0, rs_oooTail = 0\<rparr>"

definition ack_segment :: "RxSeqNum \<Rightarrow> TcpSegLen \<Rightarrow> RXeMeta" where
  "ack_segment seq len = RXeMeta_zero\<lparr>rm_seqNumb := seq, rm_length := len, rm_ack := True\<rparr>"

lemma opened_eq:
  "opened = \<lparr>rs_appd = 100, rs_rcvd = 100, rs_ooo = False, rs_oooHead = 100, rs_oooTail = 100\<rparr>"
  by (simp add: opened_def rst_rxe_write_def RXeRxSarQuery_init_def)

lemmas opened_defs = opened_eq ack_segment_def RXeMeta_zero_def RxSarReply_of_def

theorem rx_buffer_never_overwritten_witness:
  "rx_offset opened 300 + 50 \<le> 65535 \<and> rs_ooo (rx_accept 0 (ack_segment 300 50) opened)"
proof -
  have start: "ooo_start (RxSarReply_of opened) (ack_segment 300 50)"
    by (simp add: ooo_start_def free_space_def seg_next_def opened_defs)
  have "in_window (ack_segment 300 50) opened" "rm_length (ack_segment 300 50) \<noteq> 0"
    "rm_seqNumb (ack_segment 300 50) = 300" "unat (rm_length (ack_segment 300 50)) = 50"
    by (simp_all add: in_window_def opened_defs)
  moreover have "rx_buffer opened" unfolding opened_def by (rule open_session)
  moreover have "rx_kept (ack_segment 300 50) opened" using start by (simp add: rx_kept_def)
  ultimately have "rx_offset opened 300 + 50 \<le> 65535"
    using rx_buffer_never_overwritten [of opened "ack_segment 300 50"] by (simp add: rx_beyond_def)
  moreover have "\<not> ooo_default (RxSarReply_of opened) (ack_segment 300 50)"
    by (simp add: ooo_default_def opened_defs)
  ultimately show ?thesis using start by (simp add: rx_accept_defs)
qed

text \<open>An out-of-order segment may lie outside the window.  The test for the start of an out-of-order
  block compares only the low 16 bits of the distance with the free space, so it accepts with a
  segment also the segments that lie a multiple of 64 KB later; these are written to the same
  place of the buffer.\<close>

theorem ooo_start_aliases:
  assumes "ooo_start r m" "unat (rm_seqNumb m) + 65536 * k < 2 ^ 32"
  shows "ooo_start r (m\<lparr>rm_seqNumb := rm_seqNumb m + of_nat (65536 * k)\<rparr>) \<and>
     memSegAddr sid (rm_seqNumb m + of_nat (65536 * k)) = memSegAddr sid (rm_seqNumb m)"
proof -
  let ?d = "of_nat (65536 * k) :: 32 word"
  have low: "(ucast (x + ?d) :: 16 word) = ucast x" for x
  proof -
    have "unat (ucast (of_nat n :: 32 word) :: 16 word) = n mod 65536" for n
      by (simp add: unat_ucast_16 unsigned_of_nat take_bit_eq_mod mod_mod_cancel)
    from this [of "65536 * k"] have "(ucast ?d :: 16 word) = 0"
      by (simp only: mod_mult_self1_is_0 unat_eq_0)
    then show ?thesis by (simp only: ucast_16_add add_0_right)
  qed
  have "unat (rm_seqNumb m + ?d) = unat (rm_seqNumb m) + 65536 * k"
    using assms(2) by (simp add: unat_word_ariths unsigned_of_nat take_bit_nat_eq_self)
  then have "rm_seqNumb m \<le> rm_seqNumb m + ?d" by (simp add: word_le_nat_alt)
  moreover have "(ucast (rm_seqNumb m + ?d + ucast (rm_length m) - rsr_oooHead r) :: 16 word) =
      ucast (rm_seqNumb m + ucast (rm_length m) - rsr_oooHead r)"
    using low [of "rm_seqNumb m + ucast (rm_length m) - rsr_oooHead r"] by (simp add: algebra_simps)
  moreover have "memSegAddr sid (rm_seqNumb m + ?d) = memSegAddr sid (rm_seqNumb m)"
    by (simp only: memSegAddr_def low)
  ultimately show ?thesis
    using assms(1) by (auto simp: ooo_start_def seg_next_def)
qed

theorem ooo_start_aliases_witness:
  "ooo_start (RxSarReply_of opened) (ack_segment (300 + of_nat (65536 * 3)) 50)"
proof -
  have "ooo_start (RxSarReply_of opened) (ack_segment 300 50)"
    by (simp add: ooo_start_def free_space_def seg_next_def opened_defs)
  moreover have "unat (rm_seqNumb (ack_segment 300 50)) + 65536 * 3 < 2 ^ 32"
    by (simp add: ack_segment_def)
  ultimately have "ooo_start (RxSarReply_of opened)
      ((ack_segment 300 50)\<lparr>rm_seqNumb := rm_seqNumb (ack_segment 300 50) + of_nat (65536 * 3)\<rparr>)"
    by (rule ooo_start_aliases [THEN conjunct1])
  then show ?thesis by (simp add: ack_segment_def RXeMeta_zero_def)
qed

text \<open>A FIN overruns the buffer.  The branch for FIN segments does not look at the free space: an
  in-order FIN whose payload is longer than the free space is kept, and the place of the oldest
  byte that the application has not read lies inside the range that its write command covers.\<close>

theorem fsm_fin_overruns_buffer:
  assumes "fsm_serving s" "fsm_replies junk s = (tcpState, r, t)" "is_fin_ack (fsm_meta s)"
    and "tcpState \<in> {ESTABLISHED, FIN_WAIT_1, FIN_WAIT_2}" "rsr_rcvd r = rm_seqNumb (fsm_meta s)"
    and "rsr_oooHead r = rsr_rcvd r"
    and "unat (free_space r) + 1 < unat (rm_length (fsm_meta s))"
  shows "items (ssFsmToMwr_WrCmd (pFiniteStateMachine junk s)) =
       items (ssFsmToMwr_WrCmd s) @ [seg_wrCmd (fsm_Meta s)] \<and>
     unat (rsr_appd r - ucast (rm_seqNumb (fsm_meta s))) < unat (rm_length (fsm_meta s))"
proof -
  let ?x = "rsr_appd r - ucast (rm_seqNumb (fsm_meta s))"
  have "\<not> is_ack (fsm_meta s)" using assms(3) by (auto simp: is_defs)
  then have keep: "rx_keeps tcpState r (fsm_meta s)" using assms(4,5) by (simp add: rx_keeps_def)
  have "free_space r = ?x - 1" using assms(5,6) by (simp add: free_space_def)
  then have "?x = free_space r + 1" by simp
  then have "unat ?x \<le> unat (free_space r) + 1"
    by (simp only: unat_word_ariths unat_1) simp
  moreover have "rm_length (fsm_meta s) \<noteq> 0" using assms(7) by auto
  ultimately show ?thesis
    using keep assms(3,7)
    by (simp add: pFiniteStateMachine_serves [OF assms(1,2)] fsm_serve_cmds seg_cmds_def)
qed

theorem fsm_fin_overruns_buffer_witness:
  "items (ssFsmToMwr_WrCmd (pFiniteStateMachine txSar
     (fsm_waiting (segment 100 200 True False True) ESTABLISHED (rxSar 100 150) txSar))) =
   [seg_wrCmd (segment 100 200 True False True)]"
proof -
  let ?f = "segment 100 200 True False True"
  let ?r = "rxSar 100 150"
  let ?s = "fsm_waiting ?f ESTABLISHED ?r txSar"
  have "is_fin_ack (fm_meta ?f)" "rsr_rcvd ?r = rm_seqNumb (fm_meta ?f)"
    "rsr_oooHead ?r = rsr_rcvd ?r" "unat (free_space ?r) + 1 < unat (rm_length (fm_meta ?f))"
    by (simp_all add: is_fin_ack_def free_space_def fsm_instance_defs)
  moreover have "fsm_serving ?s" "fsm_replies txSar ?s = (ESTABLISHED, ?r, txSar)"
    by (rule fsm_waiting_serving, rule fsm_waiting_replies)
  ultimately show ?thesis
    using fsm_fin_overruns_buffer [of ?s txSar ESTABLISHED ?r txSar] by (simp add: fsm_waiting_fields)
qed

end
