(* ===== verification/Rx_Window.thy ===== *)
theory Rx_Window
  imports Rx_Fsm
begin

text \<open>
  What an ACK does to the send window in the state machine of the Rx engine (\<open>Rx_Fsm\<close>): the
  test of the acknowledgement number is membership in the window of unacknowledged bytes in
  arithmetic modulo \<open>2^32\<close>, and the congestion window grows without wrapping.
\<close>

lemma int_window:
  fixes a lo hi M :: int
  assumes "0 \<le> a" "a < M" "0 \<le> lo" "lo < M" "0 \<le> hi" "hi < M"
  shows "(if lo \<le> a then a - lo else a - lo + M) \<le> (if lo \<le> hi then hi - lo else hi - lo + M) \<longleftrightarrow>
     (lo \<le> a \<and> a \<le> hi) \<or> ((lo \<le> a \<or> a \<le> hi) \<and> hi < lo)"
  using assms by auto

lemma word_window:
  fixes a lo hi :: "'a::len word"
  shows "a - lo \<le> hi - lo \<longleftrightarrow> (lo \<le> a \<and> a \<le> hi) \<or> ((lo \<le> a \<or> a \<le> hi) \<and> hi < lo)"
  unfolding word_le_def word_less_def uint_sub_if_size word_size
  by (rule int_window) simp_all

text \<open>The state machine accepts an acknowledgement exactly when it lies in the window.  The comparison of
  the code, with its case for a window that wraps, is equivalent to a comparison of distances
  from the last acknowledged byte modulo \<open>2^32\<close>; in this case one write query with the new
  numbers goes to the Tx SAR table, otherwise none.\<close>

theorem fsm_ack_in_window:
  "items (fsm_soTSt_TxSarQry (fsm_ack_window t s)) = items (fsm_soTSt_TxSarQry s) @
     (let m = fsm_meta s; t' = fsm_congestion m t in
      if rm_ackNumb m - rtr_prevAckd t' \<le> rtr_prevUnak t' - rtr_prevAckd t'
      then [RXeTxSarQuery_wr (fsm_sid s) (rm_ackNumb m) (rm_winSize m) (rtr_cong_window t')
              (rtr_count t') (rtr_count t' = 3 \<or> rtr_fastRetransmitted t')]
      else [])"
  by (auto simp: fsm_ack_window_def fsm_ackValid_def word_window put_txSar_def put_clearProbe_def
      Let_def)

lemma unat_grow:
  fixes c d :: "16 word"
  assumes "unat c + unat d < 65536"
  shows "unat (c + d) = unat c + unat d"
  using assms by (simp add: unat_word_ariths)

lemma unat_MSS [simp]: "unat ZYC2_MSS = 1352" "uint ZYC2_MSS = 1352"
  by (simp_all add: ZYC2_MSS_def)

text \<open>The congestion window never wraps.  An ACK leaves it as it is or lets it grow, below the
  slow-start threshold by one segment and up to the threshold at most, above it by 365 bytes and
  up to 365 above the maximum of 63,488 at most; a duplicate ACK leaves it alone.\<close>

theorem fsm_congestion_bounds:
  "unat (rtr_cong_window t) \<le> unat (rtr_cong_window (fsm_congestion m t)) \<and>
   unat (rtr_cong_window (fsm_congestion m t)) \<le>
     max (unat (rtr_cong_window t))
       (max (unat (rtr_slowstart_threshold t)) (TOE_MAX_CONGESTION_WINDOW + 365))"
proof -
  let ?c = "rtr_cong_window t" and ?th = "rtr_slowstart_threshold t"
  consider (dup) "fsm_dupAck m t"
    | (slow) "\<not> fsm_dupAck m t" "uint ?c \<le> uint ?th - uint ZYC2_MSS"
    | (fast) "\<not> fsm_dupAck m t" "\<not> uint ?c \<le> uint ?th - uint ZYC2_MSS"
        "unat ?c \<le> TOE_MAX_CONGESTION_WINDOW"
    | (full) "\<not> fsm_dupAck m t" "\<not> uint ?c \<le> uint ?th - uint ZYC2_MSS"
        "\<not> unat ?c \<le> TOE_MAX_CONGESTION_WINDOW"
    by blast
  then show ?thesis
  proof cases
    case dup
    then show ?thesis by (simp add: fsm_congestion_def)
  next
    case slow
    have "uint ?c + 1352 \<le> uint ?th" using slow(2) by simp
    then have "unat ?c + 1352 \<le> unat ?th" unfolding uint_nat by linarith
    moreover have "unat ?th < 65536" using unsigned_less [of ?th] by simp
    ultimately show ?thesis
      using slow by (simp add: fsm_congestion_def unat_grow)
  next
    case fast
    have "unat (?c + 365) = unat ?c + 365"
      using fast(3) unat_grow [of ?c 365] by (simp add: TOE_MAX_CONGESTION_WINDOW_def)
    then show ?thesis using fast by (simp add: fsm_congestion_def)
  next
    case full
    then show ?thesis by (simp add: fsm_congestion_def)
  qed
qed

end
