(* ===== verification/Rx_Memory.thy ===== *)
theory Rx_Memory
  imports Rx_Path
begin

text \<open>
  The end of the Rx data path (\<open>Rx_Path\<close>): the memory writer (Mwr) splits a segment that reaches
  the end of the ring buffer into two accesses and shifts the bytes of the second one; the
  notifier (Ran) releases a notification when the memory has confirmed the accesses of its
  segment.  The theory shows that the two accesses carry the bytes of the segment, at which
  point they are split, and which notifications reach the application.
\<close>

section \<open>Bytes of a chunk\<close>

definition nth_byte :: "64 word \<Rightarrow> nat \<Rightarrow> 8 word" where
  "nth_byte w i = ucast (drop_bit (8 * i) w)"

definition chunk_bytes :: "AxisApp \<Rightarrow> 8 word list" where
  "chunk_bytes c = map (nth_byte (ax_tdata c)) [0 ..< getLen c]"

definition bytes_of :: "AxisApp list \<Rightarrow> 8 word list" where
  "bytes_of cs = concat (map chunk_bytes cs)"

lemma bytes_of_simps [simp]:
  "bytes_of [] = []" "bytes_of (c # cs) = chunk_bytes c @ bytes_of cs"
  "bytes_of (xs @ ys) = bytes_of xs @ bytes_of ys"
  by (simp_all add: bytes_of_def)

lemma length_chunk_bytes [simp]: "length (chunk_bytes c) = getLen c"
  by (simp add: chunk_bytes_def)

lemma mask_8:
  "mask 1 = (0x01 :: 8 word)" "mask 2 = (0x03 :: 8 word)" "mask 3 = (0x07 :: 8 word)"
  "mask 4 = (0x0F :: 8 word)" "mask 5 = (0x1F :: 8 word)" "mask 6 = (0x3F :: 8 word)"
  "mask 7 = (0x7F :: 8 word)" "mask 8 = (0xFF :: 8 word)"
  by (simp_all add: mask_eq_exp_minus_1)

lemma upto_8: "1 \<le> n \<Longrightarrow> n \<le> 8 \<Longrightarrow> n \<in> {1, 2, 3, 4, 5, 6, 7, 8 :: nat}"
  by auto

lemma keepToLen_mask: "1 \<le> n \<Longrightarrow> n \<le> 8 \<Longrightarrow> keepToLen (mask n) = n"
  using upto_8 [of n] by (auto simp: mask_8 keepToLen_def)

lemma keepToLen_pos: "0 < keepToLen k \<Longrightarrow> k = mask (keepToLen k) \<and> keepToLen k \<le> 8"
  by (auto simp: keepToLen_def mask_8 split: if_splits)

lemma lenToLE_tKeep_mask: "1 \<le> n \<Longrightarrow> n \<le> 8 \<Longrightarrow> lenToLE_tKeep (of_nat n) = mask n"
  using upto_8 [of n] by (auto simp: mask_8 lenToLE_tKeep_def)

lemma bit_get_range:
  "bit (get_range hi lo w) i \<longleftrightarrow> i < hi + 1 - lo \<and> bit w (lo + i)"
  by (simp add: get_range_def bit_take_bit_iff bit_drop_bit_eq)

lemma bit_set_range:
  "i < LENGTH('a) \<Longrightarrow> bit (set_range hi lo v (w :: 'a::len word)) i \<longleftrightarrow>
     (if lo \<le> i \<and> i \<le> hi then bit v (i - lo) else bit w i)"
  by (auto simp: set_range_def bit_or_iff bit_and_iff bit_not_iff bit_push_bit_iff bit_mask_iff
      bit_take_bit_iff)

text \<open>The byte shifts of the writer.\<close>

lemma bit_mwr_tail_data:
  assumes "1 \<le> k" "k \<le> 7" "i < 64"
  shows "bit (ax_tdata (mwr_tail k c)) i \<longleftrightarrow> i < 8 * k \<and> bit (ax_tdata c) (64 - 8 * k + i)"
  using assms by (auto simp: mwr_tail_def bit_set_range bit_get_range)

lemma bit_mwr_tail_keep:
  assumes "1 \<le> k" "k \<le> 7" "i < 8"
  shows "bit (ax_tkeep (mwr_tail k c)) i \<longleftrightarrow> i < k \<and> bit (ax_tkeep c) (8 - k + i)"
  using assms by (auto simp: mwr_tail_def bit_set_range bit_get_range)

lemma bit_mwr_join_data:
  assumes "1 \<le> k" "k \<le> 7" "i < 64"
  shows "bit (ax_tdata (mwr_join k c d)) i \<longleftrightarrow>
    (if i < 8 * k then bit (ax_tdata c) (64 - 8 * k + i) else bit (ax_tdata d) (i - 8 * k))"
  using assms by (auto simp: mwr_join_def Let_def bit_set_range bit_get_range bit_mwr_tail_data)

lemma bit_mwr_join_keep:
  assumes "1 \<le> k" "k \<le> 7" "i < 8"
  shows "bit (ax_tkeep (mwr_join k c d)) i \<longleftrightarrow>
    (if i < k then bit (ax_tkeep c) (8 - k + i) else bit (ax_tkeep d) (i - k))"
  using assms by (auto simp: mwr_join_def Let_def bit_set_range bit_get_range bit_mwr_tail_keep)

lemma bit_nth_byte: "bit (nth_byte w i) j \<longleftrightarrow> j < 8 \<and> bit w (8 * i + j)"
  by (auto simp: nth_byte_def bit_ucast_iff bit_drop_bit_eq)

lemma nth_byte_tail:
  "1 \<le> k \<Longrightarrow> k \<le> 7 \<Longrightarrow> i < k \<Longrightarrow>
     nth_byte (ax_tdata (mwr_tail k c)) i = nth_byte (ax_tdata c) (8 - k + i)"
  by (rule bit_word_eqI) (auto simp: bit_nth_byte bit_mwr_tail_data algebra_simps)

lemma nth_byte_join:
  "1 \<le> k \<Longrightarrow> k \<le> 7 \<Longrightarrow> i < 8 \<Longrightarrow> nth_byte (ax_tdata (mwr_join k c d)) i =
     (if i < k then nth_byte (ax_tdata c) (8 - k + i) else nth_byte (ax_tdata d) (i - k))"
  by (rule bit_word_eqI) (auto simp: bit_nth_byte bit_mwr_join_data algebra_simps)

text \<open>Well-formed chunks keep their first bytes, at least one; all but the last keep eight.\<close>

definition chunk_ok :: "AxisApp \<Rightarrow> bool" where
  "chunk_ok c \<longleftrightarrow> 0 < getLen c"

lemma chunk_ok_keep: "chunk_ok c \<Longrightarrow> ax_tkeep c = mask (getLen c) \<and> 1 \<le> getLen c \<and> getLen c \<le> 8"
  using keepToLen_pos [of "ax_tkeep c"] by (simp add: chunk_ok_def getLen_def)

lemma getLen_join:
  assumes "1 \<le> k" "k \<le> 7" "getLen c = 8" "chunk_ok d"
  shows "getLen (mwr_join k c d) = min 8 (k + getLen d)"
proof -
  have c: "ax_tkeep c = mask 8" using assms(3) keepToLen_pos [of "ax_tkeep c"] by (simp add: getLen_def)
  have d: "ax_tkeep d = mask (getLen d)" "1 \<le> getLen d" using chunk_ok_keep [OF assms(4)] by simp_all
  have "ax_tkeep (mwr_join k c d) = mask (min 8 (k + getLen d))"
    using assms(1,2) d c by (intro bit_word_eqI) (auto simp: bit_mwr_join_keep bit_mask_iff)
  then show ?thesis using d(2) assms(1) by (simp add: getLen_def keepToLen_mask)
qed

lemma getLen_tail:
  assumes "1 \<le> k" "k \<le> 7" "chunk_ok c" "8 - k < getLen c"
  shows "getLen (mwr_tail k c) = getLen c - (8 - k)"
proof -
  have c: "ax_tkeep c = mask (getLen c)" "getLen c \<le> 8" using chunk_ok_keep [OF assms(3)] by simp_all
  have "ax_tkeep (mwr_tail k c) = mask (getLen c - (8 - k))"
    using assms(1,2,4) c by (intro bit_word_eqI) (auto simp: bit_mwr_tail_keep bit_mask_iff)
  then show ?thesis using assms(4) c(2) by (simp add: getLen_def keepToLen_mask)
qed

lemma chunk_bytes_join:
  assumes "1 \<le> k" "k \<le> 7" "getLen c = 8" "chunk_ok d"
  shows "chunk_bytes (mwr_join k c d) = drop (8 - k) (chunk_bytes c) @ take (8 - k) (chunk_bytes d)"
proof -
  have "getLen d \<le> 8" using chunk_ok_keep [OF assms(4)] by simp
  then show ?thesis
    using assms(1,2)
    by (intro nth_equalityI)
      (auto simp: getLen_join [OF assms] chunk_bytes_def nth_append nth_byte_join assms(3))
qed

lemma chunk_bytes_tail:
  assumes "1 \<le> k" "k \<le> 7" "chunk_ok c" "8 - k < getLen c"
  shows "chunk_bytes (mwr_tail k c) = drop (8 - k) (chunk_bytes c)"
proof -
  have "getLen c \<le> 8" using chunk_ok_keep [OF assms(3)] by simp
  then show ?thesis
    using assms(1,2,4)
    by (intro nth_equalityI)
      (auto simp: getLen_tail [OF assms] chunk_bytes_def nth_byte_tail)
qed

section \<open>The two accesses of a split segment\<close>

text \<open>A payload: all chunks but the last are full, and only the last is flagged.\<close>

definition payload_ok :: "AxisApp list \<Rightarrow> bool" where
  "payload_ok cs \<longleftrightarrow> is_segment ax_tlast cs \<and> (\<forall>c \<in> set cs. chunk_ok c) \<and>
     (\<forall>c \<in> set (butlast cs). getLen c = 8)"

lemma payload_ok_single: "payload_ok [c] \<longleftrightarrow> ax_tlast c \<and> chunk_ok c"
  by (simp add: payload_ok_def is_segment_single)

lemma payload_ok_Cons:
  "cs \<noteq> [] \<Longrightarrow> payload_ok (c # cs) \<longleftrightarrow> \<not> ax_tlast c \<and> getLen c = 8 \<and> payload_ok cs"
  by (auto simp: payload_ok_def is_segment_Cons chunk_ok_def)

lemma payload_ok_nonempty: "payload_ok cs \<Longrightarrow> cs \<noteq> []"
  by (auto simp: payload_ok_def is_segment_def)

lemma chunk_updates [simp]:
  "getLen (c\<lparr>ax_tlast := l\<rparr>) = getLen c" "chunk_bytes (c\<lparr>ax_tlast := l\<rparr>) = chunk_bytes c"
  by (simp_all add: getLen_def chunk_bytes_def)

lemma tlast_mwr [simp]: "ax_tlast (mwr_tail k c) = False" "ax_tlast (mwr_join k c d) = False"
  by (simp_all add: mwr_tail_def mwr_join_def Let_def)

text \<open>The aligned transfer is one more filter of segments.\<close>

interpretation mwr: segment_filter pRxMemoryWriter "\<lambda>s. items (ssTsdToMwr_Data s)"
    "\<lambda>s. items (mwr_soMEM_WrData s)" "\<lambda>s. depth (mwr_soMEM_WrData s)" ax_tlast
    "\<lambda>s. (ssFsmToMwr_WrCmd s, mwr_soMEM_WrCmd s, ssMwrToRan_SplitSeg s)"
    "\<lambda>s. mwr_fsmState s = MWR_IDLE" "\<lambda>s. mwr_fsmState s = MWR_FWD_ALIGNED" "\<lambda>s. False"
  by unfold_locales
    (simp_all add: pRxMemoryWriter_def mwr_fwd_aligned_def sempty_def sfull_def sread_cons Let_def)

text \<open>What a run of \<open>j\<close> cycles did: it took the payload, wrote \<open>ws\<close> and posted \<open>cmds\<close>.\<close>

definition mwr_done :: "'a RXp_scheme \<Rightarrow> nat \<Rightarrow> AxisApp list \<Rightarrow> AxisApp list \<Rightarrow> DmCmd list \<Rightarrow> bool" where
  "mwr_done s j rest ws cmds \<longleftrightarrow> (let t = (pRxMemoryWriter ^^ j) s in
     mwr_fsmState t = MWR_IDLE \<and> items (ssTsdToMwr_Data t) = rest \<and>
     items (mwr_soMEM_WrData t) = items (mwr_soMEM_WrData s) @ ws \<and>
     items (mwr_soMEM_WrCmd t) = items (mwr_soMEM_WrCmd s) @ cmds)"

lemma mwr_done_step:
  assumes "mwr_done (pRxMemoryWriter s) j rest ws cmds"
    and "items (mwr_soMEM_WrData (pRxMemoryWriter s)) = items (mwr_soMEM_WrData s) @ xs"
    and "items (mwr_soMEM_WrCmd (pRxMemoryWriter s)) = items (mwr_soMEM_WrCmd s) @ ys"
  shows "mwr_done s (Suc j) rest (xs @ ws) (ys @ cmds)"
  using assms by (simp add: mwr_done_def Let_def funpow_swap1)

lemma mwr_residue_done:
  assumes "mwr_fsmState s = MWR_RESIDUE"
    and "length (items (mwr_soMEM_WrData s)) < depth (mwr_soMEM_WrData s)"
  shows "mwr_done s 1 (items (ssTsdToMwr_Data s))
    [(mwr_tail (unat (mwr_splitOffset s)) (mwr_currChunk s))\<lparr>ax_tlast := True\<rparr>] []"
  using assms by (simp add: mwr_done_def pRxMemoryWriter_def mwr_residue_def sfull_def)

lemma mwr_2nd_buf_done:
  assumes "mwr_fsmState s = MWR_FWD_2ND_BUF" "unat (mwr_splitOffset s) = k" "1 \<le> k" "k \<le> 7"
    and "unat (mwr_nrBytesToWr s) = 8 - k" "getLen (mwr_currChunk s) = 8"
    and "items (ssTsdToMwr_Data s) = cs @ rest" "payload_ok cs"
    and "length (items (mwr_soMEM_WrData s)) + length cs < depth (mwr_soMEM_WrData s)"
  shows "\<exists>j ws. mwr_done s j rest ws [] \<and> is_segment ax_tlast ws \<and>
    bytes_of ws = drop (8 - k) (chunk_bytes (mwr_currChunk s)) @ bytes_of cs"
  using assms
proof (induction cs arbitrary: s)
  case Nil
  then show ?case by (simp add: payload_ok_def is_segment_def)
next
  case (Cons c cs)
  let ?p = "mwr_currChunk s" and ?t = "pRxMemoryWriter s"
  have ok: "chunk_ok c" using Cons.prems(8) by (simp add: payload_ok_def)
  note bytes = chunk_bytes_join [OF Cons.prems(3,4,6) ok]
  have room: "length (items (mwr_soMEM_WrData s)) < depth (mwr_soMEM_WrData s)"
    using Cons.prems(9) by simp
  show ?case
  proof (cases "cs = []")
    case False
    then have c: "\<not> ax_tlast c" "getLen c = 8" "payload_ok cs"
      using Cons.prems(8) by (simp_all add: payload_ok_Cons)
    have t: "mwr_fsmState ?t = MWR_FWD_2ND_BUF" "mwr_splitOffset ?t = mwr_splitOffset s"
      "mwr_nrBytesToWr ?t = mwr_nrBytesToWr s" "mwr_currChunk ?t = c"
      "items (ssTsdToMwr_Data ?t) = cs @ rest"
      "items (mwr_soMEM_WrData ?t) = items (mwr_soMEM_WrData s) @ [mwr_join k ?p c]"
      "depth (mwr_soMEM_WrData ?t) = depth (mwr_soMEM_WrData s)"
      "mwr_soMEM_WrCmd ?t = mwr_soMEM_WrCmd s"
      using Cons.prems(1,2,7) room c(1)
      by (simp_all add: pRxMemoryWriter_def mwr_fwd_2nd_buf_def sempty_def sfull_def sread_cons Let_def)
    obtain j ws where "mwr_done ?t j rest ws []" "is_segment ax_tlast ws"
      "bytes_of ws = drop (8 - k) (chunk_bytes c) @ bytes_of cs"
      using Cons.IH [of ?t] Cons.prems t c by auto
    moreover from this(1) have "mwr_done s (Suc j) rest ([mwr_join k ?p c] @ ws) ([] @ [])"
      by (rule mwr_done_step) (simp_all add: t)
    ultimately show ?thesis
      by (intro exI [of _ "Suc j"] exI [of _ "mwr_join k ?p c # ws"])
        (auto simp: bytes is_segment_def)
  next
    case True
    then have c: "ax_tlast c" using Cons.prems(8) by (simp add: payload_ok_single)
    show ?thesis
    proof (cases "8 - k < getLen c")
      case True
      have t: "mwr_fsmState ?t = MWR_RESIDUE" "unat (mwr_splitOffset ?t) = k"
        "mwr_currChunk ?t = c" "items (ssTsdToMwr_Data ?t) = rest"
        "items (mwr_soMEM_WrData ?t) = items (mwr_soMEM_WrData s) @ [mwr_join k ?p c]"
        "depth (mwr_soMEM_WrData ?t) = depth (mwr_soMEM_WrData s)"
        "mwr_soMEM_WrCmd ?t = mwr_soMEM_WrCmd s"
        using Cons.prems(1,2,5,7) room c True \<open>cs = []\<close>
        by (simp_all add: pRxMemoryWriter_def mwr_fwd_2nd_buf_def sempty_def sfull_def sread_cons Let_def)
      have "mwr_done ?t 1 rest [(mwr_tail k c)\<lparr>ax_tlast := True\<rparr>] []"
        using mwr_residue_done [OF t(1)] t Cons.prems(9) by simp
      then have "mwr_done s (Suc 1) rest ([mwr_join k ?p c] @ [(mwr_tail k c)\<lparr>ax_tlast := True\<rparr>]) ([] @ [])"
        by (rule mwr_done_step) (simp_all add: t)
      then show ?thesis
        using \<open>cs = []\<close> chunk_bytes_tail [OF Cons.prems(3,4) ok True]
        by (intro exI [of _ "Suc 1"]
            exI [of _ "[mwr_join k ?p c, (mwr_tail k c)\<lparr>ax_tlast := True\<rparr>]"])
          (simp add: is_segment_def bytes)
    next
      case False
      have "mwr_done s 1 rest [(mwr_join k ?p c)\<lparr>ax_tlast := True\<rparr>] []"
        using Cons.prems(1,2,5,7) room c False \<open>cs = []\<close>
        by (simp add: mwr_done_def pRxMemoryWriter_def mwr_fwd_2nd_buf_def sempty_def sfull_def
            sread_cons Let_def)
      then show ?thesis
        using \<open>cs = []\<close> False
        by (intro exI [of _ 1] exI [of _ "[(mwr_join k ?p c)\<lparr>ax_tlast := True\<rparr>]"])
          (simp add: is_segment_def bytes)
    qed
  qed
qed

text \<open>The chunk that ends the first access.\<close>

definition mwr_first_end :: "nat \<Rightarrow> AxisApp \<Rightarrow> AxisApp" where
  "mwr_first_end n c = c\<lparr>ax_tlast := True, ax_tkeep := lenToLE_tKeep (of_nat n)\<rparr>"

lemma chunk_bytes_first_end:
  assumes "1 \<le> n" "n \<le> getLen c" "getLen c \<le> 8"
  shows "chunk_bytes (mwr_first_end n c) = take n (chunk_bytes c)"
  using assms
  by (intro nth_equalityI)
    (auto simp: mwr_first_end_def chunk_bytes_def getLen_def lenToLE_tKeep_mask keepToLen_mask)

text \<open>The address and the length of the second access.\<close>

definition mwr_cmd2 :: "DmCmd \<Rightarrow> RxBufPtr \<Rightarrow> DmCmd" where
  "mwr_cmd2 c len = c\<lparr>dm_saddr := set_range 15 0 0 (dm_saddr c), dm_btt := dm_btt c - ucast len\<rparr>"

lemma split_offset:
  assumes "(n :: 16 word) < 8" "n \<noteq> 0"
  shows "unat (8 - ucast n :: 4 word) = 8 - unat n"
proof -
  have n: "unat n < 8" using assms(1) by (simp add: word_less_nat_alt)
  then have u: "unat (ucast n :: 4 word) = unat n"
    by (simp add: unsigned_ucast_eq take_bit_nat_eq_self)
  then have "(ucast n :: 4 word) \<le> 8" using n by (simp add: word_le_nat_alt)
  then show ?thesis by (simp add: unat_sub u)
qed

lemma mwr_1st_buf_done:
  assumes "mwr_fsmState s = MWR_FWD_1ST_BUF" "mwr_nrBytesToWr s \<noteq> 0"
    and "items (ssTsdToMwr_Data s) = cs @ rest" "payload_ok cs"
    and "unat (mwr_nrBytesToWr s) < length (bytes_of cs)"
    and "length (items (mwr_soMEM_WrData s)) + length cs < depth (mwr_soMEM_WrData s)"
    and "length (items (mwr_soMEM_WrCmd s)) < depth (mwr_soMEM_WrCmd s)"
  shows "\<exists>j ws1 ws2. mwr_done s j rest (ws1 @ ws2) [mwr_cmd2 (mwr_memWrCmd s) (mwr_firstAccLen s)] \<and>
    is_segment ax_tlast ws1 \<and> is_segment ax_tlast ws2 \<and>
    bytes_of ws1 = take (unat (mwr_nrBytesToWr s)) (bytes_of cs) \<and>
    bytes_of ws2 = drop (unat (mwr_nrBytesToWr s)) (bytes_of cs)"
  using assms
proof (induction cs arbitrary: s)
  case Nil
  then show ?case by (simp add: payload_ok_def is_segment_def)
next
  case (Cons c cs)
  let ?t = "pRxMemoryWriter s" and ?n = "mwr_nrBytesToWr s"
  let ?cmd2 = "mwr_cmd2 (mwr_memWrCmd s) (mwr_firstAccLen s)"
  have ok: "chunk_ok c" using Cons.prems(4) by (simp add: payload_ok_def)
  then have len: "1 \<le> getLen c" "getLen c \<le> 8" using chunk_ok_keep by blast+
  have room: "length (items (mwr_soMEM_WrData s)) < depth (mwr_soMEM_WrData s)"
    using Cons.prems(6) by simp
  note defs = pRxMemoryWriter_def mwr_fwd_1st_buf_def mwr_second_cmd_def mwr_cmd2_def sempty_def
    sfull_def sread_cons Let_def
  have more: "\<not> ax_tlast c \<and> getLen c = 8 \<and> payload_ok cs" if "cs \<noteq> []"
    using Cons.prems(4) that by (simp add: payload_ok_Cons)
  have long: "cs \<noteq> []" if "8 \<le> ?n"
    using Cons.prems(5) that len(2) by (auto simp: word_le_nat_alt)
  consider "8 < ?n" | "?n = 8" | "?n < 8" using linorder_less_linear by blast
  then show ?case
  proof cases
    case 1
    then have cs: "cs \<noteq> []" using long by simp
    have n: "unat ?n = 8 + unat (?n - 8)"
      using 1 unat_sub [of 8 ?n] by (simp add: word_less_nat_alt word_le_nat_alt)
    have t: "mwr_fsmState ?t = MWR_FWD_1ST_BUF" "mwr_nrBytesToWr ?t = ?n - 8"
      "mwr_memWrCmd ?t = mwr_memWrCmd s" "mwr_firstAccLen ?t = mwr_firstAccLen s"
      "items (ssTsdToMwr_Data ?t) = cs @ rest"
      "items (mwr_soMEM_WrData ?t) = items (mwr_soMEM_WrData s) @ [c]"
      "depth (mwr_soMEM_WrData ?t) = depth (mwr_soMEM_WrData s)"
      "mwr_soMEM_WrCmd ?t = mwr_soMEM_WrCmd s"
      using Cons.prems(1,3) room 1 by (simp_all add: defs)
    have nz: "?n - 8 \<noteq> 0" using 1 by auto
    obtain j ws1 ws2 where fin: "mwr_done ?t j rest (ws1 @ ws2) [?cmd2]"
      and ws: "is_segment ax_tlast ws1" "is_segment ax_tlast ws2"
        "bytes_of ws1 = take (unat (?n - 8)) (bytes_of cs)"
        "bytes_of ws2 = drop (unat (?n - 8)) (bytes_of cs)"
      using Cons.IH [of ?t] Cons.prems t nz more [OF cs] n by auto
    from fin have "mwr_done s (Suc j) rest ([c] @ (ws1 @ ws2)) ([] @ [?cmd2])"
      by (rule mwr_done_step) (simp_all add: t)
    then have "mwr_done s (Suc j) rest ((c # ws1) @ ws2) [?cmd2]" by simp
    moreover have "is_segment ax_tlast (c # ws1)"
      using ws(1) more [OF cs] by (auto simp: is_segment_def)
    moreover have "bytes_of (c # ws1) = take (unat ?n) (bytes_of (c # cs))"
      "bytes_of ws2 = drop (unat ?n) (bytes_of (c # cs))"
      using ws(3,4) more [OF cs] by (simp_all add: n)
    ultimately show ?thesis using ws(2) by blast
  next
    case 2
    then have cs: "cs \<noteq> []" using long by simp
    have t: "mwr_fsmState ?t = MWR_FWD_ALIGNED" "items (ssTsdToMwr_Data ?t) = cs @ rest"
      "items (mwr_soMEM_WrData ?t) = items (mwr_soMEM_WrData s) @ [c\<lparr>ax_tlast := True\<rparr>]"
      "depth (mwr_soMEM_WrData ?t) = depth (mwr_soMEM_WrData s)"
      "items (mwr_soMEM_WrCmd ?t) = items (mwr_soMEM_WrCmd s) @ [?cmd2]"
      using Cons.prems(1,3,7) room 2 by (simp_all add: defs)
    have seg: "is_segment ax_tlast cs" using more [OF cs] by (simp add: payload_ok_def)
    have "mwr_done ?t (length cs) rest cs []"
      using mwr.passes_segment [OF t(1,2) seg] t Cons.prems(6) by (simp add: mwr_done_def Let_def)
    then have "mwr_done s (Suc (length cs)) rest ([c\<lparr>ax_tlast := True\<rparr>] @ cs) ([?cmd2] @ [])"
      by (rule mwr_done_step) (simp_all add: t)
    moreover have "is_segment ax_tlast [c\<lparr>ax_tlast := True\<rparr>]" by (simp add: is_segment_single)
    moreover have "unat ?n = 8" using 2 by simp
    ultimately show ?thesis
      using seg more [OF cs]
      by (intro exI [of _ "Suc (length cs)"] exI [of _ "[c\<lparr>ax_tlast := True\<rparr>]"] exI [of _ cs]) simp
  next
    case 3
    let ?k = "8 - unat ?n"
    have n: "1 \<le> unat ?n" "unat ?n < 8"
      using 3 Cons.prems(2) by (simp_all add: word_less_nat_alt unat_gt_0 Suc_le_eq)
    then have k: "1 \<le> ?k" "?k \<le> 7" "8 - ?k = unat ?n" by simp_all
    have le: "unat ?n \<le> getLen c"
      using Cons.prems(5) more n(2) by (cases "cs = []") auto
    have end_eq: "c\<lparr>ax_tlast := True, ax_tkeep := lenToLE_tKeep (ucast ?n)\<rparr> = mwr_first_end (unat ?n) c"
      by (simp add: mwr_first_end_def)
    have "?n \<noteq> 8" "\<not> 8 < ?n" using 3 by auto
    note n8 = this
    have t: "mwr_fsmState ?t = (if ax_tlast c then MWR_RESIDUE else MWR_FWD_2ND_BUF)"
      "unat (mwr_splitOffset ?t) = ?k" "mwr_nrBytesToWr ?t = ?n" "mwr_currChunk ?t = c"
      "items (ssTsdToMwr_Data ?t) = cs @ rest"
      "items (mwr_soMEM_WrData ?t) = items (mwr_soMEM_WrData s) @ [mwr_first_end (unat ?n) c]"
      "depth (mwr_soMEM_WrData ?t) = depth (mwr_soMEM_WrData s)"
      "items (mwr_soMEM_WrCmd ?t) = items (mwr_soMEM_WrCmd s) @ [?cmd2]"
      using Cons.prems(1,2,3,7) room n8 split_offset [OF 3 Cons.prems(2)] end_eq
      by (simp_all add: defs)
    have "\<exists>j ws. mwr_done ?t j rest ws [] \<and> is_segment ax_tlast ws \<and>
        bytes_of ws = drop (unat ?n) (chunk_bytes c) @ bytes_of cs"
    proof (cases "cs = []")
      case True
      then have c: "ax_tlast c" "unat ?n < getLen c"
        using Cons.prems(4,5) by (simp_all add: payload_ok_single)
      have "mwr_done ?t 1 rest [(mwr_tail ?k c)\<lparr>ax_tlast := True\<rparr>] []"
        using mwr_residue_done [of ?t] t c Cons.prems(6) True by simp
      then show ?thesis
        using chunk_bytes_tail [OF k(1,2) ok] c(2) k(3) True
        by (intro exI [of _ 1] exI [of _ "[(mwr_tail ?k c)\<lparr>ax_tlast := True\<rparr>]"])
          (simp add: is_segment_single)
    next
      case False
      with more have c: "\<not> ax_tlast c" "getLen c = 8" "payload_ok cs" by simp_all
      have "unat (mwr_nrBytesToWr ?t) = 8 - ?k" using t(3) k(3) by simp
      then show ?thesis
        using mwr_2nd_buf_done [of ?t ?k cs rest] t c k Cons.prems(6) by simp
    qed
    then obtain j ws where fin: "mwr_done ?t j rest ws []" and ws: "is_segment ax_tlast ws"
      "bytes_of ws = drop (unat ?n) (chunk_bytes c) @ bytes_of cs" by blast
    from fin have "mwr_done s (Suc j) rest ([mwr_first_end (unat ?n) c] @ ws) ([?cmd2] @ [])"
      by (rule mwr_done_step) (simp_all add: t)
    moreover have "is_segment ax_tlast [mwr_first_end (unat ?n) c]"
      by (simp add: is_segment_single mwr_first_end_def)
    moreover have "bytes_of [mwr_first_end (unat ?n) c] = take (unat ?n) (bytes_of (c # cs))"
      using chunk_bytes_first_end [OF n(1) le len(2)] le by simp
    moreover have "bytes_of ws = drop (unat ?n) (bytes_of (c # cs))" using ws(2) le by simp
    ultimately show ?thesis using ws(1) unfolding append_Nil2 by blast
  qed
qed

lemma unat_ucast_23: "unat (ucast (x :: 16 word) :: 23 word) = unat x"
proof -
  have "unat x < 2 ^ LENGTH(16)" by (rule unsigned_less)
  then show ?thesis by (simp add: unsigned_ucast_eq take_bit_nat_eq_self)
qed

text \<open>The place of a write command in the ring.\<close>

definition ring_offset :: "DmCmd \<Rightarrow> nat" where
  "ring_offset c = unat (get_range 15 0 (dm_saddr c))"

lemma get_range_15: "unat (get_range 15 0 (a :: 40 word)) = unat a mod 65536"
  by (simp add: get_range_def unsigned_take_bit_eq) (simp add: take_bit_eq_mod)

lemma set_range_15: "get_range 15 0 (set_range 15 0 0 (a :: 40 word)) = 0"
  by (rule bit_word_eqI) (auto simp: bit_get_range bit_set_range)

lemma first_len:
  assumes "0 < ring_offset c"
  shows "unat (ucast (of_nat TOE_RX_BUFFER_SIZE - dm_saddr c) :: 16 word) = 65536 - ring_offset c"
proof -
  let ?a = "dm_saddr c"
  have "uint (ucast (of_nat TOE_RX_BUFFER_SIZE - ?a) :: 16 word) = (- uint ?a) mod 65536"
    by (simp add: TOE_RX_BUFFER_SIZE_def unsigned_ucast_eq take_bit_eq_mod uint_word_ariths
        mod_mod_cancel mod_diff_left_eq [of "65536" "65536", symmetric])
  moreover have "uint ?a mod 65536 = int (ring_offset c)"
    by (simp add: ring_offset_def get_range_15 zmod_int)
  moreover from this have "(- uint ?a) mod 65536 = 65536 - int (ring_offset c)"
    using assms by (simp add: zmod_zminus1_eq_if)
  ultimately have "uint (ucast (of_nat TOE_RX_BUFFER_SIZE - ?a) :: 16 word) = 65536 - int (ring_offset c)"
    by simp
  then show ?thesis by (metis nat_diff_distrib' nat_int nat_numeral of_nat_0_le_iff unat_eq_nat_uint zero_le_numeral)
qed

text \<open>The run of a split segment, with its two commands.\<close>

definition split_len :: "DmCmd \<Rightarrow> RxBufPtr" where
  "split_len c = ucast (of_nat TOE_RX_BUFFER_SIZE - dm_saddr c)"

definition mwr_cmd1 :: "DmCmd \<Rightarrow> DmCmd" where
  "mwr_cmd1 c = DmCmd_of (dm_saddr c) (ucast (split_len c))"

lemma mwr_split_run:
  assumes "mwr_fsmState s = MWR_IDLE" "items (ssFsmToMwr_WrCmd s) = c # queue"
    and "items (ssTsdToMwr_Data s) = cs @ rest" "payload_ok cs"
    and "length (bytes_of cs) = unat (dm_btt c)" "unat (dm_btt c) < 65536"
    and "65536 < ring_offset c + unat (dm_btt c)"
    and "length (items (ssMwrToRan_SplitSeg s)) < depth (ssMwrToRan_SplitSeg s)"
    and "length (items (mwr_soMEM_WrCmd s)) + 2 \<le> depth (mwr_soMEM_WrCmd s)"
    and "length (items (mwr_soMEM_WrData s)) + length cs < depth (mwr_soMEM_WrData s)"
  shows "\<exists>j ws1 ws2. mwr_done s j rest (ws1 @ ws2) [mwr_cmd1 c, mwr_cmd2 c (split_len c)] \<and>
    is_segment ax_tlast ws1 \<and> is_segment ax_tlast ws2 \<and>
    bytes_of ws1 = take (65536 - ring_offset c) (bytes_of cs) \<and>
    bytes_of ws2 = drop (65536 - ring_offset c) (bytes_of cs)"
proof -
  let ?t = "pRxMemoryWriter s"
  let ?u = "pRxMemoryWriter ?t"
  let ?n = "65536 - ring_offset c"
  have pos: "0 < ring_offset c" "ring_offset c < 65536"
    using assms(6,7) by (simp_all add: ring_offset_def get_range_15)
  have len: "unat (split_len c) = ?n" unfolding split_len_def by (rule first_len [OF pos(1)])
  have t: "mwr_fsmState ?t = MWR_SPLIT_1ST_CMD" "mwr_memWrCmd ?t = c"
    "ssTsdToMwr_Data ?t = ssTsdToMwr_Data s" "mwr_soMEM_WrData ?t = mwr_soMEM_WrData s"
    "mwr_soMEM_WrCmd ?t = mwr_soMEM_WrCmd s"
    using assms(1,2,7,8,9)
    by (simp_all add: pRxMemoryWriter_def mwr_idle_def sempty_def sfull_def sread_cons Let_def
        ring_offset_def TOE_RX_BUFFER_SIZE_def)
  have u: "mwr_fsmState ?u = MWR_FWD_1ST_BUF" "mwr_memWrCmd ?u = c"
    "mwr_firstAccLen ?u = split_len c" "mwr_nrBytesToWr ?u = split_len c"
    "ssTsdToMwr_Data ?u = ssTsdToMwr_Data s" "mwr_soMEM_WrData ?u = mwr_soMEM_WrData s"
    "items (mwr_soMEM_WrCmd ?u) = items (mwr_soMEM_WrCmd s) @ [mwr_cmd1 c]"
    "depth (mwr_soMEM_WrCmd ?u) = depth (mwr_soMEM_WrCmd s)"
    using t assms(9)
    by (simp_all add: pRxMemoryWriter_def [of ?t] mwr_split_1st_cmd_def mwr_cmd1_def split_len_def
        sfull_def Let_def)
  have nz: "split_len c \<noteq> 0" using len pos(2) by auto
  have "unat (split_len c) < length (bytes_of cs)" using assms(5,7) pos by (simp only: len)
  moreover have "length (items (mwr_soMEM_WrCmd ?u)) < depth (mwr_soMEM_WrCmd ?u)"
    using assms(9) by (simp only: u(7,8)) simp
  ultimately have "\<exists>j ws1 ws2. mwr_done ?u j rest (ws1 @ ws2)
      [mwr_cmd2 (mwr_memWrCmd ?u) (mwr_firstAccLen ?u)] \<and>
    is_segment ax_tlast ws1 \<and> is_segment ax_tlast ws2 \<and>
    bytes_of ws1 = take (unat (mwr_nrBytesToWr ?u)) (bytes_of cs) \<and>
    bytes_of ws2 = drop (unat (mwr_nrBytesToWr ?u)) (bytes_of cs)"
    by (intro mwr_1st_buf_done [OF u(1) _ _ assms(4)])
      (simp_all only: u nz assms(3,10) not_False_eq_True)
  then obtain j ws1 ws2 where fin: "mwr_done ?u j rest (ws1 @ ws2) [mwr_cmd2 c (split_len c)]"
    and ws: "is_segment ax_tlast ws1" "is_segment ax_tlast ws2"
      "bytes_of ws1 = take ?n (bytes_of cs)" "bytes_of ws2 = drop ?n (bytes_of cs)"
    unfolding u(2,3,4) len by blast
  have "mwr_done ?t (Suc j) rest ([] @ (ws1 @ ws2)) ([mwr_cmd1 c] @ [mwr_cmd2 c (split_len c)])"
    using fin by (rule mwr_done_step) (simp_all add: t u)
  then have "mwr_done s (Suc (Suc j)) rest ([] @ ([] @ (ws1 @ ws2)))
      ([] @ ([mwr_cmd1 c] @ [mwr_cmd2 c (split_len c)]))"
    by (rule mwr_done_step) (simp_all add: t)
  with ws show ?thesis by (intro exI [of _ "Suc (Suc j)"] exI [of _ ws1] exI [of _ ws2]) simp
qed

text \<open>The commands of a split access: the first goes up to the end of the ring, the second starts at
  its beginning.\<close>

lemma split_cmds:
  assumes "0 < ring_offset c" "65536 < ring_offset c + unat (dm_btt c)"
  shows "unat (dm_btt (mwr_cmd1 c)) = 65536 - ring_offset c"
    "unat (dm_btt (mwr_cmd2 c (split_len c))) = unat (dm_btt c) - (65536 - ring_offset c)"
    "ring_offset (mwr_cmd1 c) = ring_offset c" "dm_saddr (mwr_cmd1 c) = dm_saddr c"
    "ring_offset (mwr_cmd2 c (split_len c)) = 0"
proof -
  show b: "unat (dm_btt (mwr_cmd1 c)) = 65536 - ring_offset c"
    by (simp only: mwr_cmd1_def split_len_def DmCmd_of_def DmCmd.simps unat_ucast_23
        first_len [OF assms(1)])
  moreover have "dm_btt (mwr_cmd1 c) \<le> dm_btt c"
    using b assms(2) by (simp only: word_le_nat_alt)
  moreover have "dm_btt (mwr_cmd2 c (split_len c)) = dm_btt c - dm_btt (mwr_cmd1 c)"
    by (simp add: mwr_cmd1_def mwr_cmd2_def DmCmd_of_def)
  ultimately show "unat (dm_btt (mwr_cmd2 c (split_len c))) = unat (dm_btt c) - (65536 - ring_offset c)"
    by (simp only: unat_sub)
  show "ring_offset (mwr_cmd1 c) = ring_offset c" "dm_saddr (mwr_cmd1 c) = dm_saddr c"
    "ring_offset (mwr_cmd2 c (split_len c)) = 0"
    by (simp_all add: ring_offset_def mwr_cmd1_def DmCmd_of_def mwr_cmd2_def set_range_15)
qed

text \<open>A segment that reaches over the end of the ring is written in two accesses.  For a write
  command that crosses the end of the buffer and a payload of its length, the memory writer
  posts the command for the rest of the ring and one for the remaining bytes at the start of
  the ring, neither of which crosses the end, and writes two streams of chunks, each ended by
  its own last flag, that carry the bytes of the payload split at that point and shifted to the
  first byte of the second stream.\<close>

theorem mwr_splits_segment:
  assumes "mwr_fsmState s = MWR_IDLE" "items (ssFsmToMwr_WrCmd s) = c # queue"
    and "items (ssTsdToMwr_Data s) = cs @ rest" "payload_ok cs"
    and "length (bytes_of cs) = unat (dm_btt c)" "unat (dm_btt c) < 65536"
    and "65536 < ring_offset c + unat (dm_btt c)"
    and "length (items (ssMwrToRan_SplitSeg s)) < depth (ssMwrToRan_SplitSeg s)"
    and "length (items (mwr_soMEM_WrCmd s)) + 2 \<le> depth (mwr_soMEM_WrCmd s)"
    and "length (items (mwr_soMEM_WrData s)) + length cs < depth (mwr_soMEM_WrData s)"
  shows "\<exists>j ws1 ws2 c1 c2. mwr_done s j rest (ws1 @ ws2) [c1, c2] \<and>
    is_segment ax_tlast ws1 \<and> is_segment ax_tlast ws2 \<and>
    bytes_of ws1 = take (65536 - ring_offset c) (bytes_of cs) \<and>
    bytes_of ws2 = drop (65536 - ring_offset c) (bytes_of cs) \<and>
    dm_saddr c1 = dm_saddr c \<and> unat (dm_btt c1) = length (bytes_of ws1) \<and>
    ring_offset c1 + unat (dm_btt c1) = 65536 \<and>
    ring_offset c2 = 0 \<and> unat (dm_btt c2) = length (bytes_of ws2)"
proof -
  have pos: "0 < ring_offset c" "ring_offset c < 65536"
    using assms(6,7) by (simp_all add: ring_offset_def get_range_15)
  note c = split_cmds [OF pos(1) assms(7)]
  from mwr_split_run [OF assms] obtain j ws1 ws2 where
    "mwr_done s j rest (ws1 @ ws2) [mwr_cmd1 c, mwr_cmd2 c (split_len c)]"
    "is_segment ax_tlast ws1" "is_segment ax_tlast ws2"
    "bytes_of ws1 = take (65536 - ring_offset c) (bytes_of cs)"
    "bytes_of ws2 = drop (65536 - ring_offset c) (bytes_of cs)"
    by blast
  then show ?thesis
    using c assms(5,7) pos
    by (intro exI [of _ j] exI [of _ ws1] exI [of _ ws2] exI [of _ "mwr_cmd1 c"]
        exI [of _ "mwr_cmd2 c (split_len c)"]) simp
qed

theorem mwr_splits_segment_witness:
  "let c = DmCmd_of 0x5FFFE 5; x = chunk 0x0504030201 0x1F True in
   \<exists>j ws1 ws2 c1 c2. mwr_done (rxp_reset\<lparr>ssFsmToMwr_WrCmd := Stream 16 [c],
       ssTsdToMwr_Data := Stream 16 [x]\<rparr>) j [] (ws1 @ ws2) [c1, c2] \<and>
     bytes_of ws1 = [1, 2] \<and> bytes_of ws2 = [3, 4, 5]"
proof -
  let ?c = "DmCmd_of 0x5FFFE 5" and ?x = "chunk 0x0504030201 0x1F True"
  let ?s = "rxp_reset\<lparr>ssFsmToMwr_WrCmd := Stream 16 [?c], ssTsdToMwr_Data := Stream 16 [?x]\<rparr>"
  have s: "mwr_fsmState ?s = MWR_IDLE" "items (ssFsmToMwr_WrCmd ?s) = ?c # []"
    "items (ssTsdToMwr_Data ?s) = [?x] @ []"
    "length (items (ssMwrToRan_SplitSeg ?s)) < depth (ssMwrToRan_SplitSeg ?s)"
    "length (items (mwr_soMEM_WrCmd ?s)) + 2 \<le> depth (mwr_soMEM_WrCmd ?s)"
    "length (items (mwr_soMEM_WrData ?s)) + length [?x] < depth (mwr_soMEM_WrData ?s)"
    by (simp_all add: rxp_reset_def)
  have len: "getLen ?x = 5" by (simp add: getLen_def chunk_def keepToLen_def)
  have ok: "payload_ok [?x]" using len by (simp add: payload_ok_single chunk_ok_def chunk_def)
  have off: "ring_offset ?c = 65534"
    by (simp add: ring_offset_def get_range_15 DmCmd_of_def)
  have bytes: "bytes_of [?x] = [1, 2, 3, 4, 5]"
  proof -
    have "[0 ..< 5] = [0, 1, 2, 3, 4 :: nat]" by (simp add: upt_rec)
    then show ?thesis
      unfolding bytes_of_def list.map concat.simps chunk_bytes_def len
      by (simp add: nth_byte_def chunk_def)
  qed
  have btt: "length (bytes_of [?x]) = unat (dm_btt ?c)" "unat (dm_btt ?c) < 65536"
    "65536 < ring_offset ?c + unat (dm_btt ?c)"
    by (simp_all add: off bytes del: bytes_of_simps) (simp_all add: DmCmd_of_def)
  from mwr_splits_segment [OF s(1-3) ok btt s(4-6)] show ?thesis
    unfolding Let_def bytes off by fastforce
qed

text \<open>A full command stream corrupts a split segment.  When the chunk that ends the first access
  arrives and the stream to the memory has no room for the second command, the writer takes the
  chunk all the same and writes it complete and without the last flag, and stays in its state:
  the first access receives more bytes than its command announced.\<close>

theorem mwr_full_commands_overrun:
  assumes "mwr_fsmState s = MWR_FWD_1ST_BUF" "mwr_nrBytesToWr s < 8"
    and "items (ssTsdToMwr_Data s) = c # cs" "getLen c = 8" "\<not> ax_tlast c"
    and "length (items (mwr_soMEM_WrData s)) < depth (mwr_soMEM_WrData s)"
    and "sfull (mwr_soMEM_WrCmd s)"
  shows "mwr_fsmState (pRxMemoryWriter s) = MWR_FWD_1ST_BUF \<and>
     mwr_nrBytesToWr (pRxMemoryWriter s) = mwr_nrBytesToWr s \<and>
     items (ssTsdToMwr_Data (pRxMemoryWriter s)) = cs \<and>
     items (mwr_soMEM_WrData (pRxMemoryWriter s)) = items (mwr_soMEM_WrData s) @ [c] \<and>
     unat (mwr_nrBytesToWr s) < length (bytes_of [c])"
proof -
  have "\<not> 8 < mwr_nrBytesToWr s" using assms(2) by auto
  then show ?thesis
    using assms by (simp add: pRxMemoryWriter_def mwr_fwd_1st_buf_def sempty_def sread_cons Let_def
        sfull_def word_less_nat_alt)
qed

theorem mwr_full_commands_overrun_witness:
  "items (mwr_soMEM_WrData (pRxMemoryWriter (rxp_reset\<lparr>mwr_fsmState := MWR_FWD_1ST_BUF,
     mwr_nrBytesToWr := 3, ssTsdToMwr_Data := Stream 16 [chunk 0 0xFF False],
     mwr_soMEM_WrCmd := Stream 1 [DmCmd_of 0 3]\<rparr>))) = [chunk 0 0xFF False]"
proof -
  let ?s = "rxp_reset\<lparr>mwr_fsmState := MWR_FWD_1ST_BUF, mwr_nrBytesToWr := 3,
     ssTsdToMwr_Data := Stream 16 [chunk 0 0xFF False], mwr_soMEM_WrCmd := Stream 1 [DmCmd_of 0 3]\<rparr>"
  have "items (mwr_soMEM_WrData ?s) = []" "getLen (chunk 0 0xFF False) = 8"
    "\<not> ax_tlast (chunk 0 0xFF False)"
    by (simp_all add: rxp_reset_def chunk_def getLen_def keepToLen_def)
  then show ?thesis
    using mwr_full_commands_overrun [of ?s "chunk 0 0xFF False" "[]"]
    by (simp add: sfull_def rxp_reset_def)
qed

section \<open>Notifications\<close>

lemma ran_always_frame [simp]:
  "ran_siMEM_WrSts (ran_always s) = ran_siMEM_WrSts s"
  "ssFsmToRan_Notif (ran_always s) = ssFsmToRan_Notif s"
  "ran_soRAi_RxNotif (ran_always s) = ran_soRAi_RxNotif s"
  "ssMwrToRan_SplitSeg (ran_always s) = ssMwrToRan_SplitSeg s"
  "ssRxNotifFifo (ran_always s) = ssRxNotifFifo s"
  "ran_doubleAccessFlag (ran_always s) = ran_doubleAccessFlag s"
  "ran_appNotification (ran_always s) = ran_appNotification s"
  "ran_dmStatus1 (ran_always s) = ran_dmStatus1 s"
  by (simp_all add: ran_always_def)

text \<open>The notifications that the confirmations of the memory release.\<close>

fun ran_sent :: "DmSts list \<Rightarrow> bool list \<Rightarrow> TcpAppNotif list \<Rightarrow> TcpAppNotif list" where
  "ran_sent (d # ds) (False # fs) (n # ns) = (if ds_okay d then [n] else []) @ ran_sent ds fs ns"
| "ran_sent (d # d' # ds) (True # fs) (n # ns) =
     (if ds_okay d \<and> ds_okay d' then [n] else []) @ ran_sent ds fs ns"
| "ran_sent _ _ _ = []"

text \<open>The number of confirmations of a segment.\<close>

definition accesses_of :: "bool list \<Rightarrow> nat" where
  "accesses_of fs = sum_list (map (\<lambda>f. if f then 2 else 1) fs)"

lemma accesses_of_simps [simp]:
  "accesses_of [] = 0" "accesses_of (f # fs) = (if f then 2 else 1) + accesses_of fs"
  by (simp_all add: accesses_of_def)

lemma accesses_of_0 [simp]: "accesses_of fs = 0 \<longleftrightarrow> fs = []"
  by (cases fs) simp_all

lemma ran_single:
  assumes "\<not> ran_doubleAccessFlag s" "items (ran_siMEM_WrSts s) = d # ds"
    and "items (ssMwrToRan_SplitSeg s) = False # fs" "items (ssRxNotifFifo s) = n # ns"
  shows "items (ran_siMEM_WrSts (pRxAppNotifier s)) = ds"
    "items (ssMwrToRan_SplitSeg (pRxAppNotifier s)) = fs"
    "items (ssRxNotifFifo (pRxAppNotifier s)) = ns"
    "\<not> ran_doubleAccessFlag (pRxAppNotifier s)"
    "items (ran_soRAi_RxNotif (pRxAppNotifier s)) =
       items (ran_soRAi_RxNotif s) @ (if ds_okay d then [n] else [])"
  using assms by (simp_all add: pRxAppNotifier_def ran_first_status_def sread_cons Let_def)

lemma ran_double:
  assumes "\<not> ran_doubleAccessFlag s" "items (ran_siMEM_WrSts s) = d # d' # ds"
    and "items (ssMwrToRan_SplitSeg s) = True # fs" "items (ssRxNotifFifo s) = n # ns"
  shows "items (ran_siMEM_WrSts (pRxAppNotifier (pRxAppNotifier s))) = ds"
    "items (ssMwrToRan_SplitSeg (pRxAppNotifier (pRxAppNotifier s))) = fs"
    "items (ssRxNotifFifo (pRxAppNotifier (pRxAppNotifier s))) = ns"
    "\<not> ran_doubleAccessFlag (pRxAppNotifier (pRxAppNotifier s))"
    "items (ran_soRAi_RxNotif (pRxAppNotifier (pRxAppNotifier s))) =
       items (ran_soRAi_RxNotif s) @ (if ds_okay d \<and> ds_okay d' then [n] else [])"
proof -
  let ?t = "pRxAppNotifier s"
  have t: "ran_doubleAccessFlag ?t" "items (ran_siMEM_WrSts ?t) = d' # ds"
    "items (ssMwrToRan_SplitSeg ?t) = fs" "items (ssRxNotifFifo ?t) = ns"
    "ran_appNotification ?t = n" "ran_dmStatus1 ?t = d"
    "items (ran_soRAi_RxNotif ?t) = items (ran_soRAi_RxNotif s)"
    using assms by (simp_all add: pRxAppNotifier_def ran_first_status_def sread_cons Let_def)
  then show "items (ran_siMEM_WrSts (pRxAppNotifier ?t)) = ds"
    "items (ssMwrToRan_SplitSeg (pRxAppNotifier ?t)) = fs"
    "items (ssRxNotifFifo (pRxAppNotifier ?t)) = ns" "\<not> ran_doubleAccessFlag (pRxAppNotifier ?t)"
    "items (ran_soRAi_RxNotif (pRxAppNotifier ?t)) =
       items (ran_soRAi_RxNotif s) @ (if ds_okay d \<and> ds_okay d' then [n] else [])"
    by (simp_all add: pRxAppNotifier_def [of ?t] ran_second_status_def sread_cons Let_def)
qed

text \<open>The application hears of data when, and only when, the memory has it: the notifier holds each
  notification until the one or two write accesses of its segment are confirmed, forwards it
  when all of them succeeded and discards it otherwise, in the order of the segments and with
  one cycle per confirmation.\<close>

theorem ran_notifies_written_data:
  assumes "\<not> ran_doubleAccessFlag s" "items (ran_siMEM_WrSts s) = ds"
    and "items (ssMwrToRan_SplitSeg s) = fs" "items (ssRxNotifFifo s) = ns"
    and "length fs = length ns" "length ds = accesses_of fs"
  shows "items (ran_soRAi_RxNotif ((pRxAppNotifier ^^ length ds) s)) =
       items (ran_soRAi_RxNotif s) @ ran_sent ds fs ns \<and>
     items (ssRxNotifFifo ((pRxAppNotifier ^^ length ds) s)) = [] \<and>
     \<not> ran_doubleAccessFlag ((pRxAppNotifier ^^ length ds) s)"
  using assms
proof (induction ds fs ns arbitrary: s rule: ran_sent.induct)
  case (1 d ds fs n ns)
  note t = ran_single [OF 1(2-5)]
  show ?case using 1(1) [OF t(4,1-3)] t(5) 1(6,7) by (simp add: funpow_swap1)
next
  case (2 d d' ds fs n ns)
  note t = ran_double [OF 2(2-5)]
  show ?case using 2(1) [OF t(4,1-3)] t(5) 2(6,7) by (simp add: funpow_swap1)
qed (auto split: if_splits)

definition sts :: "bool \<Rightarrow> DmSts" where
  "sts ok = DmSts_zero\<lparr>ds_okay := ok\<rparr>"

definition notif :: "TcpDatLen \<Rightarrow> TcpAppNotif" where
  "notif len = (TcpAppNotif_state 1 CLOSED)\<lparr>an_tcpDatLen := len\<rparr>"

theorem ran_notifies_written_data_witness:
  "items (ran_soRAi_RxNotif ((pRxAppNotifier ^^ 4) (rxp_reset\<lparr>
     ran_siMEM_WrSts := Stream 4 [sts True, sts False, sts True, sts True],
     ssMwrToRan_SplitSeg := Stream 16 [False, False, True],
     ssRxNotifFifo := Stream 32 [notif 10, notif 20, notif 30]\<rparr>))) = [notif 10, notif 30]"
proof -
  let ?ds = "[sts True, sts False, sts True, sts True]"
  let ?s = "rxp_reset\<lparr>ran_siMEM_WrSts := Stream 4 ?ds,
     ssMwrToRan_SplitSeg := Stream 16 [False, False, True],
     ssRxNotifFifo := Stream 32 [notif 10, notif 20, notif 30]\<rparr>"
  let ?fs = "[False, False, True]" and ?ns = "[notif 10, notif 20, notif 30]"
  have "items (ran_soRAi_RxNotif ((pRxAppNotifier ^^ length ?ds) ?s)) =
      items (ran_soRAi_RxNotif ?s) @ ran_sent ?ds ?fs ?ns"
    by (rule ran_notifies_written_data [THEN conjunct1]) (simp_all add: rxp_reset_def)
  moreover have "ds_okay (sts b) = b" for b by (simp add: sts_def)
  then have "ran_sent ?ds ?fs ?ns = [notif 10, notif 30]" by simp
  moreover have "items (ran_soRAi_RxNotif ?s) = []" "length ?ds = 4" by (simp_all add: rxp_reset_def)
  ultimately show ?thesis by (simp only: append_Nil)
qed

text \<open>
  A run of the notifier in an arbitrary environment, with the notifications it has sent.  The
  environment may change every stream but the internal one.
\<close>

inductive ran_run :: "'a RXp_scheme \<Rightarrow> TcpAppNotif list \<Rightarrow> bool" where
  boot: "items (ssRxNotifFifo s) = [] \<Longrightarrow> \<not> ran_doubleAccessFlag s \<Longrightarrow> ran_run s []"
| environment: "ran_run s l \<Longrightarrow> ssRxNotifFifo s' = ssRxNotifFifo s \<Longrightarrow>
     ran_doubleAccessFlag s' = ran_doubleAccessFlag s \<Longrightarrow>
     ran_appNotification s' = ran_appNotification s \<Longrightarrow> ran_run s' l"
| clock: "ran_run s l \<Longrightarrow> items (ran_soRAi_RxNotif (pRxAppNotifier s)) =
     items (ran_soRAi_RxNotif s) @ ns \<Longrightarrow> ran_run (pRxAppNotifier s) (l @ ns)"

definition ran_pending :: "'a RXp_scheme \<Rightarrow> TcpAppNotif set" where
  "ran_pending s = set (items (ssRxNotifFifo s)) \<union>
     (if ran_doubleAccessFlag s then {ran_appNotification s} else {})"

lemma ran_second_pending:
  assumes "ran_doubleAccessFlag s"
  shows "ran_pending (pRxAppNotifier s) \<subseteq> ran_pending s \<and>
    (\<exists>ns. items (ran_soRAi_RxNotif (pRxAppNotifier s)) = items (ran_soRAi_RxNotif s) @ ns \<and>
       set ns \<subseteq> ran_pending s)"
  using assms by (cases "sread (ran_siMEM_WrSts s)")
    (auto simp: pRxAppNotifier_def ran_second_status_def ran_pending_def Let_def split: if_splits)

lemma ran_first_pending:
  assumes "\<not> ran_doubleAccessFlag s" "sread (ran_siMEM_WrSts s) = Some (d, s1)"
    and "sread (ssMwrToRan_SplitSeg s) = Some (f, s2)" "sread (ssRxNotifFifo s) = Some (n, s3)"
  shows "ran_pending (pRxAppNotifier s) \<subseteq> ran_pending s \<and>
    (\<exists>ns. items (ran_soRAi_RxNotif (pRxAppNotifier s)) = items (ran_soRAi_RxNotif s) @ ns \<and>
       set ns \<subseteq> ran_pending s)"
proof -
  have "items (ssRxNotifFifo s) = n # items s3" using assms(4) by (simp add: sread_Some_iff)
  with assms show ?thesis
    by (auto simp: pRxAppNotifier_def ran_first_status_def ran_pending_def Let_def)
qed

lemma ran_take_pending:
  "ran_pending (ran_take_notif s) \<subseteq> ran_pending s \<union> {n. an_tcpDatLen n \<noteq> 0}"
  if "\<not> ran_doubleAccessFlag s"
  using that by (auto simp: ran_take_notif_def ran_pending_def Let_def split: option.splits)

lemma ran_take_frame [simp]: "ran_soRAi_RxNotif (ran_take_notif s) = ran_soRAi_RxNotif s"
  by (simp add: ran_take_notif_def Let_def split: option.split)

lemma ran_clock_pending:
  "ran_pending (pRxAppNotifier s) \<subseteq> ran_pending s \<union> {n. an_tcpDatLen n \<noteq> 0} \<and>
    (\<exists>ns. items (ran_soRAi_RxNotif (pRxAppNotifier s)) = items (ran_soRAi_RxNotif s) @ ns \<and>
       set ns \<subseteq> ran_pending s)"
proof -
  consider "ran_doubleAccessFlag s"
    | d s1 f s2 n s3 where "\<not> ran_doubleAccessFlag s" "sread (ran_siMEM_WrSts s) = Some (d, s1)"
      "sread (ssMwrToRan_SplitSeg s) = Some (f, s2)" "sread (ssRxNotifFifo s) = Some (n, s3)"
    | "\<not> ran_doubleAccessFlag s" "sread (ran_siMEM_WrSts s) = None \<or>
        sread (ssMwrToRan_SplitSeg s) = None \<or> sread (ssRxNotifFifo s) = None"
    by (metis not_None_eq surj_pair)
  then show ?thesis
  proof cases
    case 1
    then show ?thesis using ran_second_pending by blast
  next
    case 2
    then show ?thesis using ran_first_pending by blast
  next
    case 3
    then have "pRxAppNotifier s = ran_always (ran_take_notif s)"
      by (auto simp: pRxAppNotifier_def split: option.split)
    moreover have "ran_pending (ran_always t) = ran_pending t" for t :: "'a RXp_scheme"
      by (simp add: ran_pending_def)
    ultimately show ?thesis using ran_take_pending [OF 3(1)] by simp
  qed
qed

lemma ran_takes:
  assumes "\<not> ran_doubleAccessFlag s" "items (ran_siMEM_WrSts s) = []"
    and "items (ssFsmToRan_Notif s) = n # ns" "\<not> sfull (ssRxNotifFifo s)"
  shows "items (ssRxNotifFifo (pRxAppNotifier s)) =
      items (ssRxNotifFifo s) @ (if an_tcpDatLen n = 0 then [] else [n])"
    "depth (ssRxNotifFifo (pRxAppNotifier s)) = depth (ssRxNotifFifo s)"
    "items (ssFsmToRan_Notif (pRxAppNotifier s)) = ns"
    "\<not> ran_doubleAccessFlag (pRxAppNotifier s)"
    "items (ran_siMEM_WrSts (pRxAppNotifier s)) = []"
    "ran_soRAi_RxNotif (pRxAppNotifier s) = ran_soRAi_RxNotif s"
  using assms
  by (simp_all add: pRxAppNotifier_def ran_take_notif_def sempty_def sread_cons Let_def)

text \<open>Nothing without data reaches the application.  In no run of the notifier, whatever the other
  processes and the memory do, is a notification of length 0 forwarded.\<close>

theorem ran_never_sends_empty:
  assumes "ran_run s l"
  shows "\<forall>n \<in> set l. an_tcpDatLen n \<noteq> 0"
proof -
  have "(\<forall>n \<in> set l. an_tcpDatLen n \<noteq> 0) \<and> (\<forall>n \<in> ran_pending s. an_tcpDatLen n \<noteq> 0)"
    using assms
  proof (induction rule: ran_run.induct)
    case (boot s)
    then show ?case by (simp add: ran_pending_def)
  next
    case (environment s l s')
    then show ?case by (simp add: ran_pending_def)
  next
    case (clock s l ns)
    then show ?case using ran_clock_pending [of s] by auto
  qed
  then show ?thesis by blast
qed

theorem ran_never_sends_empty_witness:
  "\<exists>s :: RXp. ran_run s [notif 10] \<and> (\<forall>n \<in> set [notif 10]. an_tcpDatLen n \<noteq> 0)"
proof -
  let ?s = "rxp_reset\<lparr>ssFsmToRan_Notif := Stream 16 [notif 0, notif 10]\<rparr>"
  let ?t = "pRxAppNotifier (pRxAppNotifier ?s)"
  let ?u = "?t\<lparr>ran_siMEM_WrSts := Stream 4 [sts True], ssMwrToRan_SplitSeg := Stream 16 [False]\<rparr>"
  have s: "\<not> ran_doubleAccessFlag ?s" "items (ran_siMEM_WrSts ?s) = []"
    "items (ssFsmToRan_Notif ?s) = [notif 0, notif 10]" "\<not> sfull (ssRxNotifFifo ?s)"
    "items (ssRxNotifFifo ?s) = []" "depth (ssRxNotifFifo ?s) = 32"
    by (simp_all add: rxp_reset_def sfull_def)
  note t1 = ran_takes [OF s(1-4)]
  have "\<not> sfull (ssRxNotifFifo (pRxAppNotifier ?s))" using t1(1,2) s(5,6) by (simp add: sfull_def)
  note t2 = ran_takes [OF t1(4,5,3) this]
  have "ran_run ?s []" using s(5,1) by (rule boot)
  then have "ran_run (pRxAppNotifier ?s) ([] @ [])" by (rule clock) (simp only: t1 append_Nil2)
  then have "ran_run ?t (([] @ []) @ [])" by (rule clock) (simp only: t2 append_Nil2)
  then have "ran_run ?t []" by simp
  then have u: "ran_run ?u []" by (rule environment) simp_all
  have t: "items (ssRxNotifFifo ?t) = [notif 10]" "\<not> ran_doubleAccessFlag ?t"
    using t2(1,4) t1(1) s(5) by (simp_all only:) (simp_all add: notif_def)
  have "items (ran_soRAi_RxNotif (pRxAppNotifier ?u)) = items (ran_soRAi_RxNotif ?u) @ [notif 10]"
    using ran_single(5) [of ?u "sts True" "[]" "[]" "notif 10" "[]"] t by (simp add: sts_def)
  with u have "ran_run (pRxAppNotifier ?u) ([] @ [notif 10])" by (rule clock)
  then have r: "ran_run (pRxAppNotifier ?u) [notif 10]" by simp
  with ran_never_sends_empty [OF r] show ?thesis by blast
qed

end
