(* ===== verification/Rx_Meta.thy ===== *)
theory Rx_Meta
  imports Rx_Fsm Rx_Memory
begin

text \<open>
  The metadata handler (Mdh) and the event multiplexer (Evm) of the Rx engine,
  \<open>NTS/toe/src/rx_engine/src/rx_engine.cpp\<close>.  The handler joins the metadata of a segment with
  the state of its destination port, rejects it if the port is closed, and otherwise looks up
  the session and hands the segment to the state machine (\<open>Rx_Fsm\<close>).  The theory shows what
  becomes of every segment, and how the decisions on the payload of the handler, the state
  machine and the segment dropper (\<open>Rx_Path\<close>) fit together.
\<close>

section \<open>State\<close>

datatype MdhStates = MDH_META | MDH_LOOKUP

record MDh = FSm +
  ssCsaToMdh_Meta :: "RXeMeta stream"
  ssCsaToMdh_SockPair :: "SocketPair stream"
  mdh_soSLc_SessLkpReq :: "SessionLookupQuery stream"
  mdh_siSLc_SessLkpRep :: "SessionLookupReply stream"
  mdh_siPRt_PortSts :: "bool stream"
  ssMdhToEvm_Event :: "ExtendedEvent stream"
  mdh_soMMIO_SessDropCnt :: "8 word stream"
  evm_soEVe_Event :: "ExtendedEvent stream"
  mdh_fsmState :: MdhStates
  mdh_SessDropCounter :: "8 word"
  mdh_meta :: RXeMeta
  mdh_sessLookupReply :: SessionLookupReply
  mdh_ip4SrcAddr :: Ip4Addr
  mdh_tcpSrcPort :: TcpPort
  mdh_tcpDstPort :: TcpPort

section \<open>The metadata handler\<close>

text \<open>A socket pair in little-endian order, and the one of the answer to its sender.\<close>

definition le_sockAddr :: "SockAddr \<Rightarrow> SockAddr" where
  "le_sockAddr a = \<lparr>sa_addr = byteSwap32 (sa_addr a), sa_port = byteSwap16 (sa_port a)\<rparr>"

definition leSocketPair :: "SocketPair \<Rightarrow> SocketPair" where
  "leSocketPair p = \<lparr>sp_src = le_sockAddr (sp_src p), sp_dst = le_sockAddr (sp_dst p)\<rparr>"

definition switchedTuple :: "SocketPair \<Rightarrow> SocketPair" where
  "switchedTuple p = \<lparr>sp_src = le_sockAddr (sp_dst p), sp_dst = le_sockAddr (sp_src p)\<rparr>"

definition ExtendedEvent_tuple :: "Event \<Rightarrow> SocketPair \<Rightarrow> ExtendedEvent" where
  "ExtendedEvent_tuple ev p = \<lparr>ex_event = ev, ex_tuple = Some p\<rparr>"

text \<open>A reset that belongs to no session.\<close>

definition rstEvent_seq :: "RxSeqNum \<Rightarrow> Event" where
  "rstEvent_seq seq = rstEvent 0 seq False"

definition mdh_closed :: "SocketPair \<Rightarrow> 'a MDh_scheme \<Rightarrow> 'a MDh_scheme" where
  "mdh_closed p s =
     (let m = mdh_meta s;
          s = (if \<not> rm_rst m then
                 s\<lparr>ssMdhToEvm_Event := swrite (ssMdhToEvm_Event s)
                     (ExtendedEvent_tuple
                        (rstEvent_seq (if rm_syn m \<or> rm_fin m then seg_next m + 1 else seg_next m))
                        (switchedTuple p))\<rparr>
               else s)
      in if rm_length m \<noteq> 0
         then s\<lparr>ssMdhToTsd_DropCmd := swrite (ssMdhToTsd_DropCmd s) CMD_DROP,
                mdh_SessDropCounter := mdh_SessDropCounter s + 1\<rparr>
         else s)"

definition mdh_opened :: "SocketPair \<Rightarrow> 'a MDh_scheme \<Rightarrow> 'a MDh_scheme" where
  "mdh_opened p s =
     (let m = mdh_meta s in
      s\<lparr>mdh_soSLc_SessLkpReq := swrite (mdh_soSLc_SessLkpReq s)
          \<lparr>slq_tuple = leSocketPair p, slq_allowCreation = rm_syn m \<and> \<not> rm_rst m \<and> \<not> rm_fin m\<rparr>,
        mdh_fsmState := MDH_LOOKUP\<rparr>)"

definition mdh_read_meta :: "'a MDh_scheme \<Rightarrow> 'a MDh_scheme" where
  "mdh_read_meta s =
     (case (sread (mdh_siPRt_PortSts s), sread (ssCsaToMdh_Meta s), sread (ssCsaToMdh_SockPair s)) of
        (Some (dstPortOpen, si1), Some (m, si2), Some (p, si3)) \<Rightarrow>
          (let s = s\<lparr>mdh_siPRt_PortSts := si1, ssCsaToMdh_Meta := si2, ssCsaToMdh_SockPair := si3,
                     mdh_meta := m, mdh_ip4SrcAddr := sa_addr (sp_src p),
                     mdh_tcpSrcPort := sa_port (sp_src p), mdh_tcpDstPort := sa_port (sp_dst p)\<rparr>
           in if \<not> dstPortOpen then mdh_closed p s else mdh_opened p s)
      | _ \<Rightarrow> s)"

definition mdh_lookup :: "'a MDh_scheme \<Rightarrow> 'a MDh_scheme" where
  "mdh_lookup s =
     (case sread (mdh_siSLc_SessLkpRep s) of
        None \<Rightarrow> s
      | Some (rep, si) \<Rightarrow>
          (let s = s\<lparr>mdh_siSLc_SessLkpRep := si, mdh_sessLookupReply := rep\<rparr>;
               s = (if slr_hit rep then
                      s\<lparr>ssMdhToFsm_Meta := swrite (ssMdhToFsm_Meta s)
                          \<lparr>fm_sessionId = slr_sessionID rep, fm_ip4SrcAddr = mdh_ip4SrcAddr s,
                           fm_tcpSrcPort = mdh_tcpSrcPort s, fm_tcpDstPort = mdh_tcpDstPort s,
                           fm_meta = mdh_meta s\<rparr>\<rparr>
                    else s);
               s = (if rm_length (mdh_meta s) \<noteq> 0 then
                      (let s = s\<lparr>ssMdhToTsd_DropCmd :=
                                   swrite (ssMdhToTsd_DropCmd s) (\<not> slr_hit rep)\<rparr>
                       in if \<not> slr_hit rep
                          then s\<lparr>mdh_SessDropCounter := mdh_SessDropCounter s + 1\<rparr> else s)
                    else s)
           in s\<lparr>mdh_fsmState := MDH_META\<rparr>))"

definition mdh_always :: "'a MDh_scheme \<Rightarrow> 'a MDh_scheme" where
  "mdh_always s =
     (if \<not> sfull (mdh_soMMIO_SessDropCnt s)
      then s\<lparr>mdh_soMMIO_SessDropCnt := swrite (mdh_soMMIO_SessDropCnt s) (mdh_SessDropCounter s)\<rparr>
      else s)"

definition pMetaDataHandler :: "'a MDh_scheme \<Rightarrow> 'a MDh_scheme" where
  "pMetaDataHandler s = mdh_always
     (case mdh_fsmState s of MDH_META \<Rightarrow> mdh_read_meta s | MDH_LOOKUP \<Rightarrow> mdh_lookup s)"

section \<open>The event multiplexer\<close>

definition pEventMultiplexer :: "'a MDh_scheme \<Rightarrow> 'a MDh_scheme" where
  "pEventMultiplexer s =
     (case sread (ssMdhToEvm_Event s) of
        Some (ev, si) \<Rightarrow>
          s\<lparr>ssMdhToEvm_Event := si, evm_soEVe_Event := swrite (evm_soEVe_Event s) ev\<rparr>
      | None \<Rightarrow>
          (case sread (ssFsmToEvm_Event s) of
             Some (ev, si) \<Rightarrow>
               s\<lparr>ssFsmToEvm_Event := si,
                 evm_soEVe_Event := swrite (evm_soEVe_Event s) (ExtendedEvent_of ev)\<rparr>
           | None \<Rightarrow> s))"

section \<open>What the state machine leaves alone\<close>

text \<open>The fields of the segment dropper and of the notifier that the state machine does not write.\<close>

type_synonym path_fields = "TsdStates \<times> AxisApp stream \<times> AxisApp stream \<times> bool stream \<times>
  bool \<times> DmSts stream \<times> TcpAppNotif stream \<times> TcpAppNotif stream"

definition path_view :: "'a RXp_scheme \<Rightarrow> path_fields" where
  "path_view s = (tsd_fsmState s, ssTidToTsd_Data s, ssTsdToMwr_Data s, ssMdhToTsd_DropCmd s,
     ran_doubleAccessFlag s, ran_siMEM_WrSts s, ssRxNotifFifo s, ran_soRAi_RxNotif s)"

lemma path_view_ack [simp]:
  "path_view (fsm_ack_window t s) = path_view s" "path_view (fsm_keep q len dbg s) = path_view s"
  "path_view (fsm_ack_event r s) = path_view s" "path_view (fsm_ack_reset st s) = path_view s"
  "path_view (put_timer c s) = path_view s" "path_view (put_state st s) = path_view s"
  "path_view (put_closeTimer s) = path_view s" "path_view (put_event ev s) = path_view s"
  "path_view (put_drop b s) = path_view s" "path_view (put_txSar tq s) = path_view s"
  "path_view (put_rxSar q s) = path_view s" "path_view (put_clearProbe s) = path_view s"
  "path_view (put_opnSts st s) = path_view s" "path_view (put_notif_closed len s) = path_view s"
  "path_view (put_wrCmd s) = path_view s"
  by (simp_all add: path_view_def fsm_ack_window_def fsm_keep_def fsm_ack_event_def
      fsm_ack_reset_def put_defs Let_def)

lemma path_view_updates [simp]:
  "path_view (s\<lparr>fsm_rxByteCounter := n\<rparr>) = path_view s"
  "path_view (s\<lparr>fsm_oooDropCounter := c, fsm_oooDebugState := d\<rparr>) = path_view s"
  "path_view (s\<lparr>fsm_oooDebugState := d\<rparr>) = path_view s"
  "path_view (s\<lparr>fsm_oooDropCounter := c\<rparr>) = path_view s"
  "path_view (s\<lparr>fsm_freeSpace := f, fsm_soDBG_RxFreeSpace := g\<rparr>) = path_view s"
  by (simp_all add: path_view_def)

lemma path_view_payload [simp]: "path_view (fsm_ack_payload r s) = path_view s"
  by (simp add: fsm_ack_payload_def Let_def)

lemma path_view_ack_state [simp]: "path_view (fsm_ack_state st t s) = path_view s"
  by (cases st; simp add: fsm_ack_state_def)

lemma path_view_branches [simp]:
  "path_view (fsm_ack st r t s) = path_view s" "path_view (fsm_syn st r s) = path_view s"
  "path_view (fsm_syn_ack st t s) = path_view s" "path_view (fsm_rst st r t s) = path_view s"
  "path_view (fsm_fin_state st t s) = path_view s"
  by (simp_all add: fsm_ack_eq fsm_syn_def fsm_syn_ack_def fsm_rst_def fsm_fin_state_def Let_def)

lemma path_view_fin [simp]: "path_view (fsm_fin_ack st r t s) = path_view s"
  by (simp add: fsm_fin_ack_def Let_def)

lemma path_view_process [simp]:
  "path_view (fsm_always s) = path_view s" "path_view (fsm_taken s) = path_view s"
  by (simp_all add: fsm_always_def fsm_taken_def path_view_def Let_def)

lemma path_view_serve [simp]: "path_view (fsm_serve st r t s) = path_view s"
  by (simp add: fsm_serve_def)

lemma path_view_load [simp]: "path_view (fsm_load s) = path_view s"
  by (simp add: fsm_load_def path_view_def Let_def split: option.split)

lemma fsm_load_frame [simp]:
  "ssFsmToTsd_DropCmd (fsm_load s) = ssFsmToTsd_DropCmd s"
  "ssFsmToMwr_WrCmd (fsm_load s) = ssFsmToMwr_WrCmd s"
  by (simp_all add: fsm_load_def Let_def split: option.split)

lemma pFiniteStateMachine_load_frame:
  assumes "fsm_fsmState s = FSM_LOAD"
  shows "path_view (pFiniteStateMachine junk s) = path_view s"
    "ssFsmToTsd_DropCmd (pFiniteStateMachine junk s) = ssFsmToTsd_DropCmd s"
    "ssFsmToMwr_WrCmd (pFiniteStateMachine junk s) = ssFsmToMwr_WrCmd s"
  by (simp_all add: pFiniteStateMachine_def assms)

section \<open>One segment through the handler and the state machine\<close>

text \<open>
  The handler receives the reply of the session lookup, the state machine loads the segment, the
  tables reply, and the state machine processes it.
\<close>

definition table_replies ::
  "TcpState \<Rightarrow> RxSarReply \<Rightarrow> RXeTxSarReply \<Rightarrow> 'a FSm_scheme \<Rightarrow> 'a FSm_scheme" where
  "table_replies st r t s = s\<lparr>fsm_siSTt_StateRep := Stream 2 [st],
     fsm_siRSt_RxSarRep := Stream 2 [r], fsm_siTSt_TxSarRep := Stream 2 [t]\<rparr>"

definition rxe_segment ::
  "TcpState \<Rightarrow> RxSarReply \<Rightarrow> RXeTxSarReply \<Rightarrow> 'a MDh_scheme \<Rightarrow> 'a MDh_scheme" where
  "rxe_segment st r t s =
     pFiniteStateMachine t (table_replies st r t (pFiniteStateMachine t (pMetaDataHandler s)))"

text \<open>The engine waits for the lookup of a segment with payload, with nothing else in process.\<close>

definition rxe_waiting :: "'a MDh_scheme \<Rightarrow> SessionLookupReply \<Rightarrow> bool" where
  "rxe_waiting s rep \<longleftrightarrow> mdh_fsmState s = MDH_LOOKUP \<and> items (mdh_siSLc_SessLkpRep s) = [rep] \<and>
     fsm_wf s \<and> fsm_fsmState s = FSM_LOAD \<and> items (ssMdhToFsm_Meta s) = [] \<and>
     tsd_fsmState s = TSD_RD_DROP_CMD1 \<and> items (ssMdhToTsd_DropCmd s) = [] \<and>
     items (ssFsmToTsd_DropCmd s) = []"

text \<open>The metadata that the handler forwards.\<close>

definition mdh_fsmMeta :: "SessionLookupReply \<Rightarrow> 'a MDh_scheme \<Rightarrow> RXeFsmMeta" where
  "mdh_fsmMeta rep s = \<lparr>fm_sessionId = slr_sessionID rep, fm_ip4SrcAddr = mdh_ip4SrcAddr s,
     fm_tcpSrcPort = mdh_tcpSrcPort s, fm_tcpDstPort = mdh_tcpDstPort s, fm_meta = mdh_meta s\<rparr>"

lemma mdh_always_frame [simp]:
  "path_view (mdh_always s) = path_view s" "ssMdhToFsm_Meta (mdh_always s) = ssMdhToFsm_Meta s"
  "fsm_fsmState (mdh_always s) = fsm_fsmState s" "fsm_Meta (mdh_always s) = fsm_Meta s"
  "fsm_txSarRequest (mdh_always s) = fsm_txSarRequest s"
  "ssFsmToTsd_DropCmd (mdh_always s) = ssFsmToTsd_DropCmd s"
  "ssFsmToMwr_WrCmd (mdh_always s) = ssFsmToMwr_WrCmd s"
  "ssMdhToTsd_DropCmd (mdh_always s) = ssMdhToTsd_DropCmd s"
  "ssMdhToEvm_Event (mdh_always s) = ssMdhToEvm_Event s"
  "mdh_soSLc_SessLkpReq (mdh_always s) = mdh_soSLc_SessLkpReq s"
  "mdh_fsmState (mdh_always s) = mdh_fsmState s"
  "mdh_SessDropCounter (mdh_always s) = mdh_SessDropCounter s"
  by (simp_all add: mdh_always_def path_view_def)

lemma mdh_lookup_frame [simp]:
  "fsm_fsmState (mdh_lookup s) = fsm_fsmState s" "fsm_Meta (mdh_lookup s) = fsm_Meta s"
  "fsm_txSarRequest (mdh_lookup s) = fsm_txSarRequest s"
  "ssFsmToTsd_DropCmd (mdh_lookup s) = ssFsmToTsd_DropCmd s"
  "ssFsmToMwr_WrCmd (mdh_lookup s) = ssFsmToMwr_WrCmd s"
  "tsd_fsmState (mdh_lookup s) = tsd_fsmState s"
  "ssTidToTsd_Data (mdh_lookup s) = ssTidToTsd_Data s"
  "ssTsdToMwr_Data (mdh_lookup s) = ssTsdToMwr_Data s"
  "ssMdhToEvm_Event (mdh_lookup s) = ssMdhToEvm_Event s"
  by (simp_all add: mdh_lookup_def Let_def split: option.split)

lemma mdh_lookup_writes:
  assumes "items (mdh_siSLc_SessLkpRep s) = rep # reps"
  shows "items (ssMdhToFsm_Meta (mdh_lookup s)) =
      items (ssMdhToFsm_Meta s) @ (if slr_hit rep then [mdh_fsmMeta rep s] else [])"
    "items (ssMdhToTsd_DropCmd (mdh_lookup s)) = items (ssMdhToTsd_DropCmd s) @
      (if rm_length (mdh_meta s) = 0 then [] else [if slr_hit rep then CMD_KEEP else CMD_DROP])"
    "mdh_fsmState (mdh_lookup s) = MDH_META"
  by (simp_all add: mdh_lookup_def sread_cons assms mdh_fsmMeta_def Let_def)

lemma rxe_segment_outcome:
  assumes "rxe_waiting s rep" "slr_hit rep" "rm_length (mdh_meta s) \<noteq> 0"
    and segment: "u = rxe_segment st r t s"
  shows "tsd_fsmState u = TSD_RD_DROP_CMD1" "ssTidToTsd_Data u = ssTidToTsd_Data s"
    "ssTsdToMwr_Data u = ssTsdToMwr_Data s" "items (ssMdhToTsd_DropCmd u) = [CMD_KEEP]"
    "items (ssFsmToTsd_DropCmd u) = seg_cmds st r (mdh_meta s)"
    "items (ssFsmToMwr_WrCmd u) = items (ssFsmToMwr_WrCmd s) @
       map (\<lambda>_. seg_wrCmd (mdh_fsmMeta rep s))
         (filter (\<lambda>c. c = CMD_KEEP) (seg_cmds st r (mdh_meta s)))"
proof -
  let ?f = "mdh_fsmMeta rep s"
  let ?a = "pMetaDataHandler s"
  let ?b = "pFiniteStateMachine t ?a"
  let ?c = "table_replies st r t ?b"
  have a: "items (ssMdhToFsm_Meta ?a) = [?f]" "items (ssMdhToTsd_DropCmd ?a) = [CMD_KEEP]"
    "fsm_fsmState ?a = FSM_LOAD" "fsm_Meta ?a = fsm_Meta s" "\<not> fsm_txSarRequest ?a"
    "ssFsmToTsd_DropCmd ?a = ssFsmToTsd_DropCmd s" "ssFsmToMwr_WrCmd ?a = ssFsmToMwr_WrCmd s"
    "tsd_fsmState ?a = tsd_fsmState s" "ssTidToTsd_Data ?a = ssTidToTsd_Data s"
    "ssTsdToMwr_Data ?a = ssTsdToMwr_Data s"
    using assms(1-3)
    by (simp_all add: rxe_waiting_def pMetaDataHandler_def mdh_lookup_writes fsm_wf_def)
      (simp_all add: mdh_always_def)
  note load = pFiniteStateMachine_loads [OF a(3,1), of t]
  have b: "fsm_fsmState ?b = FSM_TRANSITION" "fsm_Meta ?b = ?f"
    "fsm_txSarRequest ?b = rm_ack (fm_meta ?f)" "path_view ?b = path_view ?a"
    "ssFsmToTsd_DropCmd ?b = ssFsmToTsd_DropCmd s" "ssFsmToMwr_WrCmd ?b = ssFsmToMwr_WrCmd s"
    using load a pFiniteStateMachine_load_frame [OF a(3)] by simp_all
  have c: "fsm_serving ?c" "fsm_replies t ?c = (st, r, t)" "path_view ?c = path_view ?a"
    "fsm_Meta ?c = ?f" "ssFsmToTsd_DropCmd ?c = ssFsmToTsd_DropCmd s"
    "ssFsmToMwr_WrCmd ?c = ssFsmToMwr_WrCmd s"
    using b by (simp_all add: fsm_serving_def fsm_wf_def fsm_ready_def table_replies_def sempty_def
        fsm_replies_def path_view_def)
  have u: "u = fsm_always (fsm_serve st r t (fsm_taken ?c))"
    unfolding segment rxe_segment_def by (rule pFiniteStateMachine_serves [OF c(1,2)])
  have "path_view u = path_view ?a" using c(3) by (simp add: u)
  then show "tsd_fsmState u = TSD_RD_DROP_CMD1" "ssTidToTsd_Data u = ssTidToTsd_Data s"
    "ssTsdToMwr_Data u = ssTsdToMwr_Data s" "items (ssMdhToTsd_DropCmd u) = [CMD_KEEP]"
    using a assms(1) by (simp_all add: path_view_def rxe_waiting_def)
  have m: "fm_meta ?f = mdh_meta s" by (simp add: mdh_fsmMeta_def)
  show "items (ssFsmToTsd_DropCmd u) = seg_cmds st r (mdh_meta s)"
    using assms(1) c(4,5) m by (simp add: u fsm_serve_cmds rxe_waiting_def)
  show "items (ssFsmToMwr_WrCmd u) = items (ssFsmToMwr_WrCmd s) @
       map (\<lambda>_. seg_wrCmd (mdh_fsmMeta rep s))
         (filter (\<lambda>c. c = CMD_KEEP) (seg_cmds st r (mdh_meta s)))"
    using c(4,6) m by (simp add: u fsm_serve_cmds)
qed

section \<open>What becomes of the payload\<close>

lemma tsd_stalls:
  assumes "tsd_fsmState u = TSD_RD_DROP_CMD1" "items (ssMdhToTsd_DropCmd u) = [CMD_KEEP]"
    and "items (ssFsmToTsd_DropCmd u) = []"
  shows "(pTcpSegmentDropper ^^ Suc n) u = u\<lparr>ssMdhToTsd_DropCmd :=
     Stream (depth (ssMdhToTsd_DropCmd u)) [], tsd_fsmState := TSD_RD_DROP_CMD2\<rparr>"
  using assms sread_cons [OF assms(2)] by (induction n) (simp_all add: pTcpSegmentDropper_def)

definition mdh_reset :: MDh where
  "mdh_reset = FSm.extend fsm_reset \<lparr>ssCsaToMdh_Meta = Stream 2 [], ssCsaToMdh_SockPair = Stream 2 [],
     mdh_soSLc_SessLkpReq = Stream 2 [], mdh_siSLc_SessLkpRep = Stream 2 [],
     mdh_siPRt_PortSts = Stream 4 [], ssMdhToEvm_Event = Stream 2 [],
     mdh_soMMIO_SessDropCnt = Stream 1 [], evm_soEVe_Event = Stream 512 [],
     mdh_fsmState = MDH_META, mdh_SessDropCounter = 0, mdh_meta = RXeMeta_zero,
     mdh_sessLookupReply = \<lparr>slr_sessionID = 0, slr_hit = False\<rparr>, mdh_ip4SrcAddr = 0,
     mdh_tcpSrcPort = 0, mdh_tcpDstPort = 0\<rparr>"

definition mdh_waiting :: "RXeFsmMeta \<Rightarrow> AxisApp list \<Rightarrow> MDh" where
  "mdh_waiting f x = mdh_reset\<lparr>mdh_fsmState := MDH_LOOKUP, mdh_meta := fm_meta f,
     mdh_siSLc_SessLkpRep := Stream 2 [\<lparr>slr_sessionID = fm_sessionId f, slr_hit = True\<rparr>],
     ssTidToTsd_Data := Stream 8 x\<rparr>"

lemmas mdh_instance_defs = mdh_waiting_def mdh_reset_def FSm.extend_def fsm_instance_defs

lemma mdh_waiting_fields:
  "rxe_waiting (mdh_waiting f x) \<lparr>slr_sessionID = fm_sessionId f, slr_hit = True\<rparr>"
  "mdh_meta (mdh_waiting f x) = fm_meta f" "items (ssTidToTsd_Data (mdh_waiting f x)) = x"
  "ssTsdToMwr_Data (mdh_waiting f x) = Stream 16 []"
  "ssFsmToMwr_WrCmd (mdh_waiting f x) = Stream 16 []"
  by (simp_all add: rxe_waiting_def fsm_wf_def mdh_instance_defs)

text \<open>C27. The three processes that decide on a payload agree.  When the session lookup of an ACK or a FIN
  with payload succeeds, the metadata handler and the state machine together post the commands
  from which the segment dropper passes the payload exactly when the connection accepts it
  (\<open>rx_keeps\<close>), and removes it otherwise; the memory writer has the address and the length for it
  exactly when the data arrives; and the segments behind it are untouched.\<close>

theorem rxe_payload_consistent:
  assumes "rxe_waiting s rep" "slr_hit rep" "rm_length (mdh_meta s) \<noteq> 0"
    and "is_ack (mdh_meta s) \<or> is_fin_ack (mdh_meta s)"
    and "items (ssTidToTsd_Data s) = x @ rest" "is_segment ax_tlast x"
    and "length (items (ssTsdToMwr_Data s)) + length x \<le> depth (ssTsdToMwr_Data s)"
  shows "\<exists>n \<le> 2 + length x. \<exists>v. v = (pTcpSegmentDropper ^^ n) (rxe_segment st r t s) \<and>
     tsd_fsmState v = TSD_RD_DROP_CMD1 \<and> items (ssTidToTsd_Data v) = rest \<and>
     items (ssTsdToMwr_Data v) =
       items (ssTsdToMwr_Data s) @ (if rx_keeps st r (mdh_meta s) then x else []) \<and>
     items (ssFsmToMwr_WrCmd (rxe_segment st r t s)) = items (ssFsmToMwr_WrCmd s) @
       (if rx_keeps st r (mdh_meta s) then [seg_wrCmd (mdh_fsmMeta rep s)] else [])"
proof -
  let ?u = "rxe_segment st r t s"
  note u = rxe_segment_outcome [OF assms(1-3) refl, of st r t]
  have cmds: "seg_cmds st r (mdh_meta s) =
      [if rx_keeps st r (mdh_meta s) then CMD_KEEP else CMD_DROP]"
    using assms(3,4) by (auto simp: seg_cmds_def)
  obtain n where "n \<le> 2 + length x"
    "tsd_fsmState ((pTcpSegmentDropper ^^ n) ?u) = TSD_RD_DROP_CMD1"
    "items (ssTidToTsd_Data ((pTcpSegmentDropper ^^ n) ?u)) = rest"
    "items (ssTsdToMwr_Data ((pTcpSegmentDropper ^^ n) ?u)) = items (ssTsdToMwr_Data ?u) @
      (if CMD_KEEP = CMD_KEEP \<and> hd (seg_cmds st r (mdh_meta s)) = CMD_KEEP then x else [])"
    by (rule tsd_one_segment [OF u(1) _ assms(6) u(4,5)])
      (use u(2,3) assms(5,7) cmds in auto)
  then show ?thesis using u(3,6) cmds by (intro exI [of _ n]) auto
qed

theorem rxe_payload_consistent_witness:
  "\<exists>n. items (ssTsdToMwr_Data ((pTcpSegmentDropper ^^ n) (rxe_segment ESTABLISHED
     (rxSar 100 100) txSar (mdh_waiting (segment 100 40 True False False) [chunk 7 1 True])))) =
     [chunk 7 1 True]"
proof -
  let ?f = "segment 100 40 True False False"
  let ?s = "mdh_waiting ?f [chunk 7 1 True]"
  have f: "rm_length (mdh_meta ?s) \<noteq> 0" "is_ack (mdh_meta ?s) \<or> is_fin_ack (mdh_meta ?s)"
    by (simp_all add: mdh_waiting_fields fsm_instance_defs is_defs)
  have k: "rx_keeps ESTABLISHED (rxSar 100 100) (mdh_meta ?s)"
    using f(2) by (simp add: mdh_waiting_fields rx_keeps_def ack_states_def ooo_default_def
        free_space_def fsm_instance_defs is_defs)
  have x: "items (ssTidToTsd_Data ?s) = [chunk 7 1 True] @ []"
    "is_segment ax_tlast [chunk 7 1 True]"
    "length (items (ssTsdToMwr_Data ?s)) + length [chunk 7 1 True] \<le> depth (ssTsdToMwr_Data ?s)"
    by (simp_all add: mdh_waiting_fields is_segment_single chunk_def)
  have "slr_hit \<lparr>slr_sessionID = fm_sessionId ?f, slr_hit = True\<rparr>" by simp
  from rxe_payload_consistent [OF mdh_waiting_fields(1) this f x, of ESTABLISHED "rxSar 100 100" txSar] k
  show ?thesis by (auto simp: mdh_waiting_fields)
qed

text \<open>A payload with any other control bits wedges the data path.  When the session lookup of such a
  segment (a SYN with data, say) succeeds, the handler asks the dropper to wait for the state
  machine, which never answers: the dropper waits for ever and its data stays, until the answer
  for the next segment arrives and is applied to this one.\<close>

theorem rxe_undecided_payload_stalls:
  assumes "rxe_waiting s rep" "slr_hit rep" "rm_length (mdh_meta s) \<noteq> 0"
    and "\<not> is_ack (mdh_meta s)" "\<not> is_fin_ack (mdh_meta s)"
    and "v = (pTcpSegmentDropper ^^ Suc n) (rxe_segment st r t s)"
  shows "tsd_fsmState v = TSD_RD_DROP_CMD2 \<and> ssTidToTsd_Data v = ssTidToTsd_Data s \<and>
     ssTsdToMwr_Data v = ssTsdToMwr_Data s \<and> ssFsmToMwr_WrCmd v =
       ssFsmToMwr_WrCmd (rxe_segment st r t s) \<and>
     items (ssFsmToMwr_WrCmd v) = items (ssFsmToMwr_WrCmd s) \<and>
     (let w = pTcpSegmentDropper (v\<lparr>ssFsmToTsd_DropCmd := Stream 16 [later]\<rparr>)
      in tsd_fsmState w = (if later = CMD_KEEP then TSD_FWD else TSD_DROP) \<and>
         ssTidToTsd_Data w = ssTidToTsd_Data s)"
proof -
  let ?u = "rxe_segment st r t s"
  note u = rxe_segment_outcome [OF assms(1-3) refl, of st r t]
  have cmds: "seg_cmds st r (mdh_meta s) = []" using assms(4,5) by (simp add: seg_cmds_def)
  then have f: "items (ssFsmToTsd_DropCmd ?u) = []" using u(5) by simp
  note v = tsd_stalls [OF u(1,4) f, of n, folded assms(6)]
  show ?thesis
    using u(2,3,6) cmds by (simp add: v pTcpSegmentDropper_def sread_Stream)
qed

theorem rxe_undecided_payload_stalls_witness:
  "tsd_fsmState ((pTcpSegmentDropper ^^ 1000) (rxe_segment CLOSED (rxSar 0 0) txSar
     (mdh_waiting (segment 100 1 False True False) [chunk 7 1 True]))) = TSD_RD_DROP_CMD2"
proof -
  let ?f = "segment 100 1 False True False"
  let ?s = "mdh_waiting ?f [chunk 7 1 True]"
  have "rm_length (mdh_meta ?s) \<noteq> 0" "\<not> is_ack (mdh_meta ?s)" "\<not> is_fin_ack (mdh_meta ?s)"
    "slr_hit \<lparr>slr_sessionID = fm_sessionId ?f, slr_hit = True\<rparr>"
    by (simp_all add: mdh_waiting_fields fsm_instance_defs is_defs)
  from rxe_undecided_payload_stalls [OF mdh_waiting_fields(1) this(4,1-3) refl, of 999 CLOSED]
  show ?thesis by simp
qed

section \<open>A closed destination port\<close>

lemma mdh_closed_event:
  assumes "\<not> rm_rst (mdh_meta s)"
  shows "items (ssMdhToEvm_Event (mdh_closed p s)) = items (ssMdhToEvm_Event s) @
     [ExtendedEvent_tuple (rstEvent_seq (seg_next (mdh_meta s) +
        of_bool (rm_syn (mdh_meta s) \<or> rm_fin (mdh_meta s)))) (switchedTuple p)]"
  using assms by (simp add: mdh_closed_def Let_def)

lemma mdh_closed_writes:
  "rm_rst (mdh_meta s) \<Longrightarrow> ssMdhToEvm_Event (mdh_closed p s) = ssMdhToEvm_Event s"
  "items (ssMdhToTsd_DropCmd (mdh_closed p s)) =
     items (ssMdhToTsd_DropCmd s) @ (if rm_length (mdh_meta s) = 0 then [] else [CMD_DROP])"
  "mdh_soSLc_SessLkpReq (mdh_closed p s) = mdh_soSLc_SessLkpReq s"
  "ssMdhToFsm_Meta (mdh_closed p s) = ssMdhToFsm_Meta s"
  "mdh_fsmState (mdh_closed p s) = mdh_fsmState s"
  by (simp_all add: mdh_closed_def Let_def)

lemma mdh_reads_closed:
  assumes "mdh_fsmState s = MDH_META" "items (mdh_siPRt_PortSts s) = False # open_sts"
    and "items (ssCsaToMdh_Meta s) = m # ms" "items (ssCsaToMdh_SockPair s) = p # ps"
  obtains u where "pMetaDataHandler s = mdh_always (mdh_closed p u)" "mdh_meta u = m"
    "ssMdhToEvm_Event u = ssMdhToEvm_Event s" "ssMdhToTsd_DropCmd u = ssMdhToTsd_DropCmd s"
    "mdh_soSLc_SessLkpReq u = mdh_soSLc_SessLkpReq s" "ssMdhToFsm_Meta u = ssMdhToFsm_Meta s"
    "mdh_fsmState u = mdh_fsmState s"
proof -
  have "sread (mdh_siPRt_PortSts s) = Some (False, Stream (depth (mdh_siPRt_PortSts s)) open_sts)"
    using assms(2) by (rule sread_cons)
  then show thesis
    by (intro that [of "s\<lparr>mdh_siPRt_PortSts := Stream (depth (mdh_siPRt_PortSts s)) open_sts,
          ssCsaToMdh_Meta := Stream (depth (ssCsaToMdh_Meta s)) ms,
          ssCsaToMdh_SockPair := Stream (depth (ssCsaToMdh_SockPair s)) ps, mdh_meta := m,
          mdh_ip4SrcAddr := sa_addr (sp_src p), mdh_tcpSrcPort := sa_port (sp_src p),
          mdh_tcpDstPort := sa_port (sp_dst p)\<rparr>"])
      (simp_all add: pMetaDataHandler_def mdh_read_meta_def assms(1)
        sread_cons [OF assms(3)] sread_cons [OF assms(4)])
qed

text \<open>A segment for a closed port is refused as RFC 793 asks.  Unless it is a reset itself, the handler
  posts a session-less reset event to the sender, whose acknowledgement number is the sequence
  number behind the segment (a SYN or FIN counts one); a payload gets the command to drop it;
  no session is looked up and the state machine never sees the segment.\<close>

theorem mdh_closed_port_reset:
  assumes "mdh_fsmState s = MDH_META" "items (mdh_siPRt_PortSts s) = False # open_sts"
    and "items (ssCsaToMdh_Meta s) = m # ms" "items (ssCsaToMdh_SockPair s) = p # ps"
    and "u = pMetaDataHandler s"
  shows "(if rm_rst m then ssMdhToEvm_Event u = ssMdhToEvm_Event s
      else \<exists>ev. items (ssMdhToEvm_Event u) =
          items (ssMdhToEvm_Event s) @ [ExtendedEvent_tuple ev (switchedTuple p)] \<and>
        ev_type ev = RST_EVENT \<and> \<not> hasSessionID ev \<and>
        getAckNumb ev = rm_seqNumb m + ucast (rm_length m) + of_bool (rm_syn m \<or> rm_fin m)) \<and>
     items (ssMdhToTsd_DropCmd u) =
       items (ssMdhToTsd_DropCmd s) @ (if rm_length m = 0 then [] else [CMD_DROP]) \<and>
     mdh_soSLc_SessLkpReq u = mdh_soSLc_SessLkpReq s \<and> ssMdhToFsm_Meta u = ssMdhToFsm_Meta s \<and>
     mdh_fsmState u = MDH_META"
proof -
  obtain v where v: "u = mdh_always (mdh_closed p v)" "mdh_meta v = m"
    "ssMdhToEvm_Event v = ssMdhToEvm_Event s" "ssMdhToTsd_DropCmd v = ssMdhToTsd_DropCmd s"
    "mdh_soSLc_SessLkpReq v = mdh_soSLc_SessLkpReq s" "ssMdhToFsm_Meta v = ssMdhToFsm_Meta s"
    "mdh_fsmState v = mdh_fsmState s"
    using mdh_reads_closed [OF assms(1-4)] assms(5) by metis
  have ev: "ev_type (rstEvent_seq q) = RST_EVENT \<and> \<not> hasSessionID (rstEvent_seq q) \<and>
      getAckNumb (rstEvent_seq q) = q" for q
    by (simp add: rstEvent_seq_def getAckNumb_rstEvent hasSessionID_rstEvent) (simp add: rstEvent_def)
  show ?thesis
    using v assms(1) mdh_closed_event [of v p] ev by (auto simp: mdh_closed_writes seg_next_def)
qed

definition peer_pair :: SocketPair where
  "peer_pair = \<lparr>sp_src = \<lparr>sa_addr = 0x0A0C8001, sa_port = 40000\<rparr>,
     sp_dst = \<lparr>sa_addr = 0x0A0C8002, sa_port = 8803\<rparr>\<rparr>"

theorem mdh_closed_port_reset_witness:
  "\<exists>ev. items (ssMdhToEvm_Event (pMetaDataHandler (mdh_reset\<lparr>mdh_siPRt_PortSts := Stream 4 [False],
     ssCsaToMdh_Meta := Stream 2 [fm_meta (segment 100 0 False True False)],
     ssCsaToMdh_SockPair := Stream 2 [peer_pair]\<rparr>))) = [ExtendedEvent_tuple ev (switchedTuple peer_pair)] \<and>
     getAckNumb ev = 101"
proof -
  let ?s = "mdh_reset\<lparr>mdh_siPRt_PortSts := Stream 4 [False],
     ssCsaToMdh_Meta := Stream 2 [fm_meta (segment 100 0 False True False)],
     ssCsaToMdh_SockPair := Stream 2 [peer_pair]\<rparr>"
  have "mdh_fsmState ?s = MDH_META" "items (mdh_siPRt_PortSts ?s) = [False]"
    "items (ssCsaToMdh_Meta ?s) = [fm_meta (segment 100 0 False True False)]"
    "items (ssCsaToMdh_SockPair ?s) = [peer_pair]" "items (ssMdhToEvm_Event ?s) = []"
    by (simp_all add: mdh_instance_defs)
  from mdh_closed_port_reset [OF this(1-4) refl] this(5) show ?thesis
    by (auto simp: fsm_instance_defs)
qed

section \<open>Telling the application that the peer closes\<close>

lemma fsm_fin_ack_close:
  assumes "rsr_rcvd r = rm_seqNumb (fsm_meta s)" "rm_length (fsm_meta s) = 0"
  shows "items (ssFsmToRan_Notif (fsm_fin_ack ESTABLISHED r t s)) = items (ssFsmToRan_Notif s) @
     [TcpAppNotif_st (fsm_sid s) 0 (fm_ip4SrcAddr (fsm_Meta s)) (fm_tcpSrcPort (fsm_Meta s))
        (fm_tcpDstPort (fsm_Meta s)) CLOSED]"
  using assms
  by (simp add: fsm_fin_ack_def Let_def put_timer_def put_txSar_def put_rxSar_def put_clearProbe_def
      put_notif_closed_def)

text \<open>The application is not told that the peer closes the connection.  For a FIN without payload on an
  established connection the state machine posts the notification that the connection is closed,
  with length 0, and moves to LAST-ACK; the notifier takes the notification and forwards it
  neither to its queue nor to the application, because it discards those of length 0.\<close>

theorem rxe_close_not_notified:
  assumes "fsm_serving s" "fsm_replies junk s = (ESTABLISHED, r, t)" "is_fin_ack (fsm_meta s)"
    and "rm_length (fsm_meta s) = 0" "rsr_rcvd r = rm_seqNumb (fsm_meta s)"
    and "items (ssFsmToRan_Notif s) = []" "\<not> ran_doubleAccessFlag s"
    and "items (ran_siMEM_WrSts s) = []" "\<not> sfull (ssRxNotifFifo s)"
    and "u = pFiniteStateMachine junk s" "v = pRxAppNotifier u"
  shows "(\<exists>n. items (ssFsmToRan_Notif u) = [n] \<and> an_sessionID n = fsm_sid s \<and>
       an_tcpState n = CLOSED \<and> an_tcpDatLen n = 0) \<and>
     items (fsm_soSTt_StateQry u) = items (fsm_soSTt_StateQry s) @ [StateQuery_wr (fsm_sid s) LAST_ACK] \<and>
     items (ssFsmToRan_Notif v) = [] \<and> items (ssRxNotifFifo v) = items (ssRxNotifFifo s) \<and>
     ran_soRAi_RxNotif v = ran_soRAi_RxNotif s"
proof -
  let ?n = "TcpAppNotif_st (fsm_sid s) 0 (fm_ip4SrcAddr (fsm_Meta s)) (fm_tcpSrcPort (fsm_Meta s))
        (fm_tcpDstPort (fsm_Meta s)) CLOSED"
  note serve = pFiniteStateMachine_serves [OF assms(1,2)]
  have fin: "fsm_serve ESTABLISHED r t (fsm_taken s) = fsm_fin_ack ESTABLISHED r t (fsm_taken s)"
    using assms(3) by (simp add: fsm_serve_def is_defs)
  have n: "items (ssFsmToRan_Notif u) = [?n]"
    using assms(4-6) by (simp add: assms(10) serve fin fsm_fin_ack_close)
  have q: "items (fsm_soSTt_StateQry u) =
      items (fsm_soSTt_StateQry s) @ [StateQuery_wr (fsm_sid s) LAST_ACK]"
    using assms(3,5)
    by (simp add: assms(10) serve fsm_serve_state rx_next_def is_defs fin_next_def)
  have "path_view u = path_view s" by (simp add: assms(10) serve)
  then have f: "\<not> ran_doubleAccessFlag u" "items (ran_siMEM_WrSts u) = []" "\<not> sfull (ssRxNotifFifo u)"
    "items (ssRxNotifFifo u) = items (ssRxNotifFifo s)" "ran_soRAi_RxNotif u = ran_soRAi_RxNotif s"
    using assms(7-9) by (simp_all add: path_view_def)
  show ?thesis
    using ran_takes [OF f(1,2) n f(3)] f(4,5) n q by (simp add: assms(11) TcpAppNotif_st_def)
qed

theorem rxe_close_not_notified_witness:
  "ran_soRAi_RxNotif (pRxAppNotifier (pFiniteStateMachine txSar
     (fsm_waiting (segment 100 0 True False True) ESTABLISHED (rxSar 100 100) txSar))) = Stream 4 []"
proof -
  let ?f = "segment 100 0 True False True"
  let ?r = "rxSar 100 100"
  let ?s = "fsm_waiting ?f ESTABLISHED ?r txSar"
  have s: "is_fin_ack (fsm_meta ?s)" "rm_length (fsm_meta ?s) = 0"
    "rsr_rcvd ?r = rm_seqNumb (fsm_meta ?s)" "items (ssFsmToRan_Notif ?s) = []"
    "\<not> ran_doubleAccessFlag ?s" "items (ran_siMEM_WrSts ?s) = []" "\<not> sfull (ssRxNotifFifo ?s)"
    "ran_soRAi_RxNotif ?s = Stream 4 []"
    by (simp_all add: fsm_instance_defs is_defs sfull_def)
  from rxe_close_not_notified [OF fsm_waiting_serving fsm_waiting_replies s(1-7) refl refl] s(8)
  show ?thesis by simp
qed

end
