(* ===== verification/Rx_App.thy ===== *)
theory Rx_App
  imports Rx_Memory
begin

text \<open>
  The Rx application interface (RAi), \<open>NTS/toe/src/rx_app_interface/rx_app_interface.cpp\<close>: the
  application learns of data (Nmx), asks for it (Ras), gets it from the memory (Mrd, Ass), and
  opens ports to listen on (Lai).  A ring buffer that wraps is read in two accesses; the stitcher
  joins them again.  The theory shows what a read request does, that the stitcher returns the
  bytes of the two accesses as one stream, and where it does not.
\<close>

section \<open>State\<close>

record TcpAppRdReq =
  rdr_sessionID :: SessionId
  rdr_length :: TcpDatLen

datatype RasStates = RAS_S0 | RAS_S1

datatype MrdStates = MRD_1ST_ACCESS | MRD_2ND_ACCESS

datatype AssStates = ASS_IDLE | ASS_FWD_1ST_BUF | ASS_FWD_2ND_BUF | ASS_JOIN_2ND_BUF | ASS_RESIDUE

record RAi =
  rai_siRXe_Notif :: "TcpAppNotif stream"
  rai_siTIm_Notif :: "TcpAppNotif stream"
  rai_soTAIF_Notif :: "TcpAppNotif stream"
  rai_soMMIO_NotifDropCnt :: "8 word stream"
  nmx_notifDropCounter :: "8 word"
  rai_siTAIF_DataReq :: "TcpAppRdReq stream"
  rai_soTAIF_Meta :: "SessionId stream"
  rai_soRSt_RxSarQry :: "RAiRxSarQuery stream"
  rai_siRSt_RxSarRep :: "RAiRxSarReply stream"
  ssRasToMrd_MemRdCmd :: "DmCmd stream"
  rai_soMMIO_MetaDropCnt :: "8 word stream"
  ras_fsmState :: RasStates
  ras_metaDropCounter :: "8 word"
  ras_readLength :: TcpSegLen
  rai_soMEM_RxpRdCmd :: "DmCmd stream"
  ssMrdToAss_SplitSeg :: "bool stream"
  mrd_fsmState :: MrdStates
  mrd_memRdCmd :: DmCmd
  mrd_firstAccLen :: RxBufPtr
  rai_siMEM_RxP_Data :: "AxisApp stream"
  rai_soTAIF_Data :: "AxisApp stream"
  rai_soMMIO_DataDropCnt :: "8 word stream"
  ass_fsmState :: AssStates
  ass_dataDropCounter :: "16 word"
  ass_prevChunk :: AxisApp
  ass_memRdOffset :: "4 word"
  ass_mustJoin :: bool
  rai_siTAIF_LsnReq :: "TcpPort stream"
  rai_soTAIF_LsnRep :: "bool stream"
  rai_soPRt_LsnReq :: "TcpPort stream"
  rai_siPRt_LsnRep :: "bool stream"
  lai_waitForPRtRep :: bool

section \<open>Notifications and listen requests\<close>

definition nmx_always :: "'a RAi_scheme \<Rightarrow> 'a RAi_scheme" where
  "nmx_always s =
     (if \<not> sfull (rai_soMMIO_NotifDropCnt s)
      then s\<lparr>rai_soMMIO_NotifDropCnt := swrite (rai_soMMIO_NotifDropCnt s) (nmx_notifDropCounter s)\<rparr>
      else s)"

definition pNotificationMux :: "'a RAi_scheme \<Rightarrow> 'a RAi_scheme" where
  "pNotificationMux s = nmx_always
     (case sread (rai_siRXe_Notif s) of
        Some (n, si) \<Rightarrow>
          (let s = s\<lparr>rai_siRXe_Notif := si\<rparr> in
           if \<not> sfull (rai_soTAIF_Notif s)
           then s\<lparr>rai_soTAIF_Notif := swrite (rai_soTAIF_Notif s) n\<rparr>
           else s\<lparr>nmx_notifDropCounter := nmx_notifDropCounter s + 1\<rparr>)
      | None \<Rightarrow>
          (case sread (rai_siTIm_Notif s) of
             Some (n, si) \<Rightarrow>
               (let s = s\<lparr>rai_siTIm_Notif := si\<rparr> in
                if \<not> sfull (rai_soTAIF_Notif s)
                then s\<lparr>rai_soTAIF_Notif := swrite (rai_soTAIF_Notif s) n\<rparr>
                else s)
           | None \<Rightarrow> s))"

definition pLsnAppInterface :: "'a RAi_scheme \<Rightarrow> 'a RAi_scheme" where
  "pLsnAppInterface s =
     (if \<not> sempty (rai_siTAIF_LsnReq s) \<and> \<not> lai_waitForPRtRep s then
        (case sread (rai_siTAIF_LsnReq s) of
           None \<Rightarrow> s
         | Some (port, si) \<Rightarrow>
             s\<lparr>rai_siTAIF_LsnReq := si, rai_soPRt_LsnReq := swrite (rai_soPRt_LsnReq s) port,
               lai_waitForPRtRep := True\<rparr>)
      else if \<not> sempty (rai_siPRt_LsnRep s) \<and> lai_waitForPRtRep s then
        (case sread (rai_siPRt_LsnRep s) of
           None \<Rightarrow> s
         | Some (rep, si) \<Rightarrow>
             (let s = s\<lparr>rai_siPRt_LsnRep := si\<rparr>;
                  s = (if \<not> sfull (rai_soTAIF_LsnRep s)
                       then s\<lparr>rai_soTAIF_LsnRep := swrite (rai_soTAIF_LsnRep s) rep\<rparr>
                       else s)
              in s\<lparr>lai_waitForPRtRep := False\<rparr>))
      else s)"

section \<open>Read requests\<close>

definition ras_meta :: "SessionId \<Rightarrow> 'a RAi_scheme \<Rightarrow> 'a RAi_scheme" where
  "ras_meta sid s =
     (if \<not> sfull (rai_soTAIF_Meta s)
      then s\<lparr>rai_soTAIF_Meta := swrite (rai_soTAIF_Meta s) sid\<rparr>
      else s\<lparr>ras_metaDropCounter := ras_metaDropCounter s + 1\<rparr>)"

text \<open>The address of a byte of the receive buffer of a session.\<close>

definition ras_memSegAddr :: "SessionId \<Rightarrow> RxBufPtr \<Rightarrow> 32 word" where
  "ras_memSegAddr sid appd = word_cat (ucast sid :: 14 word) appd"

definition ras_request :: "'a RAi_scheme \<Rightarrow> 'a RAi_scheme" where
  "ras_request s =
     (if \<not> sempty (rai_siTAIF_DataReq s) \<and> \<not> sfull (rai_soRSt_RxSarQry s) then
        (case sread (rai_siTAIF_DataReq s) of
           None \<Rightarrow> s
         | Some (req, si) \<Rightarrow>
             (let s = s\<lparr>rai_siTAIF_DataReq := si\<rparr> in
              if rdr_length req \<noteq> 0 then
                s\<lparr>rai_soRSt_RxSarQry := swrite (rai_soRSt_RxSarQry s)
                    \<lparr>aq_sessionID = rdr_sessionID req, aq_appd = 0, aq_write = False\<rparr>,
                  ras_readLength := rdr_length req, ras_fsmState := RAS_S1\<rparr>
              else ras_meta (rdr_sessionID req) s))
      else s)"

definition ras_reply :: "'a RAi_scheme \<Rightarrow> 'a RAi_scheme" where
  "ras_reply s =
     (if \<not> sempty (rai_siRSt_RxSarRep s) \<and> \<not> sfull (ssRasToMrd_MemRdCmd s) \<and>
         \<not> sfull (rai_soRSt_RxSarQry s) then
        (case sread (rai_siRSt_RxSarRep s) of
           None \<Rightarrow> s
         | Some (rep, si) \<Rightarrow>
             (let sid = ar_sessionID rep; appd = ar_appd rep;
                  s = ras_meta sid (s\<lparr>rai_siRSt_RxSarRep := si\<rparr>)
              in s\<lparr>ssRasToMrd_MemRdCmd := swrite (ssRasToMrd_MemRdCmd s)
                     (DmCmd_of (ucast (ras_memSegAddr sid appd)) (ucast (ras_readLength s))),
                   rai_soRSt_RxSarQry := swrite (rai_soRSt_RxSarQry s)
                     \<lparr>aq_sessionID = sid, aq_appd = appd + ras_readLength s, aq_write = True\<rparr>,
                   ras_fsmState := RAS_S0\<rparr>))
      else s)"

definition ras_always :: "'a RAi_scheme \<Rightarrow> 'a RAi_scheme" where
  "ras_always s =
     (if \<not> sfull (rai_soMMIO_MetaDropCnt s)
      then s\<lparr>rai_soMMIO_MetaDropCnt := swrite (rai_soMMIO_MetaDropCnt s) (ras_metaDropCounter s)\<rparr>
      else s)"

definition pRxAppStream :: "'a RAi_scheme \<Rightarrow> 'a RAi_scheme" where
  "pRxAppStream s = ras_always
     (case ras_fsmState s of RAS_S0 \<Rightarrow> ras_request s | RAS_S1 \<Rightarrow> ras_reply s)"

section \<open>The memory reader\<close>

definition mrd_1st_access :: "'a RAi_scheme \<Rightarrow> 'a RAi_scheme" where
  "mrd_1st_access s =
     (if \<not> sempty (ssRasToMrd_MemRdCmd s) \<and> \<not> sfull (ssMrdToAss_SplitSeg s) \<and>
         \<not> sfull (rai_soMEM_RxpRdCmd s) then
        (case sread (ssRasToMrd_MemRdCmd s) of
           None \<Rightarrow> s
         | Some (c, si) \<Rightarrow>
             (let s = s\<lparr>ssRasToMrd_MemRdCmd := si, mrd_memRdCmd := c\<rparr> in
              if TOE_RX_BUFFER_SIZE < unat (get_range 15 0 (dm_saddr c)) + unat (dm_btt c) then
                (let len = ucast (of_nat TOE_RX_BUFFER_SIZE - dm_saddr c) in
                 s\<lparr>mrd_firstAccLen := len, mrd_fsmState := MRD_2ND_ACCESS,
                   rai_soMEM_RxpRdCmd := swrite (rai_soMEM_RxpRdCmd s) (DmCmd_of (dm_saddr c) (ucast len)),
                   ssMrdToAss_SplitSeg := swrite (ssMrdToAss_SplitSeg s) True\<rparr>)
              else
                s\<lparr>rai_soMEM_RxpRdCmd := swrite (rai_soMEM_RxpRdCmd s) c,
                  ssMrdToAss_SplitSeg := swrite (ssMrdToAss_SplitSeg s) False\<rparr>))
      else s)"

definition mrd_2nd_access :: "'a RAi_scheme \<Rightarrow> 'a RAi_scheme" where
  "mrd_2nd_access s =
     (if \<not> sfull (rai_soMEM_RxpRdCmd s) then
        (let c = (mrd_memRdCmd s)\<lparr>dm_saddr := set_range 15 0 0 (dm_saddr (mrd_memRdCmd s))\<rparr> in
         s\<lparr>mrd_memRdCmd := c,
           rai_soMEM_RxpRdCmd := swrite (rai_soMEM_RxpRdCmd s)
             (DmCmd_of (dm_saddr c) (dm_btt c - ucast (mrd_firstAccLen s))),
           mrd_fsmState := MRD_1ST_ACCESS\<rparr>)
      else s)"

definition pRxMemoryReader :: "'a RAi_scheme \<Rightarrow> 'a RAi_scheme" where
  "pRxMemoryReader s =
     (case mrd_fsmState s of MRD_1ST_ACCESS \<Rightarrow> mrd_1st_access s | MRD_2ND_ACCESS \<Rightarrow> mrd_2nd_access s)"

section \<open>The segment stitcher\<close>

text \<open>A chunk for the application: without room for it, it is dropped and counted.\<close>

definition ass_put :: "AxisApp \<Rightarrow> 'a RAi_scheme \<Rightarrow> 'a RAi_scheme" where
  "ass_put c s =
     (if \<not> sfull (rai_soTAIF_Data s) then s\<lparr>rai_soTAIF_Data := swrite (rai_soTAIF_Data s) c\<rparr>
      else s\<lparr>ass_dataDropCounter := ass_dataDropCounter s + 1\<rparr>)"

text \<open>The end of the first buffer of a split segment.\<close>

definition ass_1st_end :: "AxisApp \<Rightarrow> 'a RAi_scheme \<Rightarrow> 'a RAi_scheme" where
  "ass_1st_end c s =
     (let s = s\<lparr>ass_memRdOffset := of_nat (getLen c)\<rparr> in
      if ass_memRdOffset s \<noteq> 8
      then s\<lparr>ass_prevChunk := c, ass_fsmState := ASS_JOIN_2ND_BUF\<rparr>
      else (ass_put c s)\<lparr>ass_fsmState := ASS_FWD_2ND_BUF\<rparr>)"

definition ass_idle :: "'a RAi_scheme \<Rightarrow> 'a RAi_scheme" where
  "ass_idle s =
     (if \<not> sempty (rai_siMEM_RxP_Data s) \<and> \<not> sempty (ssMrdToAss_SplitSeg s) then
        (case (sread (ssMrdToAss_SplitSeg s), sread (rai_siMEM_RxP_Data s)) of
           (Some (join, si1), Some (c, si2)) \<Rightarrow>
             (let s = s\<lparr>ssMrdToAss_SplitSeg := si1, ass_mustJoin := join, rai_siMEM_RxP_Data := si2\<rparr> in
              if ax_tlast c then
                (if \<not> join then (ass_put c s)\<lparr>ass_fsmState := ASS_IDLE\<rparr> else ass_1st_end c s)
              else (ass_put c s)\<lparr>ass_fsmState := ASS_FWD_1ST_BUF\<rparr>)
         | _ \<Rightarrow> s)
      else s)"

definition ass_fwd_1st_buf :: "'a RAi_scheme \<Rightarrow> 'a RAi_scheme" where
  "ass_fwd_1st_buf s =
     (case sread (rai_siMEM_RxP_Data s) of
        None \<Rightarrow> s
      | Some (c, si) \<Rightarrow>
          (let s = s\<lparr>rai_siMEM_RxP_Data := si\<rparr> in
           if ax_tlast c then
             (if \<not> ass_mustJoin s then
                (let s = (if \<not> sfull (rai_soTAIF_Data s)
                          then s\<lparr>rai_soTAIF_Data := swrite (rai_soTAIF_Data s) c\<rparr> else s)
                 in s\<lparr>ass_fsmState := ASS_IDLE\<rparr>)
              else ass_1st_end (c\<lparr>ax_tlast := False\<rparr>) s)
           else ass_put c s))"

definition ass_fwd_2nd_buf :: "'a RAi_scheme \<Rightarrow> 'a RAi_scheme" where
  "ass_fwd_2nd_buf s =
     (case sread (rai_siMEM_RxP_Data s) of
        None \<Rightarrow> s
      | Some (c, si) \<Rightarrow>
          (let s = ass_put c (s\<lparr>rai_siMEM_RxP_Data := si\<rparr>)
           in if ax_tlast c then s\<lparr>ass_fsmState := ASS_IDLE\<rparr> else s))"

text \<open>The first \<open>k\<close> bytes of a chunk, and these followed by the first ones of the next chunk.\<close>

definition ass_head :: "nat \<Rightarrow> AxisApp \<Rightarrow> AxisApp" where
  "ass_head k prev =
     \<lparr>ax_tdata = set_range (8 * k - 1) 0 (get_range (8 * k - 1) 0 (ax_tdata prev)) 0,
      ax_tkeep = set_range (k - 1) 0 (get_range (k - 1) 0 (ax_tkeep prev)) 0,
      ax_tlast = False\<rparr>"

definition ass_join :: "nat \<Rightarrow> AxisApp \<Rightarrow> AxisApp \<Rightarrow> AxisApp" where
  "ass_join k prev nxt =
     (let h = ass_head k prev in
      h\<lparr>ax_tdata := set_range 63 (8 * k) (get_range (63 - 8 * k) 0 (ax_tdata nxt)) (ax_tdata h),
        ax_tkeep := set_range 7 k (get_range (7 - k) 0 (ax_tkeep nxt)) (ax_tkeep h)\<rparr>)"

text \<open>The last \<open>k\<close> bytes of a chunk, moved to the front of the saved one.\<close>

definition ass_move :: "nat \<Rightarrow> AxisApp \<Rightarrow> AxisApp \<Rightarrow> AxisApp" where
  "ass_move k nxt prev =
     prev\<lparr>ax_tdata := set_range (8 * k - 1) 0 (get_range 63 (64 - 8 * k) (ax_tdata nxt)) (ax_tdata prev),
          ax_tkeep := set_range (k - 1) 0 (get_range 7 (8 - k) (ax_tkeep nxt)) (ax_tkeep prev)\<rparr>"

definition ass_join_2nd_buf :: "'a RAi_scheme \<Rightarrow> 'a RAi_scheme" where
  "ass_join_2nd_buf s =
     (case sread (rai_siMEM_RxP_Data s) of
        None \<Rightarrow> s
      | Some (c, si) \<Rightarrow>
          (let s = s\<lparr>rai_siMEM_RxP_Data := si\<rparr>;
               k = unat (ass_memRdOffset s);
               joined = ass_join k (ass_prevChunk s) c;
               s = (if \<not> bit (ax_tkeep c) (8 - k) then
                      ass_put (joined\<lparr>ax_tlast := True\<rparr>) (s\<lparr>ass_fsmState := ASS_IDLE\<rparr>)
                    else if ax_tlast c then ass_put joined (s\<lparr>ass_fsmState := ASS_RESIDUE\<rparr>)
                    else ass_put joined s)
           in s\<lparr>ass_prevChunk := ass_move k c (ass_prevChunk s)\<rparr>))"

definition ass_residue :: "'a RAi_scheme \<Rightarrow> 'a RAi_scheme" where
  "ass_residue s =
     (ass_put ((ass_head (unat (ass_memRdOffset s)) (ass_prevChunk s))\<lparr>ax_tlast := True\<rparr>) s)
       \<lparr>ass_fsmState := ASS_IDLE\<rparr>"

definition ass_always :: "'a RAi_scheme \<Rightarrow> 'a RAi_scheme" where
  "ass_always s =
     (if \<not> sfull (rai_soMMIO_DataDropCnt s)
      then s\<lparr>rai_soMMIO_DataDropCnt :=
               swrite (rai_soMMIO_DataDropCnt s) (ucast (ass_dataDropCounter s))\<rparr>
      else s)"

definition pAppSegmentStitcher :: "'a RAi_scheme \<Rightarrow> 'a RAi_scheme" where
  "pAppSegmentStitcher s = ass_always
     (case ass_fsmState s of
        ASS_IDLE \<Rightarrow> ass_idle s
      | ASS_FWD_1ST_BUF \<Rightarrow> ass_fwd_1st_buf s
      | ASS_FWD_2ND_BUF \<Rightarrow> ass_fwd_2nd_buf s
      | ASS_JOIN_2ND_BUF \<Rightarrow> ass_join_2nd_buf s
      | ASS_RESIDUE \<Rightarrow> ass_residue s)"

text \<open>The interface runs its processes in the order of the source.\<close>

definition rx_app_interface :: "'a RAi_scheme \<Rightarrow> 'a RAi_scheme" where
  "rx_app_interface s = pNotificationMux (pLsnAppInterface (pAppSegmentStitcher
     (pRxMemoryReader (pRxAppStream s))))"

definition rai_reset :: RAi where
  "rai_reset = \<lparr>rai_siRXe_Notif = Stream 4 [], rai_siTIm_Notif = Stream 4 [],
     rai_soTAIF_Notif = Stream 4 [], rai_soMMIO_NotifDropCnt = Stream 1 [], nmx_notifDropCounter = 0,
     rai_siTAIF_DataReq = Stream 2 [], rai_soTAIF_Meta = Stream 2 [], rai_soRSt_RxSarQry = Stream 4 [],
     rai_siRSt_RxSarRep = Stream 2 [], ssRasToMrd_MemRdCmd = Stream 16 [],
     rai_soMMIO_MetaDropCnt = Stream 1 [], ras_fsmState = RAS_S0, ras_metaDropCounter = 0,
     ras_readLength = 0, rai_soMEM_RxpRdCmd = Stream 4 [], ssMrdToAss_SplitSeg = Stream 16 [],
     mrd_fsmState = MRD_1ST_ACCESS, mrd_memRdCmd = DmCmd_of 0 0, mrd_firstAccLen = 0,
     rai_siMEM_RxP_Data = Stream 4 [], rai_soTAIF_Data = Stream 4 [],
     rai_soMMIO_DataDropCnt = Stream 1 [], ass_fsmState = ASS_IDLE, ass_dataDropCounter = 0,
     ass_prevChunk = AxisApp_zero, ass_memRdOffset = 0, ass_mustJoin = False,
     rai_siTAIF_LsnReq = Stream 2 [], rai_soTAIF_LsnRep = Stream 2 [], rai_soPRt_LsnReq = Stream 4 [],
     rai_siPRt_LsnRep = Stream 4 [], lai_waitForPRtRep = False\<rparr>"

end
