(* ===== verification/Stitcher.thy ===== *)
theory Stitcher
  imports Rx_App
begin

text \<open>
  Joining the two accesses of a split read.  The Rx application interface and the Tx engine each have a
  process that does it (\<open>pAppSegmentStitcher\<close>, \<open>pTcpSegStitcher\<close>); the locale states what their states
  have to do with one chunk, and shows once that the bytes of both accesses come out as one stream.
\<close>

section \<open>Joining chunks\<close>

lemma bit_ass_head_data:
  "1 \<le> k \<Longrightarrow> k \<le> 7 \<Longrightarrow> i < 64 \<Longrightarrow> bit (ax_tdata (ass_head k c)) i \<longleftrightarrow> i < 8 * k \<and> bit (ax_tdata c) i"
  by (auto simp: ass_head_def bit_set_range bit_get_range)

lemma bit_ass_head_keep:
  "1 \<le> k \<Longrightarrow> k \<le> 7 \<Longrightarrow> i < 8 \<Longrightarrow> bit (ax_tkeep (ass_head k c)) i \<longleftrightarrow> i < k \<and> bit (ax_tkeep c) i"
  by (auto simp: ass_head_def bit_set_range bit_get_range)

text \<open>What the stitcher saves of a chunk is what the memory writer takes from its end.\<close>

lemma ass_head_move:
  assumes "1 \<le> k" "k \<le> 7"
  shows "ass_head k (ass_move k c p) = mwr_tail k c"
proof -
  have "ax_tdata (ass_head k (ass_move k c p)) = ax_tdata (mwr_tail k c)"
    using assms by (intro bit_word_eqI)
      (auto simp: bit_ass_head_data bit_mwr_tail_data ass_move_def bit_set_range bit_get_range)
  moreover have "ax_tkeep (ass_head k (ass_move k c p)) = ax_tkeep (mwr_tail k c)"
    using assms by (intro bit_word_eqI)
      (auto simp: bit_ass_head_keep bit_mwr_tail_keep ass_move_def bit_set_range bit_get_range)
  ultimately show ?thesis by (simp add: ass_head_def mwr_tail_def)
qed

lemma ass_join_eq: "ass_head k p = mwr_tail k c \<Longrightarrow> ass_join k p d = mwr_join k c d"
  by (simp add: ass_join_def mwr_join_def Let_def)

text \<open>A chunk with \<open>k\<close> bytes, seen as the end of a full chunk.\<close>

lemma ass_head_short:
  assumes "chunk_ok p" "getLen p = k" "k \<le> 7"
  obtains c where "getLen c = 8" "mwr_tail k c = ass_head k p" "drop (8 - k) (chunk_bytes c) = chunk_bytes p"
proof -
  let ?c = "\<lparr>ax_tdata = push_bit (64 - 8 * k) (ax_tdata p), ax_tkeep = mask 8, ax_tlast = False\<rparr>"
  have k: "1 \<le> k" "ax_tkeep p = mask k" using chunk_ok_keep [OF assms(1)] assms(2) by auto
  have len: "getLen ?c = 8" by (simp add: getLen_def keepToLen_mask)
  have "ax_tdata (mwr_tail k ?c) = ax_tdata (ass_head k p)"
    using k(1) assms(3) by (intro bit_word_eqI)
      (auto simp: bit_mwr_tail_data bit_ass_head_data bit_push_bit_iff)
  moreover have "ax_tkeep (mwr_tail k ?c) = ax_tkeep (ass_head k p)"
    using k assms(3) by (intro bit_word_eqI)
      (auto simp: bit_mwr_tail_keep bit_ass_head_keep bit_mask_iff)
  ultimately have tail: "mwr_tail k ?c = ass_head k p" by (simp add: mwr_tail_def ass_head_def)
  have "nth_byte (push_bit (64 - 8 * k) (ax_tdata p)) (8 - k + i) = nth_byte (ax_tdata p) i"
    if "i < k" for i
    using that assms(3)
    by (intro bit_word_eqI) (auto simp: bit_nth_byte bit_push_bit_iff algebra_simps)
  then have "drop (8 - k) (chunk_bytes ?c) = chunk_bytes p"
    using k(1) assms(2,3) by (intro nth_equalityI) (auto simp: len chunk_bytes_def)
  with len tail show thesis by (rule that)
qed

lemma bit_keep: "chunk_ok c \<Longrightarrow> i < 8 \<Longrightarrow> bit (ax_tkeep c) i \<longleftrightarrow> i < getLen c"
  using chunk_ok_keep [of c] by (auto simp: bit_mask_iff)

lemma of_nat_len_8: "n \<le> 8 \<Longrightarrow> (of_nat n :: 4 word) = 8 \<longleftrightarrow> n = 8"
  using upto_8 [of n] by (cases "n = 0") auto

lemma unat_of_nat_len: "n \<le> 8 \<Longrightarrow> unat (of_nat n :: 4 word) = n"
  by (simp add: unat_of_nat take_bit_nat_eq_self)

section \<open>The interface of a stitcher\<close>

text \<open>Its states: \<open>start\<close> takes the first chunk of a read, \<open>fwd1\<close> the others of the first access, \<open>fwd2\<close>
  those of the second if nothing is to be shifted, \<open>joining\<close> otherwise; \<open>residue\<close> sends the last bytes.
  \<open>takes s t cs fs xs\<close>: the step from \<open>s\<close> to \<open>t\<close> leaves the input \<open>cs\<close> and the flags \<open>fs\<close> and sends \<open>xs\<close>.\<close>

locale stitcher =
  fixes tick :: "'s \<Rightarrow> 's"
    and inp :: "'s \<Rightarrow> AxisApp list"
    and outp :: "'s \<Rightarrow> AxisApp list"
    and room :: "'s \<Rightarrow> nat"
    and flags :: "'s \<Rightarrow> bool list"
    and start :: "'s \<Rightarrow> bool"
    and fwd1 :: "'s \<Rightarrow> bool"
    and fwd2 :: "'s \<Rightarrow> bool"
    and joining :: "'s \<Rightarrow> bool"
    and residue :: "'s \<Rightarrow> bool"
    and over :: "'s \<Rightarrow> bool"
    and must :: "'s \<Rightarrow> bool"
    and off :: "'s \<Rightarrow> nat"
    and prev :: "'s \<Rightarrow> AxisApp"
  assumes start_pass: "start s \<Longrightarrow> flags s = m # fs \<Longrightarrow> inp s = c # cs \<Longrightarrow> \<not> ax_tlast c \<or> \<not> m \<Longrightarrow>
      length (outp s) < room s \<Longrightarrow> inp (tick s) = cs \<and> outp (tick s) = outp s @ [c] \<and>
      room (tick s) = room s \<and> flags (tick s) = fs \<and>
      (if ax_tlast c then over (tick s) else fwd1 (tick s) \<and> must (tick s) = m)"
    and start_full: "start s \<Longrightarrow> flags s = True # fs \<Longrightarrow> inp s = c # cs \<Longrightarrow> ax_tlast c \<Longrightarrow>
      getLen c = 8 \<Longrightarrow> length (outp s) < room s \<Longrightarrow> inp (tick s) = cs \<and> outp (tick s) = outp s @ [c] \<and>
      room (tick s) = room s \<and> flags (tick s) = fs \<and> fwd2 (tick s)"
    and start_short: "start s \<Longrightarrow> flags s = True # fs \<Longrightarrow> inp s = c # cs \<Longrightarrow> ax_tlast c \<Longrightarrow>
      getLen c < 8 \<Longrightarrow> length (outp s) < room s \<Longrightarrow> inp (tick s) = cs \<and> outp (tick s) = outp s \<and>
      room (tick s) = room s \<and> flags (tick s) = fs \<and> joining (tick s) \<and> off (tick s) = getLen c \<and>
      ax_tkeep (prev (tick s)) = ax_tkeep c \<and> ax_tdata (prev (tick s)) = ax_tdata c"
    and fwd1_pass: "fwd1 s \<Longrightarrow> inp s = c # cs \<Longrightarrow> \<not> ax_tlast c \<or> \<not> must s \<Longrightarrow> length (outp s) < room s \<Longrightarrow>
      inp (tick s) = cs \<and> outp (tick s) = outp s @ [c] \<and> room (tick s) = room s \<and> flags (tick s) = flags s \<and>
      (if ax_tlast c then over (tick s) else fwd1 (tick s) \<and> must (tick s) = must s)"
    and fwd1_full: "fwd1 s \<Longrightarrow> must s \<Longrightarrow> inp s = c # cs \<Longrightarrow> ax_tlast c \<Longrightarrow> getLen c = 8 \<Longrightarrow>
      length (outp s) < room s \<Longrightarrow> inp (tick s) = cs \<and> outp (tick s) = outp s @ [c\<lparr>ax_tlast := False\<rparr>] \<and>
      room (tick s) = room s \<and> flags (tick s) = flags s \<and> fwd2 (tick s)"
    and fwd1_short: "fwd1 s \<Longrightarrow> must s \<Longrightarrow> inp s = c # cs \<Longrightarrow> ax_tlast c \<Longrightarrow> getLen c < 8 \<Longrightarrow>
      length (outp s) < room s \<Longrightarrow> inp (tick s) = cs \<and> outp (tick s) = outp s \<and>
      room (tick s) = room s \<and> flags (tick s) = flags s \<and> joining (tick s) \<and> off (tick s) = getLen c \<and>
      ax_tkeep (prev (tick s)) = ax_tkeep c \<and> ax_tdata (prev (tick s)) = ax_tdata c"
    and fwd2_pass: "fwd2 s \<Longrightarrow> inp s = c # cs \<Longrightarrow> length (outp s) < room s \<Longrightarrow>
      inp (tick s) = cs \<and> outp (tick s) = outp s @ [c] \<and> room (tick s) = room s \<and> flags (tick s) = flags s \<and>
      (if ax_tlast c then over (tick s) else fwd2 (tick s))"
    and join_chunk: "joining s \<Longrightarrow> inp s = c # cs \<Longrightarrow> length (outp s) < room s \<Longrightarrow> inp (tick s) = cs \<and>
      outp (tick s) = outp s @ [if bit (ax_tkeep c) (8 - off s) then ass_join (off s) (prev s) c
        else (ass_join (off s) (prev s) c)\<lparr>ax_tlast := True\<rparr>] \<and>
      room (tick s) = room s \<and> flags (tick s) = flags s \<and> off (tick s) = off s \<and>
      prev (tick s) = ass_move (off s) c (prev s) \<and>
      (if \<not> bit (ax_tkeep c) (8 - off s) then over (tick s)
       else if ax_tlast c then residue (tick s) else joining (tick s))"
    and send_residue: "residue s \<Longrightarrow> length (outp s) < room s \<Longrightarrow> inp (tick s) = inp s \<and>
      outp (tick s) = outp s @ [(ass_head (off s) (prev s))\<lparr>ax_tlast := True\<rparr>] \<and>
      flags (tick s) = flags s \<and> over (tick s)"
begin

text \<open>What a run of \<open>j\<close> cycles did: it took the accesses and sent \<open>ws\<close>.\<close>

definition finishes :: "'s \<Rightarrow> nat \<Rightarrow> AxisApp list \<Rightarrow> bool list \<Rightarrow> AxisApp list \<Rightarrow> bool" where
  "finishes s j rest fs ws \<longleftrightarrow> (let t = (tick ^^ j) s in
     over t \<and> inp t = rest \<and> outp t = outp s @ ws \<and> flags t = fs)"

lemma finishes_Suc:
  assumes "finishes (tick s) j rest fs ws" "outp (tick s) = outp s @ xs"
  shows "finishes s (Suc j) rest fs (xs @ ws)"
  using assms by (simp add: finishes_def Let_def funpow_swap1)

end

sublocale stitcher \<subseteq> rest: segment_filter tick inp outp room ax_tlast flags over
    "\<lambda>s. fwd2 s \<or> (fwd1 s \<and> \<not> must s)" "\<lambda>s. False"
proof (unfold_locales, goal_cases)
  case (1 s c cs)
  then show ?case using fwd1_pass [of s c cs] fwd2_pass [of s c cs] by (auto split: if_splits)
qed auto

context stitcher
begin

lemma passes:
  assumes "fwd2 s \<or> (fwd1 s \<and> \<not> must s)" "inp s = cs @ rest" "payload_ok cs"
    and "length (outp s) + length cs \<le> room s"
  shows "finishes s (length cs) rest (flags s) cs"
  using rest.passes_segment [OF assms(1,2) _ assms(4)] assms(3)
  by (simp add: finishes_def payload_ok_def Let_def)

lemma residue_finishes:
  assumes "residue s" "ass_head (off s) (prev s) = w" "length (outp s) < room s"
  shows "finishes s 1 (inp s) (flags s) [w\<lparr>ax_tlast := True\<rparr>]"
  using send_residue [OF assms(1,3)] assms(2) by (simp add: finishes_def)

lemma join_finishes:
  assumes "joining s" "off s = k" "1 \<le> k" "k \<le> 7"
    and "ass_head k (prev s) = mwr_tail k p" "getLen p = 8"
    and "inp s = cs @ rest" "payload_ok cs" "length (outp s) + length cs < room s"
  shows "\<exists>j ws. finishes s j rest (flags s) ws \<and> payload_ok ws \<and>
    bytes_of ws = drop (8 - k) (chunk_bytes p) @ bytes_of cs"
  using assms
proof (induction cs arbitrary: s p)
  case Nil
  then show ?case by (simp add: payload_ok_def is_segment_def)
next
  case (Cons c cs)
  let ?t = "tick s"
  have ok: "chunk_ok c" using Cons.prems(8) by (simp add: payload_ok_def)
  note bytes = chunk_bytes_join [OF Cons.prems(3,4,6) ok]
  note len = getLen_join [OF Cons.prems(3,4,6) ok]
  have join: "ass_join (off s) (prev s) c = mwr_join k p c"
    using ass_join_eq [OF Cons.prems(5), of c] Cons.prems(2) by simp
  have keep: "bit (ax_tkeep c) (8 - off s) \<longleftrightarrow> 8 - k < getLen c"
    using bit_keep [OF ok] Cons.prems(2,3) by simp
  have input: "inp s = c # cs @ rest" using Cons.prems(7) by simp
  have space: "length (outp s) < room s" using Cons.prems(9) by simp
  note t = join_chunk [OF Cons.prems(1) input space]
  have head: "ass_head k (prev ?t) = mwr_tail k c"
    using ass_head_move [OF Cons.prems(3,4)] t Cons.prems(2) by simp
  show ?case
  proof (cases "cs = []")
    case False
    then have c: "\<not> ax_tlast c" "getLen c = 8" "payload_ok cs"
      using Cons.prems(8) by (simp_all add: payload_ok_Cons)
    have b: "8 - k < getLen c" using c(2) Cons.prems(3) by simp
    have t': "joining ?t" "off ?t = k" "inp ?t = cs @ rest" "outp ?t = outp s @ [mwr_join k p c]"
      "room ?t = room s" "flags ?t = flags s"
      using t c(1) b keep join Cons.prems(2) by simp_all
    from Cons.IH [OF t'(1,2) Cons.prems(3,4) head c(2) t'(3) c(3)]
    obtain j ws where j: "finishes ?t j rest (flags s) ws" and ws: "payload_ok ws"
      "bytes_of ws = drop (8 - k) (chunk_bytes c) @ bytes_of cs"
      using Cons.prems(9) by (auto simp: t'(4-6))
    from j t'(4) have "finishes s (Suc j) rest (flags s) ([mwr_join k p c] @ ws)" by (rule finishes_Suc)
    moreover have "payload_ok (mwr_join k p c # ws)"
      using ws(1) len c(2) Cons.prems(3) payload_ok_nonempty [OF ws(1)] by (simp add: payload_ok_Cons)
    ultimately show ?thesis
      using ws(2) by (intro exI [of _ "Suc j"] exI [of _ "mwr_join k p c # ws"]) (simp add: bytes)
  next
    case True
    then have c: "ax_tlast c" using Cons.prems(8) by (simp add: payload_ok_single)
    show ?thesis
    proof (cases "8 - k < getLen c")
      case True
      have t': "residue ?t" "inp ?t = rest" "outp ?t = outp s @ [mwr_join k p c]"
        "flags ?t = flags s" "off ?t = k" "length (outp ?t) < room ?t"
        using t keep True join c \<open>cs = []\<close> Cons.prems(2,9) by simp_all
      let ?w = "(mwr_tail k c)\<lparr>ax_tlast := True\<rparr>"
      have "ass_head (off ?t) (prev ?t) = mwr_tail k c" using head t'(5) by simp
      from residue_finishes [OF t'(1) this t'(6)] t'(2,4)
      have "finishes ?t 1 rest (flags s) [?w]" by simp
      from finishes_Suc [OF this t'(3)]
      have "finishes s (Suc 1) rest (flags s) ([mwr_join k p c] @ [?w])" .
      moreover have "payload_ok [mwr_join k p c, ?w]"
        using len True Cons.prems(3,4) getLen_tail [OF Cons.prems(3,4) ok True]
        by (simp add: payload_ok_Cons payload_ok_single chunk_ok_def)
      ultimately show ?thesis
        using \<open>cs = []\<close> chunk_bytes_tail [OF Cons.prems(3,4) ok True]
        by (intro exI [of _ "Suc 1"] exI [of _ "[mwr_join k p c, ?w]"]) (simp add: bytes)
    next
      case False
      have "finishes s 1 rest (flags s) [(mwr_join k p c)\<lparr>ax_tlast := True\<rparr>]"
        using t keep False join \<open>cs = []\<close> by (simp add: finishes_def)
      moreover have "payload_ok [(mwr_join k p c)\<lparr>ax_tlast := True\<rparr>]"
        using len Cons.prems(3) by (simp add: payload_ok_single chunk_ok_def)
      ultimately show ?thesis
        using \<open>cs = []\<close> False
        by (intro exI [of _ 1] exI [of _ "[(mwr_join k p c)\<lparr>ax_tlast := True\<rparr>]"]) (simp add: bytes)
    qed
  qed
qed

text \<open>A short end of the first access is saved and joined with the second one.\<close>

lemma short_finishes:
  assumes "joining s" "off s = getLen c" "ax_tkeep (prev s) = ax_tkeep c" "ax_tdata (prev s) = ax_tdata c"
    and "chunk_ok c" "getLen c < 8" "inp s = bs @ rest" "payload_ok bs" "length (outp s) + length bs < room s"
  shows "\<exists>j ws. finishes s j rest (flags s) ws \<and> payload_ok ws \<and> bytes_of ws = chunk_bytes c @ bytes_of bs"
proof -
  let ?k = "getLen c"
  have k: "1 \<le> ?k" "?k \<le> 7" using chunk_ok_keep [OF assms(5)] assms(6) by simp_all
  obtain p where p: "getLen p = 8" "mwr_tail ?k p = ass_head ?k c"
    "drop (8 - ?k) (chunk_bytes p) = chunk_bytes c"
    using ass_head_short [OF assms(5) refl k(2)] .
  have "ass_head ?k (prev s) = mwr_tail ?k p"
    unfolding p(2) by (simp add: ass_head_def assms(3,4))
  from join_finishes [OF assms(1,2) k this p(1) assms(7-9)] show ?thesis by (simp add: p(3))
qed

lemma full_finishes:
  assumes "fwd2 (tick s)" "outp (tick s) = outp s @ [c]" "\<not> ax_tlast c" "getLen c = 8" "chunk_ok c"
    and "inp (tick s) = bs @ rest" "payload_ok bs" "length (outp (tick s)) + length bs \<le> room (tick s)"
  shows "finishes s (Suc (length bs)) rest (flags (tick s)) ([c] @ bs) \<and> payload_ok ([c] @ bs)"
proof -
  have "finishes (tick s) (length bs) rest (flags (tick s)) bs"
    by (rule passes) (use assms in simp_all)
  from finishes_Suc [OF this assms(2)] show ?thesis
    using assms(3-5,7) payload_ok_nonempty [OF assms(7)] by (simp add: payload_ok_Cons)
qed

lemma first_access_finishes:
  assumes "fwd1 s" "must s" "inp s = as @ bs @ rest" "payload_ok as" "payload_ok bs"
    and "length (outp s) + length as + length bs \<le> room s"
  shows "\<exists>j ws. finishes s j rest (flags s) ws \<and> payload_ok ws \<and> bytes_of ws = bytes_of as @ bytes_of bs"
  using assms
proof (induction as arbitrary: s)
  case Nil
  then show ?case by (simp add: payload_ok_def is_segment_def)
next
  case (Cons c as)
  let ?t = "tick s"
  have ok: "chunk_ok c" using Cons.prems(4) by (simp add: payload_ok_def)
  have space: "length (outp s) < room s" using Cons.prems(6) by simp
  have input: "inp s = c # as @ bs @ rest" using Cons.prems(3) by simp
  consider "as = []" "getLen c = 8" | "as = []" "getLen c < 8" | "as \<noteq> []"
    using chunk_ok_keep [OF ok] by linarith
  then show ?case
  proof cases
    case 1
    then have c: "ax_tlast c" using Cons.prems(4) by (simp add: payload_ok_single)
    note t = fwd1_full [OF Cons.prems(1,2) input c 1(2) space]
    have "chunk_bytes (c\<lparr>ax_tlast := False\<rparr>) = chunk_bytes c" "getLen (c\<lparr>ax_tlast := False\<rparr>) = 8"
      "chunk_ok (c\<lparr>ax_tlast := False\<rparr>)"
      using ok 1(2) by (simp_all add: chunk_ok_def)
    with full_finishes [of s "c\<lparr>ax_tlast := False\<rparr>" bs rest] t 1 Cons.prems(5,6) show ?thesis
      by (intro exI [of _ "Suc (length bs)"] exI [of _ "[c\<lparr>ax_tlast := False\<rparr>] @ bs"]) simp
  next
    case 2
    then have c: "ax_tlast c" using Cons.prems(4) by (simp add: payload_ok_single)
    note t = fwd1_short [OF Cons.prems(1,2) input c 2(2) space]
    from short_finishes [of ?t c bs rest] t ok 2 Cons.prems(5,6)
    obtain j ws where "finishes ?t j rest (flags s) ws" "payload_ok ws" "bytes_of ws = chunk_bytes c @ bytes_of bs"
      by auto
    with finishes_Suc [of s j rest "flags s" ws "[]"] t show ?thesis
      by (intro exI [of _ "Suc j"] exI [of _ ws]) (simp add: 2)
  next
    case 3
    then have c: "\<not> ax_tlast c" "getLen c = 8" "payload_ok as"
      using Cons.prems(4) by (simp_all add: payload_ok_Cons)
    from c(1) have "\<not> ax_tlast c \<or> \<not> must s" ..
    note t = fwd1_pass [OF Cons.prems(1) input this space]
    obtain j ws where j: "finishes ?t j rest (flags s) ws" and ws: "payload_ok ws"
      "bytes_of ws = bytes_of as @ bytes_of bs"
      using Cons.IH [of ?t] c(1,3) t Cons.prems(2,5,6) by auto
    from j have "finishes s (Suc j) rest (flags s) ([c] @ ws)" by (rule finishes_Suc) (use t in simp)
    moreover have "payload_ok (c # ws)"
      using ws(1) c payload_ok_nonempty [OF ws(1)] by (simp add: payload_ok_Cons)
    ultimately show ?thesis
      using ws(2) by (intro exI [of _ "Suc j"] exI [of _ "c # ws"]) simp
  qed
qed

text \<open>The three ways a read is taken: in one access, in two, and in two of which the first is one full
  chunk, whose last flag stays.\<close>

lemma one_access:
  assumes "start s" "flags s = False # fs" "inp s = cs @ rest" "payload_ok cs"
    and "length (outp s) + length cs \<le> room s"
  shows "finishes s (length cs) rest fs cs"
proof -
  obtain c cs' where cs: "cs = c # cs'" using assms(4) by (cases cs) (auto dest: payload_ok_nonempty)
  have input: "inp s = c # cs' @ rest" "length (outp s) < room s" using assms(3,5) by (simp_all add: cs)
  have "\<not> ax_tlast c \<or> \<not> False" by simp
  note t = start_pass [OF assms(1,2) input(1) this input(2)]
  show ?thesis
  proof (cases "cs' = []")
    case True
    then show ?thesis using t assms(4) by (simp add: finishes_def cs payload_ok_single)
  next
    case False
    then have c: "\<not> ax_tlast c" "payload_ok cs'" using assms(4) by (simp_all add: cs payload_ok_Cons)
    then have "finishes (tick s) (length cs') rest (flags (tick s)) cs'"
      using t assms(5) by (intro passes) (simp_all add: cs)
    from finishes_Suc [OF this, of "[c]"] t show ?thesis by (simp add: cs)
  qed
qed

lemma two_accesses:
  assumes "start s" "flags s = True # fs" "inp s = as @ bs @ rest" "payload_ok as" "payload_ok bs"
    and "length as = 1 \<Longrightarrow> getLen (hd as) \<noteq> 8"
    and "length (outp s) + length as + length bs \<le> room s"
  shows "\<exists>j ws. finishes s j rest fs ws \<and> payload_ok ws \<and> bytes_of ws = bytes_of as @ bytes_of bs"
proof -
  let ?t = "tick s"
  obtain c cs where as: "as = c # cs" using assms(4) by (cases as) (auto dest: payload_ok_nonempty)
  have ok: "chunk_ok c" using assms(4) by (simp add: as payload_ok_def)
  have input: "inp s = c # cs @ bs @ rest" "length (outp s) < room s" using assms(3,7) by (simp_all add: as)
  show ?thesis
  proof (cases "cs = []")
    case True
    then have c: "ax_tlast c" "getLen c < 8"
      using assms(4,6) chunk_ok_keep [OF ok] by (auto simp: as payload_ok_single)
    note t = start_short [OF assms(1,2) input(1) c input(2)]
    from short_finishes [of ?t c bs rest] t ok c True assms(5,7)
    obtain j ws where "finishes ?t j rest fs ws" "payload_ok ws" "bytes_of ws = chunk_bytes c @ bytes_of bs"
      by (auto simp: as)
    with finishes_Suc [of s j rest fs ws "[]"] t show ?thesis
      by (intro exI [of _ "Suc j"] exI [of _ ws]) (simp add: as True)
  next
    case False
    then have c: "\<not> ax_tlast c" "getLen c = 8" "payload_ok cs" using assms(4) by (simp_all add: as payload_ok_Cons)
    from c(1) have "\<not> ax_tlast c \<or> \<not> True" ..
    note t = start_pass [OF assms(1,2) input(1) this input(2)]
    from first_access_finishes [of ?t cs bs rest] t c assms(5,7)
    obtain j ws where j: "finishes ?t j rest fs ws" and ws: "payload_ok ws" "bytes_of ws = bytes_of cs @ bytes_of bs"
      by (auto simp: as)
    from j have "finishes s (Suc j) rest fs ([c] @ ws)" by (rule finishes_Suc) (use t in simp)
    moreover have "payload_ok ([c] @ ws)"
      using ws(1) c payload_ok_nonempty [OF ws(1)] by (simp add: payload_ok_Cons)
    ultimately show ?thesis using ws(2) by (intro exI [of _ "Suc j"] exI [of _ "[c] @ ws"]) (simp add: as)
  qed
qed

lemma full_first_access:
  assumes "start s" "flags s = True # fs" "inp s = c # bs @ rest" "payload_ok [c]" "getLen c = 8"
    and "payload_ok bs" "length (outp s) + 1 + length bs \<le> room s"
  shows "finishes s (Suc (length bs)) rest fs ([c] @ bs)"
proof -
  have "ax_tlast c" "length (outp s) < room s" using assms(4,7) by (simp_all add: payload_ok_single)
  note t = start_full [OF assms(1-3) this(1) assms(5) this(2)]
  have "finishes (tick s) (length bs) rest (flags (tick s)) bs"
    by (rule passes) (use t assms(6,7) in simp_all)
  from finishes_Suc [OF this, of "[c]"] t show ?thesis by simp
qed

end

end
