(* ===== verification/Rx_Stitch.thy ===== *)
theory Rx_Stitch
  imports Stitcher
begin

text \<open>
  The read path of the Rx application interface (\<open>Rx_App\<close>): the stitcher joins the two accesses of
  a split read, so that what the memory writer of the Rx engine split (\<open>Rx_Memory\<close>) comes back as
  one stream with the same bytes.
\<close>

section \<open>The stitcher of the Rx application interface\<close>

lemma ass_always_frame [simp]:
  "rai_siMEM_RxP_Data (ass_always s) = rai_siMEM_RxP_Data s"
  "ssMrdToAss_SplitSeg (ass_always s) = ssMrdToAss_SplitSeg s"
  "rai_soTAIF_Data (ass_always s) = rai_soTAIF_Data s" "ass_fsmState (ass_always s) = ass_fsmState s"
  "ass_prevChunk (ass_always s) = ass_prevChunk s" "ass_memRdOffset (ass_always s) = ass_memRdOffset s"
  "ass_mustJoin (ass_always s) = ass_mustJoin s"
  by (simp_all add: ass_always_def)

lemma ass_put_frame [simp]:
  "rai_siMEM_RxP_Data (ass_put c s) = rai_siMEM_RxP_Data s"
  "ssMrdToAss_SplitSeg (ass_put c s) = ssMrdToAss_SplitSeg s"
  "depth (rai_soTAIF_Data (ass_put c s)) = depth (rai_soTAIF_Data s)"
  "ass_fsmState (ass_put c s) = ass_fsmState s" "ass_prevChunk (ass_put c s) = ass_prevChunk s"
  "ass_memRdOffset (ass_put c s) = ass_memRdOffset s" "ass_mustJoin (ass_put c s) = ass_mustJoin s"
  by (simp_all add: ass_put_def)

lemma ass_put_room:
  "length (items (rai_soTAIF_Data s)) < depth (rai_soTAIF_Data s) \<Longrightarrow>
     items (rai_soTAIF_Data (ass_put c s)) = items (rai_soTAIF_Data s) @ [c]"
  by (simp add: ass_put_def sfull_def)

interpretation ass: stitcher pAppSegmentStitcher "\<lambda>s. items (rai_siMEM_RxP_Data s)"
    "\<lambda>s. items (rai_soTAIF_Data s)" "\<lambda>s. depth (rai_soTAIF_Data s)" "\<lambda>s. items (ssMrdToAss_SplitSeg s)"
    "\<lambda>s. ass_fsmState s = ASS_IDLE" "\<lambda>s. ass_fsmState s = ASS_FWD_1ST_BUF"
    "\<lambda>s. ass_fsmState s = ASS_FWD_2ND_BUF" "\<lambda>s. ass_fsmState s = ASS_JOIN_2ND_BUF"
    "\<lambda>s. ass_fsmState s = ASS_RESIDUE" "\<lambda>s. ass_fsmState s = ASS_IDLE" ass_mustJoin
    "\<lambda>s. unat (ass_memRdOffset s)" ass_prevChunk
proof (unfold_locales, goal_cases)
  case (1 s m fs c cs)
  note sp = sread_cons [OF 1(2)]
  show ?case
    using 1 by (auto simp: pAppSegmentStitcher_def ass_idle_def sempty_def sp sread_cons [OF 1(3)] Let_def ass_put_room)
next
  case (2 s fs c cs)
  note sp = sread_cons [OF 2(2)]
  show ?case
    using 2 by (simp add: pAppSegmentStitcher_def ass_idle_def ass_1st_end_def sempty_def sp sread_cons [OF 2(3)]
        Let_def ass_put_room)
next
  case (3 s fs c cs)
  note sp = sread_cons [OF 3(2)]
  show ?case
    using 3 by (simp add: pAppSegmentStitcher_def ass_idle_def ass_1st_end_def sempty_def sp sread_cons [OF 3(3)]
        Let_def of_nat_len_8 unat_of_nat_len)
next
  case (4 s c cs)
  then show ?case
    by (auto simp: pAppSegmentStitcher_def ass_fwd_1st_buf_def sread_cons Let_def ass_put_room sfull_def)
next
  case (5 s c cs)
  then show ?case
    by (simp add: pAppSegmentStitcher_def ass_fwd_1st_buf_def ass_1st_end_def sread_cons Let_def ass_put_room)
next
  case (6 s c cs)
  then show ?case
    by (simp add: pAppSegmentStitcher_def ass_fwd_1st_buf_def ass_1st_end_def sread_cons Let_def
        of_nat_len_8 unat_of_nat_len)
next
  case (7 s c cs)
  then show ?case
    by (auto simp: pAppSegmentStitcher_def ass_fwd_2nd_buf_def sread_cons Let_def ass_put_room)
next
  case (8 s c cs)
  then show ?case
    by (simp add: pAppSegmentStitcher_def ass_join_2nd_buf_def sread_cons Let_def ass_put_room)
next
  case (9 s)
  then show ?case by (simp add: pAppSegmentStitcher_def ass_residue_def ass_put_room)
qed

text \<open>A read that wraps around the ring comes back as one stream.  The stitcher takes the two accesses
  of a split read, whatever their lengths are, shifts the bytes of the second one into the gap
  of the first, and sends one well-formed stream with the bytes of both; the exception is a
  first access of exactly one full chunk.\<close>

theorem ass_stitches_accesses:
  assumes "ass_fsmState s = ASS_IDLE" "items (ssMrdToAss_SplitSeg s) = True # fs"
    and "items (rai_siMEM_RxP_Data s) = as @ bs @ rest" "payload_ok as" "payload_ok bs"
    and "length as = 1 \<Longrightarrow> getLen (hd as) \<noteq> 8"
    and "length (items (rai_soTAIF_Data s)) + length as + length bs \<le> depth (rai_soTAIF_Data s)"
  shows "\<exists>j ws t. t = (pAppSegmentStitcher ^^ j) s \<and> ass_fsmState t = ASS_IDLE \<and>
     items (rai_siMEM_RxP_Data t) = rest \<and> items (ssMrdToAss_SplitSeg t) = fs \<and>
     items (rai_soTAIF_Data t) = items (rai_soTAIF_Data s) @ ws \<and>
     payload_ok ws \<and> bytes_of ws = bytes_of as @ bytes_of bs"
proof -
  obtain j ws where "ass.finishes s j rest fs ws" "payload_ok ws" "bytes_of ws = bytes_of as @ bytes_of bs"
    using ass.two_accesses [OF assms(1-6)] assms(7) by auto
  then show ?thesis unfolding ass.finishes_def Let_def by blast
qed

definition ass_reading :: "AxisApp list \<Rightarrow> RAi" where
  "ass_reading cs = rai_reset\<lparr>ssMrdToAss_SplitSeg := Stream 16 [True], rai_siMEM_RxP_Data := Stream 4 cs\<rparr>"

lemma ass_reading_fields:
  "ass_fsmState (ass_reading cs) = ASS_IDLE" "items (ssMrdToAss_SplitSeg (ass_reading cs)) = [True]"
  "items (rai_siMEM_RxP_Data (ass_reading cs)) = cs" "rai_soTAIF_Data (ass_reading cs) = Stream 4 []"
  by (simp_all add: ass_reading_def rai_reset_def)

lemma upt_5: "[0 ..< 2] = [0, 1 :: nat]" "[0 ..< 3] = [0, 1, 2 :: nat]"
  by (simp_all add: upt_rec)

theorem ass_stitches_accesses_witness:
  "\<exists>j ws. items (rai_soTAIF_Data ((pAppSegmentStitcher ^^ j)
       (ass_reading [chunk 0x0201 3 True, chunk 0x050403 7 True]))) = ws \<and> payload_ok ws \<and>
     bytes_of ws = [1, 2, 3, 4, 5]"
proof -
  let ?a = "chunk 0x0201 3 True" and ?b = "chunk 0x050403 7 True"
  let ?s = "ass_reading [?a, ?b]"
  have l: "getLen ?a = 2" "getLen ?b = 3" by (simp_all add: getLen_def chunk_def keepToLen_def)
  then have ok: "payload_ok [?a]" "payload_ok [?b]"
    by (simp_all add: payload_ok_single chunk_ok_def chunk_def)
  have bytes: "bytes_of [?a] = [1, 2]" "bytes_of [?b] = [3, 4, 5]"
    by (simp_all add: chunk_bytes_def l upt_5) (simp_all add: nth_byte_def chunk_def)
  have "items (rai_siMEM_RxP_Data ?s) = [?a] @ [?b] @ []"
    "length [?a] = 1 \<Longrightarrow> getLen (hd [?a]) \<noteq> 8"
    "length (items (rai_soTAIF_Data ?s)) + length [?a] + length [?b] \<le> depth (rai_soTAIF_Data ?s)"
    by (simp_all add: ass_reading_fields l)
  from ass_stitches_accesses [OF ass_reading_fields(1,2) this(1) ok this(2,3)]
  obtain j ws where "items (rai_soTAIF_Data ((pAppSegmentStitcher ^^ j) ?s)) = ws" "payload_ok ws"
    "bytes_of ws = [1, 2] @ [3, 4, 5]"
    unfolding bytes by (auto simp: ass_reading_fields)
  then show ?thesis by auto
qed

text \<open>The exception: when the first access is one full chunk, the stitcher forwards it with its last
  flag.  The application then receives the data of one read request as two segments.\<close>

theorem ass_full_chunk_breaks_segment:
  assumes "ass_fsmState s = ASS_IDLE" "items (ssMrdToAss_SplitSeg s) = True # fs"
    and "items (rai_siMEM_RxP_Data s) = c # bs @ rest" "payload_ok [c]" "getLen c = 8" "payload_ok bs"
    and "length (items (rai_soTAIF_Data s)) + 1 + length bs \<le> depth (rai_soTAIF_Data s)"
  shows "items (rai_soTAIF_Data ((pAppSegmentStitcher ^^ Suc (length bs)) s)) =
       items (rai_soTAIF_Data s) @ [c] @ bs \<and>
     payload_ok [c] \<and> payload_ok bs \<and> \<not> payload_ok ([c] @ bs)"
proof -
  have "ass.finishes s (Suc (length bs)) rest fs ([c] @ bs)"
    using ass.full_first_access [OF assms(1-6)] assms(7) by simp
  then show ?thesis
    using assms(4,6) payload_ok_nonempty [OF assms(6)]
    by (simp add: ass.finishes_def Let_def payload_ok_single payload_ok_Cons del: funpow.simps)
qed

theorem ass_full_chunk_breaks_segment_witness:
  "items (rai_soTAIF_Data ((pAppSegmentStitcher ^^ 2)
     (ass_reading [chunk 7 0xFF True, chunk 3 1 True]))) = [chunk 7 0xFF True, chunk 3 1 True]"
proof -
  let ?s = "ass_reading [chunk 7 0xFF True, chunk 3 1 True]"
  have l: "getLen (chunk 7 0xFF True) = 8" "getLen (chunk 3 1 True) = 1"
    by (simp_all add: getLen_def chunk_def keepToLen_def)
  then have ok: "payload_ok [chunk 7 0xFF True]" "payload_ok [chunk 3 1 True]"
    by (simp_all add: payload_ok_single chunk_ok_def chunk_def)
  have "items (rai_siMEM_RxP_Data ?s) = chunk 7 0xFF True # [chunk 3 1 True] @ []"
    "length (items (rai_soTAIF_Data ?s)) + 1 + length [chunk 3 1 True] \<le> depth (rai_soTAIF_Data ?s)"
    by (simp_all add: ass_reading_fields)
  from ass_full_chunk_breaks_segment [OF ass_reading_fields(1,2) this(1) ok(1) l(1) ok(2) this(2)]
  show ?thesis by (simp add: ass_reading_fields numeral_2_eq_2)
qed

end
