(* ===== verification/Rx_Ring.thy ===== *)
theory Rx_Ring
  imports Rx_Stitch Rx_Sar_Table
begin

text \<open>
  The receive ring buffer from end to end: the commands of the memory writer of the Rx engine
  (\<open>Rx_Memory\<close>) and of the memory reader of the Rx application interface (\<open>Rx_App\<close>), over a memory
  of bytes.  What is written with a command that wraps around is what a read with the same
  command returns.  The theory also shows what a read request does.
\<close>

section \<open>A memory of bytes\<close>

type_synonym memory = "nat \<Rightarrow> 8 word"

text \<open>The data mover writes the bytes of a stream at the address of its command, and reads the number
  of bytes that its command asks for.\<close>

definition mem_write :: "memory \<Rightarrow> DmCmd \<Rightarrow> 8 word list \<Rightarrow> memory" where
  "mem_write m c bs = (\<lambda>a. if unat (dm_saddr c) \<le> a \<and> a < unat (dm_saddr c) + length bs
     then bs ! (a - unat (dm_saddr c)) else m a)"

definition mem_read :: "memory \<Rightarrow> DmCmd \<Rightarrow> 8 word list" where
  "mem_read m c = map (\<lambda>i. m (unat (dm_saddr c) + i)) [0 ..< unat (dm_btt c)]"

lemma mem_read_write:
  "unat (dm_btt c) = length bs \<Longrightarrow> dm_saddr c = dm_saddr d \<Longrightarrow> mem_read (mem_write m d bs) c = bs"
  by (intro nth_equalityI) (simp_all add: mem_read_def mem_write_def)

lemma mem_read_other:
  assumes "unat (dm_saddr d) + length bs \<le> unat (dm_saddr c) \<or>
      unat (dm_saddr c) + unat (dm_btt c) \<le> unat (dm_saddr d)"
  shows "mem_read (mem_write m d bs) c = mem_read m c"
  using assms by (intro nth_equalityI) (auto simp: mem_read_def mem_write_def)

section \<open>The commands of a read\<close>

lemma set_range_0: "set_range 15 0 0 (a :: 40 word) = push_bit 16 (drop_bit 16 a)"
  by (rule bit_word_eqI) (auto simp: bit_set_range bit_push_bit_iff bit_drop_bit_eq)

lemma unat_set_range_0: "unat (set_range 15 0 0 (a :: 40 word)) = unat a - unat a mod 65536"
proof -
  have "unat a < 2 ^ 40" using unsigned_less [of a] by simp
  then have "unat a div 65536 * 65536 < 2 ^ 40"
    by (meson div_times_less_eq_dividend le_less_trans)
  moreover have "unat (set_range 15 0 0 a) = take_bit 40 (unat a div 65536 * 65536)"
    unfolding set_range_0 unsigned_push_bit_eq unsigned_drop_bit_eq
    unfolding push_bit_eq_mult drop_bit_eq_div
    using \<open>unat a < 2 ^ 40\<close> by (simp add: take_bit_nat_eq_self)
  ultimately show ?thesis by (simp add: take_bit_nat_eq_self minus_mod_eq_div_mult)
qed

text \<open>The commands of the reader are those of the writer (\<open>mwr_cmd1\<close>, \<open>mwr_cmd2\<close>) in address and length.\<close>

definition ring_cmd2 :: "DmCmd \<Rightarrow> DmCmd" where
  "ring_cmd2 c = DmCmd_of (dm_saddr (mwr_cmd2 c (split_len c))) (dm_btt (mwr_cmd2 c (split_len c)))"

lemma ring_cmd2_fields [simp]:
  "dm_saddr (ring_cmd2 c) = dm_saddr (mwr_cmd2 c (split_len c))"
  "dm_btt (ring_cmd2 c) = dm_btt (mwr_cmd2 c (split_len c))"
  "ring_offset (ring_cmd2 c) = ring_offset (mwr_cmd2 c (split_len c))"
  by (simp_all add: ring_cmd2_def DmCmd_of_def ring_offset_def)

lemma ring_cmd2_saddr:
  "unat (dm_saddr (mwr_cmd2 c len)) = unat (dm_saddr c) - ring_offset c"
  by (simp add: mwr_cmd2_def unat_set_range_0 ring_offset_def get_range_15)

lemma mrd_split:
  assumes "mrd_fsmState r = MRD_1ST_ACCESS" "items (ssRasToMrd_MemRdCmd r) = c # cs"
    and "65536 < ring_offset c + unat (dm_btt c)"
    and "length (items (ssMrdToAss_SplitSeg r)) < depth (ssMrdToAss_SplitSeg r)"
    and "length (items (rai_soMEM_RxpRdCmd r)) + 2 \<le> depth (rai_soMEM_RxpRdCmd r)"
    and "u = pRxMemoryReader (pRxMemoryReader r)"
  shows "items (rai_soMEM_RxpRdCmd u) = items (rai_soMEM_RxpRdCmd r) @ [mwr_cmd1 c, ring_cmd2 c]"
    "items (ssMrdToAss_SplitSeg u) = items (ssMrdToAss_SplitSeg r) @ [True]"
    "items (ssRasToMrd_MemRdCmd u) = cs" "mrd_fsmState u = MRD_1ST_ACCESS"
  using assms(1-5)
  by (simp_all add: assms(6) pRxMemoryReader_def mrd_1st_access_def mrd_2nd_access_def sempty_def sfull_def
      sread_cons [OF assms(2)] Let_def ring_offset_def TOE_RX_BUFFER_SIZE_def mwr_cmd1_def ring_cmd2_def
      split_len_def mwr_cmd2_def DmCmd_of_def)

text \<open>A read command never leaves the ring.  The memory reader forwards a command that ends within the
  buffer unchanged, and replaces one that crosses the end by two that together ask for the same
  number of bytes, the first up to the end and the second from the start; it tells the stitcher
  which of the two it did.\<close>

theorem mrd_commands_in_ring:
  assumes "mrd_fsmState r = MRD_1ST_ACCESS" "items (ssRasToMrd_MemRdCmd r) = c # cs"
    and "unat (dm_btt c) < 65536"
    and "length (items (ssMrdToAss_SplitSeg r)) < depth (ssMrdToAss_SplitSeg r)"
    and "length (items (rai_soMEM_RxpRdCmd r)) + 2 \<le> depth (rai_soMEM_RxpRdCmd r)"
  shows "\<exists>n cmds split u. u = (pRxMemoryReader ^^ n) r \<and>
     items (rai_soMEM_RxpRdCmd u) = items (rai_soMEM_RxpRdCmd r) @ cmds \<and>
     items (ssMrdToAss_SplitSeg u) = items (ssMrdToAss_SplitSeg r) @ [split] \<and>
     mrd_fsmState u = MRD_1ST_ACCESS \<and> items (ssRasToMrd_MemRdCmd u) = cs \<and>
     (\<forall>d \<in> set cmds. ring_offset d + unat (dm_btt d) \<le> 65536) \<and>
     sum_list (map (\<lambda>d. unat (dm_btt d)) cmds) = unat (dm_btt c) \<and>
     length cmds = (if split then 2 else 1) \<and> ring_offset (hd cmds) = ring_offset c"
proof (cases "65536 < ring_offset c + unat (dm_btt c)")
  case True
  have off: "0 < ring_offset c" "ring_offset c < 65536"
    using True assms(3) by (simp_all add: ring_offset_def get_range_15)
  note r = mrd_split [OF assms(1,2) True assms(4,5) refl] and c = split_cmds [OF off(1) True]
  have "unat (dm_btt c) - (65536 - ring_offset c) \<le> 65536" using assms(3) by simp
  then show ?thesis
    using r c off True
    by (intro exI [of _ 2] exI [of _ "[mwr_cmd1 c, ring_cmd2 c]"] exI [of _ True])
      (simp add: numeral_2_eq_2)
next
  case False
  then show ?thesis
    using assms by (intro exI [of _ 1] exI [of _ "[c]"] exI [of _ False])
      (simp add: pRxMemoryReader_def mrd_1st_access_def sempty_def sfull_def sread_cons [OF assms(2)]
        Let_def ring_offset_def TOE_RX_BUFFER_SIZE_def)
qed

definition mrd_given :: "DmCmd \<Rightarrow> RAi" where
  "mrd_given c = rai_reset\<lparr>ssRasToMrd_MemRdCmd := Stream 16 [c]\<rparr>"

lemma mrd_given_fields:
  "mrd_fsmState (mrd_given c) = MRD_1ST_ACCESS" "items (ssRasToMrd_MemRdCmd (mrd_given c)) = [c]"
  "ssMrdToAss_SplitSeg (mrd_given c) = Stream 16 []" "rai_soMEM_RxpRdCmd (mrd_given c) = Stream 4 []"
  by (simp_all add: mrd_given_def rai_reset_def)

theorem mrd_commands_in_ring_witness:
  "\<exists>n cmds. items (rai_soMEM_RxpRdCmd ((pRxMemoryReader ^^ n) (mrd_given (DmCmd_of 0x5FFFE 5)))) = cmds \<and>
     (\<forall>d \<in> set cmds. ring_offset d + unat (dm_btt d) \<le> 65536)"
proof -
  let ?c = "DmCmd_of 0x5FFFE 5"
  have "unat (dm_btt ?c) < 65536"
    "length (items (ssMrdToAss_SplitSeg (mrd_given ?c))) < depth (ssMrdToAss_SplitSeg (mrd_given ?c))"
    "length (items (rai_soMEM_RxpRdCmd (mrd_given ?c))) + 2 \<le> depth (rai_soMEM_RxpRdCmd (mrd_given ?c))"
    by (simp_all add: mrd_given_fields DmCmd_of_def)
  from mrd_commands_in_ring [OF mrd_given_fields(1,2) this] show ?thesis
    by (auto simp: mrd_given_fields)
qed

section \<open>What is written comes back\<close>

text \<open>C25. The ring gives back what it was given.  A segment whose bytes wrap around the end of its buffer is
  written by the memory writer of the Rx engine as two accesses; a read with the same command
  makes the memory reader ask for two accesses, and what these return from the memory is,
  together and in this order, the bytes of the segment (the stitcher then joins them).\<close>

theorem rx_ring_roundtrip:
  assumes "mwr_fsmState s = MWR_IDLE" "items (ssFsmToMwr_WrCmd s) = c # queue"
    and "items (ssTsdToMwr_Data s) = cs @ rest" "payload_ok cs"
    and "length (bytes_of cs) = unat (dm_btt c)" "unat (dm_btt c) < 65536"
    and "65536 < ring_offset c + unat (dm_btt c)"
    and "length (items (ssMwrToRan_SplitSeg s)) < depth (ssMwrToRan_SplitSeg s)"
    and "length (items (mwr_soMEM_WrCmd s)) + 2 \<le> depth (mwr_soMEM_WrCmd s)"
    and "length (items (mwr_soMEM_WrData s)) + length cs < depth (mwr_soMEM_WrData s)"
    and "mrd_fsmState r = MRD_1ST_ACCESS" "items (ssRasToMrd_MemRdCmd r) = c # reads"
    and "length (items (ssMrdToAss_SplitSeg r)) < depth (ssMrdToAss_SplitSeg r)"
    and "length (items (rai_soMEM_RxpRdCmd r)) + 2 \<le> depth (rai_soMEM_RxpRdCmd r)"
  shows "\<exists>j ws1 ws2 w1 w2 r1 r2. mwr_done s j rest (ws1 @ ws2) [w1, w2] \<and>
     is_segment ax_tlast ws1 \<and> is_segment ax_tlast ws2 \<and>
     items (rai_soMEM_RxpRdCmd (pRxMemoryReader (pRxMemoryReader r))) =
       items (rai_soMEM_RxpRdCmd r) @ [r1, r2] \<and>
     (let m' = mem_write (mem_write m w1 (bytes_of ws1)) w2 (bytes_of ws2)
      in mem_read m' r1 @ mem_read m' r2 = bytes_of cs)"
proof -
  let ?w2 = "mwr_cmd2 c (split_len c)" and ?n = "65536 - ring_offset c"
  have pos: "0 < ring_offset c" "ring_offset c \<le> unat (dm_saddr c)"
    using assms(6,7) by (simp_all add: ring_offset_def get_range_15)
  note c = split_cmds [OF pos(1) assms(7)]
  obtain j ws1 ws2 where run: "mwr_done s j rest (ws1 @ ws2) [mwr_cmd1 c, ?w2]"
      "is_segment ax_tlast ws1" "is_segment ax_tlast ws2"
    and ws: "bytes_of ws1 = take ?n (bytes_of cs)" "bytes_of ws2 = drop ?n (bytes_of cs)"
    using mwr_split_run [OF assms(1-10)] by blast
  let ?m = "mem_write (mem_write m (mwr_cmd1 c) (bytes_of ws1)) ?w2 (bytes_of ws2)"
  have len: "length (bytes_of ws1) = ?n" "length (bytes_of ws2) = unat (dm_btt c) - ?n"
    using assms(5,7) ws by simp_all
  have "mem_read ?m (mwr_cmd1 c) = mem_read (mem_write m (mwr_cmd1 c) (bytes_of ws1)) (mwr_cmd1 c)"
  proof (rule mem_read_other)
    have "unat (dm_saddr c) - ring_offset c + (unat (dm_btt c) - ?n) \<le> unat (dm_saddr c)"
      using pos(2) assms(6,7) by arith
    then show "unat (dm_saddr ?w2) + length (bytes_of ws2) \<le> unat (dm_saddr (mwr_cmd1 c)) \<or>
        unat (dm_saddr (mwr_cmd1 c)) + unat (dm_btt (mwr_cmd1 c)) \<le> unat (dm_saddr ?w2)"
      by (simp add: ring_cmd2_saddr len c(4))
  qed
  also have "\<dots> = bytes_of ws1" by (rule mem_read_write) (simp_all add: c len)
  finally have "mem_read ?m (mwr_cmd1 c) @ mem_read ?m (ring_cmd2 c) = bytes_of cs"
    using ws c len by (simp add: mem_read_write)
  then show ?thesis
    using run mrd_split(1) [OF assms(11,12,7,13,14) refl]
    by (intro exI [of _ j] exI [of _ ws1] exI [of _ ws2] exI [of _ "mwr_cmd1 c"] exI [of _ ?w2]
        exI [of _ "mwr_cmd1 c"] exI [of _ "ring_cmd2 c"]) (simp add: Let_def)
qed

text \<open>A segment of five bytes that starts two bytes before the end of the ring.\<close>

definition wrap_cmd :: DmCmd where
  "wrap_cmd = DmCmd_of 0x5FFFE 5"

definition wrap_chunk :: AxisApp where
  "wrap_chunk = chunk 0x0504030201 0x1F True"

definition wrap_writer :: RXp where
  "wrap_writer = rxp_reset\<lparr>ssFsmToMwr_WrCmd := Stream 16 [wrap_cmd],
     ssTsdToMwr_Data := Stream 16 [wrap_chunk]\<rparr>"

lemma wrap_instance:
  "mwr_fsmState wrap_writer = MWR_IDLE" "items (ssFsmToMwr_WrCmd wrap_writer) = wrap_cmd # []"
  "items (ssTsdToMwr_Data wrap_writer) = [wrap_chunk] @ []" "payload_ok [wrap_chunk]"
  "length (bytes_of [wrap_chunk]) = unat (dm_btt wrap_cmd)" "unat (dm_btt wrap_cmd) < 65536"
  "65536 < ring_offset wrap_cmd + unat (dm_btt wrap_cmd)"
  "length (items (ssMwrToRan_SplitSeg wrap_writer)) < depth (ssMwrToRan_SplitSeg wrap_writer)"
  "length (items (mwr_soMEM_WrCmd wrap_writer)) + 2 \<le> depth (mwr_soMEM_WrCmd wrap_writer)"
  "length (items (mwr_soMEM_WrData wrap_writer)) + length [wrap_chunk] < depth (mwr_soMEM_WrData wrap_writer)"
proof -
  have len: "getLen wrap_chunk = 5" by (simp add: getLen_def wrap_chunk_def chunk_def keepToLen_def)
  then show "payload_ok [wrap_chunk]"
    by (simp add: payload_ok_single chunk_ok_def) (simp add: wrap_chunk_def chunk_def)
  show "length (bytes_of [wrap_chunk]) = unat (dm_btt wrap_cmd)"
    by (simp add: len) (simp add: wrap_cmd_def DmCmd_of_def)
qed (simp_all add: wrap_writer_def rxp_reset_def wrap_cmd_def DmCmd_of_def ring_offset_def get_range_15)

theorem rx_ring_roundtrip_witness:
  "\<exists>j ws1 ws2 w1 w2 r1 r2. mwr_done wrap_writer j [] (ws1 @ ws2) [w1, w2] \<and>
     items (rai_soMEM_RxpRdCmd (pRxMemoryReader (pRxMemoryReader (mrd_given wrap_cmd)))) = [r1, r2] \<and>
     (let m' = mem_write (mem_write (\<lambda>_. 0) w1 (bytes_of ws1)) w2 (bytes_of ws2)
      in mem_read m' r1 @ mem_read m' r2 = bytes_of [wrap_chunk])"
proof -
  have "length (items (ssMrdToAss_SplitSeg (mrd_given wrap_cmd))) < depth (ssMrdToAss_SplitSeg (mrd_given wrap_cmd))"
    "length (items (rai_soMEM_RxpRdCmd (mrd_given wrap_cmd))) + 2 \<le> depth (rai_soMEM_RxpRdCmd (mrd_given wrap_cmd))"
    by (simp_all add: mrd_given_fields)
  from rx_ring_roundtrip [OF wrap_instance mrd_given_fields(1,2) this, of "\<lambda>_. 0"]
  show ?thesis by (simp only: mrd_given_fields stream.sel append_Nil) blast
qed

section \<open>A read request\<close>

text \<open>
  The exchange of the stream process with the Rx SAR table (\<open>Rx_Sar_Table\<close>) for one request: the
  query for the read pointer, its reply, and the update.
\<close>

definition rai_to_rst :: "'a RAi_scheme \<Rightarrow> RSt \<Rightarrow> RSt" where
  "rai_to_rst s t = t\<lparr>rst_siRAi_RxSarQry := rai_soRSt_RxSarQry s, rst_soRAi_RxSarRep := rai_siRSt_RxSarRep s\<rparr>"

definition rst_to_rai :: "RSt \<Rightarrow> 'a RAi_scheme \<Rightarrow> 'a RAi_scheme" where
  "rst_to_rai t s = s\<lparr>rai_soRSt_RxSarQry := rst_siRAi_RxSarQry t, rai_siRSt_RxSarRep := rst_soRAi_RxSarRep t\<rparr>"

definition rai_exchange :: "'a RAi_scheme \<Rightarrow> RSt \<Rightarrow> ('a RAi_scheme \<times> RSt) option" where
  "rai_exchange s t = Option.bind (rx_sar_table (rai_to_rst (pRxAppStream s) t)) (\<lambda>t1.
     let s2 = pRxAppStream (rst_to_rai t1 (pRxAppStream s)) in
     Option.bind (rx_sar_table (rai_to_rst s2 t1)) (\<lambda>t2. Some (s2, t2)))"

lemma ras_always_frame [simp]:
  "ras_fsmState (ras_always s) = ras_fsmState s" "ras_readLength (ras_always s) = ras_readLength s"
  "rai_soRSt_RxSarQry (ras_always s) = rai_soRSt_RxSarQry s"
  "rai_siRSt_RxSarRep (ras_always s) = rai_siRSt_RxSarRep s"
  "rai_siTAIF_DataReq (ras_always s) = rai_siTAIF_DataReq s"
  "ssRasToMrd_MemRdCmd (ras_always s) = ssRasToMrd_MemRdCmd s"
  "rai_soTAIF_Meta (ras_always s) = rai_soTAIF_Meta s"
  by (simp_all add: ras_always_def)

lemma ras_requests:
  assumes "ras_fsmState s = RAS_S0" "items (rai_siTAIF_DataReq s) = req # reqs" "rdr_length req \<noteq> 0"
    and "rai_soRSt_RxSarQry s = Stream d []" "0 < d"
  shows "ras_fsmState (pRxAppStream s) = RAS_S1" "ras_readLength (pRxAppStream s) = rdr_length req"
    "rai_soRSt_RxSarQry (pRxAppStream s) =
       Stream d [\<lparr>aq_sessionID = rdr_sessionID req, aq_appd = 0, aq_write = False\<rparr>]"
    "rai_siRSt_RxSarRep (pRxAppStream s) = rai_siRSt_RxSarRep s"
    "ssRasToMrd_MemRdCmd (pRxAppStream s) = ssRasToMrd_MemRdCmd s"
    "rai_soTAIF_Meta (pRxAppStream s) = rai_soTAIF_Meta s"
    "items (rai_siTAIF_DataReq (pRxAppStream s)) = reqs"
  using assms
  by (simp_all add: pRxAppStream_def ras_request_def sempty_def sfull_def sread_cons Let_def swrite_def)

lemma ras_replies:
  assumes "ras_fsmState s = RAS_S1" "rai_siRSt_RxSarRep s = Stream e [rep]"
    and "rai_soRSt_RxSarQry s = Stream d []" "0 < d" "\<not> sfull (ssRasToMrd_MemRdCmd s)"
    and "\<not> sfull (rai_soTAIF_Meta s)"
  shows "ras_fsmState (pRxAppStream s) = RAS_S0"
    "items (ssRasToMrd_MemRdCmd (pRxAppStream s)) = items (ssRasToMrd_MemRdCmd s) @
       [DmCmd_of (ucast (ras_memSegAddr (ar_sessionID rep) (ar_appd rep))) (ucast (ras_readLength s))]"
    "rai_soRSt_RxSarQry (pRxAppStream s) = Stream d [\<lparr>aq_sessionID = ar_sessionID rep,
       aq_appd = ar_appd rep + ras_readLength s, aq_write = True\<rparr>]"
    "rai_siRSt_RxSarRep (pRxAppStream s) = Stream e []"
    "items (rai_soTAIF_Meta (pRxAppStream s)) = items (rai_soTAIF_Meta s) @ [ar_sessionID rep]"
    "rai_siTAIF_DataReq (pRxAppStream s) = rai_siTAIF_DataReq s"
  using assms
  by (simp_all add: pRxAppStream_def ras_reply_def ras_meta_def sempty_def sfull_def sread_cons Let_def
      swrite_def)

text \<open>A read request consumes what it reads.  For a request of a positive length the stream process asks
  the Rx SAR table for the read pointer of the session, posts the read command for that many
  bytes at that pointer of the buffer of the session, answers the application, and advances the
  read pointer in the table by the length, without touching any other session or pointer.\<close>

theorem rai_read_request:
  assumes "ras_fsmState s = RAS_S0" "items (rai_siTAIF_DataReq s) = req # reqs" "rdr_length req \<noteq> 0"
    and "rai_soRSt_RxSarQry s = Stream d []" "0 < d" "rai_siRSt_RxSarRep s = Stream e []"
    and "\<not> sfull (ssRasToMrd_MemRdCmd s)" "\<not> sfull (rai_soTAIF_Meta s)"
    and "sess_ok (rdr_sessionID req)" "items (rst_siTXe_RxSarReq t) = []"
  shows "\<exists>s' t'. rai_exchange s t = Some (s', t') \<and> ras_fsmState s' = RAS_S0 \<and>
     items (rai_siTAIF_DataReq s') = reqs \<and>
     items (ssRasToMrd_MemRdCmd s') = items (ssRasToMrd_MemRdCmd s) @
       [DmCmd_of (ucast (ras_memSegAddr (rdr_sessionID req) (rs_appd (RX_SAR_TABLE t (rdr_sessionID req)))))
          (ucast (rdr_length req))] \<and>
     items (rai_soTAIF_Meta s') = items (rai_soTAIF_Meta s) @ [rdr_sessionID req] \<and>
     RX_SAR_TABLE t' = (RX_SAR_TABLE t)(rdr_sessionID req := (RX_SAR_TABLE t (rdr_sessionID req))
       \<lparr>rs_appd := rs_appd (RX_SAR_TABLE t (rdr_sessionID req)) + rdr_length req\<rparr>)"
proof -
  let ?i = "rdr_sessionID req"
  let ?appd = "rs_appd (RX_SAR_TABLE t ?i)"
  let ?s1 = "pRxAppStream s"
  note s1 = ras_requests [OF assms(1-5)]
  let ?t1 = "(rai_to_rst ?s1 t)\<lparr>rst_siRAi_RxSarQry := Stream d [],
     rst_soRAi_RxSarRep := Stream e [\<lparr>ar_sessionID = ?i, ar_appd = ?appd\<rparr>]\<rparr>"
  have t1: "rx_sar_table (rai_to_rst ?s1 t) = Some ?t1"
    using assms(9,10) s1(3,4) assms(6)
    by (simp add: rx_sar_table_def rai_to_rst_def sempty_def sread_Stream in_bounds_ok swrite_def Let_def)
  let ?s2' = "rst_to_rai ?t1 ?s1"
  have s2': "ras_fsmState ?s2' = RAS_S1" "rai_siRSt_RxSarRep ?s2' = Stream e [\<lparr>ar_sessionID = ?i, ar_appd = ?appd\<rparr>]"
    "rai_soRSt_RxSarQry ?s2' = Stream d []" "\<not> sfull (ssRasToMrd_MemRdCmd ?s2')"
    "\<not> sfull (rai_soTAIF_Meta ?s2')"
    using s1 assms(7,8) by (simp_all add: rst_to_rai_def)
  note s2 = ras_replies [OF s2'(1-3) assms(5) s2'(4,5)]
  let ?s2 = "pRxAppStream ?s2'"
  let ?t2 = "(rai_to_rst ?s2 ?t1)\<lparr>rst_siRAi_RxSarQry := Stream d [], RX_SAR_TABLE := (RX_SAR_TABLE t)
     (?i := (RX_SAR_TABLE t ?i)\<lparr>rs_appd := ?appd + rdr_length req\<rparr>)\<rparr>"
  have "ras_readLength ?s2' = rdr_length req" using s1(2) by (simp add: rst_to_rai_def)
  then have t2: "rx_sar_table (rai_to_rst ?s2 ?t1) = Some ?t2"
    using assms(9,10) s2(3)
    by (simp add: rx_sar_table_def rai_to_rst_def sempty_def sread_Stream in_bounds_ok Let_def)
  have "rai_exchange s t = Some (?s2, ?t2)"
    unfolding rai_exchange_def t1 Option.bind.simps Let_def t2 ..
  then show ?thesis
    using s2(1,2,5,6) s1(2,5-7) by (intro exI [of _ ?s2] exI [of _ ?t2]) (simp add: rst_to_rai_def)
qed

theorem rai_read_request_witness:
  "\<exists>s' t'. rai_exchange (rai_reset\<lparr>rai_siTAIF_DataReq := Stream 2 [\<lparr>rdr_sessionID = 3, rdr_length = 40\<rparr>]\<rparr>)
     rst_reset = Some (s', t') \<and> rs_appd (RX_SAR_TABLE t' 3) = 40"
proof -
  let ?r = "\<lparr>rdr_sessionID = 3, rdr_length = 40\<rparr>"
  let ?s = "rai_reset\<lparr>rai_siTAIF_DataReq := Stream 2 [?r]\<rparr>"
  have "ras_fsmState ?s = RAS_S0" "items (rai_siTAIF_DataReq ?s) = [?r]" "rdr_length ?r \<noteq> 0"
    "rai_soRSt_RxSarQry ?s = Stream 4 []" "(0::nat) < 4" "rai_siRSt_RxSarRep ?s = Stream 2 []"
    "\<not> sfull (ssRasToMrd_MemRdCmd ?s)" "\<not> sfull (rai_soTAIF_Meta ?s)"
    "sess_ok (rdr_sessionID ?r)" "items (rst_siTXe_RxSarReq rst_reset) = []"
    by (simp_all add: rai_reset_def rst_reset_def sfull_def sess_ok_iff)
  from rai_read_request [OF this] show ?thesis by (auto simp: rst_reset_def)
qed

end
