(* ===== verification/Tx_App.thy ===== *)
theory Tx_App
  imports Rx_Memory
begin

text \<open>
  The Tx application interface (TAi), \<open>NTS/toe/src/tx_app_interface/tx_app_interface.cpp\<close>: the
  application opens and closes connections (Tac), asks to send (Sml, with the pointers of Tat),
  and its data goes to the ring buffer of its session (Mwr); the events that announce the data
  wait until the memory has it (Tash).
\<close>

section \<open>State\<close>

datatype TcpAppSndErr = NO_ERROR | NO_SPACE | NO_CONNECTION

record TcpAppSndReq =
  snq_sessId :: SessionId
  snq_length :: TcpDatLen

record TcpAppSndRep =
  snr_sessId :: SessionId
  snr_length :: TcpDatLen
  snr_spaceLeft :: TcpDatLen
  snr_error :: TcpAppSndErr

record TxAppTableQuery =
  atq_sessId :: SessionId
  atq_mempt :: TxBufPtr
  atq_write :: bool

record TxAppTableReply =
  atr_sessId :: SessionId
  atr_ackd :: "16 word"
  atr_mempt :: TxBufPtr

record TxAppTableEntry =
  at_ackd :: TcpAckNum
  at_mempt :: TxBufPtr

record AppMemMeta =
  amm_sessId :: SessionId
  amm_addr :: TcpBufAdr
  amm_len :: TcpDatLen

datatype TacStates = TAC_IDLE | TAC_GET_FREE_PORT | TAC_CLOSE_CONN

datatype TashStates = TASH_IDLE | TASH_RD_MEM_STATUS_1 | TASH_RD_MEM_STATUS_2

datatype MdlStates = READ_REQUEST | READ_META

record TAi =
  tai_siTAIF_OpnReq :: "SockAddr stream"
  tai_soTAIF_OpnRep :: "SessState stream"
  tai_siTAIF_ClsReq :: "SessionId stream"
  tai_soSLc_SessLookupReq :: "SocketPair stream"
  tai_siSLc_SessLookupRep :: "SessionLookupReply stream"
  tai_soPRt_GetFreePortReq :: "bool stream"
  tai_siPRt_GetFreePortRep :: "TcpPort stream"
  tai_soSTt_ConnectStateQry :: "StateQuery stream"
  tai_siSTt_ConnectStateRep :: "TcpState stream"
  tai_siRXe_ActSessState :: "SessState stream"
  tai_siTIm_Notif :: "SessState stream"
  ssTacToEmx_Event :: "Event stream"
  tac_fsmState :: TacStates
  tac_closeSessionID :: SessionId
  tac_localFifo :: "SockAddr stream"
  ssEmxToTash_Event :: "Event stream"
  tai_siMEM_TxP_WrSts :: "DmSts stream"
  tai_soTSt_PushCmd :: "TAiTxSarPush stream"
  tai_soEVe_Event :: "Event stream"
  tash_fsmState :: TashStates
  tash_ev :: Event
  tai_siTSt_PushCmd :: "TStTxSarPush stream"
  ssSmlToTat_AccessQry :: "TxAppTableQuery stream"
  ssTatToSml_AccessRep :: "TxAppTableReply stream"
  TX_APP_TABLE :: "SessionId \<Rightarrow> TxAppTableEntry"
  tai_siTAIF_SndReq :: "TcpAppSndReq stream"
  tai_soTAIF_SndRep :: "TcpAppSndRep stream"
  tai_soSTt_SessStateReq :: "SessionId stream"
  tai_siSTt_SessStateRep :: "TcpState stream"
  ssSmlToMwr_AppMeta :: "AppMemMeta stream"
  ssSmlToEmx_Event :: "Event stream"
  mdl_fsmState :: MdlStates
  mdl_appSndReq :: TcpAppSndReq
  tai_siTAIF_Data :: "AxisApp stream"
  tmw_soMEM_WrCmd :: "DmCmd stream"
  tmw_soMEM_WrData :: "AxisApp stream"
  tmw_fsmState :: MwrStates
  tmw_appMemMeta :: AppMemMeta
  tmw_memWrCmd :: DmCmd
  tmw_currChunk :: AxisApp
  tmw_firstAccLen :: TxBufPtr
  tmw_nrBytesToWr :: TcpDatLen
  tmw_splitOffset :: "4 word"

section \<open>Opening and closing connections\<close>

definition tac_opnRep :: "SessState \<Rightarrow> 'a TAi_scheme \<Rightarrow> 'a TAi_scheme" where
  "tac_opnRep r s =
     (if \<not> sfull (tai_soTAIF_OpnRep s)
      then s\<lparr>tai_soTAIF_OpnRep := swrite (tai_soTAIF_OpnRep s) r\<rparr> else s)"

definition tac_open :: "'a TAi_scheme \<Rightarrow> 'a TAi_scheme" where
  "tac_open s =
     (case sread (tai_siTAIF_OpnReq s) of
        None \<Rightarrow> s
      | Some (a, si) \<Rightarrow>
          s\<lparr>tai_siTAIF_OpnReq := si, tac_localFifo := swrite (tac_localFifo s) a,
            tai_soPRt_GetFreePortReq := swrite (tai_soPRt_GetFreePortReq s) True,
            tac_fsmState := TAC_GET_FREE_PORT\<rparr>)"

definition tac_lookup_reply :: "SessionLookupReply \<Rightarrow> 'a TAi_scheme \<Rightarrow> 'a TAi_scheme" where
  "tac_lookup_reply rep s =
     (if slr_hit rep then
        s\<lparr>ssTacToEmx_Event := swrite (ssTacToEmx_Event s) (Event_sess SYN_EVENT (slr_sessionID rep)),
          tai_soSTt_ConnectStateQry :=
            swrite (tai_soSTt_ConnectStateQry s) (StateQuery_wr (slr_sessionID rep) SYN_SENT)\<rparr>
      else tac_opnRep \<lparr>ss_sessId = slr_sessionID rep, ss_tcpState = CLOSED\<rparr> s)"

definition tac_idle :: "'a TAi_scheme \<Rightarrow> 'a TAi_scheme" where
  "tac_idle s =
     (if \<not> sempty (tai_siTAIF_OpnReq s) \<and> \<not> sfull (tai_soPRt_GetFreePortReq s) then tac_open s
      else
        (case sread (tai_siSLc_SessLookupRep s) of
           Some (rep, si) \<Rightarrow> tac_lookup_reply rep (s\<lparr>tai_siSLc_SessLookupRep := si\<rparr>)
         | None \<Rightarrow>
             (case sread (tai_siRXe_ActSessState s) of
                Some (st, si) \<Rightarrow> tac_opnRep st (s\<lparr>tai_siRXe_ActSessState := si\<rparr>)
              | None \<Rightarrow>
                  (case sread (tai_siTIm_Notif s) of
                     Some (st, si) \<Rightarrow>
                       (if \<not> sfull (tai_soTAIF_OpnRep s)
                        then s\<lparr>tai_soTAIF_OpnRep := swrite (tai_soTAIF_OpnRep s) st,
                               tai_siTIm_Notif := si\<rparr>
                        else s)
                   | None \<Rightarrow>
                       (case sread (tai_siTAIF_ClsReq s) of
                          Some (i, si) \<Rightarrow>
                            s\<lparr>tai_siTAIF_ClsReq := si, tac_closeSessionID := i,
                              tai_soSTt_ConnectStateQry :=
                                swrite (tai_soSTt_ConnectStateQry s) (StateQuery_rd i),
                              tac_fsmState := TAC_CLOSE_CONN\<rparr>
                        | None \<Rightarrow> s)))))"

text \<open>The read of the local FIFO waits for ever if it is empty.\<close>

definition tac_get_free_port :: "Ip4Addr \<Rightarrow> 'a TAi_scheme \<Rightarrow> 'a TAi_scheme" where
  "tac_get_free_port ip s =
     (if \<not> sempty (tai_siPRt_GetFreePortRep s) \<and> \<not> sfull (tai_soSLc_SessLookupReq s) then
        (case (sread (tai_siPRt_GetFreePortRep s), sread (tac_localFifo s)) of
           (Some (freePort, si1), Some (serverAddr, si2)) \<Rightarrow>
             s\<lparr>tai_siPRt_GetFreePortRep := si1, tac_localFifo := si2,
               tai_soSLc_SessLookupReq := swrite (tai_soSLc_SessLookupReq s)
                 \<lparr>sp_src = \<lparr>sa_addr = ip, sa_port = freePort\<rparr>, sp_dst = serverAddr\<rparr>,
               tac_fsmState := TAC_IDLE\<rparr>
         | _ \<Rightarrow> s)
      else s)"

definition tac_close_conn :: "'a TAi_scheme \<Rightarrow> 'a TAi_scheme" where
  "tac_close_conn s =
     (case sread (tai_siSTt_ConnectStateRep s) of
        None \<Rightarrow> s
      | Some (tcpState, si) \<Rightarrow>
          (let s = s\<lparr>tai_siSTt_ConnectStateRep := si\<rparr>; i = tac_closeSessionID s;
               s = (if tcpState = ESTABLISHED \<or> tcpState = FIN_WAIT_2 \<or> tcpState = FIN_WAIT_1
                    then s\<lparr>tai_soSTt_ConnectStateQry :=
                             swrite (tai_soSTt_ConnectStateQry s) (StateQuery_wr i FIN_WAIT_1),
                           ssTacToEmx_Event := swrite (ssTacToEmx_Event s) (Event_sess FIN_EVENT i)\<rparr>
                    else s\<lparr>tai_soSTt_ConnectStateQry :=
                             swrite (tai_soSTt_ConnectStateQry s) (StateQuery_wr i tcpState)\<rparr>)
           in s\<lparr>tac_fsmState := TAC_IDLE\<rparr>))"

definition pTxAppConnect :: "Ip4Addr \<Rightarrow> 'a TAi_scheme \<Rightarrow> 'a TAi_scheme" where
  "pTxAppConnect ip s =
     (case tac_fsmState s of
        TAC_IDLE \<Rightarrow> tac_idle s
      | TAC_GET_FREE_PORT \<Rightarrow> tac_get_free_port ip s
      | TAC_CLOSE_CONN \<Rightarrow> tac_close_conn s)"

section \<open>Events and the status of the memory\<close>

definition tai_emx :: "'a TAi_scheme \<Rightarrow> 'a TAi_scheme" where
  "tai_emx s =
     (case sread (ssTacToEmx_Event s) of
        Some (ev, si) \<Rightarrow>
          s\<lparr>ssTacToEmx_Event := si, ssEmxToTash_Event := swrite (ssEmxToTash_Event s) ev\<rparr>
      | None \<Rightarrow>
          (case sread (ssSmlToEmx_Event s) of
             Some (ev, si) \<Rightarrow>
               s\<lparr>ssSmlToEmx_Event := si, ssEmxToTash_Event := swrite (ssEmxToTash_Event s) ev\<rparr>
           | None \<Rightarrow> s))"

definition tash_idle :: "'a TAi_scheme \<Rightarrow> 'a TAi_scheme" where
  "tash_idle s =
     (case sread (ssEmxToTash_Event s) of
        None \<Rightarrow> s
      | Some (ev, si) \<Rightarrow>
          (let s = s\<lparr>ssEmxToTash_Event := si, tash_ev := ev\<rparr> in
           if ev_type ev = TX_EVENT then s\<lparr>tash_fsmState := TASH_RD_MEM_STATUS_1\<rparr>
           else s\<lparr>tai_soEVe_Event := swrite (tai_soEVe_Event s) ev\<rparr>))"

definition tash_push :: "'a TAi_scheme \<Rightarrow> 'a TAi_scheme" where
  "tash_push s =
     s\<lparr>tai_soTSt_PushCmd := swrite (tai_soTSt_PushCmd s)
         \<lparr>tap_sessionID = ev_sessionID (tash_ev s),
          tap_app = ev_address (tash_ev s) + ev_length (tash_ev s)\<rparr>,
       tai_soEVe_Event := swrite (tai_soEVe_Event s) (tash_ev s)\<rparr>"

definition tash_status_1 :: "'a TAi_scheme \<Rightarrow> 'a TAi_scheme" where
  "tash_status_1 s =
     (case sread (tai_siMEM_TxP_WrSts s) of
        None \<Rightarrow> s
      | Some (status, si) \<Rightarrow>
          (let s = s\<lparr>tai_siMEM_TxP_WrSts := si\<rparr> in
           if ds_okay status then
             (if 65536 \<le> unat (ev_address (tash_ev s)) + unat (ev_length (tash_ev s))
              then s\<lparr>tash_fsmState := TASH_RD_MEM_STATUS_2\<rparr>
              else (tash_push s)\<lparr>tash_fsmState := TASH_IDLE\<rparr>)
           else s))"

definition tash_status_2 :: "'a TAi_scheme \<Rightarrow> 'a TAi_scheme" where
  "tash_status_2 s =
     (case sread (tai_siMEM_TxP_WrSts s) of
        None \<Rightarrow> s
      | Some (status, si) \<Rightarrow>
          (let s = s\<lparr>tai_siMEM_TxP_WrSts := si\<rparr>;
               s = (if ds_okay status then tash_push s else s)
           in s\<lparr>tash_fsmState := TASH_IDLE\<rparr>))"

definition pTxAppStatusHandler :: "'a TAi_scheme \<Rightarrow> 'a TAi_scheme" where
  "pTxAppStatusHandler s =
     (case tash_fsmState s of
        TASH_IDLE \<Rightarrow> tash_idle s
      | TASH_RD_MEM_STATUS_1 \<Rightarrow> tash_status_1 s
      | TASH_RD_MEM_STATUS_2 \<Rightarrow> tash_status_2 s)"

section \<open>The pointers of the transmit buffers\<close>

definition tat_push :: "TStTxSarPush \<Rightarrow> TxAppTableEntry \<Rightarrow> TxAppTableEntry" where
  "tat_push p e =
     (if tsp_init p
      then e\<lparr>at_ackd := ucast (tsp_ackd p) - 1, at_mempt := tsp_ackd p\<rparr>
      else e\<lparr>at_ackd := ucast (tsp_ackd p)\<rparr>)"

definition pTxAppTable :: "'a TAi_scheme \<Rightarrow> 'a TAi_scheme option" where
  "pTxAppTable s =
     (case sread (tai_siTSt_PushCmd s) of
        Some (p, si) \<Rightarrow>
          (let i = tsp_sessionID p in
           in_bounds i
             (Some (s\<lparr>tai_siTSt_PushCmd := si,
                      TX_APP_TABLE := (TX_APP_TABLE s)(i := tat_push p (TX_APP_TABLE s i))\<rparr>)))
      | None \<Rightarrow>
          (case sread (ssSmlToTat_AccessQry s) of
             None \<Rightarrow> Some s
           | Some (q, si) \<Rightarrow>
               (let i = atq_sessId q; s = s\<lparr>ssSmlToTat_AccessQry := si\<rparr> in
                in_bounds i
                  (if atq_write q then
                     Some (s\<lparr>TX_APP_TABLE :=
                              (TX_APP_TABLE s)(i := (TX_APP_TABLE s i)\<lparr>at_mempt := atq_mempt q\<rparr>)\<rparr>)
                   else
                     Some (s\<lparr>ssTatToSml_AccessRep := swrite (ssTatToSml_AccessRep s)
                               \<lparr>atr_sessId = i, atr_ackd = ucast (at_ackd (TX_APP_TABLE s i)),
                                atr_mempt = at_mempt (TX_APP_TABLE s i)\<rparr>\<rparr>)))))"

section \<open>Requests to send\<close>

definition sml_request :: "'a TAi_scheme \<Rightarrow> 'a TAi_scheme" where
  "sml_request s =
     (case sread (tai_siTAIF_SndReq s) of
        None \<Rightarrow> s
      | Some (req, si) \<Rightarrow>
          s\<lparr>tai_siTAIF_SndReq := si, mdl_appSndReq := req,
            tai_soSTt_SessStateReq := swrite (tai_soSTt_SessStateReq s) (snq_sessId req),
            ssSmlToTat_AccessQry := swrite (ssSmlToTat_AccessQry s)
              \<lparr>atq_sessId = snq_sessId req, atq_mempt = 0, atq_write = False\<rparr>,
            mdl_fsmState := READ_META\<rparr>)"

definition sml_maxWriteLength :: "TxAppTableReply \<Rightarrow> TcpDatLen" where
  "sml_maxWriteLength r = atr_ackd r - atr_mempt r - 1"

definition sml_reply :: "TcpDatLen \<Rightarrow> TcpAppSndErr \<Rightarrow> 'a TAi_scheme \<Rightarrow> 'a TAi_scheme" where
  "sml_reply space rc s =
     s\<lparr>tai_soTAIF_SndRep := swrite (tai_soTAIF_SndRep s)
         \<lparr>snr_sessId = snq_sessId (mdl_appSndReq s), snr_length = snq_length (mdl_appSndReq s),
          snr_spaceLeft = space, snr_error = rc\<rparr>\<rparr>"

definition sml_accept :: "TxBufPtr \<Rightarrow> 'a TAi_scheme \<Rightarrow> 'a TAi_scheme" where
  "sml_accept mempt s =
     (let i = snq_sessId (mdl_appSndReq s); len = snq_length (mdl_appSndReq s) in
      s\<lparr>ssSmlToMwr_AppMeta := swrite (ssSmlToMwr_AppMeta s)
          \<lparr>amm_sessId = i, amm_addr = mempt, amm_len = len\<rparr>,
        ssSmlToEmx_Event := swrite (ssSmlToEmx_Event s) (Event_adr TX_EVENT i mempt len),
        ssSmlToTat_AccessQry := swrite (ssSmlToTat_AccessQry s)
          \<lparr>atq_sessId = i, atq_mempt = mempt + len, atq_write = True\<rparr>\<rparr>)"

definition sml_meta :: "'a TAi_scheme \<Rightarrow> 'a TAi_scheme" where
  "sml_meta s =
     (case (sread (ssTatToSml_AccessRep s), sread (tai_siSTt_SessStateRep s)) of
        (Some (r, si1), Some (sessState, si2)) \<Rightarrow>
          (let s = s\<lparr>ssTatToSml_AccessRep := si1, tai_siSTt_SessStateRep := si2\<rparr>;
               space = sml_maxWriteLength r;
               s = (if \<not> sfull (tai_soTAIF_SndRep s) then
                      (if sessState \<noteq> ESTABLISHED then sml_reply space NO_CONNECTION s
                       else if space < snq_length (mdl_appSndReq s) then sml_reply space NO_SPACE s
                       else sml_accept (atr_mempt r) (sml_reply space NO_ERROR s))
                    else s)
           in s\<lparr>mdl_fsmState := READ_REQUEST\<rparr>)
      | _ \<Rightarrow> s)"

definition pStreamMetaLoader :: "'a TAi_scheme \<Rightarrow> 'a TAi_scheme" where
  "pStreamMetaLoader s =
     (case mdl_fsmState s of READ_REQUEST \<Rightarrow> sml_request s | READ_META \<Rightarrow> sml_meta s)"

section \<open>The memory writer\<close>

definition TOE_TX_BUFFER_SIZE :: nat where
  "TOE_TX_BUFFER_SIZE = 65536"

definition TOE_TX_MEMORY_BASE :: "32 word" where
  "TOE_TX_MEMORY_BASE = 0xC0000000"

definition tmw_memSegAddr :: "SessionId \<Rightarrow> TcpBufAdr \<Rightarrow> 32 word" where
  "tmw_memSegAddr i a = set_range 15 0 (ucast a) (set_range 29 16 (ucast i) TOE_TX_MEMORY_BASE)"

definition tmw_cmd :: "AppMemMeta \<Rightarrow> DmCmd" where
  "tmw_cmd m = DmCmd_of (ucast (tmw_memSegAddr (amm_sessId m) (amm_addr m))) (ucast (amm_len m))"

definition tmw_idle :: "'a TAi_scheme \<Rightarrow> 'a TAi_scheme" where
  "tmw_idle s =
     (if \<not> sempty (ssSmlToMwr_AppMeta s) \<and> \<not> sfull (tmw_soMEM_WrCmd s) then
        (case sread (ssSmlToMwr_AppMeta s) of
           None \<Rightarrow> s
         | Some (m, si) \<Rightarrow>
             (let c = tmw_cmd m;
                  s = s\<lparr>ssSmlToMwr_AppMeta := si, tmw_appMemMeta := m, tmw_memWrCmd := c\<rparr> in
              if TOE_TX_BUFFER_SIZE < unat (get_range 15 0 (dm_saddr c)) + unat (dm_btt c)
              then s\<lparr>tmw_fsmState := MWR_SPLIT_1ST_CMD\<rparr>
              else s\<lparr>tmw_soMEM_WrCmd := swrite (tmw_soMEM_WrCmd s) c,
                     tmw_firstAccLen := ucast (dm_btt c), tmw_nrBytesToWr := ucast (dm_btt c),
                     tmw_fsmState := MWR_FWD_ALIGNED\<rparr>))
      else s)"

definition tmw_split_1st_cmd :: "'a TAi_scheme \<Rightarrow> 'a TAi_scheme" where
  "tmw_split_1st_cmd s =
     (if \<not> sfull (tmw_soMEM_WrCmd s) then
        (let a = dm_saddr (tmw_memWrCmd s);
             len = ucast (of_nat TOE_TX_BUFFER_SIZE - a)
         in s\<lparr>tmw_firstAccLen := len, tmw_nrBytesToWr := len,
              tmw_soMEM_WrCmd := swrite (tmw_soMEM_WrCmd s) (DmCmd_of a (ucast len)),
              tmw_fsmState := MWR_FWD_1ST_BUF\<rparr>)
      else s)"

definition tmw_fwd_aligned :: "'a TAi_scheme \<Rightarrow> 'a TAi_scheme" where
  "tmw_fwd_aligned s =
     (if \<not> sempty (tai_siTAIF_Data s) \<and> \<not> sfull (tmw_soMEM_WrData s) then
        (case sread (tai_siTAIF_Data s) of
           None \<Rightarrow> s
         | Some (memChunk, si) \<Rightarrow>
             (let s = s\<lparr>tai_siTAIF_Data := si,
                        tmw_soMEM_WrData := swrite (tmw_soMEM_WrData s) memChunk\<rparr>
              in if ax_tlast memChunk then s\<lparr>tmw_fsmState := MWR_IDLE\<rparr> else s))
      else s)"

definition tmw_second_cmd :: "'a TAi_scheme \<Rightarrow> 'a TAi_scheme" where
  "tmw_second_cmd s =
     (let c = tmw_memWrCmd s;
          c = c\<lparr>dm_saddr := set_range 15 0 0 (dm_saddr c),
                dm_btt := dm_btt c - ucast (tmw_firstAccLen s)\<rparr>
      in s\<lparr>tmw_memWrCmd := c, tmw_soMEM_WrCmd := swrite (tmw_soMEM_WrCmd s) c\<rparr>)"

text \<open>Unlike the memory writer of the Rx engine, this one continues with the second buffer even if
  the chunk that ends the first one is the last.\<close>

definition tmw_fwd_1st_buf :: "'a TAi_scheme \<Rightarrow> 'a TAi_scheme" where
  "tmw_fwd_1st_buf s =
     (if \<not> sempty (tai_siTAIF_Data s) \<and> \<not> sfull (tmw_soMEM_WrData s) then
        (case sread (tai_siTAIF_Data s) of
           None \<Rightarrow> s
         | Some (c, si) \<Rightarrow>
             (let s = s\<lparr>tai_siTAIF_Data := si, tmw_currChunk := c\<rparr>; n = tmw_nrBytesToWr s in
              if 8 < n then
                s\<lparr>tmw_nrBytesToWr := n - 8, tmw_soMEM_WrData := swrite (tmw_soMEM_WrData s) c\<rparr>
              else if \<not> sfull (tmw_soMEM_WrCmd s) then
                (if n = 8 then
                   (tmw_second_cmd s)\<lparr>tmw_fsmState := MWR_FWD_ALIGNED,
                      tmw_soMEM_WrData := swrite (tmw_soMEM_WrData s) (c\<lparr>ax_tlast := True\<rparr>)\<rparr>
                 else
                   (tmw_second_cmd s)\<lparr>tmw_splitOffset := 8 - ucast n, tmw_fsmState := MWR_FWD_2ND_BUF,
                      tmw_soMEM_WrData := swrite (tmw_soMEM_WrData s)
                        (c\<lparr>ax_tlast := True, ax_tkeep := lenToLE_tKeep (ucast n)\<rparr>)\<rparr>)
              else s\<lparr>tmw_soMEM_WrData := swrite (tmw_soMEM_WrData s) c\<rparr>))
      else s)"

definition tmw_fwd_2nd_buf :: "'a TAi_scheme \<Rightarrow> 'a TAi_scheme" where
  "tmw_fwd_2nd_buf s =
     (if \<not> sempty (tai_siTAIF_Data s) \<and> \<not> sfull (tmw_soMEM_WrData s) then
        (case sread (tai_siTAIF_Data s) of
           None \<Rightarrow> s
         | Some (c, si) \<Rightarrow>
             (let joined = mwr_join (unat (tmw_splitOffset s)) (tmw_currChunk s) c;
                  s = s\<lparr>tai_siTAIF_Data := si, tmw_currChunk := c\<rparr>
              in if ax_tlast c then
                   (if unat (tmw_nrBytesToWr s) < getLen c
                    then s\<lparr>tmw_fsmState := MWR_RESIDUE,
                           tmw_soMEM_WrData := swrite (tmw_soMEM_WrData s) joined\<rparr>
                    else s\<lparr>tmw_fsmState := MWR_IDLE,
                           tmw_soMEM_WrData := swrite (tmw_soMEM_WrData s) (joined\<lparr>ax_tlast := True\<rparr>)\<rparr>)
                 else s\<lparr>tmw_soMEM_WrData := swrite (tmw_soMEM_WrData s) joined\<rparr>))
      else s)"

definition tmw_residue :: "'a TAi_scheme \<Rightarrow> 'a TAi_scheme" where
  "tmw_residue s =
     (if \<not> sfull (tmw_soMEM_WrData s) then
        s\<lparr>tmw_soMEM_WrData := swrite (tmw_soMEM_WrData s)
            ((mwr_tail (unat (tmw_splitOffset s)) (tmw_currChunk s))\<lparr>ax_tlast := True\<rparr>),
          tmw_fsmState := MWR_IDLE\<rparr>
      else s)"

definition pTxMemoryWriter :: "'a TAi_scheme \<Rightarrow> 'a TAi_scheme" where
  "pTxMemoryWriter s =
     (case tmw_fsmState s of
        MWR_IDLE \<Rightarrow> tmw_idle s
      | MWR_SPLIT_1ST_CMD \<Rightarrow> tmw_split_1st_cmd s
      | MWR_FWD_ALIGNED \<Rightarrow> tmw_fwd_aligned s
      | MWR_FWD_1ST_BUF \<Rightarrow> tmw_fwd_1st_buf s
      | MWR_FWD_2ND_BUF \<Rightarrow> tmw_fwd_2nd_buf s
      | MWR_RESIDUE \<Rightarrow> tmw_residue s)"

section \<open>The interface\<close>

definition tx_app_interface :: "Ip4Addr \<Rightarrow> 'a TAi_scheme \<Rightarrow> 'a TAi_scheme option" where
  "tx_app_interface ip s =
     pTxAppTable (pTxAppConnect ip (pTxMemoryWriter (pStreamMetaLoader (pTxAppStatusHandler (tai_emx s)))))"

definition tai_reset :: TAi where
  "tai_reset = \<lparr>tai_siTAIF_OpnReq = Stream 4 [], tai_soTAIF_OpnRep = Stream 4 [],
     tai_siTAIF_ClsReq = Stream 4 [], tai_soSLc_SessLookupReq = Stream 4 [],
     tai_siSLc_SessLookupRep = Stream 4 [], tai_soPRt_GetFreePortReq = Stream 4 [],
     tai_siPRt_GetFreePortRep = Stream 4 [], tai_soSTt_ConnectStateQry = Stream 2 [],
     tai_siSTt_ConnectStateRep = Stream 2 [], tai_siRXe_ActSessState = Stream 4 [],
     tai_siTIm_Notif = Stream 4 [], ssTacToEmx_Event = Stream 2 [], tac_fsmState = TAC_IDLE,
     tac_closeSessionID = 0, tac_localFifo = Stream 4 [], ssEmxToTash_Event = Stream 2 [],
     tai_siMEM_TxP_WrSts = Stream 4 [], tai_soTSt_PushCmd = Stream 4 [], tai_soEVe_Event = Stream 8 [],
     tash_fsmState = TASH_IDLE, tash_ev = Event_sess TX_EVENT 0, tai_siTSt_PushCmd = Stream 4 [],
     ssSmlToTat_AccessQry = Stream 2 [], ssTatToSml_AccessRep = Stream 2 [],
     TX_APP_TABLE = (\<lambda>_. \<lparr>at_ackd = 0, at_mempt = 0\<rparr>), tai_siTAIF_SndReq = Stream 4 [],
     tai_soTAIF_SndRep = Stream 4 [], tai_soSTt_SessStateReq = Stream 2 [],
     tai_siSTt_SessStateRep = Stream 2 [], ssSmlToMwr_AppMeta = Stream 32 [],
     ssSmlToEmx_Event = Stream 2 [], mdl_fsmState = READ_REQUEST,
     mdl_appSndReq = \<lparr>snq_sessId = 0, snq_length = 0\<rparr>, tai_siTAIF_Data = Stream 4 [],
     tmw_soMEM_WrCmd = Stream 4 [], tmw_soMEM_WrData = Stream 4 [], tmw_fsmState = MWR_IDLE,
     tmw_appMemMeta = \<lparr>amm_sessId = 0, amm_addr = 0, amm_len = 0\<rparr>, tmw_memWrCmd = DmCmd_of 0 0,
     tmw_currChunk = AxisApp_zero, tmw_firstAccLen = 0, tmw_nrBytesToWr = 0, tmw_splitOffset = 0\<rparr>"

end
