(* ===== verification/Tx_Buffer.thy ===== *)
theory Tx_Buffer
  imports Tx_App
begin

text \<open>
  The flow control of the transmit buffers: the metadata loader (Sml) and the pointer table (Tat)
  of the Tx application interface (\<open>Tx_App\<close>) exchange queries and replies over streams while the
  Tx SAR table pushes acknowledgements.  The theory shows that in every interleaving no accepted
  request writes over bytes that the peer has not acknowledged.
\<close>

section \<open>One session\<close>

text \<open>The acknowledged byte that a push of the Tx SAR table stands for.\<close>

definition push_value :: "TStTxSarPush \<Rightarrow> 16 word" where
  "push_value p = (if tsp_init p then tsp_ackd p - 1 else tsp_ackd p)"

definition init_first :: "TStTxSarPush list \<Rightarrow> bool" where
  "init_first ps \<longleftrightarrow> ps \<noteq> [] \<and> tsp_init (hd ps)"

text \<open>The acknowledgement pointers that the table goes through while it takes the pushes \<open>ps\<close>, and
  the write pointer when it has taken the pending update \<open>wq\<close> too.\<close>

definition ack_values :: "TStTxSarPush list \<Rightarrow> TxAppTableEntry \<Rightarrow> 16 word list" where
  "ack_values ps e = (if init_first ps then [] else [ucast (at_ackd e)]) @ map push_value ps"

definition next_mempt :: "TStTxSarPush list \<Rightarrow> TxAppTableEntry \<Rightarrow> TxBufPtr option \<Rightarrow> TxBufPtr" where
  "next_mempt ps e wq = (case wq of Some m \<Rightarrow> m
     | None \<Rightarrow> if init_first ps then tsp_ackd (hd ps) else at_mempt e)"

text \<open>
  The position \<open>W\<close> of the next byte that the application writes and the position \<open>A\<close> up to which
  the peer has acknowledged, as unbounded integers: the table and every reply hold them modulo
  \<open>2^16\<close>, with an acknowledgement that may be older than \<open>A\<close> but is never more than a buffer behind.
\<close>

definition tx_inv :: "TStTxSarPush list \<Rightarrow> TxAppTableEntry \<Rightarrow> TxBufPtr option \<Rightarrow>
    TxAppTableReply option \<Rightarrow> int \<Rightarrow> int \<Rightarrow> bool" where
  "tx_inv ps e wq rp W A \<longleftrightarrow> (\<forall>p \<in> set (tl ps). \<not> tsp_init p) \<and>
     (wq \<noteq> None \<or> rp \<noteq> None \<longrightarrow> \<not> init_first ps) \<and> (rp \<noteq> None \<longrightarrow> wq = None) \<and>
     next_mempt ps e wq = of_int W \<and> A \<le> W \<and>
     (\<exists>as. sorted as \<and> as \<noteq> [] \<and> ack_values ps e = map of_int as \<and> last as = A \<and> W - 65535 \<le> hd as \<and>
       (\<forall>r. rp = Some r \<longrightarrow> atr_mempt r = of_int W \<and>
          (\<exists>a. atr_ackd r = of_int a \<and> W - 65535 \<le> a \<and> a \<le> hd as)))"

lemma hd_le_last: "sorted as \<Longrightarrow> as \<noteq> [] \<Longrightarrow> hd as \<le> last as"
  by (cases as) auto

lemma le_last: "sorted as \<Longrightarrow> x \<in> set as \<Longrightarrow> x \<le> last as"
  by (induction as) auto

lemma tx_inv_ack:
  assumes "tx_inv ps e wq rp W A" "A \<le> a" "a \<le> W" "\<not> tsp_init p" "tsp_ackd p = of_int a"
  shows "tx_inv (ps @ [p]) e wq rp W a"
proof -
  obtain as where as: "sorted as" "as \<noteq> []" "ack_values ps e = map of_int as" "last as = A"
      "W - 65535 \<le> hd as" "\<forall>r. rp = Some r \<longrightarrow> atr_mempt r = of_int W \<and>
        (\<exists>a. atr_ackd r = of_int a \<and> W - 65535 \<le> a \<and> a \<le> hd as)"
    and rest: "\<forall>p \<in> set (tl ps). \<not> tsp_init p" "wq \<noteq> None \<or> rp \<noteq> None \<longrightarrow> \<not> init_first ps"
      "rp \<noteq> None \<longrightarrow> wq = None" "next_mempt ps e wq = of_int W"
    using assms(1) unfolding tx_inv_def by blast
  have first: "init_first (ps @ [p]) = init_first ps" using assms(4) by (cases ps) (auto simp: init_first_def)
  have "x \<le> a" if "x \<in> set as" for x
    using le_last [OF as(1) that] as(4) assms(2) by simp
  then have "sorted (as @ [a])" using as(1) by (simp add: sorted_append)
  moreover have "ack_values (ps @ [p]) e = map of_int (as @ [a])"
    using as(3) first assms(4,5) by (simp add: ack_values_def push_value_def)
  moreover have "next_mempt (ps @ [p]) e wq = of_int W"
    using rest(4) first by (cases ps) (auto simp: next_mempt_def init_first_def split: option.splits)
  moreover have "\<forall>q \<in> set (tl (ps @ [p])). \<not> tsp_init q"
    using rest(1) assms(4) by (cases ps) auto
  ultimately show ?thesis
    unfolding tx_inv_def first using as(2,5,6) rest(2,3) assms(3)
    by (intro conjI exI [of _ "as @ [a]"]) auto
qed

lemma tx_inv_init:
  assumes "tsp_init p" "tsp_ackd p = of_int W"
  shows "tx_inv [p] e None None W (W - 1)"
  unfolding tx_inv_def
  by (intro conjI exI [of _ "[W - 1]"])
    (use assms in \<open>simp_all add: next_mempt_def init_first_def ack_values_def push_value_def\<close>)

lemma ucast_ucast_16: "(ucast (ucast (a :: 16 word) :: 32 word) :: 16 word) = a"
  by (rule bit_word_eqI) (simp add: bit_ucast_iff)

lemma ucast_minus_1: "(ucast ((ucast (a :: 16 word) :: 32 word) - 1) :: 16 word) = a - 1"
proof -
  have "uint a mod 4294967296 = uint a"
    using uint_bounded [of a] by (intro mod_pos_pos_trivial) auto
  then show ?thesis
    by (simp add: word_uint_eq_iff unsigned_ucast_eq uint_word_ariths take_bit_eq_mod mod_mod_cancel)
qed

lemma ucast_tat_push: "ucast (at_ackd (tat_push p e)) = push_value p"
  by (simp add: tat_push_def push_value_def ucast_minus_1 ucast_ucast_16)

lemma tx_inv_push:
  assumes "tx_inv (p # ps) e wq rp W A"
  shows "tx_inv ps (tat_push p e) wq rp W A"
proof -
  obtain as where as: "sorted as" "as \<noteq> []" "ack_values (p # ps) e = map of_int as" "last as = A"
      "W - 65535 \<le> hd as" "\<forall>r. rp = Some r \<longrightarrow> atr_mempt r = of_int W \<and>
        (\<exists>a. atr_ackd r = of_int a \<and> W - 65535 \<le> a \<and> a \<le> hd as)"
    and rest: "\<forall>q \<in> set ps. \<not> tsp_init q" "wq \<noteq> None \<or> rp \<noteq> None \<longrightarrow> \<not> tsp_init p"
      "rp \<noteq> None \<longrightarrow> wq = None" "next_mempt (p # ps) e wq = of_int W" "A \<le> W"
    using assms unfolding tx_inv_def init_first_def by auto
  have first: "\<not> init_first ps" using rest(1) by (cases ps) (auto simp: init_first_def)
  have vals: "ack_values ps (tat_push p e) = push_value p # map push_value ps"
    using first by (simp add: ack_values_def ucast_tat_push)
  let ?bs = "if tsp_init p then as else tl as"
  have bs: "ack_values ps (tat_push p e) = map of_int ?bs"
    using as(3) unfolding vals by (cases as) (auto simp: ack_values_def init_first_def)
  then have ne: "?bs \<noteq> []" unfolding vals by auto
  have "sorted ?bs" "last ?bs = A" using as(1,2,4) ne by (auto simp: last_tl sorted_tl)
  moreover have hd: "hd as \<le> hd ?bs" using as(1,2) ne by (cases as) (auto simp: neq_Nil_conv)
  moreover from hd have reply: "\<forall>r. rp = Some r \<longrightarrow> atr_mempt r = of_int W \<and>
      (\<exists>a. atr_ackd r = of_int a \<and> W - 65535 \<le> a \<and> a \<le> hd ?bs)"
    using as(6) by (blast intro: order_trans [OF _ hd])
  moreover have "next_mempt ps (tat_push p e) wq = of_int W"
    using rest(4) first by (auto simp: next_mempt_def init_first_def tat_push_def split: option.splits)
  moreover have "\<forall>q \<in> set (tl ps). \<not> tsp_init q" using rest(1) by (cases ps) auto
  ultimately show ?thesis
    unfolding tx_inv_def using as(5) reply rest(2,3,5) first bs ne
    by (intro conjI exI [of _ ?bs]) (auto intro: order_trans)
qed

lemma tx_inv_write:
  assumes "tx_inv [] e (Some m) rp W A"
  shows "tx_inv [] (e\<lparr>at_mempt := m\<rparr>) None rp W A"
  using assms unfolding tx_inv_def by (auto simp: next_mempt_def init_first_def ack_values_def)

lemma tx_inv_read:
  assumes "tx_inv [] e None None W A"
  shows "tx_inv [] e None (Some \<lparr>atr_sessId = i, atr_ackd = ucast (at_ackd e), atr_mempt = at_mempt e\<rparr>) W A"
proof -
  from assms obtain as where as: "sorted as" "as \<noteq> []" "ack_values [] e = map of_int as" "last as = A"
      "W - 65535 \<le> hd as" and rest: "next_mempt [] e None = of_int W" "A \<le> W"
    unfolding tx_inv_def by blast
  have "ucast (at_ackd e) = (of_int (hd as) :: 16 word)"
    using as(2,3) by (cases as) (auto simp: ack_values_def init_first_def)
  then show ?thesis
    unfolding tx_inv_def using as rest
    by (intro conjI exI [of _ as]) (auto simp: next_mempt_def init_first_def)
qed

lemma tx_inv_le: "tx_inv ps e wq rp W A \<Longrightarrow> A \<le> W"
  unfolding tx_inv_def by blast

lemma tx_inv_refuse: "tx_inv ps e wq rp W A \<Longrightarrow> tx_inv ps e wq None W A"
  unfolding tx_inv_def by blast

text \<open>The space that the loader computes from a reply.\<close>

lemma uint_space:
  assumes "atr_mempt r = of_int W" "atr_ackd r = of_int a" "W - 65535 \<le> a" "a \<le> W"
  shows "uint (sml_maxWriteLength r) = 65535 - (W - a)"
proof -
  have "uint (sml_maxWriteLength r) = (a - W - 1) mod 65536"
    using assms(1,2) by (simp add: sml_maxWriteLength_def uint_word_ariths uint_word_of_int
        mod_diff_left_eq mod_diff_right_eq mod_diff_eq)
  also have "\<dots> = (a - W - 1 + 65536) mod 65536" by (simp only: mod_add_self2)
  also have "\<dots> = a - W - 1 + 65536" using assms(3,4) by (intro mod_pos_pos_trivial) auto
  finally show ?thesis by simp
qed

lemma tx_inv_accept:
  assumes "tx_inv ps e None (Some r) W A" "len \<le> sml_maxWriteLength r"
  shows "tx_inv ps e (Some (atr_mempt r + len)) None (W + uint len) A"
    "atr_mempt r = of_int W" "W + uint len \<le> A + 65535"
proof -
  obtain as a where as: "sorted as" "as \<noteq> []" "ack_values ps e = map of_int as" "last as = A"
      "W - 65535 \<le> hd as"
    and r: "atr_mempt r = of_int W" "atr_ackd r = of_int a" "W - 65535 \<le> a" "a \<le> hd as"
    and rest: "\<forall>p \<in> set (tl ps). \<not> tsp_init p" "\<not> init_first ps" "A \<le> W"
    using assms(1) unfolding tx_inv_def by auto
  have aA: "a \<le> A" using r(4) hd_le_last [OF as(1,2)] as(4) by simp
  then have "uint len \<le> 65535 - (W - a)"
    using uint_space [OF r(1-3)] rest(3) assms(2) by (simp add: word_le_def)
  moreover show "atr_mempt r = of_int W" by (rule r(1))
  ultimately show "W + uint len \<le> A + 65535" using aA by simp
  have "atr_mempt r + len = of_int (W + uint len)" using r(1) by simp
  then show "tx_inv ps e (Some (atr_mempt r + len)) None (W + uint len) A"
    unfolding tx_inv_def using as rest r(4) \<open>uint len \<le> 65535 - (W - a)\<close>
      aA add_increasing2 [OF uint_ge_0 [of len] rest(3)]
    by (intro conjI exI [of _ as]) (auto simp: next_mempt_def)
qed


section \<open>The streams of one session\<close>

definition tx_pushes :: "SessionId \<Rightarrow> 'a TAi_scheme \<Rightarrow> TStTxSarPush list" where
  "tx_pushes j s = [p \<leftarrow> items (tai_siTSt_PushCmd s). tsp_sessionID p = j]"

definition tx_pending :: "SessionId \<Rightarrow> 'a TAi_scheme \<Rightarrow> TxBufPtr option" where
  "tx_pending j s =
     (case [q \<leftarrow> items (ssSmlToTat_AccessQry s). atq_sessId q = j \<and> atq_write q] of
        [] \<Rightarrow> None | q # _ \<Rightarrow> Some (atq_mempt q))"

definition tx_reply :: "SessionId \<Rightarrow> 'a TAi_scheme \<Rightarrow> TxAppTableReply option" where
  "tx_reply j s =
     (case [r \<leftarrow> items (ssTatToSml_AccessRep s). atr_sessId r = j] of [] \<Rightarrow> None | r # _ \<Rightarrow> Some r)"

text \<open>What is in flight between the loader and the table, in each state of the loader.\<close>

definition sml_request_inv :: "TxAppTableQuery list \<Rightarrow> TxAppTableReply list \<Rightarrow> bool" where
  "sml_request_inv qs rs \<longleftrightarrow> rs = [] \<and> (qs = [] \<or> (\<exists>w. qs = [w] \<and> atq_write w))"

definition sml_meta_inv :: "SessionId \<Rightarrow> TxAppTableQuery list \<Rightarrow> TxAppTableReply list \<Rightarrow> bool" where
  "sml_meta_inv i qs rs \<longleftrightarrow> (qs = [] \<and> (\<exists>r. rs = [r] \<and> atr_sessId r = i)) \<or>
     (\<exists>ws q. rs = [] \<and> qs = ws @ [q] \<and> sml_request_inv ws [] \<and> \<not> atq_write q \<and> atq_sessId q = i)"

definition sml_proto :: "'a TAi_scheme \<Rightarrow> bool" where
  "sml_proto s \<longleftrightarrow>
     (case mdl_fsmState s of
        READ_REQUEST \<Rightarrow>
          sml_request_inv (items (ssSmlToTat_AccessQry s)) (items (ssTatToSml_AccessRep s))
      | READ_META \<Rightarrow>
          sml_meta_inv (snq_sessId (mdl_appSndReq s))
            (items (ssSmlToTat_AccessQry s)) (items (ssTatToSml_AccessRep s)))"

definition tx_ok :: "SessionId \<Rightarrow> 'a TAi_scheme \<Rightarrow> int \<Rightarrow> int \<Rightarrow> bool" where
  "tx_ok j s W A \<longleftrightarrow> sml_proto s \<and>
     tx_inv (tx_pushes j s) (TX_APP_TABLE s j) (tx_pending j s) (tx_reply j s) W A"

text \<open>The bytes of session \<open>j\<close> in the accepted requests \<open>ms\<close>.\<close>

definition amm_total :: "SessionId \<Rightarrow> AppMemMeta list \<Rightarrow> int" where
  "amm_total j ms = (\<Sum>m \<leftarrow> ms. if amm_sessId m = j then uint (amm_len m) else 0)"

text \<open>Steps of the other processes and of the neighbours leave the flow control as it is.\<close>

definition tx_same :: "'a TAi_scheme \<Rightarrow> 'a TAi_scheme \<Rightarrow> bool" where
  "tx_same s t \<longleftrightarrow> tai_siTSt_PushCmd t = tai_siTSt_PushCmd s \<and>
     ssSmlToTat_AccessQry t = ssSmlToTat_AccessQry s \<and>
     ssTatToSml_AccessRep t = ssTatToSml_AccessRep s \<and> TX_APP_TABLE t = TX_APP_TABLE s \<and>
     mdl_fsmState t = mdl_fsmState s \<and> mdl_appSndReq t = mdl_appSndReq s"

text \<open>
  The runs of the interface as session \<open>j\<close> sees them: the session starts at any position when the
  Tx SAR table initialises it while nothing of it is in flight, the peer acknowledges bytes that
  were written, and the processes take their steps in any order.
\<close>

inductive tx_run :: "SessionId \<Rightarrow> TAi \<Rightarrow> int \<Rightarrow> int \<Rightarrow> bool" for j where
  boot: "tx_run j tai_reset 0 0"
| env: "tx_run j s W A \<Longrightarrow> tx_same s t \<Longrightarrow> tx_run j t W A"
| init: "tx_run j s W A \<Longrightarrow> tsp_init p \<Longrightarrow> tsp_sessionID p = j \<Longrightarrow> tsp_ackd p = of_int X \<Longrightarrow>
    tx_pushes j s = [] \<Longrightarrow> tx_pending j s = None \<Longrightarrow> tx_reply j s = None \<Longrightarrow>
    tx_run j (s\<lparr>tai_siTSt_PushCmd := swrite (tai_siTSt_PushCmd s) p\<rparr>) X (X - 1)"
| ack: "tx_run j s W A \<Longrightarrow> \<not> tsp_init p \<Longrightarrow> tsp_sessionID p = j \<Longrightarrow> tsp_ackd p = of_int a \<Longrightarrow>
    A \<le> a \<Longrightarrow> a \<le> W \<Longrightarrow> tx_run j (s\<lparr>tai_siTSt_PushCmd := swrite (tai_siTSt_PushCmd s) p\<rparr>) W a"
| other: "tx_run j s W A \<Longrightarrow> tsp_sessionID p \<noteq> j \<Longrightarrow>
    tx_run j (s\<lparr>tai_siTSt_PushCmd := swrite (tai_siTSt_PushCmd s) p\<rparr>) W A"
| sml: "tx_run j s W A \<Longrightarrow>
    items (ssSmlToMwr_AppMeta (pStreamMetaLoader s)) = items (ssSmlToMwr_AppMeta s) @ ms \<Longrightarrow>
    tx_run j (pStreamMetaLoader s) (W + amm_total j ms) A"
| tat: "tx_run j s W A \<Longrightarrow> pTxAppTable s = Some t \<Longrightarrow> tx_run j t W A"

section \<open>The steps keep the invariant\<close>

lemma tx_ok_same: "tx_ok j s W A \<Longrightarrow> tx_same s t \<Longrightarrow> tx_ok j t W A"
  by (cases "mdl_fsmState s")
    (simp_all add: tx_ok_def tx_same_def sml_proto_def tx_pushes_def tx_pending_def tx_reply_def)

lemma tx_ok_reset: "tx_ok j tai_reset 0 0"
  unfolding tx_ok_def tx_inv_def
  by (intro conjI exI [of _ "[0]"])
    (simp_all add: tai_reset_def sml_proto_def sml_request_inv_def tx_pushes_def tx_pending_def
      tx_reply_def init_first_def ack_values_def next_mempt_def)

lemma tx_push_fields [simp]:
  fixes s :: "'a TAi_scheme"
  defines "t \<equiv> \<lambda>p. s\<lparr>tai_siTSt_PushCmd := swrite (tai_siTSt_PushCmd s) p\<rparr>"
  shows "sml_proto (t p) = sml_proto s" "TX_APP_TABLE (t p) = TX_APP_TABLE s"
    "tx_pending j (t p) = tx_pending j s" "tx_reply j (t p) = tx_reply j s"
    "tx_pushes j (t p) = tx_pushes j s @ (if tsp_sessionID p = j then [p] else [])"
  by (simp_all add: t_def sml_proto_def tx_pending_def tx_reply_def tx_pushes_def
      cong: MdlStates.case_cong)

lemma tx_ok_request:
  assumes "tx_ok j s W A" "mdl_fsmState s = READ_REQUEST"
  shows "tx_ok j (sml_request s) W A"
proof (cases "sread (tai_siTAIF_SndReq s)")
  case (Some x)
  obtain req si where x: "x = (req, si)" by fastforce
  show ?thesis
    using assms Some unfolding x
    by (auto simp: sml_request_def tx_ok_def sml_proto_def sml_meta_inv_def tx_pushes_def tx_pending_def
        tx_reply_def sml_request_inv_def)
qed (use assms in \<open>simp add: sml_request_def\<close>)

text \<open>The loader takes a reply and the session state: it refuses or accepts.\<close>

lemma tx_ok_refuse:
  assumes "tx_ok j s W A" "mdl_fsmState s = READ_META" "sread (ssTatToSml_AccessRep s) = Some (r, si)"
    "ssTatToSml_AccessRep t = si" "ssSmlToTat_AccessQry t = ssSmlToTat_AccessQry s"
    "tai_siTSt_PushCmd t = tai_siTSt_PushCmd s" "TX_APP_TABLE t = TX_APP_TABLE s"
    "mdl_fsmState t = READ_REQUEST"
  shows "tx_ok j t W A"
proof -
  have "items (ssSmlToTat_AccessQry s) = []" "items si = []"
    using assms(1-3) by (auto simp: tx_ok_def sml_proto_def sml_meta_inv_def sread_Some_iff)
  then show ?thesis
    using assms tx_inv_refuse
    by (auto simp: tx_ok_def sml_proto_def sml_request_inv_def tx_pushes_def tx_pending_def tx_reply_def)
qed

lemma tx_ok_accept:
  assumes "tx_ok j s W A" "mdl_fsmState s = READ_META" "sread (ssTatToSml_AccessRep s) = Some (r, si)"
    "ssTatToSml_AccessRep t = si" "tai_siTSt_PushCmd t = tai_siTSt_PushCmd s"
    "TX_APP_TABLE t = TX_APP_TABLE s" "mdl_fsmState t = READ_REQUEST"
    "ssSmlToTat_AccessQry t = swrite (ssSmlToTat_AccessQry s)
       \<lparr>atq_sessId = snq_sessId (mdl_appSndReq s), atq_mempt = atr_mempt r + len, atq_write = True\<rparr>"
    "len \<le> sml_maxWriteLength r"
  shows "tx_ok j t (W + (if snq_sessId (mdl_appSndReq s) = j then uint len else 0)) A"
    "snq_sessId (mdl_appSndReq s) = j \<Longrightarrow>
       A \<le> W \<and> atr_mempt r = of_int W \<and> W + uint len \<le> A + 65535"
proof -
  have q: "items (ssSmlToTat_AccessQry s) = []" "items si = []"
      "items (ssTatToSml_AccessRep s) = [r]" "atr_sessId r = snq_sessId (mdl_appSndReq s)"
    using assms(1-3) by (auto simp: tx_ok_def sml_proto_def sml_meta_inv_def sread_Some_iff)
  have inv: "tx_inv (tx_pushes j s) (TX_APP_TABLE s j) None (tx_reply j s) W A"
    using assms(1) q(1) by (simp add: tx_ok_def tx_pending_def)
  have proto: "sml_proto t" "tx_pushes j t = tx_pushes j s" "TX_APP_TABLE t j = TX_APP_TABLE s j"
    using assms(4-8) q(1,2) by (simp_all add: sml_proto_def sml_request_inv_def tx_pushes_def)
  show "tx_ok j t (W + (if snq_sessId (mdl_appSndReq s) = j then uint len else 0)) A"
  proof (cases "snq_sessId (mdl_appSndReq s) = j")
    case True
    then have "tx_reply j s = Some r" "tx_reply j t = None" "tx_pending j t = Some (atr_mempt r + len)"
      using q assms(4,8) by (simp_all add: tx_reply_def tx_pending_def)
    then show ?thesis
      using tx_inv_accept(1) [OF _ assms(9)] inv True by (simp add: tx_ok_def proto)
  next
    case False
    then have "tx_reply j s = None" "tx_reply j t = None" "tx_pending j t = None"
      using q assms(4,8) by (simp_all add: tx_reply_def tx_pending_def)
    then show ?thesis using inv False by (simp add: tx_ok_def proto)
  qed
  assume "snq_sessId (mdl_appSndReq s) = j"
  then have "tx_inv (tx_pushes j s) (TX_APP_TABLE s j) None (Some r) W A"
    using inv q by (simp add: tx_reply_def)
  from tx_inv_accept(2,3) [OF this assms(9)] tx_inv_le [OF this]
  show "A \<le> W \<and> atr_mempt r = of_int W \<and> W + uint len \<le> A + 65535" by simp
qed

lemma sml_request_meta [simp]: "ssSmlToMwr_AppMeta (sml_request s) = ssSmlToMwr_AppMeta s"
  by (simp add: sml_request_def split: option.split prod.split)

lemma tx_ok_sml:
  assumes "tx_ok j s W A"
    "items (ssSmlToMwr_AppMeta (pStreamMetaLoader s)) = items (ssSmlToMwr_AppMeta s) @ ms"
  shows "tx_ok j (pStreamMetaLoader s) (W + amm_total j ms) A \<and>
    (\<forall>m \<in> set ms. amm_sessId m = j \<longrightarrow>
       A \<le> W \<and> amm_addr m = of_int W \<and> W + uint (amm_len m) \<le> A + 65535)"
proof (cases "mdl_fsmState s")
  case READ_REQUEST
  then show ?thesis
    using assms tx_ok_request by (simp add: pStreamMetaLoader_def amm_total_def)
next
  case READ_META
  note step = pStreamMetaLoader_def sml_meta_def sml_reply_def Let_def
  show ?thesis
  proof (cases "sread (ssTatToSml_AccessRep s) = None \<or> sread (tai_siSTt_SessStateRep s) = None")
    case True
    then have "pStreamMetaLoader s = s" using READ_META by (auto simp: step split: option.splits)
    then show ?thesis using assms by (simp add: amm_total_def)
  next
    case False
    then obtain r si1 st si2 where reads: "sread (ssTatToSml_AccessRep s) = Some (r, si1)"
        "sread (tai_siSTt_SessStateRep s) = Some (st, si2)" by auto
    let ?len = "snq_length (mdl_appSndReq s)" and ?i = "snq_sessId (mdl_appSndReq s)"
    show ?thesis
    proof (cases "\<not> sfull (tai_soTAIF_SndRep s) \<and> st = ESTABLISHED \<and> ?len \<le> sml_maxWriteLength r")
      case True
      note eqs = reads READ_META True conjunct1 [OF True]
      have "ms = [\<lparr>amm_sessId = ?i, amm_addr = atr_mempt r, amm_len = ?len\<rparr>]"
        using assms(2) eqs by (simp add: step sml_accept_def not_less [symmetric])
      moreover have "ssTatToSml_AccessRep (pStreamMetaLoader s) = si1"
          "tai_siTSt_PushCmd (pStreamMetaLoader s) = tai_siTSt_PushCmd s"
          "TX_APP_TABLE (pStreamMetaLoader s) = TX_APP_TABLE s"
          "mdl_fsmState (pStreamMetaLoader s) = READ_REQUEST"
          "ssSmlToTat_AccessQry (pStreamMetaLoader s) = swrite (ssSmlToTat_AccessQry s)
             \<lparr>atq_sessId = ?i, atq_mempt = atr_mempt r + ?len, atq_write = True\<rparr>"
          "?len \<le> sml_maxWriteLength r"
        using eqs by (simp_all add: step sml_accept_def not_less [symmetric])
      note tx_ok_accept [OF assms(1) READ_META reads(1) this]
      ultimately show ?thesis by (auto simp: amm_total_def split: if_splits)
    next
      case refused: False
      have "ms = []"
        using assms(2) refused reads READ_META
        by (cases "sfull (tai_soTAIF_SndRep s)"; cases "st = ESTABLISHED") (simp_all add: step not_le)
      moreover have "ssTatToSml_AccessRep (pStreamMetaLoader s) = si1"
          "ssSmlToTat_AccessQry (pStreamMetaLoader s) = ssSmlToTat_AccessQry s"
          "tai_siTSt_PushCmd (pStreamMetaLoader s) = tai_siTSt_PushCmd s"
          "TX_APP_TABLE (pStreamMetaLoader s) = TX_APP_TABLE s"
          "mdl_fsmState (pStreamMetaLoader s) = READ_REQUEST"
        using refused reads READ_META
        by (cases "sfull (tai_soTAIF_SndRep s)"; cases "st = ESTABLISHED"; simp add: step not_le)+
      note tx_ok_refuse [OF assms(1) READ_META reads(1) this]
      ultimately show ?thesis by (simp add: amm_total_def)
    qed
  qed
qed

text \<open>The table takes a push first, then a query.\<close>

lemma tx_ok_tat:
  assumes "tx_ok j s W A" "pTxAppTable s = Some t"
  shows "tx_ok j t W A"
proof (cases "items (tai_siTSt_PushCmd s)")
  case (Cons p ps)
  have t: "t = s\<lparr>tai_siTSt_PushCmd := Stream (depth (tai_siTSt_PushCmd s)) ps,
      TX_APP_TABLE := (TX_APP_TABLE s)(tsp_sessionID p := tat_push p (TX_APP_TABLE s (tsp_sessionID p)))\<rparr>"
    using assms(2) sread_cons [OF Cons] by (simp add: pTxAppTable_def Let_def)
  have "sml_proto t = sml_proto s" "tx_pending j t = tx_pending j s" "tx_reply j t = tx_reply j s"
    by (simp_all add: t sml_proto_def tx_pending_def tx_reply_def cong: MdlStates.case_cong)
  then show ?thesis
    using assms(1) Cons by (auto simp: tx_ok_def tx_pushes_def t intro: tx_inv_push)
next
  case Nil
  show ?thesis
  proof (cases "items (ssSmlToTat_AccessQry s)")
    case (Cons q qs)
    note step = assms(2) sread_empty [OF Nil] sread_cons [OF Cons]
    have inv: "tx_inv [] (TX_APP_TABLE s j) (tx_pending j s) (tx_reply j s) W A"
      using assms(1) Nil by (simp add: tx_ok_def tx_pushes_def)
    have rs: "items (ssTatToSml_AccessRep s) = []"
      using assms(1) Cons
      by (auto simp: tx_ok_def sml_proto_def sml_request_inv_def sml_meta_inv_def split: MdlStates.splits)
    show ?thesis
    proof (cases "atq_write q")
      case True
      have t: "t = s\<lparr>ssSmlToTat_AccessQry := Stream (depth (ssSmlToTat_AccessQry s)) qs,
          TX_APP_TABLE := (TX_APP_TABLE s)(atq_sessId q := (TX_APP_TABLE s (atq_sessId q))\<lparr>at_mempt := atq_mempt q\<rparr>)\<rparr>"
        using step True by (simp add: pTxAppTable_def Let_def)
      have "sml_proto t" "\<forall>q \<in> set qs. \<not> atq_write q"
        using assms(1) Cons True rs unfolding tx_ok_def t sml_proto_def
        by (auto simp: sml_request_inv_def sml_meta_inv_def append_eq_Cons_conv split: MdlStates.splits)
      then show ?thesis
        using inv Cons Nil rs True tx_inv_write
        by (auto simp: tx_ok_def tx_pushes_def tx_pending_def tx_reply_def t)
    next
      case False
      have t: "t = s\<lparr>ssSmlToTat_AccessQry := Stream (depth (ssSmlToTat_AccessQry s)) qs,
          ssTatToSml_AccessRep := swrite (ssTatToSml_AccessRep s)
            \<lparr>atr_sessId = atq_sessId q, atr_ackd = ucast (at_ackd (TX_APP_TABLE s (atq_sessId q))),
             atr_mempt = at_mempt (TX_APP_TABLE s (atq_sessId q))\<rparr>\<rparr>"
        using step False by (simp add: pTxAppTable_def Let_def)
      have "sml_proto t" "qs = []"
        using assms(1) Cons False rs unfolding tx_ok_def t sml_proto_def
        by (auto simp: sml_request_inv_def sml_meta_inv_def append_eq_Cons_conv split: MdlStates.splits)
      then show ?thesis
        using inv Cons Nil rs False tx_inv_read
        by (auto simp: tx_ok_def tx_pushes_def tx_pending_def tx_reply_def t)
    qed
  qed (use assms Nil in \<open>simp add: pTxAppTable_def\<close>)
qed

lemma tx_run_ok: "tx_run j s W A \<Longrightarrow> tx_ok j s W A"
proof (induction rule: tx_run.induct)
  case (env s W A t)
  then show ?case by (blast intro: tx_ok_same)
next
  case (init s W A p X)
  then show ?case by (auto simp: tx_ok_def intro: tx_inv_init)
next
  case (ack s W A p a)
  then show ?case by (auto simp: tx_ok_def intro: tx_inv_ack)
qed (auto simp: tx_ok_reset tx_ok_def [of _ "tai_siTSt_PushCmd_update _ _"] simp del: of_int_add
      dest: tx_ok_sml intro: tx_ok_tat, (simp add: tx_ok_def)+)

section \<open>No unacknowledged byte is written over\<close>

text \<open>One cycle of the whole interface is such a run too.\<close>

lemma tx_same_refl: "tx_same s s"
  by (simp add: tx_same_def)

lemma tx_same_trans: "tx_same s t \<Longrightarrow> tx_same t u \<Longrightarrow> tx_same s u"
  by (simp add: tx_same_def)

lemma tx_same_emx: "tx_same s (tai_emx s)"
  by (simp add: tx_same_def tai_emx_def split: option.split prod.split)

lemma tx_same_tash: "tx_same s (pTxAppStatusHandler s)"
  by (simp add: tx_same_def pTxAppStatusHandler_def tash_idle_def tash_status_1_def tash_status_2_def
      tash_push_def Let_def split: option.split prod.split TashStates.split)

lemma tx_same_opnRep: "tx_same s t \<Longrightarrow> tx_same s (tac_opnRep r t)"
  by (simp add: tx_same_def tac_opnRep_def)

lemma tx_same_idle: "tx_same s (tac_idle s)"
proof -
  have "tx_same s (tac_lookup_reply rep (s\<lparr>tai_siSLc_SessLookupRep := si\<rparr>))" for rep si
    using tx_same_opnRep [of s "s\<lparr>tai_siSLc_SessLookupRep := si\<rparr>"]
    by (simp add: tac_lookup_reply_def tx_same_def)
  moreover have "tx_same s (tac_opnRep st (s\<lparr>tai_siRXe_ActSessState := si\<rparr>))" for st si
    by (rule tx_same_opnRep) (simp add: tx_same_def)
  moreover have "tx_same s (tac_open s)"
    by (simp add: tac_open_def tx_same_def split: option.split)
  ultimately show ?thesis
    by (simp add: tac_idle_def split: option.split) (simp add: tx_same_def)
qed

lemma tx_same_port: "tx_same s (tac_get_free_port ip s)"
  by (simp add: tac_get_free_port_def tx_same_def split: option.split)

lemma tx_same_close: "tx_same s (tac_close_conn s)"
  by (simp add: tac_close_conn_def tx_same_def Let_def split: option.split)

lemma tx_same_tac: "tx_same s (pTxAppConnect ip s)"
  by (simp add: pTxAppConnect_def tx_same_idle tx_same_port tx_same_close split: TacStates.split)

lemma tx_same_mwr: "tx_same s (pTxMemoryWriter s)"
  by (simp add: tx_same_def pTxMemoryWriter_def tmw_idle_def tmw_split_1st_cmd_def tmw_fwd_aligned_def
      tmw_fwd_1st_buf_def tmw_fwd_2nd_buf_def tmw_residue_def tmw_second_cmd_def Let_def
      split: option.split prod.split MwrStates.split)

lemma sml_metas_grow:
  "\<exists>ms. items (ssSmlToMwr_AppMeta (pStreamMetaLoader s)) = items (ssSmlToMwr_AppMeta s) @ ms"
  by (simp add: pStreamMetaLoader_def sml_meta_def sml_accept_def sml_reply_def Let_def
      split: option.split prod.split MdlStates.split)

lemma tx_run_interface:
  assumes "tx_run j s W A" "tx_app_interface ip s = Some t"
  shows "\<exists>W'. tx_run j t W' A"
proof -
  let ?s1 = "pTxAppStatusHandler (tai_emx s)"
  have "tx_run j ?s1 W A"
    using assms(1) tx_same_emx tx_same_tash by (blast intro: tx_run.env)
  moreover obtain ms where
    "items (ssSmlToMwr_AppMeta (pStreamMetaLoader ?s1)) = items (ssSmlToMwr_AppMeta ?s1) @ ms"
    using sml_metas_grow by blast
  ultimately have "tx_run j (pStreamMetaLoader ?s1) (W + amm_total j ms) A"
    by (rule tx_run.sml)
  then have "tx_run j (pTxAppConnect ip (pTxMemoryWriter (pStreamMetaLoader ?s1))) (W + amm_total j ms) A"
    using tx_same_mwr tx_same_tac by (blast intro: tx_run.env)
  then show ?thesis
    using assms(2) by (auto simp: tx_app_interface_def intro: tx_run.tat)
qed

lemma ring_positions_differ:
  assumes "A \<le> x" "x < W" "W \<le> y" "y < A + 65536"
  shows "(of_int x :: 16 word) \<noteq> of_int y"
proof
  assume "(of_int x :: 16 word) = of_int y"
  then have "x mod 65536 = y mod 65536" by (simp add: word_uint_eq_iff uint_word_of_int)
  then have "(y - x) mod 65536 = 0" by (metis mod_diff_cong diff_self mod_0)
  moreover have "(y - x) mod 65536 = y - x" using assms by (intro mod_pos_pos_trivial) auto
  ultimately show False using assms by simp
qed

text \<open>C4. The send buffer is never overrun: whatever requests the application makes, in every
  interleaving of the loader, the pointer table and the acknowledgements, a write of session \<open>j\<close>
  that is accepted starts at the write position, and none of its bytes lands on the ring position
  of a byte that was written before and is not acknowledged, although the loader works with
  pointers that may be old and wrap around at 64 KiB.
\<close>

theorem tai_buffer_never_overwritten:
  assumes "tx_run j s W A"
    "items (ssSmlToMwr_AppMeta (pStreamMetaLoader s)) = items (ssSmlToMwr_AppMeta s) @ ms"
    "m \<in> set ms" "amm_sessId m = j"
  shows "amm_addr m = of_int W \<and>
    (\<forall>x k. A \<le> x \<and> x < W \<and> k < unat (amm_len m) \<longrightarrow> of_int x \<noteq> amm_addr m + of_nat k)"
proof -
  have m: "A \<le> W" "amm_addr m = of_int W" "W + uint (amm_len m) \<le> A + 65535"
    using tx_ok_sml [OF tx_run_ok [OF assms(1)] assms(2)] assms(3,4) by auto
  have "of_int x \<noteq> amm_addr m + of_nat k" if "A \<le> x \<and> x < W \<and> k < unat (amm_len m)" for x k
  proof -
    have "int k < uint (amm_len m)" using that unfolding uint_nat by linarith
    then have "(of_int x :: 16 word) \<noteq> of_int (W + int k)"
      by (intro ring_positions_differ [of A x W]) (use that m(3) in linarith)+
    then show ?thesis unfolding m(2) by simp
  qed
  then show ?thesis using m(2) by blast
qed

text \<open>Two requests of session 0: after the first of 100 bytes, the second of 65000 finds the byte at
  position 0 unacknowledged.\<close>

definition tx_example :: "TcpAppSndReq list \<Rightarrow> TAi" where
  "tx_example reqs = tai_reset\<lparr>tai_siTAIF_SndReq := Stream 4 reqs,
     tai_siSTt_SessStateRep := Stream 2 (map (\<lambda>_. ESTABLISHED) reqs)\<rparr>"

abbreviation tx_round :: "TAi \<Rightarrow> TAi" where
  "tx_round s \<equiv> the (pTxAppTable (pStreamMetaLoader s))"

abbreviation tx_example_reqs :: "TcpAppSndReq list" where
  "tx_example_reqs \<equiv> [\<lparr>snq_sessId = 0, snq_length = 100\<rparr>, \<lparr>snq_sessId = 0, snq_length = 65000\<rparr>]"

lemmas tx_example_eval = tx_example_def tai_reset_def pStreamMetaLoader_def sml_request_def sml_meta_def
  sml_accept_def sml_reply_def sml_maxWriteLength_def pTxAppTable_def stream_simps Let_def

lemma tx_round_run:
  assumes "tx_run j s W A"
    "items (ssSmlToMwr_AppMeta (pStreamMetaLoader s)) = items (ssSmlToMwr_AppMeta s) @ ms"
    "pTxAppTable (pStreamMetaLoader s) = Some t"
  shows "tx_run j t (W + amm_total j ms) A"
  using assms by (blast intro: tx_run.intros)

lemma tx_example_run: "tx_run 0 (tx_round (tx_round (tx_round (tx_example tx_example_reqs)))) 100 0"
proof -
  have r0: "tx_run 0 (tx_example tx_example_reqs) 0 0"
    by (rule tx_run.env [OF tx_run.boot]) (simp add: tx_example_def tx_same_def)
  have r1: "tx_run 0 (tx_round (tx_example tx_example_reqs)) (0 + amm_total 0 []) 0"
    by (rule tx_round_run [OF r0]) (simp_all add: tx_example_eval sess_ok_iff)
  have r2: "tx_run 0 (tx_round (tx_round (tx_example tx_example_reqs)))
      (0 + amm_total 0 [] + amm_total 0 [\<lparr>amm_sessId = 0, amm_addr = 0, amm_len = 100\<rparr>]) 0"
    by (rule tx_round_run [OF r1]) (simp_all add: tx_example_eval sess_ok_iff)
  have r3: "tx_run 0 (tx_round (tx_round (tx_round (tx_example tx_example_reqs))))
      (0 + amm_total 0 [] + amm_total 0 [\<lparr>amm_sessId = 0, amm_addr = 0, amm_len = 100\<rparr>] + amm_total 0 []) 0"
    by (rule tx_round_run [OF r2]) (simp_all add: tx_example_eval sess_ok_iff)
  then show ?thesis by (simp add: amm_total_def)
qed

lemma tai_buffer_never_overwritten_witness:
  "\<exists>m. set (drop 1 (items (ssSmlToMwr_AppMeta (pStreamMetaLoader
       (tx_round (tx_round (tx_round (tx_example tx_example_reqs)))))))) = {m} \<and>
     amm_addr m = 100 \<and> (\<nexists>x k. 0 \<le> x \<and> x < 100 \<and> k < (65000 :: nat) \<and> of_int x = amm_addr m + of_nat k)"
proof -
  let ?s = "tx_round (tx_round (tx_round (tx_example tx_example_reqs)))"
  let ?m = "\<lparr>amm_sessId = 0, amm_addr = 100, amm_len = 65000\<rparr>"
  have grow: "items (ssSmlToMwr_AppMeta (pStreamMetaLoader ?s)) = items (ssSmlToMwr_AppMeta ?s) @ [?m]"
    "length (items (ssSmlToMwr_AppMeta ?s)) = 1"
    by (simp_all add: tx_example_eval sess_ok_iff tat_push_def)
  from tai_buffer_never_overwritten [OF tx_example_run this(1), of ?m]
  show ?thesis using grow by (intro exI [of _ ?m]) simp
qed

end
