(* ===== verification/Tx_Write.thy ===== *)
theory Tx_Write
  imports Tx_App
begin

text \<open>
  The way of the data of the application to its transmit buffer: the memory writer of the Tx
  application interface (\<open>Tx_App\<close>) is compared with the one of the Rx engine, which splits a segment
  at the end of the ring correctly (\<open>Rx_Memory\<close>), and the events that announce the data (Tash) are
  matched with the accesses of the writer.
\<close>

section \<open>The memory writer as the one of the Rx engine\<close>

text \<open>What the two writers have in common, as a state of the Rx path.\<close>

definition tmw_view :: "'a TAi_scheme \<Rightarrow> RXp" where
  "tmw_view s = rxp_reset\<lparr>mwr_fsmState := tmw_fsmState s, mwr_memWrCmd := tmw_memWrCmd s,
     mwr_currChunk := tmw_currChunk s, mwr_firstAccLen := tmw_firstAccLen s,
     mwr_nrBytesToWr := tmw_nrBytesToWr s, mwr_splitOffset := tmw_splitOffset s,
     ssTsdToMwr_Data := tai_siTAIF_Data s, mwr_soMEM_WrCmd := tmw_soMEM_WrCmd s,
     mwr_soMEM_WrData := tmw_soMEM_WrData s\<rparr>"

lemma tmw_view_fields [simp]:
  "mwr_fsmState (tmw_view s) = tmw_fsmState s" "mwr_memWrCmd (tmw_view s) = tmw_memWrCmd s"
  "mwr_currChunk (tmw_view s) = tmw_currChunk s" "mwr_firstAccLen (tmw_view s) = tmw_firstAccLen s"
  "mwr_nrBytesToWr (tmw_view s) = tmw_nrBytesToWr s" "mwr_splitOffset (tmw_view s) = tmw_splitOffset s"
  "ssTsdToMwr_Data (tmw_view s) = tai_siTAIF_Data s" "mwr_soMEM_WrCmd (tmw_view s) = tmw_soMEM_WrCmd s"
  "mwr_soMEM_WrData (tmw_view s) = tmw_soMEM_WrData s" "items (ssFsmToMwr_WrCmd (tmw_view s)) = []"
  by (simp_all add: tmw_view_def rxp_reset_def)

text \<open>The one difference: the last chunk of a segment is cut by the end of the ring.\<close>

definition tmw_cut_last :: "'a TAi_scheme \<Rightarrow> bool" where
  "tmw_cut_last s \<longleftrightarrow> tmw_fsmState s = MWR_FWD_1ST_BUF \<and> tmw_nrBytesToWr s < 8 \<and>
     (\<exists>c cs. items (tai_siTAIF_Data s) = c # cs \<and> ax_tlast c) \<and>
     \<not> sfull (tmw_soMEM_WrData s) \<and> \<not> sfull (tmw_soMEM_WrCmd s)"

lemma tmw_view_aligned: "tmw_view (tmw_fwd_aligned s) = mwr_fwd_aligned (tmw_view s)"
  by (simp add: tmw_fwd_aligned_def mwr_fwd_aligned_def Let_def split: option.split)
    (simp add: tmw_view_def)

lemma tmw_view_split: "tmw_view (tmw_split_1st_cmd s) = mwr_split_1st_cmd (tmw_view s)"
  by (simp add: tmw_split_1st_cmd_def mwr_split_1st_cmd_def TOE_TX_BUFFER_SIZE_def TOE_RX_BUFFER_SIZE_def Let_def)
    (simp add: tmw_view_def)

lemma tmw_view_2nd_buf: "tmw_view (tmw_fwd_2nd_buf s) = mwr_fwd_2nd_buf (tmw_view s)"
  by (simp add: tmw_fwd_2nd_buf_def mwr_fwd_2nd_buf_def Let_def split: option.split)
    (simp add: tmw_view_def)

lemma tmw_view_residue: "tmw_view (tmw_residue s) = mwr_residue (tmw_view s)"
  by (simp add: tmw_residue_def mwr_residue_def) (simp add: tmw_view_def)

lemma tmw_view_1st_buf:
  assumes "tmw_fsmState s = MWR_FWD_1ST_BUF" "\<not> tmw_cut_last s"
  shows "tmw_view (tmw_fwd_1st_buf s) = mwr_fwd_1st_buf (tmw_view s)"
proof (cases "sread (tai_siTAIF_Data s)")
  case None
  then show ?thesis by (simp add: tmw_fwd_1st_buf_def mwr_fwd_1st_buf_def)
next
  case (Some x)
  obtain c si where x: "x = (c, si)" by fastforce
  have "\<not> (ax_tlast c \<and> tmw_nrBytesToWr s < 8 \<and> \<not> sfull (tmw_soMEM_WrData s) \<and> \<not> sfull (tmw_soMEM_WrCmd s))"
    using assms Some unfolding x tmw_cut_last_def sread_Some_iff by blast
  then show ?thesis
    using Some unfolding x
    by (simp add: tmw_fwd_1st_buf_def mwr_fwd_1st_buf_def tmw_second_cmd_def mwr_second_cmd_def Let_def)
      (auto simp: tmw_view_def not_less)
qed

lemma tmw_equals_view:
  "tmw_fsmState s \<noteq> MWR_IDLE \<Longrightarrow> \<not> tmw_cut_last s \<Longrightarrow>
     tmw_view (pTxMemoryWriter s) = pRxMemoryWriter (tmw_view s)"
  by (cases "tmw_fsmState s")
    (simp_all add: pTxMemoryWriter_def pRxMemoryWriter_def tmw_view_aligned tmw_view_split
      tmw_view_2nd_buf tmw_view_residue tmw_view_1st_buf)

text \<open>The two memory writers are one state machine.  Outside the idle state a cycle of the
  writer of the Tx application interface does to its chunk, counters, data and command streams
  exactly what a cycle of the writer of the Rx engine does, unless the end of the ring cuts the last
  chunk of the segment.\<close>

theorem tmw_equals_rx_writer:
  assumes "tmw_fsmState s \<noteq> MWR_IDLE" "\<not> tmw_cut_last s"
  shows "tmw_view (pTxMemoryWriter s) = pRxMemoryWriter (tmw_view s)"
  using assms by (rule tmw_equals_view)

theorem tmw_equals_rx_writer_witness:
  "let s = tai_reset\<lparr>tmw_fsmState := MWR_FWD_1ST_BUF, tmw_nrBytesToWr := 3,
       tai_siTAIF_Data := Stream 4 [chunk 0x0807060504030201 0xFF False]\<rparr>
   in tmw_view (pTxMemoryWriter s) = pRxMemoryWriter (tmw_view s)"
  unfolding Let_def
  by (rule tmw_equals_rx_writer) (simp_all add: tmw_cut_last_def chunk_def)

section \<open>A segment over the end of the ring\<close>

text \<open>A process simulates another as long as an invariant holds, and may idle before it.\<close>

lemma funpow_simulation:
  assumes "\<And>s. J s \<Longrightarrow> \<not> idle s \<Longrightarrow> J (f s) \<and> v (f s) = g (v s)" "\<And>s. idle s \<Longrightarrow> g (v s) = v s" "J s"
  shows "\<exists>i. v ((f ^^ i) s) = (g ^^ j) (v s)"
  using assms(3)
proof (induction j arbitrary: s)
  case 0
  show ?case by (intro exI [of _ 0]) simp
next
  case (Suc j)
  show ?case
  proof (cases "idle s")
    case True
    then show ?thesis using Suc assms(2) by (simp only: funpow_Suc_right comp_apply)
  next
    case False
    then have "J (f s)" "v (f s) = g (v s)" using assms(1) Suc.prems by blast+
    moreover from Suc.IH [OF this(1)] obtain i where "v ((f ^^ i) (f s)) = (g ^^ j) (v (f s))" ..
    ultimately show ?thesis
      by (intro exI [of _ "Suc i"]) (simp only: funpow_Suc_right comp_apply)
  qed
qed

text \<open>The first access ends before the last chunk begins.\<close>

definition tmw_whole_last :: "'a TAi_scheme \<Rightarrow> bool" where
  "tmw_whole_last s \<longleftrightarrow> (tmw_fsmState s = MWR_FWD_1ST_BUF \<longrightarrow>
     \<not> sfull (tmw_soMEM_WrCmd s) \<and> tmw_nrBytesToWr s \<noteq> 0 \<and>
     (\<exists>cs rest. items (tai_siTAIF_Data s) = cs @ rest \<and> payload_ok cs \<and>
       unat (tmw_nrBytesToWr s) \<le> 8 * (length cs - 1))) \<and>
     tmw_fsmState s \<noteq> MWR_SPLIT_1ST_CMD"

lemma tmw_whole_last_cut:
  assumes "tmw_whole_last s"
  shows "\<not> tmw_cut_last s"
proof
  assume cut: "tmw_cut_last s"
  then obtain cs rest where cs: "items (tai_siTAIF_Data s) = cs @ rest" "payload_ok cs"
      "unat (tmw_nrBytesToWr s) \<le> 8 * (length cs - 1)" and "tmw_nrBytesToWr s \<noteq> 0"
    using assms(1) by (auto simp: tmw_whole_last_def tmw_cut_last_def)
  then have "0 < unat (tmw_nrBytesToWr s)" by (simp add: unat_gt_0)
  then have "1 < length cs" using cs(3) by (cases cs rule: list.exhaust) auto
  then obtain c d ds where "cs = c # d # ds" by (cases cs; cases "tl cs") auto
  then show False using cs(1,2) cut by (auto simp: tmw_cut_last_def payload_ok_Cons)
qed

lemma tmw_whole_last_step:
  assumes "tmw_whole_last s" "tmw_fsmState s \<noteq> MWR_IDLE"
  shows "tmw_whole_last (pTxMemoryWriter s)"
proof (cases "tmw_fsmState s = MWR_FWD_1ST_BUF")
  case True
  obtain cs rest where cs: "items (tai_siTAIF_Data s) = cs @ rest" "payload_ok cs"
      "unat (tmw_nrBytesToWr s) \<le> 8 * (length cs - 1)"
    and room: "\<not> sfull (tmw_soMEM_WrCmd s)" "tmw_nrBytesToWr s \<noteq> 0"
    using assms(1) True by (auto simp: tmw_whole_last_def)
  have step: "pTxMemoryWriter s = tmw_fwd_1st_buf s" using True by (simp add: pTxMemoryWriter_def)
  have pos: "0 < unat (tmw_nrBytesToWr s)" using room(2) by (simp add: unat_gt_0)
  then have "1 < length cs" using cs(3) by (cases cs rule: list.exhaust) auto
  then obtain c d ds where c: "cs = c # d # ds" by (cases cs; cases "tl cs") auto
  note head = sread_cons [of "tai_siTAIF_Data s" c "d # ds @ rest"]
  show ?thesis
  proof (cases "8 < tmw_nrBytesToWr s \<and> \<not> sfull (tmw_soMEM_WrData s)")
    case big: True
    then have n: "unat (tmw_nrBytesToWr s - 8) = unat (tmw_nrBytesToWr s) - 8" "tmw_nrBytesToWr s - 8 \<noteq> 0"
      using unat_sub [of 8 "tmw_nrBytesToWr s"] by (auto simp: word_less_nat_alt word_le_nat_alt)
    have "payload_ok (d # ds)" using cs(2) c by (simp add: payload_ok_Cons)
    moreover have "unat (tmw_nrBytesToWr s - 8) \<le> 8 * (length (d # ds) - 1)" using cs(3) c n(1) by simp
    moreover have "items (tai_siTAIF_Data (tmw_fwd_1st_buf s)) = (d # ds) @ rest"
      "tmw_nrBytesToWr (tmw_fwd_1st_buf s) = tmw_nrBytesToWr s - 8"
      "tmw_fsmState (tmw_fwd_1st_buf s) = MWR_FWD_1ST_BUF"
      "tmw_soMEM_WrCmd (tmw_fwd_1st_buf s) = tmw_soMEM_WrCmd s"
      using big cs(1) c head True by (simp_all add: tmw_fwd_1st_buf_def sempty_iff_sread Let_def)
    moreover from calculation(1,2) have "\<exists>cs' rest'. (d # ds) @ rest = cs' @ rest' \<and> payload_ok cs' \<and>
        unat (tmw_nrBytesToWr s - 8) \<le> 8 * (length cs' - 1)" by blast
    ultimately show ?thesis
      unfolding step tmw_whole_last_def using n(2) room(1) by simp
  next
    case False
    then show ?thesis
      unfolding step using assms(1) room cs(1) c head True
      by (auto simp: tmw_fwd_1st_buf_def tmw_second_cmd_def sempty_iff_sread Let_def tmw_whole_last_def)
  qed
next
  case False
  then show ?thesis
    using assms
    by (cases "tmw_fsmState s")
      (auto simp: tmw_whole_last_def pTxMemoryWriter_def tmw_fwd_aligned_def tmw_fwd_2nd_buf_def
        tmw_residue_def Let_def split: option.split)
qed

definition tmw_done :: "'a TAi_scheme \<Rightarrow> nat \<Rightarrow> AxisApp list \<Rightarrow> AxisApp list \<Rightarrow> DmCmd list \<Rightarrow> bool" where
  "tmw_done s j rest ws cmds \<longleftrightarrow> (let t = (pTxMemoryWriter ^^ j) s in
     tmw_fsmState t = MWR_IDLE \<and> items (tai_siTAIF_Data t) = rest \<and>
     items (tmw_soMEM_WrData t) = items (tmw_soMEM_WrData s) @ ws \<and>
     items (tmw_soMEM_WrCmd t) = items (tmw_soMEM_WrCmd s) @ cmds)"

lemma tmw_done_step:
  assumes "tmw_done (pTxMemoryWriter s) j rest ws cmds"
    and "tmw_soMEM_WrData (pTxMemoryWriter s) = tmw_soMEM_WrData s"
    and "items (tmw_soMEM_WrCmd (pTxMemoryWriter s)) = items (tmw_soMEM_WrCmd s) @ ys"
  shows "tmw_done s (Suc j) rest ws (ys @ cmds)"
  using assms by (simp add: tmw_done_def Let_def funpow_swap1)

lemma rx_idle_without_command: "tmw_fsmState s = MWR_IDLE \<Longrightarrow> pRxMemoryWriter (tmw_view s) = tmw_view s"
  by (simp add: pRxMemoryWriter_def mwr_idle_def sempty_def)

lemma tmw_done_view:
  assumes "tmw_whole_last s" "mwr_done (tmw_view s) j rest ws cmds"
  shows "\<exists>i. tmw_done s i rest ws cmds"
proof -
  have "tmw_whole_last (pTxMemoryWriter t) \<and> tmw_view (pTxMemoryWriter t) = pRxMemoryWriter (tmw_view t)"
    if "tmw_whole_last t" "tmw_fsmState t \<noteq> MWR_IDLE" for t :: "'a TAi_scheme"
    using that tmw_whole_last_step tmw_equals_view tmw_whole_last_cut by blast
  from funpow_simulation [of tmw_whole_last "\<lambda>s. tmw_fsmState s = MWR_IDLE", OF this
      rx_idle_without_command assms(1)]
  obtain i where "tmw_view ((pTxMemoryWriter ^^ i) s) = (pRxMemoryWriter ^^ j) (tmw_view s)" by blast
  with assms(2) show ?thesis
    unfolding mwr_done_def tmw_done_def Let_def by (metis tmw_view_fields)
qed

lemma tmw_cmd_range:
  "ring_offset (tmw_cmd m) = unat (amm_addr m)" "unat (dm_btt (tmw_cmd m)) = unat (amm_len m)"
proof -
  have "get_range 15 0 (dm_saddr (tmw_cmd m)) = ucast (amm_addr m)"
  proof (rule bit_word_eqI)
    fix n :: nat assume "n < LENGTH(40)"
    then show "bit (get_range 15 0 (dm_saddr (tmw_cmd m))) n \<longleftrightarrow> bit (ucast (amm_addr m) :: 40 word) n"
      by (cases "n < 16")
        (auto simp: bit_get_range bit_set_range bit_ucast_iff tmw_cmd_def DmCmd_of_def tmw_memSegAddr_def
          dest: bit_imp_le_length)
  qed
  moreover have "unat (amm_addr m) < 2 ^ 40"
    by (rule less_le_trans [OF unsigned_less]) simp
  then have "unat (ucast (amm_addr m) :: 40 word) = unat (amm_addr m)"
    by (simp add: unsigned_ucast_eq take_bit_nat_eq_self)
  ultimately show "ring_offset (tmw_cmd m) = unat (amm_addr m)" by (simp add: ring_offset_def)
  show "unat (dm_btt (tmw_cmd m)) = unat (amm_len m)" by (simp add: tmw_cmd_def DmCmd_of_def unat_ucast_23)
qed

lemma tmw_1st_buf_done:
  assumes "tmw_fsmState s = MWR_FWD_1ST_BUF" "tmw_nrBytesToWr s \<noteq> 0"
    and "items (tai_siTAIF_Data s) = cs @ rest" "payload_ok cs"
    and "unat (tmw_nrBytesToWr s) \<le> 8 * (length cs - 1)"
    and "unat (tmw_nrBytesToWr s) < length (bytes_of cs)"
    and "length (items (tmw_soMEM_WrData s)) + length cs < depth (tmw_soMEM_WrData s)"
    and "length (items (tmw_soMEM_WrCmd s)) < depth (tmw_soMEM_WrCmd s)"
  shows "\<exists>j ws1 ws2. tmw_done s j rest (ws1 @ ws2) [mwr_cmd2 (tmw_memWrCmd s) (tmw_firstAccLen s)] \<and>
    is_segment ax_tlast ws1 \<and> is_segment ax_tlast ws2 \<and>
    bytes_of ws1 = take (unat (tmw_nrBytesToWr s)) (bytes_of cs) \<and>
    bytes_of ws2 = drop (unat (tmw_nrBytesToWr s)) (bytes_of cs)"
proof -
  have "tmw_whole_last s"
    using assms(1-5,8) by (auto simp: tmw_whole_last_def sfull_def)
  then show ?thesis
    using mwr_1st_buf_done [of "tmw_view s" cs rest] assms tmw_done_view
    unfolding tmw_view_fields by blast
qed

text \<open>C31. A segment that reaches over the end of its transmit buffer is written in two accesses.
  When the application sends a segment that crosses the end of the ring, the writer posts a command up
  to the end of the ring and one for the rest at its start, and two streams of chunks that carry the
  bytes of the segment, split at that point.  This holds when the ring ends in or before the chunk
  that is next to last, or exactly between the last two chunks.  When it ends inside the last chunk, the
  bytes after the end of the ring are not written at all (a defect, \<open>tmw_loses_cut_tail\<close> below), and
  this case is excluded.\<close>

theorem tmw_splits_segment:
  assumes "tmw_fsmState s = MWR_IDLE" "items (ssSmlToMwr_AppMeta s) = m # queue"
    and "items (tai_siTAIF_Data s) = cs @ rest" "payload_ok cs"
    and "length (bytes_of cs) = unat (amm_len m)"
    and "65536 < unat (amm_addr m) + unat (amm_len m)"
    and "65536 - unat (amm_addr m) \<le> 8 * (length cs - 1)"
    and "length (items (tmw_soMEM_WrCmd s)) + 2 \<le> depth (tmw_soMEM_WrCmd s)"
    and "length (items (tmw_soMEM_WrData s)) + length cs < depth (tmw_soMEM_WrData s)"
  shows "\<exists>j ws1 ws2 c1 c2. tmw_done s j rest (ws1 @ ws2) [c1, c2] \<and>
    is_segment ax_tlast ws1 \<and> is_segment ax_tlast ws2 \<and>
    bytes_of ws1 = take (65536 - unat (amm_addr m)) (bytes_of cs) \<and>
    bytes_of ws2 = drop (65536 - unat (amm_addr m)) (bytes_of cs) \<and>
    dm_saddr c1 = ucast (tmw_memSegAddr (amm_sessId m) (amm_addr m)) \<and>
    unat (dm_btt c1) = length (bytes_of ws1) \<and> ring_offset c2 = 0 \<and>
    unat (dm_btt c2) = length (bytes_of ws2)"
proof -
  let ?t = "pTxMemoryWriter s" and ?u = "pTxMemoryWriter (pTxMemoryWriter s)" and ?c = "tmw_cmd m"
  let ?n = "65536 - unat (amm_addr m)"
  have addr: "unat (amm_addr m) < 65536" "unat (amm_len m) < 65536"
    using unsigned_less [of "amm_addr m"] unsigned_less [of "amm_len m"] by simp_all
  then have pos: "0 < ring_offset ?c" "65536 < ring_offset ?c + unat (dm_btt ?c)"
    using assms(6) by (simp_all add: tmw_cmd_range)
  have len: "unat (split_len ?c) = ?n"
    unfolding split_len_def first_len [OF pos(1)] by (simp add: tmw_cmd_range)
  have t: "tmw_fsmState ?t = MWR_SPLIT_1ST_CMD" "tmw_memWrCmd ?t = ?c"
    "tai_siTAIF_Data ?t = tai_siTAIF_Data s" "tmw_soMEM_WrData ?t = tmw_soMEM_WrData s"
    "tmw_soMEM_WrCmd ?t = tmw_soMEM_WrCmd s"
    using assms(1,2,8) pos(2)
    by (simp_all add: pTxMemoryWriter_def tmw_idle_def sempty_def sfull_def sread_cons Let_def
        ring_offset_def TOE_TX_BUFFER_SIZE_def)
  have u: "tmw_fsmState ?u = MWR_FWD_1ST_BUF" "tmw_memWrCmd ?u = ?c"
    "tmw_firstAccLen ?u = split_len ?c" "tmw_nrBytesToWr ?u = split_len ?c"
    "tai_siTAIF_Data ?u = tai_siTAIF_Data s" "tmw_soMEM_WrData ?u = tmw_soMEM_WrData s"
    "items (tmw_soMEM_WrCmd ?u) = items (tmw_soMEM_WrCmd s) @ [mwr_cmd1 ?c]"
    "depth (tmw_soMEM_WrCmd ?u) = depth (tmw_soMEM_WrCmd s)"
    using t assms(8)
    by (simp_all add: pTxMemoryWriter_def [of ?t] tmw_split_1st_cmd_def mwr_cmd1_def split_len_def
        sfull_def Let_def TOE_TX_BUFFER_SIZE_def TOE_RX_BUFFER_SIZE_def)
  have "split_len ?c \<noteq> 0" using len addr(1) by auto
  moreover have "?n < length (bytes_of cs)" using assms(5,6) addr(1) by linarith
  ultimately obtain j ws1 ws2 where fin: "tmw_done ?u j rest (ws1 @ ws2) [mwr_cmd2 ?c (split_len ?c)]"
    and ws: "is_segment ax_tlast ws1" "is_segment ax_tlast ws2"
      "bytes_of ws1 = take ?n (bytes_of cs)" "bytes_of ws2 = drop ?n (bytes_of cs)"
    using tmw_1st_buf_done [of ?u cs rest] assms(3,4,7,8,9) unfolding u len by auto
  have "tmw_done ?t (Suc j) rest (ws1 @ ws2) ([mwr_cmd1 ?c] @ [mwr_cmd2 ?c (split_len ?c)])"
    using fin by (rule tmw_done_step) (simp_all add: t u)
  then have "tmw_done s (Suc (Suc j)) rest (ws1 @ ws2) ([] @ [mwr_cmd1 ?c] @ [mwr_cmd2 ?c (split_len ?c)])"
    by (rule tmw_done_step) (simp_all add: t)
  moreover have "dm_saddr ?c = ucast (tmw_memSegAddr (amm_sessId m) (amm_addr m))"
    by (simp add: tmw_cmd_def DmCmd_of_def)
  ultimately show ?thesis
    using ws split_cmds [OF pos] assms(5) addr \<open>?n < length (bytes_of cs)\<close>
    by (intro exI [of _ "Suc (Suc j)"] exI [of _ ws1] exI [of _ ws2] exI [of _ "mwr_cmd1 ?c"]
        exI [of _ "mwr_cmd2 ?c (split_len ?c)"]) (simp add: tmw_cmd_range)
qed

definition tmw_example :: "AppMemMeta \<Rightarrow> AxisApp list \<Rightarrow> TAi" where
  "tmw_example m cs = tai_reset\<lparr>ssSmlToMwr_AppMeta := Stream 32 [m], tai_siTAIF_Data := Stream 4 cs\<rparr>"

theorem tmw_splits_segment_witness:
  "let m = \<lparr>amm_sessId = 3, amm_addr = 0xFFFA, amm_len = 10\<rparr>;
       cs = [chunk 0x0807060504030201 0xFF False, chunk 0x0A09 3 True] in
   \<exists>j ws1 ws2 c1 c2. tmw_done (tmw_example m cs) j [] (ws1 @ ws2) [c1, c2] \<and>
     length (bytes_of ws1) = 6 \<and> length (bytes_of ws2) = 4"
proof -
  let ?m = "\<lparr>amm_sessId = 3, amm_addr = 0xFFFA, amm_len = 10\<rparr>"
  let ?cs = "[chunk 0x0807060504030201 0xFF False, chunk 0x0A09 3 True]"
  have len: "getLen (chunk 0x0807060504030201 0xFF False) = 8" "getLen (chunk 0x0A09 3 True) = 2"
    by (simp_all add: getLen_def chunk_def keepToLen_def)
  then have ok: "payload_ok ?cs" "length (bytes_of ?cs) = 10"
    by (simp_all add: payload_ok_Cons payload_ok_single chunk_ok_def) (simp_all add: chunk_def)
  note split = tmw_splits_segment [of "tmw_example ?m ?cs" ?m "[]" ?cs "[]"]
  show ?thesis
    using split ok unfolding Let_def by (fastforce simp: tmw_example_def tai_reset_def)
qed

section \<open>The end of the ring inside the last chunk\<close>

lemma tmw_2nd_buf_waits:
  assumes "tmw_fsmState s = MWR_FWD_2ND_BUF" "items (tai_siTAIF_Data s) = []"
  shows "(pTxMemoryWriter ^^ j) s = s"
proof -
  have "pTxMemoryWriter s = s"
    using assms by (simp add: pTxMemoryWriter_def tmw_fwd_2nd_buf_def sempty_def)
  then show ?thesis by (induction j) simp_all
qed

text \<open>When the ring ends inside the last chunk of a segment, the tail of the segment is not
  written.  The writer announces the second access but goes on to the state that joins the next
  chunk, not to the one that writes the residue: it waits there for data of another segment, and
  however long it waits the bytes after the end of the ring are missing in the stream to the memory.\<close>

theorem tmw_loses_cut_tail:
  assumes "tmw_fsmState s = MWR_FWD_1ST_BUF" "tmw_nrBytesToWr s \<noteq> 0"
    and "items (tai_siTAIF_Data s) = [c]" "ax_tlast c" "chunk_ok c"
    and "unat (tmw_nrBytesToWr s) < getLen c"
    and "\<not> sfull (tmw_soMEM_WrData s)" "\<not> sfull (tmw_soMEM_WrCmd s)"
  shows "let t = (pTxMemoryWriter ^^ Suc j) s in
     tmw_fsmState t = MWR_FWD_2ND_BUF \<and>
     items (tmw_soMEM_WrCmd t) = items (tmw_soMEM_WrCmd s) @ [mwr_cmd2 (tmw_memWrCmd s) (tmw_firstAccLen s)] \<and>
     (\<exists>w. items (tmw_soMEM_WrData t) = items (tmw_soMEM_WrData s) @ [w] \<and>
       chunk_bytes w = take (unat (tmw_nrBytesToWr s)) (chunk_bytes c)) \<and>
     length (take (unat (tmw_nrBytesToWr s)) (chunk_bytes c)) < length (chunk_bytes c)"
proof -
  let ?n = "tmw_nrBytesToWr s" and ?t = "pTxMemoryWriter s"
  have len: "getLen c \<le> 8" using chunk_ok_keep [OF assms(5)] by simp
  have n: "1 \<le> unat ?n" using assms(2) by (simp add: unat_gt_0 Suc_le_eq)
  have n8: "?n < 8" using assms(6) len by (simp add: word_less_nat_alt)
  then have n8': "?n \<noteq> 8" "\<not> 8 < ?n" by auto
  have end_eq: "c\<lparr>ax_tlast := True, ax_tkeep := lenToLE_tKeep (ucast ?n)\<rparr> = mwr_first_end (unat ?n) c"
    by (simp add: mwr_first_end_def)
  have t: "tmw_fsmState ?t = MWR_FWD_2ND_BUF" "items (tai_siTAIF_Data ?t) = []"
    "items (tmw_soMEM_WrCmd ?t) = items (tmw_soMEM_WrCmd s) @ [mwr_cmd2 (tmw_memWrCmd s) (tmw_firstAccLen s)]"
    "items (tmw_soMEM_WrData ?t) = items (tmw_soMEM_WrData s) @ [mwr_first_end (unat ?n) c]"
    using assms(1,3,7,8) n8' end_eq
    by (simp_all add: pTxMemoryWriter_def tmw_fwd_1st_buf_def tmw_second_cmd_def mwr_cmd2_def sempty_def
        sread_cons Let_def)
  have "(pTxMemoryWriter ^^ Suc j) s = ?t"
    using tmw_2nd_buf_waits [OF t(1,2)] by (simp only: funpow_Suc_right comp_apply)
  then show ?thesis
    using t(1,3,4) assms(6) chunk_bytes_first_end [OF n _ len] by (simp add: Let_def)
qed

theorem tmw_loses_cut_tail_witness:
  "tmw_fsmState ((pTxMemoryWriter ^^ Suc 100) (tai_reset\<lparr>tmw_fsmState := MWR_FWD_1ST_BUF,
     tmw_nrBytesToWr := 3, tai_siTAIF_Data := Stream 4 [chunk 0x0504030201 0x1F True]\<rparr>)) = MWR_FWD_2ND_BUF"
proof -
  let ?c = "chunk 0x0504030201 0x1F True"
  let ?s = "tai_reset\<lparr>tmw_fsmState := MWR_FWD_1ST_BUF, tmw_nrBytesToWr := 3,
     tai_siTAIF_Data := Stream 4 [?c]\<rparr>"
  have "getLen ?c = 5" by (simp add: getLen_def chunk_def keepToLen_def)
  then show ?thesis
    using tmw_loses_cut_tail [of ?s ?c 100]
    by (simp add: chunk_ok_def tai_reset_def sfull_def chunk_def Let_def del: funpow.simps)
qed

end
