(* ===== verification/Tx_Control.thy ===== *)
theory Tx_Control
  imports Tx_Buffer Tx_Write
begin

text \<open>
  The control side of the Tx application interface (\<open>Tx_App\<close>): the events that announce the data of
  the application wait for the memory (Tash), and the connections that the application opens are
  paired with ports of the port table (Tac).
\<close>

section \<open>Events wait for the memory\<close>

text \<open>The confirmations that an event waits for, and the pointer update that follows them.\<close>

definition tash_accesses :: "Event \<Rightarrow> nat" where
  "tash_accesses ev =
     (if ev_type ev = TX_EVENT then
        if 65536 \<le> unat (ev_address ev) + unat (ev_length ev) then 2 else 1
      else 0)"

definition tash_pushes :: "Event \<Rightarrow> TAiTxSarPush list" where
  "tash_pushes ev =
     (if ev_type ev = TX_EVENT
      then [\<lparr>tap_sessionID = ev_sessionID ev, tap_app = ev_address ev + ev_length ev\<rparr>] else [])"

lemma tash_one_event:
  assumes "tash_fsmState s = TASH_IDLE" "items (ssEmxToTash_Event s) = ev # evs"
    and "items (tai_siMEM_TxP_WrSts s) = ds @ rest" "length ds = tash_accesses ev"
    and "\<forall>d \<in> set ds. ds_okay d"
  shows "let t = (pTxAppStatusHandler ^^ Suc (length ds)) s in
     tash_fsmState t = TASH_IDLE \<and> items (ssEmxToTash_Event t) = evs \<and>
     items (tai_siMEM_TxP_WrSts t) = rest \<and>
     items (tai_soEVe_Event t) = items (tai_soEVe_Event s) @ [ev] \<and>
     items (tai_soTSt_PushCmd t) = items (tai_soTSt_PushCmd s) @ tash_pushes ev"
proof -
  note defs = tash_idle_def tash_status_1_def tash_status_2_def tash_push_def
    tash_pushes_def Let_def
  let ?t = "pTxAppStatusHandler s"
  consider "ds = []" "ev_type ev \<noteq> TX_EVENT"
    | d where "ds = [d]" "ev_type ev = TX_EVENT" "\<not> 65536 \<le> unat (ev_address ev) + unat (ev_length ev)"
    | d e where "ds = [d, e]" "ev_type ev = TX_EVENT" "65536 \<le> unat (ev_address ev) + unat (ev_length ev)"
    using assms(4) by (auto simp: tash_accesses_def length_Suc_conv numeral_2_eq_2 split: if_splits)
  then show ?thesis
  proof cases
    case 1
    then show ?thesis using assms by (simp add: pTxAppStatusHandler_def defs sread_cons)
  next
    case 2
    have t: "tash_fsmState ?t = TASH_RD_MEM_STATUS_1" "tash_ev ?t = ev" "items (ssEmxToTash_Event ?t) = evs"
      "tai_siMEM_TxP_WrSts ?t = tai_siMEM_TxP_WrSts s" "tai_soEVe_Event ?t = tai_soEVe_Event s"
      "tai_soTSt_PushCmd ?t = tai_soTSt_PushCmd s"
      using assms(1,2) 2 by (simp_all add: pTxAppStatusHandler_def defs sread_cons)
    show ?thesis
      using t assms(3,5) 2 by (simp add: pTxAppStatusHandler_def [of ?t] defs sread_cons)
  next
    case 3
    let ?u = "pTxAppStatusHandler ?t"
    have t: "tash_fsmState ?t = TASH_RD_MEM_STATUS_1" "tash_ev ?t = ev" "items (ssEmxToTash_Event ?t) = evs"
      "tai_siMEM_TxP_WrSts ?t = tai_siMEM_TxP_WrSts s" "tai_soEVe_Event ?t = tai_soEVe_Event s"
      "tai_soTSt_PushCmd ?t = tai_soTSt_PushCmd s"
      using assms(1,2) 3 by (simp_all add: pTxAppStatusHandler_def defs sread_cons)
    have u: "tash_fsmState ?u = TASH_RD_MEM_STATUS_2" "tash_ev ?u = ev" "items (ssEmxToTash_Event ?u) = evs"
      "items (tai_siMEM_TxP_WrSts ?u) = e # rest" "tai_soEVe_Event ?u = tai_soEVe_Event s"
      "tai_soTSt_PushCmd ?u = tai_soTSt_PushCmd s"
      using t assms(3,5) 3 by (simp_all add: pTxAppStatusHandler_def [of ?t] defs sread_cons)
    show ?thesis
      using u assms(3,5) 3 by (simp add: pTxAppStatusHandler_def [of ?u] defs sread_cons)
  qed
qed

text \<open>Data is announced when the memory has it.  Given the confirmations of their accesses, one
  for a segment that ends before the end of the ring and two for one that reaches it, the status
  handler forwards the events to the event engine in their order, and pushes to the Tx SAR table
  exactly the end of each segment of data.\<close>

theorem tash_announces_written_data:
  assumes "tash_fsmState s = TASH_IDLE" "items (ssEmxToTash_Event s) = evs"
    and "items (tai_siMEM_TxP_WrSts s) = concat dss @ rest" "map length dss = map tash_accesses evs"
    and "\<forall>ds \<in> set dss. \<forall>d \<in> set ds. ds_okay d"
  shows "let t = (pTxAppStatusHandler ^^ (length evs + length (concat dss))) s in
     tash_fsmState t = TASH_IDLE \<and> items (ssEmxToTash_Event t) = [] \<and>
     items (tai_soEVe_Event t) = items (tai_soEVe_Event s) @ evs \<and>
     items (tai_soTSt_PushCmd t) = items (tai_soTSt_PushCmd s) @ concat (map tash_pushes evs)"
  using assms
proof (induction evs arbitrary: s dss)
  case Nil
  then show ?case by simp
next
  case (Cons ev evs)
  then obtain ds dss' where dss: "dss = ds # dss'" "length ds = tash_accesses ev"
    "map length dss' = map tash_accesses evs"
    by (cases dss) auto
  let ?t = "(pTxAppStatusHandler ^^ Suc (length ds)) s"
  have t: "tash_fsmState ?t = TASH_IDLE" "items (ssEmxToTash_Event ?t) = evs"
    "items (tai_siMEM_TxP_WrSts ?t) = concat dss' @ rest"
    "items (tai_soEVe_Event ?t) = items (tai_soEVe_Event s) @ [ev]"
    "items (tai_soTSt_PushCmd ?t) = items (tai_soTSt_PushCmd s) @ tash_pushes ev"
    using tash_one_event [OF Cons.prems(1,2), of ds "concat dss' @ rest"] Cons.prems(3,5) dss(1,2)
    by (simp_all only: Let_def) simp_all
  have "(pTxAppStatusHandler ^^ (length (ev # evs) + length (concat dss))) s =
      (pTxAppStatusHandler ^^ (length evs + length (concat dss'))) ?t"
    unfolding comp_apply [symmetric, of "pTxAppStatusHandler ^^ _"] funpow_add [symmetric] dss(1)
    by (simp add: add_ac)
  then show ?case
    using Cons.IH [OF t(1-3) dss(3)] Cons.prems(5) t(4,5) dss(1) by (simp add: Let_def)
qed

theorem tash_announces_written_data_witness:
  "let s = tai_reset\<lparr>ssEmxToTash_Event := Stream 2 [Event_adr TX_EVENT 3 0xFFFE 10, Event_sess FIN_EVENT 3],
       tai_siMEM_TxP_WrSts := Stream 4 [sts True, sts True]\<rparr>
   in items (tai_soTSt_PushCmd ((pTxAppStatusHandler ^^ 4) s)) = [\<lparr>tap_sessionID = 3, tap_app = 8\<rparr>]"
proof -
  let ?evs = "[Event_adr TX_EVENT 3 0xFFFE 10, Event_sess FIN_EVENT 3]"
  have sums: "map length [[sts True, sts True], []] = map tash_accesses ?evs"
    by (simp add: tash_accesses_def Event_adr_def Event_sess_def)
  have four: "length ?evs + length (concat [[sts True, sts True], []]) = 4" by simp
  show ?thesis
    using tash_announces_written_data [of "tai_reset\<lparr>ssEmxToTash_Event := Stream 2 ?evs,
        tai_siMEM_TxP_WrSts := Stream 4 [sts True, sts True]\<rparr>" ?evs "[[sts True, sts True], []]" "[]"] sums
    unfolding four by (simp add: tai_reset_def sts_def Let_def tash_pushes_def Event_adr_def Event_sess_def
        del: funpow.simps)
qed

text \<open>A segment that ends exactly at the end of the ring blocks the events.  The writer makes
  one access of it (the ring is not crossed), and the handler waits for two confirmations: after
  the one that comes it holds back the event and the pointer, and waits until the memory confirms
  an access of the next segment.\<close>

theorem tash_waits_at_ring_end:
  assumes "tmw_fsmState s = MWR_IDLE" "items (ssSmlToMwr_AppMeta s) = m # queue"
    and "\<not> sfull (tmw_soMEM_WrCmd s)" "unat (amm_addr m) + unat (amm_len m) = 65536"
    and "tash_fsmState s = TASH_RD_MEM_STATUS_1"
    and "tash_ev s = Event_adr TX_EVENT (amm_sessId m) (amm_addr m) (amm_len m)"
    and "items (tai_siMEM_TxP_WrSts s) = [d]" "ds_okay d"
  shows "items (tmw_soMEM_WrCmd (pTxMemoryWriter s)) = items (tmw_soMEM_WrCmd s) @ [tmw_cmd m] \<and>
    tmw_fsmState (pTxMemoryWriter s) = MWR_FWD_ALIGNED \<and>
    (let t = (pTxAppStatusHandler ^^ Suc j) s in
       tash_fsmState t = TASH_RD_MEM_STATUS_2 \<and> tai_soEVe_Event t = tai_soEVe_Event s \<and>
       tai_soTSt_PushCmd t = tai_soTSt_PushCmd s)"
proof -
  let ?t = "pTxAppStatusHandler s"
  have "\<not> 65536 < ring_offset (tmw_cmd m) + unat (dm_btt (tmw_cmd m))"
    using assms(4) by (simp add: tmw_cmd_range)
  then have w: "items (tmw_soMEM_WrCmd (pTxMemoryWriter s)) = items (tmw_soMEM_WrCmd s) @ [tmw_cmd m]"
    "tmw_fsmState (pTxMemoryWriter s) = MWR_FWD_ALIGNED"
    using assms(1,2,3)
    by (simp_all add: pTxMemoryWriter_def tmw_idle_def sempty_def sread_cons Let_def ring_offset_def
        TOE_TX_BUFFER_SIZE_def)
  have t: "tash_fsmState ?t = TASH_RD_MEM_STATUS_2" "tai_soEVe_Event ?t = tai_soEVe_Event s"
    "tai_soTSt_PushCmd ?t = tai_soTSt_PushCmd s" "items (tai_siMEM_TxP_WrSts ?t) = []"
    using assms(4-8)
    by (simp_all add: pTxAppStatusHandler_def tash_status_1_def sread_cons Let_def Event_adr_def)
  have "pTxAppStatusHandler ?t = ?t"
    using t(1,4) by (simp add: pTxAppStatusHandler_def [of ?t] tash_status_2_def)
  then have "(pTxAppStatusHandler ^^ j) ?t = ?t" by (induction j) simp_all
  then have "(pTxAppStatusHandler ^^ Suc j) s = ?t" by (simp only: funpow_Suc_right comp_apply)
  then show ?thesis using w t(1-3) by (simp add: Let_def)
qed

theorem tash_waits_at_ring_end_witness:
  "let m = \<lparr>amm_sessId = 3, amm_addr = 0xFFF6, amm_len = 10\<rparr>;
       s = (tmw_example m [])\<lparr>tash_fsmState := TASH_RD_MEM_STATUS_1,
         tash_ev := Event_adr TX_EVENT 3 0xFFF6 10, tai_siMEM_TxP_WrSts := Stream 4 [sts True]\<rparr>
   in items (tai_soEVe_Event ((pTxAppStatusHandler ^^ Suc 100) s)) = []"
proof -
  let ?m = "\<lparr>amm_sessId = 3, amm_addr = 0xFFF6, amm_len = 10\<rparr>"
  let ?s = "(tmw_example ?m [])\<lparr>tash_fsmState := TASH_RD_MEM_STATUS_1,
         tash_ev := Event_adr TX_EVENT 3 0xFFF6 10, tai_siMEM_TxP_WrSts := Stream 4 [sts True]\<rparr>"
  show ?thesis
    using tash_waits_at_ring_end [of ?s ?m "[]" "sts True" 100]
    by (simp add: tmw_example_def tai_reset_def sfull_def sts_def Let_def del: funpow.simps)
qed

end
