(* ===== verification/Axis_Headers.thy ===== *)
theory Axis_Headers
  imports Rx_Memory
begin

text \<open>
  The header fields of a chunk: the setters and getters of \<open>NTS/AxisRaw.hpp\<close>, \<open>NTS/AxisIp4.hpp\<close>,
  \<open>NTS/AxisPsd4.hpp\<close> and \<open>NTS/AxisEth.hpp\<close> that the engines use, and the bytes that they write.  The
  classes all derive from \<open>AxisRaw\<close> and add no field, so that a chunk of any of them is an \<open>AxisApp\<close>.
  The names that begin with \<open>eth_\<close> are those of \<open>AxisEth\<close>, whose IPv4 header starts at byte 14.
\<close>

type_synonym AxisIp4 = AxisApp
type_synonym AxisPsd4 = AxisApp
type_synonym AxisEth = AxisApp
type_synonym EthAddr = "48 word"

section \<open>AxisRaw\<close>

definition setLE_TData :: "64 word \<Rightarrow> nat \<Rightarrow> nat \<Rightarrow> AxisApp \<Rightarrow> AxisApp" where
  "setLE_TData v hi lo c = c\<lparr>ax_tdata := set_range hi lo v (ax_tdata c)\<rparr>"

definition setLE_TKeep :: "8 word \<Rightarrow> nat \<Rightarrow> nat \<Rightarrow> AxisApp \<Rightarrow> AxisApp" where
  "setLE_TKeep k hi lo c = c\<lparr>ax_tkeep := set_range hi lo k (ax_tkeep c)\<rparr>"

text \<open>The cases of the switch fall through: the byte of a case and all bytes above it are cleared.\<close>

definition clearUnusedBytes :: "AxisApp \<Rightarrow> AxisApp" where
  "clearUnusedBytes c =
     (let n = keepToLen (ax_tkeep c) in
      if ax_tkeep c = 0 \<or> 0 < n \<and> n < 8
      then c\<lparr>ax_tdata := take_bit (8 * n) (ax_tdata c)\<rparr> else c)"

definition setTLast :: "bool \<Rightarrow> AxisApp \<Rightarrow> AxisApp" where
  "setTLast l c = (let c = c\<lparr>ax_tlast := l\<rparr> in if l then clearUnusedBytes c else c)"

section \<open>Fields\<close>

text \<open>An assignment of a 8, 16 or 32 bit value to a range of the data.\<close>

definition set8 :: "nat \<Rightarrow> 8 word \<Rightarrow> AxisApp \<Rightarrow> AxisApp" where
  "set8 lo v c = c\<lparr>ax_tdata := set_range (lo + 7) lo (ucast v) (ax_tdata c)\<rparr>"

definition set16 :: "nat \<Rightarrow> 16 word \<Rightarrow> AxisApp \<Rightarrow> AxisApp" where
  "set16 lo v c = c\<lparr>ax_tdata := set_range (lo + 15) lo (ucast (byteSwap16 v)) (ax_tdata c)\<rparr>"

definition set32 :: "nat \<Rightarrow> 32 word \<Rightarrow> AxisApp \<Rightarrow> AxisApp" where
  "set32 lo v c = c\<lparr>ax_tdata := set_range (lo + 31) lo (ucast (byteSwap32 v)) (ax_tdata c)\<rparr>"

definition set_bits :: "nat \<Rightarrow> nat \<Rightarrow> 64 word \<Rightarrow> AxisApp \<Rightarrow> AxisApp" where
  "set_bits hi lo v c = c\<lparr>ax_tdata := set_range hi lo v (ax_tdata c)\<rparr>"

definition get16 :: "nat \<Rightarrow> AxisApp \<Rightarrow> 16 word" where
  "get16 lo c = byteSwap16 (ucast (get_range (lo + 15) lo (ax_tdata c)))"

definition get32 :: "nat \<Rightarrow> AxisApp \<Rightarrow> 32 word" where
  "get32 lo c = byteSwap32 (ucast (get_range (lo + 31) lo (ax_tdata c)))"

section \<open>IPv4 header\<close>

definition setIp4Version :: "64 word \<Rightarrow> AxisIp4 \<Rightarrow> AxisIp4" where "setIp4Version v = set_bits 7 4 v"
definition setIp4HdrLen :: "64 word \<Rightarrow> AxisIp4 \<Rightarrow> AxisIp4" where "setIp4HdrLen v = set_bits 3 0 v"
definition setIp4ToS :: "8 word \<Rightarrow> AxisIp4 \<Rightarrow> AxisIp4" where "setIp4ToS v = set8 8 v"
definition setIp4TotalLen :: "16 word \<Rightarrow> AxisIp4 \<Rightarrow> AxisIp4" where "setIp4TotalLen v = set16 16 v"
definition setIp4Ident :: "16 word \<Rightarrow> AxisIp4 \<Rightarrow> AxisIp4" where "setIp4Ident v = set16 32 v"
definition setIp4FragOff :: "64 word \<Rightarrow> AxisIp4 \<Rightarrow> AxisIp4" where
  "setIp4FragOff v c = set_bits 52 48 (get_range 12 8 v) (set_bits 63 56 (get_range 7 0 v) c)"
definition setIp4Flags :: "64 word \<Rightarrow> AxisIp4 \<Rightarrow> AxisIp4" where "setIp4Flags v = set_bits 55 53 v"
definition setIp4TtL :: "8 word \<Rightarrow> AxisIp4 \<Rightarrow> AxisIp4" where "setIp4TtL v = set8 0 v"
definition setIp4Prot :: "8 word \<Rightarrow> AxisIp4 \<Rightarrow> AxisIp4" where "setIp4Prot v = set8 8 v"
definition setIp4HdrCsum :: "16 word \<Rightarrow> AxisIp4 \<Rightarrow> AxisIp4" where "setIp4HdrCsum v = set16 16 v"
definition setIp4SrcAddr :: "32 word \<Rightarrow> AxisIp4 \<Rightarrow> AxisIp4" where "setIp4SrcAddr v = set32 32 v"
definition setIp4DstAddr :: "32 word \<Rightarrow> AxisIp4 \<Rightarrow> AxisIp4" where "setIp4DstAddr v = set32 0 v"
definition getIp4DstAddr :: "AxisIp4 \<Rightarrow> 32 word" where "getIp4DstAddr = get32 0"
definition getIp4HdrLen :: "AxisIp4 \<Rightarrow> 4 word" where "getIp4HdrLen c = ucast (get_range 3 0 (ax_tdata c))"
definition getIp4TotalLen :: "AxisIp4 \<Rightarrow> 16 word" where "getIp4TotalLen = get16 16"
definition getIp4Version :: "AxisIp4 \<Rightarrow> 4 word" where "getIp4Version c = ucast (get_range 7 4 (ax_tdata c))"
definition getIp4ToS :: "AxisIp4 \<Rightarrow> 8 word" where "getIp4ToS c = ucast (get_range 15 8 (ax_tdata c))"
definition getIp4TtL :: "AxisIp4 \<Rightarrow> 8 word" where "getIp4TtL c = ucast (get_range 7 0 (ax_tdata c))"
definition getIp4Prot :: "AxisIp4 \<Rightarrow> 8 word" where "getIp4Prot c = ucast (get_range 15 8 (ax_tdata c))"

section \<open>Ethernet header, and the IPv4 header behind it\<close>

definition swapMacAddr :: "EthAddr \<Rightarrow> EthAddr" where
  "swapMacAddr a = word_cat
     (word_cat (word_cat (ucast a :: 8 word) (ucast (drop_bit 8 a) :: 8 word) :: 16 word)
        (word_cat (ucast (drop_bit 16 a) :: 8 word) (ucast (drop_bit 24 a) :: 8 word) :: 16 word) :: 32 word)
     (word_cat (ucast (drop_bit 32 a) :: 8 word) (ucast (drop_bit 40 a) :: 8 word) :: 16 word)"

definition setEthDstAddr :: "EthAddr \<Rightarrow> AxisEth \<Rightarrow> AxisEth" where
  "setEthDstAddr a = set_bits 47 0 (ucast (swapMacAddr a))"
definition setEthSrcAddrHi :: "EthAddr \<Rightarrow> AxisEth \<Rightarrow> AxisEth" where
  "setEthSrcAddrHi a = set_bits 63 48 (ucast (get_range 15 0 (swapMacAddr a)))"
definition setEthSrcAddrLo :: "EthAddr \<Rightarrow> AxisEth \<Rightarrow> AxisEth" where
  "setEthSrcAddrLo a = set_bits 31 0 (ucast (get_range 47 16 (swapMacAddr a)))"
definition setEthTypeLen :: "16 word \<Rightarrow> AxisEth \<Rightarrow> AxisEth" where "setEthTypeLen v = set16 32 v"
definition getEthDstAddr :: "AxisEth \<Rightarrow> EthAddr" where
  "getEthDstAddr c = swapMacAddr (ucast (get_range 47 0 (ax_tdata c)))"
definition getEtherType :: "AxisEth \<Rightarrow> 16 word" where "getEtherType = get16 32"
definition eth_setIp4Version :: "4 word \<Rightarrow> AxisEth \<Rightarrow> AxisEth" where "eth_setIp4Version v = set_bits 55 52 (ucast v)"
definition eth_setIp4HdrLen :: "4 word \<Rightarrow> AxisEth \<Rightarrow> AxisEth" where "eth_setIp4HdrLen v = set_bits 51 48 (ucast v)"
definition eth_setIp4ToS :: "8 word \<Rightarrow> AxisEth \<Rightarrow> AxisEth" where "eth_setIp4ToS v = set8 56 v"
definition eth_getIp4Version :: "AxisEth \<Rightarrow> 4 word" where "eth_getIp4Version c = ucast (get_range 55 52 (ax_tdata c))"
definition eth_getIp4HdrLen :: "AxisEth \<Rightarrow> 4 word" where "eth_getIp4HdrLen c = ucast (get_range 51 48 (ax_tdata c))"
definition eth_getIp4ToS :: "AxisEth \<Rightarrow> 8 word" where "eth_getIp4ToS c = ucast (get_range 63 56 (ax_tdata c))"
definition eth_getIp4TotalLen :: "AxisEth \<Rightarrow> 16 word" where "eth_getIp4TotalLen = get16 0"
definition eth_getIp4DstAddrHi :: "AxisEth \<Rightarrow> 16 word" where "eth_getIp4DstAddrHi = get16 48"
definition eth_getIp4DstAddrLo :: "AxisEth \<Rightarrow> 16 word" where "eth_getIp4DstAddrLo = get16 0"

section \<open>Pseudo header and TCP header\<close>

definition setPsd4SrcAddr :: "32 word \<Rightarrow> AxisPsd4 \<Rightarrow> AxisPsd4" where "setPsd4SrcAddr v = set32 0 v"
definition setPsd4DstAddr :: "32 word \<Rightarrow> AxisPsd4 \<Rightarrow> AxisPsd4" where "setPsd4DstAddr v = set32 32 v"
definition setPsd4ResBits :: "8 word \<Rightarrow> AxisPsd4 \<Rightarrow> AxisPsd4" where "setPsd4ResBits v = set8 0 v"
definition setPsd4Prot :: "8 word \<Rightarrow> AxisPsd4 \<Rightarrow> AxisPsd4" where "setPsd4Prot v = set8 8 v"
definition setPsd4Len :: "16 word \<Rightarrow> AxisPsd4 \<Rightarrow> AxisPsd4" where "setPsd4Len v = set16 16 v"
definition setTcpSrcPort :: "16 word \<Rightarrow> AxisPsd4 \<Rightarrow> AxisPsd4" where "setTcpSrcPort v = set16 32 v"
definition setTcpDstPort :: "16 word \<Rightarrow> AxisPsd4 \<Rightarrow> AxisPsd4" where "setTcpDstPort v = set16 48 v"
definition setTcpSeqNum :: "32 word \<Rightarrow> AxisPsd4 \<Rightarrow> AxisPsd4" where "setTcpSeqNum v = set32 0 v"
definition setTcpAckNum :: "32 word \<Rightarrow> AxisPsd4 \<Rightarrow> AxisPsd4" where "setTcpAckNum v = set32 32 v"
definition setTcpResBits :: "64 word \<Rightarrow> AxisPsd4 \<Rightarrow> AxisPsd4" where "setTcpResBits v = set_bits 3 1 v"
definition setTcpDataOff :: "64 word \<Rightarrow> AxisPsd4 \<Rightarrow> AxisPsd4" where "setTcpDataOff v = set_bits 7 4 v"
definition setTcpCtrlBit :: "nat \<Rightarrow> bool \<Rightarrow> AxisPsd4 \<Rightarrow> AxisPsd4" where
  "setTcpCtrlBit i b = set_bits i i (if b then 1 else 0)"
definition getTcpCtrlSyn :: "AxisPsd4 \<Rightarrow> bool" where "getTcpCtrlSyn c = bit (ax_tdata c) 9"
definition setTcpWindow :: "16 word \<Rightarrow> AxisPsd4 \<Rightarrow> AxisPsd4" where "setTcpWindow v = set16 16 v"
definition setTcpChecksum :: "16 word \<Rightarrow> AxisPsd4 \<Rightarrow> AxisPsd4" where "setTcpChecksum v = set16 32 v"
definition setTcpUrgPtr :: "16 word \<Rightarrow> AxisPsd4 \<Rightarrow> AxisPsd4" where "setTcpUrgPtr v = set16 48 v"
definition setTcpOptKind :: "8 word \<Rightarrow> AxisPsd4 \<Rightarrow> AxisPsd4" where "setTcpOptKind v = set8 0 v"
definition setTcpOptLen :: "8 word \<Rightarrow> AxisPsd4 \<Rightarrow> AxisPsd4" where "setTcpOptLen v = set8 8 v"
definition setTcpOptMss :: "16 word \<Rightarrow> AxisPsd4 \<Rightarrow> AxisPsd4" where "setTcpOptMss v = set16 16 v"
definition getTcpSrcPort :: "AxisPsd4 \<Rightarrow> 16 word" where "getTcpSrcPort = get16 32"
definition getTcpDstPort :: "AxisPsd4 \<Rightarrow> 16 word" where "getTcpDstPort = get16 48"
definition getTcpSeqNum :: "AxisPsd4 \<Rightarrow> 32 word" where "getTcpSeqNum = get32 0"
definition getTcpAckNum :: "AxisPsd4 \<Rightarrow> 32 word" where "getTcpAckNum = get32 32"

lemmas header_defs = setIp4Version_def setIp4HdrLen_def setIp4ToS_def setIp4TotalLen_def setIp4Ident_def
  setIp4FragOff_def setIp4Flags_def setIp4TtL_def setIp4Prot_def setIp4HdrCsum_def setIp4SrcAddr_def
  setIp4DstAddr_def getIp4DstAddr_def setPsd4SrcAddr_def setPsd4DstAddr_def setPsd4ResBits_def
  setPsd4Prot_def setPsd4Len_def setTcpSrcPort_def setTcpDstPort_def setTcpSeqNum_def setTcpAckNum_def
  setTcpResBits_def setTcpDataOff_def setTcpCtrlBit_def setTcpWindow_def
  setTcpChecksum_def setTcpUrgPtr_def setTcpOptKind_def setTcpOptLen_def setTcpOptMss_def
  getTcpSrcPort_def getTcpDstPort_def getTcpSeqNum_def getTcpAckNum_def

section \<open>The bytes of a field\<close>

definition be16 :: "16 word \<Rightarrow> 8 word list" where
  "be16 v = [ucast (drop_bit 8 v), ucast v]"

definition be32 :: "32 word \<Rightarrow> 8 word list" where
  "be32 v = [ucast (drop_bit 24 v), ucast (drop_bit 16 v), ucast (drop_bit 8 v), ucast v]"

lemma nth_byte_set_range:
  assumes "i < 8" "lo = 8 * l" "hi = 8 * h + 7"
  shows "nth_byte (set_range hi lo v w) i = (if l \<le> i \<and> i \<le> h then nth_byte v (i - l) else nth_byte w i)"
  by (rule bit_word_eqI) (use assms in \<open>auto simp: bit_nth_byte bit_set_range algebra_simps\<close>)

lemma set_fields_keep [simp]:
  "ax_tkeep (set8 lo v8 c) = ax_tkeep c" "ax_tkeep (set16 lo v16 c) = ax_tkeep c"
  "ax_tkeep (set32 lo v32 c) = ax_tkeep c" "ax_tkeep (set_bits hi lo v c) = ax_tkeep c"
  "ax_tlast (set8 lo v8 c) = ax_tlast c" "ax_tlast (set16 lo v16 c) = ax_tlast c"
  "ax_tlast (set32 lo v32 c) = ax_tlast c" "ax_tlast (set_bits hi lo v c) = ax_tlast c"
  by (simp_all add: set8_def set16_def set32_def set_bits_def)

definition byte_of :: "AxisApp \<Rightarrow> nat \<Rightarrow> 8 word" where
  "byte_of c i = nth_byte (ax_tdata c) i"

lemma nth_byte_ucast:
  "nth_byte (ucast (v8 :: 8 word)) 0 = v8"
  "nth_byte (ucast (byteSwap16 v16)) 0 = be16 v16 ! 0" "nth_byte (ucast (byteSwap16 v16)) 1 = be16 v16 ! 1"
  "nth_byte (ucast (byteSwap32 v32)) 0 = be32 v32 ! 0" "nth_byte (ucast (byteSwap32 v32)) 1 = be32 v32 ! 1"
  "nth_byte (ucast (byteSwap32 v32)) 2 = be32 v32 ! 2" "nth_byte (ucast (byteSwap32 v32)) 3 = be32 v32 ! 3"
  by ((rule bit_word_eqI, simp add: bit_nth_byte bit_ucast_iff byteSwap16_def byteSwap32_def
        bit_word_cat_iff bit_drop_bit_eq be16_def be32_def; fail)+)

lemma byte_of_set8:
  "i < 8 \<Longrightarrow> byte_of (set8 (8 * l) v c) i = (if i = l then v else byte_of c i)"
  by (auto simp: byte_of_def set8_def nth_byte_set_range [of i _ l _ l] nth_byte_ucast)

lemma byte_of_set16:
  assumes "i < 8"
  shows "byte_of (set16 (8 * l) v c) i =
    (if l \<le> i \<and> i < l + 2 then be16 v ! (i - l) else byte_of c i)"
proof -
  have "i - l = 0 \<or> i - l = 1" if "l \<le> i" "i < l + 2" using that by auto
  then show ?thesis
    using assms
    by (auto simp: byte_of_def set16_def nth_byte_set_range [of i _ l _ "Suc l"] nth_byte_ucast
        simp flip: One_nat_def)
qed

lemma byte_of_set32:
  assumes "i < 8"
  shows "byte_of (set32 (8 * l) v c) i =
    (if l \<le> i \<and> i < l + 4 then be32 v ! (i - l) else byte_of c i)"
proof -
  have "i - l = 0 \<or> i - l = 1 \<or> i - l = 2 \<or> i - l = 3" if "l \<le> i" "i < l + 4" using that by auto
  then show ?thesis
    using assms
    by (auto simp: byte_of_def set32_def nth_byte_set_range [of i _ l _ "l + 3"] nth_byte_ucast
        simp flip: One_nat_def)
qed

definition be48 :: "EthAddr \<Rightarrow> 8 word list" where
  "be48 v = [ucast (drop_bit 40 v), ucast (drop_bit 32 v), ucast (drop_bit 24 v), ucast (drop_bit 16 v),
     ucast (drop_bit 8 v), ucast v]"

lemma nth_byte_swapMacAddr:
  "i < 6 \<Longrightarrow> nth_byte (ucast (swapMacAddr a)) i = be48 a ! i"
proof -
  assume "i < 6"
  then have "i = 0 \<or> i = 1 \<or> i = 2 \<or> i = 3 \<or> i = 4 \<or> i = 5" by linarith
  then show ?thesis
    by (elim disjE; simp; intro bit_word_eqI; simp add: bit_nth_byte bit_ucast_iff swapMacAddr_def
        bit_word_cat_iff bit_drop_bit_eq be48_def)
qed

lemma swapMacAddr_swapMacAddr [simp]: "swapMacAddr (swapMacAddr a) = a"
  by (rule bit_word_eqI) (auto simp: swapMacAddr_def bit_word_cat_iff bit_ucast_iff bit_drop_bit_eq)

end
