(* ===== verification/Tx_Engine.thy ===== *)
theory Tx_Engine
  imports Tx_App Rx_App Axis_Headers
begin

text \<open>
  The Tx engine (TXe), \<open>NTS/toe/src/tx_engine/src/tx_engine.cpp\<close>: for every event it loads the state
  of the session (Mdl), reads the payload from the transmit buffer (Mrd), and builds the IPv4 packet
  from the headers (Sps, Ihc, Phc), the payload (Tss) and the checksum (Sca, Tca, Ips).
\<close>

section \<open>State\<close>

record TXeMeta =
  txm_seqNumb :: TcpSeqNum
  txm_ackNumb :: TcpAckNum
  txm_winSize :: TcpWindow
  txm_length :: TcpSegLen
  txm_ack :: bool
  txm_rst :: bool
  txm_syn :: bool
  txm_fin :: bool

record SubCSums =
  sum0 :: "17 word"
  sum1 :: "17 word"
  sum2 :: "17 word"
  sum3 :: "17 word"

record IpAddrPair =
  ip_src :: Ip4Addr
  ip_dst :: Ip4Addr

datatype MdlFsm = MDL_WAIT_EVENT | MDL_PROCESS_EVENT

datatype TxmStates = TXM_1ST_ACCESS | TXM_2ND_ACCESS

datatype TssStates = TSS_PSD_HDR | TSS_PSD_OPT | TSS_DATA | TSS_FWD_1ST_BUF | TSS_FWD_2ND_BUF
  | TSS_JOIN_2ND_BUF | TSS_RESIDUE

record TXe =
  txe_siAKd_Event :: "ExtendedEvent stream"
  txe_soEVe_RxEventSig :: "bool stream"
  txe_soRSt_RxSarReq :: "SessionId stream"
  txe_siRSt_RxSarRep :: "RxSarReply stream"
  txe_soTSt_TxSarQry :: "TXeTxSarQuery stream"
  txe_siTSt_TxSarRep :: "TXeTxSarReply stream"
  txe_soTIm_ReTxTimerCmd :: "TXeReTransTimerCmd stream"
  txe_soSLc_ReverseLkpReq :: "SessionId stream"
  ssMdlToIhc_TcpDatLen :: "TcpDatLen stream"
  ssMdlToPhc_TxeMeta :: "TXeMeta stream"
  ssMdlToSpS_IsLookup :: "bool stream"
  ssMdlToMrd_BufferRdCmd :: "DmCmd stream"
  ssMdlToSps_RstSockPair :: "SocketPair stream"
  txe_fsmState :: MdlFsm
  mdl_sarLoaded :: bool
  mdl_segmentCount :: "2 word"
  mdl_curEvent :: ExtendedEvent
  mdl_rxSar :: RxSarReply
  mdl_txSar :: TXeTxSarReply
  mdl_randomValue :: "32 word"
  mdl_txeMeta :: TXeMeta
  txe_siSLc_ReverseLkpRep :: "fourTuple stream"
  ssSpsToIhc_IpAddrPair :: "IpAddrPair stream"
  ssSpsToPhc_SockPair :: "SocketPair stream"
  sps_getMeta :: bool
  sps_isLookUp :: bool
  ssIhcToIps_IpHeader :: "AxisIp4 stream"
  ihc_chunkCounter :: "2 word"
  ihc_ipAddrPair :: IpAddrPair
  ssPhcToTss_PseudoHdr :: "AxisPsd4 stream"
  phc_chunkCount :: "3 word"
  phc_meta :: TXeMeta
  phc_socketPair :: SocketPair
  txe_soMEM_RdCmd :: "DmCmd stream"
  ssMrdToTss_SplitMemAcc :: "bool stream"
  txr_fsmState :: TxmStates
  txr_memRdCmd :: DmCmd
  txr_firstAccLen :: TxBufPtr
  txe_siMEM_TxP_Data :: "AxisApp stream"
  ssTssToSca_PseudoPkt :: "AxisPsd4 stream"
  tss_fsmState :: TssStates
  tss_psdHdrChunkCount :: "3 word"
  tss_prevChunk :: AxisApp
  tss_memRdOffset :: "4 word"
  tss_mustJoin :: bool
  ssScaToIps_PseudoPkt :: "AxisPsd4 stream"
  ssScaToTca_FourSubCsums :: "SubCSums stream"
  sca_doForwardChunk :: bool
  sca_4CSums :: SubCSums
  ssTcaToIps_TcpCsum :: "16 word stream"
  txe_soIPTX_Data :: "AxisIp4 stream"
  ips_chunkCount :: "3 word"

definition ZYC2_MSS :: nat where
  "ZYC2_MSS = 1352"

definition MY_MSS :: nat where
  "MY_MSS = 1456"

definition TCP_HEADER_LEN :: nat where
  "TCP_HEADER_LEN = 20"

definition IP4_HEADER_LEN :: nat where
  "IP4_HEADER_LEN = 20"

section \<open>The metadata loader\<close>

definition TXeTxSarQuery_rd :: "SessionId \<Rightarrow> TXeTxSarQuery" where
  "TXeTxSarQuery_rd i = \<lparr>ttq_sessionID = i, ttq_not_ackd = 0, ttq_write = False, ttq_init = False,
     ttq_finReady = False, ttq_finSent = False, ttq_isRtQuery = False\<rparr>"

definition TXeTxSarQuery_wr :: "SessionId \<Rightarrow> TxAckNum \<Rightarrow> bool \<Rightarrow> bool \<Rightarrow> bool \<Rightarrow> TXeTxSarQuery" where
  "TXeTxSarQuery_wr i n init finReady finSent = \<lparr>ttq_sessionID = i, ttq_not_ackd = n, ttq_write = True,
     ttq_init = init, ttq_finReady = finReady, ttq_finSent = finSent, ttq_isRtQuery = False\<rparr>"

definition mdl_qry :: "TXeTxSarQuery \<Rightarrow> 'a TXe_scheme \<Rightarrow> 'a TXe_scheme" where
  "mdl_qry q s = s\<lparr>txe_soTSt_TxSarQry := swrite (txe_soTSt_TxSarQry s) q\<rparr>"

definition mdl_rx_req :: "SessionId \<Rightarrow> 'a TXe_scheme \<Rightarrow> 'a TXe_scheme" where
  "mdl_rx_req i s = s\<lparr>txe_soRSt_RxSarReq := swrite (txe_soRSt_RxSarReq s) i\<rparr>"

definition mdl_wait_event :: "'a TXe_scheme \<Rightarrow> 'a TXe_scheme" where
  "mdl_wait_event s =
     (case sread (txe_siAKd_Event s) of
        None \<Rightarrow> s
      | Some (x, si) \<Rightarrow>
          (let ev = ex_event x; i = ev_sessionID ev;
               s = s\<lparr>txe_siAKd_Event := si, mdl_curEvent := x, mdl_sarLoaded := False,
                     txe_soEVe_RxEventSig := swrite (txe_soEVe_RxEventSig s) True\<rparr>;
               s = (case ev_type ev of
                      RST_EVENT \<Rightarrow> (if hasSessionID ev then mdl_qry (TXeTxSarQuery_rd i) s else s)
                    | SYN_EVENT \<Rightarrow> (if ev_rt_count ev \<noteq> 0 then mdl_qry (TXeTxSarQuery_rd i) s else s)
                    | _ \<Rightarrow> mdl_qry (TXeTxSarQuery_rd i) (mdl_rx_req i s))
           in s\<lparr>txe_fsmState := MDL_PROCESS_EVENT, mdl_randomValue := mdl_randomValue s + 1\<rparr>))
     \<lparr>mdl_segmentCount := 0\<rparr>"

text \<open>Both tables have answered: their replies are taken.\<close>

definition mdl_read_sars :: "'a TXe_scheme \<Rightarrow> 'a TXe_scheme option" where
  "mdl_read_sars s =
     (case (sread (txe_siRSt_RxSarRep s), sread (txe_siTSt_TxSarRep s)) of
        (Some (rx, si1), Some (tx, si2)) \<Rightarrow>
          Some (s\<lparr>txe_siRSt_RxSarRep := si1, txe_siTSt_TxSarRep := si2, mdl_rxSar := rx, mdl_txSar := tx\<rparr>)
      | _ \<Rightarrow> None)"

definition mdl_load_sars :: "'a TXe_scheme \<Rightarrow> 'a TXe_scheme option" where
  "mdl_load_sars s = (if mdl_sarLoaded s then Some s else mdl_read_sars s)"

definition mdl_winSize :: "RxSarReply \<Rightarrow> TcpWindow" where
  "mdl_winSize r = rsr_appd r - ucast (rsr_oooHead r) - 1"

definition mdl_memSegAddr :: "32 word \<Rightarrow> SessionId \<Rightarrow> TxBufPtr \<Rightarrow> 32 word" where
  "mdl_memSegAddr base i p = set_range 15 0 (ucast p) (set_range 29 16 (ucast i) base)"

definition mdl_curID :: "'a TXe_scheme \<Rightarrow> SessionId" where
  "mdl_curID s = ev_sessionID (ex_event (mdl_curEvent s))"

definition mdl_set_type :: "EventType \<Rightarrow> 'a TXe_scheme \<Rightarrow> 'a TXe_scheme" where
  "mdl_set_type ty s =
     s\<lparr>mdl_curEvent := (mdl_curEvent s)\<lparr>ex_event := (ex_event (mdl_curEvent s))\<lparr>ev_type := ty\<rparr>\<rparr>\<rparr>"

definition mdl_timer :: "EventType \<Rightarrow> 'a TXe_scheme \<Rightarrow> 'a TXe_scheme" where
  "mdl_timer ty s = s\<lparr>txe_soTIm_ReTxTimerCmd :=
     swrite (txe_soTIm_ReTxTimerCmd s) \<lparr>trt_sessionID = mdl_curID s, trt_type = ty\<rparr>\<rparr>"

text \<open>The metadata of a segment goes to the constructors of the headers.\<close>

definition mdl_meta :: "TXeMeta \<Rightarrow> 'a TXe_scheme \<Rightarrow> 'a TXe_scheme" where
  "mdl_meta m s =
     s\<lparr>mdl_txeMeta := m,
       ssMdlToIhc_TcpDatLen := swrite (ssMdlToIhc_TcpDatLen s) (txm_length m),
       ssMdlToPhc_TxeMeta := swrite (ssMdlToPhc_TxeMeta s) m,
       ssMdlToSpS_IsLookup := swrite (ssMdlToSpS_IsLookup s) True,
       txe_soSLc_ReverseLkpReq := swrite (txe_soSLc_ReverseLkpReq s) (mdl_curID s)\<rparr>"

text \<open>A segment of data, if it is not empty.\<close>

definition mdl_data :: "32 word \<Rightarrow> TXeMeta \<Rightarrow> 'a TXe_scheme \<Rightarrow> 'a TXe_scheme" where
  "mdl_data a m s =
     (if txm_length m \<noteq> 0 then
        (let s = s\<lparr>ssMdlToMrd_BufferRdCmd :=
                     swrite (ssMdlToMrd_BufferRdCmd s) (DmCmd_of (ucast a) (ucast (txm_length m)))\<rparr>
         in mdl_timer RT_EVENT (mdl_meta m s))
      else s\<lparr>mdl_txeMeta := m\<rparr>)"

definition mdl_usableWindow :: "TXeTxSarReply \<Rightarrow> TcpWindow" where
  "mdl_usableWindow t =
     (let usedLength = ucast (ttr_not_ackd t) - ucast (ttr_ackd t) in
      if usedLength < ttr_min_window t then ttr_min_window t - usedLength else 0)"

definition MAX_SEGMENT :: nat where
  "MAX_SEGMENT = ZYC2_MSS - TCP_HEADER_LEN"

text \<open>The length of the next segment, and whether it is the last one of the event.\<close>

definition mdl_tx_length :: "TcpDatLen \<Rightarrow> TcpWindow \<Rightarrow> TcpDatLen \<times> bool" where
  "mdl_tx_length currDatLen usableWindow =
     (if currDatLen \<le> usableWindow then
        (if ZYC2_MSS < unat currDatLen + TCP_HEADER_LEN then (of_nat MAX_SEGMENT, False)
         else (currDatLen, True))
      else
        (if ZYC2_MSS \<le> unat usableWindow + TCP_HEADER_LEN then (of_nat MAX_SEGMENT, False)
         else (usableWindow, True)))"

definition mdl_tx :: "'a TXe_scheme \<Rightarrow> 'a TXe_scheme" where
  "mdl_tx s =
     (case mdl_load_sars s of
        None \<Rightarrow> s
      | Some s \<Rightarrow>
          (let rx = mdl_rxSar s; tx = mdl_txSar s; i = mdl_curID s;
               m = \<lparr>txm_seqNumb = ttr_not_ackd tx, txm_ackNumb = rsr_rcvd rx, txm_winSize = mdl_winSize rx,
                    txm_length = 0, txm_ack = True, txm_rst = False, txm_syn = False, txm_fin = False\<rparr>;
               currDatLen = ttr_app tx - ucast (ttr_not_ackd tx);
               usableWindow = mdl_usableWindow tx;
               a = mdl_memSegAddr TOE_TX_MEMORY_BASE i (ucast (ttr_not_ackd tx));
               (len, final) = mdl_tx_length currDatLen usableWindow;
               fin = (final \<and> currDatLen \<le> usableWindow \<and> ttr_finReady tx \<and>
                      (ttr_ackd tx = ttr_not_ackd tx \<or> currDatLen = 0));
               len = (if fin then 0 else len);
               tx = tx\<lparr>ttr_not_ackd := ttr_not_ackd tx + ucast len\<rparr>;
               s = s\<lparr>mdl_txSar := tx\<rparr>;
               s = (if fin then mdl_set_type FIN_EVENT s else s);
               s = (if final then mdl_qry (TXeTxSarQuery_wr i (ttr_not_ackd tx) False False False) s else s);
               s = (if final \<and> \<not> fin then s\<lparr>txe_fsmState := MDL_WAIT_EVENT\<rparr> else s);
               s = mdl_data a (m\<lparr>txm_length := len\<rparr>) s
           in s\<lparr>mdl_sarLoaded := True\<rparr>))"

definition mdl_rt_datLen :: "TXeTxSarReply \<Rightarrow> TcpDatLen" where
  "mdl_rt_datLen tx =
     (if \<not> ttr_finSent tx then ucast (ttr_not_ackd tx) - ucast (ttr_ackd tx)
      else ucast (ttr_not_ackd tx) - ucast (ttr_ackd tx) - 1)"

definition mdl_rt_threshold :: "TcpDatLen \<Rightarrow> TcpWindow" where
  "mdl_rt_threshold currDatLen =
     (if 4 * ZYC2_MSS < unat currDatLen then currDatLen div 2 else of_nat (2 * ZYC2_MSS))"

text \<open>The address of the retransmitted data is built from a base of its own.\<close>

definition mdl_rt :: "'a TXe_scheme \<Rightarrow> 'a TXe_scheme" where
  "mdl_rt s0 =
     (case mdl_load_sars s0 of
        None \<Rightarrow> s0
      | Some s \<Rightarrow>
          (let rx = mdl_rxSar s; tx = mdl_txSar s; i = mdl_curID s;
               currDatLen = mdl_rt_datLen tx;
               m = \<lparr>txm_seqNumb = ttr_ackd tx, txm_ackNumb = rsr_rcvd rx, txm_winSize = mdl_winSize rx,
                    txm_length = txm_length (mdl_txeMeta s), txm_ack = True, txm_rst = False,
                    txm_syn = False, txm_fin = False\<rparr>;
               a = mdl_memSegAddr 0x40000000 i (ucast (ttr_ackd tx));
               s = (if \<not> mdl_sarLoaded s0 \<and> ev_rt_count (ex_event (mdl_curEvent s)) = 1
                    then mdl_qry (TXeTxSarRtQuery i (mdl_rt_threshold currDatLen)) s else s);
               (m, s) =
                 (if ZYC2_MSS < unat currDatLen + TCP_HEADER_LEN then
                    (m\<lparr>txm_length := of_nat MAX_SEGMENT\<rparr>,
                     s\<lparr>mdl_txSar := tx\<lparr>ttr_ackd := ttr_ackd tx + of_nat MAX_SEGMENT\<rparr>,
                       txe_fsmState := (if mdl_segmentCount s = 3 then MDL_WAIT_EVENT else txe_fsmState s),
                       mdl_segmentCount := mdl_segmentCount s + 1\<rparr>)
                  else
                    (m\<lparr>txm_length := currDatLen\<rparr>,
                     if ttr_finSent tx then mdl_set_type FIN_EVENT s
                     else s\<lparr>txe_fsmState := MDL_WAIT_EVENT\<rparr>));
               s = mdl_data a m s
           in s\<lparr>mdl_sarLoaded := True\<rparr>))"

definition mdl_ack :: "'a TXe_scheme \<Rightarrow> 'a TXe_scheme" where
  "mdl_ack s =
     (case mdl_read_sars s of
        None \<Rightarrow> s
      | Some s \<Rightarrow>
          (mdl_meta \<lparr>txm_seqNumb = ttr_not_ackd (mdl_txSar s), txm_ackNumb = rsr_rcvd (mdl_rxSar s),
                     txm_winSize = mdl_winSize (mdl_rxSar s), txm_length = 0, txm_ack = True,
                     txm_rst = False, txm_syn = False, txm_fin = False\<rparr> s)\<lparr>txe_fsmState := MDL_WAIT_EVENT\<rparr>)"

text \<open>A first SYN or SYN-ACK takes a new sequence number and initialises the Tx SAR table with it.\<close>

definition mdl_new_seq :: "'a TXe_scheme \<Rightarrow> 'a TXe_scheme" where
  "mdl_new_seq s =
     (let r = mdl_randomValue s;
          s = s\<lparr>mdl_txSar := (mdl_txSar s)\<lparr>ttr_not_ackd := r\<rparr>, mdl_randomValue := (r * 8) XOR r\<rparr>
      in mdl_qry (TXeTxSarQuery_wr (mdl_curID s) (r + 1) True False False) s)"

definition mdl_syn_send :: "TXeMeta \<Rightarrow> EventType \<Rightarrow> 'a TXe_scheme \<Rightarrow> 'a TXe_scheme" where
  "mdl_syn_send m ty s = (mdl_timer ty (mdl_meta m s))\<lparr>txe_fsmState := MDL_WAIT_EVENT\<rparr>"

definition mdl_syn :: "'a TXe_scheme \<Rightarrow> 'a TXe_scheme" where
  "mdl_syn s =
     (let m = \<lambda>seq. \<lparr>txm_seqNumb = seq, txm_ackNumb = 0, txm_winSize = 0xFFFF, txm_length = 4,
                     txm_ack = False, txm_rst = False, txm_syn = True, txm_fin = False\<rparr> in
      if ev_rt_count (ex_event (mdl_curEvent s)) = 0 then
        (let s = mdl_new_seq s in mdl_syn_send (m (ttr_not_ackd (mdl_txSar s))) SYN_EVENT s)
      else
        (case sread (txe_siTSt_TxSarRep s) of
           None \<Rightarrow> s
         | Some (tx, si) \<Rightarrow>
             mdl_syn_send (m (ttr_ackd tx)) SYN_EVENT (s\<lparr>txe_siTSt_TxSarRep := si, mdl_txSar := tx\<rparr>)))"

definition mdl_syn_ack :: "'a TXe_scheme \<Rightarrow> 'a TXe_scheme" where
  "mdl_syn_ack s =
     (case mdl_read_sars s of
        None \<Rightarrow> s
      | Some s \<Rightarrow>
          (let m = \<lambda>seq. \<lparr>txm_seqNumb = seq, txm_ackNumb = rsr_rcvd (mdl_rxSar s),
                          txm_winSize = of_nat (MY_MSS * 12), txm_length = 4,
                          txm_ack = True, txm_rst = False, txm_syn = True, txm_fin = False\<rparr> in
           if ev_rt_count (ex_event (mdl_curEvent s)) \<noteq> 0
           then mdl_syn_send (m (ttr_ackd (mdl_txSar s))) SYN_ACK_EVENT s
           else (let s = mdl_new_seq s
                 in mdl_syn_send (m (ttr_not_ackd (mdl_txSar s))) SYN_ACK_EVENT s)))"

definition mdl_fin :: "'a TXe_scheme \<Rightarrow> 'a TXe_scheme" where
  "mdl_fin s =
     (case mdl_load_sars s of
        None \<Rightarrow> s
      | Some s \<Rightarrow>
          (let rx = mdl_rxSar s; tx = mdl_txSar s; i = mdl_curID s;
               rt = (ev_rt_count (ex_event (mdl_curEvent s)) \<noteq> 0);
               m = \<lparr>txm_seqNumb = (if rt then ttr_not_ackd tx - 1 else ttr_not_ackd tx),
                    txm_ackNumb = rsr_rcvd rx, txm_winSize = mdl_winSize rx, txm_length = 0,
                    txm_ack = True, txm_rst = False, txm_syn = False, txm_fin = True\<rparr>;
               s = (if rt then s
                    else if ttr_app tx = ucast (ttr_not_ackd tx)
                    then mdl_qry (TXeTxSarQuery_wr i (ttr_not_ackd tx + 1) False True True) s
                    else mdl_qry (TXeTxSarQuery_wr i (ttr_not_ackd tx) False True False) s);
               s = (if ucast (txm_seqNumb m) = ttr_app tx then mdl_timer RT_EVENT (mdl_meta m s)
                    else s\<lparr>mdl_txeMeta := m\<rparr>)
           in s\<lparr>txe_fsmState := MDL_WAIT_EVENT\<rparr>))"

definition TXeMeta_rst :: "TcpSeqNum \<Rightarrow> TcpAckNum \<Rightarrow> TXeMeta" where
  "TXeMeta_rst seq ack = \<lparr>txm_seqNumb = seq, txm_ackNumb = ack, txm_winSize = 0, txm_length = 0,
     txm_ack = True, txm_rst = True, txm_syn = False, txm_fin = False\<rparr>"

text \<open>\<open>junk\<close> is the socket pair of an event that was made without one.\<close>

definition mdl_rst :: "SocketPair \<Rightarrow> 'a TXe_scheme \<Rightarrow> 'a TXe_scheme" where
  "mdl_rst junk s =
     (let ev = ex_event (mdl_curEvent s) in
      if \<not> hasSessionID ev then
        s\<lparr>ssMdlToIhc_TcpDatLen := swrite (ssMdlToIhc_TcpDatLen s) 0,
          ssMdlToPhc_TxeMeta := swrite (ssMdlToPhc_TxeMeta s) (TXeMeta_rst 0 (getAckNumb ev)),
          ssMdlToSpS_IsLookup := swrite (ssMdlToSpS_IsLookup s) False,
          ssMdlToSps_RstSockPair := swrite (ssMdlToSps_RstSockPair s)
            (case ex_tuple (mdl_curEvent s) of Some t \<Rightarrow> t | None \<Rightarrow> junk),
          txe_fsmState := MDL_WAIT_EVENT\<rparr>
      else
        (case sread (txe_siTSt_TxSarRep s) of
           None \<Rightarrow> s
         | Some (tx, si) \<Rightarrow>
             s\<lparr>txe_siTSt_TxSarRep := si, mdl_txSar := tx,
               ssMdlToIhc_TcpDatLen := swrite (ssMdlToIhc_TcpDatLen s) 0,
               ssMdlToSpS_IsLookup := swrite (ssMdlToSpS_IsLookup s) True,
               txe_soSLc_ReverseLkpReq := swrite (txe_soSLc_ReverseLkpReq s) (ev_sessionID ev),
               ssMdlToPhc_TxeMeta :=
                 swrite (ssMdlToPhc_TxeMeta s) (TXeMeta_rst (ttr_not_ackd tx) (getAckNumb ev)),
               txe_fsmState := MDL_WAIT_EVENT\<rparr>))"

definition pMetaDataLoader :: "SocketPair \<Rightarrow> 'a TXe_scheme \<Rightarrow> 'a TXe_scheme" where
  "pMetaDataLoader junk s =
     (case txe_fsmState s of
        MDL_WAIT_EVENT \<Rightarrow> mdl_wait_event s
      | MDL_PROCESS_EVENT \<Rightarrow>
          (case ev_type (ex_event (mdl_curEvent s)) of
             TX_EVENT \<Rightarrow> mdl_tx s
           | RT_EVENT \<Rightarrow> mdl_rt s
           | ACK_EVENT \<Rightarrow> mdl_ack s
           | ACK_NODELAY_EVENT \<Rightarrow> mdl_ack s
           | SYN_EVENT \<Rightarrow> mdl_syn s
           | SYN_ACK_EVENT \<Rightarrow> mdl_syn_ack s
           | FIN_EVENT \<Rightarrow> mdl_fin s
           | RST_EVENT \<Rightarrow> mdl_rst junk s))"

section \<open>Socket pairs and headers\<close>

definition le_pair :: "SocketPair \<Rightarrow> SocketPair" where
  "le_pair p = \<lparr>sp_src = \<lparr>sa_addr = byteSwap32 (sa_addr (sp_src p)), sa_port = byteSwap16 (sa_port (sp_src p))\<rparr>,
     sp_dst = \<lparr>sa_addr = byteSwap32 (sa_addr (sp_dst p)), sa_port = byteSwap16 (sa_port (sp_dst p))\<rparr>\<rparr>"

definition sps_forward :: "SocketPair \<Rightarrow> 'a TXe_scheme \<Rightarrow> 'a TXe_scheme" where
  "sps_forward p s =
     s\<lparr>ssSpsToIhc_IpAddrPair := swrite (ssSpsToIhc_IpAddrPair s)
         \<lparr>ip_src = sa_addr (sp_src p), ip_dst = sa_addr (sp_dst p)\<rparr>,
       ssSpsToPhc_SockPair := swrite (ssSpsToPhc_SockPair s) p, sps_getMeta := False\<rparr>"

definition pSocketPairSplitter :: "'a TXe_scheme \<Rightarrow> 'a TXe_scheme" where
  "pSocketPairSplitter s =
     (if \<not> sps_getMeta s then
        (case sread (ssMdlToSpS_IsLookup s) of
           None \<Rightarrow> s
         | Some (l, si) \<Rightarrow> s\<lparr>ssMdlToSpS_IsLookup := si, sps_isLookUp := l, sps_getMeta := True\<rparr>)
      else if sps_isLookUp s then
        (case sread (txe_siSLc_ReverseLkpRep s) of
           None \<Rightarrow> s
         | Some (t, si) \<Rightarrow>
             sps_forward (le_pair \<lparr>sp_src = \<lparr>sa_addr = ft_srcIp t, sa_port = ft_srcPort t\<rparr>,
                                   sp_dst = \<lparr>sa_addr = ft_dstIp t, sa_port = ft_dstPort t\<rparr>\<rparr>)
               (s\<lparr>txe_siSLc_ReverseLkpRep := si\<rparr>))
      else
        (case sread (ssMdlToSps_RstSockPair s) of
           None \<Rightarrow> s
         | Some (p, si) \<Rightarrow> sps_forward (le_pair p) (s\<lparr>ssMdlToSps_RstSockPair := si\<rparr>)))"

text \<open>The three chunks of the IPv4 header; \<open>junk\<close> is the uninitialised chunk they are made from.\<close>

definition ihc_chunk0 :: "TcpDatLen \<Rightarrow> AxisIp4 \<Rightarrow> AxisIp4" where
  "ihc_chunk0 len c =
     (setIp4FragOff 0 (setIp4Flags 0 (setIp4Ident 0
       (setIp4TotalLen (of_nat IP4_HEADER_LEN + of_nat TCP_HEADER_LEN + len)
         (setIp4ToS 0 (setIp4HdrLen 5 (setIp4Version 4 c)))))))\<lparr>ax_tkeep := 0xFF, ax_tlast := False\<rparr>"

definition ihc_chunk1 :: "Ip4Addr \<Rightarrow> AxisIp4 \<Rightarrow> AxisIp4" where
  "ihc_chunk1 a c =
     (setIp4SrcAddr a (setIp4HdrCsum 0 (setIp4Prot 6 (setIp4TtL 0x40 c))))\<lparr>ax_tkeep := 0xFF, ax_tlast := False\<rparr>"

definition ihc_chunk2 :: "Ip4Addr \<Rightarrow> AxisIp4 \<Rightarrow> AxisIp4" where
  "ihc_chunk2 a c = (setIp4DstAddr a c)\<lparr>ax_tkeep := 0x0F, ax_tlast := True\<rparr>"

definition ihc_put :: "AxisIp4 \<Rightarrow> 'a TXe_scheme \<Rightarrow> 'a TXe_scheme" where
  "ihc_put c s = s\<lparr>ssIhcToIps_IpHeader := swrite (ssIhcToIps_IpHeader s) c\<rparr>"

definition pIpHeaderConstructor :: "AxisIp4 \<Rightarrow> 'a TXe_scheme \<Rightarrow> 'a TXe_scheme" where
  "pIpHeaderConstructor junk s =
     (if ihc_chunkCounter s = 0 then
        (case sread (ssMdlToIhc_TcpDatLen s) of
           None \<Rightarrow> s
         | Some (len, si) \<Rightarrow>
             ihc_put (ihc_chunk0 len junk) (s\<lparr>ssMdlToIhc_TcpDatLen := si, ihc_chunkCounter := 1\<rparr>))
      else if ihc_chunkCounter s = 1 then
        (case sread (ssSpsToIhc_IpAddrPair s) of
           None \<Rightarrow> s
         | Some (p, si) \<Rightarrow>
             ihc_put (ihc_chunk1 (ip_src p) junk)
               (s\<lparr>ssSpsToIhc_IpAddrPair := si, ihc_ipAddrPair := p, ihc_chunkCounter := 2\<rparr>))
      else if ihc_chunkCounter s = 2 then
        ihc_put (ihc_chunk2 (ip_dst (ihc_ipAddrPair s)) junk) (s\<lparr>ihc_chunkCounter := 0\<rparr>)
      else s)"

text \<open>The four or five chunks of the pseudo header and the TCP header.\<close>

definition phc_new :: AxisPsd4 where
  "phc_new = \<lparr>ax_tdata = 0, ax_tkeep = 0xFF, ax_tlast = False\<rparr>"

definition phc_chunk0 :: "SocketPair \<Rightarrow> AxisPsd4" where
  "phc_chunk0 p = setPsd4DstAddr (sa_addr (sp_dst p)) (setPsd4SrcAddr (sa_addr (sp_src p)) phc_new)"

definition phc_chunk1 :: "TcpSegLen \<Rightarrow> SocketPair \<Rightarrow> AxisPsd4" where
  "phc_chunk1 len p =
     setTcpDstPort (sa_port (sp_dst p)) (setTcpSrcPort (sa_port (sp_src p))
       (setPsd4Len (len + of_nat TCP_HEADER_LEN) (setPsd4Prot 6 (setPsd4ResBits 0 phc_new))))"

definition phc_chunk2 :: "TXeMeta \<Rightarrow> AxisPsd4" where
  "phc_chunk2 m = setTcpAckNum (txm_ackNumb m) (setTcpSeqNum (txm_seqNumb m) phc_new)"

definition phc_chunk3 :: "TXeMeta \<Rightarrow> AxisPsd4" where
  "phc_chunk3 m =
     setTLast (txm_length m = 0 \<and> \<not> txm_syn m)
       (setTcpUrgPtr 0 (setTcpChecksum 0 (setTcpWindow (txm_winSize m)
         (setTcpCtrlBit 15 False (setTcpCtrlBit 14 False (setTcpCtrlBit 13 False
         (setTcpCtrlBit 12 (txm_ack m) (setTcpCtrlBit 11 False (setTcpCtrlBit 10 (txm_rst m)
         (setTcpCtrlBit 9 (txm_syn m) (setTcpCtrlBit 8 (txm_fin m)
         (setTcpDataOff (5 + (if txm_syn m then 1 else 0))
         (setTcpResBits 0 (setTcpCtrlBit 0 False phc_new))))))))))))))"

definition phc_chunk4 :: AxisPsd4 where
  "phc_chunk4 = (setTcpOptMss (of_nat MY_MSS) (setTcpOptLen 4 (setTcpOptKind 2 phc_new)))
     \<lparr>ax_tkeep := 0x0F, ax_tlast := True\<rparr>"

definition phc_put :: "AxisPsd4 \<Rightarrow> 'a TXe_scheme \<Rightarrow> 'a TXe_scheme" where
  "phc_put c s = s\<lparr>ssPhcToTss_PseudoHdr := swrite (ssPhcToTss_PseudoHdr s) c\<rparr>"

definition pPseudoHeaderConstructor :: "'a TXe_scheme \<Rightarrow> 'a TXe_scheme" where
  "pPseudoHeaderConstructor s =
     (if phc_chunkCount s = 0 then
        (case (sread (ssSpsToPhc_SockPair s), sread (ssMdlToPhc_TxeMeta s)) of
           (Some (p, si1), Some (m, si2)) \<Rightarrow>
             phc_put (phc_chunk0 p) (s\<lparr>ssSpsToPhc_SockPair := si1, ssMdlToPhc_TxeMeta := si2,
               phc_socketPair := p, phc_meta := m, phc_chunkCount := 1\<rparr>)
         | _ \<Rightarrow> s)
      else if phc_chunkCount s = 1 then
        phc_put (phc_chunk1 (txm_length (phc_meta s)) (phc_socketPair s)) (s\<lparr>phc_chunkCount := 2\<rparr>)
      else if phc_chunkCount s = 2 then phc_put (phc_chunk2 (phc_meta s)) (s\<lparr>phc_chunkCount := 3\<rparr>)
      else if phc_chunkCount s = 3 then
        phc_put (phc_chunk3 (phc_meta s))
          (s\<lparr>phc_chunkCount := (if \<not> txm_syn (phc_meta s) then 0 else 4)\<rparr>)
      else if phc_chunkCount s = 4 then phc_put phc_chunk4 (s\<lparr>phc_chunkCount := 0\<rparr>)
      else s)"

section \<open>The payload\<close>

definition txr_1st_access :: "'a TXe_scheme \<Rightarrow> 'a TXe_scheme" where
  "txr_1st_access s =
     (if \<not> sempty (ssMdlToMrd_BufferRdCmd s) \<and> \<not> sfull (ssMrdToTss_SplitMemAcc s) \<and>
         \<not> sfull (txe_soMEM_RdCmd s) then
        (case sread (ssMdlToMrd_BufferRdCmd s) of
           None \<Rightarrow> s
         | Some (c, si) \<Rightarrow>
             (let s = s\<lparr>ssMdlToMrd_BufferRdCmd := si, txr_memRdCmd := c\<rparr> in
              if TOE_TX_BUFFER_SIZE < unat (get_range 15 0 (dm_saddr c)) + unat (dm_btt c) then
                (let len = ucast (of_nat TOE_TX_BUFFER_SIZE - dm_saddr c) in
                 s\<lparr>txr_firstAccLen := len, txr_fsmState := TXM_2ND_ACCESS,
                   txe_soMEM_RdCmd := swrite (txe_soMEM_RdCmd s) (DmCmd_of (dm_saddr c) (ucast len)),
                   ssMrdToTss_SplitMemAcc := swrite (ssMrdToTss_SplitMemAcc s) True\<rparr>)
              else
                s\<lparr>txe_soMEM_RdCmd := swrite (txe_soMEM_RdCmd s) c,
                  ssMrdToTss_SplitMemAcc := swrite (ssMrdToTss_SplitMemAcc s) False\<rparr>))
      else s)"

definition txr_2nd_access :: "'a TXe_scheme \<Rightarrow> 'a TXe_scheme" where
  "txr_2nd_access s =
     (if \<not> sfull (txe_soMEM_RdCmd s) then
        (let c = (txr_memRdCmd s)\<lparr>dm_saddr := set_range 15 0 0 (dm_saddr (txr_memRdCmd s))\<rparr> in
         s\<lparr>txr_memRdCmd := c,
           txe_soMEM_RdCmd := swrite (txe_soMEM_RdCmd s)
             (DmCmd_of (dm_saddr c) (dm_btt c - ucast (txr_firstAccLen s))),
           txr_fsmState := TXM_1ST_ACCESS\<rparr>)
      else s)"

definition pTxMemoryReader :: "'a TXe_scheme \<Rightarrow> 'a TXe_scheme" where
  "pTxMemoryReader s =
     (case txr_fsmState s of TXM_1ST_ACCESS \<Rightarrow> txr_1st_access s | TXM_2ND_ACCESS \<Rightarrow> txr_2nd_access s)"

definition tss_put :: "AxisPsd4 \<Rightarrow> 'a TXe_scheme \<Rightarrow> 'a TXe_scheme" where
  "tss_put c s = s\<lparr>ssTssToSca_PseudoPkt := swrite (ssTssToSca_PseudoPkt s) c\<rparr>"

definition tss_psd_hdr :: "'a TXe_scheme \<Rightarrow> 'a TXe_scheme" where
  "tss_psd_hdr s =
     (case sread (ssPhcToTss_PseudoHdr s) of
        None \<Rightarrow> s
      | Some (c, si) \<Rightarrow>
          (let s = tss_put c (s\<lparr>ssPhcToTss_PseudoHdr := si\<rparr>);
               s = (if tss_psdHdrChunkCount s = 3
                    then s\<lparr>tss_fsmState := (if getTcpCtrlSyn c then TSS_PSD_OPT else TSS_DATA),
                           tss_psdHdrChunkCount := 0\<rparr>
                    else s\<lparr>tss_psdHdrChunkCount := tss_psdHdrChunkCount s + 1\<rparr>)
           in if ax_tlast c then s\<lparr>tss_fsmState := TSS_PSD_HDR, tss_psdHdrChunkCount := 0\<rparr> else s))"

definition tss_psd_opt :: "'a TXe_scheme \<Rightarrow> 'a TXe_scheme" where
  "tss_psd_opt s =
     (case sread (ssPhcToTss_PseudoHdr s) of
        None \<Rightarrow> s
      | Some (c, si) \<Rightarrow> (tss_put c (s\<lparr>ssPhcToTss_PseudoHdr := si\<rparr>))\<lparr>tss_fsmState := TSS_PSD_HDR\<rparr>)"

text \<open>The end of the first buffer of a split segment.\<close>

definition tss_1st_end :: "AxisApp \<Rightarrow> 'a TXe_scheme \<Rightarrow> 'a TXe_scheme" where
  "tss_1st_end c s =
     (let s = s\<lparr>tss_memRdOffset := of_nat (getLen c)\<rparr> in
      if tss_memRdOffset s \<noteq> 8
      then s\<lparr>tss_prevChunk := c, tss_fsmState := TSS_JOIN_2ND_BUF\<rparr>
      else (tss_put c s)\<lparr>tss_fsmState := TSS_FWD_2ND_BUF\<rparr>)"

definition tss_data :: "'a TXe_scheme \<Rightarrow> 'a TXe_scheme" where
  "tss_data s =
     (case (sread (txe_siMEM_TxP_Data s), sread (ssMrdToTss_SplitMemAcc s)) of
        (Some (c, si1), Some (join, si2)) \<Rightarrow>
          (let s = s\<lparr>txe_siMEM_TxP_Data := si1, ssMrdToTss_SplitMemAcc := si2, tss_mustJoin := join\<rparr> in
           if ax_tlast c then
             (if \<not> join then (tss_put c s)\<lparr>tss_fsmState := TSS_PSD_HDR\<rparr> else tss_1st_end c s)
           else (tss_put c s)\<lparr>tss_fsmState := TSS_FWD_1ST_BUF\<rparr>)
      | _ \<Rightarrow> s)"

definition tss_fwd_1st_buf :: "'a TXe_scheme \<Rightarrow> 'a TXe_scheme" where
  "tss_fwd_1st_buf s =
     (case sread (txe_siMEM_TxP_Data s) of
        None \<Rightarrow> s
      | Some (c, si) \<Rightarrow>
          (let s = s\<lparr>txe_siMEM_TxP_Data := si\<rparr> in
           if ax_tlast c then
             (if \<not> tss_mustJoin s then (tss_put c s)\<lparr>tss_fsmState := TSS_PSD_HDR\<rparr>
              else tss_1st_end (c\<lparr>ax_tlast := False\<rparr>) s)
           else tss_put c s))"

definition tss_fwd_2nd_buf :: "'a TXe_scheme \<Rightarrow> 'a TXe_scheme" where
  "tss_fwd_2nd_buf s =
     (case sread (txe_siMEM_TxP_Data s) of
        None \<Rightarrow> s
      | Some (c, si) \<Rightarrow>
          (let s = tss_put c (s\<lparr>txe_siMEM_TxP_Data := si\<rparr>)
           in if ax_tlast c then s\<lparr>tss_fsmState := TSS_PSD_HDR\<rparr> else s))"

text \<open>The shifts of the bytes are those of the stitcher of the Rx application interface.\<close>

definition tss_join_2nd_buf :: "'a TXe_scheme \<Rightarrow> 'a TXe_scheme" where
  "tss_join_2nd_buf s =
     (case sread (txe_siMEM_TxP_Data s) of
        None \<Rightarrow> s
      | Some (c, si) \<Rightarrow>
          (let s = s\<lparr>txe_siMEM_TxP_Data := si\<rparr>;
               k = unat (tss_memRdOffset s);
               joined = ass_join k (tss_prevChunk s) c;
               s = (if \<not> bit (ax_tkeep c) (8 - k) then
                      tss_put (joined\<lparr>ax_tlast := True\<rparr>) (s\<lparr>tss_fsmState := TSS_PSD_HDR\<rparr>)
                    else if ax_tlast c then tss_put joined (s\<lparr>tss_fsmState := TSS_RESIDUE\<rparr>)
                    else tss_put joined s)
           in s\<lparr>tss_prevChunk := ass_move k c (tss_prevChunk s)\<rparr>))"

definition tss_residue :: "'a TXe_scheme \<Rightarrow> 'a TXe_scheme" where
  "tss_residue s =
     (tss_put ((ass_head (unat (tss_memRdOffset s)) (tss_prevChunk s))\<lparr>ax_tlast := True\<rparr>) s)
       \<lparr>tss_fsmState := TSS_PSD_HDR\<rparr>"

definition pTcpSegStitcher :: "'a TXe_scheme \<Rightarrow> 'a TXe_scheme" where
  "pTcpSegStitcher s =
     (if sfull (ssTssToSca_PseudoPkt s) then s
      else
        (case tss_fsmState s of
           TSS_PSD_HDR \<Rightarrow> tss_psd_hdr s
         | TSS_PSD_OPT \<Rightarrow> tss_psd_opt s
         | TSS_DATA \<Rightarrow> tss_data s
         | TSS_FWD_1ST_BUF \<Rightarrow> tss_fwd_1st_buf s
         | TSS_FWD_2ND_BUF \<Rightarrow> tss_fwd_2nd_buf s
         | TSS_JOIN_2ND_BUF \<Rightarrow> tss_join_2nd_buf s
         | TSS_RESIDUE \<Rightarrow> tss_residue s))"

section \<open>The checksum\<close>

text \<open>The sums have 17 bits: a carry is added back to the low 16.\<close>

definition csum_fold :: "17 word \<Rightarrow> 17 word" where
  "csum_fold v = (v + drop_bit 16 v) AND 0xFFFF"

definition sca_lane :: "AxisPsd4 \<Rightarrow> nat \<Rightarrow> 17 word \<Rightarrow> 17 word" where
  "sca_lane c i v =
     (let hi = ucast (get_range (i * 16 + 7) (i * 16) (ax_tdata c)) :: 8 word;
          lo = ucast (get_range (i * 16 + 15) (i * 16 + 8) (ax_tdata c)) :: 8 word in
      if get_range (i * 2 + 1) (i * 2) (ax_tkeep c) = 3
      then csum_fold (v + ucast (word_cat hi lo :: 16 word))
      else if bit (ax_tkeep c) (i * 2)
      then csum_fold (v + ucast (word_cat hi (0 :: 8 word) :: 16 word))
      else v)"

definition SubCSums_zero :: SubCSums where
  "SubCSums_zero = \<lparr>sum0 = 0, sum1 = 0, sum2 = 0, sum3 = 0\<rparr>"

definition sca_add :: "AxisPsd4 \<Rightarrow> SubCSums \<Rightarrow> SubCSums" where
  "sca_add c v = \<lparr>sum0 = sca_lane c 0 (sum0 v), sum1 = sca_lane c 1 (sum1 v),
     sum2 = sca_lane c 2 (sum2 v), sum3 = sca_lane c 3 (sum3 v)\<rparr>"

definition pSubChecksumAccumulators :: "'a TXe_scheme \<Rightarrow> 'a TXe_scheme" where
  "pSubChecksumAccumulators s =
     (case sread (ssTssToSca_PseudoPkt s) of
        None \<Rightarrow> s
      | Some (c, si) \<Rightarrow>
          (let s = s\<lparr>ssTssToSca_PseudoPkt := si\<rparr>;
               s = (if sca_doForwardChunk s
                    then s\<lparr>ssScaToIps_PseudoPkt := swrite (ssScaToIps_PseudoPkt s) c\<rparr> else s);
               s = s\<lparr>sca_4CSums := sca_add c (sca_4CSums s), sca_doForwardChunk := True\<rparr>
           in if ax_tlast c
              then s\<lparr>ssScaToTca_FourSubCsums := swrite (ssScaToTca_FourSubCsums s) (sca_4CSums s),
                     sca_doForwardChunk := False, sca_4CSums := SubCSums_zero\<rparr>
              else s))"

definition tca_csum :: "SubCSums \<Rightarrow> 16 word" where
  "tca_csum v = ucast (NOT (csum_fold (csum_fold (sum0 v + sum2 v) + csum_fold (sum1 v + sum3 v))))"

definition pTcpChecksumAccumulator :: "'a TXe_scheme \<Rightarrow> 'a TXe_scheme" where
  "pTcpChecksumAccumulator s =
     (case sread (ssScaToTca_FourSubCsums s) of
        None \<Rightarrow> s
      | Some (v, si) \<Rightarrow>
          s\<lparr>ssScaToTca_FourSubCsums := si, ssTcaToIps_TcpCsum := swrite (ssTcaToIps_TcpCsum s) (tca_csum v)\<rparr>)"

section \<open>The packet\<close>

definition ips_put :: "AxisIp4 \<Rightarrow> 'a TXe_scheme \<Rightarrow> 'a TXe_scheme" where
  "ips_put c s = s\<lparr>txe_soIPTX_Data := swrite (txe_soIPTX_Data s) c\<rparr>"

definition ips_chunk2 :: "AxisIp4 \<Rightarrow> AxisPsd4 \<Rightarrow> AxisIp4" where
  "ips_chunk2 ip tcp = setTcpDstPort (getTcpDstPort tcp) (setTcpSrcPort (getTcpSrcPort tcp)
     (setIp4DstAddr (getIp4DstAddr ip) phc_new))"

definition ips_chunk3 :: "AxisPsd4 \<Rightarrow> AxisIp4" where
  "ips_chunk3 tcp = setTcpAckNum (getTcpAckNum tcp) (setTcpSeqNum (getTcpSeqNum tcp) phc_new)"

definition pIpPktStitcher :: "'a TXe_scheme \<Rightarrow> 'a TXe_scheme" where
  "pIpPktStitcher s =
     (let n = ips_chunkCount s in
      if sfull (txe_soIPTX_Data s) then s
      else if n = 0 \<or> n = 1 then
        (case sread (ssIhcToIps_IpHeader s) of
           None \<Rightarrow> s
         | Some (c, si) \<Rightarrow> ips_put c (s\<lparr>ssIhcToIps_IpHeader := si, ips_chunkCount := n + 1\<rparr>))
      else if n = 2 then
        (case (sread (ssIhcToIps_IpHeader s), sread (ssScaToIps_PseudoPkt s)) of
           (Some (ip, si1), Some (tcp, si2)) \<Rightarrow>
             ips_put (ips_chunk2 ip tcp)
               (s\<lparr>ssIhcToIps_IpHeader := si1, ssScaToIps_PseudoPkt := si2, ips_chunkCount := 3\<rparr>)
         | _ \<Rightarrow> s)
      else if n = 3 then
        (case sread (ssScaToIps_PseudoPkt s) of
           None \<Rightarrow> s
         | Some (tcp, si) \<Rightarrow> ips_put (ips_chunk3 tcp) (s\<lparr>ssScaToIps_PseudoPkt := si, ips_chunkCount := 4\<rparr>))
      else if n = 4 then
        (case (sread (ssScaToIps_PseudoPkt s), sread (ssTcaToIps_TcpCsum s)) of
           (Some (tcp, si1), Some (csum, si2)) \<Rightarrow>
             ips_put (setTcpChecksum csum tcp)
               (s\<lparr>ssScaToIps_PseudoPkt := si1, ssTcaToIps_TcpCsum := si2,
                  ips_chunkCount := (if ax_tlast tcp then 0 else 5)\<rparr>)
         | _ \<Rightarrow> s)
      else
        (case sread (ssScaToIps_PseudoPkt s) of
           None \<Rightarrow> s
         | Some (tcp, si) \<Rightarrow>
             ips_put tcp (s\<lparr>ssScaToIps_PseudoPkt := si, ips_chunkCount := (if ax_tlast tcp then 0 else n)\<rparr>)))"

text \<open>The engine runs its processes in the order of the source.\<close>

definition tx_engine :: "SocketPair \<Rightarrow> AxisIp4 \<Rightarrow> 'a TXe_scheme \<Rightarrow> 'a TXe_scheme" where
  "tx_engine junk_pair junk s =
     pTcpChecksumAccumulator (pSubChecksumAccumulators (pTcpSegStitcher (pPseudoHeaderConstructor
       (pIpPktStitcher (pIpHeaderConstructor junk (pSocketPairSplitter (pTxMemoryReader
         (pMetaDataLoader junk_pair s))))))))"

text \<open>The engine after reset, with the depths of \<open>tx_engine.cpp\<close> and \<open>toe.cpp\<close> and 4 places on the
  ports to the memory and to IPTX.\<close>

definition txe_reset :: TXe where
  "txe_reset = \<lparr>txe_siAKd_Event = Stream 16 [], txe_soEVe_RxEventSig = Stream 8 [],
     txe_soRSt_RxSarReq = Stream 4 [], txe_siRSt_RxSarRep = Stream 2 [], txe_soTSt_TxSarQry = Stream 4 [],
     txe_siTSt_TxSarRep = Stream 2 [], txe_soTIm_ReTxTimerCmd = Stream 2 [],
     txe_soSLc_ReverseLkpReq = Stream 4 [], ssMdlToIhc_TcpDatLen = Stream 16 [],
     ssMdlToPhc_TxeMeta = Stream 16 [], ssMdlToSpS_IsLookup = Stream 4 [],
     ssMdlToMrd_BufferRdCmd = Stream 32 [], ssMdlToSps_RstSockPair = Stream 2 [],
     txe_fsmState = MDL_WAIT_EVENT, mdl_sarLoaded = False, mdl_segmentCount = 0,
     mdl_curEvent = ExtendedEvent_of (Event_sess TX_EVENT 0),
     mdl_rxSar = \<lparr>rsr_appd = 0, rsr_rcvd = 0, rsr_oooHead = 0, rsr_oooTail = 0, rsr_ooo = False\<rparr>,
     mdl_txSar = \<lparr>ttr_ackd = 0, ttr_not_ackd = 0, ttr_min_window = 0, ttr_app = 0, ttr_finReady = False,
       ttr_finSent = False\<rparr>,
     mdl_randomValue = 100000, mdl_txeMeta = TXeMeta_rst 0 0, txe_siSLc_ReverseLkpRep = Stream 4 [],
     ssSpsToIhc_IpAddrPair = Stream 4 [], ssSpsToPhc_SockPair = Stream 4 [], sps_getMeta = False,
     sps_isLookUp = False, ssIhcToIps_IpHeader = Stream 32 [], ihc_chunkCounter = 0,
     ihc_ipAddrPair = \<lparr>ip_src = 0, ip_dst = 0\<rparr>, ssPhcToTss_PseudoHdr = Stream 32 [], phc_chunkCount = 0,
     phc_meta = TXeMeta_rst 0 0,
     phc_socketPair = \<lparr>sp_src = \<lparr>sa_addr = 0, sa_port = 0\<rparr>, sp_dst = \<lparr>sa_addr = 0, sa_port = 0\<rparr>\<rparr>,
     txe_soMEM_RdCmd = Stream 4 [], ssMrdToTss_SplitMemAcc = Stream 32 [], txr_fsmState = TXM_1ST_ACCESS,
     txr_memRdCmd = DmCmd_of 0 0, txr_firstAccLen = 0, txe_siMEM_TxP_Data = Stream 4 [],
     ssTssToSca_PseudoPkt = Stream 16 [], tss_fsmState = TSS_PSD_HDR, tss_psdHdrChunkCount = 0,
     tss_prevChunk = AxisApp_zero, tss_memRdOffset = 0, tss_mustJoin = False,
     ssScaToIps_PseudoPkt = Stream 256 [], ssScaToTca_FourSubCsums = Stream 2 [],
     sca_doForwardChunk = False, sca_4CSums = SubCSums_zero, ssTcaToIps_TcpCsum = Stream 4 [],
     txe_soIPTX_Data = Stream 4 [], ips_chunkCount = 0\<rparr>"

end
