(* ===== verification/Tx_Segments.thy ===== *)
theory Tx_Segments
  imports Tx_Engine
begin

text \<open>
  How the metadata loader of the Tx engine (\<open>Tx_Engine\<close>) cuts the data between the transmitted and the
  written position of a session into segments, up to the usable window, and how the event of a closing session
  becomes a FIN event.
\<close>

section \<open>Segmentation\<close>

text \<open>The reference: full segments, then the rest; nothing for no data.\<close>

function segments :: "nat \<Rightarrow> nat list" where
  "segments n = (if n = 0 then [] else if n \<le> 1332 then [n] else 1332 # segments (n - 1332))"
  by auto
termination by (relation "measure id") auto

declare segments.simps [simp del]

lemma segments_0 [simp]: "segments 0 = []"
  by (simp add: segments.simps)

lemma segments_small: "0 < n \<Longrightarrow> n \<le> 1332 \<Longrightarrow> segments n = [n]"
  by (simp add: segments.simps)

lemma segments_large: "1332 \<le> n \<Longrightarrow> segments n = 1332 # segments (n - 1332)"
  by (cases "n = 1332") (simp add: segments_small, simp add: segments.simps [of n])



text \<open>The metadata and the read commands of consecutive segments.\<close>

fun seg_metas :: "TXeMeta \<Rightarrow> TcpSeqNum \<Rightarrow> nat list \<Rightarrow> TXeMeta list" where
  "seg_metas m q [] = []"
| "seg_metas m q (n # ns) =
     m\<lparr>txm_seqNumb := q, txm_length := of_nat n\<rparr> # seg_metas m (q + of_nat n) ns"

fun seg_cmds :: "32 word \<Rightarrow> SessionId \<Rightarrow> TcpSeqNum \<Rightarrow> nat list \<Rightarrow> DmCmd list" where
  "seg_cmds base i q [] = []"
| "seg_cmds base i q (n # ns) =
     DmCmd_of (ucast (mdl_memSegAddr base i (ucast q))) (ucast (of_nat n :: 16 word)) #
     seg_cmds base i (q + of_nat n) ns"

definition ack_meta :: "RxSarReply \<Rightarrow> TXeMeta" where
  "ack_meta rx = \<lparr>txm_seqNumb = 0, txm_ackNumb = rsr_rcvd rx, txm_winSize = mdl_winSize rx,
     txm_length = 0, txm_ack = True, txm_rst = False, txm_syn = False, txm_fin = False\<rparr>"

definition tx_pending_len :: "TXeTxSarReply \<Rightarrow> nat" where
  "tx_pending_len tx = unat (ttr_app tx - ucast (ttr_not_ackd tx) :: 16 word)"

text \<open>What the loader did for an event between two states.\<close>

definition mdl_sent :: "'a TXe_scheme \<Rightarrow> 'a TXe_scheme \<Rightarrow> TXeMeta list \<Rightarrow> DmCmd list \<Rightarrow> TXeTxSarQuery list \<Rightarrow> bool" where
  "mdl_sent s t ms cs qs \<longleftrightarrow>
     items (ssMdlToPhc_TxeMeta t) = items (ssMdlToPhc_TxeMeta s) @ ms \<and>
     items (ssMdlToIhc_TcpDatLen t) = items (ssMdlToIhc_TcpDatLen s) @ map txm_length ms \<and>
     items (ssMdlToMrd_BufferRdCmd t) = items (ssMdlToMrd_BufferRdCmd s) @ cs \<and>
     items (ssMdlToSpS_IsLookup t) = items (ssMdlToSpS_IsLookup s) @ map (\<lambda>_. True) ms \<and>
     items (txe_soSLc_ReverseLkpReq t) = items (txe_soSLc_ReverseLkpReq s) @ map (\<lambda>_. mdl_curID s) ms \<and>
     items (txe_soTIm_ReTxTimerCmd t) = items (txe_soTIm_ReTxTimerCmd s) @
       map (\<lambda>_. \<lparr>trt_sessionID = mdl_curID s, trt_type = RT_EVENT\<rparr>) ms \<and>
     items (txe_soTSt_TxSarQry t) = items (txe_soTSt_TxSarQry s) @ qs \<and> mdl_curID t = mdl_curID s"

lemma mdl_sent_trans:
  "mdl_sent s t ms cs qs \<Longrightarrow> mdl_sent t u ms' cs' qs' \<Longrightarrow> mdl_sent s u (ms @ ms') (cs @ cs') (qs @ qs')"
  by (simp add: mdl_sent_def)

text \<open>One cycle of a transmission whose session data is loaded.\<close>

definition mdl_tx_ready :: "'a TXe_scheme \<Rightarrow> RxSarReply \<Rightarrow> TXeTxSarReply \<Rightarrow> bool" where
  "mdl_tx_ready s rx tx \<longleftrightarrow> txe_fsmState s = MDL_PROCESS_EVENT \<and>
     ev_type (ex_event (mdl_curEvent s)) = TX_EVENT \<and>
     (\<exists>t. mdl_load_sars s = Some t \<and> mdl_rxSar t = rx \<and> mdl_txSar t = tx)"

lemma mdl_load_same:
  assumes "mdl_load_sars s = Some t"
  shows "mdl_curEvent t = mdl_curEvent s" "txe_fsmState t = txe_fsmState s" "mdl_curID t = mdl_curID s"
    "ssMdlToPhc_TxeMeta t = ssMdlToPhc_TxeMeta s" "ssMdlToIhc_TcpDatLen t = ssMdlToIhc_TcpDatLen s"
    "ssMdlToMrd_BufferRdCmd t = ssMdlToMrd_BufferRdCmd s" "ssMdlToSpS_IsLookup t = ssMdlToSpS_IsLookup s"
    "txe_soSLc_ReverseLkpReq t = txe_soSLc_ReverseLkpReq s"
    "txe_soTIm_ReTxTimerCmd t = txe_soTIm_ReTxTimerCmd s" "txe_soTSt_TxSarQry t = txe_soTSt_TxSarQry s"
  using assms
  by (auto simp: mdl_load_sars_def mdl_read_sars_def mdl_curID_def split: if_splits option.splits)

lemma mdl_tx_step:
  assumes "mdl_tx_ready s rx tx"
    and "\<not> (final \<and> ttr_app tx - ucast (ttr_not_ackd tx) \<le> mdl_usableWindow tx \<and> ttr_finReady tx \<and>
      (ttr_ackd tx = ttr_not_ackd tx \<or> ttr_app tx - ucast (ttr_not_ackd tx) = 0))"
    and "mdl_tx_length (ttr_app tx - ucast (ttr_not_ackd tx)) (mdl_usableWindow tx) = (len, final)"
  defines "tx' \<equiv> tx\<lparr>ttr_not_ackd := ttr_not_ackd tx + ucast len\<rparr>"
    and "ns \<equiv> if len = 0 then [] else [unat len]"
  shows "mdl_sent s (pMetaDataLoader junk s) (seg_metas (ack_meta rx) (ttr_not_ackd tx) ns)
      (seg_cmds TOE_TX_MEMORY_BASE (mdl_curID s) (ttr_not_ackd tx) ns)
      (if final then [TXeTxSarQuery_wr (mdl_curID s) (ttr_not_ackd tx') False False False] else [])"
    "final \<Longrightarrow> txe_fsmState (pMetaDataLoader junk s) = MDL_WAIT_EVENT"
    "\<not> final \<Longrightarrow> mdl_tx_ready (pMetaDataLoader junk s) rx tx'"
proof -
  from assms(1) obtain t where t: "txe_fsmState s = MDL_PROCESS_EVENT"
      "ev_type (ex_event (mdl_curEvent s)) = TX_EVENT" "mdl_load_sars s = Some t" "mdl_rxSar t = rx"
      "mdl_txSar t = tx"
    by (auto simp: mdl_tx_ready_def)
  note same = mdl_load_same [OF t(3)]
  have stays: "(final \<and> ttr_app tx - ucast (ttr_not_ackd tx) \<le> mdl_usableWindow tx \<and> ttr_finReady tx \<and>
      (ttr_ackd tx = ttr_not_ackd tx \<or> ttr_app tx - ucast (ttr_not_ackd tx) = 0)) = False"
    using assms(2) by (rule eq_False [THEN iffD2])
  have step: "pMetaDataLoader junk s = mdl_tx s" using t(1,2) by (simp add: pMetaDataLoader_def)
  note step = step [unfolded mdl_tx_def t(3) option.case Let_def t(4,5) assms(3) prod.case,
      unfolded stays if_False]
  note defs = t(3-5) Let_def prod.case mdl_data_def mdl_timer_def mdl_meta_def
    mdl_qry_def mdl_curID_def ns_def tx'_def
  show "mdl_sent s (pMetaDataLoader junk s) (seg_metas (ack_meta rx) (ttr_not_ackd tx) ns)
      (seg_cmds TOE_TX_MEMORY_BASE (mdl_curID s) (ttr_not_ackd tx) ns)
      (if final then [TXeTxSarQuery_wr (mdl_curID s) (ttr_not_ackd tx') False False False] else [])"
    unfolding step mdl_sent_def
    by (cases final; cases "len = 0") (simp_all add: defs same ack_meta_def)
  show "txe_fsmState (pMetaDataLoader junk s) = MDL_WAIT_EVENT" if final
    unfolding step using that by (cases "len = 0") (simp_all add: defs same)
  show "mdl_tx_ready (pMetaDataLoader junk s) rx tx'" if "\<not> final"
    unfolding step mdl_tx_ready_def mdl_load_sars_def
    using that t(1,2) by (cases "len = 0") (simp_all add: defs same)
qed

lemma unat_add_of_nat: "unat (x + of_nat k :: 32 word) = (unat x + k) mod 2 ^ 32"
  by (simp add: unat_word_ariths unsigned_of_nat take_bit_eq_mod mod_add_right_eq)

text \<open>The pointers after a segment of \<open>len\<close> bytes.\<close>

lemma ucast_advance: "(ucast (a + ucast (len :: 16 word) :: 32 word) :: 16 word) = ucast a + len"
proof -
  have "uint len mod 4294967296 = uint len" using uint_bounded [of len] by (intro mod_pos_pos_trivial) auto
  then show ?thesis
  by (simp add: word_uint_eq_iff unsigned_ucast_eq uint_word_ariths take_bit_eq_mod mod_mod_cancel mod_add_left_eq)
qed

lemma pending_advance:
  fixes len :: "16 word"
  assumes "unat len \<le> unat (app - ucast n :: 16 word)"
  shows "unat (app - ucast (n + ucast len :: 32 word) :: 16 word) = unat (app - ucast n :: 16 word) - unat len"
proof -
  have eq: "app - ucast (n + ucast len :: 32 word) = (app - ucast n) - len" by (simp add: ucast_advance)
  have "len \<le> app - ucast n" using assms by (simp add: word_le_nat_alt)
  then show ?thesis unfolding eq by (rule unat_sub)
qed

lemma usable_advance:
  fixes len :: "16 word"
  assumes "unat len \<le> unat (mdl_usableWindow tx)"
  shows "unat (mdl_usableWindow (tx\<lparr>ttr_not_ackd := ttr_not_ackd tx + ucast len\<rparr>)) =
    unat (mdl_usableWindow tx) - unat len"
proof -
  let ?u = "ucast (ttr_not_ackd tx) - ucast (ttr_ackd tx) :: 16 word" and ?w = "ttr_min_window tx"
  have u': "ucast (ttr_not_ackd tx + ucast len) - ucast (ttr_ackd tx) = ?u + len"
    by (simp add: ucast_advance)
  have U': "mdl_usableWindow (tx\<lparr>ttr_not_ackd := ttr_not_ackd tx + ucast len\<rparr>) =
      (if ?u + len < ?w then ?w - (?u + len) else 0)"
    unfolding u' [symmetric] by (simp add: mdl_usableWindow_def Let_def)
  show ?thesis
  proof (cases "?u < ?w")
    case True
    then have U: "mdl_usableWindow tx = ?w - ?u" by (simp add: mdl_usableWindow_def)
    have w: "unat (?w - ?u) = unat ?w - unat ?u" using True by (simp add: unat_sub)
    have "unat ?u < unat ?w" using True by (simp only: word_less_nat_alt)
    moreover have "unat len \<le> unat ?w - unat ?u" using assms unfolding U w .
    ultimately have le: "unat ?u + unat len \<le> unat ?w" by (metis add.commute le_diff_conv2 less_imp_le)
    moreover have "unat ?w < 65536" using unsigned_less [of ?w] by simp
    ultimately have s: "unat (?u + len) = unat ?u + unat len" by (simp only: unat_word_ariths) simp
    show ?thesis
    proof (cases "?u + len < ?w")
      case lt: True
      then have "unat (?w - (?u + len)) = unat ?w - unat (?u + len)" by (simp only: unat_sub less_imp_le)
      then show ?thesis using lt w s unfolding U' U by simp
    next
      case False
      then have "unat ?w \<le> unat ?u + unat len" using s by (simp only: word_less_nat_alt not_less)
      then show ?thesis using False w unfolding U' U by simp
    qed
  next
    case False
    then have "mdl_usableWindow tx = 0" by (simp add: mdl_usableWindow_def)
    then have "len = 0" using assms by (simp add: unat_eq_0)
    then show ?thesis by simp
  qed
qed
text \<open>What the next segment is, in numbers.\<close>

lemma mdl_tx_length_cases:
  obtains "mdl_tx_length d u = (of_nat 1332, False)" "1332 \<le> unat d" "1332 \<le> unat u"
      "1332 \<le> min (unat d) (unat u)" "d \<le> u \<Longrightarrow> 1332 < unat d"
    | len where "mdl_tx_length d u = (len, True)" "unat len = min (unat d) (unat u)" "unat len \<le> 1332"
  by (cases "d \<le> u"; cases "1352 < unat d + 20"; cases "1352 \<le> unat u + 20")
    (auto simp: mdl_tx_length_def ZYC2_MSS_def TCP_HEADER_LEN_def MAX_SEGMENT_def word_le_nat_alt)

lemma segments_final: "unat len \<le> 1332 \<Longrightarrow> segments (unat len) = (if len = 0 then [] else [unat len])"
  by (auto simp: segments_small unat_gt_0)

definition tx_event_done :: "SocketPair \<Rightarrow> 'a TXe_scheme \<Rightarrow> RxSarReply \<Rightarrow> TXeTxSarReply \<Rightarrow> nat \<Rightarrow> nat \<Rightarrow> bool" where
  "tx_event_done junk s rx tx tot k \<longleftrightarrow> (let t = (pMetaDataLoader junk ^^ k) s in
     txe_fsmState t = MDL_WAIT_EVENT \<and>
     mdl_sent s t (seg_metas (ack_meta rx) (ttr_not_ackd tx) (segments tot))
       (seg_cmds TOE_TX_MEMORY_BASE (mdl_curID s) (ttr_not_ackd tx) (segments tot))
       [TXeTxSarQuery_wr (mdl_curID s) (ttr_not_ackd tx + of_nat tot) False False False])"

text \<open>The sessions whose transmit event becomes a FIN event: the application has closed, what is
  waiting fits in the window, and either nothing is waiting or it fits in one segment while nothing
  is in flight.\<close>

definition tx_closes :: "TXeTxSarReply \<Rightarrow> bool" where
  "tx_closes tx \<longleftrightarrow> ttr_finReady tx \<and> tx_pending_len tx \<le> unat (mdl_usableWindow tx) \<and>
     (tx_pending_len tx = 0 \<or> ttr_ackd tx = ttr_not_ackd tx \<and> tx_pending_len tx \<le> 1332)"

text \<open>After a full segment of an event that is not the last, the session does not close.\<close>

lemma tx_closes_advance:
  fixes l :: "16 word"
  defines "tx' \<equiv> \<lambda>tx. tx\<lparr>ttr_not_ackd := ttr_not_ackd tx + ucast l\<rparr>"
  assumes "unat l = 1332" "1332 \<le> tx_pending_len tx" "1332 \<le> unat (mdl_usableWindow tx)"
    and "tx_pending_len tx \<le> unat (mdl_usableWindow tx) \<longrightarrow> 1332 < tx_pending_len tx"
    and "ttr_finReady tx \<longrightarrow> unat (ttr_not_ackd tx - ttr_ackd tx) + 1332 < 2 ^ 32"
  shows "\<not> tx_closes (tx' tx)" "tx_pending_len (tx' tx) = tx_pending_len tx - 1332"
    "unat (mdl_usableWindow (tx' tx)) = unat (mdl_usableWindow tx) - 1332"
    "ttr_finReady tx \<Longrightarrow> unat (ttr_not_ackd (tx' tx) - ttr_ackd (tx' tx)) = unat (ttr_not_ackd tx - ttr_ackd tx) + 1332"
proof -
  show len: "tx_pending_len (tx' tx) = tx_pending_len tx - 1332"
    "unat (mdl_usableWindow (tx' tx)) = unat (mdl_usableWindow tx) - 1332"
    using pending_advance [of l "ttr_app tx" "ttr_not_ackd tx"] usable_advance [of l tx] assms(2-4)
    by (simp_all add: tx_pending_len_def tx'_def)
  have l: "ucast l = (of_nat 1332 :: 32 word)" by (simp flip: assms(2))
  have diff: "ttr_not_ackd (tx' tx) - ttr_ackd (tx' tx) = (ttr_not_ackd tx - ttr_ackd tx) + of_nat 1332"
    unfolding tx'_def l by simp
  show flight: "unat (ttr_not_ackd (tx' tx) - ttr_ackd (tx' tx)) = unat (ttr_not_ackd tx - ttr_ackd tx) + 1332"
    if "ttr_finReady tx"
    unfolding diff unat_add_of_nat using assms(6) that by simp
  show "\<not> tx_closes (tx' tx)"
  proof
    assume c: "tx_closes (tx' tx)"
    then have fin: "ttr_finReady tx" by (simp add: tx_closes_def tx'_def)
    from c have "tx_pending_len tx \<le> unat (mdl_usableWindow tx)"
      using len assms(4) unfolding tx_closes_def by linarith
    then have "0 < tx_pending_len (tx' tx)" using assms(5) len by simp
    with c have "ttr_ackd (tx' tx) = ttr_not_ackd (tx' tx)" by (simp add: tx_closes_def)
    then show False using flight [OF fin] by simp
  qed
qed

lemma mdl_tx_event:
  assumes "mdl_tx_ready s rx tx" "\<not> tx_closes tx"
    and "ttr_finReady tx \<Longrightarrow> unat (ttr_not_ackd tx - ttr_ackd tx) + tot < 2 ^ 32"
    and "tot = min (tx_pending_len tx) (unat (mdl_usableWindow tx))"
  shows "\<exists>k. tx_event_done junk s rx tx tot k"
  using assms
proof (induction tot arbitrary: s tx rule: less_induct)
  case (less tot)
  let ?d = "ttr_app tx - ucast (ttr_not_ackd tx) :: 16 word" and ?u = "mdl_usableWindow tx"
  have tot: "tot = min (unat ?d) (unat ?u)" using less.prems(4) by (simp add: tx_pending_len_def)
  show ?case
  proof (rule mdl_tx_length_cases [of ?d ?u])
    fix len
    assume len: "mdl_tx_length ?d ?u = (len, True)" "unat len = min (unat ?d) (unat ?u)" "unat len \<le> 1332"
    have "\<not> (True \<and> ?d \<le> ?u \<and> ttr_finReady tx \<and> (ttr_ackd tx = ttr_not_ackd tx \<or> ?d = 0))"
      using less.prems(2) len(2,3) by (auto simp: tx_closes_def tx_pending_len_def word_le_nat_alt min_def)
    note step = mdl_tx_step [OF less.prems(1) this len(1), of junk]
    have "ucast len = (of_nat tot :: 32 word)" by (simp add: tot flip: len(2))
    then have "tx_event_done junk s rx tx tot 1"
      using step(1,2) segments_final [OF len(3)] unfolding tx_event_done_def Let_def tot len(2) [symmetric]
      by simp
    then show ?thesis ..
  next
    assume full: "mdl_tx_length ?d ?u = (of_nat 1332, False)" "1332 \<le> unat ?d" "1332 \<le> unat ?u"
      "1332 \<le> min (unat ?d) (unat ?u)" "?d \<le> ?u \<Longrightarrow> 1332 < unat ?d"
    let ?tx = "tx\<lparr>ttr_not_ackd := ttr_not_ackd tx + ucast (of_nat 1332 :: 16 word)\<rparr>"
    let ?t = "pMetaDataLoader junk s"
    have l: "unat (of_nat 1332 :: 16 word) = 1332" "(of_nat 1332 :: 16 word) \<noteq> 0"
      "ucast (of_nat 1332 :: 16 word) = (of_nat 1332 :: 32 word)" by simp_all
    have "\<not> (False \<and> ?d \<le> ?u \<and> ttr_finReady tx \<and> (ttr_ackd tx = ttr_not_ackd tx \<or> ?d = 0))" by simp
    note step = mdl_tx_step [OF less.prems(1) this full(1), of junk]
    have sent: "mdl_sent s ?t (seg_metas (ack_meta rx) (ttr_not_ackd tx) [1332])
        (seg_cmds TOE_TX_MEMORY_BASE (mdl_curID s) (ttr_not_ackd tx) [1332]) []"
      using step(1) unfolding l(1) if_not_P [OF l(2)] by simp
    have ready: "mdl_tx_ready ?t rx ?tx" using step(3) by simp
    have ge: "1332 \<le> tot" using full(4) unfolding tot .
    have d: "1332 \<le> tx_pending_len tx" using full(2) by (simp only: tx_pending_len_def)
    have more: "tx_pending_len tx \<le> unat ?u \<longrightarrow> 1332 < tx_pending_len tx"
      unfolding tx_pending_len_def using full(5) [unfolded word_le_nat_alt] by (rule impI)
    have flight: "ttr_finReady tx \<longrightarrow> unat (ttr_not_ackd tx - ttr_ackd tx) + 1332 < 2 ^ 32"
      using less.prems(3) ge by fastforce
    note adv = tx_closes_advance [OF l(1) d full(3) more flight]
    have "tx_pending_len ?tx = unat ?d - 1332" "unat (mdl_usableWindow ?tx) = unat ?u - 1332"
      using adv(2,3) by (simp_all only: tx_pending_len_def)
    then have "tot - 1332 = min (tx_pending_len ?tx) (unat (mdl_usableWindow ?tx))"
      using tot full(2,3) by (simp add: min_def)
    moreover from ge have "tot - 1332 < tot" by (simp only: diff_less)
    moreover have "unat (ttr_not_ackd ?tx - ttr_ackd ?tx) + (tot - 1332) < 2 ^ 32" if "ttr_finReady ?tx"
    proof -
      from that have fin: "ttr_finReady tx" by simp
      show ?thesis unfolding adv(4) [OF fin] using less.prems(3) [OF fin] ge by simp
    qed
    ultimately obtain k where k: "tx_event_done junk ?t rx ?tx (tot - 1332) k"
      using less.IH [of "tot - 1332" ?t ?tx] ready adv(1) by blast
    have seg: "segments tot = 1332 # segments (tot - 1332)" by (rule segments_large [OF ge])
    have q: "ttr_not_ackd ?tx = ttr_not_ackd tx + of_nat 1332" by (simp only: l(3)) simp
    have "(of_nat 1332 + of_nat (tot - 1332) :: 32 word) = of_nat tot"
      using ge by (simp only: of_nat_add [symmetric]) simp
    then have n: "ttr_not_ackd tx + of_nat 1332 + of_nat (tot - 1332) = ttr_not_ackd tx + of_nat tot"
      by (simp only: add.assoc)
    have id: "mdl_curID ?t = mdl_curID s" using sent by (simp only: mdl_sent_def)
    have "mdl_sent ?t ((pMetaDataLoader junk ^^ k) ?t)
        (seg_metas (ack_meta rx) (ttr_not_ackd tx + of_nat 1332) (segments (tot - 1332)))
        (seg_cmds TOE_TX_MEMORY_BASE (mdl_curID s) (ttr_not_ackd tx + of_nat 1332) (segments (tot - 1332)))
        [TXeTxSarQuery_wr (mdl_curID s) (ttr_not_ackd tx + of_nat tot) False False False]"
      using k unfolding tx_event_done_def Let_def q id n by (rule conjunct2)
    from mdl_sent_trans [OF sent this]
    have "mdl_sent s ((pMetaDataLoader junk ^^ k) ?t)
        (seg_metas (ack_meta rx) (ttr_not_ackd tx) (segments tot))
        (seg_cmds TOE_TX_MEMORY_BASE (mdl_curID s) (ttr_not_ackd tx) (segments tot))
        [TXeTxSarQuery_wr (mdl_curID s) (ttr_not_ackd tx + of_nat tot) False False False]"
      unfolding seg by (simp only: seg_metas.simps seg_cmds.simps append_Cons append_Nil)
    then have "tx_event_done junk s rx tx tot (Suc k)"
      using k by (simp add: tx_event_done_def Let_def funpow_swap1)
    then show ?thesis ..
  qed
qed

definition mdl_fin_ready :: "'a TXe_scheme \<Rightarrow> RxSarReply \<Rightarrow> TXeTxSarReply \<Rightarrow> bool" where
  "mdl_fin_ready s rx tx \<longleftrightarrow> txe_fsmState s = MDL_PROCESS_EVENT \<and>
     ev_type (ex_event (mdl_curEvent s)) = FIN_EVENT \<and> ev_rt_count (ex_event (mdl_curEvent s)) = 0 \<and>
     (\<exists>t. mdl_load_sars s = Some t \<and> mdl_rxSar t = rx \<and> mdl_txSar t = tx)"

text \<open>What a FIN event does, whether or not data is waiting.\<close>

lemma mdl_fin_step:
  assumes "mdl_fin_ready s rx tx"
  defines "sent \<equiv> ttr_app tx = ucast (ttr_not_ackd tx)"
  shows "txe_fsmState (pMetaDataLoader junk s) = MDL_WAIT_EVENT"
    "mdl_sent s (pMetaDataLoader junk s)
       (if sent then [(ack_meta rx)\<lparr>txm_seqNumb := ttr_not_ackd tx, txm_fin := True\<rparr>] else []) []
       [TXeTxSarQuery_wr (mdl_curID s) (if sent then ttr_not_ackd tx + 1 else ttr_not_ackd tx) False True sent]"
proof -
  from assms(1) obtain t where t: "txe_fsmState s = MDL_PROCESS_EVENT"
      "ev_type (ex_event (mdl_curEvent s)) = FIN_EVENT" "ev_rt_count (ex_event (mdl_curEvent s)) = 0"
      "mdl_load_sars s = Some t" "mdl_rxSar t = rx" "mdl_txSar t = tx"
    by (auto simp: mdl_fin_ready_def)
  note same = mdl_load_same [OF t(4)]
  have step: "pMetaDataLoader junk s = mdl_fin s" using t(1,2) by (simp add: pMetaDataLoader_def)
  note defs = mdl_fin_def t(3-6) Let_def same mdl_timer_def mdl_meta_def mdl_qry_def mdl_curID_def
    ack_meta_def sent_def
  show "txe_fsmState (pMetaDataLoader junk s) = MDL_WAIT_EVENT" unfolding step by (simp add: defs)
  show "mdl_sent s (pMetaDataLoader junk s)
       (if sent then [(ack_meta rx)\<lparr>txm_seqNumb := ttr_not_ackd tx, txm_fin := True\<rparr>] else []) []
       [TXeTxSarQuery_wr (mdl_curID s) (if sent then ttr_not_ackd tx + 1 else ttr_not_ackd tx) False True sent]"
    unfolding step mdl_sent_def
    by (cases "ttr_app tx = ucast (ttr_not_ackd tx)") (simp_all add: defs)
qed

text \<open>The transmit event of a closing session becomes a FIN event.\<close>

lemma mdl_tx_to_fin:
  assumes "mdl_tx_ready s rx tx" "tx_closes tx"
    and "ev_rt_count (ex_event (mdl_curEvent s)) = 0"
  shows "mdl_fin_ready (pMetaDataLoader junk s) rx tx"
    "mdl_sent s (pMetaDataLoader junk s) [] [] [TXeTxSarQuery_wr (mdl_curID s) (ttr_not_ackd tx) False False False]"
proof -
  from assms(1) obtain t where t: "txe_fsmState s = MDL_PROCESS_EVENT"
      "ev_type (ex_event (mdl_curEvent s)) = TX_EVENT" "mdl_load_sars s = Some t" "mdl_rxSar t = rx"
      "mdl_txSar t = tx"
    by (auto simp: mdl_tx_ready_def)
  note same = mdl_load_same [OF t(3)]
  have step: "pMetaDataLoader junk s = mdl_tx s" using t(1,2) by (simp add: pMetaDataLoader_def)
  let ?d = "ttr_app tx - ucast (ttr_not_ackd tx)"
  note closes = assms(2) [unfolded tx_closes_def tx_pending_len_def]
  then have fin: "ttr_finReady tx" "ttr_ackd tx = ttr_not_ackd tx \<or> ?d = 0"
    by (blast, metis unat_eq_0)
  have "unat ?d \<le> 1332" using closes by linarith
  have le: "?d \<le> mdl_usableWindow tx"
    using assms(2) by (simp add: tx_closes_def tx_pending_len_def word_le_nat_alt)
  with \<open>unat ?d \<le> 1332\<close> have len: "mdl_tx_length ?d (mdl_usableWindow tx) = (?d, True)"
    by (simp add: mdl_tx_length_def ZYC2_MSS_def TCP_HEADER_LEN_def)
  note defs = mdl_tx_def t(3-5) Let_def prod.case fin fin(2) [unfolded right_minus_eq] len le same
    mdl_data_def mdl_timer_def
    mdl_meta_def mdl_qry_def mdl_curID_def mdl_set_type_def
  show "mdl_sent s (pMetaDataLoader junk s) [] [] [TXeTxSarQuery_wr (mdl_curID s) (ttr_not_ackd tx) False False False]"
    unfolding step mdl_sent_def by (simp add: defs)
  show "mdl_fin_ready (pMetaDataLoader junk s) rx tx"
    unfolding step mdl_fin_ready_def mdl_load_sars_def using t(1,2) assms(3) by (simp add: defs)
qed

text \<open>The whole of a transmit event, whether or not the application has closed.\<close>

lemma txe_tx_event:
  assumes "mdl_tx_ready s rx tx"
    and "ttr_finReady tx \<Longrightarrow> unat (ttr_not_ackd tx - ttr_ackd tx) < 65536 \<and>
      ev_rt_count (ex_event (mdl_curEvent s)) = 0"
  shows "\<exists>k. let t = (pMetaDataLoader junk ^^ k) s; d = tx_pending_len tx; i = mdl_curID s; q = ttr_not_ackd tx;
       n = (if tx_closes tx then 0 else min d (unat (mdl_usableWindow tx))); fin = (tx_closes tx \<and> d = 0) in
     txe_fsmState t = MDL_WAIT_EVENT \<and>
     mdl_sent s t
       (seg_metas (ack_meta rx) q (segments n) @
        (if fin then [(ack_meta rx)\<lparr>txm_seqNumb := q, txm_fin := True\<rparr>] else []))
       (seg_cmds TOE_TX_MEMORY_BASE i q (segments n))
       (TXeTxSarQuery_wr i (q + of_nat n) False False False #
        (if tx_closes tx then [TXeTxSarQuery_wr i (if fin then q + 1 else q) False True fin] else []))"
proof (cases "tx_closes tx")
  case False
  let ?n = "min (tx_pending_len tx) (unat (mdl_usableWindow tx))"
  have "?n < 65536" using unsigned_less [of "mdl_usableWindow tx", where ?'a = nat] by simp
  then have "unat (ttr_not_ackd tx - ttr_ackd tx) + ?n < 2 ^ 32" if "ttr_finReady tx"
    using assms(2) [OF that] by simp
  with mdl_tx_event [OF assms(1) False _ refl, of junk] False show ?thesis
    by (simp add: tx_event_done_def Let_def)
next
  case True
  then have "ev_rt_count (ex_event (mdl_curEvent s)) = 0" using assms(2) by (simp add: tx_closes_def)
  note fin = mdl_tx_to_fin [OF assms(1) True this, of junk]
  let ?u = "pMetaDataLoader junk s"
  have id: "mdl_curID ?u = mdl_curID s" using fin(2) by (simp only: mdl_sent_def)
  have sent: "(ttr_app tx = ucast (ttr_not_ackd tx)) \<longleftrightarrow> tx_pending_len tx = 0"
    by (auto simp: tx_pending_len_def unat_eq_0)
  note all = mdl_sent_trans [OF fin(2) mdl_fin_step(2) [OF fin(1), of junk, unfolded id sent], unfolded append_Nil]
  show ?thesis
    using all mdl_fin_step(1) [OF fin(1), of junk] True
    by (intro exI [of _ "Suc (Suc 0)"]) (cases "tx_pending_len tx = 0"; simp add: Let_def)
qed

text \<open>C21. A transmit event sends what the window allows, in full segments.  When the loader has the
  state of the session, it takes finitely many cycles to hand out, one per cycle, segments that
  start at the transmitted position, follow each other without gap, have 1332 bytes each except the
  last, and carry together the smaller of the waiting data and the usable window; each comes with
  its length, a read command for its place in the transmit buffer, a reverse lookup and a
  retransmission timer, and the Tx SAR table is told the new position once.  When the application
  has asked to close, all of this holds as well, except in the sessions of \<open>tx_closes\<close>: there
  the event becomes a FIN event, which sends one segment with the FIN when no data is waiting, and
  which sends neither the data nor a FIN when data is waiting (the defect of \<open>txe_fin_drops_data\<close>).
  For a closing session, less than a buffer of data is assumed in flight and the event not to be a
  retransmission.\<close>

theorem txe_cuts_data_into_segments:
  assumes "mdl_tx_ready s rx tx"
    and "ttr_finReady tx \<Longrightarrow> unat (ttr_not_ackd tx - ttr_ackd tx) < 65536 \<and>
      ev_rt_count (ex_event (mdl_curEvent s)) = 0"
  shows "\<exists>k. let t = (pMetaDataLoader junk ^^ k) s; d = tx_pending_len tx; i = mdl_curID s; q = ttr_not_ackd tx;
       n = (if tx_closes tx then 0 else min d (unat (mdl_usableWindow tx))); fin = (tx_closes tx \<and> d = 0) in
     txe_fsmState t = MDL_WAIT_EVENT \<and>
     mdl_sent s t
       (seg_metas (ack_meta rx) q (segments n) @
        (if fin then [(ack_meta rx)\<lparr>txm_seqNumb := q, txm_fin := True\<rparr>] else []))
       (seg_cmds TOE_TX_MEMORY_BASE i q (segments n))
       (TXeTxSarQuery_wr i (q + of_nat n) False False False #
        (if tx_closes tx then [TXeTxSarQuery_wr i (if fin then q + 1 else q) False True fin] else []))"
  using txe_tx_event [OF assms, of junk] .

definition txe_example :: "EventType \<Rightarrow> TXeTxSarReply \<Rightarrow> TXe" where
  "txe_example ty tx = txe_reset\<lparr>txe_fsmState := MDL_PROCESS_EVENT, mdl_sarLoaded := True,
     mdl_curEvent := ExtendedEvent_of (Event_sess ty 3), mdl_txSar := tx\<rparr>"

definition no_pair :: SocketPair where
  "no_pair = \<lparr>sp_src = \<lparr>sa_addr = 0, sa_port = 0\<rparr>, sp_dst = \<lparr>sa_addr = 0, sa_port = 0\<rparr>\<rparr>"

definition txe_example_sar :: TXeTxSarReply where
  "txe_example_sar = \<lparr>ttr_ackd = 5000, ttr_not_ackd = 6000, ttr_min_window = 4000, ttr_app = 8000,
     ttr_finReady = False, ttr_finSent = False\<rparr>"

lemma txe_example_ready:
  "mdl_tx_ready (txe_example TX_EVENT tx) (mdl_rxSar txe_reset) tx"
  by (simp add: mdl_tx_ready_def txe_example_def mdl_load_sars_def ExtendedEvent_of_def Event_sess_def)

lemma txe_example_segments: "segments 2000 = [1332, 668]"
  by (simp add: segments.simps)

theorem txe_cuts_data_into_segments_witness:
  "\<exists>k. let t = (pMetaDataLoader no_pair ^^ k) (txe_example TX_EVENT txe_example_sar) in
     map txm_seqNumb (items (ssMdlToPhc_TxeMeta t)) = [6000, 7332] \<and>
     map txm_length (items (ssMdlToPhc_TxeMeta t)) = [1332, 668]"
proof -
  have n: "min (tx_pending_len txe_example_sar) (unat (mdl_usableWindow txe_example_sar)) = 2000"
    by (simp add: tx_pending_len_def mdl_usableWindow_def txe_example_sar_def Let_def)
  have "\<not> ttr_finReady txe_example_sar" by (simp add: txe_example_sar_def)
  then have cond: "ttr_finReady txe_example_sar \<Longrightarrow>
      unat (ttr_not_ackd txe_example_sar - ttr_ackd txe_example_sar) < 65536 \<and>
      ev_rt_count (ex_event (mdl_curEvent (txe_example TX_EVENT txe_example_sar))) = 0" and
    go: "\<not> tx_closes txe_example_sar" by (simp_all add: tx_closes_def)
  from txe_cuts_data_into_segments [OF txe_example_ready cond, of no_pair]
  obtain k where "items (ssMdlToPhc_TxeMeta ((pMetaDataLoader no_pair ^^ k) (txe_example TX_EVENT txe_example_sar))) =
      items (ssMdlToPhc_TxeMeta (txe_example TX_EVENT txe_example_sar)) @
      seg_metas (ack_meta (mdl_rxSar txe_reset)) (ttr_not_ackd txe_example_sar) [1332, 668]"
    unfolding Let_def mdl_sent_def if_not_P [OF go] n txe_example_segments by (auto simp: go)
  moreover have "items (ssMdlToPhc_TxeMeta (txe_example TX_EVENT txe_example_sar)) = []"
    "ttr_not_ackd txe_example_sar = 6000"
    by (simp_all add: txe_example_def txe_reset_def txe_example_sar_def)
  ultimately show ?thesis by (intro exI [of _ k]) (simp add: Let_def)
qed





end
