(* ===== verification/Tx_Retransmit.thy ===== *)
theory Tx_Retransmit
  imports Tx_Segments Tx_Write
begin

text \<open>
  Retransmission and the end of a connection in the metadata loader of the Tx engine (\<open>Tx_Engine\<close>): a
  retransmission event announces the segments in flight again, oldest first, and a FIN event closes a session
  whose data is sent; and the two places where it does not do what it is meant to.
\<close>

section \<open>Retransmission\<close>

definition mdl_rt_ready :: "'a TXe_scheme \<Rightarrow> RxSarReply \<Rightarrow> TXeTxSarReply \<Rightarrow> nat \<Rightarrow> bool" where
  "mdl_rt_ready s rx tx c \<longleftrightarrow> txe_fsmState s = MDL_PROCESS_EVENT \<and>
     ev_type (ex_event (mdl_curEvent s)) = RT_EVENT \<and> \<not> ttr_finSent tx \<and> unat (mdl_segmentCount s) = c \<and>
     (\<exists>t. mdl_load_sars s = Some t \<and> mdl_rxSar t = rx \<and> mdl_txSar t = tx)"

text \<open>The first timeout halves the slow start threshold; later cycles of the event do not.\<close>

definition rt_queries :: "'a TXe_scheme \<Rightarrow> TXeTxSarReply \<Rightarrow> TXeTxSarQuery list" where
  "rt_queries s tx =
     (if \<not> mdl_sarLoaded s \<and> ev_rt_count (ex_event (mdl_curEvent s)) = 1
      then [TXeTxSarRtQuery (mdl_curID s) (mdl_rt_threshold (mdl_rt_datLen tx))] else [])"

definition in_flight :: "TXeTxSarReply \<Rightarrow> nat" where
  "in_flight tx = unat (ucast (ttr_not_ackd tx) - ucast (ttr_ackd tx) :: 16 word)"

lemma mdl_load_more:
  assumes "mdl_load_sars s = Some t"
  shows "mdl_segmentCount t = mdl_segmentCount s" "mdl_sarLoaded t = mdl_sarLoaded s"
  using assms by (auto simp: mdl_load_sars_def mdl_read_sars_def split: if_splits option.splits)

lemma mdl_rt_step:
  assumes "mdl_rt_ready s rx tx c"
  defines "ns \<equiv> if in_flight tx = 0 then [] else [min (in_flight tx) 1332]"
    and "tx' \<equiv> tx\<lparr>ttr_ackd := ttr_ackd tx + of_nat 1332\<rparr>"
  shows "mdl_sent s (pMetaDataLoader junk s) (seg_metas (ack_meta rx) (ttr_ackd tx) ns)
      (seg_cmds 0x40000000 (mdl_curID s) (ttr_ackd tx) ns) (rt_queries s tx)"
    "in_flight tx \<le> 1332 \<or> c = 3 \<Longrightarrow> txe_fsmState (pMetaDataLoader junk s) = MDL_WAIT_EVENT"
    "1332 < in_flight tx \<Longrightarrow> c < 3 \<Longrightarrow> mdl_rt_ready (pMetaDataLoader junk s) rx tx' (Suc c)"
    "mdl_sarLoaded (pMetaDataLoader junk s)"
proof -
  from assms(1) obtain t where t: "txe_fsmState s = MDL_PROCESS_EVENT"
      "ev_type (ex_event (mdl_curEvent s)) = RT_EVENT" "\<not> ttr_finSent tx" "unat (mdl_segmentCount s) = c"
      "mdl_load_sars s = Some t" "mdl_rxSar t = rx" "mdl_txSar t = tx"
    by (auto simp: mdl_rt_ready_def)
  note same = mdl_load_same [OF t(5)] mdl_load_more [OF t(5)]
  have step: "pMetaDataLoader junk s = mdl_rt s" using t(1,2) by (simp add: pMetaDataLoader_def)
  have d: "mdl_rt_datLen tx = ucast (ttr_not_ackd tx) - ucast (ttr_ackd tx)"
    using t(3) by (simp add: mdl_rt_datLen_def)
  have n: "unat (mdl_rt_datLen tx) = in_flight tx" by (simp add: d in_flight_def)
  have len: "of_nat (in_flight tx) = mdl_rt_datLen tx" unfolding n [symmetric] by simp
  have zero: "mdl_rt_datLen tx = 0 \<longleftrightarrow> in_flight tx = 0" unfolding n [symmetric] by (simp add: unat_eq_0)
  have c: "mdl_segmentCount s = 3 \<longleftrightarrow> c = 3" using t(4) by (auto simp: word_unat_eq_iff)
  note defs = mdl_rt_def t(5-7) Let_def prod.case mdl_data_def mdl_timer_def mdl_meta_def mdl_qry_def
    mdl_curID_def ZYC2_MSS_def TCP_HEADER_LEN_def MAX_SEGMENT_def n zero rt_queries_def
  show "mdl_sent s (pMetaDataLoader junk s) (seg_metas (ack_meta rx) (ttr_ackd tx) ns)
      (seg_cmds 0x40000000 (mdl_curID s) (ttr_ackd tx) ns) (rt_queries s tx)"
    unfolding step mdl_sent_def ns_def
    by (cases "1332 < in_flight tx"; cases "in_flight tx = 0")
      (simp_all add: defs same ack_meta_def t(3) len)
  show "txe_fsmState (pMetaDataLoader junk s) = MDL_WAIT_EVENT" if "in_flight tx \<le> 1332 \<or> c = 3"
    unfolding step using that
    by (cases "1332 < in_flight tx"; cases "in_flight tx = 0") (simp_all add: defs same t(3) c)
  show "mdl_rt_ready (pMetaDataLoader junk s) rx tx' (Suc c)" if "1332 < in_flight tx" "c < 3"
  proof -
    have "unat (mdl_segmentCount s + 1) = Suc c"
      using that(2) t(4) by (simp add: unat_word_ariths)
    then show ?thesis
      unfolding step mdl_rt_ready_def mdl_load_sars_def tx'_def
      using that t(1-4) c by (simp add: defs same)
  qed
  show "mdl_sarLoaded (pMetaDataLoader junk s)"
    unfolding step by (simp add: defs)
qed

text \<open>At most four segments per event.\<close>

definition rt_event_done :: "SocketPair \<Rightarrow> 'a TXe_scheme \<Rightarrow> RxSarReply \<Rightarrow> TXeTxSarReply \<Rightarrow> nat list \<Rightarrow> nat \<Rightarrow> bool" where
  "rt_event_done junk s rx tx ns k \<longleftrightarrow> (let t = (pMetaDataLoader junk ^^ k) s in
     txe_fsmState t = MDL_WAIT_EVENT \<and>
     mdl_sent s t (seg_metas (ack_meta rx) (ttr_ackd tx) ns)
       (seg_cmds 0x40000000 (mdl_curID s) (ttr_ackd tx) ns) (rt_queries s tx))"

lemma in_flight_advance:
  assumes "1332 \<le> in_flight tx"
  shows "in_flight (tx\<lparr>ttr_ackd := ttr_ackd tx + of_nat 1332\<rparr>) = in_flight tx - 1332"
proof -
  have l: "unat (of_nat 1332 :: 16 word) = 1332" "ucast (of_nat 1332 :: 16 word) = (of_nat 1332 :: 32 word)"
    by simp_all
  show ?thesis
    using pending_advance [of "of_nat 1332" "ucast (ttr_not_ackd tx)" "ttr_ackd tx"] assms
    unfolding l by (simp add: in_flight_def)
qed

lemma mdl_rt_event:
  assumes "mdl_rt_ready s rx tx c" "c \<le> 3"
  shows "\<exists>k. rt_event_done junk s rx tx (take (4 - c) (segments (in_flight tx))) k"
  using assms
proof (induction "3 - c" arbitrary: s tx c)
  case 0
  then have c: "c = 3" by simp
  have "take (4 - c) (segments (in_flight tx)) =
      (if in_flight tx = 0 then [] else [min (in_flight tx) 1332])"
    by (simp add: c segments.simps)
  then have "rt_event_done junk s rx tx (take (4 - c) (segments (in_flight tx))) 1"
    using mdl_rt_step(1,2) [OF 0(2), of junk] c by (simp add: rt_event_done_def Let_def)
  then show ?case ..
next
  case (Suc m)
  note step = mdl_rt_step [OF Suc.prems(1), of junk]
  let ?t = "pMetaDataLoader junk s" and ?tx = "tx\<lparr>ttr_ackd := ttr_ackd tx + of_nat 1332\<rparr>"
  show ?case
  proof (cases "1332 < in_flight tx")
    case False
    then have "take (4 - c) (segments (in_flight tx)) =
        (if in_flight tx = 0 then [] else [min (in_flight tx) 1332])"
      using Suc.hyps(2) by (simp add: segments.simps)
    then have "rt_event_done junk s rx tx (take (4 - c) (segments (in_flight tx))) 1"
      using step(1,2) False by (simp add: rt_event_done_def Let_def)
    then show ?thesis ..
  next
    case True
    have "c < 3" using Suc.hyps(2) by simp
    with True have ready: "mdl_rt_ready ?t rx ?tx (Suc c)" by (rule step(3))
    have "m = 3 - Suc c" "Suc c \<le> 3" using Suc.hyps(2) by simp_all
    from Suc.hyps(1) [OF this(1) ready this(2)]
    obtain k where k: "rt_event_done junk ?t rx ?tx (take (4 - Suc c) (segments (in_flight ?tx))) k" ..
    let ?ns = "take (4 - Suc c) (segments (in_flight tx - 1332))"
    have seg: "take (4 - c) (segments (in_flight tx)) = 1332 # ?ns"
    proof -
      have "4 - c = Suc (4 - Suc c)" using \<open>c < 3\<close> by simp
      then show ?thesis using True by (simp only: segments_large less_imp_le take_Suc_Cons)
    qed
    have adv: "in_flight ?tx = in_flight tx - 1332" using True by (intro in_flight_advance) simp
    have q: "ttr_ackd ?tx = ttr_ackd tx + of_nat 1332" by simp
    have one: "(if in_flight tx = 0 then [] else [min (in_flight tx) 1332]) = [1332]"
      using True by simp
    have none: "rt_queries ?t ?tx = []" using step(4) by (simp add: rt_queries_def)
    have sent: "mdl_sent s ?t (seg_metas (ack_meta rx) (ttr_ackd tx) [1332])
        (seg_cmds 0x40000000 (mdl_curID s) (ttr_ackd tx) [1332]) (rt_queries s tx)"
      using step(1) unfolding one .
    have id: "mdl_curID ?t = mdl_curID s" using sent by (simp only: mdl_sent_def)
    have "mdl_sent ?t ((pMetaDataLoader junk ^^ k) ?t)
        (seg_metas (ack_meta rx) (ttr_ackd tx + of_nat 1332) ?ns)
        (seg_cmds 0x40000000 (mdl_curID s) (ttr_ackd tx + of_nat 1332) ?ns) []"
      using k unfolding rt_event_done_def Let_def q id adv none by (rule conjunct2)
    from mdl_sent_trans [OF sent this]
    have "mdl_sent s ((pMetaDataLoader junk ^^ k) ?t)
        (seg_metas (ack_meta rx) (ttr_ackd tx) (1332 # ?ns))
        (seg_cmds 0x40000000 (mdl_curID s) (ttr_ackd tx) (1332 # ?ns)) (rt_queries s tx)"
      by (simp only: seg_metas.simps seg_cmds.simps append_Cons append_Nil append_Nil2)
    then have "rt_event_done junk s rx tx (take (4 - c) (segments (in_flight tx))) (Suc k)"
      unfolding seg using k by (simp add: rt_event_done_def Let_def funpow_swap1)
    then show ?thesis ..
  qed
qed

text \<open>The slow start threshold after a loss, by RFC 5681: half of the data in flight, but at least
  two segments of 1352 bytes.\<close>

definition rfc5681_threshold :: "nat \<Rightarrow> TcpWindow" where
  "rfc5681_threshold flight = of_nat (max (flight div 2) (2 * 1352))"

lemma mdl_rt_threshold_rfc5681: "mdl_rt_threshold n = rfc5681_threshold (unat n)"
proof -
  have "unat (n div 2) = unat n div 2" by (simp add: unat_div)
  then have half: "n div 2 = of_nat (unat n div 2)" by (simp flip: \<open>unat (n div 2) = unat n div 2\<close>)
  have "max (unat n div 2) 2704 = (if 5408 < unat n then unat n div 2 else 2704)" by (simp add: max_def; linarith)
  then show ?thesis by (simp add: mdl_rt_threshold_def rfc5681_threshold_def ZYC2_MSS_def half)
qed

text \<open>A retransmission event of a session that has its data, in its first cycle.\<close>

definition mdl_rt_loaded :: "'a TXe_scheme \<Rightarrow> RxSarReply \<Rightarrow> TXeTxSarReply \<Rightarrow> bool" where
  "mdl_rt_loaded s rx tx \<longleftrightarrow> txe_fsmState s = MDL_PROCESS_EVENT \<and>
     ev_type (ex_event (mdl_curEvent s)) = RT_EVENT \<and> mdl_segmentCount s = 0 \<and>
     (\<exists>t. mdl_load_sars s = Some t \<and> mdl_rxSar t = rx \<and> mdl_txSar t = tx)"

lemma mdl_rt_ready_loaded: "mdl_rt_ready s rx tx 0 \<longleftrightarrow> mdl_rt_loaded s rx tx \<and> \<not> ttr_finSent tx"
  by (auto simp: mdl_rt_ready_def mdl_rt_loaded_def unat_eq_0)

text \<open>C23. A retransmission event announces again what is in flight, oldest first.  In a session
  that has not sent a FIN, the loader hands out the metadata of consecutive segments from the first
  unacknowledged byte, at most four per event and each a maximum segment long except possibly the
  last, with a reverse lookup and a rearmed retransmission timer each.  On the first timeout it also
  gives the Tx SAR table the slow start threshold of RFC 5681: half of the data in flight but at
  least two maximum segments.  The payload of each segment is read at the position of its sequence
  number in the region at 0x40000000, which is not where it was written (C24), so that it is the
  headers and not the bytes that are those of the data in flight.\<close>

theorem txe_retransmits_in_flight:
  assumes "mdl_rt_loaded s rx tx" "\<not> ttr_finSent tx"
  shows "\<exists>k. let t = (pMetaDataLoader junk ^^ k) s; ns = take 4 (segments (in_flight tx)) in
     txe_fsmState t = MDL_WAIT_EVENT \<and>
     mdl_sent s t (seg_metas (ack_meta rx) (ttr_ackd tx) ns)
       (seg_cmds 0x40000000 (mdl_curID s) (ttr_ackd tx) ns)
       (if \<not> mdl_sarLoaded s \<and> ev_rt_count (ex_event (mdl_curEvent s)) = 1
        then [TXeTxSarRtQuery (mdl_curID s) (rfc5681_threshold (in_flight tx))] else [])"
proof -
  have n: "unat (mdl_rt_datLen tx) = in_flight tx" using assms(2) by (simp add: mdl_rt_datLen_def in_flight_def)
  have "mdl_rt_ready s rx tx 0" using assms by (simp add: mdl_rt_ready_loaded)
  from mdl_rt_event [OF this, of junk] show ?thesis
    unfolding rt_event_done_def Let_def rt_queries_def mdl_rt_threshold_rfc5681 n by simp
qed

definition rt_example :: TXe where
  "rt_example = txe_reset\<lparr>txe_fsmState := MDL_PROCESS_EVENT, mdl_sarLoaded := True,
     mdl_curEvent := ExtendedEvent_of (Event_rt RT_EVENT 3 1), mdl_txSar :=
     txe_example_sar\<lparr>ttr_ackd := 4000\<rparr>\<rparr>"

lemma rt_example_ready: "mdl_rt_ready rt_example (mdl_rxSar txe_reset) (txe_example_sar\<lparr>ttr_ackd := 4000\<rparr>) 0"
  by (simp add: mdl_rt_ready_def rt_example_def mdl_load_sars_def ExtendedEvent_of_def Event_rt_def
      txe_example_sar_def txe_reset_def)

definition rt_first_example :: TXe where
  "rt_first_example = rt_example\<lparr>mdl_sarLoaded := False, txe_siRSt_RxSarRep := Stream 2 [mdl_rxSar txe_reset],
     txe_siTSt_TxSarRep := Stream 2 [txe_example_sar\<lparr>ttr_ackd := 4000\<rparr>]\<rparr>"

lemma rt_first_example_loaded:
  "mdl_rt_loaded rt_first_example (mdl_rxSar txe_reset) (txe_example_sar\<lparr>ttr_ackd := 4000\<rparr>)"
  by (simp add: mdl_rt_loaded_def rt_first_example_def rt_example_def mdl_load_sars_def mdl_read_sars_def
      sread_def ExtendedEvent_of_def Event_rt_def txe_reset_def)

theorem txe_retransmits_in_flight_witness:
  "\<exists>k. let t = (pMetaDataLoader no_pair ^^ k) rt_first_example in
     map txm_seqNumb (items (ssMdlToPhc_TxeMeta t)) = [4000, 5332] \<and>
     map txm_length (items (ssMdlToPhc_TxeMeta t)) = [1332, 668] \<and>
     items (txe_soTSt_TxSarQry t) = [TXeTxSarRtQuery 3 2704]"
proof -
  let ?tx = "txe_example_sar\<lparr>ttr_ackd := 4000\<rparr>"
  have n: "in_flight ?tx = 2000" by (simp add: in_flight_def txe_example_sar_def)
  have q: "rfc5681_threshold 2000 = 2704" by (simp add: rfc5681_threshold_def)
  have e: "\<not> mdl_sarLoaded rt_first_example" "ev_rt_count (ex_event (mdl_curEvent rt_first_example)) = 1"
    "mdl_curID rt_first_example = 3" "items (ssMdlToPhc_TxeMeta rt_first_example) = []"
    "items (txe_soTSt_TxSarQry rt_first_example) = []"
    by (simp_all add: rt_first_example_def rt_example_def txe_reset_def ExtendedEvent_of_def Event_rt_def mdl_curID_def)
  have "\<not> ttr_finSent ?tx" by (simp add: txe_example_sar_def)
  from txe_retransmits_in_flight [OF rt_first_example_loaded this, of no_pair]
  obtain k where "items (ssMdlToPhc_TxeMeta ((pMetaDataLoader no_pair ^^ k) rt_first_example)) =
      seg_metas (ack_meta (mdl_rxSar txe_reset)) 4000 [1332, 668]"
    "items (txe_soTSt_TxSarQry ((pMetaDataLoader no_pair ^^ k) rt_first_example)) = [TXeTxSarRtQuery 3 2704]"
    unfolding n q txe_example_segments Let_def mdl_sent_def using e by auto
  then show ?thesis by (intro exI [of _ k]) (simp add: Let_def)
qed

section \<open>Where the retransmitted data is read\<close>

lemma DmCmd_of_addr: "dm_saddr (DmCmd_of (ucast (a :: 32 word)) n) = (ucast a :: 40 word)"
  by (simp add: DmCmd_of_def)

lemma mdl_memSegAddr_base: "30 \<le> n \<Longrightarrow> n < 32 \<Longrightarrow> bit (mdl_memSegAddr b i p) n = bit b n"
  by (simp add: mdl_memSegAddr_def bit_set_range)

lemma tmw_memSegAddr_base: "bit (tmw_memSegAddr i a) 31"
proof -
  have "bit (0xC0000000 :: 32 word) 31" by (simp add: bit_iff_odd)
  then show ?thesis by (simp add: tmw_memSegAddr_def bit_set_range TOE_TX_MEMORY_BASE_def)
qed

lemma bit_40: "n < 32 \<Longrightarrow> bit (ucast (a :: 32 word) :: 40 word) n = bit a n"
  by (simp add: bit_ucast_iff)

lemma seg_cmds_low:
  "c \<in> set (seg_cmds 0x40000000 i q ns) \<Longrightarrow> \<not> bit (dm_saddr c) 31"
proof (induction ns arbitrary: q)
  case (Cons n ns)
  have "\<not> bit (0x40000000 :: 32 word) 31" by (simp add: bit_iff_odd)
  then have "\<not> bit (mdl_memSegAddr 0x40000000 i (ucast q)) 31" by (simp add: mdl_memSegAddr_base)
  with Cons show ?case by (auto simp: DmCmd_of_addr bit_40)
qed simp

text \<open>C24. Retransmissions read where nothing was written (a defect).  The transmit buffers are at
  the base \<open>TOE_TX_MEMORY_BASE\<close>, in the upper half of the address range, and the application's data
  is written there; but a retransmission event builds its read addresses from the upper bits 01, in
  the lower half.  No read command of a retransmission has the address of any write
  command of the application interface, whatever sessions and positions are involved.\<close>

theorem txe_retransmits_wrong_buffer:
  assumes "mdl_rt_ready s rx tx 0"
  shows "\<exists>k cs. let t = (pMetaDataLoader junk ^^ k) s in
     txe_fsmState t = MDL_WAIT_EVENT \<and>
     items (ssMdlToMrd_BufferRdCmd t) = items (ssMdlToMrd_BufferRdCmd s) @ cs \<and>
     length cs = min 4 (length (segments (in_flight tx))) \<and>
     (\<forall>c m. c \<in> set cs \<longrightarrow> dm_saddr c \<noteq> dm_saddr (tmw_cmd m))"
proof -
  obtain k where k: "rt_event_done junk s rx tx (take (4 - 0) (segments (in_flight tx))) k"
    using mdl_rt_event [OF assms, of junk] by auto
  let ?cs = "seg_cmds 0x40000000 (mdl_curID s) (ttr_ackd tx) (take (4 - 0) (segments (in_flight tx)))"
  have len: "length (seg_cmds b i q ns) = length ns" for b i q ns by (induction ns arbitrary: q) simp_all
  have "dm_saddr c \<noteq> dm_saddr (tmw_cmd m)" if "c \<in> set ?cs" for c m
  proof
    assume "dm_saddr c = dm_saddr (tmw_cmd m)"
    moreover have "bit (dm_saddr (tmw_cmd m)) 31"
      by (simp add: tmw_cmd_def DmCmd_of_addr bit_40 tmw_memSegAddr_base)
    ultimately show False using seg_cmds_low [OF that] by simp
  qed
  then show ?thesis
    using k unfolding rt_event_done_def mdl_sent_def Let_def
    by (intro exI [of _ k] exI [of _ ?cs]) (simp add: len)
qed

theorem txe_retransmits_wrong_buffer_witness:
  "\<exists>k c1 c2. items (ssMdlToMrd_BufferRdCmd ((pMetaDataLoader no_pair ^^ k) rt_example)) = [c1, c2] \<and>
     dm_saddr c1 \<noteq> dm_saddr (tmw_cmd \<lparr>amm_sessId = 3, amm_addr = 4000, amm_len = 1332\<rparr>)"
proof -
  have n: "min 4 (length (segments (in_flight (txe_example_sar\<lparr>ttr_ackd := 4000\<rparr>)))) = 2"
    by (simp add: in_flight_def txe_example_sar_def txe_example_segments)
  have "items (ssMdlToMrd_BufferRdCmd rt_example) = []" by (simp add: rt_example_def txe_reset_def)
  with txe_retransmits_wrong_buffer [OF rt_example_ready, of no_pair]
  obtain k cs where k: "items (ssMdlToMrd_BufferRdCmd ((pMetaDataLoader no_pair ^^ k) rt_example)) = cs"
    "length cs = 2" "\<And>c m. c \<in> set cs \<Longrightarrow> dm_saddr c \<noteq> dm_saddr (tmw_cmd m)"
    unfolding n Let_def by auto
  obtain c1 c2 where cs: "cs = [c1, c2]" using k(2) by (auto simp: length_Suc_conv numeral_2_eq_2)
  show ?thesis using k(1,3) unfolding cs by (intro exI [of _ k] exI [of _ c1] exI [of _ c2]) simp
qed

section \<open>The end of a connection\<close>

text \<open>A FIN is sent after the last byte of data.  On a FIN event whose session has sent all
  written data, the loader hands out one segment without data that has the FIN flag and the position
  after the last byte, the Tx SAR table is told that the position advances by one for it and that the
  FIN is sent, and the retransmission timer is armed once.\<close>

theorem txe_fin_after_data:
  assumes "mdl_fin_ready s rx tx" "ttr_app tx = ucast (ttr_not_ackd tx)"
  shows "txe_fsmState (pMetaDataLoader junk s) = MDL_WAIT_EVENT \<and>
    mdl_sent s (pMetaDataLoader junk s)
      [(ack_meta rx)\<lparr>txm_seqNumb := ttr_not_ackd tx, txm_fin := True\<rparr>] []
      [TXeTxSarQuery_wr (mdl_curID s) (ttr_not_ackd tx + 1) False True True]"
  using mdl_fin_step [OF assms(1), of junk] assms(2) by simp

theorem txe_fin_after_data_witness:
  "map txm_fin (items (ssMdlToPhc_TxeMeta (pMetaDataLoader no_pair
     (txe_example FIN_EVENT (txe_example_sar\<lparr>ttr_app := 6000\<rparr>))))) = [True]"
proof -
  let ?tx = "txe_example_sar\<lparr>ttr_app := 6000\<rparr>"
  have "mdl_fin_ready (txe_example FIN_EVENT ?tx) (mdl_rxSar txe_reset) ?tx" "ttr_app ?tx = ucast (ttr_not_ackd ?tx)"
    by (simp_all add: mdl_fin_ready_def txe_example_def mdl_load_sars_def ExtendedEvent_of_def
        Event_sess_def txe_example_sar_def)
  from txe_fin_after_data [OF this, of no_pair]
  have "items (ssMdlToPhc_TxeMeta (pMetaDataLoader no_pair (txe_example FIN_EVENT ?tx))) =
      items (ssMdlToPhc_TxeMeta (txe_example FIN_EVENT ?tx)) @
      [(ack_meta (mdl_rxSar txe_reset))\<lparr>txm_seqNumb := ttr_not_ackd ?tx, txm_fin := True\<rparr>]"
    unfolding mdl_sent_def by blast
  then show ?thesis by (simp add: txe_example_def txe_reset_def)
qed

text \<open>The last data of a closing session is not sent when nothing is in flight (a defect).  The
  application has written a last piece of data and asked to close; everything before that is
  acknowledged and the piece fits in a segment and in the window.  The transmit event then becomes a
  FIN event, which sends nothing because data is still waiting: the loader is back in its idle
  state after two cycles, no segment, read command or timer was posted, and the sent position that
  the Tx SAR table is told is still the old one.\<close>

theorem txe_fin_drops_data:
  assumes "mdl_tx_ready s rx tx" "ttr_finReady tx" "ttr_ackd tx = ttr_not_ackd tx"
    and "0 < tx_pending_len tx" "tx_pending_len tx \<le> 1332"
    and "tx_pending_len tx \<le> unat (mdl_usableWindow tx)"
    and "ev_rt_count (ex_event (mdl_curEvent s)) = 0"
  shows "let t = pMetaDataLoader junk (pMetaDataLoader junk s) in
     txe_fsmState t = MDL_WAIT_EVENT \<and>
     mdl_sent s t [] []
       [TXeTxSarQuery_wr (mdl_curID s) (ttr_not_ackd tx) False False False,
        TXeTxSarQuery_wr (mdl_curID s) (ttr_not_ackd tx) False True False]"
proof -
  have closes: "tx_closes tx" using assms(2,3,5,6) by (simp add: tx_closes_def)
  note fin = mdl_tx_to_fin [OF assms(1) closes assms(7), of junk]
  have id: "mdl_curID (pMetaDataLoader junk s) = mdl_curID s" using fin(2) by (simp add: mdl_sent_def)
  have "ttr_app tx \<noteq> ucast (ttr_not_ackd tx)" using assms(4) by (auto simp: tx_pending_len_def)
  then show ?thesis
    using mdl_sent_trans [OF fin(2) mdl_fin_step(2) [OF fin(1), of junk]] mdl_fin_step(1) [OF fin(1), of junk]
    by (simp add: Let_def id)
qed

theorem txe_fin_drops_data_witness:
  "items (ssMdlToPhc_TxeMeta (pMetaDataLoader no_pair (pMetaDataLoader no_pair
     (txe_example TX_EVENT (txe_example_sar\<lparr>ttr_ackd := 6000, ttr_app := 6100, ttr_finReady := True\<rparr>))))) = []"
proof -
  let ?tx = "txe_example_sar\<lparr>ttr_ackd := 6000, ttr_app := 6100, ttr_finReady := True\<rparr>"
  have n: "tx_pending_len ?tx = 100" "unat (mdl_usableWindow ?tx) = 4000"
    by (simp_all add: tx_pending_len_def mdl_usableWindow_def txe_example_sar_def)
  have h: "ttr_finReady ?tx" "ttr_ackd ?tx = ttr_not_ackd ?tx" "0 < tx_pending_len ?tx" "tx_pending_len ?tx \<le> 1332"
    "tx_pending_len ?tx \<le> unat (mdl_usableWindow ?tx)"
    "ev_rt_count (ex_event (mdl_curEvent (txe_example TX_EVENT ?tx))) = 0"
    unfolding n by (simp_all add: txe_example_sar_def txe_example_def ExtendedEvent_of_def Event_sess_def)
  have "items (ssMdlToPhc_TxeMeta (txe_example TX_EVENT ?tx)) = []"
    by (simp add: txe_example_def txe_reset_def)
  then show ?thesis
    using txe_fin_drops_data [OF txe_example_ready h, of no_pair] by (simp add: Let_def mdl_sent_def)
qed

end
