(* ===== verification/Tx_Checksum.thy ===== *)
theory Tx_Checksum
  imports Tx_Engine
begin

text \<open>
  The TCP checksum of the Tx engine (\<open>Tx_Engine\<close>): four sums of 17 bits that the accumulators
  update chunk by chunk (Sca) and combine at the end of the packet (Tca) are the Internet checksum of
  the bytes of the packet, the complement of the ones' complement sum of its 16-bit words.
\<close>

section \<open>The Internet checksum\<close>

fun inet_sum :: "8 word list \<Rightarrow> nat" where
  "inet_sum [] = 0"
| "inet_sum [a] = 256 * unat a"
| "inet_sum (a # b # bs) = 256 * unat a + unat b + inet_sum bs"

text \<open>The ones' complement sum: carries out of 16 bits are added back, so that only the sum of no
  word, or of zeros, is zero.\<close>

definition ones_sum :: "nat \<Rightarrow> nat" where
  "ones_sum n = (if n = 0 then 0 else (n - 1) mod 65535 + 1)"

definition inet_checksum :: "8 word list \<Rightarrow> 16 word" where
  "inet_checksum bs = NOT (of_nat (ones_sum (inet_sum bs)))"

lemma inet_sum_append: "even (length xs) \<Longrightarrow> inet_sum (xs @ ys) = inet_sum xs + inet_sum ys"
  by (induction xs rule: inet_sum.induct) simp_all

lemma ones_sum_le: "ones_sum n \<le> 65535"
  using mod_less_divisor [of 65535 "n - 1"] by (auto simp: ones_sum_def Suc_le_eq simp del: mod_less_divisor)

lemma ones_sum_0 [simp]: "ones_sum 0 = 0"
  by (simp add: ones_sum_def)

lemma ones_sum_id: "n \<le> 65535 \<Longrightarrow> ones_sum n = n"
  by (cases n) (auto simp: ones_sum_def)

lemma ones_sum_step: "n \<noteq> 0 \<Longrightarrow> ones_sum (n + 65535) = ones_sum n"
  by (cases n) (auto simp: ones_sum_def)

lemma ones_sum_steps: "n \<noteq> 0 \<Longrightarrow> ones_sum (n + 65535 * k) = ones_sum n"
proof (induction k)
  case (Suc k)
  then show ?case using ones_sum_step [of "n + 65535 * k"] by (simp add: algebra_simps)
qed simp

lemma ones_sum_add [simp]: "ones_sum (ones_sum a + b) = ones_sum (a + b)"
proof (cases "a = 0")
  case False
  then have "a + b = (ones_sum a + b) + 65535 * ((a - 1) div 65535)"
    using div_mult_mod_eq [of "a - 1" 65535] by (simp add: ones_sum_def)
  then have "ones_sum (a + b) = ones_sum (ones_sum a + b + 65535 * ((a - 1) div 65535))"
    by (rule arg_cong)
  also have "\<dots> = ones_sum (ones_sum a + b)"
    using False by (intro ones_sum_steps) (simp add: ones_sum_def)
  finally show ?thesis by (rule sym)
qed simp

lemma ones_sum_add' [simp]: "ones_sum (a + ones_sum b) = ones_sum (a + b)"
  using ones_sum_add [of b a] by (simp add: add.commute)

section \<open>One accumulator\<close>

lemma unat_csum_fold: "unat (csum_fold x) = (unat x + unat x div 65536) mod 65536"
proof -
  have "unat x < 131072" using unsigned_less [of x] by simp
  then have x: "take_bit 17 (unat x) = unat x" by (simp add: take_bit_nat_eq_self)
  have "csum_fold x = take_bit 16 (x + drop_bit 16 x)"
    by (simp add: csum_fold_def take_bit_eq_mask mask_eq_exp_minus_1)
  then have "unat (csum_fold x) = unat (x + drop_bit 16 x) mod 65536"
    by (simp add: unsigned_take_bit_eq) (simp add: take_bit_eq_mod)
  also have "\<dots> = ((unat x + unat x div 65536) mod 131072) mod 65536"
    using x by (simp add: unat_word_ariths unsigned_drop_bit_eq) (simp add: drop_bit_eq_div)
  finally show ?thesis by (simp add: mod_mod_cancel)
qed

lemma unat_fold_add:
  assumes "unat v \<le> 65535" "unat w \<le> 65535"
  shows "unat (csum_fold (v + w)) = ones_sum (unat v + unat w)"
proof -
  let ?s = "unat v + unat w"
  have "unat (v + w) = ?s" using assms by (simp add: unat_word_ariths)
  then have f: "unat (csum_fold (v + w)) = (?s + ?s div 65536) mod 65536" by (simp add: unat_csum_fold)
  show ?thesis
  proof (cases "?s < 65536")
    case True
    then show ?thesis by (simp add: f ones_sum_id)
  next
    case False
    then have "?s div 65536 = 1" "(?s + 1) mod 65536 = ?s - 65535"
      using assms by (auto simp: div_nat_eqI mod_if)
    moreover have "ones_sum ?s = ones_sum (?s - 65535)"
      using ones_sum_step [of "?s - 65535"] False by simp
    moreover have "?s - 65535 \<le> 65535" using assms by simp
    ultimately show ?thesis by (simp add: f ones_sum_id)
  qed
qed

text \<open>What a chunk adds to accumulator \<open>i\<close>.\<close>

definition lane_word :: "AxisApp \<Rightarrow> nat \<Rightarrow> nat" where
  "lane_word c i =
     (if 2 * i + 1 < getLen c then 256 * unat (byte_of c (2 * i)) + unat (byte_of c (2 * i + 1))
      else if 2 * i < getLen c then 256 * unat (byte_of c (2 * i)) else 0)"

lemma unat_word_cat_8: "unat (ucast (word_cat (a :: 8 word) (b :: 8 word) :: 16 word) :: 17 word) = 256 * unat a + unat b"
proof -
  have ab: "unat a < 256" "unat b < 256" using unsigned_less [of a] unsigned_less [of b] by simp_all
  have "unat (ucast a :: 16 word) = unat a" "unat (ucast b :: 16 word) = unat b"
    using ab by (simp_all add: unsigned_ucast_eq take_bit_nat_eq_self)
  then have "unat (word_cat a b :: 16 word) = (unat a * 256 + unat b) mod 65536"
    by (simp add: word_cat_eq push_bit_eq_mult unat_word_ariths mod_add_left_eq)
  also have "\<dots> = 256 * unat a + unat b" using ab by simp
  finally show ?thesis using ab by (simp add: unsigned_ucast_eq take_bit_nat_eq_self)
qed

lemma lane_bytes:
  "i < 4 \<Longrightarrow> ucast (get_range (i * 16 + 7) (i * 16) (ax_tdata c)) = byte_of c (2 * i)"
  "i < 4 \<Longrightarrow> ucast (get_range (i * 16 + 15) (i * 16 + 8) (ax_tdata c)) = byte_of c (2 * i + 1)"
  by (rule bit_word_eqI; auto simp: bit_get_range bit_ucast_iff byte_of_def bit_nth_byte algebra_simps)+

lemma lane_keep:
  assumes "chunk_ok c" "i < 4"
  shows "get_range (i * 2 + 1) (i * 2) (ax_tkeep c) = 3 \<longleftrightarrow> 2 * i + 1 < getLen c"
    "bit (ax_tkeep c) (i * 2) \<longleftrightarrow> 2 * i < getLen c"
proof -
  have k: "bit (ax_tkeep c) n \<longleftrightarrow> n < getLen c" if "n < 8" for n
    using chunk_ok_keep [OF assms(1)] that by (auto simp: bit_mask_iff)
  show "bit (ax_tkeep c) (i * 2) \<longleftrightarrow> 2 * i < getLen c"
    using k [of "i * 2"] assms(2) by (simp add: mult.commute)
  have three: "(3 :: 8 word) = mask 2" by (simp add: mask_eq_exp_minus_1)
  have "get_range (i * 2 + 1) (i * 2) (ax_tkeep c) = 3 \<longleftrightarrow>
      bit (ax_tkeep c) (i * 2) \<and> bit (ax_tkeep c) (i * 2 + 1)"
  proof
    assume "get_range (i * 2 + 1) (i * 2) (ax_tkeep c) = 3"
    then have "bit (get_range (i * 2 + 1) (i * 2) (ax_tkeep c)) n \<longleftrightarrow> bit (mask 2 :: 8 word) n" for n
      by (simp add: three)
    from this [of 0] this [of 1] show "bit (ax_tkeep c) (i * 2) \<and> bit (ax_tkeep c) (i * 2 + 1)"
      by (simp add: bit_get_range bit_mask_iff)
  next
    assume bits: "bit (ax_tkeep c) (i * 2) \<and> bit (ax_tkeep c) (i * 2 + 1)"
    show "get_range (i * 2 + 1) (i * 2) (ax_tkeep c) = 3"
      unfolding three
    proof (rule bit_word_eqI)
      fix n :: nat
      assume "n < LENGTH(8)"
      have "n = 0 \<or> n = 1" if "n < 2" using that by auto
      then show "bit (get_range (i * 2 + 1) (i * 2) (ax_tkeep c)) n \<longleftrightarrow> bit (mask 2 :: 8 word) n"
        using bits by (auto simp: bit_get_range bit_mask_iff)
    qed
  qed
  then show "get_range (i * 2 + 1) (i * 2) (ax_tkeep c) = 3 \<longleftrightarrow> 2 * i + 1 < getLen c"
    using k [of "i * 2"] k [of "i * 2 + 1"] assms(2) by (auto simp: mult.commute)
qed

lemma sca_lane_sum:
  assumes "chunk_ok c" "i < 4" "unat v \<le> 65535"
  shows "unat (sca_lane c i v) = ones_sum (unat v + lane_word c i)"
proof -
  have b: "unat (byte_of c j) < 256" for j using unsigned_less [of "byte_of c j"] by simp
  have "256 * unat (byte_of c (2 * i)) + unat (byte_of c (2 * i + 1)) \<le> 65535"
    "256 * unat (byte_of c (2 * i)) \<le> 65535"
    using b [of "2 * i"] b [of "2 * i + 1"] by simp_all
  then show ?thesis
    using assms(3)
    unfolding sca_lane_def lane_word_def Let_def lane_bytes [OF assms(2)] lane_keep [OF assms(1,2)]
    by (simp add: unat_fold_add unat_word_cat_8 ones_sum_id)
qed

lemma upt_upto_8:
  "[0 ..< Suc 0] = [0 :: nat]" "[0 ..< 2] = [0, 1 :: nat]" "[0 ..< 3] = [0, 1, 2 :: nat]"
  "[0 ..< 4] = [0, 1, 2, 3 :: nat]" "[0 ..< 5] = [0, 1, 2, 3, 4 :: nat]"
  "[0 ..< 6] = [0, 1, 2, 3, 4, 5 :: nat]" "[0 ..< 7] = [0, 1, 2, 3, 4, 5, 6 :: nat]"
  "[0 ..< 8] = [0, 1, 2, 3, 4, 5, 6, 7 :: nat]"
  by (simp_all add: upt_rec)

lemma chunk_bytes_byte_of: "chunk_bytes c = map (byte_of c) [0 ..< getLen c]"
  by (simp add: chunk_bytes_def byte_of_def)

lemma lanes_of_chunk:
  assumes "chunk_ok c"
  shows "lane_word c 0 + lane_word c 1 + lane_word c 2 + lane_word c 3 = inet_sum (chunk_bytes c)"
proof -
  have "getLen c \<in> {1, 2, 3, 4, 5, 6, 7, 8}" using upto_8 chunk_ok_keep [OF assms] by blast
  then show ?thesis
    unfolding lane_word_def chunk_bytes_byte_of
    by (elim insertE emptyE) (simp_all add: upt_upto_8 del: upt.simps)
qed

section \<open>The checksum of a packet\<close>

definition lanes_inv :: "SubCSums \<Rightarrow> nat \<Rightarrow> bool" where
  "lanes_inv v n \<longleftrightarrow> (\<exists>a b c d. unat (sum0 v) = ones_sum a \<and> unat (sum1 v) = ones_sum b \<and>
     unat (sum2 v) = ones_sum c \<and> unat (sum3 v) = ones_sum d \<and> n = a + b + c + d)"

lemma lanes_inv_zero: "lanes_inv SubCSums_zero 0"
  by (simp add: lanes_inv_def SubCSums_zero_def)

lemma lanes_inv_add:
  assumes "lanes_inv v n" "chunk_ok x"
  shows "lanes_inv (sca_add x v) (n + inet_sum (chunk_bytes x))"
proof -
  from assms(1) obtain a b c d where v: "unat (sum0 v) = ones_sum a" "unat (sum1 v) = ones_sum b"
      "unat (sum2 v) = ones_sum c" "unat (sum3 v) = ones_sum d" "n = a + b + c + d"
    by (auto simp: lanes_inv_def)
  show ?thesis
    unfolding lanes_inv_def lanes_of_chunk [OF assms(2), symmetric]
    by (intro exI [of _ "a + lane_word x 0"] exI [of _ "b + lane_word x 1"]
        exI [of _ "c + lane_word x 2"] exI [of _ "d + lane_word x 3"])
      (simp add: sca_add_def sca_lane_sum [OF assms(2)] v ones_sum_le)
qed

lemma tca_csum_sum:
  assumes "lanes_inv v n"
  shows "tca_csum v = NOT (of_nat (ones_sum n))"
proof -
  from assms obtain a b c d where v: "unat (sum0 v) = ones_sum a" "unat (sum1 v) = ones_sum b"
      "unat (sum2 v) = ones_sum c" "unat (sum3 v) = ones_sum d" "n = a + b + c + d"
    by (auto simp: lanes_inv_def)
  let ?w = "csum_fold (csum_fold (sum0 v + sum2 v) + csum_fold (sum1 v + sum3 v))"
  have "unat (csum_fold (sum0 v + sum2 v)) = ones_sum (a + c)"
    "unat (csum_fold (sum1 v + sum3 v)) = ones_sum (b + d)"
    by (simp_all add: unat_fold_add v ones_sum_le)
  then have "unat ?w = ones_sum (a + c + (b + d))"
    by (simp add: unat_fold_add ones_sum_le)
  moreover have "a + c + (b + d) = n" using v(5) by linarith
  ultimately have "unat ?w = ones_sum n" by (simp only:)
  then have "of_nat (unat ?w) = (of_nat (ones_sum n) :: 17 word)" by (rule arg_cong)
  then have "?w = of_nat (ones_sum n)" by (simp only: of_nat_unat ucast_id)
  then have "tca_csum v = ucast (NOT (of_nat (ones_sum n) :: 17 word))" by (simp add: tca_csum_def)
  also have "\<dots> = NOT (of_nat (ones_sum n))"
    by (rule bit_word_eqI) (auto simp: bit_ucast_iff bit_not_iff bit_of_nat_iff)
  finally show ?thesis .
qed

lemma inet_checksum_zero: "inet_checksum bs = 0 \<longleftrightarrow> ones_sum (inet_sum bs) = 65535"
proof
  assume "inet_checksum bs = 0"
  then have "NOT (inet_checksum bs) = NOT 0" by simp
  then have "(of_nat (ones_sum (inet_sum bs)) :: 16 word) = NOT 0" by (simp add: inet_checksum_def)
  then have "unat (of_nat (ones_sum (inet_sum bs)) :: 16 word) = 65535" by (simp add: unsigned_minus_1_eq_mask mask_eq_exp_minus_1)
  then show "ones_sum (inet_sum bs) = 65535" using ones_sum_le [of "inet_sum bs"] by (simp add: unat_of_nat take_bit_nat_eq_self)
qed (simp add: inet_checksum_def)

text \<open>The accumulators take a packet chunk by chunk and forward all of it but the first chunk.\<close>

lemma sca_one:
  assumes "items (ssTssToSca_PseudoPkt s) = c # cs"
  shows "items (ssTssToSca_PseudoPkt (pSubChecksumAccumulators s)) = cs"
    "items (ssScaToIps_PseudoPkt (pSubChecksumAccumulators s)) =
       items (ssScaToIps_PseudoPkt s) @ (if sca_doForwardChunk s then [c] else [])"
    "items (ssScaToTca_FourSubCsums (pSubChecksumAccumulators s)) =
       items (ssScaToTca_FourSubCsums s) @ (if ax_tlast c then [sca_add c (sca_4CSums s)] else [])"
    "sca_doForwardChunk (pSubChecksumAccumulators s) = (\<not> ax_tlast c)"
    "sca_4CSums (pSubChecksumAccumulators s) = (if ax_tlast c then SubCSums_zero else sca_add c (sca_4CSums s))"
  by (simp_all add: pSubChecksumAccumulators_def sread_cons [OF assms] Let_def)

lemma sca_run:
  assumes "items (ssTssToSca_PseudoPkt s) = cs @ rest" "payload_ok cs" "lanes_inv (sca_4CSums s) n"
  shows "let t = (pSubChecksumAccumulators ^^ length cs) s in
     items (ssTssToSca_PseudoPkt t) = rest \<and>
     items (ssScaToIps_PseudoPkt t) =
       items (ssScaToIps_PseudoPkt s) @ (if sca_doForwardChunk s then cs else tl cs) \<and>
     (\<exists>v. items (ssScaToTca_FourSubCsums t) = items (ssScaToTca_FourSubCsums s) @ [v] \<and>
       lanes_inv v (n + inet_sum (bytes_of cs))) \<and>
     \<not> sca_doForwardChunk t \<and> sca_4CSums t = SubCSums_zero"
  using assms
proof (induction cs arbitrary: s n)
  case Nil
  then show ?case by (simp add: payload_ok_def is_segment_def)
next
  case (Cons c cs)
  let ?t = "pSubChecksumAccumulators s"
  have ok: "chunk_ok c" using Cons.prems(2) by (simp add: payload_ok_def)
  have items: "items (ssTssToSca_PseudoPkt s) = c # (cs @ rest)" using Cons.prems(1) by simp
  note t = sca_one [OF items]
  note inv = lanes_inv_add [OF Cons.prems(3) ok]
  show ?case
  proof (cases "cs = []")
    case True
    then have "ax_tlast c" using Cons.prems(2) by (simp add: payload_ok_single)
    then show ?thesis using t inv True by (simp add: Let_def)
  next
    case False
    with Cons.prems(2) have c: "\<not> ax_tlast c" "getLen c = 8" "payload_ok cs"
      by (simp_all add: payload_ok_Cons)
    then have "lanes_inv (sca_4CSums ?t) (n + inet_sum (chunk_bytes c))" using t(5) inv by simp
    from Cons.IH [OF t(1) c(3) this] show ?thesis
      using t(2,3,4) c(1,2)
      by (simp add: Let_def funpow_swap1 inet_sum_append add.assoc split: if_splits)
  qed
qed

lemma sca_frame:
  "ssTcaToIps_TcpCsum ((pSubChecksumAccumulators ^^ n) s) = ssTcaToIps_TcpCsum s"
  "ssIhcToIps_IpHeader ((pSubChecksumAccumulators ^^ n) s) = ssIhcToIps_IpHeader s"
  "txe_soIPTX_Data ((pSubChecksumAccumulators ^^ n) s) = txe_soIPTX_Data s"
  "ips_chunkCount ((pSubChecksumAccumulators ^^ n) s) = ips_chunkCount s"
proof (induction n)
  case (Suc n)
  have "ssTcaToIps_TcpCsum (pSubChecksumAccumulators t) = ssTcaToIps_TcpCsum t \<and>
      ssIhcToIps_IpHeader (pSubChecksumAccumulators t) = ssIhcToIps_IpHeader t \<and>
      txe_soIPTX_Data (pSubChecksumAccumulators t) = txe_soIPTX_Data t \<and>
      ips_chunkCount (pSubChecksumAccumulators t) = ips_chunkCount t" for t :: "'a TXe_scheme"
    by (simp add: pSubChecksumAccumulators_def Let_def split: option.split)
  with Suc show
    "ssTcaToIps_TcpCsum ((pSubChecksumAccumulators ^^ Suc n) s) = ssTcaToIps_TcpCsum s"
    "ssIhcToIps_IpHeader ((pSubChecksumAccumulators ^^ Suc n) s) = ssIhcToIps_IpHeader s"
    "txe_soIPTX_Data ((pSubChecksumAccumulators ^^ Suc n) s) = txe_soIPTX_Data s"
    "ips_chunkCount ((pSubChecksumAccumulators ^^ Suc n) s) = ips_chunkCount s"
    by simp_all
qed simp_all

lemma txe_checksum:
  assumes "items (ssTssToSca_PseudoPkt s) = cs @ rest" "payload_ok cs"
    and "\<not> sca_doForwardChunk s" "sca_4CSums s = SubCSums_zero"
    and "items (ssScaToTca_FourSubCsums s) = []"
  shows "let t = pTcpChecksumAccumulator ((pSubChecksumAccumulators ^^ length cs) s) in
     items (ssTcaToIps_TcpCsum t) = items (ssTcaToIps_TcpCsum s) @ [inet_checksum (bytes_of cs)] \<and>
     items (ssScaToIps_PseudoPkt t) = items (ssScaToIps_PseudoPkt s) @ tl cs \<and>
     items (ssTssToSca_PseudoPkt t) = rest \<and> \<not> sca_doForwardChunk t \<and> sca_4CSums t = SubCSums_zero"
proof -
  let ?t = "(pSubChecksumAccumulators ^^ length cs) s"
  have run: "items (ssTssToSca_PseudoPkt ?t) = rest"
    "items (ssScaToIps_PseudoPkt ?t) = items (ssScaToIps_PseudoPkt s) @ tl cs"
    "\<not> sca_doForwardChunk ?t" "sca_4CSums ?t = SubCSums_zero"
    "\<exists>v. items (ssScaToTca_FourSubCsums ?t) = [v] \<and> lanes_inv v (inet_sum (bytes_of cs))"
    using sca_run [OF assms(1,2), of 0] assms(3-5) by (simp_all add: Let_def lanes_inv_zero)
  then obtain v where v: "items (ssScaToTca_FourSubCsums ?t) = [v]" "lanes_inv v (inet_sum (bytes_of cs))"
    by blast
  show ?thesis
    using run(1-4) by (simp add: pTcpChecksumAccumulator_def sread_cons [OF v(1)] Let_def sca_frame
        tca_csum_sum [OF v(2)] inet_checksum_def)
qed

text \<open>C20. The checksum of a segment is the Internet checksum of its bytes.  When the accumulators have
  taken a pseudo packet of any length, odd ones included, they have forwarded its chunks without the
  first one, the pseudo header, and the four 17-bit sums with their folded carries give the same 16
  bits as the reference: the complement of the ones' complement sum of the big-endian words of the
  byte stream.\<close>

theorem txe_checksum_correct:
  assumes "items (ssTssToSca_PseudoPkt s) = cs @ rest" "payload_ok cs"
    and "\<not> sca_doForwardChunk s" "sca_4CSums s = SubCSums_zero"
    and "items (ssScaToTca_FourSubCsums s) = []"
  shows "let t = pTcpChecksumAccumulator ((pSubChecksumAccumulators ^^ length cs) s) in
     items (ssTcaToIps_TcpCsum t) = items (ssTcaToIps_TcpCsum s) @ [inet_checksum (bytes_of cs)] \<and>
     items (ssScaToIps_PseudoPkt t) = items (ssScaToIps_PseudoPkt s) @ tl cs \<and>
     items (ssTssToSca_PseudoPkt t) = rest \<and> \<not> sca_doForwardChunk t \<and> sca_4CSums t = SubCSums_zero"
  using assms by (rule txe_checksum)

text \<open>Two chunks with 11 bytes.\<close>

theorem txe_checksum_correct_witness:
  "let cs = [chunk 0x0807060504030201 0xFF False, chunk 0xFFFFFF 7 True];
       t = pTcpChecksumAccumulator ((pSubChecksumAccumulators ^^ 2)
         (txe_reset\<lparr>ssTssToSca_PseudoPkt := Stream 16 cs\<rparr>))
   in items (ssTcaToIps_TcpCsum t) = [inet_checksum [1, 2, 3, 4, 5, 6, 7, 8, 255, 255, 255]] \<and>
      items (ssScaToIps_PseudoPkt t) = [chunk 0xFFFFFF 7 True]"
proof -
  let ?cs = "[chunk 0x0807060504030201 0xFF False, chunk 0xFFFFFF 7 True]"
  have len: "getLen (chunk 0x0807060504030201 0xFF False) = 8" "getLen (chunk 0xFFFFFF 7 True) = 3"
    by (simp_all add: getLen_def chunk_def keepToLen_def)
  then have ok: "payload_ok ?cs"
    by (simp add: payload_ok_Cons payload_ok_single chunk_ok_def) (simp add: chunk_def)
  have bytes: "bytes_of ?cs = [1, 2, 3, 4, 5, 6, 7, 8, 255, 255, 255]"
    by (simp add: chunk_bytes_def len upt_upto_8 del: upt.simps) (simp add: nth_byte_def chunk_def)
  have two: "length ?cs = 2" by simp
  show ?thesis
    using txe_checksum_correct [of "txe_reset\<lparr>ssTssToSca_PseudoPkt := Stream 16 ?cs\<rparr>" ?cs "[]"] ok
    unfolding bytes two by (simp add: txe_reset_def Let_def del: funpow.simps)
qed

end
