(* ===== verification/Shifter.thy ===== *)
theory Shifter
  imports Rx_Memory
begin

text \<open>
  The interface of the processes that insert or remove a header whose length is no multiple of eight
  bytes: the stream that follows is moved by the bytes that are held.  The front of the Rx engine
  (\<open>Rx_Header\<close>) moves it by four bytes three times, the transmitter of \<open>NTS/iptx\<close> (\<open>Ip_Tx\<close>) by six, the accumulator
  of \<open>NTS/iprx\<close> (\<open>Ip_Check\<close>) by two and the appender of \<open>NTS/icmp\<close> (\<open>Icmp_Message\<close>) by four.
\<close>

section \<open>The interface\<close>

text \<open>A stream is passed on as it is, or joined with the \<open>h\<close> bytes that are held.  \<open>acct\<close> is the account
  that the process keeps of the chunks it takes.\<close>

locale shifter =
  fixes tick :: "'s \<Rightarrow> 's" and inp outp :: "'s \<Rightarrow> AxisApp list" and room :: "'s \<Rightarrow> nat"
    and acct :: "'s \<Rightarrow> 'a" and upd :: "AxisApp \<Rightarrow> 'a \<Rightarrow> 'a"
    and passing shifting residue over :: "'s \<Rightarrow> bool" and held :: "'s \<Rightarrow> 8 word list"
    and h :: nat
  assumes pass: "passing s \<Longrightarrow> inp s = c # cs \<Longrightarrow> chunk_ok c \<Longrightarrow> length (outp s) < room s \<Longrightarrow>
      inp (tick s) = cs \<and> outp (tick s) = outp s @ [c] \<and> room (tick s) = room s \<and>
      acct (tick s) = upd c (acct s) \<and> (if ax_tlast c then over (tick s) else passing (tick s))"
    and shift: "shifting s \<Longrightarrow> inp s = c # cs \<Longrightarrow> chunk_ok c \<Longrightarrow> length (held s) = h \<Longrightarrow>
      length (outp s) < room s \<Longrightarrow>
      inp (tick s) = cs \<and> room (tick s) = room s \<and> acct (tick s) = upd c (acct s) \<and>
      held (tick s) = drop (8 - h) (chunk_bytes c) \<and>
      (\<exists>w. outp (tick s) = outp s @ [w] \<and> chunk_bytes w = held s @ take (8 - h) (chunk_bytes c) \<and>
         ax_tlast w = (getLen c \<le> 8 - h)) \<and>
      (if \<not> ax_tlast c then shifting (tick s) else if getLen c \<le> 8 - h then over (tick s) else residue (tick s))"
    and flush: "residue s \<Longrightarrow> held s \<noteq> [] \<Longrightarrow> length (outp s) < room s \<Longrightarrow>
      inp (tick s) = inp s \<and> acct (tick s) = acct s \<and> over (tick s) \<and>
      (\<exists>w. outp (tick s) = outp s @ [w] \<and> chunk_bytes w = held s \<and> ax_tlast w)"
    and width: "1 \<le> h" "h \<le> 7"
begin

text \<open>What a run did: it took \<open>cs\<close> and sent \<open>ws\<close>.\<close>

definition moves :: "'s \<Rightarrow> nat \<Rightarrow> AxisApp list \<Rightarrow> AxisApp list \<Rightarrow> AxisApp list \<Rightarrow> bool" where
  "moves s j cs rest ws \<longleftrightarrow> (let t = (tick ^^ j) s in
     over t \<and> inp t = rest \<and> outp t = outp s @ ws \<and> acct t = fold upd cs (acct s))"

lemma moves_Suc:
  assumes "moves (tick s) j cs rest ws" "outp (tick s) = outp s @ xs" "acct (tick s) = upd c (acct s)"
  shows "moves s (Suc j) (c # cs) rest (xs @ ws)"
  using assms by (simp add: moves_def Let_def funpow_swap1)

lemma passes:
  assumes "passing s" "inp s = cs @ rest" "payload_ok cs" "length (outp s) + length cs \<le> room s"
  shows "moves s (length cs) cs rest cs"
  using assms
proof (induction cs arbitrary: s)
  case Nil
  then show ?case by (simp add: payload_ok_def is_segment_def)
next
  case (Cons c cs)
  have ok: "chunk_ok c" using Cons.prems(3) by (simp add: payload_ok_def)
  have input: "inp s = c # (cs @ rest)" "length (outp s) < room s" using Cons.prems(2,4) by simp_all
  note t = pass [OF Cons.prems(1) input(1) ok input(2)]
  show ?case
  proof (cases "cs = []")
    case True
    then have "ax_tlast c" using Cons.prems(3) by (simp add: payload_ok_single)
    then show ?thesis using t True by (simp add: moves_def)
  next
    case False
    then have c: "\<not> ax_tlast c" "payload_ok cs" using Cons.prems(3) by (simp_all add: payload_ok_Cons)
    then have "moves (tick s) (length cs) cs rest cs" using t Cons.prems(4) by (intro Cons.IH) simp_all
    from moves_Suc [OF this, of "[c]" c] t show ?thesis by simp
  qed
qed

lemma residue_moves:
  assumes "residue s" "held s \<noteq> []" "length (outp s) < room s"
  shows "\<exists>ws. moves s 1 [] (inp s) ws \<and> payload_ok ws \<and> bytes_of ws = held s"
proof -
  note t = flush [OF assms]
  then obtain w where w: "outp (tick s) = outp s @ [w]" "chunk_bytes w = held s" "ax_tlast w" by blast
  have "length (chunk_bytes w) \<noteq> 0" using w(2) assms(2) by simp
  then have "payload_ok [w]" using w(3) by (simp add: payload_ok_single chunk_ok_def)
  then show ?thesis using t w by (intro exI [of _ "[w]"]) (simp add: moves_def)
qed

lemma shifts:
  assumes "shifting s" "inp s = cs @ rest" "payload_ok cs" "length (held s) = h"
    and "length (outp s) + length cs < room s"
  shows "\<exists>j ws. moves s j cs rest ws \<and> payload_ok ws \<and> bytes_of ws = held s @ bytes_of cs"
  using assms
proof (induction cs arbitrary: s)
  case Nil
  then show ?case by (simp add: payload_ok_def is_segment_def)
next
  case (Cons c cs)
  have ok: "chunk_ok c" using Cons.prems(3) by (simp add: payload_ok_def)
  have input: "inp s = c # (cs @ rest)" "length (outp s) < room s" using Cons.prems(2,5) by simp_all
  note t = shift [OF Cons.prems(1) input(1) ok Cons.prems(4) input(2)]
  then obtain w where w: "outp (tick s) = outp s @ [w]" "chunk_bytes w = held s @ take (8 - h) (chunk_bytes c)"
    "ax_tlast w = (getLen c \<le> 8 - h)" by blast
  have len: "getLen w = h + min (8 - h) (getLen c)" using arg_cong [OF w(2), of length] Cons.prems(4) by simp
  have okw: "chunk_ok w" using len width(1) by (simp add: chunk_ok_def)
  have split: "chunk_bytes w @ drop (8 - h) (chunk_bytes c) = held s @ chunk_bytes c" by (simp add: w(2))
  show ?case
  proof (cases "cs = []")
    case True
    then have c: "ax_tlast c" using Cons.prems(3) by (simp add: payload_ok_single)
    show ?thesis
    proof (cases "getLen c \<le> 8 - h")
      case le: True
      then have "moves s 1 [c] rest [w]" using t w(1) c True by (simp add: moves_def)
      then show ?thesis
        using True le w(2,3) okw by (intro exI [of _ 1] exI [of _ "[w]"]) (simp add: payload_ok_single)
    next
      case False
      have "residue (tick s)" "held (tick s) \<noteq> []" "length (outp (tick s)) < room (tick s)"
        using t w(1) c False Cons.prems(5) by (simp_all add: True)
      from residue_moves [OF this] obtain ws where ws: "moves (tick s) 1 [] (inp (tick s)) ws" "payload_ok ws"
        "bytes_of ws = held (tick s)" by blast
      have "moves s (Suc 1) [c] rest ([w] @ ws)"
        using moves_Suc [OF ws(1) w(1), of c] t True by simp
      moreover have "payload_ok (w # ws)" "bytes_of (w # ws) = held s @ bytes_of [c]"
        using ws(2,3) t split w(3) False len width payload_ok_nonempty [OF ws(2)] by (simp_all add: payload_ok_Cons)
      ultimately show ?thesis using True by (intro exI [of _ "Suc 1"] exI [of _ "w # ws"]) simp
    qed
  next
    case False
    then have c: "\<not> ax_tlast c" "getLen c = 8" "payload_ok cs" using Cons.prems(3) by (simp_all add: payload_ok_Cons)
    have "shifting (tick s)" "inp (tick s) = cs @ rest" "length (held (tick s)) = h"
      "length (outp (tick s)) + length cs < room (tick s)"
      using t c w(1) width Cons.prems(5) by simp_all
    from Cons.IH [OF this(1,2) c(3) this(3,4)] obtain j ws where ws: "moves (tick s) j cs rest ws"
      "payload_ok ws" "bytes_of ws = held (tick s) @ bytes_of cs" by blast
    have "moves s (Suc j) (c # cs) rest ([w] @ ws)" using moves_Suc [OF ws(1) w(1)] t by blast
    moreover have "payload_ok (w # ws)" "bytes_of (w # ws) = held s @ bytes_of (c # cs)"
      using ws(2,3) t split w(3) c(2) len width payload_ok_nonempty [OF ws(2)]
      by (simp_all add: payload_ok_Cons)
    ultimately show ?thesis by (intro exI [of _ "Suc j"] exI [of _ "w # ws"]) simp
  qed
qed

end

end
