(* ===== verification/Rx_Header.thy ===== *)
theory Rx_Header
  imports Rx_Meta Tx_Checksum Stitcher Shifter
begin

text \<open>
  The front of the Rx engine, \<open>NTS/toe/src/rx_engine/src/rx_engine.cpp\<close>: the extractor of the segment
  length (Tle) takes an IPv4 packet and removes its header except the addresses, the next process (Iph)
  makes a pseudo packet of it, and the checksum accumulator (Csa) verifies the checksum, sends the
  metadata and the socket pair to the metadata handler and the payload to the droppers of \<open>Rx_Path\<close>.
  All three move the payload by half a chunk (\<open>Shifter\<close>).
\<close>

section \<open>State\<close>

text \<open>\<open>csa_half_tdata\<close> and \<open>csa_half_tkeep\<close> are 32 and 4 bits wide.\<close>

record RXf = MDh +
  rxf_siIPRX_Data :: "AxisIp4 stream"
  ssTleToIph_Data :: "AxisApp stream"
  ssTleToIph_TcpSegLen :: "TcpSegLen stream"
  tle_chunkCount :: "4 word"
  tle_residue :: bool
  tle_shift :: bool
  tle_ip4HdrLen :: "4 word"
  tle_ip4TotLen :: "16 word"
  tle_ipDataLen :: "16 word"
  tle_prevChunk :: AxisIp4
  ssIphToCsa_PseudoPkt :: "AxisPsd4 stream"
  iph_residue :: bool
  iph_chunkCount :: "2 word"
  iph_prevChunk :: AxisApp
  csa_soPRt_PortStateReq :: "TcpPort stream"
  csa_chunkCount :: "3 word"
  csa_doCSumVerif :: bool
  csa_residue :: bool
  csa_cc_state :: "3 word"
  csa_tcp_sums :: SubCSums
  csa_dataOffset :: "4 word"
  csa_doShift :: bool
  csa_socketPair :: SocketPair
  csa_meta :: RXeMeta
  csa_tcpDstPort :: TcpPort
  csa_tcpCSum :: "16 word"
  csa_half_tdata :: "32 word"
  csa_half_tkeep :: "4 word"

section \<open>Fields of the headers\<close>

definition getPsd4SrcAddr :: "AxisPsd4 \<Rightarrow> Ip4Addr" where "getPsd4SrcAddr = get32 0"
definition getPsd4DstAddr :: "AxisPsd4 \<Rightarrow> Ip4Addr" where "getPsd4DstAddr = get32 32"
definition getPsd4Len :: "AxisPsd4 \<Rightarrow> 16 word" where "getPsd4Len = get16 16"
definition getTcpDataOff :: "AxisPsd4 \<Rightarrow> 4 word" where "getTcpDataOff c = ucast (get_range 7 4 (ax_tdata c))"
definition getTcpCtrl :: "nat \<Rightarrow> AxisPsd4 \<Rightarrow> bool" where "getTcpCtrl i c = bit (ax_tdata c) i"
definition getTcpWindow :: "AxisPsd4 \<Rightarrow> 16 word" where "getTcpWindow = get16 16"
definition getTcpChecksum :: "AxisPsd4 \<Rightarrow> 16 word" where "getTcpChecksum = get16 32"

section \<open>Half chunks\<close>

text \<open>The upper half of the previous chunk becomes the lower half of the one that is sent, and the
  lower half of the current chunk its upper half.\<close>

definition low_half :: "64 word \<Rightarrow> 8 word \<Rightarrow> AxisApp \<Rightarrow> AxisApp" where
  "low_half d k c = setLE_TKeep k 3 0 (setLE_TData d 31 0 c)"

definition half_join :: "64 word \<Rightarrow> 8 word \<Rightarrow> AxisApp \<Rightarrow> AxisApp" where
  "half_join d k c = setLE_TKeep (get_range 3 0 (ax_tkeep c)) 7 4
     (setLE_TData (get_range 31 0 (ax_tdata c)) 63 32 (low_half d k AxisApp_zero))"

definition tle_join :: "AxisApp \<Rightarrow> AxisApp \<Rightarrow> AxisApp" where
  "tle_join p c = (half_join (get_range 63 32 (ax_tdata p)) (get_range 7 4 (ax_tkeep p)) c)
     \<lparr>ax_tlast := \<not> bit (ax_tkeep c) 4\<rparr>"

section \<open>The length extractor\<close>

definition tle_put :: "AxisApp \<Rightarrow> 'a RXf_scheme \<Rightarrow> 'a RXf_scheme" where
  "tle_put c s = s\<lparr>ssTleToIph_Data := swrite (ssTleToIph_Data s) c\<rparr>"

definition tle_chunk :: "AxisIp4 \<Rightarrow> 'a RXf_scheme \<Rightarrow> 'a RXf_scheme" where
  "tle_chunk c s =
     (if tle_chunkCount s = 0 then
        s\<lparr>tle_ip4TotLen := getIp4TotalLen c,
          tle_ipDataLen := getIp4TotalLen c - ucast (getIp4HdrLen c) * 4,
          tle_ip4HdrLen := getIp4HdrLen c - 2,
          tle_chunkCount := 1\<rparr>
      else if tle_chunkCount s = 1 then
        s\<lparr>ssTleToIph_TcpSegLen := swrite (ssTleToIph_TcpSegLen s) (tle_ipDataLen s),
          tle_ip4HdrLen := tle_ip4HdrLen s - 2,
          tle_chunkCount := 2\<rparr>
      else if tle_chunkCount s = 2 then
        (tle_put (tle_join (tle_prevChunk s) c) s)
          \<lparr>tle_ip4HdrLen := tle_ip4HdrLen s - 1, tle_chunkCount := 3\<rparr>
      else if tle_chunkCount s = 3 then
        (if tle_ip4HdrLen s = 0 then
           (tle_put (tle_join (tle_prevChunk s) c) s)\<lparr>tle_shift := True, tle_chunkCount := 4\<rparr>
         else if tle_ip4HdrLen s = 1 then
           (tle_put c s)\<lparr>tle_shift := False, tle_ip4HdrLen := 0, tle_chunkCount := 4\<rparr>
         else s\<lparr>tle_ip4HdrLen := tle_ip4HdrLen s - 2\<rparr>)
      else if tle_shift s then
        (let s = tle_put (tle_join (tle_prevChunk s) c) s in
         if ax_tlast c then s\<lparr>tle_chunkCount := 0, tle_residue := bit (ax_tkeep c) 4\<rparr> else s)
      else
        (let s = tle_put c s in
         if ax_tlast c then s\<lparr>tle_chunkCount := 0\<rparr> else s))"

definition tle_rest :: "'a RXf_scheme \<Rightarrow> AxisApp" where
  "tle_rest s = (low_half (get_range 63 32 (ax_tdata (tle_prevChunk s)))
     (get_range 7 4 (ax_tkeep (tle_prevChunk s))) AxisApp_zero)\<lparr>ax_tlast := True\<rparr>"

definition pTcpLengthExtractor :: "'a RXf_scheme \<Rightarrow> 'a RXf_scheme" where
  "pTcpLengthExtractor s =
     (if \<not> sfull (ssTleToIph_Data s) \<and> \<not> tle_residue s \<and> \<not> sempty (rxf_siIPRX_Data s) then
        (case sread (rxf_siIPRX_Data s) of
           None \<Rightarrow> s
         | Some (c, si) \<Rightarrow> (tle_chunk c (s\<lparr>rxf_siIPRX_Data := si\<rparr>))\<lparr>tle_prevChunk := c\<rparr>)
      else if tle_residue s then (tle_put (tle_rest s) s)\<lparr>tle_residue := False\<rparr>
      else s)"

section \<open>The pseudo header\<close>

definition iph_put :: "AxisPsd4 \<Rightarrow> 'a RXf_scheme \<Rightarrow> 'a RXf_scheme" where
  "iph_put c s = s\<lparr>ssIphToCsa_PseudoPkt := swrite (ssIphToCsa_PseudoPkt s) c\<rparr>"

definition iph_end :: "AxisApp \<Rightarrow> 'a RXf_scheme \<Rightarrow> 'a RXf_scheme" where
  "iph_end c s =
     (let s = s\<lparr>iph_prevChunk := c\<rparr> in
      if ax_tlast c then s\<lparr>iph_chunkCount := 0, iph_residue := bit (ax_tkeep c) 4\<rparr> else s)"

text \<open>\<open>junk\<close> is the chunk that no constructor initialises: when the length is missing, the process still
  saves it and tests its last flag.\<close>

definition iph_psd :: "TcpSegLen \<Rightarrow> AxisApp \<Rightarrow> AxisPsd4" where
  "iph_psd len c = setTcpDstPort (byteSwap16 (ucast (get_range 31 16 (ax_tdata c))))
     (setTcpSrcPort (byteSwap16 (ucast (get_range 15 0 (ax_tdata c))))
     (setPsd4Len len (setPsd4Prot 6 (setPsd4ResBits 0 \<lparr>ax_tdata = 0, ax_tkeep = 0xFF, ax_tlast = False\<rparr>))))"

definition pInsertPseudoHeader :: "AxisApp \<Rightarrow> 'a RXf_scheme \<Rightarrow> 'a RXf_scheme" where
  "pInsertPseudoHeader junk s =
     (if iph_residue s then
        (iph_put ((low_half (get_range 63 32 (ax_tdata (iph_prevChunk s)))
            (get_range 7 4 (ax_tkeep (iph_prevChunk s))) AxisApp_zero)\<lparr>ax_tlast := True\<rparr>) s)
          \<lparr>iph_residue := False\<rparr>
      else if sfull (ssIphToCsa_PseudoPkt s) then s
      else
        (case sread (ssTleToIph_Data s) of
           None \<Rightarrow> s
         | Some (c, si) \<Rightarrow>
             (if iph_chunkCount s = 0 then
                iph_end c ((iph_put c (s\<lparr>ssTleToIph_Data := si\<rparr>))\<lparr>iph_chunkCount := 1\<rparr>)
              else if iph_chunkCount s = 1 then
                (case sread (ssTleToIph_TcpSegLen s) of
                   None \<Rightarrow> iph_end junk s
                 | Some (len, sl) \<Rightarrow>
                     iph_end c ((iph_put (iph_psd len c)
                       (s\<lparr>ssTleToIph_Data := si, ssTleToIph_TcpSegLen := sl\<rparr>))\<lparr>iph_chunkCount := 2\<rparr>))
              else
                iph_end c (iph_put (tle_join (iph_prevChunk s) c) (s\<lparr>ssTleToIph_Data := si\<rparr>)))))"

section \<open>The checksum accumulator\<close>

definition csa_fold :: "17 word \<Rightarrow> 17 word" where
  "csa_fold v = (v + drop_bit 16 v) AND 0xFFFF"

definition csa_lane :: "AxisPsd4 \<Rightarrow> nat \<Rightarrow> 17 word \<Rightarrow> 17 word" where
  "csa_lane c i v =
     (let lo = ucast (get_range (i * 16 + 15) (i * 16 + 8) (ax_tdata c)) :: 8 word;
          hi = ucast (get_range (i * 16 + 7) (i * 16) (ax_tdata c)) :: 8 word in
      if get_range (i * 2 + 1) (i * 2) (ax_tkeep c) = 3 then csa_fold (v + ucast (word_cat hi lo :: 16 word))
      else if bit (ax_tkeep c) (i * 2) then csa_fold (v + ucast (word_cat hi (0 :: 8 word) :: 16 word))
      else v)"

definition csa_accumulate :: "AxisPsd4 \<Rightarrow> SubCSums \<Rightarrow> SubCSums" where
  "csa_accumulate c v = \<lparr>sum0 = csa_lane c 0 (sum0 v), sum1 = csa_lane c 1 (sum1 v),
     sum2 = csa_lane c 2 (sum2 v), sum3 = csa_lane c 3 (sum3 v)\<rparr>"

definition csa_put :: "AxisApp \<Rightarrow> 'a RXf_scheme \<Rightarrow> 'a RXf_scheme" where
  "csa_put c s = s\<lparr>ssCsaToTid_Data := swrite (ssCsaToTid_Data s) c\<rparr>"

definition csa_save_half :: "AxisPsd4 \<Rightarrow> 'a RXf_scheme \<Rightarrow> 'a RXf_scheme" where
  "csa_save_half c s = s\<lparr>csa_half_tdata := ucast (get_range 63 32 (ax_tdata c)),
     csa_half_tkeep := ucast (get_range 7 4 (ax_tkeep c))\<rparr>"

text \<open>The chunk that a full chunk of the payload makes with the half that was saved.\<close>

definition csa_join :: "32 word \<Rightarrow> 4 word \<Rightarrow> AxisPsd4 \<Rightarrow> AxisApp" where
  "csa_join d k c = setTLast (\<not> bit (ax_tkeep c) 4) (half_join (ucast d) (ucast k) c)"

text \<open>The step on a chunk also gives the last flag of the chunk to send.\<close>

definition csa_chunk :: "AxisPsd4 \<Rightarrow> 'a RXf_scheme \<Rightarrow> 'a RXf_scheme \<times> bool" where
  "csa_chunk c s =
     (if csa_chunkCount s = 0 then
        (s\<lparr>csa_doShift := False,
           csa_socketPair := (csa_socketPair s)
             \<lparr>sp_src := (sp_src (csa_socketPair s))\<lparr>sa_addr := getPsd4SrcAddr c\<rparr>,
              sp_dst := (sp_dst (csa_socketPair s))\<lparr>sa_addr := getPsd4DstAddr c\<rparr>\<rparr>,
           csa_chunkCount := 1\<rparr>, ax_tlast c)
      else if csa_chunkCount s = 1 then
        (s\<lparr>csa_meta := (csa_meta s)\<lparr>rm_length := getPsd4Len c\<rparr>,
           csa_socketPair := (csa_socketPair s)
             \<lparr>sp_src := (sp_src (csa_socketPair s))\<lparr>sa_port := getTcpSrcPort c\<rparr>,
              sp_dst := (sp_dst (csa_socketPair s))\<lparr>sa_port := getTcpDstPort c\<rparr>\<rparr>,
           csa_tcpDstPort := getTcpDstPort c,
           csa_chunkCount := 2\<rparr>, ax_tlast c)
      else if csa_chunkCount s = 2 then
        (s\<lparr>csa_meta := (csa_meta s)\<lparr>rm_seqNumb := getTcpSeqNum c, rm_ackNumb := getTcpAckNum c\<rparr>,
           csa_chunkCount := 3\<rparr>, ax_tlast c)
      else if csa_chunkCount s = 3 then
        (s\<lparr>csa_dataOffset := getTcpDataOff c,
           csa_meta := (csa_meta s)
             \<lparr>rm_length := rm_length (csa_meta s) - ucast (getTcpDataOff c) * 4,
              rm_ack := getTcpCtrl 12 c, rm_rst := getTcpCtrl 10 c, rm_syn := getTcpCtrl 9 c,
              rm_fin := getTcpCtrl 8 c, rm_winSize := getTcpWindow c\<rparr>,
           csa_tcpCSum := getTcpChecksum c,
           csa_chunkCount := 4\<rparr>, ax_tlast c)
      else if 6 \<le> csa_dataOffset s then
        (if csa_dataOffset s = 6
         then (csa_save_half c (s\<lparr>csa_dataOffset := csa_dataOffset s - 1, csa_doShift := True\<rparr>), False)
         else (s\<lparr>csa_dataOffset := csa_dataOffset s - 2\<rparr>, False))
      else if \<not> csa_doShift s then (csa_put c s, ax_tlast c)
      else
        (let w = csa_join (csa_half_tdata s) (csa_half_tkeep s) c
         in (csa_save_half c (csa_put w s), ax_tlast w)))"

definition csa_take :: "AxisPsd4 \<Rightarrow> 'a RXf_scheme \<Rightarrow> 'a RXf_scheme" where
  "csa_take c s =
     (let (s, sentLast) = csa_chunk c s;
          s = s\<lparr>csa_tcp_sums := csa_accumulate c (csa_tcp_sums s)\<rparr>
      in if ax_tlast c
         then s\<lparr>csa_chunkCount := 0, csa_residue := \<not> sentLast, csa_doCSumVerif := True\<rparr> else s)"

definition csa_flush :: "'a RXf_scheme \<Rightarrow> 'a RXf_scheme" where
  "csa_flush s =
     (let s = (if rm_length (csa_meta s) \<noteq> 0
               then csa_put ((low_half (ucast (csa_half_tdata s)) (ucast (csa_half_tkeep s)) AxisApp_zero)
                      \<lparr>ax_tlast := True\<rparr>) s else s)
      in s\<lparr>csa_residue := False\<rparr>)"

text \<open>The last step of the verification: a valid segment is announced to the metadata handler and to
  the port table, and the dropper learns whether its payload may pass.\<close>

definition csa_verdict :: "'a RXf_scheme \<Rightarrow> 'a RXf_scheme" where
  "csa_verdict s =
     (let ok = (take_bit 16 (sum0 (csa_tcp_sums s)) = 0);
          s = (if ok then s\<lparr>ssCsaToMdh_Meta := swrite (ssCsaToMdh_Meta s) (csa_meta s),
                         ssCsaToMdh_SockPair := swrite (ssCsaToMdh_SockPair s) (csa_socketPair s),
                         csa_soPRt_PortStateReq := swrite (csa_soPRt_PortStateReq s) (csa_tcpDstPort s)\<rparr> else s);
          s = (if rm_length (csa_meta s) \<noteq> 0
               then s\<lparr>ssCsaToTid_DataValid := swrite (ssCsaToTid_DataValid s) ok\<rparr> else s)
      in s\<lparr>csa_doCSumVerif := False, csa_tcp_sums := SubCSums_zero, csa_cc_state := 0\<rparr>)"

definition csa_verify :: "'a RXf_scheme \<Rightarrow> 'a RXf_scheme" where
  "csa_verify s =
     (let v = csa_tcp_sums s; next = csa_cc_state s + 1 in
      if csa_cc_state s = 0 then
        s\<lparr>csa_tcp_sums := \<lparr>sum0 = csa_fold (sum0 v), sum1 = csa_fold (sum1 v), sum2 = csa_fold (sum2 v),
                           sum3 = csa_fold (sum3 v)\<rparr>, csa_cc_state := next\<rparr>
      else if csa_cc_state s = 1 then
        s\<lparr>csa_tcp_sums := v\<lparr>sum0 := csa_fold (sum0 v + sum2 v), sum1 := csa_fold (sum1 v + sum3 v)\<rparr>,
          csa_cc_state := next\<rparr>
      else if csa_cc_state s = 2 then
        s\<lparr>csa_tcp_sums := v\<lparr>sum0 := csa_fold (sum0 v + sum1 v)\<rparr>, csa_cc_state := next\<rparr>
      else if csa_cc_state s = 3 then
        s\<lparr>csa_tcp_sums := v\<lparr>sum0 := NOT (sum0 v)\<rparr>, csa_cc_state := next\<rparr>
      else if csa_cc_state s = 4 then csa_verdict s
      else s)"

definition pCheckSumAccumulator :: "'a RXf_scheme \<Rightarrow> 'a RXf_scheme" where
  "pCheckSumAccumulator s =
     (if \<not> sempty (ssIphToCsa_PseudoPkt s) \<and> \<not> sfull (ssCsaToTid_Data s) \<and> \<not> csa_doCSumVerif s then
        (case sread (ssIphToCsa_PseudoPkt s) of
           None \<Rightarrow> s
         | Some (c, si) \<Rightarrow> csa_take c (s\<lparr>ssIphToCsa_PseudoPkt := si\<rparr>))
      else if csa_residue s \<and> \<not> sfull (ssCsaToTid_Data s) then csa_flush s
      else if csa_doCSumVerif s then csa_verify s
      else s)"

end
