(* ===== verification/Tx_Packet.thy ===== *)
theory Tx_Packet
  imports Tx_Checksum Stitcher
begin

text \<open>
  The packets of the Tx engine (\<open>Tx_Engine\<close>): from the metadata of a segment, the socket pair and the
  payload that the memory returns, the constructors of the headers, the stitchers and the accumulators
  make the IPv4 packet that the reference encoding prescribes, byte by byte.
\<close>

section \<open>The payload\<close>

lemma tss_put_frame [simp]:
  "txe_siMEM_TxP_Data (tss_put c s) = txe_siMEM_TxP_Data s"
  "ssMrdToTss_SplitMemAcc (tss_put c s) = ssMrdToTss_SplitMemAcc s"
  "ssTssToSca_PseudoPkt (tss_put c s) = swrite (ssTssToSca_PseudoPkt s) c"
  "ssPhcToTss_PseudoHdr (tss_put c s) = ssPhcToTss_PseudoHdr s"
  "tss_fsmState (tss_put c s) = tss_fsmState s" "tss_prevChunk (tss_put c s) = tss_prevChunk s"
  "tss_memRdOffset (tss_put c s) = tss_memRdOffset s" "tss_mustJoin (tss_put c s) = tss_mustJoin s"
  "tss_psdHdrChunkCount (tss_put c s) = tss_psdHdrChunkCount s"
  by (simp_all add: tss_put_def)

text \<open>The segment stitcher is a stitcher: in \<open>TSS_DATA\<close> it takes the first chunk of the payload.\<close>

interpretation tss: stitcher pTcpSegStitcher "\<lambda>s. items (txe_siMEM_TxP_Data s)"
    "\<lambda>s. items (ssTssToSca_PseudoPkt s)" "\<lambda>s. depth (ssTssToSca_PseudoPkt s)"
    "\<lambda>s. items (ssMrdToTss_SplitMemAcc s)"
    "\<lambda>s. tss_fsmState s = TSS_DATA" "\<lambda>s. tss_fsmState s = TSS_FWD_1ST_BUF"
    "\<lambda>s. tss_fsmState s = TSS_FWD_2ND_BUF" "\<lambda>s. tss_fsmState s = TSS_JOIN_2ND_BUF"
    "\<lambda>s. tss_fsmState s = TSS_RESIDUE" "\<lambda>s. tss_fsmState s = TSS_PSD_HDR" tss_mustJoin
    "\<lambda>s. unat (tss_memRdOffset s)" tss_prevChunk
proof (unfold_locales, goal_cases)
  case (1 s m fs c cs)
  note sp = sread_cons [OF 1(2)]
  show ?case
    using 1 by (simp add: pTcpSegStitcher_def tss_data_def sp sread_cons [OF 1(3)] Let_def sfull_def)
next
  case (2 s fs c cs)
  note sp = sread_cons [OF 2(2)]
  show ?case
    using 2 by (simp add: pTcpSegStitcher_def tss_data_def tss_1st_end_def sp sread_cons [OF 2(3)]
        Let_def sfull_def)
next
  case (3 s fs c cs)
  note sp = sread_cons [OF 3(2)]
  show ?case
    using 3 by (simp add: pTcpSegStitcher_def tss_data_def tss_1st_end_def sp sread_cons [OF 3(3)]
        Let_def sfull_def of_nat_len_8 unat_of_nat_len)
next
  case (4 s c cs)
  then show ?case
    by (simp add: pTcpSegStitcher_def tss_fwd_1st_buf_def sread_cons Let_def sfull_def)
next
  case (5 s c cs)
  then show ?case
    by (simp add: pTcpSegStitcher_def tss_fwd_1st_buf_def tss_1st_end_def sread_cons Let_def sfull_def)
next
  case (6 s c cs)
  then show ?case
    by (simp add: pTcpSegStitcher_def tss_fwd_1st_buf_def tss_1st_end_def sread_cons Let_def sfull_def
        of_nat_len_8 unat_of_nat_len)
next
  case (7 s c cs)
  then show ?case
    by (simp add: pTcpSegStitcher_def tss_fwd_2nd_buf_def sread_cons Let_def sfull_def)
next
  case (8 s c cs)
  then show ?case
    by (simp add: pTcpSegStitcher_def tss_join_2nd_buf_def sread_cons Let_def sfull_def)
next
  case (9 s)
  then show ?case by (simp add: pTcpSegStitcher_def tss_residue_def sfull_def)
qed

section \<open>The reference encoding\<close>

definition ip_header :: "16 word \<Rightarrow> Ip4Addr \<Rightarrow> Ip4Addr \<Rightarrow> 8 word list" where
  "ip_header len src dst = [0x45, 0] @ be16 len @ [0, 0, 0, 0] @ [0x40, 6, 0, 0] @ be32 src @ be32 dst"

definition pseudo_header :: "SocketPair \<Rightarrow> TcpSegLen \<Rightarrow> 8 word list" where
  "pseudo_header p len = be32 (sa_addr (sp_src p)) @ be32 (sa_addr (sp_dst p)) @ [0, 6] @ be16 (len + 20)"

definition tcp_flags :: "TXeMeta \<Rightarrow> 8 word" where
  "tcp_flags m = of_bool (txm_fin m) + 2 * of_bool (txm_syn m) + 4 * of_bool (txm_rst m) + 16 * of_bool (txm_ack m)"

definition tcp_header :: "SocketPair \<Rightarrow> TXeMeta \<Rightarrow> 16 word \<Rightarrow> 8 word list" where
  "tcp_header p m csum = be16 (sa_port (sp_src p)) @ be16 (sa_port (sp_dst p)) @ be32 (txm_seqNumb m) @
     be32 (txm_ackNumb m) @ [if txm_syn m then 0x60 else 0x50, tcp_flags m] @ be16 (txm_winSize m) @
     be16 csum @ [0, 0]"

definition tcp_options :: "TXeMeta \<Rightarrow> 8 word list" where
  "tcp_options m = (if txm_syn m then [2, 4] @ be16 1456 else [])"

section \<open>The bytes of the header chunks\<close>

lemma byte_of_set_bits_other:
  assumes "i < 8" "hi < 8 * i \<or> 8 * i + 7 < lo" "lo \<le> hi"
  shows "byte_of (set_bits hi lo v c) i = byte_of c i"
  by (rule bit_word_eqI) (use assms in \<open>auto simp: byte_of_def set_bits_def bit_nth_byte bit_set_range\<close>)

lemma byte_of_nibbles:
  "byte_of (set_bits 3 0 v (set_bits 7 4 w c)) 0 = ucast (take_bit 4 v OR push_bit 4 (take_bit 4 w))"
  by (rule bit_word_eqI)
    (auto simp: byte_of_def set_bits_def bit_nth_byte bit_set_range bit_ucast_iff bit_take_bit_iff
      bit_or_iff bit_push_bit_iff)

lemma byte_of_frag:
  assumes "i < 8"
  shows "byte_of (setIp4FragOff 0 (setIp4Flags 0 c)) i = (if i = 6 \<or> i = 7 then 0 else byte_of c i)"
  by (rule bit_word_eqI)
    (use assms in \<open>auto simp: setIp4FragOff_def setIp4Flags_def byte_of_def set_bits_def bit_nth_byte
      bit_set_range bit_get_range\<close>)

lemma byte_of_tkeep [simp]:
  "byte_of (c\<lparr>ax_tkeep := k\<rparr>) i = byte_of c i" "byte_of (c\<lparr>ax_tlast := l\<rparr>) i = byte_of c i"
  by (simp_all add: byte_of_def)

lemmas byte_of_sets = byte_of_set8 [of _ 0, simplified] byte_of_set8 [of _ 1, simplified]
  byte_of_set16 [of _ 0, simplified] byte_of_set16 [of _ 2, simplified] byte_of_set16 [of _ 4, simplified]
  byte_of_set16 [of _ 6, simplified] byte_of_set32 [of _ 0, simplified] byte_of_set32 [of _ 4, simplified]

lemma chunk_bytes_8:
  "getLen c = 8 \<Longrightarrow> chunk_bytes c = map (byte_of c) [0, 1, 2, 3, 4, 5, 6, 7]"
  by (simp add: chunk_bytes_byte_of upt_upto_8 del: upt.simps)

lemma chunk_bytes_4: "getLen c = 4 \<Longrightarrow> chunk_bytes c = map (byte_of c) [0, 1, 2, 3]"
  by (simp add: chunk_bytes_byte_of upt_upto_8 del: upt.simps)

lemma getLen_keep: "ax_tkeep c = 0xFF \<Longrightarrow> getLen c = 8" "ax_tkeep c = 0x0F \<Longrightarrow> getLen c = 4"
  by (simp_all add: getLen_def keepToLen_def)

definition phc_ctrl :: "TXeMeta \<Rightarrow> AxisPsd4" where
  "phc_ctrl m = setTcpCtrlBit 15 False (setTcpCtrlBit 14 False (setTcpCtrlBit 13 False
     (setTcpCtrlBit 12 (txm_ack m) (setTcpCtrlBit 11 False (setTcpCtrlBit 10 (txm_rst m)
     (setTcpCtrlBit 9 (txm_syn m) (setTcpCtrlBit 8 (txm_fin m)
     (setTcpDataOff (5 + (if txm_syn m then 1 else 0))
     (setTcpResBits 0 (setTcpCtrlBit 0 False phc_new))))))))))"

lemma phc_ctrl_bytes:
  "byte_of (phc_ctrl m) 0 = (if txm_syn m then 0x60 else 0x50)" "byte_of (phc_ctrl m) (Suc 0) = tcp_flags m"
  by (cases "txm_ack m"; cases "txm_rst m"; cases "txm_syn m"; cases "txm_fin m";
    simp add: phc_ctrl_def setTcpCtrlBit_def setTcpDataOff_def setTcpResBits_def phc_new_def set_bits_def
      set_range_def mask_eq_exp_minus_1 byte_of_def nth_byte_def tcp_flags_def)+

lemma phc_ctrl_keep [simp]: "ax_tkeep (phc_ctrl m) = 0xFF" "ax_tlast (phc_ctrl m) = False"
  by (simp_all add: phc_ctrl_def setTcpCtrlBit_def setTcpDataOff_def setTcpResBits_def phc_new_def)

lemma phc_chunk3_eq:
  "phc_chunk3 m = (setTcpUrgPtr 0 (setTcpChecksum 0 (setTcpWindow (txm_winSize m) (phc_ctrl m))))
     \<lparr>ax_tlast := (txm_length m = 0 \<and> \<not> txm_syn m)\<rparr>"
  by (simp add: phc_chunk3_def setTLast_def clearUnusedBytes_def keepToLen_def Let_def
      setTcpUrgPtr_def setTcpChecksum_def setTcpWindow_def flip: phc_ctrl_def)

text \<open>The framing of the chunks: all are full but the last one of each header.\<close>

lemma phc_frame [simp]:
  "ax_tkeep (phc_chunk0 p) = 0xFF" "ax_tlast (phc_chunk0 p) = False"
  "ax_tkeep (phc_chunk1 l p) = 0xFF" "ax_tlast (phc_chunk1 l p) = False"
  "ax_tkeep (phc_chunk2 m) = 0xFF" "ax_tlast (phc_chunk2 m) = False"
  "ax_tkeep (phc_chunk3 m) = 0xFF" "ax_tlast (phc_chunk3 m) = (txm_length m = 0 \<and> \<not> txm_syn m)"
  "ax_tkeep phc_chunk4 = 0x0F" "ax_tlast phc_chunk4"
  by (simp_all add: phc_chunk0_def phc_chunk1_def phc_chunk2_def phc_chunk3_eq phc_chunk4_def phc_new_def
      header_defs)

lemma ihc_frame [simp]:
  "ax_tkeep (ihc_chunk0 l c) = 0xFF" "ax_tkeep (ihc_chunk1 a c) = 0xFF" "ax_tkeep (ihc_chunk2 a c) = 0x0F"
  "ax_tlast (ihc_chunk0 l c) = False" "ax_tlast (ihc_chunk1 a c) = False"
  by (simp_all add: ihc_chunk0_def ihc_chunk1_def ihc_chunk2_def)

lemma ihc_bytes:
  "chunk_bytes (ihc_chunk0 len c) = [0x45, 0] @ be16 (40 + len) @ [0, 0, 0, 0]"
  "chunk_bytes (ihc_chunk1 a c) = [0x40, 6, 0, 0] @ be32 a"
  by (simp_all add: chunk_bytes_8 getLen_keep)
    (simp_all add: ihc_chunk0_def ihc_chunk1_def setIp4Ident_def setIp4TotalLen_def setIp4ToS_def
      setIp4HdrLen_def setIp4Version_def setIp4SrcAddr_def setIp4HdrCsum_def setIp4Prot_def setIp4TtL_def
      IP4_HEADER_LEN_def TCP_HEADER_LEN_def byte_of_sets byte_of_frag byte_of_set_bits_other byte_of_nibbles
      be16_def be32_def)

lemma phc_bytes:
  "chunk_bytes (phc_chunk0 p) = be32 (sa_addr (sp_src p)) @ be32 (sa_addr (sp_dst p))"
  "chunk_bytes (phc_chunk1 l p) = [0, 6] @ be16 (l + 20) @ be16 (sa_port (sp_src p)) @ be16 (sa_port (sp_dst p))"
  "chunk_bytes (phc_chunk2 m) = be32 (txm_seqNumb m) @ be32 (txm_ackNumb m)"
  "chunk_bytes (phc_chunk3 m) = [if txm_syn m then 0x60 else 0x50, tcp_flags m] @ be16 (txm_winSize m) @
     be16 0 @ [0, 0]"
  "chunk_bytes phc_chunk4 = [2, 4] @ be16 1456"
  by (simp_all add: chunk_bytes_8 chunk_bytes_4 getLen_keep)
    (simp_all add: phc_chunk0_def phc_chunk1_def phc_chunk2_def phc_chunk3_eq phc_chunk4_def phc_ctrl_bytes
      setPsd4SrcAddr_def setPsd4DstAddr_def setPsd4ResBits_def setPsd4Prot_def setPsd4Len_def
      setTcpSrcPort_def setTcpDstPort_def setTcpSeqNum_def setTcpAckNum_def setTcpUrgPtr_def
      setTcpChecksum_def setTcpWindow_def setTcpOptKind_def setTcpOptLen_def setTcpOptMss_def
      TCP_HEADER_LEN_def MY_MSS_def byte_of_sets be16_def be32_def)

text \<open>The stitcher copies the fields of the two headers.\<close>

lemma be16_get16: "l < 7 \<Longrightarrow> be16 (get16 (8 * l) c) = [byte_of c l, byte_of c (l + 1)]"
  by (auto simp: be16_def get16_def byte_of_def byteSwap16_def intro!: bit_word_eqI)
    (auto simp: bit_nth_byte bit_get_range bit_word_cat_iff bit_ucast_iff bit_drop_bit_eq algebra_simps)

lemma be32_get32:
  "l < 5 \<Longrightarrow> be32 (get32 (8 * l) c) = [byte_of c l, byte_of c (l + 1), byte_of c (l + 2), byte_of c (l + 3)]"
  by (auto simp: be32_def get32_def byte_of_def byteSwap32_def intro!: bit_word_eqI)
    (auto simp: bit_nth_byte bit_get_range bit_word_cat_iff bit_ucast_iff bit_drop_bit_eq algebra_simps)

lemmas be_gets = be16_get16 [of 4, simplified] be16_get16 [of 6, simplified]
  be32_get32 [of 0, simplified] be32_get32 [of 4, simplified]

lemma ips_frame [simp]:
  "ax_tkeep (ips_chunk2 ip tcp) = 0xFF" "ax_tlast (ips_chunk2 ip tcp) = False"
  "ax_tkeep (ips_chunk3 tcp) = 0xFF" "ax_tlast (ips_chunk3 tcp) = False"
  by (simp_all add: ips_chunk2_def ips_chunk3_def header_defs phc_new_def)

lemma ips_bytes:
  "chunk_bytes (ips_chunk2 ip tcp) = map (byte_of ip) [0, 1, 2, 3] @ map (byte_of tcp) [4, 5, 6, 7]"
  "chunk_bytes (ips_chunk3 tcp) = map (byte_of tcp) [0, 1, 2, 3, 4, 5, 6, 7]"
  using be_gets [of ip] be_gets [of tcp]
  by (simp_all add: chunk_bytes_8 getLen_keep)
    (simp_all add: ips_chunk2_def ips_chunk3_def header_defs byte_of_sets be16_def be32_def numeral_2_eq_2)

section \<open>Runs of the constructors\<close>

lemma funpow_keeps: "(\<And>t. g (f t) = g t) \<Longrightarrow> g ((f ^^ n) s) = g s"
  by (induction n) simp_all

text \<open>The parts of the state that one process and its neighbours work on.\<close>

definition ihc_part :: "'a TXe_scheme \<Rightarrow> _" where
  "ihc_part s = (ssMdlToIhc_TcpDatLen s, ssSpsToIhc_IpAddrPair s, ihc_chunkCounter s, ssIhcToIps_IpHeader s)"

definition tss_part :: "'a TXe_scheme \<Rightarrow> _" where
  "tss_part s = (txe_siMEM_TxP_Data s, ssMrdToTss_SplitMemAcc s, ssTssToSca_PseudoPkt s, tss_fsmState s,
     tss_psdHdrChunkCount s)"

definition sca_part :: "'a TXe_scheme \<Rightarrow> _" where
  "sca_part s = (ssScaToIps_PseudoPkt s, ssScaToTca_FourSubCsums s, sca_doForwardChunk s, sca_4CSums s,
     ssTcaToIps_TcpCsum s)"

definition ips_part :: "'a TXe_scheme \<Rightarrow> _" where
  "ips_part s = (txe_soIPTX_Data s, ips_chunkCount s)"

lemmas part_defs = ihc_part_def tss_part_def sca_part_def ips_part_def

lemma phc_keeps:
  "ihc_part (pPseudoHeaderConstructor s) = ihc_part s" "tss_part (pPseudoHeaderConstructor s) = tss_part s"
  "sca_part (pPseudoHeaderConstructor s) = sca_part s" "ips_part (pPseudoHeaderConstructor s) = ips_part s"
  by (simp_all add: part_defs pPseudoHeaderConstructor_def phc_put_def split: option.split prod.split)

lemma tss_keeps:
  "ihc_part (pTcpSegStitcher s) = ihc_part s" "sca_part (pTcpSegStitcher s) = sca_part s"
  "ips_part (pTcpSegStitcher s) = ips_part s"
  by (simp_all add: part_defs pTcpSegStitcher_def tss_psd_hdr_def tss_psd_opt_def tss_data_def tss_1st_end_def
      tss_fwd_1st_buf_def tss_fwd_2nd_buf_def tss_join_2nd_buf_def tss_residue_def tss_put_def Let_def
      split: TssStates.split option.split prod.split)

lemma sca_keeps:
  "ihc_part (pSubChecksumAccumulators s) = ihc_part s" "ips_part (pSubChecksumAccumulators s) = ips_part s"
  "ihc_part (pTcpChecksumAccumulator s) = ihc_part s" "ips_part (pTcpChecksumAccumulator s) = ips_part s"
  by (simp_all add: part_defs pSubChecksumAccumulators_def pTcpChecksumAccumulator_def Let_def
      split: option.split)

lemma ihc_keeps:
  "sca_part (pIpHeaderConstructor junk s) = sca_part s" "ips_part (pIpHeaderConstructor junk s) = ips_part s"
  by (simp_all add: part_defs pIpHeaderConstructor_def ihc_put_def split: option.split prod.split)

definition phc_chunks :: "SocketPair \<Rightarrow> TXeMeta \<Rightarrow> AxisPsd4 list" where
  "phc_chunks p m = [phc_chunk0 p, phc_chunk1 (txm_length m) p, phc_chunk2 m, phc_chunk3 m] @
     (if txm_syn m then [phc_chunk4] else [])"

lemma phc_first:
  assumes "phc_chunkCount s = 0" "items (ssSpsToPhc_SockPair s) = [p]" "items (ssMdlToPhc_TxeMeta s) = [m]"
  shows "phc_chunkCount (pPseudoHeaderConstructor s) = 1" "phc_socketPair (pPseudoHeaderConstructor s) = p"
    "phc_meta (pPseudoHeaderConstructor s) = m"
    "items (ssPhcToTss_PseudoHdr (pPseudoHeaderConstructor s)) = items (ssPhcToTss_PseudoHdr s) @ [phc_chunk0 p]"
  using sread_cons [OF assms(2)] sread_cons [OF assms(3)] assms(1)
  by (simp_all add: pPseudoHeaderConstructor_def phc_put_def)

lemma phc_next:
  assumes "phc_chunkCount s = n" "phc_socketPair s = p" "phc_meta s = m" "n \<noteq> 0"
  shows "phc_socketPair (pPseudoHeaderConstructor s) = p" "phc_meta (pPseudoHeaderConstructor s) = m"
    "n = 1 \<Longrightarrow> phc_chunkCount (pPseudoHeaderConstructor s) = 2 \<and>
      items (ssPhcToTss_PseudoHdr (pPseudoHeaderConstructor s)) =
        items (ssPhcToTss_PseudoHdr s) @ [phc_chunk1 (txm_length m) p]"
    "n = 2 \<Longrightarrow> phc_chunkCount (pPseudoHeaderConstructor s) = 3 \<and>
      items (ssPhcToTss_PseudoHdr (pPseudoHeaderConstructor s)) = items (ssPhcToTss_PseudoHdr s) @ [phc_chunk2 m]"
    "n = 3 \<Longrightarrow> phc_chunkCount (pPseudoHeaderConstructor s) = (if txm_syn m then 4 else 0) \<and>
      items (ssPhcToTss_PseudoHdr (pPseudoHeaderConstructor s)) = items (ssPhcToTss_PseudoHdr s) @ [phc_chunk3 m]"
    "n = 4 \<Longrightarrow> phc_chunkCount (pPseudoHeaderConstructor s) = 0 \<and>
      items (ssPhcToTss_PseudoHdr (pPseudoHeaderConstructor s)) = items (ssPhcToTss_PseudoHdr s) @ [phc_chunk4]"
  using assms by (auto simp: pPseudoHeaderConstructor_def phc_put_def)

lemma phc_run:
  assumes "phc_chunkCount s = 0" "items (ssSpsToPhc_SockPair s) = [p]" "items (ssMdlToPhc_TxeMeta s) = [m]"
  shows "items (ssPhcToTss_PseudoHdr ((pPseudoHeaderConstructor ^^ length (phc_chunks p m)) s)) =
    items (ssPhcToTss_PseudoHdr s) @ phc_chunks p m"
proof -
  let ?P = pPseudoHeaderConstructor
  note t1 = phc_first [OF assms]
  note t2 = phc_next [OF t1(1-3) one_neq_zero]
  have c2: "phc_chunkCount (?P (?P s)) = 2" using t2(3) by simp
  note t3 = phc_next [OF c2 t2(1,2)]
  have c3: "phc_chunkCount (?P (?P (?P s))) = 3" using t3(4) by simp
  note t4 = phc_next [OF c3 t3(1,2)]
  have h4: "items (ssPhcToTss_PseudoHdr (?P (?P (?P (?P s))))) = items (ssPhcToTss_PseudoHdr s) @
      [phc_chunk0 p, phc_chunk1 (txm_length m) p, phc_chunk2 m, phc_chunk3 m]"
    using t1(4) t2(3) t3(4) t4(5) by simp
  show ?thesis
  proof (cases "txm_syn m")
    case True
    then have c4: "phc_chunkCount (?P (?P (?P (?P s)))) = 4" using t4(5) by simp
    have "items (ssPhcToTss_PseudoHdr (?P (?P (?P (?P (?P s)))))) =
        items (ssPhcToTss_PseudoHdr (?P (?P (?P (?P s))))) @ [phc_chunk4]"
      using phc_next(6) [OF c4 t4(1,2)] by simp
    with h4 True show ?thesis by (simp add: phc_chunks_def eval_nat_numeral)
  next
    case False
    with h4 show ?thesis by (simp add: phc_chunks_def eval_nat_numeral)
  qed
qed

lemma ihc_next:
  "ihc_chunkCounter s = 0 \<Longrightarrow> items (ssMdlToIhc_TcpDatLen s) = len # lens \<Longrightarrow>
    ihc_chunkCounter (pIpHeaderConstructor junk s) = 1 \<and>
    ssSpsToIhc_IpAddrPair (pIpHeaderConstructor junk s) = ssSpsToIhc_IpAddrPair s \<and>
    items (ssIhcToIps_IpHeader (pIpHeaderConstructor junk s)) = items (ssIhcToIps_IpHeader s) @ [ihc_chunk0 len junk]"
  "ihc_chunkCounter s = 1 \<Longrightarrow> items (ssSpsToIhc_IpAddrPair s) = p # ps \<Longrightarrow>
    ihc_chunkCounter (pIpHeaderConstructor junk s) = 2 \<and> ihc_ipAddrPair (pIpHeaderConstructor junk s) = p \<and>
    items (ssIhcToIps_IpHeader (pIpHeaderConstructor junk s)) =
      items (ssIhcToIps_IpHeader s) @ [ihc_chunk1 (ip_src p) junk]"
  "ihc_chunkCounter s = 2 \<Longrightarrow> ihc_chunkCounter (pIpHeaderConstructor junk s) = 0 \<and>
    items (ssIhcToIps_IpHeader (pIpHeaderConstructor junk s)) =
      items (ssIhcToIps_IpHeader s) @ [ihc_chunk2 (ip_dst (ihc_ipAddrPair s)) junk]"
  by (simp_all add: pIpHeaderConstructor_def sread_cons ihc_put_def)

lemma ihc_run:
  assumes "ihc_chunkCounter s = 0" "items (ssMdlToIhc_TcpDatLen s) = [len]"
    and "items (ssSpsToIhc_IpAddrPair s) = [p]"
  shows "items (ssIhcToIps_IpHeader ((pIpHeaderConstructor junk ^^ 3) s)) = items (ssIhcToIps_IpHeader s) @
    [ihc_chunk0 len junk, ihc_chunk1 (ip_src p) junk, ihc_chunk2 (ip_dst p) junk]"
proof -
  let ?P = "pIpHeaderConstructor junk"
  note t1 = ihc_next(1) [OF assms(1,2), of junk]
  have "ihc_chunkCounter (?P s) = 1" "items (ssSpsToIhc_IpAddrPair (?P s)) = [p]" using t1 assms(3) by simp_all
  note t2 = ihc_next(2) [OF this, of junk]
  then have "ihc_chunkCounter (?P (?P s)) = 2" by simp
  note t3 = ihc_next(3) [OF this, of junk]
  show ?thesis using t1 t2 t3 by (simp add: eval_nat_numeral)
qed

section \<open>Runs of the segment stitcher\<close>

lemma getTcpCtrlSyn_chunk3: "getTcpCtrlSyn (phc_chunk3 m) = txm_syn m"
proof -
  have "getTcpCtrlSyn c = bit (byte_of c 1) 1" for c
    by (simp add: getTcpCtrlSyn_def byte_of_def bit_nth_byte)
  moreover have "byte_of (phc_chunk3 m) 1 = tcp_flags m"
    using phc_bytes(4) [of m] by (simp add: chunk_bytes_8 getLen_keep)
  moreover have "bit (tcp_flags m) 1 = txm_syn m"
    by (cases "txm_ack m"; cases "txm_rst m"; cases "txm_syn m"; cases "txm_fin m"; simp add: tcp_flags_def)
  ultimately show ?thesis by simp
qed

lemma tss_hdr_step:
  assumes "tss_fsmState s = TSS_PSD_HDR" "items (ssPhcToTss_PseudoHdr s) = c # cs" "\<not> sfull (ssTssToSca_PseudoPkt s)"
  shows "items (ssPhcToTss_PseudoHdr (pTcpSegStitcher s)) = cs"
    "ssTssToSca_PseudoPkt (pTcpSegStitcher s) = swrite (ssTssToSca_PseudoPkt s) c"
    "txe_siMEM_TxP_Data (pTcpSegStitcher s) = txe_siMEM_TxP_Data s"
    "ssMrdToTss_SplitMemAcc (pTcpSegStitcher s) = ssMrdToTss_SplitMemAcc s"
    "tss_psdHdrChunkCount s \<noteq> 3 \<Longrightarrow> \<not> ax_tlast c \<Longrightarrow> tss_fsmState (pTcpSegStitcher s) = TSS_PSD_HDR \<and>
      tss_psdHdrChunkCount (pTcpSegStitcher s) = tss_psdHdrChunkCount s + 1"
    "tss_psdHdrChunkCount s = 3 \<Longrightarrow> tss_psdHdrChunkCount (pTcpSegStitcher s) = 0 \<and>
      tss_fsmState (pTcpSegStitcher s) = (if ax_tlast c then TSS_PSD_HDR
        else if getTcpCtrlSyn c then TSS_PSD_OPT else TSS_DATA)"
  using assms(1,3) by (auto simp: pTcpSegStitcher_def tss_psd_hdr_def sread_cons [OF assms(2)] Let_def)

lemma tss_opt_step:
  assumes "tss_fsmState s = TSS_PSD_OPT" "items (ssPhcToTss_PseudoHdr s) = c # cs" "\<not> sfull (ssTssToSca_PseudoPkt s)"
  shows "items (ssPhcToTss_PseudoHdr (pTcpSegStitcher s)) = cs \<and>
    ssTssToSca_PseudoPkt (pTcpSegStitcher s) = swrite (ssTssToSca_PseudoPkt s) c \<and>
    txe_siMEM_TxP_Data (pTcpSegStitcher s) = txe_siMEM_TxP_Data s \<and>
    ssMrdToTss_SplitMemAcc (pTcpSegStitcher s) = ssMrdToTss_SplitMemAcc s \<and>
    tss_fsmState (pTcpSegStitcher s) = TSS_PSD_HDR \<and>
    tss_psdHdrChunkCount (pTcpSegStitcher s) = tss_psdHdrChunkCount s"
  using assms(1,3) by (auto simp: pTcpSegStitcher_def tss_psd_opt_def sread_cons [OF assms(2)] Let_def)

lemma tss_headers:
  assumes "tss_fsmState s = TSS_PSD_HDR" "tss_psdHdrChunkCount s = 0"
    and "items (ssPhcToTss_PseudoHdr s) = phc_chunks p m @ rest"
    and "length (items (ssTssToSca_PseudoPkt s)) + 5 \<le> depth (ssTssToSca_PseudoPkt s)"
  defines "t \<equiv> (pTcpSegStitcher ^^ length (phc_chunks p m)) s"
  shows "ssTssToSca_PseudoPkt t = Stream (depth (ssTssToSca_PseudoPkt s))
      (items (ssTssToSca_PseudoPkt s) @ phc_chunks p m)"
    "txe_siMEM_TxP_Data t = txe_siMEM_TxP_Data s" "ssMrdToTss_SplitMemAcc t = ssMrdToTss_SplitMemAcc s"
    "tss_fsmState t = (if txm_length m = 0 \<or> txm_syn m then TSS_PSD_HDR else TSS_DATA)"
proof -
  let ?P = pTcpSegStitcher
  have room: "\<not> sfull q" if "length (items q) < depth q" for q :: "AxisPsd4 stream"
    using that by (simp add: sfull_def)
  have i0: "items (ssPhcToTss_PseudoHdr s) = phc_chunk0 p # phc_chunk1 (txm_length m) p # phc_chunk2 m #
      phc_chunk3 m # (if txm_syn m then [phc_chunk4] else []) @ rest"
    using assms(3) by (simp add: phc_chunks_def)
  have r0: "\<not> sfull (ssTssToSca_PseudoPkt s)" using assms(4) by (intro room) simp
  note t1 = tss_hdr_step [OF assms(1) i0 r0]
  have s1: "tss_fsmState (?P s) = TSS_PSD_HDR" "tss_psdHdrChunkCount (?P s) = 1" using t1(5) assms(2) by simp_all
  have r1: "\<not> sfull (ssTssToSca_PseudoPkt (?P s))" using assms(4) t1(2) by (intro room) simp
  note t2 = tss_hdr_step [OF s1(1) t1(1) r1]
  have s2: "tss_fsmState (?P (?P s)) = TSS_PSD_HDR" "tss_psdHdrChunkCount (?P (?P s)) = 2"
    using t2(5) s1(2) by simp_all
  have r2: "\<not> sfull (ssTssToSca_PseudoPkt (?P (?P s)))" using assms(4) t1(2) t2(2) by (intro room) simp
  note t3 = tss_hdr_step [OF s2(1) t2(1) r2]
  have s3: "tss_fsmState (?P (?P (?P s))) = TSS_PSD_HDR" "tss_psdHdrChunkCount (?P (?P (?P s))) = 3"
    using t3(5) s2(2) by simp_all
  have r3: "\<not> sfull (ssTssToSca_PseudoPkt (?P (?P (?P s))))"
    using assms(4) t1(2) t2(2) t3(2) by (intro room) simp
  note t4 = tss_hdr_step [OF s3(1) t3(1) r3]
  let ?u = "?P (?P (?P (?P s)))"
  have u: "ssTssToSca_PseudoPkt ?u = Stream (depth (ssTssToSca_PseudoPkt s)) (items (ssTssToSca_PseudoPkt s) @
        [phc_chunk0 p, phc_chunk1 (txm_length m) p, phc_chunk2 m, phc_chunk3 m])"
    "txe_siMEM_TxP_Data ?u = txe_siMEM_TxP_Data s" "ssMrdToTss_SplitMemAcc ?u = ssMrdToTss_SplitMemAcc s"
    using t1(2-4) t2(2-4) t3(2-4) t4(2-4) by (simp_all add: swrite_def)
  have "ssTssToSca_PseudoPkt t = Stream (depth (ssTssToSca_PseudoPkt s))
        (items (ssTssToSca_PseudoPkt s) @ phc_chunks p m) \<and>
      txe_siMEM_TxP_Data t = txe_siMEM_TxP_Data s \<and> ssMrdToTss_SplitMemAcc t = ssMrdToTss_SplitMemAcc s \<and>
      tss_fsmState t = (if txm_length m = 0 \<or> txm_syn m then TSS_PSD_HDR else TSS_DATA)"
  proof (cases "txm_syn m")
    case True
    have s4: "tss_fsmState ?u = TSS_PSD_OPT" using t4(6) s3(2) True by (simp add: getTcpCtrlSyn_chunk3)
    have i4: "items (ssPhcToTss_PseudoHdr ?u) = phc_chunk4 # rest" using t4(1) True by simp
    have "\<not> sfull (ssTssToSca_PseudoPkt ?u)" unfolding u(1) using assms(4) by (intro room) simp
    note t5 = tss_opt_step [OF s4 i4 this]
    have "t = ?P ?u" using True by (simp add: t_def phc_chunks_def eval_nat_numeral)
    then show ?thesis
      using t5 u True by (simp add: phc_chunks_def swrite_def)
  next
    case False
    have "t = ?u" using False by (simp add: t_def phc_chunks_def eval_nat_numeral)
    then show ?thesis
      using u t4(6) s3(2) False by (simp add: phc_chunks_def getTcpCtrlSyn_chunk3)
  qed
  then show "ssTssToSca_PseudoPkt t = Stream (depth (ssTssToSca_PseudoPkt s))
      (items (ssTssToSca_PseudoPkt s) @ phc_chunks p m)"
    "txe_siMEM_TxP_Data t = txe_siMEM_TxP_Data s" "ssMrdToTss_SplitMemAcc t = ssMrdToTss_SplitMemAcc s"
    "tss_fsmState t = (if txm_length m = 0 \<or> txm_syn m then TSS_PSD_HDR else TSS_DATA)"
    by simp_all
qed

text \<open>The payload \<open>bs\<close> of a segment waits on the port of the memory: in one access, or in two, of which
  the first is not just one full chunk.\<close>

definition payload_ready :: "'a TXe_scheme \<Rightarrow> TXeMeta \<Rightarrow> 8 word list \<Rightarrow> bool" where
  "payload_ready s m bs \<longleftrightarrow>
     (if txm_length m = 0 \<or> txm_syn m then bs = []
      else \<exists>fs cs ds rest. items (txe_siMEM_TxP_Data s) = cs @ ds @ rest \<and> payload_ok cs \<and>
        bs = bytes_of cs @ bytes_of ds \<and>
        (items (ssMrdToTss_SplitMemAcc s) = False # fs \<and> ds = [] \<or>
         items (ssMrdToTss_SplitMemAcc s) = True # fs \<and> payload_ok ds \<and> (length cs = 1 \<longrightarrow> getLen (hd cs) \<noteq> 8)))"

lemma payload_ok_header:
  "txm_length m = 0 \<or> txm_syn m \<Longrightarrow> payload_ok (phc_chunks p m)"
  "\<not> (txm_length m = 0 \<or> txm_syn m) \<Longrightarrow> payload_ok ws \<Longrightarrow> payload_ok (phc_chunks p m @ ws)"
  using payload_ok_nonempty [of ws]
  by (auto simp: phc_chunks_def payload_ok_Cons payload_ok_single chunk_ok_def getLen_keep)

lemma tss_segment:
  assumes "tss_fsmState s = TSS_PSD_HDR" "tss_psdHdrChunkCount s = 0"
    and "items (ssPhcToTss_PseudoHdr s) = phc_chunks p m @ hdrs" "payload_ready s m bs"
    and "items (ssTssToSca_PseudoPkt s) = []"
    and "5 + length (items (txe_siMEM_TxP_Data s)) \<le> depth (ssTssToSca_PseudoPkt s)"
  obtains j body where "items (ssTssToSca_PseudoPkt ((pTcpSegStitcher ^^ j) s)) = phc_chunks p m @ body"
    "bytes_of body = bs" "payload_ok (phc_chunks p m @ body)"
proof -
  let ?n = "length (phc_chunks p m)"
  let ?t = "(pTcpSegStitcher ^^ ?n) s"
  have t: "ssTssToSca_PseudoPkt ?t = Stream (depth (ssTssToSca_PseudoPkt s)) (phc_chunks p m)"
    "txe_siMEM_TxP_Data ?t = txe_siMEM_TxP_Data s" "ssMrdToTss_SplitMemAcc ?t = ssMrdToTss_SplitMemAcc s"
    "tss_fsmState ?t = (if txm_length m = 0 \<or> txm_syn m then TSS_PSD_HDR else TSS_DATA)"
    using tss_headers [OF assms(1-3)] assms(5,6) by simp_all
  show thesis
  proof (cases "txm_length m = 0 \<or> txm_syn m")
    case True
    then show thesis
      using that [of ?n "[]"] t(1) payload_ok_header(1) [OF True] assms(4) by (simp add: payload_ready_def)
  next
    case False
    then have start: "tss_fsmState ?t = TSS_DATA" and len: "length (phc_chunks p m) = 4"
      using t(4) by (simp_all add: phc_chunks_def)
    from False assms(4) obtain fs cs ds rest where d: "items (txe_siMEM_TxP_Data ?t) = cs @ ds @ rest"
      "payload_ok cs" "bs = bytes_of cs @ bytes_of ds"
      "items (ssMrdToTss_SplitMemAcc ?t) = False # fs \<and> ds = [] \<or>
       items (ssMrdToTss_SplitMemAcc ?t) = True # fs \<and> payload_ok ds \<and> (length cs = 1 \<longrightarrow> getLen (hd cs) \<noteq> 8)"
      unfolding payload_ready_def t(2,3) by auto
    have room: "length (items (ssTssToSca_PseudoPkt ?t)) + length cs + length ds \<le> depth (ssTssToSca_PseudoPkt ?t)"
      using assms(6) d(1) len unfolding t(1,2) by simp
    have "\<exists>j ws. tss.finishes ?t j rest fs ws \<and> payload_ok ws \<and> bytes_of ws = bs"
      using d(4)
    proof (elim disjE conjE)
      assume one: "items (ssMrdToTss_SplitMemAcc ?t) = False # fs" "ds = []"
      then have "tss.finishes ?t (length cs) rest fs cs"
        using room d(1) by (intro tss.one_access [OF start one(1) _ d(2)]) simp_all
      with d(2,3) one(2) show ?thesis by auto
    next
      assume two: "items (ssMrdToTss_SplitMemAcc ?t) = True # fs" "payload_ok ds"
        "length cs = 1 \<longrightarrow> getLen (hd cs) \<noteq> 8"
      from tss.two_accesses [OF start two(1) d(1,2) two(2) _ room] two(3) d(3) show ?thesis by auto
    qed
    then obtain j ws where ws: "tss.finishes ?t j rest fs ws" "payload_ok ws" "bytes_of ws = bs" by blast
    have "(pTcpSegStitcher ^^ j) ?t = (pTcpSegStitcher ^^ (j + ?n)) s" by (simp add: funpow_add)
    with ws(1) have "items (ssTssToSca_PseudoPkt ((pTcpSegStitcher ^^ (j + ?n)) s)) = phc_chunks p m @ ws"
      by (simp add: tss.finishes_def t(1) Let_def)
    then show thesis using that ws(2,3) payload_ok_header(2) [OF False ws(2)] by blast
  qed
qed

section \<open>Runs of the packet stitcher\<close>

text \<open>After the headers the payload passes.\<close>

interpretation ips: segment_filter pIpPktStitcher "\<lambda>s. items (ssScaToIps_PseudoPkt s)"
    "\<lambda>s. items (txe_soIPTX_Data s)" "\<lambda>s. depth (txe_soIPTX_Data s)" ax_tlast
    "\<lambda>s. (ssIhcToIps_IpHeader s, ssTcaToIps_TcpCsum s)" "\<lambda>s. ips_chunkCount s = 0" "\<lambda>s. ips_chunkCount s = 5"
    "\<lambda>s. False"
  by unfold_locales (simp_all add: pIpPktStitcher_def sread_cons ips_put_def sfull_def Let_def)

lemma ips_next:
  assumes "\<not> sfull (txe_soIPTX_Data s)"
  shows "ips_chunkCount s = 0 \<or> ips_chunkCount s = 1 \<Longrightarrow> items (ssIhcToIps_IpHeader s) = i # is \<Longrightarrow>
      ips_chunkCount (pIpPktStitcher s) = ips_chunkCount s + 1 \<and> items (ssIhcToIps_IpHeader (pIpPktStitcher s)) = is \<and>
      ssScaToIps_PseudoPkt (pIpPktStitcher s) = ssScaToIps_PseudoPkt s \<and>
      ssTcaToIps_TcpCsum (pIpPktStitcher s) = ssTcaToIps_TcpCsum s \<and>
      txe_soIPTX_Data (pIpPktStitcher s) = swrite (txe_soIPTX_Data s) i"
    "ips_chunkCount s = 2 \<Longrightarrow> items (ssIhcToIps_IpHeader s) = i # is \<Longrightarrow>
      items (ssScaToIps_PseudoPkt s) = c # cs \<Longrightarrow>
      ips_chunkCount (pIpPktStitcher s) = 3 \<and> items (ssScaToIps_PseudoPkt (pIpPktStitcher s)) = cs \<and>
      ssTcaToIps_TcpCsum (pIpPktStitcher s) = ssTcaToIps_TcpCsum s \<and>
      txe_soIPTX_Data (pIpPktStitcher s) = swrite (txe_soIPTX_Data s) (ips_chunk2 i c)"
    "ips_chunkCount s = 3 \<Longrightarrow> items (ssScaToIps_PseudoPkt s) = c # cs \<Longrightarrow>
      ips_chunkCount (pIpPktStitcher s) = 4 \<and> items (ssScaToIps_PseudoPkt (pIpPktStitcher s)) = cs \<and>
      ssTcaToIps_TcpCsum (pIpPktStitcher s) = ssTcaToIps_TcpCsum s \<and>
      txe_soIPTX_Data (pIpPktStitcher s) = swrite (txe_soIPTX_Data s) (ips_chunk3 c)"
    "ips_chunkCount s = 4 \<Longrightarrow> items (ssScaToIps_PseudoPkt s) = c # cs \<Longrightarrow>
      items (ssTcaToIps_TcpCsum s) = x # xs \<Longrightarrow>
      ips_chunkCount (pIpPktStitcher s) = (if ax_tlast c then 0 else 5) \<and>
      items (ssScaToIps_PseudoPkt (pIpPktStitcher s)) = cs \<and>
      txe_soIPTX_Data (pIpPktStitcher s) = swrite (txe_soIPTX_Data s) (setTcpChecksum x c)"
proof -
  note defs = pIpPktStitcher_def ips_put_def Let_def
  show "ips_chunkCount s = 0 \<or> ips_chunkCount s = 1 \<Longrightarrow> items (ssIhcToIps_IpHeader s) = i # is \<Longrightarrow>
      ips_chunkCount (pIpPktStitcher s) = ips_chunkCount s + 1 \<and> items (ssIhcToIps_IpHeader (pIpPktStitcher s)) = is \<and>
      ssScaToIps_PseudoPkt (pIpPktStitcher s) = ssScaToIps_PseudoPkt s \<and>
      ssTcaToIps_TcpCsum (pIpPktStitcher s) = ssTcaToIps_TcpCsum s \<and>
      txe_soIPTX_Data (pIpPktStitcher s) = swrite (txe_soIPTX_Data s) i"
    using assms by (auto simp: defs sread_cons)
  show "ips_chunkCount s = 3 \<Longrightarrow> items (ssScaToIps_PseudoPkt s) = c # cs \<Longrightarrow>
      ips_chunkCount (pIpPktStitcher s) = 4 \<and> items (ssScaToIps_PseudoPkt (pIpPktStitcher s)) = cs \<and>
      ssTcaToIps_TcpCsum (pIpPktStitcher s) = ssTcaToIps_TcpCsum s \<and>
      txe_soIPTX_Data (pIpPktStitcher s) = swrite (txe_soIPTX_Data s) (ips_chunk3 c)"
    using assms by (simp add: defs sread_cons)
  assume c: "items (ssScaToIps_PseudoPkt s) = c # cs"
  note sp = sread_cons [OF c]
  show "ips_chunkCount s = 2 \<Longrightarrow> items (ssIhcToIps_IpHeader s) = i # is \<Longrightarrow>
      ips_chunkCount (pIpPktStitcher s) = 3 \<and> items (ssScaToIps_PseudoPkt (pIpPktStitcher s)) = cs \<and>
      ssTcaToIps_TcpCsum (pIpPktStitcher s) = ssTcaToIps_TcpCsum s \<and>
      txe_soIPTX_Data (pIpPktStitcher s) = swrite (txe_soIPTX_Data s) (ips_chunk2 i c)"
    using assms by (simp add: defs sp sread_cons)
  show "ips_chunkCount s = 4 \<Longrightarrow> items (ssTcaToIps_TcpCsum s) = x # xs \<Longrightarrow>
      ips_chunkCount (pIpPktStitcher s) = (if ax_tlast c then 0 else 5) \<and>
      items (ssScaToIps_PseudoPkt (pIpPktStitcher s)) = cs \<and>
      txe_soIPTX_Data (pIpPktStitcher s) = swrite (txe_soIPTX_Data s) (setTcpChecksum x c)"
    using assms by (simp add: defs sp sread_cons)
qed

lemma ips_run:
  assumes "ips_chunkCount s = 0" "items (ssIhcToIps_IpHeader s) = [i0, i1, i2]"
    and "items (ssScaToIps_PseudoPkt s) = c1 # c2 # c3 # cs" "items (ssTcaToIps_TcpCsum s) = x # xs"
    and "if ax_tlast c3 then cs = [] else is_segment ax_tlast cs"
    and "length (items (txe_soIPTX_Data s)) + 5 + length cs \<le> depth (txe_soIPTX_Data s)"
  shows "\<exists>j. items (txe_soIPTX_Data ((pIpPktStitcher ^^ j) s)) =
    items (txe_soIPTX_Data s) @ [i0, i1, ips_chunk2 i2 c1, ips_chunk3 c2, setTcpChecksum x c3] @ cs"
proof -
  let ?P = pIpPktStitcher
  have room: "\<not> sfull q" if "length (items q) < depth q" for q :: "AxisIp4 stream"
    using that by (simp add: sfull_def)
  have r0: "\<not> sfull (txe_soIPTX_Data s)" using assms(6) by (intro room) simp
  note t1 = ips_next(1) [OF r0 disjI1 [OF assms(1)] assms(2)]
  then have c1: "ips_chunkCount (?P s) = 1" "items (ssIhcToIps_IpHeader (?P s)) = [i1, i2]" using assms(1) by simp_all
  have r1: "\<not> sfull (txe_soIPTX_Data (?P s))" using assms(6) t1 by (intro room) simp
  note t2 = ips_next(1) [OF r1 disjI2 [OF c1(1)] c1(2)]
  then have c2: "ips_chunkCount (?P (?P s)) = 2" "items (ssIhcToIps_IpHeader (?P (?P s))) = [i2]"
    "items (ssScaToIps_PseudoPkt (?P (?P s))) = c1 # c2 # c3 # cs" using t1 c1 assms(3) by simp_all
  have r2: "\<not> sfull (txe_soIPTX_Data (?P (?P s)))" using assms(6) t1 t2 by (intro room) simp
  note t3 = ips_next(2) [OF r2 c2]
  have r3: "\<not> sfull (txe_soIPTX_Data (?P (?P (?P s))))" using assms(6) t1 t2 t3 by (intro room) simp
  note t4 = ips_next(3) [OF r3 conjunct1 [OF t3], of c2 "c3 # cs"]
  have c4: "ips_chunkCount (?P (?P (?P (?P s)))) = 4" "items (ssScaToIps_PseudoPkt (?P (?P (?P (?P s))))) = c3 # cs"
    "items (ssTcaToIps_TcpCsum (?P (?P (?P (?P s))))) = x # xs" using t1 t2 t3 t4 assms(4) by simp_all
  have r4: "\<not> sfull (txe_soIPTX_Data (?P (?P (?P (?P s)))))"
    using assms(6) t1 t2 t3 t4 by (intro room) simp
  note t5 = ips_next(4) [OF r4 c4]
  let ?t = "?P (?P (?P (?P (?P s))))"
  have t: "txe_soIPTX_Data ?t = Stream (depth (txe_soIPTX_Data s)) (items (txe_soIPTX_Data s) @
      [i0, i1, ips_chunk2 i2 c1, ips_chunk3 c2, setTcpChecksum x c3])"
    using t1 t2 t3 t4 t5 by (simp add: swrite_def)
  have five: "(?P ^^ 5) s = ?t" by (simp add: eval_nat_numeral)
  show ?thesis
  proof (cases "ax_tlast c3")
    case True
    then show ?thesis using assms(5) five t by (intro exI [of _ 5]) simp
  next
    case False
    then have "ips_chunkCount ?t = 5" "items (ssScaToIps_PseudoPkt ?t) = cs @ []" "is_segment ax_tlast cs"
      using t5 assms(5) by simp_all
    then have "items (txe_soIPTX_Data ((?P ^^ length cs) ?t)) = items (txe_soIPTX_Data ?t) @ cs"
      by (rule ips.passes_segment [THEN conjunct2, THEN conjunct1]) (use assms(6) in \<open>simp add: t\<close>)
    moreover have "(?P ^^ length cs) ?t = (?P ^^ (length cs + 5)) s" by (simp add: funpow_add five)
    ultimately show ?thesis using t by (intro exI [of _ "length cs + 5"]) simp
  qed
qed

section \<open>The packet\<close>

definition txe_segment :: "SocketPair \<Rightarrow> TXeMeta \<Rightarrow> 16 word \<Rightarrow> 8 word list \<Rightarrow> 8 word list" where
  "txe_segment p m csum bs = tcp_header p m csum @ tcp_options m @ bs"

definition txe_checksum_of :: "SocketPair \<Rightarrow> TXeMeta \<Rightarrow> 8 word list \<Rightarrow> 16 word" where
  "txe_checksum_of p m bs = inet_checksum (pseudo_header p (txm_length m) @ txe_segment p m 0 bs)"

definition txe_packet :: "SocketPair \<Rightarrow> TXeMeta \<Rightarrow> 8 word list \<Rightarrow> 8 word list" where
  "txe_packet p m bs = ip_header (40 + txm_length m) (sa_addr (sp_src p)) (sa_addr (sp_dst p)) @
     txe_segment p m (txe_checksum_of p m bs) bs"

text \<open>The metadata, the socket pair and the payload of one segment have arrived, and no other packet is
  under way.\<close>

definition txe_ready :: "'a TXe_scheme \<Rightarrow> SocketPair \<Rightarrow> TXeMeta \<Rightarrow> 8 word list \<Rightarrow> bool" where
  "txe_ready s p m bs \<longleftrightarrow>
     phc_chunkCount s = 0 \<and> items (ssSpsToPhc_SockPair s) = [p] \<and> items (ssMdlToPhc_TxeMeta s) = [m] \<and>
     items (ssPhcToTss_PseudoHdr s) = [] \<and>
     ihc_chunkCounter s = 0 \<and> items (ssMdlToIhc_TcpDatLen s) = [txm_length m] \<and>
     items (ssSpsToIhc_IpAddrPair s) = [\<lparr>ip_src = sa_addr (sp_src p), ip_dst = sa_addr (sp_dst p)\<rparr>] \<and>
     items (ssIhcToIps_IpHeader s) = [] \<and>
     tss_fsmState s = TSS_PSD_HDR \<and> tss_psdHdrChunkCount s = 0 \<and> payload_ready s m bs \<and>
     items (ssTssToSca_PseudoPkt s) = [] \<and>
     5 + length (items (txe_siMEM_TxP_Data s)) \<le> depth (ssTssToSca_PseudoPkt s) \<and>
     \<not> sca_doForwardChunk s \<and> sca_4CSums s = SubCSums_zero \<and> items (ssScaToTca_FourSubCsums s) = [] \<and>
     items (ssScaToIps_PseudoPkt s) = [] \<and> items (ssTcaToIps_TcpCsum s) = [] \<and> ips_chunkCount s = 0"

text \<open>Each process runs until it has nothing left to do, in the order of the stages.\<close>

definition txe_stages :: "AxisIp4 \<Rightarrow> nat \<Rightarrow> nat \<Rightarrow> nat \<Rightarrow> nat \<Rightarrow> 'a TXe_scheme \<Rightarrow> 'a TXe_scheme" where
  "txe_stages junk a b c d s =
     (pIpPktStitcher ^^ d) ((pIpHeaderConstructor junk ^^ 3) (pTcpChecksumAccumulator
       ((pSubChecksumAccumulators ^^ c) ((pTcpSegStitcher ^^ b) ((pPseudoHeaderConstructor ^^ a) s)))))"

lemma payload_ready_part: "tss_part t = tss_part s \<Longrightarrow> payload_ready t m bs = payload_ready s m bs"
  by (simp add: payload_ready_def tss_part_def)

lemma bytes_phc_chunks:
  "bytes_of (phc_chunks p m @ body) =
     pseudo_header p (txm_length m) @ txe_segment p m 0 (bytes_of body)"
  by (simp add: phc_chunks_def phc_bytes pseudo_header_def txe_segment_def tcp_header_def tcp_options_def)

lemma setTcpChecksum_chunk3:
  "chunk_bytes (setTcpChecksum x (phc_chunk3 m)) =
     [if txm_syn m then 0x60 else 0x50, tcp_flags m] @ be16 (txm_winSize m) @ be16 x @ [0, 0]"
  "ax_tkeep (setTcpChecksum x c) = ax_tkeep c" "ax_tlast (setTcpChecksum x c) = ax_tlast c"
proof -
  show "ax_tkeep (setTcpChecksum x c) = ax_tkeep c" "ax_tlast (setTcpChecksum x c) = ax_tlast c"
    by (simp_all add: setTcpChecksum_def)
  have "ax_tkeep (setTcpChecksum x (phc_chunk3 m)) = 0xFF" by (simp add: setTcpChecksum_def)
  then show "chunk_bytes (setTcpChecksum x (phc_chunk3 m)) =
      [if txm_syn m then 0x60 else 0x50, tcp_flags m] @ be16 (txm_winSize m) @ be16 x @ [0, 0]"
    using phc_bytes(4) [of m]
    by (simp add: chunk_bytes_8 getLen_keep) (simp add: setTcpChecksum_def byte_of_sets be16_def)
qed

text \<open>The packet that the stitcher makes of the header chunks, the body and a checksum.\<close>

lemma ips_packet_bytes:
  fixes body p m x junk
  assumes "payload_ok (phc_chunks p m @ body)"
  defines "ip \<equiv> ihc_chunk2 (sa_addr (sp_dst p)) junk" and "cs \<equiv> drop 4 (phc_chunks p m) @ body"
  defines "ws \<equiv> [ihc_chunk0 (txm_length m) junk, ihc_chunk1 (sa_addr (sp_src p)) junk,
    ips_chunk2 ip (phc_chunk1 (txm_length m) p), ips_chunk3 (phc_chunk2 m), setTcpChecksum x (phc_chunk3 m)] @ cs"
  shows "bytes_of ws = ip_header (40 + txm_length m) (sa_addr (sp_src p)) (sa_addr (sp_dst p)) @
      txe_segment p m x (bytes_of body)"
    "payload_ok ws" "if ax_tlast (phc_chunk3 m) then cs = [] else is_segment ax_tlast cs"
proof -
  have ip: "map (byte_of ip) [0, 1, 2, 3] = be32 (sa_addr (sp_dst p))"
    by (simp add: ip_def ihc_chunk2_def setIp4DstAddr_def byte_of_sets be32_def eval_nat_numeral)
  have tcp: "map (byte_of (phc_chunk1 (txm_length m) p)) [4, 5, 6, 7] =
      be16 (sa_port (sp_src p)) @ be16 (sa_port (sp_dst p))"
    using phc_bytes(2) [of "txm_length m" p] by (simp add: chunk_bytes_8 getLen_keep be16_def)
  have seq: "map (byte_of (phc_chunk2 m)) [0, 1, 2, 3, 4, 5, 6, 7] = be32 (txm_seqNumb m) @ be32 (txm_ackNumb m)"
    using phc_bytes(3) [of m] by (simp add: chunk_bytes_8 getLen_keep)
  have cs: "bytes_of cs = tcp_options m @ bytes_of body"
    by (simp add: cs_def phc_chunks_def tcp_options_def phc_bytes)
  show "bytes_of ws = ip_header (40 + txm_length m) (sa_addr (sp_src p)) (sa_addr (sp_dst p)) @
      txe_segment p m x (bytes_of body)"
    unfolding ws_def bytes_of_simps ihc_bytes ips_bytes ip tcp seq setTcpChecksum_chunk3 cs
    by (simp add: ip_header_def txe_segment_def tcp_header_def)
  have body: "if cs = [] then ax_tlast (phc_chunk3 m) else \<not> ax_tlast (phc_chunk3 m) \<and> payload_ok cs"
    using assms(1) by (auto simp: cs_def phc_chunks_def payload_ok_Cons payload_ok_single)
  then show "if ax_tlast (phc_chunk3 m) then cs = [] else is_segment ax_tlast cs"
    by (auto simp: payload_ok_def split: if_splits)
  show "payload_ok ws"
    using body
    by (auto simp: ws_def payload_ok_Cons payload_ok_single chunk_ok_def getLen_keep setTcpChecksum_chunk3
        split: if_splits)
qed

lemma length_body:
  assumes "payload_ok (xs @ body)"
  shows "length body \<le> length (bytes_of body)"
proof -
  have "\<forall>c \<in> set body. 1 \<le> getLen c" using assms chunk_ok_keep by (auto simp: payload_ok_def)
  then show ?thesis by (induction body) auto
qed

lemma txe_packet_sent:
  assumes "txe_ready s p m bs"
    and "length (items (txe_soIPTX_Data s)) + 6 + length bs \<le> depth (txe_soIPTX_Data s)"
  shows "\<exists>a b c d ws. items (txe_soIPTX_Data (txe_stages junk a b c d s)) = items (txe_soIPTX_Data s) @ ws \<and>
    payload_ok ws \<and> bytes_of ws = txe_packet p m bs"
proof -
  let ?a = "length (phc_chunks p m)"
  let ?s1 = "(pPseudoHeaderConstructor ^^ ?a) s"
  have r: "items (ssPhcToTss_PseudoHdr s) = []" "tss_fsmState s = TSS_PSD_HDR" "tss_psdHdrChunkCount s = 0"
    "payload_ready s m bs" "items (ssTssToSca_PseudoPkt s) = []"
    "5 + length (items (txe_siMEM_TxP_Data s)) \<le> depth (ssTssToSca_PseudoPkt s)"
    "\<not> sca_doForwardChunk s" "sca_4CSums s = SubCSums_zero" "items (ssScaToTca_FourSubCsums s) = []"
    "items (ssScaToIps_PseudoPkt s) = []" "items (ssTcaToIps_TcpCsum s) = []" "ips_chunkCount s = 0"
    using assms(1) by (simp_all add: txe_ready_def)
  have hdr: "items (ssPhcToTss_PseudoHdr ?s1) = phc_chunks p m @ []"
    using phc_run [of s p m] assms(1) r(1) by (simp add: txe_ready_def)
  have k1: "ihc_part ?s1 = ihc_part s" "tss_part ?s1 = tss_part s" "sca_part ?s1 = sca_part s" "ips_part ?s1 = ips_part s"
    by (rule funpow_keeps, rule phc_keeps)+
  have tss: "tss_fsmState ?s1 = TSS_PSD_HDR" "tss_psdHdrChunkCount ?s1 = 0" "payload_ready ?s1 m bs"
    "items (ssTssToSca_PseudoPkt ?s1) = []"
    "5 + length (items (txe_siMEM_TxP_Data ?s1)) \<le> depth (ssTssToSca_PseudoPkt ?s1)"
    using payload_ready_part [OF k1(2)] k1(2) r(2-6) by (simp_all add: tss_part_def)
  obtain b body where b: "items (ssTssToSca_PseudoPkt ((pTcpSegStitcher ^^ b) ?s1)) = phc_chunks p m @ body"
    "bytes_of body = bs" "payload_ok (phc_chunks p m @ body)"
    using tss_segment [OF tss(1,2) hdr tss(3-5)] .
  let ?s2 = "(pTcpSegStitcher ^^ b) ?s1"
  have k2: "ihc_part ?s2 = ihc_part ?s1" "sca_part ?s2 = sca_part ?s1" "ips_part ?s2 = ips_part ?s1"
    by (rule funpow_keeps, rule tss_keeps)+
  have sca: "\<not> sca_doForwardChunk ?s2" "sca_4CSums ?s2 = SubCSums_zero" "items (ssScaToTca_FourSubCsums ?s2) = []"
    "items (ssScaToIps_PseudoPkt ?s2) = []" "items (ssTcaToIps_TcpCsum ?s2) = []"
    using k1(3) k2(2) r(7-11) by (simp_all add: sca_part_def)
  let ?c = "length (phc_chunks p m @ body)"
  let ?s3 = "pTcpChecksumAccumulator ((pSubChecksumAccumulators ^^ ?c) ?s2)"
  have csum: "items (ssTcaToIps_TcpCsum ?s3) = [txe_checksum_of p m bs]"
    "items (ssScaToIps_PseudoPkt ?s3) = tl (phc_chunks p m @ body)"
    using txe_checksum [of ?s2 "phc_chunks p m @ body" "[]"] b sca
    unfolding bytes_phc_chunks txe_checksum_of_def by (simp_all add: Let_def)
  have k3: "ihc_part ?s3 = ihc_part ?s2" "ips_part ?s3 = ips_part ?s2"
    unfolding sca_keeps(3,4) by (rule funpow_keeps, rule sca_keeps)+
  let ?s4 = "(pIpHeaderConstructor junk ^^ 3) ?s3"
  have "ihc_part ?s3 = ihc_part s" using k1(1) k2(1) k3(1) by (simp only:)
  then have ihc: "items (ssIhcToIps_IpHeader ?s4) = [ihc_chunk0 (txm_length m) junk,
      ihc_chunk1 (sa_addr (sp_src p)) junk, ihc_chunk2 (sa_addr (sp_dst p)) junk]"
    using ihc_run [of ?s3 "txm_length m" _ junk] assms(1) by (simp add: ihc_part_def txe_ready_def)
  have k4: "sca_part ?s4 = sca_part ?s3" "ips_part ?s4 = ips_part ?s3"
    by (rule funpow_keeps, rule ihc_keeps)+
  have "ips_part ?s4 = ips_part s" using k1(4) k2(3) k3(2) k4(2) by (simp only:)
  then have out: "txe_soIPTX_Data ?s4 = txe_soIPTX_Data s" "ips_chunkCount ?s4 = 0"
    using r(12) by (simp_all add: ips_part_def)
  let ?cs = "drop 4 (phc_chunks p m) @ body"
  have stream: "items (ssScaToIps_PseudoPkt ?s4) = phc_chunk1 (txm_length m) p # phc_chunk2 m # phc_chunk3 m # ?cs"
    "items (ssTcaToIps_TcpCsum ?s4) = [txe_checksum_of p m bs]"
    using k4(1) csum by (simp_all add: sca_part_def phc_chunks_def)
  note ws = ips_packet_bytes(1,2) [OF b(3), where junk = junk and x = "txe_checksum_of p m bs"]
  have "length (items (txe_soIPTX_Data ?s4)) + 5 + length ?cs \<le> depth (txe_soIPTX_Data ?s4)"
    using length_body [OF b(3)] assms(2) unfolding out(1) b(2) by (simp add: phc_chunks_def)
  from ips_run [OF out(2) ihc stream ips_packet_bytes(3) [OF b(3)] this] obtain d where
    "items (txe_soIPTX_Data ((pIpPktStitcher ^^ d) ?s4)) = items (txe_soIPTX_Data s) @
      [ihc_chunk0 (txm_length m) junk, ihc_chunk1 (sa_addr (sp_src p)) junk,
       ips_chunk2 (ihc_chunk2 (sa_addr (sp_dst p)) junk) (phc_chunk1 (txm_length m) p), ips_chunk3 (phc_chunk2 m),
       setTcpChecksum (txe_checksum_of p m bs) (phc_chunk3 m)] @ ?cs"
    unfolding out(1) by blast
  then show ?thesis
    using ws(1,2) unfolding b(2) txe_stages_def txe_packet_def by blast
qed

text \<open>C6. The Tx engine sends the packet that the protocol prescribes.  When the metadata of a segment, its
  socket pair and its payload have arrived, the constructors, stitchers and accumulators make one
  well-formed packet, whose bytes are those of the reference: an IPv4 header with its total length
  and addresses, a TCP header with the ports, the sequence and acknowledgement numbers, the control
  bits and the window, the checksum of the pseudo header, the header and the payload, the MSS option
  of a SYN, and the payload.  The payload is read in one access, or in two of which the first is not
  exactly one full chunk of eight bytes; in that case, which this theorem excludes (\<open>payload_ready\<close>),
  the code ends the packet behind that chunk.  (The IPv4 header checksum is left 0; IPTX fills it.)\<close>

theorem txe_sends_packet:
  assumes "txe_ready s p m bs"
    and "length (items (txe_soIPTX_Data s)) + 6 + length bs \<le> depth (txe_soIPTX_Data s)"
  shows "\<exists>a b c d ws. items (txe_soIPTX_Data (txe_stages junk a b c d s)) = items (txe_soIPTX_Data s) @ ws \<and>
    payload_ok ws \<and> bytes_of ws = txe_packet p m bs"
  using assms by (rule txe_packet_sent)

definition packet_meta :: TXeMeta where
  "packet_meta = \<lparr>txm_seqNumb = 0x1000, txm_ackNumb = 0x2000, txm_winSize = 0x100, txm_length = 3,
     txm_ack = True, txm_rst = False, txm_syn = False, txm_fin = False\<rparr>"

definition packet_pair :: SocketPair where
  "packet_pair = \<lparr>sp_src = \<lparr>sa_addr = 0x0A0C0801, sa_port = 8803\<rparr>, sp_dst = \<lparr>sa_addr = 0x0A0C0832, sa_port = 32768\<rparr>\<rparr>"

definition packet_state :: TXe where
  "packet_state = txe_reset\<lparr>ssSpsToPhc_SockPair := Stream 4 [packet_pair], ssMdlToPhc_TxeMeta := Stream 16 [packet_meta],
     ssMdlToIhc_TcpDatLen := Stream 16 [3],
     ssSpsToIhc_IpAddrPair := Stream 4 [\<lparr>ip_src = 0x0A0C0801, ip_dst = 0x0A0C0832\<rparr>],
     txe_siMEM_TxP_Data := Stream 4 [chunk 0x030201 7 True], ssMrdToTss_SplitMemAcc := Stream 32 [False],
     txe_soIPTX_Data := Stream 16 []\<rparr>"

lemma packet_ready: "txe_ready packet_state packet_pair packet_meta [1, 2, 3]"
proof -
  let ?c = "chunk 0x030201 7 True"
  have len: "getLen ?c = 3" by (simp add: getLen_def chunk_def keepToLen_def)
  then have "payload_ok [?c]" "bytes_of [?c] = [1, 2, 3]"
    by (simp_all add: payload_ok_single chunk_ok_def chunk_bytes_def upt_upto_8 del: upt.simps)
      (simp_all add: chunk_def nth_byte_def)
  then have "payload_ready packet_state packet_meta [1, 2, 3]"
    unfolding payload_ready_def
    by (intro if_not_P [THEN iffD2] exI [of _ "[]"] exI [of _ "[?c]"] exI [of _ "[]"])
      (simp_all add: packet_state_def packet_meta_def)
  then show ?thesis
    by (simp add: txe_ready_def) (simp add: packet_state_def packet_meta_def packet_pair_def txe_reset_def)
qed

lemma packet_bytes: "txe_packet packet_pair packet_meta [1, 2, 3] =
  [69, 0, 0, 43, 0, 0, 0, 0, 64, 6, 0, 0, 10, 12, 8, 1, 10, 12, 8, 50, 34, 99, 128, 0, 0, 0, 16, 0, 0, 0, 32, 0,
   80, 16, 1, 0, 180, 33, 0, 0, 1, 2, 3]"
proof -
  have "txe_checksum_of packet_pair packet_meta [1, 2, 3] = 0xB421"
    by (simp add: txe_checksum_of_def pseudo_header_def txe_segment_def tcp_header_def tcp_options_def packet_meta_def
       packet_pair_def tcp_flags_def be16_def be32_def inet_checksum_def ones_sum_def)
  then show ?thesis
    by (simp add: txe_packet_def ip_header_def txe_segment_def tcp_header_def tcp_options_def tcp_flags_def be16_def
       be32_def) (simp add: packet_meta_def packet_pair_def)
qed
theorem txe_sends_packet_witness:
  "\<exists>a b c d ws. items (txe_soIPTX_Data (txe_stages phc_new a b c d packet_state)) = ws \<and> payload_ok ws \<and> bytes_of ws =
    [69, 0, 0, 43, 0, 0, 0, 0, 64, 6, 0, 0, 10, 12, 8, 1, 10, 12, 8, 50, 34, 99, 128, 0, 0, 0, 16, 0, 0, 0, 32, 0,
     80, 16, 1, 0, 180, 33, 0, 0, 1, 2, 3]"
proof -
  have "items (txe_soIPTX_Data packet_state) = []" "depth (txe_soIPTX_Data packet_state) = 16"
    by (simp_all add: packet_state_def)
  then show ?thesis
    using txe_sends_packet [OF packet_ready, of phc_new] unfolding packet_bytes by auto
qed

end
