(* ===== verification/Rx_Checksum.thy ===== *)
theory Rx_Checksum
  imports Rx_Header Tx_Packet
begin

text \<open>
  The front of the Rx engine (\<open>Rx_Header\<close>) on a whole packet: the three processes remove the IPv4
  header with its options and the TCP header with its options, recover the metadata and the payload
  byte by byte, and accept the segment exactly when its Internet checksum is right.
\<close>

section \<open>Half chunks\<close>

lemma low_half_data: "i < 64 \<Longrightarrow> bit (ax_tdata (low_half d k c)) i = (if i < 32 then bit d i else bit (ax_tdata c) i)"
  by (simp add: low_half_def setLE_TKeep_def setLE_TData_def bit_set_range)

lemma low_half_keep: "i < 8 \<Longrightarrow> bit (ax_tkeep (low_half d k c)) i = (if i < 4 then bit k i else bit (ax_tkeep c) i)"
  by (simp add: low_half_def setLE_TKeep_def setLE_TData_def bit_set_range)

lemma half_join_data:
  "i < 64 \<Longrightarrow> bit (ax_tdata (half_join d k c)) i = (if i < 32 then bit d i else bit (ax_tdata c) (i - 32))"
  by (auto simp: half_join_def setLE_TKeep_def setLE_TData_def bit_set_range bit_get_range low_half_data)

lemma half_join_keep:
  "i < 8 \<Longrightarrow> bit (ax_tkeep (half_join d k c)) i = (if i < 4 then bit k i else bit (ax_tkeep c) (i - 4))"
  by (auto simp: half_join_def setLE_TKeep_def setLE_TData_def bit_set_range bit_get_range low_half_keep)

abbreviation half :: "64 word \<Rightarrow> 8 word \<Rightarrow> AxisApp" where
  "half d k \<equiv> low_half d k AxisApp_zero"

lemma half_join_bytes:
  assumes "getLen (half d k) = 4" "chunk_ok c"
  shows "chunk_bytes (half_join d k c) = chunk_bytes (half d k) @ take 4 (chunk_bytes c)"
proof -
  have c: "ax_tkeep c = mask (getLen c)" "1 \<le> getLen c" "getLen c \<le> 8" using chunk_ok_keep [OF assms(2)] by simp_all
  have "ax_tkeep (half d k) = mask 4"
    using chunk_ok_keep [of "half d k"] assms(1) by (simp add: chunk_ok_def)
  then have k: "bit k i" if "i < 4" for i
    using low_half_keep [of i d k AxisApp_zero] that by (simp add: bit_mask_iff)
  have "ax_tkeep (half_join d k c) = mask (4 + min 4 (getLen c))"
    by (rule bit_word_eqI) (use c k in \<open>auto simp: half_join_keep bit_mask_iff\<close>)
  then have len: "getLen (half_join d k c) = 4 + min 4 (getLen c)" by (simp add: getLen_def keepToLen_mask)
  have byte: "nth_byte (ax_tdata (half_join d k c)) i =
      (if i < 4 then nth_byte (ax_tdata (half d k)) i else nth_byte (ax_tdata c) (i - 4))" if "i < 8" for i
    by (rule bit_word_eqI) (use that in \<open>auto simp: bit_nth_byte half_join_data low_half_data algebra_simps\<close>)
  show ?thesis
    using assms(1) c(3) by (intro nth_equalityI) (auto simp: len chunk_bytes_def nth_append byte)
qed

text \<open>The upper half of a chunk.\<close>

lemma half_of_upper:
  assumes "\<And>i. i < 32 \<Longrightarrow> bit d i = bit (ax_tdata p) (32 + i)" "\<And>i. i < 4 \<Longrightarrow> bit k i = bit (ax_tkeep p) (4 + i)"
    and "chunk_ok p \<or> ax_tkeep p = 0"
  shows "chunk_bytes (half d k) = drop 4 (chunk_bytes p)"
proof (cases "4 < getLen p")
  case True
  then have ok: "chunk_ok p" by (simp add: chunk_ok_def)
  have "ax_tdata (half d k) = ax_tdata (mwr_tail 4 p)" "ax_tkeep (half d k) = ax_tkeep (mwr_tail 4 p)"
    by (rule bit_word_eqI;
      simp add: low_half_data low_half_keep bit_mwr_tail_data bit_mwr_tail_keep assms(1,2) AxisApp_zero_def)+
  then have "chunk_bytes (half d k) = chunk_bytes (mwr_tail 4 p)" by (simp add: chunk_bytes_def getLen_def)
  then show ?thesis using chunk_bytes_tail [of 4 p] ok True by simp
next
  case False
  have "bit (ax_tkeep p) (4 + i) = False" if "i < 4" for i
    using assms(3) False chunk_ok_keep [of p] by (auto simp: bit_mask_iff)
  then have "ax_tkeep (half d k) = 0"
    by (intro bit_word_eqI) (simp add: low_half_keep assms(2) AxisApp_zero_def)
  then show ?thesis using False by (simp add: chunk_bytes_def getLen_def keepToLen_def)
qed

lemma bit_keep_4: "chunk_ok c \<Longrightarrow> bit (ax_tkeep c) 4 \<longleftrightarrow> \<not> getLen c \<le> 4"
  using chunk_ok_keep [of c] by (auto simp: bit_mask_iff)

lemma upper_half_bytes:
  "chunk_ok p \<Longrightarrow> chunk_bytes (half (get_range 63 32 (ax_tdata p)) (get_range 7 4 (ax_tkeep p))) = drop 4 (chunk_bytes p)"
  by (rule half_of_upper) (simp_all add: bit_get_range)

lemma tle_join_bytes:
  assumes "length (drop 4 (chunk_bytes p)) = 4" "chunk_ok c"
  shows "chunk_bytes (tle_join p c) = drop 4 (chunk_bytes p) @ take 4 (chunk_bytes c)"
    "ax_tlast (tle_join p c) = (getLen c \<le> 4)"
proof -
  have p: "chunk_ok p" using assms(1) by (simp add: chunk_ok_def)
  note h = upper_half_bytes [OF p]
  have "getLen (half (get_range 63 32 (ax_tdata p)) (get_range 7 4 (ax_tkeep p))) = 4"
    using arg_cong [OF h, of length] assms(1) by simp
  from half_join_bytes [OF this assms(2)] show "chunk_bytes (tle_join p c) = drop 4 (chunk_bytes p) @ take 4 (chunk_bytes c)"
    by (simp add: tle_join_def h)
  show "ax_tlast (tle_join p c) = (getLen c \<le> 4)" using bit_keep_4 [OF assms(2)] by (simp add: tle_join_def)
qed

lemma saved_half_bytes:
  "chunk_ok c \<Longrightarrow> chunk_bytes (half (ucast (ucast (get_range 63 32 (ax_tdata c)) :: 32 word))
     (ucast (ucast (get_range 7 4 (ax_tkeep c)) :: 4 word))) = drop 4 (chunk_bytes c)"
  by (rule half_of_upper) (simp_all add: bit_get_range bit_ucast_iff)

lemma chunk_bytes_setTLast: "chunk_ok c \<Longrightarrow> chunk_bytes (setTLast l c) = chunk_bytes c"
proof -
  assume "chunk_ok c"
  then have c: "1 \<le> getLen c" "getLen c \<le> 8" using chunk_ok_keep by simp_all
  have "nth_byte (take_bit (8 * n) w) i = nth_byte w i" if "i < n" for n i and w :: "64 word"
    by (rule bit_word_eqI) (use that in \<open>auto simp: bit_nth_byte bit_take_bit_iff\<close>)
  then show ?thesis
    using c by (auto simp: setTLast_def clearUnusedBytes_def Let_def chunk_bytes_def getLen_def)
qed

lemma tlast_setTLast [simp]: "ax_tlast (setTLast l c) = l"
  by (simp add: setTLast_def clearUnusedBytes_def Let_def)

section \<open>The length extractor\<close>

interpretation tle: shifter pTcpLengthExtractor "\<lambda>s. items (rxf_siIPRX_Data s)"
    "\<lambda>s. items (ssTleToIph_Data s)" "\<lambda>s. depth (ssTleToIph_Data s)" ssTleToIph_TcpSegLen "\<lambda>_ x. x"
    "\<lambda>s. tle_chunkCount s = 4 \<and> \<not> tle_shift s \<and> \<not> tle_residue s"
    "\<lambda>s. tle_chunkCount s = 4 \<and> tle_shift s \<and> \<not> tle_residue s"
    "\<lambda>s. tle_chunkCount s = 0 \<and> tle_residue s" "\<lambda>s. tle_chunkCount s = 0 \<and> \<not> tle_residue s"
    "\<lambda>s. drop 4 (chunk_bytes (tle_prevChunk s))" 4
proof (unfold_locales, goal_cases)
  case (1 s c cs)
  then show ?case
    by (simp add: pTcpLengthExtractor_def tle_chunk_def tle_put_def sread_cons [OF 1(2)] sfull_def sempty_def Let_def)
next
  case (2 s c cs)
  note join = tle_join_bytes [OF 2(4,3)]
  show ?case
    using 2(1,2,5) bit_keep_4 [OF 2(3)] join
    by (auto simp: pTcpLengthExtractor_def tle_chunk_def tle_put_def sread_cons [OF 2(2)] sfull_def sempty_def Let_def)
next
  case (3 s)
  have "4 < getLen (tle_prevChunk s)" using 3(2) by simp
  then have "chunk_bytes (tle_rest s) = drop 4 (chunk_bytes (tle_prevChunk s))"
    using upper_half_bytes [of "tle_prevChunk s"] by (simp add: tle_rest_def chunk_ok_def)
  then show ?case
    using 3 by (simp add: pTcpLengthExtractor_def tle_put_def tle_rest_def)
qed simp_all

section \<open>The pseudo header\<close>

interpretation iph: shifter "pInsertPseudoHeader junk" "\<lambda>s. items (ssTleToIph_Data s)"
    "\<lambda>s. items (ssIphToCsa_PseudoPkt s)" "\<lambda>s. depth (ssIphToCsa_PseudoPkt s)" ssTleToIph_TcpSegLen "\<lambda>_ x. x"
    "\<lambda>s. False" "\<lambda>s. iph_chunkCount s = 2 \<and> \<not> iph_residue s"
    "\<lambda>s. iph_chunkCount s = 0 \<and> iph_residue s" "\<lambda>s. iph_chunkCount s = 0 \<and> \<not> iph_residue s"
    "\<lambda>s. drop 4 (chunk_bytes (iph_prevChunk s))" 4
proof (unfold_locales, goal_cases)
  case (2 s c cs)
  note join = tle_join_bytes [OF 2(4,3)]
  show ?case
    using 2(1,2,5) bit_keep_4 [OF 2(3)] join
    by (auto simp: pInsertPseudoHeader_def iph_put_def iph_end_def sread_cons [OF 2(2)] sfull_def Let_def)
next
  case (3 s)
  have "4 < getLen (iph_prevChunk s)" using 3(2) by simp
  with upper_half_bytes [of "iph_prevChunk s"] 3 show ?case
    by (simp add: pInsertPseudoHeader_def iph_put_def chunk_ok_def)
qed simp_all

section \<open>The checksum accumulator\<close>

lemma csa_lane_sca: "csa_lane = sca_lane"
  by (intro ext) (simp add: csa_lane_def sca_lane_def csa_fold_def csum_fold_def Let_def)

lemma csa_accumulate_sca: "csa_accumulate = sca_add"
  by (intro ext) (simp add: csa_accumulate_def sca_add_def csa_lane_sca)

text \<open>What the accumulator knows of the segment, besides its sums.\<close>

definition csa_known :: "'a RXf_scheme \<Rightarrow> _" where
  "csa_known s = (csa_meta s, csa_socketPair s, csa_tcpDstPort s, csa_cc_state s, ssCsaToMdh_Meta s,
     ssCsaToMdh_SockPair s, csa_soPRt_PortStateReq s, ssCsaToTid_DataValid s)"

definition csa_held :: "'a RXf_scheme \<Rightarrow> 8 word list" where
  "csa_held s = chunk_bytes (half (ucast (csa_half_tdata s)) (ucast (csa_half_tkeep s)))"

lemma csa_saved: "chunk_ok c \<Longrightarrow> csa_held (csa_save_half c s) = drop 4 (chunk_bytes c)"
  by (simp add: csa_held_def csa_save_half_def saved_half_bytes)

lemma csa_join_bytes:
  assumes "length (csa_held s) = 4" "chunk_ok c"
  shows "chunk_bytes (csa_join (csa_half_tdata s) (csa_half_tkeep s) c) = csa_held s @ take 4 (chunk_bytes c)"
    "ax_tlast (csa_join (csa_half_tdata s) (csa_half_tkeep s) c) = (getLen c \<le> 4)"
proof -
  have "getLen (half (ucast (csa_half_tdata s)) (ucast (csa_half_tkeep s))) = 4"
    using assms(1) by (simp add: csa_held_def)
  note h = half_join_bytes [OF this assms(2)]
  let ?j = "half_join (ucast (csa_half_tdata s)) (ucast (csa_half_tkeep s)) c"
  have "0 < length (chunk_bytes ?j)" unfolding h using assms(1) by (simp add: csa_held_def)
  then have "chunk_ok ?j" by (simp add: chunk_ok_def)
  then show "chunk_bytes (csa_join (csa_half_tdata s) (csa_half_tkeep s) c) = csa_held s @ take 4 (chunk_bytes c)"
    by (simp add: csa_join_def chunk_bytes_setTLast h csa_held_def)
  show "ax_tlast (csa_join (csa_half_tdata s) (csa_half_tkeep s) c) = (getLen c \<le> 4)"
    by (simp add: csa_join_def bit_keep_4 [OF assms(2)])
qed

text \<open>After the header, with no option left.\<close>

definition csa_data :: "bool \<Rightarrow> 'a RXf_scheme \<Rightarrow> bool" where
  "csa_data sh s \<longleftrightarrow> csa_chunkCount s = 4 \<and> csa_dataOffset s < 6 \<and> csa_doShift s = sh \<and> \<not> csa_doCSumVerif s"

definition csa_over :: "'a RXf_scheme \<Rightarrow> bool" where
  "csa_over s \<longleftrightarrow> csa_chunkCount s = 0 \<and> csa_doCSumVerif s \<and> \<not> csa_residue s"

definition csa_has_residue :: "'a RXf_scheme \<Rightarrow> bool" where
  "csa_has_residue s \<longleftrightarrow> csa_chunkCount s = 0 \<and> csa_doCSumVerif s \<and> csa_residue s"

lemmas csa_defs = pCheckSumAccumulator_def csa_take_def csa_chunk_def csa_put_def csa_data_def csa_over_def
  csa_has_residue_def csa_known_def csa_accumulate_sca sfull_def sempty_def Let_def

interpretation csa: shifter pCheckSumAccumulator "\<lambda>s. items (ssIphToCsa_PseudoPkt s)"
    "\<lambda>s. items (ssCsaToTid_Data s)" "\<lambda>s. depth (ssCsaToTid_Data s)"
    "\<lambda>s. (csa_tcp_sums s, csa_known s)" "\<lambda>c. apfst (sca_add c)" "csa_data False"
    "\<lambda>s. csa_data True s \<and> rm_length (csa_meta s) \<noteq> 0"
    "\<lambda>s. csa_has_residue s \<and> rm_length (csa_meta s) \<noteq> 0" csa_over csa_held 4
proof (unfold_locales, goal_cases)
  case (1 s c cs)
  from 1(1) have "\<not> 6 \<le> csa_dataOffset s" by (simp add: csa_data_def not_le)
  with 1 show ?case by (simp add: csa_defs sread_cons [OF 1(2)])
next
  case (2 s c cs)
  note join = csa_join_bytes [OF 2(4,3)]
  from 2(1) have "\<not> 6 \<le> csa_dataOffset s" by (simp add: csa_data_def not_le)
  with 2(1,2,5) join show ?case
    by (simp add: csa_defs sread_cons [OF 2(2)] csa_save_half_def csa_held_def saved_half_bytes [OF 2(3)])
next
  case (3 s)
  then show ?case
    by (simp add: csa_defs csa_flush_def csa_held_def)
qed simp_all

section \<open>Runs of the length extractor\<close>

text \<open>A payload of more than one chunk starts with a full one.\<close>

lemma payload_split:
  assumes "payload_ok cs" "8 < length (bytes_of cs)"
  obtains c cs' where "cs = c # cs'" "getLen c = 8" "\<not> ax_tlast c" "chunk_ok c" "payload_ok cs'"
    "length (bytes_of cs) = 8 + length (bytes_of cs')"
proof -
  obtain c cs' where cs: "cs = c # cs'" using payload_ok_nonempty [OF assms(1)] by (cases cs) auto
  have ok: "chunk_ok c" using assms(1) by (simp add: cs payload_ok_def)
  have "cs' \<noteq> []" using assms(2) chunk_ok_keep [OF ok] by (auto simp: cs)
  then show thesis using assms(1) ok that cs by (simp add: payload_ok_Cons)
qed

definition tle_idle :: "'a RXf_scheme \<Rightarrow> bool" where
  "tle_idle s \<longleftrightarrow> tle_chunkCount s = 0 \<and> \<not> tle_residue s"

lemma tle_tick:
  assumes "items (rxf_siIPRX_Data s) = c # cs" "\<not> tle_residue s"
    and "length (items (ssTleToIph_Data s)) < depth (ssTleToIph_Data s)"
  shows "pTcpLengthExtractor s =
    (tle_chunk c (s\<lparr>rxf_siIPRX_Data := Stream (depth (rxf_siIPRX_Data s)) cs\<rparr>))\<lparr>tle_prevChunk := c\<rparr>"
  using assms by (simp add: pTcpLengthExtractor_def sread_cons [OF assms(1)] sempty_def sfull_def)

lemma tle_options:
  assumes "tle_chunkCount s = 3" "\<not> tle_residue s" "unat (tle_ip4HdrLen s) = n"
    and "items (rxf_siIPRX_Data s) = cs @ rest" "payload_ok cs"
    and "length (drop 4 (chunk_bytes (tle_prevChunk s))) = 4" "4 * n + 16 \<le> length (bytes_of cs)"
    and "length (items (ssTleToIph_Data s)) + length cs < depth (ssTleToIph_Data s)"
  shows "\<exists>j ws. tle.moves s j cs rest ws \<and> payload_ok ws \<and>
    bytes_of ws = drop (4 * n) (drop 4 (chunk_bytes (tle_prevChunk s)) @ bytes_of cs)"
  using assms
proof (induction n arbitrary: s cs rule: less_induct)
  case (less n)
  from less.prems(7) have "8 < length (bytes_of cs)" by simp
  from payload_split [OF less.prems(5) this] obtain c cs' where c: "cs = c # cs'" "getLen c = 8"
    "\<not> ax_tlast c" "chunk_ok c" "payload_ok cs'" "length (bytes_of cs) = 8 + length (bytes_of cs')" .
  let ?t = "pTcpLengthExtractor s"
  have input: "items (rxf_siIPRX_Data s) = c # (cs' @ rest)"
    "length (items (ssTleToIph_Data s)) < depth (ssTleToIph_Data s)"
    using less.prems(4,8) by (simp_all add: c(1))
  note tick = tle_tick [OF input(1) less.prems(2) input(2)]
  consider "n = 0" | "n = 1" | "2 \<le> n" by linarith
  then show ?case
  proof cases
    case 1
    then have h: "tle_ip4HdrLen s = 0" using less.prems(3) by (simp add: unat_eq_0)
    note join = tle_join_bytes [OF less.prems(6) c(4)]
    have t: "tle_chunkCount ?t = 4 \<and> tle_shift ?t \<and> \<not> tle_residue ?t" "items (rxf_siIPRX_Data ?t) = cs' @ rest"
      "items (ssTleToIph_Data ?t) = items (ssTleToIph_Data s) @ [tle_join (tle_prevChunk s) c]"
      "depth (ssTleToIph_Data ?t) = depth (ssTleToIph_Data s)" "tle_prevChunk ?t = c"
      "ssTleToIph_TcpSegLen ?t = ssTleToIph_TcpSegLen s"
      using less.prems(1,2) h by (simp_all add: tick tle_chunk_def tle_put_def)
    have held: "length (drop 4 (chunk_bytes (tle_prevChunk ?t))) = 4" using c(2) t(5) by simp
    have space: "length (items (ssTleToIph_Data ?t)) + length cs' < depth (ssTleToIph_Data ?t)"
      using less.prems(8) t(3,4) c(1) by simp
    from tle.shifts [OF t(1,2) c(5) held space] obtain j ws where ws: "tle.moves ?t j cs' rest ws" "payload_ok ws"
      "bytes_of ws = drop 4 (chunk_bytes (tle_prevChunk ?t)) @ bytes_of cs'" by blast
    have "tle.moves s (Suc j) cs rest ([tle_join (tle_prevChunk s) c] @ ws)"
      unfolding c(1) by (rule tle.moves_Suc [OF ws(1) t(3,6)])
    moreover have "length (chunk_bytes (tle_join (tle_prevChunk s) c)) = 8"
      unfolding join(1) using less.prems(6) c(2) by simp
    then have "payload_ok (tle_join (tle_prevChunk s) c # ws)"
      using ws(2) payload_ok_nonempty [OF ws(2)] join(2) c(2) by (simp add: payload_ok_Cons)
    moreover have "bytes_of (tle_join (tle_prevChunk s) c # ws) = drop 4 (chunk_bytes (tle_prevChunk s)) @ bytes_of cs"
      by (simp add: join(1) ws(3) t(5) c(1))
    ultimately show ?thesis using 1
      by (intro exI [of _ "Suc j"] exI [of _ "tle_join (tle_prevChunk s) c # ws"]) simp
  next
    case 2
    then have h: "tle_ip4HdrLen s = 1" using less.prems(3) by (simp add: word_unat_eq_iff)
    have t: "tle_chunkCount ?t = 4 \<and> \<not> tle_shift ?t \<and> \<not> tle_residue ?t" "items (rxf_siIPRX_Data ?t) = cs' @ rest"
      "items (ssTleToIph_Data ?t) = items (ssTleToIph_Data s) @ [c]"
      "depth (ssTleToIph_Data ?t) = depth (ssTleToIph_Data s)" "ssTleToIph_TcpSegLen ?t = ssTleToIph_TcpSegLen s"
      using less.prems(1,2) h by (simp_all add: tick tle_chunk_def tle_put_def)
    have "tle.moves ?t (length cs') cs' rest cs'"
      by (rule tle.passes [OF t(1,2) c(5)]) (use less.prems(8) t(3,4) c(1) in simp)
    then have "tle.moves s (Suc (length cs')) cs rest ([c] @ cs')"
      unfolding c(1) by (rule tle.moves_Suc [OF _ t(3,5)])
    then show ?thesis
      using 2 less.prems(5,6) c(1)
      by (intro exI [of _ "Suc (length cs')"] exI [of _ cs]) simp
  next
    case 3
    have h: "tle_ip4HdrLen s \<noteq> 0" "tle_ip4HdrLen s \<noteq> 1" using less.prems(3) 3 by auto
    have "(2 :: 4 word) \<le> tle_ip4HdrLen s" using less.prems(3) 3 by (simp add: word_le_nat_alt)
    then have n: "unat (tle_ip4HdrLen s - 2) = n - 2" using less.prems(3) by (simp add: unat_sub)
    have t: "tle_chunkCount ?t = 3" "\<not> tle_residue ?t" "unat (tle_ip4HdrLen ?t) = n - 2"
      "items (rxf_siIPRX_Data ?t) = cs' @ rest" "ssTleToIph_Data ?t = ssTleToIph_Data s" "tle_prevChunk ?t = c"
      "ssTleToIph_TcpSegLen ?t = ssTleToIph_TcpSegLen s"
      using less.prems(1,2) h n by (simp_all add: tick tle_chunk_def tle_put_def)
    have "length (drop 4 (chunk_bytes (tle_prevChunk ?t))) = 4" "4 * (n - 2) + 16 \<le> length (bytes_of cs')"
      "length (items (ssTleToIph_Data ?t)) + length cs' < depth (ssTleToIph_Data ?t)" "n - 2 < n"
      using t c(1,2,6) less.prems(7,8) 3 by simp_all
    from less.IH [OF this(4) t(1-4) c(5) this(1-3)] obtain j ws where ws: "tle.moves ?t j cs' rest ws" "payload_ok ws"
      "bytes_of ws = drop (4 * (n - 2)) (drop 4 (chunk_bytes c) @ bytes_of cs')" unfolding t(6) by blast
    have "tle.moves s (Suc j) cs rest ([] @ ws)"
      unfolding c(1) by (rule tle.moves_Suc [OF ws(1)]) (simp_all add: t)
    have eq: "4 * (n - 2) + 8 = 4 * n" using 3 by simp
    have "drop (4 * n) (drop 4 (chunk_bytes (tle_prevChunk s)) @ bytes_of cs) =
        drop (4 * (n - 2)) (drop 8 (drop 4 (chunk_bytes (tle_prevChunk s)) @ bytes_of cs))"
      by (simp only: drop_drop eq)
    also have "drop 8 (drop 4 (chunk_bytes (tle_prevChunk s)) @ bytes_of cs) = drop 4 (chunk_bytes c) @ bytes_of cs'"
      using less.prems(6) by (simp add: c(1,2))
    finally show ?thesis
      using \<open>tle.moves s (Suc j) cs rest ([] @ ws)\<close> ws(2)
      unfolding ws(3) [symmetric] append_Nil by (intro exI [of _ "Suc j"] exI [of _ ws]) simp
  qed
qed

text \<open>The fields of the IPv4 header that the extractor uses.\<close>

definition ip_hdr_words :: "AxisApp list \<Rightarrow> nat" where
  "ip_hdr_words cs = unat (getIp4HdrLen (hd cs))"

definition ip_ok :: "AxisApp list \<Rightarrow> bool" where
  "ip_ok cs \<longleftrightarrow> payload_ok cs \<and> 5 \<le> ip_hdr_words cs \<and> 4 * ip_hdr_words cs + 20 \<le> length (bytes_of cs)"

definition ip_data_len :: "AxisApp list \<Rightarrow> 16 word" where
  "ip_data_len cs = getIp4TotalLen (hd cs) - ucast (getIp4HdrLen (hd cs)) * 4"

lemma tle_run:
  assumes "tle_idle s" "items (rxf_siIPRX_Data s) = cs @ rest" "ip_ok cs"
    and "length (items (ssTleToIph_Data s)) + length cs < depth (ssTleToIph_Data s)"
  shows "\<exists>j ws. let t = (pTcpLengthExtractor ^^ j) s in tle_idle t \<and> items (rxf_siIPRX_Data t) = rest \<and>
    items (ssTleToIph_Data t) = items (ssTleToIph_Data s) @ ws \<and>
    items (ssTleToIph_TcpSegLen t) = items (ssTleToIph_TcpSegLen s) @ [ip_data_len cs] \<and> payload_ok ws \<and>
    bytes_of ws = take 8 (drop 12 (bytes_of cs)) @ drop (4 * ip_hdr_words cs) (bytes_of cs)"
proof -
  let ?P = pTcpLengthExtractor and ?h = "ip_hdr_words cs"
  have ok: "payload_ok cs" "5 \<le> ?h" "4 * ?h + 20 \<le> length (bytes_of cs)" using assms(3) by (simp_all add: ip_ok_def)
  have "8 < length (bytes_of cs)" using ok by simp
  from payload_split [OF ok(1) this] obtain c0 cs0 where c0: "cs = c0 # cs0" "getLen c0 = 8" "\<not> ax_tlast c0"
    "chunk_ok c0" "payload_ok cs0" "length (bytes_of cs) = 8 + length (bytes_of cs0)" .
  have "8 < length (bytes_of cs0)" using ok(2,3) c0(6) by simp
  from payload_split [OF c0(5) this] obtain c1 cs1 where c1: "cs0 = c1 # cs1" "getLen c1 = 8" "\<not> ax_tlast c1"
    "chunk_ok c1" "payload_ok cs1" "length (bytes_of cs0) = 8 + length (bytes_of cs1)" .
  have "8 < length (bytes_of cs1)" using ok(2,3) c0(6) c1(6) by simp
  from payload_split [OF c1(5) this] obtain c2 cs2 where c2: "cs1 = c2 # cs2" "getLen c2 = 8" "\<not> ax_tlast c2"
    "chunk_ok c2" "payload_ok cs2" "length (bytes_of cs1) = 8 + length (bytes_of cs2)" .
  have h: "unat (getIp4HdrLen c0) = ?h" by (simp add: ip_hdr_words_def c0(1))
  have input: "items (rxf_siIPRX_Data s) = c0 # c1 # c2 # (cs2 @ rest)"
    using assms(2) by (simp add: c0(1) c1(1) c2(1))
  have space: "length (items (ssTleToIph_Data s)) + (3 + length cs2) < depth (ssTleToIph_Data s)"
    using assms(4) by (simp add: c0(1) c1(1) c2(1))
  have idle: "tle_chunkCount s = 0" "\<not> tle_residue s" using assms(1) by (simp_all add: tle_idle_def)
  let ?t1 = "?P s"
  have t1: "tle_chunkCount ?t1 = 1" "\<not> tle_residue ?t1" "items (rxf_siIPRX_Data ?t1) = c1 # c2 # (cs2 @ rest)"
    "ssTleToIph_Data ?t1 = ssTleToIph_Data s" "ssTleToIph_TcpSegLen ?t1 = ssTleToIph_TcpSegLen s"
    "tle_ip4HdrLen ?t1 = getIp4HdrLen c0 - 2" "tle_ipDataLen ?t1 = ip_data_len cs"
    using idle space by (simp_all add: tle_tick [OF input] tle_chunk_def ip_data_len_def c0(1))
  let ?t2 = "?P ?t1"
  have t2: "tle_chunkCount ?t2 = 2" "\<not> tle_residue ?t2" "items (rxf_siIPRX_Data ?t2) = c2 # (cs2 @ rest)"
    "ssTleToIph_Data ?t2 = ssTleToIph_Data s" "tle_prevChunk ?t2 = c1" "tle_ip4HdrLen ?t2 = getIp4HdrLen c0 - 4"
    "items (ssTleToIph_TcpSegLen ?t2) = items (ssTleToIph_TcpSegLen s) @ [ip_data_len cs]"
    using t1 space by (simp_all add: tle_tick [OF t1(3,2)] tle_chunk_def)
  let ?t3 = "?P ?t2" and ?w = "tle_join c1 c2"
  have t3: "tle_chunkCount ?t3 = 3" "\<not> tle_residue ?t3" "items (rxf_siIPRX_Data ?t3) = cs2 @ rest"
    "items (ssTleToIph_Data ?t3) = items (ssTleToIph_Data s) @ [?w]" "depth (ssTleToIph_Data ?t3) = depth (ssTleToIph_Data s)"
    "tle_prevChunk ?t3 = c2" "tle_ip4HdrLen ?t3 = getIp4HdrLen c0 - 5"
    "ssTleToIph_TcpSegLen ?t3 = ssTleToIph_TcpSegLen ?t2"
    using t2 space by (simp_all add: tle_tick [OF t2(3,2)] tle_chunk_def tle_put_def)
  have "(5 :: 4 word) \<le> getIp4HdrLen c0" using ok(2) h by (simp add: word_le_nat_alt)
  then have n: "unat (tle_ip4HdrLen ?t3) = ?h - 5" using h by (simp add: t3(7) unat_sub)
  have "length (drop 4 (chunk_bytes (tle_prevChunk ?t3))) = 4" "4 * (?h - 5) + 16 \<le> length (bytes_of cs2)"
    "length (items (ssTleToIph_Data ?t3)) + length cs2 < depth (ssTleToIph_Data ?t3)"
    using t3(4-6) c2(2) ok(2,3) c0(6) c1(6) c2(6) space by simp_all
  from tle_options [OF t3(1,2) n t3(3) c2(5) this] obtain j ws where ws: "tle.moves ?t3 j cs2 rest ws" "payload_ok ws"
    "bytes_of ws = drop (4 * (?h - 5)) (drop 4 (chunk_bytes c2) @ bytes_of cs2)" unfolding t3(6) by blast
  have "fold (\<lambda>_ x. x) cs2 a = a" for a :: "TcpSegLen stream" by (induction cs2) simp_all
  then have run: "tle_idle ((?P ^^ j) ?t3)" "items (rxf_siIPRX_Data ((?P ^^ j) ?t3)) = rest"
    "items (ssTleToIph_Data ((?P ^^ j) ?t3)) = items (ssTleToIph_Data s) @ ?w # ws"
    "items (ssTleToIph_TcpSegLen ((?P ^^ j) ?t3)) = items (ssTleToIph_TcpSegLen s) @ [ip_data_len cs]"
    using ws(1) t3(4,8) t2(7) by (simp_all add: tle.moves_def tle_idle_def Let_def)
  have "length (drop 4 (chunk_bytes c1)) = 4" using c1(2) by simp
  note join = tle_join_bytes [OF this c2(4)]
  have first: "chunk_bytes ?w = take 8 (drop 12 (bytes_of cs))"
    unfolding join(1) using c0(2) c1(2) c2(2) by (simp add: c0(1) c1(1) c2(1))
  have "drop 4 (chunk_bytes c2) @ bytes_of cs2 = drop 20 (bytes_of cs)"
    using c0(2) c1(2) c2(2) by (simp add: c0(1) c1(1) c2(1))
  then have data: "bytes_of ws = drop (4 * ?h) (bytes_of cs)"
  proof -
    have "4 * (?h - 5) + 20 = 4 * ?h" using ok(2) by simp
    then show ?thesis unfolding ws(3) \<open>drop 4 (chunk_bytes c2) @ bytes_of cs2 = _\<close> by (simp only: drop_drop)
  qed
  have "length (chunk_bytes ?w) = 8" unfolding join(1) using c1(2) c2(2) by simp
  then have "payload_ok (?w # ws)"
    using ws(2) payload_ok_nonempty [OF ws(2)] join(2) c2(2) by (simp add: payload_ok_Cons)
  moreover have "(?P ^^ Suc (Suc (Suc j))) s = (?P ^^ j) ?t3" by (simp only: funpow_Suc_right o_apply)
  ultimately show ?thesis
    using run first data by (intro exI [of _ "Suc (Suc (Suc j))"] exI [of _ "?w # ws"]) (simp add: Let_def)
qed

section \<open>Runs of the pseudo header process\<close>

definition iph_idle :: "'a RXf_scheme \<Rightarrow> bool" where
  "iph_idle s \<longleftrightarrow> iph_chunkCount s = 0 \<and> \<not> iph_residue s"

lemma iph_psd_bytes:
  assumes "getLen c = 8"
  shows "chunk_bytes (iph_psd len c) = [0, 6] @ be16 len @ take 4 (chunk_bytes c)" "ax_tlast (iph_psd len c) = False"
    "getLen (iph_psd len c) = 8"
proof -
  let ?z = "\<lparr>ax_tdata = 0, ax_tkeep = 0xFF, ax_tlast = False\<rparr>"
  have eq: "iph_psd len c = set16 48 (get16 16 c) (set16 32 (get16 0 c) (set16 16 len (set8 8 6 (set8 0 0 ?z))))"
    by (simp add: iph_psd_def setTcpDstPort_def setTcpSrcPort_def setPsd4Len_def setPsd4Prot_def setPsd4ResBits_def
        get16_def)
  show "ax_tlast (iph_psd len c) = False" by (simp add: eq)
  show len8: "getLen (iph_psd len c) = 8" by (simp add: eq getLen_keep)
  have b: "be16 (get16 0 c) = [byte_of c 0, byte_of c 1]" "be16 (get16 16 c) = [byte_of c 2, byte_of c 3]"
    using be16_get16 [of 0 c] be16_get16 [of 2 c] by simp_all
  show "chunk_bytes (iph_psd len c) = [0, 6] @ be16 len @ take 4 (chunk_bytes c)"
    using b assms len8 by (simp add: chunk_bytes_8) (simp add: eq byte_of_sets be16_def)
qed

lemma iph_run:
  assumes "iph_idle s" "items (ssTleToIph_Data s) = cs @ rest" "payload_ok cs" "20 \<le> length (bytes_of cs)"
    and "items (ssTleToIph_TcpSegLen s) = len # lens"
    and "length (items (ssIphToCsa_PseudoPkt s)) + length cs < depth (ssIphToCsa_PseudoPkt s)"
  shows "\<exists>j ws. let t = (pInsertPseudoHeader junk ^^ j) s in iph_idle t \<and> items (ssTleToIph_Data t) = rest \<and>
    items (ssTleToIph_TcpSegLen t) = lens \<and>
    items (ssIphToCsa_PseudoPkt t) = items (ssIphToCsa_PseudoPkt s) @ ws \<and> payload_ok ws \<and>
    bytes_of ws = take 8 (bytes_of cs) @ [0, 6] @ be16 len @ drop 8 (bytes_of cs)"
proof -
  let ?P = "pInsertPseudoHeader junk"
  have "8 < length (bytes_of cs)" using assms(4) by simp
  from payload_split [OF assms(3) this] obtain c0 cs0 where c0: "cs = c0 # cs0" "getLen c0 = 8" "\<not> ax_tlast c0"
    "chunk_ok c0" "payload_ok cs0" "length (bytes_of cs) = 8 + length (bytes_of cs0)" .
  have "8 < length (bytes_of cs0)" using assms(4) c0(6) by simp
  from payload_split [OF c0(5) this] obtain c1 cs1 where c1: "cs0 = c1 # cs1" "getLen c1 = 8" "\<not> ax_tlast c1"
    "chunk_ok c1" "payload_ok cs1" "length (bytes_of cs0) = 8 + length (bytes_of cs1)" .
  have input: "items (ssTleToIph_Data s) = c0 # c1 # (cs1 @ rest)" using assms(2) by (simp add: c0(1) c1(1))
  have space: "length (items (ssIphToCsa_PseudoPkt s)) + (2 + length cs1) < depth (ssIphToCsa_PseudoPkt s)"
    using assms(6) by (simp add: c0(1) c1(1))
  have idle: "iph_chunkCount s = 0" "\<not> iph_residue s" using assms(1) by (simp_all add: iph_idle_def)
  let ?t1 = "?P s"
  have t1: "iph_chunkCount ?t1 = 1" "\<not> iph_residue ?t1" "items (ssTleToIph_Data ?t1) = c1 # (cs1 @ rest)"
    "items (ssIphToCsa_PseudoPkt ?t1) = items (ssIphToCsa_PseudoPkt s) @ [c0]"
    "depth (ssIphToCsa_PseudoPkt ?t1) = depth (ssIphToCsa_PseudoPkt s)" "ssTleToIph_TcpSegLen ?t1 = ssTleToIph_TcpSegLen s"
    using idle space c0(3) sread_cons [OF input]
    by (simp_all add: pInsertPseudoHeader_def iph_put_def iph_end_def sfull_def Let_def)
  have len: "items (ssTleToIph_TcpSegLen ?t1) = len # lens" using assms(5) by (simp add: t1(6))
  let ?t2 = "?P ?t1" and ?w = "iph_psd len c1"
  have t2: "iph_chunkCount ?t2 = 2" "\<not> iph_residue ?t2" "items (ssTleToIph_Data ?t2) = cs1 @ rest"
    "items (ssIphToCsa_PseudoPkt ?t2) = items (ssIphToCsa_PseudoPkt s) @ [c0, ?w]"
    "depth (ssIphToCsa_PseudoPkt ?t2) = depth (ssIphToCsa_PseudoPkt s)" "items (ssTleToIph_TcpSegLen ?t2) = lens"
    "iph_prevChunk ?t2 = c1"
    using t1(1,2,4,5) space c1(3) sread_cons [OF t1(3)] sread_cons [OF len]
    by (simp_all add: pInsertPseudoHeader_def iph_put_def iph_end_def sfull_def Let_def)
  have "iph_chunkCount ?t2 = 2 \<and> \<not> iph_residue ?t2" "length (drop 4 (chunk_bytes (iph_prevChunk ?t2))) = 4"
    "length (items (ssIphToCsa_PseudoPkt ?t2)) + length cs1 < depth (ssIphToCsa_PseudoPkt ?t2)"
    using t2 c1(2) space by simp_all
  from iph.shifts [OF this(1) t2(3) c1(5) this(2,3)] obtain j ws where ws: "iph.moves junk ?t2 j cs1 rest ws"
    "payload_ok ws" "bytes_of ws = drop 4 (chunk_bytes c1) @ bytes_of cs1" unfolding t2(7) by blast
  have "fold (\<lambda>_ x. x) cs1 a = a" for a :: "TcpSegLen stream" by (induction cs1) simp_all
  then have run: "iph_idle ((?P ^^ j) ?t2)" "items (ssTleToIph_Data ((?P ^^ j) ?t2)) = rest"
    "items (ssIphToCsa_PseudoPkt ((?P ^^ j) ?t2)) = items (ssIphToCsa_PseudoPkt s) @ c0 # ?w # ws"
    "items (ssTleToIph_TcpSegLen ((?P ^^ j) ?t2)) = lens"
    using ws(1) t2(4,6) by (simp_all add: iph.moves_def iph_idle_def Let_def)
  have "payload_ok (c0 # ?w # ws)"
    using ws(2) payload_ok_nonempty [OF ws(2)] iph_psd_bytes(2,3) [OF c1(2)] c0(2,3) by (simp add: payload_ok_Cons)
  moreover have "bytes_of (c0 # ?w # ws) = take 8 (bytes_of cs) @ [0, 6] @ be16 len @ drop 8 (bytes_of cs)"
    using c0(2) c1(2) append_take_drop_id [of 4 "chunk_bytes c1"]
    by (simp add: iph_psd_bytes(1) [OF c1(2)] ws(3) c0(1) c1(1) del: append_take_drop_id)
  moreover have "(?P ^^ Suc (Suc j)) s = (?P ^^ j) ?t2" by (simp only: funpow_Suc_right o_apply)
  ultimately show ?thesis
    using run by (intro exI [of _ "Suc (Suc j)"] exI [of _ "c0 # ?w # ws"]) (simp add: Let_def)
qed

section \<open>Runs of the checksum accumulator\<close>

definition csa_idle :: "'a RXf_scheme \<Rightarrow> bool" where
  "csa_idle s \<longleftrightarrow> csa_chunkCount s = 0 \<and> \<not> csa_doCSumVerif s \<and> \<not> csa_residue s \<and>
     csa_tcp_sums s = SubCSums_zero \<and> csa_cc_state s = 0"

lemma csa_tick:
  assumes "items (ssIphToCsa_PseudoPkt s) = c # cs" "\<not> csa_doCSumVerif s"
    and "length (items (ssCsaToTid_Data s)) < depth (ssCsaToTid_Data s)"
  shows "pCheckSumAccumulator s =
    csa_take c (s\<lparr>ssIphToCsa_PseudoPkt := Stream (depth (ssIphToCsa_PseudoPkt s)) cs\<rparr>)"
  using assms by (simp add: pCheckSumAccumulator_def sread_cons [OF assms(1)] sempty_def sfull_def)

text \<open>A rest that belongs to the options is not sent.\<close>

lemma csa_no_rest:
  assumes "csa_has_residue s" "rm_length (csa_meta s) = 0" "length (items (ssCsaToTid_Data s)) < depth (ssCsaToTid_Data s)"
  shows "csa.moves s 1 [] (items (ssIphToCsa_PseudoPkt s)) []"
  unfolding csa.moves_def using assms by (simp add: csa_defs csa_flush_def)

text \<open>The options are skipped, and the data after them is sent, shifted or not.\<close>

lemma csa_one_option:
  assumes "csa_chunkCount s = 4" "\<not> csa_doCSumVerif s" "\<not> csa_doShift s" "csa_dataOffset s = 6"
    and "items (ssIphToCsa_PseudoPkt s) = cs @ rest" "payload_ok cs" "4 \<le> length (bytes_of cs)"
    and "rm_length (csa_meta s) = 0 \<longleftrightarrow> length (bytes_of cs) = 4"
    and "length (items (ssCsaToTid_Data s)) + length cs < depth (ssCsaToTid_Data s)"
  shows "\<exists>j ws. csa.moves s j cs rest ws \<and> bytes_of ws = drop 4 (bytes_of cs) \<and> (ws \<noteq> [] \<longrightarrow> payload_ok ws)"
proof -
  obtain c cs' where cs: "cs = c # cs'" using payload_ok_nonempty [OF assms(6)] by (cases cs) auto
  have ok: "chunk_ok c" using assms(6) by (simp add: cs payload_ok_def)
  have input: "items (ssIphToCsa_PseudoPkt s) = c # (cs' @ rest)"
    "length (items (ssCsaToTid_Data s)) < depth (ssCsaToTid_Data s)"
    using assms(5,9) by (simp_all add: cs)
  let ?t = "pCheckSumAccumulator s"
  have t: "items (ssIphToCsa_PseudoPkt ?t) = cs' @ rest" "ssCsaToTid_Data ?t = ssCsaToTid_Data s"
    "csa_meta ?t = csa_meta s" "csa_held ?t = drop 4 (chunk_bytes c)"
    "csa_tcp_sums ?t = sca_add c (csa_tcp_sums s)" "csa_known ?t = csa_known s"
    "ax_tlast c \<Longrightarrow> csa_has_residue ?t" "\<not> ax_tlast c \<Longrightarrow> csa_data True ?t"
    using assms(1-4)
    by (simp_all add: csa_tick [OF input(1) assms(2) input(2)] csa_take_def csa_chunk_def csa_save_half_def
        csa_held_def saved_half_bytes [OF ok] csa_known_def csa_accumulate_sca csa_has_residue_def csa_data_def Let_def)
  have out: "items (ssCsaToTid_Data ?t) = items (ssCsaToTid_Data s) @ []" by (simp add: t(2))
  have acct: "(csa_tcp_sums ?t, csa_known ?t) = apfst (sca_add c) (csa_tcp_sums s, csa_known s)" by (simp add: t(5,6))
  show ?thesis
  proof (cases "cs' = []")
    case True
    then have last: "csa_has_residue ?t" using t(7) assms(6) by (simp add: cs payload_ok_single)
    have space: "length (items (ssCsaToTid_Data ?t)) < depth (ssCsaToTid_Data ?t)" using input(2) by (simp add: t(2))
    show ?thesis
    proof (cases "rm_length (csa_meta s) = 0")
      case zero: True
      then have "csa.moves ?t 1 [] rest []" using csa_no_rest [OF last _ space] t(1,3) True by simp
      from csa.moves_Suc [OF this out acct] show ?thesis
        using zero assms(8) True by (intro exI [of _ "Suc 1"] exI [of _ "[]"]) (simp add: cs)
    next
      case False
      then have "csa_held ?t \<noteq> []" using assms(7,8) True by (auto simp: t(4) cs)
      from csa.residue_moves [OF _ this space] last False t(1,3) obtain ws where
        ws: "csa.moves ?t 1 [] rest ws" "payload_ok ws" "bytes_of ws = csa_held ?t" by (auto simp: True)
      from csa.moves_Suc [OF ws(1) out acct] ws(2,3) show ?thesis
        using True by (intro exI [of _ "Suc 1"] exI [of _ ws]) (simp add: cs t(4))
    qed
  next
    case False
    then have c: "\<not> ax_tlast c" "getLen c = 8" "payload_ok cs'" using assms(6) by (simp_all add: cs payload_ok_Cons)
    have "length (bytes_of cs) \<noteq> 4" using c(2) by (simp add: cs)
    then have "csa_data True ?t \<and> rm_length (csa_meta ?t) \<noteq> 0" using t(3,8) c(1) assms(8) by simp
    moreover have "length (csa_held ?t) = 4" "length (items (ssCsaToTid_Data ?t)) + length cs' < depth (ssCsaToTid_Data ?t)"
      using c(2) assms(9) by (simp_all add: t(2,4) cs)
    ultimately obtain j ws where ws: "csa.moves ?t j cs' rest ws" "payload_ok ws" "bytes_of ws = csa_held ?t @ bytes_of cs'"
      using csa.shifts [OF _ t(1) c(3)] by blast
    from csa.moves_Suc [OF ws(1) out acct] ws(2,3) c(2) show ?thesis
      by (intro exI [of _ "Suc j"] exI [of _ ws]) (simp add: cs t(4))
  qed
qed

lemma csa_options:
  assumes "csa_chunkCount s = 4" "\<not> csa_doCSumVerif s" "\<not> csa_doShift s" "unat (csa_dataOffset s) = d" "5 \<le> d"
    and "items (ssIphToCsa_PseudoPkt s) = cs @ rest" "payload_ok cs" "4 * (d - 5) \<le> length (bytes_of cs)"
    and "rm_length (csa_meta s) = 0 \<longleftrightarrow> length (bytes_of cs) = 4 * (d - 5)"
    and "length (items (ssCsaToTid_Data s)) + length cs < depth (ssCsaToTid_Data s)"
  shows "\<exists>j ws. csa.moves s j cs rest ws \<and> bytes_of ws = drop (4 * (d - 5)) (bytes_of cs) \<and>
    (ws \<noteq> [] \<longrightarrow> payload_ok ws)"
  using assms
proof (induction d arbitrary: s cs rule: less_induct)
  case (less d)
  consider "d = 5" | "d = 6" | "7 \<le> d" using less.prems(5) by linarith
  then show ?case
  proof cases
    case 1
    then have "csa_dataOffset s < 6" using less.prems(4) by (simp add: word_less_nat_alt)
    then have "csa_data False s" using less.prems(1-3) by (simp add: csa_data_def)
    from csa.passes [OF this less.prems(6,7)] less.prems(7,10) 1 show ?thesis
      by (intro exI [of _ "length cs"] exI [of _ cs]) simp
  next
    case 2
    then have "csa_dataOffset s = 6" using less.prems(4) by (simp add: word_unat_eq_iff)
    from csa_one_option [OF less.prems(1-3) this less.prems(6,7) _ _ less.prems(10)] less.prems(8,9) 2
    show ?thesis by simp
  next
    case 3
    obtain c cs' where cs: "cs = c # cs'" using payload_ok_nonempty [OF less.prems(7)] by (cases cs) auto
    have ok: "chunk_ok c" using less.prems(7) by (simp add: cs payload_ok_def)
    have input: "items (ssIphToCsa_PseudoPkt s) = c # (cs' @ rest)"
      "length (items (ssCsaToTid_Data s)) < depth (ssCsaToTid_Data s)"
      using less.prems(6,10) by (simp_all add: cs)
    have off: "6 \<le> csa_dataOffset s" "csa_dataOffset s \<noteq> 6" "2 \<le> csa_dataOffset s"
      using less.prems(4) 3 by (auto simp: word_le_nat_alt)
    have d: "unat (csa_dataOffset s - 2) = d - 2" using off(3) less.prems(4) by (simp add: unat_sub)
    let ?t = "pCheckSumAccumulator s"
    have t: "items (ssIphToCsa_PseudoPkt ?t) = cs' @ rest" "ssCsaToTid_Data ?t = ssCsaToTid_Data s"
      "csa_meta ?t = csa_meta s" "csa_tcp_sums ?t = sca_add c (csa_tcp_sums s)" "csa_known ?t = csa_known s"
      "ax_tlast c \<Longrightarrow> csa_has_residue ?t" "\<not> csa_doShift ?t" "unat (csa_dataOffset ?t) = d - 2"
      "\<not> ax_tlast c \<Longrightarrow> csa_chunkCount ?t = 4 \<and> \<not> csa_doCSumVerif ?t"
      using less.prems(1-3) off d
      by (simp_all add: csa_tick [OF input(1) less.prems(2) input(2)] csa_take_def csa_chunk_def csa_known_def
          csa_accumulate_sca csa_has_residue_def Let_def)
    have out: "items (ssCsaToTid_Data ?t) = items (ssCsaToTid_Data s) @ []" by (simp add: t(2))
    have acct: "(csa_tcp_sums ?t, csa_known ?t) = apfst (sca_add c) (csa_tcp_sums s, csa_known s)" by (simp add: t(4,5))
    show ?thesis
    proof (cases "cs' = []")
      case True
      then have last: "csa_has_residue ?t" using t(6) less.prems(7) by (simp add: cs payload_ok_single)
      have "8 \<le> 4 * (d - 5)" using 3 by simp
      then have all: "length (bytes_of cs) = 4 * (d - 5)"
        using less.prems(8) chunk_ok_keep [OF ok] True by (simp add: cs)
      then have "rm_length (csa_meta ?t) = 0" using less.prems(9) t(3) by simp
      from csa_no_rest [OF last this] input(2) t(1,2) True have "csa.moves ?t 1 [] rest []" by simp
      from csa.moves_Suc [OF this out acct] show ?thesis
        using all True by (intro exI [of _ "Suc 1"] exI [of _ "[]"]) (simp add: cs)
    next
      case False
      then have c: "\<not> ax_tlast c" "getLen c = 8" "payload_ok cs'" using less.prems(7) by (simp_all add: cs payload_ok_Cons)
      have eq: "4 * (d - 5) = 4 * (d - 2 - 5) + 8" using 3 by simp
      have len: "length (bytes_of cs) = 8 + length (bytes_of cs')" using c(2) by (simp add: cs)
      have "4 * (d - 2 - 5) \<le> length (bytes_of cs')" using less.prems(8) unfolding eq len by simp
      moreover have "rm_length (csa_meta ?t) = 0 \<longleftrightarrow> length (bytes_of cs') = 4 * (d - 2 - 5)"
        using less.prems(9) unfolding t(3) eq len by simp
      moreover have "length (items (ssCsaToTid_Data ?t)) + length cs' < depth (ssCsaToTid_Data ?t)"
        using less.prems(10) by (simp add: t(2) cs)
      moreover have "d - 2 < d" "5 \<le> d - 2" using 3 by simp_all
      ultimately obtain j ws where ws: "csa.moves ?t j cs' rest ws" "bytes_of ws = drop (4 * (d - 2 - 5)) (bytes_of cs')"
        "ws \<noteq> [] \<longrightarrow> payload_ok ws"
        using less.IH [of "d - 2" ?t cs'] t(1,7-9) c(1,3) by blast
      have "drop (4 * (d - 5)) (bytes_of cs) = drop (4 * (d - 2 - 5)) (bytes_of cs')"
        unfolding eq using c(2) by (simp add: cs)
      with csa.moves_Suc [OF ws(1) out acct] ws(2,3) show ?thesis
        by (intro exI [of _ "Suc j"] exI [of _ ws]) (simp add: cs)
    qed
  qed
qed

section \<open>The verdict\<close>

lemma csa_fold_small: "unat v \<le> 65535 \<Longrightarrow> csa_fold v = v"
proof (rule word_unat_eq_iff [THEN iffD2])
  assume "unat v \<le> 65535"
  then show "unat (csa_fold v) = unat v"
    using unat_csum_fold [of v] by (simp add: csa_fold_def csum_fold_def)
qed

text \<open>The verification starts when no rest is held, or when a rest cannot be sent.\<close>

definition csa_at_verdict :: "'a RXf_scheme \<Rightarrow> bool" where
  "csa_at_verdict s \<longleftrightarrow> csa_chunkCount s = 0 \<and> csa_doCSumVerif s \<and> (csa_residue s \<longrightarrow> sfull (ssCsaToTid_Data s))"

lemma csa_verifies: "csa_at_verdict s \<Longrightarrow> pCheckSumAccumulator s = csa_verify s"
  by (auto simp: csa_at_verdict_def pCheckSumAccumulator_def)

lemma csa_verify_run:
  assumes "csa_at_verdict s" "csa_cc_state s = 0" "lanes_inv (csa_tcp_sums s) n"
  defines "ok \<equiv> (NOT (of_nat (ones_sum n)) = (0 :: 16 word))"
  shows "let t = (pCheckSumAccumulator ^^ 5) s in csa_chunkCount t = 0 \<and> \<not> csa_doCSumVerif t \<and>
    csa_tcp_sums t = SubCSums_zero \<and> csa_cc_state t = 0 \<and> csa_residue t = csa_residue s \<and>
    ssIphToCsa_PseudoPkt t = ssIphToCsa_PseudoPkt s \<and> ssCsaToTid_Data t = ssCsaToTid_Data s \<and>
    items (ssCsaToMdh_Meta t) = items (ssCsaToMdh_Meta s) @ (if ok then [csa_meta s] else []) \<and>
    items (ssCsaToMdh_SockPair t) = items (ssCsaToMdh_SockPair s) @ (if ok then [csa_socketPair s] else []) \<and>
    items (csa_soPRt_PortStateReq t) = items (csa_soPRt_PortStateReq s) @ (if ok then [csa_tcpDstPort s] else []) \<and>
    items (ssCsaToTid_DataValid t) =
      items (ssCsaToTid_DataValid s) @ (if rm_length (csa_meta s) \<noteq> 0 then [ok] else [])"
proof -
  let ?P = pCheckSumAccumulator and ?v = "csa_tcp_sums s"
  from assms(3) have le: "unat (sum0 ?v) \<le> 65535" "unat (sum1 ?v) \<le> 65535" "unat (sum2 ?v) \<le> 65535"
    "unat (sum3 ?v) \<le> 65535"
    using ones_sum_le by (auto simp: lanes_inv_def)
  have over: "csa_at_verdict (s\<lparr>csa_tcp_sums := v, csa_cc_state := k\<rparr>)" for v k
    using assms(1) by (simp add: csa_at_verdict_def)
  have t1: "?P s = s\<lparr>csa_tcp_sums := ?v, csa_cc_state := 1\<rparr>"
    using csa_verifies [OF assms(1)] assms(2) le by (simp add: csa_verify_def Let_def csa_fold_small)
  let ?v2 = "?v\<lparr>sum0 := csa_fold (sum0 ?v + sum2 ?v), sum1 := csa_fold (sum1 ?v + sum3 ?v)\<rparr>"
  have t2: "?P (?P s) = s\<lparr>csa_tcp_sums := ?v2, csa_cc_state := 2\<rparr>"
    unfolding t1 csa_verifies [OF over] by (simp add: csa_verify_def Let_def)
  let ?v3 = "?v2\<lparr>sum0 := csa_fold (sum0 ?v2 + sum1 ?v2)\<rparr>"
  have t3: "?P (?P (?P s)) = s\<lparr>csa_tcp_sums := ?v3, csa_cc_state := 3\<rparr>"
    unfolding t2 csa_verifies [OF over] by (simp add: csa_verify_def Let_def)
  let ?v4 = "?v3\<lparr>sum0 := NOT (sum0 ?v3)\<rparr>"
  have t4: "?P (?P (?P (?P s))) = s\<lparr>csa_tcp_sums := ?v4, csa_cc_state := 4\<rparr>"
    unfolding t3 csa_verifies [OF over] by (simp add: csa_verify_def Let_def)
  have "ucast (sum0 ?v4) = NOT (of_nat (ones_sum n) :: 16 word)"
    using tca_csum_sum [OF assms(3)] by (simp add: tca_csum_def csa_fold_def csum_fold_def)
  moreover have "take_bit 16 w = 0 \<longleftrightarrow> (ucast w :: 16 word) = 0" for w :: "17 word"
    by (auto simp: bit_eq_iff bit_take_bit_iff bit_ucast_iff)
  ultimately have ok: "take_bit 16 (sum0 ?v4) = 0 \<longleftrightarrow> ok" unfolding ok_def by simp
  have t5: "(?P ^^ 5) s = csa_verdict (s\<lparr>csa_tcp_sums := ?v4, csa_cc_state := 4\<rparr>)"
  proof -
    have "(?P ^^ 5) s = ?P (?P (?P (?P (?P s))))" by (simp add: eval_nat_numeral)
    then show ?thesis unfolding t4 csa_verifies [OF over] by (simp add: csa_verify_def)
  qed
  show ?thesis
    unfolding t5 csa_verdict_def using ok assms(1)
    by (cases ok; cases "rm_length (csa_meta s) = 0") (simp_all add: Let_def csa_at_verdict_def)
qed

end
