(* ===== verification/Rx_Accept.thy ===== *)
theory Rx_Accept
  imports Rx_Checksum
begin

text \<open>
  The front of the Rx engine as a whole: it accepts an IPv4 packet exactly when the checksum of its TCP
  segment is right, and then recovers the metadata, the socket pair and the payload that a reference
  parser reads in its bytes; in particular in the reference encoding of a segment (\<open>Ip_Path\<close> runs the
  Tx engine, which makes these bytes).
\<close>

section \<open>Reading numbers in bytes\<close>

definition u16 :: "8 word list \<Rightarrow> nat \<Rightarrow> 16 word" where
  "u16 bs i = word_cat (bs ! i) (bs ! (i + 1))"

definition u32 :: "8 word list \<Rightarrow> nat \<Rightarrow> 32 word" where
  "u32 bs i = word_cat (u16 bs i) (u16 bs (i + 2))"

lemma get16_u16: "l < 7 \<Longrightarrow> get16 (8 * l) c = word_cat (byte_of c l) (byte_of c (l + 1))"
  by (rule bit_word_eqI)
    (auto simp: get16_def byte_of_def byteSwap16_def bit_nth_byte bit_get_range bit_word_cat_iff bit_ucast_iff
      bit_drop_bit_eq algebra_simps)

lemma get32_u32:
  "l < 5 \<Longrightarrow> get32 (8 * l) c = word_cat (word_cat (byte_of c l) (byte_of c (l + 1)) :: 16 word)
     (word_cat (byte_of c (l + 2)) (byte_of c (l + 3)) :: 16 word)"
  by (rule bit_word_eqI)
    (auto simp: get32_def byte_of_def byteSwap32_def bit_nth_byte bit_get_range bit_word_cat_iff bit_ucast_iff
      bit_drop_bit_eq algebra_simps)

lemma get_nibbles:
  "getTcpDataOff c = ucast (drop_bit 4 (byte_of c 0))" "getIp4HdrLen c = ucast (byte_of c 0)"
  by (rule bit_word_eqI; auto simp: getTcpDataOff_def getIp4HdrLen_def byte_of_def bit_nth_byte bit_get_range
      bit_ucast_iff bit_drop_bit_eq add.commute)+

lemma getTcpCtrl_byte: "i < 8 \<Longrightarrow> getTcpCtrl (8 + i) c = bit (byte_of c 1) i"
  by (simp add: getTcpCtrl_def byte_of_def bit_nth_byte)

lemma be_u16: "word_cat (be16 v ! 0) (be16 v ! 1) = v"
  by (rule bit_word_eqI) (auto simp: be16_def bit_word_cat_iff bit_ucast_iff bit_drop_bit_eq)

lemma be_u32: "word_cat (word_cat (be32 v ! 0) (be32 v ! 1) :: 16 word) (word_cat (be32 v ! 2) (be32 v ! 3) :: 16 word) = v"
  by (rule bit_word_eqI) (auto simp: be32_def bit_word_cat_iff bit_ucast_iff bit_drop_bit_eq)

section \<open>The reference parser\<close>

definition tcp_off :: "8 word list \<Rightarrow> nat" where
  "tcp_off seg = unat (drop_bit 4 (seg ! 12))"

text \<open>The metadata of a segment, and the socket pair of a segment between two addresses.\<close>

definition seg_meta :: "8 word list \<Rightarrow> RXeMeta" where
  "seg_meta seg = \<lparr>rm_seqNumb = u32 seg 4, rm_ackNumb = u32 seg 8, rm_winSize = u16 seg 14,
     rm_length = of_nat (length seg - 4 * tcp_off seg), rm_ack = bit (seg ! 13) 4, rm_rst = bit (seg ! 13) 2,
     rm_syn = bit (seg ! 13) 1, rm_fin = bit (seg ! 13) 0\<rparr>"

definition seg_pair :: "8 word list \<Rightarrow> 8 word list \<Rightarrow> SocketPair" where
  "seg_pair addrs seg = \<lparr>sp_src = \<lparr>sa_addr = u32 addrs 0, sa_port = u16 seg 0\<rparr>,
     sp_dst = \<lparr>sa_addr = u32 addrs 4, sa_port = u16 seg 2\<rparr>\<rparr>"

definition psd_packet :: "8 word list \<Rightarrow> 8 word list \<Rightarrow> 8 word list" where
  "psd_packet addrs seg = addrs @ [0, 6] @ be16 (of_nat (length seg)) @ seg"

definition seg_ok :: "8 word list \<Rightarrow> bool" where
  "seg_ok seg \<longleftrightarrow> 20 \<le> length seg \<and> length seg < 65536 \<and> 5 \<le> tcp_off seg \<and> 4 * tcp_off seg \<le> length seg"

section \<open>The checksum accumulator on a packet\<close>

lemma payload_bytes_nonempty:
  assumes "payload_ok cs"
  shows "0 < length (bytes_of cs)"
proof -
  obtain c cs' where "cs = c # cs'" using payload_ok_nonempty [OF assms] by (cases cs) auto
  then show ?thesis using assms by (simp add: payload_ok_def chunk_ok_def)
qed

text \<open>The fields of the header chunks of a pseudo packet.\<close>

lemma psd_chunk_bytes:
  assumes "psd_packet addrs seg = chunk_bytes c0 @ chunk_bytes c1 @ chunk_bytes c2 @ chunk_bytes c3 @ tail"
    and "getLen c0 = 8" "getLen c1 = 8" "getLen c2 = 8" "getLen c3 = 8" "length addrs = 8"
  shows "map (byte_of c0) [0, 1, 2, 3, 4, 5, 6, 7] = addrs"
    "map (byte_of c1) [0, 1, 2, 3, 4, 5, 6, 7] = [0, 6] @ be16 (of_nat (length seg)) @ take 4 seg"
    "map (byte_of c2) [0, 1, 2, 3, 4, 5, 6, 7] = take 8 (drop 4 seg)"
    "map (byte_of c3) [0, 1, 2, 3, 4, 5, 6, 7] = take 8 (drop 12 seg)" "tail = drop 20 seg"
proof -
  note len = assms(2-5)
  have be: "length (be16 v) = 2" for v by (simp add: be16_def)
  have "take 8 (psd_packet addrs seg) = chunk_bytes c0" "take 8 (drop 8 (psd_packet addrs seg)) = chunk_bytes c1"
    "take 8 (drop 16 (psd_packet addrs seg)) = chunk_bytes c2" "take 8 (drop 24 (psd_packet addrs seg)) = chunk_bytes c3"
    "drop 32 (psd_packet addrs seg) = tail"
    unfolding assms(1) using len by simp_all
  moreover have "take 8 (psd_packet addrs seg) = addrs"
    "take 8 (drop 8 (psd_packet addrs seg)) = [0, 6] @ be16 (of_nat (length seg)) @ take 4 seg"
    "drop 16 (psd_packet addrs seg) = drop 4 seg" "drop 24 (psd_packet addrs seg) = drop 12 seg"
    "drop 32 (psd_packet addrs seg) = drop 20 seg"
    by (simp_all add: psd_packet_def assms(6) be eval_nat_numeral)
  ultimately show "map (byte_of c0) [0, 1, 2, 3, 4, 5, 6, 7] = addrs"
    "map (byte_of c1) [0, 1, 2, 3, 4, 5, 6, 7] = [0, 6] @ be16 (of_nat (length seg)) @ take 4 seg"
    "map (byte_of c2) [0, 1, 2, 3, 4, 5, 6, 7] = take 8 (drop 4 seg)"
    "map (byte_of c3) [0, 1, 2, 3, 4, 5, 6, 7] = take 8 (drop 12 seg)" "tail = drop 20 seg"
    using len by (simp_all add: chunk_bytes_8)
qed

text \<open>What the accumulator reads in the four header chunks.\<close>

definition csa_meta_of :: "AxisPsd4 \<Rightarrow> AxisPsd4 \<Rightarrow> AxisPsd4 \<Rightarrow> RXeMeta" where
  "csa_meta_of c1 c2 c3 = \<lparr>rm_seqNumb = getTcpSeqNum c2, rm_ackNumb = getTcpAckNum c2, rm_winSize = getTcpWindow c3,
     rm_length = getPsd4Len c1 - ucast (getTcpDataOff c3) * 4, rm_ack = getTcpCtrl 12 c3,
     rm_rst = getTcpCtrl 10 c3, rm_syn = getTcpCtrl 9 c3, rm_fin = getTcpCtrl 8 c3\<rparr>"

definition csa_pair_of :: "AxisPsd4 \<Rightarrow> AxisPsd4 \<Rightarrow> SocketPair" where
  "csa_pair_of c0 c1 = \<lparr>sp_src = \<lparr>sa_addr = getPsd4SrcAddr c0, sa_port = getTcpSrcPort c1\<rparr>,
     sp_dst = \<lparr>sa_addr = getPsd4DstAddr c0, sa_port = getTcpDstPort c1\<rparr>\<rparr>"

definition csa_after_header :: "'a RXf_scheme \<Rightarrow> AxisPsd4 \<Rightarrow> AxisPsd4 \<Rightarrow> AxisPsd4 \<Rightarrow> AxisPsd4 \<Rightarrow> AxisPsd4 list \<Rightarrow> 'a RXf_scheme" where
  "csa_after_header s c0 c1 c2 c3 cs =
     (let t = s\<lparr>ssIphToCsa_PseudoPkt := Stream (depth (ssIphToCsa_PseudoPkt s)) cs, csa_doShift := False,
        csa_socketPair := csa_pair_of c0 c1, csa_tcpDstPort := getTcpDstPort c1, csa_meta := csa_meta_of c1 c2 c3,
        csa_dataOffset := getTcpDataOff c3, csa_tcpCSum := getTcpChecksum c3,
        csa_tcp_sums := fold sca_add [c0, c1, c2, c3] SubCSums_zero\<rparr>
      in if ax_tlast c3 then t\<lparr>csa_chunkCount := 0, csa_residue := False, csa_doCSumVerif := True\<rparr>
         else t\<lparr>csa_chunkCount := 4\<rparr>)"

lemma csa_header:
  assumes "csa_chunkCount s = 0 \<and> \<not> csa_doCSumVerif s \<and> csa_tcp_sums s = SubCSums_zero" "items (ssIphToCsa_PseudoPkt s) = c0 # c1 # c2 # c3 # cs"
    and "\<not> ax_tlast c0" "\<not> ax_tlast c1" "\<not> ax_tlast c2"
    and "length (items (ssCsaToTid_Data s)) < depth (ssCsaToTid_Data s)"
  shows "(pCheckSumAccumulator ^^ 4) s = csa_after_header s c0 c1 c2 c3 cs"
proof -
  let ?P = pCheckSumAccumulator and ?d = "depth (ssIphToCsa_PseudoPkt s)"
  have idle: "csa_chunkCount s = 0" "\<not> csa_doCSumVerif s" "csa_tcp_sums s = SubCSums_zero"
    using assms(1) by simp_all
  let ?p1 = "(csa_socketPair s)\<lparr>sp_src := (sp_src (csa_socketPair s))\<lparr>sa_addr := getPsd4SrcAddr c0\<rparr>,
    sp_dst := (sp_dst (csa_socketPair s))\<lparr>sa_addr := getPsd4DstAddr c0\<rparr>\<rparr>"
  have t1: "?P s = s\<lparr>ssIphToCsa_PseudoPkt := Stream ?d (c1 # c2 # c3 # cs), csa_doShift := False,
      csa_socketPair := ?p1, csa_chunkCount := 1, csa_tcp_sums := fold sca_add [c0] SubCSums_zero\<rparr>" (is "_ = ?t1")
    using csa_tick [OF assms(2) idle(2) assms(6)] idle assms(3)
    by (simp add: csa_take_def csa_chunk_def csa_accumulate_sca)
  have p2: "?p1\<lparr>sp_src := (sp_src ?p1)\<lparr>sa_port := getTcpSrcPort c1\<rparr>,
      sp_dst := (sp_dst ?p1)\<lparr>sa_port := getTcpDstPort c1\<rparr>\<rparr> = csa_pair_of c0 c1"
    by (simp add: csa_pair_of_def)
  have t2: "?P ?t1 = s\<lparr>ssIphToCsa_PseudoPkt := Stream ?d (c2 # c3 # cs), csa_doShift := False,
      csa_socketPair := csa_pair_of c0 c1, csa_tcpDstPort := getTcpDstPort c1,
      csa_meta := (csa_meta s)\<lparr>rm_length := getPsd4Len c1\<rparr>, csa_chunkCount := 2,
      csa_tcp_sums := fold sca_add [c0, c1] SubCSums_zero\<rparr>" (is "_ = ?t2")
    using csa_tick [of ?t1 c1 "c2 # c3 # cs"] idle assms(4,6) p2
    by (simp add: csa_take_def csa_chunk_def csa_accumulate_sca)
  have t3: "?P ?t2 = s\<lparr>ssIphToCsa_PseudoPkt := Stream ?d (c3 # cs), csa_doShift := False,
      csa_socketPair := csa_pair_of c0 c1, csa_tcpDstPort := getTcpDstPort c1,
      csa_meta := (csa_meta s)\<lparr>rm_length := getPsd4Len c1, rm_seqNumb := getTcpSeqNum c2, rm_ackNumb := getTcpAckNum c2\<rparr>,
      csa_chunkCount := 3, csa_tcp_sums := fold sca_add [c0, c1, c2] SubCSums_zero\<rparr>" (is "_ = ?t3")
    using csa_tick [of ?t2 c2 "c3 # cs"] idle assms(5,6)
    by (simp add: csa_take_def csa_chunk_def csa_accumulate_sca)
  have t4: "?P ?t3 = csa_after_header s c0 c1 c2 c3 cs"
    using csa_tick [of ?t3 c3 cs] idle assms(6)
    by (simp add: csa_take_def csa_chunk_def csa_accumulate_sca csa_after_header_def Let_def csa_meta_of_def)
  have "(?P ^^ 4) s = ?P (?P (?P (?P s)))" by (simp add: eval_nat_numeral)
  then show ?thesis unfolding t1 t2 t3 t4 .
qed

lemma nth_of_map_8: "map f [0, 1, 2, 3, 4, 5, 6, 7 :: nat] = xs \<Longrightarrow> i < 8 \<Longrightarrow> f i = xs ! i"
  by (auto simp: eval_nat_numeral less_Suc_eq)

lemma seg_meta_length:
  assumes "seg_ok seg"
  shows "unat (rm_length (seg_meta seg)) = length seg - 4 * tcp_off seg"
    "rm_length (seg_meta seg) = 0 \<longleftrightarrow> length seg = 4 * tcp_off seg"
proof -
  show u: "unat (rm_length (seg_meta seg)) = length seg - 4 * tcp_off seg"
  proof -
    have "length seg - 4 * tcp_off seg < 2 ^ 16"
      by (rule le_less_trans [OF diff_le_self]) (use assms in \<open>simp add: seg_ok_def\<close>)
    then show ?thesis by (simp add: seg_meta_def unsigned_of_nat take_bit_nat_eq_self del: of_nat_diff)
  qed
  have "rm_length (seg_meta seg) = 0 \<longleftrightarrow> unat (rm_length (seg_meta seg)) = 0" by (simp add: unat_eq_0)
  then show "rm_length (seg_meta seg) = 0 \<longleftrightarrow> length seg = 4 * tcp_off seg"
    unfolding u using assms by (auto simp: seg_ok_def)
qed

lemma unat_nibble: "unat (ucast (drop_bit 4 b) :: 4 word) = unat (drop_bit 4 (b :: 8 word))"
proof -
  have b: "unat b < 256" using unsigned_less [of b] by simp
  then have "unat (drop_bit 4 b) = unat b div 16"
    by (simp add: unsigned_drop_bit_eq take_bit_nat_eq_self) (simp add: drop_bit_eq_div)
  with b have "unat (drop_bit 4 b) < 16" by simp
  then show ?thesis by (simp add: unsigned_ucast_eq take_bit_nat_eq_self)
qed

lemma csa_fields:
  assumes "psd_packet addrs seg = chunk_bytes c0 @ chunk_bytes c1 @ chunk_bytes c2 @ chunk_bytes c3 @ tail"
    and "getLen c0 = 8" "getLen c1 = 8" "getLen c2 = 8" "getLen c3 = 8" "length addrs = 8" "seg_ok seg"
  shows "csa_meta_of c1 c2 c3 = seg_meta seg" "csa_pair_of c0 c1 = seg_pair addrs seg"
    "getTcpDstPort c1 = u16 seg 2" "unat (getTcpDataOff c3) = tcp_off seg"
proof -
  note b = psd_chunk_bytes [OF assms(1-6)]
  have len: "20 \<le> length seg" using assms(7) by (simp add: seg_ok_def)
  have be: "length (be16 v) = 2" for v by (simp add: be16_def)
  have c0: "byte_of c0 i = addrs ! i" if "i < 8" for i using nth_of_map_8 [OF b(1)] that by simp
  have c1: "byte_of c1 (2 + i) = be16 (of_nat (length seg)) ! i" if "i < 2" for i
    using nth_of_map_8 [OF b(2), of "2 + i"] that by (simp add: be nth_append)
  have c1': "byte_of c1 (4 + i) = seg ! i" if "i < 4" for i
    using nth_of_map_8 [OF b(2), of "4 + i"] that len by (simp add: be nth_append)
  have c2: "byte_of c2 i = seg ! (4 + i)" if "i < 8" for i
    using nth_of_map_8 [OF b(3)] that len by (simp add: add.commute)
  have c3: "byte_of c3 i = seg ! (12 + i)" if "i < 8" for i
    using nth_of_map_8 [OF b(4)] that len by (simp add: add.commute)
  show off: "unat (getTcpDataOff c3) = tcp_off seg"
    using c3 [of 0] by (simp add: get_nibbles tcp_off_def unat_nibble)
  have port: "getTcpSrcPort c1 = u16 seg 0" "getTcpDstPort c1 = u16 seg 2"
    using get16_u16 [of 4 c1] get16_u16 [of 6 c1] c1' [of 0] c1' [of 1] c1' [of 2] c1' [of 3]
    by (simp_all add: getTcpSrcPort_def getTcpDstPort_def u16_def)
  then show "getTcpDstPort c1 = u16 seg 2" by simp
  show "csa_pair_of c0 c1 = seg_pair addrs seg"
    using get32_u32 [of 0 c0] get32_u32 [of 4 c0] c0 port
    by (simp add: csa_pair_of_def seg_pair_def getPsd4SrcAddr_def getPsd4DstAddr_def u32_def u16_def eval_nat_numeral)
  have plen: "getPsd4Len c1 = of_nat (length seg)"
    using get16_u16 [of 2 c1] c1 [of 0] c1 [of 1] be_u16 by (simp add: getPsd4Len_def)
  have "(ucast (getTcpDataOff c3) :: 16 word) = of_nat (tcp_off seg)" using off [symmetric] by simp
  then have "getPsd4Len c1 - ucast (getTcpDataOff c3) * 4 = of_nat (length seg - 4 * tcp_off seg)"
    using assms(7) by (simp add: plen seg_ok_def of_nat_diff)
  moreover have "getTcpSeqNum c2 = u32 seg 4" "getTcpAckNum c2 = u32 seg 8" "getTcpWindow c3 = u16 seg 14"
    using get32_u32 [of 0 c2] get32_u32 [of 4 c2] get16_u16 [of 2 c3] c2 c3
    by (simp_all add: getTcpSeqNum_def getTcpAckNum_def getTcpWindow_def u32_def u16_def eval_nat_numeral)
  moreover have "getTcpCtrl (8 + i) c3 = bit (seg ! 13) i" if "i < 8" for i
    using getTcpCtrl_byte [OF that] c3 [of 1] by simp
  from this [of 4] this [of 2] this [of 1] this [of 0] have "getTcpCtrl 12 c3 = bit (seg ! 13) 4"
    "getTcpCtrl 10 c3 = bit (seg ! 13) 2" "getTcpCtrl 9 c3 = bit (seg ! 13) 1" "getTcpCtrl 8 c3 = bit (seg ! 13) 0"
    by simp_all
  ultimately show "csa_meta_of c1 c2 c3 = seg_meta seg" by (simp add: csa_meta_of_def seg_meta_def)
qed

lemma lanes_inv_fold:
  assumes "lanes_inv v k" "\<forall>c \<in> set xs. chunk_ok c" "\<forall>c \<in> set (butlast xs). getLen c = 8"
  shows "lanes_inv (fold sca_add xs v) (k + inet_sum (bytes_of xs))"
  using assms
proof (induction xs arbitrary: v k)
  case (Cons x xs)
  have "lanes_inv (sca_add x v) (k + inet_sum (chunk_bytes x))" by (rule lanes_inv_add) (use Cons.prems in simp_all)
  from Cons.IH [OF this] Cons.prems show ?case
    by (cases "xs = []") (simp_all add: inet_sum_append add.assoc)
qed simp

lemma fold_apfst: "fold (\<lambda>c. apfst (f c)) xs (a, b) = (fold f xs a, b)"
  by (induction xs arbitrary: a) simp_all

lemma csa_run:
  assumes "csa_idle s" "items (ssIphToCsa_PseudoPkt s) = cs @ rest" "payload_ok cs"
    and "bytes_of cs = psd_packet addrs seg" "length addrs = 8" "seg_ok seg"
    and "length (items (ssCsaToTid_Data s)) + length cs < depth (ssCsaToTid_Data s)"
  defines "ok \<equiv> (inet_checksum (psd_packet addrs seg) = 0)"
  shows "\<exists>j ws. let t = (pCheckSumAccumulator ^^ j) s in csa_idle t \<and> items (ssIphToCsa_PseudoPkt t) = rest \<and>
    items (ssCsaToTid_Data t) = items (ssCsaToTid_Data s) @ ws \<and>
    bytes_of ws = drop (4 * tcp_off seg) seg \<and> (ws \<noteq> [] \<longrightarrow> payload_ok ws) \<and>
    items (ssCsaToMdh_Meta t) = items (ssCsaToMdh_Meta s) @ (if ok then [seg_meta seg] else []) \<and>
    items (ssCsaToMdh_SockPair t) = items (ssCsaToMdh_SockPair s) @ (if ok then [seg_pair addrs seg] else []) \<and>
    items (csa_soPRt_PortStateReq t) = items (csa_soPRt_PortStateReq s) @ (if ok then [u16 seg 2] else []) \<and>
    items (ssCsaToTid_DataValid t) =
      items (ssCsaToTid_DataValid s) @ (if length seg = 4 * tcp_off seg then [] else [ok])"
proof -
  let ?P = pCheckSumAccumulator
  have sok: "20 \<le> length seg" "5 \<le> tcp_off seg" "4 * tcp_off seg \<le> length seg" using assms(6) by (simp_all add: seg_ok_def)
  have n: "length (bytes_of cs) = 12 + length seg" using assms(4,5) by (simp add: psd_packet_def be16_def)
  have "8 < length (bytes_of cs)" using n by simp
  from payload_split [OF assms(3) this] obtain c0 cs0 where c0: "cs = c0 # cs0" "getLen c0 = 8" "\<not> ax_tlast c0"
    "chunk_ok c0" "payload_ok cs0" "length (bytes_of cs) = 8 + length (bytes_of cs0)" .
  have "8 < length (bytes_of cs0)" using n sok(1) c0(6) by simp
  from payload_split [OF c0(5) this] obtain c1 cs1 where c1: "cs0 = c1 # cs1" "getLen c1 = 8" "\<not> ax_tlast c1"
    "chunk_ok c1" "payload_ok cs1" "length (bytes_of cs0) = 8 + length (bytes_of cs1)" .
  have "8 < length (bytes_of cs1)" using n sok(1) c0(6) c1(6) by simp
  from payload_split [OF c1(5) this] obtain c2 cs2 where c2: "cs1 = c2 # cs2" "getLen c2 = 8" "\<not> ax_tlast c2"
    "chunk_ok c2" "payload_ok cs2" "length (bytes_of cs1) = 8 + length (bytes_of cs2)" .
  obtain c3 cs3 where c3: "cs2 = c3 # cs3" using payload_ok_nonempty [OF c2(5)] by (cases cs2) auto
  have ok3: "chunk_ok c3" using c2(5) by (simp add: c3 payload_ok_def)
  have more: "8 \<le> length (bytes_of cs2)" using n sok(1) c0(6) c1(6) c2(6) by simp
  have len3: "getLen c3 = 8"
    using more c2(5) chunk_ok_keep [OF ok3] by (cases "cs3 = []") (simp_all add: c3 payload_ok_Cons)
  have bytes: "psd_packet addrs seg = chunk_bytes c0 @ chunk_bytes c1 @ chunk_bytes c2 @ chunk_bytes c3 @ bytes_of cs3"
    using assms(4) by (simp add: c0(1) c1(1) c2(1) c3)
  note fields = csa_fields [OF bytes c0(2) c1(2) c2(2) len3 assms(5,6)]
  note tail = psd_chunk_bytes(5) [OF bytes c0(2) c1(2) c2(2) len3 assms(5)]
  have input: "items (ssIphToCsa_PseudoPkt s) = c0 # c1 # c2 # c3 # (cs3 @ rest)"
    using assms(2) by (simp add: c0(1) c1(1) c2(1) c3)
  have space: "length (items (ssCsaToTid_Data s)) < depth (ssCsaToTid_Data s)" using assms(7) by simp
  have "csa_chunkCount s = 0 \<and> \<not> csa_doCSumVerif s \<and> csa_tcp_sums s = SubCSums_zero"
    using assms(1) by (simp add: csa_idle_def)
  note hdr = csa_header [OF this input c0(3) c1(3) c2(3) space]
  let ?t = "csa_after_header s c0 c1 c2 c3 (cs3 @ rest)" and ?v = "fold sca_add [c0, c1, c2, c3] SubCSums_zero"
  have known: "csa_known ?t = (seg_meta seg, seg_pair addrs seg, u16 seg 2, 0, ssCsaToMdh_Meta s,
      ssCsaToMdh_SockPair s, csa_soPRt_PortStateReq s, ssCsaToTid_DataValid s)"
    using fields assms(1) by (simp add: csa_known_def csa_after_header_def Let_def csa_idle_def)
  have t: "csa_tcp_sums ?t = ?v" "ssCsaToTid_Data ?t = ssCsaToTid_Data s" "items (ssIphToCsa_PseudoPkt ?t) = cs3 @ rest"
    by (simp_all add: csa_after_header_def Let_def)
  have "\<exists>j ws. csa.moves ?t j cs3 rest ws \<and> bytes_of ws = drop (4 * tcp_off seg) seg \<and> (ws \<noteq> [] \<longrightarrow> payload_ok ws)"
  proof (cases "cs3 = []")
    case True
    then have last: "ax_tlast c3" using c2(5) by (simp add: c3 payload_ok_single)
    then have "csa_over ?t" by (simp add: csa_after_header_def csa_over_def Let_def)
    moreover have "length seg = 20" using tail sok(1) True by simp
    ultimately show ?thesis
      using True sok t(3) by (intro exI [of _ 0] exI [of _ "[]"]) (simp add: csa.moves_def Let_def t(2))
  next
    case False
    then have c: "\<not> ax_tlast c3" "payload_ok cs3" using c2(5) by (simp_all add: c3 payload_ok_Cons)
    have st: "csa_chunkCount ?t = 4" "\<not> csa_doCSumVerif ?t" "\<not> csa_doShift ?t" "unat (csa_dataOffset ?t) = tcp_off seg"
      using c(1) fields(4) assms(1) by (simp_all add: csa_after_header_def Let_def csa_idle_def)
    have len: "length (bytes_of cs3) = length seg - 20" using tail by simp
    have "4 * (tcp_off seg - 5) \<le> length (bytes_of cs3)" using sok len by simp
    moreover have "csa_meta ?t = seg_meta seg" using known by (simp add: csa_known_def)
    then have "rm_length (csa_meta ?t) = 0 \<longleftrightarrow> length (bytes_of cs3) = 4 * (tcp_off seg - 5)"
      using seg_meta_length(2) [OF assms(6)] sok len by auto
    moreover have "length (items (ssCsaToTid_Data ?t)) + length cs3 < depth (ssCsaToTid_Data ?t)"
      using assms(7) by (simp add: t(2) c0(1) c1(1) c2(1) c3)
    ultimately obtain j ws where ws: "csa.moves ?t j cs3 rest ws"
      "bytes_of ws = drop (4 * (tcp_off seg - 5)) (bytes_of cs3)" "ws \<noteq> [] \<longrightarrow> payload_ok ws"
      using csa_options [OF st sok(2) t(3) c(2)] by blast
    moreover have "4 * (tcp_off seg - 5) + 20 = 4 * tcp_off seg" using sok(2) by simp
    then have "drop (4 * (tcp_off seg - 5)) (bytes_of cs3) = drop (4 * tcp_off seg) seg"
      unfolding tail by (simp only: drop_drop)
    ultimately show ?thesis by (intro exI [of _ j] exI [of _ ws]) simp
  qed
  then obtain j ws where ws: "csa.moves ?t j cs3 rest ws" "bytes_of ws = drop (4 * tcp_off seg) seg"
    "ws \<noteq> [] \<longrightarrow> payload_ok ws" by blast
  let ?u = "(?P ^^ j) ?t"
  have u: "csa_over ?u" "items (ssIphToCsa_PseudoPkt ?u) = rest" "items (ssCsaToTid_Data ?u) = items (ssCsaToTid_Data s) @ ws"
    "csa_tcp_sums ?u = fold sca_add cs SubCSums_zero" "csa_known ?u = csa_known ?t"
    using ws(1) by (simp_all add: csa.moves_def Let_def fold_apfst t(1,2) c0(1) c1(1) c2(1) c3)
  have sums: "lanes_inv (csa_tcp_sums ?u) (inet_sum (psd_packet addrs seg))"
    using lanes_inv_fold [OF lanes_inv_zero, of cs] assms(3,4) by (simp add: u(4) payload_ok_def)
  have k: "csa_meta ?u = seg_meta seg" "csa_socketPair ?u = seg_pair addrs seg" "csa_tcpDstPort ?u = u16 seg 2"
    "csa_cc_state ?u = 0" "ssCsaToMdh_Meta ?u = ssCsaToMdh_Meta s" "ssCsaToMdh_SockPair ?u = ssCsaToMdh_SockPair s"
    "csa_soPRt_PortStateReq ?u = csa_soPRt_PortStateReq s" "ssCsaToTid_DataValid ?u = ssCsaToTid_DataValid s"
    using u(5) unfolding known by (simp_all add: csa_known_def)
  have ok: "NOT (of_nat (ones_sum (inet_sum (psd_packet addrs seg)))) = (0 :: 16 word) \<longleftrightarrow> ok"
    by (simp add: ok_def inet_checksum_def)
  have "(?P ^^ (5 + (j + 4))) s = (?P ^^ 5) ?u" by (simp only: funpow_add o_apply hdr)
  moreover have "csa_at_verdict ?u" "\<not> csa_residue ?u" using u(1) by (simp_all add: csa_over_def csa_at_verdict_def)
  ultimately show ?thesis
    using csa_verify_run [OF _ k(4) sums] ws(2,3) seg_meta_length(2) [OF assms(6)]
    unfolding ok k Let_def u(2,3)
    by (intro exI [of _ "5 + (j + 4)"] exI [of _ ws]) (simp add: u(2,3) csa_idle_def)
qed

section \<open>The front of the engine\<close>

definition ip_words :: "8 word list \<Rightarrow> nat" where
  "ip_words pkt = unat (ucast (pkt ! 0) :: 4 word)"

definition pkt_addrs :: "8 word list \<Rightarrow> 8 word list" where
  "pkt_addrs pkt = take 8 (drop 12 pkt)"

definition pkt_seg :: "8 word list \<Rightarrow> 8 word list" where
  "pkt_seg pkt = drop (4 * ip_words pkt) pkt"

text \<open>An IPv4 packet whose length fields are right.\<close>

definition pkt_ok :: "8 word list \<Rightarrow> bool" where
  "pkt_ok pkt \<longleftrightarrow> 5 \<le> ip_words pkt \<and> u16 pkt 2 = of_nat (length pkt) \<and> length pkt < 65536 \<and>
     seg_ok (pkt_seg pkt)"

definition rxf_ready :: "'a RXf_scheme \<Rightarrow> bool" where
  "rxf_ready s \<longleftrightarrow> tle_idle s \<and> iph_idle s \<and> csa_idle s \<and> items (ssTleToIph_Data s) = [] \<and>
     items (ssTleToIph_TcpSegLen s) = [] \<and> items (ssIphToCsa_PseudoPkt s) = []"

definition rxf_room :: "'a RXf_scheme \<Rightarrow> nat \<Rightarrow> bool" where
  "rxf_room s n \<longleftrightarrow> n < depth (ssTleToIph_Data s) \<and> n < depth (ssIphToCsa_PseudoPkt s) \<and>
     length (items (ssCsaToTid_Data s)) + n < depth (ssCsaToTid_Data s)"

text \<open>Each process runs until it has nothing left to do, in the order of the stages.\<close>

definition rxf_stages :: "AxisApp \<Rightarrow> nat \<Rightarrow> nat \<Rightarrow> nat \<Rightarrow> 'a RXf_scheme \<Rightarrow> 'a RXf_scheme" where
  "rxf_stages junk a b c s =
     (pCheckSumAccumulator ^^ c) ((pInsertPseudoHeader junk ^^ b) ((pTcpLengthExtractor ^^ a) s))"

definition iph_part :: "'a RXf_scheme \<Rightarrow> _" where
  "iph_part s = (iph_chunkCount s, iph_residue s, ssIphToCsa_PseudoPkt s)"

definition csa_part :: "'a RXf_scheme \<Rightarrow> _" where
  "csa_part s = (csa_chunkCount s, csa_doCSumVerif s, csa_residue s, csa_tcp_sums s, csa_known s, ssCsaToTid_Data s)"

lemma rxf_keeps:
  "iph_part (pTcpLengthExtractor s) = iph_part s" "csa_part (pTcpLengthExtractor s) = csa_part s"
  "csa_part (pInsertPseudoHeader junk s) = csa_part s"
  by (simp_all add: iph_part_def csa_part_def csa_known_def pTcpLengthExtractor_def tle_chunk_def tle_put_def
      pInsertPseudoHeader_def iph_put_def iph_end_def Let_def split: option.split)

definition tle_part :: "'a RXf_scheme \<Rightarrow> _" where
  "tle_part s = (tle_chunkCount s, tle_residue s)"

definition front_part :: "'a RXf_scheme \<Rightarrow> _" where
  "front_part s = (tle_part s, iph_chunkCount s, iph_residue s, ssTleToIph_Data s, ssTleToIph_TcpSegLen s)"

lemma rxf_keeps_front:
  "tle_part (pInsertPseudoHeader junk s) = tle_part s" "front_part (pCheckSumAccumulator s) = front_part s"
  by (simp_all add: tle_part_def front_part_def pInsertPseudoHeader_def iph_put_def iph_end_def
      pCheckSumAccumulator_def csa_take_def csa_chunk_def csa_put_def csa_save_half_def csa_flush_def
      csa_verify_def csa_verdict_def Let_def split: option.split)

lemma length_le_bytes: "payload_ok cs \<Longrightarrow> length cs \<le> length (bytes_of cs)"
  using length_body [of "[]" cs] by simp

lemma hd_bytes:
  assumes "payload_ok cs" "8 < length (bytes_of cs)" "i < 8"
  shows "byte_of (hd cs) i = bytes_of cs ! i"
proof -
  obtain c cs' where c: "cs = c # cs'" "getLen c = 8"
    using payload_split [OF assms(1,2)] by metis
  then show ?thesis using assms(3) by (simp add: nth_append chunk_bytes_byte_of)
qed

text \<open>What the front has handed on after a packet.\<close>

definition rxf_result :: "'a RXf_scheme \<Rightarrow> 'a RXf_scheme \<Rightarrow> bool \<Rightarrow> RXeMeta \<Rightarrow> SocketPair \<Rightarrow> 8 word list \<Rightarrow> bool" where
  "rxf_result s t ok m p bs \<longleftrightarrow>
     items (ssCsaToMdh_Meta t) = items (ssCsaToMdh_Meta s) @ (if ok then [m] else []) \<and>
     items (ssCsaToMdh_SockPair t) = items (ssCsaToMdh_SockPair s) @ (if ok then [p] else []) \<and>
     items (csa_soPRt_PortStateReq t) = items (csa_soPRt_PortStateReq s) @ (if ok then [sa_port (sp_dst p)] else []) \<and>
     items (ssCsaToTid_DataValid t) = items (ssCsaToTid_DataValid s) @ (if bs = [] then [] else [ok]) \<and>
     (\<exists>ws. items (ssCsaToTid_Data t) = items (ssCsaToTid_Data s) @ ws \<and> bytes_of ws = bs \<and>
       (ws \<noteq> [] \<longrightarrow> payload_ok ws))"

lemma rxf_packet:
  assumes "rxf_ready s" "items (rxf_siIPRX_Data s) = cs @ rest" "payload_ok cs" "pkt_ok (bytes_of cs)"
    and "rxf_room s (length (bytes_of cs))"
  defines "pkt \<equiv> bytes_of cs"
  shows "\<exists>a b c. rxf_ready (rxf_stages junk a b c s) \<and>
    rxf_result s (rxf_stages junk a b c s) (inet_checksum (psd_packet (pkt_addrs pkt) (pkt_seg pkt)) = 0)
      (seg_meta (pkt_seg pkt)) (seg_pair (pkt_addrs pkt) (pkt_seg pkt))
      (drop (4 * tcp_off (pkt_seg pkt)) (pkt_seg pkt))"
proof -
  let ?seg = "pkt_seg pkt" and ?addrs = "pkt_addrs pkt"
  have pk: "5 \<le> ip_words pkt" "u16 pkt 2 = of_nat (length pkt)" "length pkt < 65536" "seg_ok ?seg"
    using assms(4) by (simp_all add: pkt_ok_def pkt_def)
  have seg: "length ?seg = length pkt - 4 * ip_words pkt" "20 \<le> length ?seg"
    using pk(4) by (simp_all add: pkt_seg_def seg_ok_def)
  then have long: "4 * ip_words pkt + 20 \<le> length pkt" by linarith
  then have "8 < length (bytes_of cs)" by (simp add: pkt_def)
  note hd = hd_bytes [OF assms(3) this, folded pkt_def]
  have words: "ip_hdr_words cs = ip_words pkt"
    using hd [of 0] by (simp add: ip_hdr_words_def ip_words_def get_nibbles)
  have "getIp4TotalLen (hd cs) = u16 pkt 2"
    using get16_u16 [of 2 "hd cs"] hd [of 2] hd [of 3] by (simp add: getIp4TotalLen_def u16_def)
  moreover have "(ucast (getIp4HdrLen (hd cs)) :: 16 word) = of_nat (ip_words pkt)"
    using words [symmetric] by (simp add: ip_hdr_words_def)
  ultimately have dlen: "ip_data_len cs = of_nat (length ?seg)"
    using pk(2) long by (simp add: ip_data_len_def seg(1) of_nat_diff)
  have ipok: "ip_ok cs" using assms(3) pk(1) long by (simp add: ip_ok_def words flip: pkt_def)
  have room: "length pkt < depth (ssTleToIph_Data s)" "length pkt < depth (ssIphToCsa_PseudoPkt s)"
    "length (items (ssCsaToTid_Data s)) + length pkt < depth (ssCsaToTid_Data s)"
    using assms(5) by (simp_all add: rxf_room_def pkt_def)
  have r: "tle_idle s" "items (ssTleToIph_Data s) = []" "items (ssTleToIph_TcpSegLen s) = []"
    using assms(1) by (simp_all add: rxf_ready_def)
  have "length (items (ssTleToIph_Data s)) + length cs < depth (ssTleToIph_Data s)"
    using length_le_bytes [OF assms(3)] room(1) by (simp add: r(2) flip: pkt_def)
  from tle_run [OF r(1) assms(2) ipok this] obtain a w1 where a: "tle_idle ((pTcpLengthExtractor ^^ a) s)"
    "items (ssTleToIph_Data ((pTcpLengthExtractor ^^ a) s)) = w1 @ []"
    "items (ssTleToIph_TcpSegLen ((pTcpLengthExtractor ^^ a) s)) = [of_nat (length ?seg)]" "payload_ok w1"
    "bytes_of w1 = ?addrs @ ?seg"
    unfolding Let_def r(2,3) dlen words pkt_addrs_def pkt_seg_def pkt_def by auto
  let ?s1 = "(pTcpLengthExtractor ^^ a) s"
  have k1: "iph_part ?s1 = iph_part s" "csa_part ?s1 = csa_part s"
    by (rule funpow_keeps, rule rxf_keeps)+
  have addrs: "length ?addrs = 8" using long pk(1) by (simp add: pkt_addrs_def)
  have i: "iph_idle ?s1" "items (ssIphToCsa_PseudoPkt ?s1) = []" "depth (ssIphToCsa_PseudoPkt ?s1) = depth (ssIphToCsa_PseudoPkt s)"
    using k1(1) assms(1) by (simp_all add: iph_part_def iph_idle_def rxf_ready_def)
  have w1: "length w1 \<le> length pkt" "20 \<le> length (bytes_of w1)"
    using length_le_bytes [OF a(4)] seg addrs long pk(1) unfolding a(5) by simp_all
  have "length (items (ssIphToCsa_PseudoPkt ?s1)) + length w1 < depth (ssIphToCsa_PseudoPkt ?s1)"
    using w1(1) room(2) by (simp add: i(2,3))
  from iph_run [OF i(1) a(2,4) w1(2) a(3) this, of junk] obtain b w2 where
    b: "iph_idle ((pInsertPseudoHeader junk ^^ b) ?s1)" "items (ssTleToIph_Data ((pInsertPseudoHeader junk ^^ b) ?s1)) = []"
    "items (ssTleToIph_TcpSegLen ((pInsertPseudoHeader junk ^^ b) ?s1)) = []"
    "items (ssIphToCsa_PseudoPkt ((pInsertPseudoHeader junk ^^ b) ?s1)) = w2 @ []" "payload_ok w2"
    "bytes_of w2 = psd_packet ?addrs ?seg"
    unfolding Let_def i(2) a(5) using addrs by (auto simp: psd_packet_def)
  let ?s2 = "(pInsertPseudoHeader junk ^^ b) ?s1"
  have k2: "csa_part ?s2 = csa_part ?s1" by (rule funpow_keeps, rule rxf_keeps)
  have c: "csa_idle ?s2" "csa_known ?s2 = csa_known s" "ssCsaToTid_Data ?s2 = ssCsaToTid_Data s"
    using k2 k1(2) assms(1) by (simp_all add: csa_part_def csa_idle_def rxf_ready_def csa_known_def)
  have "length (items (ssCsaToTid_Data ?s2)) + length w2 < depth (ssCsaToTid_Data ?s2)"
    using length_le_bytes [OF b(5)] seg addrs long pk(1) room(3) unfolding b(6) c(3)
    by (simp add: psd_packet_def be16_def)
  note run = csa_run [OF c(1) b(4,5,6) addrs pk(4) this]
  have known: "ssCsaToMdh_Meta ?s2 = ssCsaToMdh_Meta s" "ssCsaToMdh_SockPair ?s2 = ssCsaToMdh_SockPair s"
    "csa_soPRt_PortStateReq ?s2 = csa_soPRt_PortStateReq s" "ssCsaToTid_DataValid ?s2 = ssCsaToTid_DataValid s"
    using c(2) by (simp_all add: csa_known_def)
  have tail: "(drop (4 * tcp_off ?seg) ?seg = []) = (length ?seg = 4 * tcp_off ?seg)"
    using pk(4) by (auto simp: seg_ok_def)
  have "front_part ((pCheckSumAccumulator ^^ n) ?s2) = front_part ?s2" for n
    by (rule funpow_keeps, rule rxf_keeps_front)
  moreover have "tle_part ?s2 = tle_part ?s1" by (rule funpow_keeps, rule rxf_keeps_front)
  ultimately have idle: "tle_idle ((pCheckSumAccumulator ^^ n) ?s2)" "iph_idle ((pCheckSumAccumulator ^^ n) ?s2)"
    "items (ssTleToIph_Data ((pCheckSumAccumulator ^^ n) ?s2)) = []"
    "items (ssTleToIph_TcpSegLen ((pCheckSumAccumulator ^^ n) ?s2)) = []" for n
    using a(1) b(1-3) by (simp_all add: front_part_def tle_part_def tle_idle_def iph_idle_def)
  have "sa_port (sp_dst (seg_pair ?addrs ?seg)) = u16 ?seg 2" by (simp add: seg_pair_def)
  with run idle show ?thesis
    unfolding known c(3) Let_def rxf_result_def rxf_stages_def rxf_ready_def tail by metis
qed

section \<open>Packets of the Tx engine\<close>

lemma length_be [simp]: "length (be16 v) = 2" "length (be32 w) = 4"
  by (simp_all add: be16_def be32_def)

text \<open>The data length of the metadata counts the option of a SYN.\<close>

definition tx_fits :: "TXeMeta \<Rightarrow> 8 word list \<Rightarrow> bool" where
  "tx_fits m bs \<longleftrightarrow> unat (txm_length m) = length (tcp_options m) + length bs \<and> unat (txm_length m) \<le> 65495"

definition rx_meta_of :: "TXeMeta \<Rightarrow> 8 word list \<Rightarrow> RXeMeta" where
  "rx_meta_of m bs = \<lparr>rm_seqNumb = txm_seqNumb m, rm_ackNumb = txm_ackNumb m, rm_winSize = txm_winSize m,
     rm_length = of_nat (length bs), rm_ack = txm_ack m, rm_rst = txm_rst m, rm_syn = txm_syn m, rm_fin = txm_fin m\<rparr>"

lemma tcp_flags_bits:
  "bit (tcp_flags m) 4 = txm_ack m" "bit (tcp_flags m) 2 = txm_rst m" "bit (tcp_flags m) 1 = txm_syn m"
  "bit (tcp_flags m) 0 = txm_fin m"
  by (cases "txm_ack m"; cases "txm_rst m"; cases "txm_syn m"; cases "txm_fin m"; simp add: tcp_flags_def bit_iff_odd)+

lemma txe_segment_reads:
  fixes p x
  assumes "tx_fits m bs"
  defines "seg \<equiv> txe_segment p m x bs"
  shows "seg_ok seg" "seg_meta seg = rx_meta_of m bs" "drop (4 * tcp_off seg) seg = bs"
    "seg_pair (be32 (sa_addr (sp_src p)) @ be32 (sa_addr (sp_dst p))) seg = p"
    "length seg = 20 + unat (txm_length m)"
proof -
  have tail: "length (tcp_options m) = (if txm_syn m then 4 else 0)" by (simp add: tcp_options_def)
  have off: "tcp_off seg = (if txm_syn m then 6 else 5)"
    by (simp add: tcp_off_def seg_def txe_segment_def tcp_header_def nth_append)
  show len: "length seg = 20 + unat (txm_length m)"
    using assms(1) by (simp add: seg_def txe_segment_def tcp_header_def tx_fits_def)
  show "seg_ok seg" using assms(1) tail by (auto simp: seg_ok_def off len tx_fits_def)
  show data: "drop (4 * tcp_off seg) seg = bs"
    unfolding off by (simp add: seg_def txe_segment_def tcp_header_def tcp_options_def)
  have "length seg - 4 * tcp_off seg = length bs" using arg_cong [OF data, of length] by simp
  then show "seg_meta seg = rx_meta_of m bs"
    using be_u32 [of "txm_seqNumb m"] be_u32 [of "txm_ackNumb m"] be_u16 [of "txm_winSize m"]
    by (simp add: seg_meta_def rx_meta_of_def seg_def txe_segment_def tcp_header_def nth_append u32_def u16_def
        tcp_flags_bits tcp_flags_bits(3) [unfolded One_nat_def])
  have "u32 (be32 a @ be32 b) 0 = a" "u32 (be32 a @ be32 b) 4 = b" for a b
    using be_u32 [of a] be_u32 [of b] by (simp_all add: u32_def u16_def nth_append eval_nat_numeral)
  moreover have "u16 seg 0 = sa_port (sp_src p)" "u16 seg 2 = sa_port (sp_dst p)"
    using be_u16 [of "sa_port (sp_src p)"] be_u16 [of "sa_port (sp_dst p)"]
    by (simp_all add: u16_def seg_def txe_segment_def tcp_header_def nth_append)
  ultimately show "seg_pair (be32 (sa_addr (sp_src p)) @ be32 (sa_addr (sp_dst p))) seg = p"
    by (simp add: seg_pair_def)
qed

text \<open>The checksum of a segment that carries its own checksum is zero.\<close>

lemma inet_sum_field:
  "even (length xs) \<Longrightarrow> inet_sum (xs @ be16 v @ ys) = inet_sum (xs @ be16 0 @ ys) + unat v"
proof -
  assume xs: "even (length xs)"
  have "unat (ucast v :: 17 word) = unat v"
  proof -
    have "unat v < 2 ^ 17" by (rule less_le_trans [OF unsigned_less]) simp
    then show ?thesis by (simp add: unsigned_ucast_eq take_bit_nat_eq_self)
  qed
  then have "inet_sum (be16 v) = unat v"
    using unat_word_cat_8 [of "be16 v ! 0" "be16 v ! 1"] unfolding be_u16 by (simp add: be16_def)
  then show ?thesis using xs by (simp add: inet_sum_append) (simp add: be16_def)
qed

lemma inet_checksum_verifies:
  assumes "even (length xs)"
  shows "inet_checksum (xs @ be16 (inet_checksum (xs @ be16 0 @ ys)) @ ys) = 0"
proof -
  let ?n = "inet_sum (xs @ be16 0 @ ys)"
  have "unat (of_nat (ones_sum ?n) :: 16 word) = ones_sum ?n"
    using ones_sum_le [of ?n] by (simp add: unsigned_of_nat take_bit_nat_eq_self)
  moreover have "unat (NOT w) = 65535 - unat w" for w :: "16 word"
  proof -
    have "NOT w = -1 - w" by (simp add: not_eq_complement)
    moreover have "unat (-1 :: 16 word) = 65535" by (simp add: unsigned_minus_1_eq_mask mask_eq_exp_minus_1)
    ultimately show ?thesis using unat_sub [of w "-1"] by (simp only: word_n1_ge simp_thms)
  qed
  ultimately have "unat (inet_checksum (xs @ be16 0 @ ys)) = 65535 - ones_sum ?n"
    by (simp add: inet_checksum_def)
  then have "inet_sum (xs @ be16 (inet_checksum (xs @ be16 0 @ ys)) @ ys) = ?n + (65535 - ones_sum ?n)"
    using inet_sum_field [OF assms, of "inet_checksum (xs @ be16 0 @ ys)"] by (simp only:)
  moreover have "ones_sum (?n + (65535 - ones_sum ?n)) = 65535"
    using ones_sum_add [of ?n "65535 - ones_sum ?n"] ones_sum_le [of ?n] by (simp add: ones_sum_id)
  ultimately show ?thesis unfolding inet_checksum_def by simp
qed

lemma txe_segment_verifies:
  fixes p
  assumes "tx_fits m bs"
  defines "seg \<equiv> txe_segment p m (txe_checksum_of p m bs) bs"
  shows "inet_checksum (psd_packet (be32 (sa_addr (sp_src p)) @ be32 (sa_addr (sp_dst p))) seg) = 0"
proof -
  let ?pre = "be16 (sa_port (sp_src p)) @ be16 (sa_port (sp_dst p)) @ be32 (txm_seqNumb m) @ be32 (txm_ackNumb m) @
    [if txm_syn m then 0x60 else 0x50, tcp_flags m] @ be16 (txm_winSize m)"
  let ?xs = "pseudo_header p (txm_length m) @ ?pre" and ?ys = "[0, 0] @ tcp_options m @ bs"
  have split: "pseudo_header p (txm_length m) @ txe_segment p m x bs = ?xs @ be16 x @ ?ys" for x
    by (simp add: txe_segment_def tcp_header_def)
  have "(of_nat (length seg) :: 16 word) = txm_length m + 20"
    using txe_segment_reads(5) [OF assms(1)] by (simp add: seg_def)
  then have "psd_packet (be32 (sa_addr (sp_src p)) @ be32 (sa_addr (sp_dst p))) seg = pseudo_header p (txm_length m) @ seg"
    by (simp add: psd_packet_def pseudo_header_def)
  also have "\<dots> = ?xs @ be16 (txe_checksum_of p m bs) @ ?ys" unfolding seg_def by (rule split)
  finally show ?thesis
    using inet_checksum_verifies [of ?xs ?ys] unfolding txe_checksum_of_def split
    by (simp add: pseudo_header_def)
qed

text \<open>The packet on the wire: the IPv4 checksum that a later module fills is not looked at.\<close>

definition wire_packet :: "SocketPair \<Rightarrow> TXeMeta \<Rightarrow> 8 word list \<Rightarrow> 16 word \<Rightarrow> 8 word list" where
  "wire_packet p m bs x = (txe_packet p m bs)[10 := be16 x ! 0, 11 := be16 x ! 1]"

lemma wire_packet_reads:
  fixes p x
  assumes "tx_fits m bs"
  defines "pkt \<equiv> wire_packet p m bs x" and "seg \<equiv> txe_segment p m (txe_checksum_of p m bs) bs"
  shows "pkt_seg pkt = seg" "pkt_addrs pkt = be32 (sa_addr (sp_src p)) @ be32 (sa_addr (sp_dst p))"
    "pkt_ok pkt" "length pkt = 40 + unat (txm_length m)"
proof -
  have eq: "pkt = [0x45, 0] @ be16 (40 + txm_length m) @ [0, 0, 0, 0, 0x40, 6, be16 x ! 0, be16 x ! 1] @
      be32 (sa_addr (sp_src p)) @ be32 (sa_addr (sp_dst p)) @ seg"
    by (simp add: pkt_def wire_packet_def txe_packet_def ip_header_def seg_def be16_def be32_def)
  have words: "ip_words pkt = 5" by (simp add: eq ip_words_def)
  show seg: "pkt_seg pkt = seg" by (simp add: pkt_seg_def words) (simp add: eq)
  show "pkt_addrs pkt = be32 (sa_addr (sp_src p)) @ be32 (sa_addr (sp_dst p))" by (simp add: pkt_addrs_def eq)
  have sl: "length seg = 20 + unat (txm_length m)" unfolding seg_def by (rule txe_segment_reads(5) [OF assms(1)])
  show len: "length pkt = 40 + unat (txm_length m)" by (simp add: eq sl)
  have "u16 pkt 2 = 40 + txm_length m"
    using be_u16 [of "40 + txm_length m"] by (simp add: eq u16_def nth_append eval_nat_numeral)
  moreover have "(of_nat (length pkt) :: 16 word) = 40 + txm_length m" unfolding len by simp
  moreover have "length pkt < 65536" using assms(1) unfolding len by (simp add: tx_fits_def)
  moreover have "seg_ok (pkt_seg pkt)" unfolding seg seg_def by (rule txe_segment_reads(1) [OF assms(1)])
  ultimately show "pkt_ok pkt" using words by (simp add: pkt_ok_def)
qed

section \<open>The properties\<close>

text \<open>C18. The Rx engine accepts a segment exactly when its checksum is right, and reads what the
  reference parser reads.  When a well-formed IPv4 packet with any IP and TCP options has
  arrived and the front of the engine is idle, the three processes hand the payload on, byte by byte
  and well-formed; if the Internet checksum of the pseudo header and the segment is zero, they give
  the metadata handler the numbers, the window, the control bits and the payload length of the
  segment and its socket pair, and ask the port table for the state of its port, once; otherwise
  nothing of that. The dropper gets the verdict when there is payload.  Then the front is idle
  again.  (The streams are deep enough for the packet, as the processes run one after the other.)\<close>

theorem rxe_reads_packet:
  assumes "rxf_ready s" "items (rxf_siIPRX_Data s) = cs @ rest" "payload_ok cs" "bytes_of cs = pkt" "pkt_ok pkt"
    and "rxf_room s (length pkt)"
  shows "\<exists>a b c. rxf_ready (rxf_stages junk a b c s) \<and>
    rxf_result s (rxf_stages junk a b c s) (inet_checksum (psd_packet (pkt_addrs pkt) (pkt_seg pkt)) = 0)
      (seg_meta (pkt_seg pkt)) (seg_pair (pkt_addrs pkt) (pkt_seg pkt))
      (drop (4 * tcp_off (pkt_seg pkt)) (pkt_seg pkt))"
  using rxf_packet [of s cs rest junk] assms by simp

lemma rxe_reads_wire:
  assumes "rxf_ready s" "items (rxf_siIPRX_Data s) = cs @ rest" "payload_ok cs"
    and "bytes_of cs = wire_packet p m bs x" "tx_fits m bs" "rxf_room s (40 + unat (txm_length m))"
  shows "\<exists>a b c. rxf_ready (rxf_stages junk a b c s) \<and>
    rxf_result s (rxf_stages junk a b c s) True (rx_meta_of m bs) p bs"
proof -
  note pkt = wire_packet_reads [OF assms(5), of p x]
  note seg = txe_segment_reads [OF assms(5), of p "txe_checksum_of p m bs"]
  have "rxf_room s (length (bytes_of cs))" using assms(6) unfolding assms(4) pkt(4) .
  from rxf_packet [OF assms(1-3) _ this, of junk] pkt(3) show ?thesis
    unfolding assms(4) pkt(1,2) seg(2-4) txe_segment_verifies [OF assms(5)] by simp
qed

definition rxf_example :: "AxisIp4 list \<Rightarrow> RXf" where
  "rxf_example cs = MDh.extend mdh_reset
     \<lparr>rxf_siIPRX_Data = Stream 64 cs, ssTleToIph_Data = Stream 64 [], ssTleToIph_TcpSegLen = Stream 2 [],
     tle_chunkCount = 0, tle_residue = False, tle_shift = False, tle_ip4HdrLen = 0, tle_ip4TotLen = 0,
     tle_ipDataLen = 0, tle_prevChunk = AxisApp_zero, ssIphToCsa_PseudoPkt = Stream 64 [], iph_residue = False,
     iph_chunkCount = 0, iph_prevChunk = AxisApp_zero, csa_soPRt_PortStateReq = Stream 4 [], csa_chunkCount = 0,
     csa_doCSumVerif = False, csa_residue = False, csa_cc_state = 0, csa_tcp_sums = SubCSums_zero, csa_dataOffset = 0,
     csa_doShift = False, csa_socketPair = packet_pair, csa_meta = RXeMeta_zero, csa_tcpDstPort = 0, csa_tcpCSum = 0,
     csa_half_tdata = 0, csa_half_tkeep = 0\<rparr>"

lemmas rxf_example_defs = rxf_example_def MDh.extend_def mdh_instance_defs

lemma rxf_example_ready:
  "rxf_ready (rxf_example cs)" "items (rxf_siIPRX_Data (rxf_example cs)) = cs @ []" "rxf_room (rxf_example cs) 43"
  by (simp_all add: rxf_ready_def rxf_room_def tle_idle_def iph_idle_def csa_idle_def rxf_example_defs)

text \<open>The packet of the Tx engine's example, with the last byte of its payload as a parameter.\<close>

definition packet_chunks :: "64 word \<Rightarrow> AxisIp4 list" where
  "packet_chunks d = [chunk 0x2B000045 0xFF False, chunk 0x1080C0A00000640 0xFF False, chunk 0x80632232080C0A 0xFF False, chunk 0x20000000100000 0xFF False, chunk 0x21B400011050 0xFF False, chunk d 7 True]"

lemma packet_chunks_ok:
  "payload_ok (packet_chunks d)"
  "bytes_of (packet_chunks d) = [69, 0, 0, 43, 0, 0, 0, 0, 64, 6, 0, 0, 10, 12, 8, 1, 10, 12, 8, 50, 34, 99, 128, 0,
     0, 0, 16, 0, 0, 0, 32, 0, 80, 16, 1, 0, 180, 33, 0, 0, nth_byte d 0, nth_byte d 1, nth_byte d 2]"
proof -
  have len: "getLen (chunk x 0xFF l) = 8" "getLen (chunk x 7 l) = 3" for x l
    by (simp_all add: getLen_def chunk_def keepToLen_def)
  show "payload_ok (packet_chunks d)"
    by (simp add: packet_chunks_def payload_ok_Cons payload_ok_single chunk_ok_def len) (simp add: chunk_def)
  show "bytes_of (packet_chunks d) = [69, 0, 0, 43, 0, 0, 0, 0, 64, 6, 0, 0, 10, 12, 8, 1, 10, 12, 8, 50, 34, 99, 128, 0,
     0, 0, 16, 0, 0, 0, 32, 0, 80, 16, 1, 0, 180, 33, 0, 0, nth_byte d 0, nth_byte d 1, nth_byte d 2]"
    by (simp add: packet_chunks_def chunk_bytes_def len upt_upto_8 del: upt.simps) (simp add: chunk_def nth_byte_def)
qed

text \<open>The payload 1, 2, 4 instead of 1, 2, 3: the metadata handler gets nothing, the dropper a bad verdict.\<close>

theorem rxe_reads_packet_witness:
  "\<exists>a b c. let t = rxf_stages AxisApp_zero a b c (rxf_example (packet_chunks 0x040201)) in
     items (ssCsaToMdh_Meta t) = [] \<and> items (ssCsaToTid_DataValid t) = [False]"
proof -
  let ?pkt = "[69, 0, 0, 43, 0, 0, 0, 0, 64, 6, 0, 0, 10, 12, 8, 1, 10, 12, 8, 50, 34, 99, 128, 0,
     0, 0, 16, 0, 0, 0, 32, 0, 80, 16, 1, 0, 180, 33, 0, 0, 1, 2, 4] :: 8 word list"
  have bytes: "bytes_of (packet_chunks 0x040201) = ?pkt" by (simp add: packet_chunks_ok nth_byte_def)
  have words: "ip_words ?pkt = 5" by (simp add: ip_words_def)
  have seg: "pkt_seg ?pkt = [34, 99, 128, 0, 0, 0, 16, 0, 0, 0, 32, 0, 80, 16, 1, 0, 180, 33, 0, 0, 1, 2, 4]"
    by (simp add: pkt_seg_def words)
  have off: "tcp_off (pkt_seg ?pkt) = 5" by (simp add: seg tcp_off_def)
  have ok: "pkt_ok ?pkt" using words off by (simp add: pkt_ok_def seg_ok_def seg u16_def)
  have bad: "inet_checksum (psd_packet (pkt_addrs ?pkt) (pkt_seg ?pkt)) \<noteq> 0"
    by (simp add: seg pkt_addrs_def psd_packet_def be16_def inet_checksum_def ones_sum_def)
  have "rxf_room (rxf_example (packet_chunks 0x040201)) (length ?pkt)"
    by (simp add: rxf_room_def rxf_example_defs)
  from rxe_reads_packet [OF rxf_example_ready(1,2) packet_chunks_ok(1) bytes ok this, of AxisApp_zero]
  obtain a b c where "rxf_result (rxf_example (packet_chunks 0x040201))
      (rxf_stages AxisApp_zero a b c (rxf_example (packet_chunks 0x040201))) False
      (seg_meta (pkt_seg ?pkt)) (seg_pair (pkt_addrs ?pkt) (pkt_seg ?pkt)) [1, 2, 4]"
    using bad off by (auto simp: seg)
  then show ?thesis
    by (intro exI [of _ a] exI [of _ b] exI [of _ c]) (simp add: rxf_result_def Let_def rxf_example_defs)
qed

section \<open>A rest that is lost\<close>

text \<open>The end of a payload is lost when the dropper is behind (a defect).  A rest of at most four
  bytes is held after the last chunk of a valid segment while the stream to the dropper is full.  The
  verification then starts without it: five cycles later the dropper has the verdict that the payload may
  pass, and the rest is still held.  When the stream is drained and a segment without payload is the
  next, its four chunks go first, and the rest is forgotten: it is never sent, and the payload
  has no last chunk.\<close>

theorem csa_loses_rest:
  assumes "csa_has_residue s" "rm_length (csa_meta s) \<noteq> 0" "sfull (ssCsaToTid_Data s)" "csa_cc_state s = 0"
    and "lanes_inv (csa_tcp_sums s) n" "ones_sum n = 65535"
    and "\<not> ax_tlast c0" "\<not> ax_tlast c1" "\<not> ax_tlast c2" "ax_tlast c3" "length (items st) < depth st"
  shows "let t = (pCheckSumAccumulator ^^ 5) s;
       u = (pCheckSumAccumulator ^^ 4) (t\<lparr>ssCsaToTid_Data := st, ssIphToCsa_PseudoPkt := Stream d (c0 # c1 # c2 # c3 # cs)\<rparr>)
     in items (ssCsaToTid_DataValid t) = items (ssCsaToTid_DataValid s) @ [True] \<and>
        ssCsaToTid_Data t = ssCsaToTid_Data s \<and> csa_residue t \<and> ssCsaToTid_Data u = st \<and> \<not> csa_residue u"
proof -
  let ?t = "(pCheckSumAccumulator ^^ 5) s"
  let ?t' = "?t\<lparr>ssCsaToTid_Data := st, ssIphToCsa_PseudoPkt := Stream d (c0 # c1 # c2 # c3 # cs)\<rparr>"
  have at: "csa_at_verdict s" "csa_residue s" using assms(1,3) by (simp_all add: csa_at_verdict_def csa_has_residue_def)
  have "NOT (of_nat (ones_sum n)) = (0 :: 16 word)" by (simp add: assms(6))
  with csa_verify_run [OF at(1) assms(4,5)] assms(2) at(2) have t: "csa_chunkCount ?t = 0" "\<not> csa_doCSumVerif ?t"
    "csa_tcp_sums ?t = SubCSums_zero" "csa_residue ?t" "ssCsaToTid_Data ?t = ssCsaToTid_Data s"
    "items (ssCsaToTid_DataValid ?t) = items (ssCsaToTid_DataValid s) @ [True]"
    by (simp_all add: Let_def)
  have "csa_chunkCount ?t' = 0 \<and> \<not> csa_doCSumVerif ?t' \<and> csa_tcp_sums ?t' = SubCSums_zero"
    "items (ssIphToCsa_PseudoPkt ?t') = c0 # c1 # c2 # c3 # cs"
    "length (items (ssCsaToTid_Data ?t')) < depth (ssCsaToTid_Data ?t')"
    using t(1-3) assms(11) by simp_all
  from csa_header [OF this(1,2) assms(7-9) this(3)]
  have "ssCsaToTid_Data ((pCheckSumAccumulator ^^ 4) ?t') = st" "\<not> csa_residue ((pCheckSumAccumulator ^^ 4) ?t')"
    using assms(10) by (simp_all add: csa_after_header_def Let_def)
  with t show ?thesis by (simp add: Let_def)
qed

theorem csa_loses_rest_witness:
  "let s = (rxf_example [])\<lparr>csa_doCSumVerif := True, csa_residue := True, csa_meta := RXeMeta_zero\<lparr>rm_length := 3\<rparr>,
         csa_tcp_sums := SubCSums_zero\<lparr>sum0 := 0xFFFF\<rparr>, ssCsaToTid_Data := Stream 0 []\<rparr>;
       t = (pCheckSumAccumulator ^^ 5) s;
       u = (pCheckSumAccumulator ^^ 4) (t\<lparr>ssCsaToTid_Data := Stream 1 [], ssIphToCsa_PseudoPkt :=
         Stream 8 [chunk 0 0xFF False, chunk 0 0xFF False, chunk 0 0xFF False, chunk 0 0xFF True]\<rparr>)
   in items (ssCsaToTid_DataValid t) = [True] \<and> items (ssCsaToTid_Data u) = []"
proof -
  let ?s = "(rxf_example [])\<lparr>csa_doCSumVerif := True, csa_residue := True, csa_meta := RXeMeta_zero\<lparr>rm_length := 3\<rparr>,
    csa_tcp_sums := SubCSums_zero\<lparr>sum0 := 0xFFFF\<rparr>, ssCsaToTid_Data := Stream 0 []\<rparr>"
  have "lanes_inv (csa_tcp_sums ?s) 65535"
    unfolding lanes_inv_def
    by (rule exI [of _ 65535], rule exI [of _ 0], rule exI [of _ 0], rule exI [of _ 0])
      (simp add: SubCSums_zero_def ones_sum_def)
  moreover have "csa_has_residue ?s" "rm_length (csa_meta ?s) \<noteq> 0" "sfull (ssCsaToTid_Data ?s)" "csa_cc_state ?s = 0"
    "items (ssCsaToTid_DataValid ?s) = []"
    by (simp_all add: csa_has_residue_def sfull_def rxf_example_defs RXeMeta_zero_def)
  moreover have "ones_sum 65535 = 65535" by (simp add: ones_sum_def)
  ultimately show ?thesis
    using csa_loses_rest [of ?s 65535 "chunk 0 0xFF False" "chunk 0 0xFF False" "chunk 0 0xFF False" "chunk 0 0xFF True"
        "Stream 1 []" 8 "[]"]
    unfolding Let_def by (simp add: chunk_def)
qed

end
