(* ===== verification/Rx_Engine.thy ===== *)
theory Rx_Engine
  imports Rx_Accept
begin

text \<open>
  The Rx engine \<open>rx_engine\<close>: all its processes in one state, in the order of the source, and the path
  of a payload from the IP layer to the segment dropper, which a payload with a wrong checksum
  does not reach.
\<close>

section \<open>The engine\<close>

text \<open>\<open>junk\<close> is the chunk that \<open>pInsertPseudoHeader\<close> does not initialise, \<open>junk'\<close> the reply of the Tx SAR
  table that \<open>pFiniteStateMachine\<close> does not initialise.\<close>

definition rx_engine :: "AxisApp \<Rightarrow> RXeTxSarReply \<Rightarrow> 'a RXf_scheme \<Rightarrow> 'a RXf_scheme" where
  "rx_engine junk junk' s =
     pEventMultiplexer (pRxAppNotifier (pRxMemoryWriter (pTcpSegmentDropper
       (pFiniteStateMachine junk' (pMetaDataHandler (pTcpInvalidDropper
         (pCheckSumAccumulator (pInsertPseudoHeader junk (pTcpLengthExtractor s)))))))))"

section \<open>The way of a payload to the segment dropper\<close>

definition tid_part :: "'a RXf_scheme \<Rightarrow> _" where
  "tid_part s = (tid_fsmState s, tid_crcDropCounter s, ssTidToTsd_Data s)"

lemma tid_keeps:
  "tid_part (pTcpLengthExtractor s) = tid_part s" "tid_part (pInsertPseudoHeader junk s) = tid_part s"
  "tid_part (pCheckSumAccumulator s) = tid_part s"
  by (simp_all add: tid_part_def pTcpLengthExtractor_def tle_chunk_def tle_put_def pInsertPseudoHeader_def
      iph_put_def iph_end_def pCheckSumAccumulator_def csa_take_def csa_chunk_def csa_put_def csa_save_half_def
      csa_flush_def csa_verify_def csa_verdict_def Let_def split: option.split)

lemma tid_keeps_stages: "tid_part (rxf_stages junk a b c s) = tid_part s"
proof -
  have "tid_part ((pTcpLengthExtractor ^^ a) s) = tid_part s" by (rule funpow_keeps, rule tid_keeps)
  moreover have "tid_part ((pInsertPseudoHeader junk ^^ b) u) = tid_part u" for u :: "'a RXf_scheme"
    by (rule funpow_keeps, rule tid_keeps)
  moreover have "tid_part ((pCheckSumAccumulator ^^ c) u) = tid_part u" for u :: "'a RXf_scheme"
    by (rule funpow_keeps, rule tid_keeps)
  ultimately show ?thesis by (simp only: rxf_stages_def)
qed

text \<open>One payload with its verdict.\<close>

lemma tid_one:
  assumes "tid_fsmState s = TID_IDLE" "items (ssCsaToTid_DataValid s) = [ok]" "items (ssCsaToTid_Data s) = ws"
    and "payload_ok ws" "length (items (ssTidToTsd_Data s)) + length ws \<le> depth (ssTidToTsd_Data s)"
  shows "\<exists>n. let t = (pTcpInvalidDropper ^^ n) s in tid_fsmState t = TID_IDLE \<and> items (ssCsaToTid_Data t) = [] \<and>
    items (ssCsaToTid_DataValid t) = [] \<and> items (ssTidToTsd_Data t) = items (ssTidToTsd_Data s) @ (if ok then ws else []) \<and>
    tid_crcDropCounter t = (if ok then tid_crcDropCounter s else tid_crcDropCounter s + 1)"
proof -
  let ?t = "pTcpInvalidDropper s"
  have t: "tid_fsmState ?t = (if ok then TID_FWD else TID_DROP)" "items (ssCsaToTid_Data ?t) = ws @ []"
    "items (ssCsaToTid_DataValid ?t) = []" "ssTidToTsd_Data ?t = ssTidToTsd_Data s"
    "tid_crcDropCounter ?t = (if ok then tid_crcDropCounter s else tid_crcDropCounter s + 1)"
    using assms(1,3) by (simp_all add: pTcpInvalidDropper_def sread_cons [OF assms(2)] Let_def)
  have seg: "is_segment ax_tlast ws" using assms(4) by (simp add: payload_ok_def)
  show ?thesis
  proof (cases ok)
    case True
    then have "tid_fsmState ?t = TID_FWD" "length (items (ssTidToTsd_Data ?t)) + length ws \<le> depth (ssTidToTsd_Data ?t)"
      using t(1) assms(5) by (simp_all add: t(4))
    from tid.passes_segment [OF this(1) t(2) seg this(2)] True t(3,4,5) show ?thesis
      by (intro exI [of _ "Suc (length ws)"]) (simp add: Let_def funpow_swap1)
  next
    case False
    then have "tid_fsmState ?t = TID_DROP" using t(1) by simp
    from tid.drops_segment [OF this t(2) seg] False t(3,4,5) show ?thesis
      by (intro exI [of _ "Suc (length ws)"]) (simp add: Let_def funpow_swap1)
  qed
qed

text \<open>C19. Only the payload of a valid segment reaches the segment dropper.  A well-formed packet passes the
  front of the engine and the dropper of invalid segments: the stream of the segment dropper gets the
  payload of the segment if its checksum is right, byte by byte and well-formed, and nothing otherwise; no
  part of the packet is left in between, and the counter of dropped segments counts
  exactly the payloads that were dropped.\<close>

theorem rxe_payload_needs_checksum:
  assumes "rxf_ready s" "items (rxf_siIPRX_Data s) = cs @ rest" "payload_ok cs" "bytes_of cs = pkt" "pkt_ok pkt"
    and "rxf_room s (length pkt)" "tid_fsmState s = TID_IDLE"
    and "items (ssCsaToTid_Data s) = []" "items (ssCsaToTid_DataValid s) = []"
    and "length (items (ssTidToTsd_Data s)) + length pkt \<le> depth (ssTidToTsd_Data s)"
    and "valid = (inet_checksum (psd_packet (pkt_addrs pkt) (pkt_seg pkt)) = 0)"
    and "bs = drop (4 * tcp_off (pkt_seg pkt)) (pkt_seg pkt)"
  shows "\<exists>a b c n ws. let t = (pTcpInvalidDropper ^^ n) (rxf_stages junk a b c s) in
     tid_fsmState t = TID_IDLE \<and> items (ssCsaToTid_Data t) = [] \<and> items (ssCsaToTid_DataValid t) = [] \<and>
     items (ssTidToTsd_Data t) = items (ssTidToTsd_Data s) @ ws \<and>
     (if valid \<and> bs \<noteq> [] then payload_ok ws \<and> bytes_of ws = bs else ws = []) \<and>
     tid_crcDropCounter t = (if \<not> valid \<and> bs \<noteq> [] then tid_crcDropCounter s + 1 else tid_crcDropCounter s)"
proof -
  from rxf_packet [OF assms(1-3), of junk] assms(4-6) obtain a b c where
    r: "rxf_result s (rxf_stages junk a b c s) valid (seg_meta (pkt_seg pkt)) (seg_pair (pkt_addrs pkt) (pkt_seg pkt)) bs"
    unfolding assms(11,12) by auto
  let ?t = "rxf_stages junk a b c s"
  have k: "tid_fsmState ?t = TID_IDLE" "tid_crcDropCounter ?t = tid_crcDropCounter s" "ssTidToTsd_Data ?t = ssTidToTsd_Data s"
    using tid_keeps_stages [of junk a b c s] assms(7) by (simp_all add: tid_part_def)
  from r obtain ws where ws: "items (ssCsaToTid_Data ?t) = ws" "bytes_of ws = bs" "ws \<noteq> [] \<longrightarrow> payload_ok ws"
    "items (ssCsaToTid_DataValid ?t) = (if bs = [] then [] else [valid])"
    using assms(8,9) by (auto simp: rxf_result_def)
  show ?thesis
  proof (cases "bs = []")
    case True
    have "ws = []"
      using ws(2,3) True payload_bytes_nonempty [of ws] by auto
    with True ws k show ?thesis by (intro exI [of _ a] exI [of _ b] exI [of _ c] exI [of _ 0] exI [of _ "[]"]) simp
  next
    case False
    then have pay: "payload_ok ws" using ws(2,3) by auto
    have "length bs \<le> length pkt" by (simp add: assms(12) pkt_seg_def)
    then have "length (items (ssTidToTsd_Data ?t)) + length ws \<le> depth (ssTidToTsd_Data ?t)"
      using length_le_bytes [OF pay] assms(10) by (simp add: ws(2) k(3))
    moreover have "items (ssCsaToTid_DataValid ?t) = [valid]" using ws(4) False by simp
    ultimately obtain n where "let t = (pTcpInvalidDropper ^^ n) ?t in tid_fsmState t = TID_IDLE \<and>
      items (ssCsaToTid_Data t) = [] \<and> items (ssCsaToTid_DataValid t) = [] \<and>
      items (ssTidToTsd_Data t) = items (ssTidToTsd_Data ?t) @ (if valid then ws else []) \<and>
      tid_crcDropCounter t = (if valid then tid_crcDropCounter ?t else tid_crcDropCounter ?t + 1)"
      using tid_one [OF k(1) _ ws(1) pay] by blast
    then show ?thesis
      using False pay ws(2) unfolding k(2,3)
      by (intro exI [of _ a] exI [of _ b] exI [of _ c] exI [of _ n] exI [of _ "if valid then ws else []"])
        (simp add: Let_def)
  qed
qed

theorem rxe_payload_needs_checksum_witness:
  "\<exists>a b c n. let t = (pTcpInvalidDropper ^^ n) (rxf_stages AxisApp_zero a b c
       ((rxf_example (packet_chunks 0x040201))\<lparr>ssTidToTsd_Data := Stream 64 []\<rparr>)) in
     items (ssTidToTsd_Data t) = [] \<and> tid_crcDropCounter t = 1"
proof -
  let ?s = "(rxf_example (packet_chunks 0x040201))\<lparr>ssTidToTsd_Data := Stream 64 []\<rparr>"
  let ?pkt = "[69, 0, 0, 43, 0, 0, 0, 0, 64, 6, 0, 0, 10, 12, 8, 1, 10, 12, 8, 50, 34, 99, 128, 0,
     0, 0, 16, 0, 0, 0, 32, 0, 80, 16, 1, 0, 180, 33, 0, 0, 1, 2, 4] :: 8 word list"
  have seg: "pkt_seg ?pkt = [34, 99, 128, 0, 0, 0, 16, 0, 0, 0, 32, 0, 80, 16, 1, 0, 180, 33, 0, 0, 1, 2, 4]"
    by (simp add: pkt_seg_def ip_words_def)
  have off: "tcp_off (pkt_seg ?pkt) = 5" by (simp add: seg tcp_off_def)
  have ok: "pkt_ok ?pkt" using off by (simp add: pkt_ok_def seg_ok_def seg u16_def ip_words_def)
  have bad: "False = (inet_checksum (psd_packet (pkt_addrs ?pkt) (pkt_seg ?pkt)) = 0)"
    by (simp add: seg pkt_addrs_def psd_packet_def be16_def inet_checksum_def ones_sum_def)
  have bs: "[1, 2, 4] = drop (4 * tcp_off (pkt_seg ?pkt)) (pkt_seg ?pkt)" unfolding off by (simp add: seg)
  have bytes: "bytes_of (packet_chunks 0x040201) = ?pkt" by (simp add: packet_chunks_ok nth_byte_def)
  have s: "rxf_ready ?s" "items (rxf_siIPRX_Data ?s) = packet_chunks 0x040201 @ []" "rxf_room ?s (length ?pkt)"
    "tid_fsmState ?s = TID_IDLE" "items (ssCsaToTid_Data ?s) = []" "items (ssCsaToTid_DataValid ?s) = []"
    "length (items (ssTidToTsd_Data ?s)) + length ?pkt \<le> depth (ssTidToTsd_Data ?s)"
    "items (ssTidToTsd_Data ?s) = []" "tid_crcDropCounter ?s = 0"
    by (simp_all add: rxf_ready_def rxf_room_def tle_idle_def iph_idle_def csa_idle_def rxf_example_defs)
  from rxe_payload_needs_checksum [OF s(1,2) packet_chunks_ok(1) bytes ok s(3-7) bad bs, of AxisApp_zero] s(8,9)
  show ?thesis by (simp add: Let_def) blast
qed

end
