(* ===== verification/Ip_Tx.thy ===== *)
theory Ip_Tx
  imports Tx_Checksum Shifter
begin

text \<open>
  The transmitter of IPv4 packets, \<open>NTS/iptx/src/iptx.cpp\<close>: the accumulator (HCa) sums the header of a
  packet, the inserter (ICi) writes the checksum into it, the extractor (IAe) asks the ARP server for
  the next hop, and the MAC inserter (MAi) prepends the Ethernet header, or drops the packet when the
  server does not know the address.
\<close>

section \<open>State\<close>

record ArpLkpReply =
  lkp_macAddress :: EthAddr
  lkp_hit :: bool

datatype HcaState = HCA_S0 | HCA_S1 | HCA_S2 | HCA_S3
datatype IciState = ICI_S0 | ICI_S1 | ICI_S2
datatype MaiState = MAI_WAIT_LOOKUP | MAI_DROP | MAI_WRITE | MAI_WRITE_FIRST | MAI_WRITE_LAST

record IPTX =
  itx_siL3MUX_Data :: "AxisIp4 stream"
  itx_soL2MUX_Data :: "AxisEth stream"
  itx_soARP_LookupReq :: "Ip4Addr stream"
  itx_siARP_LookupRep :: "ArpLkpReply stream"
  ssHCaToICi_Data :: "AxisIp4 stream"
  ssHCaToICi_Csum :: "16 word stream"
  ssICiToIAe_Data :: "AxisIp4 stream"
  ssIAeToMAi_Data :: "AxisIp4 stream"
  hca_csumWritten :: bool
  hca_fsmState :: HcaState
  hca_ipHdrCsum :: SubCSums
  hca_chunkCount :: "3 word"
  hca_ipHdrLen :: "4 word"
  ici_fsmState :: IciState
  iae_chunkCount :: "2 word"
  mai_fsmState :: MaiState
  mai_prevChunk :: AxisIp4

section \<open>The checksum accumulator\<close>

text \<open>Element \<open>i\<close> of the array of sums takes the two bytes \<open>2 * i\<close> of a chunk, for the \<open>i\<close> of a loop.\<close>

definition hca_add :: "AxisIp4 \<Rightarrow> nat \<Rightarrow> 17 word \<Rightarrow> 17 word" where
  "hca_add c i v = csum_fold (v + ucast (word_cat
     (ucast (get_range (i * 16 + 7) (i * 16) (ax_tdata c)) :: 8 word)
     (ucast (get_range (i * 16 + 15) (i * 16 + 8) (ax_tdata c)) :: 8 word) :: 16 word))"

definition hca_sum :: "(nat \<Rightarrow> bool) \<Rightarrow> AxisIp4 \<Rightarrow> SubCSums \<Rightarrow> SubCSums" where
  "hca_sum P c v = \<lparr>sum0 = (if P 0 then hca_add c 0 (sum0 v) else sum0 v),
     sum1 = (if P 1 then hca_add c 1 (sum1 v) else sum1 v),
     sum2 = (if P 2 then hca_add c 2 (sum2 v) else sum2 v),
     sum3 = (if P 3 then hca_add c 3 (sum3 v) else sum3 v)\<rparr>"

definition hca_chunk :: "AxisIp4 \<Rightarrow> 'a IPTX_scheme \<Rightarrow> 'a IPTX_scheme" where
  "hca_chunk c s =
     (let v = hca_ipHdrCsum s in
      if hca_chunkCount s = 0 then
        s\<lparr>hca_ipHdrCsum := hca_sum (\<lambda>_. True) c v,
          hca_chunkCount := hca_chunkCount s + 1, hca_ipHdrLen := getIp4HdrLen c - 2\<rparr>
      else if hca_chunkCount s = 1 then
        s\<lparr>hca_ipHdrCsum := hca_sum (\<lambda>i. i \<noteq> 1) c v,
          hca_chunkCount := hca_chunkCount s + 1, hca_ipHdrLen := hca_ipHdrLen s - 2\<rparr>
      else if hca_ipHdrLen s = 0 then s
      else if hca_ipHdrLen s = 1 then
        s\<lparr>hca_ipHdrCsum := hca_sum (\<lambda>i. i < 2) c v, hca_ipHdrLen := 0, hca_csumWritten := False\<rparr>
      else
        (let n = hca_ipHdrLen s - 2 in
         s\<lparr>hca_ipHdrCsum := hca_sum (\<lambda>_. True) c v, hca_ipHdrLen := n,
           hca_csumWritten := (if n = 0 then False else hca_csumWritten s)\<rparr>))"

definition hca_finish :: "'a IPTX_scheme \<Rightarrow> 'a IPTX_scheme" where
  "hca_finish s =
     (let v = hca_ipHdrCsum s in
      case hca_fsmState s of
        HCA_S0 \<Rightarrow> s\<lparr>hca_ipHdrCsum := v\<lparr>sum0 := csum_fold (sum0 v + sum2 v), sum1 := csum_fold (sum1 v + sum3 v)\<rparr>,
                     hca_fsmState := HCA_S1\<rparr>
      | HCA_S1 \<Rightarrow> s\<lparr>hca_ipHdrCsum := v\<lparr>sum0 := csum_fold (sum0 v + sum1 v)\<rparr>, hca_fsmState := HCA_S2\<rparr>
      | HCA_S2 \<Rightarrow> s\<lparr>hca_ipHdrCsum := v\<lparr>sum0 := NOT (sum0 v)\<rparr>,
                     ssHCaToICi_Csum := swrite (ssHCaToICi_Csum s) (ucast (NOT (sum0 v))),
                     hca_fsmState := HCA_S3\<rparr>
      | HCA_S3 \<Rightarrow> s\<lparr>hca_ipHdrCsum := SubCSums_zero, hca_csumWritten := True, hca_fsmState := HCA_S0\<rparr>)"

definition pHeaderChecksumAccumulator :: "'a IPTX_scheme \<Rightarrow> 'a IPTX_scheme" where
  "pHeaderChecksumAccumulator s =
     (if \<not> hca_csumWritten s then hca_finish s
      else if sfull (ssHCaToICi_Data s) then s
      else
        (case sread (itx_siL3MUX_Data s) of
           None \<Rightarrow> s
         | Some (c, si) \<Rightarrow>
             (let s = hca_chunk c (s\<lparr>itx_siL3MUX_Data := si\<rparr>);
                  s = s\<lparr>ssHCaToICi_Data := swrite (ssHCaToICi_Data s) c\<rparr>
              in if ax_tlast c then s\<lparr>hca_chunkCount := 0\<rparr> else s)))"

section \<open>The checksum inserter\<close>

definition ici_send :: "AxisIp4 \<Rightarrow> AxisIp4 stream \<Rightarrow> IciState \<Rightarrow> 'a IPTX_scheme \<Rightarrow> 'a IPTX_scheme" where
  "ici_send c si next s =
     s\<lparr>ssHCaToICi_Data := si, ssICiToIAe_Data := swrite (ssICiToIAe_Data s) c,
       ici_fsmState := (if ax_tlast c then ICI_S0 else next)\<rparr>"

definition pIpChecksumInsert :: "'a IPTX_scheme \<Rightarrow> 'a IPTX_scheme" where
  "pIpChecksumInsert s =
     (if sfull (ssICiToIAe_Data s) then s
      else
        (case sread (ssHCaToICi_Data s) of
           None \<Rightarrow> s
         | Some (c, si) \<Rightarrow>
             (case ici_fsmState s of
                ICI_S0 \<Rightarrow> ici_send c si ICI_S1 s
              | ICI_S1 \<Rightarrow>
                  (case sread (ssHCaToICi_Csum s) of
                     None \<Rightarrow> s
                   | Some (csum, sc) \<Rightarrow>
                       ici_send (setIp4HdrCsum csum c) si ICI_S2 (s\<lparr>ssHCaToICi_Csum := sc\<rparr>))
              | ICI_S2 \<Rightarrow> ici_send c si ICI_S2 s)))"

section \<open>The address extractor\<close>

definition next_hop :: "Ip4Addr \<Rightarrow> Ip4Addr \<Rightarrow> Ip4Addr \<Rightarrow> Ip4Addr" where
  "next_hop subnet gateway dst =
     (if dst AND subnet = gateway AND subnet \<or> dst = 0xFFFFFFFF then dst else gateway)"

definition pIp4AddressExtractor :: "Ip4Addr \<Rightarrow> Ip4Addr \<Rightarrow> 'a IPTX_scheme \<Rightarrow> 'a IPTX_scheme" where
  "pIp4AddressExtractor subnet gateway s =
     (if sfull (ssIAeToMAi_Data s) then s
      else
        (case sread (ssICiToIAe_Data s) of
           None \<Rightarrow> s
         | Some (c, si) \<Rightarrow>
             (let s = s\<lparr>ssICiToIAe_Data := si\<rparr>;
                  s = (if iae_chunkCount s = 2 then
                         s\<lparr>itx_soARP_LookupReq :=
                             swrite (itx_soARP_LookupReq s) (next_hop subnet gateway (getIp4DstAddr c)),
                           iae_chunkCount := iae_chunkCount s + 1\<rparr>
                       else if ax_tlast c then s\<lparr>iae_chunkCount := 0\<rparr>
                       else if iae_chunkCount s < 3 then s\<lparr>iae_chunkCount := iae_chunkCount s + 1\<rparr>
                       else s)
              in s\<lparr>ssIAeToMAi_Data := swrite (ssIAeToMAi_Data s) c\<rparr>)))"

section \<open>The MAC inserter\<close>

text \<open>\<open>junk\<close> is the chunk that no constructor initialises; every state writes all of its fields.\<close>

definition mai_hi :: "EthAddr \<Rightarrow> EthAddr \<Rightarrow> AxisEth \<Rightarrow> AxisEth" where
  "mai_hi mac dst junk =
     (setEthSrcAddrHi mac (setEthDstAddr dst junk))\<lparr>ax_tkeep := 0xFF, ax_tlast := False\<rparr>"

definition mai_lo :: "EthAddr \<Rightarrow> AxisIp4 \<Rightarrow> AxisEth \<Rightarrow> AxisEth" where
  "mai_lo mac c junk =
     (eth_setIp4ToS (getIp4ToS c) (eth_setIp4Version (getIp4Version c) (eth_setIp4HdrLen (getIp4HdrLen c)
        (setEthTypeLen 0x0800 (setEthSrcAddrLo mac junk)))))\<lparr>ax_tkeep := 0xFF, ax_tlast := False\<rparr>"

definition mai_join :: "AxisIp4 \<Rightarrow> AxisIp4 \<Rightarrow> AxisEth \<Rightarrow> AxisEth" where
  "mai_join p c junk =
     (setLE_TKeep (get_range 1 0 (ax_tkeep c)) 7 6 (setLE_TKeep (get_range 7 2 (ax_tkeep p)) 5 0
        (setLE_TData (get_range 15 0 (ax_tdata c)) 63 48 (setLE_TData (get_range 63 16 (ax_tdata p)) 47 0 junk))))
       \<lparr>ax_tlast := \<not> bit (ax_tkeep c) 2\<rparr>"

definition mai_rest :: "AxisIp4 \<Rightarrow> AxisEth \<Rightarrow> AxisEth" where
  "mai_rest p junk =
     (setLE_TKeep 0 7 6 (setLE_TKeep (get_range 7 2 (ax_tkeep p)) 5 0
        (setLE_TData 0 63 48 (setLE_TData (get_range 63 16 (ax_tdata p)) 47 0 junk))))\<lparr>ax_tlast := True\<rparr>"

definition mai_put :: "AxisEth \<Rightarrow> MaiState \<Rightarrow> 'a IPTX_scheme \<Rightarrow> 'a IPTX_scheme" where
  "mai_put c next s = s\<lparr>itx_soL2MUX_Data := swrite (itx_soL2MUX_Data s) c, mai_fsmState := next\<rparr>"

definition pMacAddressInserter :: "EthAddr \<Rightarrow> AxisEth \<Rightarrow> 'a IPTX_scheme \<Rightarrow> 'a IPTX_scheme" where
  "pMacAddressInserter mac junk s =
     (if sfull (itx_soL2MUX_Data s) then s
      else case mai_fsmState s of
        MAI_WAIT_LOOKUP \<Rightarrow>
          (case sread (itx_siARP_LookupRep s) of
             None \<Rightarrow> s
           | Some (r, sr) \<Rightarrow>
               (let s = s\<lparr>itx_siARP_LookupRep := sr\<rparr> in
                if lkp_hit r then mai_put (mai_hi mac (lkp_macAddress r) junk) MAI_WRITE_FIRST s
                else s\<lparr>mai_fsmState := MAI_DROP\<rparr>))
      | MAI_WRITE_FIRST \<Rightarrow>
          (case sread (ssIAeToMAi_Data s) of
             None \<Rightarrow> s
           | Some (c, si) \<Rightarrow>
               (mai_put (mai_lo mac c junk) MAI_WRITE (s\<lparr>ssIAeToMAi_Data := si\<rparr>))\<lparr>mai_prevChunk := c\<rparr>)
      | MAI_WRITE \<Rightarrow>
          (case sread (ssIAeToMAi_Data s) of
             None \<Rightarrow> s
           | Some (c, si) \<Rightarrow>
               (mai_put (mai_join (mai_prevChunk s) c junk)
                  (if \<not> ax_tlast c then MAI_WRITE
                   else if \<not> bit (ax_tkeep c) 2 then MAI_WAIT_LOOKUP else MAI_WRITE_LAST)
                  (s\<lparr>ssIAeToMAi_Data := si\<rparr>))\<lparr>mai_prevChunk := c\<rparr>)
      | MAI_WRITE_LAST \<Rightarrow> mai_put (mai_rest (mai_prevChunk s) junk) MAI_WAIT_LOOKUP s
      | MAI_DROP \<Rightarrow>
          (case sread (ssIAeToMAi_Data s) of
             None \<Rightarrow> s
           | Some (c, si) \<Rightarrow>
               s\<lparr>ssIAeToMAi_Data := si, mai_fsmState := (if ax_tlast c then MAI_WAIT_LOOKUP else MAI_DROP)\<rparr>))"

text \<open>One activation of the whole transmitter, the processes in the order of \<open>iptx\<close>.\<close>

definition iptx :: "EthAddr \<Rightarrow> Ip4Addr \<Rightarrow> Ip4Addr \<Rightarrow> AxisEth \<Rightarrow> 'a IPTX_scheme \<Rightarrow> 'a IPTX_scheme" where
  "iptx mac subnet gateway junk s =
     pMacAddressInserter mac junk (pIp4AddressExtractor subnet gateway
       (pIpChecksumInsert (pHeaderChecksumAccumulator s)))"

definition iptx_reset :: IPTX where
  "iptx_reset = \<lparr>itx_siL3MUX_Data = Stream 0 [], itx_soL2MUX_Data = Stream 512 [],
     itx_soARP_LookupReq = Stream 0 [], itx_siARP_LookupRep = Stream 0 [],
     ssHCaToICi_Data = Stream 1024 [], ssHCaToICi_Csum = Stream 16 [], ssICiToIAe_Data = Stream 16 [],
     ssIAeToMAi_Data = Stream 16 [], hca_csumWritten = True, hca_fsmState = HCA_S0,
     hca_ipHdrCsum = SubCSums_zero, hca_chunkCount = 0, hca_ipHdrLen = 0, ici_fsmState = ICI_S0,
     iae_chunkCount = 0, mai_fsmState = MAI_WAIT_LOOKUP, mai_prevChunk = AxisApp_zero\<rparr>"

end
