(* ===== verification/Ip_Rx.thy ===== *)
theory Ip_Rx
  imports Ip_Tx
begin

text \<open>
  The receiver of Ethernet frames, \<open>NTS/iprx/src/iprx.cpp\<close>: after the input buffer (IBuf) the protocol
  detector (MPd) sends ARP packets to the ARP server and drops the frames of other stations; the length
  checker (ILc) drops packets that are too long; the accumulator (ICa) removes the Ethernet header and
  sums the IPv4 header, which the checker (ICc) tests; the dropper (IId) lets a valid packet pass, ICl
  cuts it to its length, and the router (IPr) sends it to the engine of its protocol.
\<close>

section \<open>State\<close>

record SubSums = SubCSums +
  ss_ipMatch :: bool

datatype MpdState = MPD_S0 | MPD_S1
datatype IlcState = ILC_IDLE | ILC_SIZECHECK | ILC_STREAM
datatype IidState = IID_IDLE | IID_FWD | IID_DROP
datatype IclState = ICL_FWD | ICL_DROP
datatype IprState = IPR_IDLE | IPR_LAST

text \<open>A drop command is \<open>True\<close>.  \<open>ilc_buffer0\<close> and \<open>ilc_buffer1\<close> are the two places of the shift
  register \<open>chunkBuffer\<close>, of which \<open>ilc_buffer1\<close> is the head.\<close>

record IPRX =
  irx_siETH_Data :: "AxisEth stream"
  irx_soARP_Data :: "AxisEth stream"
  irx_soICMP_Data :: "AxisIp4 stream"
  irx_soICMP_Derr :: "AxisIp4 stream"
  irx_soUOE_Data :: "AxisIp4 stream"
  irx_soTOE_Data :: "AxisIp4 stream"
  ssIBufToMPd_Data :: "AxisEth stream"
  ssMPdToILc_Data :: "AxisEth stream"
  ssILcToICa_Data :: "AxisEth stream"
  ssICaToIId_Data :: "AxisIp4 stream"
  ssICaToIId_IpVer :: "4 word stream"
  ssICaToIId_DropFrag :: "bool stream"
  ssICaToICc_SubSums :: "SubSums stream"
  ssIIdToICl_Data :: "AxisIp4 stream"
  ssIClToIPr_Data :: "AxisIp4 stream"
  ssICcToIId_CsumVal :: "bool stream"
  mpd_fsmState :: MpdState
  mpd_chunkCount :: "2 word"
  mpd_etherType :: "16 word"
  mpd_prevChunk :: AxisEth
  ilc_leftToWrite :: "2 word"
  ilc_fsmState :: IlcState
  ilc_chunkCount :: "2 word"
  ilc_filterPacket :: bool
  ilc_buffer0 :: AxisEth
  ilc_buffer1 :: AxisEth
  ica_wasLastChunk :: bool
  ica_chunkCount :: "3 word"
  ica_ipHdrSums :: SubCSums
  ica_ipHdrLen :: "8 word"
  ica_dstIpAddress :: Ip4Addr
  ica_prevChunk :: AxisEth
  iid_fsmState :: IidState
  icl_fsmState :: IclState
  icl_chunkCount :: "13 word"
  icl_ip4TotalLength :: "16 word"
  ipr_fsmState :: IprState
  ipr_chunkCount :: "2 word"
  ipr_leftToWrite :: bool
  ipr_ttlExpired :: bool
  ipr_ipProtocol :: "8 word"
  ipr_prevChunk :: AxisIp4

section \<open>The input buffer\<close>

definition isValid :: "AxisApp \<Rightarrow> bool" where
  "isValid c \<longleftrightarrow> \<not> (\<not> ax_tlast c \<and> ax_tkeep c \<noteq> 0xFF \<or> ax_tlast c \<and> getLen c = 0)"

definition pInputBuffer :: "'a IPRX_scheme \<Rightarrow> 'a IPRX_scheme" where
  "pInputBuffer s =
     (if sfull (ssIBufToMPd_Data s) then s
      else
        (case sread (irx_siETH_Data s) of
           None \<Rightarrow> s
         | Some (c, si) \<Rightarrow>
             s\<lparr>irx_siETH_Data := si,
               ssIBufToMPd_Data := swrite (ssIBufToMPd_Data s)
                 (if isValid c then c else \<lparr>ax_tdata = ax_tdata c, ax_tkeep = 0, ax_tlast = True\<rparr>)\<rparr>))"

section \<open>The protocol detector\<close>

definition mpd_put :: "'a IPRX_scheme \<Rightarrow> 'a IPRX_scheme" where
  "mpd_put s =
     (if mpd_etherType s = 0x0806 then s\<lparr>irx_soARP_Data := swrite (irx_soARP_Data s) (mpd_prevChunk s)\<rparr>
      else if mpd_etherType s = 0x0800 then s\<lparr>ssMPdToILc_Data := swrite (ssMPdToILc_Data s) (mpd_prevChunk s)\<rparr>
      else s)"

definition pMacProtocolDetector :: "EthAddr \<Rightarrow> 'a IPRX_scheme \<Rightarrow> 'a IPRX_scheme" where
  "pMacProtocolDetector mac s =
     (if sfull (irx_soARP_Data s) \<or> sfull (ssMPdToILc_Data s) then s
      else case mpd_fsmState s of
        MPD_S0 \<Rightarrow>
          (case sread (ssIBufToMPd_Data s) of
             None \<Rightarrow> s
           | Some (c, si) \<Rightarrow>
               (let s = s\<lparr>ssIBufToMPd_Data := si\<rparr>;
                    s = (if mpd_chunkCount s = 0 then
                           s\<lparr>mpd_etherType := (if getEthDstAddr c \<noteq> mac \<and> getEthDstAddr c \<noteq> 0xFFFFFFFFFFFF then 1 else 0),
                             mpd_chunkCount := mpd_chunkCount s + 1\<rparr>
                         else
                           mpd_put (if mpd_chunkCount s = 1 then
                               s\<lparr>mpd_etherType := (if mpd_etherType s \<noteq> 1 then getEtherType c else mpd_etherType s),
                                 mpd_chunkCount := mpd_chunkCount s + 1\<rparr>
                             else s));
                    s = s\<lparr>mpd_prevChunk := c\<rparr>
                in if ax_tlast c then s\<lparr>mpd_chunkCount := 0, mpd_fsmState := MPD_S1\<rparr> else s))
      | MPD_S1 \<Rightarrow> (mpd_put s)\<lparr>mpd_fsmState := MPD_S0\<rparr>)"

section \<open>The length checker\<close>

text \<open>The shift register gives its head and takes a chunk.\<close>

definition ilc_shift :: "AxisEth \<Rightarrow> 'a IPRX_scheme \<Rightarrow> 'a IPRX_scheme" where
  "ilc_shift c s = s\<lparr>ilc_buffer0 := c, ilc_buffer1 := ilc_buffer0 s\<rparr>"

definition ilc_put :: "AxisEth \<Rightarrow> 'a IPRX_scheme \<Rightarrow> 'a IPRX_scheme" where
  "ilc_put c s = (if \<not> ilc_filterPacket s then s\<lparr>ssILcToICa_Data := swrite (ssILcToICa_Data s) c\<rparr> else s)"

definition ilc_chunk :: "AxisEth \<Rightarrow> 'a IPRX_scheme \<Rightarrow> 'a IPRX_scheme" where
  "ilc_chunk c s = (case ilc_fsmState s of
     ILC_IDLE \<Rightarrow>
       (let s = ilc_shift c s;
            s = (if ilc_chunkCount s = 1 then s\<lparr>ilc_fsmState := ILC_SIZECHECK\<rparr> else s)
        in s\<lparr>ilc_chunkCount := ilc_chunkCount s + 1\<rparr>)
   | ILC_SIZECHECK \<Rightarrow>
       (ilc_put (ilc_buffer1 s) (ilc_shift c (s\<lparr>ilc_filterPacket := (32768 < eth_getIp4TotalLen c)\<rparr>)))
         \<lparr>ilc_fsmState := ILC_STREAM\<rparr>
   | ILC_STREAM \<Rightarrow> ilc_put (ilc_buffer1 s) (ilc_shift c s))"

definition pIpLengthChecker :: "'a IPRX_scheme \<Rightarrow> 'a IPRX_scheme" where
  "pIpLengthChecker s =
     (if sfull (ssILcToICa_Data s) then s
      else if ilc_leftToWrite s = 0 then
        (case sread (ssMPdToILc_Data s) of
           None \<Rightarrow> s
         | Some (c, si) \<Rightarrow>
             (let s = ilc_chunk c (s\<lparr>ssMPdToILc_Data := si\<rparr>) in
              if ax_tlast c then s\<lparr>ilc_chunkCount := 0, ilc_leftToWrite := 2, ilc_fsmState := ILC_IDLE\<rparr> else s))
      else
        (ilc_put (ilc_buffer1 s) (ilc_shift \<lparr>ax_tdata = 0, ax_tkeep = 0, ax_tlast = False\<rparr> s))
          \<lparr>ilc_leftToWrite := ilc_leftToWrite s - 1\<rparr>)"

section \<open>The checksum accumulator and the checker\<close>

definition ica_add :: "AxisEth \<Rightarrow> nat \<Rightarrow> 17 word \<Rightarrow> 17 word" where
  "ica_add c i v = csum_fold (v + ucast (byteSwap16 (ucast (get_range (i * 16 + 15) (i * 16) (ax_tdata c)))))"

definition ica_sum :: "AxisEth \<Rightarrow> SubCSums \<Rightarrow> SubCSums" where
  "ica_sum c v = \<lparr>sum0 = ica_add c 0 (sum0 v), sum1 = ica_add c 1 (sum1 v), sum2 = ica_add c 2 (sum2 v),
     sum3 = ica_add c 3 (sum3 v)\<rparr>"

text \<open>The first two bytes of the header, into the last sum.\<close>

definition ica_first :: "AxisEth \<Rightarrow> 17 word \<Rightarrow> 17 word" where
  "ica_first c v = set_range 7 0 (ucast (eth_getIp4ToS c)) (set_range 11 8 (ucast (eth_getIp4HdrLen c))
     (set_range 15 12 (ucast (eth_getIp4Version c)) v))"

definition ica_report :: "Ip4Addr \<Rightarrow> 'a IPRX_scheme \<Rightarrow> 'a IPRX_scheme" where
  "ica_report ownIp s = s\<lparr>ssICaToICc_SubSums := swrite (ssICaToICc_SubSums s)
     (SubCSums.extend (ica_ipHdrSums s) \<lparr>ss_ipMatch = (ica_dstIpAddress s = ownIp)\<rparr>)\<rparr>"

definition ica_rest :: "Ip4Addr \<Rightarrow> AxisEth \<Rightarrow> 'a IPRX_scheme \<Rightarrow> 'a IPRX_scheme" where
  "ica_rest ownIp c s =
     (let s = (if ica_chunkCount s = 4
               then s\<lparr>ica_dstIpAddress := set_range 15 0 (ucast (eth_getIp4DstAddrLo c)) (ica_dstIpAddress s)\<rparr> else s);
          v = ica_ipHdrSums s in
      if ica_ipHdrLen s = 0 then s
      else if ica_ipHdrLen s = 1 then
        ica_report ownIp (s\<lparr>ica_ipHdrSums := v\<lparr>sum0 := csum_fold (sum0 v + ucast (eth_getIp4DstAddrLo c))\<rparr>, ica_ipHdrLen := 0\<rparr>)
      else if ica_ipHdrLen s = 2 then ica_report ownIp (s\<lparr>ica_ipHdrSums := ica_sum c v, ica_ipHdrLen := 0\<rparr>)
      else s\<lparr>ica_ipHdrSums := ica_sum c v, ica_ipHdrLen := ica_ipHdrLen s - 2\<rparr>)"

definition ica_chunk :: "Ip4Addr \<Rightarrow> AxisEth \<Rightarrow> 'a IPRX_scheme \<Rightarrow> 'a IPRX_scheme" where
  "ica_chunk ownIp c s =
     (let v = ica_ipHdrSums s in
      if ica_chunkCount s = 0 then s\<lparr>ica_ipHdrSums := SubCSums_zero, ica_chunkCount := 1\<rparr>
      else if ica_chunkCount s = 1 then
        s\<lparr>ssICaToIId_IpVer := swrite (ssICaToIId_IpVer s) (eth_getIp4Version c),
          ica_ipHdrLen := ucast (eth_getIp4HdrLen c),
          ica_ipHdrSums := v\<lparr>sum3 := ica_first c (sum3 v)\<rparr>, ica_chunkCount := 2\<rparr>
      else if ica_chunkCount s = 2 then
        (let flags = byteSwap16 (ucast (get_range 47 32 (ax_tdata c))) in
         s\<lparr>ssICaToIId_DropFrag := swrite (ssICaToIId_DropFrag s) (take_bit 13 flags \<noteq> 0 \<or> bit flags 13),
           ica_ipHdrSums := ica_sum c v, ica_ipHdrLen := ica_ipHdrLen s - 2, ica_chunkCount := 3\<rparr>)
      else if ica_chunkCount s = 3 then
        s\<lparr>ica_dstIpAddress := set_range 31 16 (ucast (eth_getIp4DstAddrHi c)) (ica_dstIpAddress s),
          ica_ipHdrSums := ica_sum c v, ica_ipHdrLen := ica_ipHdrLen s - 2, ica_chunkCount := 4\<rparr>
      else ica_rest ownIp c s)"

text \<open>The chunk that is sent: the last two bytes of the previous one and the first six of the current one.\<close>

definition ica_join :: "AxisEth \<Rightarrow> AxisEth \<Rightarrow> AxisIp4" where
  "ica_join p c = \<lparr>ax_tdata = get_range 63 48 (ax_tdata p) OR push_bit 16 (get_range 47 0 (ax_tdata c)),
     ax_tkeep = get_range 7 6 (ax_tkeep p) OR push_bit 2 (get_range 5 0 (ax_tkeep c)),
     ax_tlast = (\<not> bit (ax_tkeep c) 6)\<rparr>"

definition ica_last :: "AxisEth \<Rightarrow> AxisIp4" where
  "ica_last p = \<lparr>ax_tdata = get_range 63 48 (ax_tdata p), ax_tkeep = get_range 7 6 (ax_tkeep p), ax_tlast = True\<rparr>"

text \<open>\<open>junk\<close> is the last flag of the chunk that no constructor initialises, which a frame of one or two
  chunks leaves as it is.\<close>

definition pIpChecksumAccumulator :: "Ip4Addr \<Rightarrow> bool \<Rightarrow> 'a IPRX_scheme \<Rightarrow> 'a IPRX_scheme" where
  "pIpChecksumAccumulator ownIp junk s =
     (if \<not> sempty (ssILcToICa_Data s) \<and> \<not> ica_wasLastChunk s \<and> \<not> sfull (ssICaToIId_IpVer s) \<and>
         \<not> sfull (ssICaToIId_DropFrag s) \<and> \<not> sfull (ssICaToICc_SubSums s) \<and> \<not> sfull (ssICaToIId_Data s) then
        (case sread (ssILcToICa_Data s) of
           None \<Rightarrow> s
         | Some (c, si) \<Rightarrow>
             (let s = ica_chunk ownIp c (s\<lparr>ssILcToICa_Data := si\<rparr>);
                  send = (2 < ica_chunkCount s);
                  w = ica_join (ica_prevChunk s) c;
                  s = (if send then s\<lparr>ssICaToIId_Data := swrite (ssICaToIId_Data s) w\<rparr> else s);
                  s = s\<lparr>ica_prevChunk := c\<rparr>
              in if ax_tlast c
                 then s\<lparr>ica_chunkCount := 0, ica_wasLastChunk := (\<not> (if send then ax_tlast w else junk))\<rparr> else s))
      else if ica_wasLastChunk s \<and> \<not> sfull (ssICaToIId_Data s) then
        s\<lparr>ssICaToIId_Data := swrite (ssICaToIId_Data s) (ica_last (ica_prevChunk s)), ica_wasLastChunk := False\<rparr>
      else s)"

definition pIpChecksumChecker :: "'a IPRX_scheme \<Rightarrow> 'a IPRX_scheme" where
  "pIpChecksumChecker s =
     (if sfull (ssICcToIId_CsumVal s) then s
      else
        (case sread (ssICaToICc_SubSums s) of
           None \<Rightarrow> s
         | Some (v, si) \<Rightarrow>
             (let s0 = csum_fold (sum0 v + sum2 v); s1 = csum_fold (sum1 v + sum3 v);
                  x = NOT (csum_fold (s0 + s1))
              in s\<lparr>ssICaToICc_SubSums := si,
                   ssICcToIId_CsumVal := swrite (ssICcToIId_CsumVal s) (take_bit 16 x = 0 \<and> ss_ipMatch v)\<rparr>)))"

section \<open>The dropper and the cutter\<close>

definition pIpInvalidDropper :: "'a IPRX_scheme \<Rightarrow> 'a IPRX_scheme" where
  "pIpInvalidDropper s = (case iid_fsmState s of
     IID_IDLE \<Rightarrow>
       (if sfull (ssIIdToICl_Data s) then s
        else case (sread (ssICcToIId_CsumVal s), sread (ssICaToIId_IpVer s), sread (ssICaToIId_DropFrag s),
                   sread (ssICaToIId_Data s)) of
          (Some (csumValid, sv), Some (version, sw), Some (dropFrag, sf), Some (c, si)) \<Rightarrow>
            (let s = s\<lparr>ssICcToIId_CsumVal := sv, ssICaToIId_IpVer := sw, ssICaToIId_DropFrag := sf, ssICaToIId_Data := si\<rparr> in
             if csumValid \<and> version = 4 \<and> \<not> dropFrag
             then s\<lparr>ssIIdToICl_Data := swrite (ssIIdToICl_Data s) c, iid_fsmState := IID_FWD\<rparr>
             else s\<lparr>iid_fsmState := IID_DROP\<rparr>)
        | _ \<Rightarrow> s)
   | IID_FWD \<Rightarrow>
       (if sfull (ssIIdToICl_Data s) then s
        else
          (case sread (ssICaToIId_Data s) of
             None \<Rightarrow> s
           | Some (c, si) \<Rightarrow>
               s\<lparr>ssICaToIId_Data := si, ssIIdToICl_Data := swrite (ssIIdToICl_Data s) c,
                 iid_fsmState := (if ax_tlast c then IID_IDLE else IID_FWD)\<rparr>))
   | IID_DROP \<Rightarrow>
       (case sread (ssICaToIId_Data s) of
          None \<Rightarrow> s
        | Some (c, si) \<Rightarrow>
            s\<lparr>ssICaToIId_Data := si, iid_fsmState := (if ax_tlast c then IID_IDLE else IID_DROP)\<rparr>))"

definition icl_cut :: "nat \<Rightarrow> 16 word \<Rightarrow> AxisIp4 \<Rightarrow> AxisIp4" where
  "icl_cut k n c = c\<lparr>ax_tlast := True, ax_tkeep := lenToLE_tKeep (of_int (int (unat n) - int (k * 8)))\<rparr>"

definition pIpCutLength :: "'a IPRX_scheme \<Rightarrow> 'a IPRX_scheme" where
  "pIpCutLength s = (case icl_fsmState s of
     ICL_FWD \<Rightarrow>
       (if sfull (ssIClToIPr_Data s) then s
        else
          (case sread (ssIIdToICl_Data s) of
             None \<Rightarrow> s
           | Some (c, si) \<Rightarrow>
               (let s = s\<lparr>ssIIdToICl_Data := si\<rparr>; k = unat (icl_chunkCount s);
                    (s, w) = (if k = 0 then (s\<lparr>icl_ip4TotalLength := getIp4TotalLen c\<rparr>, c)
                              else if unat (icl_ip4TotalLength s) \<le> (k + 1) * 8
                              then (if \<not> ax_tlast c then s\<lparr>icl_fsmState := ICL_DROP\<rparr> else s, icl_cut k (icl_ip4TotalLength s) c)
                              else (s, c));
                    s = s\<lparr>ssIClToIPr_Data := swrite (ssIClToIPr_Data s) w, icl_chunkCount := icl_chunkCount s + 1\<rparr>
                in if ax_tlast w then s\<lparr>icl_chunkCount := 0\<rparr> else s)))
   | ICL_DROP \<Rightarrow>
       (case sread (ssIIdToICl_Data s) of
          None \<Rightarrow> s
        | Some (c, si) \<Rightarrow>
            s\<lparr>ssIIdToICl_Data := si, icl_fsmState := (if ax_tlast c then ICL_FWD else ICL_DROP)\<rparr>))"

section \<open>The router\<close>

definition ipr_put :: "AxisIp4 \<Rightarrow> 'a IPRX_scheme \<Rightarrow> 'a IPRX_scheme" where
  "ipr_put c s =
     (if ipr_ttlExpired s then s\<lparr>irx_soICMP_Derr := swrite (irx_soICMP_Derr s) c\<rparr>
      else if ipr_ipProtocol s = 0x01 then s\<lparr>irx_soICMP_Data := swrite (irx_soICMP_Data s) c\<rparr>
      else if ipr_ipProtocol s = 0x11 then s\<lparr>irx_soUOE_Data := swrite (irx_soUOE_Data s) c\<rparr>
      else if ipr_ipProtocol s = 0x06 then s\<lparr>irx_soTOE_Data := swrite (irx_soTOE_Data s) c\<rparr>
      else s)"

definition ipr_full :: "'a IPRX_scheme \<Rightarrow> bool" where
  "ipr_full s \<longleftrightarrow> sfull (irx_soICMP_Derr s) \<or> sfull (irx_soICMP_Data s) \<or> sfull (irx_soUOE_Data s) \<or> sfull (irx_soTOE_Data s)"

text \<open>The last chunk is sent with its unused bytes cleared.\<close>

definition ipr_clear :: "AxisIp4 \<Rightarrow> AxisIp4" where
  "ipr_clear c = (if ax_tkeep c \<noteq> 0xFF then setLE_TData 0 63 (64 - (8 - getLen c) * 8) c else c)"

definition pIpPacketRouter :: "'a IPRX_scheme \<Rightarrow> 'a IPRX_scheme" where
  "pIpPacketRouter s =
     (if ipr_full s then s
      else case ipr_fsmState s of
        IPR_IDLE \<Rightarrow>
          (case sread (ssIClToIPr_Data s) of
             None \<Rightarrow> s
           | Some (c, si) \<Rightarrow>
               (let s = s\<lparr>ssIClToIPr_Data := si\<rparr>;
                    s = (if ipr_chunkCount s = 0 then s\<lparr>ipr_chunkCount := ipr_chunkCount s + 1\<rparr>
                         else
                           (let s = (if ipr_chunkCount s = 1
                                     then s\<lparr>ipr_ttlExpired := (getIp4TtL c = 1), ipr_ipProtocol := getIp4Prot c,
                                            ipr_chunkCount := ipr_chunkCount s + 1\<rparr> else s)
                            in ipr_put (ipr_prevChunk s) s));
                    s = s\<lparr>ipr_prevChunk := c\<rparr>
                in if ax_tlast c
                   then s\<lparr>ipr_chunkCount := 0, ipr_leftToWrite := True, ipr_fsmState := IPR_LAST\<rparr> else s))
      | IPR_LAST \<Rightarrow>
          (let s = s\<lparr>ipr_prevChunk := ipr_clear (ipr_prevChunk s)\<rparr> in
           (ipr_put (ipr_prevChunk s) s)\<lparr>ipr_leftToWrite := False, ipr_fsmState := IPR_IDLE\<rparr>))"

text \<open>One activation of the whole receiver, the processes in the order of \<open>iprx\<close>.\<close>

definition iprx :: "EthAddr \<Rightarrow> Ip4Addr \<Rightarrow> bool \<Rightarrow> 'a IPRX_scheme \<Rightarrow> 'a IPRX_scheme" where
  "iprx mac ownIp junk s =
     pIpPacketRouter (pIpCutLength (pIpInvalidDropper (pIpChecksumChecker (pIpChecksumAccumulator ownIp junk
       (pIpLengthChecker (pMacProtocolDetector mac (pInputBuffer s)))))))"

definition iprx_reset :: IPRX where
  "iprx_reset = \<lparr>irx_siETH_Data = Stream 0 [], irx_soARP_Data = Stream 512 [], irx_soICMP_Data = Stream 512 [],
     irx_soICMP_Derr = Stream 512 [], irx_soUOE_Data = Stream 512 [], irx_soTOE_Data = Stream 512 [],
     ssIBufToMPd_Data = Stream 8192 [], ssMPdToILc_Data = Stream 32 [], ssILcToICa_Data = Stream 32 [],
     ssICaToIId_Data = Stream 1024 [], ssICaToIId_IpVer = Stream 32 [], ssICaToIId_DropFrag = Stream 32 [],
     ssICaToICc_SubSums = Stream 32 [], ssIIdToICl_Data = Stream 32 [], ssIClToIPr_Data = Stream 32 [],
     ssICcToIId_CsumVal = Stream 32 [], mpd_fsmState = MPD_S0, mpd_chunkCount = 0, mpd_etherType = 0,
     mpd_prevChunk = AxisApp_zero, ilc_leftToWrite = 0, ilc_fsmState = ILC_IDLE, ilc_chunkCount = 0,
     ilc_filterPacket = False, ilc_buffer0 = AxisApp_zero, ilc_buffer1 = AxisApp_zero, ica_wasLastChunk = False,
     ica_chunkCount = 0, ica_ipHdrSums = SubCSums_zero, ica_ipHdrLen = 0, ica_dstIpAddress = 0,
     ica_prevChunk = AxisApp_zero, iid_fsmState = IID_IDLE, icl_fsmState = ICL_FWD, icl_chunkCount = 0,
     icl_ip4TotalLength = 0, ipr_fsmState = IPR_IDLE, ipr_chunkCount = 0, ipr_leftToWrite = False,
     ipr_ttlExpired = False, ipr_ipProtocol = 0, ipr_prevChunk = AxisApp_zero\<rparr>"

end
