(* ===== verification/Ip_Frame.thy ===== *)
theory Ip_Frame
  imports Ip_Tx Rx_Accept
begin

text \<open>
  The frames of the IPv4 transmitter (\<open>Ip_Tx\<close>): the checksum that it inserts is the Internet checksum of
  the header with a zero in its place, the ARP server is asked for the next hop, and the frame is the
  Ethernet header followed by the packet; nothing is sent when the server does not know the address.
\<close>

section \<open>The header sum\<close>

definition lane16 :: "AxisApp \<Rightarrow> nat \<Rightarrow> nat" where
  "lane16 c i = 256 * unat (byte_of c (2 * i)) + unat (byte_of c (2 * i + 1))"

lemma unat_hca_add:
  assumes "i < 4" "unat v \<le> 65535"
  shows "unat (hca_add c i v) = ones_sum (unat v + lane16 c i)"
proof -
  have b: "unat (byte_of c j) < 256" for j using unsigned_less [of "byte_of c j"] by simp
  have "256 * unat (byte_of c (2 * i)) + unat (byte_of c (2 * i + 1)) \<le> 65535"
    using b [of "2 * i"] b [of "2 * i + 1"] by simp
  then show ?thesis
    using assms(2) unfolding hca_add_def lane_bytes [OF assms(1)] lane16_def
    by (simp add: unat_fold_add unat_word_cat_8)
qed

lemma lanes_inv_hca:
  assumes "lanes_inv v n"
  shows "lanes_inv (hca_sum P c v) (n + (if P 0 then lane16 c 0 else 0) + (if P 1 then lane16 c 1 else 0) +
     (if P 2 then lane16 c 2 else 0) + (if P 3 then lane16 c 3 else 0))"
proof -
  from assms obtain a b d e where v: "unat (sum0 v) = ones_sum a" "unat (sum1 v) = ones_sum b"
      "unat (sum2 v) = ones_sum d" "unat (sum3 v) = ones_sum e" "n = a + b + d + e"
    by (auto simp: lanes_inv_def)
  show ?thesis
    unfolding lanes_inv_def
    by (intro exI [of _ "a + (if P 0 then lane16 c 0 else 0)"] exI [of _ "b + (if P 1 then lane16 c 1 else 0)"]
        exI [of _ "d + (if P 2 then lane16 c 2 else 0)"] exI [of _ "e + (if P 3 then lane16 c 3 else 0)"])
      (simp add: hca_sum_def unat_hca_add v ones_sum_le)
qed

lemma full_chunk_bytes: "getLen c = 8 \<Longrightarrow> chunk_bytes c = map (byte_of c) [0, 1, 2, 3, 4, 5, 6, 7]"
  by (simp add: chunk_bytes_byte_of upt_upto_8 del: upt.simps)

lemma lane16_at:
  "lane16 c 0 = 256 * unat (byte_of c 0) + unat (byte_of c 1)"
  "lane16 c 1 = 256 * unat (byte_of c 2) + unat (byte_of c 3)"
  "lane16 c 2 = 256 * unat (byte_of c 4) + unat (byte_of c 5)"
  "lane16 c 3 = 256 * unat (byte_of c 6) + unat (byte_of c 7)"
  by (simp_all add: lane16_def)

lemma update_2_3: "[a, b, x, y, e, f, g, h][2 := u, 3 := v] = [a, b, u, v, e, f, g, h]"
  by (simp add: eval_nat_numeral)

text \<open>The three ways a chunk is summed: all of it, without the checksum, and its first half.\<close>

lemma hca_sum_all:
  assumes "lanes_inv v n" "getLen c = 8"
  shows "lanes_inv (hca_sum (\<lambda>_. True) c v) (n + inet_sum (chunk_bytes c))"
  using lanes_inv_hca [OF assms(1), of "\<lambda>_. True" c]
  by (simp add: full_chunk_bytes [OF assms(2)] lane16_at update_2_3 add.assoc del: One_nat_def)

lemma hca_sum_csum:
  assumes "lanes_inv v n" "getLen c = 8"
  shows "lanes_inv (hca_sum (\<lambda>i. i \<noteq> 1) c v) (n + inet_sum ((chunk_bytes c)[2 := 0, 3 := 0]))"
proof -
  have "(chunk_bytes c)[2 := 0, 3 := 0] = [byte_of c 0, byte_of c 1, 0, 0, byte_of c 4, byte_of c 5, byte_of c 6, byte_of c 7]"
    unfolding full_chunk_bytes [OF assms(2)] list.map by (rule update_2_3)
  then show ?thesis
    using lanes_inv_hca [OF assms(1), of "\<lambda>i. i \<noteq> 1" c] by (simp add: lane16_at add.assoc del: One_nat_def)
qed

lemma hca_sum_half:
  assumes "lanes_inv v n" "chunk_ok c" "4 \<le> getLen c"
  shows "lanes_inv (hca_sum (\<lambda>i. i < 2) c v) (n + inet_sum (take 4 (chunk_bytes c)))"
proof -
  have "take 4 (chunk_bytes c) = map (byte_of c) [0 ..< 4]"
    using assms(3) by (simp add: chunk_bytes_byte_of take_map min_def)
  then have "take 4 (chunk_bytes c) = map (byte_of c) [0, 1, 2, 3]" by (simp add: upt_upto_8 del: upt.simps)
  then show ?thesis
    using lanes_inv_hca [OF assms(1), of "\<lambda>i. i < 2" c]
    by (simp add: lane16_at add.assoc del: One_nat_def)
qed

section \<open>Runs of the checksum accumulator\<close>

lemma hca_tick:
  assumes "hca_csumWritten s" "items (itx_siL3MUX_Data s) = c # cs"
    and "length (items (ssHCaToICi_Data s)) < depth (ssHCaToICi_Data s)"
  shows "pHeaderChecksumAccumulator s =
    (let t = hca_chunk c (s\<lparr>itx_siL3MUX_Data := Stream (depth (itx_siL3MUX_Data s)) cs\<rparr>);
         t = t\<lparr>ssHCaToICi_Data := swrite (ssHCaToICi_Data t) c\<rparr>
     in if ax_tlast c then t\<lparr>hca_chunkCount := 0\<rparr> else t)"
  using assms by (simp add: pHeaderChecksumAccumulator_def sread_cons [OF assms(2)] sfull_def)

text \<open>The header is summed: the sums are complete, and \<open>cs\<close> is left of the packet.\<close>

definition hca_summed :: "AxisIp4 list \<Rightarrow> 'a IPTX_scheme \<Rightarrow> bool" where
  "hca_summed cs s \<longleftrightarrow> \<not> hca_csumWritten s \<and> hca_ipHdrLen s = 0 \<and>
     hca_chunkCount s = (if cs = [] then 0 else 2) \<and> (cs = [] \<or> payload_ok cs)"

definition hca_out :: "'a IPTX_scheme \<Rightarrow> _" where
  "hca_out s = (ssHCaToICi_Csum s, hca_fsmState s, depth (ssHCaToICi_Data s))"

definition hca_sums_to :: "'a IPTX_scheme \<Rightarrow> nat \<Rightarrow> AxisIp4 list \<Rightarrow> AxisIp4 list \<Rightarrow> AxisIp4 list \<Rightarrow> nat \<Rightarrow> bool" where
  "hca_sums_to s j cs1 cs2 rest m \<longleftrightarrow> (let t = (pHeaderChecksumAccumulator ^^ j) s in
     hca_summed cs2 t \<and> items (itx_siL3MUX_Data t) = cs2 @ rest \<and>
     items (ssHCaToICi_Data t) = items (ssHCaToICi_Data s) @ cs1 \<and>
     lanes_inv (hca_ipHdrCsum t) m \<and> hca_out t = hca_out s)"

lemma hca_sums_to_Suc:
  assumes "hca_sums_to (pHeaderChecksumAccumulator s) j cs1 cs2 rest m"
    and "items (ssHCaToICi_Data (pHeaderChecksumAccumulator s)) = items (ssHCaToICi_Data s) @ xs"
    and "hca_out (pHeaderChecksumAccumulator s) = hca_out s"
  shows "hca_sums_to s (Suc j) (xs @ cs1) cs2 rest m"
  using assms by (simp add: hca_sums_to_def Let_def funpow_swap1)

lemma payload_tl: "payload_ok (c # cs) \<Longrightarrow> cs = [] \<or> payload_ok cs"
  by (cases "cs = []") (simp_all add: payload_ok_Cons)

lemma payload_tlast: "payload_ok (c # cs) \<Longrightarrow> ax_tlast c \<longleftrightarrow> cs = []"
  by (cases "cs = []") (simp_all add: payload_ok_Cons payload_ok_single)

lemma payload_head_full: "payload_ok (c # cs) \<Longrightarrow> 8 \<le> length (bytes_of (c # cs)) \<Longrightarrow> getLen c = 8"
  using chunk_ok_keep [of c] by (cases "cs = []") (simp_all add: payload_ok_Cons payload_ok_single)

lemma hca_header:
  assumes "hca_csumWritten s" "hca_chunkCount s = 2" "unat (hca_ipHdrLen s) = n" "1 \<le> n"
    and "items (itx_siL3MUX_Data s) = cs @ rest" "payload_ok cs" "4 * n \<le> length (bytes_of cs)"
    and "lanes_inv (hca_ipHdrCsum s) m"
    and "length (items (ssHCaToICi_Data s)) + length cs \<le> depth (ssHCaToICi_Data s)"
  shows "\<exists>j cs1 cs2. cs = cs1 @ cs2 \<and>
    hca_sums_to s j cs1 cs2 rest (m + inet_sum (take (4 * n) (bytes_of cs)))"
  using assms
proof (induction n arbitrary: s cs m rule: less_induct)
  case (less n)
  let ?t = "pHeaderChecksumAccumulator s"
  obtain c cs' where cs: "cs = c # cs'" using payload_ok_nonempty [OF less.prems(6)] by (cases cs) auto
  have ok: "chunk_ok c" using less.prems(6) by (simp add: cs payload_ok_def)
  note p = payload_tl [OF less.prems(6) [unfolded cs]] payload_tlast [OF less.prems(6) [unfolded cs]]
  have input: "items (itx_siL3MUX_Data s) = c # (cs' @ rest)"
    "length (items (ssHCaToICi_Data s)) < depth (ssHCaToICi_Data s)"
    using less.prems(5,9) by (simp_all add: cs)
  note tick = hca_tick [OF less.prems(1) input]
  consider "n = 1" | "n = 2" | "3 \<le> n" using less.prems(4) by linarith
  then show ?case
  proof cases
    case 1
    then have h: "hca_ipHdrLen s = 1" using less.prems(3) by (simp add: word_unat_eq_iff)
    have len: "4 \<le> getLen c"
      using less.prems(7) 1 p(1) less.prems(6) by (cases "cs' = []") (simp_all add: cs payload_ok_Cons)
    have "take 4 (bytes_of cs) = take 4 (chunk_bytes c)" using len by (simp add: cs)
    then have "hca_sums_to s 1 [c] cs' rest (m + inet_sum (take (4 * n) (bytes_of cs)))"
      using less.prems(2) h p hca_sum_half [OF less.prems(8) ok len] 1
      by (simp add: hca_sums_to_def hca_summed_def hca_out_def tick hca_chunk_def Let_def)
    then show ?thesis by (intro exI [of _ 1] exI [of _ "[c]"] exI [of _ cs']) (simp add: cs)
  next
    case 2
    then have h: "hca_ipHdrLen s = 2" using less.prems(3) by (simp add: word_unat_eq_iff)
    have len: "getLen c = 8" using payload_head_full less.prems(6,7) 2 by (simp add: cs)
    have "take 8 (bytes_of cs) = chunk_bytes c" using len by (simp add: cs)
    then have "hca_sums_to s 1 [c] cs' rest (m + inet_sum (take (4 * n) (bytes_of cs)))"
      using less.prems(2) h p hca_sum_all [OF less.prems(8) len] 2
      by (simp add: hca_sums_to_def hca_summed_def hca_out_def tick hca_chunk_def Let_def)
    then show ?thesis by (intro exI [of _ 1] exI [of _ "[c]"] exI [of _ cs']) (simp add: cs)
  next
    case 3
    have h: "hca_ipHdrLen s \<noteq> 0" "hca_ipHdrLen s \<noteq> 1" using less.prems(3) 3 by auto
    have "(2 :: 4 word) \<le> hca_ipHdrLen s" using less.prems(3) 3 by (simp add: word_le_nat_alt)
    then have n: "unat (hca_ipHdrLen s - 2) = n - 2" using less.prems(3) by (simp add: unat_sub)
    then have h2: "hca_ipHdrLen s - 2 \<noteq> 0" using 3 by auto
    have len: "getLen c = 8" using payload_head_full less.prems(6,7) 3 by (simp add: cs)
    have ne: "cs' \<noteq> []" using less.prems(7) 3 len by (auto simp: cs)
    have t: "hca_csumWritten ?t" "hca_chunkCount ?t = 2" "unat (hca_ipHdrLen ?t) = n - 2"
      "items (itx_siL3MUX_Data ?t) = cs' @ rest" "items (ssHCaToICi_Data ?t) = items (ssHCaToICi_Data s) @ [c]"
      "hca_out ?t = hca_out s" "hca_ipHdrCsum ?t = hca_sum (\<lambda>_. True) c (hca_ipHdrCsum s)"
      using less.prems(1,2) h h2 n p(2) ne by (simp_all add: tick hca_chunk_def Let_def hca_out_def)
    have depth: "depth (ssHCaToICi_Data ?t) = depth (ssHCaToICi_Data s)" using t(6) by (simp add: hca_out_def)
    have "n - 2 < n" "1 \<le> n - 2" "payload_ok cs'" "4 * (n - 2) \<le> length (bytes_of cs')"
      "lanes_inv (hca_ipHdrCsum ?t) (m + inet_sum (chunk_bytes c))"
      "length (items (ssHCaToICi_Data ?t)) + length cs' \<le> depth (ssHCaToICi_Data ?t)"
      using 3 p(1) ne len less.prems(7,9) hca_sum_all [OF less.prems(8) len] by (simp_all add: cs t depth)
    from less.IH [OF this(1) t(1-3) this(2) t(4) this(3-6)] obtain j cs1 cs2 where j: "cs' = cs1 @ cs2"
      "hca_sums_to ?t j cs1 cs2 rest (m + inet_sum (chunk_bytes c) + inet_sum (take (4 * (n - 2)) (bytes_of cs')))"
      by blast
    have "4 * n = 8 + 4 * (n - 2)" using 3 by simp
    then have "take (4 * n) (bytes_of cs) = chunk_bytes c @ take (4 * (n - 2)) (bytes_of cs')"
      using len by (simp add: cs)
    then have "inet_sum (take (4 * n) (bytes_of cs)) =
        inet_sum (chunk_bytes c) + inet_sum (take (4 * (n - 2)) (bytes_of cs'))"
      using len by (simp add: inet_sum_append)
    with hca_sums_to_Suc [OF j(2) t(5,6)]
    have "hca_sums_to s (Suc j) ([c] @ cs1) cs2 rest (m + inet_sum (take (4 * n) (bytes_of cs)))"
      by (simp add: add.assoc)
    then show ?thesis
      using j(1) by (intro exI [of _ "Suc j"] exI [of _ "[c] @ cs1"] exI [of _ cs2]) (simp add: cs)
  qed
qed

text \<open>Four activations fold the sums, send the checksum and clear the sums.\<close>

lemma hca_finishes:
  assumes "hca_summed cs s" "hca_fsmState s = HCA_S0" "lanes_inv (hca_ipHdrCsum s) m"
  shows "let t = (pHeaderChecksumAccumulator ^^ 4) s in
     hca_csumWritten t \<and> hca_fsmState t = HCA_S0 \<and> hca_ipHdrCsum t = SubCSums_zero \<and>
     hca_ipHdrLen t = 0 \<and> hca_chunkCount t = hca_chunkCount s \<and> itx_siL3MUX_Data t = itx_siL3MUX_Data s \<and>
     ssHCaToICi_Data t = ssHCaToICi_Data s \<and>
     items (ssHCaToICi_Csum t) = items (ssHCaToICi_Csum s) @ [NOT (of_nat (ones_sum m))]"
proof -
  let ?v = "hca_ipHdrCsum s"
  have "ucast (NOT (csum_fold (csum_fold (sum0 ?v + sum2 ?v) + csum_fold (sum1 ?v + sum3 ?v)))) =
      (NOT (of_nat (ones_sum m)) :: 16 word)"
    using tca_csum_sum [OF assms(3)] by (simp add: tca_csum_def)
  then show ?thesis
    using assms(1,2)
    by (simp add: hca_summed_def pHeaderChecksumAccumulator_def hca_finish_def eval_nat_numeral Let_def)
qed

definition hca_idle :: "'a IPTX_scheme \<Rightarrow> bool" where
  "hca_idle s \<longleftrightarrow> hca_csumWritten s \<and> hca_fsmState s = HCA_S0 \<and> hca_ipHdrCsum s = SubCSums_zero \<and>
     hca_chunkCount s = 0"

definition hca_passing :: "'a IPTX_scheme \<Rightarrow> bool" where
  "hca_passing s \<longleftrightarrow> hca_csumWritten s \<and> hca_fsmState s = HCA_S0 \<and> hca_ipHdrCsum s = SubCSums_zero \<and>
     hca_chunkCount s = 2 \<and> hca_ipHdrLen s = 0"

interpretation hca: segment_filter pHeaderChecksumAccumulator "\<lambda>s. items (itx_siL3MUX_Data s)"
    "\<lambda>s. items (ssHCaToICi_Data s)" "\<lambda>s. depth (ssHCaToICi_Data s)" ax_tlast ssHCaToICi_Csum hca_idle
    hca_passing "\<lambda>s. False"
proof (unfold_locales, goal_cases)
  case (1 s c cs)
  then have "hca_csumWritten s" by (simp add: hca_passing_def)
  with 1 show ?case by (simp add: hca_tick [OF _ 1(2,3)] hca_chunk_def hca_passing_def hca_idle_def Let_def)
qed simp_all

text \<open>A packet: full chunks but the last, and at least the header that its first byte announces.\<close>

definition ip4_packet :: "AxisIp4 list \<Rightarrow> bool" where
  "ip4_packet cs \<longleftrightarrow> payload_ok cs \<and> 5 \<le> ip_hdr_words cs \<and> 4 * ip_hdr_words cs \<le> length (bytes_of cs)"

definition ip_header_of :: "nat \<Rightarrow> 8 word list \<Rightarrow> 8 word list" where
  "ip_header_of h bs = (take (4 * h) bs)[10 := 0, 11 := 0]"

lemma packet_split:
  assumes "ip4_packet cs"
  obtains c0 c1 cs' where "cs = c0 # c1 # cs'" "getLen c0 = 8" "getLen c1 = 8" "\<not> ax_tlast c0" "\<not> ax_tlast c1"
    "chunk_ok c0" "chunk_ok c1" "payload_ok cs'" "length (bytes_of cs) = 16 + length (bytes_of cs')"
proof -
  have cs: "payload_ok cs" "8 < length (bytes_of cs)" "16 < length (bytes_of cs)" using assms by (simp_all add: ip4_packet_def)
  from payload_split [OF cs(1,2)] obtain c0 cs0 where c0: "cs = c0 # cs0" "getLen c0 = 8" "\<not> ax_tlast c0"
    "chunk_ok c0" "payload_ok cs0" "length (bytes_of cs) = 8 + length (bytes_of cs0)" .
  have "8 < length (bytes_of cs0)" using cs(3) c0(6) by simp
  from payload_split [OF c0(5) this] obtain c1 cs1 where c1: "cs0 = c1 # cs1" "getLen c1 = 8" "\<not> ax_tlast c1"
    "chunk_ok c1" "payload_ok cs1" "length (bytes_of cs0) = 8 + length (bytes_of cs1)" .
  show thesis by (rule that [of c0 c1 cs1]) (use c0 c1 in simp_all)
qed

lemma hca_run:
  assumes "hca_idle s" "items (itx_siL3MUX_Data s) = cs @ rest" "ip4_packet cs"
    and "length (items (ssHCaToICi_Data s)) + length cs \<le> depth (ssHCaToICi_Data s)"
  shows "\<exists>j. let t = (pHeaderChecksumAccumulator ^^ j) s in hca_idle t \<and> items (itx_siL3MUX_Data t) = rest \<and>
    items (ssHCaToICi_Data t) = items (ssHCaToICi_Data s) @ cs \<and>
    items (ssHCaToICi_Csum t) = items (ssHCaToICi_Csum s) @ [inet_checksum (ip_header_of (ip_hdr_words cs) (bytes_of cs))]"
proof -
  let ?P = pHeaderChecksumAccumulator and ?h = "ip_hdr_words cs"
  from packet_split [OF assms(3)] obtain c0 c1 cs' where c: "cs = c0 # c1 # cs'" "getLen c0 = 8" "getLen c1 = 8"
    "\<not> ax_tlast c0" "\<not> ax_tlast c1" "chunk_ok c0" "chunk_ok c1" "payload_ok cs'"
    "length (bytes_of cs) = 16 + length (bytes_of cs')" .
  have h: "5 \<le> ?h" "4 * ?h \<le> length (bytes_of cs)" "unat (getIp4HdrLen c0) = ?h"
    using assms(3) by (simp_all add: ip4_packet_def ip_hdr_words_def c(1))
  have input: "items (itx_siL3MUX_Data s) = c0 # (c1 # cs' @ rest)" using assms(2) by (simp add: c(1))
  have space: "length (items (ssHCaToICi_Data s)) + (2 + length cs') \<le> depth (ssHCaToICi_Data s)"
    using assms(4) by (simp add: c(1))
  have idle: "hca_csumWritten s" "hca_fsmState s = HCA_S0" "hca_ipHdrCsum s = SubCSums_zero" "hca_chunkCount s = 0"
    using assms(1) by (simp_all add: hca_idle_def)
  have sp1: "length (items (ssHCaToICi_Data s)) < depth (ssHCaToICi_Data s)" using space by simp
  let ?t1 = "?P s"
  have t1: "hca_csumWritten ?t1" "items (itx_siL3MUX_Data ?t1) = c1 # (cs' @ rest)" "hca_chunkCount ?t1 = 1"
    "items (ssHCaToICi_Data ?t1) = items (ssHCaToICi_Data s) @ [c0]" "hca_out ?t1 = hca_out s"
    "hca_ipHdrLen ?t1 = getIp4HdrLen c0 - 2" "hca_ipHdrCsum ?t1 = hca_sum (\<lambda>_. True) c0 SubCSums_zero"
    using idle c(4) by (simp_all add: hca_tick [OF idle(1) input sp1] hca_chunk_def hca_out_def Let_def)
  have sp2: "length (items (ssHCaToICi_Data ?t1)) < depth (ssHCaToICi_Data ?t1)"
    using space t1(4,5) by (simp add: hca_out_def)
  let ?t2 = "?P ?t1"
  have t2: "hca_csumWritten ?t2" "items (itx_siL3MUX_Data ?t2) = cs' @ rest" "hca_chunkCount ?t2 = 2"
    "items (ssHCaToICi_Data ?t2) = items (ssHCaToICi_Data s) @ [c0, c1]" "hca_out ?t2 = hca_out s"
    "hca_ipHdrLen ?t2 = getIp4HdrLen c0 - 4" "hca_ipHdrCsum ?t2 = hca_sum (\<lambda>i. i \<noteq> 1) c1 (hca_ipHdrCsum ?t1)"
    using t1 c(5) by (simp_all add: hca_tick [OF t1(1,2) sp2] hca_chunk_def hca_out_def Let_def)
  have "(4 :: 4 word) \<le> getIp4HdrLen c0" using h(1,3) by (simp add: word_le_nat_alt)
  then have n: "unat (hca_ipHdrLen ?t2) = ?h - 4" using h by (simp add: t2(6) unat_sub)
  let ?m = "inet_sum (chunk_bytes c0) + inet_sum ((chunk_bytes c1)[2 := 0, 3 := 0])"
  have "lanes_inv (hca_ipHdrCsum ?t2) ?m"
    unfolding t2(7) t1(7) using hca_sum_csum [OF hca_sum_all [OF lanes_inv_zero c(2)] c(3)] by simp
  moreover have "1 \<le> ?h - 4" "4 * (?h - 4) \<le> length (bytes_of cs')"
    "length (items (ssHCaToICi_Data ?t2)) + length cs' \<le> depth (ssHCaToICi_Data ?t2)"
    using h(1,2) c(9) space t2(4,5) by (simp_all add: hca_out_def)
  ultimately obtain j cs1 cs2 where j: "cs' = cs1 @ cs2"
    "hca_sums_to ?t2 j cs1 cs2 rest (?m + inet_sum (take (4 * (?h - 4)) (bytes_of cs')))"
    using hca_header [OF t2(1,3) n _ t2(2) c(8)] by blast
  let ?hdr = "ip_header_of ?h (bytes_of cs)" and ?t3 = "(?P ^^ j) ?t2"
  have "4 * ?h = 8 + (8 + 4 * (?h - 4))" using h(1) by simp
  then have "?hdr = chunk_bytes c0 @ (chunk_bytes c1)[2 := 0, 3 := 0] @ take (4 * (?h - 4)) (bytes_of cs')"
    using c(2,3) unfolding ip_header_of_def by (simp add: c(1) list_update_append)
  then have sum: "?m + inet_sum (take (4 * (?h - 4)) (bytes_of cs')) = inet_sum ?hdr"
    using c(2,3) by (simp add: inet_sum_append)
  have t3: "hca_summed cs2 ?t3" "items (itx_siL3MUX_Data ?t3) = cs2 @ rest" "hca_out ?t3 = hca_out s"
    "items (ssHCaToICi_Data ?t3) = items (ssHCaToICi_Data s) @ c0 # c1 # cs1" "lanes_inv (hca_ipHdrCsum ?t3) (inet_sum ?hdr)"
    using j(2) t2(4,5) unfolding sum by (simp_all add: hca_sums_to_def Let_def)
  have "hca_fsmState ?t3 = HCA_S0" using t3(3) idle(2) by (simp add: hca_out_def)
  note t4 = hca_finishes [OF t3(1) this t3(5)]
  let ?t4 = "(?P ^^ 4) ?t3"
  have t4: "items (itx_siL3MUX_Data ?t4) = cs2 @ rest" "items (ssHCaToICi_Data ?t4) = items (ssHCaToICi_Data s) @ c0 # c1 # cs1"
    "items (ssHCaToICi_Csum ?t4) = items (ssHCaToICi_Csum s) @ [inet_checksum ?hdr]"
    "depth (ssHCaToICi_Data ?t4) = depth (ssHCaToICi_Data s)"
    "if cs2 = [] then hca_idle ?t4 else hca_passing ?t4"
    using t4 t3 by (simp_all add: Let_def inet_checksum_def hca_out_def hca_idle_def hca_passing_def hca_summed_def)
  have steps: "(?P ^^ (a + 4 + j + 2)) s = (?P ^^ a) ?t4" for a
    by (simp only: funpow_add o_apply numeral_2_eq_2 funpow.simps id_apply)
  show ?thesis
  proof (cases "cs2 = []")
    case True
    then show ?thesis
      using t4 steps [of 0] j(1) by (intro exI [of _ "0 + 4 + j + 2"]) (simp add: Let_def c(1))
  next
    case False
    then have "is_segment ax_tlast cs2" using t3(1) by (simp add: hca_summed_def payload_ok_def)
    moreover have "length (items (ssHCaToICi_Data ?t4)) + length cs2 \<le> depth (ssHCaToICi_Data ?t4)"
      using space j(1) t4(2,4) by simp
    ultimately show ?thesis
      using hca.passes_segment [of ?t4 cs2 rest] t4 False steps [of "length cs2"] j(1)
      by (intro exI [of _ "length cs2 + 4 + j + 2"]) (simp add: Let_def c(1))
  qed
qed

section \<open>The checksum inserter and the address extractor\<close>

lemmas ici_defs = pIpChecksumInsert_def ici_send_def sfull_def

interpretation ici: segment_filter pIpChecksumInsert "\<lambda>s. items (ssHCaToICi_Data s)"
    "\<lambda>s. items (ssICiToIAe_Data s)" "\<lambda>s. depth (ssICiToIAe_Data s)" ax_tlast ssHCaToICi_Csum
    "\<lambda>s. ici_fsmState s = ICI_S0" "\<lambda>s. ici_fsmState s = ICI_S2" "\<lambda>s. False"
proof (unfold_locales, goal_cases)
  case (1 s c cs)
  then show ?case by (simp add: ici_defs sread_cons [OF 1(2)])
qed simp_all

definition with_checksum :: "16 word \<Rightarrow> 8 word list \<Rightarrow> 8 word list" where
  "with_checksum x bs = bs[10 := be16 x ! 0, 11 := be16 x ! 1]"

lemma csum_bytes:
  assumes "getLen c0 = 8" "getLen c1 = 8"
  shows "bytes_of (c0 # setIp4HdrCsum x c1 # cs) = with_checksum x (bytes_of (c0 # c1 # cs))"
proof -
  have b: "byte_of (setIp4HdrCsum x c1) i = (if i = 2 then be16 x ! 0 else if i = 3 then be16 x ! 1 else byte_of c1 i)"
    if "i < 8" for i
    using byte_of_set16 [OF that, of 2 x c1] that by (auto simp: setIp4HdrCsum_def)
  have len: "getLen (setIp4HdrCsum x c1) = 8" using assms(2) by (simp add: getLen_def setIp4HdrCsum_def)
  have "chunk_bytes (setIp4HdrCsum x c1) = (chunk_bytes c1)[2 := be16 x ! 0, 3 := be16 x ! 1]"
    unfolding full_chunk_bytes [OF assms(2)] full_chunk_bytes [OF len] list.map update_2_3 by (simp add: b)
  then show ?thesis using assms by (simp add: with_checksum_def list_update_append)
qed

lemma csum_payload:
  assumes "payload_ok (c0 # c1 # cs)"
  shows "payload_ok (c0 # setIp4HdrCsum x c1 # cs)"
proof -
  have "chunk_ok (setIp4HdrCsum x c1) = chunk_ok c1" "getLen (setIp4HdrCsum x c1) = getLen c1"
    "ax_tlast (setIp4HdrCsum x c1) = ax_tlast c1"
    by (simp_all add: chunk_ok_def getLen_def setIp4HdrCsum_def)
  then show ?thesis
    using assms by (cases "cs = []") (simp_all add: payload_ok_Cons payload_ok_single)
qed

lemma ici_run:
  assumes "ici_fsmState s = ICI_S0" "items (ssHCaToICi_Data s) = c0 # c1 # cs @ rest" "payload_ok cs"
    and "\<not> ax_tlast c0" "\<not> ax_tlast c1" "items (ssHCaToICi_Csum s) = x # xs"
    and "length (items (ssICiToIAe_Data s)) + (2 + length cs) \<le> depth (ssICiToIAe_Data s)"
  shows "\<exists>j. let t = (pIpChecksumInsert ^^ j) s in ici_fsmState t = ICI_S0 \<and> items (ssHCaToICi_Data t) = rest \<and>
    items (ssHCaToICi_Csum t) = xs \<and>
    items (ssICiToIAe_Data t) = items (ssICiToIAe_Data s) @ c0 # setIp4HdrCsum x c1 # cs"
proof -
  let ?P = pIpChecksumInsert
  let ?t1 = "?P s"
  have t1: "ici_fsmState ?t1 = ICI_S1" "items (ssHCaToICi_Data ?t1) = c1 # cs @ rest" "ssHCaToICi_Csum ?t1 = ssHCaToICi_Csum s"
    "ssICiToIAe_Data ?t1 = swrite (ssICiToIAe_Data s) c0"
    using assms(1,4,7) by (simp_all add: ici_defs sread_cons [OF assms(2)])
  let ?t2 = "?P ?t1"
  have "\<not> ax_tlast (setIp4HdrCsum x c1)" using assms(5) by (simp add: setIp4HdrCsum_def)
  then have t2: "ici_fsmState ?t2 = ICI_S2" "items (ssHCaToICi_Data ?t2) = cs @ rest" "items (ssHCaToICi_Csum ?t2) = xs"
    "ssICiToIAe_Data ?t2 = swrite (swrite (ssICiToIAe_Data s) c0) (setIp4HdrCsum x c1)"
    using t1 assms(6,7)
    by (simp_all add: pIpChecksumInsert_def [of ?t1] ici_send_def sfull_def sread_cons [OF t1(2)] sread_cons [OF assms(6)])
  have seg: "is_segment ax_tlast cs" using assms(3) by (simp add: payload_ok_def)
  have "length (items (ssICiToIAe_Data ?t2)) + length cs \<le> depth (ssICiToIAe_Data ?t2)"
    using assms(7) by (simp add: t2(4))
  note run = ici.passes_segment [OF t2(1,2) seg this]
  have "(?P ^^ (length cs + 2)) s = (?P ^^ length cs) ?t2"
    by (simp only: funpow_add o_apply numeral_2_eq_2 funpow.simps id_apply)
  then show ?thesis using run t2(3,4) by (intro exI [of _ "length cs + 2"]) (simp add: Let_def)
qed

lemma iae_tick:
  assumes "items (ssICiToIAe_Data s) = c # cs" "length (items (ssIAeToMAi_Data s)) < depth (ssIAeToMAi_Data s)"
  shows "pIp4AddressExtractor subnet gateway s =
    (let s = s\<lparr>ssICiToIAe_Data := Stream (depth (ssICiToIAe_Data s)) cs\<rparr>;
         s = (if iae_chunkCount s = 2 then
                s\<lparr>itx_soARP_LookupReq := swrite (itx_soARP_LookupReq s) (next_hop subnet gateway (getIp4DstAddr c)),
                  iae_chunkCount := 3\<rparr>
              else if ax_tlast c then s\<lparr>iae_chunkCount := 0\<rparr>
              else if iae_chunkCount s < 3 then s\<lparr>iae_chunkCount := iae_chunkCount s + 1\<rparr>
              else s)
     in s\<lparr>ssIAeToMAi_Data := swrite (ssIAeToMAi_Data s) c\<rparr>)"
  using assms by (simp add: pIp4AddressExtractor_def sread_cons [OF assms(1)] sfull_def Let_def)

interpretation iae: segment_filter "pIp4AddressExtractor subnet gateway" "\<lambda>s. items (ssICiToIAe_Data s)"
    "\<lambda>s. items (ssIAeToMAi_Data s)" "\<lambda>s. depth (ssIAeToMAi_Data s)" ax_tlast itx_soARP_LookupReq
    "\<lambda>s. iae_chunkCount s = 0" "\<lambda>s. iae_chunkCount s = 3" "\<lambda>s. False"
proof (unfold_locales, goal_cases)
  case (1 s c cs)
  then show ?case by (simp add: iae_tick [OF 1(2,3)])
qed simp_all

lemma iae_run:
  assumes "iae_chunkCount s = 0" "items (ssICiToIAe_Data s) = c0 # c1 # c2 # cs @ rest" "payload_ok cs"
    and "\<not> ax_tlast c0" "\<not> ax_tlast c1"
    and "length (items (ssIAeToMAi_Data s)) + (3 + length cs) \<le> depth (ssIAeToMAi_Data s)"
  shows "\<exists>j. let t = (pIp4AddressExtractor subnet gateway ^^ j) s in iae_chunkCount t = 0 \<and>
    items (ssICiToIAe_Data t) = rest \<and>
    items (itx_soARP_LookupReq t) = items (itx_soARP_LookupReq s) @ [next_hop subnet gateway (getIp4DstAddr c2)] \<and>
    items (ssIAeToMAi_Data t) = items (ssIAeToMAi_Data s) @ c0 # c1 # c2 # cs"
proof -
  let ?P = "pIp4AddressExtractor subnet gateway"
  have sp: "length (items (ssIAeToMAi_Data s)) < depth (ssIAeToMAi_Data s)" using assms(6) by simp
  let ?t1 = "?P s"
  have t1: "iae_chunkCount ?t1 = 1" "items (ssICiToIAe_Data ?t1) = c1 # (c2 # cs @ rest)"
    "itx_soARP_LookupReq ?t1 = itx_soARP_LookupReq s" "ssIAeToMAi_Data ?t1 = swrite (ssIAeToMAi_Data s) c0"
    using assms(1,4) by (simp_all add: iae_tick [OF assms(2) sp] Let_def)
  have sp: "length (items (ssIAeToMAi_Data ?t1)) < depth (ssIAeToMAi_Data ?t1)" using assms(6) by (simp add: t1(4))
  let ?t2 = "?P ?t1"
  have t2: "iae_chunkCount ?t2 = 2" "items (ssICiToIAe_Data ?t2) = c2 # (cs @ rest)"
    "itx_soARP_LookupReq ?t2 = itx_soARP_LookupReq s" "ssIAeToMAi_Data ?t2 = swrite (swrite (ssIAeToMAi_Data s) c0) c1"
    using t1 assms(5) by (simp_all add: iae_tick [OF t1(2) sp] Let_def)
  have sp: "length (items (ssIAeToMAi_Data ?t2)) < depth (ssIAeToMAi_Data ?t2)" using assms(6) by (simp add: t2(4))
  let ?t3 = "?P ?t2"
  have t3: "iae_chunkCount ?t3 = 3" "items (ssICiToIAe_Data ?t3) = cs @ rest"
    "items (itx_soARP_LookupReq ?t3) = items (itx_soARP_LookupReq s) @ [next_hop subnet gateway (getIp4DstAddr c2)]"
    "ssIAeToMAi_Data ?t3 = swrite (swrite (swrite (ssIAeToMAi_Data s) c0) c1) c2"
    using t2 by (simp_all add: iae_tick [OF t2(2) sp] Let_def)
  have seg: "is_segment ax_tlast cs" using assms(3) by (simp add: payload_ok_def)
  have "length (items (ssIAeToMAi_Data ?t3)) + length cs \<le> depth (ssIAeToMAi_Data ?t3)"
    using assms(6) by (simp add: t3(4))
  note run = iae.passes_segment [OF t3(1,2) seg this]
  have "(?P ^^ (length cs + 3)) s = (?P ^^ length cs) ?t3"
    by (simp only: funpow_add o_apply numeral_3_eq_3 funpow.simps id_apply)
  then show ?thesis using run t3(3,4) by (intro exI [of _ "length cs + 3"]) (simp add: Let_def)
qed

section \<open>The MAC inserter\<close>

text \<open>Shifted by six bytes, as the memory writer does.\<close>

lemma mai_join_bytes:
  assumes "getLen p = 8" "chunk_ok c"
  shows "chunk_bytes (mai_join p c junk) = drop 2 (chunk_bytes p) @ take 2 (chunk_bytes c)"
proof -
  have "ax_tdata (mai_join p c junk) = ax_tdata (mwr_join 6 p c)" "ax_tkeep (mai_join p c junk) = ax_tkeep (mwr_join 6 p c)"
    by (rule bit_word_eqI; auto simp: mai_join_def setLE_TData_def setLE_TKeep_def bit_set_range bit_get_range
      bit_mwr_join_data bit_mwr_join_keep)+
  then have "chunk_bytes (mai_join p c junk) = chunk_bytes (mwr_join 6 p c)" by (simp add: chunk_bytes_def getLen_def)
  then show ?thesis using chunk_bytes_join [of 6 p c] assms by simp
qed

lemma mai_rest_bytes:
  assumes "2 < getLen p"
  shows "chunk_bytes (mai_rest p junk) = drop 2 (chunk_bytes p)"
proof -
  have "ax_tdata (mai_rest p junk) = ax_tdata (mwr_tail 6 p)" "ax_tkeep (mai_rest p junk) = ax_tkeep (mwr_tail 6 p)"
    by (rule bit_word_eqI; auto simp: mai_rest_def setLE_TData_def setLE_TKeep_def bit_set_range bit_get_range
      bit_mwr_tail_data bit_mwr_tail_keep)+
  then have "chunk_bytes (mai_rest p junk) = chunk_bytes (mwr_tail 6 p)" by (simp add: chunk_bytes_def getLen_def)
  then show ?thesis using chunk_bytes_tail [of 6 p] assms by (simp add: chunk_ok_def)
qed

lemma bit_keep_2: "chunk_ok c \<Longrightarrow> bit (ax_tkeep c) 2 \<longleftrightarrow> \<not> getLen c \<le> 2"
  using chunk_ok_keep [of c] by (auto simp: bit_mask_iff)

lemmas mai_defs = pMacAddressInserter_def mai_put_def sfull_def

interpretation mai: shifter "pMacAddressInserter mac junk" "\<lambda>s. items (ssIAeToMAi_Data s)"
    "\<lambda>s. items (itx_soL2MUX_Data s)" "\<lambda>s. depth (itx_soL2MUX_Data s)" itx_siARP_LookupRep "\<lambda>_ x. x"
    "\<lambda>s. False" "\<lambda>s. mai_fsmState s = MAI_WRITE" "\<lambda>s. mai_fsmState s = MAI_WRITE_LAST"
    "\<lambda>s. mai_fsmState s = MAI_WAIT_LOOKUP" "\<lambda>s. drop 2 (chunk_bytes (mai_prevChunk s))" 6
proof (unfold_locales, goal_cases)
  case (2 s c cs)
  have "getLen (mai_prevChunk s) = 8" using 2(4) by simp
  note join = mai_join_bytes [OF this 2(3), of junk]
  have last: "ax_tlast (mai_join (mai_prevChunk s) c junk) = (getLen c \<le> 2)"
    using bit_keep_2 [OF 2(3)] by (simp add: mai_join_def)
  show ?case
    using 2(1,2,5) bit_keep_2 [OF 2(3)] join last by (simp add: mai_defs sread_cons [OF 2(2)])
next
  case (3 s)
  have "2 < getLen (mai_prevChunk s)" using 3(2) by simp
  with mai_rest_bytes [OF this, of junk] 3 show ?case by (simp add: mai_defs) (simp add: mai_rest_def)
qed simp_all

interpretation mai_drop: segment_filter "pMacAddressInserter mac junk" "\<lambda>s. items (ssIAeToMAi_Data s)"
    "\<lambda>s. items (itx_soL2MUX_Data s)" "\<lambda>s. depth (itx_soL2MUX_Data s)" ax_tlast itx_siARP_LookupRep
    "\<lambda>s. mai_fsmState s = MAI_WAIT_LOOKUP" "\<lambda>s. False"
    "\<lambda>s. mai_fsmState s = MAI_DROP \<and> \<not> sfull (itx_soL2MUX_Data s)"
proof (unfold_locales, goal_cases)
  case (2 s c cs)
  then show ?case by (simp add: mai_defs sread_cons [OF 2(2)])
qed simp_all

lemma mai_first:
  assumes "mai_fsmState s = MAI_WAIT_LOOKUP" "items (itx_siARP_LookupRep s) = [r]" "lkp_hit r"
    and "items (ssIAeToMAi_Data s) = c # cs" "length (items (itx_soL2MUX_Data s)) + 1 < depth (itx_soL2MUX_Data s)"
  shows "let t = (pMacAddressInserter mac junk ^^ 2) s in mai_fsmState t = MAI_WRITE \<and> mai_prevChunk t = c \<and>
    items (itx_siARP_LookupRep t) = [] \<and> items (ssIAeToMAi_Data t) = cs \<and>
    itx_soL2MUX_Data t = swrite (swrite (itx_soL2MUX_Data s) (mai_hi mac (lkp_macAddress r) junk)) (mai_lo mac c junk)"
  using assms
  by (simp add: numeral_2_eq_2 mai_defs sread_cons [OF assms(2)] sread_cons [OF assms(4)])

definition ethernet_header :: "EthAddr \<Rightarrow> EthAddr \<Rightarrow> 8 word list" where
  "ethernet_header dst src = be48 dst @ be48 src @ be16 0x0800"

lemma byte_of_setEth:
  assumes "i < 8"
  shows "byte_of (setEthDstAddr a c) i = (if i < 6 then be48 a ! i else byte_of c i)"
    "byte_of (setEthSrcAddrHi a c) i = (if 6 \<le> i then be48 a ! (i - 6) else byte_of c i)"
    "byte_of (setEthSrcAddrLo a c) i = (if i < 4 then be48 a ! (i + 2) else byte_of c i)"
proof -
  let ?v = "swapMacAddr a"
  have "nth_byte (ucast (get_range 15 0 ?v)) j = nth_byte (ucast ?v) j" if "j < 2" for j
    by (rule bit_word_eqI) (use that in \<open>auto simp: bit_nth_byte bit_get_range bit_ucast_iff\<close>)
  moreover have "nth_byte (ucast (get_range 47 16 ?v)) j = nth_byte (ucast ?v) (j + 2)" if "j < 4" for j
    by (rule bit_word_eqI) (use that in \<open>auto simp: bit_nth_byte bit_get_range bit_ucast_iff algebra_simps\<close>)
  ultimately show "byte_of (setEthDstAddr a c) i = (if i < 6 then be48 a ! i else byte_of c i)"
    "byte_of (setEthSrcAddrHi a c) i = (if 6 \<le> i then be48 a ! (i - 6) else byte_of c i)"
    "byte_of (setEthSrcAddrLo a c) i = (if i < 4 then be48 a ! (i + 2) else byte_of c i)"
    using assms
    by (simp_all add: byte_of_def setEthDstAddr_def setEthSrcAddrHi_def setEthSrcAddrLo_def set_bits_def
        nth_byte_set_range [of i _ 0 _ 5] nth_byte_set_range [of i _ 6 _ 7] nth_byte_set_range [of i _ 0 _ 3]
        nth_byte_swapMacAddr)
qed

lemma byte_of_eth_ip4:
  assumes "i < 8"
  shows "byte_of (eth_setIp4ToS (getIp4ToS c) (eth_setIp4Version (getIp4Version c) (eth_setIp4HdrLen (getIp4HdrLen c) d))) i =
    (if i = 6 then byte_of c 0 else if i = 7 then byte_of c 1 else byte_of d i)"
proof -
  consider "i < 6" | "i = 6" | "i = 7" using assms by linarith
  then show ?thesis
    by cases (rule bit_word_eqI; auto simp: byte_of_def eth_setIp4ToS_def eth_setIp4Version_def eth_setIp4HdrLen_def
      set8_def set_bits_def getIp4ToS_def getIp4Version_def getIp4HdrLen_def bit_nth_byte bit_set_range bit_get_range
      bit_ucast_iff add.commute)+
qed

lemma mai_header_bytes:
  assumes "getLen c = 8"
  shows "chunk_bytes (mai_hi mac dst junk) @ chunk_bytes (mai_lo mac c junk) =
      ethernet_header dst mac @ take 2 (chunk_bytes c)"
    "getLen (mai_hi mac dst junk) = 8" "getLen (mai_lo mac c junk) = 8"
proof -
  show len: "getLen (mai_hi mac dst junk) = 8" "getLen (mai_lo mac c junk) = 8"
    by (simp_all add: mai_hi_def mai_lo_def getLen_def keepToLen_def)
  have hi: "byte_of (mai_hi mac dst junk) i = (if i < 6 then be48 dst ! i else be48 mac ! (i - 6))" if "i < 8" for i
    using that byte_of_setEth [OF that] by (simp add: mai_hi_def byte_of_def)
  have lo: "byte_of (mai_lo mac c junk) i = (if i < 4 then be48 mac ! (i + 2) else if i < 6 then be16 0x0800 ! (i - 4)
      else if i = 6 then byte_of c 0 else byte_of c 1)" if "i < 8" for i
    using that byte_of_eth_ip4 [OF that] byte_of_setEth(3) [OF that] byte_of_set16 [OF that, of 4]
    by (auto simp: mai_lo_def byte_of_def setEthTypeLen_def)
  have two: "take 2 (chunk_bytes c) = [byte_of c 0, byte_of c 1]" by (simp add: full_chunk_bytes [OF assms])
  show "chunk_bytes (mai_hi mac dst junk) @ chunk_bytes (mai_lo mac c junk) =
      ethernet_header dst mac @ take 2 (chunk_bytes c)"
    unfolding full_chunk_bytes [OF len(1)] full_chunk_bytes [OF len(2)] two
    by (simp add: hi lo ethernet_header_def be48_def be16_def eval_nat_numeral)
qed

section \<open>The transmitter on a packet\<close>

text \<open>What each process does not touch.\<close>

definition itx_hca :: "'a IPTX_scheme \<Rightarrow> _" where
  "itx_hca s = (itx_siL3MUX_Data s, hca_csumWritten s, hca_fsmState s, hca_ipHdrCsum s, hca_chunkCount s)"

definition itx_ici :: "'a IPTX_scheme \<Rightarrow> _" where
  "itx_ici s = (ssHCaToICi_Data s, ssHCaToICi_Csum s, ici_fsmState s)"

definition itx_iae :: "'a IPTX_scheme \<Rightarrow> _" where
  "itx_iae s = (itx_soARP_LookupReq s, iae_chunkCount s)"

definition itx_mai :: "'a IPTX_scheme \<Rightarrow> _" where
  "itx_mai s = (itx_siARP_LookupRep s, itx_soL2MUX_Data s, mai_fsmState s)"

lemmas itx_parts = itx_hca_def itx_ici_def itx_iae_def itx_mai_def

lemma itx_keeps:
  "(ici_fsmState (pHeaderChecksumAccumulator t), ssICiToIAe_Data (pHeaderChecksumAccumulator t), itx_iae (pHeaderChecksumAccumulator t),
    ssIAeToMAi_Data (pHeaderChecksumAccumulator t), itx_mai (pHeaderChecksumAccumulator t)) =
   (ici_fsmState t, ssICiToIAe_Data t, itx_iae t, ssIAeToMAi_Data t, itx_mai t)"
  "(itx_hca (pIpChecksumInsert t), itx_iae (pIpChecksumInsert t), ssIAeToMAi_Data (pIpChecksumInsert t), itx_mai (pIpChecksumInsert t)) =
   (itx_hca t, itx_iae t, ssIAeToMAi_Data t, itx_mai t)"
  "(itx_hca (pIp4AddressExtractor subnet gateway t), itx_ici (pIp4AddressExtractor subnet gateway t),
    itx_mai (pIp4AddressExtractor subnet gateway t)) = (itx_hca t, itx_ici t, itx_mai t)"
  "(itx_hca (pMacAddressInserter mac junk t), itx_ici (pMacAddressInserter mac junk t),
    ssICiToIAe_Data (pMacAddressInserter mac junk t), itx_iae (pMacAddressInserter mac junk t)) =
   (itx_hca t, itx_ici t, ssICiToIAe_Data t, itx_iae t)"
  by (simp_all add: itx_parts pHeaderChecksumAccumulator_def hca_chunk_def hca_finish_def pIpChecksumInsert_def ici_send_def
      pIp4AddressExtractor_def pMacAddressInserter_def mai_put_def Let_def
      split: option.splits HcaState.splits IciState.splits MaiState.splits)

definition iptx_ready :: "'a IPTX_scheme \<Rightarrow> bool" where
  "iptx_ready s \<longleftrightarrow> hca_idle s \<and> items (ssHCaToICi_Data s) = [] \<and> items (ssHCaToICi_Csum s) = [] \<and>
     ici_fsmState s = ICI_S0 \<and> items (ssICiToIAe_Data s) = [] \<and> iae_chunkCount s = 0 \<and>
     items (ssIAeToMAi_Data s) = [] \<and> items (itx_siARP_LookupRep s) = [] \<and> mai_fsmState s = MAI_WAIT_LOOKUP"

definition iptx_room :: "'a IPTX_scheme \<Rightarrow> nat \<Rightarrow> bool" where
  "iptx_room s n \<longleftrightarrow> n \<le> depth (ssHCaToICi_Data s) \<and> n \<le> depth (ssICiToIAe_Data s) \<and> n \<le> depth (ssIAeToMAi_Data s) \<and>
     length (items (itx_soL2MUX_Data s)) + 2 + n < depth (itx_soL2MUX_Data s)"

text \<open>The three processes before the ARP server, then the reply of the server, then the MAC inserter.\<close>

definition iptx_front :: "Ip4Addr \<Rightarrow> Ip4Addr \<Rightarrow> nat \<Rightarrow> nat \<Rightarrow> nat \<Rightarrow> 'a IPTX_scheme \<Rightarrow> 'a IPTX_scheme" where
  "iptx_front subnet gateway a b c s = (pIp4AddressExtractor subnet gateway ^^ c) ((pIpChecksumInsert ^^ b)
     ((pHeaderChecksumAccumulator ^^ a) s))"

definition arp_replies :: "ArpLkpReply \<Rightarrow> 'a IPTX_scheme \<Rightarrow> 'a IPTX_scheme" where
  "arp_replies r s = s\<lparr>itx_siARP_LookupRep := swrite (itx_siARP_LookupRep s) r\<rparr>"

definition ip_checksum_of :: "AxisIp4 list \<Rightarrow> 16 word" where
  "ip_checksum_of cs = inet_checksum (ip_header_of (ip_hdr_words cs) (bytes_of cs))"

lemma packet_bytes_front:
  assumes "getLen c0 = 8" "getLen c1 = 8" "getLen c2 = 8" "bs = bytes_of (c0 # c1 # c2 # cs)"
  shows "getIp4DstAddr c2 = u32 bs 16"
proof -
  have c2: "bs ! (16 + i) = byte_of c2 i" if "i < 8" for i
  proof -
    have "bs ! (16 + i) = chunk_bytes c2 ! i" using that assms by (simp add: nth_append)
    then show ?thesis using that assms(3) by (simp add: chunk_bytes_byte_of)
  qed
  show ?thesis
    using get32_u32 [of 0 c2] c2 [of 0] c2 [of 1] c2 [of 2] c2 [of 3]
    by (simp add: getIp4DstAddr_def u32_def u16_def numeral_2_eq_2)
qed

lemma iptx_front_run:
  assumes "iptx_ready s" "items (itx_siL3MUX_Data s) = cs @ rest" "ip4_packet cs" "24 < length (bytes_of cs)"
    and "iptx_room s (length cs)"
  shows "\<exists>a b c ws. let t = iptx_front subnet gateway a b c s in
    iptx_ready (t\<lparr>ssIAeToMAi_Data := Stream 0 []\<rparr>) \<and> itx_mai t = itx_mai s \<and>
    items (itx_siL3MUX_Data t) = rest \<and> items (ssIAeToMAi_Data t) = ws \<and> payload_ok ws \<and> length ws = length cs \<and>
    bytes_of ws = with_checksum (ip_checksum_of cs) (bytes_of cs) \<and>
    items (itx_soARP_LookupReq t) = items (itx_soARP_LookupReq s) @ [next_hop subnet gateway (u32 (bytes_of cs) 16)]"
proof -
  from packet_split [OF assms(3)] obtain c0 c1 cs1 where c: "cs = c0 # c1 # cs1" "getLen c0 = 8" "getLen c1 = 8"
    "\<not> ax_tlast c0" "\<not> ax_tlast c1" "chunk_ok c0" "chunk_ok c1" "payload_ok cs1"
    "length (bytes_of cs) = 16 + length (bytes_of cs1)" .
  have "8 < length (bytes_of cs1)" using assms(4) c(9) by simp
  from payload_split [OF c(8) this] obtain c2 cs2 where c2: "cs1 = c2 # cs2" "getLen c2 = 8" "\<not> ax_tlast c2"
    "chunk_ok c2" "payload_ok cs2" "length (bytes_of cs1) = 8 + length (bytes_of cs2)" .
  have ready: "hca_idle s" "items (ssHCaToICi_Data s) = []" "items (ssHCaToICi_Csum s) = []" "ici_fsmState s = ICI_S0"
    "items (ssICiToIAe_Data s) = []" "iae_chunkCount s = 0" "items (ssIAeToMAi_Data s) = []"
    "items (itx_siARP_LookupRep s) = []" "mai_fsmState s = MAI_WAIT_LOOKUP"
    using assms(1) by (simp_all add: iptx_ready_def)
  have room: "length cs \<le> depth (ssHCaToICi_Data s)" "2 + length cs1 \<le> depth (ssICiToIAe_Data s)"
    "3 + length cs2 \<le> depth (ssIAeToMAi_Data s)"
    using assms(5) by (simp_all add: iptx_room_def c(1) c2(1))
  let ?x = "ip_checksum_of cs" and ?A = pHeaderChecksumAccumulator and ?B = pIpChecksumInsert
  let ?C = "pIp4AddressExtractor subnet gateway"
  obtain a where a: "hca_idle ((?A ^^ a) s)" "items (itx_siL3MUX_Data ((?A ^^ a) s)) = rest"
    "items (ssHCaToICi_Data ((?A ^^ a) s)) = cs" "items (ssHCaToICi_Csum ((?A ^^ a) s)) = [?x]"
    using hca_run [OF ready(1) assms(2,3)] room(1) ready(2,3) by (auto simp: Let_def ip_checksum_of_def)
  let ?s1 = "(?A ^^ a) s"
  have k1: "(ici_fsmState ?s1, ssICiToIAe_Data ?s1, itx_iae ?s1, ssIAeToMAi_Data ?s1, itx_mai ?s1) =
      (ici_fsmState s, ssICiToIAe_Data s, itx_iae s, ssIAeToMAi_Data s, itx_mai s)"
    by (rule funpow_keeps [where g = "\<lambda>t. (ici_fsmState t, ssICiToIAe_Data t, itx_iae t, ssIAeToMAi_Data t, itx_mai t)"],
      rule itx_keeps)
  have b0: "ici_fsmState ?s1 = ICI_S0" "items (ssHCaToICi_Data ?s1) = c0 # c1 # cs1 @ []"
    "length (items (ssICiToIAe_Data ?s1)) + (2 + length cs1) \<le> depth (ssICiToIAe_Data ?s1)"
    using k1 a(3) ready room(2) by (simp_all add: c(1))
  obtain b where b: "ici_fsmState ((?B ^^ b) ?s1) = ICI_S0" "items (ssHCaToICi_Data ((?B ^^ b) ?s1)) = []"
    "items (ssHCaToICi_Csum ((?B ^^ b) ?s1)) = []"
    "items (ssICiToIAe_Data ((?B ^^ b) ?s1)) = c0 # setIp4HdrCsum ?x c1 # cs1"
    using ici_run [OF b0(1,2) c(8,4,5) a(4) b0(3)] k1 ready(5) by (auto simp: Let_def)
  let ?s2 = "(?B ^^ b) ?s1"
  have k2: "(itx_hca ?s2, itx_iae ?s2, ssIAeToMAi_Data ?s2, itx_mai ?s2) =
      (itx_hca ?s1, itx_iae ?s1, ssIAeToMAi_Data ?s1, itx_mai ?s1)"
    by (rule funpow_keeps [where g = "\<lambda>t. (itx_hca t, itx_iae t, ssIAeToMAi_Data t, itx_mai t)"], rule itx_keeps)
  have "\<not> ax_tlast (setIp4HdrCsum ?x c1)" using c(5) by (simp add: setIp4HdrCsum_def)
  moreover have c0: "iae_chunkCount ?s2 = 0" "items (ssICiToIAe_Data ?s2) = c0 # setIp4HdrCsum ?x c1 # c2 # cs2 @ []"
    "length (items (ssIAeToMAi_Data ?s2)) + (3 + length cs2) \<le> depth (ssIAeToMAi_Data ?s2)"
    "ssIAeToMAi_Data ?s2 = ssIAeToMAi_Data s" "itx_soARP_LookupReq ?s2 = itx_soARP_LookupReq s"
    using k1 k2 b(4) ready room(3) by (simp_all add: itx_iae_def c2(1))
  ultimately obtain k where k: "iae_chunkCount ((?C ^^ k) ?s2) = 0" "items (ssICiToIAe_Data ((?C ^^ k) ?s2)) = []"
    "items (itx_soARP_LookupReq ((?C ^^ k) ?s2)) = items (itx_soARP_LookupReq s) @ [next_hop subnet gateway (getIp4DstAddr c2)]"
    "items (ssIAeToMAi_Data ((?C ^^ k) ?s2)) = c0 # setIp4HdrCsum ?x c1 # cs1"
    using iae_run [OF c0(1,2) c2(5) c(4) _ c0(3), of subnet gateway] ready(7) by (auto simp: Let_def c2(1))
  let ?s3 = "(?C ^^ k) ?s2"
  have k3: "(itx_hca ?s3, itx_ici ?s3, itx_mai ?s3) = (itx_hca ?s2, itx_ici ?s2, itx_mai ?s2)"
    by (rule funpow_keeps [where g = "\<lambda>t. (itx_hca t, itx_ici t, itx_mai t)"], rule itx_keeps)
  have dst: "getIp4DstAddr c2 = u32 (bytes_of cs) 16"
    by (rule packet_bytes_front [OF c(2,3) c2(2)]) (simp add: c(1) c2(1))
  have pk: "payload_ok (c0 # setIp4HdrCsum ?x c1 # cs1)"
    using csum_payload [of c0 c1 cs1] assms(3) by (simp add: ip4_packet_def c(1))
  have "iptx_front subnet gateway a b k s = ?s3" by (simp add: iptx_front_def)
  then show ?thesis
    using k1 k2 k3 a(1,2) b(1-3) k pk csum_bytes [OF c(2,3), of ?x cs1] ready(8,9)
    by (intro exI [of _ a] exI [of _ b] exI [of _ k] exI [of _ "c0 # setIp4HdrCsum ?x c1 # cs1"])
      (simp add: Let_def iptx_ready_def hca_idle_def itx_parts dst c(1))
qed

text \<open>The header with its checksum verifies.\<close>

lemma two_updates: "12 \<le> length xs \<Longrightarrow> xs[10 := u, 11 := v] = take 10 xs @ [u, v] @ drop 12 xs"
proof -
  assume len: "12 \<le> length xs"
  then have "drop 10 xs = xs ! 10 # xs ! 11 # drop 12 xs"
    using Cons_nth_drop_Suc [of 10 xs] Cons_nth_drop_Suc [of 11 xs] by simp
  then have "xs = take 10 xs @ xs ! 10 # xs ! 11 # drop 12 xs" by (metis append_take_drop_id)
  then have "xs[10 := u, 11 := v] = (take 10 xs @ xs ! 10 # xs ! 11 # drop 12 xs)[10 := u, 11 := v]" by simp
  then show ?thesis using len by (simp add: list_update_append)
qed

lemma ip_header_verifies:
  assumes "ip4_packet cs"
  shows "inet_checksum (take (4 * ip_hdr_words cs) (with_checksum (ip_checksum_of cs) (bytes_of cs))) = 0"
proof -
  let ?n = "4 * ip_hdr_words cs" and ?bs = "bytes_of cs"
  let ?xs = "take 10 ?bs" and ?ys = "drop 12 (take ?n ?bs)"
  have n: "20 \<le> ?n" "?n \<le> length ?bs" using assms by (simp_all add: ip4_packet_def)
  have split: "(take ?n ?bs)[10 := u, 11 := v] = ?xs @ [u, v] @ ?ys" for u v
    using two_updates [of "take ?n ?bs"] n by simp
  have "take ?n (with_checksum x ?bs) = ?xs @ be16 x @ ?ys" for x
    using split [of "be16 x ! 0" "be16 x ! 1"] by (simp add: with_checksum_def take_update_swap be16_def)
  moreover have "ip_checksum_of cs = inet_checksum (?xs @ be16 0 @ ?ys)"
    using split [of 0 0] by (simp add: ip_checksum_of_def ip_header_of_def be16_def)
  moreover have "even (length ?xs)" using n by simp
  ultimately show ?thesis using inet_checksum_verifies [of ?xs ?ys] by simp
qed

lemma mai_send:
  assumes "mai_fsmState s = MAI_WAIT_LOOKUP" "items (itx_siARP_LookupRep s) = [r]" "lkp_hit r"
    and "items (ssIAeToMAi_Data s) = ws" "payload_ok ws" "8 < length (bytes_of ws)"
    and "length (items (itx_soL2MUX_Data s)) + 2 + length ws < depth (itx_soL2MUX_Data s)"
  shows "\<exists>d us. let u = (pMacAddressInserter mac junk ^^ d) s in mai_fsmState u = MAI_WAIT_LOOKUP \<and>
    items (itx_siARP_LookupRep u) = [] \<and> items (ssIAeToMAi_Data u) = [] \<and>
    items (itx_soL2MUX_Data u) = items (itx_soL2MUX_Data s) @ us \<and> payload_ok us \<and>
    bytes_of us = ethernet_header (lkp_macAddress r) mac @ bytes_of ws"
proof -
  let ?P = "pMacAddressInserter mac junk"
  from payload_split [OF assms(5,6)] obtain c cs where c: "ws = c # cs" "getLen c = 8" "\<not> ax_tlast c" "chunk_ok c"
    "payload_ok cs" "length (bytes_of ws) = 8 + length (bytes_of cs)" .
  let ?hi = "mai_hi mac (lkp_macAddress r) junk" and ?lo = "mai_lo mac c junk" and ?t = "(?P ^^ 2) s"
  note hdr = mai_header_bytes [OF c(2)]
  have "items (ssIAeToMAi_Data s) = c # cs" "length (items (itx_soL2MUX_Data s)) + 1 < depth (itx_soL2MUX_Data s)"
    using assms(4,7) by (simp_all add: c(1))
  from mai_first [OF assms(1-3) this, of mac junk]
  have t: "mai_fsmState ?t = MAI_WRITE" "mai_prevChunk ?t = c" "items (itx_siARP_LookupRep ?t) = []"
    "items (ssIAeToMAi_Data ?t) = cs @ []" "itx_soL2MUX_Data ?t = swrite (swrite (itx_soL2MUX_Data s) ?hi) ?lo"
    by (simp_all add: Let_def)
  have held: "length (drop 2 (chunk_bytes (mai_prevChunk ?t))) = 6" by (simp add: t(2) c(2))
  have room: "length (items (itx_soL2MUX_Data ?t)) + length cs < depth (itx_soL2MUX_Data ?t)"
    using assms(7) by (simp add: t(5) c(1))
  from mai.shifts [OF t(1,4) c(5) held room] obtain j us where us: "mai.moves mac junk ?t j cs [] us" "payload_ok us"
    "bytes_of us = drop 2 (chunk_bytes (mai_prevChunk ?t)) @ bytes_of cs" by blast
  let ?u = "(?P ^^ j) ?t"
  have "fold (\<lambda>_ x. x) cs a = a" for a :: "ArpLkpReply stream" by (induction cs) simp_all
  then have u: "mai_fsmState ?u = MAI_WAIT_LOOKUP" "items (ssIAeToMAi_Data ?u) = []"
    "items (itx_soL2MUX_Data ?u) = items (itx_soL2MUX_Data ?t) @ us" "itx_siARP_LookupRep ?u = itx_siARP_LookupRep ?t"
    using us(1) by (simp_all add: mai.moves_def Let_def)
  have "bytes_of (?hi # ?lo # us) = ethernet_header (lkp_macAddress r) mac @ bytes_of ws"
    using hdr(1) [of mac "lkp_macAddress r" junk] us(3) unfolding t(2) c(1)
    by simp (metis append_assoc append_take_drop_id)
  moreover have "payload_ok (?hi # ?lo # us)"
    using us(2) hdr(2,3) payload_ok_nonempty [OF us(2)] by (simp add: payload_ok_Cons) (simp add: mai_hi_def mai_lo_def)
  moreover have "(?P ^^ (j + 2)) s = ?u" by (simp only: funpow_add o_apply)
  ultimately show ?thesis
    using u t(3,5) by (intro exI [of _ "j + 2"] exI [of _ "?hi # ?lo # us"]) (simp add: Let_def)
qed

lemma mai_drops:
  assumes "mai_fsmState s = MAI_WAIT_LOOKUP" "items (itx_siARP_LookupRep s) = [r]" "\<not> lkp_hit r"
    and "items (ssIAeToMAi_Data s) = ws" "payload_ok ws" "\<not> sfull (itx_soL2MUX_Data s)"
  shows "\<exists>d. let u = (pMacAddressInserter mac junk ^^ d) s in mai_fsmState u = MAI_WAIT_LOOKUP \<and>
    items (itx_siARP_LookupRep u) = [] \<and> items (ssIAeToMAi_Data u) = [] \<and>
    items (itx_soL2MUX_Data u) = items (itx_soL2MUX_Data s)"
proof -
  let ?P = "pMacAddressInserter mac junk"
  have t: "mai_fsmState (?P s) = MAI_DROP \<and> \<not> sfull (itx_soL2MUX_Data (?P s))" "items (itx_siARP_LookupRep (?P s)) = []"
    "items (ssIAeToMAi_Data (?P s)) = ws @ []" "itx_soL2MUX_Data (?P s) = itx_soL2MUX_Data s"
    using assms by (simp_all add: pMacAddressInserter_def sread_cons [OF assms(2)])
  have "is_segment ax_tlast ws" using assms(5) by (simp add: payload_ok_def)
  note run = mai_drop.drops_segment [OF t(1,3) this]
  have "(?P ^^ Suc (length ws)) s = (?P ^^ length ws) (?P s)" by (simp add: funpow_swap1)
  then show ?thesis using run t(2,4) by (intro exI [of _ "Suc (length ws)"]) (simp add: Let_def)
qed

text \<open>The whole run.  \<open>stages\<close> names the state before the reply of the ARP server and the last one.\<close>

lemma iptx_run:
  assumes "iptx_ready s" "items (itx_siL3MUX_Data s) = cs @ rest" "ip4_packet cs" "24 < length (bytes_of cs)"
    and "iptx_room s (length cs)"
  shows "\<exists>a b c d us. let t = iptx_front subnet gateway a b c s; u = (pMacAddressInserter mac junk ^^ d) (arp_replies r t) in
    items (itx_soARP_LookupReq t) = items (itx_soARP_LookupReq s) @ [next_hop subnet gateway (u32 (bytes_of cs) 16)] \<and>
    iptx_ready u \<and> items (itx_siL3MUX_Data u) = rest \<and>
    items (itx_soL2MUX_Data u) = items (itx_soL2MUX_Data s) @ us \<and>
    (if lkp_hit r then payload_ok us \<and> bytes_of us =
       ethernet_header (lkp_macAddress r) mac @ with_checksum (ip_checksum_of cs) (bytes_of cs)
     else us = [])"
proof -
  let ?P = "pMacAddressInserter mac junk"
  from iptx_front_run [OF assms, of subnet gateway] obtain a b c ws where
    t: "iptx_ready (iptx_front subnet gateway a b c s\<lparr>ssIAeToMAi_Data := Stream 0 []\<rparr>)"
    "itx_mai (iptx_front subnet gateway a b c s) = itx_mai s"
    "items (itx_siL3MUX_Data (iptx_front subnet gateway a b c s)) = rest"
    "items (ssIAeToMAi_Data (iptx_front subnet gateway a b c s)) = ws" "payload_ok ws" "length ws = length cs"
    "bytes_of ws = with_checksum (ip_checksum_of cs) (bytes_of cs)"
    "items (itx_soARP_LookupReq (iptx_front subnet gateway a b c s)) =
       items (itx_soARP_LookupReq s) @ [next_hop subnet gateway (u32 (bytes_of cs) 16)]"
    by (auto simp: Let_def)
  let ?t = "iptx_front subnet gateway a b c s"
  let ?r = "arp_replies r ?t"
  have s: "mai_fsmState s = MAI_WAIT_LOOKUP" "items (itx_siARP_LookupRep s) = []"
    using assms(1) by (simp_all add: iptx_ready_def)
  have r: "mai_fsmState ?r = MAI_WAIT_LOOKUP" "items (itx_siARP_LookupRep ?r) = [r]" "items (ssIAeToMAi_Data ?r) = ws"
    "itx_soL2MUX_Data ?r = itx_soL2MUX_Data s" "itx_siL3MUX_Data ?r = itx_siL3MUX_Data ?t"
    using t(2,4) s by (simp_all add: arp_replies_def itx_mai_def)
  have room: "length (items (itx_soL2MUX_Data ?r)) + 2 + length ws < depth (itx_soL2MUX_Data ?r)"
    using assms(5) by (simp add: iptx_room_def r(4) t(6))
  have long: "8 < length (bytes_of ws)" using assms(4) by (simp add: t(7) with_checksum_def)
  have "\<exists>d us. let u = (?P ^^ d) ?r in mai_fsmState u = MAI_WAIT_LOOKUP \<and> items (itx_siARP_LookupRep u) = [] \<and>
      items (ssIAeToMAi_Data u) = [] \<and> items (itx_soL2MUX_Data u) = items (itx_soL2MUX_Data s) @ us \<and>
      (if lkp_hit r then payload_ok us \<and> bytes_of us = ethernet_header (lkp_macAddress r) mac @ bytes_of ws else us = [])"
  proof (cases "lkp_hit r")
    case True
    from mai_send [OF r(1,2) True r(3) t(5) long room, of mac junk] True r(4) show ?thesis by simp
  next
    case False
    have "\<not> sfull (itx_soL2MUX_Data ?r)" using room by (simp add: sfull_def)
    from mai_drops [OF r(1,2) False r(3) t(5) this, of mac junk] obtain d where
      "let u = (?P ^^ d) ?r in mai_fsmState u = MAI_WAIT_LOOKUP \<and> items (itx_siARP_LookupRep u) = [] \<and>
        items (ssIAeToMAi_Data u) = [] \<and> items (itx_soL2MUX_Data u) = items (itx_soL2MUX_Data ?r)" by blast
    then show ?thesis using False r(4) by (intro exI [of _ d] exI [of _ "[]"]) (simp add: Let_def)
  qed
  then obtain d us where u: "mai_fsmState ((?P ^^ d) ?r) = MAI_WAIT_LOOKUP" "items (itx_siARP_LookupRep ((?P ^^ d) ?r)) = []"
    "items (ssIAeToMAi_Data ((?P ^^ d) ?r)) = []"
    "items (itx_soL2MUX_Data ((?P ^^ d) ?r)) = items (itx_soL2MUX_Data s) @ us"
    "if lkp_hit r then payload_ok us \<and> bytes_of us = ethernet_header (lkp_macAddress r) mac @ bytes_of ws else us = []"
    by (auto simp: Let_def)
  let ?u = "(?P ^^ d) ?r"
  have k: "(itx_hca ?u, itx_ici ?u, ssICiToIAe_Data ?u, itx_iae ?u) = (itx_hca ?r, itx_ici ?r, ssICiToIAe_Data ?r, itx_iae ?r)"
    by (rule funpow_keeps [where g = "\<lambda>t. (itx_hca t, itx_ici t, ssICiToIAe_Data t, itx_iae t)"], rule itx_keeps)
  then have "iptx_ready ?u" "items (itx_siL3MUX_Data ?u) = rest"
    using t(1,3) u(1-3) by (simp_all add: iptx_ready_def hca_idle_def itx_parts arp_replies_def)
  then show ?thesis
    using t(7,8) u(4,5)
    by (intro exI [of _ a] exI [of _ b] exI [of _ c] exI [of _ d] exI [of _ us]) (simp add: Let_def)
qed

text \<open>C7. The IPv4 transmitter frames every packet for its next hop.  From an idle state and a well-formed
  packet of more than 24 bytes, with any number of options, the ARP server is asked for the destination
  address if it is in the subnet or the broadcast address, else for the gateway.  When the server knows
  the address, exactly one frame is sent: the Ethernet header with the two MAC addresses and the type of
  IPv4, and then the packet with the checksum of its header inserted, and that header verifies.  When it
  does not, the whole packet is dropped.  The transmitter is idle again after both.\<close>

theorem iptx_frames_packet:
  assumes "iptx_ready s" "items (itx_siL3MUX_Data s) = cs @ rest" "ip4_packet cs" "24 < length (bytes_of cs)"
    and "iptx_room s (length cs)"
  shows "inet_checksum (take (4 * ip_hdr_words cs) (with_checksum (ip_checksum_of cs) (bytes_of cs))) = 0 \<and>
   (\<exists>a b c d us. let t = iptx_front subnet gateway a b c s; u = (pMacAddressInserter mac junk ^^ d) (arp_replies r t) in
    items (itx_soARP_LookupReq t) = items (itx_soARP_LookupReq s) @ [if u32 (bytes_of cs) 16 AND subnet = gateway AND subnet \<or> u32 (bytes_of cs) 16 = 0xFFFFFFFF
       then u32 (bytes_of cs) 16 else gateway] \<and>
    iptx_ready u \<and> items (itx_siL3MUX_Data u) = rest \<and>
    items (itx_soL2MUX_Data u) = items (itx_soL2MUX_Data s) @ us \<and>
    (if lkp_hit r then payload_ok us \<and> bytes_of us =
       ethernet_header (lkp_macAddress r) mac @ with_checksum (ip_checksum_of cs) (bytes_of cs)
     else us = []))"
  using iptx_run [OF assms] ip_header_verifies [OF assms(3)] unfolding next_hop_def [symmetric] by simp

text \<open>A packet of 43 bytes, its header of 20 bytes with checksum, behind the header of its frame.\<close>

definition iptx_example :: IPTX where
  "iptx_example = iptx_reset\<lparr>itx_siL3MUX_Data := Stream 64 (packet_chunks 0x030201)\<rparr>"

lemma packet_chunks_ip:
  "ip_hdr_words (packet_chunks d) = 5" "length (bytes_of (packet_chunks d)) = 43" "length (packet_chunks d) = 6"
proof -
  show "ip_hdr_words (packet_chunks d) = 5"
    by (simp add: ip_hdr_words_def packet_chunks_def getIp4HdrLen_def get_range_def chunk_def take_bit_eq_mod)
  show "length (bytes_of (packet_chunks d)) = 43" unfolding packet_chunks_ok(2) by simp
qed (simp add: packet_chunks_def)

lemma iptx_example_ok:
  "iptx_ready iptx_example" "items (itx_siL3MUX_Data iptx_example) = packet_chunks 0x030201 @ []"
  "ip4_packet (packet_chunks 0x030201)" "24 < length (bytes_of (packet_chunks 0x030201))"
  "iptx_room iptx_example (length (packet_chunks 0x030201))"
  by (simp_all only: ip4_packet_def packet_chunks_ip packet_chunks_ok(1))
    (simp_all add: iptx_example_def iptx_reset_def iptx_ready_def hca_idle_def iptx_room_def)

theorem iptx_frames_packet_witness:
  "\<exists>a b c d us. let t = iptx_front 0xFFFF0000 0x0A0C0001 a b c iptx_example;
       u = (pMacAddressInserter 0x0200000000A1 AxisApp_zero ^^ d)
         (arp_replies \<lparr>lkp_macAddress = 0x0200000000B2, lkp_hit = True\<rparr> t) in
     items (itx_soARP_LookupReq t) = [0x0A0C0832] \<and> items (itx_soL2MUX_Data u) = us \<and>
     take 26 (bytes_of us) = [2, 0, 0, 0, 0, 0xB2, 2, 0, 0, 0, 0, 0xA1, 8, 0, 0x45, 0, 0, 43, 0, 0, 0, 0, 64, 6, 0x56, 0x83]"
proof -
  let ?cs = "packet_chunks 0x030201" and ?r = "\<lparr>lkp_macAddress = 0x0200000000B2, lkp_hit = True\<rparr>"
  have hop: "next_hop 0xFFFF0000 0x0A0C0001 (u32 (bytes_of ?cs) 16) = 0x0A0C0832"
    by (simp add: packet_chunks_ok(2) u32_def u16_def next_hop_def word_cat_eq)
  have hdr: "ip_header_of 5 (bytes_of ?cs) = [69, 0, 0, 43, 0, 0, 0, 0, 64, 6, 0, 0, 10, 12, 8, 1, 10, 12, 8, 50]"
    by (simp add: ip_header_of_def packet_chunks_ok(2) two_updates)
  have csum: "ip_checksum_of ?cs = 0x5683"
    by (simp add: ip_checksum_of_def packet_chunks_ip hdr inet_checksum_def ones_sum_def)
  have bytes: "take 12 (with_checksum 0x5683 (bytes_of ?cs)) = [0x45, 0, 0, 43, 0, 0, 0, 0, 64, 6, 0x56, 0x83]"
    by (simp add: with_checksum_def packet_chunks_ok(2) two_updates be16_def)
  have eth: "ethernet_header 0x0200000000B2 0x0200000000A1 = [2, 0, 0, 0, 0, 0xB2, 2, 0, 0, 0, 0, 0xA1, 8, 0]"
    by (simp add: ethernet_header_def be48_def be16_def)
  have first: "items (itx_soARP_LookupReq iptx_example) = []" "items (itx_soL2MUX_Data iptx_example) = []"
    by (simp_all add: iptx_example_def iptx_reset_def)
  from iptx_frames_packet [OF iptx_example_ok, where subnet = "0xFFFF0000" and gateway = "0x0A0C0001"
        and mac = "0x0200000000A1" and junk = AxisApp_zero and r = ?r]
  obtain a b c d us where run: "let t = iptx_front 0xFFFF0000 0x0A0C0001 a b c iptx_example;
       u = (pMacAddressInserter 0x0200000000A1 AxisApp_zero ^^ d) (arp_replies ?r t) in
     items (itx_soARP_LookupReq t) = [0x0A0C0832] \<and> items (itx_soL2MUX_Data u) = us \<and>
     bytes_of us = ethernet_header 0x0200000000B2 0x0200000000A1 @ with_checksum 0x5683 (bytes_of ?cs)"
    unfolding next_hop_def [symmetric] hop csum first by (auto simp: Let_def)
  have "take 26 (ethernet_header 0x0200000000B2 0x0200000000A1 @ with_checksum 0x5683 (bytes_of ?cs)) =
      [2, 0, 0, 0, 0, 0xB2, 2, 0, 0, 0, 0, 0xA1, 8, 0] @ take 12 (with_checksum 0x5683 (bytes_of ?cs))"
    unfolding eth by simp
  with run show ?thesis
    unfolding bytes by (intro exI [of _ a] exI [of _ b] exI [of _ c] exI [of _ d] exI [of _ us]) (simp add: Let_def)
qed

end
