(* ===== verification/Delay_Line.thy ===== *)
theory Delay_Line
  imports Rx_Path
begin

text \<open>
  The interface of the processes that hold the chunks they take back for a while: the protocol detector,
  the length checker and the router of \<open>NTS/iprx\<close> (\<open>Ip_Rx\<close>) send a chunk when they take a later one, and
  flush what they hold after the last.
\<close>

section \<open>The interface\<close>

text \<open>\<open>emit\<close> is what sending a chunk does to the outputs \<open>obs\<close>, \<open>send\<close> what flushing does to a chunk;
  at least \<open>space\<close> chunks can be sent.\<close>

locale delay_line =
  fixes tick :: "'s \<Rightarrow> 's" and inp :: "'s \<Rightarrow> 'c list" and lst :: "'c \<Rightarrow> bool"
    and obs :: "'s \<Rightarrow> 'o" and emit :: "'c \<Rightarrow> 'o \<Rightarrow> 'o" and space :: "'s \<Rightarrow> nat"
    and running flushing over :: "'s \<Rightarrow> bool" and held :: "'s \<Rightarrow> 'c list" and send :: "'c \<Rightarrow> 'c"
  assumes run_tick: "running s \<Longrightarrow> held s = h # hs \<Longrightarrow> inp s = c # cs \<Longrightarrow> 0 < space s \<Longrightarrow>
      inp (tick s) = cs \<and> obs (tick s) = emit h (obs s) \<and> space s \<le> Suc (space (tick s)) \<and>
      held (tick s) = hs @ [c] \<and> (if lst c then flushing (tick s) else running (tick s))"
    and flush_tick: "flushing s \<Longrightarrow> held s = h # hs \<Longrightarrow> 0 < space s \<Longrightarrow>
      inp (tick s) = inp s \<and> obs (tick s) = emit (send h) (obs s) \<and> space s \<le> Suc (space (tick s)) \<and>
      held (tick s) = hs \<and> (if hs = [] then over (tick s) else flushing (tick s))"
begin

lemma flushes:
  assumes "flushing s" "held s \<noteq> []" "length (held s) \<le> space s"
  shows "let t = (tick ^^ length (held s)) s in over t \<and> inp t = inp s \<and>
    obs t = fold emit (map send (held s)) (obs s)"
  using assms
proof (induction "held s" arbitrary: s)
  case (Cons h hs)
  note t = flush_tick [OF Cons.prems(1) Cons.hyps(2) [symmetric]]
  have space: "0 < space s" "length hs < space s" using Cons.prems(3) unfolding Cons.hyps(2) [symmetric] by simp_all
  show ?case
  proof (cases "hs = []")
    case True
    then show ?thesis using t space unfolding Cons.hyps(2) [symmetric] by (simp add: Let_def)
  next
    case False
    then have "let u = (tick ^^ length hs) (tick s) in over u \<and> inp u = inp (tick s) \<and>
        obs u = fold emit (map send hs) (obs (tick s))"
      using Cons.hyps(1) [of "tick s"] t space by simp
    then show ?thesis using t space unfolding Cons.hyps(2) [symmetric] by (simp add: Let_def funpow_swap1)
  qed
qed simp

lemma delays:
  assumes "running s" "held s \<noteq> []" "inp s = cs @ rest" "is_segment lst cs"
    and "length (held s) + length cs \<le> space s"
  shows "let t = (tick ^^ (length (held s) + length cs)) s; xs = held s @ cs in over t \<and> inp t = rest \<and>
    obs t = fold emit (take (length cs) xs @ map send (drop (length cs) xs)) (obs s)"
  using assms
proof (induction cs arbitrary: s)
  case Nil
  then show ?case by (simp add: is_segment_def)
next
  case (Cons c cs)
  obtain h hs where h: "held s = h # hs" using Cons.prems(2) by (cases "held s") auto
  have input: "inp s = c # (cs @ rest)" "0 < space s" using Cons.prems(3,5) by (simp_all add: h)
  note t = run_tick [OF Cons.prems(1) h input]
  have space: "length (held (tick s)) + length cs \<le> space (tick s)" using t Cons.prems(5) by (simp add: h)
  show ?case
  proof (cases "cs = []")
    case True
    then have "flushing (tick s)" using t Cons.prems(4) by (simp add: is_segment_single)
    from flushes [OF this] t space True show ?thesis by (simp add: h Let_def funpow_swap1)
  next
    case False
    then have c: "\<not> lst c" "is_segment lst cs" using Cons.prems(4) by (simp_all add: is_segment_Cons)
    from Cons.IH [of "tick s"] t c space show ?thesis by (simp add: h Let_def funpow_swap1)
  qed
qed

end

end
