(* ===== verification/Ip_Check.thy ===== *)
theory Ip_Check
  imports Ip_Rx Ip_Frame Delay_Line
begin

text \<open>
  The first half of the receiver of Ethernet frames (\<open>Ip_Rx\<close>), up to the checksum of the IPv4 header:
  which frames pass the protocol detector and the length checker, and what the accumulator makes of one.
\<close>

section \<open>The input buffer\<close>

lemma ibuf_run:
  assumes "items (irx_siETH_Data s) = cs @ rest" "\<forall>c \<in> set cs. isValid c"
    and "length (items (ssIBufToMPd_Data s)) + length cs \<le> depth (ssIBufToMPd_Data s)"
  shows "items (irx_siETH_Data ((pInputBuffer ^^ length cs) s)) = rest \<and>
    items (ssIBufToMPd_Data ((pInputBuffer ^^ length cs) s)) = items (ssIBufToMPd_Data s) @ cs"
  using assms
proof (induction cs arbitrary: s)
  case (Cons c cs)
  have input: "items (irx_siETH_Data s) = c # (cs @ rest)" using Cons.prems(1) by simp
  have t: "items (irx_siETH_Data (pInputBuffer s)) = cs @ rest"
    "ssIBufToMPd_Data (pInputBuffer s) = swrite (ssIBufToMPd_Data s) c"
    using Cons.prems(2,3) by (simp_all add: pInputBuffer_def sread_cons [OF input] sfull_def)
  show ?case
    using Cons.IH [OF t(1)] Cons.prems(2,3) by (simp add: t(2) funpow_swap1)
qed simp

lemma payload_valid: "payload_ok cs \<Longrightarrow> \<forall>c \<in> set cs. isValid c"
proof
  fix c assume cs: "payload_ok cs" "c \<in> set cs"
  then have ok: "chunk_ok c" by (simp add: payload_ok_def)
  have "ax_tlast c \<or> getLen c = 8"
  proof (cases "c \<in> set (butlast cs)")
    case True
    then show ?thesis using cs(1) by (simp add: payload_ok_def)
  next
    case False
    then have "c = last cs" using cs payload_ok_nonempty [OF cs(1)]
      by (metis append_butlast_last_id in_set_conv_decomp_last rotate1.simps(2) set_ConsD set_rotate1)
    then show ?thesis using cs(1) by (simp add: payload_ok_def is_segment_def)
  qed
  then show "isValid c"
    using chunk_ok_keep [OF ok] by (auto simp: isValid_def mask_eq_exp_minus_1)
qed

section \<open>The protocol detector\<close>

definition mpd_emit :: "16 word \<Rightarrow> AxisEth \<Rightarrow> AxisEth list \<times> AxisEth list \<Rightarrow> AxisEth list \<times> AxisEth list" where
  "mpd_emit ty c out = (if ty = 0x0806 then (fst out @ [c], snd out) else if ty = 0x0800 then (fst out, snd out @ [c]) else out)"

definition mpd_obs :: "'a IPRX_scheme \<Rightarrow> AxisEth list \<times> AxisEth list" where
  "mpd_obs s = (items (irx_soARP_Data s), items (ssMPdToILc_Data s))"

definition mpd_space :: "'a IPRX_scheme \<Rightarrow> nat" where
  "mpd_space s = min (depth (irx_soARP_Data s) - length (items (irx_soARP_Data s)))
     (depth (ssMPdToILc_Data s) - length (items (ssMPdToILc_Data s)))"

lemma mpd_put_simps:
  "mpd_obs (mpd_put s) = mpd_emit (mpd_etherType s) (mpd_prevChunk s) (mpd_obs s)"
  "mpd_space s \<le> Suc (mpd_space (mpd_put s))"
  "ssIBufToMPd_Data (mpd_put s) = ssIBufToMPd_Data s" "mpd_fsmState (mpd_put s) = mpd_fsmState s"
  "mpd_chunkCount (mpd_put s) = mpd_chunkCount s" "mpd_etherType (mpd_put s) = mpd_etherType s"
  "mpd_prevChunk (mpd_put s) = mpd_prevChunk s"
  by (auto simp: mpd_put_def mpd_obs_def mpd_emit_def mpd_space_def)

lemma mpd_updates:
  "mpd_obs (s\<lparr>ssIBufToMPd_Data := b\<rparr>) = mpd_obs s" "mpd_space (s\<lparr>ssIBufToMPd_Data := b\<rparr>) = mpd_space s"
  "mpd_obs (s\<lparr>mpd_prevChunk := c\<rparr>) = mpd_obs s" "mpd_space (s\<lparr>mpd_prevChunk := c\<rparr>) = mpd_space s"
  "mpd_obs (s\<lparr>mpd_chunkCount := n\<rparr>) = mpd_obs s" "mpd_space (s\<lparr>mpd_chunkCount := n\<rparr>) = mpd_space s"
  "mpd_obs (s\<lparr>mpd_etherType := ty\<rparr>) = mpd_obs s" "mpd_space (s\<lparr>mpd_etherType := ty\<rparr>) = mpd_space s"
  "mpd_obs (s\<lparr>mpd_fsmState := f\<rparr>) = mpd_obs s" "mpd_space (s\<lparr>mpd_fsmState := f\<rparr>) = mpd_space s"
  by (simp_all add: mpd_obs_def mpd_space_def)

lemmas mpd_simps = mpd_put_simps mpd_updates

lemma mpd_not_full: "0 < mpd_space s \<Longrightarrow> \<not> sfull (irx_soARP_Data s) \<and> \<not> sfull (ssMPdToILc_Data s)"
  by (auto simp: mpd_space_def sfull_def)

interpretation mpd: delay_line "pMacProtocolDetector mac" "\<lambda>s. items (ssIBufToMPd_Data s)" ax_tlast mpd_obs
    "mpd_emit ty" mpd_space "\<lambda>s. mpd_fsmState s = MPD_S0 \<and> mpd_chunkCount s = 2 \<and> mpd_etherType s = ty"
    "\<lambda>s. mpd_fsmState s = MPD_S1 \<and> mpd_chunkCount s = 0 \<and> mpd_etherType s = ty"
    "\<lambda>s. mpd_fsmState s = MPD_S0 \<and> mpd_chunkCount s = 0"
    "\<lambda>s. if mpd_fsmState s = MPD_S0 \<and> mpd_chunkCount s = 0 then [] else [mpd_prevChunk s]" "\<lambda>c. c"
proof (unfold_locales, goal_cases)
  case (1 s h hs c cs)
  show ?case
    using 1 mpd_not_full [OF 1(4)] mpd_put_simps(2) [of "s\<lparr>ssIBufToMPd_Data := Stream (depth (ssIBufToMPd_Data s)) cs\<rparr>"]
    by (simp add: pMacProtocolDetector_def sread_cons [OF 1(3)] mpd_simps Let_def)
next
  case (2 s h hs)
  show ?case
    using 2 mpd_not_full [OF 2(3)] mpd_put_simps(2) [of s] by (simp add: pMacProtocolDetector_def mpd_simps)
qed

text \<open>The type of a frame: that of its header, if it is for this station.\<close>

definition frame_type :: "EthAddr \<Rightarrow> AxisEth list \<Rightarrow> 16 word" where
  "frame_type mac cs = (let dst = getEthDstAddr (cs ! 0) in
     if dst \<noteq> mac \<and> dst \<noteq> 0xFFFFFFFFFFFF then 1 else getEtherType (cs ! 1))"

lemma mpd_run:
  assumes "mpd_fsmState s = MPD_S0" "mpd_chunkCount s = 0" "items (ssIBufToMPd_Data s) = c0 # c1 # cs @ rest"
    and "\<not> ax_tlast c0" "\<not> ax_tlast c1" "is_segment ax_tlast cs" "2 + length cs \<le> mpd_space s"
  shows "let t = (pMacProtocolDetector mac ^^ (length cs + 3)) s in
    mpd_fsmState t = MPD_S0 \<and> mpd_chunkCount t = 0 \<and> items (ssIBufToMPd_Data t) = rest \<and>
    mpd_obs t = fold (mpd_emit (frame_type mac (c0 # c1 # cs))) (c0 # c1 # cs) (mpd_obs s)"
proof -
  let ?P = "pMacProtocolDetector mac" and ?ty = "frame_type mac (c0 # c1 # cs)"
  have sp: "0 < mpd_space s" using assms(7) by simp
  let ?t1 = "?P s"
  have t1: "mpd_fsmState ?t1 = MPD_S0" "mpd_chunkCount ?t1 = 1" "items (ssIBufToMPd_Data ?t1) = c1 # (cs @ rest)"
    "mpd_prevChunk ?t1 = c0" "mpd_obs ?t1 = mpd_obs s" "mpd_space ?t1 = mpd_space s"
    "mpd_etherType ?t1 = (if getEthDstAddr c0 \<noteq> mac \<and> getEthDstAddr c0 \<noteq> 0xFFFFFFFFFFFF then 1 else 0)"
    using assms(1,2,4) mpd_not_full [OF sp]
    by (simp_all add: pMacProtocolDetector_def sread_cons [OF assms(3)] mpd_simps Let_def)
  have ty: "(if mpd_etherType ?t1 \<noteq> 1 then getEtherType c1 else mpd_etherType ?t1) = ?ty"
    unfolding t1(7) by (simp add: frame_type_def Let_def)
  have sp1: "0 < mpd_space ?t1" using sp t1(6) by simp
  let ?t2 = "?P ?t1"
  let ?u = "?t1\<lparr>ssIBufToMPd_Data := Stream (depth (ssIBufToMPd_Data ?t1)) (cs @ rest), mpd_etherType := ?ty, mpd_chunkCount := 2\<rparr>"
  have "?t2 = (mpd_put ?u)\<lparr>mpd_prevChunk := c1\<rparr>"
    using t1(1,2) assms(5) mpd_not_full [OF sp1]
    by (simp add: pMacProtocolDetector_def [of mac ?t1] sread_cons [OF t1(3)] Let_def ty [symmetric])
  then have t2: "mpd_fsmState ?t2 = MPD_S0 \<and> mpd_chunkCount ?t2 = 2 \<and> mpd_etherType ?t2 = ?ty"
    "items (ssIBufToMPd_Data ?t2) = cs @ rest" "mpd_prevChunk ?t2 = c1" "mpd_obs ?t2 = mpd_emit ?ty c0 (mpd_obs s)"
    "mpd_space s \<le> Suc (mpd_space ?t2)"
    using t1(1,4,5,6) mpd_put_simps(2) [of ?u] by (simp_all add: mpd_simps)
  have "1 + length cs \<le> mpd_space ?t2" using t2(5) assms(7) by simp
  with mpd.delays [OF t2(1) _ t2(2) assms(6)] t2(1)
  have "let t = (?P ^^ (1 + length cs)) ?t2 in mpd_fsmState t = MPD_S0 \<and> mpd_chunkCount t = 0 \<and>
      items (ssIBufToMPd_Data t) = rest \<and> mpd_obs t = fold (mpd_emit ?ty) (c1 # cs) (mpd_obs ?t2)"
    by (simp add: t2(3))
  moreover have "(?P ^^ (length cs + 3)) s = (?P ^^ (1 + length cs)) ?t2"
    by (simp add: numeral_3_eq_3 funpow_swap1)
  ultimately show ?thesis by (simp only: t2(4)) (simp add: Let_def)
qed

lemma mpd_emit_fold:
  "fold (mpd_emit 0x0800) cs out = (fst out, snd out @ cs)" "fold (mpd_emit 0x0806) cs out = (fst out @ cs, snd out)"
  "ty \<noteq> 0x0800 \<Longrightarrow> ty \<noteq> 0x0806 \<Longrightarrow> fold (mpd_emit ty) cs out = out"
  by (induction cs arbitrary: out) (auto simp: mpd_emit_def)

section \<open>The length checker\<close>

definition ilc_emit :: "bool \<Rightarrow> AxisEth \<Rightarrow> AxisEth list \<Rightarrow> AxisEth list" where
  "ilc_emit f c out = (if f then out else out @ [c])"

definition ilc_space :: "'a IPRX_scheme \<Rightarrow> nat" where
  "ilc_space s = depth (ssILcToICa_Data s) - length (items (ssILcToICa_Data s))"

definition ilc_held :: "'a IPRX_scheme \<Rightarrow> AxisEth list" where
  "ilc_held s = (if ilc_leftToWrite s = 1 then [ilc_buffer1 s]
     else if ilc_leftToWrite s = 2 \<or> ilc_fsmState s = ILC_STREAM then [ilc_buffer1 s, ilc_buffer0 s] else [])"

lemmas ilc_defs = pIpLengthChecker_def ilc_chunk_def ilc_put_def ilc_shift_def ilc_emit_def ilc_space_def ilc_held_def
  sfull_def Let_def

interpretation ilc: delay_line pIpLengthChecker "\<lambda>s. items (ssMPdToILc_Data s)" ax_tlast
    "\<lambda>s. items (ssILcToICa_Data s)" "ilc_emit f" ilc_space
    "\<lambda>s. ilc_leftToWrite s = 0 \<and> ilc_fsmState s = ILC_STREAM \<and> ilc_filterPacket s = f"
    "\<lambda>s. (ilc_leftToWrite s = 1 \<or> ilc_leftToWrite s = 2) \<and> ilc_fsmState s = ILC_IDLE \<and> ilc_chunkCount s = 0 \<and>
       ilc_filterPacket s = f"
    "\<lambda>s. ilc_leftToWrite s = 0 \<and> ilc_fsmState s = ILC_IDLE \<and> ilc_chunkCount s = 0" ilc_held "\<lambda>c. c"
proof (unfold_locales, goal_cases)
  case (1 s h hs c cs)
  then show ?case by (auto simp: ilc_defs sread_cons [OF 1(3)])
next
  case (2 s h hs)
  then show ?case by (auto simp: ilc_defs)
qed

lemma ilc_run:
  assumes "ilc_leftToWrite s = 0" "ilc_fsmState s = ILC_IDLE" "ilc_chunkCount s = 0"
    and "items (ssMPdToILc_Data s) = c0 # c1 # c2 # cs @ rest"
    and "\<not> ax_tlast c0" "\<not> ax_tlast c1" "\<not> ax_tlast c2" "is_segment ax_tlast cs" "3 + length cs \<le> ilc_space s"
  shows "let t = (pIpLengthChecker ^^ (length cs + 5)) s in
    ilc_leftToWrite t = 0 \<and> ilc_fsmState t = ILC_IDLE \<and> ilc_chunkCount t = 0 \<and> items (ssMPdToILc_Data t) = rest \<and>
    items (ssILcToICa_Data t) =
      fold (ilc_emit (32768 < eth_getIp4TotalLen c2)) (c0 # c1 # c2 # cs) (items (ssILcToICa_Data s))"
proof -
  let ?P = pIpLengthChecker and ?f = "32768 < eth_getIp4TotalLen c2"
  have room: "length (items (ssILcToICa_Data s)) < depth (ssILcToICa_Data s)" using assms(9) by (simp add: ilc_space_def)
  let ?t1 = "?P s"
  have t1: "ilc_leftToWrite ?t1 = 0" "ilc_fsmState ?t1 = ILC_IDLE" "ilc_chunkCount ?t1 = 1"
    "items (ssMPdToILc_Data ?t1) = c1 # (c2 # cs @ rest)" "ilc_buffer0 ?t1 = c0" "ssILcToICa_Data ?t1 = ssILcToICa_Data s"
    using assms(1-3,5) room by (simp_all add: ilc_defs sread_cons [OF assms(4)])
  let ?t2 = "?P ?t1"
  have t2: "ilc_leftToWrite ?t2 = 0" "ilc_fsmState ?t2 = ILC_SIZECHECK" "items (ssMPdToILc_Data ?t2) = c2 # (cs @ rest)"
    "ilc_buffer0 ?t2 = c1" "ilc_buffer1 ?t2 = c0" "ssILcToICa_Data ?t2 = ssILcToICa_Data s"
    using t1 assms(6) room by (simp_all add: pIpLengthChecker_def [of ?t1] ilc_chunk_def ilc_shift_def ilc_space_def
        sread_cons [OF t1(4)] sfull_def Let_def)
  let ?t3 = "?P ?t2"
  have t3: "ilc_leftToWrite ?t3 = 0 \<and> ilc_fsmState ?t3 = ILC_STREAM \<and> ilc_filterPacket ?t3 = ?f"
    "items (ssMPdToILc_Data ?t3) = cs @ rest" "ilc_held ?t3 = [c1, c2]"
    "items (ssILcToICa_Data ?t3) = ilc_emit ?f c0 (items (ssILcToICa_Data s))" "ilc_space s \<le> Suc (ilc_space ?t3)"
    using t2 assms(7) room by (auto simp: pIpLengthChecker_def [of ?t2] ilc_chunk_def ilc_put_def ilc_shift_def ilc_space_def
        ilc_held_def ilc_emit_def sread_cons [OF t2(3)] sfull_def Let_def)
  have "length (ilc_held ?t3) + length cs \<le> ilc_space ?t3" using t3(3,5) assms(9) by simp
  from ilc.delays [OF t3(1) _ t3(2) assms(8) this]
  have "let t = (?P ^^ (2 + length cs)) ?t3 in ilc_leftToWrite t = 0 \<and> ilc_fsmState t = ILC_IDLE \<and> ilc_chunkCount t = 0 \<and>
      items (ssMPdToILc_Data t) = rest \<and>
      items (ssILcToICa_Data t) = fold (ilc_emit ?f) (c1 # c2 # cs) (items (ssILcToICa_Data ?t3))"
    by (simp add: t3(3) Let_def del: funpow.simps)
  moreover have "(?P ^^ (length cs + 5)) s = (?P ^^ (2 + length cs)) ?t3"
  proof -
    have "length cs + 5 = (2 + length cs) + 3" by simp
    then show ?thesis by (simp only: funpow_add o_apply numeral_3_eq_3 funpow.simps id_apply)
  qed
  ultimately show ?thesis by (simp only: t3(4)) (simp add: Let_def)
qed

lemma ilc_emit_fold: "fold (ilc_emit f) cs out = (if f then out else out @ cs)"
  by (induction cs arbitrary: out) (auto simp: ilc_emit_def)

section \<open>The checksum accumulator\<close>

lemma ica_join_bytes:
  assumes "getLen p = 8" "chunk_ok c"
  shows "chunk_bytes (ica_join p c) = drop 6 (chunk_bytes p) @ take 6 (chunk_bytes c)"
    "ax_tlast (ica_join p c) = (getLen c \<le> 6)"
proof -
  have "ax_tdata (ica_join p c) = ax_tdata (mwr_join 2 p c)" "ax_tkeep (ica_join p c) = ax_tkeep (mwr_join 2 p c)"
    by (rule bit_word_eqI; auto simp: ica_join_def bit_get_range bit_mwr_join_data bit_mwr_join_keep bit_or_iff
      bit_push_bit_iff)+
  then have "chunk_bytes (ica_join p c) = chunk_bytes (mwr_join 2 p c)" by (simp add: chunk_bytes_def getLen_def)
  then show "chunk_bytes (ica_join p c) = drop 6 (chunk_bytes p) @ take 6 (chunk_bytes c)"
    using chunk_bytes_join [of 2 p c] assms by simp
  show "ax_tlast (ica_join p c) = (getLen c \<le> 6)"
    using chunk_ok_keep [OF assms(2)] by (auto simp: ica_join_def bit_mask_iff)
qed

lemma ica_last_bytes:
  assumes "6 < getLen p"
  shows "chunk_bytes (ica_last p) = drop 6 (chunk_bytes p)"
proof -
  have "ax_tdata (ica_last p) = ax_tdata (mwr_tail 2 p)" "ax_tkeep (ica_last p) = ax_tkeep (mwr_tail 2 p)"
    by (rule bit_word_eqI; auto simp: ica_last_def bit_get_range bit_mwr_tail_data bit_mwr_tail_keep)+
  then have "chunk_bytes (ica_last p) = chunk_bytes (mwr_tail 2 p)" by (simp add: chunk_bytes_def getLen_def)
  then show ?thesis using chunk_bytes_tail [of 2 p] assms by (simp add: chunk_ok_def)
qed

text \<open>The state between the chunks of a frame, when the sums have been reported.\<close>

definition ica_account :: "'a IPRX_scheme \<Rightarrow> _" where
  "ica_account s = (ssICaToIId_IpVer s, ssICaToIId_DropFrag s, ssICaToICc_SubSums s)"

definition ica_side_room :: "'a IPRX_scheme \<Rightarrow> bool" where
  "ica_side_room s \<longleftrightarrow> \<not> sfull (ssICaToIId_IpVer s) \<and> \<not> sfull (ssICaToIId_DropFrag s) \<and> \<not> sfull (ssICaToICc_SubSums s)"

lemma ica_tick:
  assumes "items (ssILcToICa_Data s) = c # cs" "\<not> ica_wasLastChunk s" "ica_side_room s"
    and "length (items (ssICaToIId_Data s)) < depth (ssICaToIId_Data s)"
  shows "pIpChecksumAccumulator ownIp junk s =
    (let t = ica_chunk ownIp c (s\<lparr>ssILcToICa_Data := Stream (depth (ssILcToICa_Data s)) cs\<rparr>);
         w = ica_join (ica_prevChunk t) c;
         u = (if 2 < ica_chunkCount t then t\<lparr>ssICaToIId_Data := swrite (ssICaToIId_Data t) w\<rparr> else t);
         u = u\<lparr>ica_prevChunk := c\<rparr>
     in if ax_tlast c
        then u\<lparr>ica_chunkCount := 0, ica_wasLastChunk := (\<not> (if 2 < ica_chunkCount t then ax_tlast w else junk))\<rparr> else u)"
  using assms by (simp add: pIpChecksumAccumulator_def sread_cons [OF assms(1)] sempty_def sfull_def ica_side_room_def Let_def)

interpretation ica: shifter "pIpChecksumAccumulator ownIp junk" "\<lambda>s. items (ssILcToICa_Data s)"
    "\<lambda>s. items (ssICaToIId_Data s)" "\<lambda>s. depth (ssICaToIId_Data s)" ica_account "\<lambda>_ x. x" "\<lambda>s. False"
    "\<lambda>s. ica_chunkCount s = 4 \<and> ica_ipHdrLen s = 0 \<and> \<not> ica_wasLastChunk s \<and> ica_side_room s"
    "\<lambda>s. ica_chunkCount s = 0 \<and> ica_wasLastChunk s" "\<lambda>s. ica_chunkCount s = 0 \<and> \<not> ica_wasLastChunk s"
    "\<lambda>s. drop 6 (chunk_bytes (ica_prevChunk s))" 2
proof (unfold_locales, goal_cases)
  case (2 s c cs)
  have "getLen (ica_prevChunk s) = 8" using 2(4) chunk_ok_keep [of "ica_prevChunk s"] by (simp add: chunk_ok_def)
  note join = ica_join_bytes [OF this 2(3)]
  from 2(1) have s: "\<not> ica_wasLastChunk s" "ica_side_room s" by simp_all
  show ?case
    using 2(1) join by (simp add: ica_tick [OF 2(2) s 2(5)] ica_chunk_def ica_rest_def ica_account_def ica_side_room_def Let_def)
next
  case (3 s)
  have "6 < getLen (ica_prevChunk s)" using 3(2) by simp
  with ica_last_bytes [OF this] 3 show ?case
    by (simp add: pIpChecksumAccumulator_def sfull_def ica_account_def) (simp add: ica_last_def)
qed simp_all

lemma ica_add_hca: "ica_add c i = hca_add c i"
proof -
  have "byteSwap16 (ucast (get_range (i * 16 + 15) (i * 16) (ax_tdata c))) =
      (word_cat (ucast (get_range (i * 16 + 7) (i * 16) (ax_tdata c)) :: 8 word)
        (ucast (get_range (i * 16 + 15) (i * 16 + 8) (ax_tdata c)) :: 8 word) :: 16 word)"
    by (rule bit_word_eqI)
      (auto simp: byteSwap16_def bit_word_cat_iff bit_ucast_iff bit_drop_bit_eq bit_get_range algebra_simps)
  then show ?thesis by (intro ext) (simp add: ica_add_def hca_add_def)
qed

lemma ica_sum_hca: "ica_sum c v = hca_sum (\<lambda>_. True) c v"
  by (simp add: ica_sum_def hca_sum_def ica_add_hca)

lemma unat_ica_first: "unat (ica_first c 0) = lane16 c 3"
proof -
  have "ica_first c 0 = ucast (word_cat (byte_of c 6) (byte_of c 7) :: 16 word)"
    by (rule bit_word_eqI)
      (auto simp: ica_first_def eth_getIp4ToS_def eth_getIp4HdrLen_def eth_getIp4Version_def bit_set_range bit_get_range
        bit_ucast_iff bit_word_cat_iff byte_of_def bit_nth_byte algebra_simps)
  then show ?thesis by (simp only: unat_word_cat_8 lane16_at)
qed

lemma lanes_inv_first: "lanes_inv (SubCSums_zero\<lparr>sum3 := ica_first c 0\<rparr>) (lane16 c 3)"
proof -
  have b: "unat (byte_of c j) < 256" for j using unsigned_less [of "byte_of c j"] by simp
  have "lane16 c 3 \<le> 65535" using b [of 6] b [of 7] by (simp add: lane16_at)
  then show ?thesis
    unfolding lanes_inv_def
    by (intro exI [of _ 0] exI [of _ "lane16 c 3"]) (simp add: SubCSums_zero_def unat_ica_first ones_sum_id)
qed

text \<open>What the header of a frame with an IPv4 header of 20 or 24 bytes is summed to: its 20 bytes, but with
  24 bytes the two that follow are added too.\<close>

definition ica_span :: "nat \<Rightarrow> nat" where
  "ica_span h = (if h = 5 then 20 else 26)"

definition ica_flags :: "AxisEth \<Rightarrow> bool" where
  "ica_flags c = (let flags = get16 32 c in take_bit 13 flags \<noteq> 0 \<or> bit flags 13)"

definition ica_dst :: "AxisEth \<Rightarrow> AxisEth \<Rightarrow> Ip4Addr" where
  "ica_dst c3 c4 = word_cat (eth_getIp4DstAddrHi c3) (eth_getIp4DstAddrLo c4)"

lemma ica_dst_set: "set_range 15 0 (ucast (lo :: 16 word)) (set_range 31 16 (ucast (hi :: 16 word)) (x :: 32 word)) = word_cat hi lo"
  by (rule bit_word_eqI) (auto simp: bit_set_range bit_ucast_iff bit_word_cat_iff)

lemma ica_sums:
  assumes "getLen c1 = 8" "getLen c2 = 8" "getLen c3 = 8" "getLen c4 = 8"
  defines "v \<equiv> ica_sum c3 (ica_sum c2 (SubCSums_zero\<lparr>sum3 := ica_first c1 0\<rparr>))"
    and "bs \<equiv> drop 6 (chunk_bytes c1) @ chunk_bytes c2 @ chunk_bytes c3 @ chunk_bytes c4"
  shows "lanes_inv (v\<lparr>sum0 := csum_fold (sum0 v + ucast (eth_getIp4DstAddrLo c4))\<rparr>) (inet_sum (take 20 bs))"
    "lanes_inv (ica_sum c4 v) (inet_sum (take 26 bs))"
proof -
  have six: "drop 6 (chunk_bytes c1) = [byte_of c1 6, byte_of c1 7]" by (simp add: full_chunk_bytes [OF assms(1)])
  have two: "take 2 (chunk_bytes c4) = [byte_of c4 0, byte_of c4 1]" by (simp add: full_chunk_bytes [OF assms(4)])
  have first: "lanes_inv (SubCSums_zero\<lparr>sum3 := ica_first c1 0\<rparr>) (inet_sum (drop 6 (chunk_bytes c1)))"
    using lanes_inv_first [of c1] by (simp add: six lane16_at)
  have "lanes_inv v (inet_sum (drop 6 (chunk_bytes c1)) + inet_sum (chunk_bytes c2) + inet_sum (chunk_bytes c3))"
    unfolding v_def ica_sum_hca by (intro hca_sum_all first assms(2,3))
  then have v: "lanes_inv v (inet_sum (drop 6 (chunk_bytes c1) @ chunk_bytes c2 @ chunk_bytes c3))"
    using assms(1-3) by (simp add: inet_sum_append add.assoc)
  have "v\<lparr>sum0 := csum_fold (sum0 v + ucast (eth_getIp4DstAddrLo c4))\<rparr> = hca_sum (\<lambda>i. i = 0) c4 v"
  proof -
    have "eth_getIp4DstAddrLo c4 = word_cat (byte_of c4 0) (byte_of c4 1)"
      using get16_u16 [of 0 c4] by (simp add: eth_getIp4DstAddrLo_def)
    then show ?thesis by (simp add: hca_sum_def hca_add_def lane_bytes [of 0, simplified])
  qed
  moreover have "take 20 bs = (drop 6 (chunk_bytes c1) @ chunk_bytes c2 @ chunk_bytes c3) @ take 2 (chunk_bytes c4)"
    using assms(1-4) by (simp add: bs_def)
  ultimately show "lanes_inv (v\<lparr>sum0 := csum_fold (sum0 v + ucast (eth_getIp4DstAddrLo c4))\<rparr>) (inet_sum (take 20 bs))"
    using lanes_inv_hca [OF v, of "\<lambda>i. i = 0" c4] assms(1-3) by (simp add: inet_sum_append two lane16_at add.assoc)
  have "take 26 bs = (drop 6 (chunk_bytes c1) @ chunk_bytes c2 @ chunk_bytes c3) @ chunk_bytes c4"
    using assms(1-4) by (simp add: bs_def)
  then show "lanes_inv (ica_sum c4 v) (inet_sum (take 26 bs))"
    using hca_sum_all [OF v assms(4)] assms(1-3) by (simp add: inet_sum_append ica_sum_hca add.assoc)
qed

text \<open>A frame of more than 40 bytes whose IPv4 header has 20 or 24 of them.  \<open>ica_sent\<close> is what the accumulator
  tells the checker and the dropper.\<close>

definition ica_ready :: "'a IPRX_scheme \<Rightarrow> bool" where
  "ica_ready s \<longleftrightarrow> ica_chunkCount s = 0 \<and> \<not> ica_wasLastChunk s"

definition ica_room :: "'a IPRX_scheme \<Rightarrow> nat \<Rightarrow> bool" where
  "ica_room s n \<longleftrightarrow> length (items (ssICaToIId_IpVer s)) + 1 < depth (ssICaToIId_IpVer s) \<and>
     length (items (ssICaToIId_DropFrag s)) + 1 < depth (ssICaToIId_DropFrag s) \<and>
     length (items (ssICaToICc_SubSums s)) + 1 < depth (ssICaToICc_SubSums s) \<and>
     length (items (ssICaToIId_Data s)) + n < depth (ssICaToIId_Data s)"

lemma ica_header:
  fixes ownIp junk
  assumes "ica_ready s" "items (ssILcToICa_Data s) = c0 # c1 # c2 # c3 # c4 # cs" "ica_room s 3"
    and "\<not> ax_tlast c0" "\<not> ax_tlast c1" "\<not> ax_tlast c2" "\<not> ax_tlast c3" "\<not> ax_tlast c4"
    and "getLen c1 = 8" "getLen c2 = 8" "getLen c3 = 8" "getLen c4 = 8"
    and "unat (eth_getIp4HdrLen c1) = h" "h = 5 \<or> h = 6"
  defines "t \<equiv> (pIpChecksumAccumulator ownIp junk ^^ 5) s"
  shows "ica_chunkCount t = 4 \<and> ica_ipHdrLen t = 0 \<and> \<not> ica_wasLastChunk t \<and> ica_side_room t"
    "items (ssILcToICa_Data t) = cs" "ica_prevChunk t = c4" "depth (ssICaToIId_Data t) = depth (ssICaToIId_Data s)"
    "items (ssICaToIId_Data t) = items (ssICaToIId_Data s) @ [ica_join c1 c2, ica_join c2 c3, ica_join c3 c4]"
    "items (ssICaToIId_IpVer t) = items (ssICaToIId_IpVer s) @ [eth_getIp4Version c1]"
    "items (ssICaToIId_DropFrag t) = items (ssICaToIId_DropFrag s) @ [ica_flags c2]"
    "\<exists>v. items (ssICaToICc_SubSums t) = items (ssICaToICc_SubSums s) @ [v] \<and>
       lanes_inv (SubCSums.truncate v) (inet_sum (take (ica_span h)
         (drop 6 (chunk_bytes c1) @ chunk_bytes c2 @ chunk_bytes c3 @ chunk_bytes c4))) \<and>
       ss_ipMatch v = (ica_dst c3 c4 = ownIp)"
proof -
  let ?P = "pIpChecksumAccumulator ownIp junk"
  note room = assms(3) [unfolded ica_room_def]
  have idle: "ica_chunkCount s = 0" "\<not> ica_wasLastChunk s" using assms(1) by (simp_all add: ica_ready_def)
  have hl: "(ucast (eth_getIp4HdrLen c1) :: 8 word) = of_nat h"
    using assms(13) [symmetric] by simp
  have r0: "ica_side_room s" "length (items (ssICaToIId_Data s)) < depth (ssICaToIId_Data s)"
    using room by (simp_all add: ica_side_room_def sfull_def)
  let ?t1 = "?P s"
  have t1: "ica_chunkCount ?t1 = 1" "\<not> ica_wasLastChunk ?t1" "items (ssILcToICa_Data ?t1) = c1 # (c2 # c3 # c4 # cs)"
    "ica_account ?t1 = ica_account s" "ssICaToIId_Data ?t1 = ssICaToIId_Data s" "ica_ipHdrSums ?t1 = SubCSums_zero"
    "ica_prevChunk ?t1 = c0"
    using assms(4) idle by (simp_all add: ica_tick [OF assms(2) idle(2) r0] ica_chunk_def ica_account_def Let_def)
  have r1: "ica_side_room ?t1" "length (items (ssICaToIId_Data ?t1)) < depth (ssICaToIId_Data ?t1)"
    using r0 t1(4,5) by (simp_all add: ica_side_room_def ica_account_def)
  let ?t2 = "?P ?t1" and ?v2 = "SubCSums_zero\<lparr>sum3 := ica_first c1 0\<rparr>"
  have t2: "ica_chunkCount ?t2 = 2" "\<not> ica_wasLastChunk ?t2" "items (ssILcToICa_Data ?t2) = c2 # (c3 # c4 # cs)"
    "ica_account ?t2 = (swrite (ssICaToIId_IpVer s) (eth_getIp4Version c1), ssICaToIId_DropFrag s, ssICaToICc_SubSums s)"
    "ssICaToIId_Data ?t2 = ssICaToIId_Data s" "ica_ipHdrSums ?t2 = ?v2" "ica_prevChunk ?t2 = c1"
    "ica_ipHdrLen ?t2 = of_nat h"
    using assms(5) t1 by (simp_all add: ica_tick [OF t1(3,2) r1] ica_chunk_def ica_account_def SubCSums_zero_def hl Let_def)
  have r2: "ica_side_room ?t2" "length (items (ssICaToIId_Data ?t2)) < depth (ssICaToIId_Data ?t2)"
    using room t2(4,5) by (simp_all add: ica_side_room_def ica_account_def sfull_def)
  let ?t3 = "?P ?t2" and ?v3 = "ica_sum c2 ?v2"
  have flags: "(take_bit 13 (byteSwap16 (ucast (get_range 47 32 (ax_tdata c2)))) = 0 \<longrightarrow>
      bit (byteSwap16 (ucast (get_range 47 32 (ax_tdata c2))) :: 16 word) 13) = ica_flags c2"
    by (auto simp: ica_flags_def get16_def Let_def)
  have t3: "ica_chunkCount ?t3 = 3" "\<not> ica_wasLastChunk ?t3" "items (ssILcToICa_Data ?t3) = c3 # (c4 # cs)"
    "ica_account ?t3 = (swrite (ssICaToIId_IpVer s) (eth_getIp4Version c1), swrite (ssICaToIId_DropFrag s) (ica_flags c2),
       ssICaToICc_SubSums s)"
    "ssICaToIId_Data ?t3 = swrite (ssICaToIId_Data s) (ica_join c1 c2)" "ica_ipHdrSums ?t3 = ?v3"
    "ica_prevChunk ?t3 = c2" "ica_ipHdrLen ?t3 = of_nat h - 2"
    using assms(6) t2 by (simp_all add: ica_tick [OF t2(3,2) r2] ica_chunk_def ica_account_def flags Let_def)
  have r3: "ica_side_room ?t3" "length (items (ssICaToIId_Data ?t3)) < depth (ssICaToIId_Data ?t3)"
    using room t3(4,5) by (simp_all add: ica_side_room_def ica_account_def sfull_def)
  let ?t4 = "?P ?t3" and ?v4 = "ica_sum c3 ?v3"
  have t4: "ica_chunkCount ?t4 = 4" "\<not> ica_wasLastChunk ?t4" "items (ssILcToICa_Data ?t4) = c4 # cs"
    "ica_account ?t4 = ica_account ?t3"
    "ssICaToIId_Data ?t4 = swrite (swrite (ssICaToIId_Data s) (ica_join c1 c2)) (ica_join c2 c3)" "ica_ipHdrSums ?t4 = ?v4"
    "ica_prevChunk ?t4 = c3" "ica_ipHdrLen ?t4 = of_nat h - 4"
    "set_range 15 0 (ucast (eth_getIp4DstAddrLo c4)) (ica_dstIpAddress ?t4) = ica_dst c3 c4"
    using assms(7) t3 by (simp_all add: ica_tick [OF t3(3,2) r3] ica_chunk_def ica_account_def ica_dst_set ica_dst_def Let_def)
  have r4: "ica_side_room ?t4" "length (items (ssICaToIId_Data ?t4)) < depth (ssICaToIId_Data ?t4)"
    using room t3(4) t4(4,5) by (simp_all add: ica_side_room_def ica_account_def sfull_def)
  let ?t5 = "?P ?t4"
  let ?v5 = "if h = 5 then ?v4\<lparr>sum0 := csum_fold (sum0 ?v4 + ucast (eth_getIp4DstAddrLo c4))\<rparr> else ica_sum c4 ?v4"
  have t5: "ica_chunkCount ?t5 = 4" "ica_ipHdrLen ?t5 = 0" "\<not> ica_wasLastChunk ?t5" "items (ssILcToICa_Data ?t5) = cs"
    "ica_account ?t5 = (swrite (ssICaToIId_IpVer s) (eth_getIp4Version c1), swrite (ssICaToIId_DropFrag s) (ica_flags c2),
       swrite (ssICaToICc_SubSums s) (SubCSums.extend ?v5 \<lparr>ss_ipMatch = (ica_dst c3 c4 = ownIp)\<rparr>))"
    "ssICaToIId_Data ?t5 = swrite (swrite (swrite (ssICaToIId_Data s) (ica_join c1 c2)) (ica_join c2 c3)) (ica_join c3 c4)"
    "ica_prevChunk ?t5 = c4"
    using assms(8,14) t3(4) t4
    by (auto simp: ica_tick [OF t4(3,2) r4] ica_chunk_def ica_rest_def ica_report_def ica_account_def Let_def)
  have t: "t = ?t5" by (simp add: t_def eval_nat_numeral)
  have span: "lanes_inv ?v5 (inet_sum (take (ica_span h)
      (drop 6 (chunk_bytes c1) @ chunk_bytes c2 @ chunk_bytes c3 @ chunk_bytes c4)))"
    using ica_sums [OF assms(9-12)] by (simp add: ica_span_def)
  have trunc: "SubCSums.truncate (SubCSums.extend ?v5 \<lparr>ss_ipMatch = m\<rparr>) = ?v5" for m
    by (simp add: SubCSums.truncate_def SubCSums.extend_def SubCSums.make_def)
  show "ica_chunkCount t = 4 \<and> ica_ipHdrLen t = 0 \<and> \<not> ica_wasLastChunk t \<and> ica_side_room t"
    "items (ssILcToICa_Data t) = cs" "ica_prevChunk t = c4" "depth (ssICaToIId_Data t) = depth (ssICaToIId_Data s)"
    "items (ssICaToIId_Data t) = items (ssICaToIId_Data s) @ [ica_join c1 c2, ica_join c2 c3, ica_join c3 c4]"
    "items (ssICaToIId_IpVer t) = items (ssICaToIId_IpVer s) @ [eth_getIp4Version c1]"
    "items (ssICaToIId_DropFrag t) = items (ssICaToIId_DropFrag s) @ [ica_flags c2]"
    using room t5 unfolding t by (simp_all add: ica_side_room_def ica_account_def sfull_def)
  have "items (ssICaToICc_SubSums t) = items (ssICaToICc_SubSums s) @
      [SubCSums.extend ?v5 \<lparr>ss_ipMatch = (ica_dst c3 c4 = ownIp)\<rparr>]"
    using t5(5) unfolding t by (simp add: ica_account_def)
  then show "\<exists>v. items (ssICaToICc_SubSums t) = items (ssICaToICc_SubSums s) @ [v] \<and>
       lanes_inv (SubCSums.truncate v) (inet_sum (take (ica_span h)
         (drop 6 (chunk_bytes c1) @ chunk_bytes c2 @ chunk_bytes c3 @ chunk_bytes c4))) \<and>
       ss_ipMatch v = (ica_dst c3 c4 = ownIp)"
    using span by (intro exI [of _ "SubCSums.extend ?v5 \<lparr>ss_ipMatch = (ica_dst c3 c4 = ownIp)\<rparr>"],
      simp add: trunc) (simp add: SubCSums.extend_def)
qed

end
