(* ===== verification/Ip_Deliver.thy ===== *)
theory Ip_Deliver
  imports Ip_Check
begin

text \<open>
  What the receiver of Ethernet frames (\<open>Ip_Rx\<close>) delivers: a frame for this station with a valid IPv4
  packet reaches the engine of its protocol, cut to its length; everything else is dropped, among it
  the packets with options, because of defects of the header sum.
\<close>

section \<open>The fields of a frame\<close>

text \<open>The receiver is shown on frames of more than 40 bytes, which every Ethernet frame has.\<close>

definition frame_ok :: "AxisEth list \<Rightarrow> bool" where
  "frame_ok cs \<longleftrightarrow> payload_ok cs \<and> 40 < length (bytes_of cs)"

lemma frame_split:
  assumes "frame_ok cs"
  obtains c0 c1 c2 c3 c4 cs' where "cs = c0 # c1 # c2 # c3 # c4 # cs'"
    "getLen c0 = 8" "getLen c1 = 8" "getLen c2 = 8" "getLen c3 = 8" "getLen c4 = 8"
    "\<not> ax_tlast c0" "\<not> ax_tlast c1" "\<not> ax_tlast c2" "\<not> ax_tlast c3" "\<not> ax_tlast c4" "payload_ok cs'"
proof -
  have cs: "payload_ok cs" "40 < length (bytes_of cs)" using assms by (simp_all add: frame_ok_def)
  then have "8 < length (bytes_of cs)" by simp
  from payload_split [OF cs(1) this] obtain c0 cs0 where c0: "cs = c0 # cs0" "getLen c0 = 8" "\<not> ax_tlast c0"
    "chunk_ok c0" "payload_ok cs0" "length (bytes_of cs) = 8 + length (bytes_of cs0)" .
  have "8 < length (bytes_of cs0)" using cs(2) c0(6) by simp
  from payload_split [OF c0(5) this] obtain c1 cs1 where c1: "cs0 = c1 # cs1" "getLen c1 = 8" "\<not> ax_tlast c1"
    "chunk_ok c1" "payload_ok cs1" "length (bytes_of cs0) = 8 + length (bytes_of cs1)" .
  have "8 < length (bytes_of cs1)" using cs(2) c0(6) c1(6) by simp
  from payload_split [OF c1(5) this] obtain c2 cs2 where c2: "cs1 = c2 # cs2" "getLen c2 = 8" "\<not> ax_tlast c2"
    "chunk_ok c2" "payload_ok cs2" "length (bytes_of cs1) = 8 + length (bytes_of cs2)" .
  have "8 < length (bytes_of cs2)" using cs(2) c0(6) c1(6) c2(6) by simp
  from payload_split [OF c2(5) this] obtain c3 cs3 where c3: "cs2 = c3 # cs3" "getLen c3 = 8" "\<not> ax_tlast c3"
    "chunk_ok c3" "payload_ok cs3" "length (bytes_of cs2) = 8 + length (bytes_of cs3)" .
  have "8 < length (bytes_of cs3)" using cs(2) c0(6) c1(6) c2(6) c3(6) by simp
  from payload_split [OF c3(5) this] obtain c4 cs4 where c4: "cs3 = c4 # cs4" "getLen c4 = 8" "\<not> ax_tlast c4"
    "chunk_ok c4" "payload_ok cs4" "length (bytes_of cs3) = 8 + length (bytes_of cs4)" .
  show thesis by (rule that [of c0 c1 c2 c3 c4 cs4]) (use c0 c1 c2 c3 c4 in simp_all)
qed

text \<open>The fields by their place in the bytes: the address of the frame, its type, and in the packet the
  version, the flags and the offset of fragments, and the destination address.\<close>

definition frame_for :: "EthAddr \<Rightarrow> 8 word list \<Rightarrow> bool" where
  "frame_for mac fb \<longleftrightarrow> take 6 fb = be48 mac \<or> take 6 fb = be48 0xFFFFFFFFFFFF"

definition ip_fragment :: "8 word list \<Rightarrow> bool" where
  "ip_fragment pkt \<longleftrightarrow> take_bit 13 (u16 pkt 6) \<noteq> 0 \<or> bit (u16 pkt 6) 13"

lemma be48_inject: "be48 a = be48 b \<longleftrightarrow> a = b"
proof
  assume eq: "be48 a = be48 b"
  have "nth_byte (ucast (swapMacAddr a) :: 64 word) i = nth_byte (ucast (swapMacAddr b)) i" if "i < 6" for i
    using eq that by (simp add: nth_byte_swapMacAddr)
  then have "bit (nth_byte (ucast (swapMacAddr a) :: 64 word) (n div 8)) (n mod 8) =
      bit (nth_byte (ucast (swapMacAddr b) :: 64 word) (n div 8)) (n mod 8)" if "n < 48" for n
    using that by simp
  then have "swapMacAddr a = swapMacAddr b"
    by (intro bit_word_eqI) (simp add: bit_nth_byte bit_ucast_iff)
  then show "a = b" by (metis swapMacAddr_swapMacAddr)
qed simp

lemma getEthDstAddr_bytes: "be48 (getEthDstAddr c) = map (byte_of c) [0, 1, 2, 3, 4, 5]"
proof -
  have "nth_byte (ucast (swapMacAddr (getEthDstAddr c)) :: 64 word) i = byte_of c i" if "i < 6" for i
    by (rule bit_word_eqI)
      (use that in \<open>auto simp: getEthDstAddr_def byte_of_def bit_nth_byte bit_ucast_iff bit_get_range\<close>)
  then have "be48 (getEthDstAddr c) ! i = byte_of c i" if "i < 6" for i
    using that nth_byte_swapMacAddr [of i "getEthDstAddr c"] by simp
  from this [of 0] this [of 1] this [of 2] this [of 3] this [of 4] this [of 5] show ?thesis
    by (simp add: be48_def)
qed

lemma frame_bytes:
  assumes "cs = c0 # c1 # c2 # c3 # c4 # cs'" "getLen c0 = 8" "getLen c1 = 8" "getLen c2 = 8" "getLen c3 = 8" "getLen c4 = 8"
  defines "fb \<equiv> bytes_of cs" and "pkt \<equiv> drop 14 (bytes_of cs)"
  shows "take 6 fb = be48 (getEthDstAddr c0)" "u16 fb 12 = getEtherType c1"
    "pkt = drop 6 (chunk_bytes c1) @ chunk_bytes c2 @ chunk_bytes c3 @ chunk_bytes c4 @ bytes_of cs'"
    "ip_words pkt = unat (eth_getIp4HdrLen c1)" "ucast (drop_bit 4 (pkt ! 0)) = eth_getIp4Version c1"
    "ip_fragment pkt = ica_flags c2" "u16 pkt 2 = eth_getIp4TotalLen c2" "u32 pkt 16 = ica_dst c3 c4"
proof -
  note full = full_chunk_bytes [OF assms(2)] full_chunk_bytes [OF assms(3)] full_chunk_bytes [OF assms(4)]
    full_chunk_bytes [OF assms(5)] full_chunk_bytes [OF assms(6)]
  show "take 6 fb = be48 (getEthDstAddr c0)"
    by (simp add: fb_def assms(1) full getEthDstAddr_bytes)
  show "u16 fb 12 = getEtherType c1"
    using get16_u16 [of 4 c1] by (simp add: fb_def assms(1) full u16_def getEtherType_def)
  show pkt: "pkt = drop 6 (chunk_bytes c1) @ chunk_bytes c2 @ chunk_bytes c3 @ chunk_bytes c4 @ bytes_of cs'"
    by (simp add: pkt_def assms(1) full)
  have p0: "pkt ! 0 = byte_of c1 6" by (simp add: pkt full)
  show "ip_words pkt = unat (eth_getIp4HdrLen c1)"
    unfolding ip_words_def p0
    by (rule arg_cong [where f = unat], rule bit_word_eqI)
      (auto simp: eth_getIp4HdrLen_def byte_of_def bit_nth_byte bit_get_range bit_ucast_iff)
  show "ucast (drop_bit 4 (pkt ! 0)) = eth_getIp4Version c1"
    unfolding p0 by (rule bit_word_eqI)
      (auto simp: eth_getIp4Version_def byte_of_def bit_nth_byte bit_get_range bit_ucast_iff bit_drop_bit_eq algebra_simps)
  show "ip_fragment pkt = ica_flags c2"
    using get16_u16 [of 4 c2] by (simp add: ip_fragment_def ica_flags_def pkt full u16_def Let_def)
  show "u16 pkt 2 = eth_getIp4TotalLen c2"
    using get16_u16 [of 0 c2] by (simp add: pkt full u16_def eth_getIp4TotalLen_def)
  show "u32 pkt 16 = ica_dst c3 c4"
    using get16_u16 [of 6 c3] get16_u16 [of 0 c4]
    by (simp add: pkt full u32_def u16_def ica_dst_def eth_getIp4DstAddrHi_def eth_getIp4DstAddrLo_def)
qed

lemma frame_type_bytes:
  assumes "frame_ok cs"
  shows "frame_type mac cs = (if frame_for mac (bytes_of cs) then u16 (bytes_of cs) 12 else 1)"
proof -
  from frame_split [OF assms] obtain c0 c1 c2 c3 c4 cs' where c: "cs = c0 # c1 # c2 # c3 # c4 # cs'"
    "getLen c0 = 8" "getLen c1 = 8" "getLen c2 = 8" "getLen c3 = 8" "getLen c4 = 8" by metis
  show ?thesis
    using frame_bytes(1,2) [OF c] by (auto simp: frame_type_def frame_for_def be48_inject c(1) Let_def)
qed

section \<open>The verdict on a packet\<close>

text \<open>The verdict of the accumulator and the checker of the code.  For a header without options it is that of
  the Internet checksum; with options the code sums two bytes too many.\<close>

definition ip_valid :: "Ip4Addr \<Rightarrow> 8 word list \<Rightarrow> bool" where
  "ip_valid ownIp pkt \<longleftrightarrow> inet_checksum (take (ica_span (ip_words pkt)) pkt) = 0 \<and> u32 pkt 16 = ownIp"

lemma ica_run:
  assumes "ica_ready s" "items (ssILcToICa_Data s) = cs @ rest" "frame_ok cs" "ica_room s (length cs)"
    and "pkt = drop 14 (bytes_of cs)" "ip_words pkt = 5 \<or> ip_words pkt = 6"
  shows "\<exists>j ws v. let t = (pIpChecksumAccumulator ownIp junk ^^ j) s in ica_ready t \<and> items (ssILcToICa_Data t) = rest \<and>
    items (ssICaToIId_Data t) = items (ssICaToIId_Data s) @ ws \<and> payload_ok ws \<and> bytes_of ws = pkt \<and>
    items (ssICaToIId_IpVer t) = items (ssICaToIId_IpVer s) @ [ucast (drop_bit 4 (pkt ! 0))] \<and>
    items (ssICaToIId_DropFrag t) = items (ssICaToIId_DropFrag s) @ [ip_fragment pkt] \<and>
    items (ssICaToICc_SubSums t) = items (ssICaToICc_SubSums s) @ [v] \<and>
    lanes_inv (SubCSums.truncate v) (inet_sum (take (ica_span (ip_words pkt)) pkt)) \<and> ss_ipMatch v = (u32 pkt 16 = ownIp)"
proof -
  let ?P = "pIpChecksumAccumulator ownIp junk"
  from frame_split [OF assms(3)] obtain c0 c1 c2 c3 c4 cs' where c: "cs = c0 # c1 # c2 # c3 # c4 # cs'"
    "getLen c0 = 8" "getLen c1 = 8" "getLen c2 = 8" "getLen c3 = 8" "getLen c4 = 8"
    and l: "\<not> ax_tlast c0" "\<not> ax_tlast c1" "\<not> ax_tlast c2" "\<not> ax_tlast c3" "\<not> ax_tlast c4" "payload_ok cs'" .
  note f = frame_bytes [OF c, folded assms(5)]
  have input: "items (ssILcToICa_Data s) = c0 # c1 # c2 # c3 # c4 # (cs' @ rest)" using assms(2) by (simp add: c(1))
  have room: "ica_room s 3" using assms(4) by (simp add: ica_room_def c(1))
  have h: "unat (eth_getIp4HdrLen c1) = ip_words pkt" by (simp add: f(4))
  let ?t = "(?P ^^ 5) s"
  note t = ica_header [OF assms(1) input room l(1-5) c(3-6) h assms(6), of ownIp junk]
  have ok: "chunk_ok c2" "chunk_ok c3" "chunk_ok c4" using c(4-6) by (simp_all add: chunk_ok_def)
  note j = ica_join_bytes [OF c(3) ok(1)] ica_join_bytes [OF c(4) ok(2)] ica_join_bytes [OF c(5) ok(3)]
  have held: "length (drop 6 (chunk_bytes (ica_prevChunk ?t))) = 2" by (simp add: t(3) c(6))
  have space: "length (items (ssICaToIId_Data ?t)) + length cs' < depth (ssICaToIId_Data ?t)"
    using assms(4) by (simp add: t(4,5) ica_room_def c(1))
  from ica.shifts [OF t(1,2) l(6) held space] obtain k us where us: "ica.moves ownIp junk ?t k cs' rest us" "payload_ok us"
    "bytes_of us = drop 6 (chunk_bytes (ica_prevChunk ?t)) @ bytes_of cs'" by blast
  let ?u = "(?P ^^ k) ?t" and ?w = "[ica_join c1 c2, ica_join c2 c3, ica_join c3 c4]"
  have "fold (\<lambda>_ x. x) xs a = a" for xs and a :: "4 word stream \<times> bool stream \<times> SubSums stream" by (induction xs) simp_all
  then have u: "ica_ready ?u" "items (ssILcToICa_Data ?u) = rest" "items (ssICaToIId_Data ?u) = items (ssICaToIId_Data ?t) @ us"
    "ica_account ?u = ica_account ?t"
    using us(1) by (simp_all add: ica.moves_def Let_def ica_ready_def)
  have len: "getLen (ica_join c1 c2) = 8" "getLen (ica_join c2 c3) = 8" "getLen (ica_join c3 c4) = 8"
    using arg_cong [OF j(1), of length] arg_cong [OF j(3), of length] arg_cong [OF j(5), of length] c(3-6) by simp_all
  have pk: "payload_ok (?w @ us)"
    using us(2) payload_ok_nonempty [OF us(2)] len j(2,4,6) c(4-6) by (simp add: payload_ok_Cons)
  have "take 6 (chunk_bytes x) @ drop 6 (chunk_bytes x) @ ys = chunk_bytes x @ ys" for x ys by (metis append_assoc append_take_drop_id)
  then have bytes: "bytes_of (?w @ us) = pkt" by (simp add: f(3) us(3) t(3) j(1,3,5))
  from t(8) obtain v where v: "items (ssICaToICc_SubSums ?t) = items (ssICaToICc_SubSums s) @ [v]"
    "lanes_inv (SubCSums.truncate v) (inet_sum (take (ica_span (ip_words pkt))
       (drop 6 (chunk_bytes c1) @ chunk_bytes c2 @ chunk_bytes c3 @ chunk_bytes c4)))" "ss_ipMatch v = (ica_dst c3 c4 = ownIp)"
    by blast
  have "ica_span (ip_words pkt) \<le> 26" by (simp add: ica_span_def)
  then have span: "take (ica_span (ip_words pkt)) (drop 6 (chunk_bytes c1) @ chunk_bytes c2 @ chunk_bytes c3 @ chunk_bytes c4) =
      take (ica_span (ip_words pkt)) pkt"
    using c(3-6) by (simp add: f(3))
  have "(?P ^^ (k + 5)) s = ?u" by (simp add: funpow_add)
  then show ?thesis
    using u pk bytes v(1,2) t(5-7) v(3) f(5,6,8) span
    by (intro exI [of _ "k + 5"] exI [of _ "?w @ us"] exI [of _ v]) (simp add: Let_def ica_account_def)
qed

lemma icc_run:
  assumes "items (ssICaToICc_SubSums s) = v # vs" "lanes_inv (SubCSums.truncate v) (inet_sum bs)"
    and "\<not> sfull (ssICcToIId_CsumVal s)"
  shows "items (ssICcToIId_CsumVal (pIpChecksumChecker s)) = items (ssICcToIId_CsumVal s) @ [inet_checksum bs = 0 \<and> ss_ipMatch v] \<and>
    items (ssICaToICc_SubSums (pIpChecksumChecker s)) = vs"
proof -
  let ?x = "NOT (csum_fold (csum_fold (sum0 v + sum2 v) + csum_fold (sum1 v + sum3 v)))"
  have "(ucast ?x :: 16 word) = inet_checksum bs"
    using tca_csum_sum [OF assms(2)] by (simp add: tca_csum_def inet_checksum_def SubCSums.truncate_def SubCSums.make_def)
  moreover have "take_bit 16 w = 0 \<longleftrightarrow> (ucast w :: 16 word) = 0" for w :: "17 word"
    by (auto simp: bit_eq_iff bit_take_bit_iff bit_ucast_iff possible_bit_word)
  ultimately show ?thesis
    using assms(3) by (simp add: pIpChecksumChecker_def sread_cons [OF assms(1)] Let_def)
qed

section \<open>The dropper\<close>

interpretation iid: segment_filter pIpInvalidDropper "\<lambda>s. items (ssICaToIId_Data s)" "\<lambda>s. items (ssIIdToICl_Data s)"
    "\<lambda>s. depth (ssIIdToICl_Data s)" ax_tlast "\<lambda>s. (ssICcToIId_CsumVal s, ssICaToIId_IpVer s, ssICaToIId_DropFrag s)"
    "\<lambda>s. iid_fsmState s = IID_IDLE" "\<lambda>s. iid_fsmState s = IID_FWD" "\<lambda>s. iid_fsmState s = IID_DROP"
proof (unfold_locales, goal_cases)
  case (1 s c cs)
  then show ?case by (simp add: pIpInvalidDropper_def sread_cons [OF 1(2)] sfull_def)
next
  case (2 s c cs)
  then show ?case by (simp add: pIpInvalidDropper_def sread_cons [OF 2(2)])
qed

lemma iid_run:
  assumes "iid_fsmState s = IID_IDLE" "items (ssICaToIId_Data s) = cs @ rest" "payload_ok cs" "8 < length (bytes_of cs)"
    and "items (ssICcToIId_CsumVal s) = [v]" "items (ssICaToIId_IpVer s) = [n]" "items (ssICaToIId_DropFrag s) = [f]"
    and "length (items (ssIIdToICl_Data s)) + length cs \<le> depth (ssIIdToICl_Data s)"
  shows "let t = (pIpInvalidDropper ^^ length cs) s in iid_fsmState t = IID_IDLE \<and> items (ssICaToIId_Data t) = rest \<and>
    items (ssICcToIId_CsumVal t) = [] \<and> items (ssICaToIId_IpVer t) = [] \<and> items (ssICaToIId_DropFrag t) = [] \<and>
    items (ssIIdToICl_Data t) = items (ssIIdToICl_Data s) @ (if v \<and> n = 4 \<and> \<not> f then cs else [])"
proof -
  from payload_split [OF assms(3,4)] obtain c cs' where c: "cs = c # cs'" "payload_ok cs'" by blast
  have input: "items (ssICaToIId_Data s) = c # (cs' @ rest)" using assms(2) by (simp add: c(1))
  have seg: "is_segment ax_tlast cs'" using c(2) by (simp add: payload_ok_def)
  let ?t = "pIpInvalidDropper s"
  have t: "iid_fsmState ?t = (if v \<and> n = 4 \<and> \<not> f then IID_FWD else IID_DROP)" "items (ssICaToIId_Data ?t) = cs' @ rest"
    "items (ssICcToIId_CsumVal ?t) = []" "items (ssICaToIId_IpVer ?t) = []" "items (ssICaToIId_DropFrag ?t) = []"
    "ssIIdToICl_Data ?t = (if v \<and> n = 4 \<and> \<not> f then swrite (ssIIdToICl_Data s) c else ssIIdToICl_Data s)"
    using assms(1,8) by (simp_all add: pIpInvalidDropper_def sread_cons [OF input] sread_cons [OF assms(5)]
        sread_cons [OF assms(6)] sread_cons [OF assms(7)] sfull_def c(1) Let_def)
  have swap: "(pIpInvalidDropper ^^ length cs) s = (pIpInvalidDropper ^^ length cs') ?t" by (simp add: c(1) funpow_swap1)
  show ?thesis
  proof (cases "v \<and> n = 4 \<and> \<not> f")
    case True
    then have "iid_fsmState ?t = IID_FWD" "length (items (ssIIdToICl_Data ?t)) + length cs' \<le> depth (ssIIdToICl_Data ?t)"
      using t assms(8) by (simp_all add: c(1))
    from iid.passes_segment [OF this(1) t(2) seg this(2)] show ?thesis
      using t True unfolding swap by (simp add: Let_def c(1))
  next
    case False
    then have "iid_fsmState ?t = IID_DROP" using t by simp
    from iid.drops_segment [OF this t(2) seg] show ?thesis using t False unfolding swap by (auto simp: Let_def)
  qed
qed

section \<open>The cutter\<close>

interpretation icl: segment_filter pIpCutLength "\<lambda>s. items (ssIIdToICl_Data s)" "\<lambda>s. items (ssIClToIPr_Data s)"
    "\<lambda>s. depth (ssIClToIPr_Data s)" ax_tlast icl_chunkCount "\<lambda>s. icl_fsmState s = ICL_FWD" "\<lambda>s. False"
    "\<lambda>s. icl_fsmState s = ICL_DROP"
proof (unfold_locales, goal_cases)
  case (2 s c cs)
  then show ?case by (simp add: pIpCutLength_def sread_cons [OF 2(2)])
qed simp

lemma full_chunk_take: "getLen c = 8 \<Longrightarrow> chunk_bytes c @ take n xs = take (8 + n) (chunk_bytes c @ xs)"
  by simp

lemma icl_cut_bytes:
  assumes "8 * k < unat n" "unat n - 8 * k \<le> getLen c" "chunk_ok c"
  shows "chunk_bytes (icl_cut k n c) = take (unat n - 8 * k) (chunk_bytes c)"
    "getLen (icl_cut k n c) = unat n - 8 * k" "ax_tlast (icl_cut k n c)"
proof -
  let ?m = "unat n - 8 * k"
  have m: "1 \<le> ?m" "?m \<le> 8" using assms chunk_ok_keep [OF assms(3)] by simp_all
  have "int (unat n) - int (k * 8) = int ?m" using assms(1) by linarith
  then have "ax_tkeep (icl_cut k n c) = lenToLE_tKeep (of_int (int ?m))" by (simp only: icl_cut_def) simp
  then have keep: "ax_tkeep (icl_cut k n c) = mask ?m" by (simp only: of_int_of_nat_eq lenToLE_tKeep_mask m)
  show len: "getLen (icl_cut k n c) = ?m" by (simp only: getLen_def keep keepToLen_mask [OF m])
  show "chunk_bytes (icl_cut k n c) = take ?m (chunk_bytes c)"
    using assms(2) by (simp add: chunk_bytes_def len take_map) (simp add: icl_cut_def)
  show "ax_tlast (icl_cut k n c)" by (simp add: icl_cut_def)
qed

definition icl_done :: "'a IPRX_scheme \<Rightarrow> nat \<Rightarrow> AxisIp4 list \<Rightarrow> AxisIp4 list \<Rightarrow> bool" where
  "icl_done s j rest ws \<longleftrightarrow> (let t = (pIpCutLength ^^ j) s in icl_fsmState t = ICL_FWD \<and> icl_chunkCount t = 0 \<and>
     items (ssIIdToICl_Data t) = rest \<and> items (ssIClToIPr_Data t) = items (ssIClToIPr_Data s) @ ws)"

lemma icl_tick:
  assumes "icl_fsmState s = ICL_FWD" "items (ssIIdToICl_Data s) = c # cs" "unat (icl_chunkCount s) = k"
    and "length (items (ssIClToIPr_Data s)) < depth (ssIClToIPr_Data s)"
  defines "L \<equiv> icl_ip4TotalLength s"
  shows "pIpCutLength s = (if k \<noteq> 0 \<and> unat L \<le> (k + 1) * 8
     then s\<lparr>ssIIdToICl_Data := Stream (depth (ssIIdToICl_Data s)) cs, icl_fsmState := (if ax_tlast c then ICL_FWD else ICL_DROP),
            ssIClToIPr_Data := swrite (ssIClToIPr_Data s) (icl_cut k L c), icl_chunkCount := 0\<rparr>
     else s\<lparr>ssIIdToICl_Data := Stream (depth (ssIIdToICl_Data s)) cs, icl_ip4TotalLength := (if k = 0 then getIp4TotalLen c else L),
            ssIClToIPr_Data := swrite (ssIClToIPr_Data s) c,
            icl_chunkCount := (if ax_tlast c then 0 else icl_chunkCount s + 1)\<rparr>)"
  using assms(1,3,4)
  by (auto simp: pIpCutLength_def sread_cons [OF assms(2)] sfull_def L_def icl_cut_def Let_def)

lemma icl_forward:
  assumes "icl_fsmState s = ICL_FWD" "unat (icl_chunkCount s) = k" "1 \<le> k" "icl_ip4TotalLength s = n"
    and "items (ssIIdToICl_Data s) = cs @ rest" "payload_ok cs" "8 * k < unat n" "unat n \<le> 8 * k + length (bytes_of cs)"
    and "length (items (ssIClToIPr_Data s)) + length cs \<le> depth (ssIClToIPr_Data s)"
  shows "\<exists>j ws. icl_done s j rest ws \<and> payload_ok ws \<and> bytes_of ws = take (unat n - 8 * k) (bytes_of cs)"
  using assms
proof (induction cs arbitrary: s k)
  case Nil
  then show ?case by (simp add: payload_ok_def is_segment_def)
next
  case (Cons c cs)
  let ?t = "pIpCutLength s"
  have ok: "chunk_ok c" using Cons.prems(6) by (simp add: payload_ok_def)
  note p = payload_tl [OF Cons.prems(6)] payload_tlast [OF Cons.prems(6)]
  have input: "items (ssIIdToICl_Data s) = c # (cs @ rest)" "length (items (ssIClToIPr_Data s)) < depth (ssIClToIPr_Data s)"
    using Cons.prems(5,9) by simp_all
  note tick = icl_tick [OF Cons.prems(1) input(1) Cons.prems(2) input(2)]
  show ?case
  proof (cases "unat n \<le> (k + 1) * 8")
    case True
    have m: "unat n - 8 * k \<le> getLen c"
      using True Cons.prems(6,8) by (cases "cs = []") (simp_all add: payload_ok_Cons)
    note cut = icl_cut_bytes [OF Cons.prems(7) m ok]
    have ws: "payload_ok [icl_cut k n c]" "bytes_of [icl_cut k n c] = take (unat n - 8 * k) (bytes_of (c # cs))"
      using cut m Cons.prems(7) by (simp_all add: payload_ok_single chunk_ok_def)
    have t: "icl_fsmState ?t = (if ax_tlast c then ICL_FWD else ICL_DROP)" "icl_chunkCount ?t = 0"
      "items (ssIIdToICl_Data ?t) = cs @ rest" "items (ssIClToIPr_Data ?t) = items (ssIClToIPr_Data s) @ [icl_cut k n c]"
      using True Cons.prems(3,4) by (simp_all add: tick)
    show ?thesis
    proof (cases "cs = []")
      case True
      then have "icl_done s 1 rest [icl_cut k n c]" using t p(2) by (simp add: icl_done_def)
      with ws show ?thesis by blast
    next
      case False
      then have "icl_fsmState ?t = ICL_DROP" "is_segment ax_tlast cs" using t p by (simp_all add: payload_ok_def)
      from icl.drops_segment [OF this(1) t(3) this(2)] t
      have "icl_done s (Suc (length cs)) rest [icl_cut k n c]" by (simp add: icl_done_def funpow_swap1 Let_def)
      with ws show ?thesis by blast
    qed
  next
    case False
    have c: "getLen c = 8" "cs \<noteq> []" "payload_ok cs" "\<not> ax_tlast c"
    proof -
      show "cs \<noteq> []" using False Cons.prems(8) chunk_ok_keep [OF ok] by auto
      then show "getLen c = 8" "payload_ok cs" "\<not> ax_tlast c" using Cons.prems(6) by (simp_all add: payload_ok_Cons)
    qed
    have "unat n < 65536" using unsigned_less [of n] by simp
    then have "k + 1 < 8192" using False by simp
    then have k: "unat (icl_chunkCount s + 1) = k + 1"
      using Cons.prems(2) by (simp add: unat_word_ariths)
    have t: "icl_fsmState ?t = ICL_FWD" "unat (icl_chunkCount ?t) = k + 1" "icl_ip4TotalLength ?t = n"
      "items (ssIIdToICl_Data ?t) = cs @ rest" "ssIClToIPr_Data ?t = swrite (ssIClToIPr_Data s) c"
      using False Cons.prems(1,3,4) c(4) k by (simp_all add: tick)
    have "1 \<le> k + 1" "8 * (k + 1) < unat n" "unat n \<le> 8 * (k + 1) + length (bytes_of cs)"
      "length (items (ssIClToIPr_Data ?t)) + length cs \<le> depth (ssIClToIPr_Data ?t)"
      using False Cons.prems(8,9) c(1) t(5) by simp_all
    from Cons.IH [OF t(1,2) this(1) t(3,4) c(3) this(2-4)] obtain j ws where j: "icl_done ?t j rest ws" "payload_ok ws"
      "bytes_of ws = take (unat n - 8 * (k + 1)) (bytes_of cs)" by blast
    have "icl_done s (Suc j) rest (c # ws)" using j(1) t(5) by (simp add: icl_done_def funpow_swap1 Let_def)
    moreover have "payload_ok (c # ws)" using j(2) payload_ok_nonempty [OF j(2)] c(1,4) by (simp add: payload_ok_Cons)
    moreover have "unat n - 8 * k = 8 + (unat n - 8 * (k + 1))" using False by arith
    then have "bytes_of (c # ws) = take (unat n - 8 * k) (bytes_of (c # cs))"
      by (simp only: bytes_of_simps j(3) full_chunk_take [OF c(1)])
    ultimately show ?thesis by blast
  qed
qed

lemma icl_run:
  assumes "icl_fsmState s = ICL_FWD" "icl_chunkCount s = 0" "items (ssIIdToICl_Data s) = cs @ rest" "payload_ok cs"
    and "8 < unat (u16 (bytes_of cs) 2)" "unat (u16 (bytes_of cs) 2) \<le> length (bytes_of cs)"
    and "length (items (ssIClToIPr_Data s)) + length cs \<le> depth (ssIClToIPr_Data s)"
  shows "\<exists>j ws. icl_done s j rest ws \<and> payload_ok ws \<and> bytes_of ws = take (unat (u16 (bytes_of cs) 2)) (bytes_of cs)"
proof -
  have "8 < length (bytes_of cs)" using assms(5,6) by simp
  from payload_split [OF assms(4) this] obtain c cs' where c: "cs = c # cs'" "getLen c = 8" "\<not> ax_tlast c" "payload_ok cs'"
    "length (bytes_of cs) = 8 + length (bytes_of cs')" by blast
  let ?t = "pIpCutLength s" and ?n = "u16 (bytes_of cs) 2"
  have input: "items (ssIIdToICl_Data s) = c # (cs' @ rest)" "length (items (ssIClToIPr_Data s)) < depth (ssIClToIPr_Data s)"
    using assms(3,7) by (simp_all add: c(1))
  have n: "getIp4TotalLen c = ?n"
    using get16_u16 [of 2 c] by (simp add: c(1) full_chunk_bytes [OF c(2)] u16_def getIp4TotalLen_def numeral_2_eq_2 numeral_3_eq_3)
  have "unat (icl_chunkCount s) = 0" by (simp add: assms(2))
  from icl_tick [OF assms(1) input(1) this input(2)]
  have t: "icl_fsmState ?t = ICL_FWD" "unat (icl_chunkCount ?t) = 1" "icl_ip4TotalLength ?t = ?n"
    "items (ssIIdToICl_Data ?t) = cs' @ rest" "ssIClToIPr_Data ?t = swrite (ssIClToIPr_Data s) c"
    using assms(1,2) c(3) n by simp_all
  have "8 * 1 < unat ?n" "unat ?n \<le> 8 * 1 + length (bytes_of cs')"
    "length (items (ssIClToIPr_Data ?t)) + length cs' \<le> depth (ssIClToIPr_Data ?t)"
    using assms(5-7) c(1,5) t(5) by simp_all
  from icl_forward [OF t(1,2) _ t(3,4) c(4) this] obtain j ws where j: "icl_done ?t j rest ws" "payload_ok ws"
    "bytes_of ws = take (unat ?n - 8) (bytes_of cs')" by auto
  have "icl_done s (Suc j) rest (c # ws)" using j(1) t(5) by (simp add: icl_done_def funpow_swap1 Let_def)
  moreover have "payload_ok (c # ws)" using j(2) payload_ok_nonempty [OF j(2)] c(2,3) by (simp add: payload_ok_Cons)
  moreover have "unat ?n = 8 + (unat ?n - 8)" using assms(5) by simp
  then have "bytes_of (c # ws) = take (unat ?n) (bytes_of cs)" using j(3) c(2) by (simp add: c(1))
  ultimately show ?thesis by blast
qed

end
