(* ===== verification/Ip_Route.thy ===== *)
theory Ip_Route
  imports Ip_Deliver
begin

text \<open>
  The last stage of the receiver of Ethernet frames (\<open>Ip_Rx\<close>), the router, and the composition of its
  eight processes: what the whole receiver does with one frame.
\<close>

section \<open>The router\<close>

text \<open>The outputs are the ports of the expired packets, of ICMP, of UDP and of TCP.\<close>

definition ip_deliver :: "bool \<Rightarrow> 8 word \<Rightarrow> 'c list \<Rightarrow> 'c list \<times> 'c list \<times> 'c list \<times> 'c list \<Rightarrow> 'c list \<times> 'c list \<times> 'c list \<times> 'c list"
where
  "ip_deliver expired prot cs ports = (case ports of (derr, icmp, udp, tcp) \<Rightarrow>
     if expired then (derr @ cs, icmp, udp, tcp)
     else if prot = 0x01 then (derr, icmp @ cs, udp, tcp)
     else if prot = 0x11 then (derr, icmp, udp @ cs, tcp)
     else if prot = 0x06 then (derr, icmp, udp, tcp @ cs)
     else ports)"

definition ipr_obs :: "'a IPRX_scheme \<Rightarrow> AxisIp4 list \<times> AxisIp4 list \<times> AxisIp4 list \<times> AxisIp4 list" where
  "ipr_obs s = (items (irx_soICMP_Derr s), items (irx_soICMP_Data s), items (irx_soUOE_Data s), items (irx_soTOE_Data s))"

definition sroom :: "'c stream \<Rightarrow> nat" where
  "sroom st = depth st - length (items st)"

definition ipr_space :: "'a IPRX_scheme \<Rightarrow> nat" where
  "ipr_space s = min (min (sroom (irx_soICMP_Derr s)) (sroom (irx_soICMP_Data s)))
     (min (sroom (irx_soUOE_Data s)) (sroom (irx_soTOE_Data s)))"

lemma ip_deliver_fold: "fold (\<lambda>c. ip_deliver e p [c]) cs ports = ip_deliver e p cs ports"
  by (induction cs arbitrary: ports) (auto simp: ip_deliver_def split: prod.split)

lemma ip_deliver_append: "ip_deliver e p ys (ip_deliver e p xs ports) = ip_deliver e p (xs @ ys) ports"
  by (auto simp: ip_deliver_def split: prod.split)

lemma sroom_write: "sroom (swrite st c) = sroom st - 1"
  by (simp add: sroom_def)

lemma min_Suc:
  fixes a b :: nat
  shows "a \<le> Suc c \<Longrightarrow> b \<le> Suc d \<Longrightarrow> min a b \<le> Suc (min c d)"
  by simp

lemma ipr_put_simps:
  "ipr_obs (ipr_put c s) = ip_deliver (ipr_ttlExpired s) (ipr_ipProtocol s) [c] (ipr_obs s)"
  "ipr_space s \<le> Suc (ipr_space (ipr_put c s))"
  "ssIClToIPr_Data (ipr_put c s) = ssIClToIPr_Data s" "ipr_fsmState (ipr_put c s) = ipr_fsmState s"
  "ipr_chunkCount (ipr_put c s) = ipr_chunkCount s" "ipr_ttlExpired (ipr_put c s) = ipr_ttlExpired s"
  "ipr_ipProtocol (ipr_put c s) = ipr_ipProtocol s" "ipr_prevChunk (ipr_put c s) = ipr_prevChunk s"
proof -
  show "ipr_space s \<le> Suc (ipr_space (ipr_put c s))"
    unfolding ipr_space_def by (intro min_Suc) (auto simp: ipr_put_def sroom_write)
qed (simp_all add: ipr_put_def ipr_obs_def ip_deliver_def)

lemma ipr_updates:
  "ipr_obs (s\<lparr>ssIClToIPr_Data := b\<rparr>) = ipr_obs s" "ipr_space (s\<lparr>ssIClToIPr_Data := b\<rparr>) = ipr_space s"
  "ipr_obs (s\<lparr>ipr_prevChunk := c\<rparr>) = ipr_obs s" "ipr_space (s\<lparr>ipr_prevChunk := c\<rparr>) = ipr_space s"
  "ipr_obs (s\<lparr>ipr_chunkCount := n\<rparr>) = ipr_obs s" "ipr_space (s\<lparr>ipr_chunkCount := n\<rparr>) = ipr_space s"
  "ipr_obs (s\<lparr>ipr_leftToWrite := l\<rparr>) = ipr_obs s" "ipr_space (s\<lparr>ipr_leftToWrite := l\<rparr>) = ipr_space s"
  "ipr_obs (s\<lparr>ipr_fsmState := f\<rparr>) = ipr_obs s" "ipr_space (s\<lparr>ipr_fsmState := f\<rparr>) = ipr_space s"
  "ipr_obs (s\<lparr>ipr_ttlExpired := e\<rparr>) = ipr_obs s" "ipr_space (s\<lparr>ipr_ttlExpired := e\<rparr>) = ipr_space s"
  "ipr_obs (s\<lparr>ipr_ipProtocol := p\<rparr>) = ipr_obs s" "ipr_space (s\<lparr>ipr_ipProtocol := p\<rparr>) = ipr_space s"
  by (simp_all add: ipr_obs_def ipr_space_def)

lemmas ipr_simps = ipr_put_simps(1,3-) ipr_updates

lemma ipr_not_full: "0 < ipr_space s \<Longrightarrow> \<not> ipr_full s"
  by (auto simp: ipr_space_def sroom_def ipr_full_def sfull_def)

lemma ipr_full_updates:
  "ipr_full (s\<lparr>ssIClToIPr_Data := b\<rparr>) = ipr_full s"
  by (simp add: ipr_full_def)

interpretation ipr: delay_line pIpPacketRouter "\<lambda>s. items (ssIClToIPr_Data s)" ax_tlast ipr_obs
    "\<lambda>c. ip_deliver e p [c]" ipr_space
    "\<lambda>s. ipr_fsmState s = IPR_IDLE \<and> ipr_chunkCount s = 2 \<and> ipr_ttlExpired s = e \<and> ipr_ipProtocol s = p"
    "\<lambda>s. ipr_fsmState s = IPR_LAST \<and> ipr_chunkCount s = 0 \<and> ipr_ttlExpired s = e \<and> ipr_ipProtocol s = p"
    "\<lambda>s. ipr_fsmState s = IPR_IDLE \<and> ipr_chunkCount s = 0"
    "\<lambda>s. if ipr_fsmState s = IPR_IDLE \<and> ipr_chunkCount s = 0 then [] else [ipr_prevChunk s]" ipr_clear
proof (unfold_locales, goal_cases)
  case (1 s h hs c cs)
  show ?case
    using 1 ipr_not_full [OF 1(4)] ipr_put_simps(2) [of "s\<lparr>ssIClToIPr_Data := Stream (depth (ssIClToIPr_Data s)) cs\<rparr>"]
    by (simp add: pIpPacketRouter_def sread_cons [OF 1(3)] ipr_simps Let_def)
next
  case (2 s h hs)
  show ?case
    using 2 ipr_not_full [OF 2(3)] ipr_put_simps(2) [of "s\<lparr>ipr_prevChunk := ipr_clear (ipr_prevChunk s)\<rparr>"]
    by (simp add: pIpPacketRouter_def ipr_simps Let_def)
qed

text \<open>Clearing the unused bytes of a chunk changes none of the others.\<close>

lemma ipr_clear_keeps:
  "ax_tkeep (ipr_clear c) = ax_tkeep c" "ax_tlast (ipr_clear c) = ax_tlast c" "getLen (ipr_clear c) = getLen c"
  "chunk_ok c \<Longrightarrow> chunk_bytes (ipr_clear c) = chunk_bytes c"
proof -
  show k: "ax_tkeep (ipr_clear c) = ax_tkeep c" "ax_tlast (ipr_clear c) = ax_tlast c" "getLen (ipr_clear c) = getLen c"
    by (simp_all add: ipr_clear_def setLE_TData_def getLen_def)
  assume "chunk_ok c"
  then have len: "getLen c \<le> 8" using chunk_ok_keep by blast
  have "byte_of (ipr_clear c) i = byte_of c i" if "i < getLen c" for i
    by (rule bit_word_eqI)
      (use that len in \<open>auto simp: ipr_clear_def setLE_TData_def byte_of_def bit_nth_byte bit_set_range\<close>)
  then show "chunk_bytes (ipr_clear c) = chunk_bytes c" by (simp add: chunk_bytes_def k(3) byte_of_def)
qed

lemma payload_clear:
  assumes "payload_ok cs"
  shows "payload_ok (take n cs @ map ipr_clear (drop n cs))" "bytes_of (take n cs @ map ipr_clear (drop n cs)) = bytes_of cs"
proof -
  have "payload_ok (take n cs @ map ipr_clear (drop n cs)) \<and> bytes_of (take n cs @ map ipr_clear (drop n cs)) = bytes_of cs"
    using assms
  proof (induction cs arbitrary: n)
    case (Cons c cs)
    have ok: "chunk_ok c" using Cons.prems by (simp add: payload_ok_def)
    show ?case
    proof (cases "cs = []")
      case True
      then show ?thesis
        using Cons.prems ok by (cases n) (simp_all add: payload_ok_single ipr_clear_keeps chunk_ok_def)
    next
      case False
      then have c: "payload_ok cs" "getLen c = 8" "\<not> ax_tlast c" using Cons.prems by (simp_all add: payload_ok_Cons)
      show ?thesis
      proof (cases n)
        case 0
        then show ?thesis using Cons.IH [OF c(1), of 0] False c ok by (simp add: payload_ok_Cons ipr_clear_keeps)
      next
        case (Suc m)
        then show ?thesis
          using Cons.IH [OF c(1), of m] False c by (cases m) (simp_all add: payload_ok_Cons)
      qed
    qed
  qed simp
  then show "payload_ok (take n cs @ map ipr_clear (drop n cs))"
    "bytes_of (take n cs @ map ipr_clear (drop n cs)) = bytes_of cs" by simp_all
qed

lemma ipr_run:
  assumes "ipr_fsmState s = IPR_IDLE" "ipr_chunkCount s = 0" "items (ssIClToIPr_Data s) = cs @ rest" "payload_ok cs"
    and "16 < length (bytes_of cs)" "length cs \<le> ipr_space s"
  shows "\<exists>j ws. let t = (pIpPacketRouter ^^ j) s in
    ipr_fsmState t = IPR_IDLE \<and> ipr_chunkCount t = 0 \<and> items (ssIClToIPr_Data t) = rest \<and>
    payload_ok ws \<and> bytes_of ws = bytes_of cs \<and>
    ipr_obs t = ip_deliver (bytes_of cs ! 8 = 1) (bytes_of cs ! 9) ws (ipr_obs s)"
proof -
  let ?P = pIpPacketRouter and ?e = "bytes_of cs ! 8 = 1" and ?p = "bytes_of cs ! 9"
  have "8 < length (bytes_of cs)" using assms(5) by simp
  from payload_split [OF assms(4) this] obtain c0 cs0 where c0: "cs = c0 # cs0" "getLen c0 = 8" "\<not> ax_tlast c0"
    "chunk_ok c0" "payload_ok cs0" "length (bytes_of cs) = 8 + length (bytes_of cs0)" .
  have "8 < length (bytes_of cs0)" using assms(5) c0(6) by simp
  from payload_split [OF c0(5) this] obtain c1 cs1 where c1: "cs0 = c1 # cs1" "getLen c1 = 8" "\<not> ax_tlast c1"
    "chunk_ok c1" "payload_ok cs1" .
  have field: "getIp4TtL c1 = bytes_of cs ! 8" "getIp4Prot c1 = bytes_of cs ! 9"
  proof -
    have "getIp4TtL c1 = byte_of c1 0" "getIp4Prot c1 = byte_of c1 1"
      by (rule bit_word_eqI; auto simp: getIp4TtL_def getIp4Prot_def byte_of_def bit_nth_byte bit_get_range bit_ucast_iff)+
    then show "getIp4TtL c1 = bytes_of cs ! 8" "getIp4Prot c1 = bytes_of cs ! 9"
      by (simp_all add: c0(1) c1(1) full_chunk_bytes [OF c0(2)] full_chunk_bytes [OF c1(2)])
  qed
  have sp: "0 < ipr_space s" using assms(6) by (simp add: c0(1))
  have in0: "items (ssIClToIPr_Data s) = c0 # (c1 # cs1 @ rest)" using assms(3) by (simp add: c0(1) c1(1))
  let ?t1 = "?P s"
  have t1: "ipr_fsmState ?t1 = IPR_IDLE" "ipr_chunkCount ?t1 = 1" "items (ssIClToIPr_Data ?t1) = c1 # (cs1 @ rest)"
    "ipr_prevChunk ?t1 = c0" "ipr_obs ?t1 = ipr_obs s" "ipr_space ?t1 = ipr_space s"
    using assms(1,2) c0(3) ipr_not_full [OF sp]
    by (simp_all add: pIpPacketRouter_def sread_cons [OF in0] ipr_simps Let_def)
  have sp1: "0 < ipr_space ?t1" using sp t1(6) by simp
  let ?t2 = "?P ?t1"
  let ?u = "?t1\<lparr>ssIClToIPr_Data := Stream (depth (ssIClToIPr_Data ?t1)) (cs1 @ rest), ipr_ttlExpired := ?e,
     ipr_ipProtocol := ?p, ipr_chunkCount := 2\<rparr>"
  have "?t2 = (ipr_put c0 ?u)\<lparr>ipr_prevChunk := c1\<rparr>"
    using t1(1,2,4) c1(3) ipr_not_full [OF sp1]
    by (simp add: pIpPacketRouter_def [of ?t1] sread_cons [OF t1(3)] field Let_def)
  then have t2: "ipr_fsmState ?t2 = IPR_IDLE \<and> ipr_chunkCount ?t2 = 2 \<and> ipr_ttlExpired ?t2 = ?e \<and> ipr_ipProtocol ?t2 = ?p"
    "items (ssIClToIPr_Data ?t2) = cs1 @ rest" "ipr_prevChunk ?t2 = c1" "ipr_obs ?t2 = ip_deliver ?e ?p [c0] (ipr_obs s)"
    "ipr_space s \<le> Suc (ipr_space ?t2)"
    using t1(1,5,6) ipr_put_simps(2) [of ?u c0] by (simp_all add: ipr_simps)
  have seg: "is_segment ax_tlast cs1" using c1(5) by (simp add: payload_ok_def)
  have "1 + length cs1 \<le> ipr_space ?t2" using t2(5) assms(6) by (simp add: c0(1) c1(1))
  with ipr.delays [OF t2(1) _ t2(2) seg] t2(1,3) have
    "let t = (?P ^^ (1 + length cs1)) ?t2 in ipr_fsmState t = IPR_IDLE \<and> ipr_chunkCount t = 0 \<and>
       items (ssIClToIPr_Data t) = rest \<and>
       ipr_obs t = ip_deliver ?e ?p (take (length cs1) (c1 # cs1) @ map ipr_clear (drop (length cs1) (c1 # cs1))) (ipr_obs ?t2)"
    by (simp add: ip_deliver_fold ip_deliver_append Let_def del: funpow.simps)
  moreover have "(?P ^^ (1 + length cs1)) ?t2 = (?P ^^ (length cs1 + 3)) s"
    by (simp add: numeral_3_eq_3 funpow_swap1)
  ultimately have run: "let t = (?P ^^ (length cs1 + 3)) s in ipr_fsmState t = IPR_IDLE \<and> ipr_chunkCount t = 0 \<and>
       items (ssIClToIPr_Data t) = rest \<and>
       ipr_obs t = ip_deliver ?e ?p (take (Suc (length cs1)) cs @ map ipr_clear (drop (Suc (length cs1)) cs)) (ipr_obs s)"
    unfolding t2(4) by (simp add: c0(1) c1(1) ip_deliver_append Let_def)
  then show ?thesis
    using payload_clear [OF assms(4), of "Suc (length cs1)"]
    by (intro exI [of _ "length cs1 + 3"] exI [of _ "take (Suc (length cs1)) cs @ map ipr_clear (drop (Suc (length cs1)) cs)"])
      (simp add: Let_def)
qed

end
