(* ===== verification/Ip_Receive.thy ===== *)
theory Ip_Receive
  imports Ip_Route
begin

text \<open>
  The composition of the processes of the receiver of Ethernet frames (\<open>Ip_Rx\<close>): what the whole receiver
  does with one frame, from its idle state back to it.
\<close>

section \<open>The processes side by side\<close>

text \<open>Each process of the receiver may be activated next, with the parameters of the pass.\<close>

inductive iprx_step :: "EthAddr \<Rightarrow> Ip4Addr \<Rightarrow> bool \<Rightarrow> 'a IPRX_scheme \<Rightarrow> 'a IPRX_scheme \<Rightarrow> bool"
  for mac :: EthAddr and ownIp :: Ip4Addr and junk :: bool where
  ibuf: "iprx_step mac ownIp junk s (pInputBuffer s)"
| mpd: "iprx_step mac ownIp junk s (pMacProtocolDetector mac s)"
| ilc: "iprx_step mac ownIp junk s (pIpLengthChecker s)"
| ica: "iprx_step mac ownIp junk s (pIpChecksumAccumulator ownIp junk s)"
| icc: "iprx_step mac ownIp junk s (pIpChecksumChecker s)"
| iid: "iprx_step mac ownIp junk s (pIpInvalidDropper s)"
| icl: "iprx_step mac ownIp junk s (pIpCutLength s)"
| ipr: "iprx_step mac ownIp junk s (pIpPacketRouter s)"

abbreviation iprx_runs :: "EthAddr \<Rightarrow> Ip4Addr \<Rightarrow> bool \<Rightarrow> 'a IPRX_scheme \<Rightarrow> 'a IPRX_scheme \<Rightarrow> bool" where
  "iprx_runs mac ownIp junk \<equiv> (iprx_step mac ownIp junk)\<^sup>*\<^sup>*"

lemma funpow_runs: "(\<And>t. R t (f t)) \<Longrightarrow> R\<^sup>*\<^sup>* s ((f ^^ n) s)"
  by (induction n) (auto intro: rtranclp.rtrancl_into_rtrancl)

lemma iprx_runs_funpow:
  "iprx_runs mac ownIp junk s ((pInputBuffer ^^ n) s)" "iprx_runs mac ownIp junk s ((pMacProtocolDetector mac ^^ n) s)"
  "iprx_runs mac ownIp junk s ((pIpLengthChecker ^^ n) s)"
  "iprx_runs mac ownIp junk s ((pIpChecksumAccumulator ownIp junk ^^ n) s)"
  "iprx_runs mac ownIp junk s (pIpChecksumChecker s)" "iprx_runs mac ownIp junk s ((pIpInvalidDropper ^^ n) s)"
  "iprx_runs mac ownIp junk s ((pIpCutLength ^^ n) s)" "iprx_runs mac ownIp junk s ((pIpPacketRouter ^^ n) s)"
  by (rule funpow_runs r_into_rtranclp, rule iprx_step.intros)+

lemma iprx_runs_into:
  "iprx_runs mac ownIp junk s t \<Longrightarrow> iprx_step mac ownIp junk t u \<Longrightarrow> iprx_runs mac ownIp junk s u"
  by (rule rtranclp.rtrancl_into_rtrancl)

text \<open>One pass of the synthesised receiver activates each of them.\<close>

lemma iprx_pass: "iprx_runs mac ownIp junk s (iprx mac ownIp junk s)"
  unfolding iprx_def
  by (rule iprx_runs_into [OF _ iprx_step.ipr], rule iprx_runs_into [OF _ iprx_step.icl],
      rule iprx_runs_into [OF _ iprx_step.iid], rule iprx_runs_into [OF _ iprx_step.icc],
      rule iprx_runs_into [OF _ iprx_step.ica], rule iprx_runs_into [OF _ iprx_step.ilc],
      rule iprx_runs_into [OF _ iprx_step.mpd], rule r_into_rtranclp, rule iprx_step.ibuf)

text \<open>The parts of the state that the processes work on.\<close>

definition irx_mpd :: "'a IPRX_scheme \<Rightarrow> _" where
  "irx_mpd s = (mpd_fsmState s, mpd_chunkCount s, irx_soARP_Data s)"

definition irx_ilc :: "'a IPRX_scheme \<Rightarrow> _" where
  "irx_ilc s = (ilc_leftToWrite s, ilc_fsmState s, ilc_chunkCount s)"

definition irx_ica :: "'a IPRX_scheme \<Rightarrow> _" where
  "irx_ica s = (ica_chunkCount s, ica_wasLastChunk s)"

definition irx_front :: "'a IPRX_scheme \<Rightarrow> _" where
  "irx_front s = (irx_siETH_Data s, ssIBufToMPd_Data s, irx_mpd s, ssMPdToILc_Data s, irx_ilc s)"

definition irx_id :: "'a IPRX_scheme \<Rightarrow> _" where
  "irx_id s = (ssICaToIId_Data s, ssICaToIId_IpVer s, ssICaToIId_DropFrag s)"

definition irx_icl :: "'a IPRX_scheme \<Rightarrow> _" where
  "irx_icl s = (icl_fsmState s, icl_chunkCount s)"

definition irx_ipr :: "'a IPRX_scheme \<Rightarrow> _" where
  "irx_ipr s = (ipr_fsmState s, ipr_chunkCount s, irx_soICMP_Derr s, irx_soICMP_Data s, irx_soUOE_Data s, irx_soTOE_Data s)"

definition irx_back :: "'a IPRX_scheme \<Rightarrow> _" where
  "irx_back s = (iid_fsmState s, ssIIdToICl_Data s, irx_icl s, ssIClToIPr_Data s, irx_ipr s)"

lemmas irx_parts = irx_mpd_def irx_ilc_def irx_ica_def irx_front_def irx_id_def irx_icl_def irx_ipr_def irx_back_def

lemma ibuf_keeps: "(irx_mpd (pInputBuffer s), ssMPdToILc_Data (pInputBuffer s), irx_ilc (pInputBuffer s),
    ssILcToICa_Data (pInputBuffer s), irx_ica (pInputBuffer s), irx_id (pInputBuffer s), ssICaToICc_SubSums (pInputBuffer s),
    ssICcToIId_CsumVal (pInputBuffer s), irx_back (pInputBuffer s)) =
  (irx_mpd s, ssMPdToILc_Data s, irx_ilc s, ssILcToICa_Data s, irx_ica s, irx_id s, ssICaToICc_SubSums s,
    ssICcToIId_CsumVal s, irx_back s)"
  by (auto simp: pInputBuffer_def irx_parts split: option.splits)

lemma mpd_keeps:
  fixes mac and s :: "'a IPRX_scheme"
  defines "t \<equiv> pMacProtocolDetector mac s"
  shows "(irx_siETH_Data t, irx_ilc t, ssILcToICa_Data t, irx_ica t, irx_id t, ssICaToICc_SubSums t, ssICcToIId_CsumVal t,
      irx_back t) =
    (irx_siETH_Data s, irx_ilc s, ssILcToICa_Data s, irx_ica s, irx_id s, ssICaToICc_SubSums s, ssICcToIId_CsumVal s, irx_back s)"
  by (auto simp: t_def pMacProtocolDetector_def mpd_put_def irx_parts Let_def split: option.splits MpdState.splits)

lemma ilc_keeps:
  fixes s :: "'a IPRX_scheme"
  defines "t \<equiv> pIpLengthChecker s"
  shows "(irx_siETH_Data t, ssIBufToMPd_Data t, irx_mpd t, irx_ica t, irx_id t, ssICaToICc_SubSums t, ssICcToIId_CsumVal t,
      irx_back t) =
    (irx_siETH_Data s, ssIBufToMPd_Data s, irx_mpd s, irx_ica s, irx_id s, ssICaToICc_SubSums s, ssICcToIId_CsumVal s, irx_back s)"
  by (auto simp: t_def pIpLengthChecker_def ilc_chunk_def ilc_put_def ilc_shift_def irx_parts Let_def
      split: option.splits IlcState.splits)

lemma ica_keeps:
  fixes ownIp junk and s :: "'a IPRX_scheme"
  defines "t \<equiv> pIpChecksumAccumulator ownIp junk s"
  shows "(irx_front t, ssICcToIId_CsumVal t, irx_back t) = (irx_front s, ssICcToIId_CsumVal s, irx_back s)"
proof -
  have "(irx_front (ica_chunk ownIp c u), ssICcToIId_CsumVal (ica_chunk ownIp c u), irx_back (ica_chunk ownIp c u)) =
      (irx_front u, ssICcToIId_CsumVal u, irx_back u)" for c and u :: "'a IPRX_scheme"
    by (auto simp: ica_chunk_def ica_rest_def ica_report_def irx_parts Let_def)
  then show ?thesis
    by (auto simp: t_def pIpChecksumAccumulator_def irx_parts Let_def split: option.splits)
qed

lemma icc_keeps:
  fixes s :: "'a IPRX_scheme"
  defines "t \<equiv> pIpChecksumChecker s"
  shows "(irx_front t, ssILcToICa_Data t, irx_ica t, irx_id t, irx_back t) =
    (irx_front s, ssILcToICa_Data s, irx_ica s, irx_id s, irx_back s)"
  by (auto simp: t_def pIpChecksumChecker_def irx_parts Let_def split: option.splits)

lemma iid_keeps:
  fixes s :: "'a IPRX_scheme"
  defines "t \<equiv> pIpInvalidDropper s"
  shows "(irx_front t, ssILcToICa_Data t, irx_ica t, ssICaToICc_SubSums t, irx_icl t, ssIClToIPr_Data t, irx_ipr t) =
    (irx_front s, ssILcToICa_Data s, irx_ica s, ssICaToICc_SubSums s, irx_icl s, ssIClToIPr_Data s, irx_ipr s)"
  by (auto simp: t_def pIpInvalidDropper_def irx_parts Let_def split: option.splits IidState.splits)

lemma icl_keeps:
  fixes s :: "'a IPRX_scheme"
  defines "t \<equiv> pIpCutLength s"
  shows "(irx_front t, ssILcToICa_Data t, irx_ica t, irx_id t, ssICaToICc_SubSums t, ssICcToIId_CsumVal t, iid_fsmState t, irx_ipr t) =
    (irx_front s, ssILcToICa_Data s, irx_ica s, irx_id s, ssICaToICc_SubSums s, ssICcToIId_CsumVal s, iid_fsmState s, irx_ipr s)"
  by (auto simp: t_def pIpCutLength_def irx_parts Let_def split: option.splits IclState.splits)

lemma ipr_keeps:
  fixes s :: "'a IPRX_scheme"
  defines "t \<equiv> pIpPacketRouter s"
  shows "(irx_front t, ssILcToICa_Data t, irx_ica t, irx_id t, ssICaToICc_SubSums t, ssICcToIId_CsumVal t, iid_fsmState t,
      ssIIdToICl_Data t, irx_icl t) =
    (irx_front s, ssILcToICa_Data s, irx_ica s, irx_id s, ssICaToICc_SubSums s, ssICcToIId_CsumVal s, iid_fsmState s,
      ssIIdToICl_Data s, irx_icl s)"
  by (auto simp: t_def pIpPacketRouter_def ipr_put_def irx_parts Let_def split: option.splits IprState.splits)

section \<open>From the line to the length checker\<close>

definition iprx_ready :: "'a IPRX_scheme \<Rightarrow> bool" where
  "iprx_ready s \<longleftrightarrow> mpd_fsmState s = MPD_S0 \<and> mpd_chunkCount s = 0 \<and> items (ssIBufToMPd_Data s) = [] \<and>
     items (ssMPdToILc_Data s) = [] \<and> ilc_leftToWrite s = 0 \<and> ilc_fsmState s = ILC_IDLE \<and> ilc_chunkCount s = 0 \<and>
     items (ssILcToICa_Data s) = [] \<and> ica_ready s \<and> items (ssICaToIId_Data s) = [] \<and> items (ssICaToIId_IpVer s) = [] \<and>
     items (ssICaToIId_DropFrag s) = [] \<and> items (ssICaToICc_SubSums s) = [] \<and> items (ssICcToIId_CsumVal s) = [] \<and>
     iid_fsmState s = IID_IDLE \<and> items (ssIIdToICl_Data s) = [] \<and> icl_fsmState s = ICL_FWD \<and> icl_chunkCount s = 0 \<and>
     items (ssIClToIPr_Data s) = [] \<and> ipr_fsmState s = IPR_IDLE \<and> ipr_chunkCount s = 0"

text \<open>The streams can hold a frame of \<open>n\<close> chunks.\<close>

definition iprx_room :: "'a IPRX_scheme \<Rightarrow> nat \<Rightarrow> bool" where
  "iprx_room s n \<longleftrightarrow> n \<le> depth (ssIBufToMPd_Data s) \<and> n \<le> sroom (irx_soARP_Data s) \<and> n \<le> depth (ssMPdToILc_Data s) \<and>
     n \<le> depth (ssILcToICa_Data s) \<and> n < depth (ssICaToIId_Data s) \<and> 1 < depth (ssICaToIId_IpVer s) \<and>
     1 < depth (ssICaToIId_DropFrag s) \<and> 1 < depth (ssICaToICc_SubSums s) \<and> 0 < depth (ssICcToIId_CsumVal s) \<and>
     n \<le> depth (ssIIdToICl_Data s) \<and> n \<le> depth (ssIClToIPr_Data s) \<and> n \<le> ipr_space s"

text \<open>The frame is accepted for the station, and what type it has.\<close>

definition frame_kind :: "EthAddr \<Rightarrow> 8 word list \<Rightarrow> 16 word" where
  "frame_kind mac fb = (if frame_for mac fb then u16 fb 12 else 1)"

lemma iprx_mpd_run:
  fixes s :: "'a IPRX_scheme"
  assumes "iprx_ready s" "items (irx_siETH_Data s) = cs @ rest" "frame_ok cs" "iprx_room s (length cs)"
  shows "\<exists>t. iprx_runs mac ownIp junk s t \<and> items (irx_siETH_Data t) = rest \<and> items (ssIBufToMPd_Data t) = [] \<and>
    mpd_fsmState t = MPD_S0 \<and> mpd_chunkCount t = 0 \<and>
    items (irx_soARP_Data t) = items (irx_soARP_Data s) @ (if frame_kind mac (bytes_of cs) = 0x0806 then cs else []) \<and>
    items (ssMPdToILc_Data t) = (if frame_kind mac (bytes_of cs) = 0x0800 then cs else []) \<and>
    (irx_ilc t, ssILcToICa_Data t, irx_ica t, irx_id t, ssICaToICc_SubSums t, ssICcToIId_CsumVal t, irx_back t) =
      (irx_ilc s, ssILcToICa_Data s, irx_ica s, irx_id s, ssICaToICc_SubSums s, ssICcToIId_CsumVal s, irx_back s)"
proof -
  let ?t = "(pInputBuffer ^^ length cs) s"
  obtain c0 c1 cs' where c: "cs = c0 # c1 # cs'" and l: "\<not> ax_tlast c0" "\<not> ax_tlast c1" "is_segment ax_tlast cs'"
  proof -
    from frame_split [OF assms(3)] obtain c0 c1 c2 c3 c4 cs' where c: "cs = c0 # c1 # c2 # c3 # c4 # cs'"
      and l: "\<not> ax_tlast c0" "\<not> ax_tlast c1" "\<not> ax_tlast c2" "\<not> ax_tlast c3" "\<not> ax_tlast c4" "payload_ok cs'" by metis
    have "is_segment ax_tlast (c2 # c3 # c4 # cs')" using l by (simp add: payload_ok_def is_segment_def)
    with l(1,2) c show ?thesis by (intro that [of c0 c1 "c2 # c3 # c4 # cs'"])
  qed
  have valid: "\<forall>c \<in> set cs. isValid c" by (intro payload_valid) (use assms(3) in \<open>simp add: frame_ok_def\<close>)
  have room: "length (items (ssIBufToMPd_Data s)) + length cs \<le> depth (ssIBufToMPd_Data s)"
    using assms(1,4) by (simp add: iprx_ready_def iprx_room_def)
  note t = ibuf_run [OF assms(2) valid room]
  have k: "(irx_mpd ?t, ssMPdToILc_Data ?t, irx_ilc ?t, ssILcToICa_Data ?t, irx_ica ?t, irx_id ?t, ssICaToICc_SubSums ?t,
      ssICcToIId_CsumVal ?t, irx_back ?t) = (irx_mpd s, ssMPdToILc_Data s, irx_ilc s, ssILcToICa_Data s, irx_ica s, irx_id s,
      ssICaToICc_SubSums s, ssICcToIId_CsumVal s, irx_back s)"
    by (rule funpow_keeps [where g = "\<lambda>t. (irx_mpd t, ssMPdToILc_Data t, irx_ilc t, ssILcToICa_Data t, irx_ica t, irx_id t,
      ssICaToICc_SubSums t, ssICcToIId_CsumVal t, irx_back t)"], rule ibuf_keeps)
  let ?P = "pMacProtocolDetector mac"
  have mpd: "mpd_fsmState ?t = MPD_S0" "mpd_chunkCount ?t = 0" "items (ssIBufToMPd_Data ?t) = c0 # c1 # cs' @ []"
    "2 + length cs' \<le> mpd_space ?t"
    using assms(1,4) k t by (simp_all add: iprx_ready_def irx_parts mpd_space_def iprx_room_def sroom_def c)
  have kind: "frame_type mac cs = frame_kind mac (bytes_of cs)"
    using frame_type_bytes [OF assms(3)] by (simp add: frame_kind_def)
  let ?u = "(?P ^^ (length cs' + 3)) ?t" and ?ty = "frame_kind mac (bytes_of cs)"
  have u: "mpd_fsmState ?u = MPD_S0" "mpd_chunkCount ?u = 0" "items (ssIBufToMPd_Data ?u) = []"
    "mpd_obs ?u = fold (mpd_emit ?ty) cs (mpd_obs ?t)"
    using mpd_run [OF mpd(1-3) l mpd(4)] by (simp_all only: kind Let_def c [symmetric] simp_thms)
  have "mpd_obs ?t = (items (irx_soARP_Data s), [])"
    using assms(1) k by (simp add: mpd_obs_def irx_mpd_def iprx_ready_def)
  then have obs: "items (irx_soARP_Data ?u) = items (irx_soARP_Data s) @ (if ?ty = 0x0806 then cs else [])"
    "items (ssMPdToILc_Data ?u) = (if ?ty = 0x0800 then cs else [])"
    using u(4) by (cases "?ty = 0x0800"; cases "?ty = 0x0806"; simp add: mpd_emit_fold mpd_obs_def)+
  have k2: "(irx_siETH_Data ?u, irx_ilc ?u, ssILcToICa_Data ?u, irx_ica ?u, irx_id ?u, ssICaToICc_SubSums ?u,
      ssICcToIId_CsumVal ?u, irx_back ?u) = (irx_siETH_Data ?t, irx_ilc ?t, ssILcToICa_Data ?t, irx_ica ?t, irx_id ?t,
      ssICaToICc_SubSums ?t, ssICcToIId_CsumVal ?t, irx_back ?t)"
    by (rule funpow_keeps [where g = "\<lambda>t. (irx_siETH_Data t, irx_ilc t, ssILcToICa_Data t, irx_ica t, irx_id t,
      ssICaToICc_SubSums t, ssICcToIId_CsumVal t, irx_back t)"], rule mpd_keeps)
  have "iprx_runs mac ownIp junk s ?u" by (rule rtranclp_trans; rule iprx_runs_funpow)
  then show ?thesis using u(1-3) obs k k2 t by (intro exI [of _ ?u]) simp
qed

section \<open>From the length checker to the dropper\<close>

lemma iprx_ilc_run:
  fixes s :: "'a IPRX_scheme"
  assumes "irx_ilc s = (0, ILC_IDLE, 0)" "items (ssMPdToILc_Data s) = cs" "frame_ok cs" "items (ssILcToICa_Data s) = []"
    and "length cs \<le> depth (ssILcToICa_Data s)"
  shows "\<exists>t. iprx_runs mac ownIp junk s t \<and> irx_ilc t = (0, ILC_IDLE, 0) \<and> items (ssMPdToILc_Data t) = [] \<and>
    items (ssILcToICa_Data t) = (if 32768 < u16 (drop 14 (bytes_of cs)) 2 then [] else cs) \<and>
    (irx_siETH_Data t, ssIBufToMPd_Data t, irx_mpd t, irx_ica t, irx_id t, ssICaToICc_SubSums t, ssICcToIId_CsumVal t,
      irx_back t) =
    (irx_siETH_Data s, ssIBufToMPd_Data s, irx_mpd s, irx_ica s, irx_id s, ssICaToICc_SubSums s, ssICcToIId_CsumVal s, irx_back s)"
proof -
  obtain c0 c1 c2 cs' where c: "cs = c0 # c1 # c2 # cs'"
    and l: "\<not> ax_tlast c0" "\<not> ax_tlast c1" "\<not> ax_tlast c2" "is_segment ax_tlast cs'"
    and len: "u16 (drop 14 (bytes_of cs)) 2 = eth_getIp4TotalLen c2"
  proof -
    from frame_split [OF assms(3)] obtain c0 c1 c2 c3 c4 cs' where c: "cs = c0 # c1 # c2 # c3 # c4 # cs'"
      "getLen c0 = 8" "getLen c1 = 8" "getLen c2 = 8" "getLen c3 = 8" "getLen c4 = 8"
      and l: "\<not> ax_tlast c0" "\<not> ax_tlast c1" "\<not> ax_tlast c2" "\<not> ax_tlast c3" "\<not> ax_tlast c4" "payload_ok cs'" .
    have "is_segment ax_tlast (c3 # c4 # cs')" using l by (simp add: payload_ok_def is_segment_def)
    with l(1-3) c(1) frame_bytes(7) [OF c] show ?thesis by (intro that [of c0 c1 c2 "c3 # c4 # cs'"])
  qed
  have ilc: "ilc_leftToWrite s = 0" "ilc_fsmState s = ILC_IDLE" "ilc_chunkCount s = 0"
    "items (ssMPdToILc_Data s) = c0 # c1 # c2 # cs' @ []" "3 + length cs' \<le> ilc_space s"
    using assms(1,2,4,5) by (simp_all add: irx_ilc_def ilc_space_def c)
  let ?u = "(pIpLengthChecker ^^ (length cs' + 5)) s"
  have u: "ilc_leftToWrite ?u = 0" "ilc_fsmState ?u = ILC_IDLE" "ilc_chunkCount ?u = 0" "items (ssMPdToILc_Data ?u) = []"
    "items (ssILcToICa_Data ?u) = fold (ilc_emit (32768 < eth_getIp4TotalLen c2)) cs (items (ssILcToICa_Data s))"
    using ilc_run [OF ilc(1-4) l ilc(5)] by (simp_all only: Let_def c [symmetric] simp_thms)
  have k: "(irx_siETH_Data ?u, ssIBufToMPd_Data ?u, irx_mpd ?u, irx_ica ?u, irx_id ?u, ssICaToICc_SubSums ?u,
      ssICcToIId_CsumVal ?u, irx_back ?u) = (irx_siETH_Data s, ssIBufToMPd_Data s, irx_mpd s, irx_ica s, irx_id s,
      ssICaToICc_SubSums s, ssICcToIId_CsumVal s, irx_back s)"
    by (rule funpow_keeps [where g = "\<lambda>t. (irx_siETH_Data t, ssIBufToMPd_Data t, irx_mpd t, irx_ica t, irx_id t,
      ssICaToICc_SubSums t, ssICcToIId_CsumVal t, irx_back t)"], rule ilc_keeps)
  show ?thesis
    using u k iprx_runs_funpow(3) assms(4) by (intro exI [of _ ?u]) (simp add: irx_ilc_def ilc_emit_fold len)
qed

text \<open>A packet passes the dropper if its header, as the code sums it, is zero, it is for this node, it has version 4, and it
  is not a fragment.\<close>

definition ip_accepted :: "Ip4Addr \<Rightarrow> 8 word list \<Rightarrow> bool" where
  "ip_accepted ownIp pkt \<longleftrightarrow> ip_valid ownIp pkt \<and> drop_bit 4 (pkt ! 0) = 4 \<and> \<not> ip_fragment pkt"

lemma version_nibble: "(ucast (drop_bit 4 b) :: 4 word) = 4 \<longleftrightarrow> drop_bit 4 (b :: 8 word) = 4"
proof -
  have "drop_bit 4 b = (ucast (ucast (drop_bit 4 b) :: 4 word) :: 8 word)"
    by (rule bit_word_eqI) (auto simp: bit_drop_bit_eq bit_ucast_iff dest: bit_imp_le_length)
  then have "drop_bit 4 b = 4" if "(ucast (drop_bit 4 b) :: 4 word) = 4" using that by simp
  then show ?thesis by auto
qed

lemma payload_chunks:
  "payload_ok cs \<Longrightarrow> 8 * length cs < length (bytes_of cs) + 8 \<and> length (bytes_of cs) \<le> 8 * length cs"
proof (induction cs)
  case (Cons c cs)
  have ok: "1 \<le> getLen c" "getLen c \<le> 8" using Cons.prems chunk_ok_keep [of c] by (simp_all add: payload_ok_def)
  show ?case
  proof (cases "cs = []")
    case False
    then have "payload_ok cs" "getLen c = 8" using Cons.prems by (simp_all add: payload_ok_Cons)
    then show ?thesis using Cons.IH by simp
  qed (use ok in simp)
qed (simp add: payload_ok_def is_segment_def)

lemma iprx_check_run:
  fixes s :: "'a IPRX_scheme"
  assumes "ica_ready s" "items (ssILcToICa_Data s) = cs" "frame_ok cs" "ica_room s (length cs)"
    and "pkt = drop 14 (bytes_of cs)" "ip_words pkt = 5 \<or> ip_words pkt = 6"
    and "items (ssICaToIId_Data s) = []" "items (ssICaToIId_IpVer s) = []" "items (ssICaToIId_DropFrag s) = []"
    and "items (ssICaToICc_SubSums s) = []" "items (ssICcToIId_CsumVal s) = []" "0 < depth (ssICcToIId_CsumVal s)"
    and "iid_fsmState s = IID_IDLE" "items (ssIIdToICl_Data s) = []" "length cs \<le> depth (ssIIdToICl_Data s)"
  shows "\<exists>t ws. iprx_runs mac ownIp junk s t \<and> ica_ready t \<and> items (ssILcToICa_Data t) = [] \<and> items (ssICaToIId_Data t) = [] \<and>
    items (ssICaToIId_IpVer t) = [] \<and> items (ssICaToIId_DropFrag t) = [] \<and> items (ssICaToICc_SubSums t) = [] \<and>
    items (ssICcToIId_CsumVal t) = [] \<and> iid_fsmState t = IID_IDLE \<and>
    items (ssIIdToICl_Data t) = (if ip_accepted ownIp pkt then ws else []) \<and> payload_ok ws \<and> bytes_of ws = pkt \<and>
    length ws \<le> length cs \<and>
    (irx_front t, irx_icl t, ssIClToIPr_Data t, irx_ipr t) = (irx_front s, irx_icl s, ssIClToIPr_Data s, irx_ipr s)"
proof -
  let ?A = "pIpChecksumAccumulator ownIp junk"
  have input: "items (ssILcToICa_Data s) = cs @ []" using assms(2) by simp
  from ica_run [OF assms(1) input assms(3-6), of ownIp junk] obtain j ws v where
    t: "ica_ready ((?A ^^ j) s)" "items (ssILcToICa_Data ((?A ^^ j) s)) = []" "items (ssICaToIId_Data ((?A ^^ j) s)) = ws"
    "payload_ok ws" "bytes_of ws = pkt" "items (ssICaToIId_IpVer ((?A ^^ j) s)) = [ucast (drop_bit 4 (pkt ! 0))]"
    "items (ssICaToIId_DropFrag ((?A ^^ j) s)) = [ip_fragment pkt]" "items (ssICaToICc_SubSums ((?A ^^ j) s)) = [v]"
    "lanes_inv (SubCSums.truncate v) (inet_sum (take (ica_span (ip_words pkt)) pkt))" "ss_ipMatch v = (u32 pkt 16 = ownIp)"
    using assms(7-10) by (auto simp: Let_def)
  let ?t = "(?A ^^ j) s"
  have kt: "(irx_front ?t, ssICcToIId_CsumVal ?t, irx_back ?t) = (irx_front s, ssICcToIId_CsumVal s, irx_back s)"
    by (rule funpow_keeps [where g = "\<lambda>t. (irx_front t, ssICcToIId_CsumVal t, irx_back t)"], rule ica_keeps)
  let ?u = "pIpChecksumChecker ?t"
  have "\<not> sfull (ssICcToIId_CsumVal ?t)" using kt assms(11,12) by (simp add: sfull_def)
  from icc_run [OF t(8,9) this]
  have u: "items (ssICcToIId_CsumVal ?u) = [ip_valid ownIp pkt]" "items (ssICaToICc_SubSums ?u) = []"
    using kt assms(11) t(10) by (simp_all add: ip_valid_def)
  have ku: "(irx_front ?u, ssILcToICa_Data ?u, irx_ica ?u, irx_id ?u, irx_back ?u) =
      (irx_front ?t, ssILcToICa_Data ?t, irx_ica ?t, irx_id ?t, irx_back ?t)" by (rule icc_keeps)
  have lens: "length (bytes_of cs) = length pkt + 14" "length ws \<le> length cs"
  proof -
    show l: "length (bytes_of cs) = length pkt + 14" using assms(3,5) by (simp add: frame_ok_def)
    have "payload_ok cs" using assms(3) by (simp add: frame_ok_def)
    from payload_chunks [OF t(4)] payload_chunks [OF this] show "length ws \<le> length cs" using l t(5) by simp
  qed
  have iid: "iid_fsmState ?u = IID_IDLE" "items (ssICaToIId_Data ?u) = ws @ []" "8 < length (bytes_of ws)"
    "items (ssICaToIId_IpVer ?u) = [ucast (drop_bit 4 (pkt ! 0))]" "items (ssICaToIId_DropFrag ?u) = [ip_fragment pkt]"
    "length (items (ssIIdToICl_Data ?u)) + length ws \<le> depth (ssIIdToICl_Data ?u)" "items (ssIIdToICl_Data ?u) = []"
    using assms(3,13-15) kt ku t(3,5-7) lens by (simp_all add: irx_back_def irx_id_def frame_ok_def)
  let ?v = "(pIpInvalidDropper ^^ length ws) ?u"
  note v = iid_run [OF iid(1,2) t(4) iid(3) u(1) iid(4,5,6), unfolded Let_def iid(7)]
  have kv: "(irx_front ?v, ssILcToICa_Data ?v, irx_ica ?v, ssICaToICc_SubSums ?v, irx_icl ?v, ssIClToIPr_Data ?v, irx_ipr ?v) =
      (irx_front ?u, ssILcToICa_Data ?u, irx_ica ?u, ssICaToICc_SubSums ?u, irx_icl ?u, ssIClToIPr_Data ?u, irx_ipr ?u)"
    by (rule funpow_keeps [where g = "\<lambda>t. (irx_front t, ssILcToICa_Data t, irx_ica t, ssICaToICc_SubSums t, irx_icl t,
      ssIClToIPr_Data t, irx_ipr t)"], rule iid_keeps)
  have run: "iprx_runs mac ownIp junk s ?v"
    by (rule rtranclp_trans [OF rtranclp_trans]; rule iprx_runs_funpow)
  have ok: "(ip_valid ownIp pkt \<and> (ucast (drop_bit 4 (pkt ! 0)) :: 4 word) = 4 \<and> \<not> ip_fragment pkt) = ip_accepted ownIp pkt"
    by (simp add: ip_accepted_def version_nibble)
  have idle: "ica_ready ?v" using t(1) ku kv by (simp add: ica_ready_def irx_ica_def)
  show ?thesis
    using v [unfolded ok] run idle t(2,4,5) u(2) lens(2) kt ku kv
    by (intro exI [of _ ?v] exI [of _ ws]) (simp add: irx_back_def)
qed

section \<open>From the dropper to the ports\<close>

lemma payload_chunks_mono:
  assumes "payload_ok xs" "payload_ok ys" "length (bytes_of xs) \<le> length (bytes_of ys)"
  shows "length xs \<le> length ys"
  using payload_chunks [OF assms(1)] payload_chunks [OF assms(2)] assms(3) by simp

lemma iprx_route_run:
  fixes s :: "'a IPRX_scheme"
  assumes "irx_icl s = (ICL_FWD, 0)" "items (ssIIdToICl_Data s) = ws" "payload_ok ws" "n = unat (u16 (bytes_of ws) 2)"
    and "16 < n" "n \<le> length (bytes_of ws)" "items (ssIClToIPr_Data s) = []" "length ws \<le> depth (ssIClToIPr_Data s)"
    and "ipr_fsmState s = IPR_IDLE" "ipr_chunkCount s = 0" "length ws \<le> ipr_space s"
  shows "\<exists>t us. iprx_runs mac ownIp junk s t \<and> irx_icl t = (ICL_FWD, 0) \<and> items (ssIIdToICl_Data t) = [] \<and>
    items (ssIClToIPr_Data t) = [] \<and> ipr_fsmState t = IPR_IDLE \<and> ipr_chunkCount t = 0 \<and>
    payload_ok us \<and> bytes_of us = take n (bytes_of ws) \<and>
    ipr_obs t = ip_deliver (bytes_of ws ! 8 = 1) (bytes_of ws ! 9) us (ipr_obs s) \<and>
    (irx_front t, ssILcToICa_Data t, irx_ica t, irx_id t, ssICaToICc_SubSums t, ssICcToIId_CsumVal t, iid_fsmState t) =
    (irx_front s, ssILcToICa_Data s, irx_ica s, irx_id s, ssICaToICc_SubSums s, ssICcToIId_CsumVal s, iid_fsmState s)"
proof -
  have icl: "icl_fsmState s = ICL_FWD" "icl_chunkCount s = 0" "items (ssIIdToICl_Data s) = ws @ []"
    "8 < unat (u16 (bytes_of ws) 2)" "unat (u16 (bytes_of ws) 2) \<le> length (bytes_of ws)"
    "length (items (ssIClToIPr_Data s)) + length ws \<le> depth (ssIClToIPr_Data s)"
    using assms(1,2,4-8) by (simp_all add: irx_icl_def)
  from icl_run [OF icl(1-3) assms(3) icl(4-6)] obtain j xs where
    x: "icl_done s j [] xs" "payload_ok xs" "bytes_of xs = take n (bytes_of ws)" by (auto simp: assms(4))
  let ?t = "(pIpCutLength ^^ j) s"
  have t: "irx_icl ?t = (ICL_FWD, 0)" "items (ssIIdToICl_Data ?t) = []" "items (ssIClToIPr_Data ?t) = xs @ []"
    using x(1) assms(7) by (simp_all add: icl_done_def irx_icl_def Let_def)
  have kt: "(irx_front ?t, ssILcToICa_Data ?t, irx_ica ?t, irx_id ?t, ssICaToICc_SubSums ?t, ssICcToIId_CsumVal ?t,
      iid_fsmState ?t, irx_ipr ?t) = (irx_front s, ssILcToICa_Data s, irx_ica s, irx_id s, ssICaToICc_SubSums s,
      ssICcToIId_CsumVal s, iid_fsmState s, irx_ipr s)"
    by (rule funpow_keeps [where g = "\<lambda>t. (irx_front t, ssILcToICa_Data t, irx_ica t, irx_id t, ssICaToICc_SubSums t,
      ssICcToIId_CsumVal t, iid_fsmState t, irx_ipr t)"], rule icl_keeps)
  then have obs: "ipr_obs ?t = ipr_obs s" "ipr_space ?t = ipr_space s"
    by (simp_all add: irx_ipr_def ipr_obs_def ipr_space_def)
  have "length xs \<le> length ws" using payload_chunks_mono [OF x(2) assms(3)] assms(6) by (simp add: x(3))
  then have ipr: "ipr_fsmState ?t = IPR_IDLE" "ipr_chunkCount ?t = 0" "16 < length (bytes_of xs)" "length xs \<le> ipr_space ?t"
    using kt assms(5,6,9-11) obs by (simp_all add: irx_ipr_def x(3))
  have head: "bytes_of xs ! 8 = bytes_of ws ! 8" "bytes_of xs ! 9 = bytes_of ws ! 9" using assms(5) by (simp_all add: x(3))
  from ipr_run [OF ipr(1,2) t(3) x(2) ipr(3,4)] obtain m us where
    u: "ipr_fsmState ((pIpPacketRouter ^^ m) ?t) = IPR_IDLE" "ipr_chunkCount ((pIpPacketRouter ^^ m) ?t) = 0"
    "items (ssIClToIPr_Data ((pIpPacketRouter ^^ m) ?t)) = []" "payload_ok us" "bytes_of us = bytes_of xs"
    "ipr_obs ((pIpPacketRouter ^^ m) ?t) = ip_deliver (bytes_of ws ! 8 = 1) (bytes_of ws ! 9) us (ipr_obs s)"
    by (auto simp: Let_def obs head)
  let ?u = "(pIpPacketRouter ^^ m) ?t"
  have ku: "(irx_front ?u, ssILcToICa_Data ?u, irx_ica ?u, irx_id ?u, ssICaToICc_SubSums ?u, ssICcToIId_CsumVal ?u,
      iid_fsmState ?u, ssIIdToICl_Data ?u, irx_icl ?u) = (irx_front ?t, ssILcToICa_Data ?t, irx_ica ?t, irx_id ?t,
      ssICaToICc_SubSums ?t, ssICcToIId_CsumVal ?t, iid_fsmState ?t, ssIIdToICl_Data ?t, irx_icl ?t)"
    by (rule funpow_keeps [where g = "\<lambda>t. (irx_front t, ssILcToICa_Data t, irx_ica t, irx_id t, ssICaToICc_SubSums t,
      ssICcToIId_CsumVal t, iid_fsmState t, ssIIdToICl_Data t, irx_icl t)"], rule ipr_keeps)
  have "iprx_runs mac ownIp junk s ?u" by (rule rtranclp_trans; rule iprx_runs_funpow)
  then show ?thesis using t(1,2) kt ku u x(3) by (intro exI [of _ ?u] exI [of _ us]) simp
qed

section \<open>The receiver\<close>

text \<open>The frames whose packet the code delivers.\<close>

definition frame_accepted :: "EthAddr \<Rightarrow> Ip4Addr \<Rightarrow> 8 word list \<Rightarrow> bool" where
  "frame_accepted mac ownIp fb \<longleftrightarrow> frame_kind mac fb = 0x0800 \<and> u16 (drop 14 fb) 2 \<le> 32768 \<and> ip_accepted ownIp (drop 14 fb)"

text \<open>The IPv4 frames the theorem is about: headers of five or six words, and a total length
  between 16 and the bytes of the frame.\<close>

definition ip_sized :: "8 word list \<Rightarrow> bool" where
  "ip_sized pkt \<longleftrightarrow> (ip_words pkt = 5 \<or> ip_words pkt = 6) \<and> 16 < unat (u16 pkt 2) \<and> unat (u16 pkt 2) \<le> length pkt"

lemma iprx_run:
  fixes s :: "'a IPRX_scheme"
  assumes "iprx_ready s" "items (irx_siETH_Data s) = cs @ rest" "frame_ok cs" "iprx_room s (length cs)"
    and "pkt = drop 14 (bytes_of cs)" "frame_kind mac (bytes_of cs) = 0x0800 \<longrightarrow> ip_sized pkt"
  shows "\<exists>t us. iprx_runs mac ownIp junk s t \<and> iprx_ready t \<and> items (irx_siETH_Data t) = rest \<and>
    items (irx_soARP_Data t) = items (irx_soARP_Data s) @ (if frame_kind mac (bytes_of cs) = 0x0806 then cs else []) \<and>
    (if frame_accepted mac ownIp (bytes_of cs)
     then payload_ok us \<and> bytes_of us = take (unat (u16 pkt 2)) pkt \<and>
       ipr_obs t = ip_deliver (pkt ! 8 = 1) (pkt ! 9) us (ipr_obs s)
     else ipr_obs t = ipr_obs s)"
proof -
  let ?runs = "iprx_runs mac ownIp junk" and ?k = "frame_kind mac (bytes_of cs)"
  note ready = assms(1) [unfolded iprx_ready_def] and room = assms(4) [unfolded iprx_room_def]
  note parts = irx_parts ipr_obs_def ipr_space_def ica_ready_def
  from iprx_mpd_run [OF assms(1-4), of mac ownIp junk] obtain t where
    t: "?runs s t" "items (irx_siETH_Data t) = rest" "items (ssIBufToMPd_Data t) = []" "mpd_fsmState t = MPD_S0"
    "mpd_chunkCount t = 0" "items (irx_soARP_Data t) = items (irx_soARP_Data s) @ (if ?k = 0x0806 then cs else [])"
    "items (ssMPdToILc_Data t) = (if ?k = 0x0800 then cs else [])"
    and kt: "(irx_ilc t, ssILcToICa_Data t, irx_ica t, irx_id t, ssICaToICc_SubSums t, ssICcToIId_CsumVal t, irx_back t) =
      (irx_ilc s, ssILcToICa_Data s, irx_ica s, irx_id s, ssICaToICc_SubSums s, ssICcToIId_CsumVal s, irx_back s)" by blast
  show ?thesis
  proof (cases "?k = 0x0800")
    case False
    then have "iprx_ready t" "ipr_obs t = ipr_obs s" using t kt ready by (simp_all add: iprx_ready_def parts)
    with False t(1,2,6) show ?thesis
      by (intro exI [of _ t] exI [of _ "[]"]) (simp add: frame_accepted_def)
  next
    case True
    then have sized: "ip_words pkt = 5 \<or> ip_words pkt = 6" "16 < unat (u16 pkt 2)" "unat (u16 pkt 2) \<le> length pkt"
      using assms(6) by (simp_all add: ip_sized_def)
    have ilc: "irx_ilc t = (0, ILC_IDLE, 0)" "items (ssMPdToILc_Data t) = cs" "items (ssILcToICa_Data t) = []"
      "length cs \<le> depth (ssILcToICa_Data t)"
      using True t(7) kt ready room by (simp_all add: irx_ilc_def)
    from iprx_ilc_run [OF ilc(1,2) assms(3) ilc(3,4), of mac ownIp junk, folded assms(5)] obtain u where
      u: "?runs t u" "irx_ilc u = (0, ILC_IDLE, 0)" "items (ssMPdToILc_Data u) = []"
      "items (ssILcToICa_Data u) = (if 32768 < u16 pkt 2 then [] else cs)"
      and ku: "(irx_siETH_Data u, ssIBufToMPd_Data u, irx_mpd u, irx_ica u, irx_id u, ssICaToICc_SubSums u, ssICcToIId_CsumVal u,
        irx_back u) = (irx_siETH_Data t, ssIBufToMPd_Data t, irx_mpd t, irx_ica t, irx_id t, ssICaToICc_SubSums t,
        ssICcToIId_CsumVal t, irx_back t)" by blast
    note su = rtranclp_trans [OF t(1) u(1)]
    show ?thesis
    proof (cases "32768 < u16 pkt 2")
      case True
      then have "iprx_ready u" "ipr_obs u = ipr_obs s" using t u kt ku ready by (simp_all add: iprx_ready_def parts)
      moreover have "\<not> frame_accepted mac ownIp (bytes_of cs)" using True by (simp add: frame_accepted_def assms(5) not_le)
      ultimately show ?thesis
        using t(2,6) su ku by (intro exI [of _ u] exI [of _ "[]"]) (simp add: irx_mpd_def)
    next
      case False
      have ica: "ica_ready u" "items (ssILcToICa_Data u) = cs" "ica_room u (length cs)" "items (ssICaToIId_Data u) = []"
        "items (ssICaToIId_IpVer u) = []" "items (ssICaToIId_DropFrag u) = []" "items (ssICaToICc_SubSums u) = []"
        "items (ssICcToIId_CsumVal u) = []" "0 < depth (ssICcToIId_CsumVal u)" "iid_fsmState u = IID_IDLE"
        "items (ssIIdToICl_Data u) = []" "length cs \<le> depth (ssIIdToICl_Data u)"
        using False u(4) kt ku ready room by (simp_all add: parts ica_room_def)
      from iprx_check_run [OF ica(1,2) assms(3) ica(3) assms(5) sized(1) ica(4-12), where mac = mac and ownIp = ownIp and junk = junk] obtain v ws where
        v: "?runs u v" "ica_ready v" "items (ssILcToICa_Data v) = []" "items (ssICaToIId_Data v) = []"
        "items (ssICaToIId_IpVer v) = []" "items (ssICaToIId_DropFrag v) = []" "items (ssICaToICc_SubSums v) = []"
        "items (ssICcToIId_CsumVal v) = []" "iid_fsmState v = IID_IDLE"
        "items (ssIIdToICl_Data v) = (if ip_accepted ownIp pkt then ws else [])" "payload_ok ws" "bytes_of ws = pkt"
        "length ws \<le> length cs"
        and kv: "(irx_front v, irx_icl v, ssIClToIPr_Data v, irx_ipr v) = (irx_front u, irx_icl u, ssIClToIPr_Data u, irx_ipr u)"
        by blast
      note sv = rtranclp_trans [OF su v(1)]
      have acc: "frame_accepted mac ownIp (bytes_of cs) = ip_accepted ownIp pkt"
        using \<open>?k = 0x0800\<close> False [unfolded not_less] by (simp add: frame_accepted_def assms(5))
      show ?thesis
      proof (cases "ip_accepted ownIp pkt")
        case False
        then have "iprx_ready v" "ipr_obs v = ipr_obs s" using t u v kt ku kv ready by (simp_all add: iprx_ready_def parts)
        with False t(2,6) sv ku kv show ?thesis
          by (intro exI [of _ v] exI [of _ "[]"]) (simp add: acc parts)
      next
        case True
        have icl: "irx_icl v = (ICL_FWD, 0)" "items (ssIIdToICl_Data v) = ws" "16 < unat (u16 pkt 2)"
          "unat (u16 pkt 2) \<le> length (bytes_of ws)" "items (ssIClToIPr_Data v) = []"
          "length ws \<le> depth (ssIClToIPr_Data v)" "ipr_fsmState v = IPR_IDLE" "ipr_chunkCount v = 0" "length ws \<le> ipr_space v"
          "ipr_obs v = ipr_obs s"
          using True sized v(10,12,13) kt ku kv ready room by (simp_all add: parts)
        have n: "unat (u16 pkt 2) = unat (u16 (bytes_of ws) 2)" by (simp add: v(12))
        from iprx_route_run [OF icl(1,2) v(11) n icl(3-9), where mac = mac and ownIp = ownIp and junk = junk] obtain w us where
          w: "?runs v w" "irx_icl w = (ICL_FWD, 0)" "items (ssIIdToICl_Data w) = []" "items (ssIClToIPr_Data w) = []"
          "ipr_fsmState w = IPR_IDLE" "ipr_chunkCount w = 0" "payload_ok us" "bytes_of us = take (unat (u16 pkt 2)) pkt"
          "ipr_obs w = ip_deliver (pkt ! 8 = 1) (pkt ! 9) us (ipr_obs s)"
          and kw: "(irx_front w, ssILcToICa_Data w, irx_ica w, irx_id w, ssICaToICc_SubSums w, ssICcToIId_CsumVal w, iid_fsmState w) =
            (irx_front v, ssILcToICa_Data v, irx_ica v, irx_id v, ssICaToICc_SubSums v, ssICcToIId_CsumVal v, iid_fsmState v)"
          unfolding v(12) icl(10) by blast
        have "iprx_ready w" using t u v w kt ku kv kw ready by (simp add: iprx_ready_def parts)
        with True w t(2,6) rtranclp_trans [OF sv w(1)] ku kv kw show ?thesis
          by (intro exI [of _ w] exI [of _ us]) (simp add: acc parts)
      qed
    qed
  qed
qed

end
