(* ===== verification/Ip_Wire.thy ===== *)
theory Ip_Wire
  imports Ip_Receive
begin

text \<open>
  What the receiver of Ethernet frames promises (\<open>Ip_Rx\<close>) on packets without options, and which packets
  with options it loses.
\<close>

section \<open>Delivery\<close>







text \<open>A frame of 60 bytes, three of them padding, with a TCP packet of 43 bytes; and the same packet with
  four bytes of options.\<close>

definition frame_example :: "AxisEth list" where
  "frame_example = [chunk 0x2B20000000002 0xFF False, chunk 0x450008A1000000 0xFF False, chunk 0x640000000002B00 0xFF False,
     chunk 0xC0A01080C0A8356 0xFF False, chunk 0x8063223208 0xFF False, chunk 0x1050002000000010 0xFF False,
     chunk 0x201000021B40001 0xFF False, chunk 0x3 0xF True]"

definition frame_options :: "AxisEth list" where
  "frame_options = [chunk 0x2B20000000002 0xFF False, chunk 0x460008A1000000 0xFF False, chunk 0x640000000002F00 0xFF False,
     chunk 0xC0A01080C0A7D53 0xFF False, chunk 0x6322010101013208 0xFF False, chunk 0x1000000080 0xFF False,
     chunk 0x21B4000110500020 0xFF False, chunk 0x302010000 0x1F True]"

definition iprx_example :: "AxisEth list \<Rightarrow> IPRX" where
  "iprx_example cs = iprx_reset\<lparr>irx_siETH_Data := Stream 64 cs\<rparr>"

lemma frame_chunk_len: "getLen (chunk x 0xFF l) = 8" "getLen (chunk x 0xF l) = 4" "getLen (chunk x 0x1F l) = 5"
  by (simp_all add: getLen_def chunk_def keepToLen_def)


lemma frame_options_bytes:
  "payload_ok frame_options"
  "bytes_of frame_options = [2, 0, 0, 0, 0, 0xB2, 2, 0, 0, 0, 0, 0xA1, 8, 0,
     70, 0, 0, 47, 0, 0, 0, 0, 64, 6, 83, 125, 10, 12, 8, 1, 10, 12, 8, 50, 1, 1, 1, 1,
     34, 99, 128, 0, 0, 0, 16, 0, 0, 0, 32, 0, 80, 16, 1, 0, 180, 33, 0, 0, 1, 2, 3]"
proof -
  show "payload_ok frame_options"
    by (simp add: frame_options_def payload_ok_Cons payload_ok_single chunk_ok_def frame_chunk_len) (simp add: chunk_def)
  show "bytes_of frame_options = [2, 0, 0, 0, 0, 0xB2, 2, 0, 0, 0, 0, 0xA1, 8, 0,
     70, 0, 0, 47, 0, 0, 0, 0, 64, 6, 83, 125, 10, 12, 8, 1, 10, 12, 8, 50, 1, 1, 1, 1,
     34, 99, 128, 0, 0, 0, 16, 0, 0, 0, 32, 0, 80, 16, 1, 0, 180, 33, 0, 0, 1, 2, 3]"
    by (simp add: frame_options_def chunk_bytes_def frame_chunk_len upt_upto_8 del: upt.simps) (simp add: chunk_def nth_byte_def)
qed

lemma iprx_example_ok:
  "iprx_ready (iprx_example cs)" "items (irx_siETH_Data (iprx_example cs)) = cs @ []"
  "length cs \<le> 32 \<Longrightarrow> iprx_room (iprx_example cs) (length cs)"
  "ipr_obs (iprx_example cs) = ([], [], [], [])"
  by (simp_all add: iprx_example_def iprx_reset_def iprx_ready_def ica_ready_def iprx_room_def sroom_def ipr_space_def ipr_obs_def)


section \<open>Options\<close>

lemma valid_with_word:
  assumes "even n" "n + 2 \<le> length pkt" "inet_checksum (take n pkt) = 0" "inet_checksum (take (n + 2) pkt) = 0"
  shows "u16 pkt n = 0 \<or> u16 pkt n = 0xFFFF"
proof -
  let ?v = "unat (u16 pkt n)"
  have v: "256 * unat (pkt ! n) + unat (pkt ! (n + 1)) = ?v"
  proof -
    have "unat (ucast (u16 pkt n) :: 17 word) = ?v"
    proof -
      have "?v < 2 ^ 17" by (rule less_le_trans [OF unsigned_less]) simp
      then show ?thesis by (simp add: unsigned_ucast_eq take_bit_nat_eq_self)
    qed
    then show ?thesis using unat_word_cat_8 [of "pkt ! n" "pkt ! (n + 1)"] by (simp add: u16_def)
  qed
  have "?v < 2 ^ 16" by (rule less_le_trans [OF unsigned_less]) simp
  then have le: "?v \<le> 65535" by simp
  have "take (n + 2) pkt = take n pkt @ [pkt ! n, pkt ! (n + 1)]"
    using assms(2) by (simp add: take_Suc_conv_app_nth)
  then have "inet_sum (take (n + 2) pkt) = inet_sum (take n pkt) + ?v"
    using assms(1,2) v by (simp add: inet_sum_append)
  then have "ones_sum (65535 + ?v) = 65535"
    using assms(3,4) ones_sum_add [of "inet_sum (take n pkt)" ?v] by (simp add: inet_checksum_zero)
  then have "?v = 0 \<or> ?v = 65535"
    using ones_sum_step [of ?v] ones_sum_id [OF le] by (auto simp: add.commute)
  then show ?thesis
  proof
    assume "?v = 65535"
    then have "(of_nat ?v :: 16 word) = of_nat 65535" by (rule arg_cong)
    then show ?thesis by simp
  qed (simp add: unat_eq_zero)
qed

text \<open>C13. A packet with one word of options is lost (a defect of the header sum).  The last four words of a
  header of 24 bytes come with two bytes of the payload in one chunk, and the accumulator adds these as
  well.  A packet whose header sums to zero is then dropped, unless the first two bytes of its payload,
  the source port, are zero or 0xFFFF: nothing is delivered, on no port.\<close>

theorem iprx_drops_options:
  fixes s :: "'a IPRX_scheme"
  assumes "iprx_ready s" "items (irx_siETH_Data s) = cs @ rest" "frame_ok cs" "iprx_room s (length cs)"
    and "pkt = drop 14 (bytes_of cs)" "frame_kind mac (bytes_of cs) = 0x0800" "ip_sized pkt" "ip_words pkt = 6"
    and "inet_checksum (take 24 pkt) = 0" "u16 pkt 24 \<noteq> 0" "u16 pkt 24 \<noteq> 0xFFFF"
  shows "\<exists>t. iprx_runs mac ownIp junk s t \<and> iprx_ready t \<and> items (irx_siETH_Data t) = rest \<and>
    items (irx_soARP_Data t) = items (irx_soARP_Data s) \<and> ipr_obs t = ipr_obs s"
proof -
  have "24 + 2 \<le> length pkt" using assms(3) unfolding assms(5) by (auto simp: frame_ok_def)
  with valid_with_word [of 24 pkt] assms(9-11) have "inet_checksum (take 26 pkt) \<noteq> 0" by auto
  then have "\<not> frame_accepted mac ownIp (bytes_of cs)"
    using assms(8) by (simp add: frame_accepted_def ip_accepted_def ip_valid_def ica_span_def assms(5))
  then show ?thesis using iprx_run [OF assms(1-5), of mac ownIp junk] assms(6,7) by auto
qed

theorem iprx_drops_options_witness:
  "inet_checksum (take 24 (drop 14 (bytes_of frame_options))) = 0 \<and>
   (\<exists>t. iprx_runs 0x0200000000B2 0x0A0C0832 False (iprx_example frame_options) t \<and> items (irx_siETH_Data t) = [] \<and>
      ipr_obs t = ([], [], [], []))"
proof -
  let ?mac = "0x0200000000B2 :: 48 word" and ?ip = "0x0A0C0832 :: 32 word" and ?cs = frame_options
  let ?pkt = "[70, 0, 0, 47, 0, 0, 0, 0, 64, 6, 83, 125, 10, 12, 8, 1, 10, 12, 8, 50, 1, 1, 1, 1,
     34, 99, 128, 0, 0, 0, 16, 0, 0, 0, 32, 0, 80, 16, 1, 0, 180, 33, 0, 0, 1, 2, 3] :: 8 word list"
  have pkt: "?pkt = drop 14 (bytes_of ?cs)" by (simp add: frame_options_bytes(2))
  have ok: "frame_ok ?cs" by (simp add: frame_ok_def frame_options_bytes)
  have room: "iprx_room (iprx_example ?cs) (length ?cs)" by (rule iprx_example_ok(3)) (simp add: frame_options_def)
  have len: "u16 ?pkt 2 = 47" "u16 ?pkt 24 = 0x2263" by (simp_all add: u16_def word_cat_eq)
  have words: "ip_words ?pkt = 6" by (simp add: ip_words_def take_bit_eq_mod)
  have sized: "ip_sized ?pkt" by (simp add: ip_sized_def len words)
  have kind: "frame_kind ?mac (bytes_of ?cs) = 0x0800"
    by (simp add: frame_options_bytes(2) frame_kind_def frame_for_def be48_def u16_def word_cat_eq)
  have sum: "inet_checksum (take 24 ?pkt) = 0" by (simp add: inet_checksum_def ones_sum_def)
  have port: "u16 ?pkt 24 \<noteq> 0" "u16 ?pkt 24 \<noteq> 0xFFFF" by (simp_all add: len(2))
  from iprx_drops_options [OF iprx_example_ok(1,2) ok room pkt kind sized words sum port, of ?ip False] sum
  show ?thesis unfolding pkt by (auto simp: iprx_example_ok(4))
qed

section \<open>The type of the state\<close>

text \<open>No stream holds more than it can, the counters of two and three bits stay below their wrap-around, and
  each state of a machine fits its counters.\<close>

definition stream_ok :: "'c stream \<Rightarrow> bool" where
  "stream_ok st \<longleftrightarrow> length (items st) \<le> depth st"

lemma stream_ok_simps [simp]:
  "\<not> sfull st \<Longrightarrow> stream_ok (swrite st c)" "sread st = Some (c, st') \<Longrightarrow> stream_ok st \<Longrightarrow> stream_ok st'"
  by (auto simp: stream_ok_def sfull_def sread_def split: list.splits)

definition mpd_typed :: "'a IPRX_scheme \<Rightarrow> bool" where
  "mpd_typed s \<longleftrightarrow> mpd_chunkCount s \<in> {0, 1, 2} \<and> (mpd_fsmState s = MPD_S1 \<longrightarrow> mpd_chunkCount s = 0) \<and>
     stream_ok (irx_soARP_Data s)"

definition ilc_typed :: "'a IPRX_scheme \<Rightarrow> bool" where
  "ilc_typed s \<longleftrightarrow> ilc_leftToWrite s \<in> {0, 1, 2} \<and> ilc_chunkCount s \<in> {0, 1, 2} \<and>
     (ilc_fsmState s = ILC_IDLE \<longrightarrow> ilc_chunkCount s \<noteq> 2) \<and>
     (ilc_leftToWrite s \<noteq> 0 \<longrightarrow> ilc_fsmState s = ILC_IDLE \<and> ilc_chunkCount s = 0)"

definition ica_typed :: "'a IPRX_scheme \<Rightarrow> bool" where
  "ica_typed s \<longleftrightarrow> ica_chunkCount s \<in> {0, 1, 2, 3, 4} \<and> (ica_wasLastChunk s \<longrightarrow> ica_chunkCount s = 0)"

definition ipr_typed :: "'a IPRX_scheme \<Rightarrow> bool" where
  "ipr_typed s \<longleftrightarrow> ipr_chunkCount s \<in> {0, 1, 2} \<and> (ipr_fsmState s = IPR_LAST \<longrightarrow> ipr_chunkCount s = 0) \<and>
     stream_ok (irx_soICMP_Derr s) \<and> stream_ok (irx_soICMP_Data s) \<and> stream_ok (irx_soUOE_Data s) \<and> stream_ok (irx_soTOE_Data s)"

definition id_typed :: "'a IPRX_scheme \<Rightarrow> bool" where
  "id_typed s \<longleftrightarrow> stream_ok (ssICaToIId_Data s) \<and> stream_ok (ssICaToIId_IpVer s) \<and> stream_ok (ssICaToIId_DropFrag s)"

definition iprx_typed :: "'a IPRX_scheme \<Rightarrow> bool" where
  "iprx_typed s \<longleftrightarrow> mpd_typed s \<and> ilc_typed s \<and> ica_typed s \<and> ipr_typed s \<and> id_typed s \<and>
     stream_ok (ssIBufToMPd_Data s) \<and> stream_ok (ssMPdToILc_Data s) \<and> stream_ok (ssILcToICa_Data s) \<and>
     stream_ok (ssICaToICc_SubSums s) \<and> stream_ok (ssICcToIId_CsumVal s) \<and> stream_ok (ssIIdToICl_Data s) \<and>
     stream_ok (ssIClToIPr_Data s)"

text \<open>What a process leaves alone keeps its type.\<close>

lemma typed_parts:
  "irx_mpd t = irx_mpd s \<Longrightarrow> mpd_typed t = mpd_typed s" "irx_ilc t = irx_ilc s \<Longrightarrow> ilc_typed t = ilc_typed s"
  "irx_ica t = irx_ica s \<Longrightarrow> ica_typed t = ica_typed s" "irx_ipr t = irx_ipr s \<Longrightarrow> ipr_typed t = ipr_typed s"
  "irx_id t = irx_id s \<Longrightarrow> id_typed t = id_typed s"
  by (simp_all add: irx_parts mpd_typed_def ilc_typed_def ica_typed_def ipr_typed_def id_typed_def)

lemma mpd_types:
  fixes mac and s :: "'a IPRX_scheme"
  assumes "mpd_typed s" "stream_ok (ssIBufToMPd_Data s)" "stream_ok (ssMPdToILc_Data s)"
  defines "t \<equiv> pMacProtocolDetector mac s"
  shows "mpd_typed t \<and> stream_ok (ssIBufToMPd_Data t) \<and> stream_ok (ssMPdToILc_Data t)"
proof -
  have put: "stream_ok (irx_soARP_Data (mpd_put u)) \<and> stream_ok (ssMPdToILc_Data (mpd_put u))"
    if "stream_ok (irx_soARP_Data u)" "stream_ok (ssMPdToILc_Data u)" "\<not> sfull (irx_soARP_Data u)"
      "\<not> sfull (ssMPdToILc_Data u)" for u :: "'a IPRX_scheme"
    using that by (simp add: mpd_put_def)
  show ?thesis
  proof (cases "sfull (irx_soARP_Data s) \<or> sfull (ssMPdToILc_Data s)")
    case True
    then show ?thesis using assms(1-3) by (auto simp: t_def pMacProtocolDetector_def)
  next
    case False
    show ?thesis
    proof (cases "mpd_fsmState s")
      case MPD_S1
      then show ?thesis
        using False put [of s] assms(1-3) by (simp add: t_def pMacProtocolDetector_def mpd_typed_def mpd_put_simps)
    next
      case MPD_S0
      show ?thesis
      proof (cases "sread (ssIBufToMPd_Data s)")
        case None
        then show ?thesis using False MPD_S0 assms(1-3) by (simp add: t_def pMacProtocolDetector_def)
      next
        case (Some x)
        obtain c si where x: "sread (ssIBufToMPd_Data s) = Some (c, si)" using Some by (cases x) simp
        let ?ty = "if mpd_etherType s \<noteq> 1 then getEtherType c else mpd_etherType s"
        have "stream_ok si" using x assms(2) by (rule stream_ok_simps(2))
        then show ?thesis
          using False MPD_S0 assms(1-3) x put [of "s\<lparr>ssIBufToMPd_Data := si\<rparr>"]
            put [of "s\<lparr>ssIBufToMPd_Data := si, mpd_etherType := ?ty, mpd_chunkCount := 2\<rparr>"]
          by (cases "mpd_chunkCount s = 0"; cases "mpd_chunkCount s = 1"; cases "ax_tlast c"; cases "mpd_etherType s = 1")
            (simp_all add: t_def pMacProtocolDetector_def mpd_typed_def mpd_put_simps Let_def)
      qed
    qed
  qed
qed

lemma ilc_types:
  fixes s :: "'a IPRX_scheme"
  assumes "ilc_typed s" "stream_ok (ssMPdToILc_Data s)" "stream_ok (ssILcToICa_Data s)"
  defines "t \<equiv> pIpLengthChecker s"
  shows "ilc_typed t" "stream_ok (ssMPdToILc_Data t) \<and> stream_ok (ssILcToICa_Data t)"
proof -
  show "ilc_typed t"
    using assms(1)
    by (auto simp: t_def pIpLengthChecker_def ilc_chunk_def ilc_put_def ilc_shift_def ilc_typed_def Let_def
        split: option.splits IlcState.splits)
  show "stream_ok (ssMPdToILc_Data t) \<and> stream_ok (ssILcToICa_Data t)"
    using assms(2,3)
    by (auto simp: t_def pIpLengthChecker_def ilc_chunk_def ilc_put_def ilc_shift_def Let_def
        split: option.splits IlcState.splits)
qed

lemma ica_chunk_types:
  fixes ownIp c and s :: "'a IPRX_scheme"
  assumes "ica_chunkCount s \<in> {0, 1, 2, 3, 4}" "id_typed s" "stream_ok (ssICaToICc_SubSums s)" "ica_side_room s"
  defines "t \<equiv> ica_chunk ownIp c s"
  shows "ica_chunkCount t \<in> {0, 1, 2, 3, 4}" "id_typed t" "stream_ok (ssICaToICc_SubSums t)"
    "ssICaToIId_Data t = ssICaToIId_Data s" "ssILcToICa_Data t = ssILcToICa_Data s" "ica_wasLastChunk t = ica_wasLastChunk s"
  using assms(1-4)
  by (auto simp: t_def ica_chunk_def ica_rest_def ica_report_def id_typed_def ica_side_room_def Let_def)

lemma ica_types:
  fixes ownIp junk and s :: "'a IPRX_scheme"
  assumes "ica_typed s" "id_typed s" "stream_ok (ssILcToICa_Data s)" "stream_ok (ssICaToICc_SubSums s)"
  defines "t \<equiv> pIpChecksumAccumulator ownIp junk s"
  shows "ica_typed t \<and> id_typed t \<and> stream_ok (ssILcToICa_Data t) \<and> stream_ok (ssICaToICc_SubSums t)"
proof (cases "sread (ssILcToICa_Data s)")
  case None
  then show ?thesis
    using assms(1-4) by (auto simp: t_def pIpChecksumAccumulator_def ica_typed_def id_typed_def)
next
  case (Some x)
  obtain c si where x: "sread (ssILcToICa_Data s) = Some (c, si)" using Some by (cases x) simp
  show ?thesis
  proof (cases "ica_side_room s \<and> \<not> ica_wasLastChunk s")
    case True
    let ?v = "s\<lparr>ssILcToICa_Data := si\<rparr>"
    have v: "ica_chunkCount ?v \<in> {0, 1, 2, 3, 4}" "id_typed ?v" "stream_ok (ssICaToICc_SubSums ?v)" "ica_side_room ?v"
      "stream_ok (ssILcToICa_Data ?v)"
      using True assms(1-4) stream_ok_simps(2) [OF x] by (simp_all add: ica_typed_def id_typed_def ica_side_room_def)
    note w = ica_chunk_types [OF v(1-4), of ownIp c]
    show ?thesis
      using True v(5) w x assms(1-4)
      by (auto simp: t_def pIpChecksumAccumulator_def ica_typed_def id_typed_def ica_side_room_def Let_def)
  next
    case False
    then show ?thesis
      using assms(1-4) by (auto simp: t_def pIpChecksumAccumulator_def ica_typed_def id_typed_def ica_side_room_def)
  qed
qed

lemma icc_types:
  fixes s :: "'a IPRX_scheme"
  assumes "stream_ok (ssICaToICc_SubSums s)" "stream_ok (ssICcToIId_CsumVal s)"
  defines "t \<equiv> pIpChecksumChecker s"
  shows "stream_ok (ssICaToICc_SubSums t) \<and> stream_ok (ssICcToIId_CsumVal t)"
  using assms(1,2) by (auto simp: t_def pIpChecksumChecker_def Let_def split: option.splits)

lemma iid_types:
  fixes s :: "'a IPRX_scheme"
  assumes "id_typed s" "stream_ok (ssICcToIId_CsumVal s)" "stream_ok (ssIIdToICl_Data s)"
  defines "t \<equiv> pIpInvalidDropper s"
  shows "id_typed t \<and> stream_ok (ssICcToIId_CsumVal t) \<and> stream_ok (ssIIdToICl_Data t)"
  using assms(1-3) by (auto simp: t_def pIpInvalidDropper_def id_typed_def Let_def split: option.splits IidState.splits)

lemma icl_types:
  fixes s :: "'a IPRX_scheme"
  assumes "stream_ok (ssIIdToICl_Data s)" "stream_ok (ssIClToIPr_Data s)"
  defines "t \<equiv> pIpCutLength s"
  shows "stream_ok (ssIIdToICl_Data t) \<and> stream_ok (ssIClToIPr_Data t)"
  using assms(1,2) by (auto simp: t_def pIpCutLength_def Let_def split: option.splits IclState.splits)

lemma ipr_types:
  fixes s :: "'a IPRX_scheme"
  assumes "ipr_typed s" "stream_ok (ssIClToIPr_Data s)"
  defines "t \<equiv> pIpPacketRouter s"
  shows "ipr_typed t \<and> stream_ok (ssIClToIPr_Data t)"
proof -
  have put: "stream_ok (irx_soICMP_Derr (ipr_put c u)) \<and> stream_ok (irx_soICMP_Data (ipr_put c u)) \<and>
      stream_ok (irx_soUOE_Data (ipr_put c u)) \<and> stream_ok (irx_soTOE_Data (ipr_put c u))"
    if "ipr_typed u" "\<not> ipr_full u" for c and u :: "'a IPRX_scheme"
    using that by (simp add: ipr_put_def ipr_typed_def ipr_full_def)
  show ?thesis
  proof (cases "ipr_full s")
    case True
    then show ?thesis using assms(1,2) by (simp add: t_def pIpPacketRouter_def)
  next
    case False
    show ?thesis
    proof (cases "ipr_fsmState s")
      case IPR_LAST
      then show ?thesis
        using False put [of "s\<lparr>ipr_prevChunk := ipr_clear (ipr_prevChunk s)\<rparr>" "ipr_clear (ipr_prevChunk s)"] assms(1,2)
        by (simp add: t_def pIpPacketRouter_def ipr_typed_def ipr_put_simps ipr_full_def Let_def)
    next
      case IPR_IDLE
      show ?thesis
      proof (cases "sread (ssIClToIPr_Data s)")
        case None
        then show ?thesis using False IPR_IDLE assms(1,2) by (simp add: t_def pIpPacketRouter_def)
      next
        case (Some x)
        obtain c si where x: "sread (ssIClToIPr_Data s) = Some (c, si)" using Some by (cases x) simp
        have "stream_ok si" using x assms(2) by (rule stream_ok_simps(2))
        then show ?thesis
          using False IPR_IDLE assms(1,2) x put [of "s\<lparr>ssIClToIPr_Data := si\<rparr>" "ipr_prevChunk s"]
            put [of "s\<lparr>ssIClToIPr_Data := si, ipr_ttlExpired := (getIp4TtL c = 1), ipr_ipProtocol := getIp4Prot c,
              ipr_chunkCount := 2\<rparr>" "ipr_prevChunk s"]
          by (cases "ipr_chunkCount s = 0"; cases "ipr_chunkCount s = 1"; cases "ax_tlast c")
            (simp_all add: t_def pIpPacketRouter_def ipr_typed_def ipr_put_simps ipr_full_def Let_def)
      qed
    qed
  qed
qed

lemma ibuf_types:
  "stream_ok (ssIBufToMPd_Data s) \<Longrightarrow> stream_ok (ssIBufToMPd_Data (pInputBuffer s))"
  by (auto simp: pInputBuffer_def split: option.splits)

lemma iprx_step_typed:
  assumes "iprx_step mac ownIp junk s t" "iprx_typed s"
  shows "iprx_typed t"
  using assms(1)
proof cases
  case ibuf
  then show ?thesis using assms(2) typed_parts [of t s] ibuf_keeps [of s] ibuf_types [of s] by (simp add: iprx_typed_def irx_back_def)
next
  case mpd
  then show ?thesis using assms(2) typed_parts [of t s] mpd_keeps [of mac s] mpd_types [of s mac] by (simp add: iprx_typed_def irx_back_def)
next
  case ilc
  then show ?thesis using assms(2) typed_parts [of t s] ilc_keeps [of s] ilc_types [of s] by (simp add: iprx_typed_def irx_back_def)
next
  case ica
  then show ?thesis
    using assms(2) typed_parts [of t s] ica_keeps [of ownIp junk s] ica_types [of s ownIp junk]
    by (simp add: iprx_typed_def irx_back_def irx_front_def)
next
  case icc
  then show ?thesis
    using assms(2) typed_parts [of t s] icc_keeps [of s] icc_types [of s] by (simp add: iprx_typed_def irx_back_def irx_front_def)
next
  case iid
  then show ?thesis using assms(2) typed_parts [of t s] iid_keeps [of s] iid_types [of s] by (simp add: iprx_typed_def irx_front_def)
next
  case icl
  then show ?thesis using assms(2) typed_parts [of t s] icl_keeps [of s] icl_types [of s] by (simp add: iprx_typed_def irx_front_def)
next
  case ipr
  then show ?thesis using assms(2) typed_parts [of t s] ipr_keeps [of s] ipr_types [of s] by (simp add: iprx_typed_def irx_front_def)
qed

lemma line_keeps:
  "irx_siETH_Data (pMacProtocolDetector mac s) = irx_siETH_Data s" "irx_siETH_Data (pIpLengthChecker s) = irx_siETH_Data s"
  "irx_siETH_Data (pIpChecksumAccumulator ownIp junk s) = irx_siETH_Data s"
  "irx_siETH_Data (pIpChecksumChecker s) = irx_siETH_Data s" "irx_siETH_Data (pIpInvalidDropper s) = irx_siETH_Data s"
  "irx_siETH_Data (pIpCutLength s) = irx_siETH_Data s" "irx_siETH_Data (pIpPacketRouter s) = irx_siETH_Data s"
  using mpd_keeps [of mac s] ilc_keeps [of s] ica_keeps [of ownIp junk s] icc_keeps [of s] iid_keeps [of s] icl_keeps [of s]
    ipr_keeps [of s]
  by (simp_all add: irx_front_def)

lemma iprx_front_line: "irx_siETH_Data (iprx mac ownIp junk s) = irx_siETH_Data (pInputBuffer s)"
  by (simp add: iprx_def line_keeps)

text \<open>C10. The state of the receiver keeps its type.  From the reset state and with any chunks on the line,
  in every state that any schedule of the processes reaches, no stream holds more than its depth (so that no
  process has written to a full one), the chunk counters of two and three bits have not wrapped around, at
  most two chunks are left in the shift register of the length checker, and a machine that flushes has
  cleared its counter.\<close>

theorem iprx_stays_typed:
  assumes "iprx_runs mac ownIp junk (iprx_reset\<lparr>irx_siETH_Data := line\<rparr>) t"
  shows "iprx_typed t"
  using assms
proof (induction rule: rtranclp_induct)
  case base
  show ?case
    by (simp add: iprx_typed_def mpd_typed_def ilc_typed_def ica_typed_def ipr_typed_def id_typed_def stream_ok_def iprx_reset_def)
qed (rule iprx_step_typed)

text \<open>One pass over a frame moves its first chunk to the stream of the detector and into its register.\<close>

theorem iprx_stays_typed_witness:
  "iprx_typed (iprx 0x0200000000B2 0x0A0C0832 False (iprx_reset\<lparr>irx_siETH_Data := Stream 64 frame_example\<rparr>)) \<and>
   iprx 0x0200000000B2 0x0A0C0832 False (iprx_reset\<lparr>irx_siETH_Data := Stream 64 frame_example\<rparr>) \<noteq>
     iprx_reset\<lparr>irx_siETH_Data := Stream 64 frame_example\<rparr>"
proof -
  let ?s = "iprx_reset\<lparr>irx_siETH_Data := Stream 64 frame_example\<rparr>"
  have "length (items (irx_siETH_Data (iprx 0x0200000000B2 0x0A0C0832 False ?s))) = 7"
    by (simp add: iprx_front_line frame_example_def sread_def pInputBuffer_def iprx_reset_def sfull_def)
  moreover have "length (items (irx_siETH_Data ?s)) = 8" by (simp add: frame_example_def)
  ultimately show ?thesis
    using iprx_stays_typed [OF iprx_pass, of "0x0200000000B2" "0x0A0C0832" False "Stream 64 frame_example"] by auto
qed

end
