(* ===== verification/Ip_Path.thy ===== *)
theory Ip_Path
  imports Ip_Wire
begin

text \<open>
  A TCP segment on its way through the whole stack: from the transmit engine of one node (\<open>Tx_Packet\<close>)
  through its IPv4 transmitter (\<open>Ip_Frame\<close>), the line, and the receiver of the other node (\<open>Ip_Wire\<close>) to
  the receive engine there (\<open>Rx_Accept\<close>).
\<close>

section \<open>The packet of the transmit engine\<close>

lemma wire_fields:
  fixes p x
  assumes "tx_fits m bs"
  defines "pkt \<equiv> wire_packet p m bs x"
  shows "ip_words pkt = 5" "pkt ! 0 = 0x45" "pkt ! 8 = 64" "pkt ! 9 = 6" "u16 pkt 2 = 40 + txm_length m"
    "\<not> ip_fragment pkt" "u32 pkt 16 = sa_addr (sp_dst p)"
proof -
  let ?seg = "txe_segment p m (txe_checksum_of p m bs) bs"
  have eq: "pkt = [0x45, 0] @ be16 (40 + txm_length m) @ [0, 0, 0, 0, 0x40, 6, be16 x ! 0, be16 x ! 1] @
      be32 (sa_addr (sp_src p)) @ be32 (sa_addr (sp_dst p)) @ ?seg"
    by (simp add: pkt_def wire_packet_def txe_packet_def ip_header_def be16_def be32_def)
  show "pkt ! 0 = 0x45" "pkt ! 8 = 64" "pkt ! 9 = 6" by (simp_all add: eq be16_def)
  then show "ip_words pkt = 5" by (simp add: ip_words_def)
  show "u16 pkt 2 = 40 + txm_length m"
    using be_u16 [of "40 + txm_length m"] by (simp add: eq u16_def nth_append eval_nat_numeral)
  have "u16 pkt 6 = 0" by (simp add: eq u16_def be16_def word_cat_eq)
  then show "\<not> ip_fragment pkt" by (simp add: ip_fragment_def)
  have "pkt ! 16 = be32 (sa_addr (sp_dst p)) ! 0" "pkt ! 17 = be32 (sa_addr (sp_dst p)) ! 1"
    "pkt ! 18 = be32 (sa_addr (sp_dst p)) ! 2" "pkt ! 19 = be32 (sa_addr (sp_dst p)) ! 3"
    by (simp_all add: eq be16_def be32_def)
  then show "u32 pkt 16 = sa_addr (sp_dst p)"
    using be_u32 [of "sa_addr (sp_dst p)"] by (simp add: u32_def u16_def)
qed

text \<open>The IPv4 transmitter reads the same header length as the receiver.\<close>

lemma ip_hdr_words_bytes:
  assumes "payload_ok cs" "8 < length (bytes_of cs)"
  shows "ip_hdr_words cs = ip_words (bytes_of cs)"
  using hd_bytes [OF assms, of 0] by (simp add: ip_hdr_words_def ip_words_def get_nibbles)

section \<open>From engine to engine\<close>

lemma tcp_path:
  fixes s :: "'a IPTX_scheme" and r :: "'b IPRX_scheme" and e :: "'c RXf_scheme"
  assumes "iptx_ready s" "items (itx_siL3MUX_Data s) = cs @ rest" "payload_ok cs" "bytes_of cs = txe_packet p m bs"
    and "tx_fits m bs" "unat (txm_length m) \<le> 32728" "iptx_room s (length cs)" "lkp_hit a"
    and "iprx_ready r" "iprx_room r (length cs + 2)" "rxf_ready e" "rxf_room e (40 + unat (txm_length m))"
  shows "\<exists>n1 n2 n3 n4 us. let u = (pMacAddressInserter mac junk ^^ n4) (arp_replies a (iptx_front subnet gateway n1 n2 n3 s)) in
    items (itx_soL2MUX_Data u) = items (itx_soL2MUX_Data s) @ us \<and>
    (\<exists>t ws. iprx_runs (lkp_macAddress a) (sa_addr (sp_dst p)) junk' (r\<lparr>irx_siETH_Data := Stream d us\<rparr>) t \<and>
      ipr_obs t = ip_deliver False 6 ws (ipr_obs r) \<and>
      (\<exists>k1 k2 k3. rxf_result (e\<lparr>rxf_siIPRX_Data := Stream d' ws\<rparr>)
        (rxf_stages junk'' k1 k2 k3 (e\<lparr>rxf_siIPRX_Data := Stream d' ws\<rparr>)) True (rx_meta_of m bs) p bs))"
proof -
  let ?x = "ip_checksum_of cs" and ?n = "unat (txm_length m)"
  let ?pkt = "wire_packet p m bs ?x"
  have wire: "with_checksum ?x (bytes_of cs) = ?pkt" by (simp add: assms(4) with_checksum_def wire_packet_def)
  note f = wire_fields [OF assms(5), of p ?x] and len = wire_packet_reads(4) [OF assms(5), of p ?x]
  have lens: "length (bytes_of cs) = 40 + ?n" using len unfolding wire [symmetric] by (simp add: with_checksum_def)
  have words: "ip_hdr_words cs = 5"
  proof -
    have "bytes_of cs ! 0 = ?pkt ! 0" unfolding wire [symmetric] by (simp add: with_checksum_def)
    then have "ip_words (bytes_of cs) = 5" using f(1) by (simp add: ip_words_def)
    with ip_hdr_words_bytes [OF assms(3)] lens show ?thesis by simp
  qed
  then have ip: "ip4_packet cs" "24 < length (bytes_of cs)" using assms(3) lens by (simp_all add: ip4_packet_def)
  from iptx_run [OF assms(1,2) ip assms(7), where subnet = subnet and gateway = gateway and mac = mac and junk = junk and r = a]
  obtain n1 n2 n3 n4 us where u: "items (itx_soL2MUX_Data ((pMacAddressInserter mac junk ^^ n4)
      (arp_replies a (iptx_front subnet gateway n1 n2 n3 s)))) = items (itx_soL2MUX_Data s) @ us"
    "payload_ok us" "bytes_of us = ethernet_header (lkp_macAddress a) mac @ ?pkt"
    using assms(8) unfolding wire by (auto simp: Let_def)
  let ?r = "r\<lparr>irx_siETH_Data := Stream d us\<rparr>" and ?mac = "lkp_macAddress a" and ?ip = "sa_addr (sp_dst p)"
  have eth: "length (ethernet_header (lkp_macAddress a) mac) = 14" by (simp add: ethernet_header_def be48_def be16_def)
  have pkt: "?pkt = drop 14 (bytes_of us)" by (simp add: u(3) eth)
  have ok: "frame_ok us" using u(2) by (simp add: frame_ok_def u(3) eth len)
  have "length us \<le> length cs + 2"
    using payload_chunks [OF u(2)] payload_chunks [OF assms(3)] by (simp add: u(3) eth len lens)
  then have ready: "iprx_ready ?r" "items (irx_siETH_Data ?r) = us @ []" "iprx_room ?r (length us)"
    using assms(9,10) by (simp_all add: iprx_ready_def ica_ready_def iprx_room_def ipr_space_def)
  have kind: "frame_kind ?mac (bytes_of us) = 0x0800"
    by (simp add: u(3) frame_kind_def frame_for_def ethernet_header_def u16_def be48_def be16_def nth_append word_cat_eq)
  have total: "unat (u16 ?pkt 2) = 40 + ?n" using assms(6) unfolding f(5) by (simp add: unat_word_ariths)
  have "u16 ?pkt 2 \<le> 32768" using assms(6) total by (simp add: word_le_nat_alt)
  moreover have "inet_checksum (take 20 ?pkt) = 0" using ip_header_verifies [OF ip(1)] unfolding words wire by simp
  then have "ip_accepted ?ip ?pkt" using f by (simp add: ip_accepted_def ip_valid_def ica_span_def drop_bit_eq_div)
  ultimately have acc: "frame_accepted ?mac ?ip (bytes_of us)"
    unfolding frame_accepted_def kind pkt [symmetric] by simp
  have sized: "ip_sized ?pkt" using f(1) by (simp add: ip_sized_def total len)
  have "ipr_obs ?r = ipr_obs r" by (simp add: ipr_obs_def)
  with iprx_run [OF ready(1,2) ok ready(3) pkt, of ?mac ?ip junk'] acc sized f(3,4)
  obtain t ws where t: "iprx_runs ?mac ?ip junk' ?r t" "payload_ok ws" "bytes_of ws = take (40 + ?n) ?pkt"
    "ipr_obs t = ip_deliver False 6 ws (ipr_obs r)"
    by (auto simp: total)
  let ?e = "e\<lparr>rxf_siIPRX_Data := Stream d' ws\<rparr>"
  have e: "rxf_ready ?e" "items (rxf_siIPRX_Data ?e) = ws @ []" "rxf_room ?e (40 + ?n)"
    using assms(11,12) by (simp_all add: rxf_ready_def tle_idle_def iph_idle_def csa_idle_def rxf_room_def)
  have "bytes_of ws = ?pkt" using t(3) len by simp
  from rxe_reads_wire [OF e(1,2) t(2) this assms(5) e(3), of junk''] obtain k1 k2 k3 where
    "rxf_result ?e (rxf_stages junk'' k1 k2 k3 ?e) True (rx_meta_of m bs) p bs" by blast
  with u(1) t(1,4) show ?thesis unfolding Let_def by blast
qed

text \<open>C9. A segment crosses the network.  The packet that the transmit engine of one node makes of the metadata
  \<open>m\<close>, the socket pair \<open>p\<close> and the payload \<open>bs\<close> (a total length of at most 32768) goes into its IPv4
  transmitter, whose ARP server answers with the MAC address of the other node; the chunks that come out
  go into the receiver of that node, which owns the destination address; and what its TCP port sends
  goes into the receive engine.  There are runs in which the receiver gives the packet to the TCP
  engine and to no other port, and the engine finds the checksum right and reads the numbers, the
  window, the control bits, the socket pair and the payload that were sent.\<close>

theorem tcp_segment_crosses:
  fixes s :: "'a IPTX_scheme" and r :: "'b IPRX_scheme" and e :: "'c RXf_scheme"
  assumes "iptx_ready s" "items (itx_siL3MUX_Data s) = cs @ rest" "payload_ok cs" "bytes_of cs = txe_packet p m bs"
    and "tx_fits m bs" "unat (txm_length m) \<le> 32728" "iptx_room s (length cs)" "lkp_hit a"
    and "iprx_ready r" "iprx_room r (length cs + 2)" "rxf_ready e" "rxf_room e (40 + unat (txm_length m))"
  shows "\<exists>n1 n2 n3 n4 us. let u = (pMacAddressInserter mac junk ^^ n4) (arp_replies a (iptx_front subnet gateway n1 n2 n3 s)) in
    items (itx_soL2MUX_Data u) = items (itx_soL2MUX_Data s) @ us \<and>
    (\<exists>t ws. iprx_runs (lkp_macAddress a) (sa_addr (sp_dst p)) junk' (r\<lparr>irx_siETH_Data := Stream d us\<rparr>) t \<and>
      ipr_obs t = ip_deliver False 6 ws (ipr_obs r) \<and>
      (\<exists>k1 k2 k3. rxf_result (e\<lparr>rxf_siIPRX_Data := Stream d' ws\<rparr>)
        (rxf_stages junk'' k1 k2 k3 (e\<lparr>rxf_siIPRX_Data := Stream d' ws\<rparr>)) True (rx_meta_of m bs) p bs))"
  using assms by (rule tcp_path)

theorem tcp_segment_crosses_witness:
  "\<exists>n1 n2 n3 n4 us t ws k1 k2 k3. let u = (pMacAddressInserter 0x0200000000A1 AxisApp_zero ^^ n4)
       (arp_replies \<lparr>lkp_macAddress = 0x0200000000B2, lkp_hit = True\<rparr> (iptx_front 0xFFFF0000 0x0A0C0001 n1 n2 n3 iptx_example)) in
     items (itx_soL2MUX_Data u) = us \<and>
     iprx_runs 0x0200000000B2 (sa_addr (sp_dst packet_pair)) False (iprx_example us) t \<and> items (irx_soTOE_Data t) = ws \<and>
     items (ssCsaToMdh_Meta (rxf_stages AxisApp_zero k1 k2 k3 (rxf_example ws))) = [rx_meta_of packet_meta [1, 2, 3]]"
proof -
  let ?cs = "packet_chunks 0x030201" and ?a = "\<lparr>lkp_macAddress = 0x0200000000B2, lkp_hit = True\<rparr>"
  have bytes: "bytes_of ?cs = txe_packet packet_pair packet_meta [1, 2, 3]"
    by (simp add: packet_chunks_ok packet_bytes nth_byte_def)
  have fits: "tx_fits packet_meta [1, 2, 3]" by (simp add: tx_fits_def packet_meta_def tcp_options_def)
  have len: "unat (txm_length packet_meta) \<le> 32728" "40 + unat (txm_length packet_meta) = 43" by (simp_all add: packet_meta_def)
  have room: "iprx_room (iprx_example []) (length ?cs + 2)"
    by (simp add: packet_chunks_ip iprx_example_def iprx_reset_def iprx_room_def sroom_def ipr_space_def)
  have e: "rxf_room (rxf_example []) (40 + unat (txm_length packet_meta))" unfolding len(2) by (rule rxf_example_ready(3))
  have hit: "lkp_hit ?a" by simp
  have put: "(iprx_example [])\<lparr>irx_siETH_Data := Stream 64 us\<rparr> = iprx_example us"
    "(rxf_example [])\<lparr>rxf_siIPRX_Data := Stream 64 ws\<rparr> = rxf_example ws" for us ws
    by (simp_all add: iprx_example_def rxf_example_defs)
  have none: "items (itx_soL2MUX_Data iptx_example) = []" by (simp add: iptx_example_def iptx_reset_def)
  from tcp_segment_crosses [OF iptx_example_ok(1,2) packet_chunks_ok(1) bytes fits len(1) iptx_example_ok(5) hit
      iprx_example_ok(1) room rxf_example_ready(1) e, where mac = "0x0200000000A1" and junk = AxisApp_zero and junk' = False
      and junk'' = AxisApp_zero and subnet = "0xFFFF0000" and gateway = "0x0A0C0001" and d = 64 and d' = 64,
      unfolded put none iprx_example_ok(4)]
  obtain n1 n2 n3 n4 us t ws k1 k2 k3 where
    "items (itx_soL2MUX_Data ((pMacAddressInserter 0x0200000000A1 AxisApp_zero ^^ n4)
       (arp_replies ?a (iptx_front 0xFFFF0000 0x0A0C0001 n1 n2 n3 iptx_example)))) = us"
    "iprx_runs 0x0200000000B2 (sa_addr (sp_dst packet_pair)) False (iprx_example us) t"
    "ipr_obs t = ip_deliver False 6 ws ([], [], [], [])"
    "rxf_result (rxf_example ws) (rxf_stages AxisApp_zero k1 k2 k3 (rxf_example ws)) True
       (rx_meta_of packet_meta [1, 2, 3]) packet_pair [1, 2, 3]"
    by (auto simp: Let_def)
  moreover from this(3) have "items (irx_soTOE_Data t) = ws" by (simp add: ipr_obs_def ip_deliver_def)
  moreover from calculation(4) have
    "items (ssCsaToMdh_Meta (rxf_stages AxisApp_zero k1 k2 k3 (rxf_example ws))) = [rx_meta_of packet_meta [1, 2, 3]]"
    by (simp add: rxf_result_def rxf_example_defs)
  ultimately show ?thesis unfolding Let_def by blast
qed

section \<open>From the metadata of one engine to that of the other\<close>

lemma tcp_path_from_engine:
  fixes x :: "'t TXe_scheme" and s :: "'a IPTX_scheme" and r :: "'b IPRX_scheme" and e :: "'c RXf_scheme"
  assumes "txe_ready x p m bs" "length (items (txe_soIPTX_Data x)) + 6 + length bs \<le> depth (txe_soIPTX_Data x)"
    and "tx_fits m bs" "unat (txm_length m) \<le> 32728" "n = (47 + unat (txm_length m)) div 8"
    and "iptx_ready s" "iptx_room s n" "lkp_hit a"
    and "iprx_ready r" "iprx_room r (n + 2)" "rxf_ready e" "rxf_room e (40 + unat (txm_length m))"
  shows "\<exists>k1 k2 k3 k4 cs n1 n2 n3 n4 us t ws l1 l2 l3.
    items (txe_soIPTX_Data (txe_stages junk0 k1 k2 k3 k4 x)) = items (txe_soIPTX_Data x) @ cs \<and>
    items (itx_soL2MUX_Data ((pMacAddressInserter mac junk ^^ n4)
      (arp_replies a (iptx_front subnet gateway n1 n2 n3 (s\<lparr>itx_siL3MUX_Data := Stream d0 cs\<rparr>))))) =
      items (itx_soL2MUX_Data s) @ us \<and>
    iprx_runs (lkp_macAddress a) (sa_addr (sp_dst p)) junk' (r\<lparr>irx_siETH_Data := Stream d us\<rparr>) t \<and>
    ipr_obs t = ip_deliver False 6 ws (ipr_obs r) \<and>
    rxf_result (e\<lparr>rxf_siIPRX_Data := Stream d' ws\<rparr>)
      (rxf_stages junk'' l1 l2 l3 (e\<lparr>rxf_siIPRX_Data := Stream d' ws\<rparr>)) True (rx_meta_of m bs) p bs"
proof -
  from txe_packet_sent [OF assms(1,2), of junk0] obtain k1 k2 k3 k4 cs where
    tx: "items (txe_soIPTX_Data (txe_stages junk0 k1 k2 k3 k4 x)) = items (txe_soIPTX_Data x) @ cs"
    "payload_ok cs" "bytes_of cs = txe_packet p m bs" by blast
  let ?s = "s\<lparr>itx_siL3MUX_Data := Stream d0 cs\<rparr>"
  have "length (txe_packet p m bs) = 40 + unat (txm_length m)"
    using wire_packet_reads(4) [OF assms(3), of p 0] by (simp add: wire_packet_def)
  then have "8 * length cs < 48 + unat (txm_length m) \<and> 40 + unat (txm_length m) \<le> 8 * length cs"
    using payload_chunks [OF tx(2)] tx(3) by simp
  then have n: "length cs = n" unfolding assms(5) by arith
  have s: "iptx_ready ?s" "items (itx_siL3MUX_Data ?s) = cs @ []" "iptx_room ?s (length cs)"
    "itx_soL2MUX_Data ?s = itx_soL2MUX_Data s"
    using assms(6,7) unfolding n by (simp_all add: iptx_ready_def hca_idle_def iptx_room_def)
  have r: "iprx_room r (length cs + 2)" using assms(10) unfolding n .
  from tcp_path [OF s(1,2) tx(2,3) assms(3,4) s(3) assms(8,9) r assms(11,12), where mac = mac and junk = junk
      and junk' = junk' and junk'' = junk'' and subnet = subnet and gateway = gateway and d = d and d' = d']
  show ?thesis unfolding Let_def s(4) using tx(1) by blast
qed

text \<open>C5. What the Tx engine of one node makes of a segment, the Rx engine of the other reads.  Every process on
  the way runs: the transmit engine, which has the metadata \<open>m\<close>, the socket pair \<open>p\<close> and the payload
  \<open>bs\<close> of a segment (in memory accesses as in C6), makes chunks of them; the IPv4 transmitter frames these
  chunks; the receiver of the other node, which has the MAC and IP address, gives the packet to its TCP
  port and to no other; and the front of the receive engine finds the checksum right and
  gives the metadata handler, the port table and the dropper the numbers, the window, the control
  bits, the socket pair and the payload that were sent.  (All are idle before, and their streams have room
  for the packet of at most 32768 bytes.)\<close>

theorem txe_segment_reaches_rxe:
  fixes x :: "'t TXe_scheme" and s :: "'a IPTX_scheme" and r :: "'b IPRX_scheme" and e :: "'c RXf_scheme"
  assumes "txe_ready x p m bs" "length (items (txe_soIPTX_Data x)) + 6 + length bs \<le> depth (txe_soIPTX_Data x)"
    and "tx_fits m bs" "unat (txm_length m) \<le> 32728" "n = (47 + unat (txm_length m)) div 8"
    and "iptx_ready s" "iptx_room s n" "lkp_hit a"
    and "iprx_ready r" "iprx_room r (n + 2)" "rxf_ready e" "rxf_room e (40 + unat (txm_length m))"
  shows "\<exists>k1 k2 k3 k4 cs n1 n2 n3 n4 us t ws l1 l2 l3.
    items (txe_soIPTX_Data (txe_stages junk0 k1 k2 k3 k4 x)) = items (txe_soIPTX_Data x) @ cs \<and>
    items (itx_soL2MUX_Data ((pMacAddressInserter mac junk ^^ n4)
      (arp_replies a (iptx_front subnet gateway n1 n2 n3 (s\<lparr>itx_siL3MUX_Data := Stream d0 cs\<rparr>))))) =
      items (itx_soL2MUX_Data s) @ us \<and>
    iprx_runs (lkp_macAddress a) (sa_addr (sp_dst p)) junk' (r\<lparr>irx_siETH_Data := Stream d us\<rparr>) t \<and>
    ipr_obs t = ip_deliver False 6 ws (ipr_obs r) \<and>
    rxf_result (e\<lparr>rxf_siIPRX_Data := Stream d' ws\<rparr>)
      (rxf_stages junk'' l1 l2 l3 (e\<lparr>rxf_siIPRX_Data := Stream d' ws\<rparr>)) True (rx_meta_of m bs) p bs"
  using assms by (rule tcp_path_from_engine)

theorem txe_segment_reaches_rxe_witness:
  "\<exists>k1 k2 k3 k4 cs n1 n2 n3 n4 us t ws l1 l2 l3.
     items (txe_soIPTX_Data (txe_stages phc_new k1 k2 k3 k4 packet_state)) = cs \<and>
     items (itx_soL2MUX_Data ((pMacAddressInserter 0x0200000000A1 AxisApp_zero ^^ n4)
       (arp_replies \<lparr>lkp_macAddress = 0x0200000000B2, lkp_hit = True\<rparr> (iptx_front 0xFFFF0000 0x0A0C0001 n1 n2 n3
         (iptx_example\<lparr>itx_siL3MUX_Data := Stream 64 cs\<rparr>))))) = us \<and>
     iprx_runs 0x0200000000B2 (sa_addr (sp_dst packet_pair)) False (iprx_example us) t \<and>
     items (ssCsaToMdh_Meta (rxf_stages AxisApp_zero l1 l2 l3 (rxf_example ws))) = [rx_meta_of packet_meta [1, 2, 3]]"
proof -
  let ?a = "\<lparr>lkp_macAddress = 0x0200000000B2, lkp_hit = True\<rparr> :: ArpLkpReply"
  have len: "unat (txm_length packet_meta) = 3" by (simp add: packet_meta_def)
  have x: "items (txe_soIPTX_Data packet_state) = []" "depth (txe_soIPTX_Data packet_state) = 16"
    by (simp_all add: packet_state_def)
  have fits: "tx_fits packet_meta [1, 2, 3]" by (simp add: tx_fits_def packet_meta_def tcp_options_def)
  have n: "6 = (47 + unat (txm_length packet_meta)) div 8" by (simp add: len)
  have tx: "iptx_room iptx_example 6" using iptx_example_ok(5) unfolding packet_chunks_ip(3) .
  have room: "iprx_room (iprx_example []) (6 + 2)"
    by (simp add: iprx_example_def iprx_reset_def iprx_room_def sroom_def ipr_space_def)
  have e: "rxf_room (rxf_example []) (40 + unat (txm_length packet_meta))"
    using rxf_example_ready(3) by (simp add: len)
  have put: "(iprx_example [])\<lparr>irx_siETH_Data := Stream 64 us\<rparr> = iprx_example us"
    "(rxf_example [])\<lparr>rxf_siIPRX_Data := Stream 64 ws\<rparr> = rxf_example ws" for us ws
    by (simp_all add: iprx_example_def rxf_example_defs)
  have none: "items (itx_soL2MUX_Data iptx_example) = []" by (simp add: iptx_example_def iptx_reset_def)
  have space: "length (items (txe_soIPTX_Data packet_state)) + 6 + length [1, 2, 3 :: 8 word] \<le>
      depth (txe_soIPTX_Data packet_state)"
    by (simp add: x)
  have small: "unat (txm_length packet_meta) \<le> 32728" by (simp add: len)
  have hit: "lkp_hit ?a" by simp
  from txe_segment_reaches_rxe [OF packet_ready space fits small n iptx_example_ok(1) tx hit iprx_example_ok(1) room
      rxf_example_ready(1) e, where mac = "0x0200000000A1" and junk = AxisApp_zero and junk' = False
      and junk'' = AxisApp_zero and ?junk0.0 = phc_new and subnet = "0xFFFF0000" and gateway = "0x0A0C0001"
      and d = 64 and d' = 64 and ?d0.0 = 64, unfolded put none x(1) append_Nil]
  obtain k1 k2 k3 k4 cs n1 n2 n3 n4 us t ws l1 l2 l3 where run:
    "items (txe_soIPTX_Data (txe_stages phc_new k1 k2 k3 k4 packet_state)) = cs"
    "items (itx_soL2MUX_Data ((pMacAddressInserter 0x0200000000A1 AxisApp_zero ^^ n4)
       (arp_replies ?a (iptx_front 0xFFFF0000 0x0A0C0001 n1 n2 n3 (iptx_example\<lparr>itx_siL3MUX_Data := Stream 64 cs\<rparr>))))) = us"
    "iprx_runs 0x0200000000B2 (sa_addr (sp_dst packet_pair)) False (iprx_example us) t"
    "rxf_result (rxf_example ws) (rxf_stages AxisApp_zero l1 l2 l3 (rxf_example ws)) True
       (rx_meta_of packet_meta [1, 2, 3]) packet_pair [1, 2, 3]"
    unfolding ArpLkpReply.simps by blast
  from run(4) have
    "items (ssCsaToMdh_Meta (rxf_stages AxisApp_zero l1 l2 l3 (rxf_example ws))) = [rx_meta_of packet_meta [1, 2, 3]]"
    by (simp add: rxf_result_def rxf_example_defs)
  with run(1-3) show ?thesis by blast
qed

end
