(* ===== verification/Arp.thy ===== *)
theory Arp
  imports Ip_Frame
begin

text \<open>
  The ARP server, \<open>NTS/arp/src/arp.cpp\<close>: the receiver (APr) reads the ARP packets that the IPv4 receiver
  forwards, the sender (APs) builds requests and replies, and the controller (ACc) serves the lookups of
  the IPv4 transmitter and the updates with a content addressable memory, which is a core in hardware
  description language: its requests and replies are streams of the state.
\<close>

section \<open>The ARP fields of a frame\<close>

text \<open>Of \<open>NTS/AxisEth.hpp\<close>.\<close>

definition getEthSrcAddrHi :: "AxisEth \<Rightarrow> 16 word" where "getEthSrcAddrHi = get16 48"
definition getEthSrcAddrLo :: "AxisEth \<Rightarrow> 32 word" where "getEthSrcAddrLo = get32 0"
definition setEthertType :: "16 word \<Rightarrow> AxisEth \<Rightarrow> AxisEth" where "setEthertType v = set16 32 v"
definition setArpHwType :: "16 word \<Rightarrow> AxisEth \<Rightarrow> AxisEth" where "setArpHwType v = set16 48 v"
definition getArpHwType :: "AxisEth \<Rightarrow> 16 word" where "getArpHwType = get16 48"
definition setArpProtType :: "16 word \<Rightarrow> AxisEth \<Rightarrow> AxisEth" where "setArpProtType v = set16 0 v"
definition getArpProtType :: "AxisEth \<Rightarrow> 16 word" where "getArpProtType = get16 0"
definition setArpHwLen :: "8 word \<Rightarrow> AxisEth \<Rightarrow> AxisEth" where "setArpHwLen v = set8 16 v"
definition getArpHwLen :: "AxisEth \<Rightarrow> 8 word" where "getArpHwLen c = ucast (get_range 23 16 (ax_tdata c))"
definition setArpProtLen :: "8 word \<Rightarrow> AxisEth \<Rightarrow> AxisEth" where "setArpProtLen v = set8 24 v"
definition getArpProtLen :: "AxisEth \<Rightarrow> 8 word" where "getArpProtLen c = ucast (get_range 31 24 (ax_tdata c))"
definition setArpOper :: "16 word \<Rightarrow> AxisEth \<Rightarrow> AxisEth" where "setArpOper v = set16 32 v"
definition getArpOper :: "AxisEth \<Rightarrow> 16 word" where "getArpOper = get16 32"
definition setArpShaHi :: "EthAddr \<Rightarrow> AxisEth \<Rightarrow> AxisEth" where
  "setArpShaHi a = set_bits 63 48 (ucast (get_range 15 0 (swapMacAddr a)))"
definition getArpShaHi :: "AxisEth \<Rightarrow> 16 word" where "getArpShaHi = get16 48"
definition setArpShaLo :: "EthAddr \<Rightarrow> AxisEth \<Rightarrow> AxisEth" where
  "setArpShaLo a = set_bits 31 0 (ucast (get_range 47 16 (swapMacAddr a)))"
definition getArpShaLo :: "AxisEth \<Rightarrow> 32 word" where "getArpShaLo = get32 0"
definition setArpSpa :: "Ip4Addr \<Rightarrow> AxisEth \<Rightarrow> AxisEth" where "setArpSpa v = set32 32 v"
definition getArpSpa :: "AxisEth \<Rightarrow> Ip4Addr" where "getArpSpa = get32 32"
definition setArpTha :: "EthAddr \<Rightarrow> AxisEth \<Rightarrow> AxisEth" where "setArpTha a = set_bits 47 0 (ucast (swapMacAddr a))"
definition setArpTpaHi :: "Ip4Addr \<Rightarrow> AxisEth \<Rightarrow> AxisEth" where
  "setArpTpaHi a = set_bits 63 48 (ucast (get_range 15 0 (byteSwap32 a)))"
definition getArpTpaHi :: "AxisEth \<Rightarrow> 16 word" where "getArpTpaHi = get16 48"
definition setArpTpaLo :: "Ip4Addr \<Rightarrow> AxisEth \<Rightarrow> AxisEth" where
  "setArpTpaLo a = set_bits 15 0 (ucast (get_range 31 16 (byteSwap32 a)))"
definition getArpTpaLo :: "AxisEth \<Rightarrow> 16 word" where "getArpTpaLo = get16 0"

section \<open>State\<close>

record ArpMeta =
  am_remoteMacAddr :: EthAddr
  am_etherType :: "16 word"
  am_arpHwType :: "16 word"
  am_arpProtType :: "16 word"
  am_arpHwLen :: "8 word"
  am_arpProtLen :: "8 word"
  am_arpSendHwAddr :: EthAddr
  am_arpSendProtAddr :: Ip4Addr

record ArpBindPair =
  abp_macAddr :: EthAddr
  abp_ip4Addr :: Ip4Addr

datatype ArpLkpOp = ARP_INSERT | ARP_DELETE

record RtlMacUpdateRequest =
  mur_value :: EthAddr
  mur_key :: Ip4Addr
  mur_opcode :: ArpLkpOp

record RtlMacUpdateReply =
  mup_value :: EthAddr
  mup_opcode :: ArpLkpOp

record RtlMacLookupRequest =
  mlr_key :: Ip4Addr

record RtlMacLookupReply =
  mlp_value :: EthAddr
  mlp_hit :: bool

datatype ApsState = APR_IDLE | APR_REPLY | APR_SENTRQ
datatype AccState = ACC_IDLE | ACC_UPDATE | ACC_LOOKUP

record ARP =
  arp_siIPRX_Data :: "AxisEth stream"
  arp_soETH_Data :: "AxisEth stream"
  arp_siIPTX_MacLkpReq :: "Ip4Addr stream"
  arp_soIPTX_MacLkpRep :: "ArpLkpReply stream"
  arp_soCAM_MacLkpReq :: "RtlMacLookupRequest stream"
  arp_siCAM_MacLkpRep :: "RtlMacLookupReply stream"
  arp_soCAM_MacUpdReq :: "RtlMacUpdateRequest stream"
  arp_siCAM_MacUpdRep :: "RtlMacUpdateReply stream"
  ssAPrToAPs_Meta :: "ArpMeta stream"
  ssAPrToACc_UpdateReq :: "ArpBindPair stream"
  ssACcToAPs_Meta :: "Ip4Addr stream"
  apr_chunkCount :: "8 word"
  apr_meta :: ArpMeta
  apr_opCode :: "16 word"
  apr_targProtAddr :: Ip4Addr
  aps_fsmState :: ApsState
  aps_sendCount :: "8 word"
  aps_aprMeta :: ArpMeta
  aps_tpaReq :: Ip4Addr
  acc_fsmState :: AccState
  acc_ipLkpKey :: Ip4Addr

section \<open>The packet receiver\<close>

definition apr_chunk :: "AxisEth \<Rightarrow> 'a ARP_scheme \<Rightarrow> 'a ARP_scheme" where
  "apr_chunk c s =
     (let m = apr_meta s in
      if apr_chunkCount s = 0 then
        s\<lparr>apr_meta := m\<lparr>am_remoteMacAddr := set_range 47 32 (ucast (getEthSrcAddrHi c)) (am_remoteMacAddr m)\<rparr>\<rparr>
      else if apr_chunkCount s = 1 then
        s\<lparr>apr_meta := m\<lparr>am_remoteMacAddr := set_range 31 0 (ucast (getEthSrcAddrLo c)) (am_remoteMacAddr m),
            am_etherType := getEtherType c, am_arpHwType := getArpHwType c\<rparr>\<rparr>
      else if apr_chunkCount s = 2 then
        s\<lparr>apr_meta := m\<lparr>am_arpProtType := getArpProtType c, am_arpHwLen := getArpHwLen c, am_arpProtLen := getArpProtLen c,
            am_arpSendHwAddr := set_range 47 32 (ucast (getArpShaHi c)) (am_arpSendHwAddr m)\<rparr>,
          apr_opCode := getArpOper c\<rparr>
      else if apr_chunkCount s = 3 then
        s\<lparr>apr_meta := m\<lparr>am_arpSendHwAddr := set_range 31 0 (ucast (getArpShaLo c)) (am_arpSendHwAddr m),
            am_arpSendProtAddr := getArpSpa c\<rparr>\<rparr>
      else if apr_chunkCount s = 4 then
        s\<lparr>apr_targProtAddr := set_range 31 16 (ucast (getArpTpaHi c)) (apr_targProtAddr s)\<rparr>
      else if apr_chunkCount s = 5 then
        s\<lparr>apr_targProtAddr := set_range 15 0 (ucast (getArpTpaLo c)) (apr_targProtAddr s)\<rparr>
      else s)"

definition apr_finish :: "Ip4Addr \<Rightarrow> 'a ARP_scheme \<Rightarrow> 'a ARP_scheme" where
  "apr_finish ownIp s =
     (let s = (if apr_opCode s = 0x0001 \<and> apr_targProtAddr s = ownIp
               then s\<lparr>ssAPrToAPs_Meta := swrite (ssAPrToAPs_Meta s) (apr_meta s)\<rparr> else s)
      in s\<lparr>ssAPrToACc_UpdateReq := swrite (ssAPrToACc_UpdateReq s)
             \<lparr>abp_macAddr = am_arpSendHwAddr (apr_meta s), abp_ip4Addr = am_arpSendProtAddr (apr_meta s)\<rparr>,
           apr_chunkCount := 0\<rparr>)"

definition pArpPacketReceiver :: "Ip4Addr \<Rightarrow> 'a ARP_scheme \<Rightarrow> 'a ARP_scheme" where
  "pArpPacketReceiver ownIp s =
     (case sread (arp_siIPRX_Data s) of
        None \<Rightarrow> s
      | Some (c, si) \<Rightarrow>
          (let s = apr_chunk c (s\<lparr>arp_siIPRX_Data := si\<rparr>) in
           if ax_tlast c then apr_finish ownIp s else s\<lparr>apr_chunkCount := apr_chunkCount s + 1\<rparr>))"

section \<open>The packet sender\<close>

definition aps_zero :: AxisEth where
  "aps_zero = \<lparr>ax_tdata = 0, ax_tkeep = 0xFF, ax_tlast = False\<rparr>"

definition aps_end :: "AxisEth \<Rightarrow> AxisEth" where
  "aps_end c = c\<lparr>ax_tkeep := 0x03, ax_tlast := True\<rparr>"

definition aps_request :: "EthAddr \<Rightarrow> Ip4Addr \<Rightarrow> Ip4Addr \<Rightarrow> 8 word \<Rightarrow> AxisEth" where
  "aps_request mac ownIp tpa n =
     (if n = 0 then setEthSrcAddrHi mac (setEthDstAddr 0xFFFFFFFFFFFF aps_zero)
      else if n = 1 then setArpHwType 0x0001 (setEthertType 0x0806 (setEthSrcAddrLo mac aps_zero))
      else if n = 2 then
        setArpShaHi mac (setArpOper 0x0001 (setArpProtLen 4 (setArpHwLen 6 (setArpProtType 0x0800 aps_zero))))
      else if n = 3 then setArpSpa ownIp (setArpShaLo mac aps_zero)
      else if n = 4 then setArpTpaHi tpa aps_zero
      else if n = 5 then aps_end (setArpTpaLo tpa aps_zero)
      else aps_zero)"

definition aps_reply :: "EthAddr \<Rightarrow> Ip4Addr \<Rightarrow> ArpMeta \<Rightarrow> 8 word \<Rightarrow> AxisEth" where
  "aps_reply mac ownIp m n =
     (if n = 0 then setEthSrcAddrHi mac (setEthDstAddr (am_remoteMacAddr m) aps_zero)
      else if n = 1 then setArpHwType (am_arpHwType m) (setEthertType (am_etherType m) (setEthSrcAddrLo mac aps_zero))
      else if n = 2 then
        setArpShaHi mac (setArpOper 0x0002 (setArpProtLen (am_arpProtLen m) (setArpHwLen (am_arpHwLen m)
          (setArpProtType (am_arpProtType m) aps_zero))))
      else if n = 3 then setArpSpa ownIp (setArpShaLo mac aps_zero)
      else if n = 4 then setArpTpaHi (am_arpSendProtAddr m) (setArpTha (am_arpSendHwAddr m) aps_zero)
      else if n = 5 then aps_end (setArpTpaLo (am_arpSendProtAddr m) aps_zero)
      else aps_zero)"

definition aps_send :: "AxisEth \<Rightarrow> 'a ARP_scheme \<Rightarrow> 'a ARP_scheme" where
  "aps_send c s = s\<lparr>aps_fsmState := (if aps_sendCount s = 5 then APR_IDLE else aps_fsmState s),
     arp_soETH_Data := swrite (arp_soETH_Data s) c, aps_sendCount := aps_sendCount s + 1\<rparr>"

definition pArpPacketSender :: "EthAddr \<Rightarrow> Ip4Addr \<Rightarrow> 'a ARP_scheme \<Rightarrow> 'a ARP_scheme" where
  "pArpPacketSender mac ownIp s = (case aps_fsmState s of
     APR_IDLE \<Rightarrow>
       (let s = s\<lparr>aps_sendCount := 0\<rparr> in
        case sread (ssAPrToAPs_Meta s) of
          Some (m, si) \<Rightarrow> s\<lparr>ssAPrToAPs_Meta := si, aps_aprMeta := m, aps_fsmState := APR_REPLY\<rparr>
        | None \<Rightarrow>
            (case sread (ssACcToAPs_Meta s) of
               Some (ip, si) \<Rightarrow> s\<lparr>ssACcToAPs_Meta := si, aps_tpaReq := ip, aps_fsmState := APR_SENTRQ\<rparr>
             | None \<Rightarrow> s))
   | APR_SENTRQ \<Rightarrow> aps_send (aps_request mac ownIp (aps_tpaReq s) (aps_sendCount s)) s
   | APR_REPLY \<Rightarrow> aps_send (aps_reply mac ownIp (aps_aprMeta s) (aps_sendCount s)) s)"

section \<open>The controller of the memory\<close>

definition pArpCamController :: "'a ARP_scheme \<Rightarrow> 'a ARP_scheme" where
  "pArpCamController s = (case acc_fsmState s of
     ACC_IDLE \<Rightarrow>
       (case sread (arp_siIPTX_MacLkpReq s) of
          Some (ip, si) \<Rightarrow>
            (let s = s\<lparr>arp_siIPTX_MacLkpReq := si, acc_ipLkpKey := ip\<rparr> in
             if ip = 0xFFFFFFFF
             then s\<lparr>arp_soIPTX_MacLkpRep := swrite (arp_soIPTX_MacLkpRep s)
                      \<lparr>lkp_macAddress = 0xFFFFFFFFFFFF, lkp_hit = True\<rparr>, acc_fsmState := ACC_IDLE\<rparr>
             else s\<lparr>arp_soCAM_MacLkpReq := swrite (arp_soCAM_MacLkpReq s) \<lparr>mlr_key = ip\<rparr>, acc_fsmState := ACC_LOOKUP\<rparr>)
        | None \<Rightarrow>
            (case sread (ssAPrToACc_UpdateReq s) of
               Some (b, si) \<Rightarrow>
                 s\<lparr>ssAPrToACc_UpdateReq := si,
                   arp_soCAM_MacUpdReq := swrite (arp_soCAM_MacUpdReq s)
                     \<lparr>mur_value = abp_macAddr b, mur_key = abp_ip4Addr b, mur_opcode = ARP_INSERT\<rparr>,
                   acc_fsmState := ACC_UPDATE\<rparr>
             | None \<Rightarrow> s))
   | ACC_UPDATE \<Rightarrow>
       (case sread (arp_siCAM_MacUpdRep s) of
          Some (_, si) \<Rightarrow> s\<lparr>arp_siCAM_MacUpdRep := si, acc_fsmState := ACC_IDLE\<rparr>
        | None \<Rightarrow> s)
   | ACC_LOOKUP \<Rightarrow>
       (case sread (arp_siCAM_MacLkpRep s) of
          Some (r, si) \<Rightarrow>
            (let s = s\<lparr>arp_siCAM_MacLkpRep := si,
                       arp_soIPTX_MacLkpRep := swrite (arp_soIPTX_MacLkpRep s) \<lparr>lkp_macAddress = mlp_value r, lkp_hit = mlp_hit r\<rparr>\<rparr>;
                 s = (if \<not> mlp_hit r then s\<lparr>ssACcToAPs_Meta := swrite (ssACcToAPs_Meta s) (acc_ipLkpKey s)\<rparr> else s)
             in s\<lparr>acc_fsmState := ACC_IDLE\<rparr>)
        | None \<Rightarrow> s))"

text \<open>One activation of the server, the processes in the order of \<open>arp\<close>.\<close>

definition arp :: "EthAddr \<Rightarrow> Ip4Addr \<Rightarrow> 'a ARP_scheme \<Rightarrow> 'a ARP_scheme" where
  "arp mac ownIp s = pArpCamController (pArpPacketSender mac ownIp (pArpPacketReceiver ownIp s))"

definition ArpMeta_zero :: ArpMeta where
  "ArpMeta_zero = \<lparr>am_remoteMacAddr = 0, am_etherType = 0, am_arpHwType = 0, am_arpProtType = 0, am_arpHwLen = 0,
     am_arpProtLen = 0, am_arpSendHwAddr = 0, am_arpSendProtAddr = 0\<rparr>"

definition arp_reset :: ARP where
  "arp_reset = \<lparr>arp_siIPRX_Data = Stream 0 [], arp_soETH_Data = Stream 512 [], arp_siIPTX_MacLkpReq = Stream 0 [],
     arp_soIPTX_MacLkpRep = Stream 16 [], arp_soCAM_MacLkpReq = Stream 16 [], arp_siCAM_MacLkpRep = Stream 0 [],
     arp_soCAM_MacUpdReq = Stream 16 [], arp_siCAM_MacUpdRep = Stream 0 [], ssAPrToAPs_Meta = Stream 4 [],
     ssAPrToACc_UpdateReq = Stream 4 [], ssACcToAPs_Meta = Stream 4 [], apr_chunkCount = 0, apr_meta = ArpMeta_zero,
     apr_opCode = 0, apr_targProtAddr = 0, aps_fsmState = APR_IDLE, aps_sendCount = 0, aps_aprMeta = ArpMeta_zero,
     aps_tpaReq = 0, acc_fsmState = ACC_IDLE, acc_ipLkpKey = 0\<rparr>"

end
