(* ===== verification/Arp_Resolve.thy ===== *)
theory Arp_Resolve
  imports Arp Ip_Receive
begin

text \<open>
  What the ARP server does (\<open>Arp\<close>): the frames that it sends, what it reads from a frame, and how two
  servers resolve an address.
\<close>

section \<open>ARP packets\<close>

text \<open>An ARP packet in its Ethernet frame.\<close>

definition arp_frame :: "EthAddr \<Rightarrow> EthAddr \<Rightarrow> 16 word \<Rightarrow> 16 word \<Rightarrow> 16 word \<Rightarrow> 8 word \<Rightarrow> 8 word \<Rightarrow> 16 word \<Rightarrow> EthAddr \<Rightarrow>
    Ip4Addr \<Rightarrow> EthAddr \<Rightarrow> Ip4Addr \<Rightarrow> 8 word list" where
  "arp_frame dst src ty hw pt hl pl oper sha spa tha tpa =
     be48 dst @ be48 src @ be16 ty @ be16 hw @ be16 pt @ [hl, pl] @ be16 oper @ be48 sha @ be32 spa @ be48 tha @ be32 tpa"

definition u48 :: "8 word list \<Rightarrow> nat \<Rightarrow> EthAddr" where
  "u48 bs i = word_cat (u16 bs i) (u32 bs (i + 2))"

text \<open>The fields of a frame by their place.\<close>

definition arp_meta_of :: "8 word list \<Rightarrow> ArpMeta" where
  "arp_meta_of fb = \<lparr>am_remoteMacAddr = u48 fb 6, am_etherType = u16 fb 12, am_arpHwType = u16 fb 14,
     am_arpProtType = u16 fb 16, am_arpHwLen = fb ! 18, am_arpProtLen = fb ! 19, am_arpSendHwAddr = u48 fb 22,
     am_arpSendProtAddr = u32 fb 28\<rparr>"

definition arp_oper_of :: "8 word list \<Rightarrow> 16 word" where "arp_oper_of fb = u16 fb 20"

definition arp_target_of :: "8 word list \<Rightarrow> Ip4Addr" where "arp_target_of fb = u32 fb 38"

lemma be_u48: "word_cat (word_cat (be48 v ! 0) (be48 v ! 1) :: 16 word)
    (word_cat (word_cat (be48 v ! 2) (be48 v ! 3) :: 16 word) (word_cat (be48 v ! 4) (be48 v ! 5) :: 16 word) :: 32 word) = v"
  by (rule bit_word_eqI) (auto simp: be48_def bit_word_cat_iff bit_ucast_iff bit_drop_bit_eq)

lemma arp_frame_fields:
  fixes dst src ty hw pt hl pl oper sha spa tha tpa
  defines "fb \<equiv> arp_frame dst src ty hw pt hl pl oper sha spa tha tpa"
  shows "arp_meta_of (fb @ pad) = \<lparr>am_remoteMacAddr = src, am_etherType = ty, am_arpHwType = hw, am_arpProtType = pt,
      am_arpHwLen = hl, am_arpProtLen = pl, am_arpSendHwAddr = sha, am_arpSendProtAddr = spa\<rparr>"
    "arp_oper_of (fb @ pad) = oper" "arp_target_of (fb @ pad) = tpa" "length fb = 42"
proof -
  have fb: "fb = [be48 dst ! 0, be48 dst ! 1, be48 dst ! 2, be48 dst ! 3, be48 dst ! 4, be48 dst ! 5,
      be48 src ! 0, be48 src ! 1, be48 src ! 2, be48 src ! 3, be48 src ! 4, be48 src ! 5, be16 ty ! 0, be16 ty ! 1,
      be16 hw ! 0, be16 hw ! 1, be16 pt ! 0, be16 pt ! 1, hl, pl, be16 oper ! 0, be16 oper ! 1,
      be48 sha ! 0, be48 sha ! 1, be48 sha ! 2, be48 sha ! 3, be48 sha ! 4, be48 sha ! 5,
      be32 spa ! 0, be32 spa ! 1, be32 spa ! 2, be32 spa ! 3,
      be48 tha ! 0, be48 tha ! 1, be48 tha ! 2, be48 tha ! 3, be48 tha ! 4, be48 tha ! 5,
      be32 tpa ! 0, be32 tpa ! 1, be32 tpa ! 2, be32 tpa ! 3]"
    by (simp add: fb_def arp_frame_def be48_def be32_def be16_def)
  show "length fb = 42" by (simp add: fb)
  show "arp_meta_of (fb @ pad) = \<lparr>am_remoteMacAddr = src, am_etherType = ty, am_arpHwType = hw, am_arpProtType = pt,
      am_arpHwLen = hl, am_arpProtLen = pl, am_arpSendHwAddr = sha, am_arpSendProtAddr = spa\<rparr>"
    "arp_oper_of (fb @ pad) = oper" "arp_target_of (fb @ pad) = tpa"
    using be_u48 [of src] be_u48 [of sha] be_u16 [of ty] be_u16 [of hw] be_u16 [of pt] be_u16 [of oper] be_u32 [of spa]
      be_u32 [of tpa]
    by (simp_all add: fb arp_meta_of_def arp_oper_of_def arp_target_of_def u48_def u32_def u16_def)
qed

lemma arp_frame_reads:
  "arp_meta_of (arp_frame dst src ty hw pt hl pl oper sha spa tha tpa) = \<lparr>am_remoteMacAddr = src, am_etherType = ty,
     am_arpHwType = hw, am_arpProtType = pt, am_arpHwLen = hl, am_arpProtLen = pl, am_arpSendHwAddr = sha,
     am_arpSendProtAddr = spa\<rparr> \<and>
   arp_oper_of (arp_frame dst src ty hw pt hl pl oper sha spa tha tpa) = oper \<and>
   arp_target_of (arp_frame dst src ty hw pt hl pl oper sha spa tha tpa) = tpa \<and>
   length (arp_frame dst src ty hw pt hl pl oper sha spa tha tpa) = 42"
  using arp_frame_fields(1-3) [of dst src ty hw pt hl pl oper sha spa tha tpa "[]"] arp_frame_fields(4) by simp

lemma arp_frame_head: "take 6 (arp_frame dst src ty hw pt hl pl oper sha spa tha tpa) = be48 dst"
  by (simp add: arp_frame_def be48_def)

section \<open>The sender\<close>

lemma arp_setters: "setArpShaHi = setEthSrcAddrHi" "setArpShaLo = setEthSrcAddrLo" "setArpTha = setEthDstAddr"
  by (intro ext, simp add: setArpShaHi_def setEthSrcAddrHi_def setArpShaLo_def setEthSrcAddrLo_def setArpTha_def setEthDstAddr_def)+

lemma byte_of_setArpTpa:
  assumes "i < 8"
  shows "byte_of (setArpTpaHi a c) i = (if 6 \<le> i then be32 a ! (i - 6) else byte_of c i)"
    "byte_of (setArpTpaLo a c) i = (if i < 2 then be32 a ! (i + 2) else byte_of c i)"
proof -
  let ?v = "byteSwap32 a"
  have b: "nth_byte (ucast ?v :: 64 word) j = be32 a ! j" if "j < 4" for j
  proof -
    have "j = 0 \<or> j = 1 \<or> j = 2 \<or> j = 3" using that by linarith
    then show ?thesis using nth_byte_ucast(4-7) [of a] by auto
  qed
  have "nth_byte (ucast (get_range 15 0 ?v)) j = nth_byte (ucast ?v) j" if "j < 2" for j
    by (rule bit_word_eqI) (use that in \<open>auto simp: bit_nth_byte bit_get_range bit_ucast_iff\<close>)
  moreover have "nth_byte (ucast (get_range 31 16 ?v)) j = nth_byte (ucast ?v) (j + 2)" if "j < 2" for j
    by (rule bit_word_eqI) (use that in \<open>auto simp: bit_nth_byte bit_get_range bit_ucast_iff algebra_simps\<close>)
  ultimately show "byte_of (setArpTpaHi a c) i = (if 6 \<le> i then be32 a ! (i - 6) else byte_of c i)"
    "byte_of (setArpTpaLo a c) i = (if i < 2 then be32 a ! (i + 2) else byte_of c i)"
    using assms b
    by (simp_all add: byte_of_def setArpTpaHi_def setArpTpaLo_def set_bits_def
        nth_byte_set_range [of i _ 6 _ 7] nth_byte_set_range [of i _ 0 _ 1])
qed

lemma set_arp_keep:
  "ax_tkeep (setArpTpaHi a c) = ax_tkeep c" "ax_tlast (setArpTpaHi a c) = ax_tlast c"
  "ax_tkeep (setArpTpaLo a c) = ax_tkeep c" "ax_tlast (setArpTpaLo a c) = ax_tlast c"
  "ax_tkeep (setEthSrcAddrHi m c) = ax_tkeep c" "ax_tlast (setEthSrcAddrHi m c) = ax_tlast c"
  "ax_tkeep (setEthSrcAddrLo m c) = ax_tkeep c" "ax_tlast (setEthSrcAddrLo m c) = ax_tlast c"
  "ax_tkeep (setEthDstAddr m c) = ax_tkeep c" "ax_tlast (setEthDstAddr m c) = ax_tlast c"
  by (simp_all add: setArpTpaHi_def setArpTpaLo_def setEthSrcAddrHi_def setEthSrcAddrLo_def setEthDstAddr_def)

text \<open>A frame built in the six chunks of the sender.\<close>

definition arp_chunks :: "EthAddr \<Rightarrow> EthAddr \<Rightarrow> 16 word \<Rightarrow> 16 word \<Rightarrow> 16 word \<Rightarrow> 8 word \<Rightarrow> 8 word \<Rightarrow> 16 word \<Rightarrow>
    Ip4Addr \<Rightarrow> AxisEth \<Rightarrow> Ip4Addr \<Rightarrow> AxisEth list" where
  "arp_chunks dst mac ty hw pt hl pl oper ip tha tpa =
     [setEthSrcAddrHi mac (setEthDstAddr dst aps_zero), setArpHwType hw (setEthertType ty (setEthSrcAddrLo mac aps_zero)),
      setArpShaHi mac (setArpOper oper (setArpProtLen pl (setArpHwLen hl (setArpProtType pt aps_zero)))),
      setArpSpa ip (setArpShaLo mac aps_zero), setArpTpaHi tpa tha, aps_end (setArpTpaLo tpa aps_zero)]"

lemma aps_zero_fields: "ax_tkeep aps_zero = 0xFF" "\<not> ax_tlast aps_zero" "byte_of aps_zero i = 0"
proof -
  show "byte_of aps_zero i = 0" by (rule bit_word_eqI) (simp add: byte_of_def aps_zero_def bit_nth_byte)
qed (simp_all add: aps_zero_def)

lemma arp_chunks_bytes:
  assumes "ax_tkeep tha = 0xFF" "\<not> ax_tlast tha" "\<And>i. i < 6 \<Longrightarrow> byte_of tha i = be48 ha ! i"
  shows "payload_ok (arp_chunks dst mac ty hw pt hl pl oper ip tha tpa)"
    "bytes_of (arp_chunks dst mac ty hw pt hl pl oper ip tha tpa) = arp_frame dst mac ty hw pt hl pl oper mac ip ha tpa"
proof -
  have keep: "ax_tkeep (set16 lo v c) = ax_tkeep c" for lo v c by simp
  let ?c = "arp_chunks dst mac ty hw pt hl pl oper ip tha tpa"
  note fields = setArpHwType_def setEthertType_def setArpOper_def setArpProtLen_def setArpHwLen_def setArpProtType_def setArpSpa_def
    arp_setters set_arp_keep
  have len: "getLen (?c ! 0) = 8" "getLen (?c ! 1) = 8" "getLen (?c ! 2) = 8" "getLen (?c ! 3) = 8" "getLen (?c ! 4) = 8"
    "getLen (?c ! 5) = 2"
    by (simp_all add: arp_chunks_def getLen_def fields aps_zero_fields assms(1) aps_end_def keepToLen_def)
  have lst: "\<not> ax_tlast (?c ! 0)" "\<not> ax_tlast (?c ! 1)" "\<not> ax_tlast (?c ! 2)" "\<not> ax_tlast (?c ! 3)" "\<not> ax_tlast (?c ! 4)"
    "ax_tlast (?c ! 5)"
    by (simp_all add: arp_chunks_def fields aps_zero_fields assms(2) aps_end_def)
  have split: "?c = [?c ! 0, ?c ! 1, ?c ! 2, ?c ! 3, ?c ! 4, ?c ! 5]" by (simp add: arp_chunks_def)
  have "ax_tkeep (?c ! 5) = mask 2" by (simp add: arp_chunks_def aps_end_def mask_8)
  then have ok: "chunk_ok (?c ! 5)" using len(6) by (simp add: chunk_ok_def)
  show "payload_ok ?c"
    by (subst split) (simp add: payload_ok_Cons payload_ok_single len lst ok len(2) [unfolded One_nat_def] lst(2) [unfolded One_nat_def])
  have last: "chunk_bytes (?c ! 5) = [byte_of (?c ! 5) 0, byte_of (?c ! 5) 1]"
    by (simp add: chunk_bytes_def len(6) byte_of_def numeral_2_eq_2)
  have "byte_of (aps_end c) i = byte_of c i" for c i by (simp add: aps_end_def byte_of_def)
  then have b: "byte_of (?c ! 0) i = (if i < 6 then be48 dst ! i else be48 mac ! (i - 6))"
    "byte_of (?c ! 1) i = (if i < 4 then be48 mac ! (i + 2) else if i < 6 then be16 ty ! (i - 4) else be16 hw ! (i - 6))"
    "byte_of (?c ! 2) i = (if i < 2 then be16 pt ! i else if i = 2 then hl else if i = 3 then pl
       else if i < 6 then be16 oper ! (i - 4) else be48 mac ! (i - 6))"
    "byte_of (?c ! 3) i = (if i < 4 then be48 mac ! (i + 2) else be32 ip ! (i - 4))"
    "byte_of (?c ! 4) i = (if i < 6 then be48 ha ! i else be32 tpa ! (i - 6))"
    "i < 2 \<Longrightarrow> byte_of (?c ! 5) i = be32 tpa ! (i + 2)" if "i < 8" for i
    using that
    by (auto simp: arp_chunks_def fields byte_of_setEth byte_of_set16 [of _ 0, simplified] byte_of_set16 [of _ 4, simplified]
        byte_of_set16 [of _ 6, simplified] byte_of_set8 [of _ 2, simplified] byte_of_set8 [of _ 3, simplified]
        byte_of_set32 [of _ 4, simplified] byte_of_setArpTpa assms(3) aps_zero_fields)
  have c: "chunk_bytes (?c ! 0) = be48 dst @ take 2 (be48 mac)" "chunk_bytes (?c ! 1) = drop 2 (be48 mac) @ be16 ty @ be16 hw"
    "chunk_bytes (?c ! 2) = be16 pt @ [hl, pl] @ be16 oper @ take 2 (be48 mac)"
    "chunk_bytes (?c ! 3) = drop 2 (be48 mac) @ be32 ip" "chunk_bytes (?c ! 4) = be48 ha @ take 2 (be32 tpa)"
    "chunk_bytes (?c ! 5) = drop 2 (be32 tpa)"
    unfolding full_chunk_bytes [OF len(1)] full_chunk_bytes [OF len(2)] full_chunk_bytes [OF len(3)] full_chunk_bytes [OF len(4)]
      full_chunk_bytes [OF len(5)] last
    by (simp_all add: b b(2) [unfolded One_nat_def] be48_def be32_def be16_def)
  show "bytes_of ?c = arp_frame dst mac ty hw pt hl pl oper mac ip ha tpa"
    by (subst split) (simp add: c c(2) [unfolded One_nat_def] arp_frame_def be48_def be32_def be16_def)
qed

text \<open>The requests and the replies.\<close>

definition arp_request_bytes :: "EthAddr \<Rightarrow> Ip4Addr \<Rightarrow> Ip4Addr \<Rightarrow> 8 word list" where
  "arp_request_bytes mac ip tpa = arp_frame 0xFFFFFFFFFFFF mac 0x0806 1 0x0800 6 4 1 mac ip 0 tpa"

definition arp_reply_bytes :: "EthAddr \<Rightarrow> Ip4Addr \<Rightarrow> ArpMeta \<Rightarrow> 8 word list" where
  "arp_reply_bytes mac ip m = arp_frame (am_remoteMacAddr m) mac (am_etherType m) (am_arpHwType m) (am_arpProtType m)
     (am_arpHwLen m) (am_arpProtLen m) 2 mac ip (am_arpSendHwAddr m) (am_arpSendProtAddr m)"

lemma upto_6: "[0..<6] = [0, 1, 2, 3, 4, 5::nat]"
  by (simp add: upt_rec)

lemma aps_request_chunks:
  "map (\<lambda>n. aps_request mac ip tpa (of_nat n)) [0..<6] = arp_chunks 0xFFFFFFFFFFFF mac 0x0806 1 0x0800 6 4 1 ip aps_zero tpa"
  by (simp add: upto_6 aps_request_def arp_chunks_def del: upt.simps upt_rec)

lemma aps_reply_chunks:
  "map (\<lambda>n. aps_reply mac ip m (of_nat n)) [0..<6] = arp_chunks (am_remoteMacAddr m) mac (am_etherType m) (am_arpHwType m)
     (am_arpProtType m) (am_arpHwLen m) (am_arpProtLen m) 2 ip (setArpTha (am_arpSendHwAddr m) aps_zero) (am_arpSendProtAddr m)"
  by (simp add: upto_6 aps_reply_def arp_chunks_def del: upt.simps upt_rec)

lemma aps_request_bytes:
  fixes mac ip tpa
  defines "cs \<equiv> map (\<lambda>n. aps_request mac ip tpa (of_nat n)) [0..<6]"
  shows "payload_ok cs" "bytes_of cs = arp_request_bytes mac ip tpa"
proof -
  have "byte_of aps_zero i = be48 0 ! i" if "i < 6" for i
  proof -
    have "i = 0 \<or> i = 1 \<or> i = 2 \<or> i = 3 \<or> i = 4 \<or> i = 5" using that by linarith
    then show ?thesis by (auto simp: be48_def aps_zero_fields)
  qed
  from arp_chunks_bytes [OF aps_zero_fields(1,2) this] show "payload_ok cs" "bytes_of cs = arp_request_bytes mac ip tpa"
    by (simp_all add: cs_def aps_request_chunks arp_request_bytes_def del: upt.simps upt_rec)
qed

lemma aps_reply_bytes:
  fixes mac ip m
  defines "cs \<equiv> map (\<lambda>n. aps_reply mac ip m (of_nat n)) [0..<6]"
  shows "payload_ok cs" "bytes_of cs = arp_reply_bytes mac ip m"
proof -
  let ?t = "setArpTha (am_arpSendHwAddr m) aps_zero"
  have "ax_tkeep ?t = 0xFF" "\<not> ax_tlast ?t" by (simp_all add: arp_setters set_arp_keep aps_zero_fields)
  moreover have "byte_of ?t i = be48 (am_arpSendHwAddr m) ! i" if "i < 6" for i
    using that byte_of_setEth(1) [of i] by (simp add: arp_setters)
  ultimately show "payload_ok cs" "bytes_of cs = arp_reply_bytes mac ip m"
    using arp_chunks_bytes [of ?t] by (simp_all add: cs_def aps_reply_chunks arp_reply_bytes_def del: upt.simps upt_rec)
qed

text \<open>The sender sends the chunks of the packet that it works on, and is idle again.\<close>

definition aps_work :: "EthAddr \<Rightarrow> Ip4Addr \<Rightarrow> 'a ARP_scheme \<Rightarrow> 8 word \<Rightarrow> AxisEth" where
  "aps_work mac ip s n = (if aps_fsmState s = APR_REPLY then aps_reply mac ip (aps_aprMeta s) n else aps_request mac ip (aps_tpaReq s) n)"

lemma aps_sends:
  assumes "aps_fsmState s \<noteq> APR_IDLE" "aps_sendCount s = of_nat k" "k \<le> 5"
  shows "(pArpPacketSender mac ip ^^ (6 - k)) s = s\<lparr>aps_fsmState := APR_IDLE, aps_sendCount := 6,
    arp_soETH_Data := Stream (depth (arp_soETH_Data s))
      (items (arp_soETH_Data s) @ map (\<lambda>n. aps_work mac ip s (of_nat n)) [k..<6])\<rparr>"
  using assms
proof (induction "5 - k" arbitrary: s k)
  case 0
  then have k: "k = 5" by simp
  have up: "[5..<6] = [5 :: nat]" by (simp add: upt_rec)
  show ?case
    using 0 unfolding k up
    by (cases "aps_fsmState s") (simp_all add: pArpPacketSender_def aps_send_def aps_work_def swrite_def)
next
  case (Suc n)
  have k: "k < 5" using Suc.hyps(2) by simp
  let ?t = "s\<lparr>arp_soETH_Data := swrite (arp_soETH_Data s) (aps_work mac ip s (of_nat k)), aps_sendCount := of_nat (Suc k)\<rparr>"
  have ne: "(of_nat k :: 8 word) \<noteq> 5"
  proof
    assume "(of_nat k :: 8 word) = 5"
    then have "unat (of_nat k :: 8 word) = unat (5 :: 8 word)" by (rule arg_cong)
    then show False using k by (simp add: unat_of_nat take_bit_nat_eq_self)
  qed
  have t: "pArpPacketSender mac ip s = ?t"
    using Suc.prems(1,2) ne
    by (cases "aps_fsmState s") (simp_all add: pArpPacketSender_def aps_send_def aps_work_def add.commute)
  have work: "aps_work mac ip ?t = aps_work mac ip s" by (intro ext) (simp add: aps_work_def)
  have n: "n = 5 - Suc k" "Suc k \<le> 5" using Suc.hyps(2) k by simp_all
  have up: "[k..<6] = k # [Suc k..<6]" using k by (simp add: upt_conv_Cons)
  have steps: "6 - k = Suc (6 - Suc k)" using k by simp
  have ih: "(pArpPacketSender mac ip ^^ (6 - Suc k)) ?t = ?t\<lparr>aps_fsmState := APR_IDLE, aps_sendCount := 6,
      arp_soETH_Data := Stream (depth (arp_soETH_Data ?t))
        (items (arp_soETH_Data ?t) @ map (\<lambda>n. aps_work mac ip s (of_nat n)) [Suc k..<6])\<rparr>"
    using Suc.hyps(1) [OF n(1), of ?t] Suc.prems(1) n(2) unfolding work by simp
  show ?case
    unfolding steps funpow_Suc_right o_apply t ih up by (simp add: swrite_def)
qed

section \<open>The receiver\<close>

lemma arp_split:
  assumes "payload_ok cs" "42 \<le> length (bytes_of cs)"
  obtains c0 c1 c2 c3 c4 c5 cs' where "cs = c0 # c1 # c2 # c3 # c4 # c5 # cs'"
    "getLen c0 = 8" "getLen c1 = 8" "getLen c2 = 8" "getLen c3 = 8" "getLen c4 = 8" "2 \<le> getLen c5"
    "\<not> ax_tlast c0" "\<not> ax_tlast c1" "\<not> ax_tlast c2" "\<not> ax_tlast c3" "\<not> ax_tlast c4"
    "if cs' = [] then ax_tlast c5 else \<not> ax_tlast c5 \<and> payload_ok cs'"
proof -
  have "frame_ok cs" using assms by (simp add: frame_ok_def)
  from frame_split [OF this] obtain c0 c1 c2 c3 c4 cs1 where c: "cs = c0 # c1 # c2 # c3 # c4 # cs1"
    "getLen c0 = 8" "getLen c1 = 8" "getLen c2 = 8" "getLen c3 = 8" "getLen c4 = 8"
    "\<not> ax_tlast c0" "\<not> ax_tlast c1" "\<not> ax_tlast c2" "\<not> ax_tlast c3" "\<not> ax_tlast c4" "payload_ok cs1" .
  obtain c5 cs' where cs1: "cs1 = c5 # cs'" using payload_ok_nonempty [OF c(12)] by (cases cs1) auto
  have two: "2 \<le> length (bytes_of cs1)" using assms(2) c(1-6) by simp
  have "2 \<le> getLen c5 \<and> (if cs' = [] then ax_tlast c5 else \<not> ax_tlast c5 \<and> payload_ok cs')"
    using two c(12) by (cases "cs' = []") (simp_all add: cs1 payload_ok_Cons payload_ok_single)
  then show thesis by (intro that [of c0 c1 c2 c3 c4 c5 cs']) (use c cs1 in simp_all)
qed

lemma arp_field_bytes:
  assumes "cs = c0 # c1 # c2 # c3 # c4 # c5 # cs'" "getLen c0 = 8" "getLen c1 = 8" "getLen c2 = 8" "getLen c3 = 8"
    "getLen c4 = 8" "2 \<le> getLen c5"
  shows "arp_meta_of (bytes_of cs) = \<lparr>am_remoteMacAddr = word_cat (getEthSrcAddrHi c0) (getEthSrcAddrLo c1),
      am_etherType = getEtherType c1, am_arpHwType = getArpHwType c1, am_arpProtType = getArpProtType c2,
      am_arpHwLen = getArpHwLen c2, am_arpProtLen = getArpProtLen c2,
      am_arpSendHwAddr = word_cat (getArpShaHi c2) (getArpShaLo c3), am_arpSendProtAddr = getArpSpa c3\<rparr>"
    "arp_oper_of (bytes_of cs) = getArpOper c2" "arp_target_of (bytes_of cs) = word_cat (getArpTpaHi c4) (getArpTpaLo c5)"
proof -
  note full = full_chunk_bytes [OF assms(2)] full_chunk_bytes [OF assms(3)] full_chunk_bytes [OF assms(4)]
    full_chunk_bytes [OF assms(5)] full_chunk_bytes [OF assms(6)]
  have "[0..<getLen c5] = 0 # 1 # [2..<getLen c5]" using assms(7) by (simp add: upt_conv_Cons numeral_2_eq_2)
  then have five: "chunk_bytes c5 = byte_of c5 0 # byte_of c5 1 # map (byte_of c5) [2..<getLen c5]"
    by (simp add: chunk_bytes_byte_of)
  have "getArpHwLen c2 = byte_of c2 2" "getArpProtLen c2 = byte_of c2 3"
    by (rule bit_word_eqI; auto simp: getArpHwLen_def getArpProtLen_def byte_of_def bit_nth_byte bit_get_range bit_ucast_iff)+
  then show "arp_meta_of (bytes_of cs) = \<lparr>am_remoteMacAddr = word_cat (getEthSrcAddrHi c0) (getEthSrcAddrLo c1),
      am_etherType = getEtherType c1, am_arpHwType = getArpHwType c1, am_arpProtType = getArpProtType c2,
      am_arpHwLen = getArpHwLen c2, am_arpProtLen = getArpProtLen c2,
      am_arpSendHwAddr = word_cat (getArpShaHi c2) (getArpShaLo c3), am_arpSendProtAddr = getArpSpa c3\<rparr>"
    using get16_u16 [of 6 c0] get32_u32 [of 0 c1] get16_u16 [of 4 c1] get16_u16 [of 6 c1] get16_u16 [of 0 c2] get16_u16 [of 6 c2]
      get32_u32 [of 0 c3] get32_u32 [of 4 c3]
    by (simp add: arp_meta_of_def u48_def u32_def u16_def assms(1) full getEthSrcAddrHi_def getEthSrcAddrLo_def getEtherType_def
        getArpHwType_def getArpProtType_def getArpShaHi_def getArpShaLo_def getArpSpa_def numeral_2_eq_2 numeral_3_eq_3)
  show "arp_oper_of (bytes_of cs) = getArpOper c2" "arp_target_of (bytes_of cs) = word_cat (getArpTpaHi c4) (getArpTpaLo c5)"
    using get16_u16 [of 4 c2] get16_u16 [of 6 c4] get16_u16 [of 0 c5]
    by (simp_all add: arp_oper_of_def arp_target_of_def u32_def u16_def assms(1) full five getArpOper_def getArpTpaHi_def
        getArpTpaLo_def)
qed

lemma apr_tick:
  assumes "items (arp_siIPRX_Data s) = c # cs"
  shows "pArpPacketReceiver ownIp s =
    (let t = apr_chunk c (s\<lparr>arp_siIPRX_Data := Stream (depth (arp_siIPRX_Data s)) cs\<rparr>) in
     if ax_tlast c then apr_finish ownIp t else t\<lparr>apr_chunkCount := apr_chunkCount t + 1\<rparr>)"
  by (simp add: pArpPacketReceiver_def sread_cons [OF assms])

text \<open>What the receiver has done at the end of a frame.\<close>

definition apr_done :: "Ip4Addr \<Rightarrow> 'a ARP_scheme \<Rightarrow> 'a ARP_scheme \<Rightarrow> AxisEth list \<Rightarrow> bool" where
  "apr_done ownIp s t rest \<longleftrightarrow> apr_chunkCount t = 0 \<and> items (arp_siIPRX_Data t) = rest \<and>
     items (ssAPrToAPs_Meta t) = items (ssAPrToAPs_Meta s) @
       (if apr_opCode s = 1 \<and> apr_targProtAddr s = ownIp then [apr_meta s] else []) \<and>
     items (ssAPrToACc_UpdateReq t) = items (ssAPrToACc_UpdateReq s) @
       [\<lparr>abp_macAddr = am_arpSendHwAddr (apr_meta s), abp_ip4Addr = am_arpSendProtAddr (apr_meta s)\<rparr>]"

lemma apr_finish_done: "apr_done ownIp s (apr_finish ownIp s) (items (arp_siIPRX_Data s))"
  by (simp add: apr_done_def apr_finish_def Let_def)

lemma apr_skips:
  assumes "unat (apr_chunkCount s) = k" "6 \<le> k" "k + length cs \<le> 256" "items (arp_siIPRX_Data s) = cs @ rest"
    and "is_segment ax_tlast cs"
  shows "apr_done ownIp s ((pArpPacketReceiver ownIp ^^ length cs) s) rest"
  using assms
proof (induction cs arbitrary: s k)
  case Nil
  then show ?case by (simp add: is_segment_def)
next
  case (Cons c cs)
  let ?s = "s\<lparr>arp_siIPRX_Data := Stream (depth (arp_siIPRX_Data s)) (cs @ rest)\<rparr>"
  have input: "items (arp_siIPRX_Data s) = c # (cs @ rest)" using Cons.prems(4) by simp
  have "apr_chunkCount s \<noteq> of_nat j" if "j < 6" for j
  proof
    assume "apr_chunkCount s = of_nat j"
    then have "unat (apr_chunkCount s) = j" using that by (simp add: unat_of_nat take_bit_nat_eq_self)
    then show False using Cons.prems(1,2) that by simp
  qed
  from this [of 0] this [of 1] this [of 2] this [of 3] this [of 4] this [of 5]
  have chunk: "apr_chunk c ?s = ?s" by (simp add: apr_chunk_def)
  note tick = apr_tick [OF input, of ownIp, unfolded chunk Let_def]
  show ?case
  proof (cases "cs = []")
    case True
    then have "ax_tlast c" using Cons.prems(5) by (simp add: is_segment_single)
    then have "(pArpPacketReceiver ownIp ^^ length (c # cs)) s = apr_finish ownIp ?s" using True by (simp add: tick)
    then show ?thesis using apr_finish_done [of ownIp ?s] True by (simp add: apr_done_def)
  next
    case False
    then have c: "\<not> ax_tlast c" "is_segment ax_tlast cs" using Cons.prems(5) by (simp_all add: is_segment_Cons)
    let ?t = "?s\<lparr>apr_chunkCount := apr_chunkCount s + 1\<rparr>"
    have "cs \<noteq> []" by (rule False)
    then have "k + 1 < 256" using Cons.prems(3) by (cases cs) simp_all
    then have k: "unat (apr_chunkCount ?t) = k + 1" using Cons.prems(1) by (simp add: unat_word_ariths)
    have "(pArpPacketReceiver ownIp ^^ length (c # cs)) s = (pArpPacketReceiver ownIp ^^ length cs) ?t"
      using c(1) by (simp add: tick funpow_swap1)
    then show ?thesis
      using Cons.IH [OF k _ _ _ c(2)] Cons.prems(2,3) by (simp add: apr_done_def)
  qed
qed

lemma mac_set: "set_range 31 0 (ucast (lo :: 32 word)) (set_range 47 32 (ucast (hi :: 16 word)) (x :: 48 word)) = word_cat hi lo"
  by (rule bit_word_eqI) (auto simp: bit_set_range bit_ucast_iff bit_word_cat_iff)

lemma apr_run:
  fixes ownIp
  assumes "apr_chunkCount s = 0" "items (arp_siIPRX_Data s) = cs @ rest" "payload_ok cs" "42 \<le> length (bytes_of cs)"
    and "length cs \<le> 256"
  defines "t \<equiv> (pArpPacketReceiver ownIp ^^ length cs) s" and "m \<equiv> arp_meta_of (bytes_of cs)"
  shows "apr_chunkCount t = 0" "items (arp_siIPRX_Data t) = rest"
    "items (ssAPrToAPs_Meta t) = items (ssAPrToAPs_Meta s) @
       (if arp_oper_of (bytes_of cs) = 1 \<and> arp_target_of (bytes_of cs) = ownIp then [m] else [])"
    "items (ssAPrToACc_UpdateReq t) = items (ssAPrToACc_UpdateReq s) @
       [\<lparr>abp_macAddr = am_arpSendHwAddr m, abp_ip4Addr = am_arpSendProtAddr m\<rparr>]"
proof -
  let ?P = "pArpPacketReceiver ownIp"
  from arp_split [OF assms(3,4)] obtain c0 c1 c2 c3 c4 c5 cs' where c: "cs = c0 # c1 # c2 # c3 # c4 # c5 # cs'"
    "getLen c0 = 8" "getLen c1 = 8" "getLen c2 = 8" "getLen c3 = 8" "getLen c4 = 8" "2 \<le> getLen c5"
    and l: "\<not> ax_tlast c0" "\<not> ax_tlast c1" "\<not> ax_tlast c2" "\<not> ax_tlast c3" "\<not> ax_tlast c4"
    "if cs' = [] then ax_tlast c5 else \<not> ax_tlast c5 \<and> payload_ok cs'" .
  note f = arp_field_bytes [OF c]
  have i0: "items (arp_siIPRX_Data s) = c0 # (c1 # c2 # c3 # c4 # c5 # cs' @ rest)" using assms(2) by (simp add: c(1))
  let ?side = "\<lambda>u. (ssAPrToAPs_Meta u, ssAPrToACc_UpdateReq u)"
  let ?t1 = "?P s"
  have t1: "items (arp_siIPRX_Data ?t1) = c1 # (c2 # c3 # c4 # c5 # cs' @ rest)" "apr_chunkCount ?t1 = 1" "?side ?t1 = ?side s"
    "am_remoteMacAddr (apr_meta ?t1) = set_range 47 32 (ucast (getEthSrcAddrHi c0)) (am_remoteMacAddr (apr_meta s))"
    using l(1) assms(1) by (simp_all add: apr_tick [OF i0] apr_chunk_def Let_def)
  let ?t2 = "?P ?t1"
  have t2: "items (arp_siIPRX_Data ?t2) = c2 # (c3 # c4 # c5 # cs' @ rest)" "apr_chunkCount ?t2 = 2" "?side ?t2 = ?side s"
    "am_remoteMacAddr (apr_meta ?t2) = word_cat (getEthSrcAddrHi c0) (getEthSrcAddrLo c1)"
    "am_etherType (apr_meta ?t2) = getEtherType c1" "am_arpHwType (apr_meta ?t2) = getArpHwType c1"
    using l(2) t1 by (simp_all add: apr_tick [OF t1(1)] apr_chunk_def mac_set Let_def)
  let ?t3 = "?P ?t2"
  have t3: "items (arp_siIPRX_Data ?t3) = c3 # (c4 # c5 # cs' @ rest)" "apr_chunkCount ?t3 = 3" "?side ?t3 = ?side s"
    "am_remoteMacAddr (apr_meta ?t3) = word_cat (getEthSrcAddrHi c0) (getEthSrcAddrLo c1)"
    "am_etherType (apr_meta ?t3) = getEtherType c1" "am_arpHwType (apr_meta ?t3) = getArpHwType c1"
    "am_arpProtType (apr_meta ?t3) = getArpProtType c2" "am_arpHwLen (apr_meta ?t3) = getArpHwLen c2"
    "am_arpProtLen (apr_meta ?t3) = getArpProtLen c2" "apr_opCode ?t3 = getArpOper c2"
    "am_arpSendHwAddr (apr_meta ?t3) = set_range 47 32 (ucast (getArpShaHi c2)) (am_arpSendHwAddr (apr_meta ?t2))"
    using l(3) t2 by (simp_all add: apr_tick [OF t2(1)] apr_chunk_def Let_def)
  let ?t4 = "?P ?t3" and ?m = "arp_meta_of (bytes_of cs)"
  have t4: "items (arp_siIPRX_Data ?t4) = c4 # (c5 # cs' @ rest)" "apr_chunkCount ?t4 = 4" "?side ?t4 = ?side s"
    "apr_opCode ?t4 = getArpOper c2" "apr_meta ?t4 = ?m"
    using l(4) t3 by (simp_all add: apr_tick [OF t3(1)] apr_chunk_def mac_set Let_def f(1))
  let ?t5 = "?P ?t4"
  have t5: "items (arp_siIPRX_Data ?t5) = c5 # (cs' @ rest)" "apr_chunkCount ?t5 = 5" "?side ?t5 = ?side s"
    "apr_opCode ?t5 = getArpOper c2" "apr_meta ?t5 = ?m"
    "apr_targProtAddr ?t5 = set_range 31 16 (ucast (getArpTpaHi c4)) (apr_targProtAddr ?t4)"
    using l(5) t4 by (simp_all add: apr_tick [OF t4(1)] apr_chunk_def Let_def)
  let ?u = "?t5\<lparr>arp_siIPRX_Data := Stream (depth (arp_siIPRX_Data ?t5)) (cs' @ rest),
    apr_targProtAddr := word_cat (getArpTpaHi c4) (getArpTpaLo c5)\<rparr>"
  have chunk: "apr_chunk c5 (?t5\<lparr>arp_siIPRX_Data := Stream (depth (arp_siIPRX_Data ?t5)) (cs' @ rest)\<rparr>) = ?u"
    using t5(2,6) by (simp add: apr_chunk_def ica_dst_set)
  note tick = apr_tick [OF t5(1), of ownIp, unfolded chunk Let_def]
  have end5: "apr_done ownIp ?u ((?P ^^ Suc (length cs')) ?t5) rest"
  proof (cases "cs' = []")
    case True
    then show ?thesis using apr_finish_done [of ownIp ?u] l(6) by (simp add: tick)
  next
    case False
    let ?v = "?u\<lparr>apr_chunkCount := 6\<rparr>"
    from False l(6) have v: "?P ?t5 = ?v" "is_segment ax_tlast cs'" using t5(2) by (simp_all add: tick payload_ok_def)
    have "apr_done ownIp ?v ((?P ^^ length cs') ?v) rest"
      by (rule apr_skips [of _ 6]) (use assms(5) v(2) in \<open>simp_all add: c(1)\<close>)
    then show ?thesis unfolding funpow_Suc_right o_apply v(1) by (simp add: apr_done_def)
  qed
  have "t = (?P ^^ Suc (length cs')) ?t5" by (simp add: t_def c(1) funpow_swap1)
  with end5 have "apr_done ownIp ?u t rest" by simp
  then show "apr_chunkCount t = 0" "items (arp_siIPRX_Data t) = rest"
    "items (ssAPrToAPs_Meta t) = items (ssAPrToAPs_Meta s) @
       (if arp_oper_of (bytes_of cs) = 1 \<and> arp_target_of (bytes_of cs) = ownIp then [m] else [])"
    "items (ssAPrToACc_UpdateReq t) = items (ssAPrToACc_UpdateReq s) @
       [\<lparr>abp_macAddr = am_arpSendHwAddr m, abp_ip4Addr = am_arpSendProtAddr m\<rparr>]"
    using t5(3-5) by (simp_all add: apr_done_def m_def f(2,3))
qed

section \<open>The server\<close>

text \<open>Each process of the server may be activated next.\<close>

inductive arp_step :: "EthAddr \<Rightarrow> Ip4Addr \<Rightarrow> 'a ARP_scheme \<Rightarrow> 'a ARP_scheme \<Rightarrow> bool" for mac :: EthAddr and ownIp :: Ip4Addr where
  apr: "arp_step mac ownIp s (pArpPacketReceiver ownIp s)"
| aps: "arp_step mac ownIp s (pArpPacketSender mac ownIp s)"
| acc: "arp_step mac ownIp s (pArpCamController s)"

abbreviation arp_runs :: "EthAddr \<Rightarrow> Ip4Addr \<Rightarrow> 'a ARP_scheme \<Rightarrow> 'a ARP_scheme \<Rightarrow> bool" where
  "arp_runs mac ownIp \<equiv> (arp_step mac ownIp)\<^sup>*\<^sup>*"

lemma arp_runs_funpow:
  "arp_runs mac ownIp s ((pArpPacketReceiver ownIp ^^ n) s)" "arp_runs mac ownIp s ((pArpPacketSender mac ownIp ^^ n) s)"
  "arp_runs mac ownIp s (pArpPacketSender mac ownIp s)" "arp_runs mac ownIp s (pArpCamController s)"
  by (rule funpow_runs r_into_rtranclp, rule arp_step.intros)+

definition arp_idle :: "'a ARP_scheme \<Rightarrow> bool" where
  "arp_idle s \<longleftrightarrow> apr_chunkCount s = 0 \<and> aps_fsmState s = APR_IDLE \<and> acc_fsmState s = ACC_IDLE \<and>
     items (arp_siIPTX_MacLkpReq s) = [] \<and> items (ssAPrToAPs_Meta s) = [] \<and> items (ssAPrToACc_UpdateReq s) = [] \<and>
     items (ssACcToAPs_Meta s) = []"

definition arp_rest :: "'a ARP_scheme \<Rightarrow> _" where
  "arp_rest s = (arp_soETH_Data s, arp_siIPTX_MacLkpReq s, arp_soIPTX_MacLkpRep s, arp_soCAM_MacUpdReq s, ssACcToAPs_Meta s,
     aps_fsmState s, acc_fsmState s)"

lemma apr_keeps:
  fixes s :: "'a ARP_scheme"
  shows "arp_rest (pArpPacketReceiver ownIp s) = arp_rest s"
proof -
  have "arp_rest (apr_chunk c u) = arp_rest u" "arp_rest (apr_finish ownIp u) = arp_rest u" for c and u :: "'a ARP_scheme"
    by (simp_all add: apr_chunk_def apr_finish_def arp_rest_def Let_def)
  moreover have "arp_rest (u\<lparr>arp_siIPRX_Data := x\<rparr>) = arp_rest u" "arp_rest (u\<lparr>apr_chunkCount := n\<rparr>) = arp_rest u"
    for u :: "'a ARP_scheme" and x n
    by (simp_all add: arp_rest_def)
  ultimately show ?thesis by (auto simp: pArpPacketReceiver_def Let_def split: option.splits)
qed

text \<open>The bindings that are asked to be inserted.\<close>

definition mac_insert :: "EthAddr \<Rightarrow> Ip4Addr \<Rightarrow> RtlMacUpdateRequest" where
  "mac_insert mac ip = \<lparr>mur_value = mac, mur_key = ip, mur_opcode = ARP_INSERT\<rparr>"

lemma arp_receive_run:
  fixes s :: "'a ARP_scheme"
  assumes "arp_idle s" "items (arp_siIPRX_Data s) = cs @ rest" "payload_ok cs" "42 \<le> length (bytes_of cs)" "length cs \<le> 256"
    and "m = arp_meta_of (bytes_of cs)"
  shows "\<exists>t us. arp_runs mac ownIp s t \<and> arp_idle (t\<lparr>acc_fsmState := ACC_IDLE\<rparr>) \<and> acc_fsmState t = ACC_UPDATE \<and>
    items (arp_siIPRX_Data t) = rest \<and> arp_soIPTX_MacLkpRep t = arp_soIPTX_MacLkpRep s \<and>
    items (arp_soCAM_MacUpdReq t) = items (arp_soCAM_MacUpdReq s) @ [mac_insert (am_arpSendHwAddr m) (am_arpSendProtAddr m)] \<and>
    items (arp_soETH_Data t) = items (arp_soETH_Data s) @ us \<and>
    (if arp_oper_of (bytes_of cs) = 1 \<and> arp_target_of (bytes_of cs) = ownIp
     then payload_ok us \<and> bytes_of us = arp_reply_bytes mac ownIp m else us = [])"
proof -
  let ?S = "pArpPacketSender mac ownIp" and ?asked = "arp_oper_of (bytes_of cs) = 1 \<and> arp_target_of (bytes_of cs) = ownIp"
  note idle = assms(1) [unfolded arp_idle_def]
  let ?t = "(pArpPacketReceiver ownIp ^^ length cs) s"
  note t = apr_run [OF conjunct1 [OF idle] assms(2-5), of ownIp, folded assms(6)]
  have kt: "arp_rest ?t = arp_rest s" by (rule funpow_keeps [where g = arp_rest], rule apr_keeps)
  let ?u = "pArpCamController ?t"
  have upd: "items (ssAPrToACc_UpdateReq ?t) = \<lparr>abp_macAddr = am_arpSendHwAddr m, abp_ip4Addr = am_arpSendProtAddr m\<rparr> # []"
    using t(4) idle by simp
  have none: "sread (arp_siIPTX_MacLkpReq ?t) = None"
    using kt idle by (simp add: arp_rest_def sread_def)
  have acc: "acc_fsmState ?t = ACC_IDLE" using kt idle by (simp add: arp_rest_def)
  have u: "?u = ?t\<lparr>ssAPrToACc_UpdateReq := Stream (depth (ssAPrToACc_UpdateReq ?t)) [],
      arp_soCAM_MacUpdReq := swrite (arp_soCAM_MacUpdReq ?t) (mac_insert (am_arpSendHwAddr m) (am_arpSendProtAddr m)),
      acc_fsmState := ACC_UPDATE\<rparr>"
    using acc by (simp add: pArpCamController_def none sread_cons [OF upd] mac_insert_def)
  have run_u: "arp_runs mac ownIp s ?u" by (rule rtranclp_trans; rule arp_runs_funpow)
  show ?thesis
  proof (cases ?asked)
    case False
    have "arp_idle (?u\<lparr>acc_fsmState := ACC_IDLE\<rparr>)"
      unfolding u using False t kt idle by (auto simp: arp_idle_def arp_rest_def)
    moreover have "items (arp_siIPRX_Data ?u) = rest" "acc_fsmState ?u = ACC_UPDATE"
      "arp_soIPTX_MacLkpRep ?u = arp_soIPTX_MacLkpRep s" "items (arp_soETH_Data ?u) = items (arp_soETH_Data s) @ []"
      "items (arp_soCAM_MacUpdReq ?u) = items (arp_soCAM_MacUpdReq s) @ [mac_insert (am_arpSendHwAddr m) (am_arpSendProtAddr m)]"
      unfolding u using t(2) kt by (simp_all add: arp_rest_def)
    ultimately show ?thesis using run_u False by metis
  next
    case True
    have meta: "items (ssAPrToAPs_Meta ?u) = m # []" using True t(3) idle unfolding u by simp
    let ?v = "?S ?u"
    have "aps_fsmState ?u = APR_IDLE" using kt idle unfolding u by (simp add: arp_rest_def)
    then have v: "?v = ?u\<lparr>aps_sendCount := 0, ssAPrToAPs_Meta := Stream (depth (ssAPrToAPs_Meta ?u)) [], aps_aprMeta := m,
        aps_fsmState := APR_REPLY\<rparr>"
      by (simp add: pArpPacketSender_def sread_cons [OF meta])
    let ?us = "map (\<lambda>n. aps_reply mac ownIp m (of_nat n)) [0..<6]" and ?w = "(?S ^^ 6) ?v"
    have "aps_work mac ownIp ?v = aps_reply mac ownIp m" by (intro ext) (simp add: aps_work_def v)
    with aps_sends [of ?v 0 mac ownIp]
    have w: "?w = ?v\<lparr>aps_fsmState := APR_IDLE, aps_sendCount := 6,
        arp_soETH_Data := Stream (depth (arp_soETH_Data ?v)) (items (arp_soETH_Data ?v) @ ?us)\<rparr>"
      unfolding v by (simp del: upt.simps upt_rec funpow.simps)
    have run: "arp_runs mac ownIp s ?w"
      by (rule rtranclp_trans [OF rtranclp_trans [OF run_u]]; rule arp_runs_funpow)
    have "arp_idle (?w\<lparr>acc_fsmState := ACC_IDLE\<rparr>)"
      unfolding w unfolding v unfolding u using t kt idle by (auto simp: arp_idle_def arp_rest_def)
    moreover have "items (arp_siIPRX_Data ?w) = rest" "acc_fsmState ?w = ACC_UPDATE"
      "arp_soIPTX_MacLkpRep ?w = arp_soIPTX_MacLkpRep s" "items (arp_soETH_Data ?w) = items (arp_soETH_Data s) @ ?us"
      "items (arp_soCAM_MacUpdReq ?w) = items (arp_soCAM_MacUpdReq s) @ [mac_insert (am_arpSendHwAddr m) (am_arpSendProtAddr m)]"
      unfolding w unfolding v unfolding u using t(2) kt by (simp_all add: arp_rest_def del: upt.simps upt_rec)
    ultimately show ?thesis
      using run True aps_reply_bytes [of mac ownIp m] by (intro exI [of _ ?w] exI [of _ ?us]) (simp del: upt.simps upt_rec)
  qed
qed

text \<open>The memory has answered a lookup of \<open>ip\<close> with no hit.\<close>

definition arp_misses :: "Ip4Addr \<Rightarrow> EthAddr \<Rightarrow> nat \<Rightarrow> 'a ARP_scheme \<Rightarrow> 'a ARP_scheme" where
  "arp_misses ip v d s = s\<lparr>acc_fsmState := ACC_LOOKUP, acc_ipLkpKey := ip,
     arp_siCAM_MacLkpRep := Stream d [\<lparr>mlp_value = v, mlp_hit = False\<rparr>]\<rparr>"

lemma arp_request_run:
  fixes s :: "'a ARP_scheme"
  assumes "arp_idle s"
  shows "\<exists>t us. arp_runs mac ownIp (arp_misses ip v d s) t \<and> arp_idle t \<and> arp_siIPRX_Data t = arp_siIPRX_Data s \<and>
    arp_soCAM_MacUpdReq t = arp_soCAM_MacUpdReq s \<and>
    items (arp_soIPTX_MacLkpRep t) = items (arp_soIPTX_MacLkpRep s) @ [\<lparr>lkp_macAddress = v, lkp_hit = False\<rparr>] \<and>
    items (arp_soETH_Data t) = items (arp_soETH_Data s) @ us \<and> payload_ok us \<and> bytes_of us = arp_request_bytes mac ownIp ip"
proof -
  let ?S = "pArpPacketSender mac ownIp" and ?s = "arp_misses ip v d s"
  note idle = assms [unfolded arp_idle_def]
  let ?t = "pArpCamController ?s"
  have t: "?t = ?s\<lparr>arp_siCAM_MacLkpRep := Stream d [],
      arp_soIPTX_MacLkpRep := swrite (arp_soIPTX_MacLkpRep s) \<lparr>lkp_macAddress = v, lkp_hit = False\<rparr>,
      ssACcToAPs_Meta := swrite (ssACcToAPs_Meta s) ip, acc_fsmState := ACC_IDLE\<rparr>"
    by (simp add: pArpCamController_def arp_misses_def sread_def Let_def)
  have meta: "items (ssACcToAPs_Meta ?t) = ip # []" using idle unfolding t by simp
  have none: "sread (ssAPrToAPs_Meta ?t) = None" using idle unfolding t by (simp add: arp_misses_def sread_def)
  let ?u = "?S ?t"
  have "aps_fsmState ?t = APR_IDLE" using idle unfolding t by (simp add: arp_misses_def)
  then have u: "?u = ?t\<lparr>aps_sendCount := 0, ssACcToAPs_Meta := Stream (depth (ssACcToAPs_Meta ?t)) [], aps_tpaReq := ip,
      aps_fsmState := APR_SENTRQ\<rparr>"
    by (simp add: pArpPacketSender_def none sread_cons [OF meta])
  let ?us = "map (\<lambda>n. aps_request mac ownIp ip (of_nat n)) [0..<6]" and ?w = "(?S ^^ 6) ?u"
  have "aps_work mac ownIp ?u = aps_request mac ownIp ip" by (intro ext) (simp add: aps_work_def u)
  with aps_sends [of ?u 0 mac ownIp]
  have w: "?w = ?u\<lparr>aps_fsmState := APR_IDLE, aps_sendCount := 6,
      arp_soETH_Data := Stream (depth (arp_soETH_Data ?u)) (items (arp_soETH_Data ?u) @ ?us)\<rparr>"
    unfolding u by (simp del: upt.simps upt_rec funpow.simps)
  have run: "arp_runs mac ownIp ?s ?w" by (rule rtranclp_trans [OF rtranclp_trans]; rule arp_runs_funpow)
  have "arp_idle ?w \<and> arp_siIPRX_Data ?w = arp_siIPRX_Data s \<and> arp_soCAM_MacUpdReq ?w = arp_soCAM_MacUpdReq s \<and>
      items (arp_soIPTX_MacLkpRep ?w) = items (arp_soIPTX_MacLkpRep s) @ [\<lparr>lkp_macAddress = v, lkp_hit = False\<rparr>] \<and>
      items (arp_soETH_Data ?w) = items (arp_soETH_Data s) @ ?us"
    unfolding w unfolding u unfolding t using idle by (simp add: arp_idle_def arp_misses_def del: upt.simps upt_rec)
  then show ?thesis using run aps_request_bytes [of mac ownIp ip] by metis
qed

text \<open>C12. The server learns from every ARP packet and answers the requests for its own address.  A well-formed
  frame of at least 42 bytes (and at most 256 chunks, as the chunks are counted in eight bits) arrives at
  an idle server.  A run of the processes asks the memory to insert the MAC and the IPv4 address of the
  sender; and if the packet is a request for the own address, exactly one frame is sent, the reply with the
  own addresses to the sender, else none.  Then the server is idle but for the answer of the memory.\<close>

theorem arp_answers_requests:
  fixes s :: "'a ARP_scheme"
  assumes "arp_idle s" "items (arp_siIPRX_Data s) = cs @ rest" "payload_ok cs" "42 \<le> length (bytes_of cs)" "length cs \<le> 256"
    and "m = arp_meta_of (bytes_of cs)"
  shows "\<exists>t us. arp_runs mac ownIp s t \<and> arp_idle (t\<lparr>acc_fsmState := ACC_IDLE\<rparr>) \<and> acc_fsmState t = ACC_UPDATE \<and>
    items (arp_siIPRX_Data t) = rest \<and> arp_soIPTX_MacLkpRep t = arp_soIPTX_MacLkpRep s \<and>
    items (arp_soCAM_MacUpdReq t) = items (arp_soCAM_MacUpdReq s) @ [mac_insert (am_arpSendHwAddr m) (am_arpSendProtAddr m)] \<and>
    items (arp_soETH_Data t) = items (arp_soETH_Data s) @ us \<and>
    (if arp_oper_of (bytes_of cs) = 1 \<and> arp_target_of (bytes_of cs) = ownIp
     then payload_ok us \<and> bytes_of us = arp_reply_bytes mac ownIp m else us = [])"
  using assms by (rule arp_receive_run)

text \<open>A request for 10.12.8.50, sent by 10.12.8.1.\<close>

definition arp_example :: "AxisEth list" where
  "arp_example = arp_chunks 0xFFFFFFFFFFFF 0x0200000000A1 0x0806 1 0x0800 6 4 1 0x0A0C0801 aps_zero 0x0A0C0832"

lemma arp_example_ok:
  "payload_ok arp_example" "bytes_of arp_example = arp_request_bytes 0x0200000000A1 0x0A0C0801 0x0A0C0832"
  "length arp_example = 6"
proof -
  have eq: "arp_example = map (\<lambda>n. aps_request 0x0200000000A1 0x0A0C0801 0x0A0C0832 (of_nat n)) [0..<6]"
    unfolding arp_example_def by (rule aps_request_chunks [symmetric])
  show "payload_ok arp_example" "bytes_of arp_example = arp_request_bytes 0x0200000000A1 0x0A0C0801 0x0A0C0832"
    unfolding eq by (rule aps_request_bytes)+
qed (simp add: arp_example_def arp_chunks_def)

lemma arp_reset_idle: "arp_idle (arp_reset\<lparr>arp_siIPRX_Data := x\<rparr>)" "arp_idle arp_reset"
  by (simp_all add: arp_idle_def arp_reset_def)

theorem arp_answers_requests_witness:
  "\<exists>t us. arp_runs 0x0200000000B2 0x0A0C0832 (arp_reset\<lparr>arp_siIPRX_Data := Stream 16 arp_example\<rparr>) t \<and>
     items (arp_soCAM_MacUpdReq t) = [mac_insert 0x0200000000A1 0x0A0C0801] \<and> items (arp_soETH_Data t) = us \<and>
     bytes_of us = [2, 0, 0, 0, 0, 0xA1, 2, 0, 0, 0, 0, 0xB2, 8, 6, 0, 1, 8, 0, 6, 4, 0, 2,
       2, 0, 0, 0, 0, 0xB2, 10, 12, 8, 50, 2, 0, 0, 0, 0, 0xA1, 10, 12, 8, 1]"
proof -
  let ?s = "arp_reset\<lparr>arp_siIPRX_Data := Stream 16 arp_example\<rparr>"
  note f = arp_frame_reads [of "0xFFFFFFFFFFFF" "0x0200000000A1" "0x0806" 1 "0x0800" 6 4 1 "0x0200000000A1" "0x0A0C0801" 0 "0x0A0C0832"]
  let ?m = "\<lparr>am_remoteMacAddr = 0x0200000000A1, am_etherType = 0x0806, am_arpHwType = 1, am_arpProtType = 0x0800,
      am_arpHwLen = 6, am_arpProtLen = 4, am_arpSendHwAddr = 0x0200000000A1, am_arpSendProtAddr = 0x0A0C0801\<rparr>"
  have m: "?m = arp_meta_of (bytes_of arp_example)" "42 \<le> length (bytes_of arp_example)" "length arp_example \<le> 256"
    using f by (simp_all add: arp_example_ok(2,3) arp_request_bytes_def)
  have asked: "arp_oper_of (bytes_of arp_example) = 1 \<and> arp_target_of (bytes_of arp_example) = 0x0A0C0832"
    using f by (simp add: arp_example_ok(2) arp_request_bytes_def)
  have line: "items (arp_siIPRX_Data ?s) = arp_example @ []" by simp
  have none: "items (arp_soETH_Data ?s) = []" "items (arp_soCAM_MacUpdReq ?s) = []" by (simp_all add: arp_reset_def)
  from arp_answers_requests [OF arp_reset_idle(1) line arp_example_ok(1) m(2,3,1), of "0x0200000000B2" "0x0A0C0832"] asked
  obtain t us where "arp_runs 0x0200000000B2 0x0A0C0832 ?s t" "items (arp_soCAM_MacUpdReq t) = [mac_insert 0x0200000000A1 0x0A0C0801]"
    "items (arp_soETH_Data t) = us" "bytes_of us = arp_reply_bytes 0x0200000000B2 0x0A0C0832 ?m"
    unfolding none by auto
  moreover have "arp_reply_bytes 0x0200000000B2 0x0A0C0832 ?m = [2, 0, 0, 0, 0, 0xA1, 2, 0, 0, 0, 0, 0xB2, 8, 6, 0, 1, 8, 0, 6, 4, 0, 2,
       2, 0, 0, 0, 0, 0xB2, 10, 12, 8, 50, 2, 0, 0, 0, 0, 0xA1, 10, 12, 8, 1]"
    by (simp add: arp_reply_bytes_def arp_frame_def be48_def be32_def be16_def)
  ultimately show ?thesis by metis
qed

text \<open>C11. Two servers resolve an address.  When the memory of node A does not know the address of node B, the
  server of A says so to its transmitter at once and broadcasts a request.  The server of B that receives
  it has the binding of A inserted and sends a reply; the server of A that receives this has the binding
  of B inserted, and sends nothing.\<close>

theorem arp_servers_resolve:
  fixes a :: "'a ARP_scheme" and b :: "'b ARP_scheme"
  assumes "arp_idle a" "arp_idle b"
  shows "\<exists>a1 us b1 vs a2. arp_runs macA ipA (arp_misses ipB v d a) a1 \<and>
    items (arp_soIPTX_MacLkpRep a1) = items (arp_soIPTX_MacLkpRep a) @ [\<lparr>lkp_macAddress = v, lkp_hit = False\<rparr>] \<and>
    items (arp_soETH_Data a1) = items (arp_soETH_Data a) @ us \<and> take 6 (bytes_of us) = be48 0xFFFFFFFFFFFF \<and>
    arp_runs macB ipB (b\<lparr>arp_siIPRX_Data := Stream d us\<rparr>) b1 \<and>
    items (arp_soCAM_MacUpdReq b1) = items (arp_soCAM_MacUpdReq b) @ [mac_insert macA ipA] \<and>
    items (arp_soETH_Data b1) = items (arp_soETH_Data b) @ vs \<and> take 6 (bytes_of vs) = be48 macA \<and>
    arp_runs macA ipA (a1\<lparr>arp_siIPRX_Data := Stream d vs\<rparr>) a2 \<and>
    items (arp_soCAM_MacUpdReq a2) = items (arp_soCAM_MacUpdReq a) @ [mac_insert macB ipB] \<and>
    items (arp_soETH_Data a2) = items (arp_soETH_Data a1)"
proof -
  have short: "length cs \<le> 256" if "payload_ok cs" "length (bytes_of cs) = 42" for cs using payload_chunks [OF that(1)] that(2) by simp
  have idle: "arp_idle (s\<lparr>arp_siIPRX_Data := x\<rparr>) = arp_idle s" for s :: "'c ARP_scheme" and x by (simp add: arp_idle_def)
  from arp_request_run [OF assms(1), of macA ipA ipB v d] obtain a1 us where a1: "arp_runs macA ipA (arp_misses ipB v d a) a1"
    "arp_idle a1" "arp_soCAM_MacUpdReq a1 = arp_soCAM_MacUpdReq a"
    "items (arp_soIPTX_MacLkpRep a1) = items (arp_soIPTX_MacLkpRep a) @ [\<lparr>lkp_macAddress = v, lkp_hit = False\<rparr>]"
    "items (arp_soETH_Data a1) = items (arp_soETH_Data a) @ us" "payload_ok us" "bytes_of us = arp_request_bytes macA ipA ipB"
    by blast
  note f = arp_frame_reads [of "0xFFFFFFFFFFFF" macA "0x0806" 1 "0x0800" 6 4 1 macA ipA 0 ipB]
  let ?b = "b\<lparr>arp_siIPRX_Data := Stream d us\<rparr>" and ?m = "arp_meta_of (bytes_of us)"
  have us: "42 \<le> length (bytes_of us)" "length us \<le> 256" "take 6 (bytes_of us) = be48 0xFFFFFFFFFFFF"
    using f short [OF a1(6)] by (simp_all add: a1(7) arp_request_bytes_def arp_frame_head)
  have b: "arp_idle ?b" "items (arp_siIPRX_Data ?b) = us @ []" using assms(2) by (simp_all add: arp_idle_def)
  from arp_receive_run [OF b a1(6) us(1,2) refl, of macB ipB] f obtain b1 vs where
    b1: "arp_runs macB ipB ?b b1" "items (arp_soCAM_MacUpdReq b1) = items (arp_soCAM_MacUpdReq b) @ [mac_insert macA ipA]"
    "items (arp_soETH_Data b1) = items (arp_soETH_Data b) @ vs" "payload_ok vs" "bytes_of vs = arp_reply_bytes macB ipB ?m"
    by (auto simp: a1(7) arp_request_bytes_def)
  have m: "am_remoteMacAddr ?m = macA" using f by (simp add: a1(7) arp_request_bytes_def)
  note g = arp_frame_reads [of macA macB "am_etherType ?m" "am_arpHwType ?m" "am_arpProtType ?m" "am_arpHwLen ?m" "am_arpProtLen ?m" 2
      macB ipB "am_arpSendHwAddr ?m" "am_arpSendProtAddr ?m"]
  have vs: "42 \<le> length (bytes_of vs)" "length vs \<le> 256" "take 6 (bytes_of vs) = be48 macA"
    using g short [OF b1(4)] by (simp_all add: b1(5) arp_reply_bytes_def arp_frame_head m)
  let ?a = "a1\<lparr>arp_siIPRX_Data := Stream d vs\<rparr>"
  have a: "arp_idle ?a" "items (arp_siIPRX_Data ?a) = vs @ []" using a1(2) by (simp_all add: arp_idle_def)
  from arp_receive_run [OF a b1(4) vs(1,2) refl, of macA ipA] g obtain a2 where
    "arp_runs macA ipA ?a a2" "items (arp_soCAM_MacUpdReq a2) = items (arp_soCAM_MacUpdReq a) @ [mac_insert macB ipB]"
    "items (arp_soETH_Data a2) = items (arp_soETH_Data a1)"
    by (auto simp: b1(5) arp_reply_bytes_def m a1(3))
  with a1(1,4,5) us(3) b1(1-3) vs(3) show ?thesis by blast
qed

theorem arp_servers_resolve_witness:
  "\<exists>a1 us b1. arp_runs 0x0200000000A1 0x0A0C0801 (arp_misses 0x0A0C0832 0 4 arp_reset) a1 \<and> items (arp_soETH_Data a1) = us \<and>
     us \<noteq> [] \<and> arp_runs 0x0200000000B2 0x0A0C0832 (arp_reset\<lparr>arp_siIPRX_Data := Stream 4 us\<rparr>) b1 \<and>
     items (arp_soCAM_MacUpdReq b1) = [mac_insert 0x0200000000A1 0x0A0C0801]"
proof -
  have none: "items (arp_soETH_Data arp_reset) = []" "items (arp_soCAM_MacUpdReq arp_reset) = []" by (simp_all add: arp_reset_def)
  have "take 6 (bytes_of us) = be48 0xFFFFFFFFFFFF \<Longrightarrow> us \<noteq> []" for us by (auto simp: be48_def)
  with arp_servers_resolve [OF arp_reset_idle(2) arp_reset_idle(2), of "0x0200000000A1" "0x0A0C0801" "0x0A0C0832" 0 4 "0x0200000000B2"]
  show ?thesis unfolding none by (metis append_Nil)
qed

end
