(* ===== verification/Rlb.thy ===== *)
theory Rlb
  imports Prelude
begin

text \<open>
  The ready logic barrier, \<open>NTS/rlb/src/rlb.cpp\<close>: the stack is ready when the UDP and the TCP offload engine
  have both said so.
\<close>

datatype RlbState = RLB_BARRIER | RLB_SYNC

record RLB =
  rlb_poMMIO_Ready :: bool
  rlb_siUOE_Ready :: "bool stream"
  rlb_siTOE_Ready :: "bool stream"
  rlb_fsmState :: RlbState
  rlb_uoeReady :: bool
  rlb_toeReady :: bool

definition rlb :: "'a RLB_scheme \<Rightarrow> 'a RLB_scheme" where
  "rlb s = (case rlb_fsmState s of
     RLB_BARRIER \<Rightarrow>
       (let s = s\<lparr>rlb_poMMIO_Ready := False\<rparr>;
            s = (case sread (rlb_siUOE_Ready s) of None \<Rightarrow> s | Some (r, si) \<Rightarrow> s\<lparr>rlb_siUOE_Ready := si, rlb_uoeReady := r\<rparr>);
            s = (case sread (rlb_siTOE_Ready s) of None \<Rightarrow> s | Some (r, si) \<Rightarrow> s\<lparr>rlb_siTOE_Ready := si, rlb_toeReady := r\<rparr>)
        in if rlb_uoeReady s \<and> rlb_toeReady s then s\<lparr>rlb_fsmState := RLB_SYNC\<rparr> else s)
   | RLB_SYNC \<Rightarrow> s\<lparr>rlb_poMMIO_Ready := True\<rparr>)"

text \<open>The engines report at any time.\<close>

inductive rlb_step :: "RLB \<Rightarrow> RLB \<Rightarrow> bool" where
  pass: "rlb_step s (rlb s)"
| uoe: "rlb_step s (s\<lparr>rlb_siUOE_Ready := swrite (rlb_siUOE_Ready s) r\<rparr>)"
| toe: "rlb_step s (s\<lparr>rlb_siTOE_Ready := swrite (rlb_siTOE_Ready s) r\<rparr>)"

inductive_cases rlb_stepE: "rlb_step s t"

text \<open>The signal is up only behind the barrier, and the barrier falls only when both engines are ready; it
  never comes up again.\<close>

definition rlb_inv :: "RLB \<Rightarrow> bool" where
  "rlb_inv s \<longleftrightarrow> (rlb_poMMIO_Ready s \<longrightarrow> rlb_fsmState s = RLB_SYNC) \<and>
     (rlb_fsmState s = RLB_SYNC \<longrightarrow> rlb_uoeReady s \<and> rlb_toeReady s)"

lemma rlb_inv_step: "rlb_step s t \<Longrightarrow> rlb_inv s \<Longrightarrow> rlb_inv t"
  by (erule rlb_stepE) (auto simp: rlb_inv_def rlb_def Let_def split: RlbState.splits option.splits)

lemma rlb_sync_stays: "rlb_step s t \<Longrightarrow> rlb_fsmState s = RLB_SYNC \<Longrightarrow> rlb_fsmState t = RLB_SYNC"
  by (erule rlb_stepE) (auto simp: rlb_def)

lemma rlb_ready_needs_both: "rlb_step\<^sup>*\<^sup>* s t \<Longrightarrow> rlb_inv s \<Longrightarrow> rlb_poMMIO_Ready t \<Longrightarrow> rlb_uoeReady t \<and> rlb_toeReady t"
proof -
  assume "rlb_step\<^sup>*\<^sup>* s t" "rlb_inv s" "rlb_poMMIO_Ready t"
  moreover from this(1,2) have "rlb_inv t" by (induction rule: rtranclp_induct) (auto intro: rlb_inv_step)
  ultimately show "rlb_uoeReady t \<and> rlb_toeReady t" by (auto simp: rlb_inv_def)
qed

text \<open>When both have reported, two passes raise the signal.\<close>

lemma rlb_becomes_ready:
  assumes "rlb_fsmState s = RLB_BARRIER" "items (rlb_siUOE_Ready s) = True # us" "items (rlb_siTOE_Ready s) = True # ts"
  shows "rlb_poMMIO_Ready (rlb (rlb s))"
  using assms by (simp add: rlb_def [of s] sread_cons [OF assms(2)] sread_def Let_def) (simp add: rlb_def)

end
