(* ===== verification/Icmp.thy ===== *)
theory Icmp
  imports Ip_Deliver
begin

text \<open>
  The ICMP server, \<open>NTS/icmp/src/icmp.cpp\<close>: the checker (ICc) verifies the checksum of a message and turns
  an echo request into the reply, the dropper (IPd) discards what must not be answered, the control message
  builder (CMb) and the header appender (IHa) make the error messages, and the inserter (ICi) writes the
  checksum into both and sends them to \<open>NTS/iptx\<close>.
\<close>

section \<open>Header fields\<close>

text \<open>The fields of \<open>AxisIp4\<close>, whose third chunk has the first bytes of the ICMP message in its upper half, and
  those of \<open>AxisIcmp\<close>.\<close>

type_synonym AxisIcmp = AxisApp
type_synonym IcmpCsum = "16 word"

definition getIp4HdrCsum :: "AxisIp4 \<Rightarrow> 16 word" where "getIp4HdrCsum = get16 16"
definition getIp4SrcAddr :: "AxisIp4 \<Rightarrow> 32 word" where "getIp4SrcAddr = get32 32"
definition ip4_setIcmpType :: "8 word \<Rightarrow> AxisIp4 \<Rightarrow> AxisIp4" where "ip4_setIcmpType v = set8 32 v"
definition ip4_getIcmpType :: "AxisIp4 \<Rightarrow> 8 word" where "ip4_getIcmpType c = ucast (get_range 39 32 (ax_tdata c))"
definition ip4_setIcmpCode :: "8 word \<Rightarrow> AxisIp4 \<Rightarrow> AxisIp4" where "ip4_setIcmpCode v = set8 40 v"
definition ip4_getIcmpCode :: "AxisIp4 \<Rightarrow> 8 word" where "ip4_getIcmpCode c = ucast (get_range 47 40 (ax_tdata c))"
definition ip4_setIcmpCsum :: "IcmpCsum \<Rightarrow> AxisIp4 \<Rightarrow> AxisIp4" where "ip4_setIcmpCsum v = set16 48 v"
definition ip4_getIcmpCsum :: "AxisIp4 \<Rightarrow> IcmpCsum" where "ip4_getIcmpCsum = get16 48"
definition setIcmpType :: "8 word \<Rightarrow> AxisIcmp \<Rightarrow> AxisIcmp" where "setIcmpType v = set8 0 v"
definition getIcmpType :: "AxisIcmp \<Rightarrow> 8 word" where "getIcmpType c = ucast (get_range 7 0 (ax_tdata c))"
definition setIcmpCode :: "8 word \<Rightarrow> AxisIcmp \<Rightarrow> AxisIcmp" where "setIcmpCode v = set8 8 v"
definition getIcmpCode :: "AxisIcmp \<Rightarrow> 8 word" where "getIcmpCode c = ucast (get_range 15 8 (ax_tdata c))"
definition getIcmpCsum :: "AxisIcmp \<Rightarrow> IcmpCsum" where "getIcmpCsum = get16 16"

definition ICMP_ECHO_REPLY :: "8 word" where "ICMP_ECHO_REPLY = 0x00"
definition ICMP_DESTINATION_UNREACHABLE :: "8 word" where "ICMP_DESTINATION_UNREACHABLE = 0x03"
definition ICMP_ECHO_REQUEST :: "8 word" where "ICMP_ECHO_REQUEST = 0x08"
definition ICMP_TIME_EXCEEDED :: "8 word" where "ICMP_TIME_EXCEEDED = 0x0B"
definition ICMP_TTL_EXPIRED_IN_TRANSIT :: "8 word" where "ICMP_TTL_EXPIRED_IN_TRANSIT = 0x00"
definition ICMP_DESTINATION_PORT_UNREACHABLE :: "8 word" where "ICMP_DESTINATION_PORT_UNREACHABLE = 0x03"
definition ICMP_PROTOCOL :: "8 word" where "ICMP_PROTOCOL = 0x01"

section \<open>State\<close>

datatype IccState = ICC_S0 | ICC_S1 | ICC_S2 | ICC_S3
datatype BcmState = BCM_IDLE | BCM_IP | BCM_STREAM | BCM_CS
datatype AihState = AIH_IDLE | AIH_IP | AIH_MERGE | AIH_STREAM | AIH_RESIDUE

text \<open>The arrays of two streams are two fields each, the first from the path of echo messages (\<open>IPd\<close>, \<open>ICc\<close>) and
  the second from the path of error messages (\<open>IHa\<close>, \<open>CMb\<close>).  A drop command is \<open>True\<close> for \<open>CMD_DROP\<close>; a stream
  source of one bit is \<open>True\<close> for 1.\<close>

record ICMP =
  icm_siIPRX_Data :: "AxisIp4 stream"
  icm_siIPRX_Derr :: "AxisIp4 stream"
  icm_siUOE_Data :: "AxisIcmp stream"
  icm_soIPTX_Data :: "AxisIp4 stream"
  ssICcToIPd_Data :: "AxisIp4 stream"
  ssICcToIPd_DropCmd :: "bool stream"
  ssCMbToIHa_Data :: "AxisIcmp stream"
  ssCMbToIHa_IpHdr :: "AxisIp4 stream"
  ssXYzToICi_Data0 :: "AxisIp4 stream"
  ssXYzToICi_Data1 :: "AxisIp4 stream"
  ssUVwToICi_Csum0 :: "IcmpCsum stream"
  ssUVwToICi_Csum1 :: "IcmpCsum stream"
  icc_writeLastOne :: bool
  icc_computeCs :: bool
  icc_chunkCount :: "7 word"
  icc_csumState :: IccState
  icc_prevChunk :: AxisIp4
  icc_subSums :: SubCSums
  icc_oldHCsum :: IcmpCsum
  icc_newHCsum :: "17 word"
  icc_icmpType :: "8 word"
  icc_icmpCode :: "8 word"
  bcm_fsmState :: BcmState
  bcm_ipChunkCounter :: "3 word"
  bcm_checksumAcc :: "20 word"
  bcm_streamSource :: bool
  aih_fsmState :: AihState
  iha_icmpData :: AxisIcmp
  iha_ipHdrChunk :: AxisIp4
  iha_remoteIpHostAddr :: Ip4Addr
  ipd_isFirstChunk :: bool
  ipd_drop :: bool
  ici_chunkCount :: "7 word"
  ici_dataStreamSource :: bool

section \<open>The checksum checker\<close>

text \<open>The four activations after a packet: the sums are combined and the checksum of the reply is updated as in
  RFC 1624, \<open>~(~HC + ~m + m')\<close> with the old type and code \<open>m\<close> and the new ones \<open>m'\<close>.\<close>

definition icc_ping :: "'a ICMP_scheme \<Rightarrow> bool" where
  "icc_ping s \<longleftrightarrow> icc_icmpType s = ICMP_ECHO_REQUEST \<and> icc_icmpCode s = 0"

definition icc_compute :: "'a ICMP_scheme \<Rightarrow> 'a ICMP_scheme" where
  "icc_compute s = (let v = icc_subSums s in case icc_csumState s of
     ICC_S0 \<Rightarrow>
       s\<lparr>icc_subSums := v\<lparr>sum0 := csum_fold (sum0 v + sum2 v), sum1 := csum_fold (sum1 v + sum3 v)\<rparr>,
         icc_newHCsum := ucast (NOT (icc_oldHCsum s)), icc_csumState := ICC_S1\<rparr>
   | ICC_S1 \<Rightarrow>
       s\<lparr>icc_subSums := v\<lparr>sum0 := csum_fold (sum0 v + sum1 v)\<rparr>,
         icc_newHCsum := (if icc_ping s then csum_fold (icc_newHCsum s + (NOT 0x0800 AND 0xFFFF) + 0x0000) else icc_newHCsum s),
         icc_csumState := ICC_S2\<rparr>
   | ICC_S2 \<Rightarrow>
       s\<lparr>icc_subSums := v\<lparr>sum0 := NOT (sum0 v)\<rparr>, icc_newHCsum := NOT (icc_newHCsum s) AND 0xFFFF, icc_csumState := ICC_S3\<rparr>
   | ICC_S3 \<Rightarrow>
       (let s = (if take_bit 16 (sum0 v) = 0 \<and> icc_ping s
                 then s\<lparr>ssUVwToICi_Csum0 := swrite (ssUVwToICi_Csum0 s) (ucast (icc_newHCsum s)),
                        ssICcToIPd_DropCmd := swrite (ssICcToIPd_DropCmd s) False\<rparr>
                 else s\<lparr>ssICcToIPd_DropCmd := swrite (ssICcToIPd_DropCmd s) True\<rparr>)
        in s\<lparr>icc_csumState := ICC_S0, icc_computeCs := False\<rparr>))"

text \<open>The second chunk of a packet with its source address replaced, and the third with the addresses swapped and
  the type of the reply.\<close>

definition icc_second :: "AxisIp4 \<Rightarrow> AxisIp4 \<Rightarrow> AxisIp4" where
  "icc_second p c = setIp4SrcAddr (getIp4DstAddr c) (setIp4HdrCsum (getIp4HdrCsum p) (setIp4Prot (getIp4Prot p)
     (setIp4TtL (getIp4TtL p) \<lparr>ax_tdata = 0, ax_tkeep = 0xFF, ax_tlast = False\<rparr>)))"

definition icc_third :: "AxisIp4 \<Rightarrow> AxisIp4 \<Rightarrow> AxisIp4" where
  "icc_third p c = ip4_setIcmpType ICMP_ECHO_REPLY (setIp4DstAddr (getIp4SrcAddr p) c)"

text \<open>A chunk by its number; the result has the chunk that becomes the previous one.\<close>

definition icc_chunk :: "AxisIp4 \<Rightarrow> 'a ICMP_scheme \<Rightarrow> AxisIp4 \<times> 'a ICMP_scheme" where
  "icc_chunk c s = (let v = icc_subSums s in
     if icc_chunkCount s = 0 then (c, s\<lparr>icc_subSums := SubCSums_zero\<rparr>)
     else if icc_chunkCount s = 1 then (c, s\<lparr>ssICcToIPd_Data := swrite (ssICcToIPd_Data s) (icc_prevChunk s)\<rparr>)
     else if icc_chunkCount s = 2 then
       (icc_third (icc_prevChunk s) c,
        s\<lparr>icc_icmpType := ip4_getIcmpType c, icc_icmpCode := ip4_getIcmpCode c, icc_oldHCsum := ip4_getIcmpCsum c,
          ssICcToIPd_Data := swrite (ssICcToIPd_Data s) (icc_second (icc_prevChunk s) c),
          icc_subSums := hca_sum (\<lambda>i. 2 \<le> i) c v\<rparr>)
     else
       (c, s\<lparr>icc_subSums := sca_add c v, ssICcToIPd_Data := swrite (ssICcToIPd_Data s) (icc_prevChunk s)\<rparr>))"

definition pIcmpChecksumChecker :: "'a ICMP_scheme \<Rightarrow> 'a ICMP_scheme" where
  "pIcmpChecksumChecker s =
     (if icc_writeLastOne s
      then s\<lparr>ssICcToIPd_Data := swrite (ssICcToIPd_Data s) (icc_prevChunk s), icc_writeLastOne := False\<rparr>
      else if icc_computeCs s then icc_compute s
      else
        (case sread (icm_siIPRX_Data s) of
           None \<Rightarrow> s
         | Some (c, si) \<Rightarrow>
             (let (c, s) = icc_chunk c (s\<lparr>icm_siIPRX_Data := si\<rparr>);
                  s = s\<lparr>icc_prevChunk := c, icc_chunkCount := icc_chunkCount s + 1\<rparr>
              in if ax_tlast c
                 then s\<lparr>icc_chunkCount := 0, icc_writeLastOne := True, icc_computeCs := True\<rparr> else s)))"

section \<open>The packet dropper\<close>

text \<open>\<open>junk\<close> is the last flag of the chunk that no constructor initialises.\<close>

definition pInvalidPacketDropper :: "bool \<Rightarrow> 'a ICMP_scheme \<Rightarrow> 'a ICMP_scheme" where
  "pInvalidPacketDropper junk s =
     (case sread (ssICcToIPd_Data s) of
        None \<Rightarrow> s
      | Some (c, si) \<Rightarrow>
          (let (last, s) =
             (if ipd_isFirstChunk s then
                (case sread (ssICcToIPd_DropCmd s) of
                   None \<Rightarrow> (junk, s)
                 | Some (dropCmd, sd) \<Rightarrow>
                     (let s = s\<lparr>ssICcToIPd_Data := si, ssICcToIPd_DropCmd := sd, ipd_isFirstChunk := False\<rparr> in
                      (ax_tlast c, if \<not> dropCmd then s\<lparr>ssXYzToICi_Data0 := swrite (ssXYzToICi_Data0 s) c\<rparr>
                                   else s\<lparr>ipd_drop := True\<rparr>)))
              else if ipd_drop s then (ax_tlast c, s\<lparr>ssICcToIPd_Data := si\<rparr>)
              else (ax_tlast c, s\<lparr>ssICcToIPd_Data := si, ssXYzToICi_Data0 := swrite (ssXYzToICi_Data0 s) c\<rparr>))
           in if last then s\<lparr>ipd_drop := False, ipd_isFirstChunk := True\<rparr> else s))"

section \<open>Error messages\<close>

text \<open>What a chunk adds to the sum: its four words, each in the order of the bus.\<close>

definition bcm_add :: "AxisIcmp \<Rightarrow> 20 word" where
  "bcm_add c = ucast (get_range 63 48 (ax_tdata c)) + ucast (get_range 47 32 (ax_tdata c)) +
     ucast (get_range 31 16 (ax_tdata c)) + ucast (get_range 15 0 (ax_tdata c))"

definition bcm_input :: "'a ICMP_scheme \<Rightarrow> (AxisIcmp \<times> 'a ICMP_scheme) option" where
  "bcm_input s =
     (if \<not> bcm_streamSource s
      then map_option (\<lambda>(c, si). (c, s\<lparr>icm_siUOE_Data := si\<rparr>)) (sread (icm_siUOE_Data s))
      else map_option (\<lambda>(c, si). (c, s\<lparr>icm_siIPRX_Derr := si\<rparr>)) (sread (icm_siIPRX_Derr s)))"

definition bcm_header :: "bool \<Rightarrow> AxisIcmp" where
  "bcm_header ttl = (let c = \<lparr>ax_tdata = 0, ax_tkeep = 0xFF, ax_tlast = False\<rparr> in
     if \<not> ttl then setIcmpCode ICMP_DESTINATION_PORT_UNREACHABLE (setIcmpType ICMP_DESTINATION_UNREACHABLE c)
     else setIcmpCode ICMP_TTL_EXPIRED_IN_TRANSIT (setIcmpType ICMP_TIME_EXCEEDED c))"

definition bcm_fold :: "20 word \<Rightarrow> 20 word" where
  "bcm_fold v = (v AND 0xFFFF) + drop_bit 16 v"

definition pControlMessageBuilder :: "'a ICMP_scheme \<Rightarrow> 'a ICMP_scheme" where
  "pControlMessageBuilder s = (case bcm_fsmState s of
     BCM_IDLE \<Rightarrow>
       (if (\<not> sempty (icm_siUOE_Data s) \<or> \<not> sempty (icm_siIPRX_Derr s)) \<and> \<not> sfull (ssCMbToIHa_Data s) then
          (let ttl = sempty (icm_siUOE_Data s); c = bcm_header ttl in
           s\<lparr>bcm_ipChunkCounter := 0, bcm_streamSource := ttl, bcm_checksumAcc := bcm_add c,
             ssCMbToIHa_Data := swrite (ssCMbToIHa_Data s) c, bcm_fsmState := BCM_IP\<rparr>)
        else s)
   | BCM_IP \<Rightarrow>
       (if sfull (ssCMbToIHa_Data s) \<or> sfull (ssCMbToIHa_IpHdr s) then s
        else
          (case bcm_input s of
             None \<Rightarrow> s
           | Some (c, s) \<Rightarrow>
               (let s = s\<lparr>bcm_checksumAcc := bcm_checksumAcc s + bcm_add c,
                          ssCMbToIHa_Data := swrite (ssCMbToIHa_Data s) c, ssCMbToIHa_IpHdr := swrite (ssCMbToIHa_IpHdr s) c\<rparr>
                in if bcm_ipChunkCounter s = 2 then s\<lparr>bcm_fsmState := BCM_STREAM\<rparr>
                   else s\<lparr>bcm_ipChunkCounter := bcm_ipChunkCounter s + 1\<rparr>)))
   | BCM_STREAM \<Rightarrow>
       (if sfull (ssCMbToIHa_Data s) then s
        else
          (case bcm_input s of
             None \<Rightarrow> s
           | Some (c, s) \<Rightarrow>
               s\<lparr>bcm_checksumAcc := bcm_checksumAcc s + bcm_add c, ssCMbToIHa_Data := swrite (ssCMbToIHa_Data s) c,
                 bcm_fsmState := (if ax_tlast c then BCM_CS else BCM_STREAM)\<rparr>))
   | BCM_CS \<Rightarrow>
       (if sfull (ssUVwToICi_Csum1 s) then s
        else
          (let x = NOT (bcm_fold (bcm_fold (bcm_checksumAcc s))) in
           s\<lparr>bcm_checksumAcc := x, ssUVwToICi_Csum1 := swrite (ssUVwToICi_Csum1 s) (ucast x), bcm_fsmState := BCM_IDLE\<rparr>)))"

definition iha_flat :: "AxisIp4 \<Rightarrow> AxisIp4" where
  "iha_flat c = c\<lparr>ax_tkeep := 0xFF, ax_tlast := False\<rparr>"

definition iha_join :: "AxisIcmp \<Rightarrow> AxisIcmp \<Rightarrow> AxisIp4" where
  "iha_join p c = setLE_TData (get_range 31 0 (ax_tdata c)) 63 32
     (setLE_TData (get_range 63 32 (ax_tdata p)) 31 0 \<lparr>ax_tdata = 0, ax_tkeep = 0xFF, ax_tlast = False\<rparr>)"

definition iha_residue :: "AxisIcmp \<Rightarrow> AxisIp4" where
  "iha_residue p = setLE_TKeep (get_range 7 4 (ax_tkeep p)) 3 0 (setLE_TData (get_range 63 32 (ax_tdata p)) 31 0
     \<lparr>ax_tdata = 0, ax_tkeep = 0, ax_tlast = True\<rparr>)"

definition pIpHeaderAppender :: "Ip4Addr \<Rightarrow> 'a ICMP_scheme \<Rightarrow> 'a ICMP_scheme" where
  "pIpHeaderAppender ownIp s =
     (if sfull (ssXYzToICi_Data1 s) then s
      else case aih_fsmState s of
        AIH_IDLE \<Rightarrow>
          (case sread (ssCMbToIHa_IpHdr s) of
             None \<Rightarrow> s
           | Some (c, sh) \<Rightarrow>
               (let w = iha_flat (setIp4TotalLen (getIp4TotalLen c + 28) c) in
                s\<lparr>ssCMbToIHa_IpHdr := sh, iha_ipHdrChunk := w, ssXYzToICi_Data1 := swrite (ssXYzToICi_Data1 s) w,
                  aih_fsmState := AIH_IP\<rparr>))
      | AIH_IP \<Rightarrow>
          (case sread (ssCMbToIHa_IpHdr s) of
             None \<Rightarrow> s
           | Some (c, sh) \<Rightarrow>
               (let w = setIp4Prot ICMP_PROTOCOL (setIp4TtL 0x80 c); r = getIp4SrcAddr w; w = iha_flat (setIp4SrcAddr ownIp w) in
                s\<lparr>ssCMbToIHa_IpHdr := sh, iha_ipHdrChunk := w, iha_remoteIpHostAddr := r,
                  ssXYzToICi_Data1 := swrite (ssXYzToICi_Data1 s) w, aih_fsmState := AIH_MERGE\<rparr>))
      | AIH_MERGE \<Rightarrow>
          (case (sread (ssCMbToIHa_IpHdr s), sread (ssCMbToIHa_Data s)) of
             (Some (_, sh), Some (c, sd)) \<Rightarrow>
               (let w = ip4_setIcmpCsum (getIcmpCsum c) (ip4_setIcmpCode (getIcmpCode c) (ip4_setIcmpType (getIcmpType c)
                     (setIp4DstAddr (iha_remoteIpHostAddr s) \<lparr>ax_tdata = 0, ax_tkeep = 0xFF, ax_tlast = False\<rparr>))) in
                s\<lparr>ssCMbToIHa_IpHdr := sh, ssCMbToIHa_Data := sd, iha_icmpData := c,
                  ssXYzToICi_Data1 := swrite (ssXYzToICi_Data1 s) w, aih_fsmState := AIH_STREAM\<rparr>)
           | _ \<Rightarrow> s)
      | AIH_STREAM \<Rightarrow>
          (case sread (ssCMbToIHa_Data s) of
             None \<Rightarrow> s
           | Some (c, sd) \<Rightarrow>
               (let w = iha_join (iha_icmpData s) c; over = (ax_tlast c \<and> get_range 7 4 (ax_tkeep c) = 0);
                    w = (if over then setLE_TKeep (get_range 3 0 (ax_tkeep c)) 7 4 (w\<lparr>ax_tlast := True\<rparr>) else w) in
                s\<lparr>ssCMbToIHa_Data := sd, iha_icmpData := c, ssXYzToICi_Data1 := swrite (ssXYzToICi_Data1 s) w,
                  aih_fsmState := (if over then AIH_IDLE else if ax_tlast c then AIH_RESIDUE else AIH_STREAM)\<rparr>))
      | AIH_RESIDUE \<Rightarrow>
          s\<lparr>ssXYzToICi_Data1 := swrite (ssXYzToICi_Data1 s) (iha_residue (iha_icmpData s)), aih_fsmState := AIH_IDLE\<rparr>)"

section \<open>The checksum inserter\<close>

definition ici_read :: "bool \<Rightarrow> 'a ICMP_scheme \<Rightarrow> (AxisIp4 \<times> 'a ICMP_scheme) option" where
  "ici_read src s =
     (if \<not> src then map_option (\<lambda>(c, si). (c, s\<lparr>ssXYzToICi_Data0 := si\<rparr>)) (sread (ssXYzToICi_Data0 s))
      else map_option (\<lambda>(c, si). (c, s\<lparr>ssXYzToICi_Data1 := si\<rparr>)) (sread (ssXYzToICi_Data1 s)))"

definition ici_csum :: "bool \<Rightarrow> 'a ICMP_scheme \<Rightarrow> (IcmpCsum \<times> 'a ICMP_scheme) option" where
  "ici_csum src s =
     (if \<not> src then map_option (\<lambda>(x, si). (x, s\<lparr>ssUVwToICi_Csum0 := si\<rparr>)) (sread (ssUVwToICi_Csum0 s))
      else map_option (\<lambda>(x, si). (x, s\<lparr>ssUVwToICi_Csum1 := si\<rparr>)) (sread (ssUVwToICi_Csum1 s)))"

definition ici_put :: "AxisIp4 \<Rightarrow> 'a ICMP_scheme \<Rightarrow> 'a ICMP_scheme" where
  "ici_put c s = s\<lparr>icm_soIPTX_Data := swrite (icm_soIPTX_Data s) c\<rparr>"

definition pIcmpChecksumInserter :: "'a ICMP_scheme \<Rightarrow> 'a ICMP_scheme" where
  "pIcmpChecksumInserter s =
     (if ici_chunkCount s = 0 then
        (let src = sempty (ssXYzToICi_Data0 s) in
         (case ici_read src s of
            None \<Rightarrow> s
          | Some (c, s) \<Rightarrow> (ici_put c s)\<lparr>ici_dataStreamSource := src, ici_chunkCount := ici_chunkCount s + 1\<rparr>))
      else if ici_chunkCount s = 2 then
        (case ici_read (ici_dataStreamSource s) s of
           None \<Rightarrow> s
         | Some (c, t) \<Rightarrow>
             (case ici_csum (ici_dataStreamSource t) t of
                None \<Rightarrow> s
              | Some (x, t) \<Rightarrow> (ici_put (ip4_setIcmpCsum x c) t)\<lparr>ici_chunkCount := ici_chunkCount t + 1\<rparr>))
      else
        (case ici_read (ici_dataStreamSource s) s of
           None \<Rightarrow> s
         | Some (c, s) \<Rightarrow> (ici_put c s)\<lparr>ici_chunkCount := (if ax_tlast c then 0 else ici_chunkCount s + 1)\<rparr>))"

section \<open>The server\<close>

text \<open>The checker, the dropper and the inserter write without asking whether the FIFO is full.  In hardware such a
  process waits, so that an activation that would overfill a FIFO has no effect.\<close>

definition fits :: "'a stream \<Rightarrow> bool" where
  "fits st \<longleftrightarrow> length (items st) \<le> depth st"

definition icmp_fits :: "'a ICMP_scheme \<Rightarrow> bool" where
  "icmp_fits s \<longleftrightarrow> fits (ssICcToIPd_Data s) \<and> fits (ssICcToIPd_DropCmd s) \<and> fits (ssUVwToICi_Csum0 s) \<and>
     fits (ssXYzToICi_Data0 s) \<and> fits (icm_soIPTX_Data s)"

definition waiting :: "('a ICMP_scheme \<Rightarrow> 'a ICMP_scheme) \<Rightarrow> 'a ICMP_scheme \<Rightarrow> 'a ICMP_scheme" where
  "waiting p s = (if icmp_fits (p s) then p s else s)"

text \<open>One activation of the server, the processes in the order of \<open>icmp\<close>.\<close>

definition icmp :: "Ip4Addr \<Rightarrow> bool \<Rightarrow> 'a ICMP_scheme \<Rightarrow> 'a ICMP_scheme" where
  "icmp ownIp junk s =
     waiting pIcmpChecksumInserter (pIpHeaderAppender ownIp (pControlMessageBuilder
       (waiting (pInvalidPacketDropper junk) (waiting pIcmpChecksumChecker s))))"

text \<open>The server after reset; \<open>d\<close> is the depth of the FIFO to \<open>NTS/iptx\<close>, which is not its own.\<close>

definition icmp_reset :: "nat \<Rightarrow> ICMP" where
  "icmp_reset d = \<lparr>icm_siIPRX_Data = Stream 0 [], icm_siIPRX_Derr = Stream 0 [], icm_siUOE_Data = Stream 0 [],
     icm_soIPTX_Data = Stream d [], ssICcToIPd_Data = Stream 64 [], ssICcToIPd_DropCmd = Stream 8 [],
     ssCMbToIHa_Data = Stream 192 [], ssCMbToIHa_IpHdr = Stream 64 [], ssXYzToICi_Data0 = Stream 16 [],
     ssXYzToICi_Data1 = Stream 16 [], ssUVwToICi_Csum0 = Stream 16 [], ssUVwToICi_Csum1 = Stream 16 [],
     icc_writeLastOne = False, icc_computeCs = False, icc_chunkCount = 0, icc_csumState = ICC_S0,
     icc_prevChunk = AxisApp_zero, icc_subSums = SubCSums_zero, icc_oldHCsum = 0, icc_newHCsum = 0,
     icc_icmpType = 0, icc_icmpCode = 0, bcm_fsmState = BCM_IDLE, bcm_ipChunkCounter = 0, bcm_checksumAcc = 0,
     bcm_streamSource = False, aih_fsmState = AIH_IDLE, iha_icmpData = AxisApp_zero, iha_ipHdrChunk = AxisApp_zero,
     iha_remoteIpHostAddr = 0, ipd_isFirstChunk = True, ipd_drop = False, ici_chunkCount = 0,
     ici_dataStreamSource = False\<rparr>"

end
