(* ===== verification/Icmp_Echo.thy ===== *)
theory Icmp_Echo
  imports Icmp
begin

text \<open>
  What the ICMP server (\<open>Icmp\<close>) does with a message: an echo request with a valid checksum is answered
  with the reply that a server would compute from scratch, everything else is dropped, and a message that is
  longer than the FIFO before the dropper stops the server.
\<close>

section \<open>The bytes of the reply\<close>

text \<open>A packet with an IPv4 header of 20 bytes: whether it is a valid echo request, and the reply, whose checksum is
  that of its own message.\<close>

definition echo_request :: "8 word list \<Rightarrow> bool" where
  "echo_request pkt \<longleftrightarrow> pkt ! 20 = 8 \<and> pkt ! 21 = 0 \<and> inet_checksum (drop 20 pkt) = 0"

definition echo_reply :: "8 word list \<Rightarrow> 8 word list" where
  "echo_reply pkt = (let rest = drop 24 pkt in
     take 12 pkt @ take 4 (drop 16 pkt) @ take 4 (drop 12 pkt) @
     [0, 0] @ be16 (inet_checksum ([0, 0, 0, 0] @ rest)) @ rest)"

text \<open>The checksum that the incremental update gives.\<close>

definition icc_updated :: "IcmpCsum \<Rightarrow> IcmpCsum" where
  "icc_updated hc = NOT (of_nat (ones_sum (unat (NOT hc) + 0xF7FF)))"

lemma ones_sum_cong:
  assumes "a mod 65535 = b mod 65535" "a \<noteq> 0" "b \<noteq> 0"
  shows "ones_sum a = ones_sum b"
proof -
  have "ones_sum x = (if x mod 65535 = 0 then 65535 else x mod 65535)" if x: "x \<noteq> 0" for x
  proof -
    obtain y where y: "x = Suc y" using x by (cases x) auto
    show ?thesis unfolding y ones_sum_def by (simp add: mod_Suc)
  qed
  then show ?thesis using assms by simp
qed

text \<open>The update is the sum from scratch, provided that some byte after the header is not zero.\<close>

lemma icc_updated_reply:
  assumes "ones_sum (256 * 8 + unat hc + s) = 65535" "s \<noteq> 0"
  shows "icc_updated hc = NOT (of_nat (ones_sum s))"
proof -
  have "unat hc < 2 ^ LENGTH(16)" by (rule unsigned_less)
  then have hc: "unat hc \<le> 65535" by simp
  have "NOT hc = - 1 - hc" by (simp add: not_eq_complement)
  then have "unat (NOT hc) = unat (- 1 :: 16 word) - unat hc" by (simp only: unat_sub word_order.extremum)
  then have "unat (NOT hc) = 65535 - unat hc" by (simp add: unsigned_minus_1_eq_mask mask_eq_exp_minus_1)
  moreover have "(65535 - unat hc + 63487) mod 65535 = s mod 65535"
  proof -
    have "(256 * 8 + unat hc + s) mod 65535 = 0"
    proof -
      have "(2047 + (unat hc + s)) mod 65535 = 65534" using assms(1) by (simp add: ones_sum_def)
      then have "Suc (2047 + (unat hc + s)) mod 65535 = 0" by (simp only: mod_Suc) simp
      then show ?thesis by (simp add: add.assoc)
    qed
    then obtain k where "256 * 8 + unat hc + s = 65535 * k" by (auto simp: mod_eq_0_iff_dvd dvd_def)
    then have "65535 - unat hc + 63487 + 65535 * k = s + 65535 * 2" using hc by simp
    then show ?thesis by (metis mod_mult_self2)
  qed
  ultimately show ?thesis
    using assms(2) ones_sum_cong [of "65535 - unat hc + 63487" s] by (simp add: icc_updated_def)
qed

text \<open>The chunks that the checker changes, by their bytes.\<close>

lemma be16_nth: "l < 7 \<Longrightarrow> j < 2 \<Longrightarrow> be16 (get16 (8 * l) c) ! j = byte_of c (l + j)"
  by (auto simp: be16_get16 less_2_cases_iff)

lemma be32_nth:
  assumes "l < 5" "j < 4"
  shows "be32 (get32 (8 * l) c) ! j = byte_of c (l + j)"
proof -
  have "j = 0 \<or> j = 1 \<or> j = 2 \<or> j = 3" using assms(2) by auto
  then show ?thesis using be32_get32 [OF assms(1), of c] by auto
qed

lemma byte_of_icc_second:
  assumes "i < 8"
  shows "byte_of (icc_second p c) i = (if i < 4 then byte_of p i else byte_of c (i - 4))"
proof -
  note set8 = byte_of_set8 [of i 0, simplified] byte_of_set8 [of i 1, simplified]
  note set16 = byte_of_set16 [of i 2, simplified] note set32 = byte_of_set32 [of i 4, simplified]
  have "be16 (get16 16 p) ! (i - 2) = byte_of p i" if "2 \<le> i" "i < 4"
    using be16_nth [of 2 "i - 2" p] le_add_diff_inverse [OF that(1)] that by simp
  moreover have "be32 (get32 0 c) ! (i - 4) = byte_of c (i - 4)" if "4 \<le> i"
    using be32_nth [of 0 "i - 4" c] that assms by simp
  moreover have "ucast (get_range 7 0 (ax_tdata p)) = byte_of p 0" "ucast (get_range 15 8 (ax_tdata p)) = byte_of p 1"
    using lane_bytes [of 0 p] by simp_all
  moreover have "i = 0 \<or> i = 1 \<or> 2 \<le> i" by linarith
  ultimately show ?thesis
    using assms by (auto simp: icc_second_def setIp4SrcAddr_def setIp4HdrCsum_def setIp4Prot_def setIp4TtL_def
        getIp4DstAddr_def getIp4HdrCsum_def getIp4Prot_def getIp4TtL_def set8 set16 set32)
qed

lemma byte_of_icc_third:
  assumes "i < 8"
  shows "byte_of (icc_third p c) i = (if i < 4 then byte_of p (i + 4) else if i = 4 then 0 else byte_of c i)"
proof -
  have "be32 (get32 32 p) ! i = byte_of p (i + 4)" if "i < 4"
    using be32_nth [of 4 i p] that by (simp add: add.commute)
  then show ?thesis
    using assms by (auto simp: icc_third_def ip4_setIcmpType_def setIp4DstAddr_def getIp4SrcAddr_def ICMP_ECHO_REPLY_def
        byte_of_set8 [of i 4, simplified] byte_of_set32 [of i 0, simplified])
qed

lemma icc_chunks_keep:
  "ax_tkeep (icc_second p c) = 0xFF" "\<not> ax_tlast (icc_second p c)"
  "ax_tkeep (icc_third p c) = ax_tkeep c" "ax_tlast (icc_third p c) = ax_tlast c"
  by (simp_all add: icc_second_def icc_third_def setIp4SrcAddr_def setIp4HdrCsum_def setIp4Prot_def setIp4TtL_def
      ip4_setIcmpType_def setIp4DstAddr_def)

lemma icc_reply_bytes:
  assumes "getLen c0 = 8" "getLen c1 = 8" "getLen c2 = 8"
  shows "bytes_of [c0, icc_second c1 c2, ip4_setIcmpCsum x (icc_third c1 c2)] =
    (let pkt = bytes_of [c0, c1, c2] in take 12 pkt @ take 4 (drop 16 pkt) @ take 4 (drop 12 pkt) @ [0, pkt ! 21] @ be16 x)"
proof -
  have keep: "getLen (icc_second c1 c2) = 8" "getLen (ip4_setIcmpCsum x (icc_third c1 c2)) = 8"
    using assms(3) by (simp_all add: getLen_def icc_chunks_keep ip4_setIcmpCsum_def) (simp add: keepToLen_def)
  have csum: "byte_of (ip4_setIcmpCsum x (icc_third c1 c2)) i =
      (if i < 4 then byte_of c1 (i + 4) else if i = 4 then 0 else if i = 5 then byte_of c2 5 else be16 x ! (i - 6))" if "i < 8" for i
    using that byte_of_set16 [of i 6 x "icc_third c1 c2"] by (auto simp: ip4_setIcmpCsum_def byte_of_icc_third)
  have be: "be16 x = [be16 x ! 0, be16 x ! 1]" by (simp add: be16_def)
  show ?thesis
    by (subst be) (simp add: full_chunk_bytes [OF assms(1)] full_chunk_bytes [OF assms(2)] full_chunk_bytes [OF assms(3)]
        full_chunk_bytes [OF keep(1)] full_chunk_bytes [OF keep(2)] csum byte_of_icc_second numeral_2_eq_2)
qed

section \<open>The checker takes a packet\<close>

text \<open>As long as nothing is behind the checker but the FIFO of the dropper, only the checker is active.\<close>

definition icmp_quiet :: "'a ICMP_scheme \<Rightarrow> bool" where
  "icmp_quiet s \<longleftrightarrow> ipd_isFirstChunk s \<and> \<not> ipd_drop s \<and> ici_chunkCount s = 0 \<and> bcm_fsmState s = BCM_IDLE \<and>
     aih_fsmState s = AIH_IDLE \<and> items (ssICcToIPd_DropCmd s) = [] \<and> items (ssCMbToIHa_Data s) = [] \<and>
     items (ssCMbToIHa_IpHdr s) = [] \<and> items (ssXYzToICi_Data0 s) = [] \<and> items (ssXYzToICi_Data1 s) = [] \<and>
     items (ssUVwToICi_Csum0 s) = [] \<and> items (ssUVwToICi_Csum1 s) = [] \<and> items (icm_siUOE_Data s) = [] \<and>
     items (icm_siIPRX_Derr s) = [] \<and> fits (icm_soIPTX_Data s)"

definition icmp_ports :: "'a ICMP_scheme \<Rightarrow> _" where
  "icmp_ports s = (icm_soIPTX_Data s, depth (ssICcToIPd_Data s), depth (ssICcToIPd_DropCmd s), depth (ssUVwToICi_Csum0 s),
     depth (ssXYzToICi_Data0 s))"

lemma quiet_dropper:
  assumes "icmp_quiet s"
  shows "pInvalidPacketDropper junk s = s"
proof -
  have "s\<lparr>ipd_drop := False, ipd_isFirstChunk := True\<rparr> = s"
    using assms unfolding icmp_quiet_def by (cases s) simp
  then show ?thesis
    using assms by (simp add: pInvalidPacketDropper_def icmp_quiet_def sread_empty split: option.split)
qed

lemma quiet_errors:
  assumes "icmp_quiet s"
  shows "pControlMessageBuilder s = s" "pIpHeaderAppender ownIp s = s"
  using assms by (simp_all add: pControlMessageBuilder_def pIpHeaderAppender_def icmp_quiet_def sread_empty sempty_def)

lemma quiet_inserter:
  assumes "icmp_quiet s"
  shows "pIcmpChecksumInserter s = s"
  using assms by (simp add: pIcmpChecksumInserter_def icmp_quiet_def ici_read_def sread_empty sempty_def)

lemma icmp_quiet_tick:
  assumes "icmp_quiet (pIcmpChecksumChecker s)" "fits (ssICcToIPd_Data (pIcmpChecksumChecker s))"
  shows "icmp ownIp junk s = pIcmpChecksumChecker s"
proof -
  have "icmp_fits (pIcmpChecksumChecker s)"
    using assms by (simp add: icmp_fits_def icmp_quiet_def fits_def)
  then show ?thesis
    by (simp add: icmp_def waiting_def quiet_dropper quiet_errors quiet_inserter assms(1))
qed

definition icc_reading :: "'a ICMP_scheme \<Rightarrow> bool" where
  "icc_reading s \<longleftrightarrow> \<not> icc_writeLastOne s \<and> \<not> icc_computeCs s \<and> icc_csumState s = ICC_S0 \<and> icmp_quiet s"

lemma icc_read_tick:
  assumes "icc_reading s" "items (icm_siIPRX_Data s) = c # cs" "length (items (ssICcToIPd_Data s)) < depth (ssICcToIPd_Data s)"
  shows "icmp ownIp junk s =
    (let (c, t) = icc_chunk c (s\<lparr>icm_siIPRX_Data := Stream (depth (icm_siIPRX_Data s)) cs\<rparr>);
         t = t\<lparr>icc_prevChunk := c, icc_chunkCount := icc_chunkCount t + 1\<rparr>
     in if ax_tlast c then t\<lparr>icc_chunkCount := 0, icc_writeLastOne := True, icc_computeCs := True\<rparr> else t)"
    (is "_ = ?t")
proof -
  have P: "pIcmpChecksumChecker s = ?t"
    using assms(1) by (simp add: pIcmpChecksumChecker_def icc_reading_def sread_cons [OF assms(2)] Let_def split_beta)
  have "icmp_quiet ?t \<and> fits (ssICcToIPd_Data ?t)"
    using assms(1,3) by (simp add: icc_chunk_def icc_reading_def icmp_quiet_def fits_def Let_def)
  then show ?thesis using icmp_quiet_tick [of s ownIp junk] by (simp add: P)
qed

text \<open>What the checker notes of a message.\<close>

definition icc_notes :: "'a ICMP_scheme \<Rightarrow> _" where
  "icc_notes s = (icc_icmpType s, icc_icmpCode s, icc_oldHCsum s)"

lemma icc_header:
  fixes ownIp junk
  assumes "icc_reading s" "icc_chunkCount s = 0" "items (icm_siIPRX_Data s) = c0 # c1 # c2 # cs"
    and "items (ssICcToIPd_Data s) = []" "2 < depth (ssICcToIPd_Data s)"
    and "\<not> ax_tlast c0" "\<not> ax_tlast c1" "\<not> ax_tlast c2" "getLen c2 = 8"
  defines "t \<equiv> (icmp ownIp junk ^^ 3) s"
  shows "icc_reading t" "icc_chunkCount t = 3" "items (icm_siIPRX_Data t) = cs" "icmp_ports t = icmp_ports s"
    "items (ssICcToIPd_Data t) = [c0, icc_second c1 c2]" "icc_prevChunk t = icc_third c1 c2"
    "icc_notes t = (ip4_getIcmpType c2, ip4_getIcmpCode c2, ip4_getIcmpCsum c2)"
    "lanes_inv (icc_subSums t) (inet_sum (drop 4 (chunk_bytes c2)))"
proof -
  let ?T = "icmp ownIp junk"
  have r0: "length (items (ssICcToIPd_Data s)) < depth (ssICcToIPd_Data s)" using assms(4,5) by simp
  let ?t1 = "?T s"
  have t1: "icc_reading ?t1" "icc_chunkCount ?t1 = 1" "items (icm_siIPRX_Data ?t1) = c1 # (c2 # cs)" "icmp_ports ?t1 = icmp_ports s"
    "items (ssICcToIPd_Data ?t1) = []" "icc_prevChunk ?t1 = c0" "icc_subSums ?t1 = SubCSums_zero"
    using assms(1,2,4,6) by (simp_all add: icc_read_tick [OF assms(1,3) r0] icc_chunk_def icc_reading_def icmp_quiet_def
        icmp_ports_def Let_def)
  have r1: "length (items (ssICcToIPd_Data ?t1)) < depth (ssICcToIPd_Data ?t1)"
    using assms(5) t1(4,5) by (simp add: icmp_ports_def)
  let ?t2 = "?T ?t1"
  have t2: "icc_reading ?t2" "icc_chunkCount ?t2 = 2" "items (icm_siIPRX_Data ?t2) = c2 # cs" "icmp_ports ?t2 = icmp_ports s"
    "items (ssICcToIPd_Data ?t2) = [c0]" "icc_prevChunk ?t2 = c1" "icc_subSums ?t2 = SubCSums_zero"
    using assms(7) t1 by (simp_all add: icc_read_tick [OF t1(1,3) r1] icc_chunk_def icc_reading_def icmp_quiet_def
        icmp_ports_def Let_def)
  have r2: "length (items (ssICcToIPd_Data ?t2)) < depth (ssICcToIPd_Data ?t2)"
    using assms(5) t2(4,5) by (simp add: icmp_ports_def)
  let ?t3 = "?T ?t2"
  have t3: "icc_reading ?t3" "icc_chunkCount ?t3 = 3" "items (icm_siIPRX_Data ?t3) = cs" "icmp_ports ?t3 = icmp_ports s"
    "items (ssICcToIPd_Data ?t3) = [c0, icc_second c1 c2]" "icc_prevChunk ?t3 = icc_third c1 c2"
    "icc_notes ?t3 = (ip4_getIcmpType c2, ip4_getIcmpCode c2, ip4_getIcmpCsum c2)"
    "icc_subSums ?t3 = hca_sum (\<lambda>i. 2 \<le> i) c2 SubCSums_zero"
    using assms(8) t2 by (simp_all add: icc_read_tick [OF t2(1,3) r2] icc_chunk_def icc_reading_def icmp_quiet_def
        icmp_ports_def icc_notes_def icc_chunks_keep Let_def)
  have t: "t = ?t3" by (simp add: t_def eval_nat_numeral)
  have "lanes_inv (hca_sum (\<lambda>i. 2 \<le> i) c2 SubCSums_zero) (lane16 c2 2 + lane16 c2 3)"
    using lanes_inv_hca [OF lanes_inv_zero, of "\<lambda>i. 2 \<le> i" c2] by simp
  moreover have "lane16 c2 2 + lane16 c2 3 = inet_sum (drop 4 (chunk_bytes c2))"
    by (simp add: full_chunk_bytes [OF assms(9)] lane16_at)
  ultimately show "lanes_inv (icc_subSums t) (inet_sum (drop 4 (chunk_bytes c2)))" by (simp add: t t3(8))
  show "icc_reading t" "icc_chunkCount t = 3" "items (icm_siIPRX_Data t) = cs" "icmp_ports t = icmp_ports s"
    "items (ssICcToIPd_Data t) = [c0, icc_second c1 c2]" "icc_prevChunk t = icc_third c1 c2"
    "icc_notes t = (ip4_getIcmpType c2, ip4_getIcmpCode c2, ip4_getIcmpCsum c2)"
    using t3(1-7) by (simp_all add: t)
qed

definition icc_taken :: "'a ICMP_scheme \<Rightarrow> bool" where
  "icc_taken s \<longleftrightarrow> icc_writeLastOne s \<and> icc_computeCs s \<and> icc_csumState s = ICC_S0 \<and> icc_chunkCount s = 0 \<and> icmp_quiet s"

lemma seven_bits: "3 \<le> unat (k :: 7 word) \<Longrightarrow> unat k < 127 \<Longrightarrow> unat (k + 1) = Suc (unat k)"
  by (simp add: unat_word_ariths)

lemma icc_stream:
  fixes ownIp junk
  assumes "icc_reading s" "3 \<le> unat (icc_chunkCount s)" "unat (icc_chunkCount s) + length cs \<le> 128"
    and "items (icm_siIPRX_Data s) = cs @ rest" "payload_ok cs" "lanes_inv (icc_subSums s) m"
    and "length (items (ssICcToIPd_Data s)) + length cs \<le> depth (ssICcToIPd_Data s)"
  shows "let t = (icmp ownIp junk ^^ length cs) s in icc_taken t \<and> items (icm_siIPRX_Data t) = rest \<and>
    items (ssICcToIPd_Data t) = items (ssICcToIPd_Data s) @ butlast (icc_prevChunk s # cs) \<and>
    icc_prevChunk t = last cs \<and> lanes_inv (icc_subSums t) (m + inet_sum (bytes_of cs)) \<and>
    icc_notes t = icc_notes s \<and> icmp_ports t = icmp_ports s"
  using assms
proof (induction cs arbitrary: s m)
  case Nil
  then show ?case by (simp add: payload_ok_def is_segment_def)
next
  case (Cons c cs)
  have ok: "chunk_ok c" using Cons.prems(5) by (simp add: payload_ok_def)
  have input: "items (icm_siIPRX_Data s) = c # (cs @ rest)" using Cons.prems(4) by simp
  have room: "length (items (ssICcToIPd_Data s)) < depth (ssICcToIPd_Data s)" using Cons.prems(7) by simp
  have k: "icc_chunkCount s \<noteq> 0" "icc_chunkCount s \<noteq> 1" "icc_chunkCount s \<noteq> 2" using Cons.prems(2) by auto
  let ?t = "icmp ownIp junk s"
  note tick = icc_read_tick [OF Cons.prems(1) input room, of ownIp junk]
  have t: "items (icm_siIPRX_Data ?t) = cs @ rest" "items (ssICcToIPd_Data ?t) = items (ssICcToIPd_Data s) @ [icc_prevChunk s]"
    "icc_prevChunk ?t = c" "icc_subSums ?t = sca_add c (icc_subSums s)" "icc_notes ?t = icc_notes s" "icmp_ports ?t = icmp_ports s"
    "if ax_tlast c then icc_taken ?t else icc_reading ?t \<and> icc_chunkCount ?t = icc_chunkCount s + 1"
    using Cons.prems(1) k by (simp_all add: tick icc_chunk_def icc_reading_def icc_taken_def icmp_quiet_def icmp_ports_def
        icc_notes_def Let_def)
  note inv = lanes_inv_add [OF Cons.prems(6) ok]
  show ?case
  proof (cases "cs = []")
    case True
    then have "ax_tlast c" using Cons.prems(5) by (simp add: payload_ok_single)
    then show ?thesis using t inv True by (simp add: Let_def)
  next
    case False
    with Cons.prems(5) have c: "\<not> ax_tlast c" "getLen c = 8" "payload_ok cs" by (simp_all add: payload_ok_Cons)
    then have u: "icc_reading ?t" "icc_chunkCount ?t = icc_chunkCount s + 1" using t(7) by simp_all
    obtain n where "length cs = Suc n" using False by (cases cs) auto
    then have "unat (icc_chunkCount ?t) = Suc (unat (icc_chunkCount s))"
      unfolding u(2) using Cons.prems(2,3) by (intro seven_bits) simp_all
    then have n: "3 \<le> unat (icc_chunkCount ?t)" "unat (icc_chunkCount ?t) + length cs \<le> 128" using Cons.prems(2,3) by simp_all
    have inv': "lanes_inv (icc_subSums ?t) (m + inet_sum (chunk_bytes c))" using inv by (simp add: t(4))
    have "length (items (ssICcToIPd_Data ?t)) + length cs \<le> depth (ssICcToIPd_Data ?t)"
      using Cons.prems(7) t(2,6) by (simp add: icmp_ports_def)
    from Cons.IH [OF u(1) n t(1) c(3) inv' this] show ?thesis
      using t(2,3,5,6) c False by (simp add: Let_def funpow_swap1 inet_sum_append add.assoc)
  qed
qed

text \<open>The last chunk is forwarded and the sums are combined; then the verdict is to be sent.\<close>

definition icc_verdict :: "nat \<Rightarrow> 'a ICMP_scheme \<Rightarrow> bool" where
  "icc_verdict m s \<longleftrightarrow> \<not> icc_writeLastOne s \<and> icc_computeCs s \<and> icc_csumState s = ICC_S3 \<and> icc_chunkCount s = 0 \<and>
     icmp_quiet s \<and> (take_bit 16 (sum0 (icc_subSums s)) = 0 \<longleftrightarrow> ones_sum m = 65535) \<and>
     (icc_ping s \<longrightarrow> ucast (icc_newHCsum s) = icc_updated (icc_oldHCsum s))"

lemma icc_sum_verdict:
  assumes "lanes_inv v m"
  shows "take_bit 16 (NOT (csum_fold (csum_fold (sum0 v + sum2 v) + csum_fold (sum1 v + sum3 v)))) = 0 \<longleftrightarrow> ones_sum m = 65535"
proof -
  let ?x = "NOT (csum_fold (csum_fold (sum0 v + sum2 v) + csum_fold (sum1 v + sum3 v)))"
  have "(ucast ?x :: 16 word) = NOT (of_nat (ones_sum m))"
    using tca_csum_sum [OF assms] by (simp add: tca_csum_def)
  moreover have "take_bit 16 w = 0 \<longleftrightarrow> (ucast w :: 16 word) = 0" for w :: "17 word"
    by (auto simp: bit_eq_iff bit_take_bit_iff bit_ucast_iff possible_bit_word)
  moreover have "NOT (of_nat (ones_sum m) :: 16 word) = 0 \<longleftrightarrow> ones_sum m = 65535"
  proof -
    have "NOT (of_nat (ones_sum m) :: 16 word) = 0 \<longleftrightarrow> (of_nat (ones_sum m) :: 16 word) = - 1"
      by (metis bit.compl_one bit.double_compl)
    then show ?thesis
      using ones_sum_le [of m] by (auto simp: word_unat_eq_iff unat_of_nat unsigned_minus_1_eq_mask mask_eq_exp_minus_1)
  qed
  ultimately show ?thesis by metis
qed

lemma icc_update_value:
  "ucast (NOT (csum_fold (ucast (NOT hc) + (NOT 0x0800 AND 0xFFFF) + 0x0000)) AND 0xFFFF :: 17 word) = icc_updated hc"
proof -
  have "unat (NOT hc) < 2 ^ LENGTH(16)" by (rule unsigned_less)
  then have hc: "unat (ucast (NOT hc) :: 17 word) = unat (NOT hc)" "unat (NOT hc) \<le> 65535"
    by (simp_all add: unsigned_ucast_eq take_bit_nat_eq_self)
  have m: "(NOT 0x0800 AND 0xFFFF :: 17 word) = 0xF7FF" by simp
  let ?x = "csum_fold (ucast (NOT hc) + (NOT 0x0800 AND 0xFFFF) + 0x0000) :: 17 word"
  have "unat ?x = ones_sum (unat (NOT hc) + 0xF7FF)"
    unfolding m using unat_fold_add [of "ucast (NOT hc)" "0xF7FF"] hc by simp
  then have x: "?x = of_nat (ones_sum (unat (NOT hc) + 0xF7FF))" by (metis of_nat_unat ucast_id)
  have mask: "w AND 0xFFFF = take_bit 16 w" for w :: "17 word"
    by (simp add: take_bit_eq_mask mask_eq_exp_minus_1)
  show ?thesis
    unfolding x unfolding mask icc_updated_def
    by (rule bit_word_eqI) (auto simp: bit_ucast_iff bit_not_iff bit_of_nat_iff bit_take_bit_iff)
qed

lemma icc_sums:
  fixes ownIp junk
  assumes "icc_taken s" "lanes_inv (icc_subSums s) m" "length (items (ssICcToIPd_Data s)) < depth (ssICcToIPd_Data s)"
  defines "t \<equiv> (icmp ownIp junk ^^ 4) s"
  shows "icc_verdict m t" "items (icm_siIPRX_Data t) = items (icm_siIPRX_Data s)"
    "items (ssICcToIPd_Data t) = items (ssICcToIPd_Data s) @ [icc_prevChunk s]"
    "icc_notes t = icc_notes s" "icmp_ports t = icmp_ports s"
proof -
  let ?P = pIcmpChecksumChecker let ?T = "icmp ownIp junk"
  let ?t1 = "s\<lparr>ssICcToIPd_Data := swrite (ssICcToIPd_Data s) (icc_prevChunk s), icc_writeLastOne := False\<rparr>"
  let ?t2 = "icc_compute ?t1" let ?t3 = "icc_compute ?t2" let ?t4 = "icc_compute ?t3"
  have P: "?P s = ?t1" "?P ?t1 = ?t2" "?P ?t2 = ?t3" "?P ?t3 = ?t4"
    using assms(1) by (simp_all add: pIcmpChecksumChecker_def icc_taken_def icc_compute_def Let_def)
  have quiet: "icmp_quiet ?t1" "icmp_quiet ?t2" "icmp_quiet ?t3" "icmp_quiet ?t4"
    using assms(1) by (simp_all add: icc_taken_def icc_compute_def icmp_quiet_def Let_def)
  have fits: "fits (ssICcToIPd_Data ?t1)" "fits (ssICcToIPd_Data ?t2)" "fits (ssICcToIPd_Data ?t3)" "fits (ssICcToIPd_Data ?t4)"
    using assms(1,3) by (simp_all add: icc_taken_def icc_compute_def fits_def Let_def)
  have "?T s = ?t1" "?T ?t1 = ?t2" "?T ?t2 = ?t3" "?T ?t3 = ?t4"
    using quiet fits icmp_quiet_tick [of s ownIp junk] icmp_quiet_tick [of ?t1 ownIp junk]
      icmp_quiet_tick [of ?t2 ownIp junk] icmp_quiet_tick [of ?t3 ownIp junk] by (simp_all only: P)
  then have t: "t = ?t4" by (simp add: t_def eval_nat_numeral)
  let ?v = "icc_subSums s" let ?hc = "icc_oldHCsum s"
  have "\<not> icc_writeLastOne ?t4" "icc_computeCs ?t4" "icc_csumState ?t4 = ICC_S3" "icc_chunkCount ?t4 = 0"
    "icc_ping ?t4 = icc_ping s" "icc_oldHCsum ?t4 = ?hc"
    "sum0 (icc_subSums ?t4) = NOT (csum_fold (csum_fold (sum0 ?v + sum2 ?v) + csum_fold (sum1 ?v + sum3 ?v)))"
    using assms(1) by (simp_all add: icc_taken_def icc_compute_def icc_ping_def Let_def)
  moreover have "icc_newHCsum ?t4 = NOT (csum_fold (ucast (NOT ?hc) + (NOT 0x0800 AND 0xFFFF) + 0x0000)) AND 0xFFFF" if "icc_ping s"
    using assms(1) that by (simp add: icc_taken_def icc_compute_def icc_ping_def Let_def)
  ultimately show "icc_verdict m t"
    using quiet(4) icc_sum_verdict [OF assms(2)] icc_update_value [of ?hc] unfolding t icc_verdict_def by metis
  show "items (icm_siIPRX_Data t) = items (icm_siIPRX_Data s)"
    "items (ssICcToIPd_Data t) = items (ssICcToIPd_Data s) @ [icc_prevChunk s]"
    "icc_notes t = icc_notes s" "icmp_ports t = icmp_ports s"
    using assms(1) unfolding t by (simp_all add: icc_taken_def icc_compute_def icc_notes_def icmp_ports_def Let_def)
qed

section \<open>The dropper and the inserter\<close>

text \<open>The checker waits for the next packet and nothing is on the path of the error messages.\<close>

definition icmp_back :: "'a ICMP_scheme \<Rightarrow> bool" where
  "icmp_back s \<longleftrightarrow> \<not> icc_writeLastOne s \<and> \<not> icc_computeCs s \<and> icc_csumState s = ICC_S0 \<and> icc_chunkCount s = 0 \<and>
     bcm_fsmState s = BCM_IDLE \<and> aih_fsmState s = AIH_IDLE \<and>
     items (icm_siIPRX_Data s) = [] \<and> items (ssCMbToIHa_Data s) = [] \<and> items (ssCMbToIHa_IpHdr s) = [] \<and>
     items (ssXYzToICi_Data0 s) = [] \<and> items (ssXYzToICi_Data1 s) = [] \<and> items (ssUVwToICi_Csum1 s) = [] \<and>
     items (icm_siUOE_Data s) = [] \<and> items (icm_siIPRX_Derr s) = [] \<and>
     0 < depth (ssXYzToICi_Data0 s) \<and> fits (ssICcToIPd_Data s) \<and> fits (ssICcToIPd_DropCmd s) \<and> fits (ssUVwToICi_Csum0 s) \<and>
     fits (icm_soIPTX_Data s)"

definition icmp_depths :: "'a ICMP_scheme \<Rightarrow> _" where
  "icmp_depths s = (depth (ssICcToIPd_Data s), depth (ssICcToIPd_DropCmd s), depth (ssUVwToICi_Csum0 s),
     depth (ssXYzToICi_Data0 s))"

definition icmp_ready :: "'a ICMP_scheme \<Rightarrow> bool" where
  "icmp_ready s \<longleftrightarrow> icc_reading s \<and> icc_chunkCount s = 0 \<and> items (icm_siIPRX_Data s) = []"

definition echo_passing :: "'a ICMP_scheme \<Rightarrow> bool" where
  "echo_passing s \<longleftrightarrow> icmp_back s \<and> \<not> ipd_isFirstChunk s \<and> \<not> ipd_drop s \<and> \<not> ici_dataStreamSource s \<and>
     items (ssICcToIPd_DropCmd s) = [] \<and> items (ssUVwToICi_Csum0 s) = [] \<and>
     3 \<le> unat (ici_chunkCount s) \<and> unat (ici_chunkCount s) + length (items (ssICcToIPd_Data s)) \<le> 127"

definition echo_dropping :: "'a ICMP_scheme \<Rightarrow> bool" where
  "echo_dropping s \<longleftrightarrow> icmp_back s \<and> \<not> ipd_isFirstChunk s \<and> ipd_drop s \<and> ici_chunkCount s = 0 \<and>
     items (ssICcToIPd_DropCmd s) = [] \<and> items (ssUVwToICi_Csum0 s) = []"

lemma waiting_checker:
  assumes "icmp_back s"
  shows "waiting pIcmpChecksumChecker s = s"
  using assms by (simp add: waiting_def pIcmpChecksumChecker_def icmp_back_def sread_empty)

lemma back_errors:
  assumes "bcm_fsmState s = BCM_IDLE" "aih_fsmState s = AIH_IDLE" "items (icm_siUOE_Data s) = []"
    and "items (icm_siIPRX_Derr s) = []" "items (ssCMbToIHa_IpHdr s) = []"
  shows "pIpHeaderAppender ownIp (pControlMessageBuilder s) = s"
  using assms by (simp add: pControlMessageBuilder_def pIpHeaderAppender_def sread_empty sempty_def)

text \<open>The dropper takes a chunk and lets it pass, or not.\<close>

lemma waiting_dropper:
  assumes "icmp_back s" "items (ssICcToIPd_Data s) = c # cs"
    and "ipd_isFirstChunk s \<Longrightarrow> items (ssICcToIPd_DropCmd s) = [d]" "\<not> ipd_isFirstChunk s \<Longrightarrow> ipd_drop s = d"
    and "ipd_isFirstChunk s \<Longrightarrow> \<not> ipd_drop s" "\<not> ipd_isFirstChunk s \<Longrightarrow> items (ssICcToIPd_DropCmd s) = []"
  shows "waiting (pInvalidPacketDropper junk) s =
    s\<lparr>ssICcToIPd_Data := Stream (depth (ssICcToIPd_Data s)) cs, ssICcToIPd_DropCmd := Stream (depth (ssICcToIPd_DropCmd s)) [],
      ssXYzToICi_Data0 := Stream (depth (ssXYzToICi_Data0 s)) (if d then [] else [c]),
      ipd_isFirstChunk := ax_tlast c, ipd_drop := (d \<and> \<not> ax_tlast c)\<rparr>"
    (is "_ = ?t")
proof -
  have st: "items st = xs \<Longrightarrow> st = Stream (depth st) xs" for st :: "'c stream" and xs by (cases st) simp
  have "pInvalidPacketDropper junk s = ?t"
  proof (cases "ipd_isFirstChunk s")
    case True
    note d = sread_cons [OF assms(3) [OF True]]
    show ?thesis
      using assms(1,5) True unfolding pInvalidPacketDropper_def sread_cons [OF assms(2)] d
      by (cases s) (auto simp: icmp_back_def swrite_def Let_def dest: st)
  next
    case False
    show ?thesis
      using assms(1) assms(4,6) [OF False] False unfolding pInvalidPacketDropper_def sread_cons [OF assms(2)]
      by (cases s) (auto simp: icmp_back_def swrite_def Let_def dest: st)
  qed
  moreover have "icmp_fits ?t"
    using assms(1,2) by (simp add: icmp_fits_def icmp_back_def fits_def)
  ultimately show ?thesis by (simp add: waiting_def)
qed

text \<open>The inserter takes the one chunk that the dropper let pass; into the third of a packet it writes the checksum.\<close>

lemma waiting_inserter:
  assumes "items (ssXYzToICi_Data0 s) = [c]" "ici_chunkCount s \<noteq> 0 \<Longrightarrow> \<not> ici_dataStreamSource s"
    and "items (ssUVwToICi_Csum0 s) = (if ici_chunkCount s \<in> {0, 1, 2} then [x] else [])"
    and "fits (ssICcToIPd_Data s)" "fits (ssICcToIPd_DropCmd s)" "fits (ssUVwToICi_Csum0 s)"
    and "length (items (icm_soIPTX_Data s)) < depth (icm_soIPTX_Data s)"
  shows "waiting pIcmpChecksumInserter s =
    s\<lparr>ssXYzToICi_Data0 := Stream (depth (ssXYzToICi_Data0 s)) [],
      ssUVwToICi_Csum0 := Stream (depth (ssUVwToICi_Csum0 s)) (if ici_chunkCount s \<in> {0, 1} then [x] else []),
      icm_soIPTX_Data := swrite (icm_soIPTX_Data s) (if ici_chunkCount s = 2 then ip4_setIcmpCsum x c else c),
      ici_dataStreamSource := False,
      ici_chunkCount := (if ax_tlast c \<and> ici_chunkCount s \<notin> {0, 2} then 0 else ici_chunkCount s + 1)\<rparr>"
    (is "_ = ?t")
proof -
  let ?u = "s\<lparr>ici_dataStreamSource := False\<rparr>"
  have u: "?u = s" if "ici_chunkCount s \<noteq> 0" using assms(2) [OF that] by (cases s) simp
  have w: "s\<lparr>ssUVwToICi_Csum0 := Stream (depth (ssUVwToICi_Csum0 s)) (items (ssUVwToICi_Csum0 s))\<rparr> = s" by simp
  have "pIcmpChecksumInserter s = ?t"
  proof (cases "ici_chunkCount s = 2")
    case True
    have x: "items (ssUVwToICi_Csum0 s) = [x]" using assms(3) True by simp
    have n: "ici_chunkCount s \<noteq> 0" using True by simp
    have "pIcmpChecksumInserter ?u = ?t"
      using True by (simp add: pIcmpChecksumInserter_def ici_read_def ici_csum_def ici_put_def sread_cons [OF assms(1)] sread_cons [OF x])
    then show ?thesis unfolding u [OF n] .
  next
    case False
    then have x: "items (ssUVwToICi_Csum0 s) = (if ici_chunkCount s \<in> {0, 1} then [x] else [])" using assms(3) by simp
    let ?v = "s\<lparr>ssUVwToICi_Csum0 := Stream (depth (ssUVwToICi_Csum0 s)) (if ici_chunkCount s \<in> {0, 1} then [x] else [])\<rparr>"
    have v: "?v = s" using w unfolding x .
    show ?thesis
    proof (cases "ici_chunkCount s = 0")
      case True
      have "pIcmpChecksumInserter ?v = ?t"
        using True by (simp add: pIcmpChecksumInserter_def ici_read_def ici_put_def sread_cons [OF assms(1)] sempty_def assms(1) Let_def)
      then show ?thesis unfolding v .
    next
      case n: False
      have "pIcmpChecksumInserter (?v\<lparr>ici_dataStreamSource := False\<rparr>) = ?t"
        using False n by (simp add: pIcmpChecksumInserter_def ici_read_def ici_put_def sread_cons [OF assms(1)])
      then show ?thesis unfolding v u [OF n] .
    qed
  qed
  moreover have "icmp_fits ?t"
    using assms(3-7) by (auto simp: icmp_fits_def fits_def)
  ultimately show ?thesis by (simp add: waiting_def)
qed

lemma waiting_inserter_idle:
  assumes "items (ssXYzToICi_Data0 s) = []" "items (ssXYzToICi_Data1 s) = []" "ici_chunkCount s = 0"
  shows "waiting pIcmpChecksumInserter s = s"
  using assms by (simp add: waiting_def pIcmpChecksumInserter_def ici_read_def sread_empty sempty_def)

text \<open>One activation of the server for a chunk that passes, and for one that is dropped.\<close>

lemma echo_pass_tick:
  assumes "icmp_back s" "items (ssICcToIPd_Data s) = c # cs" "\<not> ipd_drop s"
    and "items (ssICcToIPd_DropCmd s) = (if ipd_isFirstChunk s then [False] else [])"
    and "ici_chunkCount s \<noteq> 0 \<Longrightarrow> \<not> ici_dataStreamSource s"
    and "items (ssUVwToICi_Csum0 s) = (if ici_chunkCount s \<in> {0, 1, 2} then [x] else [])"
    and "length (items (icm_soIPTX_Data s)) < depth (icm_soIPTX_Data s)"
  shows "icmp ownIp junk s =
    s\<lparr>ssICcToIPd_Data := Stream (depth (ssICcToIPd_Data s)) cs, ssICcToIPd_DropCmd := Stream (depth (ssICcToIPd_DropCmd s)) [],
      ssXYzToICi_Data0 := Stream (depth (ssXYzToICi_Data0 s)) [], ipd_isFirstChunk := ax_tlast c, ipd_drop := False,
      ssUVwToICi_Csum0 := Stream (depth (ssUVwToICi_Csum0 s)) (if ici_chunkCount s \<in> {0, 1} then [x] else []),
      icm_soIPTX_Data := swrite (icm_soIPTX_Data s) (if ici_chunkCount s = 2 then ip4_setIcmpCsum x c else c),
      ici_dataStreamSource := False,
      ici_chunkCount := (if ax_tlast c \<and> ici_chunkCount s \<notin> {0, 2} then 0 else ici_chunkCount s + 1)\<rparr>"
proof -
  let ?t = "s\<lparr>ssICcToIPd_Data := Stream (depth (ssICcToIPd_Data s)) cs, ssICcToIPd_DropCmd := Stream (depth (ssICcToIPd_DropCmd s)) [],
      ssXYzToICi_Data0 := Stream (depth (ssXYzToICi_Data0 s)) [c], ipd_isFirstChunk := ax_tlast c, ipd_drop := False\<rparr>"
  have d: "waiting (pInvalidPacketDropper junk) s = ?t"
    using waiting_dropper [OF assms(1,2), of False junk] assms(3,4) by simp
  have e: "pIpHeaderAppender ownIp (pControlMessageBuilder ?t) = ?t"
    using assms(1) by (intro back_errors) (simp_all add: icmp_back_def)
  have "fits (ssICcToIPd_Data ?t)" "fits (ssICcToIPd_DropCmd ?t)" "fits (ssUVwToICi_Csum0 ?t)"
    using assms(1,2) by (simp_all add: icmp_back_def fits_def)
  then have i: "waiting pIcmpChecksumInserter ?t = ?t\<lparr>ssXYzToICi_Data0 := Stream (depth (ssXYzToICi_Data0 ?t)) [],
      ssUVwToICi_Csum0 := Stream (depth (ssUVwToICi_Csum0 ?t)) (if ici_chunkCount ?t \<in> {0, 1} then [x] else []),
      icm_soIPTX_Data := swrite (icm_soIPTX_Data ?t) (if ici_chunkCount ?t = 2 then ip4_setIcmpCsum x c else c),
      ici_dataStreamSource := False,
      ici_chunkCount := (if ax_tlast c \<and> ici_chunkCount ?t \<notin> {0, 2} then 0 else ici_chunkCount ?t + 1)\<rparr>"
    using assms(5-7) by (intro waiting_inserter) simp_all
  show ?thesis
    unfolding icmp_def waiting_checker [OF assms(1)] d e i by simp
qed

lemma echo_drop_tick:
  assumes "icmp_back s" "items (ssICcToIPd_Data s) = c # cs" "ipd_drop s = (\<not> ipd_isFirstChunk s)"
    and "items (ssICcToIPd_DropCmd s) = (if ipd_isFirstChunk s then [True] else [])" "ici_chunkCount s = 0"
  shows "icmp ownIp junk s =
    s\<lparr>ssICcToIPd_Data := Stream (depth (ssICcToIPd_Data s)) cs, ssICcToIPd_DropCmd := Stream (depth (ssICcToIPd_DropCmd s)) [],
      ssXYzToICi_Data0 := Stream (depth (ssXYzToICi_Data0 s)) [], ipd_isFirstChunk := ax_tlast c, ipd_drop := \<not> ax_tlast c\<rparr>"
    (is "_ = ?t")
proof -
  have d: "waiting (pInvalidPacketDropper junk) s = ?t"
    using waiting_dropper [OF assms(1,2), of True junk] assms(3,4) by simp
  have e: "pIpHeaderAppender ownIp (pControlMessageBuilder ?t) = ?t"
    using assms(1) by (intro back_errors) (simp_all add: icmp_back_def)
  have i: "waiting pIcmpChecksumInserter ?t = ?t"
    using assms(1,5) by (intro waiting_inserter_idle) (simp_all add: icmp_back_def)
  show ?thesis
    unfolding icmp_def waiting_checker [OF assms(1)] d e i by simp
qed

interpretation echo: segment_filter "icmp ownIp junk" "\<lambda>s. items (ssICcToIPd_Data s)" "\<lambda>s. items (icm_soIPTX_Data s)"
    "\<lambda>s. depth (icm_soIPTX_Data s)" ax_tlast icmp_depths icmp_ready echo_passing echo_dropping
proof (unfold_locales, goal_cases)
  case (1 s c cs)
  have k: "ici_chunkCount s \<noteq> 0" "ici_chunkCount s \<noteq> 1" "ici_chunkCount s \<noteq> 2" "3 \<le> unat (ici_chunkCount s)"
    using 1(1) by (auto simp: echo_passing_def)
  have p: "icmp_back s" "\<not> ipd_drop s" "items (ssICcToIPd_DropCmd s) = (if ipd_isFirstChunk s then [False] else [])"
    "ici_chunkCount s \<noteq> 0 \<Longrightarrow> \<not> ici_dataStreamSource s"
    "items (ssUVwToICi_Csum0 s) = (if ici_chunkCount s \<in> {0, 1, 2} then [0] else [])"
    using 1(1) k by (auto simp: echo_passing_def)
  have n: "unat (ici_chunkCount s + 1) = Suc (unat (ici_chunkCount s))"
    using 1(1,2) k(4) by (intro seven_bits) (simp_all add: echo_passing_def)
  show ?case
    using 1 k n by (auto simp: echo_pass_tick [OF p(1) 1(2) p(2-5) 1(3)] echo_passing_def icmp_back_def icmp_depths_def
        icmp_ready_def icc_reading_def icmp_quiet_def fits_def)
next
  case (2 s c cs)
  have p: "icmp_back s" "ipd_drop s = (\<not> ipd_isFirstChunk s)" "items (ssICcToIPd_DropCmd s) = (if ipd_isFirstChunk s then [True] else [])"
    "ici_chunkCount s = 0"
    using 2(1) by (auto simp: echo_dropping_def)
  show ?case
    using 2 by (auto simp: echo_drop_tick [OF p(1) 2(2) p(2-4)] echo_dropping_def icmp_back_def icmp_depths_def
        icmp_ready_def icc_reading_def icmp_quiet_def fits_def)
qed

end
