(* ===== verification/Icmp_Reply.thy ===== *)
theory Icmp_Reply
  imports Icmp_Echo
begin

text \<open>
  The promises of the ICMP server (\<open>Icmp\<close>) on echo messages, over activations of the whole server: a valid
  request is answered with the reply, everything else is dropped, and a message that is longer than the FIFO
  before the dropper stops the echo half of the server for good.
\<close>

section \<open>After the verdict\<close>

text \<open>The activation that sends the verdict is one of the dropper too.\<close>

definition icc_decided :: "bool \<Rightarrow> 'a ICMP_scheme \<Rightarrow> 'a ICMP_scheme" where
  "icc_decided ok s =
     (let s = (if ok then s\<lparr>ssUVwToICi_Csum0 := swrite (ssUVwToICi_Csum0 s) (icc_updated (icc_oldHCsum s)),
                          ssICcToIPd_DropCmd := swrite (ssICcToIPd_DropCmd s) False\<rparr>
               else s\<lparr>ssICcToIPd_DropCmd := swrite (ssICcToIPd_DropCmd s) True\<rparr>)
      in s\<lparr>icc_csumState := ICC_S0, icc_computeCs := False\<rparr>)"

lemma icc_verdict_tick:
  assumes "icc_verdict m s" "items (icm_siIPRX_Data s) = []" "fits (ssICcToIPd_Data s)" "icmp_depths s = (64, 8, 16, 16)"
  defines "v \<equiv> icc_decided (ones_sum m = 65535 \<and> icc_ping s) s"
  shows "icmp ownIp junk s = icmp ownIp junk v" "icmp_back v"
proof -
  have P: "pIcmpChecksumChecker s = v"
    using assms(1) by (auto simp: v_def pIcmpChecksumChecker_def icc_verdict_def icc_compute_def icc_decided_def Let_def)
  show b: "icmp_back v"
    using assms(1-4) unfolding v_def icc_decided_def
    by (simp add: icmp_back_def icc_verdict_def icmp_quiet_def icmp_depths_def fits_def Let_def)
  have "icmp_fits v" using b by (simp add: icmp_fits_def icmp_back_def fits_def)
  then have "waiting pIcmpChecksumChecker s = v" by (simp add: waiting_def P)
  then show "icmp ownIp junk s = icmp ownIp junk v" by (simp add: icmp_def waiting_checker [OF b])
qed

lemma echo_forward:
  fixes ownIp junk
  assumes "icmp_back s" "items (ssICcToIPd_Data s) = c0 # c1 # c2 # cs" "is_segment ax_tlast cs" "3 + length cs \<le> 127"
    and "ipd_isFirstChunk s" "\<not> ipd_drop s" "items (ssICcToIPd_DropCmd s) = [False]" "items (ssUVwToICi_Csum0 s) = [x]"
    and "ici_chunkCount s = 0" "\<not> ax_tlast c0" "\<not> ax_tlast c1" "\<not> ax_tlast c2"
    and "length (items (icm_soIPTX_Data s)) + 3 + length cs \<le> depth (icm_soIPTX_Data s)"
  defines "t \<equiv> (icmp ownIp junk ^^ (3 + length cs)) s"
  shows "icmp_ready t \<and> items (ssICcToIPd_Data t) = [] \<and> icmp_depths t = icmp_depths s \<and>
    items (icm_soIPTX_Data t) = items (icm_soIPTX_Data s) @ [c0, c1, ip4_setIcmpCsum x c2] @ cs"
proof -
  let ?T = "icmp ownIp junk" let ?o = "items (icm_soIPTX_Data s)"
  have p0: "items (ssICcToIPd_DropCmd s) = (if ipd_isFirstChunk s then [False] else [])"
    "items (ssUVwToICi_Csum0 s) = (if ici_chunkCount s \<in> {0, 1, 2} then [x] else [])"
    "length ?o < depth (icm_soIPTX_Data s)"
    using assms(5-9,13) by simp_all
  note T0 = echo_pass_tick [OF assms(1,2,6) p0(1) _ p0(2,3), of ownIp junk]
  let ?t1 = "?T s"
  have t1: "icmp_back ?t1" "items (ssICcToIPd_Data ?t1) = c1 # c2 # cs" "\<not> ipd_drop ?t1" "\<not> ipd_isFirstChunk ?t1"
    "items (ssICcToIPd_DropCmd ?t1) = []" "\<not> ici_dataStreamSource ?t1" "items (ssUVwToICi_Csum0 ?t1) = [x]" "ici_chunkCount ?t1 = 1"
    "items (icm_soIPTX_Data ?t1) = ?o @ [c0]" "depth (icm_soIPTX_Data ?t1) = depth (icm_soIPTX_Data s)" "icmp_depths ?t1 = icmp_depths s"
    using assms(1,2,8-10,13) by (simp_all add: T0 icmp_back_def icmp_depths_def fits_def)
  have p1: "items (ssICcToIPd_DropCmd ?t1) = (if ipd_isFirstChunk ?t1 then [False] else [])"
    "items (ssUVwToICi_Csum0 ?t1) = (if ici_chunkCount ?t1 \<in> {0, 1, 2} then [x] else [])"
    "length (items (icm_soIPTX_Data ?t1)) < depth (icm_soIPTX_Data ?t1)"
    using t1 assms(13) by simp_all
  note T1 = echo_pass_tick [OF t1(1-3) p1(1) t1(6) p1(2,3), of ownIp junk]
  let ?t2 = "?T ?t1"
  have t2: "icmp_back ?t2" "items (ssICcToIPd_Data ?t2) = c2 # cs" "\<not> ipd_drop ?t2" "\<not> ipd_isFirstChunk ?t2"
    "items (ssICcToIPd_DropCmd ?t2) = []" "\<not> ici_dataStreamSource ?t2" "items (ssUVwToICi_Csum0 ?t2) = [x]" "ici_chunkCount ?t2 = 2"
    "items (icm_soIPTX_Data ?t2) = ?o @ [c0, c1]" "depth (icm_soIPTX_Data ?t2) = depth (icm_soIPTX_Data s)" "icmp_depths ?t2 = icmp_depths s"
    using t1 assms(11,13) by (simp_all add: T1 icmp_back_def icmp_depths_def fits_def)
  have p2: "items (ssICcToIPd_DropCmd ?t2) = (if ipd_isFirstChunk ?t2 then [False] else [])"
    "items (ssUVwToICi_Csum0 ?t2) = (if ici_chunkCount ?t2 \<in> {0, 1, 2} then [x] else [])"
    "length (items (icm_soIPTX_Data ?t2)) < depth (icm_soIPTX_Data ?t2)"
    using t2 assms(13) by simp_all
  note T2 = echo_pass_tick [OF t2(1-3) p2(1) t2(6) p2(2,3), of ownIp junk]
  let ?t3 = "?T ?t2"
  have t3: "echo_passing ?t3" "items (ssICcToIPd_Data ?t3) = cs" "items (icm_soIPTX_Data ?t3) = ?o @ [c0, c1, ip4_setIcmpCsum x c2]"
    "depth (icm_soIPTX_Data ?t3) = depth (icm_soIPTX_Data s)" "icmp_depths ?t3 = icmp_depths s"
    using t2 assms(4,12,13) by (simp_all add: T2 echo_passing_def icmp_back_def icmp_depths_def fits_def)
  have t: "t = (?T ^^ length cs) ?t3"
    unfolding t_def by (simp add: funpow_add add.commute [of 3] eval_nat_numeral funpow_swap1)
  have "items (ssICcToIPd_Data ?t3) = cs @ []" "length (items (icm_soIPTX_Data ?t3)) + length cs \<le> depth (icm_soIPTX_Data ?t3)"
    using t3 assms(13) by simp_all
  from echo.passes_segment [OF t3(1) this(1) assms(3) this(2)] show ?thesis
    unfolding t using t3(3,5) by simp
qed

lemma echo_discard:
  fixes ownIp junk
  assumes "icmp_back s" "items (ssICcToIPd_Data s) = c # cs" "is_segment ax_tlast cs" "\<not> ax_tlast c"
    and "ipd_isFirstChunk s" "\<not> ipd_drop s" "items (ssICcToIPd_DropCmd s) = [True]" "items (ssUVwToICi_Csum0 s) = []"
    and "ici_chunkCount s = 0"
  defines "t \<equiv> (icmp ownIp junk ^^ Suc (length cs)) s"
  shows "icmp_ready t \<and> items (ssICcToIPd_Data t) = [] \<and> icmp_depths t = icmp_depths s \<and>
    items (icm_soIPTX_Data t) = items (icm_soIPTX_Data s)"
proof -
  let ?t1 = "icmp ownIp junk s"
  have p: "ipd_drop s = (\<not> ipd_isFirstChunk s)" "items (ssICcToIPd_DropCmd s) = (if ipd_isFirstChunk s then [True] else [])"
    using assms(5-7) by simp_all
  have t1: "echo_dropping ?t1" "items (ssICcToIPd_Data ?t1) = cs @ []" "items (icm_soIPTX_Data ?t1) = items (icm_soIPTX_Data s)"
    "icmp_depths ?t1 = icmp_depths s"
    using assms(1,2,4,8,9) by (simp_all add: echo_drop_tick [OF assms(1,2) p assms(9)] echo_dropping_def icmp_back_def
        icmp_depths_def fits_def)
  from echo.drops_segment [OF t1(1,2) assms(3)] show ?thesis
    unfolding t_def using t1(3,4) by (simp add: funpow_swap1)
qed

section \<open>A message\<close>

definition icmp_idle :: "'a ICMP_scheme \<Rightarrow> bool" where
  "icmp_idle s \<longleftrightarrow> icc_reading s \<and> icc_chunkCount s = 0 \<and> items (ssICcToIPd_Data s) = [] \<and> icmp_depths s = (64, 8, 16, 16)"

lemma message_split:
  assumes "payload_ok cs" "24 < length (bytes_of cs)"
  obtains c0 c1 c2 cs' where "cs = c0 # c1 # c2 # cs'" "getLen c0 = 8" "getLen c1 = 8" "getLen c2 = 8"
    "\<not> ax_tlast c0" "\<not> ax_tlast c1" "\<not> ax_tlast c2" "payload_ok cs'"
proof -
  have "8 < length (bytes_of cs)" using assms(2) by simp
  from payload_split [OF assms(1) this] obtain c0 cs0 where c0: "cs = c0 # cs0" "getLen c0 = 8" "\<not> ax_tlast c0"
    "payload_ok cs0" "length (bytes_of cs) = 8 + length (bytes_of cs0)" by metis
  have "8 < length (bytes_of cs0)" using assms(2) c0(5) by simp
  from payload_split [OF c0(4) this] obtain c1 cs1 where c1: "cs0 = c1 # cs1" "getLen c1 = 8" "\<not> ax_tlast c1"
    "payload_ok cs1" "length (bytes_of cs0) = 8 + length (bytes_of cs1)" by metis
  have "8 < length (bytes_of cs1)" using assms(2) c0(5) c1(5) by simp
  from payload_split [OF c1(4) this] obtain c2 cs2 where c2: "cs1 = c2 # cs2" "getLen c2 = 8" "\<not> ax_tlast c2"
    "payload_ok cs2" by metis
  show thesis by (rule that [of c0 c1 c2 cs2]) (use c0 c1 c2 in simp_all)
qed

lemma unat_word_cat_16: "unat (word_cat (a :: 8 word) (b :: 8 word) :: 16 word) = 256 * unat a + unat b"
proof -
  have "unat (word_cat a b :: 16 word) < 2 ^ LENGTH(16)" by (rule unsigned_less)
  then show ?thesis using unat_word_cat_8 [of a b] by (simp add: unsigned_ucast_eq take_bit_nat_eq_self)
qed

text \<open>The fields of the message that the checker notes, by their place in the packet.\<close>

lemma message_fields:
  assumes "cs = c0 # c1 # c2 # cs'" "getLen c0 = 8" "getLen c1 = 8" "getLen c2 = 8"
  defines "pkt \<equiv> bytes_of cs"
  shows "ip4_getIcmpType c2 = pkt ! 20" "ip4_getIcmpCode c2 = pkt ! 21"
    "drop 20 pkt = drop 4 (chunk_bytes c2) @ bytes_of cs'" "drop 24 pkt = bytes_of cs'"
    "inet_sum (drop 20 pkt) = 256 * unat (pkt ! 20) + unat (pkt ! 21) + unat (ip4_getIcmpCsum c2) + inet_sum (bytes_of cs')"
    "inet_sum (drop 20 pkt) = inet_sum (drop 4 (chunk_bytes c2)) + inet_sum (bytes_of cs')"
proof -
  note full = full_chunk_bytes [OF assms(2)] full_chunk_bytes [OF assms(3)] full_chunk_bytes [OF assms(4)]
  show "ip4_getIcmpType c2 = pkt ! 20" "ip4_getIcmpCode c2 = pkt ! 21"
    using lane_bytes [of 2 c2] by (simp_all add: pkt_def assms(1) full ip4_getIcmpType_def ip4_getIcmpCode_def)
  show d: "drop 20 pkt = drop 4 (chunk_bytes c2) @ bytes_of cs'" "drop 24 pkt = bytes_of cs'"
    by (simp_all add: pkt_def assms(1) full)
  show "inet_sum (drop 20 pkt) = inet_sum (drop 4 (chunk_bytes c2)) + inet_sum (bytes_of cs')"
    unfolding d(1) using assms(4) by (simp add: inet_sum_append)
  have "ip4_getIcmpCsum c2 = word_cat (byte_of c2 6) (byte_of c2 7)"
    using get16_u16 [of 6 c2] by (simp add: ip4_getIcmpCsum_def)
  then show "inet_sum (drop 20 pkt) = 256 * unat (pkt ! 20) + unat (pkt ! 21) + unat (ip4_getIcmpCsum c2) + inet_sum (bytes_of cs')"
    by (simp add: pkt_def assms(1) full unat_word_cat_16)
qed

lemma icmp_takes:
  fixes ownIp junk
  assumes "icmp_idle s" "items (icm_siIPRX_Data s) = cs" "payload_ok cs" "24 < length (bytes_of cs)" "length cs \<le> 64"
    and "cs = c0 # c1 # c2 # cs'" "getLen c0 = 8" "getLen c1 = 8" "getLen c2 = 8"
  defines "t \<equiv> (icmp ownIp junk ^^ (length cs + 4)) s" and "m \<equiv> inet_sum (drop 20 (bytes_of cs))"
  shows "icc_verdict m t" "items (icm_siIPRX_Data t) = []" "icc_notes t = (ip4_getIcmpType c2, ip4_getIcmpCode c2, ip4_getIcmpCsum c2)"
    "icmp_ports t = icmp_ports s" "items (ssICcToIPd_Data t) = [c0, icc_second c1 c2, icc_third c1 c2] @ cs'"
proof -
  let ?T = "icmp ownIp junk"
  have last: "\<not> ax_tlast c0" "\<not> ax_tlast c1" "\<not> ax_tlast c2" "payload_ok cs'"
    using message_split [OF assms(3,4)] assms(6) by (metis list.inject)+
  have s: "icc_reading s" "icc_chunkCount s = 0" "items (ssICcToIPd_Data s) = []" "depth (ssICcToIPd_Data s) = 64"
    using assms(1) by (simp_all add: icmp_idle_def icmp_depths_def)
  have input: "items (icm_siIPRX_Data s) = c0 # c1 # c2 # cs'" "2 < depth (ssICcToIPd_Data s)" using assms(2,6) s(4) by simp_all
  let ?u = "(?T ^^ 3) s"
  note u = icc_header [OF s(1,2) input(1) s(3) input(2) last(1-3) assms(9), of ownIp junk]
  have len: "length cs = 3 + length cs'" by (simp add: assms(6))
  have du: "depth (ssICcToIPd_Data ?u) = 64" using u(4) s(4) by (simp add: icmp_ports_def)
  have pu: "3 \<le> unat (icc_chunkCount ?u)" "unat (icc_chunkCount ?u) + length cs' \<le> 128" "items (icm_siIPRX_Data ?u) = cs' @ []"
    "length (items (ssICcToIPd_Data ?u)) + length cs' \<le> depth (ssICcToIPd_Data ?u)"
    using u(2,3,5) du len assms(5) by simp_all
  let ?v = "(?T ^^ length cs') ?u"
  have "let t = ?v in icc_taken t \<and> items (icm_siIPRX_Data t) = [] \<and>
    items (ssICcToIPd_Data t) = items (ssICcToIPd_Data ?u) @ butlast (icc_prevChunk ?u # cs') \<and>
    icc_prevChunk t = last cs' \<and> lanes_inv (icc_subSums t) (inet_sum (drop 4 (chunk_bytes c2)) + inet_sum (bytes_of cs')) \<and>
    icc_notes t = icc_notes ?u \<and> icmp_ports t = icmp_ports ?u"
    by (rule icc_stream [OF u(1) pu(1-3) last(4) u(8) pu(4)])
  then have v: "icc_taken ?v" "items (icm_siIPRX_Data ?v) = []"
    "items (ssICcToIPd_Data ?v) = [c0, icc_second c1 c2] @ butlast (icc_third c1 c2 # cs')" "icc_prevChunk ?v = last cs'"
    "lanes_inv (icc_subSums ?v) m" "icc_notes ?v = (ip4_getIcmpType c2, ip4_getIcmpCode c2, ip4_getIcmpCsum c2)"
    "icmp_ports ?v = icmp_ports s"
    using u(4-7) message_fields(6) [OF assms(6-9)] by (simp_all add: Let_def m_def)
  have ne: "cs' \<noteq> []" by (rule payload_ok_nonempty [OF last(4)])
  have "length (items (ssICcToIPd_Data ?v)) < depth (ssICcToIPd_Data ?v)"
    using v(3,7) s(4) len assms(5) by (simp add: icmp_ports_def)
  note w = icc_sums [OF v(1,5) this, of ownIp junk]
  have "length cs + 4 = 4 + (length cs' + 3)" by (simp add: len)
  then have t: "t = (?T ^^ 4) ?v" unfolding t_def by (simp only: funpow_add o_apply)
  show "icc_verdict m t" "items (icm_siIPRX_Data t) = []" "icc_notes t = (ip4_getIcmpType c2, ip4_getIcmpCode c2, ip4_getIcmpCsum c2)"
    "icmp_ports t = icmp_ports s"
    unfolding t using w v by simp_all
  show "items (ssICcToIPd_Data t) = [c0, icc_second c1 c2, icc_third c1 c2] @ cs'"
    unfolding t w(3) v(3,4) using ne by simp
qed

lemma icmp_run:
  fixes ownIp junk
  assumes "icmp_idle s" "items (icm_siIPRX_Data s) = cs" "payload_ok cs" "24 < length (bytes_of cs)" "length cs \<le> 64"
    and "length (items (icm_soIPTX_Data s)) + length cs \<le> depth (icm_soIPTX_Data s)"
    and "cs = c0 # c1 # c2 # cs'" "getLen c0 = 8" "getLen c1 = 8" "getLen c2 = 8"
  defines "t \<equiv> (icmp ownIp junk ^^ (2 * length cs + 4)) s"
    and "w \<equiv> ip4_setIcmpCsum (icc_updated (ip4_getIcmpCsum c2)) (icc_third c1 c2)"
  shows "icmp_idle t \<and> items (icm_siIPRX_Data t) = [] \<and>
    items (icm_soIPTX_Data t) = items (icm_soIPTX_Data s) @ (if echo_request (bytes_of cs) then [c0, icc_second c1 c2, w] @ cs' else [])"
proof -
  let ?T = "icmp ownIp junk" let ?pkt = "bytes_of cs" let ?n = "length cs'"
  let ?u = "(?T ^^ (length cs + 4)) s"
  note u = icmp_takes [OF assms(1-5,7-10), of ownIp junk]
  have last: "\<not> ax_tlast c0" "\<not> ax_tlast c1" "\<not> ax_tlast c2" "payload_ok cs'"
    using message_split [OF assms(3,4)] assms(7) by (metis list.inject)+
  have depths: "icmp_depths ?u = (64, 8, 16, 16)" "icm_soIPTX_Data ?u = icm_soIPTX_Data s"
    using u(4) assms(1) by (simp_all add: icmp_ports_def icmp_depths_def icmp_idle_def)
  have fits: "fits (ssICcToIPd_Data ?u)"
    using u(5) depths(1) assms(5,7) by (simp add: fits_def icmp_depths_def)
  define ok where "ok \<longleftrightarrow> ones_sum (inet_sum (drop 20 ?pkt)) = 65535 \<and> icc_ping ?u"
  define v where "v = icc_decided ok ?u"
  note tick = icc_verdict_tick [OF u(1,2) fits depths(1), folded ok_def, folded v_def]
  have ok: "ok \<longleftrightarrow> echo_request ?pkt"
    using u(3) message_fields(1,2) [OF assms(7-10)]
    by (auto simp: ok_def echo_request_def inet_checksum_zero icc_ping_def icc_notes_def ICMP_ECHO_REQUEST_def)
  have q: "icmp_quiet ?u" using u(1) by (simp add: icc_verdict_def)
  have hc: "icc_oldHCsum ?u = ip4_getIcmpCsum c2" using u(3) by (simp add: icc_notes_def)
  have dv: "items (ssICcToIPd_Data v) = c0 # icc_second c1 c2 # icc_third c1 c2 # cs'" "ipd_isFirstChunk v" "\<not> ipd_drop v"
    "ici_chunkCount v = 0" "icm_soIPTX_Data v = icm_soIPTX_Data s" "icmp_depths v = (64, 8, 16, 16)"
    "items (ssICcToIPd_DropCmd v) = [\<not> ok]" "items (ssUVwToICi_Csum0 v) = (if ok then [icc_updated (ip4_getIcmpCsum c2)] else [])"
    using u(5) q depths hc by (simp_all add: v_def icc_decided_def icmp_quiet_def icmp_depths_def)
  have seg: "is_segment ax_tlast cs'" using last(4) by (simp add: payload_ok_def)
  have len: "length cs = 3 + ?n" by (simp add: assms(7))
  have n: "3 + ?n \<le> 127" "length (items (icm_soIPTX_Data v)) + 3 + ?n \<le> depth (icm_soIPTX_Data v)"
    using assms(5,6) len dv(5) by simp_all
  have tail: "(?T ^^ (3 + ?n)) ?u = (?T ^^ (3 + ?n)) v"
  proof -
    have "3 + ?n = Suc (2 + ?n)" by simp
    then show ?thesis by (simp only: funpow_Suc_right o_apply tick(1))
  qed
  have "2 * length cs + 4 = (3 + ?n) + (length cs + 4)" by (simp add: len)
  then have t: "t = (?T ^^ (3 + ?n)) v" unfolding t_def tail [symmetric] by (simp only: funpow_add o_apply)
  have ready: "icmp_ready t \<Longrightarrow> items (ssICcToIPd_Data t) = [] \<Longrightarrow> icmp_depths t = icmp_depths v \<Longrightarrow> icmp_idle t \<and> items (icm_siIPRX_Data t) = []"
    using dv(6) by (simp add: icmp_ready_def icmp_idle_def)
  show ?thesis
  proof (cases ok)
    case True
    have f: "items (ssICcToIPd_DropCmd v) = [False]" "items (ssUVwToICi_Csum0 v) = [icc_updated (ip4_getIcmpCsum c2)]"
      using dv(7,8) True by simp_all
    have "\<not> ax_tlast (icc_second c1 c2)" "\<not> ax_tlast (icc_third c1 c2)" using last(3) by (simp_all add: icc_chunks_keep)
    from echo_forward [OF tick(2) dv(1) seg n(1) dv(2,3) f dv(4) last(1) this n(2), of ownIp junk] show ?thesis
      using ready True ok dv(5) unfolding t [symmetric] w_def by simp
  next
    case False
    have f: "items (ssICcToIPd_DropCmd v) = [True]" "items (ssUVwToICi_Csum0 v) = []" using dv(7,8) False by simp_all
    have seg': "is_segment ax_tlast (icc_second c1 c2 # icc_third c1 c2 # cs')"
      using seg last(3,4) payload_ok_nonempty [OF last(4)] by (simp add: is_segment_Cons icc_chunks_keep)
    have "(?T ^^ Suc (length (icc_second c1 c2 # icc_third c1 c2 # cs'))) v = t" unfolding t by (simp add: numeral_3_eq_3)
    with echo_discard [OF tick(2) dv(1) seg' last(1) dv(2,3) f dv(4), of ownIp junk] show ?thesis
      using ready False ok dv(5) by simp
  qed
qed

lemma message_reply:
  assumes "cs = c0 # c1 # c2 # cs'" "getLen c0 = 8" "getLen c1 = 8" "getLen c2 = 8" "payload_ok cs'" "\<not> ax_tlast c0"
    and "echo_request (bytes_of cs)" "inet_sum (drop 24 (bytes_of cs)) \<noteq> 0" "\<not> ax_tlast c2"
  defines "ws \<equiv> [c0, icc_second c1 c2, ip4_setIcmpCsum (icc_updated (ip4_getIcmpCsum c2)) (icc_third c1 c2)] @ cs'"
  shows "payload_ok ws" "bytes_of ws = echo_reply (bytes_of cs)"
proof -
  let ?pkt = "bytes_of cs" let ?hc = "ip4_getIcmpCsum c2"
  note f = message_fields [OF assms(1-4)]
  have keep: "getLen (icc_second c1 c2) = 8" "getLen (ip4_setIcmpCsum x (icc_third c1 c2)) = 8" for x
    using assms(4) by (simp_all add: getLen_def icc_chunks_keep ip4_setIcmpCsum_def) (simp add: keepToLen_def)
  show "payload_ok ws"
    using assms(2,5,6,9) payload_ok_nonempty [OF assms(5)] keep
    by (simp add: ws_def payload_ok_Cons icc_chunks_keep ip4_setIcmpCsum_def)
  have req: "?pkt ! 20 = 8" "?pkt ! 21 = 0" "ones_sum (inet_sum (drop 20 ?pkt)) = 65535"
    using assms(7) by (simp_all add: echo_request_def inet_checksum_zero)
  have "ones_sum (256 * 8 + unat ?hc + inet_sum (bytes_of cs')) = 65535" "inet_sum (bytes_of cs') \<noteq> 0"
    using req f(4,5) assms(8) by simp_all
  from icc_updated_reply [OF this] have x: "icc_updated ?hc = inet_checksum ([0, 0, 0, 0] @ drop 24 ?pkt)"
    using f(4) by (simp add: inet_checksum_def)
  let ?hd = "bytes_of [c0, c1, c2]"
  have split: "take 12 (xs @ ys) = take 12 xs \<and> take 4 (drop 16 (xs @ ys)) = take 4 (drop 16 xs) \<and>
      take 4 (drop 12 (xs @ ys)) = take 4 (drop 12 xs) \<and> (xs @ ys) ! 21 = xs ! 21" if "length xs = 24" for xs ys :: "8 word list"
    using that by (simp add: nth_append)
  have "length ?hd = 24" "?pkt = ?hd @ bytes_of cs'" using assms(2-4) by (simp_all add: assms(1))
  then have "take 12 ?pkt = take 12 ?hd" "take 4 (drop 16 ?pkt) = take 4 (drop 16 ?hd)"
    "take 4 (drop 12 ?pkt) = take 4 (drop 12 ?hd)" "?pkt ! 21 = ?hd ! 21"
    using split [of ?hd "bytes_of cs'"] by simp_all
  with icc_reply_bytes [OF assms(2-4), of "icc_updated ?hc"] show "bytes_of ws = echo_reply ?pkt"
    using req(2) f(4) unfolding x by (simp add: ws_def x echo_reply_def Let_def)
qed

lemma unat_inet_checksum: "unat (inet_checksum bs) = 65535 - ones_sum (inet_sum bs)"
proof -
  have "inet_checksum bs = - 1 - of_nat (ones_sum (inet_sum bs))" by (simp add: inet_checksum_def not_eq_complement)
  then have "unat (inet_checksum bs) = unat (- 1 :: 16 word) - unat (of_nat (ones_sum (inet_sum bs)) :: 16 word)"
    by (simp only: unat_sub word_order.extremum)
  then show ?thesis
    using ones_sum_le [of "inet_sum bs"] by (simp add: unsigned_minus_1_eq_mask mask_eq_exp_minus_1 unat_of_nat)
qed

lemma inet_sum_be16: "inet_sum (be16 x @ bs) = unat x + inet_sum bs"
  using unat_word_cat_16 [of "be16 x ! 0" "be16 x ! 1"] be_u16 [of x] by (simp add: be16_def)

text \<open>What has to be added to a sum so that it is all ones.\<close>

lemma ones_sum_complement:
  assumes "n \<noteq> 0" "u < 65535"
  shows "ones_sum (n + u) = 65535 \<longleftrightarrow> u = 65535 - ones_sum n"
proof -
  let ?o = "ones_sum n"
  have o: "?o \<noteq> 0" "?o \<le> 65535" using assms(1) ones_sum_le [of n] by (simp_all add: ones_sum_def)
  have "ones_sum (n + u) = ones_sum (?o + u)" by simp
  also have "ones_sum (?o + u) = 65535 \<longleftrightarrow> ?o + u = 65535"
  proof (cases "?o + u \<le> 65535")
    case True
    then show ?thesis by (simp only: ones_sum_id)
  next
    case False
    then have "?o + u - 65535 \<le> 65535" "?o + u - 65535 \<noteq> 65535" "?o + u = ?o + u - 65535 + 65535" "?o + u - 65535 \<noteq> 0"
      using o(2) assms(2) by simp_all
    then show ?thesis using ones_sum_step [of "?o + u - 65535"] ones_sum_id [of "?o + u - 65535"] False by simp
  qed
  finally show ?thesis using o by linarith
qed

lemma echo_reply_valid:
  assumes "24 < length pkt" "inet_sum (drop 24 pkt) \<noteq> 0"
  shows "inet_checksum (drop 20 (echo_reply pkt)) = 0"
proof -
  let ?rest = "drop 24 pkt" let ?x = "inet_checksum ([0, 0, 0, 0] @ ?rest)"
  have "drop 20 (echo_reply pkt) = [0, 0] @ be16 ?x @ ?rest"
    unfolding echo_reply_def Let_def using assms(1) by simp
  then have sum: "inet_sum (drop 20 (echo_reply pkt)) = inet_sum ?rest + unat ?x"
    using inet_sum_be16 [of ?x ?rest] by (simp add: inet_sum_append)
  have x: "unat ?x = 65535 - ones_sum (inet_sum ?rest)" by (simp add: unat_inet_checksum)
  have "ones_sum (inet_sum ?rest) \<noteq> 0" using assms(2) by (simp add: ones_sum_def)
  then have "unat ?x < 65535" using x by simp
  from ones_sum_complement [OF assms(2) this] x show ?thesis by (simp add: inet_checksum_zero sum)
qed

section \<open>A message that is too long\<close>

lemma icc_partial:
  fixes ownIp junk
  assumes "icc_reading s" "3 \<le> unat (icc_chunkCount s)" "unat (icc_chunkCount s) + length cs \<le> 127"
    and "items (icm_siIPRX_Data s) = cs @ rest" "\<forall>c \<in> set cs. \<not> ax_tlast c"
    and "length (items (ssICcToIPd_Data s)) + length cs \<le> depth (ssICcToIPd_Data s)"
  shows "let t = (icmp ownIp junk ^^ length cs) s in icc_reading t \<and> unat (icc_chunkCount t) = unat (icc_chunkCount s) + length cs \<and>
    items (icm_siIPRX_Data t) = rest \<and> length (items (ssICcToIPd_Data t)) = length (items (ssICcToIPd_Data s)) + length cs \<and>
    icmp_ports t = icmp_ports s"
  using assms
proof (induction cs arbitrary: s)
  case (Cons c cs)
  have input: "items (icm_siIPRX_Data s) = c # (cs @ rest)" using Cons.prems(4) by simp
  have room: "length (items (ssICcToIPd_Data s)) < depth (ssICcToIPd_Data s)" using Cons.prems(6) by simp
  have k: "icc_chunkCount s \<noteq> 0" "icc_chunkCount s \<noteq> 1" "icc_chunkCount s \<noteq> 2" using Cons.prems(2) by auto
  have n: "unat (icc_chunkCount s + 1) = Suc (unat (icc_chunkCount s))" using Cons.prems(2,3) by (intro seven_bits) simp_all
  let ?t = "icmp ownIp junk s"
  have t: "icc_reading ?t" "icc_chunkCount ?t = icc_chunkCount s + 1" "items (icm_siIPRX_Data ?t) = cs @ rest"
    "length (items (ssICcToIPd_Data ?t)) = Suc (length (items (ssICcToIPd_Data s)))" "icmp_ports ?t = icmp_ports s"
    using Cons.prems(1,5) k by (simp_all add: icc_read_tick [OF Cons.prems(1) input room, of ownIp junk] icc_chunk_def
        icc_reading_def icmp_quiet_def icmp_ports_def Let_def)
  have "3 \<le> unat (icc_chunkCount ?t)" "unat (icc_chunkCount ?t) + length cs \<le> 127" "\<forall>c \<in> set cs. \<not> ax_tlast c"
    "length (items (ssICcToIPd_Data ?t)) + length cs \<le> depth (ssICcToIPd_Data ?t)"
    using Cons.prems(2,3,5,6) t(2,4,5) n by (simp_all add: icmp_ports_def)
  from Cons.IH [OF t(1) this(1,2) t(3) this(3,4)] show ?case
    using t n by (simp add: Let_def funpow_swap1)
qed simp

text \<open>The checker has a chunk to forward, but the FIFO is full and the dropper waits for the verdict.\<close>

definition icc_stuck :: "'a ICMP_scheme \<Rightarrow> bool" where
  "icc_stuck s \<longleftrightarrow> icmp_quiet s \<and> length (items (ssICcToIPd_Data s)) = depth (ssICcToIPd_Data s) \<and>
     (icc_writeLastOne s \<or> \<not> icc_computeCs s \<and> icc_chunkCount s \<noteq> 0)"

lemma payload_not_last: "payload_ok cs \<Longrightarrow> c \<in> set (butlast cs) \<Longrightarrow> \<not> ax_tlast c"
  by (simp add: payload_ok_def is_segment_def)

lemma icmp_fills:
  fixes ownIp junk
  assumes "icmp_idle s" "items (icm_siIPRX_Data s) = cs @ rest" "payload_ok cs" "64 < length cs"
  defines "t \<equiv> (icmp ownIp junk ^^ 65) s"
  shows "icc_stuck t" "icm_soIPTX_Data t = icm_soIPTX_Data s"
proof -
  let ?T = "icmp ownIp junk"
  obtain c0 c1 c2 cs3 where cs: "cs = c0 # c1 # c2 # cs3" "61 < length cs3"
    using assms(4) by (cases cs; cases "tl cs"; cases "tl (tl cs)") auto
  define xs where "xs = take 61 cs3"
  obtain c ds where split: "cs3 = xs @ c # ds"
    using cs(2) unfolding xs_def by (metis id_take_nth_drop)
  have xs: "length xs = 61" using cs(2) by (simp add: xs_def)
  have "butlast cs = c0 # c1 # c2 # xs @ butlast (c # ds)" by (simp add: cs(1) split butlast_append)
  then have nl: "\<not> ax_tlast c0" "\<not> ax_tlast c1" "\<not> ax_tlast c2" "\<forall>x \<in> set xs. \<not> ax_tlast x" "getLen c2 = 8"
    using payload_not_last [OF assms(3)] assms(3) by (simp_all add: payload_ok_def)
  have s: "icc_reading s" "icc_chunkCount s = 0" "items (ssICcToIPd_Data s) = []" "2 < depth (ssICcToIPd_Data s)"
    "depth (ssICcToIPd_Data s) = 64"
    using assms(1) by (simp_all add: icmp_idle_def icmp_depths_def)
  have input: "items (icm_siIPRX_Data s) = c0 # c1 # c2 # (xs @ c # ds @ rest)" using assms(2) by (simp add: cs(1) split)
  let ?u = "(?T ^^ 3) s" let ?v = "(?T ^^ length xs) ?u"
  note u = icc_header [OF s(1,2) input s(3,4) nl(1-3,5), of ownIp junk]
  have pu: "3 \<le> unat (icc_chunkCount ?u)" "unat (icc_chunkCount ?u) + length xs \<le> 127"
    "length (items (ssICcToIPd_Data ?u)) + length xs \<le> depth (ssICcToIPd_Data ?u)"
    using u(2,4,5) xs s(5) by (simp_all add: icmp_ports_def)
  note run = icc_partial [OF u(1) pu(1,2) u(3) nl(4) pu(3), of ownIp junk]
  have v: "icc_reading ?v" "unat (icc_chunkCount ?v) = 64" "items (icm_siIPRX_Data ?v) = c # (ds @ rest)"
    "length (items (ssICcToIPd_Data ?v)) = 63" "icmp_ports ?v = icmp_ports s"
    using run u(2,4,5) xs by (simp_all add: Let_def)
  have room: "length (items (ssICcToIPd_Data ?v)) < depth (ssICcToIPd_Data ?v)"
    using v(4,5) s(5) by (simp add: icmp_ports_def)
  have "unat (icc_chunkCount ?v + 1) = 65" using seven_bits [of "icc_chunkCount ?v"] v(2) by simp
  then have k: "icc_chunkCount ?v \<noteq> 0" "icc_chunkCount ?v \<noteq> 1" "icc_chunkCount ?v \<noteq> 2" "icc_chunkCount ?v + 1 \<noteq> 0"
    using v(2) by auto
  have "icc_stuck (?T ?v) \<and> icm_soIPTX_Data (?T ?v) = icm_soIPTX_Data s"
    using v(1,4,5) k s(5) by (simp add: icc_read_tick [OF v(1,3) room, of ownIp junk] icc_chunk_def icc_stuck_def
        icc_reading_def icmp_quiet_def icmp_ports_def Let_def)
  moreover have "(65 :: nat) = Suc (length xs + 3)" by (simp add: xs)
  then have "t = ?T ?v" unfolding t_def by (simp only: funpow.simps funpow_add o_apply)
  ultimately show "icc_stuck t" "icm_soIPTX_Data t = icm_soIPTX_Data s" by simp_all
qed

text \<open>
  What happens then, while the error inputs may carry anything: the half of the server that serves echo
  messages is dead, and the inserter reads from the error half only.
\<close>

definition echo_dead :: "'a ICMP_scheme \<Rightarrow> bool" where
  "echo_dead s \<longleftrightarrow> length (items (ssICcToIPd_Data s)) = depth (ssICcToIPd_Data s) \<and>
     (icc_writeLastOne s \<or> \<not> icc_computeCs s \<and> icc_chunkCount s \<noteq> 0) \<and>
     ipd_isFirstChunk s \<and> \<not> ipd_drop s \<and> items (ssICcToIPd_DropCmd s) = [] \<and>
     items (ssXYzToICi_Data0 s) = [] \<and> items (ssUVwToICi_Csum0 s) = [] \<and>
     (ici_chunkCount s \<noteq> 0 \<longrightarrow> ici_dataStreamSource s)"

text \<open>The state of the checker and the dropper, and the streams between them and to the inserter.\<close>

definition echo_core :: "'a ICMP_scheme \<Rightarrow> _" where
  "echo_core s = ((ssICcToIPd_Data s, ssICcToIPd_DropCmd s, ssXYzToICi_Data0 s, ssUVwToICi_Csum0 s),
     (icc_writeLastOne s, icc_computeCs s, icc_chunkCount s, icc_csumState s, icc_prevChunk s),
     (icc_subSums s, icc_oldHCsum s, icc_newHCsum s, icc_icmpType s, icc_icmpCode s),
     (ipd_isFirstChunk s, ipd_drop s))"

text \<open>Any activations, while packets of any kind arrive on all inputs and the output is read or not.\<close>

inductive icmp_run :: "Ip4Addr \<Rightarrow> 'a ICMP_scheme \<Rightarrow> 'a ICMP_scheme \<Rightarrow> bool" for ownIp s where
  start: "icmp_run ownIp s s"
| activation: "icmp_run ownIp s t \<Longrightarrow> icmp_run ownIp s (icmp ownIp junk t)"
| environment: "icmp_run ownIp s t \<Longrightarrow> items si = items (icm_siIPRX_Data t) @ cs \<Longrightarrow>
     icmp_run ownIp s (t\<lparr>icm_siIPRX_Data := si, icm_siIPRX_Derr := derr, icm_siUOE_Data := uoe, icm_soIPTX_Data := out\<rparr>)"

lemma icmp_run_funpow: "icmp_run ownIp s t \<Longrightarrow> icmp_run ownIp s ((icmp ownIp junk ^^ k) t)"
  by (induction k) (simp_all add: activation)

lemma dead_checker:
  assumes "echo_dead s"
  shows "waiting pIcmpChecksumChecker s = s"
proof (cases "icc_writeLastOne s \<or> items (icm_siIPRX_Data s) \<noteq> []")
  case True
  then have "\<not> fits (ssICcToIPd_Data (pIcmpChecksumChecker s))"
    using assms by (auto simp: pIcmpChecksumChecker_def echo_dead_def fits_def icc_chunk_def sread_def Let_def
        split: list.splits)
  then show ?thesis by (simp add: waiting_def icmp_fits_def)
next
  case False
  then show ?thesis using assms by (simp add: waiting_def pIcmpChecksumChecker_def echo_dead_def sread_empty)
qed

lemma dead_dropper: "echo_dead s \<Longrightarrow> waiting (pInvalidPacketDropper junk) s = s"
  by (auto simp: waiting_def pInvalidPacketDropper_def echo_dead_def sread_empty split: option.split prod.split)

text \<open>What the error half does not touch.\<close>

definition echo_kept :: "'a ICMP_scheme \<Rightarrow> 'a ICMP_scheme \<Rightarrow> bool" where
  "echo_kept s t \<longleftrightarrow> echo_core t = echo_core s \<and> icm_siIPRX_Data t = icm_siIPRX_Data s"

lemmas echo_kept_defs = echo_kept_def echo_core_def

lemma builder_keeps: "echo_kept s (pControlMessageBuilder s)" "ici_chunkCount (pControlMessageBuilder s) = ici_chunkCount s"
  "ici_dataStreamSource (pControlMessageBuilder s) = ici_dataStreamSource s"
  by (auto simp: echo_kept_defs pControlMessageBuilder_def bcm_input_def Let_def
      split: BcmState.split option.split if_split)

lemma appender_keeps: "echo_kept s (pIpHeaderAppender ownIp s)" "ici_chunkCount (pIpHeaderAppender ownIp s) = ici_chunkCount s"
  "ici_dataStreamSource (pIpHeaderAppender ownIp s) = ici_dataStreamSource s"
  by (auto simp: echo_kept_defs pIpHeaderAppender_def Let_def split: AihState.split option.split prod.split if_split)

lemma dead_kept:
  assumes "echo_dead s" "echo_kept s t" "ici_chunkCount t = ici_chunkCount s" "ici_dataStreamSource t = ici_dataStreamSource s"
  shows "echo_dead t"
  using assms by (simp add: echo_dead_def echo_kept_defs)

lemma dead_inserter:
  assumes "echo_dead s"
  shows "echo_kept s (waiting pIcmpChecksumInserter s)" "echo_dead (waiting pIcmpChecksumInserter s)"
proof -
  have *: "echo_kept s (pIcmpChecksumInserter s) \<and>
      (ici_chunkCount (pIcmpChecksumInserter s) \<noteq> 0 \<longrightarrow> ici_dataStreamSource (pIcmpChecksumInserter s))"
    using assms by (auto simp: echo_dead_def echo_kept_defs pIcmpChecksumInserter_def ici_read_def ici_csum_def ici_put_def
        sempty_def Let_def split: option.split prod.split if_split)
  then show k: "echo_kept s (waiting pIcmpChecksumInserter s)"
    by (simp add: waiting_def echo_kept_def)
  show "echo_dead (waiting pIcmpChecksumInserter s)"
    using assms * by (auto simp: waiting_def echo_dead_def echo_kept_defs)
qed

lemma dead_tick:
  assumes "echo_dead s"
  shows "echo_dead (icmp ownIp junk s)" "echo_kept s (icmp ownIp junk s)"
proof -
  let ?b = "pControlMessageBuilder s" let ?a = "pIpHeaderAppender ownIp ?b"
  have b: "echo_dead ?b" by (rule dead_kept [OF assms builder_keeps])
  have a: "echo_dead ?a" by (rule dead_kept [OF b appender_keeps])
  have icmp: "icmp ownIp junk s = waiting pIcmpChecksumInserter ?a"
    by (simp add: icmp_def dead_checker [OF assms] dead_dropper [OF assms])
  show "echo_dead (icmp ownIp junk s)" unfolding icmp by (rule dead_inserter(2) [OF a])
  show "echo_kept s (icmp ownIp junk s)"
    unfolding icmp using dead_inserter(1) [OF a] appender_keeps(1) [of ?b ownIp] builder_keeps(1) [of s]
    by (simp add: echo_kept_def)
qed

lemma dead_run:
  assumes "icmp_run ownIp s t" "echo_dead s"
  shows "echo_dead t \<and> echo_core t = echo_core s \<and> (\<exists>cs. items (icm_siIPRX_Data t) = items (icm_siIPRX_Data s) @ cs)"
  using assms(1)
proof (induction rule: icmp_run.induct)
  case start
  then show ?case using assms(2) by simp
next
  case (activation t junk)
  then show ?case using dead_tick [of t ownIp junk] by (simp add: echo_kept_def)
next
  case (environment t si cs derr uoe out)
  then show ?case by (auto simp: echo_dead_def echo_core_def)
qed

lemma stuck_dead: "icc_stuck s \<Longrightarrow> echo_dead s"
  by (simp add: icc_stuck_def echo_dead_def icmp_quiet_def)

section \<open>The promises\<close>

text \<open>C14. A ping is answered.  When the server is idle and takes a packet of at most 64 chunks, with an IPv4 header of
  20 bytes, that is an echo request with a valid checksum, then after two activations per chunk and four more it
  has sent exactly one packet and is idle again.  The packet is the reference reply: the addresses swapped, type
  and code zero, the other bytes unchanged, and as checksum the Internet checksum of its own message, so that
  the incremental update of RFC 1624 in the code agrees with a computation from scratch.  This needs some byte
  after the first four of the message that is not zero.\<close>

theorem icmp_answers_echo:
  assumes "icmp_idle s" "items (icm_siIPRX_Data s) = cs" "payload_ok cs" "24 < length (bytes_of cs)" "length cs \<le> 64"
    and "length (items (icm_soIPTX_Data s)) + length cs \<le> depth (icm_soIPTX_Data s)"
    and "echo_request (bytes_of cs)" "inet_sum (drop 24 (bytes_of cs)) \<noteq> 0"
  shows "\<exists>ws. payload_ok ws \<and> bytes_of ws = echo_reply (bytes_of cs) \<and> inet_checksum (drop 20 (bytes_of ws)) = 0 \<and>
    (let t = (icmp ownIp junk ^^ (2 * length cs + 4)) s in icmp_idle t \<and> items (icm_siIPRX_Data t) = [] \<and>
       items (icm_soIPTX_Data t) = items (icm_soIPTX_Data s) @ ws)"
proof -
  from message_split [OF assms(3,4)] obtain c0 c1 c2 cs' where c: "cs = c0 # c1 # c2 # cs'" "getLen c0 = 8" "getLen c1 = 8"
    "getLen c2 = 8" "\<not> ax_tlast c0" "\<not> ax_tlast c1" "\<not> ax_tlast c2" "payload_ok cs'" .
  let ?ws = "[c0, icc_second c1 c2, ip4_setIcmpCsum (icc_updated (ip4_getIcmpCsum c2)) (icc_third c1 c2)] @ cs'"
  note ws = message_reply [OF c(1-4,8,5) assms(7,8) c(7)]
  have "inet_checksum (drop 20 (bytes_of ?ws)) = 0" unfolding ws(2) by (rule echo_reply_valid [OF assms(4,8)])
  then show ?thesis
    using icmp_run [OF assms(1-6) c(1-4), of ownIp junk] ws unfolding if_P [OF assms(7)] Let_def by blast
qed

text \<open>A ping with the payload \<open>abcd\<close>, whose checksum is \<open>0x3337\<close>; that of the reply is \<open>0x3b37\<close>.\<close>

definition ping_chunks :: "AxisIp4 list" where
  "ping_chunks = [chunk 0x0000010020000045 0xFF False, chunk 0x0200000A00000140 0xFF False,
     chunk 0x373300080100000A 0xFF False, chunk 0x6463626101000100 0xFF True]"

lemma ping_chunks_ok:
  "payload_ok ping_chunks" "length ping_chunks = 4"
  "bytes_of ping_chunks = [0x45, 0, 0, 0x20, 0, 1, 0, 0, 0x40, 1, 0, 0, 10, 0, 0, 2, 10, 0, 0, 1, 8, 0, 0x33, 0x37,
     0, 1, 0, 1, 0x61, 0x62, 0x63, 0x64]"
proof -
  have len: "getLen (chunk d 0xFF l) = 8" for d l by (simp add: getLen_def chunk_def keepToLen_def)
  show "payload_ok ping_chunks"
    by (simp add: ping_chunks_def payload_ok_Cons payload_ok_single chunk_ok_def len) (simp add: chunk_def)
  show "bytes_of ping_chunks = [0x45, 0, 0, 0x20, 0, 1, 0, 0, 0x40, 1, 0, 0, 10, 0, 0, 2, 10, 0, 0, 1, 8, 0, 0x33, 0x37,
     0, 1, 0, 1, 0x61, 0x62, 0x63, 0x64]"
    by (simp add: ping_chunks_def chunk_bytes_def len upt_upto_8 del: upt.simps) (simp add: nth_byte_def chunk_def)
qed (simp add: ping_chunks_def)

lemma icmp_reset_idle: "icmp_idle (icmp_reset d\<lparr>icm_siIPRX_Data := st\<rparr>)"
  by (simp add: icmp_idle_def icc_reading_def icmp_quiet_def icmp_depths_def icmp_reset_def fits_def)

theorem icmp_answers_echo_witness:
  "bytes_of (items (icm_soIPTX_Data ((icmp 0x0A000001 False ^^ 12) (icmp_reset 16\<lparr>icm_siIPRX_Data := Stream 4 ping_chunks\<rparr>)))) =
     [0x45, 0, 0, 0x20, 0, 1, 0, 0, 0x40, 1, 0, 0, 10, 0, 0, 1, 10, 0, 0, 2, 0, 0, 0x3B, 0x37,
      0, 1, 0, 1, 0x61, 0x62, 0x63, 0x64]"
proof -
  let ?s = "icmp_reset 16\<lparr>icm_siIPRX_Data := Stream 4 ping_chunks\<rparr>"
  have req: "echo_request (bytes_of ping_chunks)" "inet_sum (drop 24 (bytes_of ping_chunks)) \<noteq> 0"
    unfolding ping_chunks_ok(3) by (simp_all add: echo_request_def inet_checksum_zero ones_sum_def)
  have s: "items (icm_siIPRX_Data ?s) = ping_chunks" "24 < length (bytes_of ping_chunks)" "length ping_chunks \<le> 64"
    "length (items (icm_soIPTX_Data ?s)) + length ping_chunks \<le> depth (icm_soIPTX_Data ?s)"
    by (simp_all add: ping_chunks_ok(2) icmp_reset_def) (simp add: ping_chunks_ok(3))
  have n: "2 * length ping_chunks + 4 = 12" by (simp add: ping_chunks_ok(2))
  have "bytes_of (items (icm_soIPTX_Data ((icmp 0x0A000001 False ^^ 12) ?s))) = echo_reply (bytes_of ping_chunks)"
    using icmp_answers_echo [OF icmp_reset_idle s(1) ping_chunks_ok(1) s(2-4) req, of "0x0A000001" False]
    unfolding Let_def n by (auto simp: icmp_reset_def)
  then show ?thesis
    unfolding ping_chunks_ok(3) by (simp add: echo_reply_def inet_checksum_def ones_sum_def be16_def)
qed



text \<open>C16. A long message stops the echo service for good.  The dropper waits for the verdict on the whole packet and
  the FIFO before it holds 64 chunks, so that after 65 activations of the idle server on a packet of more than
  512 bytes the checker waits for room.  Nothing was sent till then.  Whatever arrives from then on, on
  any input, and however often the server runs, the checker and the dropper never change their
  state again, no message is read from the input, and no chunk and no checksum of a reply reaches the
  inserter, which serves the error messages only.  (These are still sent.)\<close>

theorem icmp_long_message_stalls:
  assumes "icmp_idle s" "items (icm_siIPRX_Data s) = cs @ rest" "payload_ok cs" "64 < length cs"
    and "u = (icmp ownIp junk ^^ 65) s" "icmp_run ownIp u t"
  shows "icm_soIPTX_Data u = icm_soIPTX_Data s \<and> echo_core t = echo_core u \<and>
    (\<exists>more. items (icm_siIPRX_Data t) = items (icm_siIPRX_Data u) @ more) \<and>
    items (ssXYzToICi_Data0 t) = [] \<and> items (ssUVwToICi_Csum0 t) = [] \<and>
    (ici_chunkCount t = 0 \<or> ici_dataStreamSource t)"
proof -
  have "echo_dead u" "icm_soIPTX_Data u = icm_soIPTX_Data s"
    using icmp_fills [OF assms(1-4), of ownIp junk] stuck_dead unfolding assms(5) by blast+
  with dead_run [OF assms(6)] show ?thesis by (auto simp: echo_dead_def)
qed

text \<open>A packet of 520 bytes, and then an expired packet on the error input.\<close>

theorem icmp_long_message_stalls_witness:
  "let s = icmp_reset 1500\<lparr>icm_siIPRX_Data := Stream 100 (replicate 64 (chunk 0 0xFF False) @ [chunk 0 0xFF True])\<rparr>;
       u = (icmp 1 False ^^ 65) s;
       t = (icmp 1 False ^^ 1000000) (u\<lparr>icm_siIPRX_Derr := Stream 8 [chunk 5 0xFF False]\<rparr>)
   in echo_core t = echo_core u \<and> items (ssXYzToICi_Data0 t) = []"
proof -
  let ?cs = "replicate 64 (chunk 0 0xFF False) @ [chunk 0 0xFF True]"
  let ?s = "icmp_reset 1500\<lparr>icm_siIPRX_Data := Stream 100 ?cs\<rparr>"
  define u where "u = (icmp 1 False ^^ 65) ?s"
  have "getLen (chunk 0 0xFF l) = 8" for l by (simp add: getLen_def chunk_def keepToLen_def)
  then have ok: "payload_ok ?cs" by (auto simp: payload_ok_def is_segment_def chunk_ok_def) (simp_all add: chunk_def)
  have s: "items (icm_siIPRX_Data ?s) = ?cs @ []" "64 < length ?cs" by simp_all
  have "icmp_run 1 u (u\<lparr>icm_siIPRX_Data := icm_siIPRX_Data u, icm_siIPRX_Derr := Stream 8 [chunk 5 0xFF False],
      icm_siUOE_Data := icm_siUOE_Data u, icm_soIPTX_Data := icm_soIPTX_Data u\<rparr>)"
    by (rule environment [OF start, of _ _ "[]"]) simp
  then have "icmp_run 1 u (u\<lparr>icm_siIPRX_Derr := Stream 8 [chunk 5 0xFF False]\<rparr>)" by simp
  from icmp_long_message_stalls [OF icmp_reset_idle s(1) ok s(2) u_def icmp_run_funpow [OF this, where junk = False and k = 1000000]]
  show ?thesis unfolding Let_def u_def [symmetric] by blast
qed

end
