(* ===== verification/Icmp_Error.thy ===== *)
theory Icmp_Error
  imports Icmp_Reply
begin

text \<open>
  The error messages of the ICMP server (\<open>Icmp\<close>): a packet from \<open>NTS/iprx\<close> whose time to live has expired, or from
  the UDP engine, is sent back behind a header of 28 bytes.  The message is right but for its checksum, which
  is summed in the order of the bus, inserted in network order, and so has its two bytes swapped.
\<close>

section \<open>The sum in the order of the bus\<close>

fun le_sum :: "8 word list \<Rightarrow> nat" where
  "le_sum [] = 0"
| "le_sum [a] = unat a"
| "le_sum (a # b # bs) = unat a + 256 * unat b + le_sum bs"

lemma le_sum_append: "even (length xs) \<Longrightarrow> le_sum (xs @ ys) = le_sum xs + le_sum ys"
  by (induction xs rule: le_sum.induct) simp_all

lemma le_sum_inet: "le_sum bs mod 65535 = (256 * inet_sum bs) mod 65535"
proof (induction bs rule: le_sum.induct)
  case (2 a)
  have "256 * (256 * unat a) = unat a + 65535 * unat a" by simp
  then show ?case by (simp only: le_sum.simps inet_sum.simps mod_mult_self2)
next
  case (3 a b bs)
  have "256 * (256 * unat a + unat b + inet_sum bs) = (unat a + 256 * unat b) + 256 * inet_sum bs + 65535 * unat a" by simp
  then have "(256 * inet_sum (a # b # bs)) mod 65535 = ((unat a + 256 * unat b) + 256 * inet_sum bs) mod 65535"
    by (simp only: inet_sum.simps mod_mult_self2)
  also have "\<dots> = ((unat a + 256 * unat b) + le_sum bs) mod 65535"
    by (intro mod_add_cong refl) (rule 3 [symmetric])
  finally show ?case by simp
qed simp

lemma le_sum_0: "le_sum bs = 0 \<longleftrightarrow> inet_sum bs = 0"
  by (induction bs rule: le_sum.induct) auto

lemma unat_byteSwap16: "unat (byteSwap16 v) = 256 * (unat v mod 256) + unat v div 256"
proof -
  have "byteSwap16 v = word_cat (ucast v :: 8 word) (ucast (drop_bit 8 v) :: 8 word)"
    by (rule bit_word_eqI) (auto simp: byteSwap16_def bit_word_cat_iff bit_ucast_iff bit_drop_bit_eq)
  moreover have "unat v < 2 ^ LENGTH(16)" by (rule unsigned_less)
  then have "unat v div 256 < 256" by simp
  ultimately show ?thesis
    by (simp add: unat_word_cat_16 unsigned_ucast_eq take_bit_eq_mod drop_bit_eq_div unat_div)
qed

lemma ones_sum_swap:
  assumes "m mod 65535 = (256 * n) mod 65535" "m = 0 \<longleftrightarrow> n = 0"
  shows "ones_sum m = unat (byteSwap16 (of_nat (ones_sum n)))"
proof (cases "n = 0")
  case True
  then show ?thesis using assms(2) unat_byteSwap16 [of 0] by simp
next
  case False
  let ?o = "ones_sum n"
  have o: "?o \<le> 65535" "?o \<noteq> 0" using ones_sum_le [of n] False by (simp_all add: ones_sum_def)
  have on: "?o mod 65535 = n mod 65535" using False by (cases n) (simp_all add: ones_sum_def mod_Suc)
  have u: "unat (of_nat ?o :: 16 word) = ?o" using o(1) by (simp add: unat_of_nat)
  let ?w = "256 * (?o mod 256) + ?o div 256"
  have w: "unat (byteSwap16 (of_nat ?o)) = ?w" by (simp add: unat_byteSwap16 u)
  have "256 * ?o = ?w + 65535 * (?o div 256)" using div_mult_mod_eq [of ?o 256] by linarith
  then have "?w mod 65535 = (256 * ?o) mod 65535" by (simp only: mod_mult_self2)
  also have "\<dots> = (256 * n) mod 65535" using on by (metis mod_mult_right_eq)
  finally have "m mod 65535 = ?w mod 65535" using assms(1) by simp
  moreover have "?w \<noteq> 0"
  proof
    assume "?w = 0"
    then show False using o(2) div_mult_mod_eq [of ?o 256] by linarith
  qed
  ultimately have "ones_sum m = ones_sum ?w" using assms(2) False by (intro ones_sum_cong) simp_all
  moreover have "?w \<le> 65535" using o(1) by linarith
  ultimately show ?thesis using w by (simp add: ones_sum_id)
qed

text \<open>The last step of the builder folds twenty bits to sixteen.\<close>

lemma unat_bcm_fold: "unat (bcm_fold v) = unat v mod 65536 + unat v div 65536"
proof -
  have "unat v < 2 ^ LENGTH(20)" by (rule unsigned_less)
  then have v: "unat v < 1048576" by simp
  have "bcm_fold v = take_bit 16 v + drop_bit 16 v"
    by (simp add: bcm_fold_def take_bit_eq_mask mask_eq_exp_minus_1)
  moreover have "unat (take_bit 16 v) = unat v mod 65536" "unat (drop_bit 16 v) = unat v div 65536"
    by (simp_all add: take_bit_eq_mod drop_bit_eq_div unat_div unat_mod)
  moreover have "unat v mod 65536 + unat v div 65536 < 1048576" using v by linarith
  ultimately show ?thesis by (simp add: unat_word_ariths)
qed

lemma bcm_fold_ones: "unat (bcm_fold (bcm_fold v)) = ones_sum (unat v)"
proof -
  let ?n = "unat v" let ?f = "?n mod 65536 + ?n div 65536"
  have "?n < 2 ^ LENGTH(20)" by (rule unsigned_less)
  then have f: "?f < 65536 + 16" by simp
  have n: "?n = ?f + 65535 * (?n div 65536)" by simp
  have split: "x - 65535 = x mod 65536 + x div 65536" if "65535 < x" "x < 65536 + 16" for x :: nat
  proof -
    have "x div 65536 = 1" using that by (intro div_nat_eqI) simp_all
    then show ?thesis using div_mult_mod_eq [of x 65536] by linarith
  qed
  have "ones_sum ?n = ones_sum ?f"
  proof (cases "?f = 0")
    case False
    then show ?thesis using ones_sum_steps [of ?f "?n div 65536"] n by simp
  next
    case True
    then show ?thesis using n by simp
  qed
  also have "\<dots> = ?f mod 65536 + ?f div 65536"
  proof (cases "?f \<le> 65535")
    case True
    then show ?thesis by (simp add: ones_sum_id)
  next
    case False
    then have "ones_sum ?f = ones_sum (?f - 65535)" using ones_sum_step [of "?f - 65535"] by simp
    also have "\<dots> = ?f - 65535" using f by (intro ones_sum_id) simp
    also have "\<dots> = ?f mod 65536 + ?f div 65536" using split [of ?f] f False by simp
    finally show ?thesis .
  qed
  finally show ?thesis by (simp only: unat_bcm_fold)
qed

lemma bcm_checksum:
  "ucast (NOT (bcm_fold (bcm_fold v))) = (NOT (of_nat (ones_sum (unat v))) :: 16 word)"
proof -
  have v: "bcm_fold (bcm_fold v) = of_nat (ones_sum (unat v))" by (metis bcm_fold_ones of_nat_unat ucast_id)
  show ?thesis
    unfolding v by (rule bit_word_eqI) (auto simp: bit_ucast_iff bit_not_iff bit_of_nat_iff)
qed

lemma le_checksum: "NOT (of_nat (ones_sum (le_sum bs))) = byteSwap16 (inet_checksum bs)"
proof -
  have "(of_nat (ones_sum (le_sum bs)) :: 16 word) = byteSwap16 (of_nat (ones_sum (inet_sum bs)))"
    unfolding ones_sum_swap [OF le_sum_inet le_sum_0] by simp
  moreover have "NOT (byteSwap16 w) = byteSwap16 (NOT w)" for w
    by (rule bit_word_eqI) (auto simp: byteSwap16_def bit_word_cat_iff bit_ucast_iff bit_not_iff bit_drop_bit_eq)
  ultimately show ?thesis by (simp only: inet_checksum_def)
qed

text \<open>What a chunk adds is the sum of its bytes, if those that do not count are zero.\<close>

definition chunk_clean :: "AxisApp \<Rightarrow> bool" where
  "chunk_clean c \<longleftrightarrow> (\<forall>i \<in> {0 ..< 8}. getLen c \<le> i \<longrightarrow> byte_of c i = 0)"

lemma clean_bytes:
  assumes "chunk_ok c" "chunk_clean c"
  shows "le_sum (map (byte_of c) [0, 1, 2, 3, 4, 5, 6, 7]) = le_sum (chunk_bytes c)"
proof -
  have z: "byte_of c i = 0" if "getLen c \<le> i" "i < 8" for i using assms(2) that by (simp add: chunk_clean_def)
  have "getLen c \<in> {1, 2, 3, 4, 5, 6, 7, 8}" using upto_8 chunk_ok_keep [OF assms(1)] by blast
  then show ?thesis
    unfolding chunk_bytes_byte_of using z
    by (elim insertE emptyE) (simp_all add: upt_upto_8 del: upt.simps)
qed

lemma bcm_lane:
  assumes "i < 4"
  shows "(ucast (get_range (16 * i + 15) (16 * i) (ax_tdata c)) :: 20 word) =
    of_nat (unat (byte_of c (2 * i)) + 256 * unat (byte_of c (2 * i + 1)))"
proof -
  let ?w = "word_cat (byte_of c (2 * i + 1)) (byte_of c (2 * i)) :: 16 word"
  have "(ucast (get_range (16 * i + 15) (16 * i) (ax_tdata c)) :: 20 word) = ucast ?w"
    by (rule bit_word_eqI) (use assms in \<open>auto simp: bit_ucast_iff bit_get_range bit_word_cat_iff byte_of_def bit_nth_byte algebra_simps\<close>)
  also have "\<dots> = of_nat (unat ?w)" by simp
  finally show ?thesis by (simp only: unat_word_cat_16 add.commute)
qed

lemma bcm_add_sum: "bcm_add c = of_nat (le_sum (map (byte_of c) [0, 1, 2, 3, 4, 5, 6, 7]))"
  using bcm_lane [of 0 c] bcm_lane [of 1 c] bcm_lane [of 2 c] bcm_lane [of 3 c] by (simp add: bcm_add_def)

lemma bcm_add_clean: "chunk_ok c \<Longrightarrow> chunk_clean c \<Longrightarrow> bcm_add c = of_nat (le_sum (chunk_bytes c))"
  by (simp only: bcm_add_sum clean_bytes)

section \<open>The builder\<close>

definition bcm_src :: "'a ICMP_scheme \<Rightarrow> AxisIcmp stream" where
  "bcm_src s = (if bcm_streamSource s then icm_siIPRX_Derr s else icm_siUOE_Data s)"

definition bcm_frame :: "'a ICMP_scheme \<Rightarrow> _" where
  "bcm_frame s = (icm_soIPTX_Data s, ssXYzToICi_Data0 s, ssXYzToICi_Data1 s, aih_fsmState s, ici_chunkCount s,
     (depth (ssCMbToIHa_Data s), depth (ssCMbToIHa_IpHdr s)), bcm_streamSource s, ssUVwToICi_Csum1 s,
     (ssICcToIPd_Data s, ssICcToIPd_DropCmd s, ssUVwToICi_Csum0 s))"

lemma bcm_stream_tick:
  assumes "bcm_fsmState s = BCM_STREAM" "items (bcm_src s) = c # cs" "\<not> sfull (ssCMbToIHa_Data s)"
  defines "t \<equiv> pControlMessageBuilder s"
  shows "bcm_fsmState t = (if ax_tlast c then BCM_CS else BCM_STREAM)" "items (bcm_src t) = cs" "bcm_frame t = bcm_frame s"
    "items (ssCMbToIHa_Data t) = items (ssCMbToIHa_Data s) @ [c]" "ssCMbToIHa_IpHdr t = ssCMbToIHa_IpHdr s"
    "bcm_checksumAcc t = bcm_checksumAcc s + bcm_add c"
  using assms(1-3) unfolding t_def
  by (cases "bcm_streamSource s"; simp add: pControlMessageBuilder_def bcm_input_def bcm_src_def bcm_frame_def sread_cons)+

lemma bcm_ip_tick:
  assumes "bcm_fsmState s = BCM_IP" "items (bcm_src s) = c # cs" "\<not> sfull (ssCMbToIHa_Data s)" "\<not> sfull (ssCMbToIHa_IpHdr s)"
  defines "t \<equiv> pControlMessageBuilder s"
  shows "bcm_fsmState t = (if bcm_ipChunkCounter s = 2 then BCM_STREAM else BCM_IP)" "items (bcm_src t) = cs" "bcm_frame t = bcm_frame s"
    "items (ssCMbToIHa_Data t) = items (ssCMbToIHa_Data s) @ [c]" "items (ssCMbToIHa_IpHdr t) = items (ssCMbToIHa_IpHdr s) @ [c]"
    "bcm_checksumAcc t = bcm_checksumAcc s + bcm_add c"
    "bcm_ipChunkCounter t = (if bcm_ipChunkCounter s = 2 then 2 else bcm_ipChunkCounter s + 1)"
  using assms(1-4) unfolding t_def
  by (cases "bcm_streamSource s"; simp add: pControlMessageBuilder_def bcm_input_def bcm_src_def bcm_frame_def sread_cons Let_def)+

lemma bcm_stream:
  assumes "bcm_fsmState s = BCM_STREAM" "items (bcm_src s) = cs @ rest" "payload_ok cs"
    and "length (items (ssCMbToIHa_Data s)) + length cs \<le> depth (ssCMbToIHa_Data s)" "\<forall>c \<in> set cs. chunk_clean c"
    and "bcm_checksumAcc s = of_nat m"
  shows "let t = (pControlMessageBuilder ^^ length cs) s in bcm_fsmState t = BCM_CS \<and> items (bcm_src t) = rest \<and>
    bcm_frame t = bcm_frame s \<and> items (ssCMbToIHa_Data t) = items (ssCMbToIHa_Data s) @ cs \<and>
    ssCMbToIHa_IpHdr t = ssCMbToIHa_IpHdr s \<and> bcm_checksumAcc t = of_nat (m + le_sum (bytes_of cs))"
  using assms
proof (induction cs arbitrary: s m)
  case Nil
  then show ?case by (simp add: payload_ok_def is_segment_def)
next
  case (Cons c cs)
  have ok: "chunk_ok c" "chunk_clean c" using Cons.prems(3,5) by (simp_all add: payload_ok_def)
  have input: "items (bcm_src s) = c # (cs @ rest)" "\<not> sfull (ssCMbToIHa_Data s)" using Cons.prems(2,4) by (simp_all add: sfull_def)
  let ?t = "pControlMessageBuilder s"
  note t = bcm_stream_tick [OF Cons.prems(1) input]
  have acc: "bcm_checksumAcc ?t = of_nat (m + le_sum (chunk_bytes c))"
    using t(6) Cons.prems(6) by (simp only: bcm_add_clean [OF ok] of_nat_add)
  show ?case
  proof (cases "cs = []")
    case True
    then have "ax_tlast c" using Cons.prems(3) by (simp add: payload_ok_single)
    then show ?thesis using t acc True by (simp add: Let_def del: of_nat_add)
  next
    case False
    with Cons.prems(3) have c: "\<not> ax_tlast c" "getLen c = 8" "payload_ok cs" by (simp_all add: payload_ok_Cons)
    have p: "bcm_fsmState ?t = BCM_STREAM" "\<forall>c \<in> set cs. chunk_clean c"
      "length (items (ssCMbToIHa_Data ?t)) + length cs \<le> depth (ssCMbToIHa_Data ?t)"
      using t(1,3,4) c(1) Cons.prems(4,5) by (simp_all add: bcm_frame_def)
    from Cons.IH [OF p(1) t(2) c(3) p(3,2) acc] show ?thesis
      using t(3-5) c False by (simp add: Let_def funpow_swap1 le_sum_append add.assoc del: of_nat_add)
  qed
qed

text \<open>The header of the message, and its checksum as the builder computes it: that of the message, with its bytes
  swapped.\<close>

definition error_header :: "bool \<Rightarrow> 8 word list" where
  "error_header ttl = (if ttl then [11, 0] else [3, 3]) @ [0, 0, 0, 0, 0, 0]"

lemma bcm_header_chunk: "bcm_header True = chunk 0x0B 0xFF False" "bcm_header False = chunk 0x0303 0xFF False"
  by code_simp+

lemma bcm_header_bytes: "chunk_bytes (bcm_header ttl) = error_header ttl" "getLen (bcm_header ttl) = 8"
  "\<not> ax_tlast (bcm_header ttl)"
proof -
  have len: "getLen (chunk d 0xFF False) = 8" for d by (simp add: getLen_def chunk_def keepToLen_def)
  show "getLen (bcm_header ttl) = 8" "\<not> ax_tlast (bcm_header ttl)"
    by (cases ttl; simp add: bcm_header_chunk len; simp add: chunk_def)+
  show "chunk_bytes (bcm_header ttl) = error_header ttl"
    by (cases ttl; simp add: bcm_header_chunk chunk_bytes_def len error_header_def upt_upto_8 del: upt.simps)
      (simp_all add: nth_byte_def chunk_def)
qed

definition icmp_unchanged :: "'a ICMP_scheme \<Rightarrow> _" where
  "icmp_unchanged s = (icm_soIPTX_Data s, ssXYzToICi_Data0 s, ssXYzToICi_Data1 s, aih_fsmState s, ici_chunkCount s,
     (ssICcToIPd_Data s, ssICcToIPd_DropCmd s, ssUVwToICi_Csum0 s))"

definition bcm_ready :: "'a ICMP_scheme \<Rightarrow> bool" where
  "bcm_ready s \<longleftrightarrow> bcm_fsmState s = BCM_IDLE \<and> items (ssCMbToIHa_Data s) = [] \<and> items (ssCMbToIHa_IpHdr s) = [] \<and>
     items (ssUVwToICi_Csum1 s) = [] \<and> depth (ssCMbToIHa_Data s) = 192 \<and> depth (ssCMbToIHa_IpHdr s) = 64 \<and>
     0 < depth (ssUVwToICi_Csum1 s)"

lemma bcm_head:
  assumes "bcm_ready s" "ttl = sempty (icm_siUOE_Data s)" "items (if ttl then icm_siIPRX_Derr s else icm_siUOE_Data s) = c0 # c1 # c2 # cs"
    and "bcm_add c0 = of_nat m0" "bcm_add c1 = of_nat m1" "bcm_add c2 = of_nat m2"
  defines "t \<equiv> (pControlMessageBuilder ^^ 4) s"
  shows "bcm_fsmState t = BCM_STREAM \<and> items (bcm_src t) = cs \<and> items (ssCMbToIHa_Data t) = bcm_header ttl # [c0, c1, c2] \<and>
    items (ssCMbToIHa_IpHdr t) = [c0, c1, c2] \<and> bcm_checksumAcc t = of_nat (le_sum (error_header ttl) + m0 + m1 + m2) \<and>
    bcm_streamSource t = ttl \<and> icmp_unchanged t = icmp_unchanged s \<and> ssUVwToICi_Csum1 t = ssUVwToICi_Csum1 s \<and>
    depth (ssCMbToIHa_Data t) = 192"
proof -
  let ?P = pControlMessageBuilder let ?h = "le_sum (error_header ttl)"
  have s: "bcm_fsmState s = BCM_IDLE" "items (ssCMbToIHa_Data s) = []" "items (ssCMbToIHa_IpHdr s) = []"
    "depth (ssCMbToIHa_Data s) = 192" "depth (ssCMbToIHa_IpHdr s) = 64"
    using assms(1) by (simp_all add: bcm_ready_def)
  have h: "bcm_add (bcm_header ttl) = of_nat ?h"
    unfolding bcm_add_sum full_chunk_bytes [OF bcm_header_bytes(2), symmetric] bcm_header_bytes(1) ..
  have src: "\<not> sempty (icm_siUOE_Data s) \<or> \<not> sempty (icm_siIPRX_Derr s)"
    using assms(2,3) by (auto simp: sempty_def split: if_splits)
  define t0 where "t0 = ?P s"
  have t0: "bcm_fsmState t0 = BCM_IP" "items (bcm_src t0) = c0 # (c1 # c2 # cs)" "bcm_ipChunkCounter t0 = 0"
    "items (ssCMbToIHa_Data t0) = [bcm_header ttl]" "items (ssCMbToIHa_IpHdr t0) = []" "bcm_checksumAcc t0 = of_nat ?h"
    "bcm_streamSource t0 = ttl" "icmp_unchanged t0 = icmp_unchanged s" "ssUVwToICi_Csum1 t0 = ssUVwToICi_Csum1 s"
    "depth (ssCMbToIHa_Data t0) = 192" "depth (ssCMbToIHa_IpHdr t0) = 64"
    using s src assms(2,3) h
    by (simp_all add: t0_def pControlMessageBuilder_def sfull_def bcm_src_def icmp_unchanged_def Let_def split: if_splits)
  have f0: "\<not> sfull (ssCMbToIHa_Data t0)" "\<not> sfull (ssCMbToIHa_IpHdr t0)" using t0 by (simp_all add: sfull_def)
  define t1 where "t1 = ?P t0"
  note t1 = bcm_ip_tick [OF t0(1,2) f0, folded t1_def]
  have f1: "\<not> sfull (ssCMbToIHa_Data t1)" "\<not> sfull (ssCMbToIHa_IpHdr t1)" "bcm_fsmState t1 = BCM_IP" "bcm_ipChunkCounter t1 = 1"
    using t1(1,3,4,5,7) t0 by (simp_all add: sfull_def bcm_frame_def)
  define t2 where "t2 = ?P t1"
  note t2 = bcm_ip_tick [OF f1(3) t1(2) f1(1,2), folded t2_def]
  have f2: "\<not> sfull (ssCMbToIHa_Data t2)" "\<not> sfull (ssCMbToIHa_IpHdr t2)" "bcm_fsmState t2 = BCM_IP" "bcm_ipChunkCounter t2 = 2"
    using t2(1,3,4,5,7) t1(3,4,5) t0 f1(4) by (simp_all add: sfull_def bcm_frame_def)
  define t3 where "t3 = ?P t2"
  note t3 = bcm_ip_tick [OF f2(3) t2(2) f2(1,2), folded t3_def]
  have "t = t3" by (simp add: t_def t3_def t2_def t1_def t0_def eval_nat_numeral)
  moreover have "bcm_frame t3 = bcm_frame t0" using t3(3) t2(3) t1(3) by simp
  ultimately show ?thesis
    using t3 t2 t1 t0 f2(4) assms(4-6) by (simp add: bcm_frame_def icmp_unchanged_def)
qed

lemma bcm_run:
  assumes "bcm_ready s" "ttl = sempty (icm_siUOE_Data s)" "items (if ttl then icm_siIPRX_Derr s else icm_siUOE_Data s) = cs @ rest"
    and "payload_ok cs" "\<forall>c \<in> set cs. chunk_clean c" "length cs < 192" "cs = c0 # c1 # c2 # cs'" "cs' \<noteq> []"
    and "771 + le_sum (bytes_of cs) < 2 ^ 20"
  defines "t \<equiv> (pControlMessageBuilder ^^ (length cs + 2)) s"
  shows "bcm_fsmState t = BCM_IDLE" "items (if ttl then icm_siIPRX_Derr t else icm_siUOE_Data t) = rest"
    "items (ssCMbToIHa_Data t) = bcm_header ttl # cs" "items (ssCMbToIHa_IpHdr t) = [c0, c1, c2]" "icmp_unchanged t = icmp_unchanged s"
    "items (ssUVwToICi_Csum1 t) = [byteSwap16 (inet_checksum (error_header ttl @ bytes_of cs))]"
proof -
  let ?P = pControlMessageBuilder let ?bs = "error_header ttl @ bytes_of cs"
  have last: "payload_ok cs'" "getLen c0 = 8" "getLen c1 = 8" "getLen c2 = 8" "chunk_ok c0" "chunk_ok c1" "chunk_ok c2"
    using assms(4,8) by (simp_all add: assms(7) payload_ok_Cons chunk_ok_def)
  have clean: "chunk_clean c0" "chunk_clean c1" "chunk_clean c2" "\<forall>c \<in> set cs'. chunk_clean c"
    using assms(5) by (simp_all add: assms(7))
  have input: "items (if ttl then icm_siIPRX_Derr s else icm_siUOE_Data s) = c0 # c1 # c2 # (cs' @ rest)"
    using assms(3) by (simp add: assms(7))
  define t3 where "t3 = (?P ^^ 4) s"
  let ?m = "le_sum (error_header ttl) + le_sum (chunk_bytes c0) + le_sum (chunk_bytes c1) + le_sum (chunk_bytes c2)"
  have t3: "bcm_fsmState t3 = BCM_STREAM" "items (bcm_src t3) = cs' @ rest" "items (ssCMbToIHa_Data t3) = bcm_header ttl # [c0, c1, c2]"
    "items (ssCMbToIHa_IpHdr t3) = [c0, c1, c2]" "bcm_checksumAcc t3 = of_nat ?m" "bcm_streamSource t3 = ttl"
    "icmp_unchanged t3 = icmp_unchanged s" "ssUVwToICi_Csum1 t3 = ssUVwToICi_Csum1 s" "depth (ssCMbToIHa_Data t3) = 192"
    using bcm_head [OF assms(1,2) input bcm_add_clean [OF last(5) clean(1)] bcm_add_clean [OF last(6) clean(2)]
        bcm_add_clean [OF last(7) clean(3)]] unfolding t3_def by blast+
  have room: "length (items (ssCMbToIHa_Data t3)) + length cs' \<le> depth (ssCMbToIHa_Data t3)"
    using t3(3,9) assms(6) by (simp add: assms(7))
  have m: "?m + le_sum (bytes_of cs') = le_sum ?bs"
    using last(2-4) by (simp add: assms(7) le_sum_append error_header_def)
  define t4 where "t4 = (?P ^^ length cs') t3"
  have t4: "bcm_fsmState t4 = BCM_CS" "items (bcm_src t4) = rest" "bcm_frame t4 = bcm_frame t3"
    "items (ssCMbToIHa_Data t4) = bcm_header ttl # cs" "items (ssCMbToIHa_IpHdr t4) = [c0, c1, c2]"
    "bcm_checksumAcc t4 = of_nat (le_sum ?bs)"
    using bcm_stream [OF t3(1,2) last(1) room clean(4) t3(5)] t3(3,4) m by (simp_all add: Let_def assms(7) t4_def)
  have "le_sum ?bs < 2 ^ 20" using assms(9) by (cases ttl) (simp_all add: le_sum_append error_header_def)
  then have acc: "unat (bcm_checksumAcc t4) = le_sum ?bs" unfolding t4(6) by (simp add: unat_of_nat)
  have x: "ucast (NOT (bcm_fold (bcm_fold (bcm_checksumAcc t4)))) = byteSwap16 (inet_checksum ?bs)"
    unfolding bcm_checksum acc by (rule le_checksum)
  have keep: "ssUVwToICi_Csum1 t4 = ssUVwToICi_Csum1 s" "bcm_streamSource t4 = ttl" "icmp_unchanged t4 = icmp_unchanged s"
    using t4(3) t3(6-8) by (simp_all add: bcm_frame_def icmp_unchanged_def)
  have "length cs + 2 = Suc (length cs' + 4)" by (simp add: assms(7))
  then have t: "t = ?P t4" unfolding t_def t4_def t3_def by (simp only: funpow.simps funpow_add o_apply)
  have "items (ssUVwToICi_Csum1 s) = []" "0 < depth (ssUVwToICi_Csum1 s)" using assms(1) by (simp_all add: bcm_ready_def)
  then have step: "t = t4\<lparr>bcm_checksumAcc := NOT (bcm_fold (bcm_fold (bcm_checksumAcc t4))),
      ssUVwToICi_Csum1 := swrite (ssUVwToICi_Csum1 s) (ucast (NOT (bcm_fold (bcm_fold (bcm_checksumAcc t4))))), bcm_fsmState := BCM_IDLE\<rparr>"
    and empty: "items (ssUVwToICi_Csum1 s) = []"
    using t4(1) keep(1) unfolding t by (simp_all add: pControlMessageBuilder_def sfull_def Let_def)
  show "bcm_fsmState t = BCM_IDLE" "items (ssCMbToIHa_Data t) = bcm_header ttl # cs" "items (ssCMbToIHa_IpHdr t) = [c0, c1, c2]"
    "icmp_unchanged t = icmp_unchanged s" "items (ssUVwToICi_Csum1 t) = [byteSwap16 (inet_checksum ?bs)]"
    using t4(4,5) keep(3) empty x unfolding step by (simp_all add: icmp_unchanged_def)
  show "items (if ttl then icm_siIPRX_Derr t else icm_siUOE_Data t) = rest"
    using t4(2) keep(2) unfolding step by (cases ttl) (simp_all add: bcm_src_def)
qed

section \<open>The appender and the inserter\<close>

text \<open>The appender and then the inserter.\<close>

definition icmp_append :: "Ip4Addr \<Rightarrow> 'a ICMP_scheme \<Rightarrow> 'a ICMP_scheme" where
  "icmp_append ownIp s = waiting pIcmpChecksumInserter (pIpHeaderAppender ownIp s)"

definition append_flow :: "'a ICMP_scheme \<Rightarrow> bool" where
  "append_flow s \<longleftrightarrow> items (ssXYzToICi_Data0 s) = [] \<and> items (ssXYzToICi_Data1 s) = [] \<and> 0 < depth (ssXYzToICi_Data1 s) \<and>
     fits (ssICcToIPd_Data s) \<and> fits (ssICcToIPd_DropCmd s) \<and> fits (ssUVwToICi_Csum0 s)"

text \<open>The inserter takes the one chunk of an error message.\<close>

lemma inserter_error:
  assumes "append_flow (s\<lparr>ssXYzToICi_Data1 := Stream (depth (ssXYzToICi_Data1 s)) []\<rparr>)" "items (ssXYzToICi_Data1 s) = [w]"
    and "ici_chunkCount s \<noteq> 0 \<Longrightarrow> ici_dataStreamSource s" "items (ssUVwToICi_Csum1 s) = (if ici_chunkCount s \<in> {0, 1, 2} then [x] else [])"
    and "length (items (icm_soIPTX_Data s)) < depth (icm_soIPTX_Data s)"
  defines "t \<equiv> waiting pIcmpChecksumInserter s"
  shows "append_flow t" "ici_dataStreamSource t" "items (ssUVwToICi_Csum1 t) = (if ici_chunkCount s \<in> {0, 1} then [x] else [])"
    "ici_chunkCount t = (if ax_tlast w \<and> ici_chunkCount s \<notin> {0, 2} then 0 else ici_chunkCount s + 1)"
    "items (icm_soIPTX_Data t) = items (icm_soIPTX_Data s) @ [if ici_chunkCount s = 2 then ip4_setIcmpCsum x w else w]"
    "depth (icm_soIPTX_Data t) = depth (icm_soIPTX_Data s)" "ssCMbToIHa_Data t = ssCMbToIHa_Data s" "ssCMbToIHa_IpHdr t = ssCMbToIHa_IpHdr s"
    "aih_fsmState t = aih_fsmState s" "iha_icmpData t = iha_icmpData s" "iha_remoteIpHostAddr t = iha_remoteIpHostAddr s"
    "bcm_fsmState t = bcm_fsmState s"
proof -
  note a = assms(1) [unfolded append_flow_def, simplified]
  let ?p = "pIcmpChecksumInserter s"
  have x: "items (ssUVwToICi_Csum1 s) = [x]" if "ici_chunkCount s = 2" using assms(4) that by simp
  have p: "append_flow ?p" "ici_dataStreamSource ?p" "items (ssUVwToICi_Csum1 ?p) = (if ici_chunkCount s \<in> {0, 1} then [x] else [])"
    "ici_chunkCount ?p = (if ax_tlast w \<and> ici_chunkCount s \<notin> {0, 2} then 0 else ici_chunkCount s + 1)"
    "items (icm_soIPTX_Data ?p) = items (icm_soIPTX_Data s) @ [if ici_chunkCount s = 2 then ip4_setIcmpCsum x w else w]"
    "depth (icm_soIPTX_Data ?p) = depth (icm_soIPTX_Data s)" "ssCMbToIHa_Data ?p = ssCMbToIHa_Data s" "ssCMbToIHa_IpHdr ?p = ssCMbToIHa_IpHdr s"
    "aih_fsmState ?p = aih_fsmState s" "iha_icmpData ?p = iha_icmpData s" "iha_remoteIpHostAddr ?p = iha_remoteIpHostAddr s"
    "bcm_fsmState ?p = bcm_fsmState s"
    using a assms(3,4)
    by (cases "ici_chunkCount s = 0"; cases "ici_chunkCount s = 2";
        simp add: pIcmpChecksumInserter_def ici_read_def ici_csum_def ici_put_def sread_cons [OF assms(2)] sread_cons [OF x]
          sempty_def append_flow_def Let_def)+
  have "icmp_fits ?p"
    using p(1,5,6) assms(5) by (simp add: icmp_fits_def append_flow_def fits_def)
  then have "t = ?p" by (simp add: t_def waiting_def)
  with p show "append_flow t" "ici_dataStreamSource t" "items (ssUVwToICi_Csum1 t) = (if ici_chunkCount s \<in> {0, 1} then [x] else [])"
    "ici_chunkCount t = (if ax_tlast w \<and> ici_chunkCount s \<notin> {0, 2} then 0 else ici_chunkCount s + 1)"
    "items (icm_soIPTX_Data t) = items (icm_soIPTX_Data s) @ [if ici_chunkCount s = 2 then ip4_setIcmpCsum x w else w]"
    "depth (icm_soIPTX_Data t) = depth (icm_soIPTX_Data s)" "ssCMbToIHa_Data t = ssCMbToIHa_Data s" "ssCMbToIHa_IpHdr t = ssCMbToIHa_IpHdr s"
    "aih_fsmState t = aih_fsmState s" "iha_icmpData t = iha_icmpData s" "iha_remoteIpHostAddr t = iha_remoteIpHostAddr s"
    "bcm_fsmState t = bcm_fsmState s"
    by simp_all
qed

text \<open>The chunk that joins the upper half of the previous chunk with the lower half of the current one, and what is
  left at the end.\<close>

definition iha_word :: "AxisIcmp \<Rightarrow> AxisIcmp \<Rightarrow> AxisIp4" where
  "iha_word p c = (let w = iha_join p c in
     if ax_tlast c \<and> get_range 7 4 (ax_tkeep c) = 0
     then setLE_TKeep (get_range 3 0 (ax_tkeep c)) 7 4 (w\<lparr>ax_tlast := True\<rparr>) else w)"

lemma upper_keep:
  assumes "chunk_ok c"
  shows "get_range 7 4 (ax_tkeep c) = 0 \<longleftrightarrow> getLen c \<le> 4"
proof -
  have "getLen c \<in> {1, 2, 3, 4, 5, 6, 7, 8}" "ax_tkeep c = mask (getLen c)" using upto_8 chunk_ok_keep [OF assms] by auto
  then show ?thesis by (elim insertE emptyE; simp add: get_range_def mask_eq_exp_minus_1)
qed

lemma iha_word_bytes:
  assumes "getLen p = 8" "chunk_ok c" "ax_tlast c \<or> getLen c = 8"
  shows "chunk_bytes (iha_word p c) = drop 4 (chunk_bytes p) @ take 4 (chunk_bytes c)"
    "ax_tlast (iha_word p c) = (getLen c \<le> 4)"
proof -
  note k = chunk_ok_keep [OF assms(2)] and u = upper_keep [OF assms(2)]
  have kp: "ax_tkeep p = mask 8" using assms(1) chunk_ok_keep [of p] by (simp add: chunk_ok_def)
  have "ax_tdata (iha_word p c) = ax_tdata (mwr_join 4 p c)"
    by (rule bit_word_eqI) (auto simp: iha_word_def iha_join_def setLE_TData_def setLE_TKeep_def bit_set_range bit_get_range
        bit_mwr_join_data Let_def)
  moreover have "ax_tkeep (iha_word p c) = ax_tkeep (mwr_join 4 p c)"
  proof (rule bit_word_eqI)
    fix n assume n: "n < LENGTH(8)"
    have ff: "bit (0xFF :: 8 word) n" using n bit_mask_iff [of 8 n, where 'a = "8 word"] by (simp add: mask_eq_exp_minus_1)
    show "bit (ax_tkeep (iha_word p c)) n = bit (ax_tkeep (mwr_join 4 p c)) n"
      using n k u assms(3) ff kp
      by (auto simp: iha_word_def iha_join_def setLE_TData_def setLE_TKeep_def bit_set_range bit_get_range
          bit_mwr_join_keep bit_mask_iff Let_def)
  qed
  ultimately have "chunk_bytes (iha_word p c) = chunk_bytes (mwr_join 4 p c)" by (simp add: chunk_bytes_def getLen_def)
  then show "chunk_bytes (iha_word p c) = drop 4 (chunk_bytes p) @ take 4 (chunk_bytes c)"
    using chunk_bytes_join [of 4 p c] assms by simp
  show "ax_tlast (iha_word p c) = (getLen c \<le> 4)"
    using u assms(3) by (auto simp: iha_word_def iha_join_def setLE_TData_def setLE_TKeep_def Let_def)
qed

lemma iha_residue_bytes:
  assumes "4 < getLen p"
  shows "chunk_bytes (iha_residue p) = drop 4 (chunk_bytes p)"
proof -
  have "ax_tdata (iha_residue p) = ax_tdata (mwr_tail 4 p)" "ax_tkeep (iha_residue p) = ax_tkeep (mwr_tail 4 p)"
    by (rule bit_word_eqI; auto simp: iha_residue_def setLE_TData_def setLE_TKeep_def bit_set_range bit_get_range
        bit_mwr_tail_data bit_mwr_tail_keep)+
  then have "chunk_bytes (iha_residue p) = chunk_bytes (mwr_tail 4 p)" by (simp add: chunk_bytes_def getLen_def)
  then show ?thesis using chunk_bytes_tail [of 4 p] assms by (simp add: chunk_ok_def)
qed

definition append_running :: "'a ICMP_scheme \<Rightarrow> bool" where
  "append_running s \<longleftrightarrow> append_flow s \<and> ici_dataStreamSource s \<and> items (ssUVwToICi_Csum1 s) = [] \<and> 3 \<le> unat (ici_chunkCount s)"

definition append_stream :: "'a ICMP_scheme \<Rightarrow> bool" where
  "append_stream s \<longleftrightarrow> append_running s \<and> aih_fsmState s = AIH_STREAM \<and> (items (ssCMbToIHa_Data s) \<noteq> [] \<longrightarrow> payload_ok (items (ssCMbToIHa_Data s))) \<and>
     unat (ici_chunkCount s) + length (items (ssCMbToIHa_Data s)) \<le> 126"

definition append_residue :: "'a ICMP_scheme \<Rightarrow> bool" where
  "append_residue s \<longleftrightarrow> append_running s \<and> aih_fsmState s = AIH_RESIDUE"

definition append_over :: "'a ICMP_scheme \<Rightarrow> bool" where
  "append_over s \<longleftrightarrow> append_flow s \<and> items (ssUVwToICi_Csum1 s) = [] \<and> aih_fsmState s = AIH_IDLE \<and> ici_chunkCount s = 0"

text \<open>An activation in which the appender sends a chunk \<open>w\<close>.\<close>

lemma append_send:
  assumes "append_flow s" "pIpHeaderAppender ownIp s = u\<lparr>ssXYzToICi_Data1 := swrite (ssXYzToICi_Data1 s) w\<rparr>"
    and "append_flow u" "icm_soIPTX_Data u = icm_soIPTX_Data s" "ssXYzToICi_Data1 u = ssXYzToICi_Data1 s"
    and "ici_chunkCount u \<noteq> 0 \<Longrightarrow> ici_dataStreamSource u" "items (ssUVwToICi_Csum1 u) = (if ici_chunkCount u \<in> {0, 1, 2} then [x] else [])"
    and "length (items (icm_soIPTX_Data s)) < depth (icm_soIPTX_Data s)"
  defines "t \<equiv> icmp_append ownIp s"
  shows "append_flow t" "ici_dataStreamSource t" "items (ssUVwToICi_Csum1 t) = (if ici_chunkCount u \<in> {0, 1} then [x] else [])"
    "aih_fsmState t = aih_fsmState u"
    "ici_chunkCount t = (if ax_tlast w \<and> ici_chunkCount u \<notin> {0, 2} then 0 else ici_chunkCount u + 1)"
    "items (icm_soIPTX_Data t) = items (icm_soIPTX_Data s) @ [if ici_chunkCount u = 2 then ip4_setIcmpCsum x w else w]"
    "depth (icm_soIPTX_Data t) = depth (icm_soIPTX_Data s)" "ssCMbToIHa_Data t = ssCMbToIHa_Data u" "ssCMbToIHa_IpHdr t = ssCMbToIHa_IpHdr u"
    "iha_icmpData t = iha_icmpData u" "iha_remoteIpHostAddr t = iha_remoteIpHostAddr u" "bcm_fsmState t = bcm_fsmState u"
proof -
  let ?v = "u\<lparr>ssXYzToICi_Data1 := swrite (ssXYzToICi_Data1 s) w\<rparr>"
  have e: "items (ssXYzToICi_Data1 s) = []" using assms(1) by (simp add: append_flow_def)
  have v: "append_flow (?v\<lparr>ssXYzToICi_Data1 := Stream (depth (ssXYzToICi_Data1 ?v)) []\<rparr>)" "items (ssXYzToICi_Data1 ?v) = [w]"
    "ici_chunkCount ?v \<noteq> 0 \<Longrightarrow> ici_dataStreamSource ?v"
    "items (ssUVwToICi_Csum1 ?v) = (if ici_chunkCount ?v \<in> {0, 1, 2} then [x] else [])"
    "length (items (icm_soIPTX_Data ?v)) < depth (icm_soIPTX_Data ?v)"
    using assms(3-8) e by (simp_all add: append_flow_def)
  have t: "t = waiting pIcmpChecksumInserter ?v" by (simp add: t_def icmp_append_def assms(2))
  note r = inserter_error [OF v, folded t]
  show "append_flow t" "ici_dataStreamSource t" "items (ssUVwToICi_Csum1 t) = (if ici_chunkCount u \<in> {0, 1} then [x] else [])"
    "aih_fsmState t = aih_fsmState u"
    "ici_chunkCount t = (if ax_tlast w \<and> ici_chunkCount u \<notin> {0, 2} then 0 else ici_chunkCount u + 1)"
    "items (icm_soIPTX_Data t) = items (icm_soIPTX_Data s) @ [if ici_chunkCount u = 2 then ip4_setIcmpCsum x w else w]"
    "depth (icm_soIPTX_Data t) = depth (icm_soIPTX_Data s)" "ssCMbToIHa_Data t = ssCMbToIHa_Data u" "ssCMbToIHa_IpHdr t = ssCMbToIHa_IpHdr u"
    "iha_icmpData t = iha_icmpData u" "iha_remoteIpHostAddr t = iha_remoteIpHostAddr u" "bcm_fsmState t = bcm_fsmState u"
    using r assms(4) by simp_all
qed

end
