(* ===== verification/Icmp_Message.thy ===== *)
theory Icmp_Message
  imports Icmp_Error
begin

text \<open>
  The packets with error messages that the ICMP server (\<open>Icmp\<close>) sends, byte by byte, and their checksum.
\<close>

section \<open>The packet after the header\<close>


section \<open>The header\<close>










section \<open>The bytes\<close>










section \<open>The promise\<close>




end
