(* ===== verification/Spec2Isabelle.thy ===== *)
theory Spec2Isabelle
  imports State_Table Rx_Sar_Table Tx_Sar_Table Port_Table Ack_Delay Timers Session_Lookup Rx_Buffer
    Rx_Window Rx_Meta Rx_Ring Tx_Control Tx_Retransmit Rx_Engine Ip_Path Arp_Resolve Rlb Icmp_Message
begin

text \<open>
  The hardware network stack of the cloudFPGA shell, \<open>src/SRA/LIB/SHELL/LIB/hls/NTS\<close>: C++ for high-level
  synthesis.  Paths below are relative to that directory.

  \<^bold>\<open>The program.\<close>  An Ethernet frame enters the IPv4 receiver (\<open>iprx\<close>), which drops the frames of others, checks
  the IPv4 header and gives the packet to the ARP server (\<open>arp\<close>), the ICMP server, the UDP engine or the TCP
  offload engine (\<open>toe\<close>).  The engine's receive path (RXe) verifies the checksum of a segment, finds its
  session (SLc with the memory CAM), runs the state machine on the tables of the session (STt, RSt, TSt),
  writes the payload to the receive buffer, and tells the application interface (RAi).  The transmit path
  takes data of the application (TAi), buffers it, and on the events of the event engine (EVe), the ACK
  delayer (AKd) and the timers (TIm) makes segments (TXe), which the IPv4 transmitter (\<open>iptx\<close>) frames for the
  next hop that the ARP server names.  The processes of a component run in parallel and share nothing but
  streams, that is FIFOs.

  \<^bold>\<open>How it is modelled.\<close>  A component is a record of its ports, local streams and static variables, one field
  each; a process is a function on that record, one activation long (every guard, early return and state of
  the source is a branch of it); and the component is the composition of its processes in the order of the
  source, e.g.\ \<open>rx_engine\<close>, \<open>iprx\<close>.  Where processes of one component are modelled in several theories the
  records are extended.  Integers keep their widths as words.  A function returns an option only where the
  source indexes arrays: \<open>None\<close> is an access out of bounds.  A parameter \<open>junk\<close> stands for what a variable
  holds that no constructor initialises.  \<open>full()\<close> is \<open>sfull\<close> with the depths of the source, and a write never
  loses an element, as the hardware waits (\<open>Icmp\<close>, where the wait matters, models it as \<open>waiting\<close>).  The code that is synthesised is modelled, so no traces.

  \<^bold>\<open>Theories, by component.\<close>
  \<^item> \<open>Prelude\<close>: streams, the locale \<open>fifo\<close> that they interpret, the locale \<open>scan\<close> of the processes that walk over
    a table (\<open>Ack_Delay\<close>, \<open>Timers\<close>), collections of lemmas.  \<open>Toe_Types\<close>: the messages (\<open>nts_types.hpp\<close>, \<open>toe.hpp\<close>).
  \<^item> \<open>State_Table\<close>, \<open>Rx_Sar_Table\<close>, \<open>Tx_Sar_Table\<close>, \<open>Port_Table\<close>, \<open>Event_Engine\<close>, \<open>Ack_Delay\<close>, \<open>Timers\<close>,
    \<open>Session_Lookup\<close> (with \<open>Toe_Cam\<close>, \<open>toecam/src\<close>, behind the locale \<open>session_memory\<close>): the file of the same name
    under \<open>toe/src\<close>.  The tables refine abstract ones: locks per session whose steps are labelled with the
    request that is served, windows, a map; the port table is shown in runs with a ghost set of ports in use.
  \<^item> \<open>Rx_Header\<close> (TLe, IPh, CSa), \<open>Rx_Meta\<close> (Mdh, Evm), \<open>Rx_Fsm\<close> (Fsm), \<open>Rx_Path\<close> (Tid, Tsd), \<open>Rx_Memory\<close> (Mwr and the
    notifications), all in \<open>rx_engine.cpp\<close> and composed in \<open>Rx_Engine\<close>.  \<open>Rx_Checksum\<close> and \<open>Rx_Accept\<close> show
    the front of it on the bytes of packets; \<open>Rx_Window\<close> and \<open>Rx_Buffer\<close> what the state machine does to the windows
    and the receive buffer; \<open>Rx_App\<close> is the application interface (\<open>rx_app_interface.cpp\<close>), \<open>Rx_Stitch\<close> and
    \<open>Rx_Ring\<close> show that it reads what was written, around the end of the ring.
  \<^item> \<open>Tx_App\<close> (\<open>tx_app_interface.cpp\<close>) with \<open>Tx_Buffer\<close> (flow control), \<open>Tx_Write\<close> (memory writer) and \<open>Tx_Control\<close>;
    \<open>Tx_Engine\<close> (\<open>tx_engine.cpp\<close>) with \<open>Tx_Checksum\<close>, \<open>Tx_Packet\<close> (the bytes of a packet), \<open>Tx_Segments\<close> and
    \<open>Tx_Retransmit\<close> (the metadata loader).
  \<^item> \<open>Ip_Tx\<close> (\<open>iptx.cpp\<close>) with \<open>Ip_Frame\<close>; \<open>Ip_Rx\<close> (\<open>iprx.cpp\<close>) with \<open>Ip_Check\<close>, \<open>Ip_Deliver\<close>, \<open>Ip_Route\<close>
    (process by process), \<open>Ip_Receive\<close> (any schedule of the processes as the relation \<open>iprx_step\<close>) and \<open>Ip_Wire\<close>
    (the promises).  \<open>Ip_Path\<close> composes the transmit engine, \<open>iptx\<close>, \<open>iprx\<close> and the receive engine.
  \<^item> \<open>Icmp\<close> (\<open>icmp.cpp\<close>) with \<open>Icmp_Echo\<close> and \<open>Icmp_Reply\<close> (pings), \<open>Icmp_Error\<close> and \<open>Icmp_Message\<close> (error messages).
  \<^item> \<open>Arp\<close> (\<open>arp.cpp\<close>) with \<open>Arp_Resolve\<close>; \<open>Rlb\<close> (\<open>rlb.cpp\<close>).  \<open>Axis_Headers\<close>: the fields of the headers
    (\<open>AxisRaw\<close>, \<open>AxisEth\<close>, \<open>AxisIp4\<close>, \<open>AxisPsd4\<close>).
  This theory holds what spans the session lookup controller and the port table.

  \<^bold>\<open>Interfaces.\<close>  Processes that do the same to a stream share a locale: \<open>segment_filter\<close> (pass or drop one segment:
  Tid, Tsd, the writer, the IPv4 inserter, dropper and cutter, the echo path of the ICMP server), \<open>stitcher\<close> (join the two halves of a split
  read: RAi and TXe), \<open>shifter\<close> (move a packet by the bytes of a header: TLe, IPh, CSa, the MAC inserter, the
  accumulator of \<open>iprx\<close>, the header appender of \<open>icmp\<close>), \<open>delay_line\<close> (hold chunks and flush them: three processes of \<open>iprx\<close>).  The laws are what
  one activation does; the lemmas of the locale are what a run does to a whole packet; each component
  interprets its locale on its own process.

  \<^bold>\<open>What is shown.\<close>  Type invariants and safety of single processes; refinement of abstract tables and of the
  receive windows; the connection states of RFC 793, with a list of the deviations; packets byte by byte (a reference encoder and parser on lists of bytes against the
  processes on chunks of eight); round trips through the rings, the checksum and the whole stack; bounds of
  counters and of table accesses; termination and deadlines of scans; and defects, shown as what the code
  does (the findings name them).  Where the code violates what one expects in some case, the claim says
  which case: segments that start an out-of-order block beyond the window (\<open>Rx_Buffer\<close>), the FIN event of
  a session with waiting data (\<open>Tx_Segments\<close>), split payloads that begin with exactly one chunk (\<open>Tx_Packet\<close>),
  a ring that ends inside the last chunk (\<open>Tx_Write\<close>), a grant into a full FIFO (\<open>Port_Table\<close>), an
  insertion into the full memory (\<open>Toe_Cam\<close>), packets with options (\<open>Ip_Wire\<close>).

  \<^bold>\<open>Bounds.\<close>  A run on a packet is given by the number of activations of each process or, in \<open>Ip_Receive\<close> and
  \<open>Arp_Resolve\<close>, by a schedule.  These run one process after the other, so that they assume streams
  as deep as the packet has chunks (the predicates \<open>..._room\<close>), while the hardware overlaps them; results about
  any schedule (\<open>iprx_stays_typed\<close>, the invariants of the tables) need no such room.  The IPv4 receiver is
  shown on frames of more than 40 bytes with headers of 20 or 24 bytes, as longer headers are dropped because
  of a defect; the ICMP server on packets of more than 24 bytes, as a message has 28, and of at most 64 chunks,
  beyond which its echo half stops; ARP frames have at most 256 chunks, as their counter has eight bits.

  \<^bold>\<open>Not modelled.\<close>  The UDP engine, NAL and FMC: they are beside the path of TCP.  The top of the
  TOE (\<open>toe.cpp\<close>) only connects the components; names and depths of its streams are used.  The memories of the
  ARP server and of the data mover are not code of the repository for synthesis in C++: their requests and
  replies are streams.  Test benches, simulation models and the superseded cores under \<open>legacy\<close> are left out.
\<close>

section \<open>Closing a session releases its port\<close>

text \<open>The session lookup controller tells the port table which port a released session used.\<close>

definition slc_to_prt :: "SLc \<Rightarrow> PRt \<Rightarrow> PRt" where
  "slc_to_prt s t = t\<lparr>prt_siSLc_CloseActPortCmd := slc_soPRt_ClosePortCmd s\<rparr>"

definition fpt_ready :: "PRt \<Rightarrow> bool" where
  "fpt_ready t \<longleftrightarrow> fpt_isFPtInit t \<and> \<not> fpt_searching t \<and> \<not> fpt_eval t \<and>
     items (ssIrrToFpt_GetActPortStateCmd t) = [] \<and> items (prt_siTAi_GetFreePortReq t) = []"

lemma fpt_close:
  assumes "fpt_ready t" "items (prt_siSLc_CloseActPortCmd t) = [p]"
  shows "ACTIVE_PORT_TABLE (pFreePortTable t) =
     (if bit p 15 then (ACTIVE_PORT_TABLE t)(ucast p := False) else ACTIVE_PORT_TABLE t)"
  using assms by (simp add: pFreePortTable_def fpt_ready_def sempty_def sread_cons Let_def)

lemma ephemeral_eq:
  assumes "bit (p::16 word) 15" "bit (q::16 word) 15" "(ucast p :: 15 word) = ucast q"
  shows "p = q"
proof (rule bit_word_eqI)
  fix n assume n: "n < LENGTH(16)"
  show "bit p n = bit q n"
  proof (cases "n = 15")
    case False
    then have "bit (ucast p :: 15 word) n = bit (ucast q :: 15 word) n" using assms(3) by simp
    with n False show ?thesis by (simp add: bit_ucast_iff)
  qed (use assms in simp)
qed

text \<open>C39. Closing an active connection does not free its port: the reverse table holds the ports in
  little-endian order and sends them so, while the port table reads them in network order.  For
  the session that the Tx application interface opened with an ephemeral source port \<open>p\<close>, the
  release announces \<open>byteSwap16 p\<close>, and unless both bytes of \<open>p\<close> are equal the entry of \<open>p\<close> keeps
  its state.\<close>

theorem slc_close_keeps_port:
  assumes "TUPLE_VALID_TABLE s i" "REVERSE_LOOKUP_TABLE s i = slcq_tuple (slc_tai_query sp)"
    and "items (slc_soPRt_ClosePortCmd s) = []" "p = sa_port (sp_src sp)"
    and "bit p 15" "byteSwap16 p \<noteq> p" "fpt_ready t"
  shows "items (slc_soPRt_ClosePortCmd (rlt_release i s)) = [byteSwap16 p] \<and>
     ACTIVE_PORT_TABLE (pFreePortTable (slc_to_prt (rlt_release i s) t)) (ucast p) =
       ACTIVE_PORT_TABLE t (ucast p)"
proof -
  let ?t = "slc_to_prt (rlt_release i s) t"
  have cmd: "items (slc_soPRt_ClosePortCmd (rlt_release i s)) = [byteSwap16 p]"
    using assms(1-4) by (simp add: rlt_release_def slc_tai_query_def Let_def)
  then have "fpt_ready ?t" "items (prt_siSLc_CloseActPortCmd ?t) = [byteSwap16 p]"
    using assms(7) by (simp_all add: slc_to_prt_def fpt_ready_def)
  from fpt_close [OF this] show ?thesis
    using cmd ephemeral_eq [of "byteSwap16 p" p] assms(5,6) by (auto simp: slc_to_prt_def)
qed

theorem slc_close_keeps_port_witness:
  "let sp = \<lparr>sp_src = \<lparr>sa_addr = 1, sa_port = 0x8001\<rparr>, sp_dst = \<lparr>sa_addr = 2, sa_port = 80\<rparr>\<rparr>;
       s = (slc_ready (\<lambda>_. slcq_tuple (slc_tai_query sp)))\<lparr>TUPLE_VALID_TABLE := (\<lambda>_. True)\<rparr>;
       t = (prt_reset (\<lambda>_. False) (\<lambda>_. True))\<lparr>fpt_isFPtInit := True\<rparr>
   in ACTIVE_PORT_TABLE (pFreePortTable (slc_to_prt (rlt_release 3 s) t)) 1"
proof -
  let ?sp = "\<lparr>sp_src = \<lparr>sa_addr = 1, sa_port = 0x8001\<rparr>, sp_dst = \<lparr>sa_addr = 2, sa_port = 80\<rparr>\<rparr>"
  let ?s = "(slc_ready (\<lambda>_. slcq_tuple (slc_tai_query ?sp)))\<lparr>TUPLE_VALID_TABLE := (\<lambda>_. True)\<rparr>"
  let ?t = "(prt_reset (\<lambda>_. False) (\<lambda>_. True))\<lparr>fpt_isFPtInit := True\<rparr>"
  have "bit (0x8001 :: 16 word) 15" "byteSwap16 0x8001 \<noteq> 0x8001"
    "(ucast (0x8001 :: 16 word) :: 15 word) = 1"
    by code_simp+
  then have "ACTIVE_PORT_TABLE (pFreePortTable (slc_to_prt (rlt_release 3 ?s) ?t)) (ucast (0x8001 :: 16 word)) =
      ACTIVE_PORT_TABLE ?t (ucast (0x8001 :: 16 word))"
    by (intro slc_close_keeps_port [of ?s 3 ?sp "0x8001" ?t, THEN conjunct2])
      (simp_all add: fpt_ready_def prt_reset_def slc_ready_def slc_reset_def)
  then show ?thesis
    unfolding Let_def \<open>ucast (0x8001 :: 16 word) = (1 :: 15 word)\<close> by (simp add: prt_reset_def)
qed

end
